(* ===== verification/MrfPrelude.thy ===== *)
theory MrfPrelude
  imports Main "HOL-Library.Word" "HOL-Library.Signed_Division"
begin

text \<open>
  What all components share: the names of the fixed-width integer types of the C++ code, the
  byte order of the host and the conversion functions of \<^verbatim>\<open>arpa/inet.h\<close>, the result type of
  operations that throw, and the generic list and word lemmas the component theories use.

  The host's byte order is a parameter (\<open>byte_order\<close>) of every definition whose meaning depends
  on it, so each theorem says on which hosts it holds.
\<close>

unbundle bit_operations_syntax

named_theorems byte_order_simps \<open>evaluation of byte-order conversions\<close>

section \<open>Types\<close>

type_synonym u8 = "8 word"
type_synonym u16 = "16 word"
type_synonym u32 = "32 word"

text \<open>Points in time and durations of \<^verbatim>\<open>std::chrono::steady_clock\<close> are counted in nanoseconds.\<close>

type_synonym time = int

section \<open>Byte order\<close>

datatype byte_order = LittleEndian | BigEndian

definition swap16 :: "u16 \<Rightarrow> u16" where
  "swap16 w = push_bit 8 w OR drop_bit 8 w"

definition swap32 :: "u32 \<Rightarrow> u32" where
  "swap32 w = push_bit 24 (take_bit 8 w) OR push_bit 16 (take_bit 8 (drop_bit 8 w))
     OR push_bit 8 (take_bit 8 (drop_bit 16 w)) OR take_bit 8 (drop_bit 24 w)"

text \<open>Host to network order and back are the same function, as in \<^verbatim>\<open>arpa/inet.h\<close>.\<close>

definition htons :: "byte_order \<Rightarrow> u16 \<Rightarrow> u16" where
  "htons bo w = (case bo of LittleEndian \<Rightarrow> swap16 w | BigEndian \<Rightarrow> w)"

definition htonl :: "byte_order \<Rightarrow> u32 \<Rightarrow> u32" where
  "htonl bo w = (case bo of LittleEndian \<Rightarrow> swap32 w | BigEndian \<Rightarrow> w)"

abbreviation "ntohs \<equiv> htons"
abbreviation "ntohl \<equiv> htonl"

text \<open>The bytes of a value, most significant byte first, and its bytes in the host's memory.\<close>

definition be_bytes16 :: "u16 \<Rightarrow> u8 list" where
  "be_bytes16 w = [ucast (drop_bit 8 w), ucast w]"

definition be_bytes32 :: "u32 \<Rightarrow> u8 list" where
  "be_bytes32 w = [ucast (drop_bit 24 w), ucast (drop_bit 16 w), ucast (drop_bit 8 w), ucast w]"

definition mem_bytes16 :: "byte_order \<Rightarrow> u16 \<Rightarrow> u8 list" where
  "mem_bytes16 bo w = (case bo of BigEndian \<Rightarrow> be_bytes16 w | LittleEndian \<Rightarrow> rev (be_bytes16 w))"

definition mem_bytes32 :: "byte_order \<Rightarrow> u32 \<Rightarrow> u8 list" where
  "mem_bytes32 bo w = (case bo of BigEndian \<Rightarrow> be_bytes32 w | LittleEndian \<Rightarrow> rev (be_bytes32 w))"

lemma swap16_swap16 [simp]: "swap16 (swap16 w) = w"
  by (rule bit_word_eqI) (auto simp: swap16_def bit_simps)

lemma swap32_bit:
  "bit (swap32 w) n \<longleftrightarrow> n < 32 \<and> bit w (if n < 8 then 24 + n else if n < 16 then 8 + n
     else if n < 24 then n - 8 else n - 24)"
  by (auto simp: swap32_def bit_simps add.commute)

lemma swap32_swap32 [simp]: "swap32 (swap32 w) = w"
  by (rule bit_word_eqI) (auto simp: swap32_bit)

lemma htons_htons [simp]: "htons bo (htons bo w) = w"
  by (simp add: htons_def split: byte_order.split)

lemma htonl_htonl [simp]: "htonl bo (htonl bo w) = w"
  by (simp add: htonl_def split: byte_order.split)

text \<open>A value converted to network order lies in the host's memory most significant byte first.\<close>

lemma mem_bytes16_htons [byte_order_simps]: "mem_bytes16 bo (htons bo w) = be_bytes16 w"
  by (cases bo) (auto simp: mem_bytes16_def htons_def be_bytes16_def swap16_def bit_simps
      intro!: bit_word_eqI)

lemma mem_bytes32_htonl [byte_order_simps]: "mem_bytes32 bo (htonl bo w) = be_bytes32 w"
  by (cases bo) (auto simp: mem_bytes32_def htonl_def be_bytes32_def swap32_bit bit_simps add.commute
      intro!: bit_word_eqI)

text \<open>Reading a value back from bytes in the host's memory.\<close>

definition of_be_bytes16 :: "u8 list \<Rightarrow> u16" where
  "of_be_bytes16 bs = push_bit 8 (ucast (bs ! 0)) OR ucast (bs ! 1)"

definition of_be_bytes32 :: "u8 list \<Rightarrow> u32" where
  "of_be_bytes32 bs = push_bit 24 (ucast (bs ! 0)) OR push_bit 16 (ucast (bs ! 1))
     OR push_bit 8 (ucast (bs ! 2)) OR ucast (bs ! 3)"

definition of_mem_bytes16 :: "byte_order \<Rightarrow> u8 list \<Rightarrow> u16" where
  "of_mem_bytes16 bo bs = of_be_bytes16 (case bo of BigEndian \<Rightarrow> bs | LittleEndian \<Rightarrow> rev bs)"

definition of_mem_bytes32 :: "byte_order \<Rightarrow> u8 list \<Rightarrow> u32" where
  "of_mem_bytes32 bo bs = of_be_bytes32 (case bo of BigEndian \<Rightarrow> bs | LittleEndian \<Rightarrow> rev bs)"

lemma length_be_bytes [simp]:
  "length (be_bytes16 w) = 2" "length (be_bytes32 v) = 4"
  by (simp_all add: be_bytes16_def be_bytes32_def)

lemma length_mem_bytes [simp]:
  "length (mem_bytes16 bo w) = 2" "length (mem_bytes32 bo v) = 4"
  by (simp_all add: mem_bytes16_def mem_bytes32_def split: byte_order.split)

lemma of_be_bytes16_inverse [simp]: "of_be_bytes16 (be_bytes16 w) = w"
  by (rule bit_word_eqI) (auto simp: of_be_bytes16_def be_bytes16_def bit_simps)

lemma of_be_bytes32_inverse [simp]: "of_be_bytes32 (be_bytes32 w) = w"
proof (rule bit_word_eqI)
  fix n
  assume "n < LENGTH(32)"
  then consider "n < 8" | "8 \<le> n" "n < 16" | "16 \<le> n" "n < 24" | "24 \<le> n" "n < 32"
    by fastforce
  then show "bit (of_be_bytes32 (be_bytes32 w)) n = bit w n"
    by cases (auto simp: of_be_bytes32_def be_bytes32_def bit_simps)
qed

lemma of_mem_bytes_inverse [simp]:
  "of_mem_bytes16 bo (mem_bytes16 bo w) = w" "of_mem_bytes32 bo (mem_bytes32 bo v) = v"
  by (simp_all add: of_mem_bytes16_def of_mem_bytes32_def mem_bytes16_def mem_bytes32_def
      split: byte_order.split)

lemma of_mem_bytes_be [byte_order_simps]:
  "of_mem_bytes16 bo (be_bytes16 w) = htons bo w" "of_mem_bytes32 bo (be_bytes32 v) = htonl bo v"
  by (metis mem_bytes16_htons of_mem_bytes_inverse(1))
     (metis mem_bytes32_htonl of_mem_bytes_inverse(2))

end
