(* ===== verification/MemoryAccess.thy ===== *)
theory MemoryAccess
  imports MrfPrelude
begin

text \<open>
  The memory-access interface (\<^verbatim>\<open>mrfApp/mrfCommonSrc/MrfMemoryAccess.{h,cpp}\<close>) and the parts
  of \<^verbatim>\<open>MrfConsistentMemoryAccess.cpp\<close> that do not depend on an implementation: the error codes
  and their texts, the rendering of addresses, the callback objects that turn an asynchronous
  operation into a blocking one, and the masked write that is an update with a fixed function.
\<close>

section \<open>Error codes and messages\<close>

datatype ErrorCode = EC_unknown | EC_invalidAddress | EC_fpgaTimeout | EC_networkTimeout
  | EC_invalidCommand

fun mrfErrorCodeToString :: "ErrorCode \<Rightarrow> string" where
  "mrfErrorCodeToString EC_unknown = ''Unknown error''"
| "mrfErrorCodeToString EC_invalidAddress = ''Invalid address''"
| "mrfErrorCodeToString EC_fpgaTimeout = ''FPGA timeout''"
| "mrfErrorCodeToString EC_networkTimeout = ''Network timeout''"
| "mrfErrorCodeToString EC_invalidCommand = ''Invalid command''"

text \<open>The conversion \<^verbatim>\<open>"0x%08x"\<close> of \<^verbatim>\<open>snprintf\<close>: eight lower-case hexadecimal digits.\<close>

definition hex_char :: "nat \<Rightarrow> char" where
  "hex_char d = ''0123456789abcdef'' ! d"

definition hex_digits8 :: "u32 \<Rightarrow> nat list" where
  "hex_digits8 a = map (\<lambda>i. unat (take_bit 4 (drop_bit (4 * i) a))) [7, 6, 5, 4, 3, 2, 1, 0]"

definition mrfMemoryAddressToString :: "u32 \<Rightarrow> string" where
  "mrfMemoryAddressToString a = ''0x'' @ map hex_char (hex_digits8 a)"

section \<open>Callbacks and the blocking operations\<close>

text \<open>A notification that a memory access makes to the callback of a request.\<close>

datatype 'v reply = Success u32 'v | Failure u32 ErrorCode string

text \<open>
  The callbacks of 16-bit and of 32-bit operations are known by numbers; \<open>None\<close> is a null pointer,
  where nothing is notified.
\<close>

datatype notification = Notify16 nat "u16 reply" | Notify32 nat "u32 reply"

definition notify16 :: "nat option \<Rightarrow> u16 reply \<Rightarrow> notification list" where
  "notify16 cb r = (case cb of None \<Rightarrow> [] | Some f \<Rightarrow> [Notify16 f r])"

definition notify32 :: "nat option \<Rightarrow> u32 reply \<Rightarrow> notification list" where
  "notify32 cb r = (case cb of None \<Rightarrow> [] | Some f \<Rightarrow> [Notify32 f r])"

fun notification_client :: "notification \<Rightarrow> nat" where
  "notification_client (Notify16 d r) = d"
| "notification_client (Notify32 d r) = d"

text \<open>
  \<^verbatim>\<open>CallbackImpl<T>\<close>: the state behind its mutex. The field \<open>value\<close> is not initialised by the
  constructor, so its first content is an argument.
\<close>

record 'v CallbackImpl =
  finished :: bool
  callback_value :: 'v
  successful :: bool
  failed_address :: u32
  failed_errorCode :: ErrorCode
  failed_details :: string

definition new_CallbackImpl :: "'v \<Rightarrow> 'v CallbackImpl" where
  "new_CallbackImpl raw = \<lparr>finished = False, callback_value = raw, successful = False,
     failed_address = 0, failed_errorCode = EC_unknown, failed_details = ''''\<rparr>"

fun CallbackImpl_notify :: "'v reply \<Rightarrow> 'v CallbackImpl \<Rightarrow> 'v CallbackImpl" where
  "CallbackImpl_notify (Success _ v) c =
     c\<lparr>finished := True, callback_value := v, successful := True\<rparr>"
| "CallbackImpl_notify (Failure a e d) c =
     c\<lparr>finished := True, successful := False, failed_address := a, failed_errorCode := e,
       failed_details := d\<rparr>"

text \<open>
  \<open>getResult\<close> waits on the condition variable until \<open>finished\<close> is set: \<open>None\<close> is the waiting
  caller, \<open>Some (Inl m)\<close> the \<^verbatim>\<open>std::runtime_error\<close> with message \<open>m\<close>.
\<close>

definition failure_text :: "ErrorCode \<Rightarrow> string \<Rightarrow> string" where
  "failure_text e d = (if d = [] then mrfErrorCodeToString e else d)"

definition getResult :: "'v CallbackImpl \<Rightarrow> (string + 'v) option" where
  "getResult c =
     (if \<not> finished c then None
      else if \<not> successful c then
        Some (Inl (''Memory access operation for address ''
          @ mrfMemoryAddressToString (failed_address c) @ '' failed: ''
          @ failure_text (failed_errorCode c) (failed_details c)))
      else Some (Inr (callback_value c)))"

text \<open>
  The four blocking operations are the same three lines: create the callback, start the
  asynchronous operation with it, wait. \<open>replies\<close> are the notifications that the asynchronous
  operation has made when the caller looks at the state.
\<close>

definition blocking_call :: "'v \<Rightarrow> 'v reply list \<Rightarrow> (string + 'v) option" where
  "blocking_call raw replies = getResult (fold CallbackImpl_notify replies (new_CallbackImpl raw))"

lemma blocking_call_waits [simp]: "blocking_call raw [] = None"
  by (simp add: blocking_call_def getResult_def new_CallbackImpl_def)

lemma blocking_call_success [simp]: "blocking_call raw [Success a v] = Some (Inr v)"
  by (simp add: blocking_call_def getResult_def new_CallbackImpl_def)

lemma blocking_call_failure:
  "blocking_call raw [Failure a e d] = Some (Inl (''Memory access operation for address ''
     @ mrfMemoryAddressToString a @ '' failed: '' @ failure_text e d))"
  by (simp add: blocking_call_def getResult_def new_CallbackImpl_def)

lemma finished_fold:
  "finished (fold CallbackImpl_notify rs c) \<longleftrightarrow> finished c \<or> rs \<noteq> []"
proof (induction rs arbitrary: c)
  case (Cons r rs)
  then show ?case by (cases r) auto
qed simp

lemma getResult_None: "getResult c = None \<longleftrightarrow> \<not> finished c"
  by (simp add: getResult_def)

lemma blocking_call_returns_iff: "blocking_call raw rs \<noteq> None \<longleftrightarrow> rs \<noteq> []"
  by (simp add: blocking_call_def getResult_None finished_fold new_CallbackImpl_def)

section \<open>Masked writes\<close>

text \<open>
  \<^verbatim>\<open>UpdatingCallbackImpl<T>::update\<close> of \<^verbatim>\<open>MrfConsistentMemoryAccess.cpp\<close>; the width of \<^verbatim>\<open>T\<close> is
  a type parameter as it is in the template.
\<close>

definition masked_update :: "'w::len word \<Rightarrow> 'w word \<Rightarrow> 'w word \<Rightarrow> 'w word" where
  "masked_update value msk oldValue = (oldValue AND NOT msk) OR (value AND msk)"

lemma masked_update_bit:
  "bit (masked_update v m old) n \<longleftrightarrow> (if bit m n then bit v n else bit old n)"
  by (auto simp: masked_update_def bit_simps dest: bit_imp_le_length)

lemma masked_update_full [simp]: "masked_update v (- 1) old = v"
  by (rule bit_word_eqI) (simp add: masked_update_bit bit_simps)

lemma masked_update_none [simp]: "masked_update v 0 old = old"
  by (rule bit_word_eqI) (simp add: masked_update_bit)

lemma masked_update_idem [simp]:
  "masked_update v m (masked_update v m old) = masked_update v m old"
  by (rule bit_word_eqI) (simp add: masked_update_bit)

text \<open>Two masked writes with disjoint masks commute, so their order does not matter.\<close>

lemma masked_update_commute:
  assumes "m AND m' = 0"
  shows "masked_update v m (masked_update v' m' old) = masked_update v' m' (masked_update v m old)"
proof (rule bit_word_eqI)
  fix n
  have "\<not> (bit m n \<and> bit m' n)"
    using arg_cong [OF assms, of "\<lambda>w. bit w n"] by (simp add: bit_simps)
  then show "bit (masked_update v m (masked_update v' m' old)) n
      \<longleftrightarrow> bit (masked_update v' m' (masked_update v m old)) n"
    by (auto simp: masked_update_bit)
qed

section \<open>Property of the blocking operations\<close>

text \<open>
  The blocking forms of read and write: the caller waits as long as there is no notification;
  then it gets the value of a success, and for a failure an exception whose text names the address
  and the details, or the name of the error code when there are none. When notifications come in
  between (a delegate should make only one), the caller sees the last one.
\<close>

lemma blocking_call_result:
  "blocking_call raw rs = (if rs = [] then None else (case last rs of
     Success a v \<Rightarrow> Some (Inr v)
   | Failure a e d \<Rightarrow> Some (Inl (''Memory access operation for address ''
       @ mrfMemoryAddressToString a @ '' failed: '' @ failure_text e d))))"
proof (cases rs rule: rev_cases)
  case (snoc qs r)
  then show ?thesis by (cases r) (simp_all add: blocking_call_def getResult_def)
qed simp

end
