(* ===== verification/ConsistentAccess.thy ===== *)
theory ConsistentAccess
  imports MemoryAccess "HOL-Library.Multiset"
begin

text \<open>
  The consistent memory access (\<^verbatim>\<open>mrfApp/mrfCommonSrc/MrfConsistentAsynchronousMemoryAccess.{h,cpp}\<close>
  and the masked writes of \<^verbatim>\<open>MrfConsistentMemoryAccess.cpp\<close>): write and update operations are
  delegated to another memory access, and an operation that overlaps a running one waits in a
  multimap keyed by the addresses of its bytes.

  This theory holds the operations as they are written. The proofs about them and about their
  interleavings are in \<^verbatim>\<open>ConsistentAccess_Proofs\<close>.
\<close>

section \<open>Operations\<close>

datatype OperationType = OpWriteUInt16 | OpWriteUInt32 | OpUpdateUInt16 | OpUpdateUInt32

record OperationInfo =
  oi_id :: nat
  oi_type :: OperationType
  oi_address :: u32

definition width :: "OperationInfo \<Rightarrow> nat" where
  "width op = (case oi_type op of OpWriteUInt16 \<Rightarrow> 2 | OpUpdateUInt16 \<Rightarrow> 2
     | OpWriteUInt32 \<Rightarrow> 4 | OpUpdateUInt32 \<Rightarrow> 4)"

text \<open>
  The addresses \<^verbatim>\<open>address + byteIndex\<close> the loops run through; the sum is a \<^verbatim>\<open>std::uint32_t\<close>.
\<close>

definition op_bytes :: "OperationInfo \<Rightarrow> u32 list" where
  "op_bytes op = map (\<lambda>byteIndex. oi_address op + of_nat byteIndex) [0..<width op]"

section \<open>Callback objects and state\<close>

text \<open>
  The callback of a client is known by a number. The callback of an update operation has a
  method \<^verbatim>\<open>update\<close> that may throw: \<open>Inl (Some what)\<close> is a \<^verbatim>\<open>std::exception\<close> with its text,
  \<open>Inl None\<close> any other exception. Its \<^verbatim>\<open>success\<close> and \<^verbatim>\<open>failure\<close> notify \<open>upd_notify\<close>, if it is not a
  null pointer.
\<close>

record 'w UpdatingCallback =
  upd_update :: "u32 \<Rightarrow> 'w \<Rightarrow> string option + 'w"
  upd_notify :: "nat option"

record WriteCallback =
  wc_operationInfo :: OperationInfo
  wc_delegate :: "nat option"

record 'w UpdateCallback =
  uc_operationInfo :: OperationInfo
  uc_readFinished :: bool
  uc_delegate :: "'w UpdatingCallback"

datatype CallbackObject = WriteCb16 WriteCallback | WriteCb32 WriteCallback
  | UpdateCb16 "u16 UpdateCallback" | UpdateCb32 "u32 UpdateCallback"

text \<open>
  The state of \<^verbatim>\<open>Impl\<close>. The multimap \<^verbatim>\<open>pendingOperations\<close> is the list of entries for each key in
  the order of \<^verbatim>\<open>equal_range\<close>. Where the C++ has shared pointers to callback objects, the model has
  a heap \<open>objects\<close> whose pointers are the identifiers of the operations (each operation
  allocates one object); an object stays on the heap as long as the delegate may hold a pointer
  to it. \<^verbatim>\<open>unsigned long\<close> identifiers do not wrap in the model.
\<close>

record Impl =
  nextId :: nat
  pendingOperations :: "u32 \<Rightarrow> OperationInfo list"
  operationRunning :: "u32 set"
  writeUInt16CallbacksAndValues :: "nat \<rightharpoonup> nat \<times> u16"
  writeUInt32CallbacksAndValues :: "nat \<rightharpoonup> nat \<times> u32"
  updateUInt16Callbacks :: "nat \<rightharpoonup> nat"
  updateUInt32Callbacks :: "nat \<rightharpoonup> nat"
  objects :: "nat \<rightharpoonup> CallbackObject"

definition new_Impl :: Impl where
  "new_Impl = \<lparr>nextId = 0, pendingOperations = (\<lambda>_. []), operationRunning = {},
     writeUInt16CallbacksAndValues = Map.empty, writeUInt32CallbacksAndValues = Map.empty,
     updateUInt16Callbacks = Map.empty, updateUInt32Callbacks = Map.empty,
     objects = Map.empty\<rparr>"

section \<open>The running set and the pending multimap\<close>

definition canRunOperation :: "OperationInfo \<Rightarrow> Impl \<Rightarrow> bool" where
  "canRunOperation op s = list_all (\<lambda>a. a \<notin> operationRunning s) (op_bytes op)"

definition markRunOperation :: "OperationInfo \<Rightarrow> Impl \<Rightarrow> Impl" where
  "markRunOperation op s =
     s\<lparr>operationRunning := fold insert (op_bytes op) (operationRunning s)\<rparr>"

definition unmarkRunOperation :: "OperationInfo \<Rightarrow> Impl \<Rightarrow> Impl" where
  "unmarkRunOperation op s =
     s\<lparr>operationRunning := fold (\<lambda>a R. R - {a}) (op_bytes op) (operationRunning s)\<rparr>"

text \<open>
  The order of entries with the same key is not specified by the standard: \<open>place\<close> is where the
  library's \<^verbatim>\<open>std::unordered_multimap::insert\<close> puts a new entry among those of its key.
\<close>

definition insertOperationInfo ::
    "(OperationInfo \<Rightarrow> OperationInfo list \<Rightarrow> OperationInfo list) \<Rightarrow> OperationInfo \<Rightarrow> Impl \<Rightarrow> Impl" where
  "insertOperationInfo place op s =
     s\<lparr>pendingOperations := fold (\<lambda>a p. p(a := place op (p a))) (op_bytes op)
        (pendingOperations s)\<rparr>"

fun remove_first :: "nat \<Rightarrow> OperationInfo list \<Rightarrow> OperationInfo list" where
  "remove_first i [] = []"
| "remove_first i (x # xs) = (if oi_id x = i then xs else x # remove_first i xs)"

definition removeOperationInfo :: "OperationInfo \<Rightarrow> Impl \<Rightarrow> Impl" where
  "removeOperationInfo op s =
     s\<lparr>pendingOperations := fold (\<lambda>a p. p(a := remove_first (oi_id op) (p a))) (op_bytes op)
        (pendingOperations s)\<rparr>"

text \<open>
  One round of the outer loop of \<^verbatim>\<open>prepareNextOperations\<close>: the first pending entry of the key that
  can run is marked, put in front of the result and removed from the multimap.
\<close>

definition prepare_at :: "u32 \<Rightarrow> OperationInfo list \<times> Impl \<Rightarrow> OperationInfo list \<times> Impl" where
  "prepare_at a x = (case x of (runnable, s) \<Rightarrow>
     (case find (\<lambda>op. canRunOperation op s) (pendingOperations s a) of
        None \<Rightarrow> (runnable, s)
      | Some op \<Rightarrow> (op # runnable, removeOperationInfo op (markRunOperation op s))))"

definition prepareNextOperations :: "OperationInfo \<Rightarrow> Impl \<Rightarrow> OperationInfo list \<times> Impl" where
  "prepareNextOperations op s = fold prepare_at (op_bytes op) ([], s)"

section \<open>Starting operations\<close>

text \<open>
  The part that the four operations share: an operation that overlaps no running one is marked
  and handed to \<^verbatim>\<open>runOperation\<close> (the list in the result), any other one waits.
\<close>

definition start_or_wait ::
    "(OperationInfo \<Rightarrow> OperationInfo list \<Rightarrow> OperationInfo list) \<Rightarrow> OperationInfo \<Rightarrow> Impl
      \<Rightarrow> OperationInfo list \<times> Impl" where
  "start_or_wait place info s =
     (if canRunOperation info s then ([info], markRunOperation info s)
      else ([], insertOperationInfo place info s))"

definition Impl_writeUInt16 ::
    "(OperationInfo \<Rightarrow> OperationInfo list \<Rightarrow> OperationInfo list) \<Rightarrow> u32 \<Rightarrow> u16 \<Rightarrow> nat option \<Rightarrow> Impl
      \<Rightarrow> OperationInfo list \<times> Impl" where
  "Impl_writeUInt16 place address value callback s =
     (let info = \<lparr>oi_id = nextId s, oi_type = OpWriteUInt16, oi_address = address\<rparr>;
          wrappingCallback = \<lparr>wc_operationInfo = info, wc_delegate = callback\<rparr>
      in start_or_wait place info
           (s\<lparr>nextId := nextId s + 1,
              objects := (objects s)(oi_id info \<mapsto> WriteCb16 wrappingCallback),
              writeUInt16CallbacksAndValues :=
                (writeUInt16CallbacksAndValues s)(oi_id info \<mapsto> (oi_id info, value))\<rparr>))"

definition Impl_writeUInt32 ::
    "(OperationInfo \<Rightarrow> OperationInfo list \<Rightarrow> OperationInfo list) \<Rightarrow> u32 \<Rightarrow> u32 \<Rightarrow> nat option \<Rightarrow> Impl
      \<Rightarrow> OperationInfo list \<times> Impl" where
  "Impl_writeUInt32 place address value callback s =
     (let info = \<lparr>oi_id = nextId s, oi_type = OpWriteUInt32, oi_address = address\<rparr>;
          wrappingCallback = \<lparr>wc_operationInfo = info, wc_delegate = callback\<rparr>
      in start_or_wait place info
           (s\<lparr>nextId := nextId s + 1,
              objects := (objects s)(oi_id info \<mapsto> WriteCb32 wrappingCallback),
              writeUInt32CallbacksAndValues :=
                (writeUInt32CallbacksAndValues s)(oi_id info \<mapsto> (oi_id info, value))\<rparr>))"

definition Impl_updateUInt16 ::
    "(OperationInfo \<Rightarrow> OperationInfo list \<Rightarrow> OperationInfo list) \<Rightarrow> u32 \<Rightarrow> u16 UpdatingCallback \<Rightarrow> Impl
      \<Rightarrow> OperationInfo list \<times> Impl" where
  "Impl_updateUInt16 place address callback s =
     (let info = \<lparr>oi_id = nextId s, oi_type = OpUpdateUInt16, oi_address = address\<rparr>;
          wrappingCallback =
            \<lparr>uc_operationInfo = info, uc_readFinished = False, uc_delegate = callback\<rparr>
      in start_or_wait place info
           (s\<lparr>nextId := nextId s + 1,
              objects := (objects s)(oi_id info \<mapsto> UpdateCb16 wrappingCallback),
              updateUInt16Callbacks := (updateUInt16Callbacks s)(oi_id info \<mapsto> oi_id info)\<rparr>))"

definition Impl_updateUInt32 ::
    "(OperationInfo \<Rightarrow> OperationInfo list \<Rightarrow> OperationInfo list) \<Rightarrow> u32 \<Rightarrow> u32 UpdatingCallback \<Rightarrow> Impl
      \<Rightarrow> OperationInfo list \<times> Impl" where
  "Impl_updateUInt32 place address callback s =
     (let info = \<lparr>oi_id = nextId s, oi_type = OpUpdateUInt32, oi_address = address\<rparr>;
          wrappingCallback =
            \<lparr>uc_operationInfo = info, uc_readFinished = False, uc_delegate = callback\<rparr>
      in start_or_wait place info
           (s\<lparr>nextId := nextId s + 1,
              objects := (objects s)(oi_id info \<mapsto> UpdateCb32 wrappingCallback),
              updateUInt32Callbacks := (updateUInt32Callbacks s)(oi_id info \<mapsto> oi_id info)\<rparr>))"

text \<open>
  The masked writes of \<^verbatim>\<open>MrfConsistentMemoryAccess\<close>: an update whose function replaces the bits of
  the mask. \<^verbatim>\<open>UpdatingCallbackImpl\<close> forwards the outcome to the callback of the caller.
\<close>

definition UpdatingCallbackImpl :: "'w::len word \<Rightarrow> 'w word \<Rightarrow> nat option \<Rightarrow> 'w word UpdatingCallback" where
  "UpdatingCallbackImpl value msk notifyCallback =
     \<lparr>upd_update = (\<lambda>_ oldValue. Inr (masked_update value msk oldValue)),
      upd_notify = notifyCallback\<rparr>"

definition masked_writeUInt16 ::
    "(OperationInfo \<Rightarrow> OperationInfo list \<Rightarrow> OperationInfo list) \<Rightarrow> u32 \<Rightarrow> u16 \<Rightarrow> u16 \<Rightarrow> nat option \<Rightarrow> Impl
      \<Rightarrow> OperationInfo list \<times> Impl" where
  "masked_writeUInt16 place address value msk callback s =
     Impl_updateUInt16 place address (UpdatingCallbackImpl value msk callback) s"

definition masked_writeUInt32 ::
    "(OperationInfo \<Rightarrow> OperationInfo list \<Rightarrow> OperationInfo list) \<Rightarrow> u32 \<Rightarrow> u32 \<Rightarrow> u32 \<Rightarrow> nat option \<Rightarrow> Impl
      \<Rightarrow> OperationInfo list \<times> Impl" where
  "masked_writeUInt32 place address value msk callback s =
     Impl_updateUInt32 place address (UpdatingCallbackImpl value msk callback) s"

section \<open>Running and finishing operations\<close>

text \<open>What \<^verbatim>\<open>runOperation\<close> asks of the delegate; the last argument is the callback object.\<close>

datatype DelegateCall = DWriteUInt16 u32 u16 nat | DWriteUInt32 u32 u32 nat
  | DReadUInt16 u32 nat | DReadUInt32 u32 nat

text \<open>A missing entry is the \<^verbatim>\<open>std::out_of_range\<close> that \<^verbatim>\<open>at\<close> throws (\<open>None\<close>).\<close>

definition runOperation :: "OperationInfo \<Rightarrow> Impl \<Rightarrow> DelegateCall option" where
  "runOperation op s = (case oi_type op of
     OpWriteUInt16 \<Rightarrow> (case writeUInt16CallbacksAndValues s (oi_id op) of None \<Rightarrow> None
       | Some (callback, value) \<Rightarrow> Some (DWriteUInt16 (oi_address op) value callback))
   | OpWriteUInt32 \<Rightarrow> (case writeUInt32CallbacksAndValues s (oi_id op) of None \<Rightarrow> None
       | Some (callback, value) \<Rightarrow> Some (DWriteUInt32 (oi_address op) value callback))
   | OpUpdateUInt16 \<Rightarrow> (case updateUInt16Callbacks s (oi_id op) of None \<Rightarrow> None
       | Some callback \<Rightarrow> Some (DReadUInt16 (oi_address op) callback))
   | OpUpdateUInt32 \<Rightarrow> (case updateUInt32Callbacks s (oi_id op) of None \<Rightarrow> None
       | Some callback \<Rightarrow> Some (DReadUInt32 (oi_address op) callback)))"

text \<open>The \<^verbatim>\<open>switch\<close> of \<^verbatim>\<open>operationFinished\<close>, and the method.\<close>

definition erase_callback :: "OperationInfo \<Rightarrow> Impl \<Rightarrow> Impl" where
  "erase_callback op s = (case oi_type op of
     OpWriteUInt16 \<Rightarrow> s\<lparr>writeUInt16CallbacksAndValues :=
       (writeUInt16CallbacksAndValues s)(oi_id op := None)\<rparr>
   | OpWriteUInt32 \<Rightarrow> s\<lparr>writeUInt32CallbacksAndValues :=
       (writeUInt32CallbacksAndValues s)(oi_id op := None)\<rparr>
   | OpUpdateUInt16 \<Rightarrow> s\<lparr>updateUInt16Callbacks := (updateUInt16Callbacks s)(oi_id op := None)\<rparr>
   | OpUpdateUInt32 \<Rightarrow> s\<lparr>updateUInt32Callbacks := (updateUInt32Callbacks s)(oi_id op := None)\<rparr>)"

definition operationFinished :: "OperationInfo \<Rightarrow> Impl \<Rightarrow> OperationInfo list \<times> Impl" where
  "operationFinished op s =
     prepareNextOperations op (erase_callback op (unmarkRunOperation op s))"

section \<open>The callbacks that the delegate notifies\<close>

text \<open>
  A callback method gives the operations it hands to \<^verbatim>\<open>runOperation\<close>, the calls it makes to the
  delegate itself, the notifications it makes to the client's callback and the new state.
\<close>

type_synonym callback_result = "OperationInfo list \<times> DelegateCall list \<times> notification list \<times> Impl"

definition notify_client :: "(nat \<Rightarrow> 'r \<Rightarrow> notification) \<Rightarrow> nat option \<Rightarrow> 'r \<Rightarrow> notification list" where
  "notify_client notify d r = (case d of None \<Rightarrow> [] | Some i \<Rightarrow> [notify i r])"

definition WriteCallback_notify ::
    "(nat \<Rightarrow> 'r \<Rightarrow> notification) \<Rightarrow> WriteCallback \<Rightarrow> 'r \<Rightarrow> Impl \<Rightarrow> callback_result" where
  "WriteCallback_notify notify c r s =
     (case operationFinished (wc_operationInfo c) s of (run, s') \<Rightarrow>
        (run, [], notify_client notify (wc_delegate c) r, s'))"

definition WriteCallback_success ::
    "(nat \<Rightarrow> 'w reply \<Rightarrow> notification) \<Rightarrow> WriteCallback \<Rightarrow> u32 \<Rightarrow> 'w \<Rightarrow> Impl \<Rightarrow> callback_result" where
  "WriteCallback_success notify c address value s =
     WriteCallback_notify notify c (Success address value) s"

definition WriteCallback_failure ::
    "(nat \<Rightarrow> 'w reply \<Rightarrow> notification) \<Rightarrow> WriteCallback \<Rightarrow> u32 \<Rightarrow> ErrorCode \<Rightarrow> string \<Rightarrow> Impl
      \<Rightarrow> callback_result" where
  "WriteCallback_failure notify c address errorCode details s =
     WriteCallback_notify notify c (Failure address errorCode details) s"

definition UpdateCallback_failure ::
    "(nat \<Rightarrow> 'w reply \<Rightarrow> notification) \<Rightarrow> 'w UpdateCallback \<Rightarrow> u32 \<Rightarrow> ErrorCode \<Rightarrow> string \<Rightarrow> Impl
      \<Rightarrow> callback_result" where
  "UpdateCallback_failure notify c address errorCode details s =
     (case operationFinished (uc_operationInfo c) s of (run, s') \<Rightarrow>
        (run, [], notify_client notify (upd_notify (uc_delegate c)) (Failure address errorCode details), s'))"

text \<open>
  \<^verbatim>\<open>UpdateCallback<T>::success\<close>, with the template specialisations as arguments: \<open>wrap\<close> is the
  object with the flag \<open>readFinished\<close> set, \<open>write\<close> the method \<^verbatim>\<open>write\<close>, which starts the second
  stage. \<open>write_throws\<close> is the exception, if the delegate throws one in that call.
\<close>

definition update_throw_text :: "string option \<Rightarrow> string" where
  "update_throw_text what = ''The callback's update method threw an exception''
     @ (case what of Some w \<Rightarrow> '': '' @ w | None \<Rightarrow> ''.'')"

definition UpdateCallback_success ::
    "('w UpdateCallback \<Rightarrow> CallbackObject) \<Rightarrow> (nat \<Rightarrow> 'w reply \<Rightarrow> notification)
      \<Rightarrow> (u32 \<Rightarrow> 'w \<Rightarrow> nat \<Rightarrow> DelegateCall) \<Rightarrow> string option option
      \<Rightarrow> nat \<Rightarrow> 'w UpdateCallback \<Rightarrow> u32 \<Rightarrow> 'w \<Rightarrow> Impl \<Rightarrow> callback_result" where
  "UpdateCallback_success wrap notify write write_throws this c address value s =
     (if uc_readFinished c then
        (case operationFinished (uc_operationInfo c) s of (run, s') \<Rightarrow>
           (run, [], notify_client notify (upd_notify (uc_delegate c)) (Success address value), s'))
      else
        let c' = c\<lparr>uc_readFinished := True\<rparr>;
            s' = s\<lparr>objects := (objects s)(this \<mapsto> wrap c')\<rparr>
        in (case upd_update (uc_delegate c) address value of
              Inl what \<Rightarrow>
                UpdateCallback_failure notify c' address EC_unknown (update_throw_text what) s'
            | Inr newValue \<Rightarrow>
                (case write_throws of
                   Some what \<Rightarrow>
                     UpdateCallback_failure notify c' address EC_unknown
                       (update_throw_text what) s'
                 | None \<Rightarrow>
                     ([], [write (oi_address (uc_operationInfo c)) newValue this], [], s'))))"

text \<open>
  The delegate's notification finds the callback object it was given. It carries a value of the
  width of the call.
\<close>

datatype reg_value = V16 u16 | V32 u32

fun object_success ::
    "string option option \<Rightarrow> nat \<Rightarrow> CallbackObject \<Rightarrow> u32 \<Rightarrow> reg_value \<Rightarrow> Impl \<Rightarrow> callback_result option" where
  "object_success _ this (WriteCb16 c) a (V16 v) s = Some (WriteCallback_success Notify16 c a v s)"
| "object_success _ this (WriteCb32 c) a (V32 v) s = Some (WriteCallback_success Notify32 c a v s)"
| "object_success w this (UpdateCb16 c) a (V16 v) s =
     Some (UpdateCallback_success UpdateCb16 Notify16 DWriteUInt16 w this c a v s)"
| "object_success w this (UpdateCb32 c) a (V32 v) s =
     Some (UpdateCallback_success UpdateCb32 Notify32 DWriteUInt32 w this c a v s)"
| "object_success _ _ _ _ _ _ = None"

fun object_failure ::
    "CallbackObject \<Rightarrow> u32 \<Rightarrow> ErrorCode \<Rightarrow> string \<Rightarrow> Impl \<Rightarrow> callback_result" where
  "object_failure (WriteCb16 c) a e d s = WriteCallback_failure Notify16 c a e d s"
| "object_failure (WriteCb32 c) a e d s = WriteCallback_failure Notify32 c a e d s"
| "object_failure (UpdateCb16 c) a e d s = UpdateCallback_failure Notify16 c a e d s"
| "object_failure (UpdateCb32 c) a e d s = UpdateCallback_failure Notify32 c a e d s"

text \<open>
  The handlers of \<^verbatim>\<open>runOperation\<close> for a delegate that throws: the callback object is told of the
  failure with a text that depends on the kind of operation and on whether the exception has one.
\<close>

definition run_throw_text :: "OperationInfo \<Rightarrow> string option \<Rightarrow> string" where
  "run_throw_text op what =
     (case oi_type op of OpWriteUInt16 \<Rightarrow> ''The write operation failed''
        | OpWriteUInt32 \<Rightarrow> ''The write operation failed''
        | _ \<Rightarrow> ''The read operation failed'')
     @ (case what of Some w \<Rightarrow> '': '' @ w | None \<Rightarrow> ''.'')"

definition call_callback :: "DelegateCall \<Rightarrow> nat" where
  "call_callback c = (case c of DWriteUInt16 _ _ p \<Rightarrow> p | DWriteUInt32 _ _ p \<Rightarrow> p
     | DReadUInt16 _ p \<Rightarrow> p | DReadUInt32 _ p \<Rightarrow> p)"

definition runOperation_throws ::
    "OperationInfo \<Rightarrow> string option \<Rightarrow> Impl \<Rightarrow> callback_result option" where
  "runOperation_throws op what s =
     (case runOperation op s of None \<Rightarrow> None
      | Some c \<Rightarrow> (case objects s (call_callback c) of None \<Rightarrow> None
          | Some ob \<Rightarrow> Some (object_failure ob (oi_address op) EC_unknown (run_throw_text op what) s)))"

end
