(* ===== verification/ConsistentAccess_Proofs.thy ===== *)
theory ConsistentAccess_Proofs
  imports ConsistentAccess
begin

text \<open>
  Correctness of the consistent memory access. The first part is about the operations on the
  running set and the pending multimap, the second about the invariant that every operation of
  the class keeps. The interface of the multimap is the locale \<open>bucket_order\<close>.
\<close>

section \<open>Bytes of operations\<close>

lemma width_le_4: "width op \<le> 4"
  by (simp add: width_def split: OperationType.split)

lemma width_pos: "0 < width op"
  by (simp add: width_def split: OperationType.split)

lemma of_nat_u32_inj: "i < 4 \<Longrightarrow> j < 4 \<Longrightarrow> (of_nat i :: u32) = of_nat j \<longleftrightarrow> i = j"
  by (simp add: word_of_nat_eq_iff take_bit_nat_eq_self)

lemma distinct_op_bytes [simp]: "distinct (op_bytes op)"
proof -
  have "inj_on (\<lambda>i. oi_address op + (of_nat i :: u32)) (set [0..<width op])"
    using width_le_4 [of op] by (auto simp: inj_on_def of_nat_u32_inj)
  then show ?thesis by (simp add: op_bytes_def distinct_map)
qed

lemma op_bytes_nonempty: "op_bytes op \<noteq> []"
  using width_pos [of op] by (simp add: op_bytes_def)

abbreviation bytes :: "OperationInfo \<Rightarrow> u32 set" where
  "bytes op \<equiv> set (op_bytes op)"

section \<open>The running set\<close>

lemma canRunOperation_iff: "canRunOperation op s \<longleftrightarrow> bytes op \<inter> operationRunning s = {}"
  by (auto simp: canRunOperation_def list_all_iff)

lemma fold_insert: "fold insert xs A = A \<union> set xs"
  by (induction xs arbitrary: A) auto

lemma fold_remove: "fold (\<lambda>a R. R - {a}) xs A = A - set xs"
  by (induction xs arbitrary: A) auto

lemma markRunOperation_running [simp]:
  "operationRunning (markRunOperation op s) = operationRunning s \<union> bytes op"
  by (simp add: markRunOperation_def fold_insert)

lemma unmarkRunOperation_running [simp]:
  "operationRunning (unmarkRunOperation op s) = operationRunning s - bytes op"
  by (simp add: unmarkRunOperation_def fold_remove)

section \<open>The pending multimap\<close>

text \<open>
  What the code relies on: an insertion puts the entry somewhere among those with its key, and
  keeps the others.
\<close>

locale bucket_order =
  fixes place :: "OperationInfo \<Rightarrow> OperationInfo list \<Rightarrow> OperationInfo list"
  assumes mset_place: "mset (place x xs) = add_mset x (mset xs)"
begin

lemma set_place [simp]: "set (place x xs) = insert x (set xs)"
  using arg_cong [OF mset_place, of set_mset] by simp

lemma distinct_ids_place [simp]:
  "distinct (map oi_id (place x xs)) \<longleftrightarrow> oi_id x \<notin> oi_id ` set xs \<and> distinct (map oi_id xs)"
proof -
  have "mset (map oi_id (place x xs)) = mset (map oi_id (x # xs))"
    by (simp add: mset_place)
  then have "distinct (map oi_id (place x xs)) \<longleftrightarrow> distinct (map oi_id (x # xs))"
    by (rule mset_eq_imp_distinct_iff)
  then show ?thesis by auto
qed

end

text \<open>The GNU library inserts in front of the entries with the same key, others at their end.\<close>

definition place_front :: "OperationInfo \<Rightarrow> OperationInfo list \<Rightarrow> OperationInfo list" where
  "place_front x xs = x # xs"

definition place_back :: "OperationInfo \<Rightarrow> OperationInfo list \<Rightarrow> OperationInfo list" where
  "place_back x xs = xs @ [x]"

interpretation newest_first: bucket_order place_front
  by unfold_locales (simp add: place_front_def)

interpretation oldest_first: bucket_order place_back
  by unfold_locales (simp add: place_back_def)

lemma fold_bucket:
  assumes "distinct ks"
  shows "fold (\<lambda>a p. p(a := f (p a))) ks p b = (if b \<in> set ks then f (p b) else p b)"
  using assms by (induction ks arbitrary: p) auto

lemma insertOperationInfo_bucket:
  "pendingOperations (insertOperationInfo place op s) a =
     (if a \<in> bytes op then place op (pendingOperations s a) else pendingOperations s a)"
  by (simp add: insertOperationInfo_def fold_bucket)

lemma removeOperationInfo_bucket:
  "pendingOperations (removeOperationInfo op s) a =
     (if a \<in> bytes op then remove_first (oi_id op) (pendingOperations s a)
      else pendingOperations s a)"
  by (simp add: removeOperationInfo_def fold_bucket)

lemma remove_first_filter:
  "distinct (map oi_id xs) \<Longrightarrow> remove_first i xs = filter (\<lambda>x. oi_id x \<noteq> i) xs"
proof (induction xs)
  case (Cons x xs)
  have "filter (\<lambda>y. oi_id y \<noteq> i) xs = xs" if "oi_id x = i"
    unfolding filter_id_conv
  proof
    fix y assume "y \<in> set xs"
    with Cons.prems that show "oi_id y \<noteq> i" by (metis distinct.simps(2) image_eqI image_set list.simps(9))
  qed
  with Cons show ?case by simp
qed simp

text \<open>The other fields these operations leave alone.\<close>

lemma frame_simps [simp]:
  "nextId (markRunOperation op s) = nextId s"
  "pendingOperations (markRunOperation op s) = pendingOperations s"
  "writeUInt16CallbacksAndValues (markRunOperation op s) = writeUInt16CallbacksAndValues s"
  "writeUInt32CallbacksAndValues (markRunOperation op s) = writeUInt32CallbacksAndValues s"
  "updateUInt16Callbacks (markRunOperation op s) = updateUInt16Callbacks s"
  "updateUInt32Callbacks (markRunOperation op s) = updateUInt32Callbacks s"
  "objects (markRunOperation op s) = objects s"
  "nextId (unmarkRunOperation op s) = nextId s"
  "pendingOperations (unmarkRunOperation op s) = pendingOperations s"
  "writeUInt16CallbacksAndValues (unmarkRunOperation op s) = writeUInt16CallbacksAndValues s"
  "writeUInt32CallbacksAndValues (unmarkRunOperation op s) = writeUInt32CallbacksAndValues s"
  "updateUInt16Callbacks (unmarkRunOperation op s) = updateUInt16Callbacks s"
  "updateUInt32Callbacks (unmarkRunOperation op s) = updateUInt32Callbacks s"
  "objects (unmarkRunOperation op s) = objects s"
  "nextId (insertOperationInfo place op s) = nextId s"
  "operationRunning (insertOperationInfo place op s) = operationRunning s"
  "writeUInt16CallbacksAndValues (insertOperationInfo place op s) = writeUInt16CallbacksAndValues s"
  "writeUInt32CallbacksAndValues (insertOperationInfo place op s) = writeUInt32CallbacksAndValues s"
  "updateUInt16Callbacks (insertOperationInfo place op s) = updateUInt16Callbacks s"
  "updateUInt32Callbacks (insertOperationInfo place op s) = updateUInt32Callbacks s"
  "objects (insertOperationInfo place op s) = objects s"
  "nextId (removeOperationInfo op s) = nextId s"
  "operationRunning (removeOperationInfo op s) = operationRunning s"
  "writeUInt16CallbacksAndValues (removeOperationInfo op s) = writeUInt16CallbacksAndValues s"
  "writeUInt32CallbacksAndValues (removeOperationInfo op s) = writeUInt32CallbacksAndValues s"
  "updateUInt16Callbacks (removeOperationInfo op s) = updateUInt16Callbacks s"
  "updateUInt32Callbacks (removeOperationInfo op s) = updateUInt32Callbacks s"
  "objects (removeOperationInfo op s) = objects s"
  by (simp_all add: markRunOperation_def unmarkRunOperation_def insertOperationInfo_def
      removeOperationInfo_def)

section \<open>The invariant\<close>

text \<open>
  The operation a callback object belongs to, and the table entry that \<^verbatim>\<open>runOperation\<close> needs.
\<close>

fun obj_info :: "CallbackObject \<Rightarrow> OperationInfo" where
  "obj_info (WriteCb16 c) = wc_operationInfo c"
| "obj_info (WriteCb32 c) = wc_operationInfo c"
| "obj_info (UpdateCb16 c) = uc_operationInfo c"
| "obj_info (UpdateCb32 c) = uc_operationInfo c"

fun obj_type :: "CallbackObject \<Rightarrow> OperationType" where
  "obj_type (WriteCb16 c) = OpWriteUInt16"
| "obj_type (WriteCb32 c) = OpWriteUInt32"
| "obj_type (UpdateCb16 c) = OpUpdateUInt16"
| "obj_type (UpdateCb32 c) = OpUpdateUInt32"

definition registered :: "OperationInfo \<Rightarrow> Impl \<Rightarrow> bool" where
  "registered op s = (case oi_type op of
     OpWriteUInt16 \<Rightarrow> (\<exists>v. writeUInt16CallbacksAndValues s (oi_id op) = Some (oi_id op, v))
   | OpWriteUInt32 \<Rightarrow> (\<exists>v. writeUInt32CallbacksAndValues s (oi_id op) = Some (oi_id op, v))
   | OpUpdateUInt16 \<Rightarrow> updateUInt16Callbacks s (oi_id op) = Some (oi_id op)
   | OpUpdateUInt32 \<Rightarrow> updateUInt32Callbacks s (oi_id op) = Some (oi_id op))"

definition known :: "OperationInfo \<Rightarrow> Impl \<Rightarrow> bool" where
  "known op s \<longleftrightarrow> (\<exists>ob. objects s (oi_id op) = Some ob \<and> obj_info ob = op \<and> obj_type ob = oi_type op)
     \<and> registered op s"

text \<open>
  \<open>A\<close> holds the operations that are marked as running and not finished. \<open>R\<close> holds addresses that
  \<^verbatim>\<open>prepareNextOperations\<close> has still to look at; outside of that loop it is empty.
\<close>

definition consistent_upto :: "u32 set \<Rightarrow> OperationInfo set \<Rightarrow> Impl \<Rightarrow> bool" where
  "consistent_upto R A s \<longleftrightarrow>
     (\<forall>op\<in>A. known op s)
   \<and> (\<forall>op\<in>A. \<forall>op'\<in>A. op \<noteq> op' \<longrightarrow> bytes op \<inter> bytes op' = {})
   \<and> operationRunning s = (\<Union>op\<in>A. bytes op)
   \<and> (\<forall>a. distinct (map oi_id (pendingOperations s a)))
   \<and> (\<forall>a. \<forall>op\<in>set (pendingOperations s a). known op s \<and> op \<notin> A \<and> a \<in> bytes op
        \<and> (\<forall>b\<in>bytes op. op \<in> set (pendingOperations s b))
        \<and> (bytes op \<inter> R = {} \<longrightarrow> \<not> canRunOperation op s))
   \<and> (\<forall>i. objects s i \<noteq> None \<longrightarrow> i < nextId s)"

abbreviation consistent :: "OperationInfo set \<Rightarrow> Impl \<Rightarrow> bool" where
  "consistent \<equiv> consistent_upto {}"

lemma consistent_uptoI:
  assumes "\<And>op. op \<in> A \<Longrightarrow> known op s"
    and "\<And>op op'. op \<in> A \<Longrightarrow> op' \<in> A \<Longrightarrow> op \<noteq> op' \<Longrightarrow> bytes op \<inter> bytes op' = {}"
    and "operationRunning s = (\<Union>op\<in>A. bytes op)"
    and "\<And>a. distinct (map oi_id (pendingOperations s a))"
    and "\<And>a op. op \<in> set (pendingOperations s a) \<Longrightarrow> known op s"
    and "\<And>a op. op \<in> set (pendingOperations s a) \<Longrightarrow> op \<notin> A"
    and "\<And>a op. op \<in> set (pendingOperations s a) \<Longrightarrow> a \<in> bytes op"
    and "\<And>a b op. op \<in> set (pendingOperations s a) \<Longrightarrow> b \<in> bytes op
          \<Longrightarrow> op \<in> set (pendingOperations s b)"
    and "\<And>a op. op \<in> set (pendingOperations s a) \<Longrightarrow> bytes op \<inter> R = {}
          \<Longrightarrow> \<not> canRunOperation op s"
    and "\<And>i. objects s i \<noteq> None \<Longrightarrow> i < nextId s"
  shows "consistent_upto R A s"
  unfolding consistent_upto_def
  by (intro conjI ballI allI impI) (rule assms; assumption)+

lemma consistent_known:
  "consistent_upto R A s \<Longrightarrow> op \<in> A \<Longrightarrow> known op s"
  unfolding consistent_upto_def by blast

lemma consistent_disjoint:
  "consistent_upto R A s \<Longrightarrow> op \<in> A \<Longrightarrow> op' \<in> A \<Longrightarrow> op \<noteq> op' \<Longrightarrow> bytes op \<inter> bytes op' = {}"
  unfolding consistent_upto_def by blast

lemma consistent_running:
  "consistent_upto R A s \<Longrightarrow> operationRunning s = (\<Union>op\<in>A. bytes op)"
  unfolding consistent_upto_def by blast

lemma consistent_distinct:
  "consistent_upto R A s \<Longrightarrow> distinct (map oi_id (pendingOperations s a))"
  unfolding consistent_upto_def by blast

lemma pending_known:
  "consistent_upto R A s \<Longrightarrow> op \<in> set (pendingOperations s a) \<Longrightarrow> known op s"
  unfolding consistent_upto_def by blast

lemma pending_not_active:
  "consistent_upto R A s \<Longrightarrow> op \<in> set (pendingOperations s a) \<Longrightarrow> op \<notin> A"
  unfolding consistent_upto_def by blast

lemma pending_at:
  "consistent_upto R A s \<Longrightarrow> op \<in> set (pendingOperations s a) \<Longrightarrow> a \<in> bytes op"
  unfolding consistent_upto_def by blast

lemma pending_everywhere:
  "consistent_upto R A s \<Longrightarrow> op \<in> set (pendingOperations s a) \<Longrightarrow> b \<in> bytes op \<Longrightarrow> op \<in> set (pendingOperations s b)"
  unfolding consistent_upto_def by blast

lemma pending_blocked:
  "consistent_upto R A s \<Longrightarrow> op \<in> set (pendingOperations s a) \<Longrightarrow> bytes op \<inter> R = {} \<Longrightarrow> \<not> canRunOperation op s"
  unfolding consistent_upto_def by blast

lemma consistent_heap:
  "consistent_upto R A s \<Longrightarrow> objects s i \<noteq> None \<Longrightarrow> i < nextId s"
  unfolding consistent_upto_def by blast

lemma known_id_eq: "known op s \<Longrightarrow> known op' s \<Longrightarrow> oi_id op = oi_id op' \<Longrightarrow> op = op'"
proof -
  assume "known op s" "known op' s" and id: "oi_id op = oi_id op'"
  then obtain ob ob' where "objects s (oi_id op) = Some ob" "obj_info ob = op"
    "objects s (oi_id op') = Some ob'" "obj_info ob' = op'"
    unfolding known_def by blast
  with id show "op = op'" by (metis option.inject)
qed

lemma known_frame [simp]:
  "known op (markRunOperation op' s) = known op s"
  "known op (unmarkRunOperation op' s) = known op s"
  "known op (insertOperationInfo place op' s) = known op s"
  "known op (removeOperationInfo op' s) = known op s"
  by (simp_all only: known_def registered_def frame_simps)

lemma canRunOperation_remove [simp]:
  "canRunOperation op (removeOperationInfo op' s) = canRunOperation op s"
  by (simp add: canRunOperation_iff)

lemma consistent_new: "consistent {} new_Impl"
  by (rule consistent_uptoI) (simp_all add: new_Impl_def)

text \<open>One round of the loop keeps the invariant and takes its address off the list.\<close>

lemma removeOperationInfo_pending:
  assumes inv: "consistent_upto R A s" and op: "known op s"
  shows "x \<in> set (pendingOperations (removeOperationInfo op s) b)
    \<longleftrightarrow> x \<in> set (pendingOperations s b) \<and> x \<noteq> op"
proof -
  have id: "x \<in> set (pendingOperations s b) \<Longrightarrow> oi_id x = oi_id op \<longleftrightarrow> x = op"
    using known_id_eq [OF pending_known [OF inv] op] by blast
  have "op \<notin> set (pendingOperations s b)" if "b \<notin> bytes op"
    using that pending_at [OF inv] by blast
  then show ?thesis
    using id consistent_distinct [OF inv, of b]
    by (auto simp: removeOperationInfo_bucket remove_first_filter)
qed

lemma removeOperationInfo_distinct:
  assumes "distinct (map oi_id (pendingOperations s a))"
  shows "distinct (map oi_id (pendingOperations (removeOperationInfo op s) a))"
  using assms by (simp add: removeOperationInfo_bucket remove_first_filter distinct_map_filter)

lemma removeOperationInfo_markRunOperation:
  "removeOperationInfo op (markRunOperation op' s) = markRunOperation op' (removeOperationInfo op s)"
  by (simp add: removeOperationInfo_def markRunOperation_def)

lemma start_found_consistent:
  assumes inv: "consistent_upto (insert a R) A s"
    and op: "op \<in> set (pendingOperations s a)" and run: "canRunOperation op s"
  shows "consistent_upto R (insert op A) (removeOperationInfo op (markRunOperation op s))"
proof -
  let ?s = "markRunOperation op (removeOperationInfo op s)"
  note op_known = pending_known [OF inv op]
  note pend = removeOperationInfo_pending [OF inv op_known]
  have disj: "bytes op \<inter> bytes x = {}" if "x \<in> A" for x
    using that run consistent_running [OF inv] by (auto simp: canRunOperation_iff)
  have "consistent_upto R (insert op A) ?s"
  proof (rule consistent_uptoI)
    show "known x ?s" if "x \<in> insert op A" for x
      using that op_known consistent_known [OF inv] by auto
    show "bytes x \<inter> bytes y = {}" if "x \<in> insert op A" "y \<in> insert op A" "x \<noteq> y" for x y
      using that disj consistent_disjoint [OF inv, of x y] by blast
    show "operationRunning ?s = (\<Union>x\<in>insert op A. bytes x)"
      using consistent_running [OF inv] by auto
    show "distinct (map oi_id (pendingOperations ?s b))" for b
      using removeOperationInfo_distinct [OF consistent_distinct [OF inv]] by simp
    show "known x ?s" if "x \<in> set (pendingOperations ?s b)" for x b
      using that pending_known [OF inv] by (auto simp: pend)
    show "x \<notin> insert op A" if "x \<in> set (pendingOperations ?s b)" for x b
      using that pending_not_active [OF inv] by (auto simp: pend)
    show "b \<in> bytes x" if "x \<in> set (pendingOperations ?s b)" for x b
      using that pending_at [OF inv] by (auto simp: pend)
    show "x \<in> set (pendingOperations ?s c)" if "x \<in> set (pendingOperations ?s b)" "c \<in> bytes x" for x b c
      using that pending_everywhere [OF inv] by (auto simp: pend)
    show "\<not> canRunOperation x ?s" if "x \<in> set (pendingOperations ?s b)" "bytes x \<inter> R = {}" for x b
    proof (cases "a \<in> bytes x")
      case True
      with pending_at [OF inv op] show ?thesis by (auto simp: canRunOperation_iff)
    next
      case False
      with that pending_blocked [OF inv, of x b] show ?thesis
        by (auto simp: pend canRunOperation_iff)
    qed
    show "i < nextId ?s" if "objects ?s i \<noteq> None" for i
      using that consistent_heap [OF inv] by simp
  qed
  then show ?thesis by (simp add: removeOperationInfo_markRunOperation)
qed

lemma skip_not_found_consistent:
  assumes inv: "consistent_upto (insert a R) A s"
    and none: "\<And>op. op \<in> set (pendingOperations s a) \<Longrightarrow> \<not> canRunOperation op s"
  shows "consistent_upto R A s"
proof (rule consistent_uptoI)
  show "\<not> canRunOperation op s" if "op \<in> set (pendingOperations s b)" "bytes op \<inter> R = {}" for op b
  proof (cases "a \<in> bytes op")
    case True
    with that none pending_everywhere [OF inv] show ?thesis by blast
  next
    case False
    with that pending_blocked [OF inv] show ?thesis by blast
  qed
qed (use inv in \<open>blast dest: consistent_known consistent_disjoint consistent_running
    consistent_distinct pending_known pending_not_active pending_at pending_everywhere
    consistent_heap\<close>)+

lemma prepare_at_consistent:
  assumes inv: "consistent_upto (insert a R) (A \<union> set run) s"
    and run: "distinct run" "A \<inter> set run = {}"
    and res: "prepare_at a (run, s) = (run', s')"
  shows "consistent_upto R (A \<union> set run') s' \<and> distinct run' \<and> A \<inter> set run' = {}"
proof (cases "find (\<lambda>op. canRunOperation op s) (pendingOperations s a)")
  case None
  then have "consistent_upto R (A \<union> set run) s"
    by (intro skip_not_found_consistent [OF inv]) (auto simp: find_None_iff)
  with None run res show ?thesis by (auto simp: prepare_at_def)
next
  case (Some op)
  then have op: "op \<in> set (pendingOperations s a)" "canRunOperation op s"
    by (auto simp: find_Some_iff)
  from start_found_consistent [OF inv op] pending_not_active [OF inv op(1)] Some run res
  show ?thesis by (auto simp: prepare_at_def)
qed

lemma prepare_fold_consistent:
  assumes "consistent_upto (set ks) (A \<union> set run) s" "distinct run" "A \<inter> set run = {}"
    and "fold prepare_at ks (run, s) = (run', s')"
  shows "consistent (A \<union> set run') s' \<and> distinct run' \<and> A \<inter> set run' = {}"
  using assms
proof (induction ks arbitrary: run s)
  case (Cons a ks)
  obtain run1 s1 where 1: "prepare_at a (run, s) = (run1, s1)" by fastforce
  from prepare_at_consistent [of a "set ks" A run s, OF _ _ _ 1] Cons.prems 1 Cons.IH [of run1 s1]
  show ?case by simp
qed simp

text \<open>The loop moves operations from the multimap to the result and touches no other field.\<close>

definition same_tables :: "Impl \<Rightarrow> Impl \<Rightarrow> bool" where
  "same_tables s s' \<longleftrightarrow> nextId s' = nextId s \<and> objects s' = objects s
     \<and> writeUInt16CallbacksAndValues s' = writeUInt16CallbacksAndValues s
     \<and> writeUInt32CallbacksAndValues s' = writeUInt32CallbacksAndValues s
     \<and> updateUInt16Callbacks s' = updateUInt16Callbacks s
     \<and> updateUInt32Callbacks s' = updateUInt32Callbacks s"

definition same_at :: "nat \<Rightarrow> Impl \<Rightarrow> Impl \<Rightarrow> bool" where
  "same_at i s s' \<longleftrightarrow> objects s' i = objects s i
     \<and> writeUInt16CallbacksAndValues s' i = writeUInt16CallbacksAndValues s i
     \<and> writeUInt32CallbacksAndValues s' i = writeUInt32CallbacksAndValues s i
     \<and> updateUInt16Callbacks s' i = updateUInt16Callbacks s i
     \<and> updateUInt32Callbacks s' i = updateUInt32Callbacks s i"

definition is_pending :: "OperationInfo \<Rightarrow> Impl \<Rightarrow> bool" where
  "is_pending op s \<longleftrightarrow> op \<in> set (pendingOperations s (oi_address op))"

lemma address_in_bytes: "oi_address op \<in> bytes op"
  using width_pos [of op] by (force simp: op_bytes_def image_iff)

lemma is_pending_iff:
  "consistent_upto R A s \<Longrightarrow> is_pending op s \<longleftrightarrow> (\<exists>a. op \<in> set (pendingOperations s a))"
  using pending_everywhere [OF _ _ address_in_bytes] by (auto simp: is_pending_def)

lemma prepare_at_frame:
  assumes inv: "consistent_upto (insert a R) (A \<union> set run) s"
    and res: "prepare_at a (run, s) = (run', s')"
  shows "same_tables s s' \<and> (\<forall>op. is_pending op s \<or> op \<in> set run \<longleftrightarrow> is_pending op s' \<or> op \<in> set run')
    \<and> (\<forall>op. is_pending op s' \<longrightarrow> is_pending op s)"
proof (cases "find (\<lambda>op. canRunOperation op s) (pendingOperations s a)")
  case None
  with res show ?thesis by (auto simp: prepare_at_def same_tables_def)
next
  case (Some op)
  then have op: "op \<in> set (pendingOperations s a)"
    by (auto simp: find_Some_iff)
  have s': "s' = markRunOperation op (removeOperationInfo op s)" "run' = op # run"
    using Some res by (auto simp: prepare_at_def removeOperationInfo_markRunOperation)
  have "is_pending x s' \<longleftrightarrow> is_pending x s \<and> x \<noteq> op" for x
    using removeOperationInfo_pending [OF inv pending_known [OF inv op]]
    by (simp add: is_pending_def s')
  moreover have "is_pending op s"
    using op is_pending_iff [OF inv] by blast
  ultimately show ?thesis by (auto simp: s' same_tables_def)
qed

lemma prepare_fold_frame:
  assumes "consistent_upto (set ks) (A \<union> set run) s" "distinct run" "A \<inter> set run = {}"
    and "fold prepare_at ks (run, s) = (run', s')"
  shows "same_tables s s' \<and> (\<forall>op. is_pending op s \<or> op \<in> set run \<longleftrightarrow> is_pending op s' \<or> op \<in> set run')
    \<and> (\<forall>op. is_pending op s' \<longrightarrow> is_pending op s)"
  using assms
proof (induction ks arbitrary: run s)
  case Nil
  then show ?case by (simp add: same_tables_def)
next
  case (Cons a ks)
  obtain run1 s1 where 1: "prepare_at a (run, s) = (run1, s1)" by fastforce
  have "consistent_upto (insert a (set ks)) (A \<union> set run) s"
    using Cons.prems by simp
  note step = prepare_at_consistent [OF this Cons.prems(2,3) 1] prepare_at_frame [OF this 1]
  with Cons.IH [of run1 s1] Cons.prems(4) 1 show ?case by (auto simp: same_tables_def)
qed

section \<open>Finishing an operation\<close>

lemma erase_callback_frame [simp]:
  "nextId (erase_callback op s) = nextId s"
  "pendingOperations (erase_callback op s) = pendingOperations s"
  "operationRunning (erase_callback op s) = operationRunning s"
  "objects (erase_callback op s) = objects s"
  by (simp_all add: erase_callback_def split: OperationType.split)

lemma erase_callback_other:
  assumes "i \<noteq> oi_id op"
  shows "writeUInt16CallbacksAndValues (erase_callback op s) i
      = writeUInt16CallbacksAndValues s i"
    "writeUInt32CallbacksAndValues (erase_callback op s) i
      = writeUInt32CallbacksAndValues s i"
    "updateUInt16Callbacks (erase_callback op s) i = updateUInt16Callbacks s i"
    "updateUInt32Callbacks (erase_callback op s) i = updateUInt32Callbacks s i"
  using assms by (simp_all add: erase_callback_def split: OperationType.split)

lemma known_erase_callback:
  "oi_id x \<noteq> oi_id op \<Longrightarrow> known x (erase_callback op s) \<longleftrightarrow> known x s"
  by (simp add: known_def registered_def erase_callback_other split: OperationType.split)

lemma unmarked_consistent_upto:
  assumes inv: "consistent A s" and op: "op \<in> A"
  shows "consistent_upto (bytes op) (A - {op}) (erase_callback op (unmarkRunOperation op s))"
    (is "consistent_upto _ _ ?s")
proof -
  have other: "oi_id x \<noteq> oi_id op" if "x \<in> A" "x \<noteq> op" for x
    using that known_id_eq consistent_known [OF inv] op by blast
  have pend: "oi_id x \<noteq> oi_id op" if "x \<in> set (pendingOperations s a)" for x a
    using that known_id_eq [OF pending_known [OF inv that] consistent_known [OF inv op]]
      pending_not_active [OF inv that] op by blast
  show ?thesis
  proof (rule consistent_uptoI)
    show "known x ?s" if "x \<in> A - {op}" for x
      using that other consistent_known [OF inv] by (simp add: known_erase_callback)
    show "bytes x \<inter> bytes y = {}" if "x \<in> A - {op}" "y \<in> A - {op}" "x \<noteq> y" for x y
      using that consistent_disjoint [OF inv] by simp
    have "b \<notin> bytes op" if "x \<in> A" "x \<noteq> op" "b \<in> bytes x" for x b
      using that consistent_disjoint [OF inv that(1) op that(2)] by blast
    then show "operationRunning ?s = (\<Union>x\<in>A - {op}. bytes x)"
      using consistent_running [OF inv] by auto
    show "known x ?s" if "x \<in> set (pendingOperations ?s a)" for x a
      using that pending_known [OF inv] pend by (simp add: known_erase_callback)
    show "x \<notin> A - {op}" if "x \<in> set (pendingOperations ?s a)" for x a
      using that pending_not_active [OF inv] by simp
    show "\<not> canRunOperation x ?s"
      if "x \<in> set (pendingOperations ?s a)" "bytes x \<inter> bytes op = {}" for x a
      using that pending_blocked [OF inv, of x a] by (auto simp: canRunOperation_iff)
  qed (simp_all only: frame_simps erase_callback_frame,
      (use inv in \<open>blast intro: consistent_distinct pending_at pending_everywhere consistent_heap\<close>)+)
qed

lemma operationFinished_consistent:
  assumes inv: "consistent A s" and op: "op \<in> A" and res: "operationFinished op s = (run, s')"
  shows "consistent (A - {op} \<union> set run) s'" "distinct run" "A \<inter> set run = {}"
    "nextId s' = nextId s" "objects s' = objects s"
    "is_pending x s \<longleftrightarrow> is_pending x s' \<or> x \<in> set run"
    "oi_id x \<noteq> oi_id op \<Longrightarrow> known x s' \<longleftrightarrow> known x s"
    "i \<noteq> oi_id op \<Longrightarrow> same_at i s s'"
proof -
  let ?s = "erase_callback op (unmarkRunOperation op s)"
  have start: "consistent_upto (set (op_bytes op)) (A - {op} \<union> set []) ?s"
    using unmarked_consistent_upto [OF inv op] by simp
  have run: "fold prepare_at (op_bytes op) ([], ?s) = (run, s')"
    using res by (simp add: operationFinished_def prepareNextOperations_def)
  note c = prepare_fold_consistent [OF start _ _ run, simplified]
  note f = prepare_fold_frame [OF start _ _ run, simplified]
  show "consistent (A - {op} \<union> set run) s'" "distinct run"
    using c by auto
  show tables: "nextId s' = nextId s" "objects s' = objects s"
    using f by (auto simp: same_tables_def)
  have pend: "is_pending x s \<longleftrightarrow> is_pending x s' \<or> x \<in> set run" for x
    using f by (simp add: is_pending_def)
  then show "is_pending x s \<longleftrightarrow> is_pending x s' \<or> x \<in> set run" .
  have "\<not> is_pending op s"
    using pending_not_active [OF inv] op by (auto simp: is_pending_def)
  with pend c show "A \<inter> set run = {}" by auto
  show "known x s' \<longleftrightarrow> known x s" if "oi_id x \<noteq> oi_id op"
    using f known_erase_callback [OF that, of "unmarkRunOperation op s"]
    by (simp add: known_def registered_def same_tables_def cong: OperationType.case_cong)
  show "same_at i s s'" if "i \<noteq> oi_id op"
    using f erase_callback_other [OF that, of "unmarkRunOperation op s"]
    by (simp add: same_tables_def same_at_def)
qed

section \<open>Starting an operation\<close>

context bucket_order
begin

lemma start_or_wait_consistent:
  assumes inv: "consistent A s" and op: "known op s" "op \<notin> A" "\<not> is_pending op s"
    and res: "start_or_wait place op s = (run, s')"
  shows "consistent (A \<union> set run) s'" "run = [op] \<or> run = [] \<and> \<not> canRunOperation op s"
    "nextId s' = nextId s" "objects s' = objects s"
    "is_pending x s' \<longleftrightarrow> is_pending x s \<or> x = op \<and> run = []"
    "same_tables s s'"
proof -
  have new: "op \<notin> set (pendingOperations s a)" for a
    using op(3) is_pending_iff [OF inv] by blast
  show "run = [op] \<or> run = [] \<and> \<not> canRunOperation op s"
    "nextId s' = nextId s" "objects s' = objects s" "same_tables s s'"
    using res by (auto simp: start_or_wait_def same_tables_def split: if_splits)
  show "is_pending x s' \<longleftrightarrow> is_pending x s \<or> x = op \<and> run = []"
    using res address_in_bytes [of op]
    by (auto simp: start_or_wait_def is_pending_def insertOperationInfo_bucket split: if_splits)
  show "consistent (A \<union> set run) s'"
  proof (cases "canRunOperation op s")
    case True
    then have s': "s' = markRunOperation op s" "run = [op]"
      using res by (auto simp: start_or_wait_def)
    show ?thesis
    proof (rule consistent_uptoI)
      show "known x s'" if "x \<in> A \<union> set run" for x
        using that op consistent_known [OF inv] by (auto simp: s')
      have "bytes op \<inter> bytes x = {}" if "x \<in> A" for x
        using that True consistent_running [OF inv] by (auto simp: canRunOperation_iff)
      then show "bytes x \<inter> bytes y = {}" if "x \<in> A \<union> set run" "y \<in> A \<union> set run" "x \<noteq> y" for x y
        using that consistent_disjoint [OF inv, of x y] unfolding s' by auto
      show "operationRunning s' = (\<Union>x\<in>A \<union> set run. bytes x)"
        using consistent_running [OF inv] by (auto simp: s')
      show "x \<notin> A \<union> set run" if "x \<in> set (pendingOperations s' a)" for x a
        using that pending_not_active [OF inv] new by (auto simp: s')
      show "\<not> canRunOperation x s'" if "x \<in> set (pendingOperations s' a)" for x a
        using that pending_blocked [OF inv] by (auto simp: s' canRunOperation_iff)
    qed (simp_all only: s' frame_simps known_frame, (use inv in \<open>blast intro: consistent_distinct
      pending_known pending_at pending_everywhere consistent_heap\<close>)+)
  next
    case False
    then have s': "s' = insertOperationInfo place op s" "run = []"
      using res by (auto simp: start_or_wait_def)
    have can [simp]: "canRunOperation x s' = canRunOperation x s" for x
      by (simp add: canRunOperation_iff s')
    have pend: "x \<in> set (pendingOperations s' a)
        \<longleftrightarrow> x \<in> set (pendingOperations s a) \<or> x = op \<and> a \<in> bytes op" for x a
      by (auto simp: s' insertOperationInfo_bucket)
    have "oi_id op \<notin> oi_id ` set (pendingOperations s a)" for a
      using known_id_eq [OF op(1) pending_known [OF inv]] new by blast
    then have dist: "distinct (map oi_id (pendingOperations s' a))" for a
      using consistent_distinct [OF inv] by (simp add: s' insertOperationInfo_bucket)
    show ?thesis
    proof (rule consistent_uptoI)
      show "known x s'" if "x \<in> set (pendingOperations s' a)" for x a
        using that pending_known [OF inv] op by (auto simp: pend) (auto simp: s')
      show "x \<notin> A \<union> set run" if "x \<in> set (pendingOperations s' a)" for x a
        using that pending_not_active [OF inv] op by (auto simp: pend s'(2))
      show "a \<in> bytes x" if "x \<in> set (pendingOperations s' a)" for x a
        using that pending_at [OF inv] by (auto simp: pend)
      show "x \<in> set (pendingOperations s' b)"
        if "x \<in> set (pendingOperations s' a)" "b \<in> bytes x" for x a b
        using that pending_everywhere [OF inv] by (auto simp: pend)
      show "\<not> canRunOperation x s'" if "x \<in> set (pendingOperations s' a)" for x a
        using that False pending_blocked [OF inv] by (auto simp: pend)
      show "known x s'" if "x \<in> A \<union> set run" for x
        using that consistent_known [OF inv] by (simp add: s')
      show "bytes x \<inter> bytes y = {}" if "x \<in> A \<union> set run" "y \<in> A \<union> set run" "x \<noteq> y" for x y
        using that consistent_disjoint [OF inv, of x y] by (simp add: s'(2))
      show "operationRunning s' = (\<Union>x\<in>A \<union> set run. bytes x)"
        using consistent_running [OF inv] by (simp add: s')
      show "i < nextId s'" if "objects s' i \<noteq> None" for i
        using that consistent_heap [OF inv] by (simp add: s')
    qed (rule dist)
  qed
qed

end

end
