(* ===== verification/ConsistentAccess_System.thy ===== *)
theory ConsistentAccess_System
  imports ConsistentAccess_Proofs
begin

text \<open>
  The consistent memory access together with its clients and with a delegate that performs the
  calls on a memory of bytes, as a step relation over all interleavings. The state keeps which
  operations have been handed to \<^verbatim>\<open>runOperation\<close> but not yet been run by their thread (\<open>tasks\<close>), and
  which calls the delegate has taken but not yet answered (\<open>calls\<close>).
\<close>

section \<open>Requests of the clients\<close>

datatype Request = WriteRequest16 u16 "nat option" | WriteRequest32 u32 "nat option"
  | UpdateRequest16 "u16 UpdatingCallback" | UpdateRequest32 "u32 UpdatingCallback"

fun submit ::
    "(OperationInfo \<Rightarrow> OperationInfo list \<Rightarrow> OperationInfo list) \<Rightarrow> u32 \<Rightarrow> Request \<Rightarrow> Impl
      \<Rightarrow> OperationInfo list \<times> Impl" where
  "submit place a (WriteRequest16 v c) s = Impl_writeUInt16 place a v c s"
| "submit place a (WriteRequest32 v c) s = Impl_writeUInt32 place a v c s"
| "submit place a (UpdateRequest16 c) s = Impl_updateUInt16 place a c s"
| "submit place a (UpdateRequest32 c) s = Impl_updateUInt32 place a c s"

fun request_type :: "Request \<Rightarrow> OperationType" where
  "request_type (WriteRequest16 v c) = OpWriteUInt16"
| "request_type (WriteRequest32 v c) = OpWriteUInt32"
| "request_type (UpdateRequest16 c) = OpUpdateUInt16"
| "request_type (UpdateRequest32 c) = OpUpdateUInt32"

definition request_info :: "u32 \<Rightarrow> Request \<Rightarrow> Impl \<Rightarrow> OperationInfo" where
  "request_info a r s = \<lparr>oi_id = nextId s, oi_type = request_type r, oi_address = a\<rparr>"

fun request_object :: "OperationInfo \<Rightarrow> Request \<Rightarrow> CallbackObject" where
  "request_object op (WriteRequest16 v c) = WriteCb16 \<lparr>wc_operationInfo = op, wc_delegate = c\<rparr>"
| "request_object op (WriteRequest32 v c) = WriteCb32 \<lparr>wc_operationInfo = op, wc_delegate = c\<rparr>"
| "request_object op (UpdateRequest16 c) =
     UpdateCb16 \<lparr>uc_operationInfo = op, uc_readFinished = False, uc_delegate = c\<rparr>"
| "request_object op (UpdateRequest32 c) =
     UpdateCb32 \<lparr>uc_operationInfo = op, uc_readFinished = False, uc_delegate = c\<rparr>"

fun request_tables :: "Request \<Rightarrow> nat \<Rightarrow> Impl \<Rightarrow> Impl" where
  "request_tables (WriteRequest16 v c) i s =
     s\<lparr>writeUInt16CallbacksAndValues := (writeUInt16CallbacksAndValues s)(i \<mapsto> (i, v))\<rparr>"
| "request_tables (WriteRequest32 v c) i s =
     s\<lparr>writeUInt32CallbacksAndValues := (writeUInt32CallbacksAndValues s)(i \<mapsto> (i, v))\<rparr>"
| "request_tables (UpdateRequest16 c) i s =
     s\<lparr>updateUInt16Callbacks := (updateUInt16Callbacks s)(i \<mapsto> i)\<rparr>"
| "request_tables (UpdateRequest32 c) i s =
     s\<lparr>updateUInt32Callbacks := (updateUInt32Callbacks s)(i \<mapsto> i)\<rparr>"

definition register :: "u32 \<Rightarrow> Request \<Rightarrow> Impl \<Rightarrow> Impl" where
  "register a r s = request_tables r (nextId s) (s\<lparr>nextId := nextId s + 1,
     objects := (objects s)(nextId s \<mapsto> request_object (request_info a r s) r)\<rparr>)"

lemma submit_eq: "submit place a r s = start_or_wait place (request_info a r s) (register a r s)"
  by (cases r) (simp_all add: Impl_writeUInt16_def Impl_writeUInt32_def Impl_updateUInt16_def
      Impl_updateUInt32_def request_info_def register_def Let_def)

lemma register_frame [simp]:
  "nextId (register a r s) = Suc (nextId s)"
  "pendingOperations (register a r s) = pendingOperations s"
  "operationRunning (register a r s) = operationRunning s"
  "objects (register a r s) = (objects s)(nextId s \<mapsto> request_object (request_info a r s) r)"
  "is_pending op (register a r s) = is_pending op s"
  by (cases r; simp add: register_def is_pending_def)+

lemma register_tables_other:
  assumes "i \<noteq> nextId s"
  shows "writeUInt16CallbacksAndValues (register a r s) i = writeUInt16CallbacksAndValues s i"
    "writeUInt32CallbacksAndValues (register a r s) i = writeUInt32CallbacksAndValues s i"
    "updateUInt16Callbacks (register a r s) i = updateUInt16Callbacks s i"
    "updateUInt32Callbacks (register a r s) i = updateUInt32Callbacks s i"
  using assms by (cases r; simp add: register_def)+

lemma known_request: "known (request_info a r s) (register a r s)"
  by (cases r) (simp_all add: known_def registered_def request_info_def register_def)

lemma known_id_bound: "consistent_upto R A s \<Longrightarrow> known op s \<Longrightarrow> oi_id op < nextId s"
  using consistent_heap by (fastforce simp: known_def)

lemma known_register:
  assumes "oi_id op < nextId s"
  shows "known op (register a r s) \<longleftrightarrow> known op s"
  using assms register_tables_other [of "oi_id op" s a r]
  by (simp add: known_def registered_def split: OperationType.split)

lemma register_consistent:
  assumes inv: "consistent A s"
  shows "consistent A (register a r s)"
proof -
  have can: "canRunOperation op (register a r s) = canRunOperation op s" for op
    by (simp add: canRunOperation_iff)
  show ?thesis
  proof (rule consistent_uptoI)
    show "known op (register a r s)" if "op \<in> A" for op
      using that consistent_known [OF inv] known_id_bound [OF inv] known_register by blast
    show "known op (register a r s)" if "op \<in> set (pendingOperations (register a r s) b)" for op b
      using that pending_known [OF inv] known_id_bound [OF inv] known_register by simp
    show "i < nextId (register a r s)" if "objects (register a r s) i \<noteq> None" for i
      using that consistent_heap [OF inv, of i] by (auto split: if_splits)
    show "\<not> canRunOperation op (register a r s)"
      if "op \<in> set (pendingOperations (register a r s) b)" for op b
      using that pending_blocked [OF inv] by (simp add: can)
    show "bytes op \<inter> bytes op' = {}" if "op \<in> A" "op' \<in> A" "op \<noteq> op'" for op op'
      using consistent_disjoint [OF inv that] .
    show "op \<in> set (pendingOperations (register a r s) c)"
      if "op \<in> set (pendingOperations (register a r s) b)" "c \<in> bytes op" for op b c
      using that pending_everywhere [OF inv] by simp
  qed (use inv in \<open>auto dest: consistent_running consistent_distinct pending_not_active pending_at\<close>)
qed

context bucket_order
begin

lemma submit_consistent:
  assumes inv: "consistent A s" and res: "submit place a r s = (run, s')"
    and op: "op = request_info a r s"
  shows "consistent (A \<union> set run) s'" "run = [op] \<or> run = []" "oi_id op = nextId s"
    "nextId s' = Suc (nextId s)"
    "objects s' = (objects s)(nextId s \<mapsto> request_object op r)"
    "is_pending x s' \<longleftrightarrow> is_pending x s \<or> x = op \<and> run = []"
    "same_tables (register a r s) s'"
proof -
  have id: "oi_id op = nextId s" by (simp add: op request_info_def)
  have "\<not> known op s"
    using known_id_bound [OF inv, of op] id by auto
  then have new: "op \<notin> A" "\<not> is_pending op (register a r s)"
    using consistent_known [OF inv] pending_known [OF inv] by (auto simp: is_pending_def)
  note res = res [unfolded submit_eq, folded op]
  note start = start_or_wait_consistent [OF register_consistent [OF inv] _ new res]
  have known: "known op (register a r s)" unfolding op by (rule known_request)
  show "consistent (A \<union> set run) s'" "run = [op] \<or> run = []" "oi_id op = nextId s"
    "nextId s' = Suc (nextId s)" "objects s' = (objects s)(nextId s \<mapsto> request_object op r)"
    "is_pending x s' \<longleftrightarrow> is_pending x s \<or> x = op \<and> run = []"
    "same_tables (register a r s) s'"
    using start [OF known] id by (auto simp: op)
qed

end

section \<open>Control: which operations are running, waiting or finished\<close>

text \<open>\<open>A\<close> are the operations that run, \<open>F\<close> the identifiers of those that are finished.\<close>

definition control :: "OperationInfo set \<Rightarrow> nat set \<Rightarrow> Impl \<Rightarrow> bool" where
  "control A F s \<longleftrightarrow> consistent A s
     \<and> (\<forall>i. i < nextId s \<longleftrightarrow> i \<in> oi_id ` A \<or> i \<in> F \<or> (\<exists>op. is_pending op s \<and> oi_id op = i))
     \<and> F \<inter> oi_id ` A = {}
     \<and> (\<forall>op. is_pending op s \<longrightarrow> oi_id op \<notin> F)"

lemma control_consistent: "control A F s \<Longrightarrow> consistent A s"
  by (simp add: control_def)

lemma control_bound:
  "control A F s \<Longrightarrow> i \<in> oi_id ` A \<or> i \<in> F \<or> (\<exists>op. is_pending op s \<and> oi_id op = i) \<Longrightarrow> i < nextId s"
  by (simp add: control_def)

lemma control_new: "control {} {} new_Impl"
  by (simp add: control_def consistent_new) (simp add: new_Impl_def is_pending_def)

lemma control_finish:
  assumes inv: "control A F s" and op: "op \<in> A" and res: "operationFinished op s = (run, s')"
  shows "control (A - {op} \<union> set run) (insert (oi_id op) F) s'"
proof -
  have c: "consistent A s" using inv by (simp add: control_def)
  note fin = operationFinished_consistent [OF c op res]
  have other: "oi_id x \<noteq> oi_id op" if "x \<in> A \<or> is_pending x s" "x \<noteq> op" for x
  proof -
    have "known x s"
      using that(1) consistent_known [OF c] pending_known [OF c] by (auto simp: is_pending_def)
    with that(2) show ?thesis using known_id_eq consistent_known [OF c op] by blast
  qed
  have split: "is_pending x s \<longleftrightarrow> is_pending x s' \<or> x \<in> set run" for x by (rule fin(6))
  have "\<not> is_pending op s"
    using pending_not_active [OF c] op by (auto simp: is_pending_def)
  then have op_out: "x \<noteq> op" if "is_pending x s" for x using that by blast
  have F: "oi_id x \<notin> F" if "x \<in> A \<or> is_pending x s" for x
    using that inv by (auto simp: control_def)
  show ?thesis
    unfolding control_def
  proof (intro conjI allI)
    show "consistent (A - {op} \<union> set run) s'" by (rule fin(1))
    fix i
    have "i \<in> oi_id ` A \<longleftrightarrow> i \<in> oi_id ` (A - {op}) \<or> i = oi_id op"
      using op by blast
    then have "i < nextId s \<longleftrightarrow> i \<in> oi_id ` (A - {op}) \<or> i = oi_id op \<or> i \<in> F
        \<or> (\<exists>x. (is_pending x s' \<or> x \<in> set run) \<and> oi_id x = i)"
      using inv unfolding control_def split by blast
    then show "i < nextId s' \<longleftrightarrow> i \<in> oi_id ` (A - {op} \<union> set run) \<or> i \<in> insert (oi_id op) F
        \<or> (\<exists>x. is_pending x s' \<and> oi_id x = i)"
      unfolding fin(4) image_Un by blast
  next
    have "oi_id x \<notin> insert (oi_id op) F" if "x \<in> A - {op} \<union> set run" for x
      using that other [of x] op_out [of x] F [of x] split [of x] by blast
    then show "insert (oi_id op) F \<inter> oi_id ` (A - {op} \<union> set run) = {}"
      unfolding disjoint_iff by (metis imageE)
    fix x
    show "is_pending x s' \<longrightarrow> oi_id x \<notin> insert (oi_id op) F"
      using other op_out F split by blast
  qed
qed

context bucket_order
begin

lemma control_submit:
  assumes inv: "control A F s" and res: "submit place a r s = (run, s')"
    and op: "op = request_info a r s"
  shows "control (A \<union> set run) F s'"
proof -
  have c: "consistent A s" using inv by (simp add: control_def)
  note sub = submit_consistent [OF c res op]
  have "nextId s \<notin> F" using control_bound [OF inv, of "nextId s"] by blast
  then have F: "oi_id op \<notin> F" using sub(3) by simp
  show ?thesis
    unfolding control_def
  proof (intro conjI allI)
    show "consistent (A \<union> set run) s'" by (rule sub(1))
    fix i
    have "i < nextId s' \<longleftrightarrow> i < nextId s \<or> i = oi_id op"
      using sub(3,4) by auto
    also have "\<dots> \<longleftrightarrow> i \<in> oi_id ` A \<or> i \<in> F \<or> (\<exists>x. is_pending x s \<and> oi_id x = i) \<or> i = oi_id op"
      using inv unfolding control_def by blast
    finally show "i < nextId s' \<longleftrightarrow> i \<in> oi_id ` (A \<union> set run) \<or> i \<in> F
        \<or> (\<exists>x. is_pending x s' \<and> oi_id x = i)"
      using sub(2,6) by auto
  next
    show "F \<inter> oi_id ` (A \<union> set run) = {}"
      using inv sub(2) F by (auto simp: control_def)
    fix x
    show "is_pending x s' \<longrightarrow> oi_id x \<notin> F"
      using inv sub(6) F by (auto simp: control_def)
  qed
qed

end

text \<open>The first stage of an update sets a flag of its object.\<close>

lemma registered_objects [simp]: "registered x (s\<lparr>objects := f\<rparr>) = registered x s"
  by (cases "oi_type x") (simp_all add: registered_def)

lemma consistent_set_object:
  assumes inv: "consistent_upto R A s" and ob: "objects s i = Some ob"
    and same: "obj_info ob' = obj_info ob" "obj_type ob' = obj_type ob"
  shows "consistent_upto R A (s\<lparr>objects := (objects s)(i \<mapsto> ob')\<rparr>)" (is "consistent_upto _ _ ?s")
proof -
  have known: "known x ?s \<longleftrightarrow> known x s" for x
    using ob same by (auto simp: known_def)
  have can: "canRunOperation x ?s \<longleftrightarrow> canRunOperation x s" for x
    by (simp add: canRunOperation_iff)
  show ?thesis
  proof (rule consistent_uptoI)
    show "known x ?s" if "x \<in> A" for x
      using that consistent_known [OF inv] by (simp only: known)
    show "bytes x \<inter> bytes y = {}" if "x \<in> A" "y \<in> A" "x \<noteq> y" for x y
      using consistent_disjoint [OF inv that] .
    show "operationRunning ?s = (\<Union>x\<in>A. bytes x)"
      using consistent_running [OF inv] by simp
    show "distinct (map oi_id (pendingOperations ?s a))" for a
      using consistent_distinct [OF inv] by simp
    fix x a assume "x \<in> set (pendingOperations ?s a)"
    then have pend: "x \<in> set (pendingOperations s a)" by simp
    show "known x ?s" using pending_known [OF inv pend] by (simp only: known)
    show "x \<notin> A" by (rule pending_not_active [OF inv pend])
    show "a \<in> bytes x" by (rule pending_at [OF inv pend])
    show "x \<in> set (pendingOperations ?s b)" if "b \<in> bytes x" for b
      using pending_everywhere [OF inv pend that] by simp
    show "\<not> canRunOperation x ?s" if "bytes x \<inter> R = {}"
      using pending_blocked [OF inv pend that] by (simp only: can not_False_eq_True)
  next
    show "j < nextId ?s" if "objects ?s j \<noteq> None" for j
      using that consistent_heap [OF inv, of j] consistent_heap [OF inv, of i] ob
      by (simp split: if_splits)
  qed
qed

lemma control_set_object:
  assumes "control A F s" "objects s i = Some ob" "obj_info ob' = obj_info ob"
    "obj_type ob' = obj_type ob"
  shows "control A F (s\<lparr>objects := (objects s)(i \<mapsto> ob')\<rparr>)"
  using assms consistent_set_object [OF control_consistent [OF assms(1)] assms(2-4)]
  by (simp add: control_def is_pending_def)

section \<open>The delegate and its memory\<close>

type_synonym memory = "u32 \<Rightarrow> u8"

definition get16 :: "u32 \<Rightarrow> memory \<Rightarrow> u16" where
  "get16 a m = of_be_bytes16 (map (\<lambda>i. m (a + of_nat i)) [0..<2])"

definition get32 :: "u32 \<Rightarrow> memory \<Rightarrow> u32" where
  "get32 a m = of_be_bytes32 (map (\<lambda>i. m (a + of_nat i)) [0..<4])"

definition put_bytes :: "u32 \<Rightarrow> u8 list \<Rightarrow> memory \<Rightarrow> memory" where
  "put_bytes a bs m = fold (\<lambda>i m. m(a + of_nat i := bs ! i)) [0..<length bs] m"

definition put16 :: "u32 \<Rightarrow> u16 \<Rightarrow> memory \<Rightarrow> memory" where
  "put16 a v = put_bytes a (be_bytes16 v)"

definition put32 :: "u32 \<Rightarrow> u32 \<Rightarrow> memory \<Rightarrow> memory" where
  "put32 a v = put_bytes a (be_bytes32 v)"

text \<open>
  What a call does to the memory, and which answers the delegate may give: a read gives the
  value at that moment, a write gives some value of its width (the register as it is read back).
\<close>

fun call_effect :: "DelegateCall \<Rightarrow> memory \<Rightarrow> memory" where
  "call_effect (DWriteUInt16 a v p) m = put16 a v m"
| "call_effect (DWriteUInt32 a v p) m = put32 a v m"
| "call_effect (DReadUInt16 a p) m = m"
| "call_effect (DReadUInt32 a p) m = m"

fun call_answer :: "DelegateCall \<Rightarrow> memory \<Rightarrow> reg_value \<Rightarrow> bool" where
  "call_answer (DWriteUInt16 a v p) m r = (case r of V16 _ \<Rightarrow> True | V32 _ \<Rightarrow> False)"
| "call_answer (DWriteUInt32 a v p) m r = (case r of V16 _ \<Rightarrow> False | V32 _ \<Rightarrow> True)"
| "call_answer (DReadUInt16 a p) m r = (r = V16 (get16 a m))"
| "call_answer (DReadUInt32 a p) m r = (r = V32 (get32 a m))"

fun is_write :: "DelegateCall \<Rightarrow> bool" where
  "is_write (DWriteUInt16 a v p) = True"
| "is_write (DWriteUInt32 a v p) = True"
| "is_write (DReadUInt16 a p) = False"
| "is_write (DReadUInt32 a p) = False"

fun call_address :: "DelegateCall \<Rightarrow> u32" where
  "call_address (DWriteUInt16 a v p) = a"
| "call_address (DWriteUInt32 a v p) = a"
| "call_address (DReadUInt16 a p) = a"
| "call_address (DReadUInt32 a p) = a"

text \<open>The specification: a request takes effect on the memory in one indivisible step.\<close>

fun request_effect :: "u32 \<times> Request \<Rightarrow> memory \<Rightarrow> memory" where
  "request_effect (a, WriteRequest16 v c) m = put16 a v m"
| "request_effect (a, WriteRequest32 v c) m = put32 a v m"
| "request_effect (a, UpdateRequest16 u) m =
     (case upd_update u a (get16 a m) of Inl _ \<Rightarrow> m | Inr v \<Rightarrow> put16 a v m)"
| "request_effect (a, UpdateRequest32 u) m =
     (case upd_update u a (get32 a m) of Inl _ \<Rightarrow> m | Inr v \<Rightarrow> put32 a v m)"

section \<open>The step relation\<close>

text \<open>
  A call that the delegate has taken: the operation it belongs to (for the proofs only), the call,
  and its result once the delegate has performed it. The fields from \<open>requests\<close> on record the
  history: the requests by identifier, the operations in the order in which their writes reached
  the memory, the operations that are finished, and what the clients were told of which operation.
\<close>

type_synonym taken_call = "OperationInfo \<times> DelegateCall \<times> reg_value option"

record Sys =
  impl :: Impl
  tasks :: "OperationInfo list"
  calls :: "taken_call list"
  mem :: memory
  requests :: "nat \<rightharpoonup> u32 \<times> Request"
  applied :: "nat list"
  finished :: "nat list"
  notified :: "(nat \<times> notification) list"

definition init_Sys :: "memory \<Rightarrow> Sys" where
  "init_Sys m = \<lparr>impl = new_Impl, tasks = [], calls = [], mem = m, requests = Map.empty,
     applied = [], finished = [], notified = []\<rparr>"

text \<open>
  The result of a callback method: the operations it releases become tasks; it either starts the
  second stage of its own operation or has finished it.
\<close>

definition settle :: "OperationInfo \<Rightarrow> callback_result \<Rightarrow> Sys \<Rightarrow> Sys" where
  "settle op res c = (case res of (run, dcalls, ns, s') \<Rightarrow>
     c\<lparr>impl := s', tasks := tasks c @ run,
       calls := calls c @ map (\<lambda>d. (op, d, None)) dcalls,
       finished := (if dcalls = [] then oi_id op # finished c else finished c),
       notified := map (Pair (oi_id op)) ns @ notified c\<rparr>)"

inductive step :: "(OperationInfo \<Rightarrow> OperationInfo list \<Rightarrow> OperationInfo list) \<Rightarrow> Sys \<Rightarrow> Sys \<Rightarrow> bool"
  for place where
  Submit: "submit place a r (impl c) = (run, s') \<Longrightarrow>
     step place c (c\<lparr>impl := s', tasks := tasks c @ run,
       requests := (requests c)(nextId (impl c) \<mapsto> (a, r))\<rparr>)"
| Run: "tasks c = xs @ op # ys \<Longrightarrow> runOperation op (impl c) = Some call \<Longrightarrow>
     step place c (c\<lparr>tasks := xs @ ys, calls := calls c @ [(op, call, None)]\<rparr>)"
| Run_throws: "tasks c = xs @ op # ys \<Longrightarrow> runOperation_throws op what (impl c) = Some res \<Longrightarrow>
     step place c (settle op res (c\<lparr>tasks := xs @ ys\<rparr>))"
| Perform: "calls c = xs @ (op, call, None) # ys \<Longrightarrow> call_answer call (mem c) r \<Longrightarrow>
     step place c (c\<lparr>calls := xs @ (op, call, Some r) # ys, mem := call_effect call (mem c),
       applied := (if is_write call then applied c @ [oi_id op] else applied c)\<rparr>)"
| Reply_success: "calls c = xs @ (op, call, Some r) # ys \<Longrightarrow>
     objects (impl c) (call_callback call) = Some ob \<Longrightarrow>
     object_success write_throws (call_callback call) ob (call_address call) r (impl c) = Some res \<Longrightarrow>
     step place c (settle op res (c\<lparr>calls := xs @ ys\<rparr>))"
| Reply_failure: "calls c = xs @ (op, call, r) # ys \<Longrightarrow>
     objects (impl c) (call_callback call) = Some ob \<Longrightarrow>
     step place c (settle op (object_failure ob (call_address call) e details (impl c))
       (c\<lparr>calls := xs @ ys\<rparr>))"

inductive reachable ::
    "(OperationInfo \<Rightarrow> OperationInfo list \<Rightarrow> OperationInfo list) \<Rightarrow> memory \<Rightarrow> Sys \<Rightarrow> bool"
  for place m where
  Init: "reachable place m (init_Sys m)"
| Step: "reachable place m c \<Longrightarrow> step place c c' \<Longrightarrow> reachable place m c'"

section \<open>The invariant of the system\<close>

definition active :: "Sys \<Rightarrow> OperationInfo set" where
  "active c = set (tasks c) \<union> fst ` set (calls c)"

fun request_registered :: "nat \<Rightarrow> Request \<Rightarrow> Impl \<Rightarrow> bool" where
  "request_registered i (WriteRequest16 v c) s = (writeUInt16CallbacksAndValues s i = Some (i, v))"
| "request_registered i (WriteRequest32 v c) s = (writeUInt32CallbacksAndValues s i = Some (i, v))"
| "request_registered i (UpdateRequest16 c) s = (updateUInt16Callbacks s i = Some i)"
| "request_registered i (UpdateRequest32 c) s = (updateUInt32Callbacks s i = Some i)"

text \<open>An operation that waits or is about to run still has what it was submitted with.\<close>

definition ready :: "Sys \<Rightarrow> OperationInfo \<Rightarrow> bool" where
  "ready c op \<longleftrightarrow> (\<exists>r. requests c (oi_id op) = Some (oi_address op, r) \<and> oi_type op = request_type r
     \<and> objects (impl c) (oi_id op) = Some (request_object op r)
     \<and> request_registered (oi_id op) r (impl c))"

text \<open>
  The call of an operation fits its request and its callback object. For an update, the value
  that was read is the value in the memory, and the value that is going to be written is the
  result of the client's function on the value in the memory.
\<close>

inductive call_ok :: "memory \<Rightarrow> (u32 \<times> Request) option \<Rightarrow> OperationInfo \<Rightarrow> CallbackObject option
    \<Rightarrow> DelegateCall \<Rightarrow> reg_value option \<Rightarrow> bool"
  where
  Write16: "oi_type op = OpWriteUInt16 \<Longrightarrow> a = oi_address op \<Longrightarrow> (\<forall>x. r = Some x \<longrightarrow> (\<exists>y. x = V16 y)) \<Longrightarrow>
    call_ok m (Some (a, WriteRequest16 v d)) op
      (Some (WriteCb16 \<lparr>wc_operationInfo = op, wc_delegate = d\<rparr>))
      (DWriteUInt16 a v (oi_id op)) r"
| Write32: "oi_type op = OpWriteUInt32 \<Longrightarrow> a = oi_address op \<Longrightarrow> (\<forall>x. r = Some x \<longrightarrow> (\<exists>y. x = V32 y)) \<Longrightarrow>
    call_ok m (Some (a, WriteRequest32 v d)) op
      (Some (WriteCb32 \<lparr>wc_operationInfo = op, wc_delegate = d\<rparr>))
      (DWriteUInt32 a v (oi_id op)) r"
| Read16: "oi_type op = OpUpdateUInt16 \<Longrightarrow> a = oi_address op \<Longrightarrow>
    (\<forall>x. r = Some x \<longrightarrow> x = V16 (get16 a m)) \<Longrightarrow>
    call_ok m (Some (a, UpdateRequest16 u)) op
      (Some (UpdateCb16 \<lparr>uc_operationInfo = op, uc_readFinished = False, uc_delegate = u\<rparr>))
      (DReadUInt16 a (oi_id op)) r"
| Read32: "oi_type op = OpUpdateUInt32 \<Longrightarrow> a = oi_address op \<Longrightarrow>
    (\<forall>x. r = Some x \<longrightarrow> x = V32 (get32 a m)) \<Longrightarrow>
    call_ok m (Some (a, UpdateRequest32 u)) op
      (Some (UpdateCb32 \<lparr>uc_operationInfo = op, uc_readFinished = False, uc_delegate = u\<rparr>))
      (DReadUInt32 a (oi_id op)) r"
| Update16: "oi_type op = OpUpdateUInt16 \<Longrightarrow> a = oi_address op \<Longrightarrow>
    (r = None \<longrightarrow> upd_update u a (get16 a m) = Inr v) \<Longrightarrow> (\<forall>x. r = Some x \<longrightarrow> (\<exists>y. x = V16 y)) \<Longrightarrow>
    call_ok m (Some (a, UpdateRequest16 u)) op
      (Some (UpdateCb16 \<lparr>uc_operationInfo = op, uc_readFinished = True, uc_delegate = u\<rparr>))
      (DWriteUInt16 a v (oi_id op)) r"
| Update32: "oi_type op = OpUpdateUInt32 \<Longrightarrow> a = oi_address op \<Longrightarrow>
    (r = None \<longrightarrow> upd_update u a (get32 a m) = Inr v) \<Longrightarrow> (\<forall>x. r = Some x \<longrightarrow> (\<exists>y. x = V32 y)) \<Longrightarrow>
    call_ok m (Some (a, UpdateRequest32 u)) op
      (Some (UpdateCb32 \<lparr>uc_operationInfo = op, uc_readFinished = True, uc_delegate = u\<rparr>))
      (DWriteUInt32 a v (oi_id op)) r"

inductive_cases call_okE: "call_ok m rq op ob call r"

section \<open>Memory\<close>

lemma put_bytes_other:
  "b \<notin> (\<lambda>i. a + of_nat i) ` {0..<length bs} \<Longrightarrow> put_bytes a bs m b = m b"
proof -
  have "fold (\<lambda>i m. m(a + of_nat i := bs ! i)) ks m b = m b"
    if "b \<notin> (\<lambda>i. a + of_nat i) ` set ks" for ks
    using that by (induction ks arbitrary: m) auto
  from this [of "[0..<length bs]"] show "b \<notin> (\<lambda>i. a + of_nat i) ` {0..<length bs} \<Longrightarrow> ?thesis"
    by (simp add: put_bytes_def)
qed

text \<open>A value that is written is read back, and writing changes only the bytes of the value.\<close>

lemma get16_put16: "get16 a (put16 a v m) = v"
proof -
  have "map (\<lambda>i. put16 a v m (a + of_nat i)) [0..<2] = be_bytes16 v"
    by (simp add: put16_def put_bytes_def be_bytes16_def upt_rec numeral_2_eq_2)
  then show ?thesis by (simp add: get16_def)
qed

lemma get32_put32: "get32 a (put32 a v m) = v"
proof -
  have "map (\<lambda>i. put32 a v m (a + of_nat i)) [0..<4] = be_bytes32 v"
    by (simp add: put32_def put_bytes_def be_bytes32_def upt_rec)
  then show ?thesis by (simp add: get32_def)
qed

lemma get16_cong: "\<forall>i<2. m' (a + of_nat i) = m (a + of_nat i) \<Longrightarrow> get16 a m' = get16 a m"
  unfolding get16_def by (intro arg_cong [of _ _ of_be_bytes16] map_cong) auto

lemma get32_cong: "\<forall>i<4. m' (a + of_nat i) = m (a + of_nat i) \<Longrightarrow> get32 a m' = get32 a m"
  unfolding get32_def by (intro arg_cong [of _ _ of_be_bytes32] map_cong) auto

lemma bytes_mem: "i < width op \<Longrightarrow> oi_address op + of_nat i \<in> bytes op"
  by (auto simp: op_bytes_def)

lemma bytes_image: "bytes op = (\<lambda>i. oi_address op + of_nat i) ` {0..<width op}"
  by (simp add: op_bytes_def)

text \<open>A call changes only bytes of its operation; other calls do not notice.\<close>

lemma call_effect_other:
  assumes "call_ok m rq op ob call r" and "b \<notin> bytes op"
  shows "call_effect call m' b = m' b"
  using assms
  by (elim call_okE) (auto simp: put16_def put32_def bytes_image width_def intro!: put_bytes_other)

lemma call_ok_memory:
  assumes ok: "call_ok m rq op ob call r" and same: "\<And>b. b \<in> bytes op \<Longrightarrow> m' b = m b"
  shows "call_ok m' rq op ob call r"
proof -
  have g16: "get16 (oi_address op) m' = get16 (oi_address op) m" if "width op = 2"
    using that same bytes_mem [of _ op] by (auto intro!: get16_cong)
  have g32: "get32 (oi_address op) m' = get32 (oi_address op) m" if "width op = 4"
    using that same bytes_mem [of _ op] by (auto intro!: get32_cong)
  show ?thesis
    using ok g16 g32 by (elim call_okE) (simp_all add: call_ok.simps width_def)
qed

lemma call_ok_performed:
  assumes "call_ok m rq op ob call None" "call_answer call m x"
  shows "call_ok (call_effect call m) rq op ob call (Some x)"
  using assms
  by (elim call_okE) (auto simp: call_ok.simps split: reg_value.splits)

text \<open>Performing a write has the effect of the request on the memory as it is at that moment.\<close>

lemma call_effect_request:
  assumes "call_ok m rq op ob call None"
  shows "call_effect call m = (if is_write call then request_effect (the rq) m else m)"
  using assms by (elim call_okE) auto

lemma runOperation_ready:
  assumes "ready c op"
  obtains call where "runOperation op (impl c) = Some call"
    "call_ok m (requests c (oi_id op)) op (objects (impl c) (oi_id op)) call None"
proof -
  obtain r where r: "requests c (oi_id op) = Some (oi_address op, r)" "oi_type op = request_type r"
    "objects (impl c) (oi_id op) = Some (request_object op r)"
    "request_registered (oi_id op) r (impl c)"
    using assms by (auto simp: ready_def)
  then have "\<exists>call. runOperation op (impl c) = Some call
      \<and> call_ok m (requests c (oi_id op)) op (objects (impl c) (oi_id op)) call None"
    by (cases r) (simp_all add: runOperation_def call_ok.simps)
  then show ?thesis using that by blast
qed

section \<open>Every step keeps the invariant\<close>

text \<open>\<open>X\<close> is an operation whose callback method is being run; between steps there is none.\<close>

definition inv_with :: "OperationInfo list \<Rightarrow> Sys \<Rightarrow> bool" where
  "inv_with X c \<longleftrightarrow> control (set X \<union> active c) (set (finished c)) (impl c)
     \<and> distinct (X @ tasks c @ map fst (calls c)) \<and> distinct (finished c)
     \<and> (\<forall>op. op \<in> set (tasks c) \<or> is_pending op (impl c) \<longrightarrow> ready c op)
     \<and> (\<forall>(op, call, r) \<in> set (calls c).
          call_ok (mem c) (requests c (oi_id op)) op (objects (impl c) (oi_id op)) call r)"

abbreviation sys_inv :: "Sys \<Rightarrow> bool" where
  "sys_inv \<equiv> inv_with []"

lemma inv_control: "inv_with X c \<Longrightarrow> control (set X \<union> active c) (set (finished c)) (impl c)"
  unfolding inv_with_def by blast

lemma inv_consistent: "inv_with X c \<Longrightarrow> consistent (set X \<union> active c) (impl c)"
  by (rule control_consistent [OF inv_control])

lemma inv_distinct: "inv_with X c \<Longrightarrow> distinct (X @ tasks c @ map fst (calls c))"
  unfolding inv_with_def by blast

lemma inv_ready: "inv_with X c \<Longrightarrow> op \<in> set (tasks c) \<or> is_pending op (impl c) \<Longrightarrow> ready c op"
  unfolding inv_with_def by blast

lemma inv_call_ok:
  "inv_with X c \<Longrightarrow> (op, call, r) \<in> set (calls c) \<Longrightarrow>
     call_ok (mem c) (requests c (oi_id op)) op (objects (impl c) (oi_id op)) call r"
  unfolding inv_with_def by blast

lemma inv_known:
  assumes "inv_with X c" and "op \<in> set X \<union> active c \<or> is_pending op (impl c)"
  shows "known op (impl c)"
  using assms(2) consistent_known [OF inv_consistent [OF assms(1)]]
    pending_known [OF inv_consistent [OF assms(1)]]
  by (auto simp: is_pending_def)

lemma inv_id_eq:
  assumes inv: "inv_with X c" and "op \<in> set X \<union> active c \<or> is_pending op (impl c)"
    and "op' \<in> set X \<union> active c \<or> is_pending op' (impl c)" and "oi_id op = oi_id op'"
  shows "op = op'"
  using known_id_eq inv_known [OF inv] assms by blast

lemma inv_not_pending:
  "inv_with X c \<Longrightarrow> op \<in> set X \<union> active c \<Longrightarrow> \<not> is_pending op (impl c)"
  using pending_not_active [OF inv_consistent] by (auto simp: is_pending_def)

lemma inv_init: "sys_inv (init_Sys m)"
  by (simp add: inv_with_def init_Sys_def active_def control_new)
     (simp add: is_pending_def new_Impl_def)

lemma ready_cong:
  assumes "requests c' (oi_id op) = requests c (oi_id op)" "same_at (oi_id op) (impl c) (impl c')"
  shows "ready c' op = ready c op"
proof -
  have "request_registered (oi_id op) r (impl c') = request_registered (oi_id op) r (impl c)" for r
    using assms(2) by (cases r) (simp_all add: same_at_def)
  then show ?thesis using assms by (simp add: ready_def same_at_def)
qed

lemma inv_detach_task:
  assumes inv: "sys_inv c" and tasks: "tasks c = xs @ op # ys"
  shows "inv_with [op] (c\<lparr>tasks := xs @ ys\<rparr>)" "ready c op"
proof -
  show "ready c op" using inv_ready [OF inv] tasks by simp
  have "ready (c\<lparr>tasks := xs @ ys\<rparr>) x = ready c x" for x
    by (rule ready_cong) (simp_all add: same_at_def)
  moreover have "set [op] \<union> active (c\<lparr>tasks := xs @ ys\<rparr>) = set [] \<union> active c"
    using tasks by (auto simp: active_def)
  ultimately show "inv_with [op] (c\<lparr>tasks := xs @ ys\<rparr>)"
    using inv tasks unfolding inv_with_def by auto
qed

lemma inv_detach_call:
  assumes inv: "sys_inv c" and calls: "calls c = xs @ (op, call, r) # ys"
  shows "inv_with [op] (c\<lparr>calls := xs @ ys\<rparr>)"
    "call_ok (mem c) (requests c (oi_id op)) op (objects (impl c) (oi_id op)) call r"
proof -
  show "call_ok (mem c) (requests c (oi_id op)) op (objects (impl c) (oi_id op)) call r"
    using inv_call_ok [OF inv] calls by simp
  have "ready (c\<lparr>calls := xs @ ys\<rparr>) x = ready c x" for x
    by (rule ready_cong) (simp_all add: same_at_def)
  moreover have "set [op] \<union> active (c\<lparr>calls := xs @ ys\<rparr>) = set [] \<union> active c"
    using calls by (auto simp: active_def)
  ultimately show "inv_with [op] (c\<lparr>calls := xs @ ys\<rparr>)"
    using inv calls unfolding inv_with_def by auto
qed

lemma inv_set_object:
  assumes inv: "inv_with [op] c" and ob: "objects (impl c) (oi_id op) = Some ob"
    and same: "obj_info ob' = obj_info ob" "obj_type ob' = obj_type ob"
  shows "inv_with [op] (c\<lparr>impl := (impl c)\<lparr>objects := (objects (impl c))(oi_id op \<mapsto> ob')\<rparr>\<rparr>)"
    (is "inv_with _ ?c")
proof -
  have pend: "is_pending x (impl ?c) = is_pending x (impl c)" for x
    by (simp add: is_pending_def)
  have other: "oi_id x \<noteq> oi_id op" if "x \<in> active c \<or> is_pending x (impl c)" for x
  proof
    assume "oi_id x = oi_id op"
    then have "x = op" using inv_id_eq [OF inv] that by auto
    then show False
      using that inv_distinct [OF inv] inv_not_pending [OF inv] by (auto simp: active_def)
  qed
  have "ready ?c x" if "x \<in> set (tasks c) \<or> is_pending x (impl c)" for x
  proof -
    have "ready ?c x = ready c x"
      using other that by (intro ready_cong) (auto simp: same_at_def active_def)
    with inv_ready [OF inv that] show ?thesis by simp
  qed
  moreover have "call_ok (mem ?c) (requests ?c (oi_id x)) x (objects (impl ?c) (oi_id x)) call r"
    if "(x, call, r) \<in> set (calls c)" for x call r
    using inv_call_ok [OF inv that] other [of x] that by (force simp: active_def)
  ultimately show ?thesis
    using control_set_object [OF inv_control [OF inv] ob same] inv_distinct [OF inv] inv
    unfolding inv_with_def pend by (auto simp: active_def)
qed

lemma inv_finish:
  assumes inv: "inv_with [op] c" and fin: "operationFinished op (impl c) = (run, s')"
  shows "sys_inv (settle op (run, [], ns, s') c)" (is "sys_inv ?c")
proof -
  note con = inv_consistent [OF inv]
  have op: "op \<in> set [op] \<union> active c" by simp
  note F = operationFinished_consistent [OF con op fin]
  have c: "impl ?c = s'" "tasks ?c = tasks c @ run" "calls ?c = calls c" "mem ?c = mem c"
    "requests ?c = requests c" "finished ?c = oi_id op # finished c"
    by (simp_all add: settle_def)
  have op_notin: "op \<notin> active c" using inv_distinct [OF inv] by (auto simp: active_def)
  have act: "set [] \<union> active ?c = (set [op] \<union> active c) - {op} \<union> set run"
    using op_notin by (auto simp: active_def c)
  have other: "oi_id x \<noteq> oi_id op" if "x \<in> active c \<or> is_pending x (impl c)" for x
  proof
    assume "oi_id x = oi_id op"
    then have "x = op" using inv_id_eq [OF inv] that by auto
    then show False using that op_notin inv_not_pending [OF inv] by auto
  qed
  have "ready ?c x" if "x \<in> set (tasks ?c) \<or> is_pending x (impl ?c)" for x
  proof -
    have x: "x \<in> set (tasks c) \<or> is_pending x (impl c)" using that F(6) by (auto simp: c)
    then have "oi_id x \<noteq> oi_id op" using other by (auto simp: active_def)
    then have "ready ?c x = ready c x" by (intro ready_cong) (simp_all add: c F(8))
    with inv_ready [OF inv x] show ?thesis by simp
  qed
  moreover have "distinct (tasks ?c @ map fst (calls ?c))"
    using inv_distinct [OF inv] F(2,3) by (auto simp: c active_def)
  moreover have "distinct (finished ?c)"
    using inv by (auto simp: c inv_with_def control_def)
  moreover have "\<forall>(x, call, r)\<in>set (calls ?c).
      call_ok (mem ?c) (requests ?c (oi_id x)) x (objects (impl ?c) (oi_id x)) call r"
    using inv_call_ok [OF inv] by (auto simp: c F(5))
  ultimately show ?thesis
    using control_finish [OF inv_control [OF inv] op fin]
    unfolding inv_with_def act c(6) list.set(2) c(1) by simp
qed

lemma inv_second_stage:
  assumes inv: "inv_with [op] c"
    and d: "call_ok (mem c) (requests c (oi_id op)) op (objects (impl c) (oi_id op)) d None"
  shows "sys_inv (settle op ([], [d], ns, impl c) c)" (is "sys_inv ?c")
proof -
  have c: "impl ?c = impl c" "tasks ?c = tasks c" "calls ?c = calls c @ [(op, d, None)]"
    "mem ?c = mem c" "requests ?c = requests c" "finished ?c = finished c"
    by (simp_all add: settle_def)
  have "ready ?c x = ready c x" for x
    by (rule ready_cong) (simp_all add: c same_at_def)
  moreover have "set [] \<union> active ?c = set [op] \<union> active c"
    by (auto simp: active_def c)
  ultimately show ?thesis
    using inv d unfolding inv_with_def c by auto
qed

text \<open>
  The client that the callback object of an operation notifies, and the shape of what the
  callback methods return: they finish their operation and notify its client, if there is one,
  or they start the second stage of an update.
\<close>

fun obj_client :: "CallbackObject \<Rightarrow> nat option" where
  "obj_client (WriteCb16 c) = wc_delegate c"
| "obj_client (WriteCb32 c) = wc_delegate c"
| "obj_client (UpdateCb16 c) = upd_notify (uc_delegate c)"
| "obj_client (UpdateCb32 c) = upd_notify (uc_delegate c)"

fun is_success :: "notification \<Rightarrow> bool" where
  "is_success (Notify16 d (Success a v)) = True"
| "is_success (Notify32 d (Success a v)) = True"
| "is_success _ = False"

definition notifies :: "CallbackObject \<Rightarrow> notification list \<Rightarrow> bool" where
  "notifies ob ns \<longleftrightarrow> map notification_client ns = (case obj_client ob of None \<Rightarrow> [] | Some d \<Rightarrow> [d])"

lemma object_failure_shape:
  assumes "operationFinished (obj_info ob) s = (run, s')"
  obtains ns where "object_failure ob a e d s = (run, [], ns, s')" "notifies ob ns"
    "\<forall>n\<in>set ns. \<not> is_success n"
proof -
  have "\<exists>ns. object_failure ob a e d s = (run, [], ns, s') \<and> notifies ob ns
      \<and> (\<forall>n\<in>set ns. \<not> is_success n)"
    using assms by (cases ob) (auto simp: WriteCallback_failure_def WriteCallback_notify_def
        UpdateCallback_failure_def notifies_def notify_client_def split: option.split)
  then show ?thesis using that by blast
qed

lemma UpdateCallback_success_shape [consumes 3]:
  assumes res: "UpdateCallback_success wrap notify write write_throws i c a v s = res"
    and notify: "\<And>d r. notification_client (notify d r) = d"
      "\<And>d a e x. \<not> is_success (notify d (Failure a e x))"
  obtains (finish) run s' ns ob' where "ob' = wrap c \<or> ob' = wrap (c\<lparr>uc_readFinished := True\<rparr>)"
      "objects s i = Some (wrap c) \<Longrightarrow>
        operationFinished (uc_operationInfo c) (s\<lparr>objects := (objects s)(i \<mapsto> ob')\<rparr>) = (run, s')"
      "res = (run, [], ns, s')" "map notification_client ns
        = (case upd_notify (uc_delegate c) of None \<Rightarrow> [] | Some d \<Rightarrow> [d])"
      "\<forall>n\<in>set ns. is_success n \<longrightarrow> uc_readFinished c"
    | (second) w where "\<not> uc_readFinished c" "upd_update (uc_delegate c) a v = Inr w"
      "res = ([], [write (oi_address (uc_operationInfo c)) w i], [],
        s\<lparr>objects := (objects s)(i \<mapsto> wrap (c\<lparr>uc_readFinished := True\<rparr>))\<rparr>)"
proof (cases "uc_readFinished c")
  case True
  obtain run s' where fin: "operationFinished (uc_operationInfo c) s = (run, s')" by fastforce
  have "s\<lparr>objects := (objects s)(i \<mapsto> wrap c)\<rparr> = s" if "objects s i = Some (wrap c)"
    using that by (simp add: fun_upd_idem)
  with fin True res show ?thesis
    by (intro finish [of "wrap c" run s' "notify_client notify (upd_notify (uc_delegate c)) (Success a v)"])
       (auto simp: UpdateCallback_success_def notify notify_client_def split: option.splits)
next
  case False
  let ?s = "s\<lparr>objects := (objects s)(i \<mapsto> wrap (c\<lparr>uc_readFinished := True\<rparr>))\<rparr>"
  obtain run s' where fin: "operationFinished (uc_operationInfo c) ?s = (run, s')" by fastforce
  have fail: thesis
    if "res = UpdateCallback_failure notify (c\<lparr>uc_readFinished := True\<rparr>) a e d ?s" for e d
    using that fin
    by (intro finish [of "wrap (c\<lparr>uc_readFinished := True\<rparr>)" run s'
          "notify_client notify (upd_notify (uc_delegate c)) (Failure a e d)"])
       (auto simp: UpdateCallback_failure_def notify notify_client_def split: option.splits)
  show ?thesis
  proof (cases "upd_update (uc_delegate c) a v")
    case (Inl what)
    with False res show ?thesis
      by (intro fail [of EC_unknown "update_throw_text what"])
         (simp add: UpdateCallback_success_def Let_def)
  next
    case (Inr w)
    show ?thesis
    proof (cases write_throws)
      case None
      with False res Inr show ?thesis
        by (intro second [of w]) (simp_all add: UpdateCallback_success_def)
    next
      case (Some what)
      with False res Inr show ?thesis
        by (intro fail [of EC_unknown "update_throw_text what"])
           (simp add: UpdateCallback_success_def Let_def)
    qed
  qed
qed

lemma notify16:
  "notification_client (Notify16 d r) = d" "\<not> is_success (Notify16 d (Failure a e x))"
  by simp_all

lemma notify32:
  "notification_client (Notify32 d r) = d" "\<not> is_success (Notify32 d (Failure a e x))"
  by simp_all

lemma object_success_shape:
  assumes ok: "call_ok m rq op (objects s (oi_id op)) call (Some r)"
    and ob: "objects s (oi_id op) = Some ob"
    and res: "object_success write_throws (oi_id op) ob (call_address call) r s = Some res"
  obtains (finished) run s' ns ob' where "obj_info ob' = obj_info ob" "obj_type ob' = obj_type ob"
      "operationFinished op (s\<lparr>objects := (objects s)(oi_id op \<mapsto> ob')\<rparr>) = (run, s')"
      "res = (run, [], ns, s')" "notifies ob ns" "\<forall>n\<in>set ns. is_success n \<longrightarrow> is_write call"
    | (second_stage) d ob' where "obj_info ob' = obj_info ob" "obj_type ob' = obj_type ob"
      "\<not> is_write call" "is_write d" "call_ok m rq op (Some ob') d None"
      "res = ([], [d], [], s\<lparr>objects := (objects s)(oi_id op \<mapsto> ob')\<rparr>)"
proof -
  have idem: "s\<lparr>objects := (objects s)(oi_id op \<mapsto> ob)\<rparr> = s"
    using ob by (simp add: fun_upd_idem)
  from ok show ?thesis
  proof (cases rule: call_ok.cases)
    case (Write16 a d v)
    obtain run s' where "operationFinished op s = (run, s')" by fastforce
    moreover from this Write16 ob res obtain ns where "res = (run, [], ns, s')" "notifies ob ns"
      by (auto simp: WriteCallback_success_def WriteCallback_notify_def notifies_def notify_client_def
          split: reg_value.splits option.splits)
    ultimately show ?thesis
      using idem by (intro finished [of ob run s' ns]) (use Write16 ob in auto)
  next
    case (Write32 a d v)
    obtain run s' where "operationFinished op s = (run, s')" by fastforce
    moreover from this Write32 ob res obtain ns where "res = (run, [], ns, s')" "notifies ob ns"
      by (auto simp: WriteCallback_success_def WriteCallback_notify_def notifies_def notify_client_def
          split: reg_value.splits option.splits)
    ultimately show ?thesis
      using idem by (intro finished [of ob run s' ns]) (use Write32 ob in auto)
  next
    case (Read16 a u)
    then have "UpdateCallback_success UpdateCb16 Notify16 DWriteUInt16 write_throws (oi_id op)
        \<lparr>uc_operationInfo = op, uc_readFinished = False, uc_delegate = u\<rparr> a (get16 a m) s = res"
      using res ob by simp
    from this notify16 show ?thesis
    proof (cases rule: UpdateCallback_success_shape)
      case (finish run s' ns ob')
      with Read16 ob show ?thesis by (intro finished [of ob' run s' ns]) (auto simp: notifies_def)
    next
      case (second w)
      with Read16 ob show ?thesis
        by (intro second_stage [OF _ _ _ _ _ second(3)]) (simp_all add: call_ok.simps)
    qed
  next
    case (Read32 a u)
    then have "UpdateCallback_success UpdateCb32 Notify32 DWriteUInt32 write_throws (oi_id op)
        \<lparr>uc_operationInfo = op, uc_readFinished = False, uc_delegate = u\<rparr> a (get32 a m) s = res"
      using res ob by simp
    from this notify32 show ?thesis
    proof (cases rule: UpdateCallback_success_shape)
      case (finish run s' ns ob')
      with Read32 ob show ?thesis by (intro finished [of ob' run s' ns]) (auto simp: notifies_def)
    next
      case (second w)
      with Read32 ob show ?thesis
        by (intro second_stage [OF _ _ _ _ _ second(3)]) (simp_all add: call_ok.simps)
    qed
  next
    case (Update16 a u v)
    then obtain y where "UpdateCallback_success UpdateCb16 Notify16 DWriteUInt16 write_throws (oi_id op)
        \<lparr>uc_operationInfo = op, uc_readFinished = True, uc_delegate = u\<rparr> a y s = res"
      using res ob by auto
    from this notify16 show ?thesis
    proof (cases rule: UpdateCallback_success_shape)
      case (finish run s' ns ob')
      with Update16 ob show ?thesis by (intro finished [of ob' run s' ns]) (auto simp: notifies_def)
    qed simp
  next
    case (Update32 a u v)
    then obtain y where "UpdateCallback_success UpdateCb32 Notify32 DWriteUInt32 write_throws (oi_id op)
        \<lparr>uc_operationInfo = op, uc_readFinished = True, uc_delegate = u\<rparr> a y s = res"
      using res ob by auto
    from this notify32 show ?thesis
    proof (cases rule: UpdateCallback_success_shape)
      case (finish run s' ns ob')
      with Update32 ob show ?thesis by (intro finished [of ob' run s' ns]) (auto simp: notifies_def)
    qed simp
  qed
qed

definition request_client :: "(u32 \<times> Request) option \<Rightarrow> nat option" where
  "request_client rq = (case rq of None \<Rightarrow> None | Some (a, r) \<Rightarrow> (case r of
     WriteRequest16 v d \<Rightarrow> d | WriteRequest32 v d \<Rightarrow> d
   | UpdateRequest16 u \<Rightarrow> upd_notify u | UpdateRequest32 u \<Rightarrow> upd_notify u))"

lemma call_ok_object:
  assumes "call_ok m rq op ob call r"
  obtains ob' where "ob = Some ob'" "obj_info ob' = op" "call_callback call = oi_id op"
    "call_address call = oi_address op" "obj_client ob' = request_client rq"
  using assms by (elim call_okE) (auto simp: call_callback_def request_client_def)

text \<open>The six rules of the step relation.\<close>

lemma inv_Run:
  assumes inv: "sys_inv c" and tasks: "tasks c = xs @ op # ys"
    and call: "runOperation op (impl c) = Some call"
  shows "sys_inv (c\<lparr>tasks := xs @ ys, calls := calls c @ [(op, call, None)]\<rparr>)"
proof -
  note det = inv_detach_task [OF inv tasks]
  have "call_ok (mem c) (requests c (oi_id op)) op (objects (impl c) (oi_id op)) call None"
    using runOperation_ready [OF det(2)] call by (metis option.inject)
  with inv_second_stage [OF det(1), of call "[]"] show ?thesis by (simp add: settle_def)
qed

lemma inv_object_failure:
  assumes "inv_with [op] c" "obj_info ob = op"
  shows "sys_inv (settle op (object_failure ob a e d (impl c)) c)"
proof -
  obtain run s' where fin: "operationFinished op (impl c) = (run, s')" by fastforce
  then obtain ns where "object_failure ob a e d (impl c) = (run, [], ns, s')"
    using object_failure_shape assms(2) by blast
  with inv_finish [OF assms(1) fin] show ?thesis by simp
qed

lemma inv_Run_throws:
  assumes inv: "sys_inv c" and tasks: "tasks c = xs @ op # ys"
    and res: "runOperation_throws op what (impl c) = Some res"
  shows "sys_inv (settle op res (c\<lparr>tasks := xs @ ys\<rparr>))"
proof -
  note det = inv_detach_task [OF inv tasks]
  obtain call where call: "runOperation op (impl c) = Some call"
      "call_ok (mem c) (requests c (oi_id op)) op (objects (impl c) (oi_id op)) call None"
    by (rule runOperation_ready [OF det(2)])
  from call(2) obtain ob where ob: "objects (impl c) (oi_id op) = Some ob" "obj_info ob = op"
      "call_callback call = oi_id op"
    by (rule call_ok_object)
  with call(1) res have "res = object_failure ob (oi_address op) EC_unknown (run_throw_text op what) (impl c)"
    by (simp add: runOperation_throws_def)
  with inv_object_failure [OF det(1) ob(2)] show ?thesis by simp
qed

lemma inv_Reply_failure:
  assumes inv: "sys_inv c" and calls: "calls c = xs @ (op, call, r) # ys"
    and ob: "objects (impl c) (call_callback call) = Some ob"
  shows "sys_inv (settle op (object_failure ob a e d (impl c)) (c\<lparr>calls := xs @ ys\<rparr>))"
proof -
  note det = inv_detach_call [OF inv calls]
  from det(2) obtain ob' where "objects (impl c) (oi_id op) = Some ob'" "obj_info ob' = op"
      "call_callback call = oi_id op"
    by (rule call_ok_object)
  with ob have "obj_info ob = op" by simp
  from inv_object_failure [OF det(1) this] show ?thesis by simp
qed

lemma inv_Reply_success:
  assumes inv: "sys_inv c" and calls: "calls c = xs @ (op, call, Some r) # ys"
    and ob: "objects (impl c) (call_callback call) = Some ob"
    and res: "object_success w (call_callback call) ob (call_address call) r (impl c) = Some res"
  shows "sys_inv (settle op res (c\<lparr>calls := xs @ ys\<rparr>))"
proof -
  let ?c = "c\<lparr>calls := xs @ ys\<rparr>"
  note det = inv_detach_call [OF inv calls]
  from det(2) have id: "call_callback call = oi_id op" by (rule call_ok_object)
  note ob = ob [unfolded id] and res = res [unfolded id]
  from det(2) ob res show ?thesis
  proof (cases rule: object_success_shape)
    case (finished run s' ns ob')
    have "objects (impl ?c) (oi_id op) = Some ob" using ob by simp
    note inv' = inv_set_object [OF det(1) this finished(1,2)]
    have "operationFinished op (impl (?c\<lparr>impl :=
        (impl ?c)\<lparr>objects := (objects (impl ?c))(oi_id op \<mapsto> ob')\<rparr>\<rparr>)) = (run, s')"
      using finished(3) by simp
    from inv_finish [OF inv' this, of ns] show ?thesis by (simp add: finished settle_def)
  next
    case (second_stage d ob')
    have "objects (impl ?c) (oi_id op) = Some ob" using ob by simp
    note inv' = inv_set_object [OF det(1) this second_stage(1,2)]
    show ?thesis
      using inv_second_stage [OF inv', of d "[]"] second_stage(5,6) by (simp add: settle_def)
  qed
qed

lemma inv_Perform:
  assumes inv: "sys_inv c" and calls: "calls c = xs @ (op, call, None) # ys"
    and r: "call_answer call (mem c) r"
  shows "sys_inv (c\<lparr>calls := xs @ (op, call, Some r) # ys, mem := call_effect call (mem c),
    applied := h\<rparr>)" (is "sys_inv ?c")
proof -
  have ok: "call_ok (mem c) (requests c (oi_id op)) op (objects (impl c) (oi_id op)) call None"
    using inv_call_ok [OF inv] calls by simp
  have "call_ok (mem ?c) (requests ?c (oi_id x)) x (objects (impl ?c) (oi_id x)) cl q"
    if "(x, cl, q) \<in> set (calls ?c)" for x cl q
  proof (cases "(x, cl, q) = (op, call, Some r)")
    case True
    with call_ok_performed [OF ok r] show ?thesis by simp
  next
    case False
    with that have old: "(x, cl, q) \<in> set xs \<union> set ys" by auto
    then have ok': "call_ok (mem c) (requests c (oi_id x)) x (objects (impl c) (oi_id x)) cl q"
      using inv_call_ok [OF inv] calls by auto
    have "x \<in> fst ` (set xs \<union> set ys)" using old by force
    then have "x \<noteq> op" "x \<in> active c" "op \<in> active c"
      using inv_distinct [OF inv] by (auto simp: calls active_def)
    then have "bytes x \<inter> bytes op = {}"
      using consistent_disjoint [OF inv_consistent [OF inv]] by simp
    then have "call_effect call (mem c) b = mem c b" if "b \<in> bytes x" for b
      using call_effect_other [OF ok] that by blast
    from call_ok_memory [OF ok' this] show ?thesis by simp
  qed
  moreover have "ready ?c x = ready c x" for x
    by (rule ready_cong) (simp_all add: same_at_def)
  moreover have "active ?c = active c" "map fst (calls ?c) = map fst (calls c)"
    by (auto simp: active_def calls)
  ultimately show ?thesis
    using inv unfolding inv_with_def by auto
qed

context bucket_order
begin

lemma inv_Submit:
  assumes inv: "sys_inv c" and sub: "submit place a r (impl c) = (run, s')"
  shows "sys_inv (c\<lparr>impl := s', tasks := tasks c @ run,
    requests := (requests c)(nextId (impl c) \<mapsto> (a, r))\<rparr>)" (is "sys_inv ?c")
proof -
  define op where "op = request_info a r (impl c)"
  note con = inv_consistent [OF inv]
  note S = submit_consistent [OF con sub op_def]
  have old: "oi_id x < nextId (impl c)" if "x \<in> active c \<or> is_pending x (impl c)" for x
    using known_id_bound [OF con inv_known [OF inv]] that by auto
  have op_new: "op \<notin> active c" using old [of op] S(3) by auto
  have same: "same_at i (impl c) s'" if "i < nextId (impl c)" for i
    using that S(5,7) register_tables_other [of i "impl c" a r]
    by (simp add: same_at_def same_tables_def)
  have "ready ?c x" if "x \<in> set (tasks ?c) \<or> is_pending x (impl ?c)" for x
  proof (cases "x = op")
    case True
    have "request_registered (oi_id op) r s'"
      using S(7) by (cases r) (simp_all add: same_tables_def register_def op_def request_info_def)
    moreover have "oi_type op = request_type r" "oi_address op = a"
      by (simp_all add: op_def request_info_def)
    ultimately show ?thesis
      unfolding ready_def True using S(3,5) by (intro exI [of _ r]) simp
  next
    case False
    have "x \<notin> set run" "is_pending x s' \<longleftrightarrow> is_pending x (impl c)"
      using False S(2) S(6) [of x] by (elim disjE; simp)+
    with that have x: "x \<in> set (tasks c) \<or> is_pending x (impl c)" by simp
    with old have "oi_id x < nextId (impl c)" by (auto simp: active_def)
    with same have "ready ?c x = ready c x" by (intro ready_cong) auto
    with inv_ready [OF inv x] show ?thesis by simp
  qed
  moreover have "call_ok (mem ?c) (requests ?c (oi_id x)) x (objects (impl ?c) (oi_id x)) cl q"
    if x: "(x, cl, q) \<in> set (calls ?c)" for x cl q
  proof -
    have "x \<in> active c" using x by (force simp: active_def)
    then have "oi_id x \<noteq> nextId (impl c)" using old [of x] by auto
    with inv_call_ok [OF inv] x S(5) show ?thesis by auto
  qed
  moreover have "distinct (tasks ?c @ map fst (calls ?c))"
    using inv_distinct [OF inv] S(2) op_new by (elim disjE) (simp_all add: active_def)
  moreover have "set [] \<union> active ?c = set [] \<union> active c \<union> set run"
    by (auto simp: active_def)
  ultimately show ?thesis
    using control_submit [OF inv_control [OF inv] sub op_def] inv
    unfolding inv_with_def by auto
qed

lemma inv_step:
  assumes inv: "sys_inv c" and step: "step place c c'"
  shows "sys_inv c'"
  using step
proof cases
  case Submit
  with inv_Submit [OF inv] show ?thesis by blast
next
  case Run
  with inv_Run [OF inv] show ?thesis by blast
next
  case Run_throws
  with inv_Run_throws [OF inv] show ?thesis by blast
next
  case Perform
  with inv_Perform [OF inv] show ?thesis by blast
next
  case Reply_success
  with inv_Reply_success [OF inv] show ?thesis by blast
next
  case Reply_failure
  with inv_Reply_failure [OF inv] show ?thesis by blast
qed

lemma inv_reachable: "reachable place m c \<Longrightarrow> sys_inv c"
  by (induction rule: reachable.induct) (auto intro: inv_init inv_step)

end

section \<open>History: effects on the memory and notifications\<close>

fun writes_in :: "taken_call list \<Rightarrow> nat set" where
  "writes_in [] = {}"
| "writes_in ((op, call, r) # xs) =
     (if is_write call \<and> r \<noteq> None then {oi_id op} else {}) \<union> writes_in xs"

lemma writes_in_append [simp]: "writes_in (xs @ ys) = writes_in xs \<union> writes_in ys"
  by (induction xs) auto

lemma writes_in_active: "writes_in (calls c) \<subseteq> oi_id ` active c"
proof -
  have "writes_in xs \<subseteq> oi_id ` fst ` set xs" for xs
    by (induction xs rule: writes_in.induct) auto
  then show ?thesis unfolding active_def by blast
qed

definition history_with :: "OperationInfo list \<Rightarrow> memory \<Rightarrow> Sys \<Rightarrow> bool" where
  "history_with X m c \<longleftrightarrow>
     mem c = fold (\<lambda>i. request_effect (the (requests c i))) (applied c) m
     \<and> distinct (applied c)
     \<and> set (applied c) \<subseteq> set (finished c) \<union> writes_in (calls c) \<union> oi_id ` set X
     \<and> writes_in (calls c) \<subseteq> set (applied c)
     \<and> distinct (map fst (notified c))
     \<and> (\<forall>i. i \<in> fst ` set (notified c) \<longleftrightarrow>
          i \<in> set (finished c) \<and> request_client (requests c i) \<noteq> None)
     \<and> (\<forall>(i, n) \<in> set (notified c). request_client (requests c i) = Some (notification_client n)
          \<and> (is_success n \<longrightarrow> i \<in> set (applied c)))"

lemma history_init: "history_with [] m (init_Sys m)"
  by (simp add: history_with_def init_Sys_def)

lemma history_detach_task:
  "history_with [] m c \<Longrightarrow> history_with [] m (c\<lparr>tasks := ts\<rparr>)"
  by (simp add: history_with_def)

lemma history_detach_call:
  assumes "history_with [] m c" and calls: "calls c = xs @ (op, call, r) # ys"
  shows "history_with [op] m (c\<lparr>calls := xs @ ys\<rparr>)"
    "\<not> (is_write call \<and> r \<noteq> None) \<Longrightarrow> history_with [] m (c\<lparr>calls := xs @ ys\<rparr>)"
    "is_write call \<Longrightarrow> r \<noteq> None \<Longrightarrow> oi_id op \<in> set (applied c)"
proof -
  have wr: "writes_in (calls c) = writes_in (xs @ ys)
      \<union> (if is_write call \<and> r \<noteq> None then {oi_id op} else {})"
    by (auto simp: calls)
  show "history_with [op] m (c\<lparr>calls := xs @ ys\<rparr>)"
    using assms(1) unfolding history_with_def wr by (auto split: if_splits)
  show "history_with [] m (c\<lparr>calls := xs @ ys\<rparr>)" if "\<not> (is_write call \<and> r \<noteq> None)"
    using assms(1) that unfolding history_with_def wr by (simp split: if_splits)
  show "oi_id op \<in> set (applied c)" if "is_write call" "r \<noteq> None"
    using assms(1) that unfolding history_with_def wr by simp
qed

lemma history_more: "history_with [] m c \<Longrightarrow> history_with X m c"
  unfolding history_with_def by auto

lemma history_object: "history_with X m (c\<lparr>impl := s\<rparr>) = history_with X m c"
  by (simp add: history_with_def)

lemma history_second_stage:
  "history_with [] m c \<Longrightarrow> history_with [] m (settle op ([], [d], [], s') c)"
  by (simp add: history_with_def settle_def)

lemma history_finish:
  assumes hist: "history_with [op] m c" and new: "oi_id op \<notin> set (finished c)"
    and ns: "notifies ob ns" "obj_client ob = request_client (requests c (oi_id op))"
      "\<forall>n\<in>set ns. is_success n \<longrightarrow> oi_id op \<in> set (applied c)"
  shows "history_with [] m (settle op (run, [], ns, s') c)"
proof -
  have "oi_id op \<notin> fst ` set (notified c)"
    using hist new unfolding history_with_def by blast
  note old = hist [unfolded history_with_def]
  consider "ns = []" "request_client (requests c (oi_id op)) = None"
    | n where "ns = [n]" "request_client (requests c (oi_id op)) = Some (notification_client n)"
    using ns(1) unfolding notifies_def ns(2)
    by (cases "request_client (requests c (oi_id op))") (auto simp: map_eq_Cons_conv)
  then show ?thesis
  proof cases
    case 1
    with old show ?thesis by (auto simp: history_with_def settle_def)
  next
    case 2
    with old ns(3) \<open>oi_id op \<notin> fst ` set (notified c)\<close> show ?thesis
      by (auto simp: history_with_def settle_def)
  qed
qed

lemma inv_op_not_finished: "inv_with [op] c \<Longrightarrow> oi_id op \<notin> set (finished c)"
  using inv_control by (fastforce simp: control_def)

lemma inv_bound:
  "inv_with X c \<Longrightarrow> op \<in> active c \<Longrightarrow> oi_id op < nextId (impl c)"
  "inv_with X c \<Longrightarrow> i \<in> set (finished c) \<Longrightarrow> i < nextId (impl c)"
  using control_bound [OF inv_control] by (blast intro: imageI)+

lemma history_Submit:
  assumes inv: "sys_inv c" and hist: "history_with [] m c"
  shows "history_with [] m (c\<lparr>impl := s', tasks := ts,
    requests := (requests c)(nextId (impl c) \<mapsto> x)\<rparr>)"
proof -
  have fin: "i \<noteq> nextId (impl c)" if "i \<in> set (finished c)" for i
    using inv_bound(2) [OF inv that] by simp
  moreover have app: "i \<noteq> nextId (impl c)" if "i \<in> set (applied c)" for i
  proof -
    have "i \<in> set (finished c) \<or> i \<in> oi_id ` active c"
      using that hist writes_in_active [of c] unfolding history_with_def by auto
    then show ?thesis
      using fin [of i] inv_bound(1) [OF inv] by (metis imageE less_irrefl)
  qed
  moreover have "i \<noteq> nextId (impl c)" if "(i, n) \<in> set (notified c)" for i n
    using that hist fin unfolding history_with_def by (metis fst_conv imageI)
  moreover have "fold (\<lambda>i. request_effect (the (((requests c)(nextId (impl c) \<mapsto> x)) i))) (applied c) m
      = fold (\<lambda>i. request_effect (the (requests c i))) (applied c) m"
    using app by (intro fold_cong) auto
  ultimately show ?thesis
    using hist unfolding history_with_def by (auto; blast)
qed

lemma history_object_failure:
  assumes inv: "inv_with [op] c" and hist: "history_with [op] m c"
    and ob: "obj_info ob = op" "obj_client ob = request_client (requests c (oi_id op))"
  shows "history_with [] m (settle op (object_failure ob a e d (impl c)) c)"
proof -
  obtain run s' where fin: "operationFinished op (impl c) = (run, s')" by fastforce
  then obtain ns where ns: "object_failure ob a e d (impl c) = (run, [], ns, s')" "notifies ob ns"
      "\<forall>n\<in>set ns. \<not> is_success n"
    using object_failure_shape ob(1) by blast
  have "history_with [] m (settle op (run, [], ns, s') c)"
    by (rule history_finish [OF hist inv_op_not_finished [OF inv] ns(2) ob(2)]) (use ns(3) in auto)
  then show ?thesis by (simp add: ns(1))
qed

lemma history_Run_throws:
  assumes inv: "sys_inv c" and hist: "history_with [] m c" and tasks: "tasks c = xs @ op # ys"
    and res: "runOperation_throws op what (impl c) = Some res"
  shows "history_with [] m (settle op res (c\<lparr>tasks := xs @ ys\<rparr>))"
proof -
  note det = inv_detach_task [OF inv tasks]
  obtain call where call: "runOperation op (impl c) = Some call"
      "call_ok (mem c) (requests c (oi_id op)) op (objects (impl c) (oi_id op)) call None"
    by (rule runOperation_ready [OF det(2)])
  from call(2) obtain ob where ob: "objects (impl c) (oi_id op) = Some ob" "obj_info ob = op"
      "call_callback call = oi_id op" "obj_client ob = request_client (requests c (oi_id op))"
    by (rule call_ok_object)
  with call(1) res have "res = object_failure ob (oi_address op) EC_unknown (run_throw_text op what) (impl c)"
    by (simp add: runOperation_throws_def)
  with history_object_failure [OF det(1) history_more [OF history_detach_task [OF hist]] ob(2)] ob(4)
  show ?thesis by simp
qed

lemma history_Reply_failure:
  assumes inv: "sys_inv c" and hist: "history_with [] m c" and calls: "calls c = xs @ (op, call, r) # ys"
    and ob: "objects (impl c) (call_callback call) = Some ob"
  shows "history_with [] m (settle op (object_failure ob a e d (impl c)) (c\<lparr>calls := xs @ ys\<rparr>))"
proof -
  note det = inv_detach_call [OF inv calls]
  from det(2) obtain ob' where "objects (impl c) (oi_id op) = Some ob'" "obj_info ob' = op"
      "call_callback call = oi_id op" "obj_client ob' = request_client (requests c (oi_id op))"
    by (rule call_ok_object)
  with ob have "obj_info ob = op" "obj_client ob = request_client (requests c (oi_id op))" by simp_all
  with history_object_failure [OF det(1) history_detach_call(1) [OF hist calls]]
  show ?thesis by simp
qed

lemma history_Reply_success:
  assumes inv: "sys_inv c" and hist: "history_with [] m c"
    and calls: "calls c = xs @ (op, call, Some r) # ys"
    and ob: "objects (impl c) (call_callback call) = Some ob"
    and res: "object_success w (call_callback call) ob (call_address call) r (impl c) = Some res"
  shows "history_with [] m (settle op res (c\<lparr>calls := xs @ ys\<rparr>))"
proof -
  let ?c = "c\<lparr>calls := xs @ ys\<rparr>"
  note det = inv_detach_call [OF inv calls]
  note hist_det = history_detach_call [OF hist calls]
  from det(2) ob have id: "call_callback call = oi_id op"
      and client: "obj_client ob = request_client (requests c (oi_id op))"
    by (auto elim: call_ok_object)
  note ob = ob [unfolded id] and res = res [unfolded id]
  from det(2) ob res show ?thesis
  proof (cases rule: object_success_shape)
    case (finished run s' ns ob')
    have "obj_client ob = request_client (requests ?c (oi_id op))"
      "\<forall>n\<in>set ns. is_success n \<longrightarrow> oi_id op \<in> set (applied ?c)"
      using client finished(6) hist_det(3) by auto
    from history_finish [OF hist_det(1) inv_op_not_finished [OF det(1)] finished(5) this]
    show ?thesis by (simp add: finished(4))
  next
    case (second_stage d ob')
    with history_second_stage [OF hist_det(2)] show ?thesis by simp
  qed
qed

lemma history_Run:
  "history_with [] m c \<Longrightarrow>
     history_with [] m (c\<lparr>tasks := ts, calls := calls c @ [(op, call, None)]\<rparr>)"
  by (simp add: history_with_def)

lemma history_Perform:
  assumes inv: "sys_inv c" and hist: "history_with [] m c"
    and calls: "calls c = xs @ (op, call, None) # ys"
  shows "history_with [] m (c\<lparr>calls := xs @ (op, call, Some r) # ys, mem := call_effect call (mem c),
    applied := (if is_write call then applied c @ [oi_id op] else applied c)\<rparr>)"
proof -
  have ok: "call_ok (mem c) (requests c (oi_id op)) op (objects (impl c) (oi_id op)) call None"
    using inv_call_ok [OF inv] calls by simp
  have op: "op \<in> active c" using calls by (auto simp: active_def)
  have "oi_id op \<notin> set (applied c)"
  proof
    assume "oi_id op \<in> set (applied c)"
    moreover have "oi_id op \<notin> set (finished c)"
      using inv_control [OF inv] op by (auto simp: control_def)
    ultimately have "oi_id op \<in> writes_in (calls c)"
      using hist by (auto simp: history_with_def)
    then have "oi_id op \<in> writes_in (calls (c\<lparr>calls := xs @ ys\<rparr>))" by (simp add: calls)
    then obtain x where x: "x \<in> active (c\<lparr>calls := xs @ ys\<rparr>)" "oi_id op = oi_id x"
      using writes_in_active [of "c\<lparr>calls := xs @ ys\<rparr>"] by blast
    then have "x \<in> active c" by (auto simp: active_def calls)
    with x(2) op have "x = op" using inv_id_eq [OF inv] by auto
    with x(1) inv_distinct [OF inv_detach_call(1) [OF inv calls]] show False
      by (auto simp: active_def)
  qed
  moreover have "call_effect call (mem c) = request_effect (the (requests c (oi_id op))) (mem c)"
    if "is_write call"
    using call_effect_request [OF ok] that by simp
  moreover have "call_effect call (mem c) = mem c" if "\<not> is_write call"
    using call_effect_request [OF ok] that by simp
  ultimately show ?thesis
    using hist by (auto simp: history_with_def calls)
qed

context bucket_order
begin

lemma history_step:
  assumes inv: "sys_inv c" "history_with [] m c" and step: "step place c c'"
  shows "history_with [] m c'"
  using step
proof cases
  case Submit
  with history_Submit [OF inv] show ?thesis by blast
next
  case Run
  with history_Run [OF inv(2)] show ?thesis by blast
next
  case Run_throws
  with history_Run_throws [OF inv] show ?thesis by blast
next
  case Perform
  with history_Perform [OF inv] show ?thesis by blast
next
  case Reply_success
  with history_Reply_success [OF inv] show ?thesis by blast
next
  case Reply_failure
  with history_Reply_failure [OF inv] show ?thesis by blast
qed

lemma history_reachable: "reachable place m c \<Longrightarrow> history_with [] m c"
proof (induction rule: reachable.induct)
  case (Step c c')
  then show ?case using history_step inv_reachable by blast
qed (rule history_init)

end

end
