(* ===== verification/ConsistentAccess_Props.thy ===== *)
theory ConsistentAccess_Props
  imports ConsistentAccess_System
begin

text \<open>
  Progress of the system of \<^verbatim>\<open>ConsistentAccess_System\<close>, an executable scheduler for it, and the
  properties of the consistent memory access.
\<close>

section \<open>Progress\<close>

fun call_weight :: "taken_call \<Rightarrow> nat" where
  "call_weight (op, call, r) = (if is_write call then if r = None then 2 else 1
     else if r = None then 4 else 3)"

definition waiting :: "Sys \<Rightarrow> nat" where
  "waiting c = nextId (impl c) - (length (tasks c) + length (calls c) + length (finished c))"

text \<open>An upper bound for the number of steps that are left when no new request comes in.\<close>

definition work :: "Sys \<Rightarrow> nat" where
  "work c = 6 * waiting c + 5 * length (tasks c) + sum_list (map call_weight (calls c))"

lemma known_ids_bound:
  assumes inv: "sys_inv c"
  shows "length (tasks c) + length (calls c) + length (finished c) \<le> nextId (impl c)"
proof -
  let ?ids = "map oi_id (tasks c @ map fst (calls c)) @ finished c"
  have "inj_on oi_id (active c)"
    by (rule inj_onI) (use inv_id_eq [OF inv] in auto)
  moreover have act: "set (tasks c @ map fst (calls c)) = active c"
    by (simp add: active_def)
  moreover have "distinct (tasks c @ map fst (calls c))"
    using inv_distinct [OF inv] by simp
  ultimately have "distinct (map oi_id (tasks c @ map fst (calls c)))"
    unfolding distinct_map by simp
  moreover have "distinct (finished c)" "set (finished c) \<inter> oi_id ` active c = {}"
    using inv inv_control [OF inv] by (simp_all add: inv_with_def control_def)
  ultimately have "distinct ?ids"
    unfolding distinct_append [of _ "finished c"] set_map act by blast
  moreover have "set ?ids \<subseteq> {..<nextId (impl c)}"
    unfolding set_append [of _ "finished c"] set_map act using inv_bound [OF inv] by auto
  ultimately have "length ?ids \<le> card {..<nextId (impl c)}"
    by (metis card_mono distinct_card finite_lessThan)
  then show ?thesis by simp
qed

lemma work_finish:
  assumes inv: "sys_inv c" and inv': "sys_inv c'" and same: "nextId (impl c') = nextId (impl c)"
    and fin: "length (finished c') = Suc (length (finished c))"
    and less: "length (tasks c') = length ts + length run"
    and other: "length (tasks c) = Suc (length ts) \<and> calls c' = calls c
      \<or> length (tasks c) = length ts \<and> calls c = xs @ x # ys \<and> calls c' = xs @ ys"
  shows "work c' < work c"
proof -
  have "0 < call_weight x" by (cases x) auto
  with known_ids_bound [OF inv] known_ids_bound [OF inv'] same fin less other
  show ?thesis unfolding work_def waiting_def by (elim disjE) (simp_all add: algebra_simps)
qed

lemma settle_sel [simp]:
  "tasks (settle op (run, ds, ns, s') c) = tasks c @ run"
  "calls (settle op (run, ds, ns, s') c) = calls c @ map (\<lambda>d. (op, d, None)) ds"
  "impl (settle op (run, ds, ns, s') c) = s'"
  "finished (settle op (run, [], ns, s') c) = oi_id op # finished c"
  "finished (settle op (run, [d], ns, s') c) = finished c"
  by (simp_all add: settle_def)

lemma settled_failure:
  assumes inv: "inv_with [op] c" and ob: "obj_info ob = op"
  obtains run ns s' where "object_failure ob a e d (impl c) = (run, [], ns, s')"
    "nextId s' = nextId (impl c)"
proof -
  obtain run s' where fin: "operationFinished op (impl c) = (run, s')" by fastforce
  then obtain ns where "object_failure ob a e d (impl c) = (run, [], ns, s')"
    using object_failure_shape ob by blast
  with operationFinished_consistent(4) [OF inv_consistent [OF inv] _ fin] that show ?thesis by simp
qed

text \<open>A step that is not a new request.\<close>

definition internal_step ::
    "(OperationInfo \<Rightarrow> OperationInfo list \<Rightarrow> OperationInfo list) \<Rightarrow> Sys \<Rightarrow> Sys \<Rightarrow> bool" where
  "internal_step place c c' \<longleftrightarrow> step place c c' \<and> nextId (impl c') = nextId (impl c)"

context bucket_order
begin

lemma work_decreases:
  assumes inv: "sys_inv c" and int: "internal_step place c c'"
  shows "work c' < work c"
proof -
  have step: "step place c c'" and same: "nextId (impl c') = nextId (impl c)"
    using int by (simp_all add: internal_step_def)
  note inv' = inv_step [OF inv step]
  from step show ?thesis
  proof cases
    case (Submit a r run s')
    with submit_consistent(4) [OF inv_consistent [OF inv] Submit(2) refl] same show ?thesis by simp
  next
    case (Run xs op ys call)
    then show ?thesis by (simp add: work_def waiting_def)
  next
    case (Run_throws xs op ys what res)
    note det = inv_detach_task [OF inv Run_throws(2)]
    obtain call where call: "runOperation op (impl c) = Some call"
        "call_ok (mem c) (requests c (oi_id op)) op (objects (impl c) (oi_id op)) call None"
      by (rule runOperation_ready [OF det(2)])
    from call(2) obtain ob where ob: "objects (impl c) (oi_id op) = Some ob" "obj_info ob = op"
        "call_callback call = oi_id op"
      by (rule call_ok_object)
    obtain run ns s' where "object_failure ob (oi_address op) EC_unknown (run_throw_text op what)
        (impl (c\<lparr>tasks := xs @ ys\<rparr>)) = (run, [], ns, s')"
      by (rule settled_failure [OF det(1) ob(2)])
    moreover have "res = object_failure ob (oi_address op) EC_unknown (run_throw_text op what) (impl c)"
      using call(1) ob Run_throws(3) by (simp add: runOperation_throws_def)
    ultimately have "res = (run, [], ns, s')" by simp
    with Run_throws show ?thesis
      by (intro work_finish [OF inv inv' same, of "xs @ ys" run "[]" undefined "[]"]) simp_all
  next
    case (Perform xs op call ys r)
    then show ?thesis by (simp add: work_def waiting_def)
  next
    case (Reply_success xs op call r ys ob w res)
    note det = inv_detach_call [OF inv Reply_success(2)]
    from det(2) have id: "call_callback call = oi_id op" by (rule call_ok_object)
    note ob = Reply_success(3) [unfolded id] and res = Reply_success(4) [unfolded id]
    from det(2) ob res show ?thesis
    proof (cases rule: object_success_shape)
      case (finished run s' ns ob')
      with Reply_success show ?thesis
        by (intro work_finish [OF inv inv' same, of "tasks c" run xs "(op, call, Some r)" ys]) simp_all
    next
      case (second_stage d ob')
      then show ?thesis using Reply_success(1,2) second_stage same by (simp add: work_def waiting_def)
    qed
  next
    case (Reply_failure xs op call r ys ob a e)
    note det = inv_detach_call [OF inv Reply_failure(2)]
    from det(2) obtain ob' where "objects (impl c) (oi_id op) = Some ob'" "obj_info ob' = op"
        "call_callback call = oi_id op"
      by (rule call_ok_object)
    with Reply_failure(3) have "obj_info ob = op" by simp
    then obtain run ns s' where
        "object_failure ob (call_address call) a e (impl (c\<lparr>calls := xs @ ys\<rparr>)) = (run, [], ns, s')"
      by (rule settled_failure [OF det(1)])
    with Reply_failure show ?thesis
      by (intro work_finish [OF inv inv' same, of "tasks c" run xs "(op, call, r)" ys]) simp_all
  qed
qed

end

lemma object_success_exists:
  assumes "call_ok m rq op (Some ob) call (Some r)"
  shows "\<exists>res. object_success w i ob a r s = Some res"
proof -
  have "object_success w i ob a r s \<noteq> None"
    using assms by (elim call_okE) (auto simp del: not_None_eq)
  then show ?thesis by blast
qed

lemma call_answer_exists: "\<exists>r. call_answer call m r"
  by (cases call) (auto intro: exI [of _ "V16 _"] exI [of _ "V32 _"])

text \<open>Nothing is running only if nothing is waiting: no wake-up is lost.\<close>

lemma idle_finished:
  assumes inv: "sys_inv c" and idle: "tasks c = []" "calls c = []"
  shows "set (finished c) = {..<nextId (impl c)}"
proof -
  have act: "active c = {}" using idle by (simp add: active_def)
  then have "\<not> is_pending op (impl c)" for op
    using pending_blocked [OF inv_consistent [OF inv], of op "oi_address op"]
      consistent_running [OF inv_consistent [OF inv]]
    by (auto simp: is_pending_def canRunOperation_iff)
  with inv_control [OF inv] act show ?thesis by (auto simp: control_def)
qed

context bucket_order
begin

lemma progress:
  assumes inv: "sys_inv c" and busy: "tasks c \<noteq> [] \<or> calls c \<noteq> []"
  shows "\<exists>c'. internal_step place c c'"
proof (cases "tasks c")
  case (Cons op ys)
  then have tasks: "tasks c = [] @ op # ys" by simp
  obtain call where "runOperation op (impl c) = Some call"
    by (rule runOperation_ready [OF inv_detach_task(2) [OF inv tasks]])
  from step.Run [OF tasks this] show ?thesis
    by (intro exI) (auto simp: internal_step_def)
next
  case Nil
  with busy obtain op call r cs where cs: "calls c = [] @ (op, call, r) # cs"
    by (cases "calls c") auto
  note det = inv_detach_call [OF inv cs]
  show ?thesis
  proof (cases r)
    case None
    obtain x where x: "call_answer call (mem c) x" using call_answer_exists by blast
    from step.Perform [OF cs [unfolded None] x] show ?thesis
      by (intro exI) (auto simp: internal_step_def)
  next
    case (Some x)
    from det(2) obtain ob where ob: "objects (impl c) (oi_id op) = Some ob" "obj_info ob = op"
        "call_callback call = oi_id op"
      by (rule call_ok_object)
    then obtain res where res: "object_success None (call_callback call) ob (call_address call) x (impl c) = Some res"
      using object_success_exists det(2) Some by metis
    have "objects (impl c) (call_callback call) = Some ob" using ob by simp
    note st = step.Reply_success [OF cs [unfolded Some] this res]
    note ok = det(2) [unfolded Some]
    from ok ob(1) res [unfolded ob(3)] have "nextId (impl (settle op res (c\<lparr>calls := [] @ cs\<rparr>))) = nextId (impl c)"
    proof (cases rule: object_success_shape)
      case (finished run s' ns ob')
      have "objects (impl (c\<lparr>calls := [] @ cs\<rparr>)) (oi_id op) = Some ob" using ob by simp
      note con = inv_consistent [OF inv_set_object [OF det(1) this finished(1,2)]]
      from operationFinished_consistent(4) [OF con, of op run s'] finished(3,4) show ?thesis by simp
    qed simp
    with st show ?thesis by (intro exI) (auto simp: internal_step_def)
  qed
qed

lemma internal_inv: "(internal_step place)\<^sup>*\<^sup>* c c' \<Longrightarrow> sys_inv c \<Longrightarrow>
    sys_inv c' \<and> nextId (impl c') = nextId (impl c)"
  by (induction rule: rtranclp_induct) (auto simp: internal_step_def dest: inv_step)

lemma internal_finishes:
  "sys_inv c \<Longrightarrow> \<exists>c'. (internal_step place)\<^sup>*\<^sup>* c c' \<and> set (finished c') = {..<nextId (impl c)}"
proof (induction "work c" arbitrary: c rule: less_induct)
  case less
  show ?case
  proof (cases "tasks c = [] \<and> calls c = []")
    case True
    with idle_finished [OF less.prems] show ?thesis by blast
  next
    case False
    then obtain c1 where c1: "internal_step place c c1" using progress [OF less.prems] by blast
    then have "sys_inv c1" "nextId (impl c1) = nextId (impl c)"
      using inv_step [OF less.prems] by (auto simp: internal_step_def)
    with less.hyps [OF work_decreases [OF less.prems c1]] c1 show ?thesis
      by (metis converse_rtranclp_into_rtranclp)
  qed
qed

lemma internal_bounded:
  "sys_inv c \<Longrightarrow> (internal_step place ^^ n) c c' \<Longrightarrow> n + work c' \<le> work c"
proof (induction n arbitrary: c')
  case (Suc n)
  then obtain d where d: "(internal_step place ^^ n) c d" "internal_step place d c'" by auto
  have "sys_inv d" using internal_inv [OF relpowp_imp_rtranclp [OF d(1)] Suc.prems(1)] by simp
  with work_decreases d Suc.IH [OF Suc.prems(1) d(1)] show ?case by fastforce
qed simp

end

section \<open>An executable scheduler\<close>

text \<open>
  The step that an event asks for, if it is possible; tasks and calls are chosen by their position.
\<close>

datatype event = Ev_submit u32 Request | Ev_run nat | Ev_throw nat "string option"
  | Ev_perform nat reg_value | Ev_success nat "string option option" | Ev_failure nat ErrorCode string

definition without :: "nat \<Rightarrow> 'a list \<Rightarrow> 'a list" where
  "without i xs = take i xs @ drop (Suc i) xs"

fun exec ::
    "(OperationInfo \<Rightarrow> OperationInfo list \<Rightarrow> OperationInfo list) \<Rightarrow> event \<Rightarrow> Sys \<Rightarrow> Sys option" where
  "exec place (Ev_submit a r) c = (case submit place a r (impl c) of (run, s') \<Rightarrow>
     Some (c\<lparr>impl := s', tasks := tasks c @ run,
       requests := (requests c)(nextId (impl c) \<mapsto> (a, r))\<rparr>))"
| "exec place (Ev_run i) c = (if i < length (tasks c) then
     case runOperation (tasks c ! i) (impl c) of None \<Rightarrow> None
     | Some call \<Rightarrow> Some (c\<lparr>tasks := without i (tasks c), calls := calls c @ [(tasks c ! i, call, None)]\<rparr>)
     else None)"
| "exec place (Ev_throw i what) c = (if i < length (tasks c) then
     case runOperation_throws (tasks c ! i) what (impl c) of None \<Rightarrow> None
     | Some res \<Rightarrow> Some (settle (tasks c ! i) res (c\<lparr>tasks := without i (tasks c)\<rparr>))
     else None)"
| "exec place (Ev_perform i r) c = (if i < length (calls c) then
     case calls c ! i of (op, call, q) \<Rightarrow>
       if q = None \<and> call_answer call (mem c) r then
         Some (c\<lparr>calls := take i (calls c) @ (op, call, Some r) # drop (Suc i) (calls c),
           mem := call_effect call (mem c),
           applied := (if is_write call then applied c @ [oi_id op] else applied c)\<rparr>)
       else None
     else None)"
| "exec place (Ev_success i w) c = (if i < length (calls c) then
     case calls c ! i of (op, call, q) \<Rightarrow>
       (case (q, objects (impl c) (call_callback call)) of
          (Some r, Some ob) \<Rightarrow>
            map_option (\<lambda>res. settle op res (c\<lparr>calls := without i (calls c)\<rparr>))
              (object_success w (call_callback call) ob (call_address call) r (impl c))
        | _ \<Rightarrow> None)
     else None)"
| "exec place (Ev_failure i e details) c = (if i < length (calls c) then
     case calls c ! i of (op, call, q) \<Rightarrow>
       map_option (\<lambda>ob. settle op (object_failure ob (call_address call) e details (impl c))
         (c\<lparr>calls := without i (calls c)\<rparr>)) (objects (impl c) (call_callback call))
     else None)"

fun run_events ::
    "(OperationInfo \<Rightarrow> OperationInfo list \<Rightarrow> OperationInfo list) \<Rightarrow> event list \<Rightarrow> Sys \<Rightarrow> Sys option" where
  "run_events place [] c = Some c"
| "run_events place (e # es) c = Option.bind (exec place e c) (run_events place es)"

lemma exec_step: "exec place e c = Some c' \<Longrightarrow> step place c c'"
proof (cases e)
  case (Ev_submit a r)
  then show "exec place e c = Some c' \<Longrightarrow> ?thesis"
    by (auto split: prod.splits intro: step.Submit)
next
  case (Ev_run i)
  then show "exec place e c = Some c' \<Longrightarrow> ?thesis"
    using step.Run [of c "take i (tasks c)" "tasks c ! i" "drop (Suc i) (tasks c)"]
    by (auto split: if_splits option.splits simp: without_def id_take_nth_drop [symmetric])
next
  case (Ev_throw i what)
  then show "exec place e c = Some c' \<Longrightarrow> ?thesis"
    using step.Run_throws [of c "take i (tasks c)" "tasks c ! i" "drop (Suc i) (tasks c)"]
    by (auto split: if_splits option.splits simp: without_def id_take_nth_drop [symmetric])
next
  case (Ev_perform i r)
  assume ex: "exec place e c = Some c'"
  then obtain op call where i: "i < length (calls c)" and "calls c ! i = (op, call, None)"
      and "call_answer call (mem c) r"
    using Ev_perform by (auto split: if_splits prod.splits)
  then show ?thesis
    using ex Ev_perform step.Perform [of c "take i (calls c)" op call "drop (Suc i) (calls c)" r place]
      id_take_nth_drop [OF i] by simp
next
  case (Ev_success i w)
  assume ex: "exec place e c = Some c'"
  then obtain op call r ob res where i: "i < length (calls c)" and c: "calls c ! i = (op, call, Some r)"
      "objects (impl c) (call_callback call) = Some ob"
      "object_success w (call_callback call) ob (call_address call) r (impl c) = Some res"
      "c' = settle op res (c\<lparr>calls := without i (calls c)\<rparr>)"
    using Ev_success by (auto split: if_splits prod.splits option.splits)
  have "calls c = take i (calls c) @ (op, call, Some r) # drop (Suc i) (calls c)"
    using id_take_nth_drop [OF i] c(1) by simp
  from step.Reply_success [OF this c(2,3)] show ?thesis by (simp add: c(4) without_def)
next
  case (Ev_failure i er details)
  assume ex: "exec place e c = Some c'"
  then obtain op call q ob where i: "i < length (calls c)" and c: "calls c ! i = (op, call, q)"
      "objects (impl c) (call_callback call) = Some ob"
      "c' = settle op (object_failure ob (call_address call) er details (impl c)) (c\<lparr>calls := without i (calls c)\<rparr>)"
    using Ev_failure by (auto split: if_splits prod.splits)
  have "calls c = take i (calls c) @ (op, call, q) # drop (Suc i) (calls c)"
    using id_take_nth_drop [OF i] c(1) by simp
  from step.Reply_failure [OF this c(2)] show ?thesis by (simp add: c(3) without_def)
qed

lemma run_events_reachable:
  "run_events place es c = Some c' \<Longrightarrow> reachable place m c \<Longrightarrow> reachable place m c'"
  by (induction es arbitrary: c) (auto split: Option.bind_splits dest: exec_step intro: reachable.Step)

text \<open>
  A run in which a masked 16 bit write and a plain 32 bit write overlap in one byte, with the
  memory \<open>12 34 00 \<dots>\<close>: the second request waits until the first is finished.
\<close>

definition demo_memory :: memory where
  "demo_memory a = (if a = 0 then 0x12 else if a = 1 then 0x34 else 0)"

definition demo_events :: "event list" where
  "demo_events = [Ev_submit 0 (UpdateRequest16 (UpdatingCallbackImpl 0x0050 0x00F0 (Some 7))),
     Ev_submit 1 (WriteRequest32 0xAABBCCDD (Some 8)), Ev_run 0, Ev_perform 0 (V16 0x1234),
     Ev_success 0 None, Ev_perform 0 (V16 0x1254), Ev_success 0 None, Ev_run 0,
     Ev_perform 0 (V32 0xAABBCCDD), Ev_success 0 None]"

definition demo :: "nat \<Rightarrow> Sys" where
  "demo n = the (run_events place_back (take n demo_events) (init_Sys demo_memory))"

lemma demo_reachable:
  assumes "run_events place_back (take n demo_events) (init_Sys demo_memory) \<noteq> None"
  shows "reachable place_back demo_memory (demo n)"
  using assms run_events_reachable [OF _ reachable.Init] by (auto simp: demo_def)

lemma demo3: "reachable place_back demo_memory (demo 3)"
  by (rule demo_reachable) code_simp

lemma demo5: "reachable place_back demo_memory (demo 5)"
  by (rule demo_reachable) code_simp

lemma demo10: "reachable place_back demo_memory (demo 10)"
  by (rule demo_reachable) code_simp

section \<open>Properties\<close>

abbreviation multimap_insert ::
    "(OperationInfo \<Rightarrow> OperationInfo list \<Rightarrow> OperationInfo list) \<Rightarrow> bool" where
  "multimap_insert place \<equiv> (\<forall>x xs. mset (place x xs) = add_mset x (mset xs))"

lemma multimap_insert_order: "multimap_insert place \<Longrightarrow> bucket_order place"
  by (rule bucket_order.intro) blast

lemma multimap_insert_back: "multimap_insert place_back"
  by (simp add: oldest_first.mset_place)

text \<open>
  C1. Atomic updates: in every interleaving of clients, threads and delegate, the memory is what
  one gets by letting the requests take effect one after the other, each in one indivisible step
  (an update reads, applies the client's function and writes with nothing in between). No request
  takes effect twice, and a client is told of success only if its request has taken effect.
\<close>

theorem updates_are_atomic:
  assumes "multimap_insert place" and "reachable place m c"
  shows "mem c = fold (\<lambda>i. request_effect (the (requests c i))) (applied c) m
    \<and> distinct (applied c)
    \<and> (\<forall>(i, n) \<in> set (notified c). is_success n \<longrightarrow> i \<in> set (applied c))"
proof -
  have "history_with [] m c"
    using bucket_order.history_reachable [OF multimap_insert_order] assms by blast
  then show ?thesis by (auto simp: history_with_def)
qed

theorem updates_are_atomic_witness:
  "applied (demo 10) = [0, 1] \<and> get32 0 (mem (demo 10)) = 0x12AABBCC
   \<and> mem (demo 10) = fold (\<lambda>i. request_effect (the (requests (demo 10) i))) (applied (demo 10)) demo_memory
   \<and> distinct (applied (demo 10))"
proof -
  have "applied (demo 10) = [0, 1] \<and> get32 0 (mem (demo 10)) = 0x12AABBCC" by code_simp
  with updates_are_atomic [OF multimap_insert_back demo10] show ?thesis by blast
qed

text \<open>
  C2. Mutual exclusion and no lost wake-up: two operations that are running at the same time touch
  no common byte, the set \<^verbatim>\<open>operationRunning\<close> holds exactly the bytes of the running operations, and
  every operation that waits is in the multimap under each of its bytes and overlaps an operation
  that is running.
\<close>

theorem running_operations_disjoint:
  assumes "multimap_insert place" and "reachable place m c"
  shows "(\<forall>op\<in>active c. \<forall>op'\<in>active c. op \<noteq> op' \<longrightarrow> bytes op \<inter> bytes op' = {})
    \<and> operationRunning (impl c) = (\<Union>op\<in>active c. bytes op)
    \<and> (\<forall>a. \<forall>op\<in>set (pendingOperations (impl c) a).
         op \<notin> active c \<and> (\<forall>b\<in>bytes op. op \<in> set (pendingOperations (impl c) b))
         \<and> (\<exists>op'\<in>active c. bytes op \<inter> bytes op' \<noteq> {}))"
proof -
  have inv: "sys_inv c"
    using bucket_order.inv_reachable [OF multimap_insert_order] assms by blast
  note con = inv_consistent [OF inv, simplified]
  have "\<exists>op'\<in>active c. bytes op \<inter> bytes op' \<noteq> {}" if "op \<in> set (pendingOperations (impl c) a)" for op a
    using pending_blocked [OF con that] consistent_running [OF con] by (auto simp: canRunOperation_iff)
  then show ?thesis
    by (intro conjI ballI allI impI consistent_disjoint [OF con] consistent_running [OF con])
       (auto dest: pending_not_active [OF con] intro: pending_everywhere [OF con])
qed

theorem running_operations_disjoint_witness:
  "length (pendingOperations (impl (demo 3)) 4) = 1
   \<and> operationRunning (impl (demo 3)) = (\<Union>op\<in>active (demo 3). bytes op)"
proof
  show "length (pendingOperations (impl (demo 3)) 4) = 1" by code_simp
  show "operationRunning (impl (demo 3)) = (\<Union>op\<in>active (demo 3). bytes op)"
    using running_operations_disjoint [OF multimap_insert_back demo3] by blast
qed

text \<open>
  C3. Every operation is answered at most once, and exactly those that are finished and have a
  callback: the identifiers that were notified are distinct, and each notification went to the
  callback that was given with the request.
\<close>

theorem clients_notified_once:
  assumes "multimap_insert place" and "reachable place m c"
  shows "distinct (map fst (notified c))
    \<and> fst ` set (notified c) = {i \<in> set (finished c). request_client (requests c i) \<noteq> None}
    \<and> (\<forall>(i, n) \<in> set (notified c). request_client (requests c i) = Some (notification_client n))"
proof -
  have "history_with [] m c"
    using bucket_order.history_reachable [OF multimap_insert_order] assms by blast
  then show ?thesis by (auto simp: history_with_def)
qed

theorem clients_notified_once_witness:
  "map (map_prod id notification_client) (notified (demo 10)) = [(1, 8), (0, 7)]
   \<and> distinct (map fst (notified (demo 10)))"
proof
  show "map (map_prod id notification_client) (notified (demo 10)) = [(1, 8), (0, 7)]" by code_simp
  show "distinct (map fst (notified (demo 10)))"
    using clients_notified_once [OF multimap_insert_back demo10] by blast
qed

text \<open>
  C4. Every operation comes to an end: when no new requests arrive and the delegate answers each
  call, at most \<open>work c\<close> further steps are possible, and any state in which none is left has
  finished every operation that was ever submitted. Such a state can be reached.
\<close>

theorem operations_finish:
  assumes "multimap_insert place" and "reachable place m c"
  shows "(\<forall>n c'. (internal_step place ^^ n) c c' \<longrightarrow> n \<le> work c)
    \<and> (\<forall>c'. (internal_step place)\<^sup>*\<^sup>* c c' \<and> (\<nexists>c''. internal_step place c' c'')
         \<longrightarrow> set (finished c') = {..<nextId (impl c)})
    \<and> (\<exists>c'. (internal_step place)\<^sup>*\<^sup>* c c' \<and> set (finished c') = {..<nextId (impl c)})"
proof -
  note order = multimap_insert_order [OF assms(1)]
  have inv: "sys_inv c"
    using bucket_order.inv_reachable [OF order] assms by blast
  have "n \<le> work c" if "(internal_step place ^^ n) c c'" for n c'
    using bucket_order.internal_bounded [OF order inv that] by simp
  moreover have "set (finished c') = {..<nextId (impl c)}"
    if "(internal_step place)\<^sup>*\<^sup>* c c'" "\<nexists>c''. internal_step place c' c''" for c'
    using bucket_order.internal_inv [OF order that(1) inv] bucket_order.progress [OF order] that(2)
      idle_finished by metis
  ultimately show ?thesis
    using bucket_order.internal_finishes [OF order inv] by blast
qed

theorem operations_finish_witness:
  "work (demo 5) = 8 \<and> finished (demo 5) = []
   \<and> (\<exists>c'. (internal_step place_back)\<^sup>*\<^sup>* (demo 5) c' \<and> set (finished c') = {0, 1})"
proof -
  have eval: "work (demo 5) = 8 \<and> finished (demo 5) = [] \<and> nextId (impl (demo 5)) = 2"
    by code_simp
  moreover have "{..<2::nat} = {0, 1}" by auto
  ultimately show ?thesis
    using operations_finish [OF multimap_insert_back demo5] by auto
qed



lemma put_bytes_outside:
  assumes "\<forall>i<length bs. b \<noteq> a + of_nat i"
  shows "put_bytes a bs m b = m b"
  using assms by (intro put_bytes_other) auto

text \<open>
  A masked write is an update whose effect on the memory is the promised one: the bits of the
  mask are taken from the value, the other bits of the register and all other bytes keep what they
  hold at the moment the write takes effect.
\<close>

lemma masked_writes_replace_masked_bits:
  "masked_writeUInt16 place a v msk cb s = submit place a (UpdateRequest16 (UpdatingCallbackImpl v msk cb)) s
   \<and> masked_writeUInt32 place a w msk' cb s = submit place a (UpdateRequest32 (UpdatingCallbackImpl w msk' cb)) s
   \<and> bit (get16 a (request_effect (a, UpdateRequest16 (UpdatingCallbackImpl v msk cb)) m)) n
       = (if bit msk n then bit v n else bit (get16 a m) n)
   \<and> bit (get32 a (request_effect (a, UpdateRequest32 (UpdatingCallbackImpl w msk' cb)) m)) n
       = (if bit msk' n then bit w n else bit (get32 a m) n)
   \<and> {b. request_effect (a, UpdateRequest16 (UpdatingCallbackImpl v msk cb)) m b \<noteq> m b} \<subseteq> {a, a + 1}
   \<and> {b. request_effect (a, UpdateRequest32 (UpdatingCallbackImpl w msk' cb)) m b \<noteq> m b}
       \<subseteq> {a, a + 1, a + 2, a + 3}"
proof -
  have "put16 a x m b = m b" if "b \<notin> {a, a + 1}" for x b
    using that unfolding put16_def
    by (intro put_bytes_outside) (auto simp: less_Suc_eq numeral_2_eq_2)
  moreover have "put32 a x m b = m b" if "b \<notin> {a, a + 1, a + 2, a + 3}" for x b
    using that unfolding put32_def
    by (intro put_bytes_outside) (auto simp: less_Suc_eq eval_nat_numeral)
  ultimately show ?thesis
    by (auto simp: masked_writeUInt16_def masked_writeUInt32_def UpdatingCallbackImpl_def
        get16_put16 get32_put32 masked_update_bit)
qed

section \<open>A delegate that notifies a failure twice\<close>

text \<open>
  The step relation lets the delegate answer each call once. The UDP client can notify a failure
  twice for one request (it keeps a write request whose repetition could not be sent). The second
  notification removes the bytes of an operation that has started in the meantime from
  \<^verbatim>\<open>operationRunning\<close>: below, two writes to the same register run one after the other, and after a
  second failure of the first one the register counts as free while the second one is running.
\<close>

definition twice_events :: "event list" where
  "twice_events = [Ev_submit 0 (WriteRequest16 1 (Some 7)), Ev_submit 0 (WriteRequest16 2 (Some 8)),
     Ev_run 0, Ev_failure 0 EC_networkTimeout [], Ev_run 0]"

definition after_second_failure :: "Impl option" where
  "after_second_failure = (case run_events place_back twice_events (init_Sys demo_memory) of
     None \<Rightarrow> None
   | Some c \<Rightarrow> (case objects (impl c) 0 of None \<Rightarrow> None
      | Some ob \<Rightarrow> (case object_failure ob 0 EC_networkTimeout [] (impl c) of
          (run, ds, ns, s') \<Rightarrow> Some s')))"

lemma second_failure_breaks_exclusion:
  "map_option (\<lambda>c. (map (oi_id \<circ> fst) (calls c), canRunOperation (fst (calls c ! 0)) (impl c)))
     (run_events place_back twice_events (init_Sys demo_memory)) = Some ([1], False)
   \<and> map_option (canRunOperation \<lparr>oi_id = 2, oi_type = OpWriteUInt16, oi_address = 0\<rparr>)
       after_second_failure = Some True"
  by code_simp

end
