(* ===== verification/UdpPacket.thy ===== *)
theory UdpPacket
  imports MrfPrelude
begin

text \<open>
  The packets of the MRF UDP protocol (\<^verbatim>\<open>mrfApp/mrfUdpIpSrc/MrfUdpPacket.{h,cpp}\<close>). A packet is
  kept in the layout it has on the wire: the fields of the packed struct hold values that the
  constructor and \<^verbatim>\<open>setRef\<close> have converted to network byte order and that the getters convert
  back. The host's byte order is an argument.
\<close>

section \<open>The packed struct and its bytes\<close>

record OnWirePacket =
  pk_accessType :: u8
  pk_status :: "8 word"
  pk_data :: u16
  pk_address :: u32
  pk_ref :: u32

definition sizeof_OnWirePacket :: nat where
  "sizeof_OnWirePacket = 12"

definition wire_bytes :: "byte_order \<Rightarrow> OnWirePacket \<Rightarrow> u8 list" where
  "wire_bytes bo p = [pk_accessType p, pk_status p] @ mem_bytes16 bo (pk_data p)
     @ mem_bytes32 bo (pk_address p) @ mem_bytes32 bo (pk_ref p)"

definition overlay :: "byte_order \<Rightarrow> u8 list \<Rightarrow> OnWirePacket" where
  "overlay bo bs = \<lparr>pk_accessType = bs ! 0, pk_status = bs ! 1,
     pk_data = of_mem_bytes16 bo (take 2 (drop 2 bs)),
     pk_address = of_mem_bytes32 bo (take 4 (drop 4 bs)),
     pk_ref = of_mem_bytes32 bo (take 4 (drop 8 bs))\<rparr>"

section \<open>Constructor and accessors\<close>

text \<open>
  The constructor stores \<^verbatim>\<open>htonl(data)\<close> in the 16-bit field \<open>data\<close>: the 16-bit argument is widened,
  byte-swapped as a 32-bit value and truncated again.
\<close>

definition MrfUdpPacket :: "byte_order \<Rightarrow> u8 \<Rightarrow> u32 \<Rightarrow> u16 \<Rightarrow> u32 \<Rightarrow> 8 word \<Rightarrow> OnWirePacket" where
  "MrfUdpPacket bo accessType address data ref status =
     \<lparr>pk_accessType = accessType, pk_status = status, pk_data = ucast (htonl bo (ucast data)),
      pk_address = htonl bo address, pk_ref = htonl bo ref\<rparr>"

definition getAccessType :: "OnWirePacket \<Rightarrow> u8" where
  "getAccessType p = pk_accessType p"

definition getAddress :: "byte_order \<Rightarrow> OnWirePacket \<Rightarrow> u32" where
  "getAddress bo p = ntohl bo (pk_address p)"

definition getData :: "byte_order \<Rightarrow> OnWirePacket \<Rightarrow> u16" where
  "getData bo p = ntohs bo (pk_data p)"

definition getRef :: "byte_order \<Rightarrow> OnWirePacket \<Rightarrow> u32" where
  "getRef bo p = ntohl bo (pk_ref p)"

definition getStatus :: "OnWirePacket \<Rightarrow> 8 word" where
  "getStatus p = pk_status p"

definition setRef :: "byte_order \<Rightarrow> u32 \<Rightarrow> OnWirePacket \<Rightarrow> OnWirePacket" where
  "setRef bo ref p = p\<lparr>pk_ref := htonl bo ref\<rparr>"

section \<open>Receiving and sending\<close>

text \<open>
  \<^verbatim>\<open>read(2)\<close> gives an error number or the datagram, cut to the size of the buffer, which has
  four bytes more than a packet so that a datagram that is too long is noticed.
\<close>

datatype read_result = ReadError int | Datagram "u8 list"

datatype receive_error = SystemError int | RangeError

definition receive :: "byte_order \<Rightarrow> read_result \<Rightarrow> receive_error + OnWirePacket" where
  "receive bo r = (case r of
     ReadError e \<Rightarrow> Inl (SystemError e)
   | Datagram d \<Rightarrow>
       (let buffer = take (sizeof_OnWirePacket + 4) d in
        if length buffer \<noteq> sizeof_OnWirePacket then Inl RangeError
        else Inr (overlay bo buffer)))"

text \<open>The bytes \<^verbatim>\<open>send\<close> hands to the socket, or the error number of \<^verbatim>\<open>send(2)\<close> as an exception.\<close>

definition send :: "byte_order \<Rightarrow> int option \<Rightarrow> OnWirePacket \<Rightarrow> receive_error + u8 list" where
  "send bo errno p = (case errno of Some e \<Rightarrow> Inl (SystemError e) | None \<Rightarrow> Inr (wire_bytes bo p))"

section \<open>Lemmas\<close>

lemma accessors [simp]:
  "getAccessType (MrfUdpPacket bo t a d r s) = t"
  "getAddress bo (MrfUdpPacket bo t a d r s) = a"
  "getRef bo (MrfUdpPacket bo t a d r s) = r"
  "getStatus (MrfUdpPacket bo t a d r s) = s"
  by (simp_all add: MrfUdpPacket_def getAccessType_def getAddress_def getRef_def getStatus_def)

lemma setRef_accessors [simp]:
  "getRef bo (setRef bo r p) = r"
  "getAddress bo (setRef bo r p) = getAddress bo p"
  "getData bo (setRef bo r p) = getData bo p"
  "getAccessType (setRef bo r p) = getAccessType p"
  "getStatus (setRef bo r p) = getStatus p"
  by (simp_all add: setRef_def getRef_def getAddress_def getData_def getAccessType_def
      getStatus_def)

lemma data_field_big: "pk_data (MrfUdpPacket BigEndian t a d r s) = d"
  by (rule bit_word_eqI) (auto simp: MrfUdpPacket_def htonl_def bit_simps)

lemma data_field_little: "pk_data (MrfUdpPacket LittleEndian t a d r s) = 0"
  by (rule bit_word_eqI) (auto simp: MrfUdpPacket_def htonl_def bit_simps swap32_bit
      dest: bit_imp_le_length)

lemma overlay_wire_bytes: "overlay bo (wire_bytes bo p) = p"
  by (simp add: overlay_def wire_bytes_def)

lemma length_wire_bytes [simp]: "length (wire_bytes bo p) = sizeof_OnWirePacket"
  by (simp add: wire_bytes_def sizeof_OnWirePacket_def)

lemma receive_wire_bytes [simp]: "receive bo (Datagram (wire_bytes bo p)) = Inr p"
  by (simp add: receive_def overlay_wire_bytes)

lemma receive_ok_iff:
  "(\<exists>p. receive bo (Datagram d) = Inr p) \<longleftrightarrow> length d = sizeof_OnWirePacket"
  by (auto simp: receive_def Let_def sizeof_OnWirePacket_def min_def)

text \<open>
  What a device sees of a packet built on any host: the address and the reference number most
  significant byte first, independently of the host.
\<close>

lemma wire_bytes_MrfUdpPacket:
  "wire_bytes bo (MrfUdpPacket bo t a d r s) =
     [t, s] @ mem_bytes16 bo (pk_data (MrfUdpPacket bo t a d r s)) @ be_bytes32 a @ be_bytes32 r"
  by (simp add: wire_bytes_def MrfUdpPacket_def byte_order_simps)

section \<open>Properties\<close>

text \<open>
  C6. What a packet says on the wire: the datagram that \<^verbatim>\<open>send\<close> hands to the socket has twelve bytes,
  with access type, status, and address and reference number most significant byte first on
  every host, and \<^verbatim>\<open>receive\<close> turns it back into a packet whose getters give the constructor's
  arguments. The data word is the exception: it survives on a big endian host, and a little endian
  host always sends zero.
\<close>

theorem packet_send_receive:
  "\<exists>bs p. send bo None (MrfUdpPacket bo t a d r s) = Inr bs \<and> length bs = 12
    \<and> take 2 bs = [t, s] \<and> drop 4 bs = be_bytes32 a @ be_bytes32 r
    \<and> receive bo (Datagram bs) = Inr p
    \<and> getAccessType p = t \<and> getStatus p = s \<and> getAddress bo p = a \<and> getRef bo p = r
    \<and> getData bo p = (case bo of BigEndian \<Rightarrow> d | LittleEndian \<Rightarrow> 0)
    \<and> take 2 (drop 2 bs) = be_bytes16 (case bo of BigEndian \<Rightarrow> d | LittleEndian \<Rightarrow> 0)"
proof -
  let ?p = "MrfUdpPacket bo t a d r s"
  have data: "pk_data ?p = (case bo of BigEndian \<Rightarrow> d | LittleEndian \<Rightarrow> 0)"
    by (cases bo) (simp_all add: data_field_big data_field_little)
  have zero: "swap16 0 = 0" "rev (be_bytes16 0) = be_bytes16 0"
    by (simp_all add: swap16_def be_bytes16_def)
  have data': "getData bo ?p = (case bo of BigEndian \<Rightarrow> d | LittleEndian \<Rightarrow> 0)"
    unfolding getData_def data by (cases bo) (simp_all add: zero htons_def)
  have data'': "mem_bytes16 bo (pk_data ?p) = be_bytes16 (case bo of BigEndian \<Rightarrow> d | LittleEndian \<Rightarrow> 0)"
    unfolding data by (cases bo) (simp_all add: zero mem_bytes16_def)
  have "send bo None ?p = Inr (wire_bytes bo ?p)" by (simp add: send_def)
  moreover have "length (wire_bytes bo ?p) = 12" by (simp add: sizeof_OnWirePacket_def)
  moreover have "take 2 (wire_bytes bo ?p) = [t, s]" "drop 4 (wire_bytes bo ?p) = be_bytes32 a @ be_bytes32 r"
    "take 2 (drop 2 (wire_bytes bo ?p)) = mem_bytes16 bo (pk_data ?p)"
    by (simp_all add: wire_bytes_MrfUdpPacket)
  moreover have "receive bo (Datagram (wire_bytes bo ?p)) = Inr ?p" by simp
  ultimately show ?thesis
    unfolding data'' by (intro exI [of _ "wire_bytes bo ?p"] exI [of _ ?p] conjI) (simp_all add: data')
qed

text \<open>
  Only datagrams of exactly the size of a packet are accepted: a shorter or longer one is a
  range error (the longer one because the buffer has room for four more bytes), an error of the
  socket is passed on, and no datagram makes the function read outside of the packet.
\<close>

lemma receive_checks_size:
  "receive bo x = (case x of
     ReadError e \<Rightarrow> Inl (SystemError e)
   | Datagram d \<Rightarrow> if length d = 12 then Inr (overlay bo d) else Inl RangeError)"
  by (cases x) (auto simp: receive_def Let_def sizeof_OnWirePacket_def min_def)

end
