(* ===== verification/UdpClientState.thy ===== *)
theory UdpClientState
  imports Complex_Main "HOL-Library.Multiset" "HOL-Library.Signed_Division" UdpPacket
begin

text \<open>
  The data of the UDP/IP client (\<^verbatim>\<open>mrfApp/mrfUdpIpSrc/MrfUdpIpClient.{h,cpp}\<close>): requests, the shared
  state of its two threads, the ordered multisets of requests, and the calculations with times
  and reference numbers.

  Times are the nanoseconds of \<^verbatim>\<open>std::chrono::steady_clock\<close> as integers (the 64 bits of the clock
  do not overflow in the model); a time point of zero means \<open>not set\<close>, as in the code. The readings
  of the clock are arguments of the functions that take them.
\<close>

section \<open>Reference numbers and intervals\<close>

definition refGreaterThan :: "u32 \<Rightarrow> u32 \<Rightarrow> bool" where
  "refGreaterThan ref1 ref2 = (let refDiff = ref1 - ref2 in refDiff < 0xFFFFFFFF div 2)"

text \<open>
  \<^verbatim>\<open>toTimeval\<close> for the duration of the clock, which counts nanoseconds: both divisions round
  towards zero.
\<close>

definition toTimeval :: "int \<Rightarrow> int \<times> int" where
  "toTimeval duration = (duration sdiv 1000000000, (duration smod 1000000000) sdiv 1000)"

definition milliseconds :: "int \<Rightarrow> int" where
  "milliseconds n = n * 1000000"

definition seconds :: "int \<Rightarrow> int" where
  "seconds n = n * 1000000000"

definition duration_max :: int where
  "duration_max = 2 ^ 63 - 1"

definition size_max :: int where
  "size_max = 2 ^ 64 - 1"

section \<open>Requests\<close>

text \<open>
  A callback is known by a number. \<open>rq_sendTime\<close> is the unordered map from reference numbers to
  send times; a callback that has been moved out of the request is \<open>None\<close>.
\<close>

record Request =
  rq_callback :: "nat option"
  rq_congestionWindowResetAfterSent :: bool
  rq_firstSendTime :: time
  rq_idempotent :: bool
  rq_lastRef :: u32
  rq_lastSendTime :: time
  rq_packet :: OnWirePacket
  rq_packetsInFlightWhenSent :: nat
  rq_queueTime :: time
  rq_retransmitTime :: time
  rq_sendTime :: "(u32 \<times> time) list"
  rq_successOrTimeout :: bool

text \<open>
  The constructor leaves some members uninitialised; \<open>raw\<close> is what the memory held. Time points
  are zero by default.
\<close>

definition new_Request ::
    "byte_order \<Rightarrow> Request \<Rightarrow> nat option \<Rightarrow> u8 \<Rightarrow> u32 \<Rightarrow> u16 \<Rightarrow> bool \<Rightarrow> time \<Rightarrow> Request" where
  "new_Request bo raw callback accessType address data idempotent now =
     \<lparr>rq_callback = callback,
      rq_congestionWindowResetAfterSent = rq_congestionWindowResetAfterSent raw,
      rq_firstSendTime = 0, rq_idempotent = idempotent, rq_lastRef = rq_lastRef raw,
      rq_lastSendTime = 0, rq_packet = MrfUdpPacket bo accessType address data 0 0,
      rq_packetsInFlightWhenSent = rq_packetsInFlightWhenSent raw, rq_queueTime = now,
      rq_retransmitTime = 0, rq_sendTime = [], rq_successOrTimeout = False\<rparr>"

text \<open>\<^verbatim>\<open>emplace\<close> on an unordered map keeps an entry that is already there.\<close>

definition emplace_time :: "u32 \<Rightarrow> time \<Rightarrow> (u32 \<times> time) list \<Rightarrow> (u32 \<times> time) list" where
  "emplace_time ref t m = (if map_of m ref = None then (ref, t) # m else m)"

definition erase_time :: "u32 \<Rightarrow> (u32 \<times> time) list \<Rightarrow> (u32 \<times> time) list" where
  "erase_time ref m = filter (\<lambda>(r, t). r \<noteq> ref) m"

section \<open>Client\<close>

text \<open>
  What does not change: the byte order of the host and its two error numbers the code asks for,
  the two timeouts, and the rounding of the floating-point numbers of the host (applied after each
  operation on \<^verbatim>\<open>double\<close>s).
\<close>

record Config =
  cfg_byteOrder :: byte_order
  cfg_EAGAIN :: int
  cfg_ECONNREFUSED :: int
  cfg_queueTimeout :: int
  cfg_requestTimeout :: int
  cfg_round :: "rat \<Rightarrow> rat"

text \<open>
  The shared state. Requests are objects on a heap and are known by their position on it; the
  three multisets are lists in the order of the iterators. The numbers of the code that are bounded
  by counters stay far below the limits of their types and are unbounded here; where the code
  computes with the width of a type (reference numbers, the loss counter, the multiplier of the
  time-out), the model has that width.
\<close>

record Client =
  heap :: "nat \<Rightarrow> Request"
  allocated :: nat
  congestionWindow :: nat
  congestionWindowIncrementCounter :: int
  consecutiveLossesCount :: u32
  consecutiveLossesFirstRef :: u32
  consecutiveRequestTimeoutsCount :: int
  lastReceivedRef :: u32
  lastReceivedRoundTripTime :: int
  lastReceivedSendTime :: time
  newRequests :: "nat list"
  nextRef :: u32
  refToRequest :: "u32 \<rightharpoonup> nat"
  reorderingWindowMultiplier :: int
  reorderingWindowMultiplierResetCounter :: int
  requestsByFirstTransmission :: "nat list"
  requestsByLastTransmission :: "nat list"
  retransmissionTimeoutMultiplier :: "32 word"
  retransmitRequests :: "nat list"
  roundTripTimeVariation :: int
  slowStartThreshold :: int
  smoothedRoundTripTime :: int
  timeoutCallbacks :: "nat option list"

definition consecutiveLossesLimit :: u32 where
  "consecutiveLossesLimit = 3"

definition initialCongestionWindow :: nat where
  "initialCongestionWindow = 4"

definition maxRequestTimeoutsBeforeOffline :: int where
  "maxRequestTimeoutsBeforeOffline = 2"

text \<open>A new client; the members without an initialiser hold what was in memory (\<open>raw\<close>).\<close>

definition new_Client :: "Client \<Rightarrow> Client" where
  "new_Client raw = \<lparr>heap = heap raw, allocated = 0, congestionWindow = initialCongestionWindow,
     congestionWindowIncrementCounter = congestionWindowIncrementCounter raw,
     consecutiveLossesCount = 0, consecutiveLossesFirstRef = consecutiveLossesFirstRef raw,
     consecutiveRequestTimeoutsCount = 0, lastReceivedRef = lastReceivedRef raw,
     lastReceivedRoundTripTime = lastReceivedRoundTripTime raw, lastReceivedSendTime = 0,
     newRequests = [], nextRef = 0, refToRequest = Map.empty, reorderingWindowMultiplier = 0,
     reorderingWindowMultiplierResetCounter = 0, requestsByFirstTransmission = [],
     requestsByLastTransmission = [], retransmissionTimeoutMultiplier = 1,
     retransmitRequests = [], roundTripTimeVariation = 0, slowStartThreshold = size_max,
     smoothedRoundTripTime = 0, timeoutCallbacks = []\<rparr>"

text \<open>The checks of the constructor on its arguments, before it resolves the name.\<close>

datatype argument_error = NegativeQueueTimeout | NonPositiveRequestTimeout

definition MrfUdpIpClient_check :: "int \<Rightarrow> int \<Rightarrow> argument_error + unit" where
  "MrfUdpIpClient_check queueTimeout requestTimeout =
     (if queueTimeout < 0 then Inl NegativeQueueTimeout
      else if requestTimeout \<le> 0 then Inl NonPositiveRequestTimeout
      else Inr ())"

text \<open>
  The choice of an address among those of \<^verbatim>\<open>getaddrinfo\<close> (the length and the address of each): the
  loop looks at the first one in each of its rounds.
\<close>

fun find_address :: "nat \<Rightarrow> (nat \<times> 'a) \<Rightarrow> (nat \<times> 'a) list \<Rightarrow> 'a option" where
  "find_address sizeof_sockaddr_in addrInfo [] = None"
| "find_address sizeof_sockaddr_in addrInfo (nextAddrInfo # rest) =
     (if fst addrInfo = sizeof_sockaddr_in then Some (snd addrInfo)
      else find_address sizeof_sockaddr_in addrInfo rest)"

definition resolve_address :: "nat \<Rightarrow> (nat \<times> 'a) list \<Rightarrow> 'a option" where
  "resolve_address sizeof_sockaddr_in infos =
     (case infos of [] \<Rightarrow> None | info # _ \<Rightarrow> find_address sizeof_sockaddr_in info infos)"

text \<open>
  The constructor over the outcomes of the calls it makes: \<^verbatim>\<open>getaddrinfo\<close> (an error number or the
  results), \<^verbatim>\<open>socket\<close> (an error number or the descriptor), \<^verbatim>\<open>fcntl\<close>, \<^verbatim>\<open>connect\<close> and the creation of
  the threads. The result is the exception or the descriptor, with the descriptors that were closed.
  The exception for a missing address is thrown as a pointer.
\<close>

datatype construction_error = ArgumentError argument_error | ResolveError int
  | PointerToRuntimeError | SocketError int | NonBlockingError int | ConnectError int | ThreadError

record 'a Outcomes =
  out_getaddrinfo :: "int + (nat \<times> 'a) list"
  out_socket :: "int + int"
  out_fcntl :: "int option"
  out_connect :: "int option"
  out_threads :: bool

definition MrfUdpIpClient_construct ::
    "nat \<Rightarrow> int \<Rightarrow> int \<Rightarrow> 'a Outcomes \<Rightarrow> (construction_error + int \<times> 'a) \<times> int list" where
  "MrfUdpIpClient_construct sizeof_sockaddr_in queueTimeout requestTimeout out =
     (case MrfUdpIpClient_check queueTimeout requestTimeout of
        Inl e \<Rightarrow> (Inl (ArgumentError e), [])
      | Inr _ \<Rightarrow> (case out_getaddrinfo out of
          Inl e \<Rightarrow> (Inl (ResolveError e), [])
        | Inr infos \<Rightarrow> (case resolve_address sizeof_sockaddr_in infos of
            None \<Rightarrow> (Inl PointerToRuntimeError, [])
          | Some address \<Rightarrow> (case out_socket out of
              Inl e \<Rightarrow> (Inl (SocketError e), [])
            | Inr fd \<Rightarrow> (case out_fcntl out of
                Some e \<Rightarrow> (Inl (NonBlockingError e), [fd])
              | None \<Rightarrow> (case out_connect out of
                  Some e \<Rightarrow> (Inl (ConnectError e), [fd])
                | None \<Rightarrow>
                    (if out_threads out then (Inr (fd, address), [])
                     else (Inl ThreadError, [fd]))))))))"

definition set_request :: "nat \<Rightarrow> Request \<Rightarrow> Client \<Rightarrow> Client" where
  "set_request r q c = c\<lparr>heap := (heap c)(r := q)\<rparr>"

section \<open>Ordered multisets\<close>

text \<open>
  The comparators order the (pointers to) requests by one of their times. The sets hold no null
  pointers, and are kept here by the time that the comparator looks at. An insertion with the end of the
  set as its hint puts the request after all that are not greater. \<^verbatim>\<open>find\<close> gives the first
  element that is equivalent to the request, and the loop of \<^verbatim>\<open>removeRequest\<close> runs from there to
  the end of the set.
\<close>

definition RequestFirstSendTimeComparator :: "(nat \<Rightarrow> Request) \<Rightarrow> nat option \<Rightarrow> nat option \<Rightarrow> bool" where
  "RequestFirstSendTimeComparator hp request1 request2 =
     (case (request1, request2) of
        (Some r1, Some r2) \<Rightarrow> rq_firstSendTime (hp r1) < rq_firstSendTime (hp r2)
      | _ \<Rightarrow> request1 = None)"

definition RequestLastSendTimeComparator :: "(nat \<Rightarrow> Request) \<Rightarrow> nat option \<Rightarrow> nat option \<Rightarrow> bool" where
  "RequestLastSendTimeComparator hp request1 request2 =
     (case (request1, request2) of
        (Some r1, Some r2) \<Rightarrow> rq_lastSendTime (hp r1) < rq_lastSendTime (hp r2)
      | _ \<Rightarrow> request1 = None)"

definition RequestRetransmitTimeComparator :: "(nat \<Rightarrow> Request) \<Rightarrow> nat option \<Rightarrow> nat option \<Rightarrow> bool" where
  "RequestRetransmitTimeComparator hp request1 request2 =
     (case (request1, request2) of
        (Some r1, Some r2) \<Rightarrow> rq_retransmitTime (hp r1) < rq_retransmitTime (hp r2)
      | _ \<Rightarrow> request1 = None)"

definition insert_hint_end :: "(nat \<Rightarrow> time) \<Rightarrow> nat \<Rightarrow> nat list \<Rightarrow> nat list" where
  "insert_hint_end key r xs =
     takeWhile (\<lambda>x. key x \<le> key r) xs @ r # dropWhile (\<lambda>x. key x \<le> key r) xs"

definition erase_found :: "(nat \<Rightarrow> time) \<Rightarrow> nat \<Rightarrow> nat list \<Rightarrow> nat list" where
  "erase_found key r xs = takeWhile (\<lambda>x. key x \<noteq> key r) xs
     @ filter (\<lambda>x. x \<noteq> r) (dropWhile (\<lambda>x. key x \<noteq> key r) xs)"

definition firstSendTime :: "Client \<Rightarrow> nat \<Rightarrow> time" where
  "firstSendTime c r = rq_firstSendTime (heap c r)"

definition lastSendTime :: "Client \<Rightarrow> nat \<Rightarrow> time" where
  "lastSendTime c r = rq_lastSendTime (heap c r)"

definition retransmitTime :: "Client \<Rightarrow> nat \<Rightarrow> time" where
  "retransmitTime c r = rq_retransmitTime (heap c r)"

section \<open>Round-trip time and retransmission timeout\<close>

definition to_nanoseconds :: "rat \<Rightarrow> int" where
  "to_nanoseconds x = (if 0 \<le> x then floor x else ceiling x)"

definition updateRoundTripTime :: "Config \<Rightarrow> int \<Rightarrow> Client \<Rightarrow> Client" where
  "updateRoundTripTime cfg measurement c =
     (if smoothedRoundTripTime c = 0 \<and> roundTripTimeVariation c = 0 then
        c\<lparr>smoothedRoundTripTime := measurement, roundTripTimeVariation := measurement sdiv 2\<rparr>
      else
        let rnd = cfg_round cfg;
            n = rnd (of_nat (max (length (requestsByFirstTransmission c) div 2) 1));
            alpha = rnd (1 / rnd (8 * n));
            beta = rnd (alpha * 2);
            diff = (if smoothedRoundTripTime c > measurement
                    then smoothedRoundTripTime c - measurement
                    else measurement - smoothedRoundTripTime c);
            mix = (\<lambda>w old new. to_nanoseconds (rnd (rnd (rnd (1 - w) * rnd (of_int old))
                    + rnd (w * rnd (of_int new)))))
        in c\<lparr>roundTripTimeVariation := mix beta (roundTripTimeVariation c) diff,
             smoothedRoundTripTime := mix alpha (smoothedRoundTripTime c) measurement\<rparr>)"

definition rtoLowerLimit :: "Config \<Rightarrow> int" where
  "rtoLowerLimit cfg = max (cfg_requestTimeout cfg sdiv 10) (milliseconds 100)"

definition rtoUpperLimit :: int where
  "rtoUpperLimit = seconds 60"

definition rtoBase :: "Config \<Rightarrow> Client \<Rightarrow> int" where
  "rtoBase cfg c = (if smoothedRoundTripTime c \<noteq> 0
     then smoothedRoundTripTime c + max 1 (4 * roundTripTimeVariation c)
     else rtoLowerLimit cfg)"

definition retransmissionTimeout :: "Config \<Rightarrow> Client \<Rightarrow> int" where
  "retransmissionTimeout cfg c =
     (if rtoBase cfg c > duration_max sdiv sint (retransmissionTimeoutMultiplier c)
      then rtoUpperLimit
      else max (min (rtoBase cfg c * sint (retransmissionTimeoutMultiplier c)) rtoUpperLimit)
             (rtoLowerLimit cfg))"

section \<open>Packet loss\<close>

definition lastReceivedValid :: "Client \<Rightarrow> bool" where
  "lastReceivedValid c = (lastReceivedSendTime c \<noteq> 0)"

definition count_loss :: "u32 \<Rightarrow> Client \<Rightarrow> Client" where
  "count_loss ref c =
     (if consecutiveLossesCount c = 0 then
        c\<lparr>consecutiveLossesFirstRef := ref, consecutiveLossesCount := 1\<rparr>
      else if consecutiveLossesFirstRef c + consecutiveLossesCount c = ref then
        c\<lparr>consecutiveLossesCount := min (consecutiveLossesCount c + 1) consecutiveLossesLimit\<rparr>
      else
        c\<lparr>consecutiveLossesFirstRef := ref, consecutiveLossesCount := 1\<rparr>)"

text \<open>The subtraction from the window is one of \<^verbatim>\<open>std::size_t\<close>.\<close>

definition size_pred :: "nat \<Rightarrow> nat" where
  "size_pred n = (if n = 0 then nat size_max else n - 1)"

definition mark_in_flight :: "Client \<Rightarrow> Client" where
  "mark_in_flight c = fold (\<lambda>r c. set_request r ((heap c r)\<lparr>rq_congestionWindowResetAfterSent := True\<rparr>) c)
     (requestsByLastTransmission c) c"

definition packetLossDetected :: "Config \<Rightarrow> nat \<Rightarrow> Client \<Rightarrow> Client" where
  "packetLossDetected cfg r c =
     (if rq_congestionWindowResetAfterSent (heap c r) then c
      else
        let c1 = count_loss (getRef (cfg_byteOrder cfg) (rq_packet (heap c r))) c;
            c2 = c1\<lparr>slowStartThreshold := max (int (rq_packetsInFlightWhenSent (heap c1 r) div 2)) 2\<rparr>;
            c3 = (if consecutiveLossesCount c2 < consecutiveLossesLimit
                  then c2\<lparr>congestionWindow := max (size_pred (congestionWindow c2)) 1\<rparr>
                  else mark_in_flight (c2\<lparr>congestionWindow := 1, consecutiveLossesCount := 0\<rparr>))
        in c3\<lparr>congestionWindowIncrementCounter := 0\<rparr>)"

end
