(* ===== verification/UdpClient.thy ===== *)
theory UdpClient
  imports UdpClientState
begin

text \<open>
  The operations of the UDP/IP client: queueing requests, the checks for expired requests and lost
  packets, sending, and one round of the loop of each of its two threads.
\<close>

section \<open>Queueing requests\<close>

text \<open>\<open>raw\<close> is what the memory of the new object held.\<close>

definition queue_request ::
    "Config \<Rightarrow> Request \<Rightarrow> time \<Rightarrow> u8 \<Rightarrow> u32 \<Rightarrow> u16 \<Rightarrow> bool \<Rightarrow> nat option \<Rightarrow> Client \<Rightarrow> Client" where
  "queue_request cfg raw now accessType address data idempotent callback c =
     (let request = new_Request (cfg_byteOrder cfg) raw callback accessType address data idempotent now
      in (set_request (allocated c) request c)
           \<lparr>allocated := allocated c + 1, newRequests := newRequests c @ [allocated c]\<rparr>)"

definition queueReadRequest ::
    "Config \<Rightarrow> Request \<Rightarrow> time \<Rightarrow> u32 \<Rightarrow> nat option \<Rightarrow> Client \<Rightarrow> Client" where
  "queueReadRequest cfg raw now address callback c =
     queue_request cfg raw now 1 address 0 True callback c"

definition queueWriteRequest ::
    "Config \<Rightarrow> Request \<Rightarrow> time \<Rightarrow> u32 \<Rightarrow> u16 \<Rightarrow> nat option \<Rightarrow> Client \<Rightarrow> Client" where
  "queueWriteRequest cfg raw now address data callback c =
     queue_request cfg raw now 2 address data False callback c"

section \<open>Removing requests\<close>

definition removeRequest :: "nat \<Rightarrow> Client \<Rightarrow> Client" where
  "removeRequest r c =
     c\<lparr>refToRequest := fold (\<lambda>(ref, t) m. m(ref := None)) (rq_sendTime (heap c r)) (refToRequest c),
       requestsByFirstTransmission := erase_found (firstSendTime c) r (requestsByFirstTransmission c),
       requestsByLastTransmission := erase_found (lastSendTime c) r (requestsByLastTransmission c),
       retransmitRequests := erase_found (retransmitTime c) r (retransmitRequests c)\<rparr>"

section \<open>Checking the requests\<close>

text \<open>The next check is the earliest of the times that were asked for; zero if there was none.\<close>

definition earlier_check :: "time \<Rightarrow> time \<Rightarrow> time" where
  "earlier_check nextCheck t = (if nextCheck = 0 then t else min nextCheck t)"

text \<open>A callback that is moved to \<^verbatim>\<open>timeoutCallbacks\<close> is no longer in the request.\<close>

definition move_callback_to_timeouts :: "nat \<Rightarrow> Client \<Rightarrow> Client" where
  "move_callback_to_timeouts r c =
     (set_request r ((heap c r)\<lparr>rq_callback := None\<rparr>) c)
       \<lparr>timeoutCallbacks := timeoutCallbacks c @ [rq_callback (heap c r)]\<rparr>"

text \<open>First loop: requests that have waited too long for being sent. The list is \<^verbatim>\<open>newRequests\<close>.\<close>

fun check_new :: "Config \<Rightarrow> time \<Rightarrow> nat list \<Rightarrow> Client \<Rightarrow> time \<Rightarrow> Client \<times> time" where
  "check_new cfg now [] c nextCheck = (c\<lparr>newRequests := []\<rparr>, nextCheck)"
| "check_new cfg now (r # rs) c nextCheck =
     (let queueTimeoutTime = rq_queueTime (heap c r) + cfg_queueTimeout cfg
      in if queueTimeoutTime \<le> now
         then check_new cfg now rs (move_callback_to_timeouts r c) nextCheck
         else (c\<lparr>newRequests := r # rs\<rparr>, earlier_check nextCheck queueTimeoutTime))"

text \<open>Second loop: requests for which there was no answer in time, in \<^verbatim>\<open>requestsByFirstTransmission\<close>.\<close>

definition count_timeout :: "Client \<Rightarrow> Client" where
  "count_timeout c =
     (if consecutiveRequestTimeoutsCount c \<le> maxRequestTimeoutsBeforeOffline
      then c\<lparr>consecutiveRequestTimeoutsCount := consecutiveRequestTimeoutsCount c + 1\<rparr>
      else c\<lparr>congestionWindow := initialCongestionWindow, congestionWindowIncrementCounter := 0,
             consecutiveLossesCount := 0, lastReceivedRoundTripTime := 0,
             lastReceivedSendTime := 0, reorderingWindowMultiplier := 0,
             reorderingWindowMultiplierResetCounter := 0, roundTripTimeVariation := 0,
             slowStartThreshold := size_max, smoothedRoundTripTime := 0\<rparr>)"

definition time_out_request :: "nat \<Rightarrow> Client \<Rightarrow> Client" where
  "time_out_request r c =
     (let c1 = move_callback_to_timeouts r c
      in count_timeout (set_request r ((heap c1 r)\<lparr>rq_successOrTimeout := True\<rparr>) c1))"

fun check_first :: "Config \<Rightarrow> time \<Rightarrow> nat list \<Rightarrow> Client \<Rightarrow> time \<Rightarrow> Client \<times> time" where
  "check_first cfg now [] c nextCheck = (c\<lparr>requestsByFirstTransmission := []\<rparr>, nextCheck)"
| "check_first cfg now (r # rs) c nextCheck =
     (let requestTimeoutTime = firstSendTime c r + cfg_requestTimeout cfg
      in if requestTimeoutTime \<le> now
         then check_first cfg now rs (time_out_request r c) nextCheck
         else (c\<lparr>requestsByFirstTransmission := r # rs\<rparr>,
               earlier_check nextCheck requestTimeoutTime))"

text \<open>
  Third loop: requests whose last packet counts as lost, in \<^verbatim>\<open>requestsByLastTransmission\<close>. The
  retransmission timeout and the reordering window are taken before the loop.
\<close>

definition move_to_retransmit :: "Config \<Rightarrow> nat \<Rightarrow> time \<Rightarrow> Client \<Rightarrow> Client" where
  "move_to_retransmit cfg r t c =
     (let c1 = set_request r ((heap c r)\<lparr>rq_retransmitTime := t\<rparr>) c;
          c2 = packetLossDetected cfg r c1;
          c3 = c2\<lparr>retransmitRequests := insert_hint_end (retransmitTime c2) r (retransmitRequests c2)\<rparr>
      in c3\<lparr>requestsByLastTransmission := tl (requestsByLastTransmission c3)\<rparr>)"

definition reorderingWindow :: "Client \<Rightarrow> int" where
  "reorderingWindow c = (reorderingWindowMultiplier c * smoothedRoundTripTime c) sdiv 4"

definition rtoExpires :: "int \<Rightarrow> Client \<Rightarrow> nat \<Rightarrow> time" where
  "rtoExpires rto c r = lastSendTime c r + rto"

definition earlyRetransmitExpires :: "int \<Rightarrow> Client \<Rightarrow> nat \<Rightarrow> time" where
  "earlyRetransmitExpires window c r = lastSendTime c r + window + lastReceivedRoundTripTime c"

definition responseForLaterTransmissionReceived :: "Client \<Rightarrow> nat \<Rightarrow> bool" where
  "responseForLaterTransmissionReceived c r \<longleftrightarrow>
     lastReceivedSendTime c \<noteq> 0 \<and> refGreaterThan (lastReceivedRef c) (rq_lastRef (heap c r))"

lemma length_erase_found_head: "length (erase_found key r (r # xs)) \<le> length xs"
  by (simp add: erase_found_def)

lemma fold_set_request_frame [simp]:
  "requestsByLastTransmission (fold (\<lambda>r c. set_request r (f c r) c) rs c) = requestsByLastTransmission c"
  by (induction rs arbitrary: c) (simp_all add: set_request_def)

lemma packetLossDetected_last [simp]:
  "requestsByLastTransmission (packetLossDetected cfg r c) = requestsByLastTransmission c"
  by (simp add: packetLossDetected_def Let_def mark_in_flight_def count_loss_def)

lemma move_to_retransmit_last [simp]:
  "requestsByLastTransmission (move_to_retransmit cfg r t c) = tl (requestsByLastTransmission c)"
  by (simp add: move_to_retransmit_def Let_def set_request_def)

function check_last ::
    "Config \<Rightarrow> time \<Rightarrow> int \<Rightarrow> int \<Rightarrow> Client \<Rightarrow> bool \<Rightarrow> time \<Rightarrow> Client \<times> bool \<times> time" where
  "check_last cfg now rto window c rtoExpired nextCheck =
     (case requestsByLastTransmission c of
        [] \<Rightarrow> (c, rtoExpired, nextCheck)
      | r # _ \<Rightarrow>
          if rq_successOrTimeout (heap c r) then
            check_last cfg now rto window (removeRequest r c) rtoExpired nextCheck
          else if rtoExpires rto c r \<le> now then
            check_last cfg now rto window (move_to_retransmit cfg r (rtoExpires rto c r) c) True nextCheck
          else if responseForLaterTransmissionReceived c r \<and> earlyRetransmitExpires window c r \<le> now then
            check_last cfg now rto window
              (move_to_retransmit cfg r (earlyRetransmitExpires window c r) c) rtoExpired nextCheck
          else (c, rtoExpired, earlier_check nextCheck
            (if responseForLaterTransmissionReceived c r
                \<and> earlyRetransmitExpires window c r < rtoExpires rto c r
             then earlyRetransmitExpires window c r else rtoExpires rto c r)))"
  by pat_completeness auto
termination
  by (relation "measure (\<lambda>(_, _, _, _, c, _, _). length (requestsByLastTransmission c))")
     (auto simp: removeRequest_def intro: le_less_trans [OF length_erase_found_head])

declare check_last.simps [simp del]

definition double_multiplier :: "Client \<Rightarrow> Client" where
  "double_multiplier c =
     (let m = retransmissionTimeoutMultiplier c
      in c\<lparr>retransmissionTimeoutMultiplier := (if sint (m * 2) < sint m then m else m * 2)\<rparr>)"

definition checkSentRequests :: "Config \<Rightarrow> time \<Rightarrow> Client \<Rightarrow> Client \<times> time" where
  "checkSentRequests cfg now c =
     (let (c1, next1) = (if cfg_queueTimeout cfg \<noteq> 0
            then check_new cfg now (newRequests c) c 0 else (c, 0));
          (c2, next2) = check_first cfg now (requestsByFirstTransmission c1) c1 next1;
          (c3, rtoExpired, next3) = check_last cfg now (retransmissionTimeout cfg c2)
            (reorderingWindow c2) c2 False next2
      in (if rtoExpired then double_multiplier c3 else c3, next3))"

section \<open>Sending a request\<close>

text \<open>
  The result of \<^verbatim>\<open>trySendRequest\<close>: whether the packet was sent, or the error number of the exception
  that is passed on, and the bytes that were handed to the socket. \<open>errno\<close> is the outcome of
  \<^verbatim>\<open>send(2)\<close>, \<open>now\<close> the clock after it.
\<close>

definition trySendRequest ::
    "Config \<Rightarrow> int option \<Rightarrow> time \<Rightarrow> nat \<Rightarrow> Client \<Rightarrow> (int + bool) \<times> u8 list list \<times> Client" where
  "trySendRequest cfg errno now r c =
     (let q = (heap c r)\<lparr>rq_lastRef := nextRef c,
            rq_packet := setRef (cfg_byteOrder cfg) (nextRef c) (rq_packet (heap c r))\<rparr>
      in case send (cfg_byteOrder cfg) errno (rq_packet q) of
        Inl (SystemError e) \<Rightarrow>
          (if e = cfg_EAGAIN cfg then Inr False else Inl e, [], set_request r q c)
      | Inl RangeError \<Rightarrow> (Inl 0, [], set_request r q c)
      | Inr bytes \<Rightarrow>
          let first = (rq_sendTime q = []);
              q1 = (if first then q\<lparr>rq_firstSendTime := now\<rparr> else q);
              c1 = (set_request r q1 c)\<lparr>nextRef := nextRef c + 1\<rparr>;
              c2 = (if first then c1\<lparr>requestsByFirstTransmission :=
                      insert_hint_end (firstSendTime c1) r (requestsByFirstTransmission c1)\<rparr>
                    else c1);
              q2 = q1\<lparr>rq_congestionWindowResetAfterSent := False, rq_lastSendTime := now,
                      rq_packetsInFlightWhenSent := length (requestsByLastTransmission c2) + 1,
                      rq_sendTime := emplace_time (rq_lastRef q1) now (rq_sendTime q1)\<rparr>;
              c3 = set_request r q2 c2;
              c4 = c3\<lparr>refToRequest := (if refToRequest c3 (rq_lastRef q2) = None
                       then (refToRequest c3)(rq_lastRef q2 \<mapsto> r) else refToRequest c3)\<rparr>;
              c5 = c4\<lparr>requestsByLastTransmission :=
                       insert_hint_end (lastSendTime c4) r (requestsByLastTransmission c4)\<rparr>
          in (Inr True, [bytes], c5))"

section \<open>The receive thread\<close>

text \<open>What the client tells its callbacks.\<close>

datatype client_event = Reply nat u16 "8 word" | SendFailed nat int | PeerOffline nat | TimedOut nat

text \<open>Growth of the congestion window for a reply to a packet of request \<open>r\<close>.\<close>

definition grow_congestionWindow :: "nat \<Rightarrow> Client \<Rightarrow> Client" where
  "grow_congestionWindow r c =
     (if rq_congestionWindowResetAfterSent (heap c r) then c
      else if int (congestionWindow c) \<le> slowStartThreshold c then
        c\<lparr>congestionWindow := congestionWindow c + 1\<rparr>
      else if congestionWindow c = rq_packetsInFlightWhenSent (heap c r) then
        (let n = congestionWindowIncrementCounter c + 1
         in if n = 2 then c\<lparr>congestionWindow := congestionWindow c + 1,
                             congestionWindowIncrementCounter := 0\<rparr>
            else c\<lparr>congestionWindowIncrementCounter := n\<rparr>)
      else c)"

text \<open>Detection of reordering and of repetitions that were not needed, for a reply that was expected.\<close>

definition note_order :: "u32 \<Rightarrow> int \<Rightarrow> time \<Rightarrow> Client \<Rightarrow> Client" where
  "note_order ref roundTripTime sendTime c =
     (if lastReceivedValid c \<and> refGreaterThan (lastReceivedRef c) ref
      then c\<lparr>reorderingWindowMultiplier := max (reorderingWindowMultiplier c) 1\<rparr>
      else c\<lparr>lastReceivedRef := ref, lastReceivedRoundTripTime := roundTripTime,
             lastReceivedSendTime := sendTime\<rparr>)"

definition note_spurious :: "u32 \<Rightarrow> nat \<Rightarrow> Client \<Rightarrow> Client" where
  "note_spurious ref r c =
     (if ref \<noteq> rq_lastRef (heap c r) \<and> reorderingWindowMultiplier c \<noteq> 0
      then c\<lparr>reorderingWindowMultiplier := max (reorderingWindowMultiplier c + 1) 4,
             reorderingWindowMultiplierResetCounter := 16\<rparr>
      else c)"

definition note_retransmission :: "u32 \<Rightarrow> nat \<Rightarrow> Client \<Rightarrow> Client" where
  "note_retransmission ref r c =
     (if ref = rq_lastRef (heap c r) \<and> rq_firstSendTime (heap c r) \<noteq> rq_lastSendTime (heap c r)
        \<and> reorderingWindowMultiplier c > 1
      then let n = reorderingWindowMultiplierResetCounter c - 1;
               c1 = c\<lparr>reorderingWindowMultiplierResetCounter := n\<rparr>
           in if n = 0 then c1\<lparr>reorderingWindowMultiplier := 1\<rparr> else c1
      else c)"

definition note_reply :: "Config \<Rightarrow> time \<Rightarrow> u32 \<Rightarrow> nat \<Rightarrow> Client \<Rightarrow> Client" where
  "note_reply cfg receiveTime ref r c =
     (case map_of (rq_sendTime (heap c r)) ref of
        None \<Rightarrow> c
      | Some sendTime \<Rightarrow>
          let c1 = updateRoundTripTime cfg (receiveTime - sendTime) c;
              c2 = note_order ref (receiveTime - sendTime) sendTime c1;
              c3 = note_retransmission ref r (note_spurious ref r c2)
          in set_request r ((heap c3 r)\<lparr>rq_sendTime := erase_time ref (rq_sendTime (heap c3 r))\<rparr>) c3)"

text \<open>The end of a request: its callback is taken, and it is forgotten if no packet is under way.\<close>

definition complete_request :: "u32 \<Rightarrow> nat \<Rightarrow> Client \<Rightarrow> nat option \<times> Client" where
  "complete_request ref r c =
     (if rq_idempotent (heap c r) \<or> ref = rq_lastRef (heap c r) then
        let c1 = set_request r ((heap c r)\<lparr>rq_callback := None, rq_successOrTimeout := True\<rparr>) c
        in (rq_callback (heap c r),
            if ref = rq_lastRef (heap c1 r) then removeRequest r c1 else c1)
      else (None, c))"

text \<open>The part of the loop that holds the mutex.\<close>

definition handle_reply :: "Config \<Rightarrow> time \<Rightarrow> OnWirePacket \<Rightarrow> Client \<Rightarrow> nat option \<times> Client" where
  "handle_reply cfg receiveTime packet c =
     (let ref = getRef (cfg_byteOrder cfg) packet
      in case refToRequest c ref of
           None \<Rightarrow> (None, c)
         | Some r \<Rightarrow>
             let c1 = c\<lparr>consecutiveRequestTimeoutsCount := 0, retransmissionTimeoutMultiplier := 1\<rparr>;
                 c2 = grow_congestionWindow r c1;
                 c3 = c2\<lparr>refToRequest := (refToRequest c2)(ref := None)\<rparr>
             in complete_request ref r (note_reply cfg receiveTime ref r c3))"

text \<open>
  One round of the loop after \<^verbatim>\<open>select\<close>, with the outcome of \<^verbatim>\<open>read(2)\<close>: the number of failures in a row,
  whether the loop ends, the notification and the new state.
\<close>

definition receive_round ::
    "Config \<Rightarrow> nat \<Rightarrow> read_result \<Rightarrow> time \<Rightarrow> Client \<Rightarrow> nat \<times> bool \<times> client_event list \<times> Client" where
  "receive_round cfg failures result receiveTime c =
     (case receive (cfg_byteOrder cfg) result of
        Inl RangeError \<Rightarrow> (failures, False, [], c)
      | Inl (SystemError e) \<Rightarrow>
          if e \<noteq> cfg_EAGAIN cfg \<and> e \<noteq> cfg_ECONNREFUSED cfg
          then (failures + 1, failures + 1 \<ge> 50, [], c)
          else (failures, False, [], c)
      | Inr packet \<Rightarrow>
          (case handle_reply cfg receiveTime packet c of (callback, c') \<Rightarrow>
             (0, False, (case callback of None \<Rightarrow> []
                | Some f \<Rightarrow> [Reply f (getData (cfg_byteOrder cfg) packet) (getStatus packet)]), c')))"

section \<open>The send thread\<close>

datatype send_exception = SendException int | PeerOfflineException

text \<open>
  What the part of the loop that holds the mutex leaves for the rest: the flags
  \<^verbatim>\<open>continueImmediately\<close> and \<^verbatim>\<open>waitForSocket\<close>, and the exception with its callback.
\<close>

record Transmission =
  continueImmediately :: bool
  waitForSocket :: bool
  sendException :: "send_exception option"
  sendExceptionCallback :: "nat option"
  sentBytes :: "u8 list list"

definition is_offline :: "Client \<Rightarrow> bool" where
  "is_offline c = (consecutiveRequestTimeoutsCount c > maxRequestTimeoutsBeforeOffline)"

text \<open>Repeating the first request of \<^verbatim>\<open>retransmitRequests\<close>.\<close>

definition transmit_again ::
    "Config \<Rightarrow> int option \<Rightarrow> time \<Rightarrow> nat \<Rightarrow> Client \<Rightarrow> Transmission \<times> Client" where
  "transmit_again cfg errno now r c =
     (if rq_successOrTimeout (heap c r) then
        (\<lparr>continueImmediately = True, waitForSocket = False, sendException = None,
          sendExceptionCallback = None, sentBytes = []\<rparr>, removeRequest r c)
      else case trySendRequest cfg errno now r c of
        (Inr True, bs, c') \<Rightarrow>
          (\<lparr>continueImmediately = True, waitForSocket = False, sendException = None,
            sendExceptionCallback = None, sentBytes = bs\<rparr>,
           c'\<lparr>retransmitRequests := tl (retransmitRequests c')\<rparr>)
      | (Inr False, bs, c') \<Rightarrow>
          (\<lparr>continueImmediately = False, waitForSocket = True, sendException = None,
            sendExceptionCallback = None, sentBytes = bs\<rparr>, c')
      | (Inl e, bs, c') \<Rightarrow>
          (\<lparr>continueImmediately = True, waitForSocket = False, sendException = Some (SendException e),
            sendExceptionCallback = rq_callback (heap c' r), sentBytes = bs\<rparr>,
           c'\<lparr>retransmitRequests := tl (retransmitRequests c')\<rparr>))"

text \<open>Sending the first request of \<^verbatim>\<open>newRequests\<close>; an offline peer fails it in any case.\<close>

definition transmit_new ::
    "Config \<Rightarrow> bool \<Rightarrow> int option \<Rightarrow> time \<Rightarrow> nat \<Rightarrow> Client \<Rightarrow> Transmission \<times> Client" where
  "transmit_new cfg offline errno now r c =
     (case trySendRequest cfg errno now r c of (result, bs, c1) \<Rightarrow>
        let sent = (result = Inr True);
            exn = (case result of Inl e \<Rightarrow> Some (SendException e) | Inr _ \<Rightarrow> None);
            exnCallback = (case result of Inl e \<Rightarrow> rq_callback (heap c1 r) | Inr _ \<Rightarrow> None);
            done = (offline \<or> sent \<or> exn \<noteq> None);
            c2 = (if done then c1\<lparr>newRequests := tl (newRequests c1)\<rparr> else c1)
        in if offline \<and> exn = None then
             (\<lparr>continueImmediately = done, waitForSocket = \<not> done,
               sendException = Some PeerOfflineException,
               sendExceptionCallback = rq_callback (heap c2 r), sentBytes = bs\<rparr>,
              set_request r ((heap c2 r)\<lparr>rq_callback := exnCallback\<rparr>) c2)
           else
             (\<lparr>continueImmediately = done, waitForSocket = \<not> done, sendException = exn,
               sendExceptionCallback = exnCallback, sentBytes = bs\<rparr>, c2))"

definition no_transmission :: Transmission where
  "no_transmission = \<lparr>continueImmediately = False, waitForSocket = False, sendException = None,
     sendExceptionCallback = None, sentBytes = []\<rparr>"

definition transmit ::
    "Config \<Rightarrow> int option \<Rightarrow> time \<Rightarrow> Client \<Rightarrow> Transmission \<times> Client" where
  "transmit cfg errno now c =
     (if congestionWindow c > length (requestsByLastTransmission c) then
        (case retransmitRequests c of
           r # _ \<Rightarrow> transmit_again cfg errno now r c
         | [] \<Rightarrow> (case newRequests c of
              r # _ \<Rightarrow> transmit_new cfg (is_offline c) errno now r c
            | [] \<Rightarrow> (no_transmission, c)))
      else if is_offline c \<and> newRequests c \<noteq> [] then
        (\<lparr>continueImmediately = True, waitForSocket = False,
          sendException = Some PeerOfflineException,
          sendExceptionCallback = rq_callback (heap c (hd (newRequests c))), sentBytes = []\<rparr>,
         c\<lparr>newRequests := tl (newRequests c)\<rparr>)
      else (no_transmission, c))"

definition exception_event :: "send_exception \<Rightarrow> nat \<Rightarrow> client_event" where
  "exception_event e f = (case e of SendException n \<Rightarrow> SendFailed f n | PeerOfflineException \<Rightarrow> PeerOffline f)"

definition exception_events :: "Transmission \<Rightarrow> client_event list" where
  "exception_events t = (case (sendException t, sendExceptionCallback t) of
     (Some e, Some f) \<Rightarrow> [exception_event e f] | _ \<Rightarrow> [])"

text \<open>
  How a round ends: with the next round at once, or with \<^verbatim>\<open>select\<close>, which waits for the socket to
  become writable if the flag says so, and for the time given, or for ever.
\<close>

datatype decision = ContinueImmediately | Select bool "(int \<times> int) option"

text \<open>
  One round of the loop. \<open>now1\<close>, \<open>now2\<close> and \<open>now3\<close> are the readings of the clock in
  \<^verbatim>\<open>checkSentRequests\<close>, in \<^verbatim>\<open>trySendRequest\<close> and before \<^verbatim>\<open>select\<close>.
\<close>

definition send_round ::
    "Config \<Rightarrow> time \<Rightarrow> int option \<Rightarrow> time \<Rightarrow> time \<Rightarrow> Client
      \<Rightarrow> decision \<times> client_event list \<times> u8 list list \<times> Client" where
  "send_round cfg now1 errno now2 now3 c =
     (let (c1, nextCheckTime) = checkSentRequests cfg now1 c;
          localTimeoutCallbacks = timeoutCallbacks c1;
          c2 = c1\<lparr>timeoutCallbacks := []\<rparr>;
          (t, c3) = transmit cfg errno now2 c2;
          events = exception_events t @ map TimedOut (List.map_filter id localTimeoutCallbacks);
          decision = (if continueImmediately t then ContinueImmediately
            else if nextCheckTime \<noteq> 0 then
              if now3 \<ge> nextCheckTime then ContinueImmediately
              else Select (waitForSocket t) (Some (toTimeval (nextCheckTime - now3)))
            else Select (waitForSocket t) None)
      in (decision, events, sentBytes t, c3))"

end
