(* ===== verification/UdpClient_Proofs.thy ===== *)
theory UdpClient_Proofs
  imports UdpClient
begin

text \<open>
  Correctness of the UDP/IP client: the numbers of its congestion control, its ordered sets, the
  accounting of callbacks, and the times at which its send thread acts.
\<close>

section \<open>Reference numbers and intervals\<close>

lemma refGreaterThan_iff: "refGreaterThan ref1 ref2 \<longleftrightarrow> unat (ref1 - ref2) < 2 ^ 31 - 1"
proof -
  have "unat (0xFFFFFFFF div 2 :: u32) = 2 ^ 31 - 1" by (simp add: unat_div)
  then show ?thesis by (simp add: refGreaterThan_def word_less_nat_alt)
qed

lemma sdiv_nonneg: "0 \<le> x \<Longrightarrow> 0 < y \<Longrightarrow> x sdiv y = x div (y :: int)"
  by (cases "x = 0") (simp_all add: signed_divide_int_def)

lemma smod_nonneg: "0 \<le> x \<Longrightarrow> 0 < y \<Longrightarrow> x smod y = x mod (y :: int)"
  by (cases "x = 0") (simp_all add: signed_modulo_int_def)

lemma toTimeval_bounds:
  assumes "0 \<le> d" and tv: "toTimeval d = (sec, usec)"
  shows "0 \<le> sec" "0 \<le> usec" "usec < 1000000"
    "sec * 1000000000 + usec * 1000 \<le> d" "d < sec * 1000000000 + usec * 1000 + 1000"
proof -
  have sec: "sec = d div 1000000000" and usec: "usec = (d mod 1000000000) div 1000"
    using tv assms(1) by (simp_all add: toTimeval_def sdiv_nonneg smod_nonneg)
  show "0 \<le> sec" "0 \<le> usec" "usec < 1000000" using assms(1) by (auto simp: sec usec)
  have "d = sec * 1000000000 + d mod 1000000000" by (simp add: sec)
  moreover have "d mod 1000000000 = usec * 1000 + d mod 1000000000 mod 1000" by (simp add: usec)
  moreover have "0 \<le> d mod 1000000000 mod 1000" "d mod 1000000000 mod 1000 < 1000" by simp_all
  ultimately show "sec * 1000000000 + usec * 1000 \<le> d" "d < sec * 1000000000 + usec * 1000 + 1000"
    by linarith+
qed

section \<open>Frame lemmas\<close>

lemma set_request_simps [simp]:
  "heap (set_request r q c) = (heap c)(r := q)"
  "allocated (set_request r q c) = allocated c"
  "congestionWindow (set_request r q c) = congestionWindow c"
  "congestionWindowIncrementCounter (set_request r q c) = congestionWindowIncrementCounter c"
  "consecutiveLossesCount (set_request r q c) = consecutiveLossesCount c"
  "consecutiveLossesFirstRef (set_request r q c) = consecutiveLossesFirstRef c"
  "consecutiveRequestTimeoutsCount (set_request r q c) = consecutiveRequestTimeoutsCount c"
  "lastReceivedRef (set_request r q c) = lastReceivedRef c"
  "lastReceivedRoundTripTime (set_request r q c) = lastReceivedRoundTripTime c"
  "lastReceivedSendTime (set_request r q c) = lastReceivedSendTime c"
  "newRequests (set_request r q c) = newRequests c"
  "nextRef (set_request r q c) = nextRef c"
  "refToRequest (set_request r q c) = refToRequest c"
  "reorderingWindowMultiplier (set_request r q c) = reorderingWindowMultiplier c"
  "reorderingWindowMultiplierResetCounter (set_request r q c) = reorderingWindowMultiplierResetCounter c"
  "requestsByFirstTransmission (set_request r q c) = requestsByFirstTransmission c"
  "requestsByLastTransmission (set_request r q c) = requestsByLastTransmission c"
  "retransmissionTimeoutMultiplier (set_request r q c) = retransmissionTimeoutMultiplier c"
  "retransmitRequests (set_request r q c) = retransmitRequests c"
  "roundTripTimeVariation (set_request r q c) = roundTripTimeVariation c"
  "slowStartThreshold (set_request r q c) = slowStartThreshold c"
  "smoothedRoundTripTime (set_request r q c) = smoothedRoundTripTime c"
  "timeoutCallbacks (set_request r q c) = timeoutCallbacks c"
  by (simp_all add: set_request_def)

text \<open>Everything but the heap.\<close>

abbreviation no_heap :: "Client \<Rightarrow> Client" where
  "no_heap c \<equiv> c\<lparr>heap := (\<lambda>_. undefined)\<rparr>"

lemma no_heap_set_request [simp]: "no_heap (set_request r q c) = no_heap c"
  by (simp add: set_request_def)

section \<open>The numbers of the congestion control\<close>

definition params_ok :: "Client \<Rightarrow> bool" where
  "params_ok c \<longleftrightarrow> 1 \<le> congestionWindow c \<and> 2 \<le> slowStartThreshold c
     \<and> consecutiveLossesCount c < 3
     \<and> 0 \<le> consecutiveRequestTimeoutsCount c \<and> consecutiveRequestTimeoutsCount c \<le> 3
     \<and> (\<exists>k\<le>30. retransmissionTimeoutMultiplier c = 2 ^ k)
     \<and> 0 \<le> reorderingWindowMultiplier c
     \<and> (1 < reorderingWindowMultiplier c \<longrightarrow>
          1 \<le> reorderingWindowMultiplierResetCounter c \<and> reorderingWindowMultiplierResetCounter c \<le> 16)"

lemma params_ok_cong:
  assumes "params_ok c" and "congestionWindow c' = congestionWindow c"
    "slowStartThreshold c' = slowStartThreshold c"
    "consecutiveLossesCount c' = consecutiveLossesCount c"
    "consecutiveRequestTimeoutsCount c' = consecutiveRequestTimeoutsCount c"
    "retransmissionTimeoutMultiplier c' = retransmissionTimeoutMultiplier c"
    "reorderingWindowMultiplier c' = reorderingWindowMultiplier c"
    "reorderingWindowMultiplierResetCounter c' = reorderingWindowMultiplierResetCounter c"
  shows "params_ok c'"
  using assms by (simp add: params_ok_def)

lemma params_ok_new: "params_ok (new_Client raw)"
  by (auto simp: params_ok_def new_Client_def initialCongestionWindow_def size_max_def
      intro: exI [of _ 0])

lemma mark_in_flight_frame [simp]: "no_heap (mark_in_flight c) = no_heap c"
proof -
  have "no_heap (fold (\<lambda>r c. set_request r (f r c) c) rs c) = no_heap c" for f rs
    by (induction rs arbitrary: c) simp_all
  then show ?thesis by (simp add: mark_in_flight_def)
qed

lemma no_heap_fields:
  assumes "no_heap c = no_heap c'"
  shows "allocated c = allocated c'" "congestionWindow c = congestionWindow c'"
    "slowStartThreshold c = slowStartThreshold c'"
    "consecutiveLossesCount c = consecutiveLossesCount c'"
    "consecutiveRequestTimeoutsCount c = consecutiveRequestTimeoutsCount c'"
    "retransmissionTimeoutMultiplier c = retransmissionTimeoutMultiplier c'"
    "reorderingWindowMultiplier c = reorderingWindowMultiplier c'"
    "reorderingWindowMultiplierResetCounter c = reorderingWindowMultiplierResetCounter c'"
    "newRequests c = newRequests c'" "refToRequest c = refToRequest c'"
    "requestsByFirstTransmission c = requestsByFirstTransmission c'"
    "requestsByLastTransmission c = requestsByLastTransmission c'"
    "retransmitRequests c = retransmitRequests c'"
    "timeoutCallbacks c = timeoutCallbacks c'"
    "lastReceivedRef c = lastReceivedRef c'" "lastReceivedSendTime c = lastReceivedSendTime c'"
    "lastReceivedRoundTripTime c = lastReceivedRoundTripTime c'"
    "smoothedRoundTripTime c = smoothedRoundTripTime c'"
    "roundTripTimeVariation c = roundTripTimeVariation c'"
  using assms by (cases c; cases c'; simp)+

lemma params_ok_no_heap:
  assumes "no_heap c' = no_heap c" "params_ok c"
  shows "params_ok c'"
  using assms(2) no_heap_fields [OF assms(1)] by (simp add: params_ok_def)

lemma params_ok_set_request [simp]: "params_ok (set_request r q c) = params_ok c"
  by (simp add: params_ok_def)

text \<open>The effect of a lost packet on the numbers.\<close>

lemma count_loss_eq: "\<exists>f n. count_loss ref c = c\<lparr>consecutiveLossesFirstRef := f, consecutiveLossesCount := n\<rparr>"
proof -
  have "c = c\<lparr>consecutiveLossesFirstRef := consecutiveLossesFirstRef c\<rparr>" by simp
  then show ?thesis unfolding count_loss_def by metis
qed

lemma packetLossDetected_params:
  assumes ok: "params_ok c"
  shows "params_ok (packetLossDetected cfg r c)"
proof (cases "rq_congestionWindowResetAfterSent (heap c r)")
  case False
  define c1 where "c1 = count_loss (getRef (cfg_byteOrder cfg) (rq_packet (heap c r))) c"
  obtain f n where c1: "c1 = c\<lparr>consecutiveLossesFirstRef := f, consecutiveLossesCount := n\<rparr>"
    using count_loss_eq unfolding c1_def by blast
  define c2 where "c2 = c1\<lparr>slowStartThreshold := max (int (rq_packetsInFlightWhenSent (heap c1 r) div 2)) 2\<rparr>"
  have low: "params_ok (c2\<lparr>congestionWindow := max w 1, congestionWindowIncrementCounter := 0\<rparr>)"
    if "n < 3" for w
    using ok that by (auto simp: params_ok_def c2_def c1)
  define c3 where "c3 = mark_in_flight (c2\<lparr>congestionWindow := 1, consecutiveLossesCount := 0\<rparr>)"
  have "no_heap c3 = no_heap (c2\<lparr>congestionWindow := 1, consecutiveLossesCount := 0\<rparr>)"
    by (simp only: c3_def mark_in_flight_frame)
  moreover have "params_ok (c2\<lparr>congestionWindow := 1, consecutiveLossesCount := 0\<rparr>)"
    using ok by (auto simp: params_ok_def c2_def c1)
  ultimately have "params_ok c3" by (rule params_ok_no_heap)
  then have "params_ok (c3\<lparr>congestionWindowIncrementCounter := 0\<rparr>)"
    by (simp add: params_ok_def)
  moreover have "packetLossDetected cfg r c
      = (if n < 3 then c2\<lparr>congestionWindow := max (size_pred (congestionWindow c2)) 1\<rparr> else c3)
          \<lparr>congestionWindowIncrementCounter := 0\<rparr>"
    using False unfolding packetLossDetected_def Let_def c1_def [symmetric] c2_def [symmetric] c3_def
    by (simp add: consecutiveLossesLimit_def) (simp add: c2_def c1)
  ultimately show ?thesis using low by simp
qed (use ok in \<open>simp add: packetLossDetected_def\<close>)

lemma move_to_retransmit_params: "params_ok c \<Longrightarrow> params_ok (move_to_retransmit cfg r t c)"
  unfolding move_to_retransmit_def Let_def
  by (rule params_ok_cong [of "packetLossDetected cfg r (set_request r ((heap c r)\<lparr>rq_retransmitTime := t\<rparr>) c)"])
     (simp_all add: packetLossDetected_params)

lemma removeRequest_params [simp]: "params_ok (removeRequest r c) = params_ok c"
  by (simp add: params_ok_def removeRequest_def)

lemma move_callback_params [simp]: "params_ok (move_callback_to_timeouts r c) = params_ok c"
  by (simp add: params_ok_def move_callback_to_timeouts_def)

lemma count_timeout_params: "params_ok c \<Longrightarrow> params_ok (count_timeout c)"
  by (auto simp: params_ok_def count_timeout_def maxRequestTimeoutsBeforeOffline_def
      initialCongestionWindow_def size_max_def)

lemma time_out_request_params: "params_ok c \<Longrightarrow> params_ok (time_out_request r c)"
  by (simp add: time_out_request_def Let_def count_timeout_params)

lemma check_new_params: "params_ok c \<Longrightarrow> params_ok (fst (check_new cfg now rs c n))"
  by (induction rs arbitrary: c) (auto simp: Let_def intro: params_ok_cong)

lemma check_first_params: "params_ok c \<Longrightarrow> params_ok (fst (check_first cfg now rs c n))"
  by (induction rs arbitrary: c) (auto simp: Let_def time_out_request_params intro: params_ok_cong)

lemma check_last_params: "params_ok c \<Longrightarrow> params_ok (fst (check_last cfg now rto w c e n))"
proof (induction cfg now rto w c e n rule: check_last.induct)
  case (1 cfg now rto w c e n)
  then show ?case
    by (subst check_last.simps) (auto split: list.split simp: move_to_retransmit_params)
qed

lemma double_multiplier_params:
  assumes "params_ok c"
  shows "params_ok (double_multiplier c)"
proof -
  obtain k where k: "k \<le> 30" "retransmissionTimeoutMultiplier c = 2 ^ k"
    using assms by (auto simp: params_ok_def)
  have "sint (2 ^ 30 * 2 :: 32 word) < sint (2 ^ 30 :: 32 word)" by simp
  then have "\<exists>j\<le>30. (if sint (2 ^ k * 2 :: 32 word) < sint (2 ^ k :: 32 word) then 2 ^ k else 2 ^ k * 2)
      = (2 ^ j :: 32 word)"
    using k(1) by (cases "k = 30") (auto intro: exI [of _ "Suc k"])
  then show ?thesis
    using assms by (auto simp: params_ok_def double_multiplier_def Let_def k(2))
qed

lemma checkSentRequests_params:
  assumes "params_ok c"
  shows "params_ok (fst (checkSentRequests cfg now c))"
proof -
  obtain c1 n1 where 1: "(if cfg_queueTimeout cfg \<noteq> 0 then check_new cfg now (newRequests c) c 0
      else (c, 0)) = (c1, n1)" by fastforce
  obtain c2 n2 where 2: "check_first cfg now (requestsByFirstTransmission c1) c1 n1 = (c2, n2)"
    by fastforce
  obtain c3 e n3 where 3: "check_last cfg now (retransmissionTimeout cfg c2) (reorderingWindow c2)
      c2 False n2 = (c3, e, n3)" by (metis surj_pair)
  have "params_ok c1" using assms check_new_params 1 by (metis fst_conv)
  then have "params_ok c2" using check_first_params 2 by (metis fst_conv)
  then have "params_ok c3" using check_last_params 3 by (metis fst_conv)
  then show ?thesis
    by (simp add: checkSentRequests_def 1 2 3 double_multiplier_params)
qed

lemma trySendRequest_cases:
  obtains (again) q where "trySendRequest cfg errno now r c = (Inr False, [], set_request r q c)"
      "rq_callback q = rq_callback (heap c r)" "rq_sendTime q = rq_sendTime (heap c r)"
      "rq_successOrTimeout q = rq_successOrTimeout (heap c r)"
      "errno = Some (cfg_EAGAIN cfg)"
    | (failed) e q where "trySendRequest cfg errno now r c = (Inl e, [], set_request r q c)"
      "rq_callback q = rq_callback (heap c r)" "rq_sendTime q = rq_sendTime (heap c r)"
      "rq_successOrTimeout q = rq_successOrTimeout (heap c r)"
      "errno = Some e" "e \<noteq> cfg_EAGAIN cfg" "rq_firstSendTime q = rq_firstSendTime (heap c r)"
    | (sent) q refs first last where "errno = None"
      "trySendRequest cfg errno now r c = (Inr True, [wire_bytes (cfg_byteOrder cfg)
         (setRef (cfg_byteOrder cfg) (nextRef c) (rq_packet (heap c r)))],
       (set_request r q c)\<lparr>nextRef := nextRef c + 1, refToRequest := refs,
          requestsByFirstTransmission := first, requestsByLastTransmission := last\<rparr>)"
      "rq_callback q = rq_callback (heap c r)" "rq_successOrTimeout q = rq_successOrTimeout (heap c r)"
      "rq_lastSendTime q = now" "rq_lastRef q = nextRef c" "\<not> rq_congestionWindowResetAfterSent q"
      "rq_packetsInFlightWhenSent q = length (requestsByLastTransmission c) + 1"
      "rq_queueTime q = rq_queueTime (heap c r)" "rq_retransmitTime q = rq_retransmitTime (heap c r)"
      "rq_firstSendTime q = (if rq_sendTime (heap c r) = [] then now else rq_firstSendTime (heap c r))"
      "rq_sendTime q = emplace_time (nextRef c) now (rq_sendTime (heap c r))"
      "refs = (if refToRequest c (nextRef c) = None then (refToRequest c)(nextRef c \<mapsto> r) else refToRequest c)"
      "first = (if rq_sendTime (heap c r) = []
         then insert_hint_end ((firstSendTime c)(r := now)) r (requestsByFirstTransmission c)
         else requestsByFirstTransmission c)"
      "last = insert_hint_end ((lastSendTime c)(r := now)) r (requestsByLastTransmission c)"
proof (cases errno)
  case (Some e)
  let ?q = "(heap c r)\<lparr>rq_lastRef := nextRef c,
    rq_packet := setRef (cfg_byteOrder cfg) (nextRef c) (rq_packet (heap c r))\<rparr>"
  show ?thesis
  proof (cases "e = cfg_EAGAIN cfg")
    case True
    then show ?thesis
      using Some by (intro again [of ?q]) (simp_all add: trySendRequest_def send_def)
  next
    case False
    then show ?thesis
      using Some by (intro failed [of e ?q]) (simp_all add: trySendRequest_def send_def)
  qed
next
  case None
  define q where "q = (heap c r)\<lparr>rq_lastRef := nextRef c,
    rq_packet := setRef (cfg_byteOrder cfg) (nextRef c) (rq_packet (heap c r)),
    rq_firstSendTime := (if rq_sendTime (heap c r) = [] then now else rq_firstSendTime (heap c r)),
    rq_congestionWindowResetAfterSent := False, rq_lastSendTime := now,
    rq_packetsInFlightWhenSent := length (requestsByLastTransmission c) + 1,
    rq_sendTime := emplace_time (nextRef c) now (rq_sendTime (heap c r))\<rparr>"
  have "trySendRequest cfg errno now r c = (Inr True, [wire_bytes (cfg_byteOrder cfg)
      (setRef (cfg_byteOrder cfg) (nextRef c) (rq_packet (heap c r)))],
    (set_request r q c)\<lparr>nextRef := nextRef c + 1,
      refToRequest := (if refToRequest c (nextRef c) = None then (refToRequest c)(nextRef c \<mapsto> r)
        else refToRequest c),
      requestsByFirstTransmission := (if rq_sendTime (heap c r) = []
         then insert_hint_end ((firstSendTime c)(r := now)) r (requestsByFirstTransmission c)
         else requestsByFirstTransmission c),
      requestsByLastTransmission := insert_hint_end ((lastSendTime c)(r := now)) r
        (requestsByLastTransmission c)\<rparr>)"
    using None
    by (auto simp: trySendRequest_def send_def Let_def q_def set_request_def fun_upd_def
        firstSendTime_def [abs_def] lastSendTime_def [abs_def]
        if_distrib [of rq_firstSendTime] if_distrib [of rq_lastSendTime] cong: if_cong)
  from sent [OF None this] show ?thesis by (simp add: q_def)
qed

lemma trySendRequest_params:
  assumes "params_ok c" and "trySendRequest cfg errno now r c = (res, bs, c')"
  shows "params_ok c'"
proof (cases rule: trySendRequest_cases [of cfg errno now r c])
  case (sent q refs first last)
  have "c' = (set_request r q c)\<lparr>nextRef := nextRef c + 1, refToRequest := refs,
      requestsByFirstTransmission := first, requestsByLastTransmission := last\<rparr>"
    using sent(2) assms(2) by simp
  then show ?thesis by (intro params_ok_cong [OF assms(1)]) simp_all
qed (use assms in auto)

lemma updateRoundTripTime_eq:
  "\<exists>s v. updateRoundTripTime cfg m c = c\<lparr>smoothedRoundTripTime := s, roundTripTimeVariation := v\<rparr>"
proof -
  have "c\<lparr>roundTripTimeVariation := v, smoothedRoundTripTime := s\<rparr>
      = c\<lparr>smoothedRoundTripTime := s, roundTripTimeVariation := v\<rparr>" for s v
    by simp
  then show ?thesis unfolding updateRoundTripTime_def Let_def by metis
qed

lemma updateRoundTripTime_params: "params_ok c \<Longrightarrow> params_ok (updateRoundTripTime cfg m c)"
  using updateRoundTripTime_eq [of cfg m c] by (auto simp: params_ok_def)

lemma grow_params: "params_ok c \<Longrightarrow> params_ok (grow_congestionWindow r c)"
  by (auto simp: params_ok_def grow_congestionWindow_def Let_def)

lemma note_params:
  "params_ok c \<Longrightarrow> params_ok (note_order ref rtt t c)"
  "params_ok c \<Longrightarrow> params_ok (note_spurious ref r c)"
  "params_ok c \<Longrightarrow> params_ok (note_retransmission ref r c)"
  by (auto simp: params_ok_def note_order_def note_spurious_def note_retransmission_def Let_def)

lemma note_reply_params: "params_ok c \<Longrightarrow> params_ok (note_reply cfg t ref r c)"
  by (auto simp: note_reply_def Let_def note_params updateRoundTripTime_params split: option.split)

lemma complete_request_params: "params_ok c \<Longrightarrow> params_ok (snd (complete_request ref r c))"
  by (simp add: complete_request_def Let_def)

lemma handle_reply_params:
  assumes "params_ok c"
  shows "params_ok (snd (handle_reply cfg t packet c))"
proof (cases "refToRequest c (getRef (cfg_byteOrder cfg) packet)")
  case (Some r)
  have "params_ok (c\<lparr>consecutiveRequestTimeoutsCount := 0, retransmissionTimeoutMultiplier := 1\<rparr>)"
    using assms by (auto simp: params_ok_def intro: exI [of _ 0])
  then have "params_ok (grow_congestionWindow r
      (c\<lparr>consecutiveRequestTimeoutsCount := 0, retransmissionTimeoutMultiplier := 1\<rparr>))"
    by (rule grow_params)
  then have "params_ok ((grow_congestionWindow r
      (c\<lparr>consecutiveRequestTimeoutsCount := 0, retransmissionTimeoutMultiplier := 1\<rparr>))\<lparr>refToRequest := m\<rparr>)" for m
    by (simp add: params_ok_def)
  with Some show ?thesis
    by (simp add: handle_reply_def Let_def complete_request_params note_reply_params)
qed (use assms in \<open>simp add: handle_reply_def\<close>)

lemma receive_round_params:
  "params_ok c \<Longrightarrow> receive_round cfg n x t c = (n', stop, ev, c') \<Longrightarrow> params_ok c'"
  using handle_reply_params [of c cfg t]
  by (auto simp: receive_round_def split: sum.splits receive_error.splits if_splits prod.splits)
     (metis snd_conv)

lemma transmit_params:
  assumes "params_ok c" and "transmit cfg errno now c = (t, c')"
  shows "params_ok c'"
proof -
  have tl: "params_ok (d\<lparr>retransmitRequests := xs\<rparr>) = params_ok d"
    "params_ok (d\<lparr>newRequests := xs\<rparr>) = params_ok d" for d xs
    by (simp_all add: params_ok_def)
  note send = trySendRequest_params [OF assms(1)]
  have "params_ok c'" if "transmit_again cfg errno now r c = (t, c')" for r
    using that assms(1) send
    by (auto simp: transmit_again_def tl split: if_splits prod.splits sum.splits bool.splits)
  moreover have "params_ok c'" if "transmit_new cfg off errno now r c = (t, c')" for off r
    using that send
    by (auto simp: transmit_new_def Let_def tl split: if_splits prod.splits)
  ultimately show ?thesis
    using assms by (auto simp: transmit_def tl split: if_splits list.splits)
qed

lemma send_round_params:
  assumes "params_ok c" and "send_round cfg now1 errno now2 now3 c = (d, ev, bs, c')"
  shows "params_ok c'"
proof -
  obtain c1 n where 1: "checkSentRequests cfg now1 c = (c1, n)" by fastforce
  obtain t c3 where 3: "transmit cfg errno now2 (c1\<lparr>timeoutCallbacks := []\<rparr>) = (t, c3)" by fastforce
  have "params_ok (c1\<lparr>timeoutCallbacks := []\<rparr>)"
    using checkSentRequests_params [OF assms(1), of cfg now1] 1 by (simp add: params_ok_def)
  with transmit_params 3 have "params_ok c3" by blast
  with assms(2) 1 3 show ?thesis by (simp add: send_round_def)
qed

lemma queue_request_params: "params_ok c \<Longrightarrow> params_ok (queue_request cfg raw now a b d i f c)"
  by (simp add: queue_request_def Let_def params_ok_def)

section \<open>Retransmission timeout\<close>

lemma multiplier_sint:
  assumes "k \<le> 30"
  shows "sint (2 ^ k :: 32 word) = 2 ^ k"
proof -
  have "list_all (\<lambda>k. sint (2 ^ k :: 32 word) = 2 ^ k) [0..<31]" by code_simp
  then show ?thesis using assms by (simp add: list_all_iff)
qed

lemma multiplier_uint:
  assumes "k \<le> 30"
  shows "uint (2 ^ k :: 32 word) = 2 ^ k"
proof -
  have "list_all (\<lambda>k. uint (2 ^ k :: 32 word) = 2 ^ k) [0..<31]" by code_simp
  then show ?thesis using assms by (simp add: list_all_iff)
qed

lemma multiplier_range:
  "params_ok c \<Longrightarrow> 1 \<le> sint (retransmissionTimeoutMultiplier c)"
  by (auto simp: params_ok_def multiplier_sint)

lemma overflow_check:
  assumes "1 \<le> m"
  shows "b > duration_max sdiv m \<longleftrightarrow> b * m > duration_max"
proof -
  have "duration_max sdiv m = duration_max div m"
    using assms by (simp add: sdiv_nonneg duration_max_def)
  moreover have "b > duration_max div m \<longleftrightarrow> b * m > duration_max"
  proof
    assume "b > duration_max div m"
    then have "(duration_max div m + 1) * m \<le> b * m" using assms by (intro mult_right_mono) auto
    moreover have "duration_max mod m < m" using assms by simp
    ultimately show "b * m > duration_max"
      using div_mult_mod_eq [of duration_max m] by (simp only: distrib_right)
  next
    assume less: "b * m > duration_max"
    show "b > duration_max div m"
    proof (rule ccontr)
      assume "\<not> b > duration_max div m"
      then have "b * m \<le> duration_max div m * m" using assms by (intro mult_right_mono) auto
      moreover have "0 \<le> duration_max mod m" using assms by simp
      ultimately show False using less div_mult_mod_eq [of duration_max m] by linarith
    qed
  qed
  ultimately show ?thesis by simp
qed

lemma rto_eq:
  assumes "params_ok c"
  defines "m \<equiv> sint (retransmissionTimeoutMultiplier c)"
  shows "retransmissionTimeout cfg c =
    (if rtoBase cfg c * m > duration_max then rtoUpperLimit
     else max (min (rtoBase cfg c * m) rtoUpperLimit) (rtoLowerLimit cfg))"
  using overflow_check [OF multiplier_range [OF assms(1)]] by (simp add: retransmissionTimeout_def m_def)

lemma rto_lower: "rtoLowerLimit cfg \<ge> milliseconds 100"
  by (simp add: rtoLowerLimit_def)

lemma rto_positive: "0 < retransmissionTimeout cfg c"
  using rto_lower [of cfg]
  by (auto simp: retransmissionTimeout_def milliseconds_def rtoUpperLimit_def seconds_def max_def)

section \<open>The state without times and numbers\<close>

text \<open>The part of the state that the accounting of requests and callbacks depends on.\<close>

definition view where
  "view c = (allocated c, newRequests c, requestsByFirstTransmission c, requestsByLastTransmission c,
     retransmitRequests c, refToRequest c, timeoutCallbacks c,
     (\<lambda>r. (rq_callback (heap c r), rq_successOrTimeout (heap c r), rq_sendTime (heap c r))))"

lemma view_fields:
  assumes "view c' = view c"
  shows "allocated c' = allocated c" "newRequests c' = newRequests c"
    "requestsByFirstTransmission c' = requestsByFirstTransmission c"
    "requestsByLastTransmission c' = requestsByLastTransmission c"
    "retransmitRequests c' = retransmitRequests c" "refToRequest c' = refToRequest c"
    "timeoutCallbacks c' = timeoutCallbacks c"
    "rq_callback (heap c' r) = rq_callback (heap c r)"
    "rq_successOrTimeout (heap c' r) = rq_successOrTimeout (heap c r)"
    "rq_sendTime (heap c' r) = rq_sendTime (heap c r)"
  using assms by (auto simp: view_def dest: fun_cong [of _ _ r])

lemma view_set_request:
  "rq_callback q = rq_callback (heap c r) \<Longrightarrow> rq_successOrTimeout q = rq_successOrTimeout (heap c r)
    \<Longrightarrow> rq_sendTime q = rq_sendTime (heap c r) \<Longrightarrow> view (set_request r q c) = view c"
  by (auto simp: view_def fun_eq_iff)

lemma view_mark_in_flight [simp]: "view (mark_in_flight c) = view c"
proof -
  have "view (fold (\<lambda>r c. set_request r ((heap c r)\<lparr>rq_congestionWindowResetAfterSent := True\<rparr>) c) rs c)
      = view c" for rs
    by (induction rs arbitrary: c) (simp_all add: view_set_request)
  then show ?thesis by (simp add: mark_in_flight_def)
qed

lemma view_updates [simp]:
  "view (c\<lparr>congestionWindow := a\<rparr>) = view c"
  "view (c\<lparr>congestionWindowIncrementCounter := i\<rparr>) = view c"
  "view (c\<lparr>slowStartThreshold := i\<rparr>) = view c"
  "view (c\<lparr>consecutiveLossesCount := u\<rparr>) = view c"
  "view (c\<lparr>consecutiveLossesFirstRef := u\<rparr>) = view c"
  "view (c\<lparr>consecutiveRequestTimeoutsCount := i\<rparr>) = view c"
  "view (c\<lparr>lastReceivedRef := u\<rparr>) = view c"
  "view (c\<lparr>lastReceivedRoundTripTime := i\<rparr>) = view c"
  "view (c\<lparr>lastReceivedSendTime := i\<rparr>) = view c"
  "view (c\<lparr>reorderingWindowMultiplier := i\<rparr>) = view c"
  "view (c\<lparr>reorderingWindowMultiplierResetCounter := i\<rparr>) = view c"
  "view (c\<lparr>retransmissionTimeoutMultiplier := u\<rparr>) = view c"
  "view (c\<lparr>roundTripTimeVariation := i\<rparr>) = view c"
  "view (c\<lparr>smoothedRoundTripTime := i\<rparr>) = view c"
  "view (c\<lparr>nextRef := u\<rparr>) = view c"
  by (simp_all add: view_def)

lemma view_ops [simp]:
  "view (count_loss ref c) = view c"
  "view (packetLossDetected cfg r c) = view c"
  "view (count_timeout c) = view c"
  "view (double_multiplier c) = view c"
  "view (updateRoundTripTime cfg m c) = view c"
  "view (grow_congestionWindow r c) = view c"
  "view (note_order ref rtt t c) = view c"
  "view (note_spurious ref r c) = view c"
  "view (note_retransmission ref r c) = view c"
  by (simp_all add: count_loss_def packetLossDetected_def count_timeout_def double_multiplier_def
      updateRoundTripTime_def grow_congestionWindow_def note_order_def note_spurious_def
      note_retransmission_def Let_def)

section \<open>Well-formed states\<close>

definition sent :: "Client \<Rightarrow> nat set" where
  "sent c = set (requestsByFirstTransmission c) \<union> set (requestsByLastTransmission c)
     \<union> set (retransmitRequests c) \<union> ran (refToRequest c)"

text \<open>The sent requests of which a packet may be under way, or that wait for a repetition.\<close>

definition travelling :: "Client \<Rightarrow> nat set" where
  "travelling c = set (requestsByLastTransmission c) \<union> set (retransmitRequests c) \<union> ran (refToRequest c)"

definition wf_client :: "Client \<Rightarrow> bool" where
  "wf_client c \<longleftrightarrow> distinct (newRequests c)
     \<and> (\<forall>r\<in>set (newRequests c). r < allocated c \<and> rq_sendTime (heap c r) = [])
     \<and> (\<forall>r\<in>sent c. r < allocated c \<and> r \<notin> set (newRequests c))
     \<and> (\<forall>r\<in>travelling c. rq_callback (heap c r) \<noteq> None \<longrightarrow> r \<in> set (requestsByFirstTransmission c))
     \<and> (\<forall>r\<in>sent c \<union> set (newRequests c). rq_successOrTimeout (heap c r) \<longrightarrow> rq_callback (heap c r) = None)
     \<and> distinct (requestsByLastTransmission c @ retransmitRequests c)
     \<and> (\<forall>ref r. refToRequest c ref = Some r \<longrightarrow> map_of (rq_sendTime (heap c r)) ref \<noteq> None)"

lemma wf_refs: "wf_client c \<Longrightarrow> refToRequest c ref = Some r \<Longrightarrow> map_of (rq_sendTime (heap c r)) ref \<noteq> None"
  unfolding wf_client_def by blast

lemma wf_new_requests:
  "wf_client c \<Longrightarrow> r \<in> set (newRequests c) \<Longrightarrow> r < allocated c \<and> rq_sendTime (heap c r) = [] \<and> r \<notin> sent c"
  unfolding wf_client_def by blast

lemma wf_sent: "wf_client c \<Longrightarrow> r \<in> sent c \<Longrightarrow> r < allocated c \<and> r \<notin> set (newRequests c)"
  unfolding wf_client_def by blast

lemma wf_travelling:
  "wf_client c \<Longrightarrow> r \<in> travelling c \<Longrightarrow> rq_callback (heap c r) \<noteq> None \<Longrightarrow> r \<in> set (requestsByFirstTransmission c)"
  unfolding wf_client_def by blast

lemma wf_success: "wf_client c \<Longrightarrow> r \<in> sent c \<Longrightarrow> rq_successOrTimeout (heap c r) \<Longrightarrow> rq_callback (heap c r) = None"
  unfolding wf_client_def by blast

lemma wf_success_new:
  "wf_client c \<Longrightarrow> r \<in> set (newRequests c) \<Longrightarrow> rq_successOrTimeout (heap c r) \<Longrightarrow> rq_callback (heap c r) = None"
  unfolding wf_client_def by blast

lemma wf_distinct: "wf_client c \<Longrightarrow> distinct (requestsByLastTransmission c @ retransmitRequests c)"
  unfolding wf_client_def by blast

text \<open>Taking callbacks away keeps a state well-formed.\<close>

lemma wf_fewer_callbacks:
  assumes wf: "wf_client c"
    and same: "allocated c' = allocated c" "newRequests c' = newRequests c"
      "requestsByFirstTransmission c' = requestsByFirstTransmission c"
      "requestsByLastTransmission c' = requestsByLastTransmission c"
      "retransmitRequests c' = retransmitRequests c" "refToRequest c' = refToRequest c"
      "\<And>r. rq_sendTime (heap c' r) = rq_sendTime (heap c r)"
    and cb: "\<And>r. rq_callback (heap c' r) = rq_callback (heap c r) \<or> rq_callback (heap c' r) = None"
    and suc: "\<And>r. rq_successOrTimeout (heap c' r) \<Longrightarrow>
      rq_successOrTimeout (heap c r) \<or> rq_callback (heap c' r) = None"
  shows "wf_client c'"
proof -
  have sets: "sent c' = sent c" "travelling c' = travelling c"
    by (simp_all add: sent_def travelling_def same)
  have "r \<in> set (requestsByFirstTransmission c)" if "r \<in> travelling c" "rq_callback (heap c' r) \<noteq> None" for r
    using that cb [of r] wf_travelling [OF wf] by metis
  moreover have "rq_callback (heap c' r) = None" if "r \<in> sent c \<union> set (newRequests c)" "rq_successOrTimeout (heap c' r)" for r
    using suc [OF that(2)] cb [of r] wf_success [OF wf] wf_success_new [OF wf] that(1) by (metis Un_iff)
  ultimately show ?thesis
    using wf unfolding wf_client_def sets same by blast
qed

lemma wf_view: "view c' = view c \<Longrightarrow> wf_client c' = wf_client c"
  using view_fields [of c' c] by (simp add: wf_client_def sent_def travelling_def)

lemma wf_new: "wf_client (new_Client raw)"
  by (simp add: wf_client_def new_Client_def sent_def travelling_def)

text \<open>
  The requests whose callback is still to be notified, and the callbacks: those of the live
  requests and those that are to be notified of a time-out.
\<close>

definition live :: "Client \<Rightarrow> nat set" where
  "live c = set (newRequests c) \<union> set (requestsByFirstTransmission c)"

definition owners :: "Client \<Rightarrow> (nat \<times> nat) set" where
  "owners c = {(r, f). r \<in> live c \<and> rq_callback (heap c r) = Some f}"

definition open_callbacks :: "Client \<Rightarrow> nat multiset" where
  "open_callbacks c = image_mset snd (mset_set (owners c)) + mset (List.map_filter id (timeoutCallbacks c))"

lemma finite_owners [simp]: "finite (owners c)"
proof (rule finite_subset)
  show "owners c \<subseteq> (\<lambda>r. (r, the (rq_callback (heap c r)))) ` live c"
    by (force simp: owners_def)
qed (simp add: live_def)

lemma open_callbacks_view: "view c' = view c \<Longrightarrow> open_callbacks c' = open_callbacks c"
  using view_fields [of c' c] by (simp add: open_callbacks_def owners_def live_def)

lemma owners_remove:
  assumes "(r, f) \<in> owners c" "owners c' = owners c - {(r, f)}"
  shows "image_mset snd (mset_set (owners c)) = add_mset f (image_mset snd (mset_set (owners c')))"
  using assms by (metis finite_owners image_mset_add_mset mset_set.remove snd_conv)

lemma owners_insert:
  assumes "(r, f) \<notin> owners c" "owners c' = insert (r, f) (owners c)"
  shows "image_mset snd (mset_set (owners c')) = add_mset f (image_mset snd (mset_set (owners c)))"
  using assms by simp

section \<open>Ordered sets\<close>

lemma set_insert_hint_end [simp]: "set (insert_hint_end key r xs) = insert r (set xs)"
  by (metis (no_types, lifting) insert_hint_end_def list.simps(15) set_append takeWhile_dropWhile_id
      Un_insert_right)

lemma mset_insert_hint_end [simp]: "mset (insert_hint_end key r xs) = add_mset r (mset xs)"
  by (metis (no_types, lifting) insert_hint_end_def mset.simps(2) mset_append takeWhile_dropWhile_id
      union_mset_add_mset_right)

lemma length_insert_hint_end [simp]: "length (insert_hint_end key r xs) = Suc (length xs)"
  by (metis mset_insert_hint_end size_add_mset size_mset)

lemma distinct_insert_hint_end [simp]:
  "distinct (insert_hint_end key r xs) \<longleftrightarrow> r \<notin> set xs \<and> distinct xs"
  by (metis distinct.simps(2) mset.simps(2) mset_eq_imp_distinct_iff mset_insert_hint_end)

lemma erase_found_eq: "erase_found key r xs = filter (\<lambda>x. x \<noteq> r) xs"
proof -
  have "filter (\<lambda>x. x \<noteq> r) (takeWhile (\<lambda>x. key x \<noteq> key r) xs) = takeWhile (\<lambda>x. key x \<noteq> key r) xs"
    by (auto simp: filter_id_conv dest: set_takeWhileD)
  then show ?thesis
    by (metis (no_types, lifting) erase_found_def filter_append takeWhile_dropWhile_id)
qed

text \<open>The end of the set is where the code's hint points to.\<close>

lemma insert_hint_end_last:
  "\<forall>x\<in>set xs. key x \<le> key r \<Longrightarrow> insert_hint_end key r xs = xs @ [r]"
  by (simp add: insert_hint_end_def)

lemma fold_erase_refs:
  "fold (\<lambda>(ref, t) m. m(ref := None)) ts m = (\<lambda>ref. if map_of ts ref = None then m ref else None)"
  by (induction ts arbitrary: m) (auto simp: fun_eq_iff)

lemma removeRequest_simps [simp]:
  "allocated (removeRequest r c) = allocated c"
  "heap (removeRequest r c) = heap c"
  "newRequests (removeRequest r c) = newRequests c"
  "timeoutCallbacks (removeRequest r c) = timeoutCallbacks c"
  "requestsByFirstTransmission (removeRequest r c) = filter (\<lambda>x. x \<noteq> r) (requestsByFirstTransmission c)"
  "requestsByLastTransmission (removeRequest r c) = filter (\<lambda>x. x \<noteq> r) (requestsByLastTransmission c)"
  "retransmitRequests (removeRequest r c) = filter (\<lambda>x. x \<noteq> r) (retransmitRequests c)"
  "refToRequest (removeRequest r c) =
     (\<lambda>ref. if map_of (rq_sendTime (heap c r)) ref = None then refToRequest c ref else None)"
  by (simp_all add: removeRequest_def erase_found_eq fold_erase_refs)

text \<open>A request that is removed leaves nothing behind.\<close>

lemma removeRequest_sent:
  assumes "wf_client c"
  shows "sent (removeRequest r c) \<subseteq> sent c - {r}" "travelling (removeRequest r c) \<subseteq> travelling c - {r}"
proof -
  have ran: "ran (refToRequest (removeRequest r c)) \<subseteq> ran (refToRequest c) - {r}"
  proof
    fix x assume "x \<in> ran (refToRequest (removeRequest r c))"
    then obtain ref where ref: "refToRequest c ref = Some x" "map_of (rq_sendTime (heap c r)) ref = None"
      by (auto simp: ran_def split: if_splits)
    then have "x \<noteq> r" using wf_refs [OF assms ref(1)] by auto
    with ref(1) show "x \<in> ran (refToRequest c) - {r}" by (auto simp: ran_def)
  qed
  show "sent (removeRequest r c) \<subseteq> sent c - {r}" "travelling (removeRequest r c) \<subseteq> travelling c - {r}"
    using ran by (auto simp: sent_def travelling_def simp del: removeRequest_simps(8))
qed

lemma removeRequest_wf:
  assumes wf: "wf_client c" and cb: "rq_callback (heap c r) = None"
  shows "wf_client (removeRequest r c)" "open_callbacks (removeRequest r c) = open_callbacks c"
proof -
  note sub = removeRequest_sent [OF wf, of r]
  show "wf_client (removeRequest r c)"
    unfolding wf_client_def
  proof (intro conjI ballI allI impI)
    fix x assume x: "x \<in> travelling (removeRequest r c)" "rq_callback (heap (removeRequest r c) x) \<noteq> None"
    then have "x \<noteq> r" "x \<in> travelling c" using sub(2) cb by auto
    with wf x(2) show "x \<in> set (requestsByFirstTransmission (removeRequest r c))"
      by (simp add: wf_client_def)
  qed (use wf sub(1) in \<open>auto simp: wf_client_def split: if_splits\<close>)
  have "owners (removeRequest r c) = owners c"
    using cb by (auto simp: owners_def live_def)
  then show "open_callbacks (removeRequest r c) = open_callbacks c"
    by (simp add: open_callbacks_def)
qed

section \<open>The checks keep the accounts\<close>

definition accounts :: "Client \<Rightarrow> Client \<Rightarrow> bool" where
  "accounts c c' \<longleftrightarrow> wf_client c' \<and> open_callbacks c' = open_callbacks c"

lemma accounts_trans: "accounts c c' \<Longrightarrow> accounts c' c'' \<Longrightarrow> accounts c c''"
  by (simp add: accounts_def)

lemma accounts_view: "wf_client c \<Longrightarrow> view c' = view c \<Longrightarrow> accounts c c'"
  using wf_view [of c' c] open_callbacks_view [of c' c] by (simp add: accounts_def)

lemma move_callback_simps [simp]:
  "allocated (move_callback_to_timeouts r c) = allocated c"
  "newRequests (move_callback_to_timeouts r c) = newRequests c"
  "requestsByFirstTransmission (move_callback_to_timeouts r c) = requestsByFirstTransmission c"
  "requestsByLastTransmission (move_callback_to_timeouts r c) = requestsByLastTransmission c"
  "retransmitRequests (move_callback_to_timeouts r c) = retransmitRequests c"
  "refToRequest (move_callback_to_timeouts r c) = refToRequest c"
  "timeoutCallbacks (move_callback_to_timeouts r c) = timeoutCallbacks c @ [rq_callback (heap c r)]"
  "heap (move_callback_to_timeouts r c) = (heap c)(r := (heap c r)\<lparr>rq_callback := None\<rparr>)"
  by (simp_all add: move_callback_to_timeouts_def)

lemma map_filter_id_append [simp]:
  "List.map_filter id (xs @ ys) = List.map_filter id xs @ List.map_filter id ys"
  "List.map_filter id [None] = []" "List.map_filter id [Some f] = [f]"
  by (simp_all add: List.map_filter_def)

lemma move_callback_accounts:
  assumes wf: "wf_client c" and live: "r \<in> live c"
  shows "accounts c (move_callback_to_timeouts r c)"
proof -
  let ?c = "move_callback_to_timeouts r c"
  have "wf_client ?c"
    by (rule wf_fewer_callbacks [OF wf]) auto
  moreover have "open_callbacks ?c = open_callbacks c"
  proof (cases "rq_callback (heap c r)")
    case None
    then have "owners ?c = owners c" by (auto simp: owners_def live_def split: if_splits)
    with None show ?thesis by (simp add: open_callbacks_def)
  next
    case (Some f)
    have "(r, f) \<in> owners c" using live Some by (simp add: owners_def)
    moreover have "owners ?c = owners c - {(r, f)}"
      using Some by (auto simp: owners_def live_def split: if_splits)
    ultimately have "image_mset snd (mset_set (owners c)) = add_mset f (image_mset snd (mset_set (owners ?c)))"
      by (rule owners_remove)
    with Some show ?thesis by (simp add: open_callbacks_def)
  qed
  ultimately show ?thesis by (simp add: accounts_def)
qed

lemma shrink_new_accounts:
  assumes wf: "wf_client c" and sub: "set rs \<subseteq> set (newRequests c)" "distinct rs"
    and gone: "\<And>r. r \<in> set (newRequests c) - set rs \<Longrightarrow> rq_callback (heap c r) = None"
  shows "accounts c (c\<lparr>newRequests := rs\<rparr>)"
proof -
  let ?c = "c\<lparr>newRequests := rs\<rparr>"
  have same: "sent ?c = sent c" "travelling ?c = travelling c" "newRequests ?c = rs" "heap ?c = heap c"
    "allocated ?c = allocated c" "requestsByFirstTransmission ?c = requestsByFirstTransmission c"
    "requestsByLastTransmission ?c = requestsByLastTransmission c"
    "retransmitRequests ?c = retransmitRequests c" "refToRequest ?c = refToRequest c"
    by (simp_all add: sent_def travelling_def)
  have "wf_client ?c"
    using wf sub unfolding wf_client_def same by blast
  moreover have "owners (c\<lparr>newRequests := rs\<rparr>) = owners c"
    using sub(1) gone by (force simp: owners_def live_def)
  ultimately show ?thesis by (simp add: accounts_def open_callbacks_def)
qed

lemma shrink_first_accounts:
  assumes wf: "wf_client c" and sub: "set rs \<subseteq> set (requestsByFirstTransmission c)"
    and gone: "\<And>r. r \<in> set (requestsByFirstTransmission c) - set rs \<Longrightarrow> rq_callback (heap c r) = None"
  shows "accounts c (c\<lparr>requestsByFirstTransmission := rs\<rparr>)"
proof -
  let ?c = "c\<lparr>requestsByFirstTransmission := rs\<rparr>"
  have "sent ?c \<subseteq> sent c" "travelling ?c = travelling c"
    using sub by (auto simp: sent_def travelling_def)
  moreover have "r \<in> set rs" if "r \<in> travelling c" "rq_callback (heap c r) \<noteq> None" for r
    using wf_travelling [OF wf that] gone [of r] that(2) by auto
  ultimately have "wf_client ?c"
    using wf unfolding wf_client_def by auto
  moreover have "owners ?c = owners c"
    using sub gone by (force simp: owners_def live_def)
  ultimately show ?thesis by (simp add: accounts_def open_callbacks_def)
qed

lemma check_new_accounts:
  assumes "wf_client c" "newRequests c = pre @ rs" "\<And>r. r \<in> set pre \<Longrightarrow> rq_callback (heap c r) = None"
    and "check_new cfg now rs c n = (c', n')"
  shows "accounts c c'"
  using assms
proof (induction rs arbitrary: c pre)
  case Nil
  then have "c' = c\<lparr>newRequests := []\<rparr>" by simp
  with Nil show ?case by (auto intro!: shrink_new_accounts)
next
  case (Cons r rs)
  show ?case
  proof (cases "rq_queueTime (heap c r) + cfg_queueTimeout cfg \<le> now")
    case True
    let ?c = "move_callback_to_timeouts r c"
    have acc: "accounts c ?c"
      using Cons.prems(2) by (intro move_callback_accounts [OF Cons.prems(1)]) (simp add: live_def)
    have "accounts ?c c'"
    proof (rule Cons.IH)
      show "wf_client ?c" using acc by (simp add: accounts_def)
      show "newRequests ?c = (pre @ [r]) @ rs" using Cons.prems(2) by simp
      show "rq_callback (heap ?c x) = None" if "x \<in> set (pre @ [r])" for x
        using that Cons.prems(3) by auto
      show "check_new cfg now rs ?c n = (c', n')" using True Cons.prems(4) by simp
    qed
    with acc show ?thesis by (rule accounts_trans)
  next
    case False
    then have "c' = c\<lparr>newRequests := r # rs\<rparr>" using Cons.prems(4) by (simp add: Let_def)
    moreover have "accounts c (c\<lparr>newRequests := r # rs\<rparr>)"
    proof (rule shrink_new_accounts [OF Cons.prems(1)])
      have "distinct (pre @ r # rs)" using Cons.prems(1,2) by (simp add: wf_client_def)
      then show "distinct (r # rs)" by simp
    qed (use Cons.prems(2,3) in auto)
    ultimately show ?thesis by simp
  qed
qed

lemma time_out_request_accounts:
  assumes wf: "wf_client c" and live: "r \<in> live c"
  shows "accounts c (time_out_request r c)"
    "rq_callback (heap (time_out_request r c) r) = None"
    "requestsByFirstTransmission (time_out_request r c) = requestsByFirstTransmission c"
    "x \<noteq> r \<Longrightarrow> rq_callback (heap (time_out_request r c) x) = rq_callback (heap c x)"
proof -
  let ?c1 = "move_callback_to_timeouts r c"
  let ?c2 = "set_request r ((heap ?c1 r)\<lparr>rq_successOrTimeout := True\<rparr>) ?c1"
  have view: "view (time_out_request r c) = view ?c2"
    by (simp add: time_out_request_def Let_def)
  note fields = view_fields [OF view]
  have acc: "accounts c ?c1" by (rule move_callback_accounts [OF wf live])
  have wf1: "wf_client ?c1" using acc by (simp add: accounts_def)
  have "wf_client ?c2"
    by (rule wf_fewer_callbacks [OF wf1]) auto
  moreover have "owners ?c2 = owners ?c1" by (auto simp: owners_def live_def split: if_splits)
  ultimately have "accounts ?c1 ?c2" by (simp add: accounts_def open_callbacks_def)
  then have "accounts c ?c2" using acc accounts_trans by blast
  then show "accounts c (time_out_request r c)"
    by (simp add: accounts_def wf_view [OF view] open_callbacks_view [OF view])
  show "rq_callback (heap (time_out_request r c) r) = None"
    "requestsByFirstTransmission (time_out_request r c) = requestsByFirstTransmission c"
    "x \<noteq> r \<Longrightarrow> rq_callback (heap (time_out_request r c) x) = rq_callback (heap c x)"
    using fields by simp_all
qed

lemma check_first_accounts:
  assumes "wf_client c" "requestsByFirstTransmission c = pre @ rs"
    "\<And>r. r \<in> set pre \<Longrightarrow> rq_callback (heap c r) = None"
    and "check_first cfg now rs c n = (c', n')"
  shows "accounts c c'"
  using assms
proof (induction rs arbitrary: c pre)
  case Nil
  then have "c' = c\<lparr>requestsByFirstTransmission := []\<rparr>" by simp
  with Nil show ?case by (auto intro!: shrink_first_accounts)
next
  case (Cons r rs)
  show ?case
  proof (cases "firstSendTime c r + cfg_requestTimeout cfg \<le> now")
    case True
    let ?c = "time_out_request r c"
    have live: "r \<in> live c" using Cons.prems(2) by (simp add: live_def)
    note t = time_out_request_accounts [OF Cons.prems(1) live]
    have "accounts ?c c'"
    proof (rule Cons.IH)
      show "wf_client ?c" using t(1) by (simp add: accounts_def)
      show "requestsByFirstTransmission ?c = (pre @ [r]) @ rs" using t(3) Cons.prems(2) by simp
      show "rq_callback (heap ?c x) = None" if "x \<in> set (pre @ [r])" for x
        using that t(2,4) Cons.prems(3) by (cases "x = r") auto
      show "check_first cfg now rs ?c n = (c', n')" using True Cons.prems(4) by simp
    qed
    with t(1) show ?thesis by (rule accounts_trans)
  next
    case False
    then have "c' = c\<lparr>requestsByFirstTransmission := r # rs\<rparr>" using Cons.prems(4) by (simp add: Let_def)
    with Cons.prems show ?thesis by (auto intro!: shrink_first_accounts)
  qed
qed

lemma move_to_retransmit_fields:
  assumes "requestsByLastTransmission c = r # rs"
  shows "allocated (move_to_retransmit cfg r t c) = allocated c"
    "newRequests (move_to_retransmit cfg r t c) = newRequests c"
    "requestsByFirstTransmission (move_to_retransmit cfg r t c) = requestsByFirstTransmission c"
    "refToRequest (move_to_retransmit cfg r t c) = refToRequest c"
    "timeoutCallbacks (move_to_retransmit cfg r t c) = timeoutCallbacks c"
    "mset (retransmitRequests (move_to_retransmit cfg r t c)) = add_mset r (mset (retransmitRequests c))"
    "rq_callback (heap (move_to_retransmit cfg r t c) x) = rq_callback (heap c x)"
    "rq_successOrTimeout (heap (move_to_retransmit cfg r t c) x) = rq_successOrTimeout (heap c x)"
    "rq_sendTime (heap (move_to_retransmit cfg r t c) x) = rq_sendTime (heap c x)"
proof -
  let ?c1 = "set_request r ((heap c r)\<lparr>rq_retransmitTime := t\<rparr>) c"
  have "view (packetLossDetected cfg r ?c1) = view c" by (simp add: view_set_request)
  note f = view_fields [OF this]
  show "allocated (move_to_retransmit cfg r t c) = allocated c"
    "newRequests (move_to_retransmit cfg r t c) = newRequests c"
    "requestsByFirstTransmission (move_to_retransmit cfg r t c) = requestsByFirstTransmission c"
    "refToRequest (move_to_retransmit cfg r t c) = refToRequest c"
    "timeoutCallbacks (move_to_retransmit cfg r t c) = timeoutCallbacks c"
    "mset (retransmitRequests (move_to_retransmit cfg r t c)) = add_mset r (mset (retransmitRequests c))"
    "rq_callback (heap (move_to_retransmit cfg r t c) x) = rq_callback (heap c x)"
    "rq_successOrTimeout (heap (move_to_retransmit cfg r t c) x) = rq_successOrTimeout (heap c x)"
    "rq_sendTime (heap (move_to_retransmit cfg r t c) x) = rq_sendTime (heap c x)"
    using f by (simp_all add: move_to_retransmit_def Let_def)
qed

text \<open>A request that moves between the sets of sent requests.\<close>

lemma wf_move:
  assumes wf: "wf_client c"
    and same: "allocated c' = allocated c" "newRequests c' = newRequests c"
      "requestsByFirstTransmission c' = requestsByFirstTransmission c"
      "refToRequest c' = refToRequest c"
      "\<And>r. rq_callback (heap c' r) = rq_callback (heap c r)"
      "\<And>r. rq_successOrTimeout (heap c' r) = rq_successOrTimeout (heap c r)"
      "\<And>r. rq_sendTime (heap c' r) = rq_sendTime (heap c r)"
    and moved: "mset (requestsByLastTransmission c' @ retransmitRequests c')
      = mset (requestsByLastTransmission c @ retransmitRequests c)"
  shows "wf_client c'"
proof -
  have "set (requestsByLastTransmission c' @ retransmitRequests c')
      = set (requestsByLastTransmission c @ retransmitRequests c)"
    using moved by (metis set_mset_mset)
  then have sets: "sent c' = sent c" "travelling c' = travelling c"
    unfolding sent_def travelling_def same set_append by blast+
  have "distinct (requestsByLastTransmission c' @ retransmitRequests c')"
    using moved wf_distinct [OF wf] mset_eq_imp_distinct_iff by blast
  then show ?thesis using wf unfolding wf_client_def sets same by blast
qed

lemma move_to_retransmit_accounts:
  assumes wf: "wf_client c" and last: "requestsByLastTransmission c = r # rs"
  shows "accounts c (move_to_retransmit cfg r t c)"
proof -
  note f = move_to_retransmit_fields [OF last]
  have "wf_client (move_to_retransmit cfg r t c)"
    using f last by (intro wf_move [OF wf]) simp_all
  moreover have "owners (move_to_retransmit cfg r t c) = owners c"
    using f by (simp add: owners_def live_def)
  ultimately show ?thesis using f by (simp add: accounts_def open_callbacks_def)
qed

lemma check_last_accounts:
  "wf_client c \<Longrightarrow> accounts c (fst (check_last cfg now rto w c e n))"
proof (induction cfg now rto w c e n rule: check_last.induct)
  case (1 cfg now rto w c e n)
  show ?case
  proof (cases "requestsByLastTransmission c")
    case Nil
    then show ?thesis by (subst check_last.simps) (simp add: accounts_def 1)
  next
    case (Cons r rs)
    have sent: "r \<in> sent c" using Cons by (simp add: sent_def)
    have rem: "accounts c (removeRequest r c)" if "rq_successOrTimeout (heap c r)"
      using removeRequest_wf [OF "1.prems" wf_success [OF "1.prems" sent that]] by (simp add: accounts_def)
    have mov: "accounts c (move_to_retransmit cfg r t c)" for t
      by (rule move_to_retransmit_accounts [OF "1.prems" Cons])
    have wf_next: "wf_client c'" if "accounts c c'" for c' using that by (simp add: accounts_def)
    show ?thesis
    proof (cases "rq_successOrTimeout (heap c r)")
      case True
      with "1.IH"(1) [OF Cons True wf_next [OF rem [OF True]]] rem [OF True] Cons show ?thesis
        by (subst check_last.simps) (simp add: accounts_trans)
    next
      case False
      note IH2 = "1.IH"(2) [OF Cons False _ wf_next [OF mov]]
      note IH3 = "1.IH"(3) [OF Cons False _ _ wf_next [OF mov]]
      show ?thesis
        using IH2 IH3 mov False Cons
        by (subst check_last.simps) (auto intro: accounts_trans simp: accounts_def "1.prems")
    qed
  qed
qed

lemma checkSentRequests_accounts:
  assumes wf: "wf_client c"
  shows "accounts c (fst (checkSentRequests cfg now c))"
proof -
  obtain c1 n1 where 1: "(if cfg_queueTimeout cfg \<noteq> 0 then check_new cfg now (newRequests c) c 0
      else (c, 0)) = (c1, n1)" by fastforce
  obtain c2 n2 where 2: "check_first cfg now (requestsByFirstTransmission c1) c1 n1 = (c2, n2)"
    by fastforce
  obtain c3 e n3 where 3: "check_last cfg now (retransmissionTimeout cfg c2) (reorderingWindow c2)
      c2 False n2 = (c3, e, n3)" by (metis surj_pair)
  have a1: "accounts c c1"
    using 1 check_new_accounts [of c "[]", OF wf] wf
    by (auto split: if_splits simp: accounts_def)
  then have a2: "accounts c1 c2"
    using check_first_accounts [of c1 "[]" _ cfg now n1 c2 n2] 2 by (simp add: accounts_def)
  then have "accounts c2 c3"
    using check_last_accounts [of c2 cfg now "retransmissionTimeout cfg c2" "reorderingWindow c2" False n2] 3
    by (simp add: accounts_def)
  with a1 a2 have "accounts c c3" using accounts_trans by blast
  moreover have "accounts c3 (if e then double_multiplier c3 else c3)"
    using \<open>accounts c c3\<close> accounts_view [of c3] by (auto simp: accounts_def [of c c3])
  ultimately have "accounts c (if e then double_multiplier c3 else c3)" using accounts_trans by blast
  then show ?thesis by (simp add: checkSentRequests_def 1 2 3)
qed

section \<open>Sending and receiving keep the accounts\<close>

fun event_callback :: "client_event \<Rightarrow> nat" where
  "event_callback (Reply f d s) = f"
| "event_callback (SendFailed f e) = f"
| "event_callback (PeerOffline f) = f"
| "event_callback (TimedOut f) = f"

definition balanced :: "Client \<Rightarrow> client_event list \<Rightarrow> Client \<Rightarrow> bool" where
  "balanced c ev c' \<longleftrightarrow> wf_client c' \<and>
     open_callbacks c = mset (map event_callback ev) + open_callbacks c'"

lemma balanced_view: "wf_client c \<Longrightarrow> view c' = view c \<Longrightarrow> balanced c [] c'"
  using wf_view [of c' c] open_callbacks_view [of c' c] by (simp add: balanced_def)

lemma exception_events_None [simp]: "sendException t = None \<Longrightarrow> exception_events t = []"
  by (simp add: exception_events_def)

lemma exception_events_callbacks:
  "sendException t = Some e \<Longrightarrow>
     map event_callback (exception_events t) = (case sendExceptionCallback t of None \<Rightarrow> [] | Some f \<Rightarrow> [f])"
  by (cases e) (auto simp: exception_events_def exception_event_def split: option.split)

lemma map_of_emplace_time:
  "map_of (emplace_time ref t m) x = (if x = ref \<and> map_of m ref = None then Some t else map_of m x)"
  by (auto simp: emplace_time_def)

text \<open>The state after a packet of request \<open>r\<close> has been sent.\<close>

lemma after_sent_wf:
  assumes wf: "wf_client c" and r: "r < allocated c" "r \<notin> set (newRequests c)"
    and new: "r \<notin> set (requestsByLastTransmission c)" "r \<notin> set (retransmitRequests c)"
    and first: "rq_callback q \<noteq> None \<Longrightarrow> r \<in> set first"
      "set (requestsByFirstTransmission c) \<subseteq> set first"
      "set first \<subseteq> insert r (set (requestsByFirstTransmission c))"
    and last: "mset lst = add_mset r (mset (requestsByLastTransmission c))"
    and refs: "refs = (if refToRequest c (nextRef c) = None then (refToRequest c)(nextRef c \<mapsto> r)
      else refToRequest c)"
    and q: "rq_sendTime q = emplace_time (nextRef c) now (rq_sendTime (heap c r))"
      "rq_successOrTimeout q \<Longrightarrow> rq_callback q = None"
  shows "wf_client ((set_request r q c)\<lparr>nextRef := n, refToRequest := refs,
    requestsByFirstTransmission := first, requestsByLastTransmission := lst\<rparr>)" (is "wf_client ?c")
proof -
  have set_last: "set lst = insert r (set (requestsByLastTransmission c))"
    using arg_cong [OF last, of set_mset] by simp
  have "distinct lst \<longleftrightarrow> distinct (r # requestsByLastTransmission c)"
    using last by (intro mset_eq_imp_distinct_iff) simp
  then have dist: "distinct (lst @ retransmitRequests c)"
    using wf_distinct [OF wf] new set_last by auto
  have ran: "ran refs \<subseteq> insert r (ran (refToRequest c))"
    by (auto simp: refs ran_def)
  have sent: "sent ?c \<subseteq> insert r (sent c)" and trav: "travelling ?c \<subseteq> insert r (travelling c)"
    using first(3) ran set_last by (auto simp: sent_def travelling_def)
  have refs_ok: "map_of (rq_sendTime (heap ?c x)) ref \<noteq> None" if "refs ref = Some x" for ref x
  proof (cases "refToRequest c ref = Some x")
    case True
    then show ?thesis using wf_refs [OF wf True] by (auto simp: q(1) map_of_emplace_time)
  next
    case False
    with that have "ref = nextRef c" "x = r" by (auto simp: refs split: if_splits)
    then show ?thesis by (simp add: q(1) map_of_emplace_time)
  qed
  show ?thesis
    unfolding wf_client_def
  proof (intro conjI ballI allI impI)
    fix x assume x: "x \<in> travelling ?c" "rq_callback (heap ?c x) \<noteq> None"
    show "x \<in> set (requestsByFirstTransmission ?c)"
    proof (cases "x = r")
      case False
      then have "x \<in> travelling c" "rq_callback (heap c x) \<noteq> None" using x trav by auto
      with wf_travelling [OF wf] first(2) show ?thesis by auto
    qed (use x first(1) in simp)
  next
    fix x assume x: "x \<in> sent ?c \<union> set (newRequests ?c)" "rq_successOrTimeout (heap ?c x)"
    show "rq_callback (heap ?c x) = None"
    proof (cases "x = r")
      case False
      then show ?thesis
        using x sent wf_success [OF wf, of x] wf_success_new [OF wf, of x] by auto
    qed (use x q(2) in simp)
  next
    fix x assume "x \<in> set (newRequests ?c)"
    then show "x < allocated ?c" "rq_sendTime (heap ?c x) = []"
      using wf_new_requests [OF wf] r(2) by auto
  next
    fix x assume "x \<in> sent ?c"
    then show "x < allocated ?c" "x \<notin> set (newRequests ?c)"
      using sent r wf_sent [OF wf] by auto
  next
    show "distinct (newRequests ?c)" using wf by (simp add: wf_client_def)
  next
    show "distinct (requestsByLastTransmission ?c @ retransmitRequests ?c)" using dist by simp
  next
    fix ref x assume "refToRequest ?c ref = Some x"
    then show "map_of (rq_sendTime (heap ?c x)) ref \<noteq> None" using refs_ok by simp
  qed
qed

text \<open>Dropping the first request of one of the queues.\<close>

lemma drop_retransmit_wf:
  assumes "wf_client c"
  shows "wf_client (c\<lparr>retransmitRequests := tl (retransmitRequests c)\<rparr>)"
    "open_callbacks (c\<lparr>retransmitRequests := tl (retransmitRequests c)\<rparr>) = open_callbacks c"
proof -
  let ?c = "c\<lparr>retransmitRequests := tl (retransmitRequests c)\<rparr>"
  have sub: "sent ?c \<subseteq> sent c" "travelling ?c \<subseteq> travelling c"
    by (auto simp: sent_def travelling_def dest: list.set_sel(2))
      (metis list.sel(2) list.set_sel(2))+
  have "distinct (requestsByLastTransmission c @ tl (retransmitRequests c))"
    using wf_distinct [OF assms] by (cases "retransmitRequests c") auto
  with sub assms show "wf_client ?c"
    unfolding wf_client_def by auto
  show "open_callbacks ?c = open_callbacks c"
    by (simp add: open_callbacks_def owners_def live_def)
qed

lemma drop_new_wf:
  assumes wf: "wf_client c" and new: "newRequests c = r # rs"
  shows "wf_client (c\<lparr>newRequests := rs\<rparr>)"
    "open_callbacks c = (case rq_callback (heap c r) of None \<Rightarrow> {#} | Some f \<Rightarrow> {#f#})
       + open_callbacks (c\<lparr>newRequests := rs\<rparr>)"
proof -
  let ?c = "c\<lparr>newRequests := rs\<rparr>"
  have sets: "sent ?c = sent c" "travelling ?c = travelling c"
    by (simp_all add: sent_def travelling_def)
  show "wf_client ?c"
    using wf unfolding wf_client_def sets by (simp add: new)
  have "r \<notin> set rs" using wf new by (simp add: wf_client_def)
  moreover have "r \<notin> sent c" using wf_new_requests [OF wf] new by simp
  ultimately have owners: "owners ?c = owners c - {(r, f) |f. True}"
    using new by (auto simp: owners_def live_def sent_def)
  show "open_callbacks c = (case rq_callback (heap c r) of None \<Rightarrow> {#} | Some f \<Rightarrow> {#f#})
       + open_callbacks ?c"
  proof (cases "rq_callback (heap c r)")
    case None
    then have "owners ?c = owners c" unfolding owners by (auto simp: owners_def)
    with None show ?thesis by (simp add: open_callbacks_def)
  next
    case (Some f)
    then have "(r, f) \<in> owners c" "owners ?c = owners c - {(r, f)}"
      unfolding owners using new by (auto simp: owners_def live_def)
    from owners_remove [OF this] Some show ?thesis by (simp add: open_callbacks_def)
  qed
qed

lemma view_sent_state: "view (c\<lparr>nextRef := n\<rparr>) = view c"
  by simp

text \<open>Repeating a request. The accounts are kept unless the repetition fails.\<close>

lemma transmit_again_balanced:
  assumes wf: "wf_client c" and head: "retransmitRequests c = r # rs"
    and res: "transmit_again cfg errno now r c = (t, c')"
  shows "wf_client c'"
    "errno = None \<or> errno = Some (cfg_EAGAIN cfg) \<Longrightarrow> balanced c (exception_events t) c'"
proof -
  have r_sent: "r \<in> sent c" "r \<in> travelling c" using head by (simp_all add: sent_def travelling_def)
  have r: "r < allocated c" "r \<notin> set (newRequests c)" using wf_sent [OF wf r_sent(1)] by auto
  have "wf_client c' \<and>
    (errno = None \<or> errno = Some (cfg_EAGAIN cfg) \<longrightarrow> balanced c (exception_events t) c')"
  proof (cases "rq_successOrTimeout (heap c r)")
    case True
    with res have "c' = removeRequest r c" "exception_events t = []"
      by (auto simp: transmit_again_def)
    with removeRequest_wf [OF wf wf_success [OF wf r_sent(1) True]] show ?thesis
      by (simp add: balanced_def)
  next
    case False
    show ?thesis
    proof (cases rule: trySendRequest_cases [of cfg errno now r c])
      case (again q)
      then have c': "c' = set_request r q c" "exception_events t = []"
        using res False by (auto simp: transmit_again_def)
      have "view c' = view c" using again by (simp add: c' view_set_request)
      from balanced_view [OF wf this] show ?thesis by (simp add: c' balanced_def)
    next
      case (failed e q)
      then have c': "c' = (set_request r q c)\<lparr>retransmitRequests := tl (retransmitRequests (set_request r q c))\<rparr>"
        using res False by (auto simp: transmit_again_def)
      have "wf_client (set_request r q c)"
        using failed wf_view [of "set_request r q c" c] wf by (simp add: view_set_request)
      from drop_retransmit_wf(1) [OF this] failed(5,6) show ?thesis unfolding c' by simp
    next
      case (sent q refs first last)
      define d where "d = c\<lparr>retransmitRequests := rs\<rparr>"
      have wf_d: "wf_client d" "open_callbacks d = open_callbacks c"
        using drop_retransmit_wf [OF wf] by (simp_all add: d_def head)
      have c': "c' = (set_request r q d)\<lparr>nextRef := nextRef c + 1, refToRequest := refs,
          requestsByFirstTransmission := first, requestsByLastTransmission := last\<rparr>"
          "exception_events t = []"
        using res False sent(2) by (auto simp: transmit_again_def d_def head set_request_def)
      have in_first: "r \<in> set (requestsByFirstTransmission c)" if "rq_callback q \<noteq> None"
        using wf_travelling [OF wf r_sent(2)] that sent(3) by simp
      have first: "set first = set (requestsByFirstTransmission c) \<or>
          set first = insert r (set (requestsByFirstTransmission c))"
        using sent(14) by auto
      have "wf_client c'"
        unfolding c'
      proof (rule after_sent_wf [OF wf_d(1)])
        show "r < allocated d" "r \<notin> set (newRequests d)" using r by (simp_all add: d_def)
        show "r \<notin> set (requestsByLastTransmission d)" "r \<notin> set (retransmitRequests d)"
          using wf_distinct [OF wf] head by (simp_all add: d_def)
        show "rq_callback q \<noteq> None \<Longrightarrow> r \<in> set first" using in_first first by auto
        show "set (requestsByFirstTransmission d) \<subseteq> set first"
          "set first \<subseteq> insert r (set (requestsByFirstTransmission d))"
          using first by (auto simp: d_def)
        show "mset last = add_mset r (mset (requestsByLastTransmission d))"
          using sent(15) by (simp add: d_def)
        show "refs = (if refToRequest d (nextRef d) = None then (refToRequest d)(nextRef d \<mapsto> r)
            else refToRequest d)"
          using sent(13) by (simp add: d_def)
        show "rq_sendTime q = emplace_time (nextRef d) now (rq_sendTime (heap d r))"
          using sent(12) by (simp add: d_def)
        show "rq_successOrTimeout q \<Longrightarrow> rq_callback q = None" using False sent(4) by simp
      qed
      moreover have "owners c' = owners c"
        using in_first first sent(3)
        by (auto simp: owners_def live_def c' d_def split: if_splits)
      then have "open_callbacks c' = open_callbacks c"
        by (simp add: open_callbacks_def) (simp add: c' d_def)
      ultimately show ?thesis by (simp add: balanced_def c'(2))
    qed
  qed
  then show "wf_client c'"
    "errno = None \<or> errno = Some (cfg_EAGAIN cfg) \<Longrightarrow> balanced c (exception_events t) c'" by auto
qed

text \<open>Sending a new request; it is dropped from the queue, and its callback is answered or kept.\<close>

abbreviation callback_mset :: "nat option \<Rightarrow> nat multiset" where
  "callback_mset cb \<equiv> (case cb of None \<Rightarrow> {#} | Some f \<Rightarrow> {#f#})"

lemma wf_no_callback:
  assumes "wf_client c"
  shows "wf_client (set_request r ((heap c r)\<lparr>rq_callback := None\<rparr>) c)"
  by (rule wf_fewer_callbacks [OF assms]) auto

lemma transmit_new_balanced:
  assumes wf: "wf_client c" and head: "newRequests c = r # rs"
    and res: "transmit_new cfg off errno now r c = (t, c')"
  shows "balanced c (exception_events t) c'"
proof -
  define d where "d = c\<lparr>newRequests := rs\<rparr>"
  let ?cb = "rq_callback (heap c r)"
  note drop = drop_new_wf [OF wf head, folded d_def]
  have r: "r < allocated c" "rq_sendTime (heap c r) = []" "r \<notin> sent c" "r \<notin> set rs"
    using wf_new_requests [OF wf, of r] wf by (auto simp: head wf_client_def)
  then have d: "r < allocated d" "r \<notin> set (newRequests d)" "r \<notin> live d" "r \<notin> sent d"
    by (auto simp: d_def live_def sent_def)
  have dead: "balanced c ev c''"
    if "view c'' = view (set_request r q d)" "mset (map event_callback ev) = callback_mset ?cb"
      "rq_sendTime q = []" "rq_successOrTimeout q = rq_successOrTimeout (heap c r)"
      "rq_callback q = ?cb \<or> rq_callback q = None" for c'' ev q
  proof -
    have "wf_client (set_request r q d)"
      by (rule wf_fewer_callbacks [OF drop(1)]) (use that(3-5) r(2) in \<open>auto simp: d_def\<close>)
    moreover have "owners (set_request r q d) = owners d"
      using d(3) by (auto simp: owners_def live_def split: if_splits)
    then have "open_callbacks (set_request r q d) = open_callbacks d"
      by (simp add: open_callbacks_def)
    ultimately show ?thesis
      using wf_view [OF that(1)] open_callbacks_view [OF that(1)] drop(2) that(2)
      by (simp add: balanced_def)
  qed
  show ?thesis
  proof (cases rule: trySendRequest_cases [of cfg errno now r c])
    case (again q)
    show ?thesis
    proof (cases off)
      case False
      then have c': "c' = set_request r q c" "exception_events t = []"
        using res again by (auto simp: transmit_new_def)
      have "view c' = view c" using again by (simp add: c' view_set_request)
      from balanced_view [OF wf this] show ?thesis by (simp add: c')
    next
      case True
      have "c' = set_request r (q\<lparr>rq_callback := None\<rparr>) d"
        and t: "sendException t = Some PeerOfflineException" "sendExceptionCallback t = ?cb"
        using res again True by (auto simp: transmit_new_def d_def set_request_def head)
      then show ?thesis
        using again r(2) exception_events_callbacks [OF t(1)]
        by (intro dead [of _ "q\<lparr>rq_callback := None\<rparr>"]) (auto split: option.split)
    qed
  next
    case (failed e q)
    have "c' = set_request r q d"
      and t: "sendException t = Some (SendException e)" "sendExceptionCallback t = ?cb"
      using res failed by (auto simp: transmit_new_def d_def set_request_def head)
    then show ?thesis
      using failed r(2) exception_events_callbacks [OF t(1)]
      by (intro dead [of _ q]) (auto split: option.split)
  next
    case (sent q refs first last)
    define c2 where "c2 = (set_request r q d)\<lparr>nextRef := nextRef c + 1, refToRequest := refs,
        requestsByFirstTransmission := first, requestsByLastTransmission := last\<rparr>"
    have first: "set first = insert r (set (requestsByFirstTransmission c))"
      using sent(14) r(2) by simp
    have success: "rq_successOrTimeout (heap c r) \<Longrightarrow> ?cb = None"
      using wf_success_new [OF wf, of r] head by simp
    have wf2: "wf_client c2"
      unfolding c2_def
    proof (rule after_sent_wf [OF drop(1) d(1,2)])
      show "r \<notin> set (requestsByLastTransmission d)" "r \<notin> set (retransmitRequests d)"
        using d(4) by (simp_all add: sent_def)
      show "mset last = add_mset r (mset (requestsByLastTransmission d))"
        using sent(15) by (simp add: d_def)
      show "refs = (if refToRequest d (nextRef d) = None then (refToRequest d)(nextRef d \<mapsto> r)
          else refToRequest d)"
        using sent(13) by (simp add: d_def)
      show "rq_sendTime q = emplace_time (nextRef d) now (rq_sendTime (heap d r))"
        using sent(12) by (simp add: d_def)
      show "rq_successOrTimeout q \<Longrightarrow> rq_callback q = None" using success sent(3,4) by simp
    qed (auto simp: first d_def)
    show ?thesis
    proof (cases off)
      case False
      then have c': "c' = c2" "exception_events t = []"
        using res sent(2) by (auto simp: transmit_new_def c2_def d_def set_request_def head)
      have owners: "owners c2 = (case ?cb of None \<Rightarrow> {} | Some f \<Rightarrow> {(r, f)}) \<union> owners d"
        using first d(3) sent(3)
        by (auto simp: owners_def live_def c2_def d_def split: option.splits if_splits)
      have "open_callbacks c2 = callback_mset ?cb + open_callbacks d"
      proof (cases ?cb)
        case (Some f)
        then have "owners c2 = insert (r, f) (owners d)" using owners by simp
        moreover have "(r, f) \<notin> owners d" using d(3) by (simp add: owners_def)
        ultimately show ?thesis
          using owners_insert Some by (simp add: open_callbacks_def) (simp add: c2_def d_def)
      qed (use owners in \<open>simp add: open_callbacks_def; simp add: c2_def d_def\<close>)
      with drop(2) wf2 show ?thesis by (simp add: balanced_def c')
    next
      case True
      have c': "c' = set_request r (q\<lparr>rq_callback := None\<rparr>) c2"
        and t: "sendException t = Some PeerOfflineException" "sendExceptionCallback t = ?cb"
        using res sent(2,3) True by (auto simp: transmit_new_def c2_def d_def set_request_def head)
      have "wf_client c'"
        using wf_no_callback [OF wf2, of r] by (simp add: c' c2_def)
      moreover have "owners c' = owners d"
        using first d(3) by (auto simp: owners_def live_def c' c2_def d_def split: if_splits)
      then have "open_callbacks c' = open_callbacks d"
        by (simp add: open_callbacks_def) (simp add: c' c2_def d_def)
      ultimately show ?thesis
        using drop(2) exception_events_callbacks [OF t(1)] t(2)
        by (auto simp: balanced_def split: option.splits)
    qed
  qed
qed

lemma erase_time_map: "map_of (erase_time ref m) x = (if x = ref then None else map_of m x)"
  by (induction m) (auto simp: erase_time_def)

text \<open>A reply takes its reference number out of the maps.\<close>

lemma forget_ref_wf:
  assumes wf: "wf_client c" and ref: "refToRequest c ref = Some r"
    and q: "rq_callback q = rq_callback (heap c r)"
      "rq_successOrTimeout q = rq_successOrTimeout (heap c r)"
      "rq_sendTime q = erase_time ref (rq_sendTime (heap c r)) \<or> rq_sendTime q = rq_sendTime (heap c r)"
  shows "wf_client ((set_request r q c)\<lparr>refToRequest := (refToRequest c)(ref := None)\<rparr>)" (is "wf_client ?c")
    and "open_callbacks ((set_request r q c)\<lparr>refToRequest := (refToRequest c)(ref := None)\<rparr>)
      = open_callbacks c"
proof -
  have r: "r \<in> sent c" using ref by (auto simp: sent_def ran_def)
  have ran: "ran ((refToRequest c)(ref := None)) \<subseteq> ran (refToRequest c)"
    by (auto simp: ran_def)
  have sets: "sent ?c \<subseteq> sent c" "travelling ?c \<subseteq> travelling c"
    using ran by (auto simp: sent_def travelling_def)
  have cb: "rq_callback (heap ?c x) = rq_callback (heap c x)"
    "rq_successOrTimeout (heap ?c x) = rq_successOrTimeout (heap c x)" for x
    using q by simp_all
  have refs: "map_of (rq_sendTime (heap ?c x)) ref' \<noteq> None" if "refToRequest ?c ref' = Some x" for ref' x
  proof -
    from that have "ref' \<noteq> ref" "refToRequest c ref' = Some x" by (auto split: if_splits)
    with wf_refs [OF wf] q(3) show ?thesis by (auto simp: erase_time_map)
  qed
  have new: "rq_sendTime (heap ?c x) = []" if "x \<in> set (newRequests ?c)" for x
    using wf_new_requests [OF wf, of x] r that by auto
  have same: "newRequests ?c = newRequests c" "allocated ?c = allocated c"
    "requestsByFirstTransmission ?c = requestsByFirstTransmission c"
    "requestsByLastTransmission ?c = requestsByLastTransmission c"
    "retransmitRequests ?c = retransmitRequests c"
    by simp_all
  show "wf_client ?c"
    unfolding wf_client_def same cb
    using wf sets refs new unfolding wf_client_def same by blast
  have "owners ?c = owners c"
    unfolding owners_def live_def same cb by blast
  then show "open_callbacks ?c = open_callbacks c"
    by (simp add: open_callbacks_def)
qed

lemma complete_request_cases:
  fixes c r
  defines "c1 \<equiv> set_request r ((heap c r)\<lparr>rq_callback := None, rq_successOrTimeout := True\<rparr>) c"
  shows "complete_request ref r c = (None, c) \<or> complete_request ref r c = (rq_callback (heap c r), c1)
    \<or> complete_request ref r c = (rq_callback (heap c r), removeRequest r c1)"
  by (simp add: complete_request_def Let_def c1_def)

lemma complete_request_balanced:
  assumes wf: "wf_client c"
    and live: "rq_callback (heap c r) \<noteq> None \<Longrightarrow> r \<in> set (requestsByFirstTransmission c)"
    and res: "complete_request ref r c = (cb, c')"
  shows "wf_client c'" "open_callbacks c = callback_mset cb + open_callbacks c'"
proof -
  let ?c1 = "set_request r ((heap c r)\<lparr>rq_callback := None, rq_successOrTimeout := True\<rparr>) c"
  have wf1: "wf_client ?c1"
    by (rule wf_fewer_callbacks [OF wf]) auto
  have owners: "owners ?c1 = owners c - {(r, f) |f. True}"
    by (auto simp: owners_def live_def split: if_splits)
  have open1: "open_callbacks c = callback_mset (rq_callback (heap c r)) + open_callbacks ?c1"
  proof (cases "rq_callback (heap c r)")
    case None
    then have "owners ?c1 = owners c" unfolding owners by (auto simp: owners_def)
    with None show ?thesis by (simp add: open_callbacks_def)
  next
    case (Some f)
    then have "(r, f) \<in> owners c" "owners ?c1 = owners c - {(r, f)}"
      unfolding owners using live by (auto simp: owners_def live_def)
    from owners_remove [OF this] Some show ?thesis by (simp add: open_callbacks_def)
  qed
  have "rq_callback (heap ?c1 r) = None" by simp
  note rem = removeRequest_wf [OF wf1 this]
  consider "cb = None" "c' = c" | "cb = rq_callback (heap c r)" "c' = ?c1"
    | "cb = rq_callback (heap c r)" "c' = removeRequest r ?c1"
    using complete_request_cases [of ref r c] unfolding res by fast
  then have "wf_client c' \<and> open_callbacks c = callback_mset cb + open_callbacks c'"
    by cases (use wf wf1 open1 rem in auto)
  then show "wf_client c'" "open_callbacks c = callback_mset cb + open_callbacks c'" by auto
qed

lemma erase_time_absent: "map_of m ref = None \<Longrightarrow> erase_time ref m = m"
  by (force simp: erase_time_def filter_id_conv map_of_eq_None_iff)

text \<open>A request whose entry for the number is erased.\<close>

abbreviation without_ref :: "u32 \<Rightarrow> Request \<Rightarrow> Request" where
  "without_ref ref q \<equiv> q\<lparr>rq_sendTime := erase_time ref (rq_sendTime q)\<rparr>"

lemma view_without_ref:
  assumes "view c' = view c"
  shows "view (set_request r (without_ref ref (heap c' r)) c') = view (set_request r (without_ref ref (heap c r)) c)"
  using view_fields [OF assms] by (simp add: view_def fun_eq_iff)

lemma note_reply_view:
  "view (note_reply cfg t ref r c) = view (set_request r (without_ref ref (heap c r)) c)"
proof (cases "map_of (rq_sendTime (heap c r)) ref")
  case None
  then show ?thesis by (simp add: note_reply_def erase_time_absent view_set_request)
next
  case (Some s)
  let ?c = "note_retransmission ref r (note_spurious ref r (note_order ref (t - s) s (updateRoundTripTime cfg (t - s) c)))"
  have "view ?c = view c" by simp
  from view_without_ref [OF this] show ?thesis by (simp add: note_reply_def Some Let_def)
qed

lemma handle_reply_balanced:
  assumes wf: "wf_client c" and res: "handle_reply cfg t packet c = (cb, c')"
  shows "wf_client c'" "open_callbacks c = callback_mset cb + open_callbacks c'"
proof -
  let ?ref = "getRef (cfg_byteOrder cfg) packet"
  have "wf_client c' \<and> open_callbacks c = callback_mset cb + open_callbacks c'"
  proof (cases "refToRequest c ?ref")
    case None
    with wf res show ?thesis by (simp add: handle_reply_def Let_def)
  next
    case (Some r)
    define c2 where "c2 = grow_congestionWindow r
      (c\<lparr>consecutiveRequestTimeoutsCount := 0, retransmissionTimeoutMultiplier := 1\<rparr>)"
    define c3 where "c3 = c2\<lparr>refToRequest := (refToRequest c2)(?ref := None)\<rparr>"
    define d where "d = (set_request r (without_ref ?ref (heap c r)) c)
      \<lparr>refToRequest := (refToRequest c)(?ref := None)\<rparr>"
    have view: "view c2 = view c" by (simp add: c2_def)
    have d: "wf_client d" "open_callbacks d = open_callbacks c"
      unfolding d_def by (rule forget_ref_wf [OF wf Some]; simp)+
    have "view (set_request r (without_ref ?ref (heap c3 r)) c3) = view d"
      using view_fields [OF view] by (simp add: view_def c3_def d_def fun_eq_iff)
    then have noted: "view (note_reply cfg t ?ref r c3) = view d"
      by (simp add: note_reply_view)
    let ?n = "note_reply cfg t ?ref r c3"
    have r: "r \<in> sent c" "r \<in> travelling c" using Some by (auto simp: sent_def travelling_def ran_def)
    have fields: "rq_callback (heap ?n r) = rq_callback (heap c r)"
      "requestsByFirstTransmission ?n = requestsByFirstTransmission c"
      using view_fields [OF noted] by (simp_all add: d_def)
    have res': "complete_request ?ref r ?n = (cb, c')"
      using res by (simp add: handle_reply_def Let_def Some c2_def c3_def)
    have live: "r \<in> set (requestsByFirstTransmission ?n)" if "rq_callback (heap ?n r) \<noteq> None"
      using wf_travelling [OF wf r(2)] that fields by simp
    have wf_n: "wf_client ?n" "open_callbacks ?n = open_callbacks c"
      using wf_view [OF noted] open_callbacks_view [OF noted] d by simp_all
    from complete_request_balanced [OF wf_n(1) live res'] wf_n(2) show ?thesis by simp
  qed
  then show "wf_client c'" "open_callbacks c = callback_mset cb + open_callbacks c'" by auto
qed


section \<open>The rounds of the threads keep the accounts\<close>

lemma balanced_trans:
  "balanced c ev c' \<Longrightarrow> balanced c' ev' c'' \<Longrightarrow> balanced c (ev @ ev') c''"
  by (simp add: balanced_def ac_simps)

lemma receive_round_balanced:
  assumes wf: "wf_client c" and res: "receive_round cfg n result t c = (n', stop, ev, c')"
  shows "balanced c ev c'"
proof (cases "receive (cfg_byteOrder cfg) result")
  case (Inl e)
  with wf res show ?thesis
    by (auto simp: receive_round_def balanced_def split: receive_error.splits if_splits)
next
  case (Inr packet)
  obtain cb d where h: "handle_reply cfg t packet c = (cb, d)" by fastforce
  have ev: "c' = d" "mset (map event_callback ev) = callback_mset cb"
    using res by (auto simp: receive_round_def Inr h split: option.splits)
  with handle_reply_balanced [OF wf h] show ?thesis by (simp add: balanced_def)
qed

lemma transmit_again_kept:
  assumes wf: "wf_client c" and head: "retransmitRequests c = r # rs"
    and res: "transmit_again cfg errno now r c = (t, c')"
  shows "open_callbacks c \<subseteq># mset (map event_callback (exception_events t)) + open_callbacks c'"
proof (cases "(errno = None \<or> errno = Some (cfg_EAGAIN cfg)) \<or> rq_successOrTimeout (heap c r)")
  case True
  then have "balanced c (exception_events t) c'"
  proof
    assume done1: "rq_successOrTimeout (heap c r)"
    have "transmit_again cfg None now r c = (t, c')"
      using res done1 by (simp add: transmit_again_def)
    from transmit_again_balanced(2) [OF wf head this] show ?thesis by simp
  qed (rule transmit_again_balanced(2) [OF wf head res])
  then show ?thesis by (simp add: balanced_def)
next
  case False
  show ?thesis
  proof (cases rule: trySendRequest_cases [of cfg errno now r c])
    case (failed e q)
    then have c': "c' = (set_request r q c)\<lparr>retransmitRequests := tl (retransmitRequests (set_request r q c))\<rparr>"
      using res False by (auto simp: transmit_again_def)
    have same: "view (set_request r q c) = view c" using failed by (simp add: view_set_request)
    have "open_callbacks c' = open_callbacks (set_request r q c)"
      by (simp add: c' open_callbacks_def owners_def live_def)
    with open_callbacks_view [OF same] show ?thesis by simp
  qed (use False in auto)
qed

lemma transmit_balanced:
  assumes wf: "wf_client c" and res: "transmit cfg errno now c = (t, c')"
  shows "wf_client c'"
    "open_callbacks c \<subseteq># mset (map event_callback (exception_events t)) + open_callbacks c'"
    "errno = None \<or> errno = Some (cfg_EAGAIN cfg) \<or> retransmitRequests c = []
      \<Longrightarrow> balanced c (exception_events t) c'"
proof -
  have "wf_client c' \<and> open_callbacks c \<subseteq># mset (map event_callback (exception_events t)) + open_callbacks c'
    \<and> (errno = None \<or> errno = Some (cfg_EAGAIN cfg) \<or> retransmitRequests c = []
      \<longrightarrow> balanced c (exception_events t) c')"
  proof (cases "congestionWindow c > length (requestsByLastTransmission c)")
    case window: True
    show ?thesis
    proof (cases "retransmitRequests c")
      case (Cons r rs)
      have "transmit_again cfg errno now r c = (t, c')"
        using res window Cons by (simp add: transmit_def)
      from transmit_again_balanced [OF wf Cons this] transmit_again_kept [OF wf Cons this] Cons
      show ?thesis by auto
    next
      case Nil
      have "balanced c (exception_events t) c'"
      proof (cases "newRequests c")
        case (Cons r rs)
        have "transmit_new cfg (is_offline c) errno now r c = (t, c')"
          using res window Nil Cons by (simp add: transmit_def)
        from transmit_new_balanced [OF wf Cons this] show ?thesis .
      qed (use res window Nil wf in \<open>auto simp: transmit_def balanced_def no_transmission_def exception_events_def\<close>)
      then show ?thesis by (auto simp: balanced_def)
    qed
  next
    case False
    have "balanced c (exception_events t) c'"
    proof (cases "is_offline c \<and> newRequests c \<noteq> []")
      case True
      then obtain r rs where new: "newRequests c = r # rs" by (cases "newRequests c") auto
      have "c' = c\<lparr>newRequests := rs\<rparr>"
        and t: "sendException t = Some PeerOfflineException" "sendExceptionCallback t = rq_callback (heap c r)"
        using res False True new by (auto simp: transmit_def)
      with drop_new_wf [OF wf new] exception_events_callbacks [OF t(1)] show ?thesis
        by (simp add: balanced_def split: option.splits)
    qed (use res False wf in \<open>auto simp: transmit_def balanced_def no_transmission_def exception_events_def\<close>)
    then show ?thesis by (auto simp: balanced_def)
  qed
  then show "wf_client c'"
    "open_callbacks c \<subseteq># mset (map event_callback (exception_events t)) + open_callbacks c'"
    "errno = None \<or> errno = Some (cfg_EAGAIN cfg) \<or> retransmitRequests c = []
      \<Longrightarrow> balanced c (exception_events t) c'" by auto
qed

lemma take_timeouts:
  assumes "wf_client c"
  shows "wf_client (c\<lparr>timeoutCallbacks := []\<rparr>)"
    "open_callbacks c = mset (List.map_filter id (timeoutCallbacks c)) + open_callbacks (c\<lparr>timeoutCallbacks := []\<rparr>)"
proof -
  show "wf_client (c\<lparr>timeoutCallbacks := []\<rparr>)"
    by (rule wf_fewer_callbacks [OF assms]) simp_all
  show "open_callbacks c = mset (List.map_filter id (timeoutCallbacks c)) + open_callbacks (c\<lparr>timeoutCallbacks := []\<rparr>)"
    by (simp add: open_callbacks_def owners_def live_def List.map_filter_def)
qed

lemma map_event_callback_TimedOut [simp]: "map (event_callback \<circ> TimedOut) fs = fs"
  by (induction fs) auto


text \<open>
  What the environment does to the packets that are repeated: a repetition with an error other than
  \<^verbatim>\<open>EAGAIN\<close> notifies the callback and keeps it.
\<close>

definition resends :: "Config \<Rightarrow> time \<Rightarrow> Client \<Rightarrow> bool" where
  "resends cfg now c \<longleftrightarrow> retransmitRequests (fst (checkSentRequests cfg now c)) \<noteq> []"

lemma send_round_balanced:
  assumes wf: "wf_client c" and res: "send_round cfg now1 errno now2 now3 c = (d, ev, bs, c')"
  shows "wf_client c'" "open_callbacks c \<subseteq># mset (map event_callback ev) + open_callbacks c'"
    "errno = None \<or> errno = Some (cfg_EAGAIN cfg) \<or> \<not> resends cfg now1 c \<Longrightarrow> balanced c ev c'"
proof -
  obtain c1 n where 1: "checkSentRequests cfg now1 c = (c1, n)" by fastforce
  obtain t c3 where 3: "transmit cfg errno now2 (c1\<lparr>timeoutCallbacks := []\<rparr>) = (t, c3)" by fastforce
  have acc: "wf_client c1" "open_callbacks c1 = open_callbacks c"
    using checkSentRequests_accounts [OF wf, of cfg now1] by (simp_all add: accounts_def 1)
  note taken = take_timeouts [OF acc(1)]
  have ev: "ev = exception_events t @ map TimedOut (List.map_filter id (timeoutCallbacks c1))" "c' = c3"
    using res by (simp_all add: send_round_def 1 3)
  have told: "mset (map event_callback ev) = mset (map event_callback (exception_events t))
      + mset (List.map_filter id (timeoutCallbacks c1))"
    by (simp add: ev)
  note tr = transmit_balanced [OF taken(1) 3]
  show "wf_client c'" using tr(1) ev by simp
  show "open_callbacks c \<subseteq># mset (map event_callback ev) + open_callbacks c'"
    using tr(2) unfolding told ev acc(2) [symmetric] taken(2)
    by (simp add: ac_simps)
  assume "errno = None \<or> errno = Some (cfg_EAGAIN cfg) \<or> \<not> resends cfg now1 c"
  then have "balanced (c1\<lparr>timeoutCallbacks := []\<rparr>) (exception_events t) c3"
    using tr(3) by (simp add: resends_def 1)
  then show "balanced c ev c'"
    using taken(2) acc(2) unfolding balanced_def told ev by (simp add: ac_simps)
qed

text \<open>A new request adds its callback to those that are open.\<close>

lemma queue_request_balanced:
  assumes wf: "wf_client c" and res: "c' = queue_request cfg raw now ty addr data idem cb c"
  shows "wf_client c'" "open_callbacks c' = callback_mset cb + open_callbacks c"
proof -
  let ?r = "allocated c"
  define q where "q = new_Request (cfg_byteOrder cfg) raw cb ty addr data idem now"
  have q: "rq_callback q = cb" "rq_successOrTimeout q = False" "rq_sendTime q = []"
    by (simp_all add: q_def new_Request_def)
  have c': "c' = (set_request ?r q c)\<lparr>allocated := ?r + 1, newRequests := newRequests c @ [?r]\<rparr>"
    by (simp add: res queue_request_def q_def)
  have old: "x < ?r" if "x \<in> sent c \<union> set (newRequests c)" for x
    using that wf_sent [OF wf] wf_new_requests [OF wf] by blast
  have trav: "travelling c \<subseteq> sent c" by (auto simp: sent_def travelling_def)
  have sets: "sent c' = sent c" "travelling c' = travelling c"
    by (simp_all add: c' sent_def travelling_def)
  have heap: "heap c' x = heap c x" if "x \<in> sent c \<union> set (newRequests c)" for x
    using old [OF that] by (simp add: c')
  have same: "requestsByFirstTransmission c' = requestsByFirstTransmission c"
    "requestsByLastTransmission c' = requestsByLastTransmission c"
    "retransmitRequests c' = retransmitRequests c" "refToRequest c' = refToRequest c"
    "newRequests c' = newRequests c @ [?r]" "allocated c' = ?r + 1" "heap c' ?r = q"
    "timeoutCallbacks c' = timeoutCallbacks c"
    by (simp_all add: c')
  show "wf_client c'"
    unfolding wf_client_def sets same
  proof (intro conjI ballI allI impI)
    show "distinct (newRequests c @ [?r])"
      using wf old [of ?r] by (auto simp: wf_client_def)
  next
    fix x assume x: "x \<in> set (newRequests c @ [?r])"
    show "x < ?r + 1" "rq_sendTime (heap c' x) = []"
      using x old [of x] heap [of x] wf_new_requests [OF wf, of x] q(3) same(7) by fastforce+
  next
    fix x assume x: "x \<in> sent c"
    show "x < ?r + 1" "x \<notin> set (newRequests c @ [?r])"
      using old [of x] wf_sent [OF wf x] x by auto
  next
    fix x assume x: "x \<in> travelling c" "rq_callback (heap c' x) \<noteq> None"
    then show "x \<in> set (requestsByFirstTransmission c)"
      using heap [of x] trav wf_travelling [OF wf, of x] by auto
  next
    fix x assume x: "x \<in> sent c \<union> set (newRequests c @ [?r])" "rq_successOrTimeout (heap c' x)"
    then have "x \<noteq> ?r" using q same(7) by auto
    with x have "x \<in> sent c \<union> set (newRequests c)" by simp
    with x(2) heap [OF this] show "rq_callback (heap c' x) = None"
      using wf_success [OF wf, of x] wf_success_new [OF wf, of x] by auto
  next
    show "distinct (requestsByLastTransmission c @ retransmitRequests c)" by (rule wf_distinct [OF wf])
  next
    fix ref x assume x: "refToRequest c ref = Some x"
    then have "x \<in> sent c" by (auto simp: sent_def ran_def)
    with heap [of x] show "map_of (rq_sendTime (heap c' x)) ref \<noteq> None"
      using wf_refs [OF wf x] by simp
  qed
  have lives: "live c' = insert ?r (live c)" "?r \<notin> live c" "\<And>x. x \<in> live c \<Longrightarrow> heap c' x = heap c x"
    using old [of ?r] heap by (auto simp: live_def same sent_def)
  show "open_callbacks c' = callback_mset cb + open_callbacks c"
  proof (cases cb)
    case None
    then have "owners c' = owners c" using lives q(1) same(7) by (auto simp: owners_def)
    with None show ?thesis by (simp add: open_callbacks_def same)
  next
    case (Some f)
    then have "owners c' = insert (?r, f) (owners c)" "(?r, f) \<notin> owners c"
      using lives q(1) same(7) by (auto simp: owners_def)
    with owners_insert [OF this(2) this(1)] Some show ?thesis by (simp add: open_callbacks_def same)
  qed
qed

end
