(* ===== verification/UdpClient_Times.thy ===== *)
theory UdpClient_Times
  imports "HOL-Library.Sublist" UdpClient_Proofs
begin

text \<open>
  The times of the requests of the UDP/IP client: the orders of its two multisets by time, and what
  the checks for expired requests leave.
\<close>

section \<open>The times that the checks do not change\<close>

definition send_stamps where
  "send_stamps c = (\<lambda>r. (rq_firstSendTime (heap c r), rq_lastSendTime (heap c r), rq_lastRef (heap c r),
     rq_sendTime (heap c r), rq_queueTime (heap c r)))"

lemma send_stamps_fields:
  assumes "send_stamps c' = send_stamps c"
  shows "firstSendTime c' = firstSendTime c" "lastSendTime c' = lastSendTime c"
    "rq_lastRef (heap c' r) = rq_lastRef (heap c r)" "rq_sendTime (heap c' r) = rq_sendTime (heap c r)"
    "rq_queueTime (heap c' r) = rq_queueTime (heap c r)"
  using assms by (auto simp: send_stamps_def firstSendTime_def lastSendTime_def fun_eq_iff)

lemma send_stamps_heap: "heap c' = heap c \<Longrightarrow> send_stamps c' = send_stamps c"
  by (simp add: send_stamps_def)

lemma send_stamps_set_request:
  "rq_firstSendTime q = rq_firstSendTime (heap c r) \<Longrightarrow> rq_lastSendTime q = rq_lastSendTime (heap c r)
    \<Longrightarrow> rq_lastRef q = rq_lastRef (heap c r) \<Longrightarrow> rq_sendTime q = rq_sendTime (heap c r)
    \<Longrightarrow> rq_queueTime q = rq_queueTime (heap c r) \<Longrightarrow> send_stamps (set_request r q c) = send_stamps c"
  by (auto simp: send_stamps_def fun_eq_iff)

lemma send_stamps_mark_in_flight [simp]: "send_stamps (mark_in_flight c) = send_stamps c"
proof -
  have "send_stamps (fold (\<lambda>r c. set_request r ((heap c r)\<lparr>rq_congestionWindowResetAfterSent := True\<rparr>) c) rs c)
      = send_stamps c" for rs
    by (induction rs arbitrary: c) (simp_all add: send_stamps_set_request)
  then show ?thesis by (simp add: mark_in_flight_def)
qed

lemma send_stamps_updates [simp]:
  "send_stamps (c\<lparr>congestionWindow := a\<rparr>) = send_stamps c"
  "send_stamps (c\<lparr>congestionWindowIncrementCounter := i\<rparr>) = send_stamps c"
  "send_stamps (c\<lparr>slowStartThreshold := i\<rparr>) = send_stamps c"
  "send_stamps (c\<lparr>consecutiveLossesCount := u\<rparr>) = send_stamps c"
  "send_stamps (c\<lparr>consecutiveLossesFirstRef := u\<rparr>) = send_stamps c"
  "send_stamps (c\<lparr>consecutiveRequestTimeoutsCount := i\<rparr>) = send_stamps c"
  "send_stamps (c\<lparr>retransmissionTimeoutMultiplier := u\<rparr>) = send_stamps c"
  "send_stamps (c\<lparr>smoothedRoundTripTime := i\<rparr>) = send_stamps c"
  "send_stamps (c\<lparr>roundTripTimeVariation := i\<rparr>) = send_stamps c"
  "send_stamps (c\<lparr>lastReceivedRef := u\<rparr>) = send_stamps c"
  "send_stamps (c\<lparr>lastReceivedSendTime := i\<rparr>) = send_stamps c"
  "send_stamps (c\<lparr>lastReceivedRoundTripTime := i\<rparr>) = send_stamps c"
  "send_stamps (c\<lparr>reorderingWindowMultiplier := i\<rparr>) = send_stamps c"
  "send_stamps (c\<lparr>reorderingWindowMultiplierResetCounter := i\<rparr>) = send_stamps c"
  "send_stamps (c\<lparr>nextRef := u\<rparr>) = send_stamps c"
  "send_stamps (c\<lparr>refToRequest := m\<rparr>) = send_stamps c"
  "send_stamps (c\<lparr>requestsByLastTransmission := l\<rparr>) = send_stamps c"
  "send_stamps (c\<lparr>requestsByFirstTransmission := l\<rparr>) = send_stamps c"
  "send_stamps (c\<lparr>retransmitRequests := l\<rparr>) = send_stamps c"
  "send_stamps (c\<lparr>newRequests := l\<rparr>) = send_stamps c"
  "send_stamps (c\<lparr>timeoutCallbacks := ts\<rparr>) = send_stamps c"
  "send_stamps (removeRequest r c) = send_stamps c"
  by (simp_all add: send_stamps_def)

lemma send_stamps_checks [simp]:
  "send_stamps (count_loss ref c) = send_stamps c"
  "send_stamps (packetLossDetected cfg r c) = send_stamps c"
  "send_stamps (move_to_retransmit cfg r t c) = send_stamps c"
  "send_stamps (double_multiplier c) = send_stamps c"
  "send_stamps (move_callback_to_timeouts r c) = send_stamps c"
  "send_stamps (count_timeout c) = send_stamps c"
  "send_stamps (time_out_request r c) = send_stamps c"
  by (auto simp: count_loss_def packetLossDetected_def move_to_retransmit_def double_multiplier_def
      move_callback_to_timeouts_def count_timeout_def time_out_request_def Let_def send_stamps_set_request)


section \<open>Expired requests\<close>

lemma sorted_keys_filter: "sorted (map k xs) \<Longrightarrow> sorted (map k (filter P xs))"
  by (simp add: sorted_filter)

lemma sorted_keys_tl: "sorted (map k xs) \<Longrightarrow> sorted (map k (tl xs))"
  by (cases xs) auto

lemma sorted_insert_hint_end:
  assumes "sorted (map k xs)"
  shows "sorted (map k (insert_hint_end k r xs))"
proof -
  define T D where "T = takeWhile (\<lambda>x. k x \<le> k r) xs" and "D = dropWhile (\<lambda>x. k x \<le> k r) xs"
  have sD: "sorted (map k D)"
    using assms sorted_dropWhile [of "map k xs" "\<lambda>x. x \<le> k r"] by (simp add: D_def dropWhile_map o_def)
  have sT: "sorted (map k T)"
    using assms sorted_takeWhile [of "map k xs" "\<lambda>x. x \<le> k r"] by (simp add: T_def takeWhile_map o_def)
  have T: "k t \<le> k r" if "t \<in> set T" for t
    using that by (auto simp: T_def dest: set_takeWhileD)
  have D: "k r \<le> k d" if "d \<in> set D" for d
  proof (cases D)
    case (Cons y ys)
    then have "k r < k y" using hd_dropWhile [of "\<lambda>x. k x \<le> k r" xs] by (force simp: D_def)
    with sD that Cons show ?thesis by fastforce
  qed (use that in simp)
  have "sorted (map k (T @ r # D))"
    using sD sT T D by (fastforce simp: sorted_append)
  then show ?thesis by (simp add: insert_hint_end_def T_def D_def)
qed

lemma earlier_check_cases:
  assumes "0 < t" "0 \<le> n"
  shows "0 < earlier_check n t" "earlier_check n t \<le> t" "n \<noteq> 0 \<Longrightarrow> earlier_check n t \<le> n"
  using assms by (auto simp: earlier_check_def)

text \<open>The second loop leaves the requests that are still in time.\<close>

lemma time_out_request_fields [simp]:
  "requestsByLastTransmission (time_out_request r c) = requestsByLastTransmission c"
  "retransmitRequests (time_out_request r c) = retransmitRequests c"
  "newRequests (time_out_request r c) = newRequests c"
  "retransmissionTimeoutMultiplier (time_out_request r c) = retransmissionTimeoutMultiplier c"
  "rq_successOrTimeout (heap c x) \<Longrightarrow> rq_successOrTimeout (heap (time_out_request r c) x)"
  by (auto simp: time_out_request_def count_timeout_def move_callback_to_timeouts_def Let_def)

lemma firstSendTime_time_out [simp]: "firstSendTime (time_out_request r c) = firstSendTime c"
  by (rule send_stamps_fields(1)) simp

lemma check_first_result:
  assumes "check_first cfg now rs c n = (c', n')"
  shows "send_stamps c' = send_stamps c"
    "requestsByFirstTransmission c'
      = dropWhile (\<lambda>r. firstSendTime c r + cfg_requestTimeout cfg \<le> now) rs"
    "n' = (case requestsByFirstTransmission c' of [] \<Rightarrow> n
       | r # _ \<Rightarrow> earlier_check n (firstSendTime c r + cfg_requestTimeout cfg))"
    "requestsByLastTransmission c' = requestsByLastTransmission c"
    "retransmitRequests c' = retransmitRequests c"
    "newRequests c' = newRequests c"
    "retransmissionTimeoutMultiplier c' = retransmissionTimeoutMultiplier c"
    "\<And>x. rq_successOrTimeout (heap c x) \<Longrightarrow> rq_successOrTimeout (heap c' x)"
proof -
  have "send_stamps c' = send_stamps c
    \<and> requestsByFirstTransmission c'
      = dropWhile (\<lambda>r. firstSendTime c r + cfg_requestTimeout cfg \<le> now) rs
    \<and> n' = (case requestsByFirstTransmission c' of [] \<Rightarrow> n
       | r # _ \<Rightarrow> earlier_check n (firstSendTime c r + cfg_requestTimeout cfg))
    \<and> requestsByLastTransmission c' = requestsByLastTransmission c
    \<and> retransmitRequests c' = retransmitRequests c \<and> newRequests c' = newRequests c
    \<and> retransmissionTimeoutMultiplier c' = retransmissionTimeoutMultiplier c
    \<and> (\<forall>x. rq_successOrTimeout (heap c x) \<longrightarrow> rq_successOrTimeout (heap c' x))"
    using assms
  proof (induction rs arbitrary: c)
    case (Cons r rs)
    show ?case
    proof (cases "firstSendTime c r + cfg_requestTimeout cfg \<le> now")
      case True
      then have "check_first cfg now rs (time_out_request r c) n = (c', n')"
        using Cons.prems by simp
      from Cons.IH [OF this, unfolded firstSendTime_time_out] True
      show ?thesis by simp
    qed (use Cons.prems in auto)
  qed auto
  then show "send_stamps c' = send_stamps c"
    "requestsByFirstTransmission c'
      = dropWhile (\<lambda>r. firstSendTime c r + cfg_requestTimeout cfg \<le> now) rs"
    "n' = (case requestsByFirstTransmission c' of [] \<Rightarrow> n
       | r # _ \<Rightarrow> earlier_check n (firstSendTime c r + cfg_requestTimeout cfg))"
    "requestsByLastTransmission c' = requestsByLastTransmission c"
    "retransmitRequests c' = retransmitRequests c"
    "newRequests c' = newRequests c"
    "retransmissionTimeoutMultiplier c' = retransmissionTimeoutMultiplier c"
    "\<And>x. rq_successOrTimeout (heap c x) \<Longrightarrow> rq_successOrTimeout (heap c' x)"
    by blast+
qed

lemma check_new_result:
  assumes "check_new cfg now rs c n = (c', n')"
  shows "send_stamps c' = send_stamps c"
    "requestsByFirstTransmission c' = requestsByFirstTransmission c"
    "requestsByLastTransmission c' = requestsByLastTransmission c"
    "retransmitRequests c' = retransmitRequests c"
    "retransmissionTimeoutMultiplier c' = retransmissionTimeoutMultiplier c"
    "newRequests c' = dropWhile (\<lambda>r. rq_queueTime (heap c r) + cfg_queueTimeout cfg \<le> now) rs"
    "n' = (case newRequests c' of [] \<Rightarrow> n
       | r # _ \<Rightarrow> earlier_check n (rq_queueTime (heap c r) + cfg_queueTimeout cfg))"
    "\<And>x. rq_successOrTimeout (heap c' x) = rq_successOrTimeout (heap c x)"
proof -
  have queue: "rq_queueTime (heap (move_callback_to_timeouts r c) x) = rq_queueTime (heap c x)"
    and success: "rq_successOrTimeout (heap (move_callback_to_timeouts r c) x) = rq_successOrTimeout (heap c x)"
    and mult: "retransmissionTimeoutMultiplier (move_callback_to_timeouts r c) = retransmissionTimeoutMultiplier c" for r x c
    by (simp_all add: move_callback_to_timeouts_def)
  have "send_stamps c' = send_stamps c
    \<and> requestsByFirstTransmission c' = requestsByFirstTransmission c
    \<and> requestsByLastTransmission c' = requestsByLastTransmission c
    \<and> retransmitRequests c' = retransmitRequests c
    \<and> retransmissionTimeoutMultiplier c' = retransmissionTimeoutMultiplier c
    \<and> newRequests c' = dropWhile (\<lambda>r. rq_queueTime (heap c r) + cfg_queueTimeout cfg \<le> now) rs
    \<and> n' = (case newRequests c' of [] \<Rightarrow> n
       | r # _ \<Rightarrow> earlier_check n (rq_queueTime (heap c r) + cfg_queueTimeout cfg))
    \<and> (\<forall>x. rq_successOrTimeout (heap c' x) = rq_successOrTimeout (heap c x))"
    using assms
  proof (induction rs arbitrary: c)
    case (Cons r rs)
    show ?case
    proof (cases "rq_queueTime (heap c r) + cfg_queueTimeout cfg \<le> now")
      case True
      then have "check_new cfg now rs (move_callback_to_timeouts r c) n = (c', n')"
        using Cons.prems by simp
      from Cons.IH [OF this, unfolded queue] True show ?thesis
        by (simp add: success mult del: move_callback_simps(8))
    qed (use Cons.prems in auto)
  qed auto
  then show "send_stamps c' = send_stamps c"
    "requestsByFirstTransmission c' = requestsByFirstTransmission c"
    "requestsByLastTransmission c' = requestsByLastTransmission c"
    "retransmitRequests c' = retransmitRequests c"
    "retransmissionTimeoutMultiplier c' = retransmissionTimeoutMultiplier c"
    "newRequests c' = dropWhile (\<lambda>r. rq_queueTime (heap c r) + cfg_queueTimeout cfg \<le> now) rs"
    "n' = (case newRequests c' of [] \<Rightarrow> n
       | r # _ \<Rightarrow> earlier_check n (rq_queueTime (heap c r) + cfg_queueTimeout cfg))"
    "\<And>x. rq_successOrTimeout (heap c' x) = rq_successOrTimeout (heap c x)" by blast+
qed


lemma set_subseq: "subseq ys xs \<Longrightarrow> set ys \<subseteq> set xs"
  by (induction rule: list_emb.induct) auto

text \<open>What the checks may do to the sets of sent requests.\<close>

definition shrinks :: "Client \<Rightarrow> Client \<Rightarrow> bool" where
  "shrinks c c' \<longleftrightarrow> send_stamps c' = send_stamps c
     \<and> subseq (requestsByFirstTransmission c') (requestsByFirstTransmission c)
     \<and> subseq (requestsByLastTransmission c') (requestsByLastTransmission c)
     \<and> set (requestsByLastTransmission c') \<union> set (retransmitRequests c')
         \<subseteq> set (requestsByLastTransmission c) \<union> set (retransmitRequests c)
     \<and> (\<forall>x. rq_successOrTimeout (heap c x) \<longrightarrow> rq_successOrTimeout (heap c' x))"

lemma shrinks_refl [simp]: "shrinks c c"
  by (simp add: shrinks_def)

lemma shrinks_trans:
  assumes "shrinks c c'" "shrinks c' c''"
  shows "shrinks c c''"
  unfolding shrinks_def
proof (intro conjI)
  show "subseq (requestsByFirstTransmission c'') (requestsByFirstTransmission c)"
    "subseq (requestsByLastTransmission c'') (requestsByLastTransmission c)"
    using assms unfolding shrinks_def by (meson subseq_order.order_trans)+
qed (use assms in \<open>auto simp: shrinks_def\<close>)

lemma sorted_keys_subseq:
  assumes "subseq ys xs" "sorted (map k xs)"
  shows "sorted (map k ys)"
  using assms
proof (induction rule: list_emb.induct)
  case (list_emb_Cons2 x y xs ys)
  then show ?case using subseq_order.dual_order.trans list_emb_set [of "(=)" xs ys] by fastforce
qed auto

lemma shrinks_remove [simp]: "shrinks c (removeRequest r c)"
  by (auto simp: shrinks_def)

lemma shrinks_move:
  assumes "requestsByLastTransmission c = r # rs"
  shows "shrinks c (move_to_retransmit cfg r t c)"
proof -
  note f = move_to_retransmit_fields [OF assms]
  have "set (retransmitRequests (move_to_retransmit cfg r t c)) = insert r (set (retransmitRequests c))"
    using f(6) by (metis set_mset_add_mset_insert set_mset_mset)
  then show ?thesis using f assms by (auto simp: shrinks_def)
qed

text \<open>The third loop leaves the packets that are not overdue.\<close>

lemma check_last_result:
  assumes "check_last cfg now rto w c e n = (c', e', n')"
  shows "shrinks c c'"
    "(case requestsByLastTransmission c' of [] \<Rightarrow> n' = n
      | r # _ \<Rightarrow> \<not> rq_successOrTimeout (heap c' r) \<and> now < rtoExpires rto c' r
          \<and> (\<exists>t. n' = earlier_check n t \<and> now < t \<and> t \<le> rtoExpires rto c' r))"
proof -
  have "shrinks c c' \<and> (case requestsByLastTransmission c' of [] \<Rightarrow> n' = n
      | r # _ \<Rightarrow> \<not> rq_successOrTimeout (heap c' r) \<and> now < rtoExpires rto c' r
          \<and> (\<exists>t. n' = earlier_check n t \<and> now < t \<and> t \<le> rtoExpires rto c' r))"
    (is "_ \<and> ?end c' n'")
    using assms
  proof (induction cfg now rto w c e n rule: check_last.induct)
    case (1 cfg now rto w c e n)
    show ?case
    proof (cases "requestsByLastTransmission c")
      case Nil
      with 1 show ?thesis by (simp add: check_last.simps [of cfg now rto w c])
    next
      case (Cons r rs)
      note step = "1.prems" [unfolded check_last.simps [of cfg now rto w c] Cons list.case]
      consider (done1) "rq_successOrTimeout (heap c r)"
        | (rto) "\<not> rq_successOrTimeout (heap c r)" "rtoExpires rto c r \<le> now"
        | (early) "\<not> rq_successOrTimeout (heap c r)" "\<not> rtoExpires rto c r \<le> now"
          "responseForLaterTransmissionReceived c r \<and> earlyRetransmitExpires w c r \<le> now"
        | (stop) "\<not> rq_successOrTimeout (heap c r)" "\<not> rtoExpires rto c r \<le> now"
          "\<not> (responseForLaterTransmissionReceived c r \<and> earlyRetransmitExpires w c r \<le> now)"
        by blast
      then show ?thesis
      proof cases
        case done1
        with "1.IH"(1) [OF Cons] step shrinks_remove show ?thesis
          using shrinks_trans by (metis (no_types, lifting))
      next
        case rto
        with "1.IH"(2) [OF Cons] step shrinks_move [OF Cons] show ?thesis
          using shrinks_trans by (metis (no_types, lifting))
      next
        case early
        with "1.IH"(3) [OF Cons] step shrinks_move [OF Cons] show ?thesis
          using shrinks_trans by (metis (no_types, lifting))
      next
        case stop
        with step Cons show ?thesis by (auto simp: not_le)
      qed
    qed
  qed
  then show "shrinks c c'" "?end c' n'" by blast+
qed


lemma check_last_keeps:
  assumes "check_last cfg now rto w c e n = (c', e', n')"
  shows "newRequests c' = newRequests c \<and> smoothedRoundTripTime c' = smoothedRoundTripTime c
    \<and> roundTripTimeVariation c' = roundTripTimeVariation c
    \<and> retransmissionTimeoutMultiplier c' = retransmissionTimeoutMultiplier c"
  using assms
proof (induction cfg now rto w c e n rule: check_last.induct)
  case (1 cfg now rto w c e n)
  let ?keeps = "\<lambda>d. newRequests d = newRequests c \<and> smoothedRoundTripTime d = smoothedRoundTripTime c
    \<and> roundTripTimeVariation d = roundTripTimeVariation c
    \<and> retransmissionTimeoutMultiplier d = retransmissionTimeoutMultiplier c"
  have rem: "?keeps (removeRequest r c)" for r by (simp add: removeRequest_def)
  have mark_keeps: "newRequests (mark_in_flight d) = newRequests d"
    "smoothedRoundTripTime (mark_in_flight d) = smoothedRoundTripTime d"
    "roundTripTimeVariation (mark_in_flight d) = roundTripTimeVariation d"
    "retransmissionTimeoutMultiplier (mark_in_flight d) = retransmissionTimeoutMultiplier d" for d
    using no_heap_fields [OF mark_in_flight_frame [of d]] by simp_all
  have mov: "?keeps (move_to_retransmit cfg r t c)" for r t
    by (simp add: move_to_retransmit_def packetLossDetected_def count_loss_def Let_def mark_keeps)
  show ?case
  proof (cases "requestsByLastTransmission c")
    case Nil
    with 1 show ?thesis by (simp add: check_last.simps [of cfg now rto w c])
  next
    case (Cons r rs)
    note step = "1.prems" [unfolded check_last.simps [of cfg now rto w c] Cons list.case]
    from "1.IH"(1,2,3) [OF Cons] step rem mov show ?thesis
      by (auto split: if_splits)
  qed
qed

section \<open>The state between the rounds\<close>

text \<open>
  The sets are ordered by their times, which are set and not in the future, and the last reference
  number of a request of which a packet may be under way is one of those it was sent with.
\<close>

definition timely :: "time \<Rightarrow> Client \<Rightarrow> bool" where
  "timely t c \<longleftrightarrow> 0 < t
     \<and> sorted (map (firstSendTime c) (requestsByFirstTransmission c))
     \<and> sorted (map (lastSendTime c) (requestsByLastTransmission c))
     \<and> (\<forall>r\<in>set (requestsByFirstTransmission c). 0 < firstSendTime c r \<and> firstSendTime c r \<le> t)
     \<and> (\<forall>r\<in>set (requestsByLastTransmission c). 0 < lastSendTime c r \<and> lastSendTime c r \<le> t)
     \<and> (\<forall>r\<in>set (requestsByLastTransmission c) \<union> set (retransmitRequests c).
          rq_successOrTimeout (heap c r) \<or> map_of (rq_sendTime (heap c r)) (rq_lastRef (heap c r)) \<noteq> None)"

lemma timely_new: "0 < t \<Longrightarrow> timely t (new_Client raw)"
  by (simp add: timely_def new_Client_def)

lemma timely_step:
  assumes t: "timely t c" "t \<le> t'"
    and sub: "subseq (requestsByFirstTransmission c') (requestsByFirstTransmission c)"
      "subseq (requestsByLastTransmission c') (requestsByLastTransmission c)"
    and first: "\<And>r. r \<in> set (requestsByFirstTransmission c) \<Longrightarrow> firstSendTime c' r = firstSendTime c r"
    and last: "\<And>r. r \<in> set (requestsByLastTransmission c) \<Longrightarrow> lastSendTime c' r = lastSendTime c r"
    and refs: "\<And>r. r \<in> set (requestsByLastTransmission c') \<union> set (retransmitRequests c') \<Longrightarrow>
      rq_successOrTimeout (heap c' r) \<or> map_of (rq_sendTime (heap c' r)) (rq_lastRef (heap c' r)) \<noteq> None"
  shows "timely t' c'"
proof -
  note sets = set_subseq [OF sub(1)] set_subseq [OF sub(2)]
  have same: "map (firstSendTime c') (requestsByFirstTransmission c') = map (firstSendTime c) (requestsByFirstTransmission c')"
    "map (lastSendTime c') (requestsByLastTransmission c') = map (lastSendTime c) (requestsByLastTransmission c')"
    using sets first last by auto
  show ?thesis
    unfolding timely_def same
  proof (intro conjI ballI)
    show "0 < t'" using t by (simp add: timely_def)
  next
    fix r assume r: "r \<in> set (requestsByFirstTransmission c')"
    with sets have r': "r \<in> set (requestsByFirstTransmission c)" by blast
    show "0 < firstSendTime c' r" "firstSendTime c' r \<le> t'"
      using t r' unfolding timely_def first [OF r'] by (meson order.trans)+
  next
    fix r assume r: "r \<in> set (requestsByLastTransmission c')"
    with sets have r': "r \<in> set (requestsByLastTransmission c)" by blast
    show "0 < lastSendTime c' r" "lastSendTime c' r \<le> t'"
      using t r' unfolding timely_def last [OF r'] by (meson order.trans)+
  next
    show "sorted (map (firstSendTime c) (requestsByFirstTransmission c'))"
      "sorted (map (lastSendTime c) (requestsByLastTransmission c'))"
      using t(1) unfolding timely_def by (blast intro: sorted_keys_subseq [OF sub(1)] sorted_keys_subseq [OF sub(2)])+
  next
    fix r assume "r \<in> set (requestsByLastTransmission c') \<union> set (retransmitRequests c')"
    then show "rq_successOrTimeout (heap c' r) \<or> map_of (rq_sendTime (heap c' r)) (rq_lastRef (heap c' r)) \<noteq> None"
      by (rule refs)
  qed
qed

lemma timely_refs:
  "timely t c \<Longrightarrow> r \<in> set (requestsByLastTransmission c) \<union> set (retransmitRequests c) \<Longrightarrow>
    rq_successOrTimeout (heap c r) \<or> map_of (rq_sendTime (heap c r)) (rq_lastRef (heap c r)) \<noteq> None"
  unfolding timely_def by blast

lemma timely_shrinks:
  assumes "timely t c" "shrinks c c'" "t \<le> t'"
  shows "timely t' c'"
proof (rule timely_step [OF assms(1,3)])
  note shrunk = assms(2) [unfolded shrinks_def]
  note stamps = send_stamps_fields [OF conjunct1 [OF shrunk]]
  show "subseq (requestsByFirstTransmission c') (requestsByFirstTransmission c)"
    "subseq (requestsByLastTransmission c') (requestsByLastTransmission c)"
    using shrunk by blast+
  show "firstSendTime c' r = firstSendTime c r" "lastSendTime c' r = lastSendTime c r" for r
    by (simp_all add: stamps)
  fix r assume "r \<in> set (requestsByLastTransmission c') \<union> set (retransmitRequests c')"
  then have "r \<in> set (requestsByLastTransmission c) \<union> set (retransmitRequests c)" using shrunk by blast
  from timely_refs [OF assms(1) this] shrunk
  show "rq_successOrTimeout (heap c' r) \<or> map_of (rq_sendTime (heap c' r)) (rq_lastRef (heap c' r)) \<noteq> None"
    unfolding stamps by blast
qed

text \<open>The time-out that the third loop uses.\<close>

definition checkedTimeout :: "Config \<Rightarrow> Client \<Rightarrow> Client \<Rightarrow> int" where
  "checkedTimeout cfg c c' = retransmissionTimeout cfg
     (c'\<lparr>retransmissionTimeoutMultiplier := retransmissionTimeoutMultiplier c\<rparr>)"

lemma retransmissionTimeout_cong:
  "smoothedRoundTripTime c' = smoothedRoundTripTime c \<Longrightarrow> roundTripTimeVariation c' = roundTripTimeVariation c
    \<Longrightarrow> retransmissionTimeoutMultiplier c' = retransmissionTimeoutMultiplier c
    \<Longrightarrow> retransmissionTimeout cfg c' = retransmissionTimeout cfg c"
  by (simp add: retransmissionTimeout_def rtoBase_def)

lemma shrinks_dropWhile_first:
  "send_stamps c' = send_stamps c \<Longrightarrow> requestsByFirstTransmission c' = dropWhile P (requestsByFirstTransmission c)
    \<Longrightarrow> requestsByLastTransmission c' = requestsByLastTransmission c
    \<Longrightarrow> retransmitRequests c' = retransmitRequests c
    \<Longrightarrow> (\<And>x. rq_successOrTimeout (heap c x) \<Longrightarrow> rq_successOrTimeout (heap c' x)) \<Longrightarrow> shrinks c c'"
  unfolding shrinks_def by (auto intro: suffix_dropWhile)

lemma double_multiplier_frame [simp]:
  "requestsByFirstTransmission (double_multiplier c) = requestsByFirstTransmission c"
  "requestsByLastTransmission (double_multiplier c) = requestsByLastTransmission c"
  "retransmitRequests (double_multiplier c) = retransmitRequests c"
  "newRequests (double_multiplier c) = newRequests c"
  "heap (double_multiplier c) = heap c"
  "smoothedRoundTripTime (double_multiplier c) = smoothedRoundTripTime c"
  "roundTripTimeVariation (double_multiplier c) = roundTripTimeVariation c"
  by (simp_all add: double_multiplier_def Let_def)

lemma sorted_dropWhile_all:
  assumes "sorted (map k xs)" "x \<in> set (dropWhile (\<lambda>x. k x + d \<le> (now :: int)) xs)"
  shows "now < k x + d" "k (hd (dropWhile (\<lambda>x. k x + d \<le> now) xs)) \<le> k x"
proof -
  let ?D = "dropWhile (\<lambda>x. k x + d \<le> now) xs"
  obtain y ys where D: "?D = y # ys" using assms(2) by (cases ?D) auto
  have "\<not> k y + d \<le> now" using hd_dropWhile [of "\<lambda>x. k x + d \<le> now" xs] D by simp
  moreover have "sorted (map k ?D)"
    by (rule sorted_keys_subseq [OF suffix_imp_subseq [OF suffix_dropWhile] assms(1)])
  ultimately show "now < k x + d" "k (hd ?D) \<le> k x" using assms(2) D by fastforce+
qed


section \<open>What the checks leave\<close>

lemma checkSentRequests_split:
  obtains c1 n1 c2 n2 c3 e n3 where
    "(if cfg_queueTimeout cfg \<noteq> 0 then check_new cfg now (newRequests c) c 0 else (c, 0)) = (c1, n1)"
    "check_first cfg now (requestsByFirstTransmission c1) c1 n1 = (c2, n2)"
    "check_last cfg now (retransmissionTimeout cfg c2) (reorderingWindow c2) c2 False n2 = (c3, e, n3)"
    "checkSentRequests cfg now c = (if e then double_multiplier c3 else c3, n3)"
proof -
  obtain c1 n1 where 1: "(if cfg_queueTimeout cfg \<noteq> 0 then check_new cfg now (newRequests c) c 0
      else (c, 0)) = (c1, n1)" by fastforce
  obtain c2 n2 where 2: "check_first cfg now (requestsByFirstTransmission c1) c1 n1 = (c2, n2)"
    by fastforce
  obtain c3 e n3 where 3: "check_last cfg now (retransmissionTimeout cfg c2) (reorderingWindow c2)
      c2 False n2 = (c3, e, n3)" by (metis surj_pair)
  show ?thesis by (rule that [OF 1 2 3]) (simp add: checkSentRequests_def 1 2 3)
qed

lemma checkSentRequests_shrinks: "shrinks c (fst (checkSentRequests cfg now c))"
proof (rule checkSentRequests_split [of cfg now c])
  fix c1 n1 c2 n2 c3 e n3
  assume 1: "(if cfg_queueTimeout cfg \<noteq> 0 then check_new cfg now (newRequests c) c 0 else (c, 0)) = (c1, n1)"
    and 2: "check_first cfg now (requestsByFirstTransmission c1) c1 n1 = (c2, n2)"
    and 3: "check_last cfg now (retransmissionTimeout cfg c2) (reorderingWindow c2) c2 False n2 = (c3, e, n3)"
    and eq: "checkSentRequests cfg now c = (if e then double_multiplier c3 else c3, n3)"
  have "shrinks c c1"
    using 1 check_new_result [of cfg now "newRequests c" c 0 c1 n1]
    by (auto simp: shrinks_def split: if_splits)
  moreover have "shrinks c1 c2"
    using check_first_result [OF 2] by (intro shrinks_dropWhile_first) auto
  moreover have "shrinks c2 c3" by (rule check_last_result(1) [OF 3])
  moreover have "shrinks c3 (double_multiplier c3)" by (simp add: shrinks_def)
  ultimately show ?thesis unfolding eq by (auto intro: shrinks_trans)
qed

text \<open>The next check is not after any of the times that were asked for.\<close>

definition not_after :: "time \<Rightarrow> time \<Rightarrow> bool" where
  "not_after n t \<longleftrightarrow> n \<noteq> 0 \<and> n \<le> t"

lemma not_after_earlier:
  assumes "now < t" "0 < now" "n = 0 \<or> now < n"
  shows "not_after (earlier_check n t) t" "now < earlier_check n t"
    "not_after n t' \<Longrightarrow> not_after (earlier_check n t) t'"
  using assms by (auto simp: not_after_def earlier_check_def)

lemma head_deadline:
  assumes xs': "xs' = dropWhile (\<lambda>r. k r + d \<le> now) xs"
    and n': "n' = (case xs' of [] \<Rightarrow> n | r # _ \<Rightarrow> earlier_check n (k r + d))"
    and now: "0 < now" "n = 0 \<or> now < n"
  shows "n' = 0 \<or> now < n'" "xs' = r # rs \<Longrightarrow> now < k r + d \<and> not_after n' (k r + d)"
    "not_after n t' \<Longrightarrow> not_after n' t'"
    "sorted (map k xs) \<Longrightarrow> x \<in> set xs' \<Longrightarrow> now < k x + d \<and> not_after n' (k x + d)"
proof -
  have hd: "now < k y + d" if "xs' = y # ys" for y ys
  proof -
    have drop: "dropWhile (\<lambda>r. k r + d \<le> now) xs = y # ys" using that by (simp add: xs')
    then have "dropWhile (\<lambda>r. k r + d \<le> now) xs \<noteq> []" by simp
    from hd_dropWhile [OF this] show ?thesis unfolding drop by simp
  qed
  have "(n' = 0 \<or> now < n') \<and> (xs' = r # rs \<longrightarrow> now < k r + d \<and> not_after n' (k r + d))
    \<and> (not_after n t' \<longrightarrow> not_after n' t')
    \<and> (sorted (map k xs) \<longrightarrow> x \<in> set xs' \<longrightarrow> now < k x + d \<and> not_after n' (k x + d))"
  proof (cases xs')
    case (Cons y ys)
    note step = not_after_earlier [OF hd [OF Cons] now]
    have n'_eq: "n' = earlier_check n (k y + d)" by (simp add: n' Cons)
    have "now < k x + d \<and> not_after n' (k x + d)" if sorted: "sorted (map k xs)" and x: "x \<in> set xs'"
    proof -
      have "k y \<le> k x" "now < k x + d"
        using sorted_dropWhile_all [OF sorted x [unfolded xs']] Cons by (simp_all add: xs' [symmetric])
      then show ?thesis using step(1) unfolding n'_eq not_after_def by linarith
    qed
    then show ?thesis using step hd [OF Cons] Cons n'_eq by auto
  qed (use n' now in simp)
  then show "n' = 0 \<or> now < n'" "xs' = r # rs \<Longrightarrow> now < k r + d \<and> not_after n' (k r + d)"
    "not_after n t' \<Longrightarrow> not_after n' t'"
    "sorted (map k xs) \<Longrightarrow> x \<in> set xs' \<Longrightarrow> now < k x + d \<and> not_after n' (k x + d)" by blast+
qed

lemma checkSentRequests_deadlines:
  assumes t: "timely t c" "t \<le> now"
    and eq: "checkSentRequests cfg now c = (c', n)"
  shows "\<forall>r\<in>set (requestsByFirstTransmission c'). now < firstSendTime c' r + cfg_requestTimeout cfg
      \<and> not_after n (firstSendTime c' r + cfg_requestTimeout cfg)"
    and "\<forall>r\<in>set (requestsByLastTransmission c'). now < rtoExpires (checkedTimeout cfg c c') c' r
      \<and> not_after n (rtoExpires (checkedTimeout cfg c c') c' r)"
    and "cfg_queueTimeout cfg \<noteq> 0 \<Longrightarrow> newRequests c' = r # rs \<Longrightarrow>
      now < rq_queueTime (heap c' r) + cfg_queueTimeout cfg
      \<and> not_after n (rq_queueTime (heap c' r) + cfg_queueTimeout cfg)"
    and "n = 0 \<or> now < n"
proof -
  obtain c1 n1 c2 n2 c3 e n3 where
    1: "(if cfg_queueTimeout cfg \<noteq> 0 then check_new cfg now (newRequests c) c 0 else (c, 0)) = (c1, n1)"
    and 2: "check_first cfg now (requestsByFirstTransmission c1) c1 n1 = (c2, n2)"
    and 3: "check_last cfg now (retransmissionTimeout cfg c2) (reorderingWindow c2) c2 False n2 = (c3, e, n3)"
    and eq': "checkSentRequests cfg now c = (if e then double_multiplier c3 else c3, n3)"
    by (rule checkSentRequests_split)
  have c': "c' = (if e then double_multiplier c3 else c3)" "n = n3" using eq eq' by simp_all
  have now: "0 < now" using t by (simp add: timely_def)
  have c1: "shrinks c c1 \<and> retransmissionTimeoutMultiplier c1 = retransmissionTimeoutMultiplier c
      \<and> (n1 = 0 \<or> now < n1) \<and> (cfg_queueTimeout cfg \<noteq> 0 \<longrightarrow> newRequests c1 = r # rs \<longrightarrow>
      now < rq_queueTime (heap c1 r) + cfg_queueTimeout cfg
      \<and> not_after n1 (rq_queueTime (heap c1 r) + cfg_queueTimeout cfg))" for r rs
  proof (cases "cfg_queueTimeout cfg = 0")
    case False
    then have "check_new cfg now (newRequests c) c 0 = (c1, n1)" using 1 by simp
    note new = check_new_result [OF this]
    from head_deadline(1,2) [OF new(6,7) now] new(1-5,8) send_stamps_fields(5) [OF new(1)]
    show ?thesis by (simp add: shrinks_def)
  qed (use 1 in simp)
  have t1: "timely now c1" using timely_shrinks [OF t(1) _ t(2)] c1 by blast
  note first = check_first_result [OF 2]
  have sorted1: "sorted (map (firstSendTime c1) (requestsByFirstTransmission c1))"
    using t1 by (simp add: timely_def)
  have "n1 = 0 \<or> now < n1" using c1 by blast
  note deadline = head_deadline [OF first(2,3) now this]
  have s2: "shrinks c1 c2" using first by (intro shrinks_dropWhile_first) auto
  have t2: "timely now c2" by (rule timely_shrinks [OF t1 s2 order_refl])
  note last = check_last_result [OF 3]
  note s3 = last(1)
  have stamps: "send_stamps c3 = send_stamps c2" "send_stamps c2 = send_stamps c1"
    using s3 s2 by (auto simp: shrinks_def)
  note stamps' = send_stamps_fields [OF stamps(1)] send_stamps_fields [OF stamps(2)]
  let ?rto = "retransmissionTimeout cfg c2"
  have sorted3: "sorted (map (lastSendTime c3) (requestsByLastTransmission c3))"
    using timely_shrinks [OF t2 s3 order_refl] by (simp add: timely_def)
  have later: "(n3 = 0 \<or> now < n3) \<and> (not_after n2 t' \<longrightarrow> not_after n3 t')
    \<and> (\<forall>r\<in>set (requestsByLastTransmission c3). now < rtoExpires ?rto c3 r \<and> not_after n3 (rtoExpires ?rto c3 r))"
    for t'
  proof (cases "requestsByLastTransmission c3")
    case Nil
    then show ?thesis using last(2) deadline(1) by simp
  next
    case (Cons y ys)
    then obtain u where u: "n3 = earlier_check n2 u" "now < u" "u \<le> rtoExpires ?rto c3 y"
      using last(2) by auto
    note step = not_after_earlier [OF u(2) now deadline(1), folded u(1)]
    have "rtoExpires ?rto c3 y \<le> rtoExpires ?rto c3 r" if "r \<in> set (requestsByLastTransmission c3)" for r
      using sorted3 that Cons by (auto simp: rtoExpires_def)
    then show ?thesis using step u(2,3) unfolding not_after_def by force
  qed
  have c3: "c' = c3 \<or> c' = double_multiplier c3" using c' by auto
  then have same: "requestsByFirstTransmission c' = requestsByFirstTransmission c3"
    "requestsByLastTransmission c' = requestsByLastTransmission c3" "newRequests c' = newRequests c3"
    "heap c' = heap c3" "firstSendTime c' = firstSendTime c3" "lastSendTime c' = lastSendTime c3"
    by (auto simp: firstSendTime_def lastSendTime_def)
  note keeps = check_last_keeps [OF 3]
  have rto: "checkedTimeout cfg c c' = ?rto"
    unfolding checkedTimeout_def
    by (rule retransmissionTimeout_cong) (use c3 keeps first(7) c1 in auto)
  show "n = 0 \<or> now < n" using later c'(2) by blast
  show "\<forall>r\<in>set (requestsByFirstTransmission c'). now < firstSendTime c' r + cfg_requestTimeout cfg
      \<and> not_after n (firstSendTime c' r + cfg_requestTimeout cfg)"
  proof
    fix r assume "r \<in> set (requestsByFirstTransmission c')"
    then have "r \<in> set (requestsByFirstTransmission c2)"
      using s3 set_subseq same by (auto simp: shrinks_def)
    from deadline(4) [OF sorted1 this] later
    show "now < firstSendTime c' r + cfg_requestTimeout cfg
      \<and> not_after n (firstSendTime c' r + cfg_requestTimeout cfg)"
      by (simp add: same stamps' c'(2))
  qed
  show "\<forall>r\<in>set (requestsByLastTransmission c'). now < rtoExpires (checkedTimeout cfg c c') c' r
      \<and> not_after n (rtoExpires (checkedTimeout cfg c c') c' r)"
    using later by (simp add: rto rtoExpires_def same c'(2))
  show "cfg_queueTimeout cfg \<noteq> 0 \<Longrightarrow> newRequests c' = r # rs \<Longrightarrow>
      now < rq_queueTime (heap c' r) + cfg_queueTimeout cfg
      \<and> not_after n (rq_queueTime (heap c' r) + cfg_queueTimeout cfg)"
    using c1 [of r rs] later deadline(3) first(6) keeps by (simp add: same stamps' c'(2))
qed


section \<open>The operations keep the times\<close>

lemma timely_queue:
  assumes wf: "wf_client c" and t: "timely t c" "t \<le> t'"
  shows "timely t' (queue_request cfg raw now ty addr data idem cb c)" (is "timely t' ?c")
proof (rule timely_step [OF t])
  have old: "x \<noteq> allocated c" if "x \<in> sent c" for x
    using wf_sent [OF wf that] by auto
  have heap: "heap ?c x = heap c x" if "x \<in> sent c" for x
    using old [OF that] by (simp add: queue_request_def)
  have same: "requestsByFirstTransmission ?c = requestsByFirstTransmission c"
    "requestsByLastTransmission ?c = requestsByLastTransmission c"
    "retransmitRequests ?c = retransmitRequests c"
    by (simp_all add: queue_request_def)
  show "subseq (requestsByFirstTransmission ?c) (requestsByFirstTransmission c)"
    "subseq (requestsByLastTransmission ?c) (requestsByLastTransmission c)" by (simp_all add: same)
  show "firstSendTime ?c r = firstSendTime c r" if "r \<in> set (requestsByFirstTransmission c)" for r
    using that heap [of r] by (simp add: firstSendTime_def sent_def)
  show "lastSendTime ?c r = lastSendTime c r" if "r \<in> set (requestsByLastTransmission c)" for r
    using that heap [of r] by (simp add: lastSendTime_def sent_def)
  fix r assume r: "r \<in> set (requestsByLastTransmission ?c) \<union> set (retransmitRequests ?c)"
  then have "heap ?c r = heap c r" by (intro heap) (auto simp: same sent_def)
  with timely_refs [OF t(1)] r
  show "rq_successOrTimeout (heap ?c r) \<or> map_of (rq_sendTime (heap ?c r)) (rq_lastRef (heap ?c r)) \<noteq> None"
    unfolding same by metis
qed

lemma send_stamps_notes [simp]:
  "send_stamps (updateRoundTripTime cfg m c) = send_stamps c"
  "send_stamps (grow_congestionWindow r c) = send_stamps c"
  "send_stamps (note_order ref rtt u c) = send_stamps c"
  "send_stamps (note_spurious ref r c) = send_stamps c"
  "send_stamps (note_retransmission ref r c) = send_stamps c"
  by (auto simp: updateRoundTripTime_def grow_congestionWindow_def note_order_def note_spurious_def
      note_retransmission_def Let_def)

lemma note_reply_stamps:
  "send_stamps (note_reply cfg t ref r c) = send_stamps (set_request r (without_ref ref (heap c r)) c)"
proof (cases "map_of (rq_sendTime (heap c r)) ref")
  case None
  then show ?thesis by (simp add: note_reply_def erase_time_absent send_stamps_set_request)
next
  case (Some s)
  let ?c = "note_retransmission ref r (note_spurious ref r (note_order ref (t - s) s (updateRoundTripTime cfg (t - s) c)))"
  have "send_stamps ?c = send_stamps c" by simp
  note f = this [unfolded send_stamps_def fun_eq_iff prod.inject, rule_format]
  have "send_stamps (set_request r (without_ref ref (heap ?c r)) ?c)
      = send_stamps (set_request r (without_ref ref (heap c r)) c)"
    using f by (simp add: send_stamps_def fun_eq_iff)
  then show ?thesis by (simp add: note_reply_def Some Let_def)
qed


lemma timely_handle_reply:
  assumes t: "timely t c" "t \<le> t'" and res: "handle_reply cfg rt packet c = (cb, c')"
  shows "timely t' c'"
proof (cases "refToRequest c (getRef (cfg_byteOrder cfg) packet)")
  case None
  with res have "c' = c" by (simp add: handle_reply_def Let_def)
  with timely_shrinks [OF t(1) _ t(2), of c] show ?thesis by simp
next
  case (Some r)
  let ?ref = "getRef (cfg_byteOrder cfg) packet"
  define c2 where "c2 = grow_congestionWindow r
    (c\<lparr>consecutiveRequestTimeoutsCount := 0, retransmissionTimeoutMultiplier := 1\<rparr>)"
  define c3 where "c3 = c2\<lparr>refToRequest := (refToRequest c2)(?ref := None)\<rparr>"
  define n where "n = note_reply cfg rt ?ref r c3"
  have "send_stamps c3 = send_stamps c" by (simp add: c3_def c2_def)
  note f = this [unfolded send_stamps_def fun_eq_iff prod.inject, rule_format]
  have "send_stamps n = send_stamps (set_request r (without_ref ?ref (heap c3 r)) c3)"
    unfolding n_def by (rule note_reply_stamps)
  note g = this [unfolded send_stamps_def fun_eq_iff prod.inject, rule_format]
  have stamps: "firstSendTime n = firstSendTime c" "lastSendTime n = lastSendTime c"
    "rq_lastRef (heap n x) = rq_lastRef (heap c x)"
    "rq_sendTime (heap n x) = (if x = r then erase_time ?ref (rq_sendTime (heap c r)) else rq_sendTime (heap c x))" for x
    using f g by (auto simp: firstSendTime_def lastSendTime_def fun_eq_iff)
  have "view n = view (set_request r (without_ref ?ref (heap c3 r)) c3)"
    unfolding n_def by (rule note_reply_view)
  moreover have "view c2 = view c" by (simp add: c2_def)
  note v = view_fields [OF this]
  ultimately have views: "requestsByFirstTransmission n = requestsByFirstTransmission c"
    "requestsByLastTransmission n = requestsByLastTransmission c"
    "retransmitRequests n = retransmitRequests c"
    "rq_successOrTimeout (heap n x) = rq_successOrTimeout (heap c x)" for x
    using view_fields [of n "set_request r (without_ref ?ref (heap c3 r)) c3"] v by (auto simp: c3_def)
  have refs: "rq_successOrTimeout (heap n x) \<or> map_of (rq_sendTime (heap n x)) (rq_lastRef (heap n x)) \<noteq> None"
    if "x \<in> set (requestsByLastTransmission c) \<union> set (retransmitRequests c)" "x = r \<Longrightarrow> ?ref \<noteq> rq_lastRef (heap c r)" for x
    using timely_refs [OF t(1) that(1)] that(2) by (auto simp: stamps views erase_time_map)
  let ?q = "(heap n r)\<lparr>rq_callback := None, rq_successOrTimeout := True\<rparr>"
  have comp: "complete_request ?ref r n = (cb, c')"
    using res by (simp add: handle_reply_def Let_def Some c2_def c3_def n_def)
  consider (kept) "c' = n" "?ref \<noteq> rq_lastRef (heap c r)" | (complete) "c' = set_request r ?q n"
    | (removed) "c' = removeRequest r (set_request r ?q n)"
    using comp by (auto simp: complete_request_def Let_def stamps split: if_splits)
  then show ?thesis
  proof cases
    case kept
    show ?thesis by (rule timely_step [OF t]) (use refs kept in \<open>auto simp: views stamps\<close>)
  next
    case complete
    have keep: "firstSendTime c' = firstSendTime c" "lastSendTime c' = lastSendTime c"
      unfolding complete stamps(1,2) [symmetric] by (auto simp: firstSendTime_def lastSendTime_def fun_eq_iff)
    show ?thesis
    proof (rule timely_step [OF t])
      fix x assume "x \<in> set (requestsByLastTransmission c') \<union> set (retransmitRequests c')"
      then show "rq_successOrTimeout (heap c' x) \<or> map_of (rq_sendTime (heap c' x)) (rq_lastRef (heap c' x)) \<noteq> None"
        using refs [of x] by (cases "x = r") (simp_all add: complete views)
    qed (simp_all add: keep, simp_all add: complete views)
  next
    case removed
    have keep: "firstSendTime c' = firstSendTime c" "lastSendTime c' = lastSendTime c"
      unfolding removed stamps(1,2) [symmetric] by (auto simp: firstSendTime_def lastSendTime_def fun_eq_iff)
    show ?thesis
    proof (rule timely_step [OF t])
      fix x assume "x \<in> set (requestsByLastTransmission c') \<union> set (retransmitRequests c')"
      then show "rq_successOrTimeout (heap c' x) \<or> map_of (rq_sendTime (heap c' x)) (rq_lastRef (heap c' x)) \<noteq> None"
        using refs [of x] by (cases "x = r") (simp_all add: removed views)
    qed (simp_all add: keep, simp_all add: removed views)
  qed
qed


text \<open>A request that is in no ordered set, or whose first packet has already been sent.\<close>

lemma timely_other:
  assumes t: "timely t c" "t \<le> t'"
    and q: "\<And>x. x \<noteq> r \<Longrightarrow> heap c' x = heap c x" "r \<in> set (requestsByFirstTransmission c) \<Longrightarrow> firstSendTime c' r = firstSendTime c r"
    and same: "requestsByFirstTransmission c' = requestsByFirstTransmission c"
      "requestsByLastTransmission c' = requestsByLastTransmission c"
      "set (retransmitRequests c') \<subseteq> set (retransmitRequests c)"
    and r: "r \<notin> set (requestsByLastTransmission c)" "r \<notin> set (retransmitRequests c')"
  shows "timely t' c'"
proof (rule timely_step [OF t])
  show "firstSendTime c' x = firstSendTime c x" if "x \<in> set (requestsByFirstTransmission c)" for x
    using q that by (cases "x = r") (auto simp: firstSendTime_def)
  show "lastSendTime c' x = lastSendTime c x" if "x \<in> set (requestsByLastTransmission c)" for x
    using q(1) [of x] r that by (cases "x = r") (auto simp: lastSendTime_def)
  fix x assume x: "x \<in> set (requestsByLastTransmission c') \<union> set (retransmitRequests c')"
  with r same have "heap c' x = heap c x" by (intro q(1)) auto
  moreover have "x \<in> set (requestsByLastTransmission c) \<union> set (retransmitRequests c)"
    using x same by auto
  ultimately show "rq_successOrTimeout (heap c' x) \<or> map_of (rq_sendTime (heap c' x)) (rq_lastRef (heap c' x)) \<noteq> None"
    using timely_refs [OF t(1)] by simp
qed (simp_all add: same)

lemma timely_sent:
  assumes t: "timely t c" "t \<le> now"
    and q: "\<And>x. x \<noteq> r \<Longrightarrow> heap c' x = heap c x" "lastSendTime c' r = now"
      "map_of (rq_sendTime (heap c' r)) (rq_lastRef (heap c' r)) \<noteq> None"
    and first: "requestsByFirstTransmission c' = requestsByFirstTransmission c \<and> firstSendTime c' r = firstSendTime c r
      \<or> requestsByFirstTransmission c' = insert_hint_end ((firstSendTime c)(r := now)) r (requestsByFirstTransmission c)
        \<and> firstSendTime c' r = now \<and> r \<notin> set (requestsByFirstTransmission c)"
    and last: "requestsByLastTransmission c' = insert_hint_end ((lastSendTime c)(r := now)) r (requestsByLastTransmission c)"
      "r \<notin> set (requestsByLastTransmission c)"
    and re: "set (retransmitRequests c') \<subseteq> set (retransmitRequests c)"
  shows "timely now c'"
proof -
  have now: "0 < now" using t by (simp add: timely_def)
  have firsts: "firstSendTime c' = (firstSendTime c)(r := firstSendTime c' r)"
    and lasts: "lastSendTime c' = (lastSendTime c)(r := now)"
    using q(1,2) by (auto simp: firstSendTime_def lastSendTime_def fun_eq_iff)
  have keys: "sorted (map (f(r := now)) xs)" if "sorted (map f xs)" "r \<notin> set xs" for f and xs :: "nat list"
    using that by (metis map_fun_upd)
  have "sorted (map (firstSendTime c') (requestsByFirstTransmission c'))
    \<and> (\<forall>x\<in>set (requestsByFirstTransmission c'). 0 < firstSendTime c' x \<and> firstSendTime c' x \<le> now)"
    using first
  proof
    assume "requestsByFirstTransmission c' = requestsByFirstTransmission c \<and> firstSendTime c' r = firstSendTime c r"
    with firsts have "requestsByFirstTransmission c' = requestsByFirstTransmission c" "firstSendTime c' = firstSendTime c"
      by (simp_all add: fun_upd_idem)
    with t show ?thesis unfolding timely_def by (metis order.trans)
  next
    assume new: "requestsByFirstTransmission c' = insert_hint_end ((firstSendTime c)(r := now)) r (requestsByFirstTransmission c)
        \<and> firstSendTime c' r = now \<and> r \<notin> set (requestsByFirstTransmission c)"
    with firsts have f: "firstSendTime c' = (firstSendTime c)(r := now)" by simp
    have "sorted (map ((firstSendTime c)(r := now)) (requestsByFirstTransmission c))"
      using t(1) new by (intro keys) (auto simp: timely_def)
    then have "sorted (map (firstSendTime c') (requestsByFirstTransmission c'))"
      unfolding f conjunct1 [OF new] by (rule sorted_insert_hint_end)
    moreover have "0 < firstSendTime c' x \<and> firstSendTime c' x \<le> now" if "x \<in> set (requestsByFirstTransmission c')" for x
    proof (cases "x = r")
      case False
      with that new have "x \<in> set (requestsByFirstTransmission c)" by simp
      with t show ?thesis unfolding f timely_def using False by fastforce
    qed (use new now in simp)
    ultimately show ?thesis by blast
  qed
  moreover have "sorted (map ((lastSendTime c)(r := now)) (requestsByLastTransmission c))"
    using t(1) last(2) by (intro keys) (auto simp: timely_def)
  then have "sorted (map (lastSendTime c') (requestsByLastTransmission c'))"
    unfolding lasts last(1) by (rule sorted_insert_hint_end)
  moreover have "0 < lastSendTime c' x \<and> lastSendTime c' x \<le> now" if "x \<in> set (requestsByLastTransmission c')" for x
  proof (cases "x = r")
    case False
    with that last have "x \<in> set (requestsByLastTransmission c)" by simp
    with t show ?thesis unfolding lasts timely_def using False by fastforce
  qed (use q(2) now in simp)
  moreover have "rq_successOrTimeout (heap c' x) \<or> map_of (rq_sendTime (heap c' x)) (rq_lastRef (heap c' x)) \<noteq> None"
    if "x \<in> set (requestsByLastTransmission c') \<union> set (retransmitRequests c')" for x
  proof (cases "x = r")
    case False
    with that last re have "x \<in> set (requestsByLastTransmission c) \<union> set (retransmitRequests c)" by auto
    from timely_refs [OF t(1) this] q(1) [OF False] show ?thesis by simp
  qed (use q(3) in simp)
  ultimately show ?thesis using now unfolding timely_def by blast
qed


lemma timely_transmit_again:
  assumes wf: "wf_client c" and t: "timely t c" "t \<le> now" and head: "retransmitRequests c = r # rs"
    and errno: "errno \<noteq> Some (cfg_EAGAIN cfg)" and res: "transmit_again cfg errno now r c = (tr, c')"
  shows "timely now c'"
proof (cases "rq_successOrTimeout (heap c r)")
  case True
  with res have "c' = removeRequest r c" by (simp add: transmit_again_def)
  with timely_shrinks [OF t(1) shrinks_remove t(2)] show ?thesis by simp
next
  case False
  have r: "r \<notin> set (requestsByLastTransmission c)" "r \<notin> set rs"
    using wf_distinct [OF wf] head by auto
  show ?thesis
  proof (cases rule: trySendRequest_cases [of cfg errno now r c])
    case (again q)
    with errno show ?thesis by simp
  next
    case (failed e q)
    then have c': "c' = (set_request r q c)\<lparr>retransmitRequests := rs\<rparr>"
      using res False by (auto simp: transmit_again_def head)
    show ?thesis
      by (rule timely_other [OF t, of r])
         (use failed(7) r in \<open>auto simp: c' head firstSendTime_def\<close>)
  next
    case (sent q refs first last)
    have sendTime: "rq_sendTime (heap c r) \<noteq> []"
      using timely_refs [OF t(1), of r] False head by auto
    have c': "c' = (set_request r q c)\<lparr>nextRef := nextRef c + 1, refToRequest := refs,
        requestsByFirstTransmission := first, requestsByLastTransmission := last, retransmitRequests := rs\<rparr>"
      using res False sent(2) by (auto simp: transmit_again_def head)
    have first: "first = requestsByFirstTransmission c" "rq_firstSendTime q = rq_firstSendTime (heap c r)"
      using sent(11,14) sendTime by simp_all
    have ref: "map_of (rq_sendTime q) (rq_lastRef q) \<noteq> None"
      using sent(6,12) by (simp add: map_of_emplace_time)
    show ?thesis
      by (rule timely_sent [OF t, of r])
         (use sent(5,15) first ref r in \<open>auto simp: c' head firstSendTime_def lastSendTime_def\<close>)
  qed
qed

lemma timely_transmit_new:
  assumes wf: "wf_client c" and t: "timely t c" "t \<le> now" and head: "newRequests c = r # rs"
    and res: "transmit_new cfg off errno now r c = (tr, c')"
  shows "timely now c'"
proof -
  have new: "r \<notin> sent c" "rq_sendTime (heap c r) = []"
    using wf_new_requests [OF wf, of r] head by simp_all
  then have r: "r \<notin> set (requestsByFirstTransmission c)" "r \<notin> set (requestsByLastTransmission c)"
    "r \<notin> set (retransmitRequests c)"
    by (auto simp: sent_def)
  show ?thesis
  proof (cases "errno = None")
    case False
    have "(\<forall>x. x \<noteq> r \<longrightarrow> heap c' x = heap c x) \<and> requestsByFirstTransmission c' = requestsByFirstTransmission c
      \<and> requestsByLastTransmission c' = requestsByLastTransmission c \<and> retransmitRequests c' = retransmitRequests c"
      using res False
      by (cases rule: trySendRequest_cases [of cfg errno now r c])
         (auto simp: transmit_new_def Let_def split: if_splits)
    then show ?thesis by (intro timely_other [OF t, of r]) (use r in auto)
  next
    case True
    show ?thesis
    proof (cases rule: trySendRequest_cases [of cfg errno now r c])
      case (sent q refs first last)
      have fields: "(\<forall>x. x \<noteq> r \<longrightarrow> heap c' x = heap c x)" "requestsByFirstTransmission c' = first"
        "requestsByLastTransmission c' = last" "retransmitRequests c' = retransmitRequests c"
        "rq_sendTime (heap c' r) = rq_sendTime q" "rq_lastRef (heap c' r) = rq_lastRef q"
        "rq_firstSendTime (heap c' r) = rq_firstSendTime q" "rq_lastSendTime (heap c' r) = rq_lastSendTime q"
        using res sent(2) by (auto simp: transmit_new_def Let_def split: if_splits)
      have first: "first = insert_hint_end ((firstSendTime c)(r := now)) r (requestsByFirstTransmission c)"
        "rq_firstSendTime q = now"
        using sent(11,14) new by simp_all
      have ref: "map_of (rq_sendTime q) (rq_lastRef q) \<noteq> None"
        using sent(6,12) by (simp add: map_of_emplace_time)
      show ?thesis
        by (rule timely_sent [OF t, of r])
           (use sent(5,15) first ref r fields in \<open>auto simp: firstSendTime_def lastSendTime_def\<close>)
    qed (use True in auto)
  qed
qed

lemma timely_transmit:
  assumes wf: "wf_client c" and t: "timely t c" "t \<le> now"
    and errno: "errno \<noteq> Some (cfg_EAGAIN cfg) \<or> retransmitRequests c = []"
    and res: "transmit cfg errno now c = (tr, c')"
  shows "timely now c'"
proof -
  have same: "timely now c" using timely_shrinks [OF t(1) shrinks_refl t(2)] .
  have drop: "timely now (c\<lparr>newRequests := xs\<rparr>)" for xs
    by (rule timely_shrinks [OF same]) (simp_all add: shrinks_def)
  show ?thesis
  proof (cases "congestionWindow c > length (requestsByLastTransmission c)")
    case window: True
    show ?thesis
    proof (cases "retransmitRequests c")
      case (Cons r rs)
      have "transmit_again cfg errno now r c = (tr, c')"
        using res window Cons by (simp add: transmit_def)
      with timely_transmit_again [OF wf t Cons _ this] errno Cons show ?thesis by simp
    next
      case Nil
      show ?thesis
      proof (cases "newRequests c")
        case (Cons r rs)
        have "transmit_new cfg (is_offline c) errno now r c = (tr, c')"
          using res window Nil Cons by (simp add: transmit_def)
        from timely_transmit_new [OF wf t Cons this] show ?thesis .
      qed (use res window Nil same in \<open>auto simp: transmit_def\<close>)
    qed
  qed (use res same drop in \<open>auto simp: transmit_def split: if_splits\<close>)
qed

lemma timely_take_timeouts: "timely t c \<Longrightarrow> timely t (c\<lparr>timeoutCallbacks := []\<rparr>)"
  by (erule timely_shrinks [OF _ _ order_refl]) (simp add: shrinks_def)

lemma timely_send_round:
  assumes wf: "wf_client c" and t: "timely t c" "t \<le> now1" "now1 \<le> now2" "now2 \<le> now3"
    and errno: "errno \<noteq> Some (cfg_EAGAIN cfg) \<or> \<not> resends cfg now1 c"
    and res: "send_round cfg now1 errno now2 now3 c = (d, ev, bs, c')"
  shows "timely now3 c'"
proof -
  obtain c1 n where 1: "checkSentRequests cfg now1 c = (c1, n)" by fastforce
  obtain tr c3 where 3: "transmit cfg errno now2 (c1\<lparr>timeoutCallbacks := []\<rparr>) = (tr, c3)" by fastforce
  have "shrinks c c1" using checkSentRequests_shrinks [of c cfg now1] by (simp add: 1)
  from timely_take_timeouts [OF timely_shrinks [OF t(1) this t(2)]]
  have "timely now1 (c1\<lparr>timeoutCallbacks := []\<rparr>)" .
  moreover have "wf_client (c1\<lparr>timeoutCallbacks := []\<rparr>)"
    using checkSentRequests_accounts [OF wf, of cfg now1] take_timeouts(1) by (simp add: accounts_def 1)
  ultimately have "timely now2 c3"
    using timely_transmit [OF _ _ t(3) _ 3] errno by (simp add: resends_def 1)
  moreover have "c' = c3" using res by (simp add: send_round_def 1 3)
  ultimately show ?thesis using timely_shrinks [OF _ shrinks_refl t(4)] by simp
qed

lemma timely_receive_round:
  assumes "timely t c" "t \<le> t'" "receive_round cfg n result rt c = (n', stop, ev, c')"
  shows "timely t' c'"
proof -
  have same: "timely t' c" using timely_shrinks [OF assms(1) shrinks_refl assms(2)] .
  show ?thesis
  proof (cases "receive (cfg_byteOrder cfg) result")
    case (Inl e)
    with same assms(3) show ?thesis
      by (auto simp: receive_round_def split: receive_error.splits if_splits)
  next
    case (Inr packet)
    obtain cb d where h: "handle_reply cfg rt packet c = (cb, d)" by fastforce
    with assms(3) Inr have "c' = d" by (simp add: receive_round_def)
    with timely_handle_reply [OF assms(1,2) h] show ?thesis by simp
  qed
qed

end
