(* ===== verification/UdpClient_Props.thy ===== *)
theory UdpClient_Props
  imports UdpClient_Times
begin

text \<open>
  The runs of the UDP/IP client, in which calls and the rounds of its two threads interleave, the
  times of its requests, and its properties.
\<close>

section \<open>Runs\<close>

text \<open>
  The client with the reading of the clock, the callbacks that were passed to it, and what it has
  told callbacks so far. A round is one step: its part that holds the mutex is atomic, and the
  callbacks are notified after it.
\<close>

record ClientSys =
  client :: Client
  clock :: time
  asked :: "nat multiset"
  told :: "client_event list"

text \<open>
  \<open>P\<close> restricts the outcomes of \<^verbatim>\<open>send(2)\<close> for a packet that is repeated. A request is created
  before its caller gets the mutex: its queue time may be earlier than the clock.
\<close>

inductive client_run :: "Config \<Rightarrow> (int option \<Rightarrow> bool) \<Rightarrow> ClientSys \<Rightarrow> bool" for cfg P where
  start: "0 < t \<Longrightarrow> client_run cfg P \<lparr>client = new_Client raw, clock = t, asked = {#}, told = []\<rparr>"
| call_read: "client_run cfg P s \<Longrightarrow> now \<le> t \<Longrightarrow> clock s \<le> t
    \<Longrightarrow> client_run cfg P (s\<lparr>client := queueReadRequest cfg raw now address cb (client s), clock := t,
          asked := callback_mset cb + asked s\<rparr>)"
| call_write: "client_run cfg P s \<Longrightarrow> now \<le> t \<Longrightarrow> clock s \<le> t
    \<Longrightarrow> client_run cfg P (s\<lparr>client := queueWriteRequest cfg raw now address data cb (client s), clock := t,
          asked := callback_mset cb + asked s\<rparr>)"
| receive: "client_run cfg P s \<Longrightarrow> clock s \<le> t
    \<Longrightarrow> receive_round cfg n result t' (client s) = (n', stop, ev, c')
    \<Longrightarrow> client_run cfg P (s\<lparr>client := c', clock := t, told := told s @ ev\<rparr>)"
| send: "client_run cfg P s \<Longrightarrow> clock s \<le> now1 \<Longrightarrow> now1 \<le> now2 \<Longrightarrow> now2 \<le> now3
    \<Longrightarrow> resends cfg now1 (client s) \<Longrightarrow> P errno
    \<Longrightarrow> send_round cfg now1 errno now2 now3 (client s) = (d, ev, bs, c')
    \<Longrightarrow> client_run cfg P (s\<lparr>client := c', clock := now3, told := told s @ ev\<rparr>)"
| send_other: "client_run cfg P s \<Longrightarrow> clock s \<le> now1 \<Longrightarrow> now1 \<le> now2 \<Longrightarrow> now2 \<le> now3
    \<Longrightarrow> \<not> resends cfg now1 (client s)
    \<Longrightarrow> send_round cfg now1 errno now2 now3 (client s) = (d, ev, bs, c')
    \<Longrightarrow> client_run cfg P (s\<lparr>client := c', clock := now3, told := told s @ ev\<rparr>)"

abbreviation told_callbacks :: "ClientSys \<Rightarrow> nat multiset" where
  "told_callbacks s \<equiv> mset (map event_callback (told s))"

lemma run_wf:
  assumes "client_run cfg P s"
  shows "wf_client (client s)"
  using assms
proof induction
  case (start t raw)
  show ?case by (simp add: wf_new)
qed (auto simp: queueReadRequest_def queueWriteRequest_def dest: queue_request_balanced(1) [OF _ refl]
    receive_round_balanced send_round_balanced(1) simp: balanced_def)

lemma run_params:
  assumes "client_run cfg P s"
  shows "params_ok (client s)"
  using assms
proof induction
  case (start t raw)
  show ?case by (simp add: params_ok_new)
qed (auto simp: queueReadRequest_def queueWriteRequest_def queue_request_params
    dest: receive_round_params send_round_params)

text \<open>
  Every callback that was passed to the client has been told something or is still open; without
  errors for repetitions the accounts are exact.
\<close>

lemma open_new [simp]: "open_callbacks (new_Client raw) = {#}"
  by (simp add: open_callbacks_def owners_def live_def new_Client_def List.map_filter_def)

definition no_resend_error :: "Config \<Rightarrow> int option \<Rightarrow> bool" where
  "no_resend_error cfg errno \<longleftrightarrow> errno = None \<or> errno = Some (cfg_EAGAIN cfg)"

definition kept :: "bool \<Rightarrow> nat multiset \<Rightarrow> nat multiset \<Rightarrow> Client \<Rightarrow> bool" where
  "kept exact A T c \<longleftrightarrow> A \<subseteq># T + open_callbacks c \<and> (exact \<longrightarrow> A = T + open_callbacks c)"

lemma kept_balanced:
  "kept exact A T c \<Longrightarrow> balanced c ev c' \<Longrightarrow> kept exact A (T + mset (map event_callback ev)) c'"
  by (simp add: kept_def balanced_def ac_simps)

lemma kept_queue:
  assumes "kept exact A T c" "wf_client c"
  shows "kept exact (callback_mset cb + A) T (queue_request cfg raw now ty addr data idem cb c)"
  using assms(1) queue_request_balanced(2) [OF assms(2) refl]
  by (simp add: kept_def ac_simps)

lemma kept_loses:
  assumes "kept exact A T c" "\<not> exact"
    "open_callbacks c \<subseteq># mset (map event_callback ev) + open_callbacks c'"
  shows "kept exact A (T + mset (map event_callback ev)) c'"
proof -
  have "T + open_callbacks c \<subseteq># T + (mset (map event_callback ev) + open_callbacks c')"
    using assms(3) by (rule subset_mset.add_left_mono)
  then show ?thesis
    using assms(1,2) unfolding kept_def by (metis add.assoc subset_mset.order_trans)
qed

lemma run_kept:
  assumes "client_run cfg P s"
  shows "kept (\<forall>e. P e \<longrightarrow> no_resend_error cfg e) (asked s) (told_callbacks s) (client s)"
  using assms
proof induction
  case (start t raw)
  show ?case by (simp add: kept_def)
next
  case (call_read s now t raw address cb)
  from kept_queue [OF call_read.IH run_wf [OF call_read(1)]] show ?case
    by (simp add: queueReadRequest_def)
next
  case (call_write s now t raw address data cb)
  from kept_queue [OF call_write.IH run_wf [OF call_write(1)]] show ?case
    by (simp add: queueWriteRequest_def)
next
  case (receive s t n result t' n' stop ev c')
  from kept_balanced [OF receive.IH receive_round_balanced [OF run_wf [OF receive(1)] receive(3)]]
  show ?case by simp
next
  case (send s now1 now2 now3 errno d ev bs c')
  note round = send_round_balanced [OF run_wf [OF send(1)] send(7)]
  show ?case
  proof (cases "\<forall>e. P e \<longrightarrow> no_resend_error cfg e")
    case True
    then have "balanced (client s) ev c'"
      using round(3) send(6) by (auto simp: no_resend_error_def)
    from kept_balanced [OF send.IH this] show ?thesis by simp
  next
    case False
    from kept_loses [OF send.IH False round(2)] show ?thesis by simp
  qed
next
  case (send_other s now1 now2 now3 errno d ev bs c')
  then have "balanced (client s) ev c'"
    using send_round_balanced(3) [OF run_wf [OF send_other(1)] send_other(6)] by simp
  from kept_balanced [OF send_other.IH this] show ?case by simp
qed


lemma run_timely:
  assumes "client_run cfg P s" and P: "\<And>e. P e \<Longrightarrow> e \<noteq> Some (cfg_EAGAIN cfg)"
  shows "timely (clock s) (client s)"
  using assms(1)
proof induction
  case (start t raw)
  then show ?case by (simp add: timely_new)
next
  case (call_read s now t raw address cb)
  from timely_queue [OF run_wf [OF call_read(1)] call_read.IH call_read(3)] show ?case
    by (simp add: queueReadRequest_def)
next
  case (call_write s now t raw address data cb)
  from timely_queue [OF run_wf [OF call_write(1)] call_write.IH call_write(3)] show ?case
    by (simp add: queueWriteRequest_def)
next
  case (receive s t n result t' n' stop ev c')
  from timely_receive_round [OF receive.IH receive(2,3)] show ?case by simp
next
  case (send s now1 now2 now3 errno d ev bs c')
  from timely_send_round [OF run_wf [OF send(1)] send.IH send(2-4) _ send(7)] P [OF send(6)]
  show ?case by simp
next
  case (send_other s now1 now2 now3 errno d ev bs c')
  from timely_send_round [OF run_wf [OF send_other(1)] send_other.IH send_other(2-4) _ send_other(6)]
    send_other(5)
  show ?case by simp
qed

section \<open>Sleeping\<close>

text \<open>A round that ends with \<^verbatim>\<open>select\<close> has sent nothing and changed no set of requests.\<close>

definition same_sets :: "Client \<Rightarrow> Client \<Rightarrow> bool" where
  "same_sets c c' \<longleftrightarrow> requestsByFirstTransmission c' = requestsByFirstTransmission c
     \<and> requestsByLastTransmission c' = requestsByLastTransmission c
     \<and> retransmitRequests c' = retransmitRequests c \<and> newRequests c' = newRequests c
     \<and> congestionWindow c' = congestionWindow c
     \<and> firstSendTime c' = firstSendTime c \<and> lastSendTime c' = lastSendTime c
     \<and> (\<forall>r. rq_queueTime (heap c' r) = rq_queueTime (heap c r))
     \<and> smoothedRoundTripTime c' = smoothedRoundTripTime c
     \<and> roundTripTimeVariation c' = roundTripTimeVariation c
     \<and> retransmissionTimeoutMultiplier c' = retransmissionTimeoutMultiplier c"

lemma same_sets_refl: "same_sets c c"
  by (simp add: same_sets_def)

lemma same_sets_trySend:
  assumes "trySendRequest cfg errno now r c = (Inr False, bs, c')"
  shows "same_sets c c' \<and> bs = []"
proof -
  obtain e where e: "errno = Some e"
    using assms by (cases errno) (auto simp: trySendRequest_def send_def Let_def)
  let ?q = "(heap c r)\<lparr>rq_lastRef := nextRef c,
    rq_packet := setRef (cfg_byteOrder cfg) (nextRef c) (rq_packet (heap c r))\<rparr>"
  have "c' = set_request r ?q c" "bs = []"
    using assms by (simp_all add: trySendRequest_def send_def Let_def e split: if_splits)
  then show ?thesis
    by (auto simp: same_sets_def firstSendTime_def lastSendTime_def fun_eq_iff)
qed

lemma transmit_sleeps:
  assumes "transmit cfg errno now c = (t, c')" "\<not> continueImmediately t"
  shows "same_sets c c'" "sentBytes t = []"
    "congestionWindow c > length (requestsByLastTransmission c) \<Longrightarrow>
      retransmitRequests c \<noteq> [] \<or> newRequests c \<noteq> [] \<Longrightarrow> waitForSocket t"
proof -
  have again: "same_sets c c' \<and> sentBytes t = [] \<and> waitForSocket t"
    if "transmit_again cfg errno now r c = (t, c')" for r
    using that assms(2) same_sets_trySend [of cfg errno now r c]
    by (auto simp: transmit_again_def split: if_splits prod.splits sum.splits bool.splits)
  have new: "same_sets c c' \<and> sentBytes t = [] \<and> waitForSocket t"
    if res: "transmit_new cfg off errno now r c = (t, c')" for off r
  proof -
    obtain x bs c1 where x: "trySendRequest cfg errno now r c = (x, bs, c1)" by (metis surj_pair)
    have "x = Inr False" "\<not> off"
      using res assms(2) x by (cases x; auto simp: transmit_new_def Let_def split: if_splits)+
    with x res same_sets_trySend [of cfg errno now r c] show ?thesis
      by (auto simp: transmit_new_def Let_def)
  qed
  have "same_sets c c' \<and> sentBytes t = []
    \<and> (congestionWindow c > length (requestsByLastTransmission c) \<longrightarrow>
      retransmitRequests c \<noteq> [] \<or> newRequests c \<noteq> [] \<longrightarrow> waitForSocket t)"
    using assms again new same_sets_refl
    by (auto simp: transmit_def no_transmission_def split: if_splits list.splits)
  then show "same_sets c c'" "sentBytes t = []"
    "congestionWindow c > length (requestsByLastTransmission c) \<Longrightarrow>
      retransmitRequests c \<noteq> [] \<or> newRequests c \<noteq> [] \<Longrightarrow> waitForSocket t" by blast+
qed


text \<open>The times that the checks of a state have to happen at, with a retransmission time-out \<open>rto\<close>.\<close>

definition deadlines :: "Config \<Rightarrow> int \<Rightarrow> Client \<Rightarrow> time set" where
  "deadlines cfg rto c =
     (\<lambda>r. firstSendTime c r + cfg_requestTimeout cfg) ` set (requestsByFirstTransmission c)
     \<union> (\<lambda>r. lastSendTime c r + rto) ` set (requestsByLastTransmission c)
     \<union> (if cfg_queueTimeout cfg \<noteq> 0
        then (\<lambda>r. rq_queueTime (heap c r) + cfg_queueTimeout cfg) ` set (take 1 (newRequests c)) else {})"

lemma checkSentRequests_all_deadlines:
  assumes t: "timely t c" "t \<le> now" and eq: "checkSentRequests cfg now c = (c', n)"
    and d: "d \<in> deadlines cfg (checkedTimeout cfg c c') c'"
  shows "now < d" "not_after n d"
proof -
  note dl = checkSentRequests_deadlines [OF t eq]
  have "now < d \<and> not_after n d"
    using d dl(1,2) dl(3) [of "hd (newRequests c')" "tl (newRequests c')"]
    unfolding deadlines_def rtoExpires_def
    by (cases "newRequests c'") (auto split: if_splits)
  then show "now < d" "not_after n d" by blast+
qed

lemma same_sets_deadlines:
  assumes "same_sets c c'"
  shows "deadlines cfg (checkedTimeout cfg c0 c') c' = deadlines cfg (checkedTimeout cfg c0 c) c"
proof -
  have "checkedTimeout cfg c0 c' = checkedTimeout cfg c0 c"
    using assms unfolding checkedTimeout_def same_sets_def by (intro retransmissionTimeout_cong) simp_all
  then show ?thesis using assms by (simp add: deadlines_def same_sets_def)
qed

lemma send_round_sleeps:
  assumes t: "timely t c" "t \<le> now1"
    and res: "send_round cfg now1 errno now2 now3 c = (Select w timer, ev, bs, c')"
  shows "bs = []"
    "length (requestsByLastTransmission c') < congestionWindow c' \<Longrightarrow>
       retransmitRequests c' \<noteq> [] \<or> newRequests c' \<noteq> [] \<Longrightarrow> w"
    "case timer of None \<Rightarrow> deadlines cfg (checkedTimeout cfg c c') c' = {}
     | Some (sec, usec) \<Rightarrow> 0 \<le> sec \<and> 0 \<le> usec \<and> usec < 1000000
         \<and> (\<forall>d\<in>deadlines cfg (checkedTimeout cfg c c') c'. now3 + sec * 1000000000 + usec * 1000 \<le> d)"
proof -
  obtain c1 n where 1: "checkSentRequests cfg now1 c = (c1, n)" by fastforce
  define c2 where "c2 = c1\<lparr>timeoutCallbacks := []\<rparr>"
  obtain tr c3 where 3: "transmit cfg errno now2 c2 = (tr, c3)" by fastforce
  have dec: "\<not> continueImmediately tr" "w = waitForSocket tr" "bs = sentBytes tr" "c' = c3"
    "timer = (if n \<noteq> 0 then Some (toTimeval (n - now3)) else None)" "n \<noteq> 0 \<Longrightarrow> now3 < n"
    using res by (auto simp: send_round_def 1 3 [unfolded c2_def] split: if_splits)
  note sleep = transmit_sleeps [OF 3 dec(1)]
  have "same_sets c1 c2" by (simp add: c2_def same_sets_def firstSendTime_def [abs_def] lastSendTime_def [abs_def])
  then have "same_sets c1 c3" using sleep(1) by (simp add: same_sets_def)
  then have dl: "deadlines cfg (checkedTimeout cfg c c') c' = deadlines cfg (checkedTimeout cfg c c1) c1"
    unfolding dec(4) by (rule same_sets_deadlines)
  note all = checkSentRequests_all_deadlines [OF t 1]
  show "bs = []" using sleep(2) dec by simp
  show "w" if "length (requestsByLastTransmission c') < congestionWindow c'"
    "retransmitRequests c' \<noteq> [] \<or> newRequests c' \<noteq> []"
    using sleep(1,3) that dec by (simp add: same_sets_def)
  show "case timer of None \<Rightarrow> deadlines cfg (checkedTimeout cfg c c') c' = {}
     | Some (sec, usec) \<Rightarrow> 0 \<le> sec \<and> 0 \<le> usec \<and> usec < 1000000
         \<and> (\<forall>d\<in>deadlines cfg (checkedTimeout cfg c c') c'. now3 + sec * 1000000000 + usec * 1000 \<le> d)"
  proof (cases "n = 0")
    case True
    then have "deadlines cfg (checkedTimeout cfg c c1) c1 = {}"
      using all(2) by (auto simp: not_after_def)
    with True dec(5) dl show ?thesis by simp
  next
    case False
    obtain sec usec where tv: "toTimeval (n - now3) = (sec, usec)" by fastforce
    note bounds = toTimeval_bounds [OF _ tv]
    have pos: "0 \<le> n - now3" using dec(6) False by simp
    have "now3 + sec * 1000000000 + usec * 1000 \<le> d"
      if "d \<in> deadlines cfg (checkedTimeout cfg c c1) c1" for d
      using all(2) [OF that] bounds(4) [OF pos] unfolding not_after_def by linarith
    then show ?thesis using bounds [OF pos] False dec(5) tv dl by simp
  qed
qed

lemma send_round_window:
  assumes "send_round cfg now1 errno now2 now3 c = (d, ev, bs, c')"
  shows "bs = [] \<or> length bs = 1 \<and> length (requestsByLastTransmission c') \<le> congestionWindow c'"
proof -
  obtain c1 n where 1: "checkSentRequests cfg now1 c = (c1, n)" by fastforce
  define c2 where "c2 = c1\<lparr>timeoutCallbacks := []\<rparr>"
  obtain tr c3 where 3: "transmit cfg errno now2 c2 = (tr, c3)" by fastforce
  have c3: "bs = sentBytes tr" "c' = c3"
    using assms by (auto simp: send_round_def 1 3 [unfolded c2_def])
  let ?ok = "sentBytes tr = [] \<or> length (sentBytes tr) = 1
    \<and> length (requestsByLastTransmission c3) = Suc (length (requestsByLastTransmission c2))
    \<and> congestionWindow c3 = congestionWindow c2"
  have again: ?ok if "transmit_again cfg errno now2 r c2 = (tr, c3)" for r
    using that
    by (cases rule: trySendRequest_cases [of cfg errno now2 r c2])
       (auto simp: transmit_again_def split: if_splits)
  have new: ?ok if "transmit_new cfg off errno now2 r c2 = (tr, c3)" for off r
    using that
    by (cases rule: trySendRequest_cases [of cfg errno now2 r c2])
       (auto simp: transmit_new_def Let_def split: if_splits)
  have "sentBytes tr = [] \<or> length (requestsByLastTransmission c2) < congestionWindow c2 \<and> ?ok"
    using 3 again new by (auto simp: transmit_def no_transmission_def split: if_splits list.splits)
  then show ?thesis by (auto simp: c3)
qed


section \<open>A run\<close>

definition demo_cfg :: Config where
  "demo_cfg = \<lparr>cfg_byteOrder = LittleEndian, cfg_EAGAIN = 11, cfg_ECONNREFUSED = 111, cfg_queueTimeout = 0,
     cfg_requestTimeout = seconds 5, cfg_round = id\<rparr>"

definition raw_Request :: Request where
  "raw_Request = new_Request LittleEndian
     \<lparr>rq_callback = None, rq_congestionWindowResetAfterSent = False, rq_firstSendTime = 0, rq_idempotent = False,
      rq_lastRef = 0, rq_lastSendTime = 0, rq_packet = MrfUdpPacket LittleEndian 0 0 0 0 0,
      rq_packetsInFlightWhenSent = 0, rq_queueTime = 0, rq_retransmitTime = 0, rq_sendTime = [],
      rq_successOrTimeout = False\<rparr> None 0 0 0 False 0"

definition raw_Client :: Client where
  "raw_Client = \<lparr>heap = (\<lambda>_. raw_Request), allocated = 0, congestionWindow = 0,
     congestionWindowIncrementCounter = 0, consecutiveLossesCount = 0, consecutiveLossesFirstRef = 0,
     consecutiveRequestTimeoutsCount = 0, lastReceivedRef = 0, lastReceivedRoundTripTime = 0,
     lastReceivedSendTime = 0, newRequests = [], nextRef = 0, refToRequest = Map.empty,
     reorderingWindowMultiplier = 0, reorderingWindowMultiplierResetCounter = 0,
     requestsByFirstTransmission = [], requestsByLastTransmission = [],
     retransmissionTimeoutMultiplier = 0, retransmitRequests = [], roundTripTimeVariation = 0,
     slowStartThreshold = 0, smoothedRoundTripTime = 0, timeoutCallbacks = []\<rparr>"

definition started :: ClientSys where
  "started = \<lparr>client = new_Client raw_Client, clock = seconds 1, asked = {#}, told = []\<rparr>"

definition asked_to_write :: "u32 \<Rightarrow> u16 \<Rightarrow> nat \<Rightarrow> ClientSys \<Rightarrow> ClientSys" where
  "asked_to_write address data f s =
     s\<lparr>client := queueWriteRequest demo_cfg raw_Request (clock s) address data (Some f) (client s),
       clock := clock s, asked := callback_mset (Some f) + asked s\<rparr>"

definition after_send :: "time \<Rightarrow> int option \<Rightarrow> ClientSys \<Rightarrow> ClientSys" where
  "after_send now errno s = (case send_round demo_cfg now errno now now (client s) of
     (d, ev, bs, c') \<Rightarrow> s\<lparr>client := c', clock := now, told := told s @ ev\<rparr>)"

definition after_reply :: "time \<Rightarrow> u32 \<Rightarrow> u16 \<Rightarrow> ClientSys \<Rightarrow> ClientSys" where
  "after_reply now ref data s =
     (case receive_round demo_cfg 0 (Datagram (wire_bytes LittleEndian
         ((MrfUdpPacket LittleEndian 2 0 0 ref 0)\<lparr>pk_data := htons LittleEndian data\<rparr>))) now (client s) of
       (n', stop, ev, c') \<Rightarrow> s\<lparr>client := c', clock := now, told := told s @ ev\<rparr>)"

lemma run_started: "client_run demo_cfg P started"
  unfolding started_def by (rule client_run.start) (simp add: seconds_def)

lemma run_asked: "client_run demo_cfg P s \<Longrightarrow> client_run demo_cfg P (asked_to_write address data f s)"
  unfolding asked_to_write_def by (rule client_run.call_write) simp_all

lemma run_after_send:
  assumes "client_run demo_cfg P s" "clock s \<le> now" "P errno \<or> \<not> resends demo_cfg now (client s)"
  shows "client_run demo_cfg P (after_send now errno s)"
proof -
  obtain d ev bs c' where res: "send_round demo_cfg now errno now now (client s) = (d, ev, bs, c')"
    by (metis surj_pair)
  show ?thesis
  proof (cases "resends demo_cfg now (client s)")
    case True
    with client_run.send [OF assms(1,2) order_refl order_refl True _ res] assms(3) show ?thesis
      by (simp add: after_send_def res)
  next
    case False
    from client_run.send_other [OF assms(1,2) order_refl order_refl False res] show ?thesis
      by (simp add: after_send_def res)
  qed
qed

lemma run_after_reply:
  assumes "client_run demo_cfg P s" "clock s \<le> now"
  shows "client_run demo_cfg P (after_reply now ref data s)"
proof -
  obtain n' stop ev c' where res: "receive_round demo_cfg 0 (Datagram (wire_bytes LittleEndian
      ((MrfUdpPacket LittleEndian 2 0 0 ref 0)\<lparr>pk_data := htons LittleEndian data\<rparr>))) now (client s)
      = (n', stop, ev, c')"
    by (metis surj_pair)
  from client_run.receive [OF assms res] show ?thesis by (simp add: after_reply_def res)
qed

text \<open>Two writes; the first one is answered, the other one is on its way.\<close>

definition demo_1 :: ClientSys where
  "demo_1 = after_send (seconds 1 + milliseconds 1) None (asked_to_write 4 7 100 (asked_to_write 0 5 101 started))"

definition demo_2 :: ClientSys where
  "demo_2 = after_send (seconds 1 + milliseconds 2) None demo_1"

definition demo_3 :: ClientSys where
  "demo_3 = after_reply (seconds 1 + milliseconds 6) 0 5 demo_2"

lemma demo_run: "client_run demo_cfg P demo_1" "client_run demo_cfg P demo_2" "client_run demo_cfg P demo_3"
proof -
  let ?s = "asked_to_write 4 7 100 (asked_to_write 0 5 101 started)"
  have "\<not> resends demo_cfg (seconds 1 + milliseconds 1) (client ?s)"
    "clock ?s \<le> seconds 1 + milliseconds 1"
    by code_simp+
  then show 1: "client_run demo_cfg P demo_1"
    unfolding demo_1_def by (intro run_after_send run_asked run_started) simp_all
  have "\<not> resends demo_cfg (seconds 1 + milliseconds 2) (client demo_1)"
    "clock demo_1 \<le> seconds 1 + milliseconds 2"
    by code_simp+
  then show 2: "client_run demo_cfg P demo_2"
    unfolding demo_2_def by (intro run_after_send 1) simp_all
  have "clock demo_2 \<le> seconds 1 + milliseconds 6" by code_simp
  then show "client_run demo_cfg P demo_3"
    unfolding demo_3_def by (intro run_after_reply 2)
qed

lemma demo_told: "told demo_3 = [Reply 101 5 0] \<and> requestsByFirstTransmission (client demo_3) = [1]
   \<and> clock demo_3 = 1006000000"
  by code_simp


text \<open>A write whose repetition fails, and one whose repetition has to wait for the socket.\<close>

definition sent_once :: ClientSys where
  "sent_once = after_send (seconds 1 + milliseconds 1) None (asked_to_write 0 5 101 started)"

definition resend_failed :: ClientSys where
  "resend_failed = after_send (seconds 7) None (after_send (seconds 2) (Some 5) sent_once)"

definition resend_waited :: ClientSys where
  "resend_waited = after_send (seconds 3) None
     (after_reply (seconds 2 + milliseconds 100) 0 5 (after_send (seconds 2) (Some 11) sent_once))"

lemma resend_runs:
  "client_run demo_cfg (\<lambda>_. True) resend_failed" "client_run demo_cfg (no_resend_error demo_cfg) resend_waited"
proof -
  let ?s = "asked_to_write 0 5 101 started"
  have "\<not> resends demo_cfg (seconds 1 + milliseconds 1) (client ?s)" "clock ?s \<le> seconds 1 + milliseconds 1"
    by code_simp+
  then have 1: "client_run demo_cfg P sent_once" for P
    unfolding sent_once_def by (intro run_after_send run_asked run_started) simp_all
  have "clock sent_once \<le> seconds 2"
    "clock (after_send (seconds 2) (Some 5) sent_once) \<le> seconds 7"
    "clock (after_send (seconds 2) (Some 11) sent_once) \<le> seconds 2 + milliseconds 100"
    "clock (after_reply (seconds 2 + milliseconds 100) 0 5 (after_send (seconds 2) (Some 11) sent_once)) \<le> seconds 3"
    by code_simp+
  then show "client_run demo_cfg (\<lambda>_. True) resend_failed"
    "client_run demo_cfg (no_resend_error demo_cfg) resend_waited"
    unfolding resend_failed_def resend_waited_def
    by (intro run_after_send run_after_reply 1; simp add: no_resend_error_def demo_cfg_def)+
qed

section \<open>Properties\<close>

text \<open>
  C8. No callback is lost: in every run, whatever the network does, every callback that was passed to
  the client has been told of a reply, a failure or a time-out, or it is still open.
\<close>

theorem no_callback_lost:
  assumes "client_run cfg P s"
  shows "asked s \<subseteq># told_callbacks s + open_callbacks (client s)"
  using run_kept [OF assms] by (simp add: kept_def)

theorem no_callback_lost_witness:
  "asked demo_3 = {#100, 101#} \<and> asked demo_3 \<subseteq># told_callbacks demo_3 + open_callbacks (client demo_3)"
proof
  show "asked demo_3 = {#100, 101#}" by code_simp
qed (rule no_callback_lost [OF demo_run(3)])

text \<open>
  C7. Each callback is told exactly once: if no repetition of a packet fails with an error other than
  \<^verbatim>\<open>EAGAIN\<close>, the callbacks passed to the client are, with their multiplicities, those that have been
  told something and those that are still open.
\<close>

theorem callbacks_told_exactly_once:
  assumes "client_run cfg (no_resend_error cfg) s"
  shows "asked s = told_callbacks s + open_callbacks (client s)"
  using run_kept [OF assms] by (simp add: kept_def)

theorem callbacks_told_exactly_once_witness:
  "asked demo_3 = {#100, 101#} \<and> told demo_3 = [Reply 101 5 0]
   \<and> asked demo_3 = told_callbacks demo_3 + open_callbacks (client demo_3)"
proof (intro conjI)
  show "asked demo_3 = {#100, 101#}" by code_simp
  show "told demo_3 = [Reply 101 5 0]" using demo_told by simp
  show "asked demo_3 = told_callbacks demo_3 + open_callbacks (client demo_3)"
    by (rule callbacks_told_exactly_once [OF demo_run(3)])
qed

text \<open>
  The restriction is needed: when the repetition of a write fails, its callback is told of the
  failure and of the time-out of the same request.
\<close>

lemma resend_error_notifies_twice:
  "\<exists>s. client_run demo_cfg (\<lambda>_. True) s \<and> asked s = {#101#} \<and> told s = [SendFailed 101 5, TimedOut 101]"
proof (intro exI conjI)
  show "client_run demo_cfg (\<lambda>_. True) resend_failed" by (rule resend_runs)
  show "asked resend_failed = {#101#}" "told resend_failed = [SendFailed 101 5, TimedOut 101]"
    by code_simp+
qed









text \<open>
  The retransmission time-out is the product of the base and the multiplier, computed without
  overflow of 64 bits and clamped: it is at least the smaller and at most the greater one of the lower
  limit and 60 seconds.
\<close>

lemma retransmission_timeout_saturates:
  assumes "client_run cfg P s"
  shows "retransmissionTimeout cfg (client s) =
      (let product = rtoBase cfg (client s) * uint (retransmissionTimeoutMultiplier (client s))
       in if product > 2 ^ 63 - 1 then seconds 60 else max (min product (seconds 60)) (rtoLowerLimit cfg))
    \<and> min (rtoLowerLimit cfg) (seconds 60) \<le> retransmissionTimeout cfg (client s)
    \<and> retransmissionTimeout cfg (client s) \<le> max (rtoLowerLimit cfg) (seconds 60)"
proof -
  have ok: "params_ok (client s)" by (rule run_params [OF assms])
  then obtain k where "k \<le> 30" "retransmissionTimeoutMultiplier (client s) = 2 ^ k"
    by (auto simp: params_ok_def)
  then have m: "sint (retransmissionTimeoutMultiplier (client s)) = uint (retransmissionTimeoutMultiplier (client s))"
    using multiplier_uint by (simp add: multiplier_sint)
  define b where "b = rtoBase cfg (client s) * uint (retransmissionTimeoutMultiplier (client s))"
  have "retransmissionTimeout cfg (client s)
      = (if b > 2 ^ 63 - 1 then seconds 60 else max (min b (seconds 60)) (rtoLowerLimit cfg))"
    using rto_eq [OF ok, of cfg, unfolded m, folded b_def] by (simp add: duration_max_def rtoUpperLimit_def)
  then show ?thesis
    unfolding b_def [symmetric] Let_def by auto
qed

theorem retransmission_timeout_saturates_witness:
  "retransmissionTimeout demo_cfg (client demo_1) = milliseconds 500
   \<and> retransmissionTimeout demo_cfg (client demo_1) \<le> max (rtoLowerLimit demo_cfg) (seconds 60)"
proof
  show "retransmissionTimeout demo_cfg (client demo_1) = milliseconds 500" by code_simp
  show "retransmissionTimeout demo_cfg (client demo_1) \<le> max (rtoLowerLimit demo_cfg) (seconds 60)"
    using retransmission_timeout_saturates [OF demo_run(1)] by blast
qed

text \<open>
  Reference numbers are compared as on a circle: of the next 2 ^ 32 numbers after \<open>ref\<close>, the first
  2 ^ 31 - 1 (\<open>ref\<close> itself included) count as greater, also across the wrap-around to zero.
\<close>

lemma references_wrap_around:
  "refGreaterThan (ref + word_of_nat k) ref \<longleftrightarrow> k mod 2 ^ 32 < 2 ^ 31 - 1"
  by (simp add: refGreaterThan_iff unat_of_nat)

text \<open>
  A repetition that has to wait for the socket breaks the sets of the client: the reference number
  it has been given is not the one of the packet in flight, the reply to that packet does not complete
  the write, and the write is entered a second time into \<^verbatim>\<open>requestsByFirstTransmission\<close> when it is
  repeated.
\<close>

lemma waiting_repetition_enters_twice:
  "\<exists>s. client_run demo_cfg (no_resend_error demo_cfg) s
     \<and> requestsByFirstTransmission (client s) = [0, 0] \<and> told s = []"
proof (intro exI conjI)
  show "client_run demo_cfg (no_resend_error demo_cfg) resend_waited" by (rule resend_runs)
  show "requestsByFirstTransmission (client resend_waited) = [0, 0]" "told resend_waited = []"
    by code_simp+
qed


section \<open>The round-trip time\<close>

text \<open>
  What the estimates need of the floating-point numbers of the host: rounding keeps the order and the
  numbers the code computes with first.
\<close>

definition good_rounding :: "(rat \<Rightarrow> rat) \<Rightarrow> bool" where
  "good_rounding rnd \<longleftrightarrow> mono rnd \<and> rnd 0 = 0 \<and> rnd 1 = 1 \<and> rnd (1 / 2) = 1 / 2 \<and> rnd 8 = 8"

lemma good_rounding_le:
  "good_rounding rnd \<Longrightarrow> 0 \<le> x \<Longrightarrow> 0 \<le> rnd x" "good_rounding rnd \<Longrightarrow> x \<le> 1 \<Longrightarrow> rnd x \<le> 1"
  "good_rounding rnd \<Longrightarrow> x \<le> 1 / 2 \<Longrightarrow> rnd x \<le> 1 / 2" "good_rounding rnd \<Longrightarrow> 8 \<le> x \<Longrightarrow> 8 \<le> rnd x"
  "good_rounding rnd \<Longrightarrow> 1 \<le> x \<Longrightarrow> 1 \<le> rnd x"
  unfolding good_rounding_def by (metis monoD)+

lemma to_nanoseconds_nonneg: "0 \<le> x \<Longrightarrow> 0 \<le> to_nanoseconds x"
  by (simp add: to_nanoseconds_def)

lemma mix_nonneg:
  assumes "good_rounding rnd" "0 \<le> w" "w \<le> 1" "0 \<le> (a :: int)" "0 \<le> (b :: int)"
  shows "0 \<le> to_nanoseconds (rnd (rnd (rnd (1 - w) * rnd (of_int a)) + rnd (w * rnd (of_int b))))"
proof -
  note pos = good_rounding_le(1) [OF assms(1)]
  have "0 \<le> rnd (1 - w)" "0 \<le> rnd (of_int a)" "0 \<le> rnd (of_int b)"
    using assms by (intro pos; simp)+
  then have "0 \<le> rnd (1 - w) * rnd (of_int a)" "0 \<le> w * rnd (of_int b)" using assms(2) by simp_all
  then show ?thesis by (intro to_nanoseconds_nonneg pos add_nonneg_nonneg)
qed

text \<open>
  The estimates of the round-trip time and of its variation stay non-negative, for any rounding of
  floating-point numbers that keeps the order and a few small numbers, and the first measurement gives
  the estimate itself and half of it as the variation.
\<close>

lemma round_trip_estimates_nonnegative:
  assumes "good_rounding (cfg_round cfg)" "0 \<le> measurement"
    and "0 \<le> smoothedRoundTripTime c" "0 \<le> roundTripTimeVariation c"
  shows "0 \<le> smoothedRoundTripTime (updateRoundTripTime cfg measurement c)
    \<and> 0 \<le> roundTripTimeVariation (updateRoundTripTime cfg measurement c)
    \<and> (smoothedRoundTripTime c = 0 \<and> roundTripTimeVariation c = 0 \<longrightarrow>
        smoothedRoundTripTime (updateRoundTripTime cfg measurement c) = measurement
        \<and> roundTripTimeVariation (updateRoundTripTime cfg measurement c) = measurement div 2)"
proof (cases "smoothedRoundTripTime c = 0 \<and> roundTripTimeVariation c = 0")
  case True
  then show ?thesis using assms(2) by (simp add: updateRoundTripTime_def sdiv_nonneg)
next
  case False
  let ?rnd = "cfg_round cfg"
  note le = good_rounding_le [OF assms(1)]
  define n where "n = ?rnd (of_nat (max (length (requestsByFirstTransmission c) div 2) 1))"
  have n: "1 \<le> n" unfolding n_def by (rule le(5)) (simp add: max_def)
  define alpha where "alpha = ?rnd (1 / ?rnd (8 * n))"
  have "8 \<le> ?rnd (8 * n)" using n by (intro le(4)) simp
  then have "0 \<le> 1 / ?rnd (8 * n)" "1 / ?rnd (8 * n) \<le> 1 / 2" by (simp_all add: field_simps)
  then have alpha: "0 \<le> alpha" "alpha \<le> 1 / 2" unfolding alpha_def by (intro le(1) le(3); simp)+
  define beta where "beta = ?rnd (alpha * 2)"
  have beta: "0 \<le> beta" "beta \<le> 1" using alpha unfolding beta_def by (intro le(1) le(2); simp)+
  have "smoothedRoundTripTime (updateRoundTripTime cfg measurement c)
      = to_nanoseconds (?rnd (?rnd (?rnd (1 - alpha) * ?rnd (of_int (smoothedRoundTripTime c))) + ?rnd (alpha * ?rnd (of_int measurement))))"
    using False by (auto simp: updateRoundTripTime_def Let_def alpha_def n_def)
  then have "0 \<le> smoothedRoundTripTime (updateRoundTripTime cfg measurement c)"
    using mix_nonneg [OF assms(1) alpha(1) _ assms(3) assms(2)] alpha(2) by simp
  moreover define diff where "diff = (if smoothedRoundTripTime c > measurement
      then smoothedRoundTripTime c - measurement else measurement - smoothedRoundTripTime c)"
  have "roundTripTimeVariation (updateRoundTripTime cfg measurement c)
      = to_nanoseconds (?rnd (?rnd (?rnd (1 - beta) * ?rnd (of_int (roundTripTimeVariation c))) + ?rnd (beta * ?rnd (of_int diff))))"
    using False by (auto simp: updateRoundTripTime_def Let_def alpha_def beta_def n_def diff_def)
  then have "0 \<le> roundTripTimeVariation (updateRoundTripTime cfg measurement c)"
    using mix_nonneg [OF assms(1) beta assms(4), of diff] by (simp add: diff_def)
  ultimately show ?thesis using False by blast
qed

theorem round_trip_estimates_nonnegative_witness:
  "0 \<le> smoothedRoundTripTime (updateRoundTripTime demo_cfg 9000000 (client demo_3))
   \<and> smoothedRoundTripTime (updateRoundTripTime demo_cfg 9000000 (client demo_3)) = 5500000"
proof
  show "smoothedRoundTripTime (updateRoundTripTime demo_cfg 9000000 (client demo_3)) = 5500000"
    by code_simp
  have "good_rounding (cfg_round demo_cfg)" by (simp add: good_rounding_def demo_cfg_def mono_def)
  moreover have "0 \<le> smoothedRoundTripTime (client demo_3)" "0 \<le> roundTripTimeVariation (client demo_3)"
    by code_simp+
  ultimately show "0 \<le> smoothedRoundTripTime (updateRoundTripTime demo_cfg 9000000 (client demo_3))"
    using round_trip_estimates_nonnegative [of demo_cfg 9000000 "client demo_3"] by simp
qed


section \<open>Construction, and the order of the sets\<close>

text \<open>
  The constructor leaks no socket: when it throws, every descriptor it has opened is closed again;
  when it does not, nothing is closed, the arguments are in range and the first address of
  \<^verbatim>\<open>getaddrinfo\<close> is used.
\<close>

lemma constructor_closes_socket:
  "let fds = (case out_socket out of Inl _ \<Rightarrow> [] | Inr fd \<Rightarrow> [fd]) in case MrfUdpIpClient_construct n queueTimeout requestTimeout out of
     (Inl e, cl) \<Rightarrow> cl = (case e of NonBlockingError _ \<Rightarrow> fds | ConnectError _ \<Rightarrow> fds | ThreadError \<Rightarrow> fds | _ \<Rightarrow> [])
   | (Inr (fd, address), cl) \<Rightarrow> cl = [] \<and> out_socket out = Inr fd
       \<and> 0 \<le> queueTimeout \<and> 0 < requestTimeout
       \<and> (\<exists>rest. out_getaddrinfo out = Inr ((n, address) # rest))"
proof -
  have found: "fst info = n \<and> snd info = a" if "find_address n info rest = Some a"
    for a info and rest :: "(nat \<times> 'b) list"
    using that by (induction rest) (simp_all split: if_splits)
  have first: "\<exists>rest. infos = (n, a) # rest" if "resolve_address n infos = Some a"
    for infos :: "(nat \<times> 'b) list" and a
  proof (cases infos)
    case (Cons i rest)
    with that have "find_address n i infos = Some a" by (simp add: resolve_address_def)
    from found [OF this] have "i = (n, a)" by (simp add: prod_eq_iff)
    with Cons show ?thesis by blast
  qed (use that in \<open>simp add: resolve_address_def\<close>)
  show ?thesis
    by (auto simp: MrfUdpIpClient_construct_def MrfUdpIpClient_check_def
        split: sum.splits option.splits if_splits dest!: first)
qed

text \<open>
  The comparators of the sets order the requests by their times; the position of an insertion is the upper bound of the comparator.
\<close>

lemma comparators_order_requests:
  "(RequestFirstSendTimeComparator (heap c) (Some a) (Some b) \<longleftrightarrow> firstSendTime c a < firstSendTime c b)
   \<and> (RequestLastSendTimeComparator (heap c) (Some a) (Some b) \<longleftrightarrow> lastSendTime c a < lastSendTime c b)
   \<and> (RequestRetransmitTimeComparator (heap c) (Some a) (Some b) \<longleftrightarrow> retransmitTime c a < retransmitTime c b)
   \<and> insert_hint_end (firstSendTime c) a xs =
       takeWhile (\<lambda>x. \<not> RequestFirstSendTimeComparator (heap c) (Some a) (Some x)) xs @ a
         # dropWhile (\<lambda>x. \<not> RequestFirstSendTimeComparator (heap c) (Some a) (Some x)) xs
   \<and> insert_hint_end (lastSendTime c) a xs =
       takeWhile (\<lambda>x. \<not> RequestLastSendTimeComparator (heap c) (Some a) (Some x)) xs @ a
         # dropWhile (\<lambda>x. \<not> RequestLastSendTimeComparator (heap c) (Some a) (Some x)) xs
   \<and> insert_hint_end (retransmitTime c) a xs =
       takeWhile (\<lambda>x. \<not> RequestRetransmitTimeComparator (heap c) (Some a) (Some x)) xs @ a
         # dropWhile (\<lambda>x. \<not> RequestRetransmitTimeComparator (heap c) (Some a) (Some x)) xs"
  by (simp add: RequestFirstSendTimeComparator_def RequestLastSendTimeComparator_def
      RequestRetransmitTimeComparator_def firstSendTime_def lastSendTime_def retransmitTime_def
      insert_hint_end_def not_less)

end
