(* ===== verification/UdpMemoryAccess.thy ===== *)
theory UdpMemoryAccess
  imports MemoryAccess UdpClient
begin

text \<open>
  The memory access over UDP/IP (\<^verbatim>\<open>mrfApp/mrfUdpIpSrc/MrfUdpIpMemoryAccess.{h,cpp}\<close>): the callbacks
  that turn the replies to 16-bit packets into notifications of 16-bit and 32-bit operations.
\<close>

section \<open>Errors\<close>

text \<open>An exception that is passed to a callback: its class, and the text of \<^verbatim>\<open>what()\<close> if it has one.\<close>

datatype exception = TimeoutException | StdException string | OtherException

definition exceptionToErrorCodeAndMessage :: "exception \<Rightarrow> ErrorCode \<times> string" where
  "exceptionToErrorCodeAndMessage e = (case e of
     TimeoutException \<Rightarrow> (EC_networkTimeout, [])
   | StdException text \<Rightarrow> (EC_unknown, text)
   | OtherException \<Rightarrow> (EC_unknown, []))"

definition statusToErrorCode :: "8 word \<Rightarrow> ErrorCode" where
  "statusToErrorCode status =
     (if sint status = -1 then EC_invalidAddress
      else if sint status = -2 then EC_fpgaTimeout
      else if sint status = -3 then EC_invalidCommand
      else EC_unknown)"

text \<open>The arguments of a callback of the client.\<close>

record completion =
  receivedData :: u16
  receivedStatus :: "8 word"
  cpl_exception :: "exception option"

text \<open>What the client's events mean for a callback; \<open>what\<close> gives the text of an error number.\<close>

fun event_completion :: "(int \<Rightarrow> string) \<Rightarrow> client_event \<Rightarrow> completion" where
  "event_completion what (Reply f d s) = \<lparr>receivedData = d, receivedStatus = s, cpl_exception = None\<rparr>"
| "event_completion what (SendFailed f e) =
     \<lparr>receivedData = 0, receivedStatus = 0, cpl_exception = Some (StdException (what e))\<rparr>"
| "event_completion what (PeerOffline f) =
     \<lparr>receivedData = 0, receivedStatus = 0, cpl_exception = Some (StdException ''Peer is offline'')\<rparr>"
| "event_completion what (TimedOut f) =
     \<lparr>receivedData = 0, receivedStatus = 0, cpl_exception = Some TimeoutException\<rparr>"

text \<open>The error a completion stands for, if it does: the test all callbacks begin with.\<close>

definition completion_error :: "completion \<Rightarrow> (ErrorCode \<times> string) option" where
  "completion_error cpl = (case cpl_exception cpl of
     Some e \<Rightarrow> Some (exceptionToErrorCodeAndMessage e)
   | None \<Rightarrow> if receivedStatus cpl \<noteq> 0 then Some (statusToErrorCode (receivedStatus cpl), []) else None)"

section \<open>The callbacks\<close>

text \<open>
  The callbacks of the operations are known by numbers, too (\<open>None\<close> is a null pointer); the data that
  the two callbacks of a 32-bit read share are known by their position in a list.
\<close>

record UInt32ReadShared =
  sh_address :: u32
  sh_data :: u32
  sh_failed :: bool
  gotLow :: bool
  gotHigh :: bool
  sh_callback :: "nat option"

definition new_UInt32ReadShared :: "u32 \<Rightarrow> nat option \<Rightarrow> UInt32ReadShared" where
  "new_UInt32ReadShared address callback = \<lparr>sh_address = address, sh_data = 0, sh_failed = False,
     gotLow = False, gotHigh = False, sh_callback = callback\<rparr>"

datatype RequestCallback =
    UInt16Callback u32 "nat option"
  | UInt32ReadLowCallback nat
  | UInt32ReadHighCallback nat
  | UInt32WriteLowCallback u32 u16 "nat option"
  | UInt32WriteHighCallback u32 u16 "nat option"

text \<open>
  What an operation or a callback does: requests it queues with the client and notifications of the
  caller's callbacks.
\<close>

datatype request = QueueRead u32 RequestCallback | QueueWrite u32 u16 RequestCallback

definition UInt16Callback_call :: "u32 \<Rightarrow> nat option \<Rightarrow> completion \<Rightarrow> notification list" where
  "UInt16Callback_call address callback cpl = (case completion_error cpl of
     Some (errorCode, message) \<Rightarrow> notify16 callback (Failure address errorCode message)
   | None \<Rightarrow> notify16 callback (Success address (receivedData cpl)))"

text \<open>Whether the low word asks for the high word again is the first component.\<close>

definition receivedLow :: "u16 \<Rightarrow> UInt32ReadShared \<Rightarrow> bool \<times> UInt32ReadShared" where
  "receivedLow data sh =
     (if sh_failed sh \<or> gotLow sh then (False, sh)
      else (gotHigh sh, sh\<lparr>gotLow := True, sh_data := ucast data, gotHigh := False\<rparr>))"

definition receivedHigh :: "u16 \<Rightarrow> UInt32ReadShared \<Rightarrow> notification list \<times> UInt32ReadShared" where
  "receivedHigh data sh =
     (if sh_failed sh \<or> gotHigh sh then ([], sh)
      else
        let sh' = sh\<lparr>gotHigh := True, sh_data := sh_data sh OR push_bit 16 (ucast data)\<rparr>
        in (if gotLow sh' then notify32 (sh_callback sh') (Success (sh_address sh') (sh_data sh')) else [],
            sh'))"

definition shared_failure :: "ErrorCode \<Rightarrow> string \<Rightarrow> UInt32ReadShared \<Rightarrow> notification list \<times> UInt32ReadShared" where
  "shared_failure errorCode details sh =
     (if sh_failed sh then ([], sh)
      else let sh' = sh\<lparr>sh_failed := True\<rparr>
        in (if gotLow sh' \<and> gotHigh sh' then []
            else notify32 (sh_callback sh') (Failure (sh_address sh') errorCode details), sh'))"

definition UInt32ReadLowCallback_call ::
    "u32 \<Rightarrow> nat \<Rightarrow> completion \<Rightarrow> UInt32ReadShared \<Rightarrow> notification list \<times> request list \<times> UInt32ReadShared" where
  "UInt32ReadLowCallback_call baseAddress i cpl sh = (case completion_error cpl of
     Some (errorCode, message) \<Rightarrow>
       (case shared_failure errorCode message sh of (ns, sh') \<Rightarrow> (ns, [], sh'))
   | None \<Rightarrow> (case receivedLow (receivedData cpl) sh of (sendHighAgain, sh') \<Rightarrow>
       ([], if sendHighAgain then [QueueRead (baseAddress + sh_address sh') (UInt32ReadHighCallback i)] else [], sh')))"

definition UInt32ReadHighCallback_call ::
    "completion \<Rightarrow> UInt32ReadShared \<Rightarrow> notification list \<times> UInt32ReadShared" where
  "UInt32ReadHighCallback_call cpl sh = (case completion_error cpl of
     Some (errorCode, message) \<Rightarrow> shared_failure errorCode message sh
   | None \<Rightarrow> receivedHigh (receivedData cpl) sh)"

definition UInt32WriteLowCallback_call ::
    "u32 \<Rightarrow> u16 \<Rightarrow> nat option \<Rightarrow> completion \<Rightarrow> notification list" where
  "UInt32WriteLowCallback_call address highData callback cpl = (case completion_error cpl of
     Some (errorCode, message) \<Rightarrow> notify32 callback (Failure address errorCode message)
   | None \<Rightarrow> notify32 callback (Success address (push_bit 16 (ucast highData) OR ucast (receivedData cpl))))"

text \<open>
  Whether queueing a request throws is an outcome: the client allocates memory. The handlers use the
  callback without looking whether it is null, which is \<open>None\<close> here.
\<close>

datatype queue_outcome = Queued | QueueThrows exception

fun queue_text :: "string \<Rightarrow> exception \<Rightarrow> string" where
  "queue_text operation (StdException text) = ''The '' @ operation @ '' request could not be queued: '' @ text"
| "queue_text operation TimeoutException = ''The '' @ operation @ '' request could not be queued: Request timeout''"
| "queue_text operation OtherException = ''The '' @ operation @ '' request could not be queued.''"

definition UInt32WriteHighCallback_call ::
    "u32 \<Rightarrow> u32 \<Rightarrow> u16 \<Rightarrow> nat option \<Rightarrow> queue_outcome \<Rightarrow> completion
      \<Rightarrow> (notification list \<times> request list) option" where
  "UInt32WriteHighCallback_call baseAddress address lowData callback out cpl = (case completion_error cpl of
     Some (errorCode, message) \<Rightarrow> Some (notify32 callback (Failure address errorCode message), [])
   | None \<Rightarrow> (case out of
       Queued \<Rightarrow> Some ([], [QueueWrite (baseAddress + address + 2) lowData
         (UInt32WriteLowCallback address (receivedData cpl) callback)])
     | QueueThrows e \<Rightarrow> (case callback of
         None \<Rightarrow> None
       | Some f \<Rightarrow> Some ([Notify32 f (Failure address EC_unknown (queue_text ''write'' e))], []))))"

section \<open>The operations\<close>

definition readUInt16 :: "u32 \<Rightarrow> u32 \<Rightarrow> nat option \<Rightarrow> request" where
  "readUInt16 baseAddress address callback =
     QueueRead (baseAddress + address) (UInt16Callback address callback)"

definition writeUInt16 :: "u32 \<Rightarrow> u32 \<Rightarrow> u16 \<Rightarrow> nat option \<Rightarrow> request" where
  "writeUInt16 baseAddress address value16 callback =
     QueueWrite (baseAddress + address) value16 (UInt16Callback address callback)"

text \<open>
  \<open>i\<close> is the position of the new shared data, \<open>out\<close> the outcome of the second call of the client (an
  exception of the first one is passed on to the caller).
\<close>

definition readUInt32 ::
    "u32 \<Rightarrow> nat \<Rightarrow> u32 \<Rightarrow> nat option \<Rightarrow> queue_outcome
      \<Rightarrow> (notification list \<times> request list \<times> UInt32ReadShared) option" where
  "readUInt32 baseAddress i address callback out =
     (let sharedData = new_UInt32ReadShared address callback;
          low = QueueRead (baseAddress + address + 2) (UInt32ReadLowCallback i)
      in case out of
        Queued \<Rightarrow> Some ([], [low, QueueRead (baseAddress + address) (UInt32ReadHighCallback i)], sharedData)
      | QueueThrows e \<Rightarrow> (case callback of
          None \<Rightarrow> None
        | Some f \<Rightarrow> Some ([Notify32 f (Failure address EC_unknown (queue_text ''read'' e))], [low], sharedData)))"

definition writeUInt32 :: "u32 \<Rightarrow> u32 \<Rightarrow> u32 \<Rightarrow> nat option \<Rightarrow> request" where
  "writeUInt32 baseAddress address value32 callback =
     (let lowWord = ucast value32 :: u16;
          highWord = ucast (drop_bit 16 value32) :: u16
      in QueueWrite (baseAddress + address) highWord (UInt32WriteHighCallback address lowWord callback))"


text \<open>The base addresses of the devices and the timeouts of the constructor that takes none.\<close>

definition baseAddressVmeEvgCrCsr :: u32 where "baseAddressVmeEvgCrCsr = 0x00000000"
definition baseAddressVmeEvgRegister :: u32 where "baseAddressVmeEvgRegister = 0x80000000"
definition baseAddressVmeEvrCrCsr :: u32 where "baseAddressVmeEvrCrCsr = 0x78000000"
definition baseAddressVmeEvrRegister :: u32 where "baseAddressVmeEvrRegister = 0x7a000000"

definition default_timeouts :: "int \<times> int" where
  "default_timeouts = (0, seconds 5)"

section \<open>The course of a 32-bit read\<close>

text \<open>The completions of its requests, in the order in which the client makes them.\<close>

datatype half = LowWord completion | HighWord completion

fun half_completion :: "half \<Rightarrow> completion" where
  "half_completion (LowWord c) = c"
| "half_completion (HighWord c) = c"

fun read32_step :: "u32 \<Rightarrow> nat \<Rightarrow> half \<Rightarrow> UInt32ReadShared \<Rightarrow> notification list \<times> request list \<times> UInt32ReadShared" where
  "read32_step baseAddress i (LowWord c) sh = UInt32ReadLowCallback_call baseAddress i c sh"
| "read32_step baseAddress i (HighWord c) sh = (case UInt32ReadHighCallback_call c sh of (ns, sh') \<Rightarrow> (ns, [], sh'))"

fun read32_run :: "u32 \<Rightarrow> nat \<Rightarrow> half list \<Rightarrow> UInt32ReadShared \<Rightarrow> notification list \<times> request list" where
  "read32_run baseAddress i [] sh = ([], [])"
| "read32_run baseAddress i (h # hs) sh =
     (case read32_step baseAddress i h sh of (ns, rs, sh') \<Rightarrow>
        (case read32_run baseAddress i hs sh' of (ns', rs') \<Rightarrow> (ns @ ns', rs @ rs')))"

text \<open>
  The reference: the first error ends the read; the value is made of the first low word and of the
  first high word that comes after it.
\<close>

fun await_high :: "u32 \<Rightarrow> nat option \<Rightarrow> u16 \<Rightarrow> half list \<Rightarrow> notification list" where
  "await_high a cb low [] = []"
| "await_high a cb low (h # hs) = (case completion_error (half_completion h) of
     Some (e, m) \<Rightarrow> notify32 cb (Failure a e m)
   | None \<Rightarrow> (case h of
       HighWord c \<Rightarrow> notify32 cb (Success a (push_bit 16 (ucast (receivedData c)) OR ucast low))
     | LowWord c \<Rightarrow> await_high a cb low hs))"

fun await_low :: "u32 \<Rightarrow> nat option \<Rightarrow> half list \<Rightarrow> notification list" where
  "await_low a cb [] = []"
| "await_low a cb (h # hs) = (case completion_error (half_completion h) of
     Some (e, m) \<Rightarrow> notify32 cb (Failure a e m)
   | None \<Rightarrow> (case h of
       LowWord c \<Rightarrow> await_high a cb (receivedData c) hs
     | HighWord c \<Rightarrow> await_low a cb hs))"

lemmas read32_defs = UInt32ReadLowCallback_call_def UInt32ReadHighCallback_call_def receivedLow_def
  receivedHigh_def shared_failure_def Let_def

text \<open>After a failure, or when the value is complete, nothing happens any more.\<close>

lemma read32_failed:
  "sh_failed sh \<Longrightarrow> read32_run base i hs sh = ([], [])"
proof (induction hs arbitrary: sh)
  case (Cons h hs)
  then have "read32_step base i h sh = ([], [], sh)"
    by (cases h) (auto simp: read32_defs split: option.splits)
  with Cons show ?case by simp
qed simp

lemma read32_complete:
  "gotLow sh \<Longrightarrow> gotHigh sh \<Longrightarrow> read32_run base i hs sh = ([], [])"
proof (induction hs arbitrary: sh)
  case (Cons h hs)
  obtain sh' where "read32_step base i h sh = ([], [], sh')" "gotLow sh'" "gotHigh sh'"
    using Cons.prems by (cases h; cases "sh_failed sh"; cases "completion_error (half_completion h)")
      (auto simp: read32_defs)
  with Cons.IH [of sh'] show ?case by simp
qed simp

lemma read32_await_high:
  assumes "\<not> sh_failed sh" "gotLow sh" "\<not> gotHigh sh" "sh_data sh = ucast low"
    "sh_address sh = a" "sh_callback sh = cb"
  shows "read32_run base i hs sh = (await_high a cb low hs, [])"
  using assms
proof (induction hs arbitrary: sh)
  case (Cons h hs)
  show ?case
  proof (cases "completion_error (half_completion h)")
    case None
    then show ?thesis
      using Cons.prems Cons.IH [OF Cons.prems]
      by (cases h) (simp_all add: read32_defs read32_complete or.commute)
  next
    case (Some em)
    then show ?thesis
      using Cons.prems by (cases h; cases em) (simp_all add: read32_defs read32_failed)
  qed
qed simp

lemma read32_await_low:
  assumes "\<not> sh_failed sh" "\<not> gotLow sh" "sh_address sh = a" "sh_callback sh = cb"
  shows "fst (read32_run base i hs sh) = await_low a cb hs" "length (snd (read32_run base i hs sh)) \<le> 1"
proof -
  have "fst (read32_run base i hs sh) = await_low a cb hs \<and> length (snd (read32_run base i hs sh)) \<le> 1"
    using assms
  proof (induction hs arbitrary: sh)
    case (Cons h hs)
    show ?case
    proof (cases "completion_error (half_completion h)")
      case (Some em)
      then show ?thesis
        using Cons.prems by (cases h; cases em) (simp_all add: read32_defs read32_failed)
    next
      case None
      show ?thesis
      proof (cases h)
        case (LowWord c)
        let ?sh = "sh\<lparr>gotLow := True, sh_data := ucast (receivedData c), gotHigh := False\<rparr>"
        have "read32_run base i hs ?sh = (await_high a cb (receivedData c) hs, [])"
          by (rule read32_await_high) (use Cons.prems in simp_all)
        with None LowWord Cons.prems show ?thesis by (simp add: read32_defs)
      next
        case (HighWord c)
        obtain sh' where step: "read32_step base i h sh = ([], [], sh')"
          "\<not> sh_failed sh'" "\<not> gotLow sh'" "sh_address sh' = a" "sh_callback sh' = cb"
          using None HighWord Cons.prems by (cases "gotHigh sh") (auto simp: read32_defs)
        with Cons.IH [OF step(2-5)] None HighWord show ?thesis by (simp add: case_prod_beta)
      qed
    qed
  qed simp
  then show "fst (read32_run base i hs sh) = await_low a cb hs" "length (snd (read32_run base i hs sh)) \<le> 1" by auto
qed

lemma length_notify32 [simp]: "length (notify32 cb r) \<le> Suc 0"
  by (simp add: notify32_def split: option.split)

lemma await_high_once: "length (await_high a cb low hs) \<le> 1"
  by (induction hs) (auto split: option.splits half.splits)

lemma await_low_once: "length (await_low a cb hs) \<le> 1"
  using await_high_once by (induction hs) (auto split: option.splits half.splits)


text \<open>
  An exchange in which the client answers each of the queued requests once: \<open>l\<close> and \<open>h\<close> are the
  numbers of unanswered requests for the low and the high word.
\<close>

fun exchange :: "u32 \<Rightarrow> nat \<Rightarrow> nat \<Rightarrow> nat \<Rightarrow> half list \<Rightarrow> UInt32ReadShared \<Rightarrow> bool" where
  "exchange base i l h [] sh = (l = 0 \<and> h = 0)"
| "exchange base i l h (LowWord c # hs) sh = (l > 0 \<and>
     (case read32_step base i (LowWord c) sh of (ns, rs, sh') \<Rightarrow> exchange base i (l - 1) (h + length rs) hs sh'))"
| "exchange base i l h (HighWord c # hs) sh = (h > 0 \<and>
     (case read32_step base i (HighWord c) sh of (ns, rs, sh') \<Rightarrow> exchange base i l (h - 1 + length rs) hs sh'))"

lemma exchange_await_high:
  assumes "\<not> sh_failed sh" "gotLow sh" "\<not> gotHigh sh" "sh_callback sh = Some f"
    "exchange base i 0 1 hs sh"
  shows "length (fst (read32_run base i hs sh)) = 1"
proof -
  from assms(5) obtain c hs' where hs: "hs = HighWord c # hs'"
    by (cases "(base, i, 0 :: nat, 1 :: nat, hs, sh)" rule: exchange.cases) auto
  show ?thesis
    using assms(1-4)
    by (cases "completion_error c")
       (auto simp: hs read32_defs read32_complete read32_failed notify32_def)
qed

lemma exchange_read32:
  assumes ex: "exchange base i 1 1 hs (new_UInt32ReadShared a (Some f))"
  shows "length (fst (read32_run base i hs (new_UInt32ReadShared a (Some f)))) = 1"
proof -
  let ?sh = "new_UInt32ReadShared a (Some f)"
  have sh: "\<not> sh_failed ?sh" "\<not> gotLow ?sh" "\<not> gotHigh ?sh" "sh_callback ?sh = Some f"
    by (simp_all add: new_UInt32ReadShared_def)
  from ex obtain h hs' where hs: "hs = h # hs'" by (cases hs) auto
  show ?thesis
  proof (cases "completion_error (half_completion h)")
    case (Some em)
    then show ?thesis
      using sh by (cases h; cases em) (auto simp: hs read32_defs read32_failed notify32_def)
  next
    case None
    show ?thesis
    proof (cases h)
      case (LowWord c)
      let ?sh' = "?sh\<lparr>gotLow := True, sh_data := ucast (receivedData c), gotHigh := False\<rparr>"
      have "exchange base i 0 1 hs' ?sh'"
        using ex None sh by (simp add: hs LowWord read32_defs)
      from exchange_await_high [OF _ _ _ _ this] sh
      have "length (fst (read32_run base i hs' ?sh')) = 1" by simp
      then show ?thesis using None sh by (simp add: hs LowWord read32_defs case_prod_beta)
    next
      case (HighWord c)
      let ?sh' = "?sh\<lparr>gotHigh := True, sh_data := sh_data ?sh OR push_bit 16 (ucast (receivedData c))\<rparr>"
      have ex': "exchange base i 1 0 hs' ?sh'"
        using ex None sh by (simp add: hs HighWord read32_defs)
      then obtain c' hs'' where hs': "hs' = LowWord c' # hs''"
        by (cases "(base, i, 1 :: nat, 0 :: nat, hs', ?sh')" rule: exchange.cases) auto
      have run: "fst (read32_run base i hs ?sh) = fst (read32_run base i hs' ?sh')"
        using None sh by (simp add: hs HighWord read32_defs case_prod_beta)
      show ?thesis
      proof (cases "completion_error c'")
        case (Some em)
        then show ?thesis
          unfolding run using sh by (cases em) (auto simp: hs' read32_defs read32_failed notify32_def)
      next
        case None
        let ?sh'' = "?sh'\<lparr>gotLow := True, sh_data := ucast (receivedData c'), gotHigh := False\<rparr>"
        have "exchange base i 0 1 hs'' ?sh''"
          using ex' None sh by (simp add: hs' read32_defs)
        from exchange_await_high [OF _ _ _ _ this] sh
        have "length (fst (read32_run base i hs'' ?sh'')) = 1" by simp
        then show ?thesis unfolding run using None sh by (simp add: hs' read32_defs case_prod_beta)
      qed
    qed
  qed
qed

section \<open>The course of a 32-bit write\<close>

text \<open>
  The requests and notifications of a write whose first request is completed with \<open>c1\<close> and whose
  second one, if there is one, with \<open>c2\<close>.
\<close>

definition write32_second :: "completion \<Rightarrow> request list \<Rightarrow> notification list" where
  "write32_second c2 rs = concat (map (\<lambda>r. case r of
     QueueWrite _ _ (UInt32WriteLowCallback a high cb) \<Rightarrow> UInt32WriteLowCallback_call a high cb c2 | _ \<Rightarrow> []) rs)"

definition write32_run :: "u32 \<Rightarrow> u32 \<Rightarrow> u32 \<Rightarrow> nat option \<Rightarrow> completion \<Rightarrow> completion
    \<Rightarrow> (request list \<times> notification list) option" where
  "write32_run base address value32 cb c1 c2 =
     (case writeUInt32 base address value32 cb of
        QueueWrite a d (UInt32WriteHighCallback a' low cb') \<Rightarrow>
          (case UInt32WriteHighCallback_call base a' low cb' Queued c1 of
             None \<Rightarrow> None
           | Some (ns, rs) \<Rightarrow> Some (writeUInt32 base address value32 cb # rs, ns @ write32_second c2 rs))
      | _ \<Rightarrow> None)"

text \<open>A device that holds a word for each address and answers each packet.\<close>

fun device :: "(u32 \<Rightarrow> u16) \<Rightarrow> request \<Rightarrow> completion \<times> (u32 \<Rightarrow> u16)" where
  "device m (QueueRead a _) = (\<lparr>receivedData = m a, receivedStatus = 0, cpl_exception = None\<rparr>, m)"
| "device m (QueueWrite a d _) = (\<lparr>receivedData = d, receivedStatus = 0, cpl_exception = None\<rparr>, m(a := d))"

lemma join_words: "push_bit 16 (ucast (ucast (drop_bit 16 w) :: u16)) OR ucast (ucast w :: u16) = (w :: u32)"
  by (rule bit_word_eqI) (auto simp: bit_simps)


section \<open>Properties\<close>

text \<open>
  C14. A 32-bit read gives, for all orders, repetitions and failures of the replies to its requests, what
  the reference gives: the first error, or the value made of the first low word and of the first high
  word that was read after it. It notifies its callback at most once and asks for the high word again
  at most once.
\<close>

theorem read32_matches_reference:
  "fst (read32_run base i hs (new_UInt32ReadShared a cb)) = await_low a cb hs
   \<and> length (await_low a cb hs) \<le> 1
   \<and> length (snd (read32_run base i hs (new_UInt32ReadShared a cb))) \<le> 1"
proof -
  have "\<not> sh_failed (new_UInt32ReadShared a cb)" "\<not> gotLow (new_UInt32ReadShared a cb)"
    "sh_address (new_UInt32ReadShared a cb) = a" "sh_callback (new_UInt32ReadShared a cb) = cb"
    by (simp_all add: new_UInt32ReadShared_def)
  from read32_await_low [OF this] show ?thesis using await_low_once by simp
qed

text \<open>
  A 32-bit read comes to an end: when the client has completed each request that the read has
  queued, the one for the high word that is queued again included, the callback has been notified
  exactly once.
\<close>

lemma read32_completes:
  assumes "exchange base i 1 1 hs (new_UInt32ReadShared a (Some f))"
  shows "length (fst (read32_run base i hs (new_UInt32ReadShared a (Some f)))) = 1"
  by (rule exchange_read32 [OF assms])

definition ok_completion :: "u16 \<Rightarrow> completion" where
  "ok_completion d = \<lparr>receivedData = d, receivedStatus = 0, cpl_exception = None\<rparr>"

theorem read32_completes_witness:
  "length (fst (read32_run 0 0 [HighWord (ok_completion 1), LowWord (ok_completion 2), HighWord (ok_completion 3)]
     (new_UInt32ReadShared 8 (Some 5)))) = 1
   \<and> fst (read32_run 0 0 [HighWord (ok_completion 1), LowWord (ok_completion 2), HighWord (ok_completion 3)]
     (new_UInt32ReadShared 8 (Some 5))) = [Notify32 5 (Success 8 0x30002)]"
proof
  have "exchange 0 0 1 1 [HighWord (ok_completion 1), LowWord (ok_completion 2), HighWord (ok_completion 3)]
    (new_UInt32ReadShared 8 (Some 5))"
    by code_simp
  from read32_completes [OF this]
  show "length (fst (read32_run 0 0 [HighWord (ok_completion 1), LowWord (ok_completion 2), HighWord (ok_completion 3)]
     (new_UInt32ReadShared 8 (Some 5)))) = 1" .
  show "fst (read32_run 0 0 [HighWord (ok_completion 1), LowWord (ok_completion 2), HighWord (ok_completion 3)]
     (new_UInt32ReadShared 8 (Some 5))) = [Notify32 5 (Success 8 0x30002)]"
    by code_simp
qed

lemma write32_course:
  "write32_run base address value32 cb c1 c2 = Some (case completion_error c1 of
     Some (e, m) \<Rightarrow> ([writeUInt32 base address value32 cb], notify32 cb (Failure address e m))
   | None \<Rightarrow>
       ([QueueWrite (base + address) (ucast (drop_bit 16 value32))
           (UInt32WriteHighCallback address (ucast value32) cb),
         QueueWrite (base + address + 2) (ucast value32) (UInt32WriteLowCallback address (receivedData c1) cb)],
        notify32 cb (case completion_error c2 of
            Some (e, m) \<Rightarrow> Failure address e m
          | None \<Rightarrow> Success address (push_bit 16 (ucast (receivedData c1)) OR ucast (receivedData c2)))))"
  by (auto simp: write32_run_def writeUInt32_def UInt32WriteHighCallback_call_def write32_second_def
      UInt32WriteLowCallback_call_def Let_def split: option.splits)

text \<open>
  A 32-bit write sends the high word first, and the low word only after the device has acknowledged
  the high word; it notifies its callback exactly once, of the first error or of the value the device
  has sent back.
\<close>

lemma write32_in_order:
  "write32_run base address value32 cb c1 c2 = Some (case completion_error c1 of
     Some (e, m) \<Rightarrow> ([writeUInt32 base address value32 cb], notify32 cb (Failure address e m))
   | None \<Rightarrow>
       ([QueueWrite (base + address) (ucast (drop_bit 16 value32))
           (UInt32WriteHighCallback address (ucast value32) cb),
         QueueWrite (base + address + 2) (ucast value32) (UInt32WriteLowCallback address (receivedData c1) cb)],
        notify32 cb (case completion_error c2 of
            Some (e, m) \<Rightarrow> Failure address e m
          | None \<Rightarrow> Success address (push_bit 16 (ucast (receivedData c1)) OR ucast (receivedData c2)))))"
  by (rule write32_course)

lemma write32_read32:
  fixes m base address value32 cb i
  defines "r1 \<equiv> writeUInt32 base address value32 cb"
  defines "c1 \<equiv> fst (device m r1)"
  defines "r2 \<equiv> QueueWrite (base + address + 2) (ucast value32) (UInt32WriteLowCallback address (receivedData c1) cb)"
  defines "m' \<equiv> snd (device (snd (device m r1)) r2)"
  defines "low \<equiv> LowWord (fst (device m' (QueueRead (base + address + 2) (UInt32ReadLowCallback i))))"
  defines "high \<equiv> HighWord (fst (device m' (QueueRead (base + address) (UInt32ReadHighCallback i))))"
  shows "write32_run base address value32 cb c1 (fst (device (snd (device m r1)) r2))
      = Some ([r1, r2], notify32 cb (Success address value32))
    \<and> read32_run base i [low, high] (new_UInt32ReadShared address cb)
      = (notify32 cb (Success address value32), [])
    \<and> read32_run base i [high, low, high] (new_UInt32ReadShared address cb)
      = (notify32 cb (Success address value32), [QueueRead (base + address) (UInt32ReadHighCallback i)])
    \<and> {a. m' a \<noteq> m a} \<subseteq> {base + address, base + address + 2}"
proof -
  have c1: "c1 = \<lparr>receivedData = ucast (drop_bit 16 value32), receivedStatus = 0, cpl_exception = None\<rparr>"
    by (simp add: c1_def r1_def writeUInt32_def Let_def)
  have r1: "r1 = QueueWrite (base + address) (ucast (drop_bit 16 value32))
      (UInt32WriteHighCallback address (ucast value32) cb)"
    by (simp add: r1_def writeUInt32_def Let_def)
  have m': "m' = m(base + address := ucast (drop_bit 16 value32), base + address + 2 := ucast value32)"
    by (simp add: m'_def r2_def r1)
  have words: "m' (base + address) = ucast (drop_bit 16 value32)" "m' (base + address + 2) = ucast value32"
    by (simp_all add: m')
  have "write32_run base address value32 cb c1 (fst (device (snd (device m r1)) r2))
      = Some ([r1, r2], notify32 cb (Success address value32))"
    unfolding write32_course r1 r2_def by (simp add: completion_error_def c1 join_words)
  moreover have "read32_run base i [low, high] (new_UInt32ReadShared address cb)
      = (notify32 cb (Success address value32), [])"
    "read32_run base i [high, low, high] (new_UInt32ReadShared address cb)
      = (notify32 cb (Success address value32), [QueueRead (base + address) (UInt32ReadHighCallback i)])"
    by (simp_all add: low_def high_def words read32_defs completion_error_def new_UInt32ReadShared_def
        join_words or.commute [of "ucast (ucast value32)"])
  moreover have "{a. m' a \<noteq> m a} \<subseteq> {base + address, base + address + 2}"
    by (auto simp: m')
  ultimately show ?thesis by blast
qed

text \<open>
  What is written is read: after a 32-bit write whose packets the device has processed, the write
  has succeeded with the value, a 32-bit read succeeds with the value whatever the order of the replies
  to its first two requests, and no other word of the device has changed.
\<close>

lemma write32_read32_roundtrip:
  "let r1 = writeUInt32 base address value32 cb;
       c1 = fst (device m r1);
       r2 = QueueWrite (base + address + 2) (ucast value32) (UInt32WriteLowCallback address (receivedData c1) cb);
       m' = snd (device (snd (device m r1)) r2);
       low = LowWord (fst (device m' (QueueRead (base + address + 2) (UInt32ReadLowCallback i))));
       high = HighWord (fst (device m' (QueueRead (base + address) (UInt32ReadHighCallback i))))
   in write32_run base address value32 cb c1 (fst (device (snd (device m r1)) r2))
      = Some ([r1, r2], notify32 cb (Success address value32))
    \<and> read32_run base i [low, high] (new_UInt32ReadShared address cb)
      = (notify32 cb (Success address value32), [])
    \<and> read32_run base i [high, low, high] (new_UInt32ReadShared address cb)
      = (notify32 cb (Success address value32), [QueueRead (base + address) (UInt32ReadHighCallback i)])
    \<and> {a. m' a \<noteq> m a} \<subseteq> {base + address, base + address + 2}"
  unfolding Let_def by (rule write32_read32)

text \<open>
  A 16-bit operation notifies its callback exactly once for each completion, and of success
  exactly when there is no exception and the status of the device is zero; a time-out of the client,
  and the statuses -1, -2 and -3 have error codes of their own.
\<close>

lemma completion_16_notifies:
  "(\<exists>r. UInt16Callback_call address (Some f) cpl = [Notify16 f r]
      \<and> (r = Success address (receivedData cpl) \<longleftrightarrow> cpl_exception cpl = None \<and> receivedStatus cpl = 0)
      \<and> (cpl_exception cpl = Some TimeoutException \<longrightarrow> r = Failure address EC_networkTimeout [])
      \<and> (cpl_exception cpl = None \<and> receivedStatus cpl = 0xFF \<longrightarrow> r = Failure address EC_invalidAddress [])
      \<and> (cpl_exception cpl = None \<and> receivedStatus cpl = 0xFE \<longrightarrow> r = Failure address EC_fpgaTimeout [])
      \<and> (cpl_exception cpl = None \<and> receivedStatus cpl = 0xFD \<longrightarrow> r = Failure address EC_invalidCommand []))
   \<and> UInt16Callback_call address None cpl = []"
  by (auto simp: UInt16Callback_call_def notify16_def completion_error_def statusToErrorCode_def
      exceptionToErrorCodeAndMessage_def split: option.splits prod.splits)

end
