(* ===== verification/AddressParsing.thy ===== *)
theory AddressParsing
  imports MemoryAccess
begin

text \<open>
  What the parsers of record addresses share: the functions of the C++ library for numbers
  (\<^verbatim>\<open>std::stoul\<close> and \<^verbatim>\<open>std::stoi\<close> with base 0), the search for the next token and the comparison that
  ignores the case (local functions of \<^verbatim>\<open>MrfRecordAddress.cpp\<close>, \<^verbatim>\<open>MrfInterruptRecordAddress.cpp\<close> and
  \<^verbatim>\<open>MrfLongoutFineDelayShiftRegisterRecord.cpp\<close> with the same text). Characters are bytes, the locale
  is the C locale, \<^verbatim>\<open>unsigned long\<close> has 64 bits.
\<close>

section \<open>Numbers\<close>

text \<open>The exceptions of the code, with their texts.\<close>

datatype exn = InvalidArgument string | RuntimeError string

text \<open>The exception of the constructors of records for an address of the wrong type.\<close>

definition invalid_device_address :: exn where
  "invalid_device_address = RuntimeError (''Invalid device address. Maybe mixed up INP/OUT or forgot ''
     @ [CHR 0x27] @ ''@'' @ [CHR 0x27] @ ''?'')"

datatype number_error = NoNumber | OutOfRange

definition is_space :: "char \<Rightarrow> bool" where
  "is_space c = (let n = of_char c :: int in n = 32 \<or> 9 \<le> n \<and> n \<le> 13)"

definition digit_value :: "char \<Rightarrow> int" where
  "digit_value c = (let n = of_char c :: int in
     if 48 \<le> n \<and> n \<le> 57 then n - 48
     else if 97 \<le> n \<and> n \<le> 122 then n - 87
     else if 65 \<le> n \<and> n \<le> 90 then n - 55
     else 99)"

definition number_value :: "int \<Rightarrow> string \<Rightarrow> int" where
  "number_value base ds = foldl (\<lambda>a c. a * base + digit_value c) 0 ds"

definition number_base :: "string \<Rightarrow> int \<times> string" where
  "number_base s =
     (if length s > 2 \<and> s ! 0 = CHR ''0'' \<and> (s ! 1 = CHR ''x'' \<or> s ! 1 = CHR ''X'') \<and> digit_value (s ! 2) < 16
      then (16, drop 2 s)
      else if s \<noteq> [] \<and> s ! 0 = CHR ''0'' then (8, s)
      else (10, s))"

text \<open>Sign, magnitude, and the number of characters that were read.\<close>

definition scan_number :: "string \<Rightarrow> (bool \<times> int \<times> nat) option" where
  "scan_number s =
     (let s1 = dropWhile is_space s;
          sign = (s1 \<noteq> [] \<and> (s1 ! 0 = CHR ''-'' \<or> s1 ! 0 = CHR ''+''));
          s2 = (if sign then tl s1 else s1);
          (base, s3) = number_base s2;
          ds = takeWhile (\<lambda>c. digit_value c < base) s3
      in if ds = [] then None
         else Some (sign \<and> s1 ! 0 = CHR ''-'', number_value base ds, length s - length s3 + length ds))"

definition stoul :: "string \<Rightarrow> number_error + int \<times> nat" where
  "stoul s = (case scan_number s of
     None \<Rightarrow> Inl NoNumber
   | Some (negative, v, n) \<Rightarrow>
       if v > 2 ^ 64 - 1 then Inl OutOfRange
       else Inr (if negative then (2 ^ 64 - v) mod 2 ^ 64 else v, n))"

definition stoi :: "string \<Rightarrow> number_error + int \<times> nat" where
  "stoi s = (case scan_number s of
     None \<Rightarrow> Inl NoNumber
   | Some (negative, v, n) \<Rightarrow>
       (let w = (if negative then - v else v)
        in if w < - (2 ^ 31) \<or> w > 2 ^ 31 - 1 then Inl OutOfRange else Inr (w, n)))"

section \<open>Tokens\<close>

definition delimiters :: string where
  "delimiters = [CHR '' '', CHR 0x09, CHR 0x0A, CHR 0x0B, CHR 0x0C, CHR 0x0D]"

definition find_first_not_of :: "string \<Rightarrow> string \<Rightarrow> nat \<Rightarrow> nat option" where
  "find_first_not_of str chars start =
     (let n = start + length (takeWhile (\<lambda>c. c \<in> set chars) (drop start str))
      in if n < length str then Some n else None)"

definition find_first_of :: "string \<Rightarrow> string \<Rightarrow> nat \<Rightarrow> nat option" where
  "find_first_of str chars start =
     (let n = start + length (takeWhile (\<lambda>c. c \<notin> set chars) (drop start str))
      in if n < length str then Some n else None)"

text \<open>The position and the length of the next token; \<open>None\<close> is \<^verbatim>\<open>npos\<close>.\<close>

definition findNextToken :: "string \<Rightarrow> string \<Rightarrow> nat \<Rightarrow> (nat \<times> nat) option" where
  "findNextToken str delims startPos =
     (if length str = 0 then None
      else case find_first_not_of str delims startPos of
        None \<Rightarrow> None
      | Some startOfToken \<Rightarrow>
          (case find_first_of str delims startOfToken of
             None \<Rightarrow> Some (startOfToken, length str - startOfToken)
           | Some endOfToken \<Rightarrow> Some (startOfToken, endOfToken - startOfToken)))"

definition substr :: "string \<Rightarrow> nat \<Rightarrow> nat \<Rightarrow> string" where
  "substr s start len = take len (drop start s)"

section \<open>Comparison\<close>

definition to_lower :: "char \<Rightarrow> char" where
  "to_lower c = (let n = of_char c :: int in if 65 \<le> n \<and> n \<le> 90 then char_of (n + 32) else c)"

definition compareStringsIgnoreCase :: "string \<Rightarrow> string \<Rightarrow> bool" where
  "compareStringsIgnoreCase str1 str2 \<longleftrightarrow>
     length str1 = length str2 \<and> list_all (\<lambda>(c1, c2). to_lower c1 = to_lower c2) (zip str1 str2)"

section \<open>Lemmas on tokens\<close>

lemma findNextToken_Some:
  assumes "findNextToken str delims i = Some (start, len)"
  shows "i \<le> start" "0 < len" "start + len \<le> length str"
    "\<forall>c\<in>set (substr str start len). c \<notin> set delims"
proof -
  let ?gap = "takeWhile (\<lambda>c. c \<in> set delims) (drop i str)"
  have start: "start = i + length ?gap" "start < length str"
    using assms by (auto simp: findNextToken_def find_first_not_of_def Let_def split: if_splits option.splits)
  let ?tok = "takeWhile (\<lambda>c. c \<notin> set delims) (drop start str)"
  have "drop start str = dropWhile (\<lambda>c. c \<in> set delims) (drop i str)"
    by (simp add: start(1) dropWhile_eq_drop add.commute)
  moreover have "drop start str \<noteq> []" using start(2) by simp
  ultimately have hd: "hd (drop start str) \<notin> set delims"
    by (metis (no_types, lifting) hd_dropWhile)
  have bound: "start + length ?tok \<le> length str"
    using length_takeWhile_le [of "\<lambda>c. c \<notin> set delims" "drop start str"] start(2) by simp
  have len: "len = length ?tok"
    using assms start bound
    by (auto simp: findNextToken_def find_first_not_of_def find_first_of_def Let_def split: if_splits)
  show "i \<le> start" using start by simp
  show "0 < len"
    using hd \<open>drop start str \<noteq> []\<close> unfolding len by (cases "drop start str") auto
  show "start + len \<le> length str" using bound len by simp
  have "substr str start len = ?tok"
    unfolding substr_def len by (metis takeWhile_eq_take)
  then show "\<forall>c\<in>set (substr str start len). c \<notin> set delims"
    by (auto dest: set_takeWhileD)
qed

text \<open>All tokens from a position on, as the loops of the constructors find them.\<close>

function tokens_from :: "string \<Rightarrow> string \<Rightarrow> nat \<Rightarrow> string list" where
  "tokens_from str delims i = (case findNextToken str delims i of
     None \<Rightarrow> []
   | Some (start, len) \<Rightarrow> substr str start len # tokens_from str delims (start + len))"
  by pat_completeness auto
termination
proof (relation "measure (\<lambda>(str, delims, i). length str - i)")
  fix str delims i x start len
  assume "findNextToken str delims i = Some x" "(start, len) = x"
  then have "findNextToken str delims i = Some (start, len)" by simp
  from findNextToken_Some [OF this]
  show "((str, delims, start + len), str, delims, i) \<in> measure (\<lambda>(str, delims, i). length str - i)"
    by simp
qed simp

declare tokens_from.simps [simp del]

text \<open>The maximal runs of characters that are no delimiters.\<close>

function words_of :: "string \<Rightarrow> string \<Rightarrow> string list" where
  "words_of delims s = (case dropWhile (\<lambda>c. c \<in> set delims) s of
     [] \<Rightarrow> []
   | c # r \<Rightarrow> (c # takeWhile (\<lambda>c. c \<notin> set delims) r) # words_of delims (dropWhile (\<lambda>c. c \<notin> set delims) r))"
  by pat_completeness auto
termination
proof (relation "measure (\<lambda>(delims, s). length s)")
  fix delims s :: string and c r
  assume "dropWhile (\<lambda>c. c \<in> set delims) s = c # r"
  then have "length (c # r) \<le> length s" by (metis length_dropWhile_le)
  moreover have "length (dropWhile (\<lambda>c. c \<notin> set delims) r) \<le> length r" by (rule length_dropWhile_le)
  ultimately show "((delims, dropWhile (\<lambda>c. c \<notin> set delims) r), delims, s) \<in> measure (\<lambda>(delims, s). length s)"
    by simp
qed simp

declare words_of.simps [simp del]


lemma dropWhile_drop: "drop (length (takeWhile P xs)) xs = dropWhile P xs"
  by (simp add: dropWhile_eq_drop)

lemma findNextToken_None_iff:
  "findNextToken str delims i = None \<longleftrightarrow> dropWhile (\<lambda>c. c \<in> set delims) (drop i str) = []"
proof -
  let ?P = "\<lambda>c. c \<in> set delims"
  have "dropWhile ?P (drop i str) = [] \<longleftrightarrow> length str \<le> i + length (takeWhile ?P (drop i str))"
    by (simp add: dropWhile_eq_drop) (simp add: add.commute)
  then show ?thesis
    by (auto simp: findNextToken_def find_first_not_of_def Let_def split: option.splits if_splits)
qed

lemma findNextToken_word:
  assumes "findNextToken str delims i = Some (start, len)"
    and "dropWhile (\<lambda>c. c \<in> set delims) (drop i str) = c # r"
  shows "substr str start len = c # takeWhile (\<lambda>c. c \<notin> set delims) r"
    "drop (start + len) str = dropWhile (\<lambda>c. c \<notin> set delims) r"
proof -
  let ?P = "\<lambda>c. c \<in> set delims"
  let ?N = "\<lambda>c. c \<notin> set delims"
  have start: "start = i + length (takeWhile ?P (drop i str))" "start < length str"
    using assms by (auto simp: findNextToken_def find_first_not_of_def Let_def split: if_splits option.splits)
  have rest: "drop start str = c # r"
    using assms(2) by (simp add: start(1) dropWhile_eq_drop add.commute)
  then have c: "?N c" using assms(2) hd_dropWhile [of ?P "drop i str"] by simp
  have bound: "start + length (takeWhile ?N (drop start str)) \<le> length str"
    using length_takeWhile_le [of ?N "drop start str"] start(2) by simp
  then have len: "len = length (takeWhile ?N (drop start str))"
    using assms start
    by (auto simp: findNextToken_def find_first_not_of_def find_first_of_def Let_def split: if_splits)
  have "substr str start len = takeWhile ?N (drop start str)"
    unfolding substr_def len by (metis takeWhile_eq_take)
  then show "substr str start len = c # takeWhile ?N r" by (simp add: rest c)
  have "drop (start + len) str = drop len (drop start str)" by (simp add: add.commute)
  also have "\<dots> = dropWhile ?N (drop start str)" unfolding len by (rule dropWhile_drop)
  finally show "drop (start + len) str = dropWhile ?N r" by (simp add: rest c)
qed

lemma findNextToken_words:
  "findNextToken str delims i = None \<Longrightarrow> words_of delims (drop i str) = []"
  "findNextToken str delims i = Some (start, len) \<Longrightarrow>
     words_of delims (drop i str) = substr str start len # words_of delims (drop (start + len) str)"
proof -
  show "findNextToken str delims i = None \<Longrightarrow> words_of delims (drop i str) = []"
    by (subst words_of.simps) (simp only: findNextToken_None_iff list.case)
  assume some: "findNextToken str delims i = Some (start, len)"
  then obtain c r where rest: "dropWhile (\<lambda>c. c \<in> set delims) (drop i str) = c # r"
    using findNextToken_None_iff [of str delims i]
    by (cases "dropWhile (\<lambda>c. c \<in> set delims) (drop i str)") auto
  note word = findNextToken_word [OF some rest]
  show "words_of delims (drop i str) = substr str start len # words_of delims (drop (start + len) str)"
    by (subst words_of.simps) (simp only: rest list.case word)
qed

lemma tokens_from_words: "tokens_from str delims i = words_of delims (drop i str)"
proof (induction str delims i rule: tokens_from.induct)
  case (1 str delims i)
  show ?case
  proof (cases "findNextToken str delims i")
    case None
    with findNextToken_words(1) show ?thesis by (simp add: tokens_from.simps)
  next
    case (Some t)
    then obtain start len where t: "findNextToken str delims i = Some (start, len)" by (cases t) auto
    from "1" [OF t] show ?thesis
      by (subst tokens_from.simps) (simp add: t findNextToken_words(2) [OF t])
  qed
qed

lemma words_of_Nil [simp]: "words_of delims [] = []"
  by (simp add: words_of.simps)

lemma words_of_append:
  assumes "w \<noteq> []" "\<forall>c\<in>set w. c \<notin> set delims" "d \<in> set delims"
  shows "words_of delims (w @ d # s) = w # words_of delims s"
proof -
  obtain c r where w: "w = c # r" using assms(1) by (cases w) auto
  have take: "takeWhile (\<lambda>c. c \<notin> set delims) (r @ d # s) = r"
    "dropWhile (\<lambda>c. c \<notin> set delims) (r @ d # s) = d # s"
    using assms(2,3) w by simp_all
  have "words_of delims (d # s) = words_of delims s"
    using assms(3) by (simp add: words_of.simps)
  then show ?thesis
    using assms(2) by (subst words_of.simps) (simp add: w take)
qed

lemma words_of_single:
  assumes "w \<noteq> []" "\<forall>c\<in>set w. c \<notin> set delims"
  shows "words_of delims w = [w]"
proof -
  obtain c r where w: "w = c # r" using assms(1) by (cases w) auto
  have take: "takeWhile (\<lambda>c. c \<notin> set delims) r = r" "dropWhile (\<lambda>c. c \<notin> set delims) r = []"
    using assms(2) w by simp_all
  then show ?thesis
    using assms(2) by (subst words_of.simps) (simp only: w dropWhile.simps set_simps ball_simps if_False list.case take words_of_Nil)
qed

end
