(* ===== verification/RecordAddress.thy ===== *)
theory RecordAddress
  imports AddressParsing
begin

text \<open>
  The addresses of records: \<^verbatim>\<open>mrfApp/mrfEpicsSrc/MrfRecordAddress.{h,cpp}\<close> and
  \<^verbatim>\<open>MrfInterruptRecordAddress.{h,cpp}\<close>. A constructor gives the object or the exception it throws.
\<close>

section \<open>Memory addresses\<close>

datatype DataType = uInt16 | uInt32

fun maxBitIndex :: "DataType \<Rightarrow> int" where
  "maxBitIndex uInt16 = 15"
| "maxBitIndex uInt32 = 31"

definition invalid_address :: "string \<Rightarrow> exn" where
  "invalid_address s = InvalidArgument (''Invalid memory address in record address: '' @ s)"

definition invalid_bit :: "string \<Rightarrow> exn" where
  "invalid_bit s = InvalidArgument (''Invalid bit index in record address: '' @ s)"

text \<open>A bit index: the number, and how many characters it has.\<close>

definition parse_bit :: "string \<Rightarrow> string \<Rightarrow> int \<Rightarrow> exn + int \<times> nat" where
  "parse_bit addressString s maxBit = (case stoi s of
     Inl _ \<Rightarrow> Inl (invalid_bit addressString)
   | Inr (bitIndex, n) \<Rightarrow>
       if bitIndex < 0 \<or> bitIndex > maxBit then Inl (invalid_bit addressString) else Inr (bitIndex, n))"

text \<open>The part between the brackets: the highest and the lowest bit.\<close>

definition parse_bit_range :: "string \<Rightarrow> string \<Rightarrow> int \<Rightarrow> exn + int \<times> int" where
  "parse_bit_range addressString bitIndexString maxBit =
     (case parse_bit addressString bitIndexString maxBit of
        Inl e \<Rightarrow> Inl e
      | Inr (highBitIndex, n) \<Rightarrow>
          if n = length bitIndexString then Inr (highBitIndex, highBitIndex)
          else (case parse_bit addressString (drop (n + 1) bitIndexString) maxBit of
              Inl e \<Rightarrow> Inl e
            | Inr (lowBitIndex, _) \<Rightarrow>
                if highBitIndex < lowBitIndex
                then Inl (InvalidArgument (''Invalid bit index in record address: '' @ addressString
                  @ ''. The index of the highest bit must not be less than the index of the lowest bit.''))
                else Inr (highBitIndex, lowBitIndex)))"

text \<open>The highest and the lowest bit fit into \<^verbatim>\<open>signed char\<close>.\<close>

definition parseMemoryAddress :: "string \<Rightarrow> DataType \<Rightarrow> exn + u32 \<times> int \<times> int" where
  "parseMemoryAddress addressString dataType =
     (case stoul addressString of
        Inl _ \<Rightarrow> Inl (invalid_address addressString)
      | Inr (address, numberLength) \<Rightarrow>
          if address > 2 ^ 32 - 1 then Inl (invalid_address addressString)
          else if numberLength = length addressString
            then Inr (word_of_int address, maxBitIndex dataType, 0)
          else if addressString ! numberLength \<noteq> CHR ''[''
            then Inl (InvalidArgument (''Invalid memory address in record address: '' @ addressString
              @ ''. Expected '' @ [CHR 0x27] @ ''['' @ [CHR 0x27] @ '' but found '' @ [CHR 0x27]
              @ [addressString ! numberLength] @ [CHR 0x27] @ ''.''))
          else if addressString ! (length addressString - 1) \<noteq> CHR '']''
            then Inl (InvalidArgument (''Invalid memory address in record address: '' @ addressString
              @ ''. Expected '' @ [CHR 0x27] @ '']'' @ [CHR 0x27] @ '' but found '' @ [CHR 0x27]
              @ [addressString ! (length addressString - 1)] @ [CHR 0x27] @ ''.''))
          else (case parse_bit_range addressString
                (substr addressString (numberLength + 1) (length addressString - numberLength - 2))
                (maxBitIndex dataType) of
              Inl e \<Rightarrow> Inl e
            | Inr (high, low) \<Rightarrow> Inr (word_of_int address, high, low)))"

section \<open>The address of a record\<close>

record MrfRecordAddress =
  ra_deviceId :: string
  ra_address :: u32
  ra_highestBit :: int
  ra_lowestBit :: int
  ra_dataType :: DataType
  ra_changedElementsOnly :: bool
  ra_elementDistance :: int
  ra_readOnInit :: bool
  ra_stringLength :: int
  ra_verify :: bool
  ra_zeroOtherBits :: bool

definition has_prefix_ignoring_case :: "string \<Rightarrow> string \<Rightarrow> bool" where
  "has_prefix_ignoring_case token prefix \<longleftrightarrow>
     length token \<ge> length prefix \<and> compareStringsIgnoreCase (substr token 0 (length prefix)) prefix"

definition int_option :: "string \<Rightarrow> string \<Rightarrow> string \<Rightarrow> exn + int" where
  "int_option what prefix token =
     (case stoul (drop (length prefix) token) of
        Inl _ \<Rightarrow> Inl (InvalidArgument (''Invalid '' @ what @ '' in record address: '' @ token))
      | Inr (v, _) \<Rightarrow>
          if v > 2 ^ 31 - 1 then Inl (InvalidArgument (''Invalid '' @ what @ '' in record address: '' @ token))
          else Inr v)"

definition parse_flag :: "string \<Rightarrow> MrfRecordAddress \<Rightarrow> exn + MrfRecordAddress" where
  "parse_flag token a =
     (if compareStringsIgnoreCase token ''zero_other_bits'' then Inr (a\<lparr>ra_zeroOtherBits := True\<rparr>)
      else if compareStringsIgnoreCase token ''no_verify''
        then Inr (a\<lparr>ra_verify := False, ra_readOnInit := False\<rparr>)
      else if compareStringsIgnoreCase token ''no_read_on_init'' then Inr (a\<lparr>ra_readOnInit := False\<rparr>)
      else if compareStringsIgnoreCase token ''changed_elements_only''
        then Inr (a\<lparr>ra_changedElementsOnly := True\<rparr>)
      else if has_prefix_ignoring_case token ''element_distance='' then
        (case int_option ''element distance'' ''element_distance='' token of
           Inl e \<Rightarrow> Inl e | Inr v \<Rightarrow> Inr (a\<lparr>ra_elementDistance := v\<rparr>))
      else if has_prefix_ignoring_case token ''string_length='' then
        (case int_option ''string length'' ''string_length='' token of
           Inl e \<Rightarrow> Inl e | Inr v \<Rightarrow> Inr (a\<lparr>ra_stringLength := v\<rparr>))
      else Inl (InvalidArgument (''Unrecognized token in record address: '' @ token)))"

text \<open>The loop over the tokens from a position on.\<close>

function parse_flags :: "string \<Rightarrow> nat \<Rightarrow> MrfRecordAddress \<Rightarrow> exn + MrfRecordAddress" where
  "parse_flags addressString pos a = (case findNextToken addressString delimiters pos of
     None \<Rightarrow> Inr a
   | Some (start, len) \<Rightarrow> (case parse_flag (substr addressString start len) a of
       Inl e \<Rightarrow> Inl e
     | Inr a' \<Rightarrow> parse_flags addressString (start + len) a'))"
  by pat_completeness auto
termination
proof (relation "measure (\<lambda>(s, pos, a). length s - pos)")
  fix addressString pos and a a' :: MrfRecordAddress and x start len
  assume "findNextToken addressString delimiters pos = Some x" "(start, len) = x"
  then have "findNextToken addressString delimiters pos = Some (start, len)" by simp
  from findNextToken_Some [OF this]
  show "((addressString, start + len, a'), addressString, pos, a) \<in> measure (\<lambda>(s, pos, a). length s - pos)"
    by simp
qed simp

declare parse_flags.simps [simp del]

definition parse_dataType :: "string \<Rightarrow> exn + DataType" where
  "parse_dataType s =
     (if compareStringsIgnoreCase s ''uint16'' then Inr uInt16
      else if compareStringsIgnoreCase s ''uint32'' then Inr uInt32
      else Inl (InvalidArgument (''Invalid data-type in record address: '' @ s)))"

definition new_MrfRecordAddress :: "string \<Rightarrow> exn + MrfRecordAddress" where
  "new_MrfRecordAddress addressString =
     (case findNextToken addressString delimiters 0 of
        None \<Rightarrow> Inl (InvalidArgument ''Could not find device ID in record address.'')
      | Some (s1, l1) \<Rightarrow> (case findNextToken addressString delimiters (s1 + l1) of
          None \<Rightarrow> Inl (InvalidArgument ''Could not find memory address in record address.'')
        | Some (s2, l2) \<Rightarrow> (case findNextToken addressString delimiters (s2 + l2) of
            None \<Rightarrow> Inl (InvalidArgument ''Could not find data type in record address.'')
          | Some (s3, l3) \<Rightarrow> (case parse_dataType (substr addressString s3 l3) of
              Inl e \<Rightarrow> Inl e
            | Inr dataType \<Rightarrow> (case parseMemoryAddress (substr addressString s2 l2) dataType of
                Inl e \<Rightarrow> Inl e
              | Inr (address, high, low) \<Rightarrow>
                  parse_flags addressString (s3 + l3)
                    \<lparr>ra_deviceId = substr addressString s1 l1, ra_address = address, ra_highestBit = high,
                     ra_lowestBit = low, ra_dataType = dataType, ra_changedElementsOnly = False,
                     ra_elementDistance = 0, ra_readOnInit = True, ra_stringLength = 0, ra_verify = True,
                     ra_zeroOtherBits = False\<rparr>)))))"

section \<open>The address of an interrupt record\<close>

record MrfInterruptRecordAddress =
  ia_deviceId :: string
  ia_interruptFlagsMask :: u32

definition interrupt_flag :: "string \<Rightarrow> MrfInterruptRecordAddress \<Rightarrow> exn + MrfInterruptRecordAddress" where
  "interrupt_flag token a =
     (if has_prefix_ignoring_case token ''interrupt_flags_mask='' then
        (case stoul (drop (length ''interrupt_flags_mask='') token) of
           Inl _ \<Rightarrow> Inl (InvalidArgument (''Invalid interrupt flags mask in record address: '' @ token))
         | Inr (m, _) \<Rightarrow>
             if m > 2 ^ 32 - 1 \<or> m = 0
             then Inl (InvalidArgument (''Invalid interrupt flags mask in record address: '' @ token))
             else Inr (a\<lparr>ia_interruptFlagsMask := word_of_int m\<rparr>))
      else Inl (InvalidArgument (''Unrecognized token in record address: '' @ token)))"

function interrupt_flags :: "string \<Rightarrow> nat \<Rightarrow> MrfInterruptRecordAddress \<Rightarrow> exn + MrfInterruptRecordAddress" where
  "interrupt_flags addressString pos a = (case findNextToken addressString delimiters pos of
     None \<Rightarrow> Inr a
   | Some (start, len) \<Rightarrow> (case interrupt_flag (substr addressString start len) a of
       Inl e \<Rightarrow> Inl e
     | Inr a' \<Rightarrow> interrupt_flags addressString (start + len) a'))"
  by pat_completeness auto
termination
proof (relation "measure (\<lambda>(s, pos, a). length s - pos)")
  fix addressString pos and a a' :: MrfInterruptRecordAddress and x start len
  assume "findNextToken addressString delimiters pos = Some x" "(start, len) = x"
  then have "findNextToken addressString delimiters pos = Some (start, len)" by simp
  from findNextToken_Some [OF this]
  show "((addressString, start + len, a'), addressString, pos, a) \<in> measure (\<lambda>(s, pos, a). length s - pos)"
    by simp
qed simp

declare interrupt_flags.simps [simp del]

definition new_MrfInterruptRecordAddress :: "string \<Rightarrow> exn + MrfInterruptRecordAddress" where
  "new_MrfInterruptRecordAddress addressString =
     (case findNextToken addressString delimiters 0 of
        None \<Rightarrow> Inl (InvalidArgument ''Could not find device ID in record address.'')
      | Some (s1, l1) \<Rightarrow> interrupt_flags addressString (s1 + l1)
          \<lparr>ia_deviceId = substr addressString s1 l1, ia_interruptFlagsMask = 0xffffffff\<rparr>)"

end
