(* ===== verification/RecordAddress_Props.thy ===== *)
theory RecordAddress_Props
  imports RecordAddress
begin

text \<open>Properties of the addresses of records and of the parser of memory addresses.\<close>

section \<open>Parsing is parsing of tokens\<close>

text \<open>The address as a function of its tokens.\<close>

fun flags_of_tokens :: "string list \<Rightarrow> MrfRecordAddress \<Rightarrow> exn + MrfRecordAddress" where
  "flags_of_tokens [] a = Inr a"
| "flags_of_tokens (t # ts) a = (case parse_flag t a of Inl e \<Rightarrow> Inl e | Inr a' \<Rightarrow> flags_of_tokens ts a')"

fun address_of_tokens :: "string list \<Rightarrow> exn + MrfRecordAddress" where
  "address_of_tokens [] = Inl (InvalidArgument ''Could not find device ID in record address.'')"
| "address_of_tokens [d] = Inl (InvalidArgument ''Could not find memory address in record address.'')"
| "address_of_tokens [d, m] = Inl (InvalidArgument ''Could not find data type in record address.'')"
| "address_of_tokens (d # m # t # ts) = (case parse_dataType t of
     Inl e \<Rightarrow> Inl e
   | Inr dataType \<Rightarrow> (case parseMemoryAddress m dataType of
       Inl e \<Rightarrow> Inl e
     | Inr (address, high, low) \<Rightarrow> flags_of_tokens ts
         \<lparr>ra_deviceId = d, ra_address = address, ra_highestBit = high, ra_lowestBit = low,
          ra_dataType = dataType, ra_changedElementsOnly = False, ra_elementDistance = 0,
          ra_readOnInit = True, ra_stringLength = 0, ra_verify = True, ra_zeroOtherBits = False\<rparr>))"

lemma parse_flags_tokens: "parse_flags s pos a = flags_of_tokens (words_of delimiters (drop pos s)) a"
proof (induction s pos a rule: parse_flags.induct)
  case (1 s pos a)
  show ?case
  proof (cases "findNextToken s delimiters pos")
    case None
    with findNextToken_words(1) [OF None] show ?thesis by (simp add: parse_flags.simps [of s pos])
  next
    case (Some t)
    obtain start len where t: "t = (start, len)" by fastforce
    note words = findNextToken_words(2) [OF Some [unfolded t]]
    show ?thesis
    proof (cases "parse_flag (substr s start len) a")
      case (Inr a')
      with "1" [OF Some t [symmetric] Inr] show ?thesis
        by (simp add: parse_flags.simps [of s pos] Some t words)
    qed (simp add: parse_flags.simps [of s pos] Some t words)
  qed
qed

lemma new_address_tokens: "new_MrfRecordAddress s = address_of_tokens (words_of delimiters s)"
proof (cases "findNextToken s delimiters 0")
  case None
  with findNextToken_words(1) [OF None] show ?thesis by (simp add: new_MrfRecordAddress_def)
next
  case (Some t1)
  obtain s1 l1 where 1: "findNextToken s delimiters 0 = Some (s1, l1)" using Some by (cases t1) auto
  note w1 = findNextToken_words(2) [OF 1]
  show ?thesis
  proof (cases "findNextToken s delimiters (s1 + l1)")
    case None
    with findNextToken_words(1) [OF None] w1 1 show ?thesis by (simp add: new_MrfRecordAddress_def)
  next
    case (Some t2)
    obtain s2 l2 where 2: "findNextToken s delimiters (s1 + l1) = Some (s2, l2)" using Some by (cases t2) auto
    note w2 = findNextToken_words(2) [OF 2]
    show ?thesis
    proof (cases "findNextToken s delimiters (s2 + l2)")
      case None
      with findNextToken_words(1) [OF None] w1 w2 1 2 show ?thesis by (simp add: new_MrfRecordAddress_def)
    next
      case (Some t3)
      obtain s3 l3 where 3: "findNextToken s delimiters (s2 + l2) = Some (s3, l3)" using Some by (cases t3) auto
      note w3 = findNextToken_words(2) [OF 3]
      have "words_of delimiters s = substr s s1 l1 # substr s s2 l2 # substr s s3 l3
          # words_of delimiters (drop (s3 + l3) s)"
        using w1 w2 w3 by simp
      then show ?thesis
        by (simp add: new_MrfRecordAddress_def 1 2 3 parse_flags_tokens split: sum.split)
    qed
  qed
qed

section \<open>Well-formed addresses\<close>

definition wf_address :: "MrfRecordAddress \<Rightarrow> bool" where
  "wf_address a \<longleftrightarrow> ra_deviceId a \<noteq> [] \<and> (\<forall>c\<in>set (ra_deviceId a). c \<notin> set delimiters)
     \<and> 0 \<le> ra_lowestBit a \<and> ra_lowestBit a \<le> ra_highestBit a \<and> ra_highestBit a \<le> maxBitIndex (ra_dataType a)
     \<and> 0 \<le> ra_elementDistance a \<and> ra_elementDistance a < 2 ^ 31
     \<and> 0 \<le> ra_stringLength a \<and> ra_stringLength a < 2 ^ 31
     \<and> (ra_readOnInit a \<longrightarrow> ra_verify a)"

lemma digit_value_nonneg: "0 \<le> digit_value c"
  by (simp add: digit_value_def Let_def)

lemma number_value_nonneg: "0 \<le> base \<Longrightarrow> 0 \<le> number_value base ds"
proof -
  assume base: "0 \<le> base"
  have "0 \<le> a \<Longrightarrow> 0 \<le> foldl (\<lambda>a c. a * base + digit_value c) a ds" for a
    using base digit_value_nonneg by (induction ds arbitrary: a) simp_all
  then show ?thesis by (simp add: number_value_def)
qed

lemma number_base_nonneg: "number_base s = (b, s') \<Longrightarrow> 0 \<le> b"
  by (auto simp: number_base_def split: if_splits)

lemma scan_number_nonneg: "scan_number s = Some (neg, v, n) \<Longrightarrow> 0 \<le> v"
  by (auto simp: scan_number_def Let_def number_value_nonneg dest: number_base_nonneg
      split: prod.splits if_splits)

lemma stoul_bounds:
  assumes "stoul s = Inr (v, n)"
  shows "0 \<le> v" "v < 2 ^ 64"
  using assms scan_number_nonneg [of s]
  by (auto simp: stoul_def split: option.splits if_splits)

lemma parse_bit_bounds: "parse_bit s t m = Inr (b, n) \<Longrightarrow> 0 \<le> b \<and> b \<le> m"
  by (auto simp: parse_bit_def split: sum.splits if_splits)

lemma parse_bit_range_bounds:
  assumes "parse_bit_range s t m = Inr (h, l)"
  shows "0 \<le> l" "l \<le> h" "h \<le> m"
  using assms parse_bit_bounds [of s t m] parse_bit_bounds [of s _ m]
  by (auto simp: parse_bit_range_def split: sum.splits if_splits)

lemma parseMemoryAddress_bounds:
  assumes "parseMemoryAddress s t = Inr (a, h, l)"
  shows "0 \<le> l \<and> l \<le> h \<and> h \<le> maxBitIndex t"
  using assms parse_bit_range_bounds [of s]
  by (cases t) (auto simp: parseMemoryAddress_def split: sum.splits if_splits)

lemma int_option_bounds: "int_option w p t = Inr v \<Longrightarrow> 0 \<le> v \<and> v < 2 ^ 31"
  using stoul_bounds by (auto simp: int_option_def split: sum.splits if_splits)

lemma parse_flag_cases:
  assumes "parse_flag t a = Inr a'"
  shows "a' = a\<lparr>ra_zeroOtherBits := True\<rparr> \<or> a' = a\<lparr>ra_verify := False, ra_readOnInit := False\<rparr>
    \<or> a' = a\<lparr>ra_readOnInit := False\<rparr> \<or> a' = a\<lparr>ra_changedElementsOnly := True\<rparr>
    \<or> (\<exists>v. int_option ''element distance'' ''element_distance='' t = Inr v \<and> a' = a\<lparr>ra_elementDistance := v\<rparr>)
    \<or> (\<exists>v. int_option ''string length'' ''string_length='' t = Inr v \<and> a' = a\<lparr>ra_stringLength := v\<rparr>)"
proof -
  have "(case r of Inl e \<Rightarrow> Inl e | Inr v \<Rightarrow> Inr (f v)) = Inr a' \<longleftrightarrow> (\<exists>v. r = Inr v \<and> a' = f v)"
    for r :: "exn + int" and f
    by (cases r) auto
  note this [simp]
  from assms show ?thesis unfolding parse_flag_def
    by (simp split: if_split_asm)
qed

lemma parse_flag_wf:
  assumes "wf_address a" "parse_flag t a = Inr a'"
  shows "wf_address a'"
  using parse_flag_cases [OF assms(2)] assms(1)
  by (elim disjE exE conjE) (auto simp: wf_address_def dest!: int_option_bounds)

lemma flags_of_tokens_wf: "wf_address a \<Longrightarrow> flags_of_tokens ts a = Inr a' \<Longrightarrow> wf_address a'"
  by (induction ts arbitrary: a) (auto dest: parse_flag_wf split: sum.splits)

lemma words_of_tokens:
  "w \<in> set (words_of delims s) \<Longrightarrow> w \<noteq> [] \<and> (\<forall>c\<in>set w. c \<notin> set delims)"
proof (induction delims s rule: words_of.induct)
  case (1 delims s)
  show ?case
  proof (cases "dropWhile (\<lambda>c. c \<in> set delims) s")
    case Nil
    from "1.prems" show ?thesis
      by (subst (asm) words_of.simps) (simp only: Nil list.case list.set empty_iff)
  next
    case (Cons c r)
    have c: "c \<notin> set delims" using Cons hd_dropWhile [of "\<lambda>c. c \<in> set delims" s] by simp
    have "w = c # takeWhile (\<lambda>c. c \<notin> set delims) r
        \<or> w \<in> set (words_of delims (dropWhile (\<lambda>c. c \<notin> set delims) r))"
      using "1.prems" by (subst (asm) words_of.simps) (simp only: Cons list.case set_simps insert_iff)
    then show ?thesis
    proof
      assume "w = c # takeWhile (\<lambda>c. c \<notin> set delims) r"
      with c show ?thesis by (metis list.distinct(1) set_ConsD set_takeWhileD)
    next
      assume "w \<in> set (words_of delims (dropWhile (\<lambda>c. c \<notin> set delims) r))"
      from "1.IH" [OF Cons this] show ?thesis .
    qed
  qed
qed

lemma new_address_wf:
  assumes "new_MrfRecordAddress s = Inr a"
  shows "wf_address a"
proof -
  obtain d m t ts where w: "words_of delimiters s = d # m # t # ts"
    using assms unfolding new_address_tokens
    by (metis address_of_tokens.simps(1-3) list.exhaust sum.distinct(1))
  obtain dt ad h l where parsed: "parse_dataType t = Inr dt" "parseMemoryAddress m dt = Inr (ad, h, l)"
    and flags: "flags_of_tokens ts \<lparr>ra_deviceId = d, ra_address = ad, ra_highestBit = h, ra_lowestBit = l,
          ra_dataType = dt, ra_changedElementsOnly = False, ra_elementDistance = 0,
          ra_readOnInit = True, ra_stringLength = 0, ra_verify = True, ra_zeroOtherBits = False\<rparr> = Inr a"
    using assms unfolding new_address_tokens w address_of_tokens.simps
    by (cases "parse_dataType t"; cases "parseMemoryAddress m (projr (parse_dataType t))") auto
  show ?thesis
    by (rule flags_of_tokens_wf [OF _ flags])
       (use words_of_tokens [of d delimiters s] parseMemoryAddress_bounds [OF parsed(2)] w
         in \<open>auto simp: wf_address_def\<close>)
qed


section \<open>Numbers that are printed\<close>

lemma hex_char_facts:
  "d < 16 \<Longrightarrow> digit_value (hex_char d) = int d" "d < 16 \<Longrightarrow> hex_char d \<notin> set delimiters"
  "d < 16 \<Longrightarrow> \<not> is_space (hex_char d)"
proof -
  have "list_all (\<lambda>d. digit_value (hex_char d) = int d \<and> hex_char d \<notin> set delimiters
      \<and> \<not> is_space (hex_char d)) [0..<16]"
    by code_simp
  then show "d < 16 \<Longrightarrow> digit_value (hex_char d) = int d" "d < 16 \<Longrightarrow> hex_char d \<notin> set delimiters"
    "d < 16 \<Longrightarrow> \<not> is_space (hex_char d)"
    by (simp_all add: list_all_iff)
qed

lemma nibble_less: "unat (take_bit 4 (w :: u32)) < 16"
  by (simp only: unsigned_take_bit_eq) (simp add: take_bit_eq_mod)

lemma hex_digits8_less: "d \<in> set (hex_digits8 a) \<Longrightarrow> d < 16"
  using nibble_less by (auto simp: hex_digits8_def)

lemma number_value_hex: "number_value 16 (map hex_char (hex_digits8 a)) = uint a"
proof -
  define n where "n = uint a"
  have n: "0 \<le> n" "n < 4294967296" using uint_lt2p [of a] by (simp_all add: n_def)
  have small: "uint a mod 4294967296 = uint a" using n by (simp add: n_def)
  have digit: "int (unat (take_bit 4 (drop_bit k a))) = n div 2 ^ k mod 16" for k
  proof -
    have "int (unat (take_bit 4 (drop_bit k a))) = uint (take_bit 4 (drop_bit k a))" by simp
    also have "\<dots> = n div 2 ^ k mod 16"
      by (simp only: unsigned_take_bit_eq unsigned_drop_bit_eq)
        (simp add: n_def take_bit_eq_mod drop_bit_eq_div small)
    finally show ?thesis .
  qed
  have chain: "n div 16 ^ k = 16 * (n div 16 ^ Suc k) + n div 16 ^ k mod 16" for k
  proof -
    have "n div 16 ^ Suc k = n div 16 ^ k div 16"
      unfolding power_Suc2 by (rule zdiv_zmult2_eq) simp
    then show ?thesis using mult_div_mod_eq [of 16 "n div 16 ^ k"] by simp
  qed
  have pow: "n div 2 ^ (4 * k) = n div 16 ^ k" for k by (simp add: power_mult)
  have "digit_value (hex_char (unat (take_bit 4 (drop_bit (4 * k) a)))) = n div 16 ^ k mod 16" for k
    using hex_char_facts(1) [OF nibble_less] digit [of "4 * k"] pow [of k] by simp
  note value_of = this
  have top: "n div 16 ^ 8 = 0" using n by simp
  have "number_value 16 (map hex_char (hex_digits8 a))
      = ((((((((n div 16 ^ 7 mod 16) * 16 + n div 16 ^ 6 mod 16) * 16 + n div 16 ^ 5 mod 16) * 16
        + n div 16 ^ 4 mod 16) * 16 + n div 16 ^ 3 mod 16) * 16 + n div 16 ^ 2 mod 16) * 16
        + n div 16 ^ 1 mod 16) * 16 + n div 16 ^ 0 mod 16)"
    unfolding number_value_def hex_digits8_def list.map foldl.simps value_of by simp
  also have "\<dots> = n"
  proof -
    define q m where "q k = n div 16 ^ k" and "m k = n div 16 ^ k mod 16" for k
    have step: "q k = 16 * q (Suc k) + m k" for k unfolding q_def m_def by (rule chain)
    have "q 8 = 0" "q 0 = n" using top by (simp_all add: q_def)
    then have "(((((((m 7 * 16 + m 6) * 16 + m 5) * 16 + m 4) * 16 + m 3) * 16 + m 2) * 16 + m 1) * 16 + m 0) = n"
      using step [of 7] step [of 6] step [of 5] step [of 4] step [of 3] step [of 2] step [of 1] step [of 0]
      by (simp add: eval_nat_numeral)
    then show ?thesis by (simp only: m_def)
  qed
  finally show ?thesis by (simp add: n_def)
qed


lemma hex_string_facts:
  "length (mrfMemoryAddressToString a) = 10" "mrfMemoryAddressToString a \<noteq> []"
  "c \<in> set (mrfMemoryAddressToString a) \<Longrightarrow> c \<notin> set delimiters"
proof -
  show "length (mrfMemoryAddressToString a) = 10" "mrfMemoryAddressToString a \<noteq> []"
    by (simp_all add: mrfMemoryAddressToString_def hex_digits8_def)
  have "CHR ''0'' \<notin> set delimiters" "CHR ''x'' \<notin> set delimiters" by code_simp+
  then show "c \<in> set (mrfMemoryAddressToString a) \<Longrightarrow> c \<notin> set delimiters"
    using hex_char_facts(2) hex_digits8_less by (auto simp: mrfMemoryAddressToString_def)
qed

lemma stoul_hex:
  assumes "rest = [] \<or> 16 \<le> digit_value (hd rest)"
  shows "stoul (mrfMemoryAddressToString a @ rest) = Inr (uint a, 10)"
proof -
  let ?ds = "map hex_char (hex_digits8 a)"
  let ?s = "mrfMemoryAddressToString a @ rest"
  have s: "?s = CHR ''0'' # CHR ''x'' # ?ds @ rest" by (simp add: mrfMemoryAddressToString_def)
  have space: "\<not> is_space CHR ''0''" by code_simp
  obtain d ds where ds: "hex_digits8 a = d # ds" "d < 16"
    using hex_digits8_less [of _ a] by (auto simp: hex_digits8_def)
  have base: "number_base ?s = (16, ?ds @ rest)"
    using ds hex_char_facts(1) [OF ds(2)] by (simp add: number_base_def s)
  have digits: "digit_value (hex_char x) < 16" if "x \<in> set (hex_digits8 a)" for x
    using hex_char_facts(1) hex_digits8_less [OF that] by simp
  have take: "takeWhile (\<lambda>c. digit_value c < 16) (?ds @ rest) = ?ds"
  proof -
    have "\<forall>c\<in>set ?ds. digit_value c < 16" using digits by auto
    with assms show ?thesis by (cases rest) (auto simp: takeWhile_append)
  qed
  have len: "length ?ds = 8" by (simp add: hex_digits8_def)
  have s1: "dropWhile is_space ?s = ?s" using space by (simp add: s)
  have sign: "\<not> (?s \<noteq> [] \<and> (?s ! 0 = CHR ''-'' \<or> ?s ! 0 = CHR ''+''))" by (simp add: s)
  have "scan_number ?s = Some (False, uint a, 10)"
    unfolding scan_number_def s1 Let_def
    using sign len by (simp only: if_False base prod.case take) (use number_value_hex [of a] in \<open>auto simp: s ds(1)\<close>)
  moreover have "uint a \<le> 2 ^ 64 - 1" using uint_lt2p [of a] by simp
  ultimately show ?thesis by (simp add: stoul_def)
qed

text \<open>Bit indices in decimal digits.\<close>

definition show_bit :: "int \<Rightarrow> string" where
  "show_bit n = (if n < 10 then [char_of (48 + n)] else [char_of (48 + n div 10), char_of (48 + n mod 10)])"

lemma show_bit_facts:
  assumes "0 \<le> n" "n < 32"
  shows "show_bit n \<noteq> []" "\<not> is_space (hd (show_bit n))" "hd (show_bit n) \<noteq> CHR ''-''"
    "hd (show_bit n) \<noteq> CHR ''+''" "list_all (\<lambda>c. digit_value c < 10) (show_bit n)"
    "number_value 10 (show_bit n) = n" "hd (show_bit n) = CHR ''0'' \<Longrightarrow> show_bit n = ''0''"
    "list_all (\<lambda>c. c \<notin> set delimiters) (show_bit n)"
proof -
  define P where "P n \<longleftrightarrow> show_bit n \<noteq> [] \<and> \<not> is_space (hd (show_bit n)) \<and> hd (show_bit n) \<noteq> CHR ''-''
    \<and> hd (show_bit n) \<noteq> CHR ''+'' \<and> list_all (\<lambda>c. digit_value c < 10) (show_bit n)
    \<and> number_value 10 (show_bit n) = n \<and> (hd (show_bit n) = CHR ''0'' \<longrightarrow> show_bit n = ''0'')
    \<and> list_all (\<lambda>c. c \<notin> set delimiters) (show_bit n)" for n
  have "list_all P [0..31]" unfolding P_def by code_simp
  then have "P n" using assms by (simp add: list_all_iff)
  then show "show_bit n \<noteq> []" "\<not> is_space (hd (show_bit n))" "hd (show_bit n) \<noteq> CHR ''-''"
    "hd (show_bit n) \<noteq> CHR ''+''" "list_all (\<lambda>c. digit_value c < 10) (show_bit n)"
    "number_value 10 (show_bit n) = n" "hd (show_bit n) = CHR ''0'' \<Longrightarrow> show_bit n = ''0''"
    "list_all (\<lambda>c. c \<notin> set delimiters) (show_bit n)"
    unfolding P_def by blast+
qed

lemma stoi_bit:
  assumes n: "0 \<le> n" "n < 32"
    and rest: "rest = [] \<or> 10 \<le> digit_value (hd rest) \<and> hd rest \<noteq> CHR ''x'' \<and> hd rest \<noteq> CHR ''X''"
  shows "stoi (show_bit n @ rest) = Inr (n, length (show_bit n))"
proof -
  note f = show_bit_facts [OF n]
  let ?s = "show_bit n @ rest"
  obtain c ds where c: "show_bit n = c # ds" using f(1) by (cases "show_bit n") auto
  have s1: "dropWhile is_space ?s = ?s" using f(2) c by simp
  have sign: "\<not> (?s \<noteq> [] \<and> (?s ! 0 = CHR ''-'' \<or> ?s ! 0 = CHR ''+''))" using f(3,4) c by simp
  have "\<exists>b. number_base ?s = (b, ?s) \<and> takeWhile (\<lambda>c. digit_value c < b) ?s = show_bit n
      \<and> number_value b (show_bit n) = n"
  proof (cases "c = CHR ''0''")
    case True
    then have zero: "show_bit n = ''0''" using f(7) c by simp
    have d0: "digit_value CHR ''0'' = 0" by code_simp
    have "n = 0" using f(6) by (simp add: zero number_value_def d0)
    then have "number_value 8 (show_bit n) = n" unfolding zero by (simp add: number_value_def d0)
    moreover have "number_base ?s = (8, ?s)"
      unfolding zero using rest by (cases rest) (auto simp: number_base_def)
    moreover have "takeWhile (\<lambda>c. digit_value c < 8) ?s = show_bit n"
      unfolding zero using rest by (cases rest) (auto simp: d0)
    ultimately show ?thesis by blast
  next
    case False
    then have "number_base ?s = (10, ?s)" using c by (simp add: number_base_def)
    moreover have "takeWhile (\<lambda>c. digit_value c < 10) ?s = show_bit n"
      using f(5) rest by (cases rest) (auto simp: list_all_iff takeWhile_append)
    ultimately show ?thesis using f(6) by blast
  qed
  then obtain b where b: "number_base ?s = (b, ?s)" "takeWhile (\<lambda>c. digit_value c < b) ?s = show_bit n"
    "number_value b (show_bit n) = n" by blast
  have "scan_number ?s = Some (False, n, length (show_bit n))"
    unfolding scan_number_def s1 Let_def
    using sign f(1) by (simp only: if_False b prod.case) simp
  then show ?thesis using n by (simp add: stoi_def)
qed


section \<open>Printing addresses\<close>

definition format_memory :: "u32 \<Rightarrow> int \<Rightarrow> int \<Rightarrow> string" where
  "format_memory a h l = mrfMemoryAddressToString a @ ''['' @ show_bit h @ '':'' @ show_bit l @ '']''"

lemma bracket_values: "digit_value CHR ''['' = 99" "digit_value CHR '':'' = 99"
  by code_simp+

lemma maxBitIndex_less: "maxBitIndex t < 32"
  by (cases t) simp_all

lemma parse_bit_range_format:
  assumes "0 \<le> l" "l \<le> h" "h \<le> maxBitIndex t"
  shows "parse_bit_range s (show_bit h @ '':'' @ show_bit l) (maxBitIndex t) = Inr (h, l)"
proof -
  have range: "0 \<le> h" "h < 32" "0 \<le> l" "l < 32" using assms maxBitIndex_less [of t] by simp_all
  have high: "stoi (show_bit h @ '':'' @ show_bit l) = Inr (h, length (show_bit h))"
    by (rule stoi_bit [OF range(1,2)]) (simp add: bracket_values)
  have low: "stoi (show_bit l) = Inr (l, length (show_bit l))"
    using stoi_bit [OF range(3,4), of "[]"] by simp
  show ?thesis
    using assms range by (simp add: parse_bit_range_def parse_bit_def high [simplified] low)
qed

lemma parseMemoryAddress_format:
  assumes "0 \<le> l" "l \<le> h" "h \<le> maxBitIndex t"
  shows "parseMemoryAddress (format_memory a h l) t = Inr (a, h, l)"
proof -
  let ?m = "mrfMemoryAddressToString a"
  let ?bits = "show_bit h @ '':'' @ show_bit l"
  have s: "format_memory a h l = ?m @ CHR ''['' # ?bits @ '']''" by (simp add: format_memory_def)
  have num: "stoul (format_memory a h l) = Inr (uint a, 10)"
    unfolding s by (rule stoul_hex) (simp add: bracket_values)
  have "uint a \<le> 2 ^ 32 - 1" using uint_lt2p [of a] by simp
  moreover have "format_memory a h l ! 10 = CHR ''[''"
    using hex_string_facts(1) [of a] by (simp add: s nth_append)
  moreover have "format_memory a h l ! (length (format_memory a h l) - 1) = CHR '']''"
    by (simp add: s nth_append)
  moreover have "substr (format_memory a h l) 11 (length (format_memory a h l) - 10 - 2) = ?bits"
    using hex_string_facts(1) [of a] by (simp add: s substr_def)
  moreover have "10 \<noteq> length (format_memory a h l)" using hex_string_facts(1) [of a] by (simp add: s)
  ultimately show ?thesis
    using parse_bit_range_format [OF assms] by (simp add: parseMemoryAddress_def num)
qed

text \<open>An address as a list of tokens, and as a string.\<close>

definition data_type_name :: "DataType \<Rightarrow> string" where
  "data_type_name t = (case t of uInt16 \<Rightarrow> ''uint16'' | uInt32 \<Rightarrow> ''uint32'')"

definition flag_tokens :: "MrfRecordAddress \<Rightarrow> string list" where
  "flag_tokens a = (if ra_zeroOtherBits a then [''zero_other_bits''] else [])
     @ (if ra_verify a then [] else [''no_verify''])
     @ (if ra_readOnInit a then [] else [''no_read_on_init''])
     @ (if ra_changedElementsOnly a then [''changed_elements_only''] else [])
     @ [''element_distance='' @ mrfMemoryAddressToString (word_of_int (ra_elementDistance a)),
        ''string_length='' @ mrfMemoryAddressToString (word_of_int (ra_stringLength a))]"

definition address_tokens :: "MrfRecordAddress \<Rightarrow> string list" where
  "address_tokens a = [ra_deviceId a, format_memory (ra_address a) (ra_highestBit a) (ra_lowestBit a),
     data_type_name (ra_dataType a)] @ flag_tokens a"

fun join_tokens :: "string list \<Rightarrow> string" where
  "join_tokens [] = []"
| "join_tokens [t] = t"
| "join_tokens (t # ts) = t @ '' '' @ join_tokens ts"

definition format_address :: "MrfRecordAddress \<Rightarrow> string" where
  "format_address a = join_tokens (address_tokens a)"

lemma words_of_join:
  assumes "\<forall>t\<in>set ts. t \<noteq> [] \<and> (\<forall>c\<in>set t. c \<notin> set delimiters)"
  shows "words_of delimiters (join_tokens ts) = ts"
  using assms
proof (induction ts rule: join_tokens.induct)
  case (3 t u ts)
  have "CHR '' '' \<in> set delimiters" by (simp add: delimiters_def)
  then have "words_of delimiters (t @ CHR '' '' # join_tokens (u # ts)) = t # words_of delimiters (join_tokens (u # ts))"
    using 3 by (intro words_of_append) auto
  with 3 show ?case by simp
qed (auto intro: words_of_single)

definition token_ok :: "string \<Rightarrow> bool" where
  "token_ok t \<longleftrightarrow> t \<noteq> [] \<and> list_all (\<lambda>c. c \<notin> set delimiters) t"

lemma token_ok_append: "token_ok s \<Longrightarrow> token_ok t \<Longrightarrow> token_ok (s @ t)"
  by (simp add: token_ok_def)

lemma token_ok_fixed:
  "token_ok ''zero_other_bits''" "token_ok ''no_verify''" "token_ok ''no_read_on_init''"
  "token_ok ''changed_elements_only''" "token_ok ''element_distance=''" "token_ok ''string_length=''"
  "token_ok ''uint16''" "token_ok ''uint32''" "token_ok ''[''" "token_ok '':''" "token_ok '']''"
  by code_simp+

lemma token_ok_hex: "token_ok (mrfMemoryAddressToString a)"
  using hex_string_facts(2) [of a] hex_string_facts(3) by (auto simp: token_ok_def list_all_iff)

lemma address_tokens_ok:
  assumes "wf_address a"
  shows "list_all token_ok (address_tokens a)"
proof -
  have bits: "0 \<le> ra_highestBit a" "ra_highestBit a < 32" "0 \<le> ra_lowestBit a" "ra_lowestBit a < 32"
    using assms maxBitIndex_less [of "ra_dataType a"] by (auto simp: wf_address_def)
  have shown: "token_ok (show_bit (ra_highestBit a))" "token_ok (show_bit (ra_lowestBit a))"
    using show_bit_facts(1,8) [OF bits(1,2)] show_bit_facts(1,8) [OF bits(3,4)]
    by (simp_all add: token_ok_def)
  have "token_ok (ra_deviceId a)"
    using assms by (simp add: token_ok_def wf_address_def list_all_iff)
  moreover have "token_ok (format_memory (ra_address a) (ra_highestBit a) (ra_lowestBit a))"
    unfolding format_memory_def by (intro token_ok_append token_ok_hex shown token_ok_fixed)
  moreover have "token_ok (data_type_name (ra_dataType a))"
    unfolding data_type_name_def by (simp add: token_ok_fixed(7,8) split: DataType.split)
  moreover have "token_ok (''element_distance='' @ mrfMemoryAddressToString w)"
    "token_ok (''string_length='' @ mrfMemoryAddressToString w)" for w
    by (intro token_ok_append token_ok_hex token_ok_fixed)+
  ultimately show ?thesis
    unfolding address_tokens_def flag_tokens_def list_all_append
    by (simp del: append_Cons add: token_ok_fixed)
qed


lemma compare_facts:
  "compareStringsIgnoreCase ''zero_other_bits'' ''zero_other_bits''"
  "\<not> compareStringsIgnoreCase ''no_verify'' ''zero_other_bits''"
  "compareStringsIgnoreCase ''no_verify'' ''no_verify''"
  "\<not> compareStringsIgnoreCase ''no_read_on_init'' ''zero_other_bits''"
  "\<not> compareStringsIgnoreCase ''no_read_on_init'' ''no_verify''"
  "compareStringsIgnoreCase ''no_read_on_init'' ''no_read_on_init''"
  "\<not> compareStringsIgnoreCase ''changed_elements_only'' ''zero_other_bits''"
  "\<not> compareStringsIgnoreCase ''changed_elements_only'' ''no_verify''"
  "\<not> compareStringsIgnoreCase ''changed_elements_only'' ''no_read_on_init''"
  "compareStringsIgnoreCase ''changed_elements_only'' ''changed_elements_only''"
  "compareStringsIgnoreCase ''element_distance='' ''element_distance=''"
  "compareStringsIgnoreCase ''string_length='' ''string_length=''"
  "compareStringsIgnoreCase ''uint16'' ''uint16''" "compareStringsIgnoreCase ''uint32'' ''uint32''"
  "\<not> compareStringsIgnoreCase ''uint32'' ''uint16''"
  by code_simp+

lemma compare_length: "length s \<noteq> length t \<Longrightarrow> \<not> compareStringsIgnoreCase s t"
  by (simp add: compareStringsIgnoreCase_def)

lemma compare_head:
  "to_lower c \<noteq> to_lower d \<Longrightarrow> \<not> compareStringsIgnoreCase (c # s) (d # t)"
  by (simp add: compareStringsIgnoreCase_def)

lemma parse_flag_fixed:
  "parse_flag ''zero_other_bits'' a = Inr (a\<lparr>ra_zeroOtherBits := True\<rparr>)"
  "parse_flag ''no_verify'' a = Inr (a\<lparr>ra_verify := False, ra_readOnInit := False\<rparr>)"
  "parse_flag ''no_read_on_init'' a = Inr (a\<lparr>ra_readOnInit := False\<rparr>)"
  "parse_flag ''changed_elements_only'' a = Inr (a\<lparr>ra_changedElementsOnly := True\<rparr>)"
  by (simp_all only: parse_flag_def compare_facts if_True if_False)

lemma prefix_itself: "compareStringsIgnoreCase p p \<Longrightarrow> has_prefix_ignoring_case (p @ s) p"
  by (simp add: has_prefix_ignoring_case_def substr_def)

lemma int_option_hex:
  assumes "0 \<le> v" "v < 2 ^ 31"
  shows "int_option what p (p @ mrfMemoryAddressToString (word_of_int v)) = Inr v"
proof -
  have "uint (word_of_int v :: u32) = v" using assms by (simp add: unsigned_of_int take_bit_int_eq_self)
  with stoul_hex [of "[]" "word_of_int v"] assms show ?thesis by (simp add: int_option_def)
qed

lemma parse_flag_element_distance:
  assumes "0 \<le> v" "v < 2 ^ 31"
  shows "parse_flag (''element_distance='' @ mrfMemoryAddressToString (word_of_int v)) a
    = Inr (a\<lparr>ra_elementDistance := v\<rparr>)"
proof -
  let ?t = "''element_distance='' @ mrfMemoryAddressToString (word_of_int v)"
  have len: "length ?t = 27" using hex_string_facts(1) by simp
  have no: "\<not> compareStringsIgnoreCase ?t ''zero_other_bits''" "\<not> compareStringsIgnoreCase ?t ''no_verify''"
    "\<not> compareStringsIgnoreCase ?t ''no_read_on_init''" "\<not> compareStringsIgnoreCase ?t ''changed_elements_only''"
    unfolding compareStringsIgnoreCase_def len by simp_all
  have yes: "has_prefix_ignoring_case ?t ''element_distance=''" by (rule prefix_itself) (rule compare_facts)
  show ?thesis
    by (simp only: parse_flag_def no yes int_option_hex [OF assms] if_False if_True sum.case)
qed

lemma parse_flag_string_length:
  assumes "0 \<le> v" "v < 2 ^ 31"
  shows "parse_flag (''string_length='' @ mrfMemoryAddressToString (word_of_int v)) a
    = Inr (a\<lparr>ra_stringLength := v\<rparr>)"
proof -
  let ?t = "''string_length='' @ mrfMemoryAddressToString (word_of_int v)"
  have len: "length ?t = 24" using hex_string_facts(1) by simp
  have no: "\<not> compareStringsIgnoreCase ?t ''zero_other_bits''" "\<not> compareStringsIgnoreCase ?t ''no_verify''"
    "\<not> compareStringsIgnoreCase ?t ''no_read_on_init''" "\<not> compareStringsIgnoreCase ?t ''changed_elements_only''"
    unfolding compareStringsIgnoreCase_def len by simp_all
  have "to_lower CHR ''s'' \<noteq> to_lower CHR ''e''" by code_simp
  then have other: "\<not> has_prefix_ignoring_case ?t ''element_distance=''"
    by (simp add: has_prefix_ignoring_case_def substr_def compare_head)
  have yes: "has_prefix_ignoring_case ?t ''string_length=''" by (rule prefix_itself) (rule compare_facts)
  show ?thesis
    by (simp only: parse_flag_def no other yes int_option_hex [OF assms] if_False if_True sum.case)
qed

lemma flags_of_tokens_append:
  "flags_of_tokens (ts @ us) a = (case flags_of_tokens ts a of Inl e \<Rightarrow> Inl e | Inr a' \<Rightarrow> flags_of_tokens us a')"
  by (induction ts arbitrary: a) (auto split: sum.splits)

lemma parse_dataType_name: "parse_dataType (data_type_name t) = Inr t"
  by (cases t) (simp_all only: data_type_name_def parse_dataType_def compare_facts DataType.case if_True if_False)

lemma flags_of_flag_tokens:
  assumes "wf_address a"
    and "b = \<lparr>ra_deviceId = ra_deviceId a, ra_address = ra_address a, ra_highestBit = ra_highestBit a,
      ra_lowestBit = ra_lowestBit a, ra_dataType = ra_dataType a, ra_changedElementsOnly = False,
      ra_elementDistance = 0, ra_readOnInit = True, ra_stringLength = 0, ra_verify = True,
      ra_zeroOtherBits = False\<rparr>"
  shows "flags_of_tokens (flag_tokens a) b = Inr a"
proof -
  have range: "0 \<le> ra_elementDistance a" "ra_elementDistance a < 2 ^ 31"
    "0 \<le> ra_stringLength a" "ra_stringLength a < 2 ^ 31" and ri: "ra_readOnInit a \<Longrightarrow> ra_verify a"
    using assms(1) by (auto simp: wf_address_def)
  define d1 where "d1 = b\<lparr>ra_zeroOtherBits := ra_zeroOtherBits a\<rparr>"
  define d2 where "d2 = (if ra_verify a then d1 else d1\<lparr>ra_verify := False, ra_readOnInit := False\<rparr>)"
  define d3 where "d3 = (if ra_readOnInit a then d2 else d2\<lparr>ra_readOnInit := False\<rparr>)"
  define d4 where "d4 = d3\<lparr>ra_changedElementsOnly := ra_changedElementsOnly a\<rparr>"
  have steps: "flags_of_tokens (if ra_zeroOtherBits a then [''zero_other_bits''] else []) b = Inr d1"
    "flags_of_tokens (if ra_verify a then [] else [''no_verify'']) d1 = Inr d2"
    "flags_of_tokens (if ra_readOnInit a then [] else [''no_read_on_init'']) d2 = Inr d3"
    "flags_of_tokens (if ra_changedElementsOnly a then [''changed_elements_only''] else []) d3 = Inr d4"
    by (simp_all add: parse_flag_fixed d1_def d2_def d3_def d4_def assms(2))
  have "flags_of_tokens (flag_tokens a) b
      = Inr (d4\<lparr>ra_elementDistance := ra_elementDistance a, ra_stringLength := ra_stringLength a\<rparr>)"
    unfolding flag_tokens_def
    by (simp only: flags_of_tokens_append steps sum.case flags_of_tokens.simps
        parse_flag_element_distance [OF range(1,2)] parse_flag_string_length [OF range(3,4)])
  also have "d4\<lparr>ra_elementDistance := ra_elementDistance a, ra_stringLength := ra_stringLength a\<rparr> = a"
    using ri by (cases a) (auto simp: d1_def d2_def d3_def d4_def assms(2))
  finally show ?thesis .
qed

lemma new_address_format:
  assumes "wf_address a"
  shows "new_MrfRecordAddress (format_address a) = Inr a"
proof -
  have "words_of delimiters (format_address a) = address_tokens a"
    unfolding format_address_def
    using address_tokens_ok [OF assms] by (intro words_of_join) (auto simp: list_all_iff token_ok_def)
  moreover have "parseMemoryAddress (format_memory (ra_address a) (ra_highestBit a) (ra_lowestBit a)) (ra_dataType a)
      = Inr (ra_address a, ra_highestBit a, ra_lowestBit a)"
    using assms by (intro parseMemoryAddress_format) (auto simp: wf_address_def)
  ultimately show ?thesis
    using flags_of_flag_tokens [OF assms refl]
    by (simp add: new_address_tokens address_tokens_def parse_dataType_name)
qed


section \<open>Interrupt records\<close>

fun interrupt_of_tokens :: "string list \<Rightarrow> MrfInterruptRecordAddress \<Rightarrow> exn + MrfInterruptRecordAddress" where
  "interrupt_of_tokens [] a = Inr a"
| "interrupt_of_tokens (t # ts) a = (case interrupt_flag t a of Inl e \<Rightarrow> Inl e | Inr a' \<Rightarrow> interrupt_of_tokens ts a')"

lemma interrupt_flags_tokens:
  "interrupt_flags s pos a = interrupt_of_tokens (words_of delimiters (drop pos s)) a"
proof (induction s pos a rule: interrupt_flags.induct)
  case (1 s pos a)
  show ?case
  proof (cases "findNextToken s delimiters pos")
    case None
    with findNextToken_words(1) [OF None] show ?thesis by (simp add: interrupt_flags.simps [of s pos])
  next
    case (Some t)
    obtain start len where t: "t = (start, len)" by fastforce
    note words = findNextToken_words(2) [OF Some [unfolded t]]
    show ?thesis
    proof (cases "interrupt_flag (substr s start len) a")
      case (Inr a')
      with "1" [OF Some t [symmetric] Inr] show ?thesis
        by (simp add: interrupt_flags.simps [of s pos] Some t words)
    qed (simp add: interrupt_flags.simps [of s pos] Some t words)
  qed
qed

lemma new_interrupt_tokens:
  "new_MrfInterruptRecordAddress s = (case words_of delimiters s of
     [] \<Rightarrow> Inl (InvalidArgument ''Could not find device ID in record address.'')
   | d # ts \<Rightarrow> interrupt_of_tokens ts \<lparr>ia_deviceId = d, ia_interruptFlagsMask = 0xffffffff\<rparr>)"
proof (cases "findNextToken s delimiters 0")
  case None
  with findNextToken_words(1) [OF None] show ?thesis by (simp add: new_MrfInterruptRecordAddress_def)
next
  case (Some t)
  obtain start len where t: "t = (start, len)" by fastforce
  from findNextToken_words(2) [OF Some [unfolded t]] Some show ?thesis
    by (simp add: new_MrfInterruptRecordAddress_def t interrupt_flags_tokens)
qed

lemma interrupt_flag_wf:
  assumes "interrupt_flag t a = Inr a'"
  shows "ia_deviceId a' = ia_deviceId a \<and> ia_interruptFlagsMask a' \<noteq> 0"
proof -
  obtain v n where v: "stoul (drop (length ''interrupt_flags_mask='') t) = Inr (v, n)" "\<not> (v > 2 ^ 32 - 1 \<or> v = 0)"
    and a': "a' = a\<lparr>ia_interruptFlagsMask := word_of_int v\<rparr>"
    using assms unfolding interrupt_flag_def by (auto split: if_split_asm sum.split_asm)
  have "uint (word_of_int v :: u32) = v"
    using v(2) stoul_bounds(1) [OF v(1)] by (simp add: unsigned_of_int take_bit_int_eq_self)
  with v(2) have "word_of_int v \<noteq> (0 :: u32)" by (metis unsigned_0)
  with a' show ?thesis by simp
qed

lemma interrupt_of_tokens_wf:
  "ia_interruptFlagsMask a \<noteq> 0 \<Longrightarrow> interrupt_of_tokens ts a = Inr a' \<Longrightarrow>
     ia_deviceId a' = ia_deviceId a \<and> ia_interruptFlagsMask a' \<noteq> 0"
  by (induction ts arbitrary: a) (auto dest: interrupt_flag_wf split: sum.split_asm)

definition format_interrupt :: "MrfInterruptRecordAddress \<Rightarrow> string" where
  "format_interrupt a = join_tokens
     [ia_deviceId a, ''interrupt_flags_mask='' @ mrfMemoryAddressToString (ia_interruptFlagsMask a)]"

lemma interrupt_flag_format:
  assumes "w \<noteq> 0"
  shows "interrupt_flag (''interrupt_flags_mask='' @ mrfMemoryAddressToString w) a
    = Inr (a\<lparr>ia_interruptFlagsMask := w\<rparr>)"
proof -
  have self: "compareStringsIgnoreCase ''interrupt_flags_mask='' ''interrupt_flags_mask=''" by code_simp
  have drop: "drop (length p) (p @ s) = s" for p s :: string by simp
  have "stoul (mrfMemoryAddressToString w) = Inr (uint w, 10)" using stoul_hex [of "[]" w] by simp
  moreover have "\<not> (uint w > 2 ^ 32 - 1 \<or> uint w = 0)"
    using uint_lt2p [of w] assms by (simp add: uint_0_iff)
  ultimately show ?thesis
    unfolding interrupt_flag_def drop
    by (simp only: prefix_itself [OF self] if_True sum.case prod.case if_False word_of_int_uint)
qed

section \<open>Properties\<close>

text \<open>
  C15. Every address that the parser accepts is well formed: its device has a name without delimiters,
  its bits are in the range of its data type and in order, the distance of elements and the length of
  strings are non-negative integers of 32 bits, and a record that is not verified is not read on
  initialisation either.
\<close>

theorem parsed_address_well_formed:
  assumes "new_MrfRecordAddress s = Inr a"
  shows "wf_address a"
  by (rule new_address_wf [OF assms])

theorem parsed_address_well_formed_witness:
  "\<exists>a. new_MrfRecordAddress ''EVG01 0x10[7:4] uint16 no_verify'' = Inr a \<and> wf_address a
     \<and> ra_highestBit a = 7 \<and> ra_lowestBit a = 4 \<and> ra_dataType a = uInt16"
proof -
  obtain a where a: "new_MrfRecordAddress ''EVG01 0x10[7:4] uint16 no_verify'' = Inr a"
    "ra_highestBit a = 7 \<and> ra_lowestBit a = 4 \<and> ra_dataType a = uInt16"
  proof -
    have "(case new_MrfRecordAddress ''EVG01 0x10[7:4] uint16 no_verify'' of
        Inr a \<Rightarrow> ra_highestBit a = 7 \<and> ra_lowestBit a = 4 \<and> ra_dataType a = uInt16 | Inl e \<Rightarrow> False)"
      by code_simp
    then show thesis using that by (auto split: sum.splits)
  qed
  from parsed_address_well_formed [OF a(1)] a show ?thesis by blast
qed

text \<open>
  C16. Printing and parsing: the printed form of each well-formed address is accepted and gives the
  address back, with all its flags and numbers.
\<close>

theorem address_roundtrip:
  assumes "wf_address a"
  shows "new_MrfRecordAddress (format_address a) = Inr a"
  by (rule new_address_format [OF assms])

definition demo_address :: MrfRecordAddress where
  "demo_address = \<lparr>ra_deviceId = ''EVR1'', ra_address = 0xABC, ra_highestBit = 31, ra_lowestBit = 8,
     ra_dataType = uInt32, ra_changedElementsOnly = True, ra_elementDistance = 12, ra_readOnInit = False,
     ra_stringLength = 40, ra_verify = True, ra_zeroOtherBits = False\<rparr>"

theorem address_roundtrip_witness:
  "new_MrfRecordAddress (format_address demo_address) = Inr demo_address
   \<and> format_address demo_address = ''EVR1 0x00000abc[31:8] uint32 no_read_on_init changed_elements_only element_distance=0x0000000c string_length=0x00000028''"
proof
  have "wf_address demo_address" by code_simp
  then show "new_MrfRecordAddress (format_address demo_address) = Inr demo_address"
    by (rule address_roundtrip)
  show "format_address demo_address = ''EVR1 0x00000abc[31:8] uint32 no_read_on_init changed_elements_only element_distance=0x0000000c string_length=0x00000028''"
    by code_simp
qed

text \<open>
  An address depends on its tokens only: the search for tokens in the string finds the maximal runs
  of characters that are no delimiters, and the address is the one that these tokens describe, whatever
  delimiters there are between, before and after them.
\<close>

lemma address_depends_on_tokens:
  "new_MrfRecordAddress s = address_of_tokens (words_of delimiters s)
   \<and> tokens_from s delimiters 0 = words_of delimiters s"
  using tokens_from_words [of s delimiters 0] by (simp add: new_address_tokens)

text \<open>
  The mask of an interrupt record is never zero, and an address with a mask is read back as it was
  printed.
\<close>

lemma interrupt_address_roundtrip:
  "(case new_MrfInterruptRecordAddress s of
      Inl e \<Rightarrow> True
    | Inr a \<Rightarrow> ia_deviceId a \<noteq> [] \<and> ia_interruptFlagsMask a \<noteq> 0
        \<and> new_MrfInterruptRecordAddress (format_interrupt a) = Inr a)"
proof (cases "new_MrfInterruptRecordAddress s")
  case (Inr a)
  then obtain d ts where w: "words_of delimiters s = d # ts"
    by (cases "words_of delimiters s") (auto simp: new_interrupt_tokens)
  then have a: "interrupt_of_tokens ts \<lparr>ia_deviceId = d, ia_interruptFlagsMask = 0xffffffff\<rparr> = Inr a"
    using Inr by (simp add: new_interrupt_tokens)
  from interrupt_of_tokens_wf [OF _ a] have m: "ia_deviceId a = d" "ia_interruptFlagsMask a \<noteq> 0" by simp_all
  have d: "d \<noteq> [] \<and> (\<forall>c\<in>set d. c \<notin> set delimiters)"
    using words_of_tokens [of d delimiters s] w by simp
  have "token_ok (''interrupt_flags_mask='' @ mrfMemoryAddressToString (ia_interruptFlagsMask a))"
    by (intro token_ok_append token_ok_hex) code_simp
  then have "words_of delimiters (format_interrupt a)
      = [d, ''interrupt_flags_mask='' @ mrfMemoryAddressToString (ia_interruptFlagsMask a)]"
    unfolding format_interrupt_def m(1) using d
    by (intro words_of_join) (auto simp: token_ok_def list_all_iff)
  then have "new_MrfInterruptRecordAddress (format_interrupt a) = Inr a"
    using interrupt_flag_format [OF m(2)] m(1)
    by (simp only: new_interrupt_tokens list.case interrupt_of_tokens.simps sum.case) (cases a; simp)
  with Inr m d show ?thesis by simp
qed simp

text \<open>
  The character between the two bit numbers is not looked at, and what follows the second number is
  ignored: an address with such a range is accepted like the one with a colon.
\<close>

lemma bit_range_separator_unchecked:
  "parseMemoryAddress ''0x10[7:0]'' uInt32 = Inr (0x10, 7, 0)
   \<and> parseMemoryAddress ''0x10[7;0]'' uInt32 = Inr (0x10, 7, 0)
   \<and> parseMemoryAddress ''0x10[7:0;12]'' uInt32 = Inr (0x10, 7, 0)
   \<and> int_option ''element distance'' ''element_distance='' ''element_distance=4km'' = Inr 4"
  by code_simp

end
