(* ===== verification/FineDelay.thy ===== *)
theory FineDelay
  imports RecordAddress
begin

text \<open>
  The record that programs the shift register of a fine-delay module
  (\<^verbatim>\<open>mrfApp/mrfEpicsSrc/MrfLongoutFineDelayShiftRegisterRecord.{h,cpp}\<close>): the parser of its address,
  and the sequence of 51 register writes that shift 24 bits out over four GPIO pins.
\<close>

section \<open>The address\<close>

definition fd_maxBitIndex :: int where
  "fd_maxBitIndex = 28"

definition fd_parseMemoryAddress :: "string \<Rightarrow> exn + u32 \<times> int" where
  "fd_parseMemoryAddress addressString =
     (case stoul addressString of
        Inl _ \<Rightarrow> Inl (invalid_address addressString)
      | Inr (address, numberLength) \<Rightarrow>
          if address > 2 ^ 32 - 1 then Inl (invalid_address addressString)
          else if numberLength = length addressString
            then Inl (InvalidArgument (''Bit index is missing in memory address in record address: '' @ addressString))
          else if addressString ! numberLength \<noteq> CHR ''[''
            then Inl (InvalidArgument (''Invalid memory address in record address: '' @ addressString
              @ ''. Expected '' @ [CHR 0x27] @ ''['' @ [CHR 0x27] @ '' but found '' @ [CHR 0x27]
              @ [addressString ! numberLength] @ [CHR 0x27] @ ''.''))
          else if addressString ! (length addressString - 1) \<noteq> CHR '']''
            then Inl (InvalidArgument (''Invalid memory address in record address: '' @ addressString
              @ ''. Expected '' @ [CHR 0x27] @ '']'' @ [CHR 0x27] @ '' but found '' @ [CHR 0x27]
              @ [addressString ! (length addressString - 1)] @ [CHR 0x27] @ ''.''))
          else
            let bitIndexString = substr addressString (numberLength + 1) (length addressString - numberLength - 2)
            in (case stoi bitIndexString of
                Inl _ \<Rightarrow> Inl (invalid_bit addressString)
              | Inr (bitIndex, n) \<Rightarrow>
                  if n \<noteq> length bitIndexString then Inl (invalid_bit addressString)
                  else if bitIndex < 0 \<or> bitIndex > fd_maxBitIndex then Inl (invalid_bit addressString)
                  else Inr (word_of_int address, bitIndex)))"

section \<open>The state\<close>

record FineDelay =
  gpioDirectionRegisterAddress :: u32
  gpioDirectionRegisterBitShift :: int
  gpioOutputRegisterAddress :: u32
  gpioOutputRegisterBitShift :: int
  writeOutputValue :: u32
  lastValueWritten :: u32
  lastValueWrittenMask :: u32
  nextTransferStepIndex :: int
  writeSuccessful :: bool
  writeErrorMessage :: string

text \<open>
  The constructor: the type of the address and its string (\<open>None\<close> for a null pointer), and whether the
  registry has a device; the other members keep what the memory held (\<open>raw\<close>).
\<close>

definition new_FineDelay ::
    "(string \<Rightarrow> bool) \<Rightarrow> bool \<Rightarrow> string option \<Rightarrow> FineDelay \<Rightarrow> exn + string \<times> FineDelay" where
  "new_FineDelay deviceExists instIo outString raw =
     (if \<not> instIo then Inl invalid_device_address
      else
        let addressString = (case outString of Some s \<Rightarrow> s | None \<Rightarrow> [])
        in (case findNextToken addressString delimiters 0 of
          None \<Rightarrow> Inl (InvalidArgument ''Could not find device ID in record address.'')
        | Some (s1, l1) \<Rightarrow> (case findNextToken addressString delimiters (s1 + l1) of
            None \<Rightarrow> Inl (InvalidArgument ''Could not find memory address of GPIO direction register in record address.'')
          | Some (s2, l2) \<Rightarrow> (case fd_parseMemoryAddress (substr addressString s2 l2) of
              Inl e \<Rightarrow> Inl e
            | Inr (dirAddress, dirShift) \<Rightarrow> (case findNextToken addressString delimiters (s2 + l2) of
                None \<Rightarrow> Inl (InvalidArgument ''Could not find memory address of GPIO output register in record address.'')
              | Some (s3, l3) \<Rightarrow> (case fd_parseMemoryAddress (substr addressString s3 l3) of
                  Inl e \<Rightarrow> Inl e
                | Inr (outAddress, outShift) \<Rightarrow> (case findNextToken addressString delimiters (s3 + l3) of
                    Some (s4, l4) \<Rightarrow> Inl (InvalidArgument (''Unrecognized token in record address: '' @ substr addressString s4 l4))
                  | None \<Rightarrow>
                      let deviceId = substr addressString s1 l1
                      in if \<not> deviceExists deviceId
                         then Inl (RuntimeError (''Could not find device '' @ deviceId @ ''.''))
                         else Inr (deviceId, raw\<lparr>gpioDirectionRegisterAddress := dirAddress,
                           gpioDirectionRegisterBitShift := dirShift, gpioOutputRegisterAddress := outAddress,
                           gpioOutputRegisterBitShift := outShift, writeSuccessful := False\<rparr>))))))))"

section \<open>The transfer\<close>

text \<open>What a step does: a masked write to a register, or the request to process the record again.\<close>

datatype fd_action = MaskedWrite u32 u32 u32 | ScheduleProcessing

definition shifted :: "u32 \<Rightarrow> int \<Rightarrow> u32" where
  "shifted w n = push_bit (nat n) w"

text \<open>The mask of each of the 24 bits in the order in which they are latched; two are unused.\<close>

definition transfer_masks :: "u32 option list" where
  "transfer_masks =
     [Some 0x00000080, Some 0x00000040, Some 0x00000020, Some 0x00000010,
      Some 0x00000008, Some 0x00000004, Some 0x00000002, Some 0x00000001,
      Some 0x00080000, Some 0x00040000, Some 0x00020000, Some 0x00010000,
      Some 0x00000400, None, Some 0x00000200, Some 0x00000100,
      Some 0x04000000, None, Some 0x02000000, Some 0x01000000,
      Some 0x00800000, Some 0x00400000, Some 0x00200000, Some 0x00100000]"

definition transfer_bit :: "u32 \<Rightarrow> int \<Rightarrow> bool" where
  "transfer_bit v bitIndex = (case transfer_masks ! nat bitIndex of
     Some m \<Rightarrow> v AND m \<noteq> 0 | None \<Rightarrow> False)"

definition outputDisable :: "u32 \<Rightarrow> bool" where
  "outputDisable v = (v AND 0x80000000 \<noteq> 0)"

definition startNextTransferStep :: "FineDelay \<Rightarrow> fd_action \<times> FineDelay" where
  "startNextTransferStep d =
     (let current = nextTransferStepIndex d;
          d = d\<lparr>nextTransferStepIndex := current + 1\<rparr>;
          v = writeOutputValue d;
          outMask = shifted 0x0f (gpioOutputRegisterBitShift d);
          out = (\<lambda>w. (MaskedWrite (gpioOutputRegisterAddress d) (shifted w (gpioOutputRegisterBitShift d)) outMask,
            d\<lparr>lastValueWrittenMask := outMask, lastValueWritten := shifted w (gpioOutputRegisterBitShift d)\<rparr>))
      in if current = 0 then
           let m = shifted 0x0f (gpioDirectionRegisterBitShift d)
           in (MaskedWrite (gpioDirectionRegisterAddress d) m m,
               d\<lparr>lastValueWrittenMask := m, lastValueWritten := m\<rparr>)
         else if 1 \<le> current \<and> current \<le> 48 then
           let bitIndex = (current - 1) div 2;
               clockHigh = (current mod 2 = 0);
               w0 = (if transfer_bit v bitIndex then 0x01 else 0);
               w1 = (if clockHigh then w0 OR 0x02 else w0);
               w2 = (if outputDisable v then w1 OR 0x08 else w1)
           in out w2
         else if current = 49 then out (if outputDisable v then 0x04 OR 0x08 else 0x04)
         else if current = 50 then out (if outputDisable v then 0x08 else 0)
         else (ScheduleProcessing, d\<lparr>writeSuccessful := True\<rparr>))"

text \<open>
  The callback of the writes: it gives the next thing to do, a step after a delay or the processing of
  the record.
\<close>

datatype fd_next = NextStep | Process

definition CallbackImpl_success :: "u32 \<Rightarrow> FineDelay \<Rightarrow> fd_next \<times> FineDelay" where
  "CallbackImpl_success value32 d =
     (if value32 AND lastValueWrittenMask d \<noteq> lastValueWritten d AND lastValueWrittenMask d
      then (Process, d\<lparr>writeSuccessful := False, writeErrorMessage :=
        ''Mismatch between the value written to the device and the value read back from the device.''\<rparr>)
      else (NextStep, d))"

definition CallbackImpl_failure :: "u32 \<Rightarrow> ErrorCode \<Rightarrow> string \<Rightarrow> FineDelay \<Rightarrow> fd_next \<times> FineDelay" where
  "CallbackImpl_failure address errorCode details d =
     (Process, d\<lparr>writeSuccessful := False, writeErrorMessage :=
        ''Error writing to address '' @ mrfMemoryAddressToString address @ '': '' @ failure_text errorCode details\<rparr>)"

text \<open>
  The record: what of it the code uses. The result of \<^verbatim>\<open>processRecord\<close> is the exception it throws or
  the action it starts.
\<close>

record longout_record =
  pact :: bool
  udf :: bool
  val :: u32
  sevr_invalid :: bool

definition processRecord ::
    "longout_record \<Rightarrow> FineDelay \<Rightarrow> (exn + fd_action option) \<times> longout_record \<times> FineDelay" where
  "processRecord rec d =
     (if pact rec then
        let rec = rec\<lparr>pact := False\<rparr>
        in if \<not> writeSuccessful d
           then (Inl (RuntimeError (writeErrorMessage d)), rec\<lparr>sevr_invalid := True\<rparr>, d)
           else (Inr None, rec\<lparr>udf := False\<rparr>, d)
      else
        case startNextTransferStep (d\<lparr>nextTransferStepIndex := 0, writeOutputValue := val rec\<rparr>) of
          (a, d') \<Rightarrow> (Inr (Some a), rec\<lparr>pact := True\<rparr>, d'))"

end
