(* ===== verification/FineDelay_Props.thy ===== *)
theory FineDelay_Props
  imports FineDelay RecordAddress_Props
begin

text \<open>
  The fine-delay record with a device: a set of registers of which one drives a shift register over
  four of its bits.
\<close>

section \<open>The device\<close>

text \<open>
  The pins are data, clock, transfer latch clock and output disable. The shift register takes the data
  pin when the clock rises; the transfer latch takes the last 24 bits of it when its clock rises.
\<close>

record Module =
  registers :: "u32 \<Rightarrow> u32"
  clock_pin :: bool
  latch_pin :: bool
  disable_pin :: bool
  shift_register :: "bool list"
  latched :: "bool list"

definition drive_pins :: "u32 \<Rightarrow> Module \<Rightarrow> Module" where
  "drive_pins w f =
     (let sr = (if bit w 1 \<and> \<not> clock_pin f then shift_register f @ [bit w 0] else shift_register f)
      in f\<lparr>clock_pin := bit w 1, latch_pin := bit w 2, disable_pin := bit w 3, shift_register := sr,
           latched := (if bit w 2 \<and> \<not> latch_pin f then drop (length sr - 24) sr else latched f)\<rparr>)"

text \<open>A masked write; the register at \<open>out\<close> drives the pins with four of its bits from \<open>n\<close> on.\<close>

definition module_write :: "u32 \<Rightarrow> int \<Rightarrow> u32 \<Rightarrow> u32 \<Rightarrow> u32 \<Rightarrow> Module \<Rightarrow> Module" where
  "module_write out n a v m f =
     (let f' = f\<lparr>registers := (registers f)(a := masked_update v m (registers f a))\<rparr>
      in if a = out then drive_pins (take_bit 4 (drop_bit (nat n) (registers f' a))) f' else f')"

text \<open>
  A transfer from a pending action on: the steps with the replies of the device, until the record is to
  be processed again. The reply to the write of a step may be an error, or another value than the one in
  the register.
\<close>

type_synonym device_replies = "int \<Rightarrow> u32 \<Rightarrow> (ErrorCode \<times> string) + u32"

fun transfer ::
    "nat \<Rightarrow> device_replies \<Rightarrow> fd_action \<Rightarrow> FineDelay \<Rightarrow> Module \<Rightarrow> fd_action list \<times> FineDelay \<times> Module" where
  "transfer 0 reply action d f = ([], d, f)"
| "transfer (Suc n) reply ScheduleProcessing d f = ([ScheduleProcessing], d, f)"
| "transfer (Suc n) reply (MaskedWrite a v m) d f =
     (let f' = module_write (gpioOutputRegisterAddress d) (gpioOutputRegisterBitShift d) a v m f
      in case (case reply (nextTransferStepIndex d - 1) (registers f' a) of
             Inl (e, details) \<Rightarrow> CallbackImpl_failure a e details d
           | Inr x \<Rightarrow> CallbackImpl_success x d) of
             (Process, d') \<Rightarrow> ([MaskedWrite a v m], d', f')
           | (NextStep, d') \<Rightarrow> (case startNextTransferStep d' of
               (action, d'') \<Rightarrow> apfst ((#) (MaskedWrite a v m)) (transfer n reply action d'' f')))"

text \<open>
  The record is processed, the transfer runs, and the record is processed again: the actions, the result
  of the second processing, and the states at the end.
\<close>

definition process_transfer ::
    "nat \<Rightarrow> device_replies \<Rightarrow> longout_record \<Rightarrow> FineDelay \<Rightarrow> Module \<Rightarrow>
      fd_action list \<times> (exn + fd_action option) \<times> longout_record \<times> FineDelay \<times> Module" where
  "process_transfer n reply rec d f = (case processRecord rec d of
     (Inr (Some action), rec', d') \<Rightarrow> (case transfer n reply action d' f of
        (as, d'', f'') \<Rightarrow> (case processRecord rec' d'' of (result, rec'', d3) \<Rightarrow> (as, result, rec'', d3, f'')))
   | (result, rec', d') \<Rightarrow> ([], result, rec', d', f))"

text \<open>The transfer that begins with the next step.\<close>

definition transfer_from ::
    "nat \<Rightarrow> device_replies \<Rightarrow> FineDelay \<Rightarrow> Module \<Rightarrow> fd_action list \<times> FineDelay \<times> Module" where
  "transfer_from n reply d f = (case startNextTransferStep d of (action, d') \<Rightarrow> transfer n reply action d' f)"

section \<open>One step\<close>

text \<open>What the pins get in a step.\<close>

definition nibble :: "u32 \<Rightarrow> int \<Rightarrow> u32" where
  "nibble v i =
     (if 1 \<le> i \<and> i \<le> 48 then
        (if transfer_bit v ((i - 1) div 2) then 1 else 0) OR (if i mod 2 = 0 then 2 else 0)
          OR (if outputDisable v then 8 else 0)
      else if i = 49 then 4 OR (if outputDisable v then 8 else 0)
      else (if outputDisable v then 8 else 0))"

lemma bits_of_small: "bit (1 :: u32) n \<longleftrightarrow> n = 0" "bit (2 :: u32) n \<longleftrightarrow> n = 1" "bit (4 :: u32) n \<longleftrightarrow> n = 2"
  "bit (8 :: u32) n \<longleftrightarrow> n = 3"
  using bit_exp_iff [where 'a = u32, of 0 n] bit_exp_iff [where 'a = u32, of 1 n]
    bit_exp_iff [where 'a = u32, of 2 n] bit_exp_iff [where 'a = u32, of 3 n]
  by (auto simp: possible_bit_word)

lemma nibble_bits:
  "bit (nibble v i) 0 \<longleftrightarrow> 1 \<le> i \<and> i \<le> 48 \<and> transfer_bit v ((i - 1) div 2)"
  "bit (nibble v i) 1 \<longleftrightarrow> 1 \<le> i \<and> i \<le> 48 \<and> i mod 2 = 0"
  "bit (nibble v i) 2 \<longleftrightarrow> i = 49"
  "bit (nibble v i) 3 \<longleftrightarrow> outputDisable v"
  "4 \<le> n \<Longrightarrow> \<not> bit (nibble v i) n"
  by (auto simp: nibble_def bit_or_iff bits_of_small simp del: bit_numeral_word_iff split: if_splits)

lemma step_out:
  assumes "1 \<le> nextTransferStepIndex d" "nextTransferStepIndex d \<le> 50"
  shows "startNextTransferStep d =
    (let w = shifted (nibble (writeOutputValue d) (nextTransferStepIndex d)) (gpioOutputRegisterBitShift d);
         m = shifted 0x0f (gpioOutputRegisterBitShift d)
     in (MaskedWrite (gpioOutputRegisterAddress d) w m,
         d\<lparr>nextTransferStepIndex := nextTransferStepIndex d + 1, lastValueWrittenMask := m, lastValueWritten := w\<rparr>))"
proof -
  consider "nextTransferStepIndex d \<le> 48" | "nextTransferStepIndex d = 49" | "nextTransferStepIndex d = 50"
    using assms(2) by linarith
  then show ?thesis
    using assms by cases (simp_all add: startNextTransferStep_def nibble_def Let_def)
qed

lemma mask_15: "bit (0x0f :: u32) n \<longleftrightarrow> n < 4"
  using bit_mask_iff [where 'a = u32, of 4 n] by (auto simp: possible_bit_word mask_eq_exp_minus_1)

lemma pins_of_register:
  assumes "n \<le> 28" "\<And>k. 4 \<le> k \<Longrightarrow> \<not> bit w k"
  shows "take_bit 4 (drop_bit n (masked_update (push_bit n w) (push_bit n 0x0f) r)) = (w :: u32)"
proof (rule bit_word_eqI)
  fix k assume "k < LENGTH(32)"
  then show "bit (take_bit 4 (drop_bit n (masked_update (push_bit n w) (push_bit n 0x0f) r))) k = bit w k"
    using assms by (cases "k < 4") (auto simp: bit_take_bit_iff bit_drop_bit_eq masked_update_bit bit_push_bit_iff mask_15
      simp del: bit_numeral_word_iff)
qed

lemma masked_update_mask: "masked_update v m r AND m = v AND m"
  by (rule bit_word_eqI) (auto simp: bit_simps masked_update_bit)

text \<open>
  A step whose write the device acknowledges with the value of its register: the state of the record and
  the registers after it.
\<close>

definition acknowledged :: "device_replies \<Rightarrow> int \<Rightarrow> bool" where
  "acknowledged reply i \<longleftrightarrow> (\<forall>x. reply i x = Inr x)"

definition after_step :: "FineDelay \<Rightarrow> FineDelay" where
  "after_step d = snd (startNextTransferStep d)"

definition after_write :: "FineDelay \<Rightarrow> Module \<Rightarrow> Module" where
  "after_write d f = (case fst (startNextTransferStep d) of
     MaskedWrite a v m \<Rightarrow> module_write (gpioOutputRegisterAddress d) (gpioOutputRegisterBitShift d) a v m f
   | ScheduleProcessing \<Rightarrow> f)"

lemma registers_drive_pins [simp]: "registers (drive_pins w f) = registers f"
  by (simp add: drive_pins_def Let_def)

lemma registers_module_write [simp]:
  "registers (module_write out n a v m f) = (registers f)(a := masked_update v m (registers f a))"
  by (simp add: module_write_def Let_def)

lemma transfer_write:
  assumes "0 \<le> nextTransferStepIndex d" "nextTransferStepIndex d \<le> 50"
    and "acknowledged reply (nextTransferStepIndex d)"
  shows "transfer_from (Suc k) reply d f =
    apfst ((#) (fst (startNextTransferStep d))) (transfer_from k reply (after_step d) (after_write d f))"
proof (cases "nextTransferStepIndex d = 0")
  case True
  then show ?thesis
    using assms(3)
    by (simp add: transfer_from_def after_step_def after_write_def startNextTransferStep_def Let_def
        acknowledged_def CallbackImpl_success_def masked_update_mask split: prod.split)
next
  case False
  then have "1 \<le> nextTransferStepIndex d" using assms(1) by linarith
  then show ?thesis
    using assms(2,3)
    by (simp add: transfer_from_def after_step_def after_write_def step_out Let_def
        acknowledged_def CallbackImpl_success_def masked_update_mask split: prod.split)
qed

section \<open>Several steps\<close>

definition steps :: "nat \<Rightarrow> FineDelay \<times> Module \<Rightarrow> FineDelay \<times> Module" where
  "steps j = (\<lambda>(d, f). (after_step d, after_write d f)) ^^ j"

lemma steps_0 [simp]: "steps 0 s = s"
  by (simp add: steps_def)

lemma steps_Suc: "steps (Suc j) (d, f) = steps j (after_step d, after_write d f)"
  unfolding steps_def by (simp only: funpow_Suc_right) simp

lemma steps_Suc_last: "steps (Suc j) s = (case steps j s of (d, f) \<Rightarrow> (after_step d, after_write d f))"
  by (simp add: steps_def)

lemma index_after_step [simp]: "nextTransferStepIndex (after_step d) = nextTransferStepIndex d + 1"
  by (simp add: after_step_def startNextTransferStep_def Let_def)

lemma write_before_51:
  assumes "0 \<le> nextTransferStepIndex d" "nextTransferStepIndex d \<le> 50"
  shows "fst (startNextTransferStep d) \<noteq> ScheduleProcessing"
  using assms by (auto simp: startNextTransferStep_def Let_def)

lemma transfer_writes:
  assumes "0 \<le> nextTransferStepIndex d" "nextTransferStepIndex d + int j \<le> 51"
    and "\<And>i. nextTransferStepIndex d \<le> i \<Longrightarrow> i < nextTransferStepIndex d + int j \<Longrightarrow> acknowledged reply i"
  shows "\<exists>as. length as = j \<and> ScheduleProcessing \<notin> set as \<and> (\<forall>k. transfer_from (j + k) reply d f =
    apfst ((@) as) (transfer_from k reply (fst (steps j (d, f))) (snd (steps j (d, f)))))"
  using assms
proof (induction j arbitrary: d f)
  case 0
  show ?case by (rule exI [of _ "[]"]) (simp add: apfst_def map_prod_def)
next
  case (Suc j)
  have "\<exists>as. length as = j \<and> ScheduleProcessing \<notin> set as \<and> (\<forall>k. transfer_from (j + k) reply (after_step d) (after_write d f) =
    apfst ((@) as) (transfer_from k reply (fst (steps j (after_step d, after_write d f)))
      (snd (steps j (after_step d, after_write d f)))))"
    using Suc.prems by (intro Suc.IH) (simp_all add: algebra_simps)
  then obtain as where as: "length as = j" "ScheduleProcessing \<notin> set as" and
    rest: "\<And>k. transfer_from (j + k) reply (after_step d) (after_write d f) =
      apfst ((@) as) (transfer_from k reply (fst (steps j (after_step d, after_write d f)))
        (snd (steps j (after_step d, after_write d f))))"
    by blast
  have "transfer_from (Suc j + k) reply d f =
      apfst ((@) (fst (startNextTransferStep d) # as))
        (transfer_from k reply (fst (steps (Suc j) (d, f))) (snd (steps (Suc j) (d, f))))" for k
    using Suc.prems
    by (simp add: transfer_write rest steps_Suc apfst_def map_prod_def split: prod.split)
  moreover have "fst (startNextTransferStep d) \<noteq> ScheduleProcessing"
    using Suc.prems by (intro write_before_51) simp_all
  ultimately show ?case
    using as by (intro exI [of _ "fst (startNextTransferStep d) # as"]) auto
qed

text \<open>The state after the first \<open>j\<close> steps.\<close>

definition clean :: "FineDelay \<Rightarrow> FineDelay" where
  "clean d = d\<lparr>nextTransferStepIndex := 0, lastValueWritten := 0, lastValueWrittenMask := 0\<rparr>"

definition outside :: "int \<Rightarrow> u32 \<Rightarrow> u32 \<Rightarrow> bool" where
  "outside n r r' \<longleftrightarrow> (\<forall>b. b < nat n \<or> nat n + 4 \<le> b \<longrightarrow> bit r b = bit r' b)"

definition at_step :: "FineDelay \<Rightarrow> Module \<Rightarrow> nat \<Rightarrow> FineDelay \<Rightarrow> Module \<Rightarrow> bool" where
  "at_step d0 f0 j d f \<longleftrightarrow>
     (let v = writeOutputValue d0; n = gpioOutputRegisterBitShift d0; out = gpioOutputRegisterAddress d0;
          dir = gpioDirectionRegisterAddress d0
      in nextTransferStepIndex d = int j \<and> clean d = clean d0
       \<and> (\<forall>x. x \<noteq> out \<and> x \<noteq> dir \<longrightarrow> registers f x = registers f0 x)
       \<and> (1 \<le> j \<longrightarrow> registers f dir = registers f0 dir OR shifted 0x0f (gpioDirectionRegisterBitShift d0))
       \<and> outside n (registers f out) (registers f0 out)
       \<and> (2 \<le> j \<longrightarrow> take_bit 4 (drop_bit (nat n) (registers f out)) = nibble v (int j - 1)
           \<and> clock_pin f = bit (nibble v (int j - 1)) 1 \<and> latch_pin f = bit (nibble v (int j - 1)) 2
           \<and> disable_pin f = outputDisable v)
       \<and> shift_register f = shift_register f0 @ map (\<lambda>b. transfer_bit v (int b)) [0..<min 24 ((j - 1) div 2)]
       \<and> latched f = (if j \<le> 49 then latched f0 else map (\<lambda>b. transfer_bit v (int b)) [0..<24]))"

lemma clean_fields:
  assumes "clean d = clean d0"
  shows "gpioOutputRegisterAddress d = gpioOutputRegisterAddress d0" "gpioOutputRegisterBitShift d = gpioOutputRegisterBitShift d0"
    "gpioDirectionRegisterAddress d = gpioDirectionRegisterAddress d0"
    "gpioDirectionRegisterBitShift d = gpioDirectionRegisterBitShift d0"
    "writeOutputValue d = writeOutputValue d0" "writeSuccessful d = writeSuccessful d0" "writeErrorMessage d = writeErrorMessage d0"
  using assms by (cases d; cases d0; simp add: clean_def)+

lemma clean_after_step:
  assumes "0 \<le> nextTransferStepIndex d" "nextTransferStepIndex d \<le> 50"
  shows "clean (after_step d) = clean d"
  using assms by (simp add: after_step_def clean_def startNextTransferStep_def Let_def)

lemma outside_masked:
  "outside n (masked_update v (shifted 0x0f n) r) r"
  by (auto simp: outside_def masked_update_bit shifted_def bit_push_bit_iff mask_15 simp del: bit_numeral_word_iff)

lemma outside_trans: "outside n r r' \<Longrightarrow> outside n r' r'' \<Longrightarrow> outside n r r''"
  by (simp add: outside_def)

lemma masked_update_ones: "masked_update m m r = r OR m"
  by (rule bit_word_eqI) (auto simp: masked_update_bit bit_or_iff)

lemma after_write_out:
  assumes "1 \<le> nextTransferStepIndex d" "nextTransferStepIndex d \<le> 50"
    and "0 \<le> gpioOutputRegisterBitShift d" "gpioOutputRegisterBitShift d \<le> 28"
  defines "w \<equiv> nibble (writeOutputValue d) (nextTransferStepIndex d)"
    and "n \<equiv> gpioOutputRegisterBitShift d" and "out \<equiv> gpioOutputRegisterAddress d"
  shows "after_write d f = drive_pins w (f\<lparr>registers := (registers f)(out :=
      masked_update (shifted w n) (shifted 0x0f n) (registers f out))\<rparr>)"
    and "take_bit 4 (drop_bit (nat n) (masked_update (shifted w n) (shifted 0x0f n) r)) = w"
proof -
  have "nat n \<le> 28" using assms by (simp add: n_def)
  then show *: "take_bit 4 (drop_bit (nat n) (masked_update (shifted w n) (shifted 0x0f n) r)) = w" for r
    unfolding shifted_def by (rule pins_of_register) (simp add: w_def nibble_bits)
  have "fst (startNextTransferStep d) = MaskedWrite out (shifted w n) (shifted 0x0f n)"
    using step_out [of d] assms(1,2) by (simp add: w_def n_def out_def Let_def)
  then show "after_write d f = drive_pins w (f\<lparr>registers := (registers f)(out :=
      masked_update (shifted w n) (shifted 0x0f n) (registers f out))\<rparr>)"
    by (simp add: after_write_def module_write_def Let_def * out_def [symmetric] n_def [symmetric])
qed

lemma at_step_1:
  assumes "nextTransferStepIndex d0 = 0" "gpioDirectionRegisterAddress d0 \<noteq> gpioOutputRegisterAddress d0"
  shows "at_step d0 f0 1 (after_step d0) (after_write d0 f0)"
  using assms
  by (simp add: at_step_def Let_def clean_after_step)
    (simp add: after_write_def startNextTransferStep_def Let_def module_write_def masked_update_ones outside_def)

lemma shifted_bits:
  assumes "1 \<le> j" "j \<le> 50"
  shows "(bit (nibble v (int j)) 1 \<and> \<not> (2 \<le> j \<and> bit (nibble v (int j - 1)) 1)) \<longleftrightarrow> even j \<and> j \<le> 48"
  using assms by (auto simp: nibble_bits [unfolded One_nat_def]) presburger+

lemma bits_so_far:
  assumes "1 \<le> j" "j \<le> 50"
  shows "[0..<min 24 (j div 2)] =
    [0..<min 24 ((j - 1) div 2)] @ (if even j \<and> j \<le> 48 then [j div 2 - 1] else [])"
proof (cases "even j \<and> j \<le> 48")
  case True
  define k where "k = j div 2 - 1"
  have k: "min 24 (j div 2) = Suc k" "min 24 ((j - 1) div 2) = k" "j div 2 - 1 = k"
    using True assms unfolding k_def by presburger+
  show ?thesis unfolding k using True by simp
next
  case False
  then have "min 24 (j div 2) = min 24 ((j - 1) div 2)" using assms by presburger
  then show ?thesis using False by simp
qed

lemma at_step_Suc:
  assumes at: "at_step d0 f0 j d f" and j: "1 \<le> j" "j \<le> 50"
    and n: "0 \<le> gpioOutputRegisterBitShift d0" "gpioOutputRegisterBitShift d0 \<le> 28"
    and dir: "gpioDirectionRegisterAddress d0 \<noteq> gpioOutputRegisterAddress d0"
  shows "at_step d0 f0 (Suc j) (after_step d) (after_write d f)"
proof -
  define v n out where "v = writeOutputValue d0" and "n = gpioOutputRegisterBitShift d0"
    and "out = gpioOutputRegisterAddress d0"
  define w where "w = nibble v (int j)"
  define r where "r = registers f out"
  have idx: "nextTransferStepIndex d = int j" and clean: "clean d = clean d0"
    using at by (simp_all add: at_step_def Let_def)
  note fields = clean_fields [OF clean]
  have f': "after_write d f = drive_pins w (f\<lparr>registers := (registers f)(out :=
      masked_update (shifted w n) (shifted 0x0f n) r)\<rparr>)"
    and pins: "take_bit 4 (drop_bit (nat n) (masked_update (shifted w n) (shifted 0x0f n) r)) = w"
    using after_write_out(1) [of d f] after_write_out(2) [of d r] idx fields j n
    unfolding v_def n_def out_def w_def r_def by simp_all
  have clock: "bit w 1 \<and> \<not> clock_pin f \<longleftrightarrow> even j \<and> j \<le> 48"
    if "2 \<le> j" using shifted_bits [OF j, of v] that at
    by (simp add: at_step_def Let_def w_def v_def)
  have clock1: "j = 1 \<Longrightarrow> \<not> bit w 1" by (simp only: w_def nibble_bits) simp
  have latch: "bit w 2 \<longleftrightarrow> j = 49" by (simp add: w_def nibble_bits)
  have latch_low: "\<not> latch_pin f" if "j = 49" using at that by (simp add: at_step_def Let_def nibble_bits)
  have sr0: "shift_register f = shift_register f0 @ map (\<lambda>b. transfer_bit v (int b)) [0..<min 24 ((j - 1) div 2)]"
    using at by (simp add: at_step_def Let_def v_def)
  have data: "bit w 0 = transfer_bit v (int (j div 2 - 1))" if "even j" "j \<le> 48"
  proof -
    have "int (j div 2 - 1) = (int j - 1) div 2" using that j by presburger
    then show ?thesis using that j by (simp add: w_def nibble_bits)
  qed
  have rises: "bit w 1 \<and> \<not> clock_pin f \<longleftrightarrow> even j \<and> j \<le> 48"
    using clock clock1 j by (cases "j = 1") auto
  have sr: "shift_register (after_write d f) =
      shift_register f0 @ map (\<lambda>b. transfer_bit v (int b)) [0..<min 24 (j div 2)]"
    using rises sr0 bits_so_far [OF j] data by (simp add: f' drive_pins_def Let_def)
  have latched: "latched (after_write d f) =
      (if Suc j \<le> 49 then latched f0 else map (\<lambda>b. transfer_bit v (int b)) [0..<24])"
  proof (cases "j = 49")
    case True
    have "latched (after_write d f) = drop (length (shift_register (after_write d f)) - 24) (shift_register (after_write d f))"
      using latch latch_low True by (simp add: f' drive_pins_def Let_def)
    also have "\<dots> = map (\<lambda>b. transfer_bit v (int b)) [0..<24]" unfolding sr using True by simp
    finally show ?thesis using True by simp
  next
    case False
    then have "latched (after_write d f) = latched f" using latch by (simp add: f' drive_pins_def Let_def)
    then show ?thesis using at False j by (simp add: at_step_def Let_def v_def)
  qed
  have regs: "registers (after_write d f) = (registers f)(out := masked_update (shifted w n) (shifted 0x0f n) r)"
    by (simp add: f')
  have "outside n (registers f out) (registers f0 out)" using at by (simp add: at_step_def Let_def n_def out_def)
  then have outside: "outside n (registers (after_write d f) out) (registers f0 out)"
    unfolding regs using outside_masked outside_trans by (simp add: r_def) blast
  have pin_values: "clock_pin (after_write d f) = bit w 1" "latch_pin (after_write d f) = bit w 2"
    "disable_pin (after_write d f) = outputDisable v"
    by (simp_all add: f' drive_pins_def Let_def w_def nibble_bits)
  have others: "x \<noteq> out \<Longrightarrow> registers (after_write d f) x = registers f x" for x by (simp add: regs)
  show ?thesis
    unfolding at_step_def Let_def v_def [symmetric] n_def [symmetric] out_def [symmetric]
    using at idx j clean outside sr latched pin_values pins dir others
    by (simp add: clean_after_step w_def [symmetric] regs)
      (simp add: at_step_def Let_def out_def)
qed

lemma at_steps:
  assumes "nextTransferStepIndex d0 = 0" "gpioDirectionRegisterAddress d0 \<noteq> gpioOutputRegisterAddress d0"
    and "0 \<le> gpioOutputRegisterBitShift d0" "gpioOutputRegisterBitShift d0 \<le> 28"
    and "1 \<le> j" "j \<le> 51"
  shows "at_step d0 f0 j (fst (steps j (d0, f0))) (snd (steps j (d0, f0)))"
  using assms(5,6)
proof (induction j rule: dec_induct)
  case base
  show ?case using at_step_1 assms(1,2) by (simp add: steps_Suc)
next
  case (step j)
  then have "at_step d0 f0 j (fst (steps j (d0, f0))) (snd (steps j (d0, f0)))" by simp
  then show ?case
    using at_step_Suc [of d0 f0 j] step assms by (simp add: steps_Suc_last split_beta)
qed

section \<open>A transfer\<close>

lemma and_exp_bit: "(v :: u32) AND 2 ^ n \<noteq> 0 \<longleftrightarrow> bit v n"
  by (simp add: and_exp_eq_0_iff_not_bit)

text \<open>The bits of the value in the order of the latched pins; two of the pins are always low.\<close>

definition latched_bits :: "u32 \<Rightarrow> bool list" where
  "latched_bits v =
     map (bit v) [7, 6, 5, 4, 3, 2, 1, 0, 19, 18, 17, 16, 10] @ [False] @ map (bit v) [9, 8, 26]
       @ [False] @ map (bit v) [25, 24, 23, 22, 21, 20]"

lemma transfer_bits: "map (\<lambda>b. transfer_bit v (int b)) [0..<24] = latched_bits v"
proof -
  have "[0..<24] = [0, 1, 2, 3, 4, 5, 6, 7, 8, 9, 10, 11, 12, 13, 14, 15, 16, 17, 18, 19, 20, 21, 22, 23]"
    by (simp add: upt_rec)
  then show ?thesis
    using and_exp_bit [of v 7] and_exp_bit [of v 6] and_exp_bit [of v 5] and_exp_bit [of v 4]
      and_exp_bit [of v 3] and_exp_bit [of v 2] and_exp_bit [of v 1] and_exp_bit [of v 0]
      and_exp_bit [of v 19] and_exp_bit [of v 18] and_exp_bit [of v 17] and_exp_bit [of v 16]
      and_exp_bit [of v 10] and_exp_bit [of v 9] and_exp_bit [of v 8] and_exp_bit [of v 26]
      and_exp_bit [of v 25] and_exp_bit [of v 24] and_exp_bit [of v 23] and_exp_bit [of v 22]
      and_exp_bit [of v 21] and_exp_bit [of v 20]
    by (simp add: transfer_bit_def transfer_masks_def latched_bits_def)
qed

definition started :: "longout_record \<Rightarrow> FineDelay \<Rightarrow> FineDelay" where
  "started rec d = d\<lparr>nextTransferStepIndex := 0, writeOutputValue := val rec\<rparr>"

lemma process_transfer_start:
  assumes "\<not> pact rec"
  shows "process_transfer n reply rec d f =
    (case transfer_from n reply (started rec d) f of
       (as, d', f') \<Rightarrow> (case processRecord (rec\<lparr>pact := True\<rparr>) d' of (result, rec', d'') \<Rightarrow> (as, result, rec', d'', f')))"
  using assms by (simp add: process_transfer_def processRecord_def transfer_from_def started_def split: prod.split)

lemma transfer_from_51:
  assumes "nextTransferStepIndex d = 51"
  shows "transfer_from (Suc n) reply d f =
    ([ScheduleProcessing], d\<lparr>nextTransferStepIndex := 52, writeSuccessful := True\<rparr>, f)"
  using assms by (simp add: transfer_from_def startNextTransferStep_def Let_def)

text \<open>
  C13.
  Processing the record when the device answers each write with the new value of the register takes 51
  writes and completes without an error; at the end the latch holds the 24 bits of the value in their
  order, clock and latch clock are low, the output disable pin is bit 31 of the value, the direction
  register has its four bits set, and no other bit of any register has changed.
\<close>

theorem transfer_latches_value:
  fixes rec :: longout_record and d :: FineDelay and f :: Module
  assumes idle: "\<not> pact rec"
    and pins: "gpioDirectionRegisterAddress d \<noteq> gpioOutputRegisterAddress d"
      "0 \<le> gpioOutputRegisterBitShift d" "gpioOutputRegisterBitShift d \<le> 28"
    and reply: "\<And>i x. reply i x = Inr x"
  shows "let n = gpioOutputRegisterBitShift d; out = gpioOutputRegisterAddress d; dir = gpioDirectionRegisterAddress d
    in \<exists>as rec' d' f'. process_transfer 52 reply rec d f = (as @ [ScheduleProcessing], Inr None, rec', d', f')
    \<and> length as = 51 \<and> ScheduleProcessing \<notin> set as
    \<and> rec' = rec\<lparr>udf := False\<rparr>
    \<and> latched f' = latched_bits (val rec)
    \<and> \<not> clock_pin f' \<and> \<not> latch_pin f' \<and> disable_pin f' = bit (val rec) 31
    \<and> registers f' dir = registers f dir OR shifted 0x0f (gpioDirectionRegisterBitShift d)
    \<and> outside n (registers f' out) (registers f out)
    \<and> (\<forall>x. x = out \<or> x = dir \<or> registers f' x = registers f x)"
proof -
  define n out dir where "n = gpioOutputRegisterBitShift d" and "out = gpioOutputRegisterAddress d"
    and "dir = gpioDirectionRegisterAddress d"
  define d0 where "d0 = started rec d"
  have d0: "nextTransferStepIndex d0 = 0" "gpioOutputRegisterBitShift d0 = n" "gpioOutputRegisterAddress d0 = out"
    "gpioDirectionRegisterAddress d0 = dir" "gpioDirectionRegisterBitShift d0 = gpioDirectionRegisterBitShift d"
    "writeOutputValue d0 = val rec"
    by (simp_all add: d0_def started_def n_def out_def dir_def)
  obtain as where as: "length as = 51" "ScheduleProcessing \<notin> set as" and
    run: "\<And>k. transfer_from (51 + k) reply d0 f =
      apfst ((@) as) (transfer_from k reply (fst (steps 51 (d0, f))) (snd (steps 51 (d0, f))))"
    using transfer_writes [of d0 51 reply f] d0 reply by (auto simp: acknowledged_def)
  define d51 f' where "d51 = fst (steps 51 (d0, f))" and "f' = snd (steps 51 (d0, f))"
  have at: "at_step d0 f 51 d51 f'"
    unfolding d51_def f'_def using d0 pins by (intro at_steps) (simp_all add: n_def out_def dir_def)
  have idx: "nextTransferStepIndex d51 = 51" using at by (simp add: at_step_def Let_def)
  define d' where "d' = d51\<lparr>nextTransferStepIndex := 52, writeSuccessful := True\<rparr>"
  have "transfer_from 52 reply d0 f = (as @ [ScheduleProcessing], d', f')"
    using run [of 1] transfer_from_51 [OF idx, of 0 reply f'] by (simp add: d51_def f'_def d'_def)
  moreover have "processRecord (rec\<lparr>pact := True\<rparr>) d' = (Inr None, rec\<lparr>udf := False\<rparr>, d')"
    using idle by (simp add: processRecord_def d'_def Let_def)
  ultimately have run: "process_transfer 52 reply rec d f = (as @ [ScheduleProcessing], Inr None, rec\<lparr>udf := False\<rparr>, d', f')"
    using process_transfer_start [OF idle, of 52 reply d f] by (simp add: d0_def)
  have "latched f' = latched_bits (val rec)"
    using at d0 transfer_bits by (simp add: at_step_def Let_def)
  moreover have "\<not> clock_pin f' \<and> \<not> latch_pin f' \<and> disable_pin f' = bit (val rec) 31"
    using at d0 and_exp_bit [of "val rec" 31] by (simp add: at_step_def Let_def nibble_bits nibble_bits [unfolded One_nat_def] outputDisable_def)
  moreover have "registers f' dir = registers f dir OR shifted 0x0f (gpioDirectionRegisterBitShift d)"
    "outside n (registers f' out) (registers f out)" "\<forall>x. x = out \<or> x = dir \<or> registers f' x = registers f x"
    using at d0 by (auto simp: at_step_def Let_def)
  ultimately show ?thesis
    using run as unfolding Let_def n_def [symmetric] out_def [symmetric] dir_def [symmetric] by blast
qed

text \<open>
  A reply is refused when it is an error or, on the pins that were written, another value than that of
  the register.
\<close>

definition refused :: "u32 \<Rightarrow> device_replies \<Rightarrow> int \<Rightarrow> bool" where
  "refused m reply i \<longleftrightarrow> (\<forall>x. case reply i x of Inl _ \<Rightarrow> True | Inr y \<Rightarrow> y AND m \<noteq> x AND m)"

lemma transfer_refused:
  assumes i: "0 \<le> nextTransferStepIndex d" "nextTransferStepIndex d \<le> 50"
    and refused: "refused (if nextTransferStepIndex d = 0 then shifted 0x0f (gpioDirectionRegisterBitShift d)
      else shifted 0x0f (gpioOutputRegisterBitShift d)) reply (nextTransferStepIndex d)"
  shows "\<exists>action d'. transfer_from (Suc k) reply d f = ([action], d', after_write d f)
    \<and> action \<noteq> ScheduleProcessing \<and> \<not> writeSuccessful d'"
proof -
  define m where "m = (if nextTransferStepIndex d = 0 then shifted 0x0f (gpioDirectionRegisterBitShift d)
      else shifted 0x0f (gpioOutputRegisterBitShift d))"
  obtain a v where step: "fst (startNextTransferStep d) = MaskedWrite a v m"
    and last: "lastValueWrittenMask (after_step d) = m" "lastValueWritten (after_step d) = v"
      "gpioOutputRegisterAddress (after_step d) = gpioOutputRegisterAddress d"
      "gpioOutputRegisterBitShift (after_step d) = gpioOutputRegisterBitShift d"
  proof (cases "nextTransferStepIndex d = 0")
    case True
    then show ?thesis using that by (simp add: startNextTransferStep_def after_step_def m_def Let_def)
  next
    case False
    then show ?thesis using that step_out [of d] i by (simp add: after_step_def m_def Let_def)
  qed
  have split: "startNextTransferStep d = (MaskedWrite a v m, after_step d)"
    using step by (simp add: after_step_def prod_eq_iff)
  have f': "after_write d f = module_write (gpioOutputRegisterAddress d) (gpioOutputRegisterBitShift d) a v m f"
    by (simp add: after_write_def step)
  define x where "x = masked_update v m (registers f a)"
  show ?thesis
  proof (cases "reply (nextTransferStepIndex d) x")
    case (Inl e)
    then show ?thesis
      using last by (cases e) (simp add: transfer_from_def split f' x_def CallbackImpl_failure_def Let_def)
  next
    case (Inr y)
    then have "y AND m \<noteq> v AND m"
      using refused by (simp add: refused_def m_def [symmetric] x_def masked_update_mask split: sum.splits)
        (metis masked_update_mask)
    then show ?thesis
      using Inr last by (simp add: transfer_from_def split f' x_def CallbackImpl_success_def Let_def)
  qed
qed

lemma transfer_latches_value_witness:
  "let d = \<lparr>gpioDirectionRegisterAddress = 0x580, gpioDirectionRegisterBitShift = 4,
        gpioOutputRegisterAddress = 0x584, gpioOutputRegisterBitShift = 0, writeOutputValue = 0,
        lastValueWritten = 0, lastValueWrittenMask = 0, nextTransferStepIndex = 0, writeSuccessful = False,
        writeErrorMessage = ''''\<rparr>;
      f = \<lparr>registers = (\<lambda>_. 0xffff0000), clock_pin = True, latch_pin = True, disable_pin = False,
        shift_register = [], latched = []\<rparr>
   in (case process_transfer 52 (\<lambda>_. Inr) \<lparr>pact = False, udf = True, val = 0x80000081, sevr_invalid = False\<rparr> d f of
     (as, result, rec', d', f') \<Rightarrow> latched f' = latched_bits 0x80000081 \<and> disable_pin f' \<and> \<not> clock_pin f')"
  using transfer_latches_value [of "\<lparr>pact = False, udf = True, val = 0x80000081, sevr_invalid = False\<rparr>"
      "\<lparr>gpioDirectionRegisterAddress = 0x580, gpioDirectionRegisterBitShift = 4,
        gpioOutputRegisterAddress = 0x584, gpioOutputRegisterBitShift = 0, writeOutputValue = 0,
        lastValueWritten = 0, lastValueWrittenMask = 0, nextTransferStepIndex = 0, writeSuccessful = False,
        writeErrorMessage = ''''\<rparr>" "\<lambda>_. Inr"
      "\<lparr>registers = (\<lambda>_. 0xffff0000), clock_pin = True, latch_pin = True, disable_pin = False,
        shift_register = [], latched = []\<rparr>"]
  by (auto simp: Let_def and_exp_bit [of _ 31, symmetric, simplified])

text \<open>
  When the device refuses a write before the one that raises the latch clock, after it acknowledged the
  ones before, the transfer ends with that write, processing the record again raises a
  \<^verbatim>\<open>runtime_error\<close> and sets the INVALID severity, and the latch holds what it held before.
\<close>

lemma refused_write_ends_transfer:
  assumes idle: "\<not> pact rec"
    and pins: "gpioDirectionRegisterAddress d \<noteq> gpioOutputRegisterAddress d"
      "0 \<le> gpioOutputRegisterBitShift d" "gpioOutputRegisterBitShift d \<le> 28"
    and k: "k \<le> 48"
    and good: "\<And>i x. i < int k \<Longrightarrow> reply i x = Inr x"
    and bad: "refused (if k = 0 then shifted 0x0f (gpioDirectionRegisterBitShift d)
      else shifted 0x0f (gpioOutputRegisterBitShift d)) reply (int k)"
  shows "\<exists>as message rec' d' f'. process_transfer 52 reply rec d f = (as, Inl (RuntimeError message), rec', d', f')
    \<and> length as = Suc k \<and> ScheduleProcessing \<notin> set as
    \<and> rec' = rec\<lparr>sevr_invalid := True\<rparr> \<and> latched f' = latched f"
proof -
  define d0 where "d0 = started rec d"
  have d0: "nextTransferStepIndex d0 = 0" "gpioOutputRegisterBitShift d0 = gpioOutputRegisterBitShift d"
    "gpioOutputRegisterAddress d0 = gpioOutputRegisterAddress d"
    "gpioDirectionRegisterAddress d0 = gpioDirectionRegisterAddress d"
    "gpioDirectionRegisterBitShift d0 = gpioDirectionRegisterBitShift d"
    by (simp_all add: d0_def started_def)
  obtain as where as: "length as = k" "ScheduleProcessing \<notin> set as" and
    run: "\<And>n. transfer_from (k + n) reply d0 f =
      apfst ((@) as) (transfer_from n reply (fst (steps k (d0, f))) (snd (steps k (d0, f))))"
    using transfer_writes [of d0 k reply f] d0 good k by (auto simp: acknowledged_def)
  define d1 f1 where "d1 = fst (steps k (d0, f))" and "f1 = snd (steps k (d0, f))"
  have idx: "nextTransferStepIndex d1 = int k \<and> clean d1 = clean d0"
  proof (cases "k = 0")
    case False
    then show ?thesis
      using at_steps [of d0 k f] d0 pins k by (simp add: at_step_def Let_def d1_def)
  qed (simp add: d1_def d0)
  note fields = clean_fields [of d1 d0]
  have "\<exists>action d'. transfer_from (Suc (51 - k)) reply d1 f1 = ([action], d', after_write d1 f1)
      \<and> action \<noteq> ScheduleProcessing \<and> \<not> writeSuccessful d'"
    using idx fields bad d0 k by (intro transfer_refused) (auto split: if_splits)
  then obtain action d' where last: "transfer_from (Suc (51 - k)) reply d1 f1 = ([action], d', after_write d1 f1)"
      "action \<noteq> ScheduleProcessing" "\<not> writeSuccessful d'"
    by blast
  have "transfer_from 52 reply d0 f = (as @ [action], d', after_write d1 f1)"
    using run [of "Suc (51 - k)"] last(1) k by (simp add: d1_def f1_def)
  moreover have "processRecord (rec\<lparr>pact := True\<rparr>) d' =
      (Inl (RuntimeError (writeErrorMessage d')), rec\<lparr>sevr_invalid := True\<rparr>, d')"
    using idle last(3) by (simp add: processRecord_def Let_def)
  ultimately have "process_transfer 52 reply rec d f =
      (as @ [action], Inl (RuntimeError (writeErrorMessage d')), rec\<lparr>sevr_invalid := True\<rparr>, d', after_write d1 f1)"
    using process_transfer_start [OF idle, of 52 reply d f] by (simp add: d0_def)
  moreover have "latched (after_write d1 f1) = latched f"
    using at_steps [of d0 "Suc k" f] d0 pins k
    by (simp add: at_step_def Let_def steps_Suc_last split_beta d1_def f1_def)
  ultimately show ?thesis using as last(2) by auto
qed

lemma refused_write_ends_transfer_witness:
  "let d = \<lparr>gpioDirectionRegisterAddress = 0x580, gpioDirectionRegisterBitShift = 4,
        gpioOutputRegisterAddress = 0x584, gpioOutputRegisterBitShift = 0, writeOutputValue = 0,
        lastValueWritten = 0, lastValueWrittenMask = 0, nextTransferStepIndex = 0, writeSuccessful = True,
        writeErrorMessage = ''''\<rparr>;
      f = \<lparr>registers = (\<lambda>_. 0), clock_pin = False, latch_pin = False, disable_pin = False,
        shift_register = [], latched = [True]\<rparr>;
      reply = (\<lambda>i x. if i = 2 then Inr (NOT x) else Inr x)
   in (case process_transfer 52 reply \<lparr>pact = False, udf = True, val = 3, sevr_invalid = False\<rparr> d f of
     (as, result, rec', d', f') \<Rightarrow> length as = 3 \<and> sevr_invalid rec' \<and> latched f' = [True])"
proof -
  have "refused (shifted 0x0f 0) (\<lambda>i x. if i = 2 then Inr (NOT x) else Inr x) (int 2)"
    unfolding refused_def
  proof
    fix x :: u32
    have "bit (NOT x AND shifted 0x0f 0) 0 \<noteq> bit (x AND shifted 0x0f 0) 0"
      by (simp add: shifted_def bit_and_iff bit_not_iff)
    then have "NOT x AND shifted 0x0f 0 \<noteq> x AND shifted 0x0f 0" by metis
    then show "case if int 2 = 2 then Inr (NOT x) else Inr x of Inl _ \<Rightarrow> True
        | Inr y \<Rightarrow> y AND shifted 0x0f 0 \<noteq> x AND shifted 0x0f 0"
      by simp
  qed
  then show ?thesis
    using refused_write_ends_transfer [of "\<lparr>pact = False, udf = True, val = 3, sevr_invalid = False\<rparr>"
        "\<lparr>gpioDirectionRegisterAddress = 0x580, gpioDirectionRegisterBitShift = 4,
          gpioOutputRegisterAddress = 0x584, gpioOutputRegisterBitShift = 0, writeOutputValue = 0,
          lastValueWritten = 0, lastValueWrittenMask = 0, nextTransferStepIndex = 0, writeSuccessful = True,
          writeErrorMessage = ''''\<rparr>" 2 "\<lambda>i x. if i = 2 then Inr (NOT x) else Inr x"
        "\<lparr>registers = (\<lambda>_. 0), clock_pin = False, latch_pin = False, disable_pin = False,
          shift_register = [], latched = [True]\<rparr>"]
    by (auto simp: Let_def)
qed

end
