(* ===== verification/MmapAccess.thy ===== *)
theory MmapAccess
  imports MemoryAccess "HOL-Library.Multiset"
begin

text \<open>
  Access to the memory of a device that a kernel module maps into the process
  (\<^verbatim>\<open>mrfApp/mrfMmapSrc/MrfMmapMemoryAccess.{h,cpp}\<close>): the queue of requests, the list of interrupt
  listeners, and the I/O thread that opens the device, serves the queue and handles interrupts. The
  outcomes of system calls are arguments; the device is a state with operations that may end with
  the signal SIGBUS.
\<close>

section \<open>Requests\<close>

datatype MrfIoRequestType = notSpecified | t_readUInt16 | t_writeUInt16 | t_readUInt32 | t_writeUInt32

record MrfIoRequest =
  io_type :: MrfIoRequestType
  io_address :: u32
  io_value16 :: u16
  io_value32 :: u32
  io_callback16 :: "nat option"
  io_callback32 :: "nat option"

definition MrfIoRequest16 :: "MrfIoRequestType \<Rightarrow> u32 \<Rightarrow> u16 \<Rightarrow> nat option \<Rightarrow> MrfIoRequest" where
  "MrfIoRequest16 type16 address v callback = \<lparr>io_type = type16, io_address = address, io_value16 = v,
     io_value32 = 0, io_callback16 = callback, io_callback32 = None\<rparr>"

definition MrfIoRequest32 :: "MrfIoRequestType \<Rightarrow> u32 \<Rightarrow> u32 \<Rightarrow> nat option \<Rightarrow> MrfIoRequest" where
  "MrfIoRequest32 type32 address v callback = \<lparr>io_type = type32, io_address = address, io_value16 = 0,
     io_value32 = v, io_callback16 = None, io_callback32 = callback\<rparr>"

text \<open>\<open>None\<close> is the \<^verbatim>\<open>std::logic_error\<close> for a request that was never initialised.\<close>

definition request_fail :: "ErrorCode \<Rightarrow> string \<Rightarrow> MrfIoRequest \<Rightarrow> notification list option" where
  "request_fail errorCode details r = (case io_type r of
     notSpecified \<Rightarrow> None
   | t_readUInt16 \<Rightarrow> Some (notify16 (io_callback16 r) (Failure (io_address r) errorCode details))
   | t_writeUInt16 \<Rightarrow> Some (notify16 (io_callback16 r) (Failure (io_address r) errorCode details))
   | t_readUInt32 \<Rightarrow> Some (notify32 (io_callback32 r) (Failure (io_address r) errorCode details))
   | t_writeUInt32 \<Rightarrow> Some (notify32 (io_callback32 r) (Failure (io_address r) errorCode details)))"

definition request_success :: "MrfIoRequest \<Rightarrow> notification list option" where
  "request_success r = (case io_type r of
     notSpecified \<Rightarrow> None
   | t_readUInt16 \<Rightarrow> Some (notify16 (io_callback16 r) (Success (io_address r) (io_value16 r)))
   | t_writeUInt16 \<Rightarrow> Some (notify16 (io_callback16 r) (Success (io_address r) (io_value16 r)))
   | t_readUInt32 \<Rightarrow> Some (notify32 (io_callback32 r) (Success (io_address r) (io_value32 r)))
   | t_writeUInt32 \<Rightarrow> Some (notify32 (io_callback32 r) (Success (io_address r) (io_value32 r))))"

section \<open>The shared state and the operations\<close>

record Mmap =
  shutdown :: bool
  ioQueue :: "MrfIoRequest list"
  interruptListeners :: "nat list"

text \<open>
  What the code of an operation does to the rest of the world: notifications, and whether it wakes the
  I/O thread. An exception that is thrown while the mutex is locked or the queue grows (such as
  \<^verbatim>\<open>std::bad_alloc\<close>) is an argument; after a \<^verbatim>\<open>std::exception\<close> the thread is woken, too.
\<close>

datatype thrown = ThrownStd string | ThrownOther

definition queueIoRequest ::
    "thrown option \<Rightarrow> MrfIoRequest \<Rightarrow> Mmap \<Rightarrow> (notification list \<times> bool \<times> Mmap) option" where
  "queueIoRequest throws request s =
     (case (if shutdown s then Some (ThrownStd ''This device has been shutdown.'') else throws) of
        Some (ThrownStd what) \<Rightarrow>
          (case request_fail EC_unknown (''The request could not be queued: '' @ what) request of
             None \<Rightarrow> None | Some ns \<Rightarrow> Some (ns, True, s))
      | Some ThrownOther \<Rightarrow>
          (case request_fail EC_unknown ''The request could not be queued.'' request of
             None \<Rightarrow> None | Some ns \<Rightarrow> Some (ns, False, s))
      | None \<Rightarrow> Some ([], True, s\<lparr>ioQueue := ioQueue s @ [request]\<rparr>))"

text \<open>The tests of an address; the callback is used without looking whether it is null (\<open>None\<close>).\<close>

definition verifyAddress16 :: "u32 \<Rightarrow> u32 \<Rightarrow> nat option \<Rightarrow> (notification list \<times> bool) option" where
  "verifyAddress16 address memorySize callback =
     (if memorySize < 2 \<or> address > memorySize - 2 \<or> address mod 2 \<noteq> 0
      then (case callback of None \<Rightarrow> None | Some f \<Rightarrow> Some ([Notify16 f (Failure address EC_invalidAddress [])], False))
      else Some ([], True))"

definition verifyAddress32 :: "u32 \<Rightarrow> u32 \<Rightarrow> nat option \<Rightarrow> (notification list \<times> bool) option" where
  "verifyAddress32 address memorySize callback =
     (if memorySize < 4 \<or> address > memorySize - 4 \<or> address mod 4 \<noteq> 0
      then (case callback of None \<Rightarrow> None | Some f \<Rightarrow> Some ([Notify32 f (Failure address EC_invalidAddress [])], False))
      else Some ([], True))"

definition verified ::
    "(notification list \<times> bool) option \<Rightarrow> thrown option \<Rightarrow> MrfIoRequest \<Rightarrow> Mmap
      \<Rightarrow> (notification list \<times> bool \<times> Mmap) option" where
  "verified v throws request s = (case v of
     None \<Rightarrow> None
   | Some (ns, False) \<Rightarrow> Some (ns, False, s)
   | Some (ns, True) \<Rightarrow> queueIoRequest throws request s)"

definition mm_readUInt16 ::
    "u32 \<Rightarrow> thrown option \<Rightarrow> u32 \<Rightarrow> nat option \<Rightarrow> Mmap \<Rightarrow> (notification list \<times> bool \<times> Mmap) option" where
  "mm_readUInt16 memorySize throws address callback s =
     verified (verifyAddress16 address memorySize callback) throws (MrfIoRequest16 t_readUInt16 address 0 callback) s"

definition mm_writeUInt16 ::
    "u32 \<Rightarrow> thrown option \<Rightarrow> u32 \<Rightarrow> u16 \<Rightarrow> nat option \<Rightarrow> Mmap \<Rightarrow> (notification list \<times> bool \<times> Mmap) option" where
  "mm_writeUInt16 memorySize throws address v callback s =
     verified (verifyAddress16 address memorySize callback) throws (MrfIoRequest16 t_writeUInt16 address v callback) s"

definition mm_readUInt32 ::
    "u32 \<Rightarrow> thrown option \<Rightarrow> u32 \<Rightarrow> nat option \<Rightarrow> Mmap \<Rightarrow> (notification list \<times> bool \<times> Mmap) option" where
  "mm_readUInt32 memorySize throws address callback s =
     verified (verifyAddress32 address memorySize callback) throws (MrfIoRequest32 t_readUInt32 address 0 callback) s"

definition mm_writeUInt32 ::
    "u32 \<Rightarrow> thrown option \<Rightarrow> u32 \<Rightarrow> u32 \<Rightarrow> nat option \<Rightarrow> Mmap \<Rightarrow> (notification list \<times> bool \<times> Mmap) option" where
  "mm_writeUInt32 memorySize throws address v callback s =
     verified (verifyAddress32 address memorySize callback) throws (MrfIoRequest32 t_writeUInt32 address v callback) s"

text \<open>
  The listeners are kept through weak pointers: \<open>alive\<close> tells which of them still exist. The loops erase
  the ones that do not.
\<close>

fun add_scan :: "(nat \<Rightarrow> bool) \<Rightarrow> nat \<Rightarrow> nat list \<Rightarrow> bool \<Rightarrow> nat list \<times> bool" where
  "add_scan alive l [] listenerMissing = ([], listenerMissing)"
| "add_scan alive l (x # xs) listenerMissing =
     (if \<not> alive x then add_scan alive l xs listenerMissing
      else apfst ((#) x) (add_scan alive l xs (listenerMissing \<and> x \<noteq> l)))"

definition addInterruptListener :: "(nat \<Rightarrow> bool) \<Rightarrow> nat \<Rightarrow> Mmap \<Rightarrow> Mmap" where
  "addInterruptListener alive l s = (case add_scan alive l (interruptListeners s) True of
     (kept, listenerMissing) \<Rightarrow> s\<lparr>interruptListeners := (if listenerMissing then kept @ [l] else kept)\<rparr>)"

fun remove_scan :: "(nat \<Rightarrow> bool) \<Rightarrow> nat \<Rightarrow> nat list \<Rightarrow> nat list" where
  "remove_scan alive l [] = []"
| "remove_scan alive l (x # xs) =
     (if \<not> alive x then remove_scan alive l xs
      else if x = l then remove_scan alive l xs
      else x # remove_scan alive l xs)"

definition removeInterruptListener :: "(nat \<Rightarrow> bool) \<Rightarrow> nat \<Rightarrow> Mmap \<Rightarrow> Mmap" where
  "removeInterruptListener alive l s = s\<lparr>interruptListeners := remove_scan alive l (interruptListeners s)\<rparr>"

definition supportsInterrupts :: bool where
  "supportsInterrupts = True"

section \<open>The signal handler\<close>

text \<open>
  A handler is a pointer: 0 is \<^verbatim>\<open>SIG_DFL\<close>, 1 is \<^verbatim>\<open>SIG_IGN\<close>. The two members \<^verbatim>\<open>sa_handler\<close> and
  \<^verbatim>\<open>sa_sigaction\<close> of \<^verbatim>\<open>struct sigaction\<close> share their storage.
\<close>

record sigaction =
  sa_siginfo :: bool
  sa_pointer :: nat

record MrfOldSignalHandlerInfo =
  old_action :: nat
  old_handler :: nat

record SignalState =
  signalHandlerRegistered :: bool
  oldSignalHandlerInfo :: "MrfOldSignalHandlerInfo option"

text \<open>
  \<open>result\<close> is what \<^verbatim>\<open>sigaction(2)\<close> did: whether it succeeded, and \<open>oldAction\<close> after the call, which
  after a failure is what the uninitialised variable held.
\<close>

definition registerSignalHandler :: "bool \<Rightarrow> sigaction \<Rightarrow> SignalState \<Rightarrow> SignalState" where
  "registerSignalHandler result oldAction s =
     (if signalHandlerRegistered s then s
      else
        let s1 = (if result then s\<lparr>signalHandlerRegistered := True\<rparr> else s)
        in if sa_siginfo oldAction \<and> sa_pointer oldAction \<noteq> 0
           then s1\<lparr>oldSignalHandlerInfo := Some \<lparr>old_action = sa_pointer oldAction, old_handler = 0\<rparr>\<rparr>
           else if sa_pointer oldAction \<noteq> 0
           then s1\<lparr>oldSignalHandlerInfo := Some \<lparr>old_action = 0, old_handler = sa_pointer oldAction\<rparr>\<rparr>
           else s1)"

text \<open>What the handler does with a signal.\<close>

datatype handling = JumpBack | CallAction nat | CallHandler nat | RestoreDefault | ExitWith int | ReturnOnly

record MrfIoInfo =
  info_active :: bool
  info_address :: nat

definition SIGBUS :: int where
  "SIGBUS = 7"

text \<open>
  When the atomic is not lock-free, the handler looks at an uninitialised pointer, whose content is
  \<open>raw\<close>; \<open>restored\<close> tells whether \<^verbatim>\<open>sigaction\<close> could restore the default handler.
\<close>

definition signalHandler ::
    "bool \<Rightarrow> MrfOldSignalHandlerInfo option \<Rightarrow> bool \<Rightarrow> int \<Rightarrow> int \<Rightarrow> nat \<Rightarrow> MrfIoInfo \<Rightarrow> SignalState \<Rightarrow> handling" where
  "signalHandler lock_free raw restored signalNumber si_signo si_addr info s =
     (if si_signo \<noteq> SIGBUS \<or> \<not> info_active info \<or> si_addr \<noteq> info_address info then
        (case (if lock_free then oldSignalHandlerInfo s else raw) of
           None \<Rightarrow> if restored then RestoreDefault else ExitWith (128 + signalNumber)
         | Some old \<Rightarrow>
             if old_action old \<noteq> 0 then CallAction (old_action old)
             else if old_handler old \<noteq> 0 then CallHandler (old_handler old)
             else ReturnOnly)
      else JumpBack)"

definition prepareIo :: "nat \<Rightarrow> MrfIoInfo \<Rightarrow> MrfIoInfo" where
  "prepareIo targetAddress info = info\<lparr>info_address := targetAddress, info_active := True\<rparr>"

definition finishIo :: "MrfIoInfo \<Rightarrow> MrfIoInfo" where
  "finishIo info = info\<lparr>info_active := False\<rparr>"

text \<open>
  A SIGBUS of an access is one the handler answers with a jump, other signals are not; when an access
  is over, no signal leads to a jump any more.
\<close>

lemma sigbus_jumps:
  "signalHandler lf raw restored n SIGBUS a (prepareIo a info) s = JumpBack"
  "a \<noteq> b \<Longrightarrow> signalHandler lf raw restored n SIGBUS b (prepareIo a info) s \<noteq> JumpBack"
  "signalHandler lf raw restored n signo b (finishIo info) s \<noteq> JumpBack"
  by (auto simp: signalHandler_def prepareIo_def finishIo_def split: option.split)

text \<open>A process that ignored SIGBUS before gets its handler 1 called, which is no function.\<close>

lemma ignored_signal_is_called:
  assumes "\<not> signalHandlerRegistered s" "\<not> info_active info"
  shows "signalHandler True raw True SIGBUS SIGBUS a info
    (registerSignalHandler True \<lparr>sa_siginfo = False, sa_pointer = 1\<rparr> s) = CallHandler 1"
  using assms by (simp add: signalHandler_def registerSignalHandler_def)

section \<open>Access to the device\<close>

text \<open>
  The memory of the device: reading and writing a word, as the host sees it, either succeeds or raises
  SIGBUS; both may change the device.
\<close>

record 'd Bus =
  bus_read16 :: "u32 \<Rightarrow> 'd \<Rightarrow> u16 option \<times> 'd"
  bus_read32 :: "u32 \<Rightarrow> 'd \<Rightarrow> u32 option \<times> 'd"
  bus_write16 :: "u32 \<Rightarrow> u16 \<Rightarrow> 'd \<Rightarrow> bool \<times> 'd"
  bus_write32 :: "u32 \<Rightarrow> u32 \<Rightarrow> 'd \<Rightarrow> bool \<times> 'd"

definition ioReadUInt16 :: "byte_order \<Rightarrow> 'd Bus \<Rightarrow> u32 \<Rightarrow> 'd \<Rightarrow> u16 option \<times> 'd" where
  "ioReadUInt16 bo bus a d = (case bus_read16 bus a d of
     (None, d') \<Rightarrow> (None, d') | (Some w, d') \<Rightarrow> (Some (ntohs bo w), d'))"

definition ioReadUInt32 :: "byte_order \<Rightarrow> 'd Bus \<Rightarrow> u32 \<Rightarrow> 'd \<Rightarrow> u32 option \<times> 'd" where
  "ioReadUInt32 bo bus a d = (case bus_read32 bus a d of
     (None, d') \<Rightarrow> (None, d') | (Some w, d') \<Rightarrow> (Some (ntohl bo w), d'))"

definition ioReadWriteBackUInt32 :: "byte_order \<Rightarrow> 'd Bus \<Rightarrow> u32 \<Rightarrow> 'd \<Rightarrow> u32 option \<times> 'd" where
  "ioReadWriteBackUInt32 bo bus a d = (case bus_read32 bus a d of
     (None, d') \<Rightarrow> (None, d')
   | (Some w, d') \<Rightarrow> (case bus_write32 bus a (htonl bo (ntohl bo w)) d' of
       (False, d'') \<Rightarrow> (None, d'') | (True, d'') \<Rightarrow> (Some (ntohl bo w), d'')))"

definition ioWriteReadUInt16 :: "byte_order \<Rightarrow> 'd Bus \<Rightarrow> u32 \<Rightarrow> u16 \<Rightarrow> 'd \<Rightarrow> u16 option \<times> 'd" where
  "ioWriteReadUInt16 bo bus a v d = (case bus_write16 bus a (htons bo v) d of
     (False, d') \<Rightarrow> (None, d')
   | (True, d') \<Rightarrow> (case bus_read16 bus a d' of
       (None, d'') \<Rightarrow> (None, d'') | (Some w, d'') \<Rightarrow> (Some (ntohs bo w), d'')))"

definition ioWriteReadUInt32 :: "byte_order \<Rightarrow> 'd Bus \<Rightarrow> u32 \<Rightarrow> u32 \<Rightarrow> 'd \<Rightarrow> u32 option \<times> 'd" where
  "ioWriteReadUInt32 bo bus a v d = (case bus_write32 bus a (htonl bo v) d of
     (False, d') \<Rightarrow> (None, d')
   | (True, d') \<Rightarrow> (case bus_read32 bus a d' of
       (None, d'') \<Rightarrow> (None, d'') | (Some w, d'') \<Rightarrow> (Some (ntohl bo w), d'')))"

section \<open>The I/O thread\<close>

text \<open>
  What a memory access is given, with the texts of the C++ library: \<open>mc_message\<close> is
  \<^verbatim>\<open>generic_category().message\<close>, \<open>mc_what\<close> is \<^verbatim>\<open>what()\<close> of a \<^verbatim>\<open>std::system_error\<close> with a text and
  an error number.
\<close>

record MmapConfig =
  mc_devicePath :: string
  mc_memorySize :: u32
  mc_byteOrder :: byte_order
  mc_message :: "int \<Rightarrow> string"
  mc_what :: "string \<Rightarrow> int \<Rightarrow> string"

text \<open>The local variables that outlive a round of the loop; -1 is a file descriptor that is not open.\<close>

record IoThread =
  signalInfoBytesRead :: nat
  signalFd :: int
  deviceFd :: int
  deviceMemory :: bool

definition new_IoThread :: IoThread where
  "new_IoThread = \<lparr>signalInfoBytesRead = 0, signalFd = -1, deviceFd = -1, deviceMemory = False\<rparr>"

text \<open>
  The outcomes of the system calls of a round: an error number, or what the call gives; and what a round
  does, where \<open>InterruptTaken\<close> marks the signal of an interrupt, after which the driver keeps interrupts
  disabled until they are enabled again.
\<close>

datatype select_outcome = SelectDone | SelectSystemError int | SelectOther

record RoundEnv =
  env_signalfd :: "int + int"
  env_open :: "int + int"
  env_mmap :: "int option"
  env_setown :: "int option"
  env_setsig :: "int option"
  env_getfl :: "int option"
  env_setfl :: "int option"
  env_enable :: "int option"
  env_read :: "int + nat"
  env_siginfo :: "int \<times> int"
  env_select :: select_outcome

datatype io_event = Opened int | Closed int | MappedMemory | UnmappedMemory | IrqEnabled int | InterruptTaken
  | Access u32 nat | Notified notification | ListenerCalled nat u32 | Waited | Slept

definition EINTR :: int where "EINTR = 4"
definition EAGAIN :: int where "EAGAIN = 11"
definition SIGIO :: int where "SIGIO = 29"
definition sizeof_signalfd_siginfo :: nat where "sizeof_signalfd_siginfo = 128"

text \<open>The text of the exception that is thrown, if one is.\<close>

definition enableInterrupt :: "MmapConfig \<Rightarrow> int option \<Rightarrow> string option" where
  "enableInterrupt cfg errno = (case errno of None \<Rightarrow> None
     | Some e \<Rightarrow> Some (mc_what cfg ''ioctl(...) for enabling interrupt failed'' e))"

definition prepareInterrupt :: "MmapConfig \<Rightarrow> RoundEnv \<Rightarrow> string option" where
  "prepareInterrupt cfg env = (case env_setown env of
     Some e \<Rightarrow> Some (mc_what cfg ''fcntl(..., F_SETOWN_EX, ...) failed'' e)
   | None \<Rightarrow> (case env_setsig env of
       Some e \<Rightarrow> Some (mc_what cfg ''fcntl(..., F_SETSIG, SIGIO) failed'' e)
     | None \<Rightarrow> (case env_getfl env of
         Some e \<Rightarrow> Some (mc_what cfg ''fcntl(..., F_GETFL) failed'' e)
       | None \<Rightarrow> (case env_setfl env of
           Some e \<Rightarrow> Some (mc_what cfg ''fcntl(..., F_SETFL, ...) failed'' e)
         | None \<Rightarrow> None))))"

text \<open>The first parts of a round give the text of an error, what they did, and the variables.\<close>

definition open_signalFd :: "MmapConfig \<Rightarrow> RoundEnv \<Rightarrow> IoThread \<Rightarrow> string \<times> io_event list \<times> IoThread" where
  "open_signalFd cfg env t =
     (if signalFd t = -1 then
        (case env_signalfd env of
           Inl e \<Rightarrow> (''signalfd(-1, { SIGIO }, SDF_NON_BLOCK | SFD_CLOEXEC) failed: '' @ mc_message cfg e, [], t)
         | Inr fd \<Rightarrow> ([], [Opened fd], t\<lparr>signalFd := fd\<rparr>))
      else ([], [], t))"

definition open_device ::
    "MmapConfig \<Rightarrow> RoundEnv \<Rightarrow> string \<Rightarrow> IoThread \<Rightarrow> string \<times> io_event list \<times> IoThread" where
  "open_device cfg env details t =
     (if \<not> deviceMemory t \<and> signalFd t \<noteq> -1 then
        (case env_open env of
           Inl e \<Rightarrow> (''Could not open device '' @ mc_devicePath cfg @ '': '' @ mc_message cfg e, [], t\<lparr>deviceFd := -1\<rparr>)
         | Inr fd \<Rightarrow> (case env_mmap env of
             Some e \<Rightarrow> (''Could not mmap device '' @ mc_devicePath cfg @ '': '' @ mc_message cfg e,
               [Opened fd, Closed fd], t\<lparr>deviceFd := -1\<rparr>)
           | None \<Rightarrow>
               (case (case prepareInterrupt cfg env of Some x \<Rightarrow> Some x | None \<Rightarrow> enableInterrupt cfg (env_enable env)) of
                  Some what \<Rightarrow> (''Could not prepare device '' @ mc_devicePath cfg @ '' for generating interrupts: '' @ what,
                    [Opened fd, MappedMemory, UnmappedMemory, Closed fd], t\<lparr>deviceFd := -1\<rparr>)
                | None \<Rightarrow> (details, [Opened fd, MappedMemory, IrqEnabled fd], t\<lparr>deviceFd := fd, deviceMemory := True\<rparr>))))
      else (details, [], t))"

definition read_signal ::
    "MmapConfig \<Rightarrow> RoundEnv \<Rightarrow> string \<Rightarrow> IoThread \<Rightarrow> string \<times> bool \<times> io_event list \<times> IoThread" where
  "read_signal cfg env details t =
     (if signalFd t \<noteq> -1 then
        (case env_read env of
           Inl e \<Rightarrow>
             if e \<noteq> EAGAIN \<and> e \<noteq> EINTR
             then (''read(...) failed for signal file-descriptor: '' @ mc_message cfg e, False,
                   [Closed (signalFd t)], t\<lparr>signalFd := -1\<rparr>)
             else (details, False, [], t)
         | Inr n \<Rightarrow>
             if signalInfoBytesRead t + n = sizeof_signalfd_siginfo
             then (details,
                   fst (env_siginfo env) = SIGIO \<and> snd (env_siginfo env) = deviceFd t \<and> deviceMemory t,
                   [], t\<lparr>signalInfoBytesRead := 0\<rparr>)
             else (details, False, [], t\<lparr>signalInfoBytesRead := signalInfoBytesRead t + n\<rparr>))
      else (details, False, [], t))"

text \<open>The end of a round whose I/O was not successful.\<close>

definition close_device :: "IoThread \<Rightarrow> io_event list \<times> IoThread" where
  "close_device t =
     ((if deviceMemory t then [UnmappedMemory] else []) @ (if deviceFd t \<noteq> -1 then [Closed (deviceFd t)] else []),
      t\<lparr>deviceMemory := False, deviceFd := -1\<rparr>)"

text \<open>A request: the value that is notified, or \<open>None\<close> after SIGBUS; nothing for an uninitialised one.\<close>

definition do_io :: "byte_order \<Rightarrow> 'd Bus \<Rightarrow> MrfIoRequest \<Rightarrow> 'd \<Rightarrow> (MrfIoRequest option \<times> 'd) option" where
  "do_io bo bus r d = (case io_type r of
     notSpecified \<Rightarrow> None
   | t_readUInt16 \<Rightarrow> Some (apfst (map_option (\<lambda>v. r\<lparr>io_value16 := v\<rparr>)) (ioReadUInt16 bo bus (io_address r) d))
   | t_writeUInt16 \<Rightarrow>
       Some (apfst (map_option (\<lambda>v. r\<lparr>io_value16 := v\<rparr>)) (ioWriteReadUInt16 bo bus (io_address r) (io_value16 r) d))
   | t_readUInt32 \<Rightarrow> Some (apfst (map_option (\<lambda>v. r\<lparr>io_value32 := v\<rparr>)) (ioReadUInt32 bo bus (io_address r) d))
   | t_writeUInt32 \<Rightarrow>
       Some (apfst (map_option (\<lambda>v. r\<lparr>io_value32 := v\<rparr>)) (ioWriteReadUInt32 bo bus (io_address r) (io_value32 r) d)))"

fun access_size :: "MrfIoRequestType \<Rightarrow> nat" where
  "access_size notSpecified = 0"
| "access_size t_readUInt16 = 2"
| "access_size t_writeUInt16 = 2"
| "access_size t_readUInt32 = 4"
| "access_size t_writeUInt32 = 4"

text \<open>\<open>None\<close> is a \<^verbatim>\<open>std::logic_error\<close>, which ends the program.\<close>

definition process_request ::
    "MmapConfig \<Rightarrow> 'd Bus \<Rightarrow> string \<Rightarrow> MrfIoRequest \<Rightarrow> IoThread \<Rightarrow> 'd
      \<Rightarrow> (io_event list \<times> IoThread \<times> 'd) option" where
  "process_request cfg bus details r t d =
     (if \<not> deviceMemory t then
        map_option (\<lambda>ns. (map Notified ns, t, d)) (request_fail EC_unknown details r)
      else
        case do_io (mc_byteOrder cfg) bus r d of
          None \<Rightarrow> None
        | Some (Some r', d') \<Rightarrow>
            map_option (\<lambda>ns. (Access (io_address r) (access_size (io_type r)) # map Notified ns, t, d')) (request_success r')
        | Some (None, d') \<Rightarrow> (case close_device t of (evs, t') \<Rightarrow>
            map_option (\<lambda>ns. (Access (io_address r) (access_size (io_type r)) # map Notified ns @ evs, t', d'))
              (request_fail EC_unknown (''Received a SIGBUS while trying to access the device ''
                @ mc_devicePath cfg @ ''. This indicates an I/O error.'') r)))"

text \<open>
  An interrupt: the enable register at 0x0c is read, then the flags at 0x08 are read and written back,
  which clears them. The result is the flags that are set and enabled.
\<close>

definition read_interrupt_flags ::
    "MmapConfig \<Rightarrow> 'd Bus \<Rightarrow> 'd \<Rightarrow> u32 option \<times> io_event list \<times> 'd" where
  "read_interrupt_flags cfg bus d = (case ioReadUInt32 (mc_byteOrder cfg) bus 0x0c d of
     (None, d') \<Rightarrow> (None, [Access 0x0c 4], d')
   | (Some interruptEnableRegister, d') \<Rightarrow>
       (case ioReadWriteBackUInt32 (mc_byteOrder cfg) bus 0x08 d' of
          (None, d'') \<Rightarrow> (None, [Access 0x0c 4, Access 0x08 4], d'')
        | (Some interruptFlagRegister, d'') \<Rightarrow>
            (Some (interruptFlagRegister AND interruptEnableRegister), [Access 0x0c 4, Access 0x08 4], d'')))"

text \<open>Collecting the listeners, with the mutex; those that do not exist any more are erased.\<close>

fun collect_listeners :: "(nat \<Rightarrow> bool) \<Rightarrow> nat list \<Rightarrow> nat list" where
  "collect_listeners alive [] = []"
| "collect_listeners alive (x # xs) = (if \<not> alive x then collect_listeners alive xs else x # collect_listeners alive xs)"

definition wait_for_work :: "RoundEnv \<Rightarrow> IoThread \<Rightarrow> io_event list \<times> IoThread" where
  "wait_for_work env t = (case env_select env of
     SelectDone \<Rightarrow> ([Waited], t)
   | SelectSystemError e \<Rightarrow>
       if e = EINTR then ([Waited], t) else (case close_device t of (evs, t') \<Rightarrow> ([Waited, Slept] @ evs, t'))
   | SelectOther \<Rightarrow> (case close_device t of (evs, t') \<Rightarrow> ([Waited, Slept] @ evs, t')))"

fun drain :: "MrfIoRequest list \<Rightarrow> notification list option" where
  "drain [] = Some []"
| "drain (r # rs) =
     (case request_fail EC_unknown ''The device has been shutdown before the request could be processed.'' r of
        None \<Rightarrow> None
      | Some ns \<Rightarrow> (case drain rs of None \<Rightarrow> None | Some ns' \<Rightarrow> Some (ns @ ns')))"

definition leave_loop :: "Mmap \<Rightarrow> IoThread \<Rightarrow> (io_event list \<times> IoThread) option" where
  "leave_loop s t = (case close_device t of (evs, t1) \<Rightarrow>
     map_option (\<lambda>ns. (evs @ (if signalFd t1 \<noteq> -1 then [Closed (signalFd t1)] else []) @ map Notified ns,
         t1\<lparr>signalFd := -1\<rparr>))
       (drain (ioQueue s)))"

text \<open>
  A round holds the mutex once, where it looks at the shutdown flag and takes a request; handling an
  interrupt holds it a second time, for the listeners. So a round is one step, or two when there is an
  interrupt. \<open>Terminated\<close> is the end of the program by an exception.
\<close>

datatype phase = AtTop | Notifying u32 | Ended | Terminated

definition io_round ::
    "MmapConfig \<Rightarrow> 'd Bus \<Rightarrow> RoundEnv \<Rightarrow> Mmap \<Rightarrow> IoThread \<Rightarrow> 'd
      \<Rightarrow> phase \<times> io_event list \<times> Mmap \<times> IoThread \<times> 'd" where
  "io_round cfg bus env s t d =
     (case open_signalFd cfg env t of (details1, ev1, t1) \<Rightarrow>
      case open_device cfg env details1 t1 of (details2, ev2, t2) \<Rightarrow>
      case read_signal cfg env details2 t2 of (details3, haveInterrupt, ev3, t3) \<Rightarrow>
        let evs = ev1 @ ev2 @ ev3
        in if shutdown s then
             (case leave_loop s t3 of
                None \<Rightarrow> (Terminated, evs, s, t3, d)
              | Some (ev4, t4) \<Rightarrow> (Ended, evs @ ev4, s, t4, d))
           else if haveInterrupt then
             (case read_interrupt_flags cfg bus d of
                (Some flags, ev4, d') \<Rightarrow> (Notifying flags, evs @ [InterruptTaken] @ ev4, s, t3, d')
              | (None, ev4, d') \<Rightarrow> (case close_device t3 of (ev5, t5) \<Rightarrow> (AtTop, evs @ [InterruptTaken] @ ev4 @ ev5, s, t5, d')))
           else (case ioQueue s of
               request # rest \<Rightarrow>
                 (case process_request cfg bus details3 request t3 d of
                    None \<Rightarrow> (Terminated, evs, s\<lparr>ioQueue := rest\<rparr>, t3, d)
                  | Some (ev4, t4, d') \<Rightarrow> (AtTop, evs @ ev4, s\<lparr>ioQueue := rest\<rparr>, t4, d'))
             | [] \<Rightarrow> (case wait_for_work env t3 of (ev4, t4) \<Rightarrow> (AtTop, evs @ ev4, s, t4, d))))"

text \<open>The second part of a round with an interrupt.\<close>

definition notify_listeners ::
    "MmapConfig \<Rightarrow> (nat \<Rightarrow> bool) \<Rightarrow> int option \<Rightarrow> u32 \<Rightarrow> Mmap \<Rightarrow> IoThread \<Rightarrow> io_event list \<times> Mmap \<times> IoThread" where
  "notify_listeners cfg alive enableErrno flags s t =
     (let found = (if flags \<noteq> 0 then collect_listeners alive (interruptListeners s) else []);
          s' = (if flags \<noteq> 0 then s\<lparr>interruptListeners := found\<rparr> else s);
          calls = map (\<lambda>l. ListenerCalled l flags) found
      in case enableInterrupt cfg enableErrno of
           None \<Rightarrow> (calls @ [IrqEnabled (deviceFd t)], s', t)
         | Some _ \<Rightarrow> (case close_device t of (evs, t') \<Rightarrow> (calls @ evs, s', t')))"

section \<open>The whole\<close>

record 'd MmapSystem =
  ms_shared :: Mmap
  ms_thread :: IoThread
  ms_phase :: phase
  ms_device :: 'd
  ms_log :: "io_event list"

definition new_MrfMmapMemoryAccess :: "'d \<Rightarrow> 'd MmapSystem" where
  "new_MrfMmapMemoryAccess d = \<lparr>ms_shared = \<lparr>shutdown = False, ioQueue = [], interruptListeners = []\<rparr>,
     ms_thread = new_IoThread, ms_phase = AtTop, ms_device = d, ms_log = []\<rparr>"

text \<open>
  What can happen: the operations of clients and the beginning of the destructor, at any time, and the
  parts of the I/O thread, one after the other.
\<close>

datatype mmap_action = Read16 "thrown option" u32 "nat option" | Write16 "thrown option" u32 u16 "nat option"
  | Read32 "thrown option" u32 "nat option" | Write32 "thrown option" u32 u32 "nat option"
  | AddListener "nat \<Rightarrow> bool" nat | RemoveListener "nat \<Rightarrow> bool" nat | Shutdown
  | ThreadRound RoundEnv | ThreadNotify "nat \<Rightarrow> bool" "int option"

definition client_operation ::
    "(Mmap \<Rightarrow> (notification list \<times> bool \<times> Mmap) option) \<Rightarrow> 'd MmapSystem \<Rightarrow> 'd MmapSystem option" where
  "client_operation f m = (case f (ms_shared m) of
     None \<Rightarrow> None
   | Some (ns, wake, s) \<Rightarrow> Some (m\<lparr>ms_shared := s, ms_log := ms_log m @ map Notified ns\<rparr>))"

fun mmap_step :: "MmapConfig \<Rightarrow> 'd Bus \<Rightarrow> mmap_action \<Rightarrow> 'd MmapSystem \<Rightarrow> 'd MmapSystem option" where
  "mmap_step cfg bus (Read16 x a cb) m = client_operation (mm_readUInt16 (mc_memorySize cfg) x a cb) m"
| "mmap_step cfg bus (Write16 x a v cb) m = client_operation (mm_writeUInt16 (mc_memorySize cfg) x a v cb) m"
| "mmap_step cfg bus (Read32 x a cb) m = client_operation (mm_readUInt32 (mc_memorySize cfg) x a cb) m"
| "mmap_step cfg bus (Write32 x a v cb) m = client_operation (mm_writeUInt32 (mc_memorySize cfg) x a v cb) m"
| "mmap_step cfg bus (AddListener alive l) m = Some (m\<lparr>ms_shared := addInterruptListener alive l (ms_shared m)\<rparr>)"
| "mmap_step cfg bus (RemoveListener alive l) m = Some (m\<lparr>ms_shared := removeInterruptListener alive l (ms_shared m)\<rparr>)"
| "mmap_step cfg bus Shutdown m = Some (m\<lparr>ms_shared := (ms_shared m)\<lparr>shutdown := True\<rparr>\<rparr>)"
| "mmap_step cfg bus (ThreadRound env) m =
     (if ms_phase m = AtTop then
        (case io_round cfg bus env (ms_shared m) (ms_thread m) (ms_device m) of (p, evs, s, t, d) \<Rightarrow>
           Some (m\<lparr>ms_shared := s, ms_thread := t, ms_phase := p, ms_device := d, ms_log := ms_log m @ evs\<rparr>))
      else Some m)"
| "mmap_step cfg bus (ThreadNotify alive errno) m =
     (case ms_phase m of
        Notifying flags \<Rightarrow>
          (case notify_listeners cfg alive errno flags (ms_shared m) (ms_thread m) of (evs, s, t) \<Rightarrow>
             Some (m\<lparr>ms_shared := s, ms_thread := t, ms_phase := AtTop, ms_log := ms_log m @ evs\<rparr>))
      | _ \<Rightarrow> Some m)"

fun mmap_run :: "MmapConfig \<Rightarrow> 'd Bus \<Rightarrow> mmap_action list \<Rightarrow> 'd MmapSystem \<Rightarrow> 'd MmapSystem option" where
  "mmap_run cfg bus [] m = Some m"
| "mmap_run cfg bus (a # as) m = (case mmap_step cfg bus a m of None \<Rightarrow> None | Some m' \<Rightarrow> mmap_run cfg bus as m')"

end
