(* ===== verification/MmapAccess_Props.thy ===== *)
theory MmapAccess_Props
  imports MmapAccess
begin

text \<open>
  Properties of the memory-mapped access: each request is notified once, the I/O thread keeps the books
  of its descriptors, its mapping and the interrupts, accesses stay within the memory of the device, and
  the words of the device do not depend on the byte order of the host.
\<close>

section \<open>Requests\<close>

fun submitted :: "mmap_action \<Rightarrow> nat list" where
  "submitted (Read16 x a cb) = (case cb of None \<Rightarrow> [] | Some f \<Rightarrow> [f])"
| "submitted (Write16 x a v cb) = (case cb of None \<Rightarrow> [] | Some f \<Rightarrow> [f])"
| "submitted (Read32 x a cb) = (case cb of None \<Rightarrow> [] | Some f \<Rightarrow> [f])"
| "submitted (Write32 x a v cb) = (case cb of None \<Rightarrow> [] | Some f \<Rightarrow> [f])"
| "submitted _ = []"

fun null_callback :: "mmap_action \<Rightarrow> bool" where
  "null_callback (Read16 x a cb) = (cb = None)"
| "null_callback (Write16 x a v cb) = (cb = None)"
| "null_callback (Read32 x a cb) = (cb = None)"
| "null_callback (Write32 x a v cb) = (cb = None)"
| "null_callback _ = False"

definition request_clients :: "MrfIoRequest \<Rightarrow> nat list" where
  "request_clients r = (case (if io_type r = t_readUInt16 \<or> io_type r = t_writeUInt16 then io_callback16 r
     else io_callback32 r) of None \<Rightarrow> [] | Some f \<Rightarrow> [f])"

fun told :: "io_event \<Rightarrow> nat list" where
  "told (Notified n) = [notification_client n]"
| "told _ = []"

definition waiting :: "'d MmapSystem \<Rightarrow> nat list" where
  "waiting m = (if ms_phase m = Ended then [] else concat (map request_clients (ioQueue (ms_shared m))))"

definition told_log :: "io_event list \<Rightarrow> nat multiset" where
  "told_log evs = mset (concat (map told evs))"

lemma told_log_simps [simp]:
  "told_log [] = {#}" "told_log (e # es) = mset (told e) + told_log es" "told_log (es @ fs) = told_log es + told_log fs"
  "told_log (map Notified ns) = mset (map notification_client ns)"
  by (induction ns) (simp_all add: told_log_def)

definition initialised :: "MrfIoRequest \<Rightarrow> bool" where
  "initialised r \<longleftrightarrow> io_type r \<noteq> notSpecified"

lemma request_fail_told:
  assumes "initialised r"
  shows "\<exists>ns. request_fail e x r = Some ns \<and> mset (map notification_client ns) = mset (request_clients r)"
  using assms by (cases "io_type r") (auto simp: initialised_def request_fail_def request_clients_def notify16_def
      notify32_def split: option.split)

lemma request_success_told:
  assumes "initialised r"
  shows "\<exists>ns. request_success r = Some ns \<and> mset (map notification_client ns) = mset (request_clients r)"
  using assms by (cases "io_type r") (auto simp: initialised_def request_success_def request_clients_def notify16_def
      notify32_def split: option.split)

lemma drain_told:
  assumes "\<forall>r\<in>set rs. initialised r"
  shows "\<exists>ns. drain rs = Some ns \<and> mset (map notification_client ns) = mset (concat (map request_clients rs))"
  using assms
proof (induction rs)
  case (Cons r rs)
  then obtain ns where "drain rs = Some ns" "mset (map notification_client ns) = mset (concat (map request_clients rs))"
    by auto
  moreover obtain ms where "request_fail EC_unknown ''The device has been shutdown before the request could be processed.'' r = Some ms"
    "mset (map notification_client ms) = mset (request_clients r)"
    using request_fail_told Cons.prems by (metis list.set_intros(1))
  ultimately show ?case by simp
qed simp

lemma silent_parts:
  "open_signalFd cfg env t = (x, evs, t') \<Longrightarrow> told_log evs = {#}"
  "open_device cfg env y t = (x, evs, t') \<Longrightarrow> told_log evs = {#}"
  "read_signal cfg env y t = (x, h, evs, t') \<Longrightarrow> told_log evs = {#}"
  "close_device t = (evs, t') \<Longrightarrow> told_log evs = {#}"
  "wait_for_work env t = (evs, t') \<Longrightarrow> told_log evs = {#}"
  "read_interrupt_flags cfg bus d = (fl, evs, d') \<Longrightarrow> told_log evs = {#}"
  "told_log (map (\<lambda>l. ListenerCalled l flags) ls) = {#}"
proof -
  show close: "close_device t = (evs, t') \<Longrightarrow> told_log evs = {#}" for t evs t'
    by (auto simp: close_device_def)
  show "open_signalFd cfg env t = (x, evs, t') \<Longrightarrow> told_log evs = {#}"
    by (auto simp: open_signalFd_def split: if_splits sum.splits)
  show "open_device cfg env y t = (x, evs, t') \<Longrightarrow> told_log evs = {#}"
    by (auto simp: open_device_def split: if_split_asm sum.split_asm option.split_asm)
  show "read_signal cfg env y t = (x, h, evs, t') \<Longrightarrow> told_log evs = {#}"
    by (auto simp: read_signal_def split: if_split_asm sum.split_asm)
  show "wait_for_work env t = (evs, t') \<Longrightarrow> told_log evs = {#}"
    by (auto simp: wait_for_work_def split: select_outcome.split_asm if_split_asm prod.split_asm dest: close)
  show "read_interrupt_flags cfg bus d = (fl, evs, d') \<Longrightarrow> told_log evs = {#}"
    by (auto simp: read_interrupt_flags_def split: option.split_asm prod.split_asm)
  show "told_log (map (\<lambda>l. ListenerCalled l flags) ls) = {#}" by (induction ls) simp_all
qed

definition accounted :: "nat multiset \<Rightarrow> 'd MmapSystem \<Rightarrow> bool" where
  "accounted S m \<longleftrightarrow> (\<forall>r\<in>set (ioQueue (ms_shared m)). initialised r) \<and> ms_phase m \<noteq> Terminated
     \<and> (ms_phase m = Ended \<longrightarrow> shutdown (ms_shared m)) \<and> told_log (ms_log m) + mset (waiting m) = S"

definition enqueues :: "MrfIoRequest \<Rightarrow> Mmap \<Rightarrow> (notification list \<times> bool \<times> Mmap) option \<Rightarrow> bool" where
  "enqueues r s res \<longleftrightarrow> (\<exists>ns w s'. res = Some (ns, w, s') \<and>
     (ns = [] \<and> s' = s\<lparr>ioQueue := ioQueue s @ [r]\<rparr> \<and> \<not> shutdown s
      \<or> s' = s \<and> mset (map notification_client ns) = mset (request_clients r)))"

lemma queueIoRequest_enqueues:
  assumes "initialised r"
  shows "enqueues r s (queueIoRequest x r s)"
proof -
  have fail: "\<exists>ns. request_fail EC_unknown d r = Some ns \<and> mset (map notification_client ns) = mset (request_clients r)" for d
    using request_fail_told [OF assms] by blast
  show ?thesis
    using fail [of "''The request could not be queued: This device has been shutdown.''"]
      fail [of "''The request could not be queued.''"]
      fail [of "''The request could not be queued: '' @ (case x of Some (ThrownStd w) \<Rightarrow> w | _ \<Rightarrow> [])"]
    by (auto simp: queueIoRequest_def enqueues_def split: option.split thrown.split)
qed

lemma client_operation_accounted:
  assumes "accounted S m" "enqueues r (ms_shared m) (f (ms_shared m))" "initialised r"
  shows "\<exists>m'. client_operation f m = Some m' \<and> accounted (S + mset (request_clients r)) m'"
proof -
  obtain ns w s' where res: "f (ms_shared m) = Some (ns, w, s')" and cases:
    "ns = [] \<and> s' = (ms_shared m)\<lparr>ioQueue := ioQueue (ms_shared m) @ [r]\<rparr> \<and> \<not> shutdown (ms_shared m)
     \<or> s' = ms_shared m \<and> mset (map notification_client ns) = mset (request_clients r)"
    using assms(2) by (auto simp: enqueues_def)
  from cases show ?thesis
    using assms(1,3) by (auto simp: client_operation_def res accounted_def waiting_def)
qed

lemma verified_accounted:
  assumes "accounted S m" "initialised r" "request_clients r = [f]"
    and "v = Some ([], True) \<or> (\<exists>ns. v = Some (ns, False) \<and> map notification_client ns = [f])"
  shows "\<exists>m'. client_operation (verified v x r) m = Some m' \<and> accounted (S + {#f#}) m'"
proof -
  have "enqueues r (ms_shared m) (verified v x r (ms_shared m))"
    using assms(4) queueIoRequest_enqueues [OF assms(2)] assms(3)
    by (auto simp: verified_def) (auto simp: enqueues_def)
  from client_operation_accounted [where f = "verified v x r", OF assms(1) this assms(2)]
  show ?thesis by (simp add: assms(3))
qed

lemma verify_cases:
  "verifyAddress16 a n (Some f) = Some ([], True)
    \<or> (\<exists>ns. verifyAddress16 a n (Some f) = Some (ns, False) \<and> map notification_client ns = [f])"
  "verifyAddress32 a n (Some f) = Some ([], True)
    \<or> (\<exists>ns. verifyAddress32 a n (Some f) = Some (ns, False) \<and> map notification_client ns = [f])"
  by (auto simp: verifyAddress16_def verifyAddress32_def)

lemma initialised_requests [simp]:
  "t = t_readUInt16 \<or> t = t_writeUInt16 \<Longrightarrow> initialised (MrfIoRequest16 t a v cb)"
  "t = t_readUInt32 \<or> t = t_writeUInt32 \<Longrightarrow> initialised (MrfIoRequest32 t a w cb)"
  "t = t_readUInt16 \<or> t = t_writeUInt16 \<Longrightarrow> request_clients (MrfIoRequest16 t a v (Some f)) = [f]"
  "t = t_readUInt32 \<or> t = t_writeUInt32 \<Longrightarrow> request_clients (MrfIoRequest32 t a w (Some f)) = [f]"
  by (auto simp: initialised_def request_clients_def MrfIoRequest16_def MrfIoRequest32_def)

lemma do_io_keeps:
  assumes "do_io bo bus r d = Some (Some r', d')"
  shows "io_type r' = io_type r" "request_clients r' = request_clients r" "io_address r' = io_address r"
proof -
  have "io_type r' = io_type r \<and> request_clients r' = request_clients r \<and> io_address r' = io_address r"
    using assms by (cases "io_type r") (auto simp: do_io_def apfst_def map_prod_def request_clients_def split: prod.splits)
  then show "io_type r' = io_type r" "request_clients r' = request_clients r" "io_address r' = io_address r" by auto
qed

lemma do_io_initialised: "initialised r \<Longrightarrow> do_io bo bus r d \<noteq> None"
  by (cases "io_type r") (auto simp: do_io_def initialised_def)

lemma process_request_told:
  assumes "initialised r"
  shows "\<exists>evs t' d'. process_request cfg bus x r t d = Some (evs, t', d') \<and> told_log evs = mset (request_clients r)"
proof (cases "deviceMemory t")
  case False
  then show ?thesis
    using request_fail_told [OF assms, of EC_unknown x] by (auto simp: process_request_def)
next
  case True
  obtain ro d' where io: "do_io (mc_byteOrder cfg) bus r d = Some (ro, d')"
    using do_io_initialised [OF assms] by force
  show ?thesis
  proof (cases ro)
    case None
    obtain evs t' where "close_device t = (evs, t')" by (cases "close_device t")
    moreover from this have "told_log evs = {#}" by (rule silent_parts)
    moreover obtain ns where "request_fail EC_unknown (''Received a SIGBUS while trying to access the device ''
        @ mc_devicePath cfg @ ''. This indicates an I/O error.'') r = Some ns"
      "mset (map notification_client ns) = mset (request_clients r)"
      using request_fail_told [OF assms] by blast
    ultimately show ?thesis using True io None by (simp add: process_request_def)
  next
    case (Some r')
    note keeps = do_io_keeps [OF io [unfolded Some]]
    have "initialised r'" using keeps assms by (simp add: initialised_def)
    then obtain ns where "request_success r' = Some ns" "mset (map notification_client ns) = mset (request_clients r)"
      using request_success_told keeps(2) by metis
    then show ?thesis using True io Some by (simp add: process_request_def)
  qed
qed

lemma leave_loop_told:
  assumes "\<forall>r\<in>set (ioQueue s). initialised r"
  shows "\<exists>evs t'. leave_loop s t = Some (evs, t') \<and> told_log evs = mset (concat (map request_clients (ioQueue s)))"
proof -
  obtain evs t1 where close: "close_device t = (evs, t1)" by (cases "close_device t")
  then have "told_log evs = {#}" by (rule silent_parts)
  then show ?thesis using drain_told [OF assms] close by (auto simp: leave_loop_def)
qed

lemma io_round_accounted:
  assumes "\<forall>r\<in>set (ioQueue s). initialised r"
    and "io_round cfg bus env s t d = (p, evs, s', t', d')"
  shows "(\<forall>r\<in>set (ioQueue s'). initialised r) \<and> p \<noteq> Terminated \<and> (p = Ended \<longrightarrow> shutdown s') \<and>
    told_log evs + (if p = Ended then {#} else mset (concat (map request_clients (ioQueue s'))))
      = mset (concat (map request_clients (ioQueue s)))"
proof -
  obtain x1 ev1 t1 where 1: "open_signalFd cfg env t = (x1, ev1, t1)" by (metis prod_cases3)
  obtain x2 ev2 t2 where 2: "open_device cfg env x1 t1 = (x2, ev2, t2)" by (metis prod_cases3)
  obtain x3 h ev3 t3 where 3: "read_signal cfg env x2 t2 = (x3, h, ev3, t3)" by (metis prod_cases4)
  note silent = silent_parts(1) [OF 1] silent_parts(2) [OF 2] silent_parts(3) [OF 3]
  note round = assms(2) [unfolded io_round_def 1 2 3 prod.case Let_def]
  show ?thesis
  proof (cases "shutdown s")
    case True
    obtain ev4 t4 where "leave_loop s t3 = Some (ev4, t4)"
      "told_log ev4 = mset (concat (map request_clients (ioQueue s)))"
      using leave_loop_told [OF assms(1)] by blast
    then show ?thesis using round True silent assms(1) by auto
  next
    case running: False
    show ?thesis
    proof (cases h)
      case True
      obtain fl ev4 d4 where 4: "read_interrupt_flags cfg bus d = (fl, ev4, d4)" by (metis prod_cases3)
      obtain ev5 t5 where 5: "close_device t3 = (ev5, t5)" by (cases "close_device t3")
      show ?thesis
        using round True running silent silent_parts(6) [OF 4] silent_parts(4) [OF 5] assms(1) 4 5
        by (cases fl) auto
    next
      case False
      show ?thesis
      proof (cases "ioQueue s")
        case Nil
        obtain ev4 t4 where 4: "wait_for_work env t3 = (ev4, t4)" by (cases "wait_for_work env t3")
        then show ?thesis using round False running Nil silent silent_parts(5) [OF 4] by auto
      next
        case (Cons r rs)
        then obtain ev4 t4 d4 where "process_request cfg bus x3 r t3 d = Some (ev4, t4, d4)"
          "told_log ev4 = mset (request_clients r)"
          using process_request_told assms(1) by (metis list.set_intros(1))
        then show ?thesis using round False running Cons silent assms(1) by auto
      qed
    qed
  qed
qed

lemma operations_verified:
  "mm_readUInt16 n x a cb = verified (verifyAddress16 a n cb) x (MrfIoRequest16 t_readUInt16 a 0 cb)"
  "mm_writeUInt16 n x a v cb = verified (verifyAddress16 a n cb) x (MrfIoRequest16 t_writeUInt16 a v cb)"
  "mm_readUInt32 n x a cb = verified (verifyAddress32 a n cb) x (MrfIoRequest32 t_readUInt32 a 0 cb)"
  "mm_writeUInt32 n x a w cb = verified (verifyAddress32 a n cb) x (MrfIoRequest32 t_writeUInt32 a w cb)"
  by (simp_all add: fun_eq_iff mm_readUInt16_def mm_writeUInt16_def mm_readUInt32_def mm_writeUInt32_def)

lemma mmap_step_accounted:
  assumes "accounted S m" "\<not> null_callback a"
  shows "\<exists>m'. mmap_step cfg bus a m = Some m' \<and> accounted (S + mset (submitted a)) m'"
proof (cases a)
  case (Read16 x ad cb)
  then obtain f where "cb = Some f" using assms(2) by auto
  then show ?thesis
    using verified_accounted [OF assms(1) _ _ verify_cases(1)] Read16 by (auto simp: operations_verified)
next
  case (Write16 x ad v cb)
  then obtain f where "cb = Some f" using assms(2) by auto
  then show ?thesis
    using verified_accounted [OF assms(1) _ _ verify_cases(1)] Write16 by (auto simp: operations_verified)
next
  case (Read32 x ad cb)
  then obtain f where "cb = Some f" using assms(2) by auto
  then show ?thesis
    using verified_accounted [OF assms(1) _ _ verify_cases(2)] Read32 by (auto simp: operations_verified)
next
  case (Write32 x ad v cb)
  then obtain f where "cb = Some f" using assms(2) by auto
  then show ?thesis
    using verified_accounted [OF assms(1) _ _ verify_cases(2)] Write32 by (auto simp: operations_verified)
next
  case (AddListener alive l)
  then show ?thesis using assms(1)
    by (auto simp: accounted_def waiting_def addInterruptListener_def split: prod.split)
next
  case (RemoveListener alive l)
  then show ?thesis using assms(1) by (auto simp: accounted_def waiting_def removeInterruptListener_def)
next
  case Shutdown
  then show ?thesis using assms(1) by (auto simp: accounted_def waiting_def)
next
  case (ThreadRound env)
  show ?thesis
  proof (cases "ms_phase m = AtTop")
    case True
    obtain p evs s t d where r: "io_round cfg bus env (ms_shared m) (ms_thread m) (ms_device m) = (p, evs, s, t, d)"
      by (metis prod_cases5)
    have "\<forall>r\<in>set (ioQueue (ms_shared m)). initialised r" using assms(1) by (simp add: accounted_def)
    from io_round_accounted [OF this r] show ?thesis
      using assms(1) True r ThreadRound by (auto simp: accounted_def waiting_def)
  next
    case False
    then show ?thesis using assms(1) ThreadRound by simp
  qed
next
  case (ThreadNotify alive errno)
  show ?thesis
  proof (cases "ms_phase m")
    case (Notifying flags)
    obtain evs s t where n: "notify_listeners cfg alive errno flags (ms_shared m) (ms_thread m) = (evs, s, t)"
      by (metis prod_cases3)
    obtain ev5 t5 where 5: "close_device (ms_thread m) = (ev5, t5)" by (cases "close_device (ms_thread m)")
    have "told_log evs = {#} \<and> ioQueue s = ioQueue (ms_shared m) \<and> shutdown s = shutdown (ms_shared m)"
      using n silent_parts(4) [OF 5] by (cases "flags = 0"; cases "enableInterrupt cfg errno")
        (auto simp: notify_listeners_def 5 Let_def silent_parts(7))
    then show ?thesis using assms(1) Notifying n ThreadNotify by (auto simp: accounted_def waiting_def)
  qed (use assms(1) ThreadNotify in \<open>simp_all\<close>)
qed

lemma mmap_run_accounted:
  assumes "accounted S m" "\<not> list_ex null_callback as"
  shows "\<exists>m'. mmap_run cfg bus as m = Some m' \<and> accounted (S + mset (concat (map submitted as))) m'"
  using assms
proof (induction as arbitrary: S m)
  case (Cons a as)
  then obtain m1 where "mmap_step cfg bus a m = Some m1" "accounted (S + mset (submitted a)) m1"
    using mmap_step_accounted by (metis list_ex_iff list.set_intros(1))
  moreover from Cons.prems have "\<not> list_ex null_callback as" by simp
  ultimately show ?case using Cons.IH by (fastforce simp: add.assoc)
qed simp

text \<open>
  C17.
  The I/O thread never throws; whatever the system calls and the device do, each callback that was passed
  to an operation has been notified once or its request waits in the queue; when the thread has ended,
  none waits, and later requests are notified at once.
\<close>

theorem mmap_requests_notified_once:
  assumes "\<not> list_ex null_callback as"
  shows "\<exists>m. mmap_run cfg bus as (new_MrfMmapMemoryAccess d) = Some m \<and> ms_phase m \<noteq> Terminated
    \<and> told_log (ms_log m) + mset (waiting m) = mset (concat (map submitted as))
    \<and> (ms_phase m = Ended \<longrightarrow> waiting m = [] \<and> shutdown (ms_shared m))"
proof -
  have "accounted {#} (new_MrfMmapMemoryAccess d)"
    by (simp add: accounted_def new_MrfMmapMemoryAccess_def waiting_def)
  from mmap_run_accounted [OF this assms, of cfg bus] show ?thesis
    unfolding accounted_def by (auto simp: waiting_def)
qed

definition demo_config :: MmapConfig where
  "demo_config = \<lparr>mc_devicePath = ''/dev/era3'', mc_memorySize = 64, mc_byteOrder = LittleEndian,
     mc_message = (\<lambda>_. ''error''), mc_what = (\<lambda>x _. x)\<rparr>"

text \<open>A bus on which each access fails, and a round whose system calls succeed, with or without a signal.\<close>

definition dead_bus :: "unit Bus" where
  "dead_bus = \<lparr>bus_read16 = (\<lambda>_ d. (None, d)), bus_read32 = (\<lambda>_ d. (None, d)),
     bus_write16 = (\<lambda>_ _ d. (False, d)), bus_write32 = (\<lambda>_ _ d. (False, d))\<rparr>"

definition demo_env :: "bool \<Rightarrow> RoundEnv" where
  "demo_env signal = \<lparr>env_signalfd = Inr 5, env_open = Inr 6, env_mmap = None, env_setown = None, env_setsig = None,
     env_getfl = None, env_setfl = None, env_enable = None, env_read = (if signal then Inr 128 else Inl 11),
     env_siginfo = (29, 6), env_select = SelectDone\<rparr>"

lemma mmap_requests_notified_once_witness:
  "(case mmap_run demo_config dead_bus
       [Write32 None 8 1 (Some 3), ThreadRound (demo_env False), Read16 None 7 (Some 4), Read32 None 12 (Some 9),
        Shutdown, ThreadRound (demo_env True)] (new_MrfMmapMemoryAccess ()) of
     None \<Rightarrow> False | Some m \<Rightarrow> told_log (ms_log m) = {#3, 4, 9#} \<and> ms_phase m = Ended)"
proof -
  define as where "as = [Write32 None 8 1 (Some 3), ThreadRound (demo_env False), Read16 None 7 (Some 4),
    Read32 None 12 (Some 9), Shutdown, ThreadRound (demo_env True)]"
  have "\<not> list_ex null_callback as" by (simp add: as_def)
  from mmap_requests_notified_once [OF this, of demo_config dead_bus "()"] obtain m where
    m: "mmap_run demo_config dead_bus as (new_MrfMmapMemoryAccess ()) = Some m"
      "told_log (ms_log m) + mset (waiting m) = {#3, 4, 9#}" "ms_phase m = Ended \<longrightarrow> waiting m = []"
    by (auto simp: as_def)
  have "map_option ms_phase (mmap_run demo_config dead_bus as (new_MrfMmapMemoryAccess ())) = Some Ended"
    unfolding as_def by code_simp
  then show ?thesis using m by (simp add: as_def [symmetric])
qed

section \<open>The resources of the I/O thread\<close>

text \<open>
  The books: the open descriptors, whether the memory is mapped, and whether interrupts are enabled. An
  entry that is not possible (closing what is not open, mapping twice, an access without a mapping,
  sleeping with an open device whose interrupts are disabled) gives nothing.
\<close>

fun book :: "io_event \<Rightarrow> int multiset \<times> bool \<times> bool \<Rightarrow> (int multiset \<times> bool \<times> bool) option" where
  "book (Opened fd) (h, m, a) = Some (add_mset fd h, m, a)"
| "book (Closed fd) (h, m, a) = (if fd \<in># h then Some (h - {#fd#}, m, a) else None)"
| "book MappedMemory (h, m, a) = (if m then None else Some (h, True, False))"
| "book UnmappedMemory (h, m, a) = (if m then Some (h, False, False) else None)"
| "book (IrqEnabled fd) (h, m, a) = (if m \<and> fd \<in># h then Some (h, m, True) else None)"
| "book InterruptTaken (h, m, a) = Some (h, m, False)"
| "book (Access ad n) (h, m, a) = (if m then Some (h, m, a) else None)"
| "book Waited (h, m, a) = (if m \<and> \<not> a then None else Some (h, m, a))"
| "book _ b = Some b"

fun books :: "io_event list \<Rightarrow> int multiset \<times> bool \<times> bool \<Rightarrow> (int multiset \<times> bool \<times> bool) option" where
  "books [] b = Some b"
| "books (e # es) b = (case book e b of None \<Rightarrow> None | Some b' \<Rightarrow> books es b')"

lemma books_append: "books es b = Some b' \<Longrightarrow> books (es @ fs) b = books fs b'"
  by (induction es arbitrary: b) (auto split: option.split_asm)

lemma books_Notified [simp]: "books (map Notified ns) b = Some b"
  by (induction ns) (cases b, auto)

lemma books_ListenerCalled [simp]: "books (map (\<lambda>l. ListenerCalled l x) ls) b = Some b"
  by (induction ls) (cases b, auto)

definition held :: "IoThread \<Rightarrow> int multiset" where
  "held t = (if signalFd t \<noteq> -1 then {#signalFd t#} else {#}) + (if deviceFd t \<noteq> -1 then {#deviceFd t#} else {#})"

definition mapped_iff_open :: "IoThread \<Rightarrow> bool" where
  "mapped_iff_open t \<longleftrightarrow> deviceMemory t = (deviceFd t \<noteq> -1)"

text \<open>System calls give descriptors that are not negative.\<close>

fun possible_action :: "mmap_action \<Rightarrow> bool" where
  "possible_action (ThreadRound env) =
     ((case env_signalfd env of Inl _ \<Rightarrow> True | Inr fd \<Rightarrow> 0 \<le> fd) \<and> (case env_open env of Inl _ \<Rightarrow> True | Inr fd \<Rightarrow> 0 \<le> fd))"
| "possible_action _ = True"

definition keeps_books :: "IoThread \<Rightarrow> io_event list \<Rightarrow> IoThread \<Rightarrow> bool" where
  "keeps_books t evs t' \<longleftrightarrow> mapped_iff_open t' \<and>
     books evs (held t, deviceMemory t, deviceMemory t) = Some (held t', deviceMemory t', deviceMemory t')"

lemma keeps_books_trans:
  "keeps_books t es t' \<Longrightarrow> keeps_books t' fs t'' \<Longrightarrow> keeps_books t (es @ fs) t''"
  by (simp add: keeps_books_def books_append)

lemma open_signalFd_books:
  assumes "open_signalFd cfg env t = (x, evs, t')" "mapped_iff_open t" "possible_action (ThreadRound env)"
  shows "keeps_books t evs t'"
  using assms by (auto simp: open_signalFd_def keeps_books_def mapped_iff_open_def held_def split: if_splits sum.splits)

lemma open_device_books:
  assumes "open_device cfg env y t = (x, evs, t')" "mapped_iff_open t" "possible_action (ThreadRound env)"
  shows "keeps_books t evs t'"
  using assms by (auto simp: open_device_def keeps_books_def mapped_iff_open_def held_def
      split: if_split_asm sum.split_asm option.split_asm)

lemma read_signal_books:
  assumes "read_signal cfg env y t = (x, h, evs, t')" "mapped_iff_open t"
  shows "keeps_books t evs t' \<and> (h \<longrightarrow> deviceMemory t')"
  using assms by (auto simp: read_signal_def keeps_books_def mapped_iff_open_def held_def
      split: if_split_asm sum.split_asm)

lemma close_device_books:
  assumes "close_device t = (evs, t')" "mapped_iff_open t" "a \<longrightarrow> deviceMemory t"
  shows "books evs (held t, deviceMemory t, a) = Some (held t', False, False)" "mapped_iff_open t'"
    "\<not> deviceMemory t'" "signalFd t' = signalFd t" "deviceFd t' = -1"
  using assms by (auto simp: close_device_def mapped_iff_open_def held_def)

lemma wait_for_work_books:
  assumes "wait_for_work env t = (evs, t')" "mapped_iff_open t"
  shows "keeps_books t evs t'"
proof -
  obtain ev t1 where c: "close_device t = (ev, t1)" by (cases "close_device t")
  have closed: "keeps_books t ([Waited, Slept] @ ev) t1"
    using close_device_books [OF c assms(2), of "deviceMemory t"] by (simp add: keeps_books_def)
  have "keeps_books t [Waited] t" using assms(2) by (simp add: keeps_books_def)
  with closed show ?thesis
    using assms(1) by (auto simp: wait_for_work_def c split: select_outcome.split_asm if_split_asm)
qed

lemma process_request_books:
  assumes "process_request cfg bus x r t d = Some (evs, t', d')" "mapped_iff_open t"
  shows "keeps_books t evs t'"
proof -
  obtain ev t1 where c: "close_device t = (ev, t1)" by (cases "close_device t")
  note closed = close_device_books [OF c assms(2), of "deviceMemory t"]
  have "books (map Notified ns @ ev) b = books ev b" for ns b
    by (rule books_append) simp
  then show ?thesis
    using assms closed by (auto simp: process_request_def c keeps_books_def
        split: if_split_asm option.split_asm prod.split_asm)
qed

definition kept :: "'d MmapSystem \<Rightarrow> bool" where
  "kept m \<longleftrightarrow> (let t = ms_thread m in mapped_iff_open t
     \<and> (\<exists>armed. books (ms_log m) ({#}, False, False) = Some (held t, deviceMemory t, armed)
         \<and> (ms_phase m = AtTop \<longrightarrow> armed = deviceMemory t)
         \<and> (\<forall>flags. ms_phase m = Notifying flags \<longrightarrow> deviceMemory t \<and> \<not> armed))
     \<and> (ms_phase m = Ended \<longrightarrow> \<not> deviceMemory t \<and> held t = {#}))"

lemma leave_loop_books:
  assumes "leave_loop s t = Some (evs, t')" "mapped_iff_open t"
  shows "keeps_books t evs t' \<and> held t' = {#} \<and> \<not> deviceMemory t'"
proof -
  obtain ev t1 where c: "close_device t = (ev, t1)" by (cases "close_device t")
  note closed = close_device_books [OF c assms(2), of "deviceMemory t"]
  show ?thesis
    using assms closed by (auto simp: leave_loop_def c keeps_books_def held_def books_append mapped_iff_open_def)
qed

lemma io_round_kept:
  assumes "io_round cfg bus env s t d = (p, evs, s', t', d')" "mapped_iff_open t" "possible_action (ThreadRound env)"
  shows "mapped_iff_open t' \<and> (\<exists>armed. books evs (held t, deviceMemory t, deviceMemory t) = Some (held t', deviceMemory t', armed)
         \<and> (p = AtTop \<longrightarrow> armed = deviceMemory t') \<and> (\<forall>flags. p = Notifying flags \<longrightarrow> deviceMemory t' \<and> \<not> armed))
     \<and> (p = Ended \<longrightarrow> \<not> deviceMemory t' \<and> held t' = {#})"
proof -
  obtain x1 ev1 t1 where 1: "open_signalFd cfg env t = (x1, ev1, t1)" by (metis prod_cases3)
  obtain x2 ev2 t2 where 2: "open_device cfg env x1 t1 = (x2, ev2, t2)" by (metis prod_cases3)
  obtain x3 h ev3 t3 where 3: "read_signal cfg env x2 t2 = (x3, h, ev3, t3)" by (metis prod_cases4)
  have k1: "keeps_books t ev1 t1" using open_signalFd_books [OF 1] assms by simp
  then have k2: "keeps_books t1 ev2 t2" using open_device_books [OF 2] assms by (simp add: keeps_books_def)
  then have k3: "keeps_books t2 ev3 t3" "h \<longrightarrow> deviceMemory t3"
    using read_signal_books [OF 3] by (simp_all add: keeps_books_def)
  have k: "keeps_books t (ev1 @ ev2 @ ev3) t3" using keeps_books_trans k1 k2 k3(1) by blast
  note round = assms(1) [unfolded io_round_def 1 2 3 prod.case Let_def]
  have wf3: "mapped_iff_open t3" using k by (simp add: keeps_books_def)
  have finish: ?thesis if "p = AtTop \<or> p = Ended" "evs = (ev1 @ ev2 @ ev3) @ ev4" "keeps_books t3 ev4 t'"
    "p = Ended \<Longrightarrow> held t' = {#} \<and> \<not> deviceMemory t'" for ev4
    using keeps_books_trans [OF k that(3)] that by (auto simp: keeps_books_def)
  have terminated: ?thesis if "p = Terminated" "evs = ev1 @ ev2 @ ev3" "t' = t3"
    using k that by (auto simp: keeps_books_def)
  show ?thesis
  proof (cases "shutdown s")
    case True
    then show ?thesis
    proof (cases "leave_loop s t3")
      case None
      then show ?thesis using round True by (intro terminated) auto
    next
      case (Some l)
      then obtain ev4 t4 where l: "leave_loop s t3 = Some (ev4, t4)" by (cases l) auto
      then show ?thesis using round True leave_loop_books [OF l wf3] by (intro finish [of ev4]) auto
    qed
  next
    case running: False
    show ?thesis
    proof (cases h)
      case True
      obtain fl ev4 d4 where 4: "read_interrupt_flags cfg bus d = (fl, ev4, d4)" by (metis prod_cases3)
      obtain ev5 t5 where 5: "close_device t3 = (ev5, t5)" by (cases "close_device t3")
      have m: "deviceMemory t3" using True k3 by simp
      have b: "books (ev1 @ ev2 @ ev3) (held t, deviceMemory t, deviceMemory t) = Some (held t3, True, True)"
        using k m by (simp add: keeps_books_def)
      have b4: "books ev4 (held t3, True, False) = Some (held t3, True, False)"
        using 4 by (auto simp: read_interrupt_flags_def split: option.split_asm prod.split_asm)
      have b5: "books (InterruptTaken # ev4 @ fs) (held t3, True, True) = books fs (held t3, True, False)" for fs
        using books_append [OF b4] by simp
      show ?thesis
      proof (cases fl)
        case None
        then have "p = AtTop" "t' = t5" "evs = (ev1 @ ev2 @ ev3) @ InterruptTaken # ev4 @ ev5"
          using round True running 4 5 by auto
        then show ?thesis
          using close_device_books [OF 5 wf3, of False] m b5 books_append [OF b] by auto
      next
        case (Some flags)
        then have "p = Notifying flags" "t' = t3" "evs = (ev1 @ ev2 @ ev3) @ InterruptTaken # ev4 @ []"
          using round True running 4 by auto
        then show ?thesis using b5 [of "[]"] m wf3 books_append [OF b] by auto
      qed
    next
      case False
      show ?thesis
      proof (cases "ioQueue s")
        case Nil
        obtain ev4 t4 where 4: "wait_for_work env t3 = (ev4, t4)" by (cases "wait_for_work env t3")
        then show ?thesis
          using round False running Nil wait_for_work_books [OF 4 wf3] by (intro finish [of ev4]) auto
      next
        case (Cons r rs)
        show ?thesis
        proof (cases "process_request cfg bus x3 r t3 d")
          case None
          then show ?thesis using round False running Cons by (intro terminated) auto
        next
          case (Some q)
          then obtain ev4 t4 d4 where q: "process_request cfg bus x3 r t3 d = Some (ev4, t4, d4)" by (cases q) auto
          then show ?thesis
            using round False running Cons process_request_books [OF q wf3] by (intro finish [of ev4]) auto
        qed
      qed
    qed
  qed
qed

lemma client_operation_kept:
  assumes "client_operation f m = Some m'" "kept m"
  shows "kept m'"
  using assms by (auto simp: client_operation_def kept_def Let_def books_append split: option.split_asm prod.split_asm)

lemma notify_listeners_kept:
  assumes "notify_listeners cfg alive errno flags s t = (evs, s', t')" "mapped_iff_open t" "deviceMemory t"
  shows "mapped_iff_open t' \<and> books evs (held t, True, False) = Some (held t', deviceMemory t', deviceMemory t')"
proof -
  obtain ev t1 where c: "close_device t = (ev, t1)" by (cases "close_device t")
  define calls where "calls = map (\<lambda>l. ListenerCalled l flags)
    (if flags \<noteq> 0 then collect_listeners alive (interruptListeners s) else [])"
  have calls: "books (calls @ fs) b = books fs b" for fs b
    unfolding calls_def by (rule books_append) simp
  have "deviceFd t \<in># held t" using assms(2,3) by (auto simp: mapped_iff_open_def held_def)
  then have "books (calls @ [IrqEnabled (deviceFd t)]) (held t, True, False) = Some (held t, True, True)"
    by (simp add: calls)
  moreover have "books (calls @ ev) (held t, True, False) = Some (held t1, False, False)"
    using close_device_books [OF c assms(2), of False] assms(3) by (simp add: calls)
  ultimately show ?thesis
    using assms close_device_books [OF c assms(2), of False]
    by (auto simp: notify_listeners_def Let_def c calls_def [symmetric] split: option.split_asm)
qed

lemma mmap_step_kept:
  assumes "mmap_step cfg bus a m = Some m'" "kept m" "possible_action a"
  shows "kept m'"
proof (cases a)
  case (ThreadRound env)
  show ?thesis
  proof (cases "ms_phase m = AtTop")
    case True
    obtain p evs s t d where r: "io_round cfg bus env (ms_shared m) (ms_thread m) (ms_device m) = (p, evs, s, t, d)"
      by (metis prod_cases5)
    have "mapped_iff_open (ms_thread m)" "books (ms_log m) ({#}, False, False)
        = Some (held (ms_thread m), deviceMemory (ms_thread m), deviceMemory (ms_thread m))"
      using assms(2) True by (auto simp: kept_def Let_def)
    with io_round_kept [OF r] show ?thesis
      using assms r True ThreadRound by (auto simp: kept_def Let_def books_append)
  next
    case False
    then show ?thesis using assms ThreadRound by simp
  qed
next
  case (ThreadNotify alive errno)
  show ?thesis
  proof (cases "ms_phase m")
    case (Notifying flags)
    obtain evs s t where n: "notify_listeners cfg alive errno flags (ms_shared m) (ms_thread m) = (evs, s, t)"
      by (metis prod_cases3)
    have "mapped_iff_open (ms_thread m)" "deviceMemory (ms_thread m)"
      "books (ms_log m) ({#}, False, False) = Some (held (ms_thread m), True, False)"
      using assms(2) Notifying by (auto simp: kept_def Let_def)
    with notify_listeners_kept [OF n] show ?thesis
      using assms n Notifying ThreadNotify by (auto simp: kept_def Let_def books_append)
  qed (use assms ThreadNotify in \<open>simp_all\<close>)
next
  case (AddListener alive l)
  then have "m' = m\<lparr>ms_shared := addInterruptListener alive l (ms_shared m)\<rparr>" using assms(1) by simp
  then show ?thesis using assms(2) by (simp add: kept_def)
next
  case (RemoveListener alive l)
  then have "m' = m\<lparr>ms_shared := removeInterruptListener alive l (ms_shared m)\<rparr>" using assms(1) by simp
  then show ?thesis using assms(2) by (simp add: kept_def)
next
  case Shutdown
  then have "m' = m\<lparr>ms_shared := (ms_shared m)\<lparr>shutdown := True\<rparr>\<rparr>" using assms(1) by simp
  then show ?thesis using assms(2) by (simp add: kept_def)
qed (use assms(1,2) client_operation_kept in \<open>simp_all only: mmap_step.simps\<close>)

lemma mmap_run_kept:
  assumes "mmap_run cfg bus as m = Some m'" "kept m" "list_all possible_action as"
  shows "kept m'"
  using assms
proof (induction as arbitrary: m)
  case (Cons a as)
  then obtain m1 where "mmap_step cfg bus a m = Some m1" "mmap_run cfg bus as m1 = Some m'"
    by (auto split: option.split_asm)
  with Cons show ?case using mmap_step_kept [of cfg bus a m m1] by simp
qed simp

text \<open>
  C18.
  In each run the log of the I/O thread balances: only open descriptors are closed, the device is mapped
  once and accessed only while it is mapped, the thread never sleeps with an open device whose interrupts
  are disabled; and when the thread has ended, nothing is open or mapped.
\<close>

theorem io_thread_keeps_books:
  assumes "mmap_run cfg bus as (new_MrfMmapMemoryAccess d) = Some m" "list_all possible_action as"
  shows "\<exists>h mapped armed. books (ms_log m) ({#}, False, False) = Some (h, mapped, armed)
    \<and> (ms_phase m = Ended \<longrightarrow> h = {#} \<and> \<not> mapped) \<and> (ms_phase m = AtTop \<longrightarrow> armed = mapped)"
proof -
  have "kept (new_MrfMmapMemoryAccess d)"
    by (auto simp: kept_def new_MrfMmapMemoryAccess_def new_IoThread_def mapped_iff_open_def held_def)
  from mmap_run_kept [OF assms(1) this assms(2)] show ?thesis by (auto simp: kept_def Let_def)
qed

lemma io_thread_keeps_books_witness:
  "(case mmap_run demo_config dead_bus [ThreadRound (demo_env True), ThreadRound (demo_env False), Shutdown,
       ThreadRound (demo_env False)] (new_MrfMmapMemoryAccess ()) of
     None \<Rightarrow> False
   | Some m \<Rightarrow> (case books (ms_log m) ({#}, False, False) of Some (h, mapped, armed) \<Rightarrow> h = {#} \<and> \<not> mapped | None \<Rightarrow> False))"
proof -
  define as where "as = [ThreadRound (demo_env True), ThreadRound (demo_env False), Shutdown, ThreadRound (demo_env False)]"
  obtain m where m: "mmap_run demo_config dead_bus as (new_MrfMmapMemoryAccess ()) = Some m" "ms_phase m = Ended"
  proof -
    have "map_option ms_phase (mmap_run demo_config dead_bus as (new_MrfMmapMemoryAccess ())) = Some Ended"
      unfolding as_def by code_simp
    then show thesis using that by auto
  qed
  have "list_all possible_action as" unfolding as_def by code_simp
  from io_thread_keeps_books [OF m(1) this] show ?thesis using m by (auto simp: as_def [symmetric])
qed

section \<open>Bounds\<close>

definition in_memory :: "u32 \<Rightarrow> u32 \<Rightarrow> nat \<Rightarrow> bool" where
  "in_memory msize a n \<longleftrightarrow> unat a + n \<le> unat msize \<and> n dvd unat a"

definition log_in_memory :: "u32 \<Rightarrow> io_event list \<Rightarrow> bool" where
  "log_in_memory msize evs = list_all (\<lambda>e. case e of Access a n \<Rightarrow> in_memory msize a n | _ \<Rightarrow> True) evs"

lemma log_in_memory_simps [simp]:
  "log_in_memory msize []" "log_in_memory msize (es @ fs) = (log_in_memory msize es \<and> log_in_memory msize fs)"
  "log_in_memory msize (map Notified ns)" "log_in_memory msize (map (\<lambda>l. ListenerCalled l x) ls)"
  "log_in_memory msize (Access a n # es) = (in_memory msize a n \<and> log_in_memory msize es)"
  "log_in_memory msize (Opened fd # es) = log_in_memory msize es" "log_in_memory msize (Closed fd # es) = log_in_memory msize es"
  "log_in_memory msize (MappedMemory # es) = log_in_memory msize es" "log_in_memory msize (UnmappedMemory # es) = log_in_memory msize es"
  "log_in_memory msize (IrqEnabled fd # es) = log_in_memory msize es" "log_in_memory msize (InterruptTaken # es) = log_in_memory msize es"
  "log_in_memory msize (Waited # es) = log_in_memory msize es" "log_in_memory msize (Slept # es) = log_in_memory msize es"
  by (simp_all add: log_in_memory_def) (simp_all add: list_all_iff)

definition in_bounds :: "u32 \<Rightarrow> Mmap \<Rightarrow> bool" where
  "in_bounds msize s \<longleftrightarrow> (\<forall>r\<in>set (ioQueue s). in_memory msize (io_address r) (access_size (io_type r)))"

lemma aligned_in_memory:
  fixes n :: u32
  assumes "\<not> (msize < n \<or> a > msize - n \<or> a mod n \<noteq> 0)"
  shows "in_memory msize a (unat n)"
proof -
  have le: "unat n \<le> unat msize" using assms by (simp add: not_less word_le_nat_alt)
  then have "unat (msize - n) = unat msize - unat n" by (simp add: unat_sub word_le_nat_alt)
  moreover have "unat a \<le> unat (msize - n)" using assms by (simp add: not_less word_le_nat_alt)
  moreover have "unat a mod unat n = 0" using assms by (metis unat_0 unat_mod)
  ultimately show ?thesis using le by (simp add: in_memory_def mod_eq_0_iff_dvd)
qed

lemma verified_in_bounds:
  assumes "verified v x r s = Some (ns, w, s')" "in_bounds msize s"
    and "v = Some ([], True) \<Longrightarrow> in_memory msize (io_address r) (access_size (io_type r))"
    and "\<And>ms. v = Some (ms, True) \<Longrightarrow> ms = []"
  shows "in_bounds msize s'"
  using assms by (auto simp: verified_def queueIoRequest_def in_bounds_def
      split: option.split_asm bool.split_asm thrown.split_asm if_split_asm prod.split_asm)

lemma verify_in_memory:
  "verifyAddress16 a msize cb = Some (ms, True) \<Longrightarrow> ms = [] \<and> in_memory msize a 2"
  "verifyAddress32 a msize cb = Some (ms, True) \<Longrightarrow> ms = [] \<and> in_memory msize a 4"
  using aligned_in_memory [of msize 2 a] aligned_in_memory [of msize 4 a]
  by (auto simp: verifyAddress16_def verifyAddress32_def split: if_split_asm option.split_asm)

lemma operations_in_bounds:
  "mm_readUInt16 msize x a cb s = Some (ns, w, s') \<Longrightarrow> in_bounds msize s \<Longrightarrow> in_bounds msize s'"
  "mm_writeUInt16 msize x a v cb s = Some (ns, w, s') \<Longrightarrow> in_bounds msize s \<Longrightarrow> in_bounds msize s'"
  "mm_readUInt32 msize x a cb s = Some (ns, w, s') \<Longrightarrow> in_bounds msize s \<Longrightarrow> in_bounds msize s'"
  "mm_writeUInt32 msize x a v' cb s = Some (ns, w, s') \<Longrightarrow> in_bounds msize s \<Longrightarrow> in_bounds msize s'"
  unfolding operations_verified
  by (erule verified_in_bounds; simp add: MrfIoRequest16_def MrfIoRequest32_def verify_in_memory;
      (drule verify_in_memory)?; simp)+

lemma quiet_parts:
  "open_signalFd cfg env t = (x, evs, t') \<Longrightarrow> log_in_memory msize evs"
  "open_device cfg env y t = (x, evs, t') \<Longrightarrow> log_in_memory msize evs"
  "read_signal cfg env y t = (x, h, evs, t') \<Longrightarrow> log_in_memory msize evs"
  "close_device t = (evs, t') \<Longrightarrow> log_in_memory msize evs"
  "wait_for_work env t = (evs, t') \<Longrightarrow> log_in_memory msize evs"
  "leave_loop s t = Some (evs, t') \<Longrightarrow> log_in_memory msize evs"
proof -
  show close: "close_device t = (evs, t') \<Longrightarrow> log_in_memory msize evs" for t evs t'
    by (auto simp: close_device_def)
  show "open_signalFd cfg env t = (x, evs, t') \<Longrightarrow> log_in_memory msize evs"
    by (auto simp: open_signalFd_def split: if_splits sum.splits)
  show "open_device cfg env y t = (x, evs, t') \<Longrightarrow> log_in_memory msize evs"
    by (auto simp: open_device_def split: if_split_asm sum.split_asm option.split_asm)
  show "read_signal cfg env y t = (x, h, evs, t') \<Longrightarrow> log_in_memory msize evs"
    by (auto simp: read_signal_def split: if_split_asm sum.split_asm)
  show "wait_for_work env t = (evs, t') \<Longrightarrow> log_in_memory msize evs"
    by (auto simp: wait_for_work_def split: select_outcome.split_asm if_split_asm prod.split_asm dest: close)
  show "leave_loop s t = Some (evs, t') \<Longrightarrow> log_in_memory msize evs"
    by (auto simp: leave_loop_def split: prod.split_asm dest: close)
qed

lemma registers_in_memory:
  assumes "16 \<le> msize" "read_interrupt_flags cfg bus d = (fl, evs, d')"
  shows "log_in_memory msize evs"
proof -
  have "16 \<le> unat msize" using assms(1) by (simp add: word_le_nat_alt)
  then show ?thesis
    using assms(2) by (auto simp: read_interrupt_flags_def in_memory_def split: option.split_asm prod.split_asm)
qed

lemma process_request_in_memory:
  assumes "process_request cfg bus x r t d = Some (evs, t', d')"
    "in_memory msize (io_address r) (access_size (io_type r))"
  shows "log_in_memory msize evs"
  using assms quiet_parts(4)
  by (auto simp: process_request_def split: if_split_asm option.split_asm prod.split_asm)

lemma io_round_in_memory:
  assumes "io_round cfg bus env s t d = (p, evs, s', t', d')" "in_bounds msize s" "16 \<le> msize"
  shows "log_in_memory msize evs \<and> in_bounds msize s'"
proof -
  obtain x1 ev1 t1 where 1: "open_signalFd cfg env t = (x1, ev1, t1)" by (metis prod_cases3)
  obtain x2 ev2 t2 where 2: "open_device cfg env x1 t1 = (x2, ev2, t2)" by (metis prod_cases3)
  obtain x3 h ev3 t3 where 3: "read_signal cfg env x2 t2 = (x3, h, ev3, t3)" by (metis prod_cases4)
  note round = assms(1) [unfolded io_round_def 1 2 3 prod.case Let_def]
  note quiet = quiet_parts(1) [OF 1, of msize] quiet_parts(2) [OF 2, of msize] quiet_parts(3) [OF 3, of msize]
  show ?thesis
  proof (cases "shutdown s")
    case True
    then show ?thesis
      using round quiet assms(2) by (auto dest: quiet_parts(6) split: option.split_asm)
  next
    case running: False
    show ?thesis
    proof (cases h)
      case True
      obtain fl ev4 d4 where 4: "read_interrupt_flags cfg bus d = (fl, ev4, d4)" by (metis prod_cases3)
      obtain ev5 t5 where 5: "close_device t3 = (ev5, t5)" by (cases "close_device t3")
      show ?thesis
        using round True running quiet assms(2) registers_in_memory [OF assms(3) 4] quiet_parts(4) [OF 5, of msize] 4 5
        by (cases fl) auto
    next
      case False
      show ?thesis
      proof (cases "ioQueue s")
        case Nil
        then show ?thesis
          using round False running quiet assms(2) by (auto dest: quiet_parts(5) split: prod.split_asm)
      next
        case (Cons r rs)
        then have r: "in_memory msize (io_address r) (access_size (io_type r))" "in_bounds msize (s\<lparr>ioQueue := rs\<rparr>)"
          using assms(2) by (simp_all add: in_bounds_def)
        show ?thesis
          using round False running Cons quiet r process_request_in_memory
          by (cases "process_request cfg bus x3 r t3 d") auto
      qed
    qed
  qed
qed

definition bounded :: "u32 \<Rightarrow> 'd MmapSystem \<Rightarrow> bool" where
  "bounded msize m \<longleftrightarrow> in_bounds msize (ms_shared m) \<and> log_in_memory msize (ms_log m)"

lemma client_operation_bounded:
  assumes "client_operation f m = Some m'" "bounded msize m"
    and "\<And>ns w s'. f (ms_shared m) = Some (ns, w, s') \<Longrightarrow> in_bounds msize (ms_shared m) \<Longrightarrow> in_bounds msize s'"
  shows "bounded msize m'"
  using assms by (auto simp: client_operation_def bounded_def split: option.split_asm prod.split_asm)

lemma mmap_step_bounded:
  assumes "mmap_step cfg bus a m = Some m'" "bounded (mc_memorySize cfg) m" "16 \<le> mc_memorySize cfg"
  shows "bounded (mc_memorySize cfg) m'"
proof (cases a)
  case (Read16 x ad cb)
  then show ?thesis using assms by (auto intro: client_operation_bounded operations_in_bounds(1))
next
  case (Write16 x ad v cb)
  then show ?thesis using assms by (auto intro: client_operation_bounded operations_in_bounds(2))
next
  case (Read32 x ad cb)
  then show ?thesis using assms by (auto intro: client_operation_bounded operations_in_bounds(3))
next
  case (Write32 x ad v cb)
  then show ?thesis using assms by (auto intro: client_operation_bounded operations_in_bounds(4))
next
  case (AddListener alive l)
  then have "m' = m\<lparr>ms_shared := addInterruptListener alive l (ms_shared m)\<rparr>" using assms(1) by simp
  then show ?thesis using assms(2) by (simp add: bounded_def in_bounds_def addInterruptListener_def split: prod.split)
next
  case (RemoveListener alive l)
  then have "m' = m\<lparr>ms_shared := removeInterruptListener alive l (ms_shared m)\<rparr>" using assms(1) by simp
  then show ?thesis using assms(2) by (simp add: bounded_def in_bounds_def removeInterruptListener_def)
next
  case Shutdown
  then have "m' = m\<lparr>ms_shared := (ms_shared m)\<lparr>shutdown := True\<rparr>\<rparr>" using assms(1) by simp
  then show ?thesis using assms(2) by (simp add: bounded_def in_bounds_def)
next
  case (ThreadRound env)
  obtain p evs s t d where r: "io_round cfg bus env (ms_shared m) (ms_thread m) (ms_device m) = (p, evs, s, t, d)"
    by (metis prod_cases5)
  show ?thesis
    using assms r ThreadRound io_round_in_memory [OF r _ assms(3)]
    by (cases "ms_phase m = AtTop") (auto simp: bounded_def)
next
  case (ThreadNotify alive errno)
  show ?thesis
  proof (cases "ms_phase m")
    case (Notifying flags)
    obtain evs s t where n: "notify_listeners cfg alive errno flags (ms_shared m) (ms_thread m) = (evs, s, t)"
      by (metis prod_cases3)
    obtain ev5 t5 where 5: "close_device (ms_thread m) = (ev5, t5)" by (cases "close_device (ms_thread m)")
    have "log_in_memory msize evs \<and> ioQueue s = ioQueue (ms_shared m)" for msize
      using n quiet_parts(4) [OF 5, of msize] by (cases "flags = 0"; cases "enableInterrupt cfg errno")
        (auto simp: notify_listeners_def 5 Let_def)
    then show ?thesis using assms Notifying n ThreadNotify by (auto simp: bounded_def in_bounds_def)
  qed (use assms ThreadNotify in \<open>simp_all\<close>)
qed

text \<open>
  C19.
  With a memory of at least 16 bytes (the handling of interrupts uses the registers at 8 and at 12), each
  access to the mapped memory of the device is aligned to its size and lies within the memory.
\<close>

theorem mmap_accesses_in_bounds:
  assumes "16 \<le> mc_memorySize cfg" "mmap_run cfg bus as (new_MrfMmapMemoryAccess d) = Some m"
  shows "\<forall>a n. Access a n \<in> set (ms_log m) \<longrightarrow> unat a + n \<le> unat (mc_memorySize cfg) \<and> n dvd unat a"
proof -
  have "bounded (mc_memorySize cfg) m'" if "mmap_run cfg bus as m0 = Some m'" "bounded (mc_memorySize cfg) m0" for m0 m'
    using that
  proof (induction as arbitrary: m0)
    case (Cons a as)
    then obtain m1 where "mmap_step cfg bus a m0 = Some m1" "mmap_run cfg bus as m1 = Some m'"
      by (auto split: option.split_asm)
    with Cons show ?case using mmap_step_bounded [OF _ _ assms(1)] by blast
  qed simp
  moreover have "bounded (mc_memorySize cfg) (new_MrfMmapMemoryAccess d)"
    by (simp add: bounded_def new_MrfMmapMemoryAccess_def in_bounds_def)
  ultimately have "log_in_memory (mc_memorySize cfg) (ms_log m)" using assms(2) by (auto simp: bounded_def)
  then show ?thesis by (auto simp: log_in_memory_def list_all_iff in_memory_def split: io_event.split_asm)
qed

lemma mmap_accesses_in_bounds_witness:
  "(case mmap_run demo_config dead_bus [Read32 None 60 (Some 1), ThreadRound (demo_env True), ThreadRound (demo_env False)]
       (new_MrfMmapMemoryAccess ()) of
     None \<Rightarrow> False
   | Some m \<Rightarrow> Access 60 4 \<in> set (ms_log m) \<and> unat (60 :: u32) + 4 \<le> unat (mc_memorySize demo_config))"
proof -
  define as where "as = [Read32 None 60 (Some 1), ThreadRound (demo_env True), ThreadRound (demo_env False)]"
  obtain m where m: "mmap_run demo_config dead_bus as (new_MrfMmapMemoryAccess ()) = Some m" "Access 60 4 \<in> set (ms_log m)"
  proof -
    have "map_option (\<lambda>m. list_ex (\<lambda>e. e = Access 60 4) (ms_log m))
        (mmap_run demo_config dead_bus as (new_MrfMmapMemoryAccess ())) = Some True"
      unfolding as_def by code_simp
    then show thesis using that by (auto simp: list_ex_iff)
  qed
  have "16 \<le> mc_memorySize demo_config" by (simp add: demo_config_def)
  from mmap_accesses_in_bounds [OF this m(1)] m(2)
  have "unat (60 :: u32) + 4 \<le> unat (mc_memorySize demo_config)" by blast
  with m(2) show ?thesis unfolding as_def [symmetric] m(1) option.case by blast
qed

section \<open>Values\<close>

text \<open>A device that is plain memory, seen by a host of either byte order.\<close>

definition ram_bytes :: "nat \<Rightarrow> u32 \<Rightarrow> (u32 \<Rightarrow> u8) \<Rightarrow> u8 list" where
  "ram_bytes n a d = map (\<lambda>i. d (a + of_nat i)) [0..<n]"

definition ram_store :: "u32 \<Rightarrow> u8 list \<Rightarrow> (u32 \<Rightarrow> u8) \<Rightarrow> (u32 \<Rightarrow> u8)" where
  "ram_store a bs d = (\<lambda>x. if unat (x - a) < length bs then bs ! unat (x - a) else d x)"

definition ram_bus :: "byte_order \<Rightarrow> (u32 \<Rightarrow> u8) Bus" where
  "ram_bus bo = \<lparr>bus_read16 = (\<lambda>a d. (Some (of_mem_bytes16 bo (ram_bytes 2 a d)), d)),
     bus_read32 = (\<lambda>a d. (Some (of_mem_bytes32 bo (ram_bytes 4 a d)), d)),
     bus_write16 = (\<lambda>a w d. (True, ram_store a (mem_bytes16 bo w) d)),
     bus_write32 = (\<lambda>a w d. (True, ram_store a (mem_bytes32 bo w) d))\<rparr>"

lemma ram_bytes_store:
  assumes "length bs \<le> 4"
  shows "ram_bytes (length bs) a (ram_store a bs d) = bs"
proof (rule nth_equalityI)
  fix i assume "i < length (ram_bytes (length bs) a (ram_store a bs d))"
  then have i: "i < length bs" by (simp add: ram_bytes_def)
  then have "i = 0 \<or> i = 1 \<or> i = 2 \<or> i = 3" using assms by linarith
  then have "unat (of_nat i :: u32) = i" by auto
  then show "ram_bytes (length bs) a (ram_store a bs d) ! i = bs ! i"
    using i by (simp add: ram_bytes_def ram_store_def)
qed (simp add: ram_bytes_def)

lemma ram_bytes_store_eq [simp]:
  "ram_bytes 2 a (ram_store a (mem_bytes16 bo w) d) = mem_bytes16 bo w"
  "ram_bytes 4 a (ram_store a (mem_bytes32 bo v) d) = mem_bytes32 bo v"
  using ram_bytes_store [of "mem_bytes16 bo w" a d] ram_bytes_store [of "mem_bytes32 bo v" a d] by simp_all

text \<open>
  On a host of either byte order, a request to write puts the value into the memory of the device with
  the most significant byte first and changes no other byte, and notifies the value; a request to read
  notifies it again.
\<close>

lemma mmap_writes_big_endian:
  "let bus = ram_bus (mc_byteOrder cfg); t = t0\<lparr>deviceMemory := True\<rparr>;
       d16 = ram_store a (be_bytes16 v16) d; d32 = ram_store a (be_bytes32 v32) d
   in process_request cfg bus x (MrfIoRequest16 t_writeUInt16 a v16 (Some f)) t d
        = Some ([Access a 2, Notified (Notify16 f (Success a v16))], t, d16)
    \<and> process_request cfg bus x (MrfIoRequest16 t_readUInt16 a 0 (Some f)) t d16
        = Some ([Access a 2, Notified (Notify16 f (Success a v16))], t, d16)
    \<and> process_request cfg bus x (MrfIoRequest32 t_writeUInt32 a v32 (Some f)) t d
        = Some ([Access a 4, Notified (Notify32 f (Success a v32))], t, d32)
    \<and> process_request cfg bus x (MrfIoRequest32 t_readUInt32 a 0 (Some f)) t d32
        = Some ([Access a 4, Notified (Notify32 f (Success a v32))], t, d32)"
proof -
  let ?bo = "mc_byteOrder cfg"
  have be: "be_bytes16 v16 = mem_bytes16 ?bo (htons ?bo v16)" "be_bytes32 v32 = mem_bytes32 ?bo (htonl ?bo v32)"
    by (simp_all add: byte_order_simps)
  show ?thesis
    unfolding be Let_def
    by (simp add: process_request_def do_io_def MrfIoRequest16_def MrfIoRequest32_def ioWriteReadUInt16_def
        ioWriteReadUInt32_def ioReadUInt16_def ioReadUInt32_def ram_bus_def request_success_def notify16_def notify32_def)
qed

end
