(* ===== verification/RecordProcessing.thy ===== *)
theory RecordProcessing
  imports RecordAddress
begin

text \<open>
  The device support of the records that stand for a register
  (\<^verbatim>\<open>mrfApp/mrfEpicsSrc/MrfRecord.h\<close>, \<^verbatim>\<open>MrfInputRecord.h\<close>, \<^verbatim>\<open>MrfOutputRecord.h\<close> and the classes for
  the types of records), with the cache and the registry of devices they use (\<^verbatim>\<open>MrfMemoryCache\<close>,
  \<^verbatim>\<open>MrfDeviceRegistry\<close>) and the functions EPICS calls (\<^verbatim>\<open>mrfRecordDefinitions.cpp\<close>). Calls of functions
  of EPICS are results.
\<close>

section \<open>The cache\<close>

record MrfMemoryCache =
  cacheUInt16 :: "u32 \<Rightarrow> u16 option"
  cacheUInt32 :: "u32 \<Rightarrow> u32 option"

definition new_MrfMemoryCache :: MrfMemoryCache where
  "new_MrfMemoryCache = \<lparr>cacheUInt16 = (\<lambda>_. None), cacheUInt32 = (\<lambda>_. None)\<rparr>"

text \<open>
  A read looks into the map, reads from the device without the mutex, and then adds what it has read
  if no other thread has in the meantime: \<open>interfere\<close> is what other threads do to the cache, \<open>dev\<close> the
  result of the blocking read, an exception or a value.
\<close>

definition cache_readUInt16 ::
    "(MrfMemoryCache \<Rightarrow> MrfMemoryCache) \<Rightarrow> (u32 \<Rightarrow> string + u16) \<Rightarrow> u32 \<Rightarrow> MrfMemoryCache
      \<Rightarrow> (string + u16) \<times> MrfMemoryCache" where
  "cache_readUInt16 interfere dev address c = (case cacheUInt16 c address of
     Some v \<Rightarrow> (Inr v, c)
   | None \<Rightarrow>
       let c' = interfere c
       in (case dev address of
            Inl e \<Rightarrow> (Inl e, c')
          | Inr v \<Rightarrow> (case cacheUInt16 c' address of
              Some v' \<Rightarrow> (Inr v', c')
            | None \<Rightarrow> (Inr v, c'\<lparr>cacheUInt16 := (cacheUInt16 c')(address \<mapsto> v)\<rparr>))))"

definition cache_readUInt32 ::
    "(MrfMemoryCache \<Rightarrow> MrfMemoryCache) \<Rightarrow> (u32 \<Rightarrow> string + u32) \<Rightarrow> u32 \<Rightarrow> MrfMemoryCache
      \<Rightarrow> (string + u32) \<times> MrfMemoryCache" where
  "cache_readUInt32 interfere dev address c = (case cacheUInt32 c address of
     Some v \<Rightarrow> (Inr v, c)
   | None \<Rightarrow>
       let c' = interfere c
       in (case dev address of
            Inl e \<Rightarrow> (Inl e, c')
          | Inr v \<Rightarrow> (case cacheUInt32 c' address of
              Some v' \<Rightarrow> (Inr v', c')
            | None \<Rightarrow> (Inr v, c'\<lparr>cacheUInt32 := (cacheUInt32 c')(address \<mapsto> v)\<rparr>))))"

definition tryCacheUInt16 ::
    "(MrfMemoryCache \<Rightarrow> MrfMemoryCache) \<Rightarrow> (u32 \<Rightarrow> string + u16) \<Rightarrow> u32 \<Rightarrow> MrfMemoryCache \<Rightarrow> MrfMemoryCache" where
  "tryCacheUInt16 interfere dev address c = snd (cache_readUInt16 interfere dev address c)"

definition tryCacheUInt32 ::
    "(MrfMemoryCache \<Rightarrow> MrfMemoryCache) \<Rightarrow> (u32 \<Rightarrow> string + u32) \<Rightarrow> u32 \<Rightarrow> MrfMemoryCache \<Rightarrow> MrfMemoryCache" where
  "tryCacheUInt32 interfere dev address c = snd (cache_readUInt32 interfere dev address c)"

definition getCacheUInt16 :: "MrfMemoryCache \<Rightarrow> u32 \<Rightarrow> u16 option" where
  "getCacheUInt16 c = cacheUInt16 c"

definition getCacheUInt32 :: "MrfMemoryCache \<Rightarrow> u32 \<Rightarrow> u32 option" where
  "getCacheUInt32 c = cacheUInt32 c"

text \<open>
  Whatever other threads add, all reads of an address that succeed give the same value: once a value is
  in the cache, no read changes it.
\<close>

definition cache_grows :: "MrfMemoryCache \<Rightarrow> MrfMemoryCache \<Rightarrow> bool" where
  "cache_grows c c' \<longleftrightarrow> cacheUInt16 c \<subseteq>\<^sub>m cacheUInt16 c' \<and> cacheUInt32 c \<subseteq>\<^sub>m cacheUInt32 c'"

lemma cache_readUInt16_agrees:
  assumes "\<And>c. cache_grows c (interfere c)" "cache_readUInt16 interfere dev a c = (r, c')"
  shows "cache_grows c c' \<and> (\<forall>v. r = Inr v \<longrightarrow> cacheUInt16 c' a = Some v)"
  using assms(1) [of c] assms(2)
  by (auto simp: cache_readUInt16_def cache_grows_def map_le_def dom_def Let_def split: option.split_asm sum.split_asm)

lemma cache_readUInt32_agrees:
  assumes "\<And>c. cache_grows c (interfere c)" "cache_readUInt32 interfere dev a c = (r, c')"
  shows "cache_grows c c' \<and> (\<forall>v. r = Inr v \<longrightarrow> cacheUInt32 c' a = Some v)"
  using assms(1) [of c] assms(2)
  by (auto simp: cache_readUInt32_def cache_grows_def map_le_def dom_def Let_def split: option.split_asm sum.split_asm)

section \<open>The registry\<close>

text \<open>A device is known by a number.\<close>

record MrfDeviceRegistry =
  devices :: "string \<Rightarrow> nat option"
  caches :: "string \<Rightarrow> MrfMemoryCache option"

definition new_MrfDeviceRegistry :: MrfDeviceRegistry where
  "new_MrfDeviceRegistry = \<lparr>devices = (\<lambda>_. None), caches = (\<lambda>_. None)\<rparr>"

definition getDevice :: "string \<Rightarrow> MrfDeviceRegistry \<Rightarrow> nat option" where
  "getDevice deviceId g = devices g deviceId"

definition getDeviceCache :: "string \<Rightarrow> MrfDeviceRegistry \<Rightarrow> MrfMemoryCache option" where
  "getDeviceCache deviceId g = caches g deviceId"

definition registerDevice :: "string \<Rightarrow> nat \<Rightarrow> MrfDeviceRegistry \<Rightarrow> exn + MrfDeviceRegistry" where
  "registerDevice deviceId device g =
     (if devices g deviceId \<noteq> None then Inl (RuntimeError ''Device ID is already in use.'')
      else Inr (g\<lparr>devices := (devices g)(deviceId \<mapsto> device),
        caches := (caches g)(deviceId := (case caches g deviceId of
          None \<Rightarrow> Some new_MrfMemoryCache | Some c \<Rightarrow> Some c))\<rparr>))"

text \<open>Each device has a cache: what \<^verbatim>\<open>initializeValue\<close> relies on.\<close>

definition registry_ok :: "MrfDeviceRegistry \<Rightarrow> bool" where
  "registry_ok g \<longleftrightarrow> dom (devices g) = dom (caches g)"

lemma registry_keeps_caches:
  "registry_ok new_MrfDeviceRegistry"
  "registry_ok g \<Longrightarrow> registerDevice i d g = Inr g' \<Longrightarrow>
     registry_ok g' \<and> getDevice i g' = Some d \<and> getDeviceCache i g' = Some new_MrfMemoryCache
       \<and> (\<forall>j. j \<noteq> i \<longrightarrow> getDevice j g' = getDevice j g)"
  "registerDevice i d g = Inr g' \<Longrightarrow> registerDevice i e g' = Inl (RuntimeError ''Device ID is already in use.'')"
proof -
  show "registry_ok new_MrfDeviceRegistry" by (simp add: registry_ok_def new_MrfDeviceRegistry_def)
  show "registry_ok g'
       \<and> getDevice i g' = Some d \<and> getDeviceCache i g' = Some new_MrfMemoryCache
       \<and> (\<forall>j. j \<noteq> i \<longrightarrow> getDevice j g' = getDevice j g)"
    if ok: "registry_ok g" and r: "registerDevice i d g = Inr g'"
  proof -
    have free: "devices g i = None" using r by (auto simp: registerDevice_def split: if_split_asm)
    then have "caches g i = None" using ok by (metis domIff registry_ok_def)
    then have g': "g' = g\<lparr>devices := (devices g)(i \<mapsto> d), caches := (caches g)(i \<mapsto> new_MrfMemoryCache)\<rparr>"
      using r free by (simp add: registerDevice_def)
    then show ?thesis using ok by (auto simp: registry_ok_def getDevice_def getDeviceCache_def)
  qed
  show "registerDevice i d g = Inr g' \<Longrightarrow> registerDevice i e g' = Inl (RuntimeError ''Device ID is already in use.'')"
    by (auto simp: registerDevice_def split: if_split_asm)
qed

section \<open>Records\<close>

text \<open>The fields of a record that the code uses, and the functions of EPICS it calls.\<close>

record dbRecord =
  rec_pact :: bool
  rec_udf :: bool
  rec_rval :: u32
  rec_val :: u32

datatype alarm_status = READ_ALARM | WRITE_ALARM | SOFT_ALARM

text \<open>\<open>SetInvalid\<close> is \<^verbatim>\<open>recGblSetSevr\<close> with \<^verbatim>\<open>INVALID_ALARM\<close>, \<open>PrintError\<close> is \<^verbatim>\<open>errorExtendedPrintf\<close>.\<close>

datatype epics_call = SetInvalid alarm_status | PrintError string | GetTimeStamp | ResetAlarms
  | ScheduleProcessing | ScanIoRequest | ScanIoInit

text \<open>
  An address field: whether its type is \<^verbatim>\<open>INST_IO\<close>, and its string, \<open>None\<close> for a null pointer.
\<close>

definition readRecordAddress :: "bool \<Rightarrow> string option \<Rightarrow> exn + MrfRecordAddress" where
  "readRecordAddress instIo text = (if \<not> instIo then Inl invalid_device_address
     else new_MrfRecordAddress (case text of None \<Rightarrow> [] | Some s \<Rightarrow> s))"

record MrfRecord =
  mr_address :: MrfRecordAddress
  mr_device :: nat
  mr_mask :: u32

text \<open>One round of the loop of the constructor, and the rounds from \<open>n - 1\<close> down to 0.\<close>

definition mask_round :: "int \<Rightarrow> int \<Rightarrow> int \<Rightarrow> u32 \<Rightarrow> u32" where
  "mask_round highestBit lowestBit i m =
     (let m' = push_bit 1 m
      in if i \<le> highestBit \<and> i \<ge> lowestBit then m' OR 1 else m' AND NOT 1)"

fun mask_loop :: "nat \<Rightarrow> int \<Rightarrow> int \<Rightarrow> u32 \<Rightarrow> u32" where
  "mask_loop 0 highestBit lowestBit m = m"
| "mask_loop (Suc i) highestBit lowestBit m =
     mask_loop i highestBit lowestBit (mask_round highestBit lowestBit (int i) m)"

text \<open>The constructor; \<open>raw\<close> is what the memory of the member \<open>mask\<close> held.\<close>

definition new_MrfRecord :: "MrfDeviceRegistry \<Rightarrow> bool \<Rightarrow> string option \<Rightarrow> u32 \<Rightarrow> exn + MrfRecord" where
  "new_MrfRecord g instIo text raw = (case readRecordAddress instIo text of
     Inl e \<Rightarrow> Inl e
   | Inr address \<Rightarrow> (case getDevice (ra_deviceId address) g of
       None \<Rightarrow> Inl (RuntimeError (''Could not find device '' @ ra_deviceId address @ ''.''))
     | Some d \<Rightarrow> Inr \<lparr>mr_address = address, mr_device = d,
         mr_mask = mask_loop 32 (ra_highestBit address) (ra_lowestBit address) raw\<rparr>))"

definition convertFromDevice :: "MrfRecord \<Rightarrow> u32 \<Rightarrow> u32" where
  "convertFromDevice m v = drop_bit (nat (ra_lowestBit (mr_address m))) (v AND mr_mask m)"

definition convertToDevice :: "MrfRecord \<Rightarrow> u32 \<Rightarrow> u32" where
  "convertToDevice m v = push_bit (nat (ra_lowestBit (mr_address m))) v AND mr_mask m"

text \<open>An operation of the device; the last one of a masked write is the mask.\<close>

datatype device_op = ReadUInt16 u32 | ReadUInt32 u32 | WriteUInt16 u32 u16 | WriteUInt32 u32 u32
  | MaskedWriteUInt16 u32 u16 u16 | MaskedWriteUInt32 u32 u32 u32

text \<open>
  \<^verbatim>\<open>processRecord\<close>: \<open>prepare\<close> and \<open>complete\<close> are the virtual methods, which give the exception they throw
  or the operation they start, the calls they make, and the new state.
\<close>

definition processRecord ::
    "('s \<Rightarrow> dbRecord \<Rightarrow> (exn + device_op) \<times> 's) \<Rightarrow> ('s \<Rightarrow> dbRecord \<Rightarrow> exn option \<times> epics_call list \<times> dbRecord)
      \<Rightarrow> 's \<Rightarrow> dbRecord \<Rightarrow> exn option \<times> epics_call list \<times> device_op option \<times> 's \<times> dbRecord" where
  "processRecord prepare complete s r =
     (if rec_pact r then
        (case complete s (r\<lparr>rec_pact := False\<rparr>) of (e, calls, r') \<Rightarrow> (e, calls, None, s, r'))
      else (case prepare s r of
          (Inl e, s') \<Rightarrow> (Some e, [], None, s', r)
        | (Inr operation, s') \<Rightarrow> (None, [], Some operation, s', r\<lparr>rec_pact := True\<rparr>)))"

section \<open>Input records\<close>

record MrfInputRecord = MrfRecord +
  readSuccessful :: bool
  readValue :: u32
  readErrorMessage :: string

definition new_MrfInputRecord :: "MrfDeviceRegistry \<Rightarrow> bool \<Rightarrow> string option \<Rightarrow> u32 \<Rightarrow> exn + MrfInputRecord" where
  "new_MrfInputRecord g instIo text raw = (case new_MrfRecord g instIo text raw of
     Inl e \<Rightarrow> Inl e
   | Inr m \<Rightarrow> Inr (MrfRecord.extend m \<lparr>readSuccessful = False, readValue = 0, readErrorMessage = []\<rparr>))"

text \<open>\<open>throws\<close> is an exception of the device when it is asked to start the operation.\<close>

definition input_processPrepare ::
    "exn option \<Rightarrow> MrfInputRecord \<Rightarrow> dbRecord \<Rightarrow> (exn + device_op) \<times> MrfInputRecord" where
  "input_processPrepare throws s r = (case throws of
     Some e \<Rightarrow> (Inl e, s)
   | None \<Rightarrow> (Inr (case ra_dataType (mr_address s) of
       uInt16 \<Rightarrow> ReadUInt16 (ra_address (mr_address s))
     | uInt32 \<Rightarrow> ReadUInt32 (ra_address (mr_address s))), s))"

definition input_processComplete ::
    "(u32 \<Rightarrow> dbRecord \<Rightarrow> dbRecord) \<Rightarrow> MrfInputRecord \<Rightarrow> dbRecord \<Rightarrow> exn option \<times> epics_call list \<times> dbRecord" where
  "input_processComplete writeRecordValue s r =
     (if readSuccessful s
      then (None, [], writeRecordValue (convertFromDevice (MrfRecord.truncate s) (readValue s)) r)
      else (Some (RuntimeError (readErrorMessage s)), [SetInvalid READ_ALARM], r))"

definition input_success :: "u32 \<Rightarrow> MrfInputRecord \<Rightarrow> epics_call list \<times> MrfInputRecord" where
  "input_success v s = ([ScheduleProcessing], s\<lparr>readSuccessful := True, readValue := v\<rparr>)"

definition input_failure :: "u32 \<Rightarrow> ErrorCode \<Rightarrow> string \<Rightarrow> MrfInputRecord \<Rightarrow> epics_call list \<times> MrfInputRecord" where
  "input_failure address errorCode details s = ([ScheduleProcessing], s\<lparr>readSuccessful := False,
     readErrorMessage := ''Error reading from address '' @ mrfMemoryAddressToString address @ '': ''
       @ failure_text errorCode details\<rparr>)"

section \<open>Output records\<close>

record MrfOutputRecord = MrfRecord +
  writeSuccessful :: bool
  writeRequestValue :: u32
  writeReplyValue :: u32
  writeErrorMessage :: string

definition new_MrfOutputRecord :: "MrfDeviceRegistry \<Rightarrow> bool \<Rightarrow> string option \<Rightarrow> u32 \<Rightarrow> exn + MrfOutputRecord" where
  "new_MrfOutputRecord g instIo text raw = (case new_MrfRecord g instIo text raw of
     Inl e \<Rightarrow> Inl e
   | Inr m \<Rightarrow> Inr (MrfRecord.extend m
       \<lparr>writeSuccessful = False, writeRequestValue = 0, writeReplyValue = 0, writeErrorMessage = []\<rparr>))"

text \<open>\<open>dev16\<close> and \<open>dev32\<close> are the blocking reads of the device that the cache makes.\<close>

definition initializeValue ::
    "(u32 \<Rightarrow> dbRecord \<Rightarrow> dbRecord) \<Rightarrow> (u32 \<Rightarrow> string + u16) \<Rightarrow> (u32 \<Rightarrow> string + u32) \<Rightarrow> string
      \<Rightarrow> MrfOutputRecord \<Rightarrow> dbRecord \<Rightarrow> MrfDeviceRegistry \<Rightarrow> epics_call list \<times> dbRecord \<times> MrfDeviceRegistry" where
  "initializeValue writeRecordValue dev16 dev32 name s r g =
     (let address = mr_address s; i = ra_deviceId address;
          failed = (\<lambda>what g. ([PrintError (name @ '' Reading initial value from device failed: '' @ what)], r, g));
          initialized = (\<lambda>v g. ([GetTimeStamp, ResetAlarms],
            (writeRecordValue (convertFromDevice (MrfRecord.truncate s) v) r)\<lparr>rec_udf := False\<rparr>, g))
      in if ra_readOnInit address then
           (case getDeviceCache i g of
              None \<Rightarrow> failed (''Could not find cache for device '' @ i @ ''.'') g
            | Some c \<Rightarrow> (case ra_dataType address of
                uInt16 \<Rightarrow> (case cache_readUInt16 id dev16 (ra_address address) c of
                    (Inl e, c') \<Rightarrow> failed e (g\<lparr>caches := (caches g)(i \<mapsto> c')\<rparr>)
                  | (Inr v, c') \<Rightarrow> initialized (ucast v) (g\<lparr>caches := (caches g)(i \<mapsto> c')\<rparr>))
              | uInt32 \<Rightarrow> (case cache_readUInt32 id dev32 (ra_address address) c of
                    (Inl e, c') \<Rightarrow> failed e (g\<lparr>caches := (caches g)(i \<mapsto> c')\<rparr>)
                  | (Inr v, c') \<Rightarrow> initialized v (g\<lparr>caches := (caches g)(i \<mapsto> c')\<rparr>))))
         else ([], r, g))"

definition output_operation :: "MrfOutputRecord \<Rightarrow> device_op" where
  "output_operation s =
     (let address = mr_address s; v = writeRequestValue s; m = mr_mask s
      in case ra_dataType address of
           uInt16 \<Rightarrow>
             if ra_zeroOtherBits address \<or> m = 0xffff then WriteUInt16 (ra_address address) (ucast v)
             else MaskedWriteUInt16 (ra_address address) (ucast v) (ucast m)
         | uInt32 \<Rightarrow>
             if ra_zeroOtherBits address \<or> m = 0xffffffff then WriteUInt32 (ra_address address) v
             else MaskedWriteUInt32 (ra_address address) v m)"

definition output_processPrepare ::
    "(dbRecord \<Rightarrow> u32) \<Rightarrow> exn option \<Rightarrow> MrfOutputRecord \<Rightarrow> dbRecord \<Rightarrow> (exn + device_op) \<times> MrfOutputRecord" where
  "output_processPrepare readRecordValue throws s r =
     (let s' = s\<lparr>writeRequestValue := convertToDevice (MrfRecord.truncate s) (readRecordValue r)\<rparr>
      in (case throws of Some e \<Rightarrow> Inl e | None \<Rightarrow> Inr (output_operation s'), s'))"

definition output_processComplete ::
    "MrfOutputRecord \<Rightarrow> dbRecord \<Rightarrow> exn option \<times> epics_call list \<times> dbRecord" where
  "output_processComplete s r =
     (if writeSuccessful s then
        (if ra_verify (mr_address s) \<and> writeReplyValue s AND mr_mask s \<noteq> writeRequestValue s AND mr_mask s
         then (Some (RuntimeError ''Mismatch between the value written to the device and the value read back from the device.''),
               [SetInvalid WRITE_ALARM], r)
         else (None, [], r))
      else (Some (RuntimeError (writeErrorMessage s)), [SetInvalid WRITE_ALARM], r))"

definition output_success :: "u32 \<Rightarrow> MrfOutputRecord \<Rightarrow> epics_call list \<times> MrfOutputRecord" where
  "output_success v s = ([ScheduleProcessing], s\<lparr>writeSuccessful := True, writeReplyValue := v\<rparr>)"

definition output_failure :: "u32 \<Rightarrow> ErrorCode \<Rightarrow> string \<Rightarrow> MrfOutputRecord \<Rightarrow> epics_call list \<times> MrfOutputRecord" where
  "output_failure address errorCode details s = ([ScheduleProcessing], s\<lparr>writeSuccessful := False,
     writeErrorMessage := ''Error writing to address '' @ mrfMemoryAddressToString address @ '': ''
       @ failure_text errorCode details\<rparr>)"

section \<open>The types of records\<close>

text \<open>
  How a class reads and writes the value of its record: \<^verbatim>\<open>MrfGenericRvalInputRecord\<close> and
  \<^verbatim>\<open>MrfGenericRvalOutputRecord\<close> (ai, ao, mbbi, mbbo and their direct variants), bi, bo, longin, longout.
\<close>

definition GenericRval_writeRecordValue :: "u32 \<Rightarrow> dbRecord \<Rightarrow> dbRecord" where
  "GenericRval_writeRecordValue v r = r\<lparr>rec_rval := v\<rparr>"

definition GenericRval_readRecordValue :: "dbRecord \<Rightarrow> u32" where
  "GenericRval_readRecordValue r = rec_rval r"

definition Bi_writeRecordValue :: "u32 \<Rightarrow> dbRecord \<Rightarrow> dbRecord" where
  "Bi_writeRecordValue v r = r\<lparr>rec_rval := (if v \<noteq> 0 then 1 else 0)\<rparr>"

definition Bo_writeRecordValue :: "u32 \<Rightarrow> dbRecord \<Rightarrow> dbRecord" where
  "Bo_writeRecordValue v r = r\<lparr>rec_rval := (if v \<noteq> 0 then 1 else 0)\<rparr>"

definition Bo_readRecordValue :: "dbRecord \<Rightarrow> u32" where
  "Bo_readRecordValue r = (if rec_rval r \<noteq> 0 then 1 else 0)"

definition Longin_writeRecordValue :: "u32 \<Rightarrow> dbRecord \<Rightarrow> dbRecord" where
  "Longin_writeRecordValue v r = r\<lparr>rec_val := v\<rparr>"

definition Longout_writeRecordValue :: "u32 \<Rightarrow> dbRecord \<Rightarrow> dbRecord" where
  "Longout_writeRecordValue v r = r\<lparr>rec_val := v\<rparr>"

definition Longout_readRecordValue :: "dbRecord \<Rightarrow> u32" where
  "Longout_readRecordValue r = rec_val r"

section \<open>The functions that EPICS calls\<close>

text \<open>
  \<open>record\<close> and \<open>dpvt\<close> are \<open>None\<close> for null pointers; an exception is the text of \<^verbatim>\<open>what()\<close>, or \<open>None\<close>
  for one of another class. The result is the returned number, the calls, and the new \<open>dpvt\<close>.
\<close>

definition what :: "exn \<Rightarrow> string" where
  "what e = (case e of InvalidArgument t \<Rightarrow> t | RuntimeError t \<Rightarrow> t)"

definition initRecord ::
    "string option \<Rightarrow> string option + 's \<Rightarrow> int \<times> epics_call list \<times> 's option" where
  "initRecord name constructed = (case name of
     None \<Rightarrow> (-1, [PrintError ''Record initialization failed: Pointer to record structure is null.''], None)
   | Some n \<Rightarrow> (case constructed of
       Inr s \<Rightarrow> (0, [], Some s)
     | Inl (Some t) \<Rightarrow> (-1, [PrintError (n @ '' Record initialization failed: '' @ t)], None)
     | Inl None \<Rightarrow> (-1, [PrintError (n @ '' Record initialization failed: Unknown error.'')], None)))"

definition call_processRecord ::
    "string option \<Rightarrow> 's option \<Rightarrow> ('s \<Rightarrow> string option option \<times> epics_call list \<times> 't) \<Rightarrow> int \<times> epics_call list \<times> 't option" where
  "call_processRecord name dpvt process = (case name of
     None \<Rightarrow> (-1, [PrintError ''Record processing failed: Pointer to record structure is null.''], None)
   | Some n \<Rightarrow> (case dpvt of
       None \<Rightarrow> (-1, [PrintError (n @ '' Record processing failed: Pointer to device support data structure is null.''),
         SetInvalid SOFT_ALARM], None)
     | Some s \<Rightarrow> (case process s of
         (None, calls, t) \<Rightarrow> (0, calls, Some t)
       | (Some (Some e), calls, t) \<Rightarrow>
           (-1, calls @ [PrintError (n @ '' Record processing failed: '' @ e), SetInvalid SOFT_ALARM], Some t)
       | (Some None, calls, t) \<Rightarrow>
           (-1, calls @ [PrintError (n @ '' Record processing failed: Unknown error.''), SetInvalid SOFT_ALARM], Some t))))"

end
