(* ===== verification/RecordProcessing_Props.thy ===== *)
theory RecordProcessing_Props
  imports RecordProcessing RecordAddress_Props
begin

text \<open>
  Properties of the records that stand for a register: the mask of a record, what an output record writes
  and an input record reads, and how a record completes.
\<close>

section \<open>The mask\<close>

lemma mask_loop_bit:
  "bit (mask_loop i h l m) n \<longleftrightarrow> n < 32 \<and> (if n < i then l \<le> int n \<and> int n \<le> h else bit m (n - i))"
proof (induction i arbitrary: m)
  case 0
  then show ?case by (auto dest: bit_imp_le_length)
next
  case (Suc i)
  have "bit (mask_round h l (int i) m) k \<longleftrightarrow>
      k < 32 \<and> (if k = 0 then l \<le> int i \<and> int i \<le> h else bit m (k - 1))" for k
  proof -
    define m' where "m' = push_bit 1 m"
    have m': "bit m' k \<longleftrightarrow> 1 \<le> k \<and> k < 32 \<and> bit m (k - 1)"
      unfolding m'_def bit_push_bit_iff by (auto simp: possible_bit_word)
    have round: "mask_round h l (int i) m = (if int i \<le> h \<and> int i \<ge> l then m' OR 1 else m' AND NOT 1)"
      by (simp only: mask_round_def m'_def Let_def)
    have one: "bit (1 :: u32) k \<longleftrightarrow> k = 0" by (simp add: bit_1_iff)
    show ?thesis
      unfolding round by (auto simp: bit_or_iff bit_and_iff bit_not_iff m' one possible_bit_word)
  qed
  with Suc show ?case by (auto simp: less_Suc_eq)
qed

lemma mask_bits: "bit (mask_loop 32 h l raw) n \<longleftrightarrow> n < 32 \<and> l \<le> int n \<and> int n \<le> h"
  by (simp add: mask_loop_bit)

section \<open>A register\<close>

text \<open>
  What an operation makes of a register of 16 bits (the upper half of the word is not used) or of 32
  bits, as the interface of the device promises; a device notifies the value of the register.
\<close>

fun device_step :: "device_op \<Rightarrow> u32 \<Rightarrow> u32" where
  "device_step (ReadUInt16 a) w = ucast (ucast w :: u16)"
| "device_step (ReadUInt32 a) w = w"
| "device_step (WriteUInt16 a v) w = ucast v"
| "device_step (WriteUInt32 a v) w = v"
| "device_step (MaskedWriteUInt16 a v m) w = ucast (masked_update v m (ucast w))"
| "device_step (MaskedWriteUInt32 a v m) w = masked_update v m w"

lemma new_MrfRecord_facts:
  assumes "new_MrfRecord g instIo text raw = Inr m"
  shows "wf_address (mr_address m)"
    "bit (mr_mask m) n \<longleftrightarrow> n < 32 \<and> ra_lowestBit (mr_address m) \<le> int n \<and> int n \<le> ra_highestBit (mr_address m)"
proof -
  obtain a where a: "readRecordAddress instIo text = Inr a" "mr_address m = a"
    "mr_mask m = mask_loop 32 (ra_highestBit a) (ra_lowestBit a) raw"
    using assms by (auto simp: new_MrfRecord_def split: sum.split_asm option.split_asm)
  then show "wf_address (mr_address m)"
    using new_address_wf by (auto simp: readRecordAddress_def split: if_split_asm)
  show "bit (mr_mask m) n \<longleftrightarrow> n < 32 \<and> ra_lowestBit (mr_address m) \<le> int n \<and> int n \<le> ra_highestBit (mr_address m)"
    by (simp add: a mask_bits)
qed

lemma output_operation_bits:
  fixes v :: u32
  assumes m: "new_MrfRecord g instIo text raw = Inr (MrfRecord.truncate s)"
    and request: "writeRequestValue s = convertToDevice (MrfRecord.truncate s) v"
    and n: "int n \<le> maxBitIndex (ra_dataType (mr_address s))"
  defines "low \<equiv> ra_lowestBit (mr_address s)" and "high \<equiv> ra_highestBit (mr_address s)"
  shows "bit (device_step (output_operation s) w) n \<longleftrightarrow>
    (if low \<le> int n \<and> int n \<le> high then bit v (n - nat low) else \<not> ra_zeroOtherBits (mr_address s) \<and> bit w n)"
proof -
  have fields: "mr_address (MrfRecord.truncate s) = mr_address s" "mr_mask (MrfRecord.truncate s) = mr_mask s"
    by (simp_all add: MrfRecord.truncate_def)
  note wf = new_MrfRecord_facts(1) [OF m, unfolded fields]
  note mask = new_MrfRecord_facts(2) [OF m, unfolded fields, folded low_def high_def]
  have low: "0 \<le> low" "low \<le> high" "high \<le> maxBitIndex (ra_dataType (mr_address s))"
    using wf by (simp_all add: wf_address_def low_def high_def)
  have req: "bit (writeRequestValue s) k \<longleftrightarrow> k < 32 \<and> low \<le> int k \<and> int k \<le> high \<and> bit v (k - nat low)" for k
    using low(1) by (auto simp: request convertToDevice_def fields bit_simps mask low_def [symmetric])
  show ?thesis
  proof (cases "ra_dataType (mr_address s)")
    case uInt16
    have n16: "n < 16" using n uInt16 by simp
    have full: "low \<le> int n \<and> int n \<le> high" if "mr_mask s = 0xffff"
    proof -
      have "bit (0xffff :: u32) n \<longleftrightarrow> n < 16"
        using bit_mask_iff [where 'a = u32, of 16 n] by (auto simp: possible_bit_word mask_eq_exp_minus_1)
      with that n16 show ?thesis using mask [of n] by simp
    qed
    show ?thesis
      using uInt16 n16 full
      by (auto simp del: bit_numeral_word_iff simp: output_operation_def Let_def bit_simps masked_update_bit req mask)
  next
    case uInt32
    have n32: "n < 32" using n uInt32 by simp
    have full: "low \<le> int n \<and> int n \<le> high" if "mr_mask s = 0xffffffff"
    proof -
      have "(0xffffffff :: u32) = - 1" by simp
      with that have "bit (mr_mask s) n" using n32 by (simp only: bit_minus_1_iff) simp
      then show ?thesis using mask [of n] by simp
    qed
    show ?thesis
      using uInt32 n32 full
      by (auto simp: output_operation_def Let_def masked_update_bit req mask)
  qed
qed

lemma truncate_extend [simp]: "MrfRecord.truncate (MrfRecord.extend m x) = (m :: MrfRecord)"
  by (simp add: MrfRecord.truncate_def MrfRecord.extend_def)

lemma new_MrfRecord_same_address:
  assumes "new_MrfRecord g instIo text raw = Inr m" "new_MrfRecord g instIo text raw' = Inr m'"
  shows "m = m'"
proof -
  have "mask_loop 32 h l raw = mask_loop 32 h l raw'" for h l
    by (rule bit_word_eqI) (simp add: mask_bits)
  then show ?thesis
    using assms by (auto simp: new_MrfRecord_def split: sum.split_asm option.split_asm)
qed

text \<open>
  C20.
  An output record and an input record with the same address string: when the output record has written
  a value, the input record reads the value back, cut to the bits of the address; the other bits of the
  register are as before or, with the option \<open>zero_other_bits\<close>, zero; and the output record completes
  without an error. None of it depends on what the memory of the masks held before.
\<close>

theorem record_write_read:
  assumes out: "new_MrfOutputRecord g instIo text raw = Inr s"
    and inp: "new_MrfInputRecord g instIo text raw' = Inr i"
  shows "\<exists>operation s'. output_processPrepare rd None s r = (Inr operation, s') \<and>
    (let w' = device_step operation w; low = ra_lowestBit (mr_address s); high = ra_highestBit (mr_address s)
     in convertFromDevice (MrfRecord.truncate i) w' = take_bit (nat (high - low + 1)) (rd r)
      \<and> (\<forall>n. int n \<le> maxBitIndex (ra_dataType (mr_address s)) \<and> \<not> (low \<le> int n \<and> int n \<le> high) \<longrightarrow>
          bit w' n = (\<not> ra_zeroOtherBits (mr_address s) \<and> bit w n))
      \<and> output_processComplete (snd (output_success w' s')) r = (None, [], r))"
proof -
  obtain m where m: "new_MrfRecord g instIo text raw = Inr m" "MrfRecord.truncate s = m"
    using out by (auto simp: new_MrfOutputRecord_def split: sum.split_asm)
  obtain m2 where "new_MrfRecord g instIo text raw' = Inr m2" "MrfRecord.truncate i = m2"
    using inp by (auto simp: new_MrfInputRecord_def split: sum.split_asm)
  then have i: "MrfRecord.truncate i = m" using new_MrfRecord_same_address [OF m(1)] by simp
  define v where "v = rd r"
  define s' where "s' = s\<lparr>writeRequestValue := convertToDevice m v\<rparr>"
  define low high where "low = ra_lowestBit (mr_address s)" and "high = ra_highestBit (mr_address s)"
  define w' where "w' = device_step (output_operation s') w"
  have base: "MrfRecord.truncate s' = m" "mr_address s' = mr_address s" "mr_mask s' = mr_mask s"
    "mr_address m = mr_address s" "mr_mask m = mr_mask s"
    using m(2) by (auto simp: s'_def MrfRecord.truncate_def)
  note wf = new_MrfRecord_facts(1) [OF m(1), unfolded base]
  note mask = new_MrfRecord_facts(2) [OF m(1), unfolded base, folded low_def high_def]
  have low: "0 \<le> low" "low \<le> high" "high \<le> maxBitIndex (ra_dataType (mr_address s))" "high < 32"
    using wf maxBitIndex_less [of "ra_dataType (mr_address s)"] by (simp_all add: wf_address_def low_def high_def)
  have bits: "bit w' n \<longleftrightarrow>
      (if low \<le> int n \<and> int n \<le> high then bit v (n - nat low) else \<not> ra_zeroOtherBits (mr_address s) \<and> bit w n)"
    if "int n \<le> maxBitIndex (ra_dataType (mr_address s))" for n
    using output_operation_bits [of g instIo "text" raw s' v n w] m(1) base that
    by (simp add: s'_def w'_def low_def high_def)
  have "convertFromDevice m w' = take_bit (nat (high - low + 1)) v"
  proof (rule bit_word_eqI)
    fix k
    have "k + nat low \<le> nat high \<longleftrightarrow> k < nat (high - low + 1)" using low by linarith
    moreover have "int (k + nat low) \<le> high \<Longrightarrow> int (k + nat low) \<le> maxBitIndex (ra_dataType (mr_address s))"
      using low by linarith
    ultimately show "bit (convertFromDevice m w') k \<longleftrightarrow> bit (take_bit (nat (high - low + 1)) v) k"
      using low bits [of "k + nat low"]
      by (auto simp: convertFromDevice_def base low_def [symmetric] bit_drop_bit_eq bit_and_iff bit_take_bit_iff mask add.commute)
  qed
  moreover
  have "w' AND mr_mask s = convertToDevice m v AND mr_mask s"
  proof (rule bit_word_eqI)
    fix k
    show "bit (w' AND mr_mask s) k \<longleftrightarrow> bit (convertToDevice m v AND mr_mask s) k"
      using low bits [of k]
      by (auto simp: convertToDevice_def base low_def [symmetric] bit_and_iff bit_push_bit_iff mask)
  qed
  then have "output_processComplete (snd (output_success w' s')) r = (None, [], r)"
    by (simp add: output_processComplete_def output_success_def s'_def)
  moreover have "output_processPrepare rd None s r = (Inr (output_operation s'), s')"
    by (simp add: output_processPrepare_def Let_def s'_def v_def m(2))
  moreover have "\<forall>n. int n \<le> maxBitIndex (ra_dataType (mr_address s)) \<and> \<not> (low \<le> int n \<and> int n \<le> high) \<longrightarrow>
      bit w' n = (\<not> ra_zeroOtherBits (mr_address s) \<and> bit w n)"
    using bits by auto
  ultimately show ?thesis
    unfolding Let_def i w'_def v_def low_def high_def by blast
qed

definition demo_registry :: MrfDeviceRegistry where
  "demo_registry = (case registerDevice ''D'' 1 new_MrfDeviceRegistry of Inr g \<Rightarrow> g | Inl _ \<Rightarrow> new_MrfDeviceRegistry)"

definition demo_output :: "u32 \<Rightarrow> exn + MrfOutputRecord" where
  "demo_output raw = new_MrfOutputRecord demo_registry True (Some ''D 0x10[7:4] uint16'') raw"

definition demo_input :: "u32 \<Rightarrow> exn + MrfInputRecord" where
  "demo_input raw = new_MrfInputRecord demo_registry True (Some ''D 0x10[7:4] uint16'') raw"

definition demo_record :: dbRecord where
  "demo_record = \<lparr>rec_pact = False, rec_udf = True, rec_rval = 0, rec_val = 0xAB\<rparr>"

lemma record_write_read_witness:
  "(case (demo_output 0xdeadbeef, demo_input 0) of
     (Inr s, Inr i) \<Rightarrow> (case output_processPrepare Longout_readRecordValue None s demo_record of
         (Inr operation, s') \<Rightarrow> convertFromDevice (MrfRecord.truncate i) (device_step operation 0x1234)
             = take_bit (nat (ra_highestBit (mr_address s) - ra_lowestBit (mr_address s) + 1)) 0xAB
       | _ \<Rightarrow> False)
   | _ \<Rightarrow> False)"
proof -
  have "(case demo_output 0xdeadbeef of Inr _ \<Rightarrow> True | Inl _ \<Rightarrow> False)"
    "(case demo_input 0 of Inr _ \<Rightarrow> True | Inl _ \<Rightarrow> False)"
    by code_simp+
  then obtain s i where s: "demo_output 0xdeadbeef = Inr s" and i: "demo_input 0 = Inr i"
    by (auto split: sum.split_asm)
  have "Longout_readRecordValue demo_record = 0xAB" by (simp add: Longout_readRecordValue_def demo_record_def)
  with record_write_read [where rd = Longout_readRecordValue and r = demo_record and w = "0x1234",
      OF s [unfolded demo_output_def] i [unfolded demo_input_def]] show ?thesis
    by (auto simp: s i Let_def)
qed

section \<open>Completion\<close>

text \<open>The notification of the callback of an operation, with the value widened to 32 bits.\<close>

fun input_reply :: "u32 reply \<Rightarrow> MrfInputRecord \<Rightarrow> epics_call list \<times> MrfInputRecord" where
  "input_reply (Success a v) s = input_success v s"
| "input_reply (Failure a e t) s = input_failure a e t s"

fun output_reply :: "u32 reply \<Rightarrow> MrfOutputRecord \<Rightarrow> epics_call list \<times> MrfOutputRecord" where
  "output_reply (Success a v) s = output_success v s"
| "output_reply (Failure a e t) s = output_failure a e t s"

text \<open>A record is processed, its operation is answered, and it is processed again as the callback asks for.\<close>

definition process_twice ::
    "('s \<Rightarrow> dbRecord \<Rightarrow> (exn + device_op) \<times> 's) \<Rightarrow> ('s \<Rightarrow> dbRecord \<Rightarrow> exn option \<times> epics_call list \<times> dbRecord)
      \<Rightarrow> ('s \<Rightarrow> epics_call list \<times> 's) \<Rightarrow> 's \<Rightarrow> dbRecord
      \<Rightarrow> exn option \<times> epics_call list \<times> device_op option \<times> dbRecord" where
  "process_twice prepare complete answer s r = (case processRecord prepare complete s r of
     (e, calls, None, s1, r1) \<Rightarrow> (e, calls, None, r1)
   | (e, calls, Some operation, s1, r1) \<Rightarrow> (case answer s1 of (calls1, s2) \<Rightarrow>
       (case processRecord prepare complete s2 r1 of (e2, calls2, _, s3, r2) \<Rightarrow>
         (e2, calls @ calls1 @ calls2, Some operation, r2))))"

text \<open>
  C21.
  Processing an idle record starts its operation, and the answer asks for processing the record again.
  After a success, an input record has the value, cut out of the register, and an output record has
  completed unless the value read back differs in the bits of the mask and is to be verified; in all
  other cases the record raises an error with the text of the failure and an INVALID alarm, and keeps
  its value. An exception at the start leaves the record idle.
\<close>

theorem records_complete:
  assumes "\<not> rec_pact r"
  shows "process_twice (input_processPrepare None) (input_processComplete wr) (input_reply reply) i r =
      (case reply of
         Success a v \<Rightarrow> (None, [ScheduleProcessing], Some (case ra_dataType (mr_address i) of
             uInt16 \<Rightarrow> ReadUInt16 (ra_address (mr_address i)) | uInt32 \<Rightarrow> ReadUInt32 (ra_address (mr_address i))),
           wr (drop_bit (nat (ra_lowestBit (mr_address i))) (v AND mr_mask i)) r)
       | Failure a e t \<Rightarrow> (Some (RuntimeError (''Error reading from address '' @ mrfMemoryAddressToString a @ '': ''
             @ failure_text e t)), [ScheduleProcessing, SetInvalid READ_ALARM], Some (case ra_dataType (mr_address i) of
             uInt16 \<Rightarrow> ReadUInt16 (ra_address (mr_address i)) | uInt32 \<Rightarrow> ReadUInt32 (ra_address (mr_address i))), r))
    \<and> (\<exists>operation. process_twice (output_processPrepare rd None) output_processComplete (output_reply reply) s r =
      (case reply of
         Success a v \<Rightarrow>
           if ra_verify (mr_address s) \<and> v AND mr_mask s \<noteq> push_bit (nat (ra_lowestBit (mr_address s))) (rd r) AND mr_mask s
           then (Some (RuntimeError ''Mismatch between the value written to the device and the value read back from the device.''),
             [ScheduleProcessing, SetInvalid WRITE_ALARM], Some operation, r)
           else (None, [ScheduleProcessing], Some operation, r)
       | Failure a e t \<Rightarrow> (Some (RuntimeError (''Error writing to address '' @ mrfMemoryAddressToString a @ '': ''
             @ failure_text e t)), [ScheduleProcessing, SetInvalid WRITE_ALARM], Some operation, r)))
    \<and> process_twice (input_processPrepare (Some x)) (input_processComplete wr) (input_reply reply) i r = (Some x, [], None, r)
    \<and> process_twice (output_processPrepare rd (Some x)) output_processComplete (output_reply reply) s r = (Some x, [], None, r)"
proof -
  have twice: "v AND m AND m = v AND m" for v m :: u32 by (simp add: and.assoc)
  show ?thesis
    using assms
    by (cases r; cases reply) (auto simp: process_twice_def processRecord_def input_processPrepare_def input_processComplete_def
        output_processPrepare_def output_processComplete_def input_success_def input_failure_def output_success_def
        output_failure_def convertFromDevice_def convertToDevice_def MrfRecord.truncate_def Let_def twice
        split: DataType.split)
qed

lemma records_complete_witness:
  "(case demo_input 7 of Inl _ \<Rightarrow> False
    | Inr i \<Rightarrow> process_twice (input_processPrepare None) (input_processComplete Longin_writeRecordValue)
        (input_reply (Success 0x10 0x1234)) i demo_record
      = (None, [ScheduleProcessing], Some (ReadUInt16 0x10), demo_record\<lparr>rec_val := 3\<rparr>))"
proof -
  have "(case demo_input 7 of Inr i \<Rightarrow> ra_dataType (mr_address i) = uInt16 \<and> ra_address (mr_address i) = 0x10
      \<and> ra_lowestBit (mr_address i) = 4 \<and> mr_mask i = 0xF0 | Inl _ \<Rightarrow> False)"
    by code_simp
  then obtain i where i: "demo_input 7 = Inr i" "ra_dataType (mr_address i) = uInt16" "ra_address (mr_address i) = 0x10"
      "ra_lowestBit (mr_address i) = 4" "mr_mask i = 0xF0"
    by (auto split: sum.split_asm)
  have "\<not> rec_pact demo_record" by (simp add: demo_record_def)
  from records_complete [OF this, of Longin_writeRecordValue "Success 0x10 0x1234" i] show ?thesis
    by (simp add: i Longin_writeRecordValue_def)
qed

end
