(* ===== verification/InterruptRecord.thy ===== *)
theory InterruptRecord
  imports RecordProcessing "HOL-Library.Sublist"
begin

text \<open>
  The records that are processed when the device raises an interrupt
  (\<^verbatim>\<open>mrfApp/mrfEpicsSrc/MrfInterruptRecord.h\<close>): the listener that queues the flags of an interrupt, the
  switch between the scan modes, and the processing of the record. Each holds the mutex once and then
  asks EPICS to scan the record.
\<close>

section \<open>State and operations\<close>

record MrfInterruptRecord =
  int_device :: nat
  interruptFlagsMask :: u32
  interruptFlagsQueue :: "u32 list"
  interruptModeEnabled :: bool

text \<open>\<open>supports\<close> tells which devices support interrupts.\<close>

definition new_MrfInterruptRecord ::
    "(nat \<Rightarrow> bool) \<Rightarrow> MrfDeviceRegistry \<Rightarrow> bool \<Rightarrow> string option \<Rightarrow> exn + epics_call list \<times> MrfInterruptRecord" where
  "new_MrfInterruptRecord supports g instIo inp =
     (if \<not> instIo then Inl invalid_device_address
      else (case new_MrfInterruptRecordAddress (case inp of None \<Rightarrow> [] | Some s \<Rightarrow> s) of
        Inl e \<Rightarrow> Inl e
      | Inr recordAddress \<Rightarrow> (case getDevice (ia_deviceId recordAddress) g of
          None \<Rightarrow> Inl (RuntimeError (''Could not find device '' @ ia_deviceId recordAddress @ ''.''))
        | Some d \<Rightarrow>
            if \<not> supports d
            then Inl (RuntimeError (''The device '' @ ia_deviceId recordAddress @ '' does not support interrupts.''))
            else Inr ([ScanIoInit], \<lparr>int_device = d, interruptFlagsMask = ia_interruptFlagsMask recordAddress,
              interruptFlagsQueue = [], interruptModeEnabled = False\<rparr>))))"

definition queue_limit :: nat where
  "queue_limit = 1024"

definition overflow_text :: "string \<Rightarrow> string" where
  "overflow_text name = name @ '' Interrupt queue overflow. Interrupt events have been lost. Typically, this happens when interrupts occur at a rate that is so high that the record cannot be processed at the same rate.''"

text \<open>The loop that pops while the queue is full: what remains, and the messages.\<close>

fun pop_full :: "string \<Rightarrow> u32 list \<Rightarrow> epics_call list \<times> u32 list" where
  "pop_full name [] = ([], [])"
| "pop_full name (x # xs) =
     (if length (x # xs) \<ge> queue_limit then apfst ((#) (PrintError (overflow_text name))) (pop_full name xs)
      else ([], x # xs))"

text \<open>The calls that are made with the mutex, and whether a scan is requested after that.\<close>

definition InterruptListener_call ::
    "string \<Rightarrow> u32 \<Rightarrow> MrfInterruptRecord \<Rightarrow> epics_call list \<times> bool \<times> MrfInterruptRecord" where
  "InterruptListener_call name flags s =
     (let interruptFlags = flags AND interruptFlagsMask s
      in if interruptFlags = 0 then ([], False, s)
         else
           let doScanIoRequest = (interruptModeEnabled s \<and> interruptFlagsQueue s = []);
               (calls, q) = (if interruptModeEnabled s then pop_full name (interruptFlagsQueue s) else ([], []))
           in (calls, doScanIoRequest, s\<lparr>interruptFlagsQueue := q @ [interruptFlags]\<rparr>))"

text \<open>\<open>None\<close> for the scan list of a record of a device without interrupts.\<close>

definition getInterruptInfo ::
    "bool \<Rightarrow> int \<Rightarrow> MrfInterruptRecord \<Rightarrow> unit option \<times> bool \<times> MrfInterruptRecord" where
  "getInterruptInfo supported command s =
     (if \<not> supported then (None, False, s)
      else if command = 0
      then (Some (), interruptFlagsQueue s \<noteq> [], s\<lparr>interruptModeEnabled := True\<rparr>)
      else (Some (), False, s\<lparr>interruptModeEnabled := False\<rparr>))"

text \<open>The value for the record, and whether a scan is requested.\<close>

definition interrupt_processRecord :: "MrfInterruptRecord \<Rightarrow> u32 \<times> bool \<times> MrfInterruptRecord" where
  "interrupt_processRecord s = (case interruptFlagsQueue s of
     [] \<Rightarrow> (0, False, s)
   | interruptFlags # q \<Rightarrow>
       (interruptFlags, q \<noteq> [] \<and> interruptModeEnabled s, s\<lparr>interruptFlagsQueue := q\<rparr>))"

text \<open>How the classes for bi, longin and mbbiDirect write the value.\<close>

definition BiInterrupt_writeRecordValue :: "u32 \<Rightarrow> dbRecord \<Rightarrow> dbRecord" where
  "BiInterrupt_writeRecordValue v r = r\<lparr>rec_rval := v\<rparr>"

definition LonginInterrupt_writeRecordValue :: "u32 \<Rightarrow> dbRecord \<Rightarrow> dbRecord" where
  "LonginInterrupt_writeRecordValue v r = r\<lparr>rec_val := v\<rparr>"

definition MbbiDirectInterrupt_writeRecordValue :: "u32 \<Rightarrow> dbRecord \<Rightarrow> dbRecord" where
  "MbbiDirectInterrupt_writeRecordValue v r = r\<lparr>rec_rval := v\<rparr>"

text \<open>The function EPICS calls, without and with an exception of the method.\<close>

definition call_getInterruptInfo ::
    "string option \<Rightarrow> MrfInterruptRecord option \<Rightarrow> bool \<Rightarrow> int \<Rightarrow> int \<times> epics_call list \<times> MrfInterruptRecord option" where
  "call_getInterruptInfo name dpvt supported command = (case name of
     None \<Rightarrow> (-1, [PrintError ''Configuring I/O Intr support failed: Pointer to record structure is null.''], None)
   | Some n \<Rightarrow> (case dpvt of
       None \<Rightarrow> (-1, [PrintError (n @ '' Configuring I/O Intr support failed: Pointer to device support data structure is null.'')], None)
     | Some s \<Rightarrow> (case getInterruptInfo supported command s of
         (_, scan, s') \<Rightarrow> (0, if scan then [ScanIoRequest] else [], Some s'))))"

section \<open>The record and EPICS\<close>

text \<open>
  \<open>due\<close> counts the requests for a scan that threads are about to make, \<open>scan\<close> tells whether EPICS has one
  to serve. Ghost state: the masked flags of all interrupts that were not ignored, the values that the
  record got, the number of messages about lost interrupts, and the number of interrupts that a later
  one replaced while the record was not in the mode for interrupts.
\<close>

record InterruptSystem =
  is_record :: MrfInterruptRecord
  is_due :: nat
  is_scan :: bool
  is_accepted :: "u32 list"
  is_values :: "u32 list"
  is_messages :: nat
  is_replaced :: nat

datatype interrupt_action = Interrupt u32 | RequestScan | Process | Mode int

definition new_InterruptSystem :: "u32 \<Rightarrow> InterruptSystem" where
  "new_InterruptSystem m = \<lparr>is_record = \<lparr>int_device = 0, interruptFlagsMask = m, interruptFlagsQueue = [],
     interruptModeEnabled = False\<rparr>, is_due = 0, is_scan = False, is_accepted = [], is_values = [],
     is_messages = 0, is_replaced = 0\<rparr>"

fun interrupt_step :: "interrupt_action \<Rightarrow> InterruptSystem \<Rightarrow> InterruptSystem" where
  "interrupt_step (Interrupt flags) c =
     (let s = is_record c; f = flags AND interruptFlagsMask s
      in case InterruptListener_call [] flags s of (calls, scan, s') \<Rightarrow>
        c\<lparr>is_record := s', is_due := is_due c + (if scan then 1 else 0),
          is_accepted := is_accepted c @ (if f = 0 then [] else [f]),
          is_messages := is_messages c + length calls,
          is_replaced := is_replaced c + (if f = 0 \<or> interruptModeEnabled s then 0 else length (interruptFlagsQueue s))\<rparr>)"
| "interrupt_step RequestScan c = (if is_due c = 0 then c else c\<lparr>is_due := is_due c - 1, is_scan := True\<rparr>)"
| "interrupt_step Process c = (case interrupt_processRecord (is_record c) of (v, scan, s') \<Rightarrow>
     c\<lparr>is_record := s', is_due := is_due c + (if scan then 1 else 0), is_scan := False,
       is_values := is_values c @ [v]\<rparr>)"
| "interrupt_step (Mode command) c = (case getInterruptInfo True command (is_record c) of (_, scan, s') \<Rightarrow>
     c\<lparr>is_record := s', is_due := is_due c + (if scan then 1 else 0)\<rparr>)"

definition interrupt_run :: "interrupt_action list \<Rightarrow> InterruptSystem \<Rightarrow> InterruptSystem" where
  "interrupt_run as c = fold interrupt_step as c"

section \<open>Properties\<close>

definition queue_ok :: "InterruptSystem \<Rightarrow> bool" where
  "queue_ok c \<longleftrightarrow> (let s = is_record c; q = interruptFlagsQueue s; vs = filter (\<lambda>v. v \<noteq> 0) (is_values c)
     in length q \<le> queue_limit \<and> 0 \<notin> set q
      \<and> (interruptModeEnabled s \<and> q \<noteq> [] \<longrightarrow> 0 < is_due c \<or> is_scan c)
      \<and> subseq (vs @ q) (is_accepted c)
      \<and> length (is_accepted c) = length vs + length q + is_messages c + is_replaced c)"

lemma pop_full_facts:
  assumes "pop_full name q = (calls, q')" "length q \<le> queue_limit"
  shows "length q' < queue_limit" "length calls + length q' = length q" "suffix q' q"
proof -
  have "length q' < queue_limit \<and> length calls + length q' = length q \<and> suffix q' q"
    using assms
  proof (induction q arbitrary: calls q')
    case (Cons x q)
    show ?case
    proof (cases "length (x # q) \<ge> queue_limit")
      case True
      obtain c1 q1 where "pop_full name q = (c1, q1)" by (cases "pop_full name q")
      with Cons True show ?thesis by (auto simp: suffix_ConsI)
    next
      case False
      with Cons.prems show ?thesis by auto
    qed
  qed (simp add: queue_limit_def)
  then show "length q' < queue_limit" "length calls + length q' = length q" "suffix q' q" by auto
qed

lemma subseq_push:
  assumes "subseq (vs @ q) acc" "suffix q' q"
  shows "subseq (vs @ q' @ [f]) (acc @ [f])"
proof -
  have "subseq (vs @ q') (vs @ q)"
    using assms(2) by (intro list_emb_append_mono) (auto intro: suffix_imp_subseq)
  then have "subseq (vs @ q') acc" using assms(1) by (rule subseq_order.trans)
  then show ?thesis using list_emb_append_mono [of "(=)" "vs @ q'" acc "[f]" "[f]"] by simp
qed

lemma interrupt_step_ok:
  assumes "queue_ok c"
  shows "queue_ok (interrupt_step a c)"
proof (cases a)
  case (Interrupt flags)
  let ?s = "is_record c"
  define f where "f = flags AND interruptFlagsMask ?s"
  show ?thesis
  proof (cases "f = 0")
    case True
    then show ?thesis using assms Interrupt by (simp add: InterruptListener_call_def f_def queue_ok_def Let_def)
  next
    case False
    show ?thesis
    proof (cases "interruptModeEnabled ?s")
      case True
      obtain calls q' where p: "pop_full [] (interruptFlagsQueue ?s) = (calls, q')"
        by (cases "pop_full [] (interruptFlagsQueue ?s)")
      have "length (interruptFlagsQueue ?s) \<le> queue_limit" using assms by (simp add: queue_ok_def Let_def)
      note facts = pop_full_facts [OF p this]
      have step: "interrupt_step a c = c\<lparr>is_record := ?s\<lparr>interruptFlagsQueue := q' @ [f]\<rparr>,
          is_due := is_due c + (if interruptFlagsQueue ?s = [] then 1 else 0),
          is_accepted := is_accepted c @ [f], is_messages := is_messages c + length calls,
          is_replaced := is_replaced c\<rparr>"
        using False True p Interrupt by (simp add: InterruptListener_call_def f_def Let_def)
      have "set q' \<subseteq> set (interruptFlagsQueue ?s)" using facts(3) by (rule set_mono_suffix)
      then show ?thesis
        using assms False True facts subseq_push [OF _ facts(3), of "filter (\<lambda>v. v \<noteq> 0) (is_values c)" "is_accepted c" f]
        unfolding step by (auto simp: queue_ok_def Let_def)
    next
      case off: False
      have step: "interrupt_step a c = c\<lparr>is_record := ?s\<lparr>interruptFlagsQueue := [f]\<rparr>,
          is_accepted := is_accepted c @ [f], is_replaced := is_replaced c + length (interruptFlagsQueue ?s)\<rparr>"
        using False off Interrupt by (simp add: InterruptListener_call_def f_def Let_def)
      show ?thesis
        using assms False off subseq_push [of "filter (\<lambda>v. v \<noteq> 0) (is_values c)" "interruptFlagsQueue ?s" "is_accepted c" "[]" f]
        unfolding step by (auto simp: queue_ok_def Let_def queue_limit_def)
    qed
  qed
next
  case RequestScan
  then show ?thesis using assms by (auto simp: queue_ok_def Let_def)
next
  case Process
  show ?thesis
  proof (cases "interruptFlagsQueue (is_record c)")
    case Nil
    then show ?thesis using assms Process by (simp add: interrupt_processRecord_def queue_ok_def Let_def)
  next
    case (Cons f q)
    then show ?thesis using assms Process by (auto simp: interrupt_processRecord_def queue_ok_def Let_def)
  qed
next
  case (Mode command)
  then show ?thesis using assms by (auto simp: getInterruptInfo_def queue_ok_def Let_def)
qed

text \<open>
  C22.
  In all runs of an interrupt record: the queue holds at most 1024 entries; in the mode for interrupts a
  scan of the record is requested whenever the queue is not empty; the values the record gets and the
  entries of the queue are masked flags of interrupts in the order in which they occurred; and the
  interrupts that are missing are as many as the messages and the entries replaced in the other mode.
\<close>

theorem interrupts_reach_record:
  "let c = interrupt_run as (new_InterruptSystem m); q = interruptFlagsQueue (is_record c);
       vs = filter (\<lambda>v. v \<noteq> 0) (is_values c)
   in length q \<le> 1024 \<and> \<not> (interruptModeEnabled (is_record c) \<and> q \<noteq> [] \<and> is_due c = 0 \<and> \<not> is_scan c)
    \<and> subseq (vs @ q) (is_accepted c)
    \<and> length (is_accepted c) = length vs + length q + is_messages c + is_replaced c"
proof -
  have "queue_ok c \<Longrightarrow> queue_ok (interrupt_run as c)" for c
    unfolding interrupt_run_def by (induction as arbitrary: c) (simp_all add: interrupt_step_ok)
  moreover have "queue_ok (new_InterruptSystem m)"
    by (simp add: queue_ok_def new_InterruptSystem_def Let_def)
  ultimately have "queue_ok (interrupt_run as (new_InterruptSystem m))" by blast
  then show ?thesis by (auto simp: queue_ok_def Let_def queue_limit_def)
qed

end
