(* ===== verification/WaveformRecords.thy ===== *)
theory WaveformRecords
  imports RecordProcessing
begin

text \<open>
  The device support of waveform records (\<^verbatim>\<open>mrfApp/mrfEpicsSrc/MrfWaveformOutRecord.cpp\<close> and
  \<^verbatim>\<open>MrfWaveformInRecord.cpp\<close>): each element of the array is a register of 32 bits, processing a record
  starts one request for each element, and the callbacks of the requests, in any order and possibly from
  within the call that starts a request, count down to the one that has the record processed again.
\<close>

section \<open>The record of EPICS\<close>

datatype dbf_type = DBF_CHAR | DBF_UCHAR | DBF_SHORT | DBF_USHORT | DBF_LONG | DBF_ULONG | DBF_OTHER

text \<open>The buffer is the list of its elements, which are as wide as the type of the elements says.\<close>

record waveformRecord =
  wf_pact :: bool
  wf_udf :: bool
  wf_ftvl :: dbf_type
  wf_nelm :: nat
  wf_nord :: nat
  wf_bptr :: "u32 list"

text \<open>A value as an element of a type: what a store truncates, and what a load extends.\<close>

definition element_of :: "dbf_type \<Rightarrow> u32 \<Rightarrow> u32" where
  "element_of ftvl v = (case ftvl of
     DBF_CHAR \<Rightarrow> ucast (ucast v :: u8) | DBF_UCHAR \<Rightarrow> ucast (ucast v :: u8)
   | DBF_SHORT \<Rightarrow> ucast (ucast v :: u16) | DBF_USHORT \<Rightarrow> ucast (ucast v :: u16)
   | DBF_LONG \<Rightarrow> v | DBF_ULONG \<Rightarrow> v | DBF_OTHER \<Rightarrow> 0)"

definition put_element :: "nat \<Rightarrow> u32 \<Rightarrow> waveformRecord \<Rightarrow> waveformRecord" where
  "put_element i v r = (if wf_ftvl r = DBF_OTHER then r
     else r\<lparr>wf_bptr := (wf_bptr r)[i := element_of (wf_ftvl r) v]\<rparr>)"

definition get_element :: "nat \<Rightarrow> waveformRecord \<Rightarrow> u32" where
  "get_element i r = element_of (wf_ftvl r) (wf_bptr r ! i)"

definition clear_elements :: "waveformRecord \<Rightarrow> waveformRecord" where
  "clear_elements r = r\<lparr>wf_bptr := replicate (wf_nelm r) 0\<rparr>"

text \<open>The address of an element, and the index that belongs to an address; the distance is a \<^verbatim>\<open>size_t\<close>.\<close>

definition stride :: "MrfRecordAddress \<Rightarrow> nat" where
  "stride address = nat ((4 + ra_elementDistance address) mod 2 ^ 64)"

definition element_address :: "MrfRecordAddress \<Rightarrow> nat \<Rightarrow> u32" where
  "element_address address arrayIndex = ra_address address + of_nat (stride address * arrayIndex)"

definition element_index :: "MrfRecordAddress \<Rightarrow> u32 \<Rightarrow> nat" where
  "element_index address a = unat (a - ra_address address) div stride address"

text \<open>What both constructors check; the message about single bits differs.\<close>

definition check_waveform :: "string \<Rightarrow> MrfRecordAddress \<Rightarrow> dbf_type \<Rightarrow> MrfDeviceRegistry \<Rightarrow> exn + nat" where
  "check_waveform bits address ftvl g =
     (if ftvl = DBF_OTHER
      then Inl (RuntimeError ''The value type of the array must be CHAR, UCHAR, SHORT, USHORT, LONG, or ULONG.'')
      else if ra_dataType address \<noteq> uInt32
      then Inl (RuntimeError ''The waveform record only supports 32-bit unsigned integer registers.'')
      else if ra_highestBit address \<noteq> 31 \<or> ra_lowestBit address \<noteq> 0
      then Inl (RuntimeError (''The waveform record does not support '' @ bits @ '' of a register.''))
      else (case getDevice (ra_deviceId address) g of
        None \<Rightarrow> Inl (RuntimeError (''Could not find device '' @ ra_deviceId address @ ''.''))
      | Some d \<Rightarrow> Inr d))"

section \<open>Output\<close>

record MrfWaveformOutRecord =
  wo_address :: MrfRecordAddress
  wo_device :: nat
  wo_writeSuccessful :: bool
  wo_writeErrorMessage :: string
  wo_pendingWriteRequests :: u32
  wo_lastValueWritten :: "u32 list"
  wo_lastValueWrittenValid :: "bool list"

definition mismatch_text :: string where
  "mismatch_text = ''Mismatch between the value written to the device and the value read back from the device.''"

text \<open>The end of both callbacks: the last reply has the record processed again.\<close>

definition wo_replied :: "MrfWaveformOutRecord \<Rightarrow> epics_call list \<times> MrfWaveformOutRecord" where
  "wo_replied s =
     (let s' = s\<lparr>wo_pendingWriteRequests := wo_pendingWriteRequests s - 1\<rparr>
      in (if wo_pendingWriteRequests s' = 0 then [ScheduleProcessing] else [], s'))"

definition wo_success :: "u32 \<Rightarrow> u32 \<Rightarrow> MrfWaveformOutRecord \<Rightarrow> epics_call list \<times> MrfWaveformOutRecord" where
  "wo_success a v s =
     (let arrayIndex = element_index (wo_address s) a
      in wo_replied
          (if arrayIndex < length (wo_lastValueWritten s) then
             if \<not> ra_verify (wo_address s) \<or> wo_lastValueWritten s ! arrayIndex = v
             then s\<lparr>wo_lastValueWrittenValid := (wo_lastValueWrittenValid s)[arrayIndex := True]\<rparr>
             else if wo_writeSuccessful s
             then s\<lparr>wo_writeSuccessful := False, wo_writeErrorMessage := mismatch_text\<rparr>
             else s
           else s))"

definition wo_failure :: "u32 \<Rightarrow> ErrorCode \<Rightarrow> string \<Rightarrow> MrfWaveformOutRecord \<Rightarrow> epics_call list \<times> MrfWaveformOutRecord" where
  "wo_failure a errorCode details s = wo_replied
     (if wo_writeSuccessful s
      then s\<lparr>wo_writeSuccessful := False, wo_writeErrorMessage := ''Error writing to address ''
        @ mrfMemoryAddressToString a @ '': '' @ failure_text errorCode details\<rparr>
      else s)"

fun wo_callback :: "u32 reply \<Rightarrow> MrfWaveformOutRecord \<Rightarrow> epics_call list \<times> MrfWaveformOutRecord" where
  "wo_callback (Success a v) s = wo_success a v s"
| "wo_callback (Failure a errorCode details) s = wo_failure a errorCode details s"

fun wo_callbacks :: "u32 reply list \<Rightarrow> MrfWaveformOutRecord \<Rightarrow> epics_call list \<times> MrfWaveformOutRecord" where
  "wo_callbacks [] s = ([], s)"
| "wo_callbacks (x # xs) s = (case wo_callback x s of (calls, s') \<Rightarrow> apfst ((@) calls) (wo_callbacks xs s'))"

text \<open>
  The loop of the constructor that reads the current values through the cache, until a read fails;
  \<open>dev\<close> is the blocking read of the device.
\<close>

fun wo_initial_read ::
    "(u32 \<Rightarrow> string + u32) \<Rightarrow> nat list \<Rightarrow> MrfMemoryCache \<Rightarrow> MrfWaveformOutRecord \<Rightarrow> waveformRecord
      \<Rightarrow> string option \<times> MrfMemoryCache \<times> MrfWaveformOutRecord \<times> waveformRecord" where
  "wo_initial_read dev [] c s r = (None, c, s, r)"
| "wo_initial_read dev (arrayIndex # is) c s r =
     (case cache_readUInt32 id dev (element_address (wo_address s) arrayIndex) c of
        (Inl e, c') \<Rightarrow> (Some e, c', s, r)
      | (Inr v, c') \<Rightarrow> wo_initial_read dev is c'
          (s\<lparr>wo_lastValueWritten := (wo_lastValueWritten s)[arrayIndex := v],
             wo_lastValueWrittenValid := (wo_lastValueWrittenValid s)[arrayIndex := True]\<rparr>)
          (put_element arrayIndex v r))"

definition new_MrfWaveformOutRecord ::
    "(u32 \<Rightarrow> string + u32) \<Rightarrow> string \<Rightarrow> bool \<Rightarrow> string option \<Rightarrow> waveformRecord \<Rightarrow> MrfDeviceRegistry
      \<Rightarrow> (exn + MrfWaveformOutRecord) \<times> epics_call list \<times> waveformRecord \<times> MrfDeviceRegistry" where
  "new_MrfWaveformOutRecord dev name instIo inp r g =
     (case readRecordAddress instIo inp of
        Inl e \<Rightarrow> (Inl e, [], r, g)
      | Inr address \<Rightarrow> (case check_waveform ''writing to individual bits'' address (wf_ftvl r) g of
          Inl e \<Rightarrow> (Inl e, [], r, g)
        | Inr d \<Rightarrow>
            let i = ra_deviceId address; r1 = r\<lparr>wf_nord := wf_nelm r\<rparr>;
                s = \<lparr>wo_address = address, wo_device = d, wo_writeSuccessful = False, wo_writeErrorMessage = [],
                  wo_pendingWriteRequests = 0, wo_lastValueWritten = replicate (wf_nelm r) 0,
                  wo_lastValueWrittenValid = replicate (wf_nelm r) False\<rparr>
            in if ra_readOnInit address then
                 (case getDeviceCache i g of
                    None \<Rightarrow> (Inl (RuntimeError (''Could not find cache for device '' @ i @ ''.'')), [], r1, g)
                  | Some c \<Rightarrow> (case wo_initial_read dev [0..<wf_nelm r] c s r1 of
                      (None, c', s', r') \<Rightarrow> (Inr s', [GetTimeStamp, ResetAlarms], r'\<lparr>wf_udf := False\<rparr>,
                        g\<lparr>caches := (caches g)(i \<mapsto> c')\<rparr>)
                    | (Some e, c', s', r') \<Rightarrow>
                        (Inr (s'\<lparr>wo_lastValueWrittenValid := replicate (length (wo_lastValueWrittenValid s')) False\<rparr>),
                         [PrintError (name @ '' Reading initial value from device failed: '' @ e)],
                         clear_elements r', g\<lparr>caches := (caches g)(i \<mapsto> c')\<rparr>)))
               else (Inr s, [], clear_elements r1, g)))"

text \<open>The parts of \<^verbatim>\<open>processRecord\<close>: the start, one round of the loop, the result, and the end.\<close>

definition wo_begin :: "MrfWaveformOutRecord \<Rightarrow> MrfWaveformOutRecord" where
  "wo_begin s = s\<lparr>wo_writeSuccessful := True, wo_pendingWriteRequests := 1\<rparr>"

definition wo_round :: "nat \<Rightarrow> waveformRecord \<Rightarrow> MrfWaveformOutRecord \<Rightarrow> (u32 \<times> u32) option \<times> MrfWaveformOutRecord" where
  "wo_round arrayIndex r s =
     (let v = get_element arrayIndex r
      in if \<not> ra_changedElementsOnly (wo_address s) \<or> \<not> wo_lastValueWrittenValid s ! arrayIndex
            \<or> wo_lastValueWritten s ! arrayIndex \<noteq> v
         then (Some (element_address (wo_address s) arrayIndex, v),
           s\<lparr>wo_lastValueWrittenValid := (wo_lastValueWrittenValid s)[arrayIndex := False],
             wo_lastValueWritten := (wo_lastValueWritten s)[arrayIndex := v],
             wo_pendingWriteRequests := wo_pendingWriteRequests s + 1\<rparr>)
         else (None, s))"

definition wo_result :: "MrfWaveformOutRecord \<Rightarrow> waveformRecord \<Rightarrow> exn option \<times> epics_call list \<times> waveformRecord" where
  "wo_result s r =
     (if \<not> wo_writeSuccessful s
      then (Some (RuntimeError (wo_writeErrorMessage s)), [SetInvalid WRITE_ALARM], r)
      else (None, [], r\<lparr>wf_udf := False\<rparr>))"

definition wo_end ::
    "MrfWaveformOutRecord \<Rightarrow> waveformRecord \<Rightarrow> exn option \<times> epics_call list \<times> MrfWaveformOutRecord \<times> waveformRecord" where
  "wo_end s r =
     (let s' = s\<lparr>wo_pendingWriteRequests := wo_pendingWriteRequests s - 1\<rparr>
      in if wo_pendingWriteRequests s' = 0
         then (case wo_result s' r of (e, calls, r') \<Rightarrow> (e, calls, s', r'))
         else (None, [], s', r\<lparr>wf_pact := True\<rparr>))"

text \<open>
  The loop: \<open>sync i\<close> is what the device does in the call for element \<open>i\<close>, the callbacks it runs in the
  thread and an exception it throws.
\<close>

fun wo_loop ::
    "(nat \<Rightarrow> u32 reply list \<times> exn option) \<Rightarrow> nat list \<Rightarrow> waveformRecord \<Rightarrow> MrfWaveformOutRecord
      \<Rightarrow> exn option \<times> epics_call list \<times> (u32 \<times> u32) list \<times> MrfWaveformOutRecord" where
  "wo_loop sync [] r s = (None, [], [], s)"
| "wo_loop sync (arrayIndex # is) r s = (case wo_round arrayIndex r s of
     (None, s') \<Rightarrow> wo_loop sync is r s'
   | (Some w, s') \<Rightarrow> (case sync arrayIndex of (replies, thrown) \<Rightarrow>
       (case wo_callbacks replies s' of (calls, s'') \<Rightarrow>
         (case thrown of
            Some e \<Rightarrow> (Some e, calls, [w], s'')
          | None \<Rightarrow> (case wo_loop sync is r s'' of (e, calls', ws, t) \<Rightarrow> (e, calls @ calls', w # ws, t))))))"

definition wo_processRecord ::
    "(nat \<Rightarrow> u32 reply list \<times> exn option) \<Rightarrow> MrfWaveformOutRecord \<Rightarrow> waveformRecord
      \<Rightarrow> exn option \<times> epics_call list \<times> (u32 \<times> u32) list \<times> MrfWaveformOutRecord \<times> waveformRecord" where
  "wo_processRecord sync s r =
     (let r1 = r\<lparr>wf_nord := wf_nelm r\<rparr>
      in if wf_pact r1 then
           (case wo_result s (r1\<lparr>wf_pact := False\<rparr>) of (e, calls, r') \<Rightarrow> (e, calls, [], s, r'))
         else (case wo_loop sync [0..<wf_nelm r1] r1 (wo_begin s) of
           (Some e, calls, ws, s') \<Rightarrow> (Some e, calls, ws, s', r1)
         | (None, calls, ws, s') \<Rightarrow> (case wo_end s' r1 of (e, calls', s'', r') \<Rightarrow> (e, calls @ calls', ws, s'', r'))))"

section \<open>Input\<close>

record MrfWaveformInRecord =
  wi_address :: MrfRecordAddress
  wi_device :: nat
  wi_readSuccessful :: bool
  wi_readErrorMessage :: string
  wi_pendingReadRequests :: u32
  wi_lastValueRead :: "u32 list"

definition wi_replied :: "MrfWaveformInRecord \<Rightarrow> epics_call list \<times> MrfWaveformInRecord" where
  "wi_replied s =
     (let s' = s\<lparr>wi_pendingReadRequests := wi_pendingReadRequests s - 1\<rparr>
      in (if wi_pendingReadRequests s' = 0 then [ScheduleProcessing] else [], s'))"

definition wi_success :: "u32 \<Rightarrow> u32 \<Rightarrow> MrfWaveformInRecord \<Rightarrow> epics_call list \<times> MrfWaveformInRecord" where
  "wi_success a v s =
     (let arrayIndex = element_index (wi_address s) a
      in wi_replied
          (if arrayIndex < length (wi_lastValueRead s)
           then s\<lparr>wi_lastValueRead := (wi_lastValueRead s)[arrayIndex := v]\<rparr> else s))"

definition wi_failure :: "u32 \<Rightarrow> ErrorCode \<Rightarrow> string \<Rightarrow> MrfWaveformInRecord \<Rightarrow> epics_call list \<times> MrfWaveformInRecord" where
  "wi_failure a errorCode details s = wi_replied
     (if wi_readSuccessful s
      then s\<lparr>wi_readSuccessful := False, wi_readErrorMessage := ''Error reading from address ''
        @ mrfMemoryAddressToString a @ '': '' @ failure_text errorCode details\<rparr>
      else s)"

fun wi_callback :: "u32 reply \<Rightarrow> MrfWaveformInRecord \<Rightarrow> epics_call list \<times> MrfWaveformInRecord" where
  "wi_callback (Success a v) s = wi_success a v s"
| "wi_callback (Failure a errorCode details) s = wi_failure a errorCode details s"

fun wi_callbacks :: "u32 reply list \<Rightarrow> MrfWaveformInRecord \<Rightarrow> epics_call list \<times> MrfWaveformInRecord" where
  "wi_callbacks [] s = ([], s)"
| "wi_callbacks (x # xs) s = (case wi_callback x s of (calls, s') \<Rightarrow> apfst ((@) calls) (wi_callbacks xs s'))"

definition new_MrfWaveformInRecord ::
    "bool \<Rightarrow> string option \<Rightarrow> waveformRecord \<Rightarrow> MrfDeviceRegistry
      \<Rightarrow> exn + MrfWaveformInRecord \<times> waveformRecord" where
  "new_MrfWaveformInRecord instIo inp r g =
     (case readRecordAddress instIo inp of
        Inl e \<Rightarrow> Inl e
      | Inr address \<Rightarrow> (case check_waveform ''reading individual bits'' address (wf_ftvl r) g of
          Inl e \<Rightarrow> Inl e
        | Inr d \<Rightarrow> Inr (\<lparr>wi_address = address, wi_device = d, wi_readSuccessful = False, wi_readErrorMessage = [],
            wi_pendingReadRequests = 0, wi_lastValueRead = replicate (wf_nelm r) 0\<rparr>, clear_elements r)))"

definition wi_begin :: "MrfWaveformInRecord \<Rightarrow> MrfWaveformInRecord" where
  "wi_begin s = s\<lparr>wi_readSuccessful := True, wi_pendingReadRequests := 1\<rparr>"

definition wi_round :: "nat \<Rightarrow> MrfWaveformInRecord \<Rightarrow> u32 \<times> MrfWaveformInRecord" where
  "wi_round arrayIndex s = (element_address (wi_address s) arrayIndex,
     s\<lparr>wi_pendingReadRequests := wi_pendingReadRequests s + 1\<rparr>)"

definition wi_result :: "MrfWaveformInRecord \<Rightarrow> waveformRecord \<Rightarrow> exn option \<times> epics_call list \<times> waveformRecord" where
  "wi_result s r =
     (if \<not> wi_readSuccessful s
      then (Some (RuntimeError (wi_readErrorMessage s)), [SetInvalid READ_ALARM], r)
      else (None, [],
        (fold (\<lambda>arrayIndex. put_element arrayIndex (wi_lastValueRead s ! arrayIndex)) [0..<wf_nelm r] r)
          \<lparr>wf_nord := wf_nelm r, wf_udf := False\<rparr>))"

definition wi_end ::
    "MrfWaveformInRecord \<Rightarrow> waveformRecord \<Rightarrow> exn option \<times> epics_call list \<times> MrfWaveformInRecord \<times> waveformRecord" where
  "wi_end s r =
     (let s' = s\<lparr>wi_pendingReadRequests := wi_pendingReadRequests s - 1\<rparr>
      in if wi_pendingReadRequests s' = 0
         then (case wi_result s' r of (e, calls, r') \<Rightarrow> (e, calls, s', r'))
         else (None, [], s', r\<lparr>wf_pact := True\<rparr>))"

fun wi_loop ::
    "(nat \<Rightarrow> u32 reply list \<times> exn option) \<Rightarrow> nat list \<Rightarrow> MrfWaveformInRecord
      \<Rightarrow> exn option \<times> epics_call list \<times> u32 list \<times> MrfWaveformInRecord" where
  "wi_loop sync [] s = (None, [], [], s)"
| "wi_loop sync (arrayIndex # is) s = (case wi_round arrayIndex s of
     (a, s') \<Rightarrow> (case sync arrayIndex of (replies, thrown) \<Rightarrow>
       (case wi_callbacks replies s' of (calls, s'') \<Rightarrow>
         (case thrown of
            Some e \<Rightarrow> (Some e, calls, [a], s'')
          | None \<Rightarrow> (case wi_loop sync is s'' of (e, calls', as', t) \<Rightarrow> (e, calls @ calls', a # as', t))))))"

definition wi_processRecord ::
    "(nat \<Rightarrow> u32 reply list \<times> exn option) \<Rightarrow> MrfWaveformInRecord \<Rightarrow> waveformRecord
      \<Rightarrow> exn option \<times> epics_call list \<times> u32 list \<times> MrfWaveformInRecord \<times> waveformRecord" where
  "wi_processRecord sync s r =
     (if wf_pact r then
        (case wi_result s (r\<lparr>wf_pact := False\<rparr>) of (e, calls, r') \<Rightarrow> (e, calls, [], s, r'))
      else (case wi_loop sync [0..<wf_nelm r] (wi_begin s) of
        (Some e, calls, rs, s') \<Rightarrow> (Some e, calls, rs, s', r)
      | (None, calls, rs, s') \<Rightarrow> (case wi_end s' r of (e, calls', s'', r') \<Rightarrow> (e, calls @ calls', rs, s'', r'))))"

end
