(* ===== verification/CountedRequests.thy ===== *)
theory CountedRequests
  imports RecordProcessing
begin

text \<open>
  The counting of replies that waveform and stringin records share: the counter of open requests starts
  with one so that callbacks that are run while the requests are made do not end the processing, and the
  reply that makes it 0 has the record processed again.
\<close>

text \<open>
  A record waits for nothing, is in the loop before the given element, waits for replies, or has been
  processed, with the exception that was thrown. The counter is one more than the open requests in the
  loop; after it, the reply that makes the counter 0 schedules the processing.
\<close>

datatype phase = Idle | Looping nat | Waiting | Finished "exn option"

definition counted :: "phase \<Rightarrow> u32 \<Rightarrow> nat \<Rightarrow> nat \<Rightarrow> bool" where
  "counted p pending opened scheduled \<longleftrightarrow> (case p of
     Looping i \<Rightarrow> opened \<le> i \<and> unat pending = opened + 1 \<and> scheduled = 0
   | Waiting \<Rightarrow> unat pending = opened \<and> scheduled = (if opened = 0 then 1 else 0)
   | _ \<Rightarrow> opened = 0 \<and> scheduled = 0)"

locale counted_requests =
  fixes pending :: "'s \<Rightarrow> u32"
    and start :: "'s \<Rightarrow> 's"
    and answer :: "'q \<Rightarrow> 's \<Rightarrow> epics_call list \<times> 's"
    and finish :: "'s \<Rightarrow> 'r \<Rightarrow> exn option \<times> epics_call list \<times> 's \<times> 'r"
    and pact :: "'r \<Rightarrow> bool"
  assumes start_law: "pending (start s) = 1"
    and answer_law: "answer x s = (calls, s') \<Longrightarrow> pending s' = pending s - 1
      \<and> calls = (if pending s' = 0 then [ScheduleProcessing] else [])"
    and finish_law: "\<not> pact r \<Longrightarrow> finish s r = (e, calls, s', r') \<Longrightarrow> pending s' = pending s - 1
      \<and> (pact r' \<longleftrightarrow> pending s' \<noteq> 0)"
begin

lemma counted_start: "counted (Looping 0) (pending (start s)) 0 0"
  by (simp add: counted_def start_law)

lemma counted_issue:
  assumes "counted (Looping i) n k c" "Suc (Suc i) < 2 ^ 32"
  shows "counted (Looping (Suc i)) (n + 1) (Suc k) c" "counted (Looping (Suc i)) n k c"
proof -
  have "unat n + 1 < 2 ^ 32 \<Longrightarrow> unat (n + 1) = unat n + 1" by (simp add: unat_word_ariths)
  then show "counted (Looping (Suc i)) (n + 1) (Suc k) c" "counted (Looping (Suc i)) n k c"
    using assms by (auto simp: counted_def)
qed

lemma counted_answer:
  assumes "counted p (pending s) (Suc k) c" "answer x s = (calls, s')"
  shows "counted p (pending s') k (c + length calls)"
proof -
  have "unat (pending s) \<noteq> 0 \<Longrightarrow> unat (pending s - 1) = unat (pending s) - 1" by unat_arith
  moreover have "pending s - 1 = 0 \<longleftrightarrow> unat (pending s - 1) = 0" by (simp add: unat_eq_0)
  ultimately show ?thesis
    using assms(1) answer_law [OF assms(2)] by (auto simp: counted_def split: phase.splits)
qed

lemma counted_finish:
  assumes "counted (Looping i) (pending s) k c" "\<not> pact r" "finish s r = (e, calls, s', r')"
  shows "counted (if pact r' then Waiting else Finished e) (pending s') k c"
proof -
  have "unat (pending s) \<noteq> 0 \<Longrightarrow> unat (pending s - 1) = unat (pending s) - 1" by unat_arith
  moreover have "pending s - 1 = 0 \<longleftrightarrow> unat (pending s - 1) = 0" by (simp add: unat_eq_0)
  ultimately show ?thesis
    using assms(1) finish_law [OF assms(2,3)] by (auto simp: counted_def)
qed

end

end
