(* ===== verification/WaveformRecords_Props.thy ===== *)
theory WaveformRecords_Props
  imports WaveformRecords RecordAddress_Props CountedRequests
begin

text \<open>
  What the device support of waveform records guarantees whatever the order of the replies: the step relations of a record with its device,
  and that a processing without an error leaves the array of the record in the device, or the replies of
  the device in the record.
\<close>

section \<open>Addresses of elements\<close>

definition elements_fit :: "MrfRecordAddress \<Rightarrow> nat \<Rightarrow> bool" where
  "elements_fit address n \<longleftrightarrow> 4 \<le> stride address \<and> stride address * n \<le> 2 ^ 32"

lemma element_index_address:
  assumes "elements_fit address n" "i < n"
  shows "element_index address (element_address address i) = i"
proof -
  have "stride address * i < stride address * n" using assms by (simp add: elements_fit_def)
  also have "\<dots> \<le> 2 ^ 32" using assms by (simp add: elements_fit_def)
  finally have "unat (word_of_nat (stride address * i) :: u32) = stride address * i"
    by (simp add: unsigned_of_nat take_bit_nat_eq_self del: of_nat_mult)
  then show ?thesis using assms by (simp add: element_index_def element_address_def elements_fit_def)
qed

lemma element_address_eq:
  assumes "elements_fit address n" "i < n" "j < n"
  shows "element_address address i = element_address address j \<longleftrightarrow> i = j"
  using assms by (metis element_index_address)

lemma elements_fit_bound:
  assumes "elements_fit address n"
  shows "Suc (Suc n) < 2 ^ 32"
proof -
  have "4 * n \<le> stride address * n" using assms by (intro mult_le_mono1) (simp add: elements_fit_def)
  also have "\<dots> \<le> 2 ^ 32" using assms by (simp add: elements_fit_def)
  finally show ?thesis by simp
qed

section \<open>Counting the replies\<close>

interpretation wo: counted_requests wo_pendingWriteRequests wo_begin wo_callback wo_end wf_pact
proof unfold_locales
  show "wo_pendingWriteRequests (wo_begin s) = 1" for s by (simp add: wo_begin_def)
  show "wo_pendingWriteRequests s' = wo_pendingWriteRequests s - 1
      \<and> calls = (if wo_pendingWriteRequests s' = 0 then [ScheduleProcessing] else [])"
    if "wo_callback x s = (calls, s')" for x s calls s'
    using that by (cases x) (auto simp: wo_success_def wo_failure_def wo_replied_def Let_def split: if_splits)
  show "wo_pendingWriteRequests s' = wo_pendingWriteRequests s - 1 \<and> (wf_pact r' \<longleftrightarrow> wo_pendingWriteRequests s' \<noteq> 0)"
    if "\<not> wf_pact r" "wo_end s r = (e, calls, s', r')" for r s e calls s' r'
    using that by (auto simp: wo_end_def wo_result_def Let_def split: if_splits)
qed

lemma put_element_fields [simp]:
  "wf_pact (put_element i v r) = wf_pact r" "wf_ftvl (put_element i v r) = wf_ftvl r"
  "wf_nelm (put_element i v r) = wf_nelm r" "length (wf_bptr (put_element i v r)) = length (wf_bptr r)"
  by (simp_all add: put_element_def)

lemma fold_put_element:
  "wf_pact (fold (\<lambda>i. put_element i (f i)) is r) = wf_pact r"
  "wf_ftvl (fold (\<lambda>i. put_element i (f i)) is r) = wf_ftvl r"
  "wf_nelm (fold (\<lambda>i. put_element i (f i)) is r) = wf_nelm r"
  "length (wf_bptr (fold (\<lambda>i. put_element i (f i)) is r)) = length (wf_bptr r)"
  by (induction "is" arbitrary: r) simp_all

interpretation wi: counted_requests wi_pendingReadRequests wi_begin wi_callback wi_end wf_pact
proof unfold_locales
  show "wi_pendingReadRequests (wi_begin s) = 1" for s by (simp add: wi_begin_def)
  show "wi_pendingReadRequests s' = wi_pendingReadRequests s - 1
      \<and> calls = (if wi_pendingReadRequests s' = 0 then [ScheduleProcessing] else [])"
    if "wi_callback x s = (calls, s')" for x s calls s'
    using that by (cases x) (auto simp: wi_success_def wi_failure_def wi_replied_def Let_def split: if_splits)
  show "wi_pendingReadRequests s' = wi_pendingReadRequests s - 1 \<and> (wf_pact r' \<longleftrightarrow> wi_pendingReadRequests s' \<noteq> 0)"
    if "\<not> wf_pact r" "wi_end s r = (e, calls, s', r')" for r s e calls s' r'
    using that by (auto simp: wi_end_def wi_result_def Let_def fold_put_element split: if_splits)
qed

section \<open>Output: a record and its device\<close>

text \<open>
  The device stores \<open>store a v\<close> when \<open>v\<close> is written to \<open>a\<close>, and no one else writes to the elements. The
  elements that the last processing had to write are ghost state.
\<close>

record WaveformOut =
  out_support :: MrfWaveformOutRecord
  out_record :: waveformRecord
  out_phase :: phase
  out_open :: "(u32 \<times> u32) list"
  out_scheduled :: nat
  out_memory :: "u32 \<Rightarrow> u32"
  out_wanted :: "u32 list"

text \<open>
  The steps: EPICS or a user changes the elements while the record is not being processed; the record is
  processed, element by element; the device answers an open request, also while the record is in the
  loop; EPICS processes the record again.
\<close>

fun processing :: "phase \<Rightarrow> bool" where
  "processing (Looping i) = True"
| "processing p = False"

inductive out_step :: "(u32 \<Rightarrow> u32 \<Rightarrow> u32) \<Rightarrow> WaveformOut \<Rightarrow> WaveformOut \<Rightarrow> bool" for store where
  Put: "\<not> processing (out_phase w) \<Longrightarrow> length vs = wf_nelm (out_record w) \<Longrightarrow>
    out_step store w (w\<lparr>out_record := (out_record w)\<lparr>wf_bptr := vs\<rparr>\<rparr>)"
| Start: "\<not> processing (out_phase w) \<Longrightarrow> \<not> wf_pact (out_record w) \<Longrightarrow>
    out_step store w (w\<lparr>out_support := wo_begin (out_support w), out_phase := Looping 0,
      out_record := (out_record w)\<lparr>wf_nord := wf_nelm (out_record w)\<rparr>,
      out_wanted := map (\<lambda>i. get_element i (out_record w)) [0..<wf_nelm (out_record w)]\<rparr>)"
| Round: "out_phase w = Looping i \<Longrightarrow> i < wf_nelm (out_record w) \<Longrightarrow>
    wo_round i (out_record w) (out_support w) = (request, s') \<Longrightarrow>
    out_step store w (w\<lparr>out_support := s', out_phase := Looping (Suc i),
      out_open := out_open w @ (case request of None \<Rightarrow> [] | Some q \<Rightarrow> [q])\<rparr>)"
| End: "out_phase w = Looping (wf_nelm (out_record w)) \<Longrightarrow>
    wo_end (out_support w) (out_record w) = (e, calls, s', r') \<Longrightarrow>
    out_step store w (w\<lparr>out_support := s', out_record := r',
      out_phase := (if wf_pact r' then Waiting else Finished e)\<rparr>)"
| Stored: "out_open w = xs @ (a, v) # ys \<Longrightarrow>
    wo_callback (Success a (store a v)) (out_support w) = (calls, s') \<Longrightarrow>
    out_step store w (w\<lparr>out_support := s', out_open := xs @ ys, out_scheduled := out_scheduled w + length calls,
      out_memory := (out_memory w)(a := store a v)\<rparr>)"
| Refused: "out_open w = xs @ (a, v) # ys \<Longrightarrow>
    wo_callback (Failure a errorCode details) (out_support w) = (calls, s') \<Longrightarrow>
    out_step store w (w\<lparr>out_support := s', out_open := xs @ ys, out_scheduled := out_scheduled w + length calls,
      out_memory := (out_memory w)(a := b)\<rparr>)"
| Again: "\<not> processing (out_phase w) \<Longrightarrow> wf_pact (out_record w) \<Longrightarrow> 0 < out_scheduled w \<Longrightarrow>
    wo_processRecord sync (out_support w) (out_record w) = (e, calls, ws, s', r') \<Longrightarrow>
    out_step store w (w\<lparr>out_support := s', out_record := r', out_phase := Finished e,
      out_scheduled := out_scheduled w - 1\<rparr>)"

text \<open>What the device holds for an element whose last value is known to be written.\<close>

definition held :: "(u32 \<Rightarrow> u32 \<Rightarrow> u32) \<Rightarrow> bool \<Rightarrow> u32 \<Rightarrow> u32 \<Rightarrow> u32 \<Rightarrow> bool" where
  "held store verify a v m \<longleftrightarrow> (if verify then m = v else m = store a v)"

definition visited :: "nat \<Rightarrow> phase \<Rightarrow> nat" where
  "visited n p = (case p of Looping i \<Rightarrow> i | Waiting \<Rightarrow> n | Finished None \<Rightarrow> n | _ \<Rightarrow> 0)"

definition unanswered :: "MrfWaveformOutRecord \<Rightarrow> (u32 \<times> u32) list \<Rightarrow> nat \<Rightarrow> bool" where
  "unanswered s qs i \<longleftrightarrow> (\<exists>v. (element_address (wo_address s) i, v) \<in> set qs)"

definition out_shape :: "WaveformOut \<Rightarrow> bool" where
  "out_shape w \<longleftrightarrow> (let s = out_support w; n = wf_nelm (out_record w)
     in elements_fit (wo_address s) n \<and> length (wo_lastValueWritten s) = n
      \<and> length (wo_lastValueWrittenValid s) = n \<and> length (wf_bptr (out_record w)) = n
      \<and> (wf_pact (out_record w) \<longleftrightarrow> out_phase w = Waiting) \<and> visited n (out_phase w) \<le> n
      \<and> (out_phase w = Finished None \<longrightarrow> wo_writeSuccessful s))"

definition out_counted :: "WaveformOut \<Rightarrow> bool" where
  "out_counted w \<longleftrightarrow>
     counted (out_phase w) (wo_pendingWriteRequests (out_support w)) (length (out_open w)) (out_scheduled w)"

definition out_opened :: "WaveformOut \<Rightarrow> bool" where
  "out_opened w \<longleftrightarrow> (let s = out_support w; n = visited (wf_nelm (out_record w)) (out_phase w)
     in distinct (map fst (out_open w))
      \<and> (\<forall>(a, v) \<in> set (out_open w). \<exists>i<n. a = element_address (wo_address s) i
          \<and> v = wo_lastValueWritten s ! i \<and> \<not> wo_lastValueWrittenValid s ! i))"

definition out_held :: "(u32 \<Rightarrow> u32 \<Rightarrow> u32) \<Rightarrow> WaveformOut \<Rightarrow> bool" where
  "out_held store w \<longleftrightarrow> (let s = out_support w; a = element_address (wo_address s)
     in \<forall>i<wf_nelm (out_record w). wo_lastValueWrittenValid s ! i \<longrightarrow>
      held store (ra_verify (wo_address s)) (a i) (wo_lastValueWritten s ! i) (out_memory w (a i)))"

definition out_written :: "WaveformOut \<Rightarrow> bool" where
  "out_written w \<longleftrightarrow> (let s = out_support w
     in (processing (out_phase w) \<longrightarrow>
          (\<forall>i<wf_nelm (out_record w). out_wanted w ! i = get_element i (out_record w)))
      \<and> (\<forall>i<visited (wf_nelm (out_record w)) (out_phase w). wo_lastValueWritten s ! i = out_wanted w ! i
        \<and> (wo_writeSuccessful s \<longrightarrow> wo_lastValueWrittenValid s ! i \<or> unanswered s (out_open w) i)))"

definition out_ok :: "(u32 \<Rightarrow> u32 \<Rightarrow> u32) \<Rightarrow> WaveformOut \<Rightarrow> bool" where
  "out_ok store w \<longleftrightarrow> out_shape w \<and> out_counted w \<and> out_opened w \<and> out_held store w \<and> out_written w"

section \<open>Output: the invariant\<close>

lemmas out_defs = out_shape_def out_counted_def out_opened_def out_held_def out_written_def unanswered_def

lemma wo_success_effect:
  assumes "wo_callback (Success a v) s = (calls, s')" "element_index (wo_address s) a = i"
    "i < length (wo_lastValueWritten s)"
  shows "wo_address s' = wo_address s" "wo_lastValueWritten s' = wo_lastValueWritten s"
    "if \<not> ra_verify (wo_address s) \<or> wo_lastValueWritten s ! i = v
     then wo_lastValueWrittenValid s' = (wo_lastValueWrittenValid s)[i := True] \<and> wo_writeSuccessful s' = wo_writeSuccessful s
     else wo_lastValueWrittenValid s' = wo_lastValueWrittenValid s \<and> \<not> wo_writeSuccessful s'"
  using assms by (auto simp: wo_success_def wo_replied_def Let_def split: if_splits)

lemma wo_failure_effect:
  assumes "wo_callback (Failure a errorCode details) s = (calls, s')"
  shows "wo_address s' = wo_address s" "wo_lastValueWritten s' = wo_lastValueWritten s"
    "wo_lastValueWrittenValid s' = wo_lastValueWrittenValid s" "\<not> wo_writeSuccessful s'"
  using assms by (auto simp: wo_failure_def wo_replied_def Let_def split: if_splits)

lemma wo_result_effect:
  assumes "wo_result s r = (e, calls, r')"
  shows "wf_nelm r' = wf_nelm r" "wf_bptr r' = wf_bptr r" "wf_pact r' = wf_pact r" "wf_ftvl r' = wf_ftvl r"
    "wf_nord r' = wf_nord r" "e = None \<longleftrightarrow> wo_writeSuccessful s" "e = None \<Longrightarrow> \<not> wf_udf r'"
  using assms by (auto simp: wo_result_def split: if_splits)

lemma out_shapeD:
  assumes "out_shape w"
  shows "elements_fit (wo_address (out_support w)) (wf_nelm (out_record w))"
    "length (wo_lastValueWritten (out_support w)) = wf_nelm (out_record w)"
    "length (wo_lastValueWrittenValid (out_support w)) = wf_nelm (out_record w)"
    "length (wf_bptr (out_record w)) = wf_nelm (out_record w)"
    "wf_pact (out_record w) \<longleftrightarrow> out_phase w = Waiting"
    "visited (wf_nelm (out_record w)) (out_phase w) \<le> wf_nelm (out_record w)"
    "out_phase w = Finished None \<Longrightarrow> wo_writeSuccessful (out_support w)"
  using assms by (auto simp: out_shape_def Let_def)

lemma idle_open:
  assumes "out_counted w" "\<not> processing (out_phase w)" "out_phase w \<noteq> Waiting"
  shows "out_open w = [] \<and> out_scheduled w = 0"
  using assms by (cases "out_phase w") (auto simp: out_counted_def counted_def)

lemma out_ok_Put:
  assumes "out_ok store w" "\<not> processing (out_phase w)" "length vs = wf_nelm (out_record w)"
  shows "out_ok store (w\<lparr>out_record := (out_record w)\<lparr>wf_bptr := vs\<rparr>\<rparr>)"
  using assms by (auto simp: out_ok_def out_defs Let_def)

lemma out_ok_Start:
  assumes ok: "out_ok store w" and p: "\<not> processing (out_phase w)" "\<not> wf_pact (out_record w)"
  shows "out_ok store (w\<lparr>out_support := wo_begin (out_support w), out_phase := Looping 0,
      out_record := (out_record w)\<lparr>wf_nord := wf_nelm (out_record w)\<rparr>,
      out_wanted := map (\<lambda>i. get_element i (out_record w)) [0..<wf_nelm (out_record w)]\<rparr>)"
proof -
  have "out_phase w \<noteq> Waiting" using ok p by (auto simp: out_ok_def dest: out_shapeD)
  then have "out_open w = [] \<and> out_scheduled w = 0" using idle_open ok p by (auto simp: out_ok_def)
  moreover have "counted (Looping 0) (wo_pendingWriteRequests (wo_begin (out_support w))) 0 0"
    by (rule wo.counted_start)
  ultimately show ?thesis
    using ok p \<open>out_phase w \<noteq> Waiting\<close>
    by (auto simp: out_ok_def out_defs Let_def wo_begin_def visited_def get_element_def)
qed

lemma out_ok_Again:
  assumes ok: "out_ok store w" and p: "\<not> processing (out_phase w)" "wf_pact (out_record w)" "0 < out_scheduled w"
    and run: "wo_processRecord sync (out_support w) (out_record w) = (e, calls, ws, s', r')"
  shows "out_ok store (w\<lparr>out_support := s', out_record := r', out_phase := Finished e,
      out_scheduled := out_scheduled w - 1\<rparr>)"
proof -
  have wait: "out_phase w = Waiting" using ok p by (auto simp: out_ok_def dest: out_shapeD)
  then have none: "out_open w = [] \<and> out_scheduled w = 1"
    using ok p by (auto simp: out_ok_def out_counted_def counted_def split: if_splits)
  define r1 where "r1 = (out_record w)\<lparr>wf_nord := wf_nelm (out_record w), wf_pact := False\<rparr>"
  have r1: "wf_nelm r1 = wf_nelm (out_record w)" "wf_bptr r1 = wf_bptr (out_record w)" "\<not> wf_pact r1"
    by (simp_all add: r1_def)
  obtain e1 c1 q1 where res: "wo_result (out_support w) r1 = (e1, c1, q1)" by (cases "wo_result (out_support w) r1")
  then have "e = e1" "s' = out_support w" "r' = q1"
    using run p(2) by (auto simp: wo_processRecord_def Let_def r1_def)
  with wo_result_effect [OF res] r1
  have rec: "wf_nelm r' = wf_nelm (out_record w)" "wf_bptr r' = wf_bptr (out_record w)" "\<not> wf_pact r'"
    "e = None \<longleftrightarrow> wo_writeSuccessful (out_support w)" and s': "s' = out_support w"
    by simp_all
  have fields: "visited n (Finished e) = (if e = None then n else 0)" for n
    by (simp add: visited_def split: option.split)
  let ?w' = "w\<lparr>out_support := s', out_record := r', out_phase := Finished e, out_scheduled := out_scheduled w - 1\<rparr>"
  have "out_shape ?w'"
    using ok rec s' unfolding out_ok_def out_shape_def Let_def by (simp add: fields)
  moreover have "out_counted ?w'" using none by (simp add: out_counted_def counted_def)
  moreover have "out_opened ?w'" using none by (simp add: out_opened_def)
  moreover have "out_held store ?w'"
    using ok rec s' by (simp add: out_ok_def out_held_def Let_def)
  moreover have "out_written ?w'"
    using ok rec s' none wait by (cases e) (simp_all add: out_ok_def out_written_def Let_def unanswered_def visited_def)
  ultimately show ?thesis by (simp only: out_ok_def)
qed

lemma out_ok_End:
  assumes ok: "out_ok store w" and p: "out_phase w = Looping (wf_nelm (out_record w))"
    and run: "wo_end (out_support w) (out_record w) = (e, calls, s', r')"
  shows "out_ok store (w\<lparr>out_support := s', out_record := r',
      out_phase := (if wf_pact r' then Waiting else Finished e)\<rparr>)"
proof -
  let ?s = "out_support w"
  have np: "\<not> wf_pact (out_record w)" using ok p by (auto simp: out_ok_def dest: out_shapeD)
  note cnt = wo.counted_finish [OF _ np run]
  have s': "wo_address s' = wo_address ?s" "wo_lastValueWritten s' = wo_lastValueWritten ?s"
    "wo_lastValueWrittenValid s' = wo_lastValueWrittenValid ?s" "wo_writeSuccessful s' = wo_writeSuccessful ?s"
    "wf_nelm r' = wf_nelm (out_record w)" "wf_bptr r' = wf_bptr (out_record w)"
    and e: "\<not> wf_pact r' \<Longrightarrow> e = None \<longleftrightarrow> wo_writeSuccessful ?s"
    using run np by (auto simp: wo_end_def Let_def wo_result_def split: if_splits)
  let ?w' = "w\<lparr>out_support := s', out_record := r', out_phase := (if wf_pact r' then Waiting else Finished e)\<rparr>"
  have "counted (if wf_pact r' then Waiting else Finished e) (wo_pendingWriteRequests s')
      (length (out_open w)) (out_scheduled w)"
    using ok p by (intro cnt) (auto simp: out_ok_def out_counted_def)
  then have cnt': "out_counted ?w'" by (simp add: out_counted_def)
  have vis: "visited (wf_nelm (out_record w)) (out_phase ?w') = (if wf_pact r' \<or> e = None then wf_nelm (out_record w) else 0)"
    by (simp add: visited_def split: option.split)
  have "out_shape ?w'"
    using ok s' e vis unfolding out_ok_def out_shape_def Let_def by (auto split: if_splits)
  moreover have "out_opened ?w'"
  proof (cases "wf_pact r'")
    case True
    then show ?thesis using ok p s' by (simp add: out_ok_def out_opened_def Let_def visited_def)
  next
    case False
    then have "out_open w = []" using cnt' by (simp add: out_counted_def counted_def)
    then show ?thesis by (simp add: out_opened_def)
  qed
  moreover have "out_held store ?w'" using ok s' by (simp add: out_ok_def out_held_def Let_def)
  moreover have "out_written ?w'"
    using ok p s' vis by (auto simp: out_ok_def out_written_def Let_def unanswered_def visited_def split: if_splits)
  ultimately show ?thesis using cnt' by (simp only: out_ok_def)
qed

lemma out_ok_Round:
  assumes ok: "out_ok store w" and p: "out_phase w = Looping i" "i < wf_nelm (out_record w)"
    and run: "wo_round i (out_record w) (out_support w) = (request, s')"
  shows "out_ok store (w\<lparr>out_support := s', out_phase := Looping (Suc i),
      out_open := out_open w @ (case request of None \<Rightarrow> [] | Some q \<Rightarrow> [q])\<rparr>)"
proof -
  let ?s = "out_support w" and ?n = "wf_nelm (out_record w)" and ?v = "get_element i (out_record w)"
  let ?a = "element_address (wo_address ?s)"
  let ?w' = "w\<lparr>out_support := s', out_phase := Looping (Suc i),
      out_open := out_open w @ (case request of None \<Rightarrow> [] | Some q \<Rightarrow> [q])\<rparr>"
  have parts: "out_shape w" "out_counted w" "out_opened w" "out_held store w" "out_written w"
    using ok by (simp_all add: out_ok_def)
  note shape = out_shapeD [OF parts(1)]
  have vis: "visited ?n (Looping k) = k" for k by (simp add: visited_def)
  have old: "\<exists>j<i. a = ?a j \<and> v = wo_lastValueWritten ?s ! j \<and> \<not> wo_lastValueWrittenValid ?s ! j"
    if "(a, v) \<in> set (out_open w)" for a v
    using parts(3) that p by (auto simp: out_opened_def Let_def vis)
  have new: "?a i \<notin> fst ` set (out_open w)"
    using old p(2) shape(1) by (force simp: element_address_eq)
  have small: "Suc (Suc i) < 2 ^ 32" using elements_fit_bound [OF shape(1)] p(2) by linarith
  have wanted: "out_wanted w ! i = ?v"
    and past: "\<And>j. j < i \<Longrightarrow> wo_lastValueWritten ?s ! j = out_wanted w ! j
      \<and> (wo_writeSuccessful ?s \<longrightarrow> wo_lastValueWrittenValid ?s ! j \<or> unanswered ?s (out_open w) j)"
    and wants: "\<And>j. j < ?n \<Longrightarrow> out_wanted w ! j = get_element j (out_record w)"
    using parts(5) p by (auto simp: out_written_def Let_def vis)
  have cnt: "counted (Looping i) (wo_pendingWriteRequests ?s) (length (out_open w)) (out_scheduled w)"
    using parts(2) p(1) by (simp add: out_counted_def)
  show ?thesis
  proof (cases request)
    case None
    with run have s': "s' = ?s" and same: "wo_lastValueWrittenValid ?s ! i" "wo_lastValueWritten ?s ! i = ?v"
      by (auto simp: wo_round_def Let_def split: if_splits)
    have "out_shape ?w'" using parts(1) p s' by (simp add: out_shape_def Let_def vis)
    moreover have "out_counted ?w'" using wo.counted_issue(2) [OF cnt small] s' None by (simp add: out_counted_def)
    moreover have "out_opened ?w'"
      using parts(3) p s' None by (fastforce simp: out_opened_def Let_def vis less_Suc_eq)
    moreover have "out_held store ?w'" using parts(4) s' by (simp add: out_held_def Let_def)
    moreover have "out_written ?w'"
      using past wants wanted same s' None by (auto simp: out_written_def Let_def vis less_Suc_eq)
    ultimately show ?thesis by (simp only: out_ok_def)
  next
    case (Some q)
    with run have q: "q = (?a i, ?v)"
      and s': "s' = ?s\<lparr>wo_lastValueWrittenValid := (wo_lastValueWrittenValid ?s)[i := False],
        wo_lastValueWritten := (wo_lastValueWritten ?s)[i := ?v],
        wo_pendingWriteRequests := wo_pendingWriteRequests ?s + 1\<rparr>"
      by (auto simp: wo_round_def Let_def split: if_splits)
    have "out_shape ?w'" using parts(1) p s' by (simp add: out_shape_def Let_def vis)
    moreover have "out_counted ?w'"
      using wo.counted_issue(1) [OF cnt small] s' Some by (simp add: out_counted_def)
    moreover have "out_opened ?w'"
      using parts(3) new old p s' q Some shape(2,3)
      by (fastforce simp: out_opened_def Let_def vis less_Suc_eq nth_list_update)
    moreover have "out_held store ?w'"
      using parts(4) s' shape(2,3) p(2) by (auto simp: out_held_def Let_def nth_list_update)
    moreover have "out_written ?w'"
      using past wants wanted s' q Some shape(2,3) p(2)
      by (auto simp: out_written_def Let_def vis less_Suc_eq unanswered_def nth_list_update)
    ultimately show ?thesis by (simp only: out_ok_def)
  qed
qed

text \<open>An answer concerns one element, of which there is no other open request.\<close>

lemma out_answered:
  assumes ok: "out_ok store w" and q: "out_open w = xs @ (a, v) # ys"
  obtains i where "i < wf_nelm (out_record w)" "i < visited (wf_nelm (out_record w)) (out_phase w)"
    "a = element_address (wo_address (out_support w)) i" "v = wo_lastValueWritten (out_support w) ! i"
    "element_index (wo_address (out_support w)) a = i"
    "\<And>j. j < wf_nelm (out_record w) \<Longrightarrow> element_address (wo_address (out_support w)) j = a \<longleftrightarrow> j = i"
    "a \<notin> fst ` set (xs @ ys)" "distinct (map fst (xs @ ys))"
    "\<And>b u. (b, u) \<in> set (xs @ ys) \<Longrightarrow> \<exists>j<visited (wf_nelm (out_record w)) (out_phase w).
      j \<noteq> i \<and> b = element_address (wo_address (out_support w)) j
      \<and> u = wo_lastValueWritten (out_support w) ! j \<and> \<not> wo_lastValueWrittenValid (out_support w) ! j"
proof -
  have parts: "out_shape w" "out_opened w" using ok by (simp_all add: out_ok_def)
  note shape = out_shapeD [OF parts(1)]
  have all: "\<exists>j<visited (wf_nelm (out_record w)) (out_phase w).
      b = element_address (wo_address (out_support w)) j \<and> u = wo_lastValueWritten (out_support w) ! j
      \<and> \<not> wo_lastValueWrittenValid (out_support w) ! j" if "(b, u) \<in> set (out_open w)" for b u
    using parts(2) that by (auto simp: out_opened_def Let_def)
  obtain i where i: "i < visited (wf_nelm (out_record w)) (out_phase w)"
    "a = element_address (wo_address (out_support w)) i" "v = wo_lastValueWritten (out_support w) ! i"
    using all [of a v] q by auto
  have n: "i < wf_nelm (out_record w)" using i(1) shape(6) by linarith
  have dist: "distinct (map fst (out_open w))" using parts(2) by (simp add: out_opened_def Let_def)
  then have a: "a \<notin> fst ` set (xs @ ys)" "distinct (map fst (xs @ ys))" unfolding q by auto
  have other: "\<exists>j<visited (wf_nelm (out_record w)) (out_phase w).
      j \<noteq> i \<and> b = element_address (wo_address (out_support w)) j
      \<and> u = wo_lastValueWritten (out_support w) ! j \<and> \<not> wo_lastValueWrittenValid (out_support w) ! j"
    if "(b, u) \<in> set (xs @ ys)" for b u
  proof -
    have "(b, u) \<in> set (out_open w)" using that q by auto
    then obtain j where j: "j < visited (wf_nelm (out_record w)) (out_phase w)"
      "b = element_address (wo_address (out_support w)) j" "u = wo_lastValueWritten (out_support w) ! j"
      "\<not> wo_lastValueWrittenValid (out_support w) ! j" using all by blast
    moreover have "b \<noteq> a" using a(1) that by force
    ultimately show ?thesis using i(2) by metis
  qed
  show thesis
    using element_index_address [OF shape(1) n] element_address_eq [OF shape(1)] n a other i that by metis
qed

lemma out_ok_answer:
  assumes ok: "out_ok store w" and q: "out_open w = xs @ (a, v) # ys"
    and run: "wo_callback x (out_support w) = (calls, s')"
    and x: "x = Success a b \<and> b = store a v \<or> x = Failure a errorCode details"
  shows "out_ok store (w\<lparr>out_support := s', out_open := xs @ ys, out_scheduled := out_scheduled w + length calls,
      out_memory := (out_memory w)(a := b)\<rparr>)"
proof -
  let ?s = "out_support w" and ?n = "wf_nelm (out_record w)"
  let ?w' = "w\<lparr>out_support := s', out_open := xs @ ys, out_scheduled := out_scheduled w + length calls,
      out_memory := (out_memory w)(a := b)\<rparr>"
  have parts: "out_shape w" "out_counted w" "out_opened w" "out_held store w" "out_written w"
    using ok by (simp_all add: out_ok_def)
  note shape = out_shapeD [OF parts(1)]
  from out_answered [OF ok q] obtain i where i: "i < ?n" "i < visited ?n (out_phase w)"
    "a = element_address (wo_address ?s) i" "v = wo_lastValueWritten ?s ! i" "element_index (wo_address ?s) a = i"
    and addr: "\<And>j. j < ?n \<Longrightarrow> element_address (wo_address ?s) j = a \<longleftrightarrow> j = i"
    and rest: "a \<notin> fst ` set (xs @ ys)" "distinct (map fst (xs @ ys))"
    and other: "\<And>b u. (b, u) \<in> set (xs @ ys) \<Longrightarrow> \<exists>j<visited ?n (out_phase w).
      j \<noteq> i \<and> b = element_address (wo_address ?s) j \<and> u = wo_lastValueWritten ?s ! j
      \<and> \<not> wo_lastValueWrittenValid ?s ! j"
    by blast
  have open_i: "\<not> wo_lastValueWrittenValid ?s ! i"
  proof -
    have "(a, v) \<in> set (out_open w)" using q by simp
    then obtain j where "j < visited ?n (out_phase w)" "a = element_address (wo_address ?s) j"
      "\<not> wo_lastValueWrittenValid ?s ! j"
      using parts(3) unfolding out_opened_def Let_def by blast
    then show ?thesis using addr [of j] shape(6) by auto
  qed
  have waits: "out_phase w \<noteq> Finished None"
    using parts(2) q by (auto simp: out_counted_def counted_def)
  have same: "wo_address s' = wo_address ?s \<and> wo_lastValueWritten s' = wo_lastValueWritten ?s"
    and eff: "wo_lastValueWrittenValid s' = (wo_lastValueWrittenValid ?s)[i := True]
        \<and> wo_writeSuccessful s' = wo_writeSuccessful ?s \<and> b = store a v \<and> (ra_verify (wo_address ?s) \<longrightarrow> v = b)
      \<or> wo_lastValueWrittenValid s' = wo_lastValueWrittenValid ?s \<and> \<not> wo_writeSuccessful s'"
  proof -
    have *: "i < length (wo_lastValueWritten ?s)" using i(1) shape(2) by simp
    show "wo_address s' = wo_address ?s \<and> wo_lastValueWritten s' = wo_lastValueWritten ?s"
      using x run wo_success_effect(1,2) [OF _ i(5) *] wo_failure_effect(1,2) by blast
    show "wo_lastValueWrittenValid s' = (wo_lastValueWrittenValid ?s)[i := True]
        \<and> wo_writeSuccessful s' = wo_writeSuccessful ?s \<and> b = store a v \<and> (ra_verify (wo_address ?s) \<longrightarrow> v = b)
      \<or> wo_lastValueWrittenValid s' = wo_lastValueWrittenValid ?s \<and> \<not> wo_writeSuccessful s'"
      using x
    proof
      assume s: "x = Success a b \<and> b = store a v"
      then have "wo_callback (Success a b) ?s = (calls, s')" using run by simp
      from wo_success_effect(3) [OF this i(5) *] s show ?thesis
        unfolding i(4) by (cases "\<not> ra_verify (wo_address ?s) \<or> wo_lastValueWritten ?s ! i = b") simp_all
    next
      assume "x = Failure a errorCode details"
      then show ?thesis using run wo_failure_effect(3,4) by blast
    qed
  qed
  have len: "length (wo_lastValueWrittenValid s') = ?n" using eff shape(3) by auto
  have valid: "wo_lastValueWrittenValid s' ! j = wo_lastValueWrittenValid ?s ! j" if "j < ?n" "j \<noteq> i" for j
    using eff that by auto
  have ok_i: "held store (ra_verify (wo_address ?s)) a v b" if "wo_lastValueWrittenValid s' ! i"
    using eff that open_i by (auto simp: held_def)
  have succ: "wo_writeSuccessful ?s \<and> wo_lastValueWrittenValid s' ! i" if "wo_writeSuccessful s'"
    using eff that i(1) shape(3) by auto
  have "out_shape ?w'" using parts(1) same len waits by (simp add: out_shape_def Let_def)
  moreover have "out_counted ?w'"
    using wo.counted_answer [OF _ run] parts(2) q by (simp add: out_counted_def)
  moreover have "out_opened ?w'"
    unfolding out_opened_def Let_def
  proof (intro conjI ballI)
    show "distinct (map fst (out_open ?w'))" using rest by simp
    fix e assume e: "e \<in> set (out_open ?w')"
    obtain c u where eq: "e = (c, u)" by (cases e)
    with e other [of c u] obtain j where j: "j < visited ?n (out_phase w)" "j \<noteq> i"
      "c = element_address (wo_address ?s) j" "u = wo_lastValueWritten ?s ! j" "\<not> wo_lastValueWrittenValid ?s ! j"
      by auto
    then have "\<not> wo_lastValueWrittenValid s' ! j" using valid [of j] shape(6) by simp
    then show "case e of (a, v) \<Rightarrow> \<exists>i<visited (wf_nelm (out_record ?w')) (out_phase ?w').
        a = element_address (wo_address (out_support ?w')) i \<and> v = wo_lastValueWritten (out_support ?w') ! i
        \<and> \<not> wo_lastValueWrittenValid (out_support ?w') ! i"
      using j same by (auto simp: eq)
  qed
  moreover have "out_held store ?w'"
    unfolding out_held_def Let_def
  proof (intro allI impI)
    fix j assume j: "j < wf_nelm (out_record ?w')" "wo_lastValueWrittenValid (out_support ?w') ! j"
    show "held store (ra_verify (wo_address (out_support ?w'))) (element_address (wo_address (out_support ?w')) j)
        (wo_lastValueWritten (out_support ?w') ! j) (out_memory ?w' (element_address (wo_address (out_support ?w')) j))"
    proof (cases "j = i")
      case True
      then show ?thesis using j ok_i same i(3,4) by simp
    next
      case False
      then have "wo_lastValueWrittenValid ?s ! j" "element_address (wo_address ?s) j \<noteq> a"
        using j valid [of j] addr [of j] by auto
      then show ?thesis using j same parts(4) by (simp add: out_held_def Let_def)
    qed
  qed
  moreover have "out_written ?w'"
    unfolding out_written_def Let_def
  proof (intro conjI impI allI)
    fix j assume "j < wf_nelm (out_record ?w')" "processing (out_phase ?w')"
    then show "out_wanted ?w' ! j = get_element j (out_record ?w')"
      using parts(5) by (simp add: out_written_def Let_def)
  next
    fix j assume j: "j < visited (wf_nelm (out_record ?w')) (out_phase ?w')"
    then show "wo_lastValueWritten (out_support ?w') ! j = out_wanted ?w' ! j"
      using parts(5) same by (simp add: out_written_def Let_def)
    assume w: "wo_writeSuccessful (out_support ?w')"
    show "wo_lastValueWrittenValid (out_support ?w') ! j \<or> unanswered (out_support ?w') (out_open ?w') j"
    proof (cases "j = i")
      case True
      then show ?thesis using w succ by simp
    next
      case False
      have n: "j < ?n" using j shape(6) by simp
      then have "element_address (wo_address ?s) j \<noteq> a" using addr [of j] False by simp
      moreover have "wo_lastValueWrittenValid ?s ! j \<or> unanswered ?s (out_open w) j"
        using parts(5) w succ j by (simp add: out_written_def Let_def)
      ultimately show ?thesis using valid [OF n False] same q by (auto simp: unanswered_def)
    qed
  qed
  ultimately show ?thesis by (simp only: out_ok_def)
qed

section \<open>Output: all runs\<close>

text \<open>The device and the cache tell what the memory holds.\<close>

definition tells :: "(u32 \<Rightarrow> u32) \<Rightarrow> (u32 \<Rightarrow> string + u32) \<Rightarrow> MrfMemoryCache \<Rightarrow> bool" where
  "tells memory dev c \<longleftrightarrow> (\<forall>a v. dev a = Inr v \<longrightarrow> memory a = v) \<and> (\<forall>a v. cacheUInt32 c a = Some v \<longrightarrow> memory a = v)"

text \<open>
  A record is created with a device and a cache that tell what the memory holds, and the array fits into
  the address space.
\<close>

inductive out_reachable :: "(u32 \<Rightarrow> u32 \<Rightarrow> u32) \<Rightarrow> WaveformOut \<Rightarrow> bool" for store where
  New: "new_MrfWaveformOutRecord dev name instIo inp r g = (Inr s, calls, r', g') \<Longrightarrow>
    (\<And>c. getDeviceCache (ra_deviceId (wo_address s)) g = Some c \<Longrightarrow> tells memory dev c) \<Longrightarrow>
    elements_fit (wo_address s) (wf_nelm r) \<Longrightarrow> length (wf_bptr r) = wf_nelm r \<Longrightarrow> \<not> wf_pact r \<Longrightarrow>
    out_reachable store \<lparr>out_support = s, out_record = r', out_phase = Idle, out_open = [], out_scheduled = 0,
      out_memory = memory, out_wanted = wanted\<rparr>"
| Step: "out_reachable store w \<Longrightarrow> out_step store w w' \<Longrightarrow> out_reachable store w'"

lemma parse_flags_read_verify:
  "parse_flags addressString pos a = Inr a' \<Longrightarrow> ra_readOnInit a \<longrightarrow> ra_verify a \<Longrightarrow> ra_readOnInit a' \<longrightarrow> ra_verify a'"
proof (induction addressString pos a rule: parse_flags.induct)
  case (1 addressString pos a)
  show ?case
  proof (cases "findNextToken addressString delimiters pos")
    case None
    then show ?thesis using 1 by (simp add: parse_flags.simps)
  next
    case (Some tk)
    obtain s l where tk: "tk = (s, l)" by (cases tk)
    obtain b where b: "parse_flag (substr addressString s l) a = Inr b"
      using 1(2) Some tk by (cases "parse_flag (substr addressString s l) a") (simp_all add: parse_flags.simps)
    have "ra_readOnInit b \<longrightarrow> ra_verify b"
      using b 1(3) by (auto simp: parse_flag_def split: if_splits sum.splits)
    moreover have "parse_flags addressString (s + l) b = Inr a'"
      using 1(2) Some tk b by (simp add: parse_flags.simps)
    ultimately show ?thesis using 1(1) [OF Some] tk b by simp
  qed
qed

lemma read_on_init_verifies:
  assumes "readRecordAddress instIo inp = Inr a"
  shows "ra_readOnInit a \<longrightarrow> ra_verify a"
  using assms
  by (auto simp: readRecordAddress_def new_MrfRecordAddress_def split: if_splits option.splits sum.splits prod.splits
      dest: parse_flags_read_verify)

definition reads_memory :: "(u32 \<Rightarrow> u32) \<Rightarrow> MrfWaveformOutRecord \<Rightarrow> bool" where
  "reads_memory memory s \<longleftrightarrow> length (wo_lastValueWritten s) = length (wo_lastValueWrittenValid s)
    \<and> (\<forall>i<length (wo_lastValueWritten s). wo_lastValueWrittenValid s ! i \<longrightarrow>
      memory (element_address (wo_address s) i) = wo_lastValueWritten s ! i)"

lemma cache_read_honest:
  assumes "cache_readUInt32 id dev a c = (res, c')" "tells memory dev c"
  shows "tells memory dev c'" "res = Inr v \<Longrightarrow> memory a = v"
  using assms by (auto simp: tells_def cache_readUInt32_def Let_def split: option.splits sum.splits if_splits)

lemma wo_initial_read_honest:
  assumes "wo_initial_read dev is c s r = (e, c', s', r')" "reads_memory memory s" "tells memory dev c"
  shows "reads_memory memory s' \<and> wo_address s' = wo_address s
    \<and> length (wo_lastValueWritten s') = length (wo_lastValueWritten s)
    \<and> wf_nelm r' = wf_nelm r \<and> wf_pact r' = wf_pact r \<and> length (wf_bptr r') = length (wf_bptr r)"
  using assms
proof (induction "is" arbitrary: c s r)
  case (Cons i "is")
  let ?a = "element_address (wo_address s) i"
  obtain res c1 where c1: "cache_readUInt32 id dev ?a c = (res, c1)" by (cases "cache_readUInt32 id dev ?a c")
  note honest = cache_read_honest [OF c1 Cons.prems(3)]
  show ?case
  proof (cases res)
    case (Inl x)
    then show ?thesis using Cons.prems c1 by simp
  next
    case (Inr v)
    let ?s = "s\<lparr>wo_lastValueWritten := (wo_lastValueWritten s)[i := v],
      wo_lastValueWrittenValid := (wo_lastValueWrittenValid s)[i := True]\<rparr>"
    have "reads_memory memory ?s"
      using Cons.prems(2) honest(2) [OF Inr]
      by (cases "i < length (wo_lastValueWritten s)") (auto simp: reads_memory_def nth_list_update)
    moreover have "wo_initial_read dev is c1 ?s (put_element i v r) = (e, c', s', r')"
      using Cons.prems(1) c1 Inr by simp
    ultimately show ?thesis using Cons.IH [of c1 ?s] honest(1) by simp
  qed
qed simp

lemma wo_initial_read_address: "wo_initial_read dev is c s r = (e, c', s', r') \<Longrightarrow> wo_address s' = wo_address s"
  by (induction "is" arbitrary: c s r) (auto split: prod.splits sum.splits)

lemma out_ok_New:
  assumes new: "new_MrfWaveformOutRecord dev name instIo inp r g = (Inr s, calls, r', g')"
    and dev: "\<And>c. getDeviceCache (ra_deviceId (wo_address s)) g = Some c \<Longrightarrow> tells memory dev c"
    and fits: "elements_fit (wo_address s) (wf_nelm r)" "length (wf_bptr r) = wf_nelm r" "\<not> wf_pact r"
  shows "out_ok store \<lparr>out_support = s, out_record = r', out_phase = Idle, out_open = [], out_scheduled = 0,
      out_memory = memory, out_wanted = wanted\<rparr>"
proof -
  obtain address where address: "readRecordAddress instIo inp = Inr address"
    using new by (auto simp: new_MrfWaveformOutRecord_def split: sum.splits)
  obtain d where d: "check_waveform ''writing to individual bits'' address (wf_ftvl r) g = Inr d"
    using new address by (auto simp: new_MrfWaveformOutRecord_def split: sum.splits)
  define s0 where "s0 = \<lparr>wo_address = address, wo_device = d, wo_writeSuccessful = False, wo_writeErrorMessage = [],
     wo_pendingWriteRequests = 0, wo_lastValueWritten = replicate (wf_nelm r) 0,
     wo_lastValueWrittenValid = replicate (wf_nelm r) False\<rparr>"
  have s0: "reads_memory memory s0" "wo_address s0 = address" "length (wo_lastValueWritten s0) = wf_nelm r"
    by (simp_all add: s0_def reads_memory_def)
  have res: "wo_address s = address \<and> reads_memory memory s \<and> length (wo_lastValueWritten s) = wf_nelm r
      \<and> wf_nelm r' = wf_nelm r \<and> \<not> wf_pact r' \<and> length (wf_bptr r') = wf_nelm r
      \<and> (ra_readOnInit address \<or> (\<forall>i<wf_nelm r. \<not> wo_lastValueWrittenValid s ! i))"
  proof (cases "ra_readOnInit address")
    case False
    then have "s = s0" "r' = clear_elements (r\<lparr>wf_nord := wf_nelm r\<rparr>)"
      using new address d by (auto simp: new_MrfWaveformOutRecord_def Let_def s0_def)
    then show ?thesis using fits s0 by (simp add: clear_elements_def) (simp add: s0_def)
  next
    case True
    obtain c where c: "getDeviceCache (ra_deviceId address) g = Some c"
      using new address d True by (auto simp: new_MrfWaveformOutRecord_def Let_def split: option.splits)
    obtain e c1 s1 r1 where rd: "wo_initial_read dev [0..<wf_nelm r] c s0 (r\<lparr>wf_nord := wf_nelm r\<rparr>) = (e, c1, s1, r1)"
      using prod_cases4 by blast
    have addr1: "wo_address s = wo_address s1"
      using new address d True c rd by (auto simp: new_MrfWaveformOutRecord_def Let_def s0_def split: option.splits)
    have "tells memory dev c" using dev c addr1 wo_initial_read_address [OF rd] s0(2) by simp
    note honest = wo_initial_read_honest [OF rd s0(1) this]
    show ?thesis
    proof (cases e)
      case None
      then show ?thesis using new address d True c rd honest s0 fits
        by (auto simp: new_MrfWaveformOutRecord_def Let_def s0_def)
    next
      case (Some x)
      then show ?thesis using new address d True c rd honest s0 fits
        by (auto simp: new_MrfWaveformOutRecord_def Let_def s0_def clear_elements_def reads_memory_def)
    qed
  qed
  then have held: "held store (ra_verify (wo_address s)) (element_address (wo_address s) i) (wo_lastValueWritten s ! i)
      (memory (element_address (wo_address s) i))" if "i < wf_nelm r" "wo_lastValueWrittenValid s ! i" for i
    using that read_on_init_verifies [OF address] by (auto simp: held_def reads_memory_def)
  show ?thesis
    unfolding out_ok_def out_defs Let_def
    using res held fits by (auto simp: counted_def visited_def reads_memory_def)
qed

lemma out_ok_step: "out_step store w w' \<Longrightarrow> out_ok store w \<Longrightarrow> out_ok store w'"
proof (induction rule: out_step.induct)
  case (Stored w xs a v ys calls s')
  then show ?case using out_ok_answer [where b = "store a v" and x = "Success a (store a v)"] by blast
next
  case (Refused w xs a v ys errorCode details calls s' b)
  then show ?case using out_ok_answer [where x = "Failure a errorCode details"] by blast
qed (blast intro: out_ok_Put out_ok_Start out_ok_Round out_ok_End out_ok_Again)+

lemma out_ok_reachable: "out_reachable store w \<Longrightarrow> out_ok store w"
  by (induction rule: out_reachable.induct) (blast intro: out_ok_New out_ok_step)+

text \<open>A call of the function with a device that answers later is a sequence of steps.\<close>

lemma wo_loop_steps:
  assumes "wo_loop (\<lambda>_. ([], None)) [i..<wf_nelm (out_record w)] (out_record w) (out_support w) = (e, calls, ws, s')"
    "out_phase w = Looping i" "i \<le> wf_nelm (out_record w)"
  shows "e = None \<and> calls = [] \<and> (out_step store)\<^sup>*\<^sup>* w
    (w\<lparr>out_support := s', out_phase := Looping (wf_nelm (out_record w)), out_open := out_open w @ ws\<rparr>)"
  using assms
proof (induction "wf_nelm (out_record w) - i" arbitrary: i w ws e calls s')
  case 0
  then have "w\<lparr>out_support := s', out_phase := Looping (wf_nelm (out_record w)), out_open := out_open w @ ws\<rparr> = w"
    by (intro WaveformOut.equality) simp_all
  moreover have "e = None \<and> calls = []" using 0 by simp
  ultimately show ?case by (simp only:) simp
next
  case (Suc k)
  let ?r = "out_record w"
  have less: "i < wf_nelm ?r" using Suc.hyps(2) by simp
  then have upt: "[i..<wf_nelm ?r] = i # [Suc i..<wf_nelm ?r]" by (rule upt_conv_Cons)
  obtain request s1 where round: "wo_round i ?r (out_support w) = (request, s1)"
    by (cases "wo_round i ?r (out_support w)")
  define w1 where "w1 = w\<lparr>out_support := s1, out_phase := Looping (Suc i),
    out_open := out_open w @ (case request of None \<Rightarrow> [] | Some q \<Rightarrow> [q])\<rparr>"
  have step: "out_step store w w1"
    unfolding w1_def using Suc.prems(2) less round by (rule out_step.Round)
  obtain e1 c1 ws1 s2 where rest: "wo_loop (\<lambda>_. ([], None)) [Suc i..<wf_nelm ?r] ?r s1 = (e1, c1, ws1, s2)"
    using prod_cases4 by blast
  have "e1 = None \<and> c1 = [] \<and> (out_step store)\<^sup>*\<^sup>* w1
      (w1\<lparr>out_support := s2, out_phase := Looping (wf_nelm ?r), out_open := out_open w1 @ ws1\<rparr>)"
    using Suc.hyps(1) [of w1 "Suc i" e1 c1 ws1 s2] rest less Suc.hyps(2) by (simp add: w1_def)
  moreover have "e = e1 \<and> calls = c1 \<and> s' = s2 \<and> ws = (case request of None \<Rightarrow> [] | Some q \<Rightarrow> [q]) @ ws1"
    using Suc.prems(1) upt round rest by (cases request) auto
  ultimately show ?case using step by (auto simp: w1_def intro: converse_rtranclp_into_rtranclp)
qed

lemma wo_processRecord_steps:
  assumes "wo_processRecord (\<lambda>_. ([], None)) (out_support w) (out_record w) = (e, calls, ws, s', r')"
    "\<not> processing (out_phase w)" "\<not> wf_pact (out_record w)"
  shows "(out_step store)\<^sup>*\<^sup>* w (w\<lparr>out_support := s', out_record := r',
    out_phase := (if wf_pact r' then Waiting else Finished e), out_open := out_open w @ ws,
    out_wanted := map (\<lambda>i. get_element i (out_record w)) [0..<wf_nelm (out_record w)]\<rparr>)"
proof -
  let ?r1 = "(out_record w)\<lparr>wf_nord := wf_nelm (out_record w)\<rparr>"
  define w1 where "w1 = w\<lparr>out_support := wo_begin (out_support w), out_phase := Looping 0, out_record := ?r1,
    out_wanted := map (\<lambda>i. get_element i (out_record w)) [0..<wf_nelm (out_record w)]\<rparr>"
  have start: "out_step store w w1" unfolding w1_def using assms(2,3) by (rule out_step.Start)
  obtain e1 c1 ws1 s1 where loop: "wo_loop (\<lambda>_. ([], None)) [0..<wf_nelm ?r1] ?r1 (wo_begin (out_support w)) = (e1, c1, ws1, s1)"
    using prod_cases4 by blast
  define w2 where "w2 = w1\<lparr>out_support := s1, out_phase := Looping (wf_nelm (out_record w1)), out_open := out_open w1 @ ws1\<rparr>"
  have steps: "e1 = None \<and> c1 = [] \<and> (out_step store)\<^sup>*\<^sup>* w1 w2"
    unfolding w2_def using wo_loop_steps [of 0 w1] loop by (simp add: w1_def)
  obtain e2 c2 s2 r2 where fin: "wo_end s1 ?r1 = (e2, c2, s2, r2)" using prod_cases4 by blast
  define w3 where "w3 = w2\<lparr>out_support := s2, out_record := r2, out_phase := (if wf_pact r2 then Waiting else Finished e2)\<rparr>"
  have "out_step store w2 w3"
    unfolding w3_def by (rule out_step.End [where calls = c2]) (simp_all add: w2_def w1_def fin)
  then have "(out_step store)\<^sup>*\<^sup>* w w3"
    using start steps by (meson converse_rtranclp_into_rtranclp rtranclp.rtrancl_into_rtrancl)
  moreover have "e = e2 \<and> ws = ws1 \<and> s' = s2 \<and> r' = r2"
    using assms(1,3) loop steps fin by (simp add: wo_processRecord_def Let_def)
  moreover from this have "w\<lparr>out_support := s', out_record := r',
    out_phase := (if wf_pact r' then Waiting else Finished e), out_open := out_open w @ ws,
    out_wanted := map (\<lambda>i. get_element i (out_record w)) [0..<wf_nelm (out_record w)]\<rparr> = w3"
    by (intro WaveformOut.equality) (simp_all add: w3_def w2_def w1_def)
  ultimately show ?thesis by (simp only:)
qed

section \<open>Output: properties\<close>

text \<open>
  C23.
  After a processing of a waveform record for output has ended without an error, the memory of the device
  holds at the address of each element the value the element had when the processing began, or, when the
  record does not verify what it writes, what the device makes of it; whatever the order of the replies,
  also those that arrive while the requests are made, whether elements are skipped because they have not
  changed, and whatever processings and changes of the record came before.
\<close>

theorem waveform_output_written:
  assumes "out_reachable store w" "out_phase w = Finished None" "i < wf_nelm (out_record w)"
  shows "out_memory w (element_address (wo_address (out_support w)) i) =
    (if ra_verify (wo_address (out_support w)) then out_wanted w ! i
     else store (element_address (wo_address (out_support w)) i) (out_wanted w ! i))"
proof -
  have ok: "out_shape w" "out_counted w" "out_held store w" "out_written w"
    using out_ok_reachable [OF assms(1)] by (simp_all add: out_ok_def)
  have "out_open w = []" using ok(2) assms(2) by (simp add: out_counted_def counted_def)
  then have "wo_lastValueWritten (out_support w) ! i = out_wanted w ! i \<and> wo_lastValueWrittenValid (out_support w) ! i"
    using ok(4) out_shapeD(7) [OF ok(1)] assms by (simp add: out_written_def Let_def visited_def unanswered_def)
  then show ?thesis
    using ok(3) assms(3) by (auto simp: out_held_def Let_def held_def)
qed



text \<open>An example: two elements, the second of which is answered first.\<close>

definition example_record :: waveformRecord where
  "example_record = \<lparr>wf_pact = False, wf_udf = True, wf_ftvl = DBF_USHORT, wf_nelm = 2, wf_nord = 2, wf_bptr = [0, 0]\<rparr>"

definition example_address :: MrfRecordAddress where
  "example_address = \<lparr>ra_deviceId = ''dev'', ra_address = 16, ra_highestBit = 31, ra_lowestBit = 0,
     ra_dataType = uInt32, ra_changedElementsOnly = False, ra_elementDistance = 4, ra_readOnInit = False,
     ra_stringLength = 0, ra_verify = False, ra_zeroOtherBits = False\<rparr>"

definition example_registry :: MrfDeviceRegistry where
  "example_registry = new_MrfDeviceRegistry\<lparr>devices := [''dev'' \<mapsto> 0]\<rparr>"

definition example_out :: "bool \<Rightarrow> u32 \<Rightarrow> u32 list \<Rightarrow> bool list \<Rightarrow> MrfWaveformOutRecord" where
  "example_out success pending written valid = \<lparr>wo_address = example_address, wo_device = 0,
     wo_writeSuccessful = success, wo_writeErrorMessage = [], wo_pendingWriteRequests = pending,
     wo_lastValueWritten = written, wo_lastValueWrittenValid = valid\<rparr>"

definition example_system :: "MrfWaveformOutRecord \<Rightarrow> waveformRecord \<Rightarrow> phase \<Rightarrow> (u32 \<times> u32) list \<Rightarrow> nat
    \<Rightarrow> (u32 \<Rightarrow> u32) \<Rightarrow> WaveformOut" where
  "example_system s r p qs n m = \<lparr>out_support = s, out_record = r, out_phase = p, out_open = qs, out_scheduled = n,
     out_memory = m, out_wanted = [5, 7]\<rparr>"

lemma example_steps:
  "let r = example_record\<lparr>wf_bptr := [5, 7]\<rparr>; r' = r\<lparr>wf_pact := True\<rparr> in
   wo_processRecord (\<lambda>_. ([], None)) (example_out False 0 [0, 0] [False, False]) r
     = (None, [], [(16, 5), (24, 7)], example_out True 2 [5, 7] [False, False], r')
   \<and> wo_callback (Success 24 7) (example_out True 2 [5, 7] [False, False]) = ([], example_out True 1 [5, 7] [False, True])
   \<and> wo_callback (Success 16 5) (example_out True 1 [5, 7] [False, True])
     = ([ScheduleProcessing], example_out True 0 [5, 7] [True, True])
   \<and> wo_processRecord (\<lambda>_. ([], None)) (example_out True 0 [5, 7] [True, True]) r'
     = (None, [], [], example_out True 0 [5, 7] [True, True], r\<lparr>wf_udf := False\<rparr>)"
  by code_simp

lemma example_new:
  "new_MrfWaveformOutRecord (\<lambda>_. Inl []) [] True (Some ''dev 0x10 uint32 no_verify element_distance=4'')
     example_record example_registry
   = (Inr (example_out False 0 [0, 0] [False, False]), [], example_record, example_registry)"
proof -
  have "readRecordAddress True (Some ''dev 0x10 uint32 no_verify element_distance=4'') = Inr example_address"
    by code_simp
  then show ?thesis
    by (simp add: new_MrfWaveformOutRecord_def check_waveform_def example_address_def example_record_def
        example_registry_def getDevice_def example_out_def clear_elements_def Let_def numeral_2_eq_2)
qed

lemma example_reachable:
  "out_reachable (\<lambda>_ v. v) (example_system (example_out True 0 [5, 7] [True, True])
     (example_record\<lparr>wf_bptr := [5, 7], wf_udf := False\<rparr>) (Finished None) [] 0 ((\<lambda>_. 0)(24 := 7, 16 := 5)))"
proof -
  let ?store = "(\<lambda>_ v. v) :: u32 \<Rightarrow> u32 \<Rightarrow> u32" and ?r = "example_record\<lparr>wf_bptr := [5, 7]\<rparr>"
  note runs = example_steps [unfolded Let_def]
  have new: "out_reachable ?store (example_system (example_out False 0 [0, 0] [False, False]) example_record Idle [] 0 (\<lambda>_. 0))"
    unfolding example_system_def
  proof (rule out_reachable.New [OF example_new])
    show "elements_fit (wo_address (example_out False 0 [0, 0] [False, False])) (wf_nelm example_record)"
      by (simp add: elements_fit_def stride_def example_out_def example_address_def example_record_def)
  qed (simp_all add: example_record_def example_registry_def example_out_def example_address_def
      getDeviceCache_def new_MrfDeviceRegistry_def)
  have put: "out_reachable ?store (example_system (example_out False 0 [0, 0] [False, False]) ?r Idle [] 0 (\<lambda>_. 0))"
    using out_reachable.Step [OF new out_step.Put [where vs = "[5, 7]"]]
    by (simp add: example_system_def example_record_def)
  have wanted: "map (\<lambda>i. get_element i ?r) [0..<wf_nelm ?r] = [5, 7]" by code_simp
  have "(out_step ?store)\<^sup>*\<^sup>* (example_system (example_out False 0 [0, 0] [False, False]) ?r Idle [] 0 (\<lambda>_. 0))
      (example_system (example_out True 2 [5, 7] [False, False]) (?r\<lparr>wf_pact := True\<rparr>) Waiting [(16, 5), (24, 7)] 0 (\<lambda>_. 0))"
    using wo_processRecord_steps [of "example_system (example_out False 0 [0, 0] [False, False]) ?r Idle [] 0 (\<lambda>_. 0)"]
      runs wanted by (simp add: example_system_def example_record_def)
  then have "out_reachable ?store
      (example_system (example_out True 2 [5, 7] [False, False]) (?r\<lparr>wf_pact := True\<rparr>) Waiting [(16, 5), (24, 7)] 0 (\<lambda>_. 0))"
    using put by (induction rule: rtranclp_induct) (blast intro: out_reachable.Step)+
  from out_reachable.Step [OF this out_step.Stored [where xs = "[(16, 5)]" and a = 24 and v = 7 and ys = "[]"]]
  have "out_reachable ?store
      (example_system (example_out True 1 [5, 7] [False, True]) (?r\<lparr>wf_pact := True\<rparr>) Waiting [(16, 5)] 0 ((\<lambda>_. 0)(24 := 7)))"
    using runs by (simp add: example_system_def)
  from out_reachable.Step [OF this out_step.Stored [where xs = "[]" and a = 16 and v = 5 and ys = "[]"]]
  have "out_reachable ?store
      (example_system (example_out True 0 [5, 7] [True, True]) (?r\<lparr>wf_pact := True\<rparr>) Waiting [] 1 ((\<lambda>_. 0)(24 := 7, 16 := 5)))"
    using runs by (simp add: example_system_def)
  from out_reachable.Step [OF this out_step.Again [where sync = "\<lambda>_. ([], None)"]]
  show ?thesis using runs by (simp add: example_system_def example_record_def)
qed

theorem waveform_output_written_witness:
  "\<exists>w. out_reachable (\<lambda>_ v. v) w \<and> out_phase w = Finished None \<and> out_memory w 24 = 7"
proof -
  let ?w = "example_system (example_out True 0 [5, 7] [True, True])
     (example_record\<lparr>wf_bptr := [5, 7], wf_udf := False\<rparr>) (Finished None) [] 0 ((\<lambda>_. 0)(24 := 7, 16 := 5))"
  have "out_memory ?w (element_address (wo_address (out_support ?w)) 1) = 7"
    using waveform_output_written [OF example_reachable, of 1]
    by (simp add: example_system_def example_out_def example_address_def example_record_def)
  moreover have "element_address (wo_address (out_support ?w)) 1 = 24" by code_simp
  ultimately have "out_memory ?w 24 = 7" by simp
  moreover have "out_phase ?w = Finished None" by (simp add: example_system_def)
  ultimately show ?thesis using example_reachable by blast
qed

section \<open>Input: a record and its device\<close>

text \<open>The replies that the device has given in the current processing, by element, are ghost state.\<close>

record WaveformIn =
  in_support :: MrfWaveformInRecord
  in_record :: waveformRecord
  in_phase :: phase
  in_open :: "u32 list"
  in_scheduled :: nat
  in_replies :: "nat \<Rightarrow> u32 option"

inductive in_step :: "WaveformIn \<Rightarrow> WaveformIn \<Rightarrow> bool" where
  Put: "\<not> processing (in_phase w) \<Longrightarrow> length vs = wf_nelm (in_record w) \<Longrightarrow>
    in_step w (w\<lparr>in_record := (in_record w)\<lparr>wf_bptr := vs\<rparr>,
      in_phase := (if wf_pact (in_record w) then in_phase w else Idle)\<rparr>)"
| Start: "\<not> processing (in_phase w) \<Longrightarrow> \<not> wf_pact (in_record w) \<Longrightarrow>
    in_step w (w\<lparr>in_support := wi_begin (in_support w), in_phase := Looping 0, in_replies := (\<lambda>_. None)\<rparr>)"
| Round: "in_phase w = Looping i \<Longrightarrow> i < wf_nelm (in_record w) \<Longrightarrow> wi_round i (in_support w) = (a, s') \<Longrightarrow>
    in_step w (w\<lparr>in_support := s', in_phase := Looping (Suc i), in_open := in_open w @ [a]\<rparr>)"
| End: "in_phase w = Looping (wf_nelm (in_record w)) \<Longrightarrow> wi_end (in_support w) (in_record w) = (e, calls, s', r') \<Longrightarrow>
    in_step w (w\<lparr>in_support := s', in_record := r',
      in_phase := (if wf_pact r' then Waiting else Finished e)\<rparr>)"
| Answered: "in_open w = xs @ a # ys \<Longrightarrow> wi_callback (Success a v) (in_support w) = (calls, s') \<Longrightarrow>
    in_step w (w\<lparr>in_support := s', in_open := xs @ ys, in_scheduled := in_scheduled w + length calls,
      in_replies := (in_replies w)(element_index (wi_address (in_support w)) a \<mapsto> v)\<rparr>)"
| Refused: "in_open w = xs @ a # ys \<Longrightarrow> wi_callback (Failure a errorCode details) (in_support w) = (calls, s') \<Longrightarrow>
    in_step w (w\<lparr>in_support := s', in_open := xs @ ys, in_scheduled := in_scheduled w + length calls\<rparr>)"
| Again: "\<not> processing (in_phase w) \<Longrightarrow> wf_pact (in_record w) \<Longrightarrow> 0 < in_scheduled w \<Longrightarrow>
    wi_processRecord sync (in_support w) (in_record w) = (e, calls, rs, s', r') \<Longrightarrow>
    in_step w (w\<lparr>in_support := s', in_record := r', in_phase := Finished e, in_scheduled := in_scheduled w - 1\<rparr>)"

definition in_shape :: "WaveformIn \<Rightarrow> bool" where
  "in_shape w \<longleftrightarrow> (let s = in_support w; n = wf_nelm (in_record w)
     in elements_fit (wi_address s) n \<and> length (wi_lastValueRead s) = n \<and> length (wf_bptr (in_record w)) = n
      \<and> wf_ftvl (in_record w) \<noteq> DBF_OTHER
      \<and> (wf_pact (in_record w) \<longleftrightarrow> in_phase w = Waiting) \<and> visited n (in_phase w) \<le> n)"

definition in_counted :: "WaveformIn \<Rightarrow> bool" where
  "in_counted w \<longleftrightarrow> counted (in_phase w) (wi_pendingReadRequests (in_support w)) (length (in_open w)) (in_scheduled w)"

text \<open>Each element that has been visited is open, or has the reply of the device, or a request failed.\<close>

definition in_answered :: "WaveformIn \<Rightarrow> bool" where
  "in_answered w \<longleftrightarrow> (let s = in_support w; n = wf_nelm (in_record w); k = visited n (in_phase w)
     in distinct (in_open w) \<and> set (in_open w) \<subseteq> element_address (wi_address s) ` {..<k}
      \<and> (\<forall>i<n. \<forall>v. in_replies w i = Some v \<longrightarrow> wi_lastValueRead s ! i = v)
      \<and> (\<forall>i<k. wi_readSuccessful s \<longrightarrow> element_address (wi_address s) i \<in> set (in_open w) \<or> in_replies w i \<noteq> None))"

text \<open>After a processing without an error the record holds the replies.\<close>

definition in_delivered :: "WaveformIn \<Rightarrow> bool" where
  "in_delivered w \<longleftrightarrow> (let r = in_record w
     in in_phase w = Finished None \<longrightarrow> wf_nord r = wf_nelm r \<and> \<not> wf_udf r
      \<and> (\<forall>i<wf_nelm r. \<exists>v. in_replies w i = Some v \<and> wf_bptr r ! i = element_of (wf_ftvl r) v))"

definition in_ok :: "WaveformIn \<Rightarrow> bool" where
  "in_ok w \<longleftrightarrow> in_shape w \<and> in_counted w \<and> in_answered w \<and> in_delivered w"

section \<open>Input: the invariant\<close>

lemma wi_success_effect:
  assumes "wi_callback (Success a v) s = (calls, s')" "element_index (wi_address s) a = i" "i < length (wi_lastValueRead s)"
  shows "wi_address s' = wi_address s \<and> wi_lastValueRead s' = (wi_lastValueRead s)[i := v]
    \<and> wi_readSuccessful s' = wi_readSuccessful s"
  using assms by (auto simp: wi_success_def wi_replied_def Let_def)

lemma wi_failure_effect:
  assumes "wi_callback (Failure a errorCode details) s = (calls, s')"
  shows "wi_address s' = wi_address s \<and> wi_lastValueRead s' = wi_lastValueRead s \<and> \<not> wi_readSuccessful s'"
  using assms by (auto simp: wi_failure_def wi_replied_def Let_def split: if_splits)

lemma fold_put_element_nth:
  assumes "wf_ftvl r \<noteq> DBF_OTHER" "k \<le> length (wf_bptr r)" "i < length (wf_bptr r)"
  shows "wf_bptr (fold (\<lambda>i. put_element i (f i)) [0..<k] r) ! i =
    (if i < k then element_of (wf_ftvl r) (f i) else wf_bptr r ! i)"
  using assms
proof (induction k)
  case (Suc k)
  let ?r = "fold (\<lambda>i. put_element i (f i)) [0..<k] r"
  have "wf_bptr (put_element k (f k) ?r) = (wf_bptr ?r)[k := element_of (wf_ftvl r) (f k)]"
    using Suc.prems by (simp add: put_element_def fold_put_element)
  then show ?case using Suc by (auto simp: fold_put_element nth_list_update less_Suc_eq)
qed simp

lemma wi_result_effect:
  assumes "wi_result s r = (e, calls, r')" "wf_ftvl r \<noteq> DBF_OTHER" "length (wf_bptr r) = wf_nelm r"
  shows "wf_nelm r' = wf_nelm r \<and> wf_pact r' = wf_pact r \<and> wf_ftvl r' = wf_ftvl r
      \<and> length (wf_bptr r') = length (wf_bptr r) \<and> (e = None \<longleftrightarrow> wi_readSuccessful s)"
    "e = None \<Longrightarrow> wf_nord r' = wf_nelm r' \<and> \<not> wf_udf r'
      \<and> (\<forall>i<wf_nelm r'. wf_bptr r' ! i = element_of (wf_ftvl r') (wi_lastValueRead s ! i))"
  using assms by (auto simp: wi_result_def fold_put_element fold_put_element_nth split: if_splits)

lemma in_shapeD:
  assumes "in_shape w"
  shows "elements_fit (wi_address (in_support w)) (wf_nelm (in_record w))"
    "length (wi_lastValueRead (in_support w)) = wf_nelm (in_record w)"
    "length (wf_bptr (in_record w)) = wf_nelm (in_record w)" "wf_ftvl (in_record w) \<noteq> DBF_OTHER"
    "wf_pact (in_record w) \<longleftrightarrow> in_phase w = Waiting"
    "visited (wf_nelm (in_record w)) (in_phase w) \<le> wf_nelm (in_record w)"
  using assms by (auto simp: in_shape_def Let_def)

lemma in_ok_Put:
  assumes ok: "in_ok w" and p: "\<not> processing (in_phase w)" "length vs = wf_nelm (in_record w)"
  shows "in_ok (w\<lparr>in_record := (in_record w)\<lparr>wf_bptr := vs\<rparr>, in_phase := (if wf_pact (in_record w) then in_phase w else Idle)\<rparr>)"
proof (cases "wf_pact (in_record w)")
  case True
  then have "in_phase w = Waiting" using ok by (auto simp: in_ok_def dest: in_shapeD)
  then show ?thesis using ok p True
    unfolding in_ok_def in_shape_def in_counted_def in_answered_def in_delivered_def Let_def by simp
next
  case False
  then have "in_phase w \<noteq> Waiting" using ok by (auto simp: in_ok_def dest: in_shapeD)
  then have "in_open w = [] \<and> in_scheduled w = 0"
    using ok p by (cases "in_phase w") (auto simp: in_ok_def in_counted_def counted_def)
  then show ?thesis using ok p False
    unfolding in_ok_def in_shape_def in_counted_def in_answered_def in_delivered_def Let_def
    by (simp add: counted_def visited_def)
qed

lemma in_ok_Start:
  assumes ok: "in_ok w" and p: "\<not> processing (in_phase w)" "\<not> wf_pact (in_record w)"
  shows "in_ok (w\<lparr>in_support := wi_begin (in_support w), in_phase := Looping 0, in_replies := (\<lambda>_. None)\<rparr>)"
proof -
  have "in_phase w \<noteq> Waiting" using ok p by (auto simp: in_ok_def dest: in_shapeD)
  then have "in_open w = [] \<and> in_scheduled w = 0"
    using ok p by (cases "in_phase w") (auto simp: in_ok_def in_counted_def counted_def)
  moreover have "counted (Looping 0) (wi_pendingReadRequests (wi_begin (in_support w))) 0 0"
    by (rule wi.counted_start)
  ultimately show ?thesis
    using ok p \<open>in_phase w \<noteq> Waiting\<close>
    unfolding in_ok_def in_shape_def in_counted_def in_answered_def in_delivered_def Let_def
    by (simp add: wi_begin_def visited_def)
qed

lemma in_ok_Round:
  assumes ok: "in_ok w" and p: "in_phase w = Looping i" "i < wf_nelm (in_record w)"
    and run: "wi_round i (in_support w) = (a, s')"
  shows "in_ok (w\<lparr>in_support := s', in_phase := Looping (Suc i), in_open := in_open w @ [a]\<rparr>)"
proof -
  have parts: "in_shape w" "in_counted w" "in_answered w" using ok by (simp_all add: in_ok_def)
  note shape = in_shapeD [OF parts(1)]
  have a: "a = element_address (wi_address (in_support w)) i"
    and s': "s' = (in_support w)\<lparr>wi_pendingReadRequests := wi_pendingReadRequests (in_support w) + 1\<rparr>"
    using run by (auto simp: wi_round_def)
  have new: "a \<notin> set (in_open w)"
    using parts(3) p shape(1) by (auto simp: in_answered_def Let_def visited_def a element_address_eq)
  have "Suc (Suc i) < 2 ^ 32" using elements_fit_bound [OF shape(1)] p(2) by linarith
  then have "in_counted (w\<lparr>in_support := s', in_phase := Looping (Suc i), in_open := in_open w @ [a]\<rparr>)"
    using wi.counted_issue(1) parts(2) p(1) s' by (simp add: in_counted_def)
  then show ?thesis
    using parts new p a s' unfolding in_ok_def in_shape_def in_answered_def in_delivered_def Let_def visited_def
    by (auto simp: less_Suc_eq lessThan_Suc)
qed

text \<open>The result of a processing, with or without a wait.\<close>

lemma in_ok_result:
  assumes ok: "in_ok w" and p: "visited (wf_nelm (in_record w)) (in_phase w) = wf_nelm (in_record w)" "in_open w = []"
      "n = 0"
    and res: "wi_result s r = (e, calls, r')" "\<not> wf_pact r" "wf_nelm r = wf_nelm (in_record w)"
      "wf_ftvl r = wf_ftvl (in_record w)" "wf_bptr r = wf_bptr (in_record w)"
    and s: "wi_address s = wi_address (in_support w)" "wi_lastValueRead s = wi_lastValueRead (in_support w)"
      "wi_readSuccessful s = wi_readSuccessful (in_support w)"
  shows "in_ok (w\<lparr>in_support := s, in_record := r', in_phase := Finished e, in_scheduled := n\<rparr>)"
proof -
  have parts: "in_shape w" "in_answered w" using ok by (simp_all add: in_ok_def)
  note shape = in_shapeD [OF parts(1)]
  have eff: "wf_nelm r' = wf_nelm r \<and> wf_pact r' = wf_pact r \<and> wf_ftvl r' = wf_ftvl r
      \<and> length (wf_bptr r') = length (wf_bptr r) \<and> (e = None \<longleftrightarrow> wi_readSuccessful s)"
    by (rule wi_result_effect [OF res(1)]) (use shape res in simp_all)
  have good: "wf_nord r' = wf_nelm r' \<and> \<not> wf_udf r'
      \<and> (\<forall>i<wf_nelm r'. wf_bptr r' ! i = element_of (wf_ftvl r') (wi_lastValueRead s ! i))" if "e = None"
    by (rule wi_result_effect [OF res(1)]) (use shape res that in simp_all)
  let ?w' = "w\<lparr>in_support := s, in_record := r', in_phase := Finished e, in_scheduled := n\<rparr>"
  have vis: "visited n (Finished e) \<le> n" for n by (simp add: visited_def split: option.split)
  have "in_shape ?w'" using parts(1) eff res s vis by (simp add: in_shape_def Let_def)
  moreover have "in_counted ?w'" using p by (simp add: in_counted_def counted_def)
  moreover have "in_answered ?w'"
    using parts(2) p eff res s vis [of "wf_nelm r"] unfolding in_answered_def Let_def by auto
  moreover have "in_delivered ?w'"
    unfolding in_delivered_def Let_def
  proof
    assume "in_phase ?w' = Finished None"
    then have e: "e = None" by simp
    have "\<exists>v. in_replies w i = Some v \<and> wi_lastValueRead s ! i = v" if "i < wf_nelm r'" for i
      using parts(2) p e eff res(3) s that unfolding in_answered_def Let_def by auto
    then show "wf_nord (in_record ?w') = wf_nelm (in_record ?w') \<and> \<not> wf_udf (in_record ?w')
        \<and> (\<forall>i<wf_nelm (in_record ?w'). \<exists>v. in_replies ?w' i = Some v
          \<and> wf_bptr (in_record ?w') ! i = element_of (wf_ftvl (in_record ?w')) v)"
      using good [OF e] by fastforce
  qed
  ultimately show ?thesis by (simp only: in_ok_def)
qed

lemma in_scheduled_same: "in_scheduled w = n \<Longrightarrow> w\<lparr>in_support := s, in_record := r, in_phase := p, in_scheduled := n\<rparr>
    = w\<lparr>in_support := s, in_record := r, in_phase := p\<rparr>"
  by (cases w) simp

lemma in_ok_End:
  assumes ok: "in_ok w" and p: "in_phase w = Looping (wf_nelm (in_record w))"
    and run: "wi_end (in_support w) (in_record w) = (e, calls, s', r')"
  shows "in_ok (w\<lparr>in_support := s', in_record := r', in_phase := (if wf_pact r' then Waiting else Finished e)\<rparr>)"
proof -
  have np: "\<not> wf_pact (in_record w)" using ok p by (auto simp: in_ok_def dest: in_shapeD)
  have parts: "in_shape w" "in_counted w" "in_answered w" using ok by (simp_all add: in_ok_def)
  have cnt: "counted (if wf_pact r' then Waiting else Finished e) (wi_pendingReadRequests s') (length (in_open w)) (in_scheduled w)"
    using parts(2) p by (intro wi.counted_finish [OF _ np run]) (simp add: in_counted_def)
  have s': "wi_address s' = wi_address (in_support w)" "wi_lastValueRead s' = wi_lastValueRead (in_support w)"
    "wi_readSuccessful s' = wi_readSuccessful (in_support w)"
    using run by (auto simp: wi_end_def Let_def split: if_splits prod.splits)
  show ?thesis
  proof (cases "wf_pact r'")
    case True
    then have "r' = (in_record w)\<lparr>wf_pact := True\<rparr>"
      using run np by (auto simp: wi_end_def Let_def wi_result_def fold_put_element split: if_splits)
    then show ?thesis
      using parts cnt p s' True
      unfolding in_ok_def in_shape_def in_answered_def in_delivered_def in_counted_def Let_def
      by (simp add: visited_def)
  next
    case False
    then have "wi_result s' (in_record w) = (e, calls, r')"
      using run by (auto simp: wi_end_def Let_def split: if_splits prod.splits)
    moreover have "in_open w = [] \<and> in_scheduled w = 0" using cnt False by (simp add: counted_def)
    ultimately show ?thesis
      using in_ok_result [OF ok, of 0 s' "in_record w" e calls r'] p s' np False
      by (simp add: visited_def in_scheduled_same)
  qed
qed

lemma in_ok_Again:
  assumes ok: "in_ok w" and p: "wf_pact (in_record w)" "0 < in_scheduled w"
    and run: "wi_processRecord sync (in_support w) (in_record w) = (e, calls, rs, s', r')"
  shows "in_ok (w\<lparr>in_support := s', in_record := r', in_phase := Finished e, in_scheduled := in_scheduled w - 1\<rparr>)"
proof -
  have wait: "in_phase w = Waiting" using ok p by (auto simp: in_ok_def dest: in_shapeD)
  then have none: "in_open w = [] \<and> in_scheduled w = 1"
    using ok p by (auto simp: in_ok_def in_counted_def counted_def split: if_splits)
  have "wi_result (in_support w) ((in_record w)\<lparr>wf_pact := False\<rparr>) = (e, calls, r')" "s' = in_support w"
    using run p by (auto simp: wi_processRecord_def split: prod.splits)
  then show ?thesis
    using in_ok_result [OF ok, of 0 "in_support w" "(in_record w)\<lparr>wf_pact := False\<rparr>" e calls r'] wait none
    by (simp add: visited_def)
qed

lemma in_ok_answer:
  assumes ok: "in_ok w" and q: "in_open w = xs @ a # ys"
    and run: "wi_callback x (in_support w) = (calls, s')"
    and x: "x = Success a v \<and> m = (in_replies w)(element_index (wi_address (in_support w)) a \<mapsto> v)
      \<or> x = Failure a errorCode details \<and> m = in_replies w"
  shows "in_ok (w\<lparr>in_support := s', in_open := xs @ ys, in_scheduled := in_scheduled w + length calls, in_replies := m\<rparr>)"
proof -
  let ?s = "in_support w" and ?n = "wf_nelm (in_record w)"
  let ?w' = "w\<lparr>in_support := s', in_open := xs @ ys, in_scheduled := in_scheduled w + length calls, in_replies := m\<rparr>"
  have parts: "in_shape w" "in_counted w" "in_answered w" using ok by (simp_all add: in_ok_def)
  note shape = in_shapeD [OF parts(1)]
  have "a \<in> element_address (wi_address ?s) ` {..<visited ?n (in_phase w)}"
    using parts(3) q by (auto simp: in_answered_def Let_def)
  then obtain i where "i < visited ?n (in_phase w)" and i2: "a = element_address (wi_address ?s) i" by auto
  then have i: "i < ?n" "a = element_address (wi_address ?s) i" using shape(6) by simp_all
  have idx: "element_index (wi_address ?s) a = i" using element_index_address [OF shape(1) i(1)] i(2) by simp
  have len: "i < length (wi_lastValueRead ?s)" using i(1) shape(2) by simp
  have not_done: "in_phase w \<noteq> Finished None" using parts(2) q by (auto simp: in_counted_def counted_def)
  have eff: "wi_address s' = wi_address ?s \<and>
      (wi_lastValueRead s' = (wi_lastValueRead ?s)[i := v] \<and> m = (in_replies w)(i \<mapsto> v) \<and> wi_readSuccessful s' = wi_readSuccessful ?s
      \<or> wi_lastValueRead s' = wi_lastValueRead ?s \<and> m = in_replies w \<and> \<not> wi_readSuccessful s')"
    using x run wi_success_effect [OF _ idx len] wi_failure_effect unfolding idx by blast
  have "in_shape ?w'" using parts(1) eff by (auto simp: in_shape_def Let_def)
  moreover have "in_counted ?w'" using wi.counted_answer [OF _ run] parts(2) q by (simp add: in_counted_def)
  moreover have "in_answered ?w'"
  proof -
    have fit: "element_address (wi_address ?s) j = a \<longleftrightarrow> j = i" if "j < ?n" for j
      using element_address_eq [OF shape(1)] that i by simp
    show ?thesis
      using eff
    proof (elim conjE disjE)
      assume s: "wi_address s' = wi_address ?s" "wi_lastValueRead s' = (wi_lastValueRead ?s)[i := v]"
        "m = (in_replies w)(i \<mapsto> v)" "wi_readSuccessful s' = wi_readSuccessful ?s"
      show ?thesis
        using parts(3) q s i fit len shape(6) unfolding in_answered_def Let_def by (auto simp: nth_list_update)
    next
      assume "wi_address s' = wi_address ?s" "wi_lastValueRead s' = wi_lastValueRead ?s" "m = in_replies w"
        "\<not> wi_readSuccessful s'"
      then show ?thesis using parts(3) q unfolding in_answered_def Let_def by auto
    qed
  qed
  moreover have "in_delivered ?w'" using not_done by (simp add: in_delivered_def Let_def)
  ultimately show ?thesis by (simp only: in_ok_def)
qed

section \<open>Input: all runs\<close>

inductive in_reachable :: "WaveformIn \<Rightarrow> bool" where
  New: "new_MrfWaveformInRecord instIo inp r g = Inr (s, r') \<Longrightarrow>
    elements_fit (wi_address s) (wf_nelm r) \<Longrightarrow> \<not> wf_pact r \<Longrightarrow>
    in_reachable \<lparr>in_support = s, in_record = r', in_phase = Idle, in_open = [], in_scheduled = 0,
      in_replies = (\<lambda>_. None)\<rparr>"
| Step: "in_reachable w \<Longrightarrow> in_step w w' \<Longrightarrow> in_reachable w'"

lemma in_ok_New:
  assumes "new_MrfWaveformInRecord instIo inp r g = Inr (s, r')" "elements_fit (wi_address s) (wf_nelm r)" "\<not> wf_pact r"
  shows "in_ok \<lparr>in_support = s, in_record = r', in_phase = Idle, in_open = [], in_scheduled = 0, in_replies = (\<lambda>_. None)\<rparr>"
proof -
  obtain d where "check_waveform ''reading individual bits'' (wi_address s) (wf_ftvl r) g = Inr d"
    and s: "wi_lastValueRead s = replicate (wf_nelm r) 0" "r' = clear_elements r"
    using assms(1) by (auto simp: new_MrfWaveformInRecord_def split: sum.splits)
  then have "wf_ftvl r \<noteq> DBF_OTHER" by (auto simp: check_waveform_def split: if_splits)
  then show ?thesis
    using assms(2,3) s
    unfolding in_ok_def in_shape_def in_counted_def in_answered_def in_delivered_def Let_def
    by (simp add: counted_def visited_def clear_elements_def)
qed

lemma in_ok_step: "in_step w w' \<Longrightarrow> in_ok w \<Longrightarrow> in_ok w'"
proof (induction rule: in_step.induct)
  case (Answered w xs a ys v calls s')
  then show ?case using in_ok_answer [where x = "Success a v"] by blast
next
  case (Refused w xs a ys errorCode details calls s')
  have "w\<lparr>in_support := s', in_open := xs @ ys, in_scheduled := in_scheduled w + length calls, in_replies := in_replies w\<rparr>
      = w\<lparr>in_support := s', in_open := xs @ ys, in_scheduled := in_scheduled w + length calls\<rparr>"
    by (cases w) simp
  then show ?case
    using in_ok_answer [OF Refused.prems Refused.hyps, where m = "in_replies w" and errorCode = errorCode and details = details]
    by simp
qed (blast intro: in_ok_Put in_ok_Start in_ok_Round in_ok_End in_ok_Again)+

lemma in_ok_reachable: "in_reachable w \<Longrightarrow> in_ok w"
  by (induction rule: in_reachable.induct) (blast intro: in_ok_New in_ok_step)+

text \<open>
  After a processing of a waveform record for input has ended without an error, the number of elements of
  the record is that of its buffer, the record is defined, and each element is the reply that the device
  gave to the request for that element in this processing, truncated to the type of the elements,
  whatever the order of the replies.
\<close>

lemma waveform_input_delivered:
  assumes "in_reachable w" "in_phase w = Finished None"
  shows "wf_nord (in_record w) = wf_nelm (in_record w) \<and> \<not> wf_udf (in_record w)
    \<and> \<not> (\<exists>i<wf_nelm (in_record w). \<nexists>v. in_replies w i = Some v
        \<and> wf_bptr (in_record w) ! i = element_of (wf_ftvl (in_record w)) v)"
  using in_ok_reachable [OF assms(1)] assms(2) by (simp add: in_ok_def in_delivered_def Let_def)

definition example_in :: "bool \<Rightarrow> u32 \<Rightarrow> u32 \<Rightarrow> MrfWaveformInRecord" where
  "example_in success pending v = \<lparr>wi_address = example_address, wi_device = 0, wi_readSuccessful = success,
     wi_readErrorMessage = [], wi_pendingReadRequests = pending, wi_lastValueRead = [v]\<rparr>"

definition example_in_record :: "bool \<Rightarrow> bool \<Rightarrow> nat \<Rightarrow> u32 \<Rightarrow> waveformRecord" where
  "example_in_record pact udf nord v =
     \<lparr>wf_pact = pact, wf_udf = udf, wf_ftvl = DBF_UCHAR, wf_nelm = 1, wf_nord = nord, wf_bptr = [v]\<rparr>"

definition example_in_system :: "MrfWaveformInRecord \<Rightarrow> waveformRecord \<Rightarrow> phase \<Rightarrow> u32 list \<Rightarrow> nat
    \<Rightarrow> (nat \<Rightarrow> u32 option) \<Rightarrow> WaveformIn" where
  "example_in_system s r p qs n m = \<lparr>in_support = s, in_record = r, in_phase = p, in_open = qs, in_scheduled = n,
     in_replies = m\<rparr>"

lemma example_in_steps:
  "new_MrfWaveformInRecord True (Some ''dev 0x10 uint32 no_verify element_distance=4'')
     (example_in_record False True 0 0) example_registry = Inr (example_in False 0 0, example_in_record False True 0 0)
   \<and> wi_begin (example_in False 0 0) = example_in True 1 0
   \<and> wi_round 0 (example_in True 1 0) = (16, example_in True 2 0)
   \<and> wi_end (example_in True 2 0) (example_in_record False True 0 0)
     = (None, [], example_in True 1 0, example_in_record True True 0 0)
   \<and> wi_callback (Success 16 0x1234) (example_in True 1 0) = ([ScheduleProcessing], example_in True 0 0x1234)
   \<and> element_index (wi_address (example_in True 1 0)) 16 = 0
   \<and> wi_processRecord (\<lambda>_. ([], None)) (example_in True 0 0x1234) (example_in_record True True 0 0)
     = (None, [], [], example_in True 0 0x1234, example_in_record False False 1 0x34)"
  by code_simp

lemma example_in_reachable:
  "in_reachable (example_in_system (example_in True 0 0x1234) (example_in_record False False 1 0x34)
     (Finished None) [] 0 [0 \<mapsto> 0x1234])"
proof -
  note runs = example_in_steps
  have "in_reachable (example_in_system (example_in False 0 0) (example_in_record False True 0 0) Idle [] 0 (\<lambda>_. None))"
    unfolding example_in_system_def
    by (rule in_reachable.New [where g = example_registry and instIo = True and r = "example_in_record False True 0 0"
          and inp = "Some ''dev 0x10 uint32 no_verify element_distance=4''"])
       (use runs in \<open>simp_all add: elements_fit_def stride_def example_in_def example_address_def example_in_record_def\<close>)
  from in_reachable.Step [OF this in_step.Start]
  have "in_reachable (example_in_system (example_in True 1 0) (example_in_record False True 0 0) (Looping 0) [] 0 (\<lambda>_. None))"
    using runs by (simp add: example_in_system_def example_in_record_def)
  from in_reachable.Step [OF this in_step.Round [of _ 0 16 "example_in True 2 0"]]
  have "in_reachable (example_in_system (example_in True 2 0) (example_in_record False True 0 0) (Looping 1) [16] 0 (\<lambda>_. None))"
    using runs by (simp add: example_in_system_def example_in_record_def)
  from in_reachable.Step [OF this in_step.End [of _ None "[]" "example_in True 1 0" "example_in_record True True 0 0"]]
  have "in_reachable (example_in_system (example_in True 1 0) (example_in_record True True 0 0) Waiting [16] 0 (\<lambda>_. None))"
    using runs by (simp add: example_in_system_def example_in_record_def)
  from in_reachable.Step [OF this in_step.Answered [where xs = "[]" and a = 16 and ys = "[]" and v = "0x1234"]]
  have "in_reachable (example_in_system (example_in True 0 0x1234) (example_in_record True True 0 0) Waiting [] 1 [0 \<mapsto> 0x1234])"
    using runs by (simp add: example_in_system_def example_in_record_def)
  from in_reachable.Step [OF this in_step.Again [where sync = "\<lambda>_. ([], None)"]]
  show ?thesis using runs by (simp add: example_in_system_def example_in_record_def)
qed

theorem waveform_input_delivered_witness:
  "\<exists>w. in_reachable w \<and> in_phase w = Finished None \<and> in_replies w 0 = Some 0x1234 \<and> wf_bptr (in_record w) = [0x34]
    \<and> wf_nord (in_record w) = 1"
proof -
  let ?w = "example_in_system (example_in True 0 0x1234) (example_in_record False False 1 0x34) (Finished None) [] 0 [0 \<mapsto> 0x1234]"
  have "wf_nord (in_record ?w) = 1"
    using waveform_input_delivered [OF example_in_reachable] by (simp add: example_in_system_def example_in_record_def)
  moreover have "in_phase ?w = Finished None \<and> in_replies ?w 0 = Some 0x1234 \<and> wf_bptr (in_record ?w) = [0x34]"
    by (simp add: example_in_system_def example_in_record_def)
  ultimately show ?thesis using example_in_reachable by blast
qed

end
