(* ===== verification/StringinRecord.thy ===== *)
theory StringinRecord
  imports CountedRequests RecordAddress_Props
begin

text \<open>
  The device support of stringin records (\<^verbatim>\<open>mrfApp/mrfEpicsSrc/MrfStringinRecord.cpp\<close>): the bytes of a
  string are read register by register, and put together in the order of their addresses whatever the
  order of the replies and the byte order of the host.
\<close>

section \<open>State and operations\<close>

definition maxStringLength :: nat where
  "maxStringLength = 40"

record stringinRecord =
  st_pact :: bool
  st_udf :: bool
  st_val :: "u8 list"

record MrfStringinRecord =
  si_address :: MrfRecordAddress
  si_device :: nat
  si_readSuccessful :: bool
  si_readErrorMessage :: string
  si_pendingReadRequests :: u32
  si_lastValueRead :: "u8 list"

text \<open>\<^verbatim>\<open>memcpy\<close> into a buffer, and the string length as the unsigned number the code compares with.\<close>

definition copy_bytes :: "nat \<Rightarrow> u8 list \<Rightarrow> u8 list \<Rightarrow> u8 list" where
  "copy_bytes offset bs buffer = take offset buffer @ bs @ drop (offset + length bs) buffer"

definition string_length32 :: "MrfStringinRecord \<Rightarrow> nat" where
  "string_length32 s = unat (word_of_int (ra_stringLength (si_address s)) :: u32)"

definition si_replied :: "MrfStringinRecord \<Rightarrow> epics_call list \<times> MrfStringinRecord" where
  "si_replied s =
     (let s' = s\<lparr>si_pendingReadRequests := si_pendingReadRequests s - 1\<rparr>
      in (if si_pendingReadRequests s' = 0 then [ScheduleProcessing] else [], s'))"

definition si_success16 :: "byte_order \<Rightarrow> u32 \<Rightarrow> u16 \<Rightarrow> MrfStringinRecord \<Rightarrow> epics_call list \<times> MrfStringinRecord" where
  "si_success16 bo a v s =
     (let offset = unat (a - ra_address (si_address s))
      in si_replied
          (if offset + 2 \<le> string_length32 s
           then s\<lparr>si_lastValueRead := copy_bytes offset (mem_bytes16 bo (htons bo v)) (si_lastValueRead s)\<rparr> else s))"

definition si_success32 :: "byte_order \<Rightarrow> u32 \<Rightarrow> u32 \<Rightarrow> MrfStringinRecord \<Rightarrow> epics_call list \<times> MrfStringinRecord" where
  "si_success32 bo a v s =
     (let offset = unat (a - ra_address (si_address s))
      in si_replied
          (if offset + 4 \<le> string_length32 s
           then s\<lparr>si_lastValueRead := copy_bytes offset (mem_bytes32 bo (htonl bo v)) (si_lastValueRead s)\<rparr> else s))"

definition si_failure :: "u32 \<Rightarrow> ErrorCode \<Rightarrow> string \<Rightarrow> MrfStringinRecord \<Rightarrow> epics_call list \<times> MrfStringinRecord" where
  "si_failure a errorCode details s = si_replied
     (if si_readSuccessful s
      then s\<lparr>si_readSuccessful := False, si_readErrorMessage := ''Error reading from address ''
        @ mrfMemoryAddressToString a @ '': '' @ failure_text errorCode details\<rparr>
      else s)"

datatype string_reply = Reply16 "u16 reply" | Reply32 "u32 reply"

fun si_callback :: "byte_order \<Rightarrow> string_reply \<Rightarrow> MrfStringinRecord \<Rightarrow> epics_call list \<times> MrfStringinRecord" where
  "si_callback bo (Reply16 (Success a v)) s = si_success16 bo a v s"
| "si_callback bo (Reply32 (Success a v)) s = si_success32 bo a v s"
| "si_callback bo (Reply16 (Failure a errorCode details)) s = si_failure a errorCode details s"
| "si_callback bo (Reply32 (Failure a errorCode details)) s = si_failure a errorCode details s"

fun si_callbacks :: "byte_order \<Rightarrow> string_reply list \<Rightarrow> MrfStringinRecord \<Rightarrow> epics_call list \<times> MrfStringinRecord" where
  "si_callbacks bo [] s = ([], s)"
| "si_callbacks bo (x # xs) s = (case si_callback bo x s of (calls, s') \<Rightarrow> apfst ((@) calls) (si_callbacks bo xs s'))"

text \<open>The decimal text of a unit size or of the maximal length.\<close>

definition unit_text :: "int \<Rightarrow> string" where
  "unit_text n = (if n = 2 then ''2'' else if n = 4 then ''4'' else ''40'')"

definition unitSize :: "DataType \<Rightarrow> nat" where
  "unitSize t = (case t of uInt16 \<Rightarrow> 2 | uInt32 \<Rightarrow> 4)"

text \<open>The constructor; \<open>raw\<close> is what the memory of \<^verbatim>\<open>lastValueRead\<close>, which is not initialised, held.\<close>

definition new_MrfStringinRecord ::
    "bool \<Rightarrow> string option \<Rightarrow> u8 list \<Rightarrow> MrfDeviceRegistry \<Rightarrow> exn + MrfStringinRecord" where
  "new_MrfStringinRecord instIo inp raw g = (case readRecordAddress instIo inp of
     Inl e \<Rightarrow> Inl e
   | Inr address \<Rightarrow>
      let len = ra_stringLength address; unit = int (unitSize (ra_dataType address))
      in if ra_elementDistance address \<noteq> 0
         then Inl (RuntimeError ''The stringin record does not support setting an element distance.'')
         else if len \<le> 0 then Inl (RuntimeError ''The string length must be set to a positive value.'')
         else if len mod unit \<noteq> 0
         then Inl (RuntimeError (''The stringin record only supports string lengths that are a multiple of '' @ unit_text unit @ ''.''))
         else if len > int maxStringLength
         then Inl (RuntimeError (''The string length must not exceed '' @ unit_text (int maxStringLength) @ '' bytes.''))
         else if ra_highestBit address \<noteq> 31 \<or> ra_lowestBit address \<noteq> 0
         then Inl (RuntimeError ''The stringin record does not support reading individual bits of a register.'')
         else (case getDevice (ra_deviceId address) g of
            None \<Rightarrow> Inl (RuntimeError (''Could not find device '' @ ra_deviceId address @ ''.''))
          | Some d \<Rightarrow> Inr \<lparr>si_address = address, si_device = d, si_readSuccessful = False, si_readErrorMessage = [],
              si_pendingReadRequests = 0, si_lastValueRead = raw\<rparr>))"

definition si_begin :: "MrfStringinRecord \<Rightarrow> MrfStringinRecord" where
  "si_begin s = s\<lparr>si_readSuccessful := True, si_pendingReadRequests := 1\<rparr>"

text \<open>The offsets of the loop, and the request for one of them.\<close>

function string_offsets :: "nat \<Rightarrow> nat \<Rightarrow> nat \<Rightarrow> nat list" where
  "string_offsets unit len offset =
     (if offset < len \<and> 0 < unit then offset # string_offsets unit len (offset + unit) else [])"
  by pat_completeness auto
termination by (relation "measure (\<lambda>(unit, len, offset). len - offset)") auto

declare string_offsets.simps [simp del]

definition string_request :: "MrfStringinRecord \<Rightarrow> nat \<Rightarrow> device_op" where
  "string_request s offset = (let a = ra_address (si_address s) + of_nat offset
     in case ra_dataType (si_address s) of uInt16 \<Rightarrow> ReadUInt16 a | uInt32 \<Rightarrow> ReadUInt32 a)"

definition si_result :: "MrfStringinRecord \<Rightarrow> stringinRecord \<Rightarrow> exn option \<times> epics_call list \<times> stringinRecord" where
  "si_result s r =
     (if \<not> si_readSuccessful s
      then (Some (RuntimeError (si_readErrorMessage s)), [SetInvalid READ_ALARM], r)
      else
        let stringLength = ra_stringLength (si_address s)
        in (None, [], r\<lparr>st_val := (take maxStringLength (si_lastValueRead s))
             [(if stringLength \<ge> int maxStringLength then maxStringLength - 1 else nat stringLength) := 0],
             st_udf := False\<rparr>))"

definition si_end ::
    "MrfStringinRecord \<Rightarrow> stringinRecord \<Rightarrow> exn option \<times> epics_call list \<times> MrfStringinRecord \<times> stringinRecord" where
  "si_end s r =
     (let s' = s\<lparr>si_pendingReadRequests := si_pendingReadRequests s - 1\<rparr>
      in if si_pendingReadRequests s' = 0
         then (case si_result s' r of (e, calls, r') \<Rightarrow> (e, calls, s', r'))
         else (None, [], s', r\<lparr>st_pact := True\<rparr>))"

fun si_loop ::
    "byte_order \<Rightarrow> (nat \<Rightarrow> string_reply list \<times> exn option) \<Rightarrow> nat list \<Rightarrow> MrfStringinRecord
      \<Rightarrow> exn option \<times> epics_call list \<times> device_op list \<times> MrfStringinRecord" where
  "si_loop bo sync [] s = (None, [], [], s)"
| "si_loop bo sync (offset # os) s =
     (let s' = s\<lparr>si_pendingReadRequests := si_pendingReadRequests s + 1\<rparr>; q = string_request s' offset
      in case sync offset of (replies, thrown) \<Rightarrow>
       (case si_callbacks bo replies s' of (calls, s'') \<Rightarrow>
         (case thrown of
            Some e \<Rightarrow> (Some e, calls, [q], s'')
          | None \<Rightarrow> (case si_loop bo sync os s'' of (e, calls', qs, t) \<Rightarrow> (e, calls @ calls', q # qs, t)))))"

definition si_processRecord ::
    "byte_order \<Rightarrow> (nat \<Rightarrow> string_reply list \<times> exn option) \<Rightarrow> MrfStringinRecord \<Rightarrow> stringinRecord
      \<Rightarrow> exn option \<times> epics_call list \<times> device_op list \<times> MrfStringinRecord \<times> stringinRecord" where
  "si_processRecord bo sync s r =
     (if st_pact r then
        (case si_result s (r\<lparr>st_pact := False\<rparr>) of (e, calls, r') \<Rightarrow> (e, calls, [], s, r'))
      else (case si_loop bo sync (string_offsets (unitSize (ra_dataType (si_address s))) (string_length32 s) 0) (si_begin s) of
        (Some e, calls, qs, s') \<Rightarrow> (Some e, calls, qs, s', r)
      | (None, calls, qs, s') \<Rightarrow> (case si_end s' r of (e, calls', s'', r') \<Rightarrow> (e, calls @ calls', qs, s'', r'))))"

interpretation si: counted_requests si_pendingReadRequests si_begin "si_callback bo" si_end st_pact
proof unfold_locales
  show "si_pendingReadRequests (si_begin s) = 1" for s by (simp add: si_begin_def)
  show "si_pendingReadRequests s' = si_pendingReadRequests s - 1
      \<and> calls = (if si_pendingReadRequests s' = 0 then [ScheduleProcessing] else [])"
    if "si_callback bo x s = (calls, s')" for x s calls s'
    using that by (cases "(bo, x, s)" rule: si_callback.cases)
      (auto simp: si_success16_def si_success32_def si_failure_def si_replied_def Let_def split: if_splits)
  show "si_pendingReadRequests s' = si_pendingReadRequests s - 1 \<and> (st_pact r' \<longleftrightarrow> si_pendingReadRequests s' \<noteq> 0)"
    if "\<not> st_pact r" "si_end s r = (e, calls, s', r')" for r s e calls s' r'
    using that by (auto simp: si_end_def si_result_def Let_def split: if_splits)
qed

section \<open>Properties\<close>

lemma length_copy_bytes [simp]:
  "offset + length bs \<le> length buffer \<Longrightarrow> length (copy_bytes offset bs buffer) = length buffer"
  by (simp add: copy_bytes_def)

lemma copy_bytes_nth:
  assumes "offset + length bs \<le> length buffer" "j < length buffer"
  shows "copy_bytes offset bs buffer ! j =
    (if offset \<le> j \<and> j < offset + length bs then bs ! (j - offset) else buffer ! j)"
  using assms by (auto simp: copy_bytes_def nth_append)

lemma new_MrfStringinRecord_facts:
  assumes "new_MrfStringinRecord instIo inp raw g = Inr s"
  shows "ra_dataType (si_address s) = uInt32"
    "\<exists>n. ra_stringLength (si_address s) = int (4 * n) \<and> 0 < n \<and> n \<le> 10" "si_lastValueRead s = raw"
proof -
  obtain a where a: "readRecordAddress instIo inp = Inr a"
    using assms by (auto simp: new_MrfStringinRecord_def split: sum.splits)
  then have "wf_address a" using new_address_wf by (auto simp: readRecordAddress_def split: if_split_asm)
  moreover have s: "si_address s = a" "si_lastValueRead s = raw" "ra_highestBit a = 31" "0 < ra_stringLength a"
    "ra_stringLength a mod int (unitSize (ra_dataType a)) = 0" "ra_stringLength a \<le> 40"
    using assms a by (auto simp: new_MrfStringinRecord_def Let_def maxStringLength_def split: if_splits option.splits)
  ultimately have t: "ra_dataType a = uInt32"
    by (cases "ra_dataType a") (auto simp: wf_address_def)
  with s have "4 dvd ra_stringLength a" by (simp add: unitSize_def dvd_eq_mod_eq_0)
  then obtain k where "ra_stringLength a = 4 * k" by (elim dvdE)
  then have "ra_stringLength a = int (4 * nat k) \<and> 0 < nat k \<and> nat k \<le> 10" using s by linarith
  then show "ra_dataType (si_address s) = uInt32"
    "\<exists>n. ra_stringLength (si_address s) = int (4 * n) \<and> 0 < n \<and> n \<le> 10" "si_lastValueRead s = raw"
    using s t by blast+
qed

lemma string_offsets_words: "string_offsets 4 (4 * n) (4 * i) = map (\<lambda>j. 4 * j) [i..<n]"
proof (induction "n - i" arbitrary: i)
  case 0
  then show ?case by (simp add: string_offsets.simps)
next
  case (Suc k)
  then have "string_offsets 4 (4 * n) (4 * Suc i) = map (\<lambda>j. 4 * j) [Suc i..<n]" by (intro Suc.hyps(1)) simp
  moreover have "i < n" using Suc.hyps(2) by simp
  ultimately show ?case by (simp add: string_offsets.simps [of 4 "4 * n" "4 * i"] upt_conv_Cons add.commute)
qed

text \<open>The loop with a device that answers later.\<close>

lemma si_loop_async:
  "si_loop bo (\<lambda>_. ([], None)) os s = (None, [], map (string_request s) os,
     s\<lparr>si_pendingReadRequests := si_pendingReadRequests s + of_nat (length os)\<rparr>)"
proof (induction os arbitrary: s)
  case (Cons a os)
  have "string_request (s\<lparr>si_pendingReadRequests := x\<rparr>) = string_request s" for x
    by (simp add: fun_eq_iff string_request_def)
  then show ?case by (simp add: Cons Let_def ac_simps)
qed simp

text \<open>The reply to the request for a word, and the words that the replies so far have put into the buffer.\<close>

definition word_reply :: "MrfRecordAddress \<Rightarrow> (nat \<Rightarrow> u32) \<Rightarrow> nat \<Rightarrow> string_reply" where
  "word_reply address w i = Reply32 (Success (ra_address address + of_nat (4 * i)) (w i))"

definition words_read :: "(nat \<Rightarrow> u32) \<Rightarrow> nat set \<Rightarrow> u8 list \<Rightarrow> u8 list \<Rightarrow> bool" where
  "words_read w is raw buffer \<longleftrightarrow> length buffer = length raw \<and>
     (\<forall>j<length raw. buffer ! j = (if j div 4 \<in> is then be_bytes32 (w (j div 4)) ! (j mod 4) else raw ! j))"

lemma words_read_put:
  assumes "words_read w is raw buffer" "4 * i + 4 \<le> length raw"
  shows "words_read w (insert i is) raw (copy_bytes (4 * i) (be_bytes32 (w i)) buffer)"
proof -
  have len: "length buffer = length raw" using assms(1) by (simp add: words_read_def)
  have "copy_bytes (4 * i) (be_bytes32 (w i)) buffer ! j =
      (if j div 4 = i then be_bytes32 (w i) ! (j mod 4) else buffer ! j)" if "j < length raw" for j
  proof -
    have "4 * i \<le> j \<and> j < 4 * i + 4 \<longleftrightarrow> j div 4 = i" by linarith
    moreover have "j div 4 = i \<Longrightarrow> j - 4 * i = j mod 4" by (metis minus_mult_div_eq_mod)
    ultimately show ?thesis using copy_bytes_nth [of "4 * i" "be_bytes32 (w i)" buffer j] that assms(2) len by auto
  qed
  then show ?thesis using assms len by (auto simp: words_read_def)
qed

lemma si_callback_word:
  assumes "ra_stringLength (si_address s) = int (4 * n)" "n \<le> 10" "i < n"
    "si_callback bo (word_reply (si_address s) w i) s = (calls, s')"
  shows "s' = s\<lparr>si_pendingReadRequests := si_pendingReadRequests s - 1,
      si_lastValueRead := copy_bytes (4 * i) (be_bytes32 (w i)) (si_lastValueRead s)\<rparr>"
proof -
  have "unat (of_nat (4 * i) :: u32) = 4 * i"
    using assms(2,3) by (simp add: unsigned_of_nat take_bit_nat_eq_self del: of_nat_mult)
  moreover have "string_length32 s = 4 * n"
    unfolding string_length32_def assms(1) of_int_of_nat_eq
    using assms(2) by (simp add: unsigned_of_nat take_bit_nat_eq_self del: of_nat_mult)
  ultimately show ?thesis
    using assms(3,4) unfolding word_reply_def si_callback.simps si_success32_def si_replied_def mem_bytes32_htonl Let_def
    by (cases s) (auto simp: add.commute [of "ra_address (si_address s)"] simp del: of_nat_mult)
qed

lemma si_callbacks_words:
  assumes "si_callbacks bo (map (word_reply (si_address s) w) is) s = (calls, s')"
    "ra_stringLength (si_address s) = int (4 * n)" "n \<le> 10" "set is \<subseteq> {..<n}" "4 * n \<le> length raw"
    "words_read w R raw (si_lastValueRead s)" "counted Waiting (si_pendingReadRequests s) (length is + k) c"
  shows "words_read w (R \<union> set is) raw (si_lastValueRead s') \<and> si_address s' = si_address s
    \<and> si_readSuccessful s' = si_readSuccessful s
    \<and> counted Waiting (si_pendingReadRequests s') k (c + length calls) \<and> set calls \<subseteq> {ScheduleProcessing}"
  using assms
proof (induction "is" arbitrary: s R c calls)
  case (Cons i "is")
  obtain c1 s1 where one: "si_callback bo (word_reply (si_address s) w i) s = (c1, s1)"
    by (cases "si_callback bo (word_reply (si_address s) w i) s")
  have i: "i < n" using Cons.prems(4) by simp
  note s1 = si_callback_word [OF Cons.prems(2,3) i one]
  obtain c2 where rest: "si_callbacks bo (map (word_reply (si_address s) w) is) s1 = (c2, s')" "calls = c1 @ c2"
    using Cons.prems(1) one by (cases "si_callbacks bo (map (word_reply (si_address s) w) is) s1") auto
  have "words_read w (insert i R) raw (si_lastValueRead s1)"
    using words_read_put [OF Cons.prems(6)] i Cons.prems(5) s1 by simp
  moreover have "counted Waiting (si_pendingReadRequests s1) (length is + k) (c + length c1)"
    using si.counted_answer [OF _ one] Cons.prems(7) by simp
  moreover have "set c1 \<subseteq> {ScheduleProcessing}" using si.answer_law [OF one] by auto
  ultimately show ?case
    using Cons.IH [of s1 c2 "insert i R" "c + length c1"] rest s1 Cons.prems(2-5) by (simp add: add.assoc)
qed simp

text \<open>A processing with a device that answers later: the requests, the replies, and the processing again.\<close>

definition string_processing ::
    "byte_order \<Rightarrow> string_reply list \<Rightarrow> MrfStringinRecord \<Rightarrow> stringinRecord
      \<Rightarrow> device_op list \<times> epics_call list \<times> exn option \<times> stringinRecord" where
  "string_processing bo replies s r =
     (case si_processRecord bo (\<lambda>_. ([], None)) s r of (_, _, requests, s1, r1) \<Rightarrow>
       (case si_callbacks bo replies s1 of (calls, s2) \<Rightarrow>
         (case si_processRecord bo (\<lambda>_. ([], None)) s2 r1 of (e, _, _, _, r2) \<Rightarrow> (requests, calls, e, r2))))"

text \<open>The bytes of a list of words.\<close>

lemma concat_words:
  "length (concat (map (be_bytes32 \<circ> w) [0..<n])) = 4 * n"
  "j < 4 * n \<Longrightarrow> concat (map (be_bytes32 \<circ> w) [0..<n]) ! j = be_bytes32 (w (j div 4)) ! (j mod 4)"
proof -
  have len: "length (concat (map (be_bytes32 \<circ> w) [0..<n])) = 4 * n" for n by (induction n) auto
  then show "length (concat (map (be_bytes32 \<circ> w) [0..<n])) = 4 * n" .
  show "concat (map (be_bytes32 \<circ> w) [0..<n]) ! j = be_bytes32 (w (j div 4)) ! (j mod 4)" if "j < 4 * n"
    using that
  proof (induction n)
    case (Suc n)
    show ?case
    proof (cases "j < 4 * n")
      case False
      then have "j div 4 = n" "j mod 4 = j - 4 * n" using Suc.prems by presburger+
      then show ?thesis using False len [of n, unfolded comp_def] by (simp add: nth_append comp_def)
    qed (use Suc len [of n, unfolded comp_def] in \<open>simp add: nth_append comp_def\<close>)
  qed simp
qed

text \<open>
  C24.
  A stringin record that could be created reads each word of its string once; whatever the order of the
  replies and the byte order of the host, the last reply and only it has the record processed again, the
  processing ends without an error, and the value of the record is the string of the device: its bytes in
  the order of their addresses, with the most significant byte of each word first, ended by a zero.
\<close>

theorem stringin_reads_string:
  assumes new: "new_MrfStringinRecord instIo inp raw g = Inr s" "length raw = maxStringLength"
    and r: "\<not> st_pact r" and n: "ra_stringLength (si_address s) = int (4 * n)"
    and order: "distinct order" "set order = {..<n}"
    and run: "string_processing bo (map (word_reply (si_address s) w) order) s r = (requests, calls, e, r')"
  shows "requests = map (\<lambda>i. ReadUInt32 (ra_address (si_address s) + of_nat (4 * i))) [0..<n]
    \<and> calls = [ScheduleProcessing] \<and> e = None \<and> \<not> st_udf r' \<and> \<not> st_pact r'
    \<and> take (4 * n) (st_val r') = (concat (map (be_bytes32 \<circ> w) [0..<n])) [39 := 0]
    \<and> st_val r' ! min (4 * n) 39 = 0"
proof -
  note facts = new_MrfStringinRecord_facts [OF new(1)]
  have small: "0 < n" "n \<le> 10" using facts(2) n by auto
  have len32: "string_length32 s = 4 * n"
    unfolding string_length32_def n of_int_of_nat_eq
    using small by (simp add: unsigned_of_nat take_bit_nat_eq_self del: of_nat_mult)
  define s1 where "s1 = s\<lparr>si_readSuccessful := True, si_pendingReadRequests := of_nat n\<rparr>"
  have pend: "unat (of_nat n :: u32) = n" "(of_nat n :: u32) \<noteq> 0"
    using small by (auto simp: unsigned_of_nat take_bit_nat_eq_self of_nat_eq_0_iff word_of_nat_eq_0_iff)
  have first: "si_processRecord bo (\<lambda>_. ([], None)) s r
      = (None, [], map (\<lambda>i. ReadUInt32 (ra_address (si_address s) + of_nat (4 * i))) [0..<n], s1, r\<lparr>st_pact := True\<rparr>)"
    using r pend string_offsets_words [of n 0] len32 facts(1) unfolding s1_def
    by (simp add: si_processRecord_def si_loop_async si_begin_def si_end_def unitSize_def string_request_def Let_def comp_def)
  obtain calls2 s2 where cb: "si_callbacks bo (map (word_reply (si_address s) w) order) s1 = (calls2, s2)"
    by (cases "si_callbacks bo (map (word_reply (si_address s) w) order) s1")
  have "length order = n" using order by (metis card_lessThan distinct_card)
  then have cnt: "counted Waiting (si_pendingReadRequests s1) (length order + 0) 0"
    using pend small by (simp add: counted_def s1_def)
  have all: "words_read w {..<n} raw (si_lastValueRead s2) \<and> si_address s2 = si_address s \<and> si_readSuccessful s2
      \<and> counted Waiting (si_pendingReadRequests s2) 0 (length calls2) \<and> set calls2 \<subseteq> {ScheduleProcessing}"
    using si_callbacks_words [of bo s1 w order calls2 s2 n raw "{}" 0 0] cb n small order facts(3) new(2) cnt
    by (simp add: s1_def words_read_def maxStringLength_def)
  then have calls2: "calls2 = [ScheduleProcessing]" by (cases calls2) (auto simp: counted_def)
  have res: "calls = calls2 \<and> requests = map (\<lambda>i. ReadUInt32 (ra_address (si_address s) + of_nat (4 * i))) [0..<n]
      \<and> e = None \<and> r' = r\<lparr>st_pact := False, st_val := (take 40 (si_lastValueRead s2))[min (4 * n) 39 := 0], st_udf := False\<rparr>"
    using run all n small first cb
    by (auto simp: string_processing_def si_processRecord_def si_result_def Let_def maxStringLength_def min_def nat_mult_distrib
        split: if_splits)
  have len: "length (si_lastValueRead s2) = 40" using all new(2) by (simp add: words_read_def maxStringLength_def)
  have bytes: "take (4 * n) (si_lastValueRead s2) = concat (map (be_bytes32 \<circ> w) [0..<n])"
    using all small new(2) len
    by (intro nth_equalityI) (simp_all add: concat_words words_read_def maxStringLength_def less_mult_imp_div_less)
  have "take (4 * n) ((take 40 (si_lastValueRead s2))[min (4 * n) 39 := 0]) = (take (4 * n) (si_lastValueRead s2))[39 := 0]"
    using small len by (cases "n = 10") (auto simp: take_update_swap min_def list_update_beyond)
  then show ?thesis using res calls2 bytes len small by (auto simp: nth_list_update min_def)
qed

definition example_string :: MrfStringinRecord where
  "example_string = \<lparr>si_address = \<lparr>ra_deviceId = ''dev'', ra_address = 16, ra_highestBit = 31, ra_lowestBit = 0,
     ra_dataType = uInt32, ra_changedElementsOnly = False, ra_elementDistance = 0, ra_readOnInit = True,
     ra_stringLength = 8, ra_verify = True, ra_zeroOtherBits = False\<rparr>, si_device = 0, si_readSuccessful = False,
     si_readErrorMessage = [], si_pendingReadRequests = 0, si_lastValueRead = replicate 40 0xFF\<rparr>"

definition example_words :: "nat \<Rightarrow> u32" where
  "example_words i = (if i = 0 then 0x4D524645 else 0x56520000)"

definition example_stringin :: stringinRecord where
  "example_stringin = \<lparr>st_pact = False, st_udf = True, st_val = replicate 40 0\<rparr>"

lemma example_string_new:
  "new_MrfStringinRecord True (Some ''dev 0x10 uint32 string_length=8'') (replicate 40 0xFF)
     (new_MrfDeviceRegistry\<lparr>devices := [''dev'' \<mapsto> 0]\<rparr>) = Inr example_string"
proof -
  have "readRecordAddress True (Some ''dev 0x10 uint32 string_length=8'') = Inr (si_address example_string)"
    by code_simp
  then show ?thesis
    by (simp add: new_MrfStringinRecord_def example_string_def getDevice_def unitSize_def maxStringLength_def Let_def)
qed

theorem stringin_reads_string_witness:
  "\<exists>requests calls e r'.
     string_processing LittleEndian (map (word_reply (si_address example_string) example_words) [1, 0])
       example_string example_stringin = (requests, calls, e, r')
     \<and> e = None \<and> requests = [ReadUInt32 16, ReadUInt32 20]
     \<and> take 8 (st_val r') = [0x4D, 0x52, 0x46, 0x45, 0x56, 0x52, 0, 0]"
proof -
  obtain requests calls e r' where run:
    "string_processing LittleEndian (map (word_reply (si_address example_string) example_words) [1, 0])
       example_string example_stringin = (requests, calls, e, r')"
    using prod_cases4 by blast
  have "distinct [1::nat, 0]" "set [1::nat, 0] = {..<2}" by auto
  from stringin_reads_string [OF example_string_new _ _ _ this run]
  have "requests = map (\<lambda>i. ReadUInt32 (ra_address (si_address example_string) + of_nat (4 * i))) [0..<2]
      \<and> e = None \<and> take (4 * 2) (st_val r') = (concat (map (be_bytes32 \<circ> example_words) [0..<2])) [39 := 0]"
    by (simp add: maxStringLength_def example_stringin_def example_string_def)
  moreover have "map (\<lambda>i. ReadUInt32 (ra_address (si_address example_string) + of_nat (4 * i))) [0..<2]
      = [ReadUInt32 16, ReadUInt32 20]" by code_simp
  moreover have "(concat (map (be_bytes32 \<circ> example_words) [0..<2])) [39 := 0]
      = [0x4D, 0x52, 0x46, 0x45, 0x56, 0x52, 0, 0]" by code_simp
  ultimately show ?thesis using run by simp
qed

end
