(* ===== verification/ArraySubroutines.thy ===== *)
theory ArraySubroutines
  imports MrfPrelude
begin

text \<open>
  The subroutines for aSub records that copy arrays (\<^verbatim>\<open>mrfApp/mrfEpicsSrc/mrfArrayASubRoutines.c\<close>), on
  buffers of bytes. A copy that would leave one of the buffers has no result.
\<close>

section \<open>Types\<close>

datatype field_type = FT_CHAR | FT_UCHAR | FT_SHORT | FT_USHORT | FT_LONG | FT_ULONG | FT_FLOAT | FT_DOUBLE
  | FT_OTHER nat

text \<open>The fields that the subroutines use; \<open>fld_b\<close> and \<open>fld_c\<close> are the first elements of B and C.\<close>

record aSubRecord =
  fta :: field_type
  ftb :: field_type
  ftc :: field_type
  ftva :: field_type
  noa :: u32
  nob :: u32
  noc :: u32
  nova :: u32
  nea :: u32
  neva :: u32
  fld_a :: "u8 list"
  fld_b :: u32
  fld_c :: u32
  vala :: "u8 list"

definition memcpy :: "u8 list \<Rightarrow> nat \<Rightarrow> u8 list \<Rightarrow> nat \<Rightarrow> u8 list option" where
  "memcpy src offset dst n =
     (if offset + n \<le> length src \<and> n \<le> length dst then Some (take n (drop offset src) @ drop n dst) else None)"

section \<open>The subroutines\<close>

definition element_size :: "field_type \<Rightarrow> nat option" where
  "element_size t = (case t of FT_CHAR \<Rightarrow> Some 1 | FT_UCHAR \<Rightarrow> Some 1 | FT_SHORT \<Rightarrow> Some 2 | FT_USHORT \<Rightarrow> Some 2
     | FT_LONG \<Rightarrow> Some 4 | FT_ULONG \<Rightarrow> Some 4 | FT_FLOAT \<Rightarrow> Some 4 | FT_DOUBLE \<Rightarrow> Some 8 | FT_OTHER _ \<Rightarrow> None)"

text \<open>The returned number and the record, or \<open>None\<close> for a copy out of bounds.\<close>

definition mrfArrayCopy :: "aSubRecord \<Rightarrow> (int \<times> aSubRecord) option" where
  "mrfArrayCopy r =
     (if fta r \<noteq> ftva r then Some (1, r)
      else if noa r \<noteq> nova r then Some (1, r)
      else (case element_size (fta r) of
        None \<Rightarrow> Some (1, r)
      | Some elementSize \<Rightarrow> map_option (\<lambda>v. (0, r\<lparr>vala := v\<rparr>)) (memcpy (fld_a r) 0 (vala r) (unat (noa r) * elementSize))))"

text \<open>A 32-bit integer as a value of the type \<^verbatim>\<open>size_t\<close>.\<close>

definition to_size_t :: "u32 \<Rightarrow> nat" where
  "to_size_t v = unat (scast v :: 64 word)"

text \<open>
  \<open>dbValueSize\<close> is the function of EPICS. The comparisons with zero are comparisons of unsigned numbers.
\<close>

definition mrfArraySubSequenceCopy :: "(field_type \<Rightarrow> nat) \<Rightarrow> aSubRecord \<Rightarrow> (int \<times> aSubRecord) option" where
  "mrfArraySubSequenceCopy dbValueSize r =
     (let maxInputCount = unat (nea r); maxOutputCount = unat (nova r); elementSize = dbValueSize (ftva r)
      in if fta r \<noteq> ftva r then Some (1, r)
         else if nob r \<noteq> 1 then Some (1, r)
         else if noc r \<noteq> 1 then Some (1, r)
         else if ftb r \<noteq> FT_LONG then Some (1, r)
         else if ftc r \<noteq> FT_LONG then Some (1, r)
         else
           let offset = to_size_t (fld_b r); count = to_size_t (fld_c r);
               offset = (if offset < 0 then 0 else offset);
               count = (if count < 0 then 0 else count);
               offset = (if maxInputCount > offset then offset else maxInputCount);
               count = (if maxInputCount - offset > count then count else maxInputCount - offset);
               count = (if maxOutputCount > count then count else maxOutputCount)
           in map_option (\<lambda>v. (0, r\<lparr>vala := v, neva := of_nat count\<rparr>))
                (memcpy (fld_a r) (elementSize * offset) (vala r) (elementSize * count)))"

section \<open>Properties\<close>

lemma memcpy_Some:
  assumes "memcpy src offset dst n = Some v"
  shows "length v = length dst" "take n v = take n (drop offset src)" "drop n v = drop n dst"
  using assms by (auto simp: memcpy_def split: if_splits)

lemma to_size_t_eq: "to_size_t v = (if sint v < 0 then nat (2 ^ 64 + sint v) else nat (sint v))"
proof -
  have b: "- (2 ^ 31) \<le> sint v" "sint v < 2 ^ 31" using sint_range_size [of v] by (simp_all add: word_size)
  have "(scast v :: 64 word) = word_of_int (sint v)" by simp
  then have "uint (scast v :: 64 word) = sint v mod 2 ^ 64" by (simp only: uint_word_of_int) simp
  moreover have "sint v mod 2 ^ 64 = (if sint v < 0 then 2 ^ 64 + sint v else sint v)"
  proof (cases "sint v < 0")
    case True
    have "sint v mod 2 ^ 64 = (2 ^ 64 + sint v) mod 2 ^ 64" by simp
    also have "\<dots> = 2 ^ 64 + sint v" using b True by (intro mod_pos_pos_trivial) simp_all
    finally show ?thesis using True by simp
  qed (use b in simp)
  ultimately show ?thesis by (simp add: to_size_t_def flip: nat_uint_eq)
qed

text \<open>What EPICS guarantees of the buffers.\<close>

definition buffers_ok :: "nat \<Rightarrow> aSubRecord \<Rightarrow> bool" where
  "buffers_ok elementSize r \<longleftrightarrow> length (fld_a r) = elementSize * unat (noa r)
     \<and> length (vala r) = elementSize * unat (nova r) \<and> nea r \<le> noa r"

text \<open>A copy of all elements refuses different types and numbers, and else copies the whole buffer.\<close>

lemma mrfArrayCopy_copies:
  assumes "element_size (fta r) = Some n" "buffers_ok n r"
  shows "mrfArrayCopy r = (if fta r \<noteq> ftva r \<or> noa r \<noteq> nova r then Some (1, r) else Some (0, r\<lparr>vala := fld_a r\<rparr>))"
  using assms by (auto simp: mrfArrayCopy_def buffers_ok_def memcpy_def mult.commute)

text \<open>The first element and the number of elements of the sub-sequence, as the code has them.\<close>

definition sub_start :: "aSubRecord \<Rightarrow> nat" where
  "sub_start r = (if sint (fld_b r) < 0 then unat (nea r) else min (nat (sint (fld_b r))) (unat (nea r)))"

definition sub_count :: "aSubRecord \<Rightarrow> nat" where
  "sub_count r = (let rest = unat (nea r) - sub_start r
     in min (unat (nova r)) (if sint (fld_c r) < 0 then rest else min (nat (sint (fld_c r))) rest))"

text \<open>
  A copy of a sub-sequence never leaves a buffer, whatever the offset and the count are: it copies the
  elements from the offset on, as many as the count says, the input holds and the output has room for,
  leaves the rest of the output as it was, and gives their number. A negative offset copies nothing, and
  a negative count all elements after the offset.
\<close>

lemma sub_sequence_copied:
  assumes "buffers_ok (dbValueSize (ftva r)) r" "fta r = ftva r" "nob r = 1" "noc r = 1" "ftb r = FT_LONG" "ftc r = FT_LONG"
  shows "\<exists>r'. mrfArraySubSequenceCopy dbValueSize r = Some (0, r') \<and> unat (neva r') = sub_count r
    \<and> length (vala r') = length (vala r)
    \<and> take (dbValueSize (ftva r) * sub_count r) (vala r') =
        take (dbValueSize (ftva r) * sub_count r) (drop (dbValueSize (ftva r) * sub_start r) (fld_a r))
    \<and> drop (dbValueSize (ftva r) * sub_count r) (vala r') = drop (dbValueSize (ftva r) * sub_count r) (vala r)"
proof -
  let ?n = "dbValueSize (ftva r)"
  have range: "sint v < 2 ^ 31" "- (2 ^ 31) \<le> sint v" "unat v < 2 ^ 32" for v :: u32
  proof -
    show "sint v < 2 ^ 31" "- (2 ^ 31) \<le> sint v" using sint_range_size [of v] by (simp_all add: word_size)
    have "unat v < 2 ^ LENGTH(32)" by (rule unsigned_less)
    then show "unat v < 2 ^ 32" by simp
  qed
  have start: "(if unat (nea r) > to_size_t (fld_b r) then to_size_t (fld_b r) else unat (nea r)) = sub_start r"
    using range(2) [of "fld_b r"] range(3) [of "nea r"] by (auto simp: sub_start_def to_size_t_eq min_def)
  have count: "(let c = (if unat (nea r) - sub_start r > to_size_t (fld_c r) then to_size_t (fld_c r)
      else unat (nea r) - sub_start r) in if unat (nova r) > c then c else unat (nova r)) = sub_count r"
    using range(2) [of "fld_c r"] range(3) [of "nea r"] by (auto simp: sub_count_def Let_def to_size_t_eq min_def)
  have "sub_start r + sub_count r \<le> unat (nea r)" by (auto simp: sub_start_def sub_count_def Let_def min_def)
  also have "\<dots> \<le> unat (noa r)" using assms(1) by (simp add: buffers_ok_def word_le_nat_alt)
  finally have "?n * (sub_start r + sub_count r) \<le> ?n * unat (noa r)" by (rule mult_le_mono2)
  then have "?n * sub_start r + ?n * sub_count r \<le> length (fld_a r)"
    using assms(1) by (simp add: buffers_ok_def distrib_left)
  moreover have "?n * sub_count r \<le> length (vala r)" using assms(1) by (simp add: buffers_ok_def sub_count_def Let_def)
  ultimately obtain v where v: "memcpy (fld_a r) (?n * sub_start r) (vala r) (?n * sub_count r) = Some v"
    by (simp add: memcpy_def)
  have "mrfArraySubSequenceCopy dbValueSize r = Some (0, r\<lparr>vala := v, neva := of_nat (sub_count r)\<rparr>)"
  proof -
    have unsigned: "(if x < 0 then 0 else x) = x" for x :: nat by simp
    show ?thesis
      by (simp only: mrfArraySubSequenceCopy_def Let_def assms(2-6) simp_thms if_False unsigned start
          count [unfolded Let_def] v option.map)
  qed
  moreover have "unat (of_nat (sub_count r) :: u32) = sub_count r"
    using range(3) [of "nova r"] by (auto simp: unsigned_of_nat sub_count_def Let_def intro!: take_bit_nat_eq_self)
  ultimately show ?thesis using memcpy_Some [OF v] by simp
qed

definition example_asub :: aSubRecord where
  "example_asub = \<lparr>fta = FT_SHORT, ftb = FT_LONG, ftc = FT_LONG, ftva = FT_SHORT, noa = 4, nob = 1, noc = 1, nova = 4,
     nea = 3, neva = 0, fld_a = [1, 2, 3, 4, 5, 6, 7, 8], fld_b = 1, fld_c = 5, vala = [9, 9, 9, 9, 9, 9, 9, 9]\<rparr>"

theorem sub_sequence_copied_witness:
  "\<exists>r'. mrfArraySubSequenceCopy (\<lambda>t. the (element_size t)) example_asub = Some (0, r')
    \<and> neva r' = 2 \<and> vala r' = [3, 4, 5, 6, 9, 9, 9, 9]"
proof -
  have count: "sub_count example_asub = 2" "sub_start example_asub = 1" by code_simp+
  have ok: "buffers_ok 2 example_asub" "fta example_asub = ftva example_asub" "nob example_asub = 1"
    "noc example_asub = 1" "ftb example_asub = FT_LONG" "ftc example_asub = FT_LONG" by code_simp+
  have size: "the (element_size (ftva example_asub)) = 2" by code_simp
  obtain r' where r': "mrfArraySubSequenceCopy (\<lambda>t. the (element_size t)) example_asub = Some (0, r')"
    "unat (neva r') = 2" "take 4 (vala r') = [3, 4, 5, 6]" "drop 4 (vala r') = [9, 9, 9, 9]"
    using sub_sequence_copied [of "\<lambda>t. the (element_size t)" example_asub] ok size count by (auto simp: example_asub_def)
  have "vala r' = take 4 (vala r') @ drop 4 (vala r')" by simp
  then have "vala r' = [3, 4, 5, 6, 9, 9, 9, 9]" unfolding r' by simp
  moreover have "neva r' = 2" using r'(2) by (simp add: word_unat_eq_iff)
  ultimately show ?thesis using r'(1) by blast
qed

end
