(* ===== verification/KernelFlash.thy ===== *)
theory KernelFlash
  imports MrfPrelude "HOL-Library.State_Monad"
begin

text \<open>
  The functions of the kernel module for the M25P flash memory that the devices reach through an SPI
  controller (\<^verbatim>\<open>support/mrf-pci-dkms-0.1.20250218/mrf-pci-0.1.20250218/flash.c\<close>).

  The state is the history of the accesses to the two volatile registers of the controller, the newest
  first; the hardware is a function that gives the value of a read after a history. The values are those
  of the registers, that is after the conversion from or to the byte order of the device. A returned
  \<^verbatim>\<open>int\<close> is an integer.
\<close>

section \<open>Registers\<close>

datatype spi_event = ReadControl u32 | WriteControl u32 | ReadData u32 | WriteData u32

record spi_device =
  dev_control :: "spi_event list \<Rightarrow> u32"
  dev_data :: "spi_event list \<Rightarrow> u32"

type_synonym 'a spi = "(spi_event list, 'a) state"

definition read_control :: "spi_device \<Rightarrow> u32 spi" where
  "read_control dev = State (\<lambda>h. let v = dev_control dev h in (v, ReadControl v # h))"

definition write_control :: "u32 \<Rightarrow> unit spi" where
  "write_control v = State (\<lambda>h. ((), WriteControl v # h))"

definition read_data :: "spi_device \<Rightarrow> u32 spi" where
  "read_data dev = State (\<lambda>h. let v = dev_data dev h in (v, ReadData v # h))"

definition write_data :: "u32 \<Rightarrow> unit spi" where
  "write_data v = State (\<lambda>h. ((), WriteData v # h))"

section \<open>Constants\<close>

definition EV_SPI_CONTROL_RRDY :: u32 where "EV_SPI_CONTROL_RRDY = 0x0040"
definition EV_SPI_CONTROL_TRDY :: u32 where "EV_SPI_CONTROL_TRDY = 0x0020"
definition EV_SPI_CONTROL_TMT :: u32 where "EV_SPI_CONTROL_TMT = 0x0010"
definition EV_SPI_CONTROL_OE :: u32 where "EV_SPI_CONTROL_OE = 0x0002"
definition EV_SPI_CONTROL_SELECT :: u32 where "EV_SPI_CONTROL_SELECT = 0x0001"
definition SPI_RETRY_COUNT :: nat where "SPI_RETRY_COUNT = 10000"
definition SPI_BE_COUNT :: nat where "SPI_BE_COUNT = 0x10000000"

definition M25P_FAST_READ :: u32 where "M25P_FAST_READ = 0x0B"
definition M25P_RDID :: u32 where "M25P_RDID = 0x9F"
definition M25P_WREN :: u32 where "M25P_WREN = 0x06"
definition M25P_RDSR :: u32 where "M25P_RDSR = 0x05"
definition M25P_SE :: u32 where "M25P_SE = 0xD8"
definition M25P_BE :: u32 where "M25P_BE = 0xC7"
definition M25P_PP :: u32 where "M25P_PP = 0x02"
definition M25P_STATUS_WIP :: u32 where "M25P_STATUS_WIP = 0x01"

definition FLASH_DATA_ALLOC_SIZE :: nat where "FLASH_DATA_ALLOC_SIZE = 256"
definition FLASH_SECTOR_SIZE :: nat where "FLASH_SECTOR_SIZE = 0x00010000"
definition FLASH_SECTOR_PRIMARY_START :: nat where "FLASH_SECTOR_PRIMARY_START = 0x00010000"
definition FLASH_SECTOR_PRIMARY_END :: nat where "FLASH_SECTOR_PRIMARY_END = 0x00260000"

section \<open>The controller\<close>

text \<open>The loops that wait for a bit of the control register.\<close>

fun wait_control :: "spi_device \<Rightarrow> u32 \<Rightarrow> nat \<Rightarrow> int spi" where
  "wait_control dev msk 0 = State_Monad.return (-1)"
| "wait_control dev msk (Suc retry_count) = do {
     stat \<leftarrow> read_control dev;
     if stat AND msk \<noteq> 0 then State_Monad.return 0 else wait_control dev msk retry_count
   }"

definition spi_wait_tmt :: "spi_device \<Rightarrow> int spi" where
  "spi_wait_tmt dev = wait_control dev EV_SPI_CONTROL_TMT SPI_RETRY_COUNT"

definition spi_wait_trdy :: "spi_device \<Rightarrow> int spi" where
  "spi_wait_trdy dev = wait_control dev EV_SPI_CONTROL_TRDY SPI_RETRY_COUNT"

definition spi_wait_rrdy :: "spi_device \<Rightarrow> int spi" where
  "spi_wait_rrdy dev = wait_control dev EV_SPI_CONTROL_RRDY SPI_RETRY_COUNT"

text \<open>Selecting the slave or releasing it; what is read back is only compared for a message.\<close>

definition spi_slave_select :: "spi_device \<Rightarrow> bool \<Rightarrow> unit spi" where
  "spi_slave_select dev select = do {
     _ \<leftarrow> spi_wait_tmt dev;
     _ \<leftarrow> write_control EV_SPI_CONTROL_OE;
     _ \<leftarrow> read_control dev;
     _ \<leftarrow> write_control (if select then EV_SPI_CONTROL_OE OR EV_SPI_CONTROL_SELECT else 0);
     _ \<leftarrow> read_control dev;
     State_Monad.return ()
   }"

definition spi_write :: "spi_device \<Rightarrow> u32 \<Rightarrow> int spi" where
  "spi_write dev data = do {
     t \<leftarrow> spi_wait_trdy dev;
     if t \<noteq> 0 then State_Monad.return (-1)
     else do {
       _ \<leftarrow> write_data data;
       State_Monad.return (uint (data AND 0x00ff))
     }
   }"

definition spi_read :: "spi_device \<Rightarrow> int spi" where
  "spi_read dev = do {
     t \<leftarrow> spi_wait_rrdy dev;
     if t \<noteq> 0 then State_Monad.return (-1)
     else do {
       v \<leftarrow> read_data dev;
       State_Monad.return (sint v)
     }
   }"

section \<open>The flash memory\<close>

text \<open>Writes one after the other, up to the first that fails; the last result is returned.\<close>

fun spi_writes :: "spi_device \<Rightarrow> u32 list \<Rightarrow> int \<Rightarrow> int spi" where
  "spi_writes dev [] retval = State_Monad.return retval"
| "spi_writes dev (d # ds) retval = do {
     retval \<leftarrow> spi_write dev d;
     if retval < 0 then State_Monad.return retval else spi_writes dev ds retval
   }"

definition address_bytes :: "u32 \<Rightarrow> u32 list" where
  "address_bytes a = [drop_bit 16 a AND 0x00ff, drop_bit 8 a AND 0x00ff, a AND 0x00ff]"

definition flash_readstart :: "spi_device \<Rightarrow> int spi" where
  "flash_readstart dev = do {
     _ \<leftarrow> spi_slave_select dev False;
     _ \<leftarrow> spi_slave_select dev True;
     retval \<leftarrow> spi_writes dev [M25P_FAST_READ, 0, 0, 0, 0, 0] 0;
     State_Monad.return (if retval < 0 then retval else 0)
   }"

definition flash_readbyte :: "spi_device \<Rightarrow> int spi" where
  "flash_readbyte dev = do {
     read_data \<leftarrow> spi_read dev;
     if read_data < 0 then State_Monad.return read_data
     else do {
       retval \<leftarrow> spi_write dev 0;
       State_Monad.return (if retval < 0 then retval else read_data)
     }
   }"

definition flash_readend :: "spi_device \<Rightarrow> unit spi" where
  "flash_readend dev = spi_slave_select dev False"

definition flash_read_status :: "spi_device \<Rightarrow> int spi" where
  "flash_read_status dev = do {
     _ \<leftarrow> spi_slave_select dev False;
     retval \<leftarrow> spi_write dev 0;
     retval \<leftarrow> (if retval < 0 then State_Monad.return retval
       else do {
         _ \<leftarrow> spi_slave_select dev True;
         retval \<leftarrow> spi_writes dev [M25P_RDSR, 0] 0;
         if retval < 0 then State_Monad.return retval else spi_read dev
       });
     _ \<leftarrow> spi_slave_select dev False;
     State_Monad.return retval
   }"

text \<open>The loop of \<^verbatim>\<open>flash_fastread\<close>: the result, and the bytes that were stored.\<close>

fun flash_read_loop :: "spi_device \<Rightarrow> nat \<Rightarrow> int \<Rightarrow> (int \<times> u8 list) spi" where
  "flash_read_loop dev 0 retval = State_Monad.return (retval, [])"
| "flash_read_loop dev (Suc i) retval = do {
     retval \<leftarrow> spi_read dev;
     if retval < 0 then State_Monad.return (retval, [])
     else do {
       let byte = word_of_int retval;
       retval \<leftarrow> spi_write dev 0;
       if retval < 0 then State_Monad.return (retval, [byte])
       else do {
         (result, bytes) \<leftarrow> flash_read_loop dev i retval;
         State_Monad.return (result, byte # bytes)
       }
     }
   }"

definition flash_fastread :: "spi_device \<Rightarrow> u32 \<Rightarrow> nat \<Rightarrow> (int \<times> u8 list) spi" where
  "flash_fastread dev addr n = do {
     _ \<leftarrow> spi_slave_select dev False;
     _ \<leftarrow> spi_write dev 0;
     _ \<leftarrow> spi_slave_select dev True;
     retval \<leftarrow> spi_writes dev (M25P_FAST_READ # address_bytes addr @ [0, 0]) 0;
     result \<leftarrow> (if retval < 0 then State_Monad.return (retval, []) else flash_read_loop dev n retval);
     _ \<leftarrow> spi_slave_select dev False;
     State_Monad.return result
   }"

text \<open>
  The loops that read the status until the flash memory is no longer busy: the last result, and whether
  the loop ended before its last round. Erasing does not accept an error as the status.
\<close>

fun wait_idle :: "spi_device \<Rightarrow> bool \<Rightarrow> nat \<Rightarrow> int \<Rightarrow> (int \<times> bool) spi" where
  "wait_idle dev checked 0 retval = State_Monad.return (retval, False)"
| "wait_idle dev checked (Suc i) retval = do {
     retval \<leftarrow> flash_read_status dev;
     if (word_of_int retval :: u32) AND M25P_STATUS_WIP = 0 \<and> (checked \<longrightarrow> retval \<ge> 0)
     then State_Monad.return (retval, True) else wait_idle dev checked i retval
   }"

text \<open>The start of erasing and programming: a dummy write, and the write enable command.\<close>

definition flash_write_enable :: "spi_device \<Rightarrow> int spi" where
  "flash_write_enable dev = do {
     _ \<leftarrow> spi_slave_select dev False;
     retval \<leftarrow> spi_write dev M25P_RDID;
     if retval < 0 then State_Monad.return retval
     else do {
       _ \<leftarrow> spi_slave_select dev True;
       retval \<leftarrow> spi_write dev M25P_WREN;
       if retval < 0 then State_Monad.return retval
       else do {
         _ \<leftarrow> spi_slave_select dev False;
         State_Monad.return retval
       }
     }
   }"

definition flash_bulkerase :: "spi_device \<Rightarrow> int spi" where
  "flash_bulkerase dev = do {
     retval \<leftarrow> flash_write_enable dev;
     retval \<leftarrow> (if retval < 0 then State_Monad.return retval
       else do {
         _ \<leftarrow> spi_slave_select dev True;
         retval \<leftarrow> spi_write dev M25P_BE;
         _ \<leftarrow> spi_slave_select dev False;
         if retval < 0 then State_Monad.return retval
         else do {
           (retval, ended) \<leftarrow> wait_idle dev True SPI_BE_COUNT retval;
           State_Monad.return (if ended then retval else -1)
         }
       });
     _ \<leftarrow> spi_slave_select dev False;
     State_Monad.return retval
   }"

text \<open>What erasing a sector and programming a page share: a command with its bytes, and waiting for its end.\<close>

definition flash_command :: "spi_device \<Rightarrow> u32 list \<Rightarrow> bool \<Rightarrow> nat \<Rightarrow> int spi" where
  "flash_command dev bytes checked rounds = do {
     _ \<leftarrow> spi_slave_select dev True;
     retval \<leftarrow> spi_writes dev bytes 0;
     if retval < 0 then State_Monad.return retval
     else do {
       _ \<leftarrow> spi_slave_select dev False;
       (retval, ended) \<leftarrow> wait_idle dev checked rounds retval;
       State_Monad.return (if ended then retval else -1)
     }
   }"

text \<open>Erasing one sector, and the loop over the sectors up to the first error.\<close>

definition flash_sector_erase :: "spi_device \<Rightarrow> nat \<Rightarrow> int spi" where
  "flash_sector_erase dev sector = do {
     retval \<leftarrow> flash_write_enable dev;
     if retval < 0 then State_Monad.return retval
     else flash_command dev (M25P_SE # address_bytes (of_nat sector)) True SPI_BE_COUNT
   }"

fun erase_sectors :: "spi_device \<Rightarrow> nat list \<Rightarrow> int \<Rightarrow> int spi" where
  "erase_sectors dev [] retval = State_Monad.return retval"
| "erase_sectors dev (sector # sectors) retval = do {
     retval \<leftarrow> flash_sector_erase dev sector;
     if retval < 0 then State_Monad.return retval else erase_sectors dev sectors retval
   }"

definition primary_sectors :: "nat list" where
  "primary_sectors = map (\<lambda>i. FLASH_SECTOR_PRIMARY_START + FLASH_SECTOR_SIZE * i)
     [0..<Suc ((FLASH_SECTOR_PRIMARY_END - FLASH_SECTOR_PRIMARY_START) div FLASH_SECTOR_SIZE)]"

definition flash_primaryerase :: "spi_device \<Rightarrow> int spi" where
  "flash_primaryerase dev = do {
     retval \<leftarrow> erase_sectors dev primary_sectors 0;
     _ \<leftarrow> spi_slave_select dev False;
     State_Monad.return retval
   }"

text \<open>A byte of the data is a signed \<^verbatim>\<open>char\<close>.\<close>

definition flash_pageprogram :: "spi_device \<Rightarrow> u8 list \<Rightarrow> u32 \<Rightarrow> nat \<Rightarrow> int spi" where
  "flash_pageprogram dev data addr n =
     (if n \<noteq> FLASH_DATA_ALLOC_SIZE then State_Monad.return (-1)
      else if addr AND (of_nat FLASH_DATA_ALLOC_SIZE - 1) \<noteq> 0 then State_Monad.return (-1)
      else do {
        retval \<leftarrow> flash_write_enable dev;
        retval \<leftarrow> (if retval < 0 then State_Monad.return retval
          else flash_command dev (M25P_PP # address_bytes addr
            @ map (\<lambda>i. scast (data ! i)) [0..<FLASH_DATA_ALLOC_SIZE]) False SPI_RETRY_COUNT);
        _ \<leftarrow> spi_slave_select dev False;
        State_Monad.return retval
      })"

end
