(* ===== verification/KernelErrors.thy ===== *)
theory KernelErrors
  imports MrfPrelude
begin

text \<open>The error numbers of the kernel (\<^verbatim>\<open>linux/errno.h\<close>) that the functions of the kernel module return.\<close>

definition EPERM :: int where "EPERM = 1"
definition EIO :: int where "EIO = 5"
definition ENXIO :: int where "ENXIO = 6"
definition EAGAIN :: int where "EAGAIN = 11"
definition ENOMEM :: int where "ENOMEM = 12"
definition EFAULT :: int where "EFAULT = 14"
definition ENODEV :: int where "ENODEV = 19"
definition EINVAL :: int where "EINVAL = 22"
definition ENOTTY :: int where "ENOTTY = 25"
definition ENOSPC :: int where "ENOSPC = 28"
definition ETIME :: int where "ETIME = 62"
definition EOVERFLOW :: int where "EOVERFLOW = 75"
definition ERESTARTSYS :: int where "ERESTARTSYS = 512"

end
