(* ===== verification/KernelDevice.thy ===== *)
theory KernelDevice
  imports KernelFlash KernelErrors
begin

text \<open>
  The character devices of the kernel module
  (\<^verbatim>\<open>support/mrf-pci-dkms-0.1.20250218/mrf-pci-0.1.20250218/mrfcommon.c\<close>): opening, closing, reading,
  writing, control, mapping and interrupts. Each operation that takes the semaphore is one step on the
  state of the device. An access outside of a buffer, or through a null pointer, has no result.

  The functions for the EEPROM and the JTAG interface are calls that are recorded, and that the hardware
  answers with a number and with bytes for the buffer; those for the flash memory are the ones of
  \<^verbatim>\<open>KernelFlash\<close>.
\<close>

section \<open>Constants\<close>

definition DEVICE_FIRST :: int where "DEVICE_FIRST = 0"
definition DEVICE_EEPROM :: int where "DEVICE_EEPROM = 0"
definition DEVICE_FLASH :: int where "DEVICE_FLASH = 1"
definition DEVICE_FPGA :: int where "DEVICE_FPGA = 2"
definition DEVICE_EV :: int where "DEVICE_EV = 3"
definition DEVICE_LAST :: int where "DEVICE_LAST = 3"

definition EEPROM_DATA_ALLOC_SIZE :: nat where "EEPROM_DATA_ALLOC_SIZE = 0x2000"
definition XCF_DATA_ALLOC_SIZE :: nat where "XCF_DATA_ALLOC_SIZE = 0x400"
definition FPGA_DATA_ALLOC_SIZE :: nat where "FPGA_DATA_ALLOC_SIZE = 0x1000"

definition EV_IRQ_PCI_DRIVER_ENA :: u32 where "EV_IRQ_PCI_DRIVER_ENA = 0x40000000"
definition PLX9030_INTCSR_LINTI1_ENA :: u32 where "PLX9030_INTCSR_LINTI1_ENA = 0x0001"
definition PLX9030_INTCSR_LINTI1_POL :: u32 where "PLX9030_INTCSR_LINTI1_POL = 0x0002"
definition PLX9030_INTCSR_LINTI1_STAT :: u32 where "PLX9030_INTCSR_LINTI1_STAT = 0x0004"
definition PLX9030_INTCSR_PCI_IRQENA :: u32 where "PLX9030_INTCSR_PCI_IRQENA = 0x0040"
definition PLX9056_INTCSR_PCI_IRQENA :: u32 where "PLX9056_INTCSR_PCI_IRQENA = 0x0100"
definition PLX9056_INTCSR_LINTI_ENA :: u32 where "PLX9056_INTCSR_LINTI_ENA = 0x0800"
definition PLX9056_INTCSR_LINTI :: u32 where "PLX9056_INTCSR_LINTI = 0x8000"

definition MRF_DEVTYPE_V2P_9030 :: u32 where "MRF_DEVTYPE_V2P_9030 = 0x01"
definition MRF_DEVTYPE_V5_9056 :: u32 where "MRF_DEVTYPE_V5_9056 = 0x02"
definition MRF_DEVTYPE_V5_PCIE :: u32 where "MRF_DEVTYPE_V5_PCIE = 0x04"
definition MRF_DEVTYPE_ECP3_PCI :: u32 where "MRF_DEVTYPE_ECP3_PCI = 0x08"
definition MRF_DEVTYPE_ECP3_PCIE :: u32 where "MRF_DEVTYPE_ECP3_PCIE = 0x10"
definition MRF_DEVTYPE_K7_PCIE :: u32 where "MRF_DEVTYPE_K7_PCIE = 0x20"

text \<open>The modes of a file.\<close>

definition O_RDONLY :: int where "O_RDONLY = 0"
definition O_WRONLY :: int where "O_WRONLY = 1"

section \<open>State\<close>

text \<open>The calls of functions for the EEPROM and the JTAG interface.\<close>

datatype board_call =
    Eeprom_9030_sprint | Eeprom_9056_sprint | Eeprom_9030_sscan "u8 list" | Eeprom_9056_sscan "u8 list"
  | XCF_readstart | XCF_read u32 nat | XCF_readend | XCF_progstart | XCF_write "u8 list" int nat | XCF_progend | XCF_conf
  | Fpga_9030_sprint | Fpga_9056_sprint | Init_load_fpga_9030 | Init_load_fpga_9056
  | Load_fpga_byte_9030 u8 | Load_fpga_byte_9056 u8 | End_load_fpga_9030 | End_load_fpga_9056

datatype kernel_call = Board board_call | Request_irq | Free_irq | Remove_fasync | Kill_fasync

text \<open>
  The hardware and the allocator of the kernel: the SPI controller, the answers to the other calls after
  the earlier ones, and whether there is memory.
\<close>

record hardware =
  hw_spi :: spi_device
  hw_board :: "kernel_call list \<Rightarrow> board_call \<Rightarrow> int \<times> u8 list"
  hw_kmalloc :: bool

text \<open>The fields of \<^verbatim>\<open>struct mrf_dev\<close> that the functions use, the registers they write, and the calls that were made, newest first.\<close>

record mrf_dev =
  access_mode :: int
  access_device :: int
  refcount_ev :: int
  eeprom_data :: "u8 list option"
  eeprom_data_size :: int
  xcf_data :: "u8 list option"
  xcf_data_pos :: int
  fpga_conf_data :: "u8 list option"
  fpga_conf_size :: int
  devtype :: u32
  BAR_start :: "nat list"
  BAR_end :: "nat list"
  fw_version :: "64 word"
  spi :: "spi_event list"
  intcsr :: u32
  irq_enable :: u32
  mirq_enable :: u32
  calls :: "kernel_call list"
  allocated :: nat

definition has_type :: "mrf_dev \<Rightarrow> u32 \<Rightarrow> bool" where
  "has_type d m \<longleftrightarrow> devtype d AND m \<noteq> 0"

definition note_call :: "kernel_call \<Rightarrow> mrf_dev \<Rightarrow> mrf_dev" where
  "note_call c d = d\<lparr>calls := c # calls d\<rparr>"

definition board :: "hardware \<Rightarrow> board_call \<Rightarrow> mrf_dev \<Rightarrow> (int \<times> u8 list) \<times> mrf_dev" where
  "board hw c d = (hw_board hw (calls d) c, note_call (Board c) d)"

text \<open>A function that writes bytes to the start of a buffer.\<close>

definition fill :: "u8 list \<Rightarrow> u8 list \<Rightarrow> u8 list" where
  "fill bytes buffer = take (length buffer) bytes @ drop (length bytes) buffer"

text \<open>The result of an operation on the flash memory, and the new state.\<close>

definition on_flash :: "'a spi \<Rightarrow> mrf_dev \<Rightarrow> 'a \<times> mrf_dev" where
  "on_flash m d = (case run_state m (spi d) of (r, h) \<Rightarrow> (r, d\<lparr>spi := h\<rparr>))"

text \<open>Freed and allocated memory; the buffer is set after it is allocated.\<close>

definition kmalloc :: "hardware \<Rightarrow> nat \<Rightarrow> u8 \<Rightarrow> mrf_dev \<Rightarrow> (u8 list \<times> mrf_dev) option" where
  "kmalloc hw n byte d = (if hw_kmalloc hw then Some (replicate n byte, d\<lparr>allocated := allocated d + 1\<rparr>) else None)"

definition kfree :: "u8 list option \<Rightarrow> mrf_dev \<Rightarrow> mrf_dev" where
  "kfree p d = (case p of None \<Rightarrow> d | Some _ \<Rightarrow> d\<lparr>allocated := allocated d - 1\<rparr>)"

text \<open>Freeing one of the buffers and setting its pointer to null.\<close>

definition free_eeprom :: "mrf_dev \<Rightarrow> mrf_dev" where
  "free_eeprom d = (kfree (eeprom_data d) d)\<lparr>eeprom_data := None\<rparr>"

definition free_xcf :: "mrf_dev \<Rightarrow> mrf_dev" where
  "free_xcf d = (kfree (xcf_data d) d)\<lparr>xcf_data := None\<rparr>"

definition free_fpga :: "mrf_dev \<Rightarrow> mrf_dev" where
  "free_fpga d = (kfree (fpga_conf_data d) d)\<lparr>fpga_conf_data := None\<rparr>"

definition close_access :: "mrf_dev \<Rightarrow> mrf_dev" where
  "close_access d = d\<lparr>access_mode := 0, access_device := 0\<rparr>"

section \<open>Interrupts\<close>

definition irq_master_moved :: "mrf_dev \<Rightarrow> bool" where
  "irq_master_moved d \<longleftrightarrow>
     (fw_version d AND 0xF0000000 = 0x10000000 \<and> fw_version d AND 0x0FEFF \<ge> 0x000A)
   \<or> (fw_version d AND 0xF0000000 = 0x20000000 \<and> fw_version d AND 0x0FEFF \<ge> 0x0008)"

definition ev_irq_enable :: "mrf_dev \<Rightarrow> mrf_dev" where
  "ev_irq_enable d =
     (if irq_master_moved d then d\<lparr>mirq_enable := mirq_enable d OR EV_IRQ_PCI_DRIVER_ENA\<rparr>
      else d\<lparr>irq_enable := irq_enable d OR EV_IRQ_PCI_DRIVER_ENA\<rparr>)"

definition ev_irq_disable :: "mrf_dev \<Rightarrow> mrf_dev" where
  "ev_irq_disable d =
     (if irq_master_moved d then d\<lparr>mirq_enable := mirq_enable d AND NOT EV_IRQ_PCI_DRIVER_ENA\<rparr>
      else d\<lparr>irq_enable := irq_enable d AND NOT EV_IRQ_PCI_DRIVER_ENA\<rparr>)"

definition ev_plx_irq_enable :: "mrf_dev \<Rightarrow> mrf_dev" where
  "ev_plx_irq_enable d = d\<lparr>intcsr := PLX9030_INTCSR_LINTI1_ENA OR PLX9030_INTCSR_LINTI1_POL OR PLX9030_INTCSR_PCI_IRQENA\<rparr>"

definition ev_plx_irq_disable :: "mrf_dev \<Rightarrow> mrf_dev" where
  "ev_plx_irq_disable d = d\<lparr>intcsr := PLX9030_INTCSR_LINTI1_ENA OR PLX9030_INTCSR_LINTI1_POL\<rparr>"

definition ev_plx_9056_irq_enable :: "mrf_dev \<Rightarrow> mrf_dev" where
  "ev_plx_9056_irq_enable d = d\<lparr>intcsr := PLX9056_INTCSR_LINTI_ENA OR PLX9056_INTCSR_PCI_IRQENA\<rparr>"

definition ev_plx_9056_irq_disable :: "mrf_dev \<Rightarrow> mrf_dev" where
  "ev_plx_9056_irq_disable d = d\<lparr>intcsr := PLX9056_INTCSR_LINTI_ENA\<rparr>"

text \<open>The choice between the three kinds of boards, which several operations make.\<close>

definition board_irq_enable :: "mrf_dev \<Rightarrow> mrf_dev" where
  "board_irq_enable d = (if has_type d MRF_DEVTYPE_V2P_9030 then ev_plx_irq_enable d
     else if has_type d MRF_DEVTYPE_V5_9056 then ev_plx_9056_irq_enable d else ev_irq_enable d)"

definition board_irq_disable :: "mrf_dev \<Rightarrow> mrf_dev" where
  "board_irq_disable d = (if has_type d MRF_DEVTYPE_V2P_9030 then ev_plx_irq_disable d
     else if has_type d MRF_DEVTYPE_V5_9056 then ev_plx_9056_irq_disable d else ev_irq_disable d)"

text \<open>The handler; the values of the register of the bridge and of the flags are read from the hardware.\<close>

definition ev_interrupt :: "u32 \<Rightarrow> u32 \<Rightarrow> mrf_dev \<Rightarrow> bool \<times> mrf_dev" where
  "ev_interrupt intcsr_value irq_flag d =
     (let mine = (if has_type d MRF_DEVTYPE_V2P_9030 then intcsr_value AND PLX9030_INTCSR_LINTI1_STAT \<noteq> 0
        else if has_type d MRF_DEVTYPE_V5_9056 then intcsr_value AND PLX9056_INTCSR_LINTI \<noteq> 0
        else irq_flag AND EV_IRQ_PCI_DRIVER_ENA \<noteq> 0)
      in if \<not> mine then (False, d) else (True, note_call Kill_fasync (board_irq_disable d)))"

section \<open>Opening\<close>

text \<open>Each case gives the result and the state; in the cases of the flash memory the cleanup after an error is the same.\<close>

definition sprint_eeprom :: "hardware \<Rightarrow> board_call \<Rightarrow> mrf_dev \<Rightarrow> int \<times> mrf_dev" where
  "sprint_eeprom hw c d = (case board hw c d of
     ((result, bytes), d) \<Rightarrow> (result, d\<lparr>eeprom_data := map_option (fill bytes) (eeprom_data d)\<rparr>))"

definition open_eeprom :: "hardware \<Rightarrow> mrf_dev \<Rightarrow> (int \<times> mrf_dev) option" where
  "open_eeprom hw d =
     (if has_type d (MRF_DEVTYPE_V2P_9030 OR MRF_DEVTYPE_V5_9056)
      then (case kmalloc hw EEPROM_DATA_ALLOC_SIZE 0 d of
         None \<Rightarrow> None
       | Some (buffer, d) \<Rightarrow>
           let d = d\<lparr>eeprom_data := Some buffer\<rparr>
           in if access_mode d = O_RDONLY
              then
                let (result, d) = (if has_type d MRF_DEVTYPE_V2P_9030 then sprint_eeprom hw Eeprom_9030_sprint d else (0, d));
                    (result, d) = (if has_type d MRF_DEVTYPE_V5_9056 then sprint_eeprom hw Eeprom_9056_sprint d else (result, d))
                in if result < 0 then Some (result, close_access (free_eeprom d))
                   else Some (0, d\<lparr>eeprom_data_size := result\<rparr>)
              else Some (0, d))
      else Some (- ENXIO, d))"

definition flash_open_failed :: "int \<Rightarrow> mrf_dev \<Rightarrow> int \<times> mrf_dev" where
  "flash_open_failed result d = (result, close_access (free_xcf d))"

definition open_xcf :: "hardware \<Rightarrow> mrf_dev \<Rightarrow> (int \<times> mrf_dev) option" where
  "open_xcf hw d = (case kmalloc hw XCF_DATA_ALLOC_SIZE 0xff d of
     None \<Rightarrow> None
   | Some (buffer, d) \<Rightarrow>
       let d = d\<lparr>xcf_data := Some buffer\<rparr>
       in if access_mode d = O_RDONLY
          then (case board hw XCF_readstart (d\<lparr>xcf_data_pos := -1\<rparr>) of ((result, _), d) \<Rightarrow>
            if result < 0 then Some (flash_open_failed result (d\<lparr>xcf_data_pos := 0\<rparr>)) else Some (0, d))
          else if access_mode d = O_WRONLY
          then (case board hw XCF_progstart (d\<lparr>xcf_data_pos := 0\<rparr>) of ((result, _), d) \<Rightarrow>
            if result < 0 then Some (flash_open_failed result d) else Some (0, d))
          else Some (0, d))"

text \<open>The boards with a flash memory on the SPI bus, which erase it with one of two functions.\<close>

definition open_spi :: "hardware \<Rightarrow> (spi_device \<Rightarrow> int spi) \<Rightarrow> mrf_dev \<Rightarrow> (int \<times> mrf_dev) option" where
  "open_spi hw erase d = (case kmalloc hw FLASH_DATA_ALLOC_SIZE 0 d of
     None \<Rightarrow> None
   | Some (buffer, d) \<Rightarrow>
       let d = d\<lparr>xcf_data := Some buffer\<rparr>
       in if access_mode d = O_WRONLY
          then (case on_flash (erase (hw_spi hw)) (d\<lparr>xcf_data_pos := 0\<rparr>) of (result, d) \<Rightarrow>
            if result < 0 then Some (flash_open_failed result d) else Some (0, d))
          else Some (0, d))"

definition open_flash :: "hardware \<Rightarrow> mrf_dev \<Rightarrow> (int \<times> mrf_dev) option" where
  "open_flash hw d =
     (if has_type d MRF_DEVTYPE_V2P_9030 then open_xcf hw d
      else if has_type d MRF_DEVTYPE_V5_9056 then open_spi hw flash_bulkerase d
      else if has_type d (MRF_DEVTYPE_ECP3_PCI OR MRF_DEVTYPE_ECP3_PCIE) then open_spi hw flash_primaryerase d
      else if has_type d MRF_DEVTYPE_V5_PCIE then Some (0, d)
      else if has_type d MRF_DEVTYPE_K7_PCIE then open_spi hw flash_bulkerase d
      else Some (- ENXIO, d))"

definition open_fpga :: "hardware \<Rightarrow> mrf_dev \<Rightarrow> (int \<times> mrf_dev) option" where
  "open_fpga hw d =
     (if has_type d (MRF_DEVTYPE_V2P_9030 OR MRF_DEVTYPE_V5_9056)
      then (case kmalloc hw FPGA_DATA_ALLOC_SIZE 0 d of
         None \<Rightarrow> None
       | Some (buffer, d) \<Rightarrow>
           let d = d\<lparr>fpga_conf_data := Some buffer\<rparr>;
               (result, d) = (if access_mode d = O_RDONLY
                 then (case board hw (if has_type d MRF_DEVTYPE_V2P_9030 then Fpga_9030_sprint else Fpga_9056_sprint) d of
                   ((r, bytes), d) \<Rightarrow> (r, d\<lparr>fpga_conf_data := Some (fill bytes buffer), fpga_conf_size := r\<rparr>))
                 else (-1, d));
               (result, d) = (if access_mode d = O_WRONLY
                 then (case board hw (if has_type d MRF_DEVTYPE_V2P_9030 then Init_load_fpga_9030 else Init_load_fpga_9056) d of
                   ((r, _), d) \<Rightarrow> (r, d\<lparr>fpga_conf_size := 0\<rparr>))
                 else (result, d))
           in if result < 0 then Some (result, close_access (free_fpga d)) else Some (0, d))
      else Some (- ENXIO, d))"

text \<open>The first opening assigns the interrupt; the result of that is not used.\<close>

definition open_ev :: "mrf_dev \<Rightarrow> int \<times> mrf_dev" where
  "open_ev d =
     (let d = (if refcount_ev d = 0 then board_irq_enable (note_call Request_irq d) else d)
      in (0, d\<lparr>refcount_ev := refcount_ev d + 1\<rparr>))"

definition already_open :: "int \<Rightarrow> mrf_dev \<Rightarrow> bool" where
  "already_open minor d \<longleftrightarrow> (access_device d > 0 \<and> access_device d < DEVICE_EV)
     \<or> (access_device d = DEVICE_EV \<and> minor \<noteq> DEVICE_EV)"

definition ev_open :: "hardware \<Rightarrow> bool \<Rightarrow> int \<Rightarrow> int \<Rightarrow> mrf_dev \<Rightarrow> (int \<times> mrf_dev) option" where
  "ev_open hw interrupted minor flags d =
     (if interrupted then Some (- ERESTARTSYS, d)
      else if already_open minor d then Some (- EPERM, d)
      else if minor \<ge> DEVICE_FIRST \<and> minor \<le> DEVICE_LAST
      then
        let d = d\<lparr>access_mode := flags, access_device := minor\<rparr>
        in if minor = DEVICE_EEPROM then open_eeprom hw d
           else if minor = DEVICE_FLASH then open_flash hw d
           else if minor = DEVICE_FPGA then open_fpga hw d
           else if minor = DEVICE_EV then Some (open_ev d)
           else Some (- ENXIO, d)
      else Some (- ENXIO, d))"

section \<open>Closing\<close>

definition release_eeprom :: "hardware \<Rightarrow> mrf_dev \<Rightarrow> (int \<times> mrf_dev) option" where
  "release_eeprom hw d =
     (if has_type d (MRF_DEVTYPE_V2P_9030 OR MRF_DEVTYPE_V5_9056)
      then
        if access_mode d = O_WRONLY
        then (case eeprom_data d of
           None \<Rightarrow> None
         | Some buffer \<Rightarrow>
             let (result, d) = (if has_type d MRF_DEVTYPE_V2P_9030
                   then (case board hw (Eeprom_9030_sscan buffer) d of ((r, _), d) \<Rightarrow> (r, d)) else (0, d));
                 (result, d) = (if has_type d MRF_DEVTYPE_V5_9056
                   then (case board hw (Eeprom_9056_sscan buffer) d of ((r, _), d) \<Rightarrow> (r, d)) else (result, d))
             in Some (result, close_access (free_eeprom d)))
        else Some (0, close_access (free_eeprom d))
      else Some (- ENXIO, d))"

text \<open>
  The flash memory: one block for each kind of board, each of which frees the buffer. Programming uses the
  whole page of the buffer.
\<close>

definition program_buffer :: "hardware \<Rightarrow> int \<Rightarrow> mrf_dev \<Rightarrow> mrf_dev option" where
  "program_buffer hw start d = (case xcf_data d of
     None \<Rightarrow> None
   | Some buffer \<Rightarrow> if length buffer < FLASH_DATA_ALLOC_SIZE then None
       else Some (snd (on_flash (flash_pageprogram (hw_spi hw) buffer (word_of_int (xcf_data_pos d + start))
         FLASH_DATA_ALLOC_SIZE) d)))"

definition release_xcf :: "hardware \<Rightarrow> mrf_dev \<Rightarrow> (int \<times> mrf_dev) option" where
  "release_xcf hw d =
     (let (result, d) = (if access_mode d = O_RDONLY
            then (case board hw XCF_readend d of ((r, _), d) \<Rightarrow> (r, d)) else (0, d))
      in if access_mode d = O_WRONLY
         then (case xcf_data d of
            None \<Rightarrow> None
          | Some buffer \<Rightarrow>
              let d = snd (board hw (XCF_write buffer (xcf_data_pos d) XCF_DATA_ALLOC_SIZE) d);
                  ((result, _), d) = board hw XCF_progend d
              in Some (result, free_xcf (snd (board hw XCF_conf d))))
         else Some (result, free_xcf d))"

definition release_spi :: "hardware \<Rightarrow> int \<Rightarrow> mrf_dev \<Rightarrow> mrf_dev option" where
  "release_spi hw start d =
     map_option free_xcf (if access_mode d = O_WRONLY then program_buffer hw start d else Some d)"

definition release_flash :: "hardware \<Rightarrow> mrf_dev \<Rightarrow> (int \<times> mrf_dev) option" where
  "release_flash hw d =
     Option.bind (if has_type d MRF_DEVTYPE_V2P_9030 then release_xcf hw d else Some (0, d)) (\<lambda>(result, d).
     Option.bind (if has_type d MRF_DEVTYPE_V5_9056 then release_spi hw 0 d else Some d) (\<lambda>d.
     Option.bind (if has_type d (MRF_DEVTYPE_ECP3_PCI OR MRF_DEVTYPE_ECP3_PCIE)
       then release_spi hw (int FLASH_SECTOR_PRIMARY_START) d else Some d) (\<lambda>d.
     Option.bind (if has_type d MRF_DEVTYPE_K7_PCIE then release_spi hw 0 d else Some d) (\<lambda>d.
     Some (result, close_access d)))))"

definition release_fpga :: "hardware \<Rightarrow> mrf_dev \<Rightarrow> int \<times> mrf_dev" where
  "release_fpga hw d =
     (if has_type d (MRF_DEVTYPE_V2P_9030 OR MRF_DEVTYPE_V5_9056)
      then
        let (result, d) = (if access_mode d = O_WRONLY
              then (case board hw (if has_type d MRF_DEVTYPE_V2P_9030 then End_load_fpga_9030 else End_load_fpga_9056) d of
                ((r, _), d) \<Rightarrow> (r, d)) else (0, d))
        in (result, close_access (free_fpga d))
      else (- ENXIO, d))"

definition release_ev :: "mrf_dev \<Rightarrow> int \<times> mrf_dev" where
  "release_ev d =
     (let d = note_call Remove_fasync d;
          d = (if refcount_ev d \<noteq> 0 then d\<lparr>refcount_ev := refcount_ev d - 1\<rparr> else d)
      in (0, if refcount_ev d = 0 then close_access (note_call Free_irq (board_irq_disable d)) else d))"

definition ev_release :: "hardware \<Rightarrow> bool \<Rightarrow> mrf_dev \<Rightarrow> (int \<times> mrf_dev) option" where
  "ev_release hw interrupted d =
     (if interrupted then Some (- ERESTARTSYS, d)
      else if access_device d = DEVICE_EEPROM then release_eeprom hw d
      else if access_device d = DEVICE_FLASH then release_flash hw d
      else if access_device d = DEVICE_FPGA then Some (release_fpga hw d)
      else if access_device d = DEVICE_EV then Some (release_ev d)
      else Some (- ENXIO, d))"

section \<open>Reading and writing\<close>

text \<open>Conversions to \<^verbatim>\<open>unsigned long\<close> and \<^verbatim>\<open>int\<close>.\<close>

definition to_ulong :: "int \<Rightarrow> int" where
  "to_ulong x = x mod 2 ^ 64"

definition to_int :: "int \<Rightarrow> int" where
  "to_int x = sint (word_of_int x :: u32)"

text \<open>
  Copying between a buffer and the process, of which \<open>accessible\<close> bytes can be accessed. The number of
  bytes and the offset are what the code computes.
\<close>

definition copy_to_user :: "int \<Rightarrow> u8 list \<Rightarrow> int \<Rightarrow> int \<Rightarrow> u8 list option option" where
  "copy_to_user accessible buffer offset count =
     (if count > accessible then Some None
      else if 0 \<le> offset \<and> offset + count \<le> int (length buffer) then Some (Some (take (nat count) (drop (nat offset) buffer)))
      else None)"

definition copy_from_user :: "u8 list \<Rightarrow> u8 list \<Rightarrow> int \<Rightarrow> int \<Rightarrow> u8 list option option" where
  "copy_from_user bytes buffer offset count =
     (if count > int (length bytes) then Some None
      else if 0 \<le> offset \<and> offset + count \<le> int (length buffer)
      then Some (Some (take (nat offset) buffer @ take (nat count) bytes @ drop (nat offset + nat count) buffer))
      else None)"

text \<open>
  The result of a read: the returned number, the bytes the process gets, the new position and the state.
  The limit for a buffer with a size, and for a page.
\<close>

type_synonym read_result = "(int \<times> u8 list \<times> int \<times> mrf_dev) option"

definition limit_count :: "int \<Rightarrow> int \<Rightarrow> int \<Rightarrow> int" where
  "limit_count f_pos count end_pos = (if to_ulong (f_pos + count) > to_ulong end_pos then to_ulong (end_pos - f_pos) else count)"

definition finish_read :: "int \<Rightarrow> u8 list option \<Rightarrow> int \<Rightarrow> int \<Rightarrow> int \<Rightarrow> mrf_dev \<Rightarrow> read_result" where
  "finish_read accessible data offset count f_pos d = (case data of
     None \<Rightarrow> None
   | Some buffer \<Rightarrow> (case copy_to_user accessible buffer offset count of
        None \<Rightarrow> None
      | Some None \<Rightarrow> Some (- EFAULT, [], f_pos, d)
      | Some (Some bytes) \<Rightarrow> Some (count, bytes, f_pos + count, d)))"

definition read_sized :: "int \<Rightarrow> int \<Rightarrow> int \<Rightarrow> u8 list option \<Rightarrow> int \<Rightarrow> mrf_dev \<Rightarrow> read_result" where
  "read_sized accessible count f_pos data data_size d =
     (if f_pos > data_size then Some (0, [], f_pos, d)
      else finish_read accessible data f_pos (limit_count f_pos count data_size) f_pos d)"

text \<open>Reading through a page, which is filled by \<open>load\<close> when the position is in another one.\<close>

definition page_of :: "nat \<Rightarrow> int \<Rightarrow> int" where
  "page_of page f_pos = f_pos AND NOT (int page - 1)"

definition read_paged ::
    "nat \<Rightarrow> (u32 \<Rightarrow> mrf_dev \<Rightarrow> u8 list \<times> mrf_dev) \<Rightarrow> int \<Rightarrow> int \<Rightarrow> int \<Rightarrow> mrf_dev \<Rightarrow> read_result" where
  "read_paged page load accessible count f_pos d =
     (let d = (if page_of page f_pos \<noteq> xcf_data_pos d
            then (case load (word_of_int (page_of page f_pos)) d of
               (bytes, d) \<Rightarrow> d\<lparr>xcf_data := map_option (fill bytes) (xcf_data d), xcf_data_pos := to_int (page_of page f_pos)\<rparr>)
            else d)
      in finish_read accessible (xcf_data d) (f_pos AND (int page - 1))
           (limit_count f_pos count (to_int (xcf_data_pos d + int page))) f_pos d)"

definition load_xcf :: "hardware \<Rightarrow> u32 \<Rightarrow> mrf_dev \<Rightarrow> u8 list \<times> mrf_dev" where
  "load_xcf hw addr d = (case board hw (XCF_read addr XCF_DATA_ALLOC_SIZE) d of ((_, bytes), d) \<Rightarrow> (bytes, d))"

definition load_spi :: "hardware \<Rightarrow> nat \<Rightarrow> u32 \<Rightarrow> mrf_dev \<Rightarrow> u8 list \<times> mrf_dev" where
  "load_spi hw start addr d =
     (case on_flash (flash_fastread (hw_spi hw) (addr + of_nat start) FLASH_DATA_ALLOC_SIZE) d of ((_, bytes), d) \<Rightarrow> (bytes, d))"

definition read_fpga :: "int \<Rightarrow> int \<Rightarrow> int \<Rightarrow> mrf_dev \<Rightarrow> read_result" where
  "read_fpga accessible count f_pos d =
     (if has_type d (MRF_DEVTYPE_V2P_9030 OR MRF_DEVTYPE_V5_9056)
      then read_sized accessible count f_pos (fpga_conf_data d) (fpga_conf_size d) d
      else Some (0, [], f_pos, d))"

text \<open>For a kind of board without a flash memory of its own, the case of the flash memory falls through to the next one.\<close>

definition read_flash :: "hardware \<Rightarrow> int \<Rightarrow> int \<Rightarrow> int \<Rightarrow> mrf_dev \<Rightarrow> read_result" where
  "read_flash hw accessible count f_pos d =
     (if has_type d MRF_DEVTYPE_V2P_9030
      then read_paged XCF_DATA_ALLOC_SIZE (load_xcf hw) accessible count f_pos d
      else if has_type d MRF_DEVTYPE_V5_9056
      then read_paged FLASH_DATA_ALLOC_SIZE (load_spi hw 0) accessible count f_pos d
      else if has_type d (MRF_DEVTYPE_ECP3_PCI OR MRF_DEVTYPE_ECP3_PCIE)
      then read_paged FLASH_DATA_ALLOC_SIZE (load_spi hw FLASH_SECTOR_PRIMARY_START) accessible count f_pos d
      else if has_type d MRF_DEVTYPE_K7_PCIE
      then read_paged FLASH_DATA_ALLOC_SIZE (load_spi hw 0) accessible count f_pos d
      else read_fpga accessible count f_pos d)"

definition ev_read :: "hardware \<Rightarrow> bool \<Rightarrow> int \<Rightarrow> int \<Rightarrow> int \<Rightarrow> mrf_dev \<Rightarrow> read_result" where
  "ev_read hw interrupted accessible count f_pos d =
     (if interrupted then Some (- ERESTARTSYS, [], f_pos, d)
      else if access_device d = DEVICE_EEPROM
      then (if has_type d (MRF_DEVTYPE_V2P_9030 OR MRF_DEVTYPE_V5_9056)
            then read_sized accessible count f_pos (eeprom_data d) (eeprom_data_size d) d
            else Some (0, [], f_pos, d))
      else if access_device d = DEVICE_FLASH then read_flash hw accessible count f_pos d
      else if access_device d = DEVICE_FPGA then read_fpga accessible count f_pos d
      else Some (0, [], f_pos, d))"

text \<open>The result of a write: the returned number, the new position and the state.\<close>

type_synonym write_result = "(int \<times> int \<times> mrf_dev) option"

definition write_eeprom :: "u8 list \<Rightarrow> int \<Rightarrow> int \<Rightarrow> mrf_dev \<Rightarrow> write_result" where
  "write_eeprom bytes count f_pos d =
     (if f_pos > int EEPROM_DATA_ALLOC_SIZE - 1 then Some (- ENOMEM, f_pos, d)
      else (case eeprom_data d of
        None \<Rightarrow> None
      | Some buffer \<Rightarrow>
          let count = limit_count f_pos count (int EEPROM_DATA_ALLOC_SIZE - 1)
          in (case copy_from_user bytes buffer f_pos count of
             None \<Rightarrow> None
           | Some None \<Rightarrow> Some (- EFAULT, f_pos, d)
           | Some (Some buffer) \<Rightarrow> Some (count, f_pos + count,
               d\<lparr>eeprom_data := Some buffer, eeprom_data_size := to_int (f_pos + count)\<rparr>))))"

text \<open>Writing through a page, which is programmed by \<open>store\<close> when it is full.\<close>

definition write_paged ::
    "nat \<Rightarrow> (mrf_dev \<Rightarrow> mrf_dev option) \<Rightarrow> u8 list \<Rightarrow> int \<Rightarrow> int \<Rightarrow> mrf_dev \<Rightarrow> write_result" where
  "write_paged page store bytes count f_pos d =
     (if f_pos < xcf_data_pos d then Some (- ENOMEM, f_pos, d)
      else (case xcf_data d of
        None \<Rightarrow> None
      | Some buffer \<Rightarrow>
          let count = limit_count f_pos count (to_int (xcf_data_pos d + int page))
          in (case copy_from_user bytes buffer (f_pos AND (int page - 1)) count of
             None \<Rightarrow> None
           | Some None \<Rightarrow> Some (- EFAULT, f_pos, d)
           | Some (Some buffer) \<Rightarrow>
               let f_pos = f_pos + count; d = d\<lparr>xcf_data := Some buffer\<rparr>
               in if f_pos - xcf_data_pos d = int page
                  then (case store d of
                     None \<Rightarrow> None
                   | Some d \<Rightarrow> Some (count, f_pos, d\<lparr>xcf_data := Some (replicate page 0xff), xcf_data_pos := to_int f_pos\<rparr>))
                  else Some (count, f_pos, d))))"

definition store_xcf :: "hardware \<Rightarrow> mrf_dev \<Rightarrow> mrf_dev option" where
  "store_xcf hw d = (case xcf_data d of
     None \<Rightarrow> None
   | Some buffer \<Rightarrow> Some (snd (board hw (XCF_write buffer (xcf_data_pos d) XCF_DATA_ALLOC_SIZE) d)))"

fun load_fpga_bytes :: "hardware \<Rightarrow> u8 list \<Rightarrow> mrf_dev \<Rightarrow> mrf_dev" where
  "load_fpga_bytes hw [] d = d"
| "load_fpga_bytes hw (byte # bytes) d = load_fpga_bytes hw bytes
     (snd (board hw (if has_type d MRF_DEVTYPE_V2P_9030 then Load_fpga_byte_9030 byte else Load_fpga_byte_9056 byte) d))"

definition write_fpga :: "hardware \<Rightarrow> u8 list \<Rightarrow> int \<Rightarrow> int \<Rightarrow> mrf_dev \<Rightarrow> write_result" where
  "write_fpga hw bytes count f_pos d =
     (if has_type d (MRF_DEVTYPE_V2P_9030 OR MRF_DEVTYPE_V5_9056)
      then (case fpga_conf_data d of
        None \<Rightarrow> None
      | Some buffer \<Rightarrow>
          let count = (if count > int FPGA_DATA_ALLOC_SIZE - 1 then int FPGA_DATA_ALLOC_SIZE - 1 else count)
          in (case copy_from_user bytes buffer 0 count of
             None \<Rightarrow> None
           | Some None \<Rightarrow> Some (- EFAULT, f_pos, d)
           | Some (Some buffer) \<Rightarrow> Some (count, f_pos + count, load_fpga_bytes hw (take (nat count) buffer)
               (d\<lparr>fpga_conf_data := Some buffer, fpga_conf_size := to_int (f_pos + count)\<rparr>))))
      else Some (- ENOMEM, f_pos, d))"

definition write_flash :: "hardware \<Rightarrow> u8 list \<Rightarrow> int \<Rightarrow> int \<Rightarrow> mrf_dev \<Rightarrow> write_result" where
  "write_flash hw bytes count f_pos d =
     (if has_type d MRF_DEVTYPE_V2P_9030
      then write_paged XCF_DATA_ALLOC_SIZE (store_xcf hw) bytes count f_pos d
      else if has_type d MRF_DEVTYPE_V5_9056
      then write_paged FLASH_DATA_ALLOC_SIZE (program_buffer hw 0) bytes count f_pos d
      else if has_type d (MRF_DEVTYPE_ECP3_PCI OR MRF_DEVTYPE_ECP3_PCIE)
      then write_paged FLASH_DATA_ALLOC_SIZE (program_buffer hw (int FLASH_SECTOR_PRIMARY_START)) bytes count f_pos d
      else if has_type d MRF_DEVTYPE_K7_PCIE
      then write_paged FLASH_DATA_ALLOC_SIZE (program_buffer hw 0) bytes count f_pos d
      else write_fpga hw bytes count f_pos d)"

text \<open>\<open>bytes\<close> are the bytes of the process that can be accessed.\<close>

definition ev_write :: "hardware \<Rightarrow> bool \<Rightarrow> u8 list \<Rightarrow> int \<Rightarrow> int \<Rightarrow> mrf_dev \<Rightarrow> write_result" where
  "ev_write hw interrupted bytes count f_pos d =
     (if interrupted then Some (- ERESTARTSYS, f_pos, d)
      else if access_device d = DEVICE_EEPROM
      then (if has_type d (MRF_DEVTYPE_V2P_9030 OR MRF_DEVTYPE_V5_9056) then write_eeprom bytes count f_pos d
            else Some (- ENOMEM, f_pos, d))
      else if access_device d = DEVICE_FLASH then write_flash hw bytes count f_pos d
      else if access_device d = DEVICE_FPGA then write_fpga hw bytes count f_pos d
      else Some (- ENOMEM, f_pos, d))"

section \<open>Control and mapping\<close>

text \<open>
  A command of \<^verbatim>\<open>ioctl\<close> has a type, a number and a direction; \<open>ok\<close> says whether its argument can be
  accessed.
\<close>

definition EV_IOC_MAGIC :: u32 where "EV_IOC_MAGIC = 220"
definition EV_IOC_MAX :: u32 where "EV_IOC_MAX = 3"

definition IOC_DIR :: "u32 \<Rightarrow> u32" where "IOC_DIR cmd = drop_bit 30 cmd AND 0x3"
definition IOC_TYPE :: "u32 \<Rightarrow> u32" where "IOC_TYPE cmd = drop_bit 8 cmd AND 0xff"
definition IOC_NR :: "u32 \<Rightarrow> u32" where "IOC_NR cmd = cmd AND 0xff"

definition EV_IOCRESET :: u32 where "EV_IOCRESET = push_bit 8 EV_IOC_MAGIC"
definition EV_IOCIRQEN :: u32 where "EV_IOCIRQEN = push_bit 8 EV_IOC_MAGIC OR 1"
definition EV_IOCIRQDIS :: u32 where "EV_IOCIRQDIS = push_bit 8 EV_IOC_MAGIC OR 2"

definition ev_unlocked_ioctl :: "bool \<Rightarrow> u32 \<Rightarrow> mrf_dev \<Rightarrow> int \<times> mrf_dev" where
  "ev_unlocked_ioctl ok cmd d =
     (if IOC_TYPE cmd \<noteq> EV_IOC_MAGIC then (- ENOTTY, d)
      else if IOC_NR cmd > EV_IOC_MAX then (- ENOTTY, d)
      else if IOC_DIR cmd \<noteq> 0 \<and> \<not> ok then (- EFAULT, d)
      else if cmd = EV_IOCRESET then (0, d)
      else if cmd = EV_IOCIRQEN then (0, board_irq_enable d)
      else if cmd = EV_IOCIRQDIS then (0, d)
      else (- ENOTTY, d))"

text \<open>
  Mapping: an error, or the physical address and the size that the kernel maps (\<open>mapped\<close> is the result of
  that). Addresses are those of \<^verbatim>\<open>unsigned long\<close>.
\<close>

definition mmap_bar :: "mrf_dev \<Rightarrow> nat option" where
  "mmap_bar d =
     (if access_device d = DEVICE_EV
      then Some (if has_type d (MRF_DEVTYPE_V2P_9030 OR MRF_DEVTYPE_V5_9056) then 2 else 0)
      else if access_device d = DEVICE_FLASH then (if has_type d MRF_DEVTYPE_V5_PCIE then Some 1 else None)
      else None)"

definition ev_remap_mmap :: "bool \<Rightarrow> 64 word \<Rightarrow> 64 word \<Rightarrow> mrf_dev \<Rightarrow> int \<times> (64 word \<times> 64 word) option" where
  "ev_remap_mmap mapped offset vsize d = (case mmap_bar d of
     None \<Rightarrow> (- EPERM, None)
   | Some bar \<Rightarrow>
       let physical = of_nat (BAR_start d ! bar) + offset;
           barlen = of_nat (BAR_end d ! bar) - of_nat (BAR_start d ! bar) + 1
       in if vsize > barlen then (- EINVAL, None)
          else if \<not> mapped then (- EAGAIN, Some (physical, vsize))
          else (0, Some (physical, vsize)))"

end
