(* ===== verification/StateRules.thy ===== *)
theory StateRules
  imports MrfPrelude "HOL-Library.State_Monad"
begin

text \<open>
  Weakest preconditions of programs of the state monad, as simplification rules; the functions of the
  kernel module are such programs over the history of the accesses to a register.
\<close>

definition wp :: "('s, 'a) state \<Rightarrow> ('a \<Rightarrow> 's \<Rightarrow> bool) \<Rightarrow> 's \<Rightarrow> bool" where
  "wp m Q s = (case run_state m s of (r, s') \<Rightarrow> Q r s')"

lemma wp_return [simp]: "wp (State_Monad.return x) Q s = Q x s"
  by (simp add: wp_def)

lemma wp_bind [simp]: "wp (State_Monad.bind m f) Q s = wp m (\<lambda>x. wp (f x) Q) s"
  by (simp add: wp_def split: prod.split)

lemma wp_if [simp]: "wp (if b then m else m') Q s = (if b then wp m Q s else wp m' Q s)"
  by simp

lemma wp_prod [simp]: "wp (case x of (a, b) \<Rightarrow> f a b) Q s = wp (f (fst x) (snd x)) Q s"
  by (simp split: prod.split)

text \<open>The same without a state.\<close>

lemma wp_funs: "wp (State_Monad.return x) Q = Q x" "wp (State_Monad.bind m f) Q = wp m (\<lambda>x. wp (f x) Q)"
  "wp (case y of (a, c) \<Rightarrow> g a c) Q = wp (g (fst y) (snd y)) Q"
  by (rule ext, simp)+

lemma wp_mono: "wp m P s \<Longrightarrow> (\<And>r s'. P r s' \<Longrightarrow> Q r s') \<Longrightarrow> wp m Q s"
  by (auto simp: wp_def split: prod.splits)

lemma wp_conj: "wp m P s \<Longrightarrow> wp m Q s \<Longrightarrow> wp m (\<lambda>r s'. P r s' \<and> Q r s') s"
  by (auto simp: wp_def split: prod.splits)

lemma wp_run: "run_state m s = (r, s') \<Longrightarrow> wp m Q s \<Longrightarrow> Q r s'"
  by (simp add: wp_def)

end
