(* ===== verification/KernelFlash_Props.thy ===== *)
theory KernelFlash_Props
  imports KernelFlash StateRules "HOL-Library.Sublist"
begin

text \<open>
  What the flash functions do on the bus, for every hardware: the bytes that are written while the slave
  is selected form the commands, and every function ends after a bounded number of accesses.
\<close>

section \<open>The bus\<close>

text \<open>
  The complete frames, each the bytes between selecting the slave and releasing it, and the bytes of the
  frame that has begun.
\<close>

type_synonym bus = "u8 list list \<times> u8 list option"

definition release :: "bus \<Rightarrow> bus" where
  "release b = (case b of (fs, None) \<Rightarrow> (fs, None) | (fs, Some c) \<Rightarrow> (fs @ [c], None))"

definition select_slave :: "bus \<Rightarrow> bus" where
  "select_slave b = (case b of (fs, None) \<Rightarrow> (fs, Some []) | (fs, Some c) \<Rightarrow> (fs, Some c))"

definition put_byte :: "u8 \<Rightarrow> bus \<Rightarrow> bus" where
  "put_byte d b = (fst b, map_option (\<lambda>c. c @ [d]) (snd b))"

fun bus :: "spi_event list \<Rightarrow> bus" where
  "bus [] = ([], None)"
| "bus (WriteControl v # h) =
     (if v AND EV_SPI_CONTROL_SELECT \<noteq> 0 then select_slave (bus h) else release (bus h))"
| "bus (WriteData v # h) = put_byte (ucast v) (bus h)"
| "bus (ReadControl v # h) = bus h"
| "bus (ReadData v # h) = bus h"

lemma release_simps [simp]:
  "release (release b) = release b" "snd (release b) = None" "release (fs, None) = (fs, None)"
  "release (fs, Some c) = (fs @ [c], None)" "select_slave (release b) = (fst (release b), Some [])"
  by (auto simp: release_def select_slave_def split: prod.splits option.splits)

lemma release_eq: "release b = (fst (release b), None)"
  by (cases b; cases "snd b") (auto simp: release_def)

lemma put_byte_simps [simp]: "put_byte d (fs, Some c) = (fs, Some (c @ [d]))" "put_byte d (fs, None) = (fs, None)"
  by (simp_all add: put_byte_def)

lemma wp_registers [simp]:
  "wp (read_control dev) Q h = Q (dev_control dev h) (ReadControl (dev_control dev h) # h)"
  "wp (write_control v) Q' h = Q' () (WriteControl v # h)"
  "wp (read_data dev) Q h = Q (dev_data dev h) (ReadData (dev_data dev h) # h)"
  "wp (write_data v) Q' h = Q' () (WriteData v # h)"
  by (simp_all add: wp_def read_control_def write_control_def read_data_def write_data_def Let_def)

section \<open>The controller\<close>

text \<open>Each postcondition has the effect on the bus and a bound for the number of accesses.\<close>

lemma wp_wait_control:
  "wp (wait_control dev msk n) (\<lambda>r h'. (r = 0 \<or> r = -1) \<and> bus h' = bus h \<and> length h' \<le> length h + n) h"
proof (induction n arbitrary: h)
  case (Suc n)
  let ?h = "ReadControl (dev_control dev h) # h"
  show ?case by (auto intro: wp_mono [OF Suc [of ?h]])
qed simp

definition retries :: nat where "retries = SPI_RETRY_COUNT"

lemma wp_slave_select:
  "wp (spi_slave_select dev select)
     (\<lambda>r h'. bus h' = (if select then (fst (release (bus h)), Some []) else release (bus h))
       \<and> length h' \<le> length h + retries + 4) h"
proof -
  have bits: "EV_SPI_CONTROL_OE AND EV_SPI_CONTROL_SELECT = 0"
    "(EV_SPI_CONTROL_OE OR EV_SPI_CONTROL_SELECT) AND EV_SPI_CONTROL_SELECT \<noteq> 0"
    by (simp_all add: EV_SPI_CONTROL_OE_def EV_SPI_CONTROL_SELECT_def)
  show ?thesis
    unfolding spi_slave_select_def spi_wait_tmt_def wp_bind
    by (rule wp_mono [OF wp_wait_control [where h = h]]) (use bits in \<open>auto simp: retries_def\<close>)
qed

lemma wp_spi_write:
  "wp (spi_write dev data)
     (\<lambda>r h'. (r = -1 \<and> bus h' = bus h \<or> 0 \<le> r \<and> bus h' = put_byte (ucast data) (bus h))
       \<and> length h' \<le> length h + retries + 1) h"
  unfolding spi_write_def spi_wait_trdy_def wp_bind
  by (rule wp_mono [OF wp_wait_control [where h = h]]) (auto simp: retries_def)

lemma wp_spi_read:
  "wp (spi_read dev) (\<lambda>r h'. bus h' = bus h \<and> length h' \<le> length h + retries + 1) h"
  unfolding spi_read_def spi_wait_rrdy_def wp_bind
  by (rule wp_mono [OF wp_wait_control [where h = h]]) (auto simp: retries_def)

text \<open>Writes within a frame: all of them, or the first ones up to the one that failed.\<close>

lemma wp_spi_writes:
  assumes "bus h = (fs, Some c)" "0 \<le> r0"
  shows "wp (spi_writes dev ds r0)
     (\<lambda>r h'. (0 \<le> r \<longrightarrow> bus h' = (fs, Some (c @ map ucast ds)))
       \<and> (r < 0 \<longrightarrow> r = -1 \<and> (\<exists>k<length ds. bus h' = (fs, Some (c @ map ucast (take k ds)))))
       \<and> length h' \<le> length h + length ds * (retries + 1)) h"
  using assms
proof (induction ds arbitrary: h c r0)
  case (Cons d ds)
  show ?case
    unfolding spi_writes.simps wp_bind
  proof (rule wp_mono [OF wp_spi_write [where h = h]])
    fix r :: int and h1
    assume *: "(r = -1 \<and> bus h1 = bus h \<or> 0 \<le> r \<and> bus h1 = put_byte (ucast d) (bus h)) \<and> length h1 \<le> length h + retries + 1"
    show "wp (if r < 0 then State_Monad.return r else spi_writes dev ds r)
      (\<lambda>r h'. (0 \<le> r \<longrightarrow> bus h' = (fs, Some (c @ map ucast (d # ds))))
       \<and> (r < 0 \<longrightarrow> r = -1 \<and> (\<exists>k<length (d # ds). bus h' = (fs, Some (c @ map ucast (take k (d # ds))))))
       \<and> length h' \<le> length h + length (d # ds) * (retries + 1)) h1"
    proof (cases "r < 0")
      case True
      then show ?thesis using * Cons.prems by auto
    next
      case False
      then have h1: "bus h1 = (fs, Some (c @ [ucast d]))" using * Cons.prems by simp
      have longer: "\<exists>k'<Suc (length ds). bus h' = (fs, Some (c @ map ucast (take k' (d # ds))))"
        if "k < length ds" "bus h' = (fs, Some ((c @ [ucast d]) @ map ucast (take k ds)))" for k h'
        using that by (intro exI [of _ "Suc k"]) simp
      have "0 \<le> r" using False by simp
      then show ?thesis
        unfolding wp_if if_not_P [OF False]
        by (rule wp_mono [OF Cons.IH [OF h1]]) (use * longer in \<open>auto simp: algebra_simps\<close>)
    qed
  qed
qed simp

section \<open>Status and waiting\<close>

lemmas command_defs = M25P_FAST_READ_def M25P_RDID_def M25P_WREN_def M25P_RDSR_def M25P_SE_def M25P_BE_def M25P_PP_def

text \<open>The frames of status reads: complete ones, and beginnings of those that failed.\<close>

definition status_frames :: "u8 list list \<Rightarrow> bool" where
  "status_frames fs \<longleftrightarrow> (\<forall>f \<in> set fs. prefix f [0x05, 0])"

lemma status_frames_simps [simp]:
  "status_frames []" "status_frames (fs @ gs) \<longleftrightarrow> status_frames fs \<and> status_frames gs"
  by (auto simp: status_frames_def)

lemma wp_read_status:
  "wp (flash_read_status dev)
     (\<lambda>r h'. (\<exists>f. bus h' = (fst (release (bus h)) @ f, None) \<and> status_frames f \<and> (r \<noteq> -1 \<longrightarrow> f = [[0x05, 0]]))
       \<and> length h' \<le> length h + (7 * retries + 16)) h"
  unfolding flash_read_status_def wp_bind
proof (rule wp_mono [OF wp_slave_select], elim conjE)
  fix h1 assume h1: "bus h1 = (if False then (fst (release (bus h)), Some []) else release (bus h))"
    "length h1 \<le> length h + retries + 4"
  let ?fs = "fst (release (bus h))"
  have b1: "bus h1 = (?fs, None)" using h1 release_eq [of "bus h"] by simp
  let ?last = "\<lambda>x :: int. wp (spi_slave_select dev False) (\<lambda>y. wp (State_Monad.return x)
     (\<lambda>r h'. (\<exists>f. bus h' = (?fs @ f, None) \<and> status_frames f \<and> (r \<noteq> -1 \<longrightarrow> f = [[0x05, 0]]))
       \<and> length h' \<le> length h + (7 * retries + 16)))"
  have last: "?last r h4" if "bus h4 = (?fs, None) \<and> r = -1 \<and> length h4 \<le> length h + 6 * retries + 12
      \<or> (\<exists>c. bus h4 = (?fs, Some c) \<and> prefix c [0x05, 0] \<and> (r \<noteq> -1 \<longrightarrow> c = [0x05, 0])) \<and> length h4 \<le> length h + 6 * retries + 12"
    for r h4
    by (rule wp_mono [OF wp_slave_select]) (use that in \<open>auto simp: status_frames_def\<close>)
  show "wp (spi_write dev 0) (\<lambda>x. wp (if x < 0 then State_Monad.return x
      else do { _ \<leftarrow> spi_slave_select dev True; retval \<leftarrow> spi_writes dev [M25P_RDSR, 0] 0;
        if retval < 0 then State_Monad.return retval else spi_read dev }) ?last) h1"
  proof (rule wp_mono [OF wp_spi_write], elim conjE)
    fix x :: int and h2
    assume x: "x = -1 \<and> bus h2 = bus h1 \<or> 0 \<le> x \<and> bus h2 = put_byte (ucast (0 :: u32)) (bus h1)"
      and l2: "length h2 \<le> length h1 + retries + 1"
    have b2: "bus h2 = (?fs, None)" using x b1 by auto
    show "wp (if x < 0 then State_Monad.return x
      else do { _ \<leftarrow> spi_slave_select dev True; retval \<leftarrow> spi_writes dev [M25P_RDSR, 0] 0;
        if retval < 0 then State_Monad.return retval else spi_read dev }) ?last h2"
    proof (cases "x < 0")
      case True
      then show ?thesis unfolding if_P [OF True] wp_return by (intro last [unfolded wp_return]) (use x b2 l2 h1 in auto)
    next
      case False
      show ?thesis
        unfolding if_not_P [OF False] wp_bind
      proof (rule wp_mono [OF wp_slave_select], elim conjE)
        fix h3 assume h3: "bus h3 = (if True then (fst (release (bus h2)), Some []) else release (bus h2))"
          "length h3 \<le> length h2 + retries + 4"
        then have b3: "bus h3 = (?fs, Some [])" using b2 by simp
        show "wp (spi_writes dev [M25P_RDSR, 0] 0) (\<lambda>x. wp (if x < 0 then State_Monad.return x else spi_read dev) ?last) h3"
        proof (rule wp_mono [OF wp_spi_writes [OF b3]])
          fix y :: int and h4
          assume y: "(0 \<le> y \<longrightarrow> bus h4 = (?fs, Some ([] @ map ucast [M25P_RDSR, 0])))
            \<and> (y < 0 \<longrightarrow> y = -1 \<and> (\<exists>k<length [M25P_RDSR, 0]. bus h4 = (?fs, Some ([] @ map ucast (take k [M25P_RDSR, 0])))))
            \<and> length h4 \<le> length h3 + length [M25P_RDSR, 0] * (retries + 1)"
          then have l4: "length h4 \<le> length h + 5 * retries + 11" using h1 l2 h3 by simp
          show "wp (if y < 0 then State_Monad.return y else spi_read dev) ?last h4"
          proof (cases "y < 0")
            case True
            then obtain k where "bus h4 = (?fs, Some (map ucast (take k [M25P_RDSR, 0])))" "y = -1"
              using y unfolding append_Nil by blast
            moreover have "prefix (map ucast (take k [M25P_RDSR, 0])) [0x05, 0 :: u8]"
            proof -
              have "map ucast [M25P_RDSR, 0] = [0x05, 0 :: u8]" by (simp add: command_defs)
              then show ?thesis unfolding take_map [symmetric] by (simp only: take_is_prefix)
            qed
            ultimately have "(\<exists>c. bus h4 = (?fs, Some c) \<and> prefix c [0x05, 0] \<and> (y \<noteq> -1 \<longrightarrow> c = [0x05, 0]))
                \<and> length h4 \<le> length h + 6 * retries + 12"
              using l4 by (intro conjI exI [of _ "map ucast (take k [M25P_RDSR, 0])"]) simp_all
            then show ?thesis unfolding if_P [OF True] wp_return by (intro last [unfolded wp_return] disjI2)
          next
            case False
            then have b4: "bus h4 = (?fs, Some [0x05, 0])" using y by (simp add: command_defs)
            show ?thesis
              unfolding if_not_P [OF False]
              by (rule wp_mono [OF wp_spi_read], intro last) (use b4 l4 in auto)
          qed
        qed simp
      qed
    qed
  qed
qed

lemma wp_wait_idle:
  assumes "bus h = (fs, None)"
  shows "wp (wait_idle dev checked n r0)
     (\<lambda>r h'. (\<exists>st. bus h' = (fs @ st, None) \<and> status_frames st \<and> (snd r \<longrightarrow> st \<noteq> [] \<and> last st = [0x05, 0] \<and> fst r \<noteq> -1))
       \<and> length h' \<le> length h + n * (7 * retries + 16)) h"
  using assms
proof (induction n arbitrary: h fs r0)
  case (Suc n)
  show ?case
    unfolding wait_idle.simps wp_bind
  proof (rule wp_mono [OF wp_read_status], elim conjE exE)
    fix r :: int and h1 f
    assume f: "bus h1 = (fst (release (bus h)) @ f, None)" "status_frames f" "r \<noteq> -1 \<longrightarrow> f = [[0x05, 0]]"
      and l: "length h1 \<le> length h + (7 * retries + 16)"
    have b: "bus h1 = (fs @ f, None)" using f Suc.prems by simp
    let ?Q = "\<lambda>r h'. (\<exists>st. bus h' = (fs @ st, None) \<and> status_frames st
        \<and> (snd r \<longrightarrow> st \<noteq> [] \<and> last st = [0x05, 0] \<and> fst r \<noteq> -1)) \<and> length h' \<le> length h + Suc n * (7 * retries + 16)"
    show "wp (if (word_of_int r :: u32) AND M25P_STATUS_WIP = 0 \<and> (checked \<longrightarrow> r \<ge> 0)
        then State_Monad.return (r, True) else wait_idle dev checked n r) ?Q h1"
    proof (cases "(word_of_int r :: u32) AND M25P_STATUS_WIP = 0 \<and> (checked \<longrightarrow> r \<ge> 0)")
      case True
      then have "r \<noteq> -1" by (auto simp: M25P_STATUS_WIP_def)
      then show ?thesis unfolding if_P [OF True] wp_return using b f l by (intro conjI exI [of _ f]) simp_all
    next
      case False
      show ?thesis
        unfolding if_not_P [OF False]
      proof (rule wp_mono [OF Suc.IH [OF b]], elim conjE exE)
        fix x h2 st
        assume "bus h2 = ((fs @ f) @ st, None)" "status_frames st"
          "snd x \<longrightarrow> st \<noteq> [] \<and> last st = [0x05, 0] \<and> fst x \<noteq> -1" "length h2 \<le> length h1 + n * (7 * retries + 16)"
        then show "?Q x h2" using f l by (intro conjI exI [of _ "f @ st"]) auto
      qed
    qed
  qed
qed simp

lemma wp_write_enable:
  "wp (flash_write_enable dev)
     (\<lambda>r h'. (0 \<le> r \<and> bus h' = (fst (release (bus h)) @ [[0x06]], None)
         \<or> r = -1 \<and> (\<exists>c. bus h' = (fst (release (bus h)), c) \<and> (c = None \<or> c = Some [])))
       \<and> length h' \<le> length h + (5 * retries + 14)) h"
  unfolding flash_write_enable_def wp_bind
proof (rule wp_mono [OF wp_slave_select], elim conjE)
  fix h1 assume h1: "bus h1 = (if False then (fst (release (bus h)), Some []) else release (bus h))"
    "length h1 \<le> length h + retries + 4"
  let ?fs = "fst (release (bus h))"
  let ?Q = "\<lambda>r h'. (0 \<le> r \<and> bus h' = (?fs @ [[0x06]], None) \<or> r = -1 \<and> (\<exists>c. bus h' = (?fs, c) \<and> (c = None \<or> c = Some [])))
       \<and> length h' \<le> length h + (5 * retries + 14)"
  let ?rest = "do { _ \<leftarrow> spi_slave_select dev True; retval \<leftarrow> spi_write dev M25P_WREN;
      if retval < 0 then State_Monad.return retval
      else do { _ \<leftarrow> spi_slave_select dev False; State_Monad.return retval } }"
  have b1: "bus h1 = (?fs, None)" using h1 release_eq [of "bus h"] by simp
  show "wp (spi_write dev M25P_RDID) (\<lambda>x. wp (if x < 0 then State_Monad.return x else ?rest) ?Q) h1"
  proof (rule wp_mono [OF wp_spi_write], elim conjE)
    fix x :: int and h2
    assume x: "x = -1 \<and> bus h2 = bus h1 \<or> 0 \<le> x \<and> bus h2 = put_byte (ucast M25P_RDID) (bus h1)"
      and l2: "length h2 \<le> length h1 + retries + 1"
    have b2: "bus h2 = (?fs, None)" using x b1 by auto
    show "wp (if x < 0 then State_Monad.return x else ?rest) ?Q h2"
    proof (cases "x < 0")
      case True
      then have "x = -1" using x by linarith
      moreover have "length h2 \<le> length h + (5 * retries + 14)" using l2 h1 by simp
      ultimately show ?thesis using b2 by simp
    next
      case False
      show ?thesis
        unfolding if_not_P [OF False] wp_bind
      proof (rule wp_mono [OF wp_slave_select], elim conjE)
        fix h3 assume h3: "bus h3 = (if True then (fst (release (bus h2)), Some []) else release (bus h2))"
          "length h3 \<le> length h2 + retries + 4"
        then have b3: "bus h3 = (?fs, Some [])" using b2 by simp
        show "wp (spi_write dev M25P_WREN) (\<lambda>r. wp (if r < 0 then State_Monad.return r
            else do { _ \<leftarrow> spi_slave_select dev False; State_Monad.return r }) ?Q) h3"
        proof (rule wp_mono [OF wp_spi_write], elim conjE)
          fix y :: int and h4
          assume y: "y = -1 \<and> bus h4 = bus h3 \<or> 0 \<le> y \<and> bus h4 = put_byte (ucast M25P_WREN) (bus h3)"
            and l4: "length h4 \<le> length h3 + retries + 1"
          show "wp (if y < 0 then State_Monad.return y else do { _ \<leftarrow> spi_slave_select dev False; State_Monad.return y }) ?Q h4"
          proof (cases "y < 0")
            case True
            then show ?thesis using y b3 l4 h3 l2 h1 by simp
          next
            case False
            then have "bus h4 = (?fs, Some [0x06])" using y b3 by (simp add: command_defs)
            then show ?thesis
              unfolding if_not_P [OF False] wp_bind
              by (intro wp_mono [OF wp_slave_select]) (use False l4 h3 l2 h1 in simp)
          qed
        qed
      qed
    qed
  qed
qed

section \<open>Commands\<close>

lemma wp_command:
  assumes "bus h = (fs, None)"
  shows "wp (flash_command dev bytes checked n)
     (\<lambda>r h'. ((\<exists>st. bus h' = (fs @ [map ucast bytes] @ st, None) \<and> status_frames st
           \<and> (r \<noteq> -1 \<longrightarrow> st \<noteq> [] \<and> last st = [0x05, 0]))
         \<or> r = -1 \<and> (\<exists>k<length bytes. bus h' = (fs, Some (map ucast (take k bytes)))))
       \<and> length h' \<le> length h + (2 * retries + 8 + length bytes * (retries + 1) + n * (7 * retries + 16))) h"
  unfolding flash_command_def wp_bind
proof (rule wp_mono [OF wp_slave_select], elim conjE)
  fix h1 assume h1: "bus h1 = (if True then (fst (release (bus h)), Some []) else release (bus h))"
    "length h1 \<le> length h + retries + 4"
  have b1: "bus h1 = (fs, Some [])" using h1 assms by simp
  let ?Q = "\<lambda>r h'. ((\<exists>st. bus h' = (fs @ [map ucast bytes] @ st, None) \<and> status_frames st
           \<and> (r \<noteq> -1 \<longrightarrow> st \<noteq> [] \<and> last st = [0x05, 0]))
         \<or> r = -1 \<and> (\<exists>k<length bytes. bus h' = (fs, Some (map ucast (take k bytes)))))
       \<and> length h' \<le> length h + (2 * retries + 8 + length bytes * (retries + 1) + n * (7 * retries + 16))"
  show "wp (spi_writes dev bytes 0) (\<lambda>r. wp (if r < 0 then State_Monad.return r
      else do { _ \<leftarrow> spi_slave_select dev False; (r, ended) \<leftarrow> wait_idle dev checked n r;
        State_Monad.return (if ended then r else -1) }) ?Q) h1"
  proof (rule wp_mono [OF wp_spi_writes [OF b1]], simp, elim conjE)
    fix r :: int and h2
    assume w: "0 \<le> r \<longrightarrow> bus h2 = (fs, Some ([] @ map ucast bytes))"
      "r < 0 \<longrightarrow> r = -1 \<and> (\<exists>k<length bytes. bus h2 = (fs, Some ([] @ map ucast (take k bytes))))"
      and l2: "length h2 \<le> length h1 + length bytes * (retries + 1)"
    show "wp (if r < 0 then State_Monad.return r
      else do { _ \<leftarrow> spi_slave_select dev False; (r, ended) \<leftarrow> wait_idle dev checked n r;
        State_Monad.return (if ended then r else -1) }) ?Q h2"
    proof (cases "r < 0")
      case True
      then have "r = -1 \<and> (\<exists>k<length bytes. bus h2 = (fs, Some (map ucast (take k bytes))))"
        using w(2) unfolding append_Nil by blast
      moreover have "length h2 \<le> length h + (2 * retries + 8 + length bytes * (retries + 1) + n * (7 * retries + 16))"
        using l2 h1(2) by linarith
      ultimately show ?thesis unfolding if_P [OF True] wp_return by blast
    next
      case False
      then have b2: "bus h2 = (fs, Some (map ucast bytes))" using w(1) by simp
      show ?thesis
        unfolding if_not_P [OF False] wp_bind
      proof (rule wp_mono [OF wp_slave_select], elim conjE)
        fix h3 assume h3: "bus h3 = (if False then (fst (release (bus h2)), Some []) else release (bus h2))"
          "length h3 \<le> length h2 + retries + 4"
        then have b3: "bus h3 = (fs @ [map ucast bytes], None)" using b2 by simp
        show "wp (wait_idle dev checked n r) (\<lambda>x. wp (case x of (r, ended) \<Rightarrow> State_Monad.return (if ended then r else -1)) ?Q) h3"
        proof (rule wp_mono [OF wp_wait_idle [OF b3]], elim conjE exE)
          fix x h4 st
          assume st: "bus h4 = ((fs @ [map ucast bytes]) @ st, None)" "status_frames st"
            "snd x \<longrightarrow> st \<noteq> [] \<and> last st = [0x05, 0] \<and> fst x \<noteq> -1"
            and l4: "length h4 \<le> length h3 + n * (7 * retries + 16)"
          have "length h4 \<le> length h + (2 * retries + 8 + length bytes * (retries + 1) + n * (7 * retries + 16))"
            using l4 h3(2) l2 h1(2) by linarith
          moreover have "\<exists>st. bus h4 = (fs @ [map ucast bytes] @ st, None) \<and> status_frames st
              \<and> ((if snd x then fst x else -1) \<noteq> -1 \<longrightarrow> st \<noteq> [] \<and> last st = [0x05, 0])"
            using st by (intro exI [of _ st]) (auto split: if_splits)
          ultimately show "wp (case x of (r, ended) \<Rightarrow> State_Monad.return (if ended then r else -1)) ?Q h4"
            unfolding wp_prod wp_return by blast
        qed
      qed
    qed
  qed
qed

text \<open>
  A command after the write enable command, and releasing the slave at the end: the part that erasing a
  sector and programming a page share.
\<close>

definition enabled_frames :: "u8 list list \<Rightarrow> u8 list \<Rightarrow> u8 list list \<Rightarrow> bool" where
  "enabled_frames fs command gs \<longleftrightarrow> gs = fs \<or> gs = fs @ [[]]
     \<or> (\<exists>c. strict_prefix c command \<and> gs = fs @ [[0x06], c])
     \<or> (\<exists>st. status_frames st \<and> gs = fs @ [[0x06], command] @ st)"

lemma wp_enabled_command:
  assumes "m = do { retval \<leftarrow> flash_write_enable dev;
     if retval < 0 then State_Monad.return retval else flash_command dev bytes checked n }"
  shows "wp m (\<lambda>r h'. enabled_frames (fst (release (bus h))) (map ucast bytes) (fst (release (bus h')))
       \<and> (r \<noteq> -1 \<longrightarrow> (\<exists>st. bus h' = (fst (release (bus h)) @ [[0x06], map ucast bytes] @ st, None)
           \<and> status_frames st \<and> st \<noteq> [] \<and> last st = [0x05, 0]))
       \<and> length h' \<le> length h + (7 * retries + 22 + length bytes * (retries + 1) + n * (7 * retries + 16))) h"
  unfolding assms wp_bind
proof (rule wp_mono [OF wp_write_enable], elim conjE)
  let ?fs = "fst (release (bus h))"
  let ?Q = "\<lambda>r h'. enabled_frames ?fs (map ucast bytes) (fst (release (bus h')))
       \<and> (r \<noteq> -1 \<longrightarrow> (\<exists>st. bus h' = (?fs @ [[0x06], map ucast bytes] @ st, None)
           \<and> status_frames st \<and> st \<noteq> [] \<and> last st = [0x05, 0]))
       \<and> length h' \<le> length h + (7 * retries + 22 + length bytes * (retries + 1) + n * (7 * retries + 16))"
  fix r :: int and h1
  assume r: "0 \<le> r \<and> bus h1 = (?fs @ [[0x06]], None) \<or> r = -1 \<and> (\<exists>c. bus h1 = (?fs, c) \<and> (c = None \<or> c = Some []))"
    and l1: "length h1 \<le> length h + (5 * retries + 14)"
  show "wp (if r < 0 then State_Monad.return r else flash_command dev bytes checked n) ?Q h1"
  proof (cases "r < 0")
    case True
    with r obtain c where "r = -1" "bus h1 = (?fs, c)" "c = None \<or> c = Some []" by auto
    moreover have "length h1 \<le> length h + (7 * retries + 22 + length bytes * (retries + 1) + n * (7 * retries + 16))"
      using l1 by linarith
    ultimately show ?thesis unfolding if_P [OF True] wp_return by (auto simp: enabled_frames_def)
  next
    case False
    then have b1: "bus h1 = (?fs @ [[0x06]], None)" using r by linarith
    show ?thesis
      unfolding if_not_P [OF False]
    proof (rule wp_mono [OF wp_command [OF b1]], elim conjE)
      fix x :: int and h2
      assume c: "(\<exists>st. bus h2 = ((?fs @ [[0x06]]) @ [map ucast bytes] @ st, None) \<and> status_frames st
           \<and> (x \<noteq> -1 \<longrightarrow> st \<noteq> [] \<and> last st = [0x05, 0]))
         \<or> x = -1 \<and> (\<exists>k<length bytes. bus h2 = (?fs @ [[0x06]], Some (map ucast (take k bytes))))"
        and "length h2 \<le> length h1 + (2 * retries + 8 + length bytes * (retries + 1) + n * (7 * retries + 16))"
      then have l2: "length h2 \<le> length h + (7 * retries + 22 + length bytes * (retries + 1) + n * (7 * retries + 16))"
        using l1 by linarith
      show "?Q x h2"
        using c
      proof
        assume "\<exists>st. bus h2 = ((?fs @ [[0x06]]) @ [map ucast bytes] @ st, None) \<and> status_frames st
           \<and> (x \<noteq> -1 \<longrightarrow> st \<noteq> [] \<and> last st = [0x05, 0])"
        then show ?thesis using l2 by (auto simp: enabled_frames_def)
      next
        assume "x = -1 \<and> (\<exists>k<length bytes. bus h2 = (?fs @ [[0x06]], Some (map ucast (take k bytes))))"
        then obtain k where k: "x = -1" "k < length bytes" "bus h2 = (?fs @ [[0x06]], Some (map ucast (take k bytes)))"
          by blast
        have "strict_prefix (map ucast (take k bytes) :: u8 list) (map ucast bytes)"
          unfolding take_map [symmetric] strict_prefix_def using k(2) by (simp add: take_is_prefix)
        then show ?thesis using k l2 by (auto simp: enabled_frames_def)
      qed
    qed
  qed
qed

section \<open>Programming a page\<close>

lemma wp_page_program:
  assumes "length data = 256" "n = 256" "addr AND 255 = 0"
  shows "wp (flash_pageprogram dev data addr n)
     (\<lambda>r h'. snd (bus h') = None
       \<and> enabled_frames (fst (release (bus h))) (0x02 # map ucast (address_bytes addr) @ data) (fst (bus h'))
       \<and> (r \<noteq> -1 \<longrightarrow> (\<exists>st. fst (bus h') = fst (release (bus h)) @ [[0x06], 0x02 # map ucast (address_bytes addr) @ data] @ st
           \<and> status_frames st \<and> st \<noteq> [] \<and> last st = [0x05, 0]))
       \<and> length h' \<le> length h + (8 * retries + 26 + 260 * (retries + 1) + retries * (7 * retries + 16))) h"
proof -
  let ?bytes = "M25P_PP # address_bytes addr @ map (\<lambda>i. scast (data ! i)) [0..<FLASH_DATA_ALLOC_SIZE]"
  let ?fs = "fst (release (bus h))"
  let ?m = "do { retval \<leftarrow> flash_write_enable dev;
     if retval < 0 then State_Monad.return retval else flash_command dev ?bytes False SPI_RETRY_COUNT }"
  let ?command = "0x02 # map ucast (address_bytes addr) @ data :: u8 list"
  have scast: "(ucast (scast d :: u32) :: u8) = d" for d :: u8
    by (rule bit_word_eqI) (auto simp: bit_simps)
  have bytes: "map ucast ?bytes = ?command"
  proof -
    have "map (\<lambda>i. ucast (scast (data ! i) :: u32) :: u8) [0..<256] = data"
      unfolding scast using assms(1) map_nth [of data] by simp
    then show ?thesis by (simp add: command_defs FLASH_DATA_ALLOC_SIZE_def comp_def)
  qed
  have len: "length ?bytes = 260" by (simp add: address_bytes_def FLASH_DATA_ALLOC_SIZE_def)
  have prog: "flash_pageprogram dev data addr n =
      State_Monad.bind ?m (\<lambda>r. State_Monad.bind (spi_slave_select dev False) (\<lambda>_. State_Monad.return r))"
    using assms(2,3) by (simp add: flash_pageprogram_def FLASH_DATA_ALLOC_SIZE_def bind_assoc)
  show ?thesis
    unfolding prog wp_bind [of ?m]
  proof (rule wp_mono [OF wp_enabled_command [OF refl]], unfold bytes len, elim conjE)
    fix r :: int and h1
    assume e: "enabled_frames ?fs ?command (fst (release (bus h1)))"
      and s: "r \<noteq> -1 \<longrightarrow> (\<exists>st. bus h1 = (?fs @ [[0x06], ?command] @ st, None) \<and> status_frames st \<and> st \<noteq> [] \<and> last st = [0x05, 0])"
      and l1: "length h1 \<le> length h + (7 * retries + 22 + 260 * (retries + 1) + SPI_RETRY_COUNT * (7 * retries + 16))"
    show "wp (State_Monad.bind (spi_slave_select dev False) (\<lambda>_. State_Monad.return r))
      (\<lambda>r h'. snd (bus h') = None \<and> enabled_frames ?fs ?command (fst (bus h'))
       \<and> (r \<noteq> -1 \<longrightarrow> (\<exists>st. fst (bus h') = ?fs @ [[0x06], ?command] @ st \<and> status_frames st \<and> st \<noteq> [] \<and> last st = [0x05, 0]))
       \<and> length h' \<le> length h + (8 * retries + 26 + 260 * (retries + 1) + retries * (7 * retries + 16))) h1"
      unfolding wp_bind wp_return
    proof (rule wp_mono [OF wp_slave_select], elim conjE)
      fix h2 assume "bus h2 = (if False then (fst (release (bus h1)), Some []) else release (bus h1))"
        and l2: "length h2 \<le> length h1 + retries + 4"
      then have "bus h2 = release (bus h1)" by simp
      moreover have "length h2 \<le> length h + (8 * retries + 26 + 260 * (retries + 1) + retries * (7 * retries + 16))"
        using l1 l2 unfolding retries_def by linarith
      ultimately show "snd (bus h2) = None \<and> enabled_frames ?fs ?command (fst (bus h2))
       \<and> (r \<noteq> -1 \<longrightarrow> (\<exists>st. fst (bus h2) = ?fs @ [[0x06], ?command] @ st \<and> status_frames st \<and> st \<noteq> [] \<and> last st = [0x05, 0]))
       \<and> length h2 \<le> length h + (8 * retries + 26 + 260 * (retries + 1) + retries * (7 * retries + 16))"
        using e s by auto
    qed
  qed
qed

lemma page_program_refused:
  "n \<noteq> 256 \<or> addr AND 255 \<noteq> 0 \<Longrightarrow> run_state (flash_pageprogram dev data addr n) h = (-1, h)"
  by (auto simp: flash_pageprogram_def FLASH_DATA_ALLOC_SIZE_def)

section \<open>Reading\<close>

text \<open>The values of the data register that were read, oldest first.\<close>

fun data_reads :: "spi_event list \<Rightarrow> u32 list" where
  "data_reads [] = []"
| "data_reads (ReadData v # h) = data_reads h @ [v]"
| "data_reads (ReadControl v # h) = data_reads h"
| "data_reads (WriteControl v # h) = data_reads h"
| "data_reads (WriteData v # h) = data_reads h"

lemma reads_wait_control: "wp (wait_control dev msk n) (\<lambda>r h'. data_reads h' = data_reads h) h"
proof (induction n arbitrary: h)
  case (Suc n)
  let ?h = "ReadControl (dev_control dev h) # h"
  show ?case by (auto intro: wp_mono [OF Suc [of ?h]])
qed simp

lemma reads_slave_select: "wp (spi_slave_select dev select) (\<lambda>r h'. data_reads h' = data_reads h) h"
  unfolding spi_slave_select_def spi_wait_tmt_def wp_bind
  by (rule wp_mono [OF reads_wait_control [where h = h]]) simp

lemma reads_spi_write: "wp (spi_write dev d) (\<lambda>r h'. data_reads h' = data_reads h) h"
  unfolding spi_write_def spi_wait_trdy_def wp_bind
  by (rule wp_mono [OF reads_wait_control [where h = h]]) simp

lemma reads_spi_writes: "wp (spi_writes dev ds r0) (\<lambda>r h'. data_reads h' = data_reads h) h"
proof (induction ds arbitrary: h r0)
  case (Cons d ds)
  show ?case
    unfolding spi_writes.simps wp_bind
    by (rule wp_mono [OF reads_spi_write [where h = h]]) (auto intro: wp_mono [OF Cons])
qed simp

lemma reads_spi_read:
  "wp (spi_read dev) (\<lambda>r h'. r = -1 \<and> data_reads h' = data_reads h
     \<or> (\<exists>v. r = sint v \<and> data_reads h' = data_reads h @ [v])) h"
  unfolding spi_read_def spi_wait_rrdy_def wp_bind
  by (rule wp_mono [OF reads_wait_control [where h = h]]) auto

text \<open>The bytes that the loop stores are the lowest bytes of the values that were read.\<close>

lemma sint_low_byte: "(word_of_int (sint (v :: u32)) :: u8) = ucast v"
  by (rule bit_word_eqI) (auto simp: bit_simps)

lemma wp_read_loop:
  assumes "bus h = (fs, Some c)" "0 \<le> r0"
  shows "wp (flash_read_loop dev n r0)
     (\<lambda>(r, bytes) h'. (0 \<le> r \<longrightarrow> bus h' = (fs, Some (c @ replicate n 0)) \<and> length bytes = n
         \<and> map ucast (data_reads h') = map ucast (data_reads h) @ bytes)
       \<and> length bytes \<le> n \<and> (\<exists>c'. bus h' = (fs, Some c')) \<and> length h' \<le> length h + n * (2 * retries + 2)) h"
  using assms
proof (induction n arbitrary: h c r0)
  case (Suc n)
  let ?Q = "\<lambda>(r, bytes) h'. (0 \<le> r \<longrightarrow> bus h' = (fs, Some (c @ replicate (Suc n) 0)) \<and> length bytes = Suc n
         \<and> map ucast (data_reads h') = map ucast (data_reads h) @ bytes)
       \<and> length bytes \<le> Suc n \<and> (\<exists>c'. bus h' = (fs, Some c')) \<and> length h' \<le> length h + Suc n * (2 * retries + 2)"
  let ?more = "\<lambda>byte r. do { (result, bytes) \<leftarrow> flash_read_loop dev n r; State_Monad.return (result, byte # bytes) }"
  show ?case
    unfolding flash_read_loop.simps wp_bind Let_def
  proof (rule wp_mono [OF wp_conj [OF wp_spi_read reads_spi_read]], elim conjE)
    fix r :: int and h1
    assume b1: "bus h1 = bus h" and l1: "length h1 \<le> length h + retries + 1"
      and d1: "r = -1 \<and> data_reads h1 = data_reads h \<or> (\<exists>v. r = sint v \<and> data_reads h1 = data_reads h @ [v])"
    show "wp (if r < 0 then State_Monad.return (r, []) else State_Monad.bind (spi_write dev 0)
        (\<lambda>x. if x < 0 then State_Monad.return (x, [word_of_int r]) else ?more (word_of_int r) x)) ?Q h1"
    proof (cases "r < 0")
      case True
      then show ?thesis using b1 l1 Suc.prems by simp
    next
      case False
      then obtain v where v: "r = sint v" "data_reads h1 = data_reads h @ [v]" using d1 by auto
      have low: "(word_of_int r :: u8) = ucast v" by (simp only: v(1) sint_low_byte)
      show ?thesis
        unfolding if_not_P [OF False] wp_bind
      proof (rule wp_mono [OF wp_conj [OF wp_spi_write reads_spi_write]], elim conjE)
        fix x :: int and h2
        assume x: "x = -1 \<and> bus h2 = bus h1 \<or> 0 \<le> x \<and> bus h2 = put_byte (ucast (0 :: u32)) (bus h1)"
          and l2: "length h2 \<le> length h1 + retries + 1" and d2: "data_reads h2 = data_reads h1"
        show "wp (if x < 0 then State_Monad.return (x, [word_of_int r]) else ?more (word_of_int r) x) ?Q h2"
        proof (cases "x < 0")
          case True
          then have "x = -1" "bus h2 = bus h1" using x by auto
          moreover have "length h2 \<le> length h + Suc n * (2 * retries + 2)" using l1 l2 by simp
          ultimately show ?thesis using b1 Suc.prems by simp
        next
          case f2: False
          then have b2: "bus h2 = (fs, Some (c @ [0]))" "0 \<le> x" using x b1 Suc.prems by auto
          show ?thesis
            unfolding if_not_P [OF f2] wp_bind
          proof (rule wp_mono [OF Suc.IH [OF b2]])
            fix p :: "int \<times> u8 list" and h3
            assume p: "(case p of (r, bytes) \<Rightarrow> \<lambda>h'. (0 \<le> r \<longrightarrow> bus h' = (fs, Some ((c @ [0]) @ replicate n 0)) \<and> length bytes = n
              \<and> map ucast (data_reads h') = map ucast (data_reads h2) @ bytes)
              \<and> length bytes \<le> n \<and> (\<exists>c'. bus h' = (fs, Some c')) \<and> length h' \<le> length h2 + n * (2 * retries + 2)) h3"
            obtain rr bytes where pp: "p = (rr, bytes)" by (cases p)
            have "length h3 \<le> length h + Suc n * (2 * retries + 2)" using p pp l1 l2 by simp
            then show "wp (case p of (result, bytes) \<Rightarrow> State_Monad.return (result, word_of_int r # bytes)) ?Q h3"
              unfolding low using p pp v(2) d2 by auto
          qed
        qed
      qed
    qed
  qed
qed simp

lemma wp_fastread:
  "wp (flash_fastread dev addr n)
     (\<lambda>(r, bytes) h'. snd (bus h') = None \<and> length bytes \<le> n
       \<and> (0 \<le> r \<longrightarrow> length bytes = n
         \<and> fst (bus h') = fst (release (bus h)) @ [[0x0B] @ map ucast (address_bytes addr) @ [0, 0] @ replicate n 0]
         \<and> map ucast (data_reads h') = map ucast (data_reads h) @ bytes)
       \<and> length h' \<le> length h + (10 * retries + 19 + n * (2 * retries + 2))) h"
  unfolding flash_fastread_def wp_bind
proof (rule wp_mono [OF wp_conj [OF wp_slave_select reads_slave_select]], elim conjE)
  let ?fs = "fst (release (bus h))"
  let ?ds = "M25P_FAST_READ # address_bytes addr @ [0, 0]"
  let ?Q = "\<lambda>(r, bytes) h'. snd (bus h') = None \<and> length bytes \<le> n
       \<and> (0 \<le> r \<longrightarrow> length bytes = n
         \<and> fst (bus h') = ?fs @ [[0x0B] @ map ucast (address_bytes addr) @ [0, 0] @ replicate n 0]
         \<and> map ucast (data_reads h') = map ucast (data_reads h) @ bytes)
       \<and> length h' \<le> length h + (10 * retries + 19 + n * (2 * retries + 2))"
  let ?last = "\<lambda>x. wp (spi_slave_select dev False) (\<lambda>_. wp (State_Monad.return x) ?Q)"
  let ?read = "\<lambda>r :: int. if r < 0 then State_Monad.return (r, []) else flash_read_loop dev n r"
  fix h1 assume h1: "bus h1 = (if False then (fst (release (bus h)), Some []) else release (bus h))"
    "length h1 \<le> length h + retries + 4" "data_reads h1 = data_reads h"
  have b1: "bus h1 = (?fs, None)" using h1 release_eq [of "bus h"] by simp
  show "wp (spi_write dev 0) (\<lambda>_. wp (spi_slave_select dev True) (\<lambda>_. wp (spi_writes dev ?ds 0) (\<lambda>r. wp (?read r) ?last))) h1"
  proof (rule wp_mono [OF wp_conj [OF wp_spi_write reads_spi_write]], elim conjE)
    fix x :: int and h2
    assume x: "x = -1 \<and> bus h2 = bus h1 \<or> 0 \<le> x \<and> bus h2 = put_byte (ucast (0 :: u32)) (bus h1)"
      and l2: "length h2 \<le> length h1 + retries + 1" "data_reads h2 = data_reads h1"
    have b2: "bus h2 = (?fs, None)" using x b1 by auto
    show "wp (spi_slave_select dev True) (\<lambda>_. wp (spi_writes dev ?ds 0) (\<lambda>r. wp (?read r) ?last)) h2"
    proof (rule wp_mono [OF wp_conj [OF wp_slave_select reads_slave_select]], elim conjE)
      fix h3 assume h3: "bus h3 = (if True then (fst (release (bus h2)), Some []) else release (bus h2))"
        "length h3 \<le> length h2 + retries + 4" "data_reads h3 = data_reads h2"
      then have b3: "bus h3 = (?fs, Some [])" using b2 by simp
      show "wp (spi_writes dev ?ds 0) (\<lambda>r. wp (?read r) ?last) h3"
      proof (rule wp_mono [OF wp_conj [OF wp_spi_writes [OF b3] reads_spi_writes]], simp, elim conjE)
        fix r :: int and h4
        assume w: "0 \<le> r \<longrightarrow> bus h4 = (?fs, Some ([] @ map ucast ?ds))"
          "r < 0 \<longrightarrow> r = -1 \<and> (\<exists>k<length ?ds. bus h4 = (?fs, Some ([] @ map ucast (take k ?ds))))"
          and l4: "length h4 \<le> length h3 + length ?ds * (retries + 1)" "data_reads h4 = data_reads h3"
        have len: "length ?ds = 6" by (simp add: address_bytes_def)
        have l: "length h4 \<le> length h + 9 * retries + 15" using l4(1) h3(2) l2(1) h1(2) unfolding len by simp
        have last: "?last (rr, bytes) h5" if "\<exists>c. bus h5 = (?fs, Some c)
            \<and> (0 \<le> rr \<longrightarrow> c = [0x0B] @ map ucast (address_bytes addr) @ [0, 0] @ replicate n 0 \<and> length bytes = n
              \<and> map ucast (data_reads h5) = map ucast (data_reads h) @ bytes)"
          "length bytes \<le> n" "length h5 \<le> length h4 + n * (2 * retries + 2)" for rr bytes h5
          by (rule wp_mono [OF wp_conj [OF wp_slave_select reads_slave_select]]) (use that l in auto)
        show "wp (?read r) ?last h4"
        proof (cases "r < 0")
          case True
          then obtain c where "bus h4 = (?fs, Some c)" using w(2) by blast
          then show ?thesis
            unfolding if_P [OF True] wp_return by (intro last [unfolded wp_return]) (use True in auto)
        next
          case False
          then have b4: "bus h4 = (?fs, Some ([0x0B] @ map ucast (address_bytes addr) @ [0, 0]))" "0 \<le> r"
            using w(1) by (simp_all add: command_defs)
          show ?thesis
            unfolding if_not_P [OF False]
          proof (rule wp_mono [OF wp_read_loop [OF b4]])
            fix p :: "int \<times> u8 list" and h5
            assume p: "(case p of (r, bytes) \<Rightarrow> \<lambda>h'.
               (0 \<le> r \<longrightarrow> bus h' = (?fs, Some (([0x0B] @ map ucast (address_bytes addr) @ [0, 0]) @ replicate n 0))
                 \<and> length bytes = n \<and> map ucast (data_reads h') = map ucast (data_reads h4) @ bytes)
               \<and> length bytes \<le> n \<and> (\<exists>c'. bus h' = (?fs, Some c')) \<and> length h' \<le> length h4 + n * (2 * retries + 2)) h5"
            obtain rr bytes where pp: "p = (rr, bytes)" by (cases p)
            show "?last p h5"
              unfolding pp by (intro last) (use p pp l4(2) h3(3) l2(2) h1(3) in auto)
          qed
        qed
      qed
    qed
  qed
qed

section \<open>Erasing\<close>

lemma wp_bulkerase:
  "wp (flash_bulkerase dev)
     (\<lambda>r h'. snd (bus h') = None
       \<and> (r \<noteq> -1 \<longrightarrow> (\<exists>st. fst (bus h') = fst (release (bus h)) @ [[0x06], [0xC7]] @ st
           \<and> status_frames st \<and> st \<noteq> [] \<and> last st = [0x05, 0]))
       \<and> length h' \<le> length h + (9 * retries + 27 + SPI_BE_COUNT * (7 * retries + 16))) h"
proof -
  let ?fs = "fst (release (bus h))"
  let ?succ = "\<lambda>r gs. r \<noteq> -1 \<longrightarrow> (\<exists>st. gs = ?fs @ [[0x06], [0xC7]] @ st
           \<and> status_frames st \<and> st \<noteq> [] \<and> last st = [0x05, 0])"
  let ?Q = "\<lambda>(r :: int) h'. snd (bus h') = None \<and> ?succ r (fst (bus h'))
       \<and> length h' \<le> length h + (9 * retries + 27 + SPI_BE_COUNT * (7 * retries + 16))"
  let ?last = "\<lambda>x. wp (spi_slave_select dev False) (\<lambda>_. wp (State_Monad.return x) ?Q)"
  have last: "?last r h1" if "?succ r (fst (release (bus h1)))"
    "length h1 \<le> length h + (8 * retries + 23 + SPI_BE_COUNT * (7 * retries + 16))" for r h1
    unfolding wp_return
  proof (rule wp_mono [OF wp_slave_select], elim conjE)
    fix h2 assume "bus h2 = (if False then (fst (release (bus h1)), Some []) else release (bus h1))"
      and l2: "length h2 \<le> length h1 + retries + 4"
    then have "bus h2 = release (bus h1)" by simp
    moreover have "length h2 \<le> length h + (9 * retries + 27 + SPI_BE_COUNT * (7 * retries + 16))"
      using that(2) l2 by linarith
    ultimately show "?Q r h2" using that(1) by (simp only: release_simps simp_thms)
  qed
  let ?erase = "do { _ \<leftarrow> spi_slave_select dev True; retval \<leftarrow> spi_write dev M25P_BE; _ \<leftarrow> spi_slave_select dev False;
     if retval < 0 then State_Monad.return retval
     else do { (retval, ended) \<leftarrow> wait_idle dev True SPI_BE_COUNT retval; State_Monad.return (if ended then retval else -1) } }"
  show ?thesis
    unfolding flash_bulkerase_def wp_bind [where m = "flash_write_enable dev"]
  proof (rule wp_mono [OF wp_write_enable], elim conjE)
    fix r :: int and h1
    assume r: "0 \<le> r \<and> bus h1 = (?fs @ [[0x06]], None) \<or> r = -1 \<and> (\<exists>c. bus h1 = (?fs, c) \<and> (c = None \<or> c = Some []))"
      and l1: "length h1 \<le> length h + (5 * retries + 14)"
    show "wp (State_Monad.bind (if r < 0 then State_Monad.return r else ?erase)
      (\<lambda>x. State_Monad.bind (spi_slave_select dev False) (\<lambda>_. State_Monad.return x))) ?Q h1"
      unfolding wp_bind [where m = "if r < 0 then _ else _"] wp_bind [where m = "spi_slave_select dev False" and f = "\<lambda>_. State_Monad.return _"]
    proof (cases "r < 0")
      case True
      then have "r = -1" using r by linarith
      then show "wp (if r < 0 then State_Monad.return r else ?erase) ?last h1"
        unfolding if_P [OF True] wp_return [where Q = ?last] by (intro last) (use l1 in auto)
    next
      case False
      then have b1: "bus h1 = (?fs @ [[0x06]], None)" using r by linarith
      show "wp (if r < 0 then State_Monad.return r else ?erase) ?last h1"
        unfolding if_not_P [OF False] wp_bind
      proof (rule wp_mono [OF wp_slave_select], elim conjE)
        fix h2 assume h2: "bus h2 = (if True then (fst (release (bus h1)), Some []) else release (bus h1))"
          "length h2 \<le> length h1 + retries + 4"
        then have b2: "bus h2 = (?fs @ [[0x06]], Some [])" using b1 by simp
        show "wp (spi_write dev M25P_BE) (\<lambda>r. wp (spi_slave_select dev False) (\<lambda>_. wp (if r < 0 then State_Monad.return r
            else do { (retval, ended) \<leftarrow> wait_idle dev True SPI_BE_COUNT r; State_Monad.return (if ended then retval else -1) })
            ?last)) h2"
        proof (rule wp_mono [OF wp_spi_write], elim conjE)
          fix x :: int and h3
          assume x: "x = -1 \<and> bus h3 = bus h2 \<or> 0 \<le> x \<and> bus h3 = put_byte (ucast M25P_BE) (bus h2)"
            and l3: "length h3 \<le> length h2 + retries + 1"
          show "wp (spi_slave_select dev False) (\<lambda>_. wp (if x < 0 then State_Monad.return x
            else do { (retval, ended) \<leftarrow> wait_idle dev True SPI_BE_COUNT x; State_Monad.return (if ended then retval else -1) })
            ?last) h3"
          proof (rule wp_mono [OF wp_slave_select], elim conjE)
            fix h4 assume h4: "bus h4 = (if False then (fst (release (bus h3)), Some []) else release (bus h3))"
              "length h4 \<le> length h3 + retries + 4"
            have l4: "length h4 \<le> length h + (8 * retries + 23)" using l1 h2(2) l3 h4(2) by linarith
            show "wp (if x < 0 then State_Monad.return x
              else do { (retval, ended) \<leftarrow> wait_idle dev True SPI_BE_COUNT x; State_Monad.return (if ended then retval else -1) })
              ?last h4"
            proof (cases "x < 0")
              case True
              then have "x = -1" using x by linarith
              then show ?thesis
                unfolding if_P [OF True] wp_return [where Q = ?last] by (intro last) (use l4 in simp_all)
            next
              case False
              then have b4: "bus h4 = (?fs @ [[0x06], [0xC7]], None)" using x h4(1) b2 by (simp add: command_defs)
              show ?thesis
                unfolding if_not_P [OF False] wp_bind
              proof (rule wp_mono [OF wp_wait_idle [OF b4]], elim conjE exE)
                fix y :: "int \<times> bool" and h5 st
                assume st: "bus h5 = ((?fs @ [[0x06], [0xC7]]) @ st, None)" "status_frames st"
                  "snd y \<longrightarrow> st \<noteq> [] \<and> last st = [0x05, 0] \<and> fst y \<noteq> -1"
                  and l5: "length h5 \<le> length h4 + SPI_BE_COUNT * (7 * retries + 16)"
                have s: "?succ (if snd y then fst y else -1) (fst (release (bus h5)))"
                  using st by auto
                have l: "length h5 \<le> length h + (8 * retries + 23 + SPI_BE_COUNT * (7 * retries + 16))"
                  using l5 l4 by linarith
                show "wp (case y of (retval, ended) \<Rightarrow> State_Monad.return (if ended then retval else -1)) ?last h5"
                  unfolding wp_prod wp_return [where Q = ?last] by (rule last [OF s l])
              qed
            qed
          qed
        qed
      qed
    qed
  qed
qed

text \<open>The frames that erase sectors: for each the two commands, and reading the status up to the end.\<close>

definition erase_command :: "nat \<Rightarrow> u8 list" where
  "erase_command sector = 0xD8 # map ucast (address_bytes (of_nat sector))"

fun erased :: "nat list \<Rightarrow> u8 list list \<Rightarrow> bool" where
  "erased [] gs \<longleftrightarrow> gs = []"
| "erased (sector # sectors) gs \<longleftrightarrow> (\<exists>st rest. gs = [[0x06], erase_command sector] @ st @ rest
     \<and> status_frames st \<and> st \<noteq> [] \<and> last st = [0x05, 0] \<and> erased sectors rest)"

definition sector_accesses :: nat where
  "sector_accesses = 11 * retries + 26 + SPI_BE_COUNT * (7 * retries + 16)"

lemma wp_sector_erase:
  "wp (flash_sector_erase dev sector)
     (\<lambda>r h'. enabled_frames (fst (release (bus h))) (erase_command sector) (fst (release (bus h')))
       \<and> (r \<noteq> -1 \<longrightarrow> (\<exists>st. bus h' = (fst (release (bus h)) @ [[0x06], erase_command sector] @ st, None)
           \<and> status_frames st \<and> st \<noteq> [] \<and> last st = [0x05, 0]))
       \<and> length h' \<le> length h + sector_accesses) h"
proof -
  have bytes: "map ucast (M25P_SE # address_bytes (of_nat sector)) = erase_command sector"
    by (simp add: erase_command_def command_defs)
  have len: "length (M25P_SE # address_bytes (of_nat sector)) = 4" by (simp add: address_bytes_def)
  have n: "7 * retries + 22 + 4 * (retries + 1) + SPI_BE_COUNT * (7 * retries + 16) = sector_accesses"
    by (simp add: sector_accesses_def)
  show ?thesis
    using wp_enabled_command [OF flash_sector_erase_def [of dev sector], where h = h] unfolding bytes len n .
qed

lemma wp_erase_sectors:
  assumes "0 \<le> r0"
  shows "wp (erase_sectors dev sectors r0)
     (\<lambda>r h'. (0 \<le> r \<longrightarrow> (\<exists>gs. fst (release (bus h')) = fst (release (bus h)) @ gs \<and> erased sectors gs))
       \<and> (r < 0 \<longrightarrow> (\<exists>k gs. k < length sectors \<and> erased (take k sectors) gs
           \<and> enabled_frames (fst (release (bus h)) @ gs) (erase_command (sectors ! k)) (fst (release (bus h')))))
       \<and> length h' \<le> length h + length sectors * sector_accesses) h"
  using assms
proof (induction sectors arbitrary: h r0)
  case (Cons s ss)
  let ?fs = "fst (release (bus h))"
  let ?Q = "\<lambda>(r :: int) h'. (0 \<le> r \<longrightarrow> (\<exists>gs. fst (release (bus h')) = ?fs @ gs \<and> erased (s # ss) gs))
       \<and> (r < 0 \<longrightarrow> (\<exists>k gs. k < length (s # ss) \<and> erased (take k (s # ss)) gs
           \<and> enabled_frames (?fs @ gs) (erase_command ((s # ss) ! k)) (fst (release (bus h')))))
       \<and> length h' \<le> length h + length (s # ss) * sector_accesses"
  show ?case
    unfolding erase_sectors.simps wp_bind
  proof (rule wp_mono [OF wp_sector_erase], elim conjE)
    fix r :: int and h1
    assume e: "enabled_frames ?fs (erase_command s) (fst (release (bus h1)))"
      and c: "r \<noteq> -1 \<longrightarrow> (\<exists>st. bus h1 = (?fs @ [[0x06], erase_command s] @ st, None)
           \<and> status_frames st \<and> st \<noteq> [] \<and> last st = [0x05, 0])"
      and l1: "length h1 \<le> length h + sector_accesses"
    show "wp (if r < 0 then State_Monad.return r else erase_sectors dev ss r) ?Q h1"
    proof (cases "r < 0")
      case True
      have "\<exists>k gs. k < length (s # ss) \<and> erased (take k (s # ss)) gs
          \<and> enabled_frames (?fs @ gs) (erase_command ((s # ss) ! k)) (fst (release (bus h1)))"
        using e by (intro exI [of _ 0] exI [of _ "[]"]) simp
      moreover have "length h1 \<le> length h + length (s # ss) * sector_accesses" using l1 by simp
      ultimately show ?thesis unfolding if_P [OF True] wp_return using True by simp
    next
      case False
      then obtain st where st: "bus h1 = (?fs @ [[0x06], erase_command s] @ st, None)" "status_frames st" "st \<noteq> []"
        "last st = [0x05, 0]" using c by auto
      let ?g = "[[0x06], erase_command s] @ st"
      have fs: "fst (release (bus h1)) = ?fs @ ?g" using st(1) by simp
      have one: "erased (s # ks) (?g @ gs)" if "erased ks gs" for ks gs
        unfolding erased.simps using st that by (intro exI [of _ st] exI [of _ gs]) simp
      have r0: "0 \<le> r" using False by simp
      show ?thesis
        unfolding if_not_P [OF False]
      proof (rule wp_mono [OF Cons.IH [OF r0, where h = h1]], elim conjE)
        fix x :: int and h2
        assume ok: "0 \<le> x \<longrightarrow> (\<exists>gs. fst (release (bus h2)) = fst (release (bus h1)) @ gs \<and> erased ss gs)"
          and bad: "x < 0 \<longrightarrow> (\<exists>k gs. k < length ss \<and> erased (take k ss) gs
             \<and> enabled_frames (fst (release (bus h1)) @ gs) (erase_command (ss ! k)) (fst (release (bus h2))))"
          and l2: "length h2 \<le> length h1 + length ss * sector_accesses"
        have "0 \<le> x \<longrightarrow> (\<exists>gs. fst (release (bus h2)) = ?fs @ gs \<and> erased (s # ss) gs)"
        proof
          assume "0 \<le> x"
          then obtain gs where "fst (release (bus h2)) = fst (release (bus h1)) @ gs" "erased ss gs" using ok by blast
          then show "\<exists>gs. fst (release (bus h2)) = ?fs @ gs \<and> erased (s # ss) gs"
            using one [of ss gs] unfolding fs by (intro exI [of _ "?g @ gs"]) (simp del: erased.simps)
        qed
        moreover have "x < 0 \<longrightarrow> (\<exists>k gs. k < length (s # ss) \<and> erased (take k (s # ss)) gs
           \<and> enabled_frames (?fs @ gs) (erase_command ((s # ss) ! k)) (fst (release (bus h2))))"
        proof
          assume "x < 0"
          then obtain k gs where k: "k < length ss" "erased (take k ss) gs"
            "enabled_frames (fst (release (bus h1)) @ gs) (erase_command (ss ! k)) (fst (release (bus h2)))" using bad by blast
          then show "\<exists>k gs. k < length (s # ss) \<and> erased (take k (s # ss)) gs
           \<and> enabled_frames (?fs @ gs) (erase_command ((s # ss) ! k)) (fst (release (bus h2)))"
            using one [of "take k ss" gs] unfolding fs
            by (intro exI [of _ "Suc k"] exI [of _ "?g @ gs"]) (simp del: erased.simps)
        qed
        moreover have "length h2 \<le> length h + length (s # ss) * sector_accesses" using l1 l2 by simp
        ultimately show "?Q x h2" by blast
      qed
    qed
  qed
qed simp

lemma wp_primaryerase:
  "wp (flash_primaryerase dev)
     (\<lambda>r h'. snd (bus h') = None
       \<and> (0 \<le> r \<longrightarrow> (\<exists>gs. fst (bus h') = fst (release (bus h)) @ gs \<and> erased primary_sectors gs))
       \<and> (r < 0 \<longrightarrow> (\<exists>k gs. k < length primary_sectors \<and> erased (take k primary_sectors) gs
           \<and> enabled_frames (fst (release (bus h)) @ gs) (erase_command (primary_sectors ! k)) (fst (bus h'))))
       \<and> length h' \<le> length h + (length primary_sectors * sector_accesses + retries + 4)) h"
  unfolding flash_primaryerase_def wp_bind
proof (rule wp_mono [OF wp_erase_sectors [OF order_refl, where h = h]], elim conjE)
  let ?fs = "fst (release (bus h))"
  fix r :: int and h1
  assume ok: "0 \<le> r \<longrightarrow> (\<exists>gs. fst (release (bus h1)) = ?fs @ gs \<and> erased primary_sectors gs)"
    and bad: "r < 0 \<longrightarrow> (\<exists>k gs. k < length primary_sectors \<and> erased (take k primary_sectors) gs
       \<and> enabled_frames (?fs @ gs) (erase_command (primary_sectors ! k)) (fst (release (bus h1))))"
    and l1: "length h1 \<le> length h + length primary_sectors * sector_accesses"
  show "wp (spi_slave_select dev False) (\<lambda>_. wp (State_Monad.return r) (\<lambda>r h'. snd (bus h') = None
       \<and> (0 \<le> r \<longrightarrow> (\<exists>gs. fst (bus h') = ?fs @ gs \<and> erased primary_sectors gs))
       \<and> (r < 0 \<longrightarrow> (\<exists>k gs. k < length primary_sectors \<and> erased (take k primary_sectors) gs
           \<and> enabled_frames (?fs @ gs) (erase_command (primary_sectors ! k)) (fst (bus h'))))
       \<and> length h' \<le> length h + (length primary_sectors * sector_accesses + retries + 4))) h1"
    unfolding wp_return
  proof (rule wp_mono [OF wp_slave_select], elim conjE)
    fix h2 assume "bus h2 = (if False then (fst (release (bus h1)), Some []) else release (bus h1))"
      and l2: "length h2 \<le> length h1 + retries + 4"
    then have b2: "bus h2 = release (bus h1)" by simp
    have "length h2 \<le> length h + (length primary_sectors * sector_accesses + retries + 4)" using l1 l2 by linarith
    then show "snd (bus h2) = None
       \<and> (0 \<le> r \<longrightarrow> (\<exists>gs. fst (bus h2) = ?fs @ gs \<and> erased primary_sectors gs))
       \<and> (r < 0 \<longrightarrow> (\<exists>k gs. k < length primary_sectors \<and> erased (take k primary_sectors) gs
           \<and> enabled_frames (?fs @ gs) (erase_command (primary_sectors ! k)) (fst (bus h2))))
       \<and> length h2 \<le> length h + (length primary_sectors * sector_accesses + retries + 4)"
      using ok bad unfolding b2 by (intro conjI release_simps)
  qed
qed

section \<open>A device that is ready\<close>

definition device_ready :: "spi_device \<Rightarrow> bool" where
  "device_ready dev \<longleftrightarrow> (\<forall>h. dev_control dev h AND 0x70 = 0x70 \<and> 0 \<le> sint (dev_data dev h) \<and> dev_data dev h AND 1 = 0)"

lemma device_readyD:
  assumes "device_ready dev"
  shows "dev_control dev h AND 0x10 \<noteq> 0" "dev_control dev h AND 0x20 \<noteq> 0" "dev_control dev h AND 0x40 \<noteq> 0"
    "0 \<le> sint (dev_data dev h)" "dev_data dev h AND 1 = 0"
proof -
  have *: "dev_control dev h AND 0x70 = 0x70" using assms unfolding device_ready_def by blast
  have "dev_control dev h AND m = m" if "m AND 0x70 = m" for m
  proof -
    have "dev_control dev h AND m = dev_control dev h AND (m AND 0x70)" using that by simp
    also have "\<dots> = (dev_control dev h AND 0x70) AND m" by (simp only: and.assoc and.commute and.left_commute)
    also have "\<dots> = m" using that unfolding * by (simp only: and.commute)
    finally show ?thesis .
  qed
  from this [of "0x10"] this [of "0x20"] this [of "0x40"]
  show "dev_control dev h AND 0x10 \<noteq> 0" "dev_control dev h AND 0x20 \<noteq> 0" "dev_control dev h AND 0x40 \<noteq> 0"
    by simp_all
  show "0 \<le> sint (dev_data dev h)" "dev_data dev h AND 1 = 0" using assms unfolding device_ready_def by blast+
qed

lemma ready_wait:
  "dev_control dev h AND msk \<noteq> 0 \<Longrightarrow> 0 < n \<Longrightarrow> wp (wait_control dev msk n) (\<lambda>r h'. r = 0) h"
  by (cases n) simp_all

lemma retry_count_pos: "0 < SPI_RETRY_COUNT" "0 < SPI_BE_COUNT"
  by (simp_all add: SPI_RETRY_COUNT_def SPI_BE_COUNT_def)

lemma ready_any: "(\<And>r s'. Q r s') \<Longrightarrow> wp m Q s"
  by (simp add: wp_def split: prod.split)

lemma ready_write:
  assumes "device_ready dev"
  shows "wp (spi_write dev d) (\<lambda>r h'. 0 \<le> r) h"
  unfolding spi_write_def spi_wait_trdy_def wp_bind
  by (rule wp_mono [OF ready_wait [of _ h]])
    (use device_readyD [OF assms, of h] retry_count_pos in \<open>simp_all add: EV_SPI_CONTROL_TRDY_def\<close>)

lemma ready_read:
  assumes "device_ready dev"
  shows "wp (spi_read dev) (\<lambda>r h'. 0 \<le> r \<and> (word_of_int r :: u32) AND 1 = 0) h"
proof -
  have w: "(word_of_int (sint v) :: u32) = v" for v :: u32 by simp
  show ?thesis
    unfolding spi_read_def spi_wait_rrdy_def wp_bind
    by (rule wp_mono [OF ready_wait [of _ h]])
      (use device_readyD [OF assms] retry_count_pos w in \<open>simp_all add: EV_SPI_CONTROL_RRDY_def\<close>)
qed

lemma ready_writes:
  assumes "device_ready dev" "0 \<le> r0"
  shows "wp (spi_writes dev ds r0) (\<lambda>r h'. 0 \<le> r) h"
  using assms(2)
proof (induction ds arbitrary: h r0)
  case (Cons d ds)
  show ?case
    unfolding spi_writes.simps wp_bind
    by (rule wp_mono [OF ready_write [OF assms(1)]]) (simp add: Cons.IH)
qed simp

lemma ready_status:
  assumes "device_ready dev"
  shows "wp (flash_read_status dev) (\<lambda>r h'. 0 \<le> r \<and> (word_of_int r :: u32) AND 1 = 0) h"
  unfolding flash_read_status_def wp_bind
  by (rule ready_any, rule wp_mono [OF ready_write [OF assms]], simp del: spi_writes.simps, rule ready_any, unfold wp_bind,
      rule wp_mono [OF ready_writes [OF assms order_refl]], simp, rule wp_mono [OF ready_read [OF assms]], rule ready_any, simp)

lemma ready_wait_idle:
  assumes "device_ready dev" "0 < n"
  shows "wp (wait_idle dev checked n r0) (\<lambda>x h'. 0 \<le> fst x \<and> snd x) h"
proof -
  obtain m where "n = Suc m" using assms(2) by (cases n) auto
  then show ?thesis
    by (simp, intro wp_mono [OF ready_status [OF assms(1)]]) (simp add: M25P_STATUS_WIP_def)
qed

lemma ready_write_enable:
  assumes "device_ready dev"
  shows "wp (flash_write_enable dev) (\<lambda>r h'. 0 \<le> r) h"
  unfolding flash_write_enable_def wp_bind
  by (rule ready_any, rule wp_mono [OF ready_write [OF assms]], simp, rule ready_any, unfold wp_bind,
      rule wp_mono [OF ready_write [OF assms]], simp, rule ready_any, simp)

lemma ready_command:
  assumes "device_ready dev" "0 < n"
  shows "wp (flash_command dev bytes checked n) (\<lambda>r h'. 0 \<le> r) h"
  unfolding flash_command_def wp_bind
  by (rule ready_any, rule wp_mono [OF ready_writes [OF assms(1) order_refl]], simp, rule ready_any, unfold wp_bind,
      rule wp_mono [OF ready_wait_idle [OF assms]], simp)

lemma ready_erase_sectors:
  assumes "device_ready dev" "0 \<le> r0"
  shows "wp (erase_sectors dev sectors r0) (\<lambda>r h'. 0 \<le> r) h"
  using assms(2)
proof (induction sectors arbitrary: h r0)
  case (Cons s ss)
  show ?case
    unfolding erase_sectors.simps flash_sector_erase_def wp_bind
    by (rule wp_mono [OF ready_write_enable [OF assms(1)]], simp, rule wp_mono [OF ready_command [OF assms(1) retry_count_pos(2)]])
      (simp add: Cons.IH)
qed simp

lemma ready_read_loop:
  assumes "device_ready dev" "0 \<le> r0"
  shows "wp (flash_read_loop dev n r0) (\<lambda>x h'. 0 \<le> fst x) h"
  using assms(2)
proof (induction n arbitrary: h r0)
  case (Suc n)
  show ?case
    unfolding flash_read_loop.simps wp_bind Let_def
    by (rule wp_mono [OF ready_read [OF assms(1)]], simp, rule wp_mono [OF ready_write [OF assms(1)]], simp,
        rule wp_mono [OF Suc.IH]) simp_all
qed simp

lemma ready_page_program:
  assumes "device_ready dev" "length data = 256" "addr AND 255 = 0"
  shows "wp (flash_pageprogram dev data addr 256) (\<lambda>r h'. 0 \<le> r) h"
proof -
  let ?rest = "\<lambda>bytes r. State_Monad.bind (if r < 0 then State_Monad.return r else flash_command dev bytes False SPI_RETRY_COUNT)
     (\<lambda>r. State_Monad.bind (spi_slave_select dev False) (\<lambda>_. State_Monad.return r))"
  obtain bytes where prog: "flash_pageprogram dev data addr 256 = State_Monad.bind (flash_write_enable dev) (?rest bytes)"
    using assms(3) by (simp add: flash_pageprogram_def FLASH_DATA_ALLOC_SIZE_def del: upt_rec_numeral)
  show ?thesis
    unfolding prog wp_bind
    by (rule wp_mono [OF ready_write_enable [OF assms(1)]], simp,
        rule wp_mono [OF ready_command [OF assms(1) retry_count_pos(1)]], rule ready_any, simp)
qed

lemma ready_bulkerase:
  assumes "device_ready dev"
  shows "wp (flash_bulkerase dev) (\<lambda>r h'. 0 \<le> r) h"
  unfolding flash_bulkerase_def wp_bind
  by (rule wp_mono [OF ready_write_enable [OF assms]], simp, rule ready_any, unfold wp_bind,
      rule wp_mono [OF ready_write [OF assms]], rule ready_any, simp,
      rule wp_mono [OF ready_wait_idle [OF assms retry_count_pos(2)]], simp, rule ready_any, simp)

lemma ready_primaryerase:
  assumes "device_ready dev"
  shows "wp (flash_primaryerase dev) (\<lambda>r h'. 0 \<le> r) h"
  unfolding flash_primaryerase_def wp_bind
  by (rule wp_mono [OF ready_erase_sectors [OF assms order_refl]], rule ready_any) simp

lemma ready_fastread:
  assumes "device_ready dev"
  shows "wp (flash_fastread dev addr n) (\<lambda>x h'. 0 \<le> fst x) h"
  unfolding flash_fastread_def wp_bind
  by (rule ready_any, rule ready_any, rule ready_any, rule wp_mono [OF ready_writes [OF assms order_refl]], simp,
      rule wp_mono [OF ready_read_loop [OF assms]], simp, rule ready_any, simp)

definition ready_example :: spi_device where
  "ready_example = \<lparr>dev_control = \<lambda>h. 0x70, dev_data = \<lambda>h. 0\<rparr>"

lemma ready_example: "device_ready ready_example"
  by (simp add: device_ready_def ready_example_def)

lemma primary_sectors_38: "length primary_sectors = 38"
  by (simp add: primary_sectors_def FLASH_SECTOR_PRIMARY_START_def FLASH_SECTOR_PRIMARY_END_def FLASH_SECTOR_SIZE_def)

lemma page_program_accesses:
  "wp (flash_pageprogram dev data addr n)
     (\<lambda>r h'. length h' \<le> length h + (8 * retries + 26 + 260 * (retries + 1) + retries * (7 * retries + 16))) h"
proof (cases "n = 256 \<and> addr AND 255 = 0")
  case True
  let ?data = "map (\<lambda>i. data ! i) [0..<256]"
  have same: "map (\<lambda>i. scast (data ! i) :: u32) [0..<FLASH_DATA_ALLOC_SIZE] = map (\<lambda>i. scast (?data ! i)) [0..<FLASH_DATA_ALLOC_SIZE]"
    by (rule map_cong) (auto simp: FLASH_DATA_ALLOC_SIZE_def simp del: upt_rec_numeral)
  have "flash_pageprogram dev data addr n = flash_pageprogram dev ?data addr n"
    unfolding flash_pageprogram_def same ..
  then show ?thesis
    using wp_mono [OF wp_page_program [of ?data n addr dev h]] True by simp
next
  case False
  then show ?thesis by (simp add: wp_def page_program_refused)
qed

section \<open>Properties\<close>

text \<open>
  C29. Programming a page. A length other than 256 or an address within a page is refused before the
  device is accessed. Otherwise the slave is released at the end; the frames on the bus are those of an
  interrupted start, or write enable and the beginning of the command, or write enable, the command with
  the address and all 256 bytes, and status reads; and after a result that is no error the command was
  complete and the last status was read.
\<close>

theorem flash_page_programmed:
  assumes "length data = 256" "run_state (flash_pageprogram dev data addr n) h = (r, h')"
  shows "(if n = 256 \<and> addr AND 255 = 0
     then snd (bus h') = None
       \<and> enabled_frames (fst (release (bus h))) (0x02 # map ucast (address_bytes addr) @ data) (fst (bus h'))
       \<and> (0 \<le> r \<longrightarrow> (\<exists>st. fst (bus h') = fst (release (bus h)) @ [[0x06], 0x02 # map ucast (address_bytes addr) @ data] @ st
           \<and> status_frames st \<and> st \<noteq> [] \<and> last st = [0x05, 0]))
     else r = -1 \<and> h' = h)"
proof (cases "n = 256 \<and> addr AND 255 = 0")
  case True
  then have "n = 256" "addr AND 255 = 0" by simp_all
  from wp_run [OF assms(2) wp_page_program [OF assms(1) this]] show ?thesis
    unfolding if_P [OF True] by (elim conjE, intro conjI impI) simp_all
next
  case False
  then have "run_state (flash_pageprogram dev data addr n) h = (-1, h)" by (intro page_program_refused) auto
  then show ?thesis unfolding if_not_P [OF False] using assms(2) by simp
qed

lemma flash_page_programmed_witness:
  "case run_state (flash_pageprogram ready_example (replicate 256 1) 0x100 256) [] of (r, h') \<Rightarrow>
     0 \<le> r \<and> snd (bus h') = None
     \<and> (\<exists>st. fst (bus h') = [[0x06], [0x02, 0, 1, 0] @ replicate 256 1] @ st \<and> st \<noteq> [] \<and> last st = [0x05, 0])"
proof -
  have len: "length (replicate 256 (1 :: u8)) = 256" by simp
  obtain r h' where run: "run_state (flash_pageprogram ready_example (replicate 256 1) 0x100 256) [] = (r, h')"
    by (cases "run_state (flash_pageprogram ready_example (replicate 256 1) 0x100 256) []")
  have page: "(256 :: nat) = 256 \<and> (0x100 :: u32) AND 255 = 0" by simp
  have r: "0 \<le> r"
    by (rule wp_run [OF run ready_page_program [OF ready_example len conjunct2 [OF page]]])
  have cmd: "0x02 # map ucast (address_bytes 0x100) @ replicate 256 1 = [0x02, 0, 1, 0] @ replicate 256 (1 :: u8)"
    by (simp add: address_bytes_def)
  have start: "fst (release (bus [])) = []" by (simp add: release_def)
  show ?thesis
    using flash_page_programmed [OF len run] r unfolding if_P [OF page] run prod.case cmd start append_Nil by blast
qed

text \<open>
  Reading the flash memory. The slave is released at the end and no more bytes are stored than were
  asked for; after a result that is no error all of them were stored, they are the lowest bytes of the
  values of the data register that were read, in their order, and the one frame on the bus is the fast read command with
  the address and one byte that is shifted out for each one that is shifted in.
\<close>

lemma flash_bytes_read:
  assumes "run_state (flash_fastread dev addr n) h = ((r, bytes), h')"
  shows "snd (bus h') = None \<and> length bytes \<le> n
       \<and> (0 \<le> r \<longrightarrow> length bytes = n
         \<and> fst (bus h') = fst (release (bus h)) @ [[0x0B] @ map ucast (address_bytes addr) @ [0, 0] @ replicate n 0]
         \<and> map ucast (data_reads h') = map ucast (data_reads h) @ bytes)"
  using wp_run [OF assms wp_fastread] unfolding prod.case by (elim conjE, intro conjI) assumption+

lemma flash_bytes_read_witness:
  "case run_state (flash_fastread ready_example 0x0100 3) [] of ((r, bytes), h') \<Rightarrow>
     0 \<le> r \<and> length bytes = 3 \<and> fst (bus h') = [[0x0B, 0, 1, 0, 0, 0] @ replicate 3 0]"
proof -
  obtain r bytes h' where run: "run_state (flash_fastread ready_example 0x0100 3) [] = ((r, bytes), h')"
    by (metis prod.exhaust)
  have r: "0 \<le> r" using wp_run [OF run ready_fastread [OF ready_example]] by simp
  have cmd: "[0x0B] @ map ucast (address_bytes 0x0100) @ [0, 0] @ replicate 3 0 = [0x0B, 0, 1, 0, 0, 0] @ replicate 3 (0 :: u8)"
    by (simp add: address_bytes_def)
  have start: "fst (release (bus [])) = []" by (simp add: release_def)
  show ?thesis
    using flash_bytes_read [OF run] r unfolding run prod.case cmd start append_Nil by blast
qed

text \<open>
  Erasing the primary image. The slave is released at the end. After a result that is no error, the
  bus saw for each of the 38 sectors, in their order, write enable, the sector erase command with its
  address and status reads up to the end of erasing. After an error the sectors before some sector are
  erased, and for that sector and none after it the frames are those of an interrupted command.
\<close>

lemma flash_primary_erased:
  assumes "run_state (flash_primaryerase dev) h = (r, h')"
  shows "snd (bus h') = None
       \<and> (0 \<le> r \<longrightarrow> (\<exists>gs. fst (bus h') = fst (release (bus h)) @ gs \<and> erased primary_sectors gs))
       \<and> (r < 0 \<longrightarrow> (\<exists>k gs. k < 38 \<and> erased (take k primary_sectors) gs
           \<and> enabled_frames (fst (release (bus h)) @ gs) (erase_command (primary_sectors ! k)) (fst (bus h'))))"
  using wp_run [OF assms wp_primaryerase] unfolding primary_sectors_38 by (elim conjE, intro conjI) assumption+

lemma flash_primary_erased_witness:
  "\<exists>gs. fst (bus (snd (run_state (flash_primaryerase ready_example) []))) = gs \<and> erased primary_sectors gs"
proof -
  obtain r h' where run: "run_state (flash_primaryerase ready_example) [] = (r, h')"
    by (cases "run_state (flash_primaryerase ready_example) []")
  have r: "0 \<le> r" by (rule wp_run [OF run ready_primaryerase [OF ready_example]])
  have start: "fst (release (bus [])) = []" by (simp add: release_def)
  show ?thesis using flash_primary_erased [OF run] r unfolding run snd_conv start append_Nil by blast
qed

text \<open>
  C30. On any hardware, even one whose registers never change, each function returns: the number of its
  accesses to the registers is bounded.
\<close>

theorem flash_functions_end:
  "length (snd (run_state (flash_pageprogram dev data addr n) h)) \<le> length h + 702840286
     \<and> length (snd (run_state (flash_fastread dev addr n) h)) \<le> length h + 100019 + n * 20002
     \<and> length (snd (run_state (flash_read_status dev) h)) \<le> length h + 70016
     \<and> length (snd (run_state (flash_bulkerase dev) h)) \<le> length h + 18794776977323
     \<and> length (snd (run_state (flash_primaryerase dev) h)) \<le> length h + 714201525908240"
proof (intro conjI)
  have len: "length (snd (run_state m h)) \<le> length h + k" if "wp m (\<lambda>r h'. length h' \<le> length h + k) h" for m k
    using that by (simp add: wp_def split: prod.splits)
  show "length (snd (run_state (flash_pageprogram dev data addr n) h)) \<le> length h + 702840286"
    by (rule len, rule wp_mono [OF page_program_accesses]) (simp add: retries_def SPI_RETRY_COUNT_def)
  show "length (snd (run_state (flash_fastread dev addr n) h)) \<le> length h + 100019 + n * 20002"
    unfolding add.assoc
    by (rule len, rule wp_mono [OF wp_fastread]) (simp add: retries_def SPI_RETRY_COUNT_def split: prod.splits)
  show "length (snd (run_state (flash_read_status dev) h)) \<le> length h + 70016"
    by (rule len, rule wp_mono [OF wp_read_status]) (simp add: retries_def SPI_RETRY_COUNT_def)
  show "length (snd (run_state (flash_bulkerase dev) h)) \<le> length h + 18794776977323"
    by (rule len, rule wp_mono [OF wp_bulkerase]) (simp add: retries_def SPI_RETRY_COUNT_def SPI_BE_COUNT_def)
  show "length (snd (run_state (flash_primaryerase dev) h)) \<le> length h + 714201525908240"
    by (rule len, rule wp_mono [OF wp_primaryerase])
      (simp add: retries_def SPI_RETRY_COUNT_def SPI_BE_COUNT_def sector_accesses_def primary_sectors_38)
qed

text \<open>
  When the controller and the flash memory are ready at each access, programming, reading and erasing succeed.
\<close>

lemma flash_ready_succeeds:
  assumes "device_ready dev" "length data = 256" "addr AND 255 = 0"
  shows "0 \<le> fst (run_state (flash_pageprogram dev data addr 256) h)
     \<and> 0 \<le> fst (fst (run_state (flash_fastread dev a n) h))
     \<and> 0 \<le> fst (run_state (flash_bulkerase dev) h)
     \<and> 0 \<le> fst (run_state (flash_primaryerase dev) h)"
proof -
  have result: "P (fst (run_state m h))" if "wp m (\<lambda>r h'. P r) h" for P m
    using that by (simp add: wp_def split: prod.splits)
  show ?thesis
    using result [OF ready_page_program [OF assms]] result [OF ready_fastread [OF assms(1)]]
      result [OF ready_bulkerase [OF assms(1)]] result [OF ready_primaryerase [OF assms(1)]] by blast
qed

lemma flash_ready_succeeds_witness:
  "0 \<le> fst (run_state (flash_pageprogram ready_example (replicate 256 0xFF) 0x10000 256) [])
     \<and> 0 \<le> fst (fst (run_state (flash_fastread ready_example 0 16) []))
     \<and> 0 \<le> fst (run_state (flash_bulkerase ready_example) [])
     \<and> 0 \<le> fst (run_state (flash_primaryerase ready_example) [])"
  by (rule flash_ready_succeeds [OF ready_example]) simp_all

end
