(* ===== verification/KernelDevice_Props.thy ===== *)
theory KernelDevice_Props
  imports KernelDevice KernelFlash_Props
begin

text \<open>
  Properties of the character devices: processes that use them as the driver expects never make it access
  memory outside of its buffers, only one kind of device is open at a time, buffers and interrupts are
  released; what a process writes is programmed into the flash memory; and the cases in which the driver
  does not behave as its comments say.
\<close>

section \<open>Positions and limits\<close>

lemma low_mask_int: "(x :: int) AND (2 ^ n - 1) = x mod 2 ^ n"
  by (simp add: take_bit_eq_mask mask_eq_exp_minus_1 flip: take_bit_eq_mod)

lemma page_of_mod:
  assumes "page = 2 ^ n"
  shows "page_of page x = x - x mod int page" "x AND (int page - 1) = x mod int page"
proof -
  have "NOT x AND (x AND (2 ^ n - 1)) = 0" by (simp flip: and.assoc)
  then have "x - (x AND (2 ^ n - 1)) = x AND NOT (x AND (2 ^ n - 1))" by (rule disjunctive_diff_eq_and_not)
  also have "\<dots> = x AND NOT (2 ^ n - 1)" by (simp add: bit.conj_disj_distrib)
  finally have "x - (x AND (2 ^ n - 1)) = x AND NOT (2 ^ n - 1)" .
  then show "page_of page x = x - x mod int page" unfolding page_of_def assms by (simp add: low_mask_int)
  show "x AND (int page - 1) = x mod int page" unfolding assms by (simp add: low_mask_int)
qed

lemma to_int_id: "- (2 ^ 31) \<le> x \<Longrightarrow> x < 2 ^ 31 \<Longrightarrow> to_int x = x"
  unfolding to_int_def sint_sbintrunc' by (rule signed_take_bit_int_eq_self) simp_all

lemma to_ulong_id: "0 \<le> x \<Longrightarrow> x < 2 ^ 64 \<Longrightarrow> to_ulong x = x"
  by (simp add: to_ulong_def)

lemma to_ulong_neg: "x < 0 \<Longrightarrow> - (2 ^ 63) \<le> x \<Longrightarrow> 2 ^ 63 \<le> to_ulong x"
proof -
  assume *: "x < 0" "- (2 ^ 63) \<le> x"
  have "x mod 2 ^ 64 = (x + 2 ^ 64) mod 2 ^ 64" by simp
  also have "\<dots> = x + 2 ^ 64" using * by (intro mod_pos_pos_trivial) simp_all
  finally show "2 ^ 63 \<le> to_ulong x" using * by (simp add: to_ulong_def)
qed

text \<open>The positions and numbers for which the arithmetic of the driver does not overflow.\<close>

definition sane :: "int \<Rightarrow> int \<Rightarrow> bool" where
  "sane f_pos count \<longleftrightarrow> 0 \<le> f_pos \<and> f_pos < 2 ^ 31 - 1024 \<and> 0 \<le> count \<and> count \<le> 2 ^ 31"

lemma limit_count_min:
  assumes "sane f_pos count" "f_pos \<le> end_pos" "end_pos < 2 ^ 31"
  shows "limit_count f_pos count end_pos = min count (end_pos - f_pos)"
  using assms by (simp add: limit_count_def to_ulong_def sane_def min_def)

lemma limit_count_huge:
  assumes "sane f_pos count" "0 \<le> end_pos" "end_pos < f_pos"
  shows "2 ^ 63 \<le> limit_count f_pos count end_pos"
proof -
  have "to_ulong (f_pos + count) > to_ulong end_pos" using assms by (simp add: to_ulong_def sane_def)
  moreover have "2 ^ 63 \<le> to_ulong (end_pos - f_pos)" using assms by (intro to_ulong_neg) (simp_all add: sane_def)
  ultimately show ?thesis by (simp add: limit_count_def)
qed

section \<open>Copying\<close>

lemma copy_to_user_ok: "0 \<le> offset \<Longrightarrow> offset + count \<le> int (length buffer) \<Longrightarrow> copy_to_user a buffer offset count \<noteq> None"
  by (simp add: copy_to_user_def)

lemma finish_read_ok:
  assumes "0 \<le> offset" "offset + count \<le> int (length buffer)"
  shows "\<exists>r bytes pos. finish_read a (Some buffer) offset count f_pos d = Some (r, bytes, pos, d)"
  using assms by (auto simp: finish_read_def copy_to_user_def)

lemma read_sized_ok:
  assumes "sane f_pos count" "0 \<le> data_size" "data_size \<le> int (length buffer)" "data_size < 2 ^ 31"
  shows "\<exists>r bytes pos. read_sized a count f_pos (Some buffer) data_size d = Some (r, bytes, pos, d)"
proof (cases "f_pos > data_size")
  case False
  have "\<exists>r bytes pos. finish_read a (Some buffer) f_pos (limit_count f_pos count data_size) f_pos d = Some (r, bytes, pos, d)"
    using assms False by (intro finish_read_ok) (simp_all add: limit_count_min sane_def)
  then show ?thesis using False by (simp add: read_sized_def)
qed (simp add: read_sized_def)

lemma length_fill [simp]: "length (fill bytes buffer) = length buffer"
  by (simp add: fill_def)

text \<open>A read through a page leaves all but the page and its position as the loading function leaves it.\<close>

lemma read_paged_ok:
  assumes "sane f_pos count" "page = 2 ^ n" "n \<le> 10" "xcf_data d = Some buffer" "length buffer = page"
    and load: "\<And>addr d. xcf_data (snd (load addr d)) = xcf_data d"
  shows "\<exists>r bytes pos d'. read_paged page load a count f_pos d = Some (r, bytes, pos, d')
    \<and> (d' = d \<or> (\<exists>addr b. d' = (snd (load addr d))\<lparr>xcf_data := Some b, xcf_data_pos := page_of page f_pos\<rparr> \<and> length b = page))
    \<and> xcf_data_pos d' = page_of page f_pos"
proof -
  have p: "0 < int page" "int page \<le> 1024" using power_increasing [OF assms(3), of "2 :: int"] by (simp_all add: assms(2))
  define start where "start = page_of page f_pos"
  have mods: "0 \<le> f_pos mod int page" "f_pos mod int page < int page" using p by simp_all
  have start: "start = f_pos - f_pos mod int page" unfolding start_def by (rule page_of_mod [OF assms(2)])
  have pos: "0 \<le> start" "start \<le> f_pos" "start < 2 ^ 31 - 1024"
    using assms(1) p mods zmod_le_nonneg_dividend [of f_pos "int page"] unfolding start sane_def by simp_all
  define d' where "d' = (if start \<noteq> xcf_data_pos d then (case load (word_of_int start) d of
      (bytes, d) \<Rightarrow> d\<lparr>xcf_data := map_option (fill bytes) (xcf_data d), xcf_data_pos := to_int start\<rparr>) else d)"
  have to_int: "to_int start = start" using pos by (intro to_int_id) simp_all
  have new: "d' = d \<or> (\<exists>addr b. d' = (snd (load addr d))\<lparr>xcf_data := Some b, xcf_data_pos := start\<rparr> \<and> length b = page)"
  proof (cases "start \<noteq> xcf_data_pos d")
    case True
    obtain bytes e where e: "load (word_of_int start) d = (bytes, e)" by (cases "load (word_of_int start) d")
    then have "xcf_data e = Some buffer" using load [of "word_of_int start" d] assms(4) by simp
    then have "d' = (snd (load (word_of_int start) d))\<lparr>xcf_data := Some (fill bytes buffer), xcf_data_pos := start\<rparr>"
      unfolding d'_def using True e to_int by simp
    then show ?thesis using assms(5) by (metis length_fill)
  qed (simp add: d'_def)
  have at: "xcf_data_pos d' = start" using to_int by (simp add: d'_def split: prod.split)
  obtain b where b: "xcf_data d' = Some b" "length b = page" using new assms(4,5) by fastforce
  have "to_int (xcf_data_pos d' + int page) = start + int page" unfolding at using pos p by (intro to_int_id) simp_all
  then have "limit_count f_pos count (to_int (xcf_data_pos d' + int page)) = min count (start + int page - f_pos)"
    using assms(1) pos p mods start by (simp add: limit_count_min)
  moreover have "f_pos AND (int page - 1) = f_pos mod int page" by (rule page_of_mod [OF assms(2)])
  ultimately have "\<exists>r bytes pos. finish_read a (xcf_data d') (f_pos AND (int page - 1))
      (limit_count f_pos count (to_int (xcf_data_pos d' + int page))) f_pos d' = Some (r, bytes, pos, d')"
    unfolding b(1) using mods start b(2) by (intro finish_read_ok) auto
  then show ?thesis
    using new at unfolding read_paged_def Let_def start_def [symmetric] d'_def [symmetric] by blast
qed

text \<open>What the function that stores a full page has to guarantee: it succeeds, and leaves the given fields as they are.\<close>

definition stores :: "nat \<Rightarrow> (mrf_dev \<Rightarrow> mrf_dev option) \<Rightarrow> bool" where
  "stores page store \<longleftrightarrow> (\<forall>d b. xcf_data d = Some b \<and> length b = page \<longrightarrow>
     (\<exists>h cs. store d = Some (d\<lparr>spi := h, calls := cs @ calls d\<rparr>) \<and> (\<forall>c \<in> set cs. \<exists>b. c = Board b)))"

definition page_written :: "nat \<Rightarrow> mrf_dev \<Rightarrow> mrf_dev \<Rightarrow> bool" where
  "page_written page d d' \<longleftrightarrow> (\<exists>b p h cs. d' = d\<lparr>xcf_data := Some b, xcf_data_pos := p, spi := h, calls := cs @ calls d\<rparr>
     \<and> length b = page \<and> 0 \<le> p \<and> p mod int page = 0 \<and> (\<forall>c \<in> set cs. \<exists>b. c = Board b))"

lemma write_paged_ok:
  assumes "sane f_pos count" "page = 2 ^ n" "n \<le> 10" "xcf_data d = Some buffer" "length buffer = page"
    "0 \<le> xcf_data_pos d" "xcf_data_pos d mod int page = 0" "int (length bytes) < 2 ^ 63" "stores page store"
  shows "\<exists>r pos d'. write_paged page store bytes count f_pos d = Some (r, pos, d')
    \<and> page_written page d d'"
proof -
  have p: "0 < int page" "int page \<le> 1024" using power_increasing [OF assms(3), of "2 :: int"] by (simp_all add: assms(2))
  let ?pos = "xcf_data_pos d"
  let ?change = "page_written page d"
  note defs = page_written_def
  have same: "?change d"
    unfolding defs using assms(4-7) by (intro exI [of _ buffer] exI [of _ ?pos] exI [of _ "spi d"] exI [of _ "[]"]) (simp add: mrf_dev.equality)
  show ?thesis
  proof (cases "f_pos < ?pos")
    case True
    then show ?thesis using same by (simp add: write_paged_def)
  next
    case False
    have end_pos: "to_int (?pos + int page) = ?pos + int page"
      using False assms(1,6) p by (intro to_int_id) (simp_all add: sane_def)
    define k where "k = limit_count f_pos count (to_int (?pos + int page))"
    show ?thesis
    proof (cases "k > int (length bytes)")
      case True
      then have "write_paged page store bytes count f_pos d = Some (- EFAULT, f_pos, d)"
        using False assms(4) by (simp add: write_paged_def Let_def copy_from_user_def flip: k_def)
      then show ?thesis using same by blast
    next
      case few: False
      have "f_pos \<le> ?pos + int page"
      proof (rule ccontr)
        assume "\<not> f_pos \<le> ?pos + int page"
        then have "2 ^ 63 \<le> k" unfolding k_def end_pos using assms(1,6) p by (intro limit_count_huge) simp_all
        then show False using few assms(8) by linarith
      qed
      then have k: "k = min count (?pos + int page - f_pos)"
        unfolding k_def end_pos using False assms(1,6) p by (intro limit_count_min) (simp_all add: sane_def)
      have k0: "0 \<le> k" using k assms(1) \<open>f_pos \<le> ?pos + int page\<close> by (simp add: sane_def)
      define offset where "offset = f_pos AND (int page - 1)"
      have offset: "offset = f_pos mod int page" unfolding offset_def by (rule page_of_mod [OF assms(2)])
      have fits: "0 \<le> offset" "offset + k \<le> int page"
      proof -
        show "0 \<le> offset" using offset p by simp
        show "offset + k \<le> int page"
        proof (cases "f_pos = ?pos + int page")
          case True
          then have "k = 0" "offset < int page" using k assms(1) offset p by (simp_all add: sane_def)
          then show ?thesis by simp
        next
          case False
          have "f_pos mod int page = (f_pos - ?pos) mod int page" using assms(7) by (simp add: mod_diff_eq mod_diff_right_eq flip: mod_diff_right_eq)
          also have "\<dots> = f_pos - ?pos"
            using False \<open>f_pos \<le> ?pos + int page\<close> \<open>\<not> f_pos < ?pos\<close> by (intro mod_pos_pos_trivial) simp_all
          finally show ?thesis using k offset by simp
        qed
      qed
      define buffer' where "buffer' = take (nat offset) buffer @ take (nat k) bytes @ drop (nat offset + nat k) buffer"
      have len: "length buffer' = page" using fits few k0 assms(5) by (simp add: buffer'_def)
      have copy: "copy_from_user bytes buffer offset k = Some (Some buffer')"
        using fits few assms(5) by (simp add: copy_from_user_def buffer'_def)
      show ?thesis
      proof (cases "f_pos + k - ?pos = int page")
        case True
        obtain h cs where st: "store (d\<lparr>xcf_data := Some buffer'\<rparr>) = Some (d\<lparr>xcf_data := Some buffer', spi := h, calls := cs @ calls d\<rparr>)"
          "\<forall>c \<in> set cs. \<exists>b. c = Board b"
          using assms(9) [unfolded stores_def, rule_format, of "d\<lparr>xcf_data := Some buffer'\<rparr>" buffer'] len by auto
        have to_int: "to_int (f_pos + k) = ?pos + int page" using True end_pos by (metis add_diff_cancel_left' add.commute diff_add_cancel)
        have "write_paged page store bytes count f_pos d = Some (k, f_pos + k,
            d\<lparr>xcf_data := Some (replicate page 0xff), spi := h, calls := cs @ calls d, xcf_data_pos := ?pos + int page\<rparr>)"
          using False assms(4) True st(1) to_int
          by (simp add: write_paged_def Let_def copy flip: k_def offset_def)
        moreover have "?change (d\<lparr>xcf_data := Some (replicate page 0xff), spi := h, calls := cs @ calls d, xcf_data_pos := ?pos + int page\<rparr>)"
          unfolding defs using st(2) assms(6,7) p
          by (intro exI [of _ "replicate page 0xff"] exI [of _ "?pos + int page"] exI [of _ h] exI [of _ cs]) simp
        ultimately show ?thesis by blast
      next
        case part: False
        have "write_paged page store bytes count f_pos d = Some (k, f_pos + k, d\<lparr>xcf_data := Some buffer'\<rparr>)"
          using False assms(4) part by (simp add: write_paged_def Let_def copy flip: k_def offset_def)
        moreover have "?change (d\<lparr>xcf_data := Some buffer'\<rparr>)"
          unfolding defs using len assms(6,7) by (intro exI [of _ buffer'] exI [of _ ?pos] exI [of _ "spi d"] exI [of _ "[]"]) (simp add: mrf_dev.equality)
        ultimately show ?thesis by blast
      qed
    qed
  qed
qed

section \<open>What the operations leave unchanged\<close>

lemma board_irq_simps [simp]:
  "access_mode (board_irq_enable d) = access_mode d" "access_device (board_irq_enable d) = access_device d"
  "refcount_ev (board_irq_enable d) = refcount_ev d" "eeprom_data (board_irq_enable d) = eeprom_data d"
  "eeprom_data_size (board_irq_enable d) = eeprom_data_size d" "xcf_data (board_irq_enable d) = xcf_data d"
  "xcf_data_pos (board_irq_enable d) = xcf_data_pos d" "fpga_conf_data (board_irq_enable d) = fpga_conf_data d"
  "fpga_conf_size (board_irq_enable d) = fpga_conf_size d" "devtype (board_irq_enable d) = devtype d"
  "calls (board_irq_enable d) = calls d" "allocated (board_irq_enable d) = allocated d"
  "access_mode (board_irq_disable d) = access_mode d" "access_device (board_irq_disable d) = access_device d"
  "refcount_ev (board_irq_disable d) = refcount_ev d" "eeprom_data (board_irq_disable d) = eeprom_data d"
  "eeprom_data_size (board_irq_disable d) = eeprom_data_size d" "xcf_data (board_irq_disable d) = xcf_data d"
  "xcf_data_pos (board_irq_disable d) = xcf_data_pos d" "fpga_conf_data (board_irq_disable d) = fpga_conf_data d"
  "fpga_conf_size (board_irq_disable d) = fpga_conf_size d" "devtype (board_irq_disable d) = devtype d"
  "calls (board_irq_disable d) = calls d" "allocated (board_irq_disable d) = allocated d"
  by (simp_all add: board_irq_enable_def board_irq_disable_def ev_plx_irq_enable_def ev_plx_9056_irq_enable_def
      ev_irq_enable_def ev_plx_irq_disable_def ev_plx_9056_irq_disable_def ev_irq_disable_def)

lemma note_call_simps [simp]:
  "access_mode (note_call c d) = access_mode d" "access_device (note_call c d) = access_device d"
  "refcount_ev (note_call c d) = refcount_ev d" "eeprom_data (note_call c d) = eeprom_data d"
  "eeprom_data_size (note_call c d) = eeprom_data_size d" "xcf_data (note_call c d) = xcf_data d"
  "xcf_data_pos (note_call c d) = xcf_data_pos d" "fpga_conf_data (note_call c d) = fpga_conf_data d"
  "fpga_conf_size (note_call c d) = fpga_conf_size d" "devtype (note_call c d) = devtype d"
  "calls (note_call c d) = c # calls d" "allocated (note_call c d) = allocated d"
  by (simp_all add: note_call_def)

text \<open>The kinds of boards, one bit each.\<close>

definition board_type :: "u32 \<Rightarrow> bool" where
  "board_type t \<longleftrightarrow> t \<in> {MRF_DEVTYPE_V2P_9030, MRF_DEVTYPE_V5_9056, MRF_DEVTYPE_V5_PCIE, MRF_DEVTYPE_ECP3_PCI,
     MRF_DEVTYPE_ECP3_PCIE, MRF_DEVTYPE_K7_PCIE}"

lemmas type_defs = MRF_DEVTYPE_V2P_9030_def MRF_DEVTYPE_V5_9056_def MRF_DEVTYPE_V5_PCIE_def MRF_DEVTYPE_ECP3_PCI_def
  MRF_DEVTYPE_ECP3_PCIE_def MRF_DEVTYPE_K7_PCIE_def

lemma board_type_cases:
  assumes "board_type (devtype d)"
  obtains "devtype d = 1" | "devtype d = 2" | "devtype d = 4" | "devtype d = 8" | "devtype d = 16" | "devtype d = 32"
  using assms by (auto simp: board_type_def type_defs)

lemma has_type_eval:
  "devtype d = t \<Longrightarrow> has_type d m \<longleftrightarrow> t AND m \<noteq> 0"
  by (simp add: has_type_def)

lemma has_type_updates [simp]:
  "has_type (d\<lparr>allocated := a\<rparr>) m = has_type d m" "has_type (d\<lparr>eeprom_data := e\<rparr>) m = has_type d m"
  "has_type (d\<lparr>xcf_data := e\<rparr>) m = has_type d m" "has_type (d\<lparr>xcf_data_pos := p\<rparr>) m = has_type d m"
  "has_type (d\<lparr>fpga_conf_data := e\<rparr>) m = has_type d m" "has_type (d\<lparr>fpga_conf_size := p\<rparr>) m = has_type d m"
  "has_type (d\<lparr>eeprom_data_size := p\<rparr>) m = has_type d m" "has_type (d\<lparr>refcount_ev := p\<rparr>) m = has_type d m"
  "has_type (d\<lparr>access_mode := p\<rparr>) m = has_type d m" "has_type (d\<lparr>access_device := p\<rparr>) m = has_type d m"
  "has_type (d\<lparr>calls := cs\<rparr>) m = has_type d m" "has_type (d\<lparr>spi := h\<rparr>) m = has_type d m"
  by (simp_all add: has_type_def)

definition bridged :: "u32 \<Rightarrow> bool" where
  "bridged t \<longleftrightarrow> t = MRF_DEVTYPE_V2P_9030 \<or> t = MRF_DEVTYPE_V5_9056"

lemma has_type_bridged: "board_type (devtype d) \<Longrightarrow> has_type d (MRF_DEVTYPE_V2P_9030 OR MRF_DEVTYPE_V5_9056) \<longleftrightarrow> bridged (devtype d)"
  by (erule board_type_cases) (simp_all add: has_type_def bridged_def type_defs)

lemma has_type_single:
  "board_type (devtype d) \<Longrightarrow> board_type m \<Longrightarrow> has_type d m \<longleftrightarrow> devtype d = m"
  unfolding board_type_def by (elim insertE emptyE) (simp_all add: has_type_def type_defs)

text \<open>The size of the page of a board, and the length of its buffer for the flash memory.\<close>

definition page_size :: "u32 \<Rightarrow> nat" where
  "page_size t = (if t = MRF_DEVTYPE_V2P_9030 then XCF_DATA_ALLOC_SIZE else FLASH_DATA_ALLOC_SIZE)"

definition flash_buffer :: "u32 \<Rightarrow> nat option" where
  "flash_buffer t = (if t = MRF_DEVTYPE_V5_PCIE then None else Some (page_size t))"

lemma page_size_exp: "\<exists>n \<le> 10. page_size t = 2 ^ n"
  unfolding page_size_def XCF_DATA_ALLOC_SIZE_def FLASH_DATA_ALLOC_SIZE_def
  by (cases "t = MRF_DEVTYPE_V2P_9030") (auto intro: exI [of _ 10] exI [of _ 8])

section \<open>The invariant\<close>

text \<open>The lengths of the three buffers, and the number of allocations.\<close>

definition buffers :: "nat option \<Rightarrow> nat option \<Rightarrow> nat option \<Rightarrow> mrf_dev \<Rightarrow> bool" where
  "buffers e x f d \<longleftrightarrow> map_option length (eeprom_data d) = e \<and> map_option length (xcf_data d) = x
     \<and> map_option length (fpga_conf_data d) = f \<and> allocated d = length (filter (\<lambda>p. p \<noteq> None) [e, x, f])"

text \<open>The open files (minor numbers) and the state: nothing open, one of the exclusive devices, or the registers any number of times.\<close>

definition idle :: "mrf_dev \<Rightarrow> bool" where
  "idle d \<longleftrightarrow> buffers None None None d \<and> refcount_ev d = 0
     \<and> (access_device d = DEVICE_EEPROM \<or> access_device d = DEVICE_FPGA \<and> \<not> bridged (devtype d))"

definition eeprom_open :: "mrf_dev \<Rightarrow> bool" where
  "eeprom_open d \<longleftrightarrow> buffers (Some EEPROM_DATA_ALLOC_SIZE) None None d \<and> refcount_ev d = 0
     \<and> access_device d = DEVICE_EEPROM \<and> bridged (devtype d)"

definition flash_open :: "mrf_dev \<Rightarrow> bool" where
  "flash_open d \<longleftrightarrow> buffers None (flash_buffer (devtype d)) None d \<and> refcount_ev d = 0 \<and> access_device d = DEVICE_FLASH
     \<and> access_mode d \<in> {O_RDONLY, O_WRONLY}
     \<and> (access_mode d = O_WRONLY \<and> devtype d \<noteq> MRF_DEVTYPE_V5_PCIE \<longrightarrow>
         0 \<le> xcf_data_pos d \<and> xcf_data_pos d mod int (page_size (devtype d)) = 0)"

definition fpga_open :: "mrf_dev \<Rightarrow> bool" where
  "fpga_open d \<longleftrightarrow> buffers None None (Some FPGA_DATA_ALLOC_SIZE) d \<and> refcount_ev d = 0 \<and> access_device d = DEVICE_FPGA
     \<and> bridged (devtype d) \<and> access_mode d \<in> {O_RDONLY, O_WRONLY}
     \<and> (access_mode d = O_RDONLY \<longrightarrow> 0 \<le> fpga_conf_size d \<and> fpga_conf_size d \<le> int FPGA_DATA_ALLOC_SIZE)"

definition ev_open_times :: "nat \<Rightarrow> mrf_dev \<Rightarrow> bool" where
  "ev_open_times n d \<longleftrightarrow> buffers None None None d \<and> refcount_ev d = int n \<and> access_device d = DEVICE_EV"

definition access_ok :: "int list \<Rightarrow> mrf_dev \<Rightarrow> bool" where
  "access_ok files d \<longleftrightarrow> files = [] \<and> idle d \<or> files = [DEVICE_EEPROM] \<and> eeprom_open d
     \<or> files = [DEVICE_FLASH] \<and> flash_open d \<or> files = [DEVICE_FPGA] \<and> fpga_open d
     \<or> (\<exists>n > 0. files = replicate n DEVICE_EV \<and> ev_open_times n d)"

definition interrupts_ok :: "int list \<Rightarrow> mrf_dev \<Rightarrow> bool" where
  "interrupts_ok files d \<longleftrightarrow>
     count_list (calls d) Request_irq = count_list (calls d) Free_irq + (if DEVICE_EV \<in> set files then 1 else 0)"

definition dev_inv :: "mrf_dev \<times> int list \<Rightarrow> bool" where
  "dev_inv = (\<lambda>(d, files). board_type (devtype d) \<and> 0 \<le> eeprom_data_size d \<and> eeprom_data_size d \<le> int EEPROM_DATA_ALLOC_SIZE
     \<and> access_ok files d \<and> interrupts_ok files d)"

text \<open>The allocator has memory, and the functions that print into a buffer give no more than its size.\<close>

definition hardware_ok :: "hardware \<Rightarrow> bool" where
  "hardware_ok hw \<longleftrightarrow> hw_kmalloc hw
     \<and> (\<forall>cs. fst (hw_board hw cs Eeprom_9030_sprint) \<le> int EEPROM_DATA_ALLOC_SIZE
           \<and> fst (hw_board hw cs Eeprom_9056_sprint) \<le> int EEPROM_DATA_ALLOC_SIZE
           \<and> fst (hw_board hw cs Fpga_9030_sprint) \<le> int FPGA_DATA_ALLOC_SIZE
           \<and> fst (hw_board hw cs Fpga_9056_sprint) \<le> int FPGA_DATA_ALLOC_SIZE)"

section \<open>Opening and closing\<close>

lemma sprint_eeprom_simps [simp]:
  "access_mode (snd (sprint_eeprom hw c d)) = access_mode d" "access_device (snd (sprint_eeprom hw c d)) = access_device d"
  "refcount_ev (snd (sprint_eeprom hw c d)) = refcount_ev d"
  "eeprom_data (snd (sprint_eeprom hw c d)) = map_option (fill (snd (hw_board hw (calls d) c))) (eeprom_data d)"
  "eeprom_data_size (snd (sprint_eeprom hw c d)) = eeprom_data_size d" "xcf_data (snd (sprint_eeprom hw c d)) = xcf_data d"
  "fpga_conf_data (snd (sprint_eeprom hw c d)) = fpga_conf_data d" "devtype (snd (sprint_eeprom hw c d)) = devtype d"
  "calls (snd (sprint_eeprom hw c d)) = Board c # calls d" "allocated (snd (sprint_eeprom hw c d)) = allocated d"
  "fst (sprint_eeprom hw c d) = fst (hw_board hw (calls d) c)"
  by (simp_all add: sprint_eeprom_def board_def split: prod.split)

lemma interrupts_ok_board [simp]: "interrupts_ok fs (d\<lparr>calls := Board c # cs\<rparr>) = interrupts_ok fs (d\<lparr>calls := cs\<rparr>)"
  by (simp add: interrupts_ok_def)

text \<open>Opening a device after the file has been noted in the state.\<close>

definition fresh :: "int \<Rightarrow> mrf_dev \<Rightarrow> bool" where
  "fresh minor d \<longleftrightarrow> board_type (devtype d) \<and> 0 \<le> eeprom_data_size d \<and> eeprom_data_size d \<le> int EEPROM_DATA_ALLOC_SIZE
     \<and> buffers None None None d \<and> refcount_ev d = 0 \<and> access_device d = minor \<and> interrupts_ok [] d"

definition opens :: "int \<Rightarrow> (int \<times> mrf_dev) option \<Rightarrow> bool" where
  "opens minor result \<longleftrightarrow> (\<exists>r d. result = Some (r, d) \<and> dev_inv (d, if r = 0 then [minor] else []))"

lemma opens_failed: "r \<noteq> 0 \<Longrightarrow> dev_inv (d, []) \<Longrightarrow> opens minor (Some (r, d))"
  by (simp add: opens_def)

lemma opens_done: "dev_inv (d, [minor]) \<Longrightarrow> opens minor (Some (0, d))"
  by (simp add: opens_def)

lemma open_eeprom_ok:
  assumes "hardware_ok hw" "fresh DEVICE_EEPROM d"
  shows "opens DEVICE_EEPROM (open_eeprom hw d)"
proof (cases "bridged (devtype d)")
  case False
  have "dev_inv (d, [])" using assms(2) by (auto simp: dev_inv_def fresh_def access_ok_def idle_def)
  then show ?thesis
    using False assms(2) by (simp add: open_eeprom_def has_type_bridged fresh_def opens_failed ENXIO_def)
next
  case True
  let ?buffer = "replicate EEPROM_DATA_ALLOC_SIZE (0 :: u8)"
  let ?d = "d\<lparr>allocated := allocated d + 1, eeprom_data := Some ?buffer\<rparr>"
  let ?c = "if devtype d = MRF_DEVTYPE_V2P_9030 then Eeprom_9030_sprint else Eeprom_9056_sprint"
  have alloc: "kmalloc hw EEPROM_DATA_ALLOC_SIZE 0 d = Some (?buffer, d\<lparr>allocated := allocated d + 1\<rparr>)"
    using assms(1) by (simp add: kmalloc_def hardware_ok_def)
  have t: "board_type (devtype d)" using assms(2) by (simp add: fresh_def)
  have types: "has_type e MRF_DEVTYPE_V2P_9030 \<longleftrightarrow> devtype d = MRF_DEVTYPE_V2P_9030"
    "has_type e MRF_DEVTYPE_V5_9056 \<longleftrightarrow> devtype d \<noteq> MRF_DEVTYPE_V2P_9030" if "devtype e = devtype d" for e
    using that t True by (simp_all add: has_type_single board_type_def bridged_def) (auto simp: type_defs)
  have eq: "open_eeprom hw d = (if access_mode d = O_RDONLY
     then let (result, e) = sprint_eeprom hw ?c ?d
       in if result < 0 then Some (result, close_access (free_eeprom e)) else Some (0, e\<lparr>eeprom_data_size := result\<rparr>)
     else Some (0, ?d))"
  proof (cases "sprint_eeprom hw ?c ?d")
    case (Pair r e)
    then have "devtype e = devtype d" using sprint_eeprom_simps(8) [of hw ?c ?d] by simp
    then show ?thesis
      using True t types [of ?d] types [of e] Pair
      by (cases "devtype d = MRF_DEVTYPE_V2P_9030") (simp_all add: open_eeprom_def has_type_bridged alloc Let_def)
  qed
  define result where "result = fst (sprint_eeprom hw ?c ?d)"
  define e where "e = snd (sprint_eeprom hw ?c ?d)"
  have result: "result \<le> int EEPROM_DATA_ALLOC_SIZE" using assms(1) by (simp add: result_def hardware_ok_def)
  have "dev_inv (close_access (free_eeprom e), [])" if "result < 0"
    using assms(2) t by (simp add: e_def dev_inv_def fresh_def access_ok_def idle_def buffers_def interrupts_ok_def
        close_access_def free_eeprom_def kfree_def DEVICE_EEPROM_def)
  moreover have "dev_inv (e\<lparr>eeprom_data_size := result\<rparr>, [DEVICE_EEPROM])" if "0 \<le> result"
    using assms(2) t that result True by (simp add: e_def dev_inv_def fresh_def access_ok_def eeprom_open_def buffers_def interrupts_ok_def
        DEVICE_EEPROM_def DEVICE_EV_def)
  moreover have "dev_inv (?d, [DEVICE_EEPROM])"
    using assms(2) t True by (simp add: dev_inv_def fresh_def access_ok_def eeprom_open_def buffers_def interrupts_ok_def
        DEVICE_EEPROM_def DEVICE_EV_def)
  ultimately show ?thesis
    unfolding eq using opens_failed [of result "close_access (free_eeprom e)"] opens_done
    by (cases "result < 0") (simp_all add: result_def e_def split_beta Let_def)
qed

lemma on_flash_simps [simp]:
  "snd (on_flash m d) = d\<lparr>spi := snd (run_state m (spi d))\<rparr>" "fst (on_flash m d) = fst (run_state m (spi d))"
  by (simp_all add: on_flash_def split: prod.split)

lemma board_simps [simp]: "snd (board hw c d) = note_call (Board c) d" "fst (board hw c d) = hw_board hw (calls d) c"
  by (simp_all add: board_def)

lemma kmalloc_ok: "hardware_ok hw \<Longrightarrow> kmalloc hw n byte d = Some (replicate n byte, d\<lparr>allocated := allocated d + 1\<rparr>)"
  by (simp add: kmalloc_def hardware_ok_def)

lemmas inv_defs = dev_inv_def access_ok_def buffers_def interrupts_ok_def

lemmas minor_defs = DEVICE_EEPROM_def DEVICE_FLASH_def DEVICE_FPGA_def DEVICE_EV_def DEVICE_FIRST_def DEVICE_LAST_def

lemma flash_open_failed_ok:
  assumes "board_type (devtype d)" "0 \<le> eeprom_data_size d" "eeprom_data_size d \<le> int EEPROM_DATA_ALLOC_SIZE"
    "buffers None (Some n) None d" "refcount_ev d = 0" "interrupts_ok [] d"
  shows "dev_inv (snd (flash_open_failed result d), [])"
  using assms by (auto simp: inv_defs idle_def flash_open_failed_def close_access_def free_xcf_def kfree_def minor_defs
      split: option.splits)

lemma open_xcf_ok:
  assumes "hardware_ok hw" "fresh DEVICE_FLASH d" "devtype d = MRF_DEVTYPE_V2P_9030" "access_mode d \<in> {O_RDONLY, O_WRONLY}"
  shows "opens DEVICE_FLASH (open_xcf hw d)"
proof -
  let ?d = "d\<lparr>allocated := allocated d + 1, xcf_data := Some (replicate XCF_DATA_ALLOC_SIZE 0xff)\<rparr>"
  have buf: "flash_buffer (devtype d) = Some XCF_DATA_ALLOC_SIZE"
    using assms(3) by (simp add: flash_buffer_def page_size_def type_defs)
  have failed: "opens DEVICE_FLASH (Some (flash_open_failed r (note_call (Board c) (?d\<lparr>xcf_data_pos := p\<rparr>))))" if "r < 0" for r c p
    using flash_open_failed_ok [of "note_call (Board c) (?d\<lparr>xcf_data_pos := p\<rparr>)" XCF_DATA_ALLOC_SIZE r] assms(2) that
    by (simp add: flash_open_failed_def opens_failed fresh_def buffers_def interrupts_ok_def)
  have ok: "opens DEVICE_FLASH (Some (0, note_call (Board c) (?d\<lparr>xcf_data_pos := p\<rparr>)))"
    if "access_mode d = O_RDONLY \<or> p = 0" for c p
    by (rule opens_done, insert assms(2,4) that buf, auto simp: inv_defs fresh_def flash_open_def minor_defs O_RDONLY_def O_WRONLY_def)
  have rd: "O_RDONLY \<noteq> O_WRONLY" by (simp add: O_RDONLY_def O_WRONLY_def)
  show ?thesis
  proof (cases "access_mode d = O_RDONLY")
    case True
    have "note_call (Board XCF_readstart) (?d\<lparr>xcf_data_pos := -1\<rparr>)\<lparr>xcf_data_pos := 0\<rparr>
        = note_call (Board XCF_readstart) (?d\<lparr>xcf_data_pos := 0\<rparr>)" by (simp add: note_call_def)
    then show ?thesis
      using True failed [where c = XCF_readstart and p = 0] ok [where c = XCF_readstart and p = "-1"] assms(1)
      by (simp add: open_xcf_def kmalloc_ok Let_def board_def split: prod.split)
  next
    case False
    then have "access_mode d = O_WRONLY" using assms(4) by simp
    then show ?thesis
      using failed [where c = XCF_progstart and p = 0] ok [where c = XCF_progstart and p = 0] assms(1) rd
      by (simp add: open_xcf_def kmalloc_ok Let_def board_def split: prod.split)
  qed
qed

lemma open_spi_ok:
  assumes "hardware_ok hw" "fresh DEVICE_FLASH d" "devtype d \<noteq> MRF_DEVTYPE_V2P_9030" "devtype d \<noteq> MRF_DEVTYPE_V5_PCIE"
    "access_mode d \<in> {O_RDONLY, O_WRONLY}"
  shows "opens DEVICE_FLASH (open_spi hw erase d)"
proof -
  let ?d = "d\<lparr>allocated := allocated d + 1, xcf_data := Some (replicate FLASH_DATA_ALLOC_SIZE 0)\<rparr>"
  have buf: "flash_buffer (devtype d) = Some FLASH_DATA_ALLOC_SIZE" using assms(3,4) by (simp add: flash_buffer_def page_size_def)
  have failed: "opens DEVICE_FLASH (Some (flash_open_failed r (?d\<lparr>xcf_data_pos := 0, spi := h\<rparr>)))" if "r < 0" for r h
    using flash_open_failed_ok [of "?d\<lparr>xcf_data_pos := 0, spi := h\<rparr>" FLASH_DATA_ALLOC_SIZE r] assms(2) that
    by (simp add: flash_open_failed_def opens_failed fresh_def buffers_def interrupts_ok_def)
  have ok: "opens DEVICE_FLASH (Some (0, ?d\<lparr>xcf_data_pos := 0, spi := h\<rparr>))" for h
    by (rule opens_done, insert assms(2,5) buf, auto simp: inv_defs fresh_def flash_open_def minor_defs)
  have rd: "opens DEVICE_FLASH (Some (0, ?d))" if "access_mode d \<noteq> O_WRONLY"
    by (rule opens_done, insert assms(2,5) buf that, auto simp: inv_defs fresh_def flash_open_def minor_defs)
  show ?thesis
  proof (cases "run_state (erase (hw_spi hw)) (spi d)")
    case (Pair r h)
    then show ?thesis
      using failed [of r h] ok [of h] rd assms(1) by (simp add: open_spi_def kmalloc_ok Let_def on_flash_def)
  qed
qed

lemma open_flash_ok:
  assumes "hardware_ok hw" "fresh DEVICE_FLASH d" "access_mode d \<in> {O_RDONLY, O_WRONLY}"
  shows "opens DEVICE_FLASH (open_flash hw d)"
proof -
  have t: "board_type (devtype d)" using assms(2) by (simp add: fresh_def)
  have pcie: "opens DEVICE_FLASH (Some (0, d))" if "devtype d = MRF_DEVTYPE_V5_PCIE"
    by (rule opens_done, insert assms(2,3) that, auto simp: inv_defs fresh_def flash_open_def minor_defs flash_buffer_def)
  show ?thesis
    using t by (rule board_type_cases)
      (use open_xcf_ok [OF assms(1,2) _ assms(3)] open_spi_ok [OF assms(1,2) _ _ assms(3)] pcie
        in \<open>simp_all add: open_flash_def has_type_def type_defs\<close>)
qed

lemma open_fpga_ok:
  assumes "hardware_ok hw" "fresh DEVICE_FPGA d" "access_mode d \<in> {O_RDONLY, O_WRONLY}"
  shows "opens DEVICE_FPGA (open_fpga hw d)"
proof (cases "bridged (devtype d)")
  case False
  have "dev_inv (d, [])" using assms(2) False by (simp add: inv_defs idle_def fresh_def)
  then show ?thesis
    using False assms(2) by (simp add: open_fpga_def has_type_bridged fresh_def opens_failed ENXIO_def)
next
  case True
  define opened where "opened e n b \<longleftrightarrow> devtype e = devtype d \<and> eeprom_data_size e = eeprom_data_size d \<and> eeprom_data e = None
     \<and> xcf_data e = None \<and> fpga_conf_data e = Some b \<and> length b = FPGA_DATA_ALLOC_SIZE \<and> fpga_conf_size e = n
     \<and> allocated e = 1 \<and> refcount_ev e = 0 \<and> access_device e = DEVICE_FPGA \<and> access_mode e = access_mode d \<and> interrupts_ok [] e" for e n b
  have d: "allocated d = 0" "eeprom_data d = None" "xcf_data d = None" "refcount_ev d = 0" "access_device d = DEVICE_FPGA"
    "board_type (devtype d)" "interrupts_ok [] d"
    using assms(2) by (simp_all add: fresh_def buffers_def)
  have failed: "opens DEVICE_FPGA (Some (r, close_access (free_fpga e)))" if "r < 0" "opened e n b" for r e n b
    using that by (intro opens_failed, simp)
      (insert assms(2), simp add: inv_defs opened_def idle_def fresh_def close_access_def free_fpga_def kfree_def minor_defs)
  have ok: "opens DEVICE_FPGA (Some (0, e))"
    if "access_mode d = O_RDONLY \<longrightarrow> 0 \<le> n \<and> n \<le> int FPGA_DATA_ALLOC_SIZE" "opened e n b" for e n b
    by (rule opens_done, insert assms(2,3) True that, auto simp: inv_defs opened_def fresh_def fpga_open_def minor_defs)
  have modes: "O_RDONLY \<noteq> O_WRONLY" by (simp add: O_RDONLY_def O_WRONLY_def)
  show ?thesis
  proof (cases "access_mode d = O_RDONLY")
    case rd: True
    define c where "c = (if has_type d MRF_DEVTYPE_V2P_9030 then Fpga_9030_sprint else Fpga_9056_sprint)"
    obtain r bytes where rb: "hw_board hw (calls d) c = (r, bytes)" by (cases "hw_board hw (calls d) c")
    have le: "r \<le> int FPGA_DATA_ALLOC_SIZE"
      using assms(1) rb unfolding hardware_ok_def c_def by (metis fst_conv)
    let ?b = "fill bytes (replicate FPGA_DATA_ALLOC_SIZE 0)"
    let ?e = "d\<lparr>allocated := 1, calls := Board c # calls d, fpga_conf_data := Some ?b, fpga_conf_size := r\<rparr>"
    have "opened ?e r ?b" using d by (simp add: opened_def interrupts_ok_def)
    moreover have "open_fpga hw d = (if r < 0 then Some (r, close_access (free_fpga ?e)) else Some (0, ?e))"
      using assms(1) True d rd modes rb [unfolded c_def] unfolding c_def
      by (cases "has_type d MRF_DEVTYPE_V2P_9030")
        (simp_all add: open_fpga_def has_type_bridged kmalloc_ok Let_def board_def note_call_def)
    ultimately show ?thesis using failed [of r ?e r ?b] ok [of r ?e ?b] le by simp
  next
    case False
    then have wr: "access_mode d = O_WRONLY" using assms(3) by simp
    define c where "c = (if has_type d MRF_DEVTYPE_V2P_9030 then Init_load_fpga_9030 else Init_load_fpga_9056)"
    obtain r bytes where rb: "hw_board hw (calls d) c = (r, bytes)" by (cases "hw_board hw (calls d) c")
    let ?b = "replicate FPGA_DATA_ALLOC_SIZE 0"
    let ?e = "d\<lparr>allocated := 1, fpga_conf_data := Some ?b, calls := Board c # calls d, fpga_conf_size := 0\<rparr>"
    have "opened ?e 0 ?b" using d by (simp add: opened_def interrupts_ok_def)
    moreover have "open_fpga hw d = (if r < 0 then Some (r, close_access (free_fpga ?e)) else Some (0, ?e))"
      using assms(1) True d wr modes rb [unfolded c_def] unfolding c_def
      by (cases "has_type d MRF_DEVTYPE_V2P_9030")
        (simp_all add: open_fpga_def has_type_bridged kmalloc_ok Let_def board_def note_call_def)
    ultimately show ?thesis using failed [of r ?e 0 ?b] ok [of 0 ?e ?b] wr modes by simp
  qed
qed

lemma count_list_board [simp]: "count_list (Board c # cs) Request_irq = count_list cs Request_irq"
    "count_list (Board c # cs) Free_irq = count_list cs Free_irq"
  by simp_all

text \<open>Opening a minor device again after another one is open, or when nothing is.\<close>

lemma ev_open_ok:
  assumes "hardware_ok hw" "dev_inv (d, files)" "DEVICE_EEPROM \<notin> set files"
    "minor = DEVICE_EV \<or> flags \<in> {O_RDONLY, O_WRONLY}"
  shows "\<exists>r d'. ev_open hw interrupted minor flags d = Some (r, d') \<and> dev_inv (d', if r = 0 then minor # files else files)"
proof -
  let ?e = "d\<lparr>access_mode := flags, access_device := minor\<rparr>"
  have same: ?thesis if "ev_open hw interrupted minor flags d = Some (r, d)" "r < 0" for r
    using that assms(2) by auto
  consider (refused) "interrupted \<or> already_open minor d \<or> \<not> (DEVICE_FIRST \<le> minor \<and> minor \<le> DEVICE_LAST)"
    | (ev) n where "\<not> interrupted" "minor = DEVICE_EV" "files = replicate n DEVICE_EV" "0 < n" "ev_open_times n d"
    | (idle) "\<not> interrupted" "files = []" "idle d" "DEVICE_FIRST \<le> minor" "minor \<le> DEVICE_LAST" "access_device d = DEVICE_EEPROM"
    using assms(2,3) unfolding dev_inv_def access_ok_def prod.case
    by (auto simp: already_open_def idle_def flash_open_def fpga_open_def ev_open_times_def minor_defs)
  then show ?thesis
  proof cases
    case refused
    then show ?thesis
      by (intro same [of "if interrupted then - ERESTARTSYS else if already_open minor d then - EPERM else - ENXIO"])
        (auto simp: ev_open_def ERESTARTSYS_def EPERM_def ENXIO_def)
  next
    case ev
    have "ev_open hw interrupted minor flags d = Some (0, ?e\<lparr>refcount_ev := refcount_ev d + 1\<rparr>)"
      using ev by (simp add: ev_open_def already_open_def minor_defs ev_open_times_def open_ev_def)
    moreover have "dev_inv (?e\<lparr>refcount_ev := refcount_ev d + 1\<rparr>, minor # files)"
    proof -
      have "access_ok (minor # files) (?e\<lparr>refcount_ev := refcount_ev d + 1\<rparr>)"
        unfolding access_ok_def using ev by (intro disjI2 exI [of _ "Suc n"]) (simp add: ev_open_times_def buffers_def)
      then show ?thesis using assms(2) ev by (simp add: dev_inv_def interrupts_ok_def)
    qed
    ultimately show ?thesis by auto
  next
    case idle
    have fresh: "fresh minor ?e"
      using assms(2) idle by (simp add: fresh_def dev_inv_def idle_def buffers_def interrupts_ok_def)
    have no: "\<not> already_open minor d" using idle by (simp add: already_open_def minor_defs)
    consider "minor = DEVICE_EEPROM" | "minor = DEVICE_FLASH" | "minor = DEVICE_FPGA" | "minor = DEVICE_EV"
      using idle(4,5) by (simp add: minor_defs) linarith
    then have "opens minor (ev_open hw interrupted minor flags d)"
    proof cases
      case 4
      have "dev_inv (snd (open_ev ?e), [minor])"
      proof -
        have "access_ok [minor] (snd (open_ev ?e))"
          unfolding access_ok_def using idle(3) 4
          by (intro disjI2 exI [of _ 1]) (simp add: open_ev_def ev_open_times_def buffers_def idle_def)
        then show ?thesis
          using fresh idle(3) 4 by (simp add: dev_inv_def interrupts_ok_def fresh_def open_ev_def idle_def)
      qed
      moreover have "ev_open hw interrupted minor flags d = Some (0, snd (open_ev ?e))"
        using idle(1) no 4 by (simp add: ev_open_def minor_defs open_ev_def)
      ultimately show ?thesis by (simp add: opens_done)
    qed (use fresh idle(1) no assms(1,4) open_eeprom_ok [of hw ?e] open_flash_ok [of hw ?e] open_fpga_ok [of hw ?e]
      in \<open>auto simp: ev_open_def minor_defs\<close>)
    then show ?thesis unfolding idle(2) opens_def by blast
  qed
qed

lemma access_okE:
  assumes "access_ok files d" "m \<in> set files"
  obtains "files = [DEVICE_EEPROM]" "eeprom_open d" | "files = [DEVICE_FLASH]" "flash_open d"
    | "files = [DEVICE_FPGA]" "fpga_open d" | n where "files = replicate (Suc n) DEVICE_EV" "ev_open_times (Suc n) d"
  using assms unfolding access_ok_def by (auto simp: gr0_conv_Suc)

lemma idle_after:
  assumes "buffers None None None d" "refcount_ev d = 0" "access_device d = 0" "board_type (devtype d)" "0 \<le> eeprom_data_size d"
    "eeprom_data_size d \<le> int EEPROM_DATA_ALLOC_SIZE" "count_list (calls d) Request_irq = count_list (calls d) Free_irq"
  shows "dev_inv (d, [])"
  using assms by (simp add: dev_inv_def access_ok_def idle_def interrupts_ok_def minor_defs)

lemma release_spi_ok:
  assumes "xcf_data d = Some b" "length b = FLASH_DATA_ALLOC_SIZE"
  shows "\<exists>h. release_spi hw start d = Some (d\<lparr>spi := h, allocated := allocated d - 1, xcf_data := None\<rparr>)"
proof (cases "access_mode d = O_WRONLY")
  case True
  then show ?thesis
    using assms by (simp add: release_spi_def program_buffer_def free_xcf_def kfree_def) (rule exI, rule refl)
next
  case False
  then show ?thesis
    using assms by (intro exI [of _ "spi d"]) (simp add: release_spi_def free_xcf_def kfree_def)
qed

lemma release_xcf_ok:
  assumes "xcf_data d = Some b"
  shows "\<exists>r cs. release_xcf hw d = Some (r, d\<lparr>calls := cs @ calls d, allocated := allocated d - 1, xcf_data := None\<rparr>)
    \<and> (\<forall>c \<in> set cs. \<exists>b. c = Board b)"
proof -
  have modes: "O_RDONLY \<noteq> O_WRONLY" by (simp add: O_RDONLY_def O_WRONLY_def)
  consider "access_mode d = O_RDONLY" | "access_mode d = O_WRONLY" | "access_mode d \<noteq> O_RDONLY" "access_mode d \<noteq> O_WRONLY" by blast
  then show ?thesis
  proof cases
    case 1
    obtain r bs where "hw_board hw (calls d) XCF_readend = (r, bs)" by (cases "hw_board hw (calls d) XCF_readend")
    then show ?thesis
      using assms modes 1 by (intro exI [of _ r] exI [of _ "[Board XCF_readend]"])
        (simp add: release_xcf_def free_xcf_def kfree_def board_def note_call_def)
  next
    case 2
    let ?c = "Board (XCF_write b (xcf_data_pos d) XCF_DATA_ALLOC_SIZE)"
    show ?thesis
      using assms modes 2 by (intro exI [of _ "fst (hw_board hw (?c # calls d) XCF_progend)"] exI [of _ "[Board XCF_conf, Board XCF_progend, ?c]"])
        (simp add: release_xcf_def free_xcf_def kfree_def board_def note_call_def split: prod.split)
  next
    case 3
    then show ?thesis
      using assms by (intro exI [of _ 0] exI [of _ "[]"]) (simp add: release_xcf_def free_xcf_def kfree_def)
  qed
qed

lemma count_list_boards:
  "\<forall>c \<in> set cs. \<exists>b. c = Board b \<Longrightarrow> count_list cs Request_irq = 0"
  "\<forall>c \<in> set cs. \<exists>b. c = Board b \<Longrightarrow> count_list cs Free_irq = 0"
  by (induction cs) auto

lemma release_flash_ok:
  assumes "board_type (devtype d)" "flash_open d"
  shows "\<exists>r h cs. release_flash hw d = Some (r, d\<lparr>spi := h, calls := cs @ calls d, allocated := 0, xcf_data := None,
      access_mode := 0, access_device := 0\<rparr>) \<and> (\<forall>c \<in> set cs. \<exists>b. c = Board b)"
proof -
  let ?done = "\<lambda>r h cs. Some (r, d\<lparr>spi := h, calls := cs @ calls d, allocated := 0, xcf_data := None, access_mode := 0, access_device := 0\<rparr>)"
  have bufs: "buffers None (flash_buffer (devtype d)) None d" using assms(2) by (simp add: flash_open_def)
  have spi: "\<exists>h. release_spi hw start d = Some (d\<lparr>spi := h, allocated := 0, xcf_data := None\<rparr>)"
    if "devtype d \<noteq> MRF_DEVTYPE_V5_PCIE" "devtype d \<noteq> MRF_DEVTYPE_V2P_9030" for start
    using release_spi_ok [of d _ hw start] bufs that by (auto simp: buffers_def flash_buffer_def page_size_def)
  have xcf: "\<exists>r cs. release_xcf hw d = Some (r, d\<lparr>calls := cs @ calls d, allocated := 0, xcf_data := None\<rparr>) \<and> (\<forall>c \<in> set cs. \<exists>b. c = Board b)"
    if "devtype d = MRF_DEVTYPE_V2P_9030"
    using release_xcf_ok [of d _ hw] bufs that by (auto simp: buffers_def flash_buffer_def type_defs)
  have unchanged: "d\<lparr>spi := spi d, calls := [] @ calls d, allocated := 0, xcf_data := None, access_mode := 0, access_device := 0\<rparr>
      = close_access d" if "devtype d = MRF_DEVTYPE_V5_PCIE"
    by (rule mrf_dev.equality) (use bufs that in \<open>simp_all add: buffers_def flash_buffer_def close_access_def\<close>)
  show ?thesis
    using assms(1)
  proof (rule board_type_cases)
    assume t: "devtype d = 1"
    then obtain r cs where r: "release_xcf hw d = Some (r, d\<lparr>calls := cs @ calls d, allocated := 0, xcf_data := None\<rparr>)"
      "\<forall>c \<in> set cs. \<exists>b. c = Board b"
      using xcf by (auto simp: type_defs)
    have "release_flash hw d = ?done r (spi d) cs"
      using t r(1) by (simp add: release_flash_def has_type_def type_defs close_access_def)
    then show ?thesis using r(2) by blast
  next
    assume t: "devtype d = 4"
    have "release_flash hw d = Some (0, close_access d)"
      using t by (simp add: release_flash_def has_type_def type_defs)
    moreover have "?done 0 (spi d) [] = Some (0, close_access d)"
      using unchanged t unfolding type_defs by simp
    ultimately have "release_flash hw d = ?done 0 (spi d) []" by (rule trans [OF _ sym])
    then show ?thesis by (metis empty_iff list.set(1))
  next
    assume t: "devtype d = 2"
    obtain h where h: "release_spi hw 0 d = Some (d\<lparr>spi := h, allocated := 0, xcf_data := None\<rparr>)" using spi t by (auto simp: type_defs)
    have "release_flash hw d = ?done 0 h []"
      using t h by (simp add: release_flash_def has_type_def type_defs close_access_def)
    then show ?thesis by (metis empty_iff list.set(1))
  next
    assume t: "devtype d = 8"
    obtain h where h: "release_spi hw (int FLASH_SECTOR_PRIMARY_START) d = Some (d\<lparr>spi := h, allocated := 0, xcf_data := None\<rparr>)"
      using spi t by (auto simp: type_defs)
    have "release_flash hw d = ?done 0 h []"
      using t h by (simp add: release_flash_def has_type_def type_defs close_access_def)
    then show ?thesis by (metis empty_iff list.set(1))
  next
    assume t: "devtype d = 16"
    obtain h where h: "release_spi hw (int FLASH_SECTOR_PRIMARY_START) d = Some (d\<lparr>spi := h, allocated := 0, xcf_data := None\<rparr>)"
      using spi t by (auto simp: type_defs)
    have "release_flash hw d = ?done 0 h []"
      using t h by (simp add: release_flash_def has_type_def type_defs close_access_def)
    then show ?thesis by (metis empty_iff list.set(1))
  next
    assume t: "devtype d = 32"
    obtain h where h: "release_spi hw 0 d = Some (d\<lparr>spi := h, allocated := 0, xcf_data := None\<rparr>)" using spi t by (auto simp: type_defs)
    have "release_flash hw d = ?done 0 h []"
      using t h by (simp add: release_flash_def has_type_def type_defs close_access_def)
    then show ?thesis by (metis empty_iff list.set(1))
  qed
qed

lemma ev_release_ok:
  assumes "dev_inv (d, files)" "m \<in> set files"
  shows "\<exists>r d'. ev_release hw False d = Some (r, d') \<and> dev_inv (d', remove1 m files)"
proof -
  have t: "board_type (devtype d)" and ok: "access_ok files d" and size: "0 \<le> eeprom_data_size d"
    "eeprom_data_size d \<le> int EEPROM_DATA_ALLOC_SIZE" and irqs: "interrupts_ok files d"
    using assms(1) by (simp_all add: dev_inv_def)
  from ok assms(2) show ?thesis
  proof (rule access_okE)
    assume f: "files = [DEVICE_EEPROM]" and o: "eeprom_open d"
    obtain b where b: "eeprom_data d = Some b" "allocated d = 1" "xcf_data d = None" "fpga_conf_data d = None"
      using o by (auto simp: eeprom_open_def buffers_def)
    have idle: "dev_inv (close_access (free_eeprom (d\<lparr>calls := cs @ calls d\<rparr>)), [])" if "\<forall>c \<in> set cs. \<exists>b. c = Board b" for cs
      using b o t size irqs f that
      by (intro idle_after) (simp_all add: close_access_def free_eeprom_def kfree_def buffers_def eeprom_open_def
          interrupts_ok_def minor_defs count_list_boards)
    have acc: "access_device d = DEVICE_EEPROM" using o by (simp add: eeprom_open_def)
    have rm: "remove1 m files = []" using f assms(2) by simp
    show ?thesis
    proof (cases "access_mode d = O_WRONLY")
      case False
      have "ev_release hw False d = Some (0, close_access (free_eeprom d))"
        using False acc o t by (simp add: ev_release_def release_eeprom_def has_type_bridged eeprom_open_def)
      then show ?thesis using idle [of "[]"] rm by simp
    next
      case True
      define c where "c = (if has_type d MRF_DEVTYPE_V2P_9030 then Eeprom_9030_sscan b else Eeprom_9056_sscan b)"
      have one: "has_type d MRF_DEVTYPE_V5_9056 \<longleftrightarrow> \<not> has_type d MRF_DEVTYPE_V2P_9030"
        using o t by (auto simp: eeprom_open_def bridged_def has_type_def type_defs)
      obtain r bs where rb: "hw_board hw (calls d) c = (r, bs)" by (cases "hw_board hw (calls d) c")
      have "ev_release hw False d = Some (r, close_access (free_eeprom (d\<lparr>calls := [Board c] @ calls d\<rparr>)))"
        using True acc o t b one rb [unfolded c_def] unfolding c_def
        by (cases "has_type d MRF_DEVTYPE_V2P_9030")
          (simp_all add: ev_release_def release_eeprom_def has_type_bridged eeprom_open_def board_def note_call_def Let_def)
      then show ?thesis using idle [of "[Board c]"] rm by simp
    qed
  next
    assume f: "files = [DEVICE_FLASH]" and o: "flash_open d"
    obtain r h cs where r: "release_flash hw d = Some (r, d\<lparr>spi := h, calls := cs @ calls d, allocated := 0, xcf_data := None,
        access_mode := 0, access_device := 0\<rparr>)" "\<forall>c \<in> set cs. \<exists>b. c = Board b"
      using release_flash_ok [OF t o] by blast
    have "dev_inv (d\<lparr>spi := h, calls := cs @ calls d, allocated := 0, xcf_data := None, access_mode := 0, access_device := 0\<rparr>, [])"
      using o t size irqs f r(2)
      by (intro idle_after) (simp_all add: buffers_def flash_open_def interrupts_ok_def minor_defs count_list_boards)
    moreover have "ev_release hw False d = release_flash hw d" using o by (simp add: ev_release_def flash_open_def minor_defs)
    ultimately show ?thesis using r(1) f assms(2) by simp
  next
    assume f: "files = [DEVICE_FPGA]" and o: "fpga_open d"
    obtain b where b: "fpga_conf_data d = Some b" "allocated d = 1" "xcf_data d = None" "eeprom_data d = None"
      using o by (auto simp: fpga_open_def buffers_def)
    have idle: "dev_inv (close_access (free_fpga (d\<lparr>calls := cs @ calls d\<rparr>)), [])" if "\<forall>c \<in> set cs. \<exists>b. c = Board b" for cs
      using b o t size irqs f that
      by (intro idle_after) (simp_all add: close_access_def free_fpga_def kfree_def buffers_def fpga_open_def
          interrupts_ok_def minor_defs count_list_boards)
    have acc: "ev_release hw False d = Some (release_fpga hw d)" using o by (simp add: ev_release_def fpga_open_def minor_defs)
    have rm: "remove1 m files = []" using f assms(2) by simp
    show ?thesis
    proof (cases "access_mode d = O_WRONLY")
      case False
      have "release_fpga hw d = (0, close_access (free_fpga d))"
        using False o t by (simp add: release_fpga_def has_type_bridged fpga_open_def)
      then show ?thesis using idle [of "[]"] rm acc by simp
    next
      case True
      define c where "c = (if has_type d MRF_DEVTYPE_V2P_9030 then End_load_fpga_9030 else End_load_fpga_9056)"
      obtain r bs where rb: "hw_board hw (calls d) c = (r, bs)" by (cases "hw_board hw (calls d) c")
      have "release_fpga hw d = (r, close_access (free_fpga (d\<lparr>calls := [Board c] @ calls d\<rparr>)))"
        using True o t rb [unfolded c_def] unfolding c_def
        by (cases "has_type d MRF_DEVTYPE_V2P_9030")
          (simp_all add: release_fpga_def has_type_bridged fpga_open_def board_def note_call_def Let_def)
      then show ?thesis using idle [of "[Board c]"] rm acc by simp
    qed
  next
    fix n assume f: "files = replicate (Suc n) DEVICE_EV" and o: "ev_open_times (Suc n) d"
    have acc: "ev_release hw False d = Some (release_ev d)" using o by (simp add: ev_release_def ev_open_times_def minor_defs)
    have "m = DEVICE_EV" using f assms(2) by auto
    then have rm: "remove1 m files = replicate n DEVICE_EV" using f by simp
    have "dev_inv (snd (release_ev d), replicate n DEVICE_EV)"
    proof (cases n)
      case 0
      then have "dev_inv (snd (release_ev d), [])"
        using o t size irqs f by (intro idle_after) (simp_all add: release_ev_def ev_open_times_def close_access_def buffers_def interrupts_ok_def)
      then show ?thesis using 0 by simp
    next
      case (Suc k)
      have "access_ok (replicate n DEVICE_EV) (snd (release_ev d))"
        unfolding access_ok_def using o Suc
        by (intro disjI2 exI [of _ n]) (simp add: release_ev_def ev_open_times_def buffers_def)
      then show ?thesis
        using o t size irqs f Suc by (simp add: release_ev_def ev_open_times_def dev_inv_def interrupts_ok_def)
    qed
    then show ?thesis using acc rm by (cases "release_ev d") simp
  qed
qed

section \<open>Reading and writing\<close>

lemma load_simps [simp]:
  "snd (load_xcf hw addr d) = note_call (Board (XCF_read addr XCF_DATA_ALLOC_SIZE)) d"
  "snd (load_spi hw start addr d) = d\<lparr>spi := snd (run_state (flash_fastread (hw_spi hw) (addr + of_nat start) FLASH_DATA_ALLOC_SIZE) (spi d))\<rparr>"
  by (simp_all add: load_xcf_def load_spi_def board_def on_flash_def split: prod.split)

text \<open>What reading and writing keep: everything but the buffers' contents, the position of the page, sizes that are given, and calls for the board.\<close>

lemma access_ok_read:
  assumes "flash_open d" "access_mode d \<noteq> O_WRONLY" "xcf_data e = Some b" "length b = page_size (devtype d)"
    "devtype d \<noteq> MRF_DEVTYPE_V5_PCIE" "devtype e = devtype d" "access_mode e = access_mode d" "access_device e = access_device d"
    "refcount_ev e = refcount_ev d" "eeprom_data e = eeprom_data d" "fpga_conf_data e = fpga_conf_data d" "allocated e = allocated d"
  shows "flash_open e"
  using assms by (simp add: flash_open_def buffers_def flash_buffer_def)

lemma read_flash_ok:
  assumes "board_type (devtype d)" "flash_open d" "access_mode d \<noteq> O_WRONLY" "sane f_pos count" "interrupts_ok [DEVICE_FLASH] d"
  shows "\<exists>r bytes pos d'. read_flash hw a count f_pos d = Some (r, bytes, pos, d')
    \<and> devtype d' = devtype d \<and> eeprom_data_size d' = eeprom_data_size d \<and> flash_open d' \<and> interrupts_ok [DEVICE_FLASH] d'"
proof (cases "devtype d = MRF_DEVTYPE_V5_PCIE")
  case True
  then have "read_flash hw a count f_pos d = Some (0, [], f_pos, d)"
    by (simp add: read_flash_def read_fpga_def has_type_def type_defs)
  then show ?thesis using assms by blast
next
  case False
  obtain b where b: "xcf_data d = Some b" "length b = page_size (devtype d)"
    using assms(2) False by (auto simp: flash_open_def buffers_def flash_buffer_def)
  obtain n where n: "n \<le> 10" "page_size (devtype d) = 2 ^ n" using page_size_exp by blast
  have page: ?thesis
    if eq: "read_flash hw a count f_pos d = read_paged (page_size (devtype d)) load a count f_pos d"
      and keep: "\<And>addr d. xcf_data (snd (load addr d)) = xcf_data d"
      and other: "\<And>addr. \<exists>h cs. snd (load addr d) = d\<lparr>spi := h, calls := cs @ calls d\<rparr> \<and> (\<forall>c \<in> set cs. \<exists>b. c = Board b)" for load
  proof -
    obtain r bytes pos d' where r: "read_paged (page_size (devtype d)) load a count f_pos d = Some (r, bytes, pos, d')"
      "d' = d \<or> (\<exists>addr b. d' = (snd (load addr d))\<lparr>xcf_data := Some b, xcf_data_pos := page_of (page_size (devtype d)) f_pos\<rparr>
        \<and> length b = page_size (devtype d))"
      using read_paged_ok [where load = load, OF assms(4) n(2,1) b keep, where a = a] by blast
    from r(2) have "devtype d' = devtype d \<and> eeprom_data_size d' = eeprom_data_size d \<and> flash_open d' \<and> interrupts_ok [DEVICE_FLASH] d'"
    proof
      assume "\<exists>addr b. d' = (snd (load addr d))\<lparr>xcf_data := Some b, xcf_data_pos := page_of (page_size (devtype d)) f_pos\<rparr>
        \<and> length b = page_size (devtype d)"
      then obtain addr b' where d': "d' = (snd (load addr d))\<lparr>xcf_data := Some b', xcf_data_pos := page_of (page_size (devtype d)) f_pos\<rparr>"
        "length b' = page_size (devtype d)" by blast
      obtain h cs where l: "snd (load addr d) = d\<lparr>spi := h, calls := cs @ calls d\<rparr>" "\<forall>c \<in> set cs. \<exists>b. c = Board b" using other by blast
      have "flash_open d'" unfolding d'(1) l(1) by (rule access_ok_read [OF assms(2,3) _ d'(2) False]) simp_all
      then show ?thesis using assms(5) l(2) unfolding d'(1) l(1) by (simp add: interrupts_ok_def count_list_boards)
    qed (use assms in blast)
    then show ?thesis using r(1) eq by auto
  qed
  have xcf: "\<exists>h cs. snd (load_xcf hw addr d) = d\<lparr>spi := h, calls := cs @ calls d\<rparr> \<and> (\<forall>c \<in> set cs. \<exists>b. c = Board b)" for addr
    by (intro exI [of _ "spi d"] exI [of _ "[Board (XCF_read addr XCF_DATA_ALLOC_SIZE)]"]) (simp add: note_call_def)
  have spi: "\<exists>h cs. snd (load_spi hw start addr d) = d\<lparr>spi := h, calls := cs @ calls d\<rparr> \<and> (\<forall>c \<in> set cs. \<exists>b. c = Board b)" for start addr
    by (intro exI [of _ "snd (run_state (flash_fastread (hw_spi hw) (addr + of_nat start) FLASH_DATA_ALLOC_SIZE) (spi d))"]
        exI [of _ "[]"]) simp
  show ?thesis
    using assms(1)
  proof (rule board_type_cases)
    assume t: "devtype d = 1"
    show ?thesis by (rule page [where load = "load_xcf hw", OF _ _ xcf]) (simp_all add: read_flash_def has_type_def type_defs t page_size_def)
  next
    assume t: "devtype d = 2"
    show ?thesis by (rule page [where load = "load_spi hw 0", OF _ _ spi]) (simp_all add: read_flash_def has_type_def type_defs t page_size_def)
  next
    assume t: "devtype d = 8"
    show ?thesis by (rule page [where load = "load_spi hw FLASH_SECTOR_PRIMARY_START", OF _ _ spi]) (simp_all add: read_flash_def has_type_def type_defs t page_size_def)
  next
    assume t: "devtype d = 16"
    show ?thesis by (rule page [where load = "load_spi hw FLASH_SECTOR_PRIMARY_START", OF _ _ spi]) (simp_all add: read_flash_def has_type_def type_defs t page_size_def)
  next
    assume t: "devtype d = 32"
    show ?thesis by (rule page [where load = "load_spi hw 0", OF _ _ spi]) (simp_all add: read_flash_def has_type_def type_defs t page_size_def)
  qed (use False in \<open>simp add: type_defs\<close>)
qed

lemma ev_read_ok:
  assumes "dev_inv (d, files)" "files \<noteq> []" "access_mode d \<noteq> O_WRONLY" "sane f_pos count"
  shows "\<exists>r bytes pos d'. ev_read hw interrupted a count f_pos d = Some (r, bytes, pos, d') \<and> dev_inv (d', files)"
proof (cases interrupted)
  case True
  then show ?thesis using assms(1) by (simp add: ev_read_def)
next
  case False
  have t: "board_type (devtype d)" and ok: "access_ok files d" and size: "0 \<le> eeprom_data_size d"
    "eeprom_data_size d \<le> int EEPROM_DATA_ALLOC_SIZE" and irqs: "interrupts_ok files d"
    using assms(1) by (simp_all add: dev_inv_def)
  have same: ?thesis if "\<exists>r bytes pos. ev_read hw interrupted a count f_pos d = Some (r, bytes, pos, d)" using that assms(1) by blast
  obtain m where m: "m \<in> set files" using assms(2) by (cases files) auto
  from ok m show ?thesis
  proof (rule access_okE)
    assume f: "files = [DEVICE_EEPROM]" and o: "eeprom_open d"
    obtain b where b: "eeprom_data d = Some b" "length b = EEPROM_DATA_ALLOC_SIZE" using o by (auto simp: eeprom_open_def buffers_def)
    have "ev_read hw interrupted a count f_pos d = read_sized a count f_pos (eeprom_data d) (eeprom_data_size d) d"
      using False o t by (simp add: ev_read_def eeprom_open_def has_type_bridged)
    then show ?thesis
      using read_sized_ok [OF assms(4), of "eeprom_data_size d" b a d] size b by (intro same) (simp add: EEPROM_DATA_ALLOC_SIZE_def)
  next
    assume f: "files = [DEVICE_FLASH]" and o: "flash_open d"
    have "ev_read hw interrupted a count f_pos d = read_flash hw a count f_pos d"
      using False o by (simp add: ev_read_def flash_open_def minor_defs)
    moreover obtain r bytes pos d' where "read_flash hw a count f_pos d = Some (r, bytes, pos, d')"
      "devtype d' = devtype d" "eeprom_data_size d' = eeprom_data_size d" "flash_open d'" "interrupts_ok [DEVICE_FLASH] d'"
      using read_flash_ok [OF t o assms(3,4), where hw = hw and a = a] irqs f by blast
    ultimately show ?thesis using t size f by (simp add: dev_inv_def access_ok_def)
  next
    assume f: "files = [DEVICE_FPGA]" and o: "fpga_open d"
    obtain b where b: "fpga_conf_data d = Some b" "length b = FPGA_DATA_ALLOC_SIZE" using o by (auto simp: fpga_open_def buffers_def)
    have "ev_read hw interrupted a count f_pos d = read_sized a count f_pos (fpga_conf_data d) (fpga_conf_size d) d"
      using False o t by (simp add: ev_read_def fpga_open_def has_type_bridged minor_defs read_fpga_def)
    then show ?thesis
      using read_sized_ok [OF assms(4), of "fpga_conf_size d" b a d] o b assms(3)
      by (intro same) (auto simp: FPGA_DATA_ALLOC_SIZE_def fpga_open_def)
  next
    fix n assume "ev_open_times (Suc n) d"
    then show ?thesis using False by (intro same) (simp add: ev_read_def ev_open_times_def minor_defs)
  qed
qed

lemma stores_xcf: "stores XCF_DATA_ALLOC_SIZE (store_xcf hw)"
  unfolding stores_def
proof (intro allI impI, elim conjE)
  fix d :: mrf_dev and b assume "xcf_data d = Some b"
  then show "\<exists>h cs. store_xcf hw d = Some (d\<lparr>spi := h, calls := cs @ calls d\<rparr>) \<and> (\<forall>c \<in> set cs. \<exists>b. c = Board b)"
    by (intro exI [of _ "spi d"] exI [of _ "[Board (XCF_write b (xcf_data_pos d) XCF_DATA_ALLOC_SIZE)]"])
      (simp add: store_xcf_def note_call_def)
qed

lemma stores_spi: "stores FLASH_DATA_ALLOC_SIZE (program_buffer hw start)"
  unfolding stores_def
proof (intro allI impI, elim conjE)
  fix d :: mrf_dev and b assume *: "xcf_data d = Some b" "length b = FLASH_DATA_ALLOC_SIZE"
  let ?m = "flash_pageprogram (hw_spi hw) b (word_of_int (xcf_data_pos d + start)) FLASH_DATA_ALLOC_SIZE"
  show "\<exists>h cs. program_buffer hw start d = Some (d\<lparr>spi := h, calls := cs @ calls d\<rparr>) \<and> (\<forall>c \<in> set cs. \<exists>b. c = Board b)"
    using * by (intro exI [of _ "snd (run_state ?m (spi d))"] exI [of _ "[]"]) (simp add: program_buffer_def)
qed

lemma write_flash_ok:
  assumes "board_type (devtype d)" "flash_open d" "access_mode d \<noteq> O_RDONLY" "sane f_pos count" "int (length bytes) < 2 ^ 63"
    "interrupts_ok [DEVICE_FLASH] d"
  shows "\<exists>r pos d'. write_flash hw bytes count f_pos d = Some (r, pos, d')
    \<and> devtype d' = devtype d \<and> eeprom_data_size d' = eeprom_data_size d \<and> flash_open d' \<and> interrupts_ok [DEVICE_FLASH] d'"
proof (cases "devtype d = MRF_DEVTYPE_V5_PCIE")
  case True
  then have "write_flash hw bytes count f_pos d = Some (- ENOMEM, f_pos, d)"
    by (simp add: write_flash_def write_fpga_def has_type_def type_defs)
  then show ?thesis using assms by blast
next
  case False
  have mode: "access_mode d = O_WRONLY" using assms(2,3) by (auto simp: flash_open_def)
  obtain b where b: "xcf_data d = Some b" "length b = page_size (devtype d)"
    using assms(2) False by (auto simp: flash_open_def buffers_def flash_buffer_def)
  have pos: "0 \<le> xcf_data_pos d" "xcf_data_pos d mod int (page_size (devtype d)) = 0"
    using assms(2) False mode by (simp_all add: flash_open_def)
  obtain n where n: "n \<le> 10" "page_size (devtype d) = 2 ^ n" using page_size_exp by blast
  have page: ?thesis
    if eq: "write_flash hw bytes count f_pos d = write_paged (page_size (devtype d)) store bytes count f_pos d"
      and st: "stores (page_size (devtype d)) store" for store
  proof -
    obtain r p d' where r: "write_paged (page_size (devtype d)) store bytes count f_pos d = Some (r, p, d')"
      "page_written (page_size (devtype d)) d d'"
      using write_paged_ok [OF assms(4) n(2,1) b pos assms(5) st] by blast
    obtain b q h cs where d': "d' = d\<lparr>xcf_data := Some b, xcf_data_pos := q, spi := h, calls := cs @ calls d\<rparr>"
      "length b = page_size (devtype d)" "0 \<le> q" "q mod int (page_size (devtype d)) = 0" "\<forall>c \<in> set cs. \<exists>b. c = Board b"
      using r(2) unfolding page_written_def by (elim exE conjE) (rule that)
    have "flash_open d'"
      using assms(2) False d'(2-4) unfolding d'(1) by (simp add: flash_open_def buffers_def flash_buffer_def)
    moreover have "interrupts_ok [DEVICE_FLASH] d'"
      using assms(6) d'(5) unfolding d'(1) by (simp add: interrupts_ok_def count_list_boards)
    ultimately show ?thesis using r(1) eq d'(1) by simp
  qed
  show ?thesis
    using assms(1)
  proof (rule board_type_cases)
    assume t: "devtype d = 1"
    have "page_size (devtype d) = XCF_DATA_ALLOC_SIZE" by (simp add: t page_size_def type_defs)
    then show ?thesis by (intro page [where store = "store_xcf hw"]) (simp_all add: write_flash_def has_type_def type_defs t stores_xcf)
  next
    assume t: "devtype d = 2"
    have "page_size (devtype d) = FLASH_DATA_ALLOC_SIZE" by (simp add: t page_size_def type_defs)
    then show ?thesis by (intro page [where store = "program_buffer hw 0"]) (simp_all add: write_flash_def has_type_def type_defs t stores_spi)
  next
    assume t: "devtype d = 8"
    have "page_size (devtype d) = FLASH_DATA_ALLOC_SIZE" by (simp add: t page_size_def type_defs)
    then show ?thesis by (intro page [where store = "program_buffer hw (int FLASH_SECTOR_PRIMARY_START)"])
        (simp_all add: write_flash_def has_type_def type_defs t stores_spi)
  next
    assume t: "devtype d = 16"
    have "page_size (devtype d) = FLASH_DATA_ALLOC_SIZE" by (simp add: t page_size_def type_defs)
    then show ?thesis by (intro page [where store = "program_buffer hw (int FLASH_SECTOR_PRIMARY_START)"])
        (simp_all add: write_flash_def has_type_def type_defs t stores_spi)
  next
    assume t: "devtype d = 32"
    have "page_size (devtype d) = FLASH_DATA_ALLOC_SIZE" by (simp add: t page_size_def type_defs)
    then show ?thesis by (intro page [where store = "program_buffer hw 0"]) (simp_all add: write_flash_def has_type_def type_defs t stores_spi)
  qed (use False in \<open>simp add: type_defs\<close>)
qed

lemma load_fpga_bytes_calls:
  "\<exists>cs. load_fpga_bytes hw bytes d = d\<lparr>calls := cs @ calls d\<rparr> \<and> (\<forall>c \<in> set cs. \<exists>b. c = Board b)"
proof (induction bytes arbitrary: d)
  case (Cons x bytes)
  let ?c = "Board (if has_type d MRF_DEVTYPE_V2P_9030 then Load_fpga_byte_9030 x else Load_fpga_byte_9056 x)"
  obtain cs where cs: "load_fpga_bytes hw bytes (note_call ?c d) = (note_call ?c d)\<lparr>calls := cs @ calls (note_call ?c d)\<rparr>"
    "\<forall>c \<in> set cs. \<exists>b. c = Board b" using Cons by blast
  then show ?case
    by (intro exI [of _ "cs @ [?c]"]) (auto simp: note_call_def)
qed (auto intro: exI [of _ "[]"])

lemma copy_from_user_ok:
  assumes "0 \<le> offset" "0 \<le> count" "offset + count \<le> int (length buffer)"
  shows "copy_from_user bytes buffer offset count = Some None
    \<or> (\<exists>b. copy_from_user bytes buffer offset count = Some (Some b) \<and> length b = length buffer)"
  using assms by (auto simp: copy_from_user_def)

lemma ev_write_ok:
  assumes "dev_inv (d, files)" "files \<noteq> []" "access_mode d \<noteq> O_RDONLY" "sane f_pos count" "int (length bytes) < 2 ^ 63"
  shows "\<exists>r pos d'. ev_write hw interrupted bytes count f_pos d = Some (r, pos, d') \<and> dev_inv (d', files)"
proof (cases interrupted)
  case True
  then show ?thesis using assms(1) by (simp add: ev_write_def)
next
  case False
  have t: "board_type (devtype d)" and ok: "access_ok files d" and size: "0 \<le> eeprom_data_size d"
    "eeprom_data_size d \<le> int EEPROM_DATA_ALLOC_SIZE" and irqs: "interrupts_ok files d"
    using assms(1) by (simp_all add: dev_inv_def)
  have same: ?thesis if "\<exists>r pos. ev_write hw interrupted bytes count f_pos d = Some (r, pos, d)" using that assms(1) by blast
  obtain m where m: "m \<in> set files" using assms(2) by (cases files) auto
  from ok m show ?thesis
  proof (rule access_okE)
    assume f: "files = [DEVICE_EEPROM]" and o: "eeprom_open d"
    obtain b where b: "eeprom_data d = Some b" "length b = EEPROM_DATA_ALLOC_SIZE" using o by (auto simp: eeprom_open_def buffers_def)
    have eq: "ev_write hw interrupted bytes count f_pos d = write_eeprom bytes count f_pos d"
      using False o t by (simp add: ev_write_def eeprom_open_def has_type_bridged)
    show ?thesis
    proof (cases "f_pos > int EEPROM_DATA_ALLOC_SIZE - 1")
      case True
      then show ?thesis using eq by (intro same) (simp add: write_eeprom_def)
    next
      case near: False
      define k where "k = limit_count f_pos count (int EEPROM_DATA_ALLOC_SIZE - 1)"
      have k: "0 \<le> k" "f_pos + k \<le> int EEPROM_DATA_ALLOC_SIZE - 1"
        using near assms(4) by (simp_all add: k_def limit_count_min EEPROM_DATA_ALLOC_SIZE_def sane_def)
      have f0: "0 \<le> f_pos" using assms(4) by (simp add: sane_def)
      have to_int: "to_int (f_pos + k) = f_pos + k" using k f0 by (intro to_int_id) (simp_all add: EEPROM_DATA_ALLOC_SIZE_def)
      from copy_from_user_ok [OF f0 k(1), of b bytes] k(2) b(2)
      consider "copy_from_user bytes b f_pos k = Some None"
        | b' where "copy_from_user bytes b f_pos k = Some (Some b')" "length b' = EEPROM_DATA_ALLOC_SIZE" by auto
      then show ?thesis
      proof cases
        case 1
        then show ?thesis using eq near b(1) by (intro same) (simp add: write_eeprom_def Let_def flip: k_def)
      next
        case 2
        have "dev_inv (d\<lparr>eeprom_data := Some b', eeprom_data_size := f_pos + k\<rparr>, files)"
          using assms(1) f o 2(2) b k f0 by (simp add: inv_defs eeprom_open_def minor_defs)
        then show ?thesis using eq near b(1) 2(1) to_int by (simp add: write_eeprom_def Let_def flip: k_def)
      qed
    qed
  next
    assume f: "files = [DEVICE_FLASH]" and o: "flash_open d"
    have "ev_write hw interrupted bytes count f_pos d = write_flash hw bytes count f_pos d"
      using False o by (simp add: ev_write_def flash_open_def minor_defs)
    moreover obtain r pos d' where "write_flash hw bytes count f_pos d = Some (r, pos, d')"
      "devtype d' = devtype d" "eeprom_data_size d' = eeprom_data_size d" "flash_open d'" "interrupts_ok [DEVICE_FLASH] d'"
      using write_flash_ok [OF t o assms(3-5), where hw = hw] irqs f by blast
    ultimately show ?thesis using t size f by (simp add: dev_inv_def access_ok_def)
  next
    assume f: "files = [DEVICE_FPGA]" and o: "fpga_open d"
    obtain b where b: "fpga_conf_data d = Some b" "length b = FPGA_DATA_ALLOC_SIZE" using o by (auto simp: fpga_open_def buffers_def)
    have eq: "ev_write hw interrupted bytes count f_pos d = write_fpga hw bytes count f_pos d"
      using False o t by (simp add: ev_write_def fpga_open_def minor_defs)
    have bridge: "has_type d (MRF_DEVTYPE_V2P_9030 OR MRF_DEVTYPE_V5_9056)" using o t by (simp add: has_type_bridged fpga_open_def)
    define k where "k = (if count > int FPGA_DATA_ALLOC_SIZE - 1 then int FPGA_DATA_ALLOC_SIZE - 1 else count)"
    have k: "0 \<le> k" "0 + k \<le> int (length b)" using assms(4) b(2) by (simp_all add: k_def sane_def FPGA_DATA_ALLOC_SIZE_def)
    from copy_from_user_ok [OF order_refl k, of bytes] b(2)
    consider "copy_from_user bytes b 0 k = Some None"
      | b' where "copy_from_user bytes b 0 k = Some (Some b')" "length b' = FPGA_DATA_ALLOC_SIZE" by auto
    then show ?thesis
    proof cases
      case 1
      then show ?thesis using eq b(1) bridge by (intro same) (simp add: write_fpga_def Let_def flip: k_def)
    next
      case 2
      let ?e = "d\<lparr>fpga_conf_data := Some b', fpga_conf_size := to_int (f_pos + k)\<rparr>"
      obtain cs where cs: "load_fpga_bytes hw (take (nat k) b') ?e = ?e\<lparr>calls := cs @ calls ?e\<rparr>" "\<forall>c \<in> set cs. \<exists>b. c = Board b"
        using load_fpga_bytes_calls by blast
      have "dev_inv (?e\<lparr>calls := cs @ calls ?e\<rparr>, files)"
        using assms(1,3) f o 2(2) b cs(2) by (simp add: inv_defs fpga_open_def minor_defs count_list_boards)
      moreover have "ev_write hw interrupted bytes count f_pos d = Some (k, f_pos + k, ?e\<lparr>calls := cs @ calls ?e\<rparr>)"
        using eq b(1) bridge 2(1) cs(1) by (simp add: write_fpga_def Let_def flip: k_def)
      ultimately show ?thesis by blast
    qed
  next
    fix n assume "ev_open_times (Suc n) d"
    then show ?thesis using False by (intro same) (simp add: ev_write_def ev_open_times_def minor_defs)
  qed
qed

section \<open>Runs\<close>

text \<open>
  What processes do: opening a minor device, closing one of the files, reading, writing, and control, and
  interrupts of the device. The second component of the state are the minor numbers of the open files.
\<close>

datatype dev_op = Open bool int int | Close int | Read bool int int int | Write bool "u8 list" int int
  | Control bool u32 | Interrupt u32 u32

fun perform :: "hardware \<Rightarrow> dev_op \<Rightarrow> mrf_dev \<times> int list \<Rightarrow> (mrf_dev \<times> int list) option" where
  "perform hw (Open interrupted minor flags) (d, files) =
     map_option (\<lambda>(r, d'). (d', if r = 0 then minor # files else files)) (ev_open hw interrupted minor flags d)"
| "perform hw (Close minor) (d, files) = map_option (\<lambda>(r, d'). (d', remove1 minor files)) (ev_release hw False d)"
| "perform hw (Read interrupted accessible count f_pos) (d, files) =
     map_option (\<lambda>(r, bytes, pos, d'). (d', files)) (ev_read hw interrupted accessible count f_pos d)"
| "perform hw (Write interrupted bytes count f_pos) (d, files) =
     map_option (\<lambda>(r, pos, d'). (d', files)) (ev_write hw interrupted bytes count f_pos d)"
| "perform hw (Control ok cmd) (d, files) = Some (snd (ev_unlocked_ioctl ok cmd d), files)"
| "perform hw (Interrupt intcsr_value irq_flag) (d, files) = Some (snd (ev_interrupt intcsr_value irq_flag d), files)"

text \<open>
  What the driver expects of the processes: nothing is opened while the EEPROM is open, the first three
  devices are opened for reading or for writing, and what is read or written fits to that; the kernel
  bounds positions and numbers of bytes.
\<close>

fun permitted :: "dev_op \<Rightarrow> mrf_dev \<times> int list \<Rightarrow> bool" where
  "permitted (Open interrupted minor flags) (d, files) \<longleftrightarrow>
     DEVICE_EEPROM \<notin> set files \<and> (minor = DEVICE_EV \<or> flags = O_RDONLY \<or> flags = O_WRONLY)"
| "permitted (Close minor) (d, files) \<longleftrightarrow> minor \<in> set files"
| "permitted (Read interrupted accessible count f_pos) (d, files) \<longleftrightarrow>
     files \<noteq> [] \<and> access_mode d \<noteq> O_WRONLY \<and> sane f_pos count"
| "permitted (Write interrupted bytes count f_pos) (d, files) \<longleftrightarrow>
     files \<noteq> [] \<and> access_mode d \<noteq> O_RDONLY \<and> sane f_pos count \<and> int (length bytes) < 2 ^ 63"
| "permitted (Control ok cmd) (d, files) \<longleftrightarrow> files \<noteq> []"
| "permitted (Interrupt intcsr_value irq_flag) (d, files) \<longleftrightarrow> True"

fun run :: "hardware \<Rightarrow> dev_op list \<Rightarrow> mrf_dev \<times> int list \<Rightarrow> (mrf_dev \<times> int list) option" where
  "run hw [] s = Some s"
| "run hw (op # ops) s = (case perform hw op s of None \<Rightarrow> None | Some s' \<Rightarrow> run hw ops s')"

fun all_permitted :: "hardware \<Rightarrow> dev_op list \<Rightarrow> mrf_dev \<times> int list \<Rightarrow> bool" where
  "all_permitted hw [] s \<longleftrightarrow> True"
| "all_permitted hw (op # ops) s \<longleftrightarrow>
     permitted op s \<and> (case perform hw op s of None \<Rightarrow> True | Some s' \<Rightarrow> all_permitted hw ops s')"

lemma dev_inv_same:
  assumes "dev_inv (d, files)" "access_mode e = access_mode d" "access_device e = access_device d" "refcount_ev e = refcount_ev d"
    "eeprom_data e = eeprom_data d" "eeprom_data_size e = eeprom_data_size d" "xcf_data e = xcf_data d"
    "xcf_data_pos e = xcf_data_pos d" "fpga_conf_data e = fpga_conf_data d" "fpga_conf_size e = fpga_conf_size d"
    "devtype e = devtype d" "allocated e = allocated d" "count_list (calls e) Request_irq = count_list (calls d) Request_irq"
    "count_list (calls e) Free_irq = count_list (calls d) Free_irq"
  shows "dev_inv (e, files)"
  using assms(1) unfolding inv_defs idle_def eeprom_open_def flash_open_def fpga_open_def ev_open_times_def prod.case assms(2-) .

lemma dev_inv_irq:
  assumes "dev_inv (d, files)"
  shows "dev_inv (board_irq_enable d, files)" "dev_inv (note_call Kill_fasync (board_irq_disable d), files)"
  by (rule dev_inv_same [OF assms]; simp)+

lemma perform_ok:
  assumes "hardware_ok hw" "dev_inv s" "permitted op s"
  shows "\<exists>s'. perform hw op s = Some s' \<and> dev_inv s'"
proof -
  obtain d files where s: "s = (d, files)" by (cases s)
  show ?thesis
  proof (cases op)
    case (Open i minor flags)
    then obtain r d' where "ev_open hw i minor flags d = Some (r, d')" "dev_inv (d', if r = 0 then minor # files else files)"
      using ev_open_ok [OF assms(1), of d files minor flags i] assms(2,3) s by auto
    then show ?thesis using s Open by simp
  next
    case (Close m)
    then show ?thesis using ev_release_ok [of d files m hw] assms(2,3) s by auto
  next
    case (Read i a count pos)
    then show ?thesis using ev_read_ok [of d files pos count hw i a] assms(2,3) s by auto
  next
    case (Write i bytes count pos)
    then show ?thesis using ev_write_ok [of d files pos count bytes hw i] assms(2,3) s by auto
  next
    case (Control ok cmd)
    then show ?thesis using dev_inv_irq(1) [of d files] assms(2) s by (simp add: ev_unlocked_ioctl_def)
  next
    case (Interrupt v f)
    then show ?thesis using dev_inv_irq(2) [of d files] assms(2) s by (simp add: ev_interrupt_def Let_def)
  qed
qed

lemma run_ok:
  "hardware_ok hw \<Longrightarrow> dev_inv s \<Longrightarrow> all_permitted hw ops s \<Longrightarrow> \<exists>s'. run hw ops s = Some s' \<and> dev_inv s'"
proof (induction ops arbitrary: s)
  case (Cons op ops)
  then obtain s' where "perform hw op s = Some s'" "dev_inv s'" using perform_ok [of hw s op] by auto
  with Cons show ?case by simp
qed simp

text \<open>A device after the module is loaded: the memory of the state is cleared.\<close>

definition new_device :: "u32 \<Rightarrow> mrf_dev" where
  "new_device t = \<lparr>access_mode = 0, access_device = 0, refcount_ev = 0, eeprom_data = None, eeprom_data_size = 0,
     xcf_data = None, xcf_data_pos = 0, fpga_conf_data = None, fpga_conf_size = 0, devtype = t, BAR_start = [], BAR_end = [],
     fw_version = 0, spi = [], intcsr = 0, irq_enable = 0, mirq_enable = 0, calls = [], allocated = 0\<rparr>"

lemma new_device_inv: "board_type t \<Longrightarrow> dev_inv (new_device t, [])"
  by (simp add: inv_defs idle_def new_device_def minor_defs)

section \<open>Properties\<close>


text \<open>A board that answers each call with success, and a session with two of its devices.\<close>

definition example_hardware :: hardware where
  "example_hardware = \<lparr>hw_spi = ready_example, hw_board = \<lambda>cs c. (0, []), hw_kmalloc = True\<rparr>"

definition example_session :: "dev_op list" where
  "example_session = [Open False 3 2, Open False 1 0, Open False 3 2, Interrupt 0 0x40000000, Close 3, Close 3,
     Open False 1 0, Open False 3 2]"


text \<open>
  On a board without a bridge, trying to open the third minor device, which the board does not support,
  fails, but notes that the device is open: after that, every attempt to open any of the minor devices
  fails, although nothing is open.
\<close>

lemma unsupported_open_locks:
  assumes "board_type (devtype d)" "\<not> bridged (devtype d)" "access_device d = 0"
  shows "\<exists>d'. ev_open hw False DEVICE_FPGA flags d = Some (- ENXIO, d') \<and> allocated d' = allocated d
    \<and> refcount_ev d' = refcount_ev d \<and> ev_open hw False minor flags' d' = Some (- EPERM, d')"
proof -
  let ?d = "d\<lparr>access_mode := flags, access_device := DEVICE_FPGA\<rparr>"
  have "has_type ?d (MRF_DEVTYPE_V2P_9030 OR MRF_DEVTYPE_V5_9056) = False"
    using has_type_bridged [of ?d] assms(1,2) by simp
  then have "ev_open hw False DEVICE_FPGA flags d = Some (- ENXIO, ?d)"
    using assms(3) by (simp add: ev_open_def already_open_def open_fpga_def minor_defs)
  moreover have "ev_open hw False minor flags' ?d = Some (- EPERM, ?d)"
    by (simp add: ev_open_def already_open_def minor_defs)
  ultimately show ?thesis by (intro exI [of _ ?d]) simp
qed

lemma unsupported_open_locks_witness:
  "\<exists>d'. ev_open example_hardware False 2 0 (new_device MRF_DEVTYPE_K7_PCIE) = Some (-6, d')
     \<and> ev_open example_hardware False 3 2 d' = Some (-1, d')"
proof -
  have "board_type (devtype (new_device MRF_DEVTYPE_K7_PCIE))" "\<not> bridged (devtype (new_device MRF_DEVTYPE_K7_PCIE))"
    "access_device (new_device MRF_DEVTYPE_K7_PCIE) = 0"
    by (simp_all add: new_device_def board_type_def bridged_def type_defs)
  from unsupported_open_locks [OF this, of example_hardware 0 3 2] show ?thesis
    by (auto simp: minor_defs ENXIO_def EPERM_def)
qed

text \<open>
  The number of the EEPROM is the one that stands for no open device: it can be opened a second time, and
  the first of the two buffers is never freed.
\<close>

lemma eeprom_opened_twice:
  assumes "hardware_ok hw" "board_type (devtype d)" "bridged (devtype d)" "access_device d = 0"
  shows "\<exists>d1 d2 b. ev_open hw False DEVICE_EEPROM O_WRONLY d = Some (0, d1)
    \<and> ev_open hw False DEVICE_EEPROM O_WRONLY d1 = Some (0, d2)
    \<and> allocated d2 = allocated d + 2 \<and> eeprom_data d2 = Some b"
proof -
  let ?b = "replicate EEPROM_DATA_ALLOC_SIZE (0 :: u8)"
  have opens: "ev_open hw False DEVICE_EEPROM O_WRONLY e = Some (0, e\<lparr>access_mode := O_WRONLY, access_device := DEVICE_EEPROM,
      allocated := allocated e + 1, eeprom_data := Some ?b\<rparr>)" if "devtype e = devtype d" "access_device e = 0" for e
  proof -
    let ?e = "e\<lparr>access_mode := O_WRONLY, access_device := DEVICE_EEPROM\<rparr>"
    have "has_type ?e (MRF_DEVTYPE_V2P_9030 OR MRF_DEVTYPE_V5_9056)"
      using has_type_bridged [of ?e] assms(2,3) that by simp
    then show ?thesis
      using that assms(1) by (simp add: ev_open_def already_open_def minor_defs open_eeprom_def kmalloc_ok Let_def
          O_RDONLY_def O_WRONLY_def)
  qed
  let ?d1 = "d\<lparr>access_mode := O_WRONLY, access_device := DEVICE_EEPROM, allocated := allocated d + 1, eeprom_data := Some ?b\<rparr>"
  show ?thesis
    using opens [of d] opens [of ?d1] assms(4) by (auto simp: minor_defs)
qed

text \<open>
  Only the size of a mapping is compared with the size of the memory of the board: a mapping with an offset
  reaches beyond its end.
\<close>

lemma mmap_beyond_bar:
  "ev_remap_mmap True 0x10000 0x10000 (new_device 0x20\<lparr>access_device := DEVICE_EV, BAR_start := [0x100000], BAR_end := [0x10FFFF]\<rparr>)
    = (0, Some (0x110000, 0x10000))"
  by (simp add: ev_remap_mmap_def mmap_bar_def new_device_def minor_defs has_type_def type_defs)

text \<open>
  Reading the flash memory at a position of two gigabytes or more: the position of the page becomes
  negative, the number of bytes is not limited, and the copy leaves the buffer.
\<close>

lemma read_beyond_int:
  assumes "xcf_data d = Some (replicate 256 0)" "xcf_data_pos d = 0"
    "\<And>addr d. xcf_data (snd (load addr d)) = xcf_data d"
  shows "read_paged 256 load 4096 4096 (2 ^ 31) d = None"
proof -
  have page: "page_of 256 (2 ^ 31) = 2 ^ 31" "(2 ^ 31 :: int) AND (int 256 - 1) = 0"
    by (simp_all add: page_of_def)
  have to_int: "to_int (2 ^ 31) = - (2 ^ 31)" "to_int (256 - 2 ^ 31) = 256 - 2 ^ 31" by code_simp+
  obtain bytes e where e: "load (word_of_int (2 ^ 31)) d = (bytes, e)" by (cases "load (word_of_int (2 ^ 31)) d")
  then have "xcf_data e = Some (replicate 256 0)" using assms(3) [of "word_of_int (2 ^ 31)" d] assms(1) by simp
  moreover have "limit_count (2 ^ 31) 4096 (256 - 2 ^ 31) = 4096" by code_simp
  ultimately show ?thesis
    unfolding read_paged_def Let_def page assms(2) e prod.case
    by (simp add: to_int [simplified] e page [simplified] finish_read_def copy_to_user_def)
qed

end
