(* ===== verification/KernelDevice_Flash.thy ===== *)
theory KernelDevice_Flash
  imports KernelDevice_Props
begin

text \<open>
  The flash memory as a file: what a process writes from the start is programmed page by page, with the last
  page filled up, and what it reads is what the flash memory gives, apart from a page that the driver
  takes for one it has read already.
\<close>

section \<open>Boards with a flash memory on the SPI bus\<close>

definition spi_board :: "u32 \<Rightarrow> bool" where
  "spi_board t \<longleftrightarrow> board_type t \<and> t \<noteq> MRF_DEVTYPE_V2P_9030 \<and> t \<noteq> MRF_DEVTYPE_V5_PCIE"

text \<open>The address of the first byte of the file in the flash memory.\<close>

definition spi_start :: "u32 \<Rightarrow> nat" where
  "spi_start t = (if t = MRF_DEVTYPE_ECP3_PCI \<or> t = MRF_DEVTYPE_ECP3_PCIE then FLASH_SECTOR_PRIMARY_START else 0)"

lemma spi_board_cases:
  assumes "spi_board (devtype d)"
  obtains "devtype d = 2" | "devtype d = 8" | "devtype d = 16" | "devtype d = 32"
  using assms by (auto simp: spi_board_def board_type_def type_defs)

lemma spi_board_operations:
  assumes "spi_board (devtype d)"
  shows "read_flash hw a count f_pos d = read_paged 256 (load_spi hw (spi_start (devtype d))) a count f_pos d"
    "write_flash hw bytes count f_pos d = write_paged 256 (program_buffer hw (int (spi_start (devtype d)))) bytes count f_pos d"
    "release_flash hw d = map_option (\<lambda>d. (0, close_access d)) (release_spi hw (int (spi_start (devtype d))) d)"
  using assms by (rule spi_board_cases; simp add: read_flash_def write_flash_def release_flash_def has_type_def type_defs
      spi_start_def FLASH_DATA_ALLOC_SIZE_def release_spi_def program_buffer_def on_flash_def close_access_def free_xcf_def
      kfree_def split: option.splits prod.splits)+

section \<open>Writing\<close>

text \<open>Programming pages one after the other, and the pages of a file: the last one is filled up, with zeros if it is the only one.\<close>

fun program_pages :: "spi_device \<Rightarrow> int \<Rightarrow> u8 list list \<Rightarrow> spi_event list \<Rightarrow> spi_event list" where
  "program_pages dev addr [] h = h"
| "program_pages dev addr (p # ps) h =
     program_pages dev (addr + 256) ps (snd (run_state (flash_pageprogram dev p (word_of_int addr) 256) h))"

function flash_pages :: "u8 \<Rightarrow> u8 list \<Rightarrow> u8 list list" where
  "flash_pages b data =
     (if length data < 256 then [data @ replicate (256 - length data) b]
      else take 256 data # flash_pages 0xff (drop 256 data))"
  by pat_completeness auto
termination by (relation "measure (\<lambda>(b, data). length data)") auto

declare flash_pages.simps [simp del]

definition page_list :: "nat \<Rightarrow> u8 list \<Rightarrow> u8 list list" where
  "page_list n data = map (\<lambda>i. take 256 (drop (256 * i) data)) [0..<n]"

definition rest_page :: "u8 \<Rightarrow> u8 list \<Rightarrow> u8 list" where
  "rest_page b data = (let n = length data div 256 in
     drop (256 * n) data @ replicate (256 - length data mod 256) (if n = 0 then b else 0xff))"

lemma program_pages_append:
  "program_pages dev addr (ps @ [p]) h =
     snd (run_state (flash_pageprogram dev p (word_of_int (addr + 256 * int (length ps))) 256) (program_pages dev addr ps h))"
  by (induction ps arbitrary: addr h) (simp_all add: algebra_simps)

lemma page_list_Suc: "page_list (Suc n) data = take 256 data # page_list n (drop 256 data)"
proof -
  have "[0..<Suc n] = 0 # map Suc [0..<n]" by (simp add: map_Suc_upt upt_conv_Cons del: upt_Suc)
  then show ?thesis by (simp add: page_list_def comp_def add.commute del: upt_Suc)
qed

lemma flash_pages_eq: "flash_pages b data = page_list (length data div 256) data @ [rest_page b data]"
proof (induction b data rule: flash_pages.induct)
  case (1 b data)
  show ?case
  proof (cases "length data < 256")
    case True
    then show ?thesis by (simp add: flash_pages.simps [of b data] page_list_def rest_page_def)
  next
    case False
    then have n: "length data div 256 = Suc (length (drop 256 data) div 256)" by (simp add: div_if)
    moreover have "length data mod 256 = length (drop 256 data) mod 256" using False by (simp add: mod_if)
    moreover have "256 + 256 * (length (drop 256 data) div 256) = 256 * (length data div 256)" using n by simp
    ultimately have "rest_page b data = rest_page 0xff (drop 256 data)"
      by (simp add: rest_page_def Let_def add.commute)
    then show ?thesis using 1 [OF False] False by (simp add: flash_pages.simps [of b data] n page_list_Suc)
  qed
qed

text \<open>The state after the given data has been written from the start of the file.\<close>

definition written :: "hardware \<Rightarrow> int \<Rightarrow> spi_event list \<Rightarrow> u8 list \<Rightarrow> mrf_dev \<Rightarrow> bool" where
  "written hw start h data d \<longleftrightarrow> xcf_data_pos d = int (256 * (length data div 256)) \<and> xcf_data d = Some (rest_page 0 data)
     \<and> spi d = program_pages (hw_spi hw) start (page_list (length data div 256) data) h"

lemma length_rest_page [simp]: "length (rest_page b data) = 256"
proof -
  have "length data = 256 * (length data div 256) + length data mod 256" by simp
  then show ?thesis by (simp add: rest_page_def Let_def)
qed

lemma page_list_append: "256 * n \<le> length data \<Longrightarrow> page_list n (data @ bs) = page_list n data"
  unfolding page_list_def by (rule map_cong) auto

lemma write_step:
  assumes "written hw start h data d" "int (length data) < 2 ^ 31 - 1024" "int (length bytes) \<le> 2 ^ 31"
    and k: "k = min (length bytes) (256 - length data mod 256)"
  shows "\<exists>d'. write_paged 256 (program_buffer hw start) bytes (int (length bytes)) (int (length data)) d
      = Some (int k, int (length data + k), d')
    \<and> written hw start h (data @ take k bytes) d'
    \<and> devtype d' = devtype d \<and> access_device d' = access_device d \<and> access_mode d' = access_mode d"
proof -
  define n m where "n = length data div 256" and "m = length data mod 256"
  have nm: "length data = 256 * n + m" "m < 256" by (simp_all add: n_def m_def)
  have w: "xcf_data_pos d = int (256 * n)" "xcf_data d = Some (rest_page 0 data)"
    "spi d = program_pages (hw_spi hw) start (page_list n data) h"
    using assms(1) by (simp_all add: written_def n_def)
  define b where "b = (if n = 0 then 0 else 0xff :: u8)"
  have rest: "rest_page 0 data = drop (256 * n) data @ replicate (256 - m) b"
    by (simp add: rest_page_def Let_def n_def m_def b_def)
  have km: "k = min (length bytes) (256 - m)" using k by (simp only: m_def)
  then have kb: "k \<le> length bytes" "m + k \<le> 256" using nm(2) by simp_all
  have end_pos: "to_int (xcf_data_pos d + int 256) = int (256 * n) + 256"
    unfolding w(1) using assms(2) nm by (subst to_int_id) simp_all
  have "limit_count (int (length data)) (int (length bytes)) (int (256 * n) + 256) = min (int (length bytes)) (int (256 * n) + 256 - int (length data))"
    using assms(2,3) nm by (intro limit_count_min) (simp_all add: sane_def)
  also have "\<dots> = int k" using nm(2) unfolding km nm(1) by (auto simp: min_def)
  finally have limit: "limit_count (int (length data)) (int (length bytes)) (int (256 * n) + 256) = int k" .
  have offset: "int (length data) AND (int 256 - 1) = int m"
  proof -
    have "int (length data) AND (int 256 - 1) = int (length data) mod int 256" by (rule page_of_mod(2) [where n = 8]) simp
    then show ?thesis by (simp only: m_def zmod_int)
  qed
  let ?new = "data @ take k bytes"
  let ?buffer = "drop (256 * n) data @ take k bytes @ replicate (256 - (m + k)) b"
  have copy: "copy_from_user bytes (rest_page 0 data) (int m) (int k) = Some (Some ?buffer)"
    using kb nm rest by (simp add: copy_from_user_def)
  have len: "length ?buffer = 256" using kb nm by simp
  have pages: "page_list n ?new = page_list n data" using nm by (intro page_list_append) simp
  show ?thesis
  proof (cases "m + k = 256")
    case True
    let ?m = "flash_pageprogram (hw_spi hw) ?buffer (word_of_int (int (256 * n) + start)) 256"
    let ?d' = "d\<lparr>xcf_data := Some (replicate 256 0xff), spi := snd (run_state ?m (spi d)), xcf_data_pos := int (256 * n + 256)\<rparr>"
    have to_int: "to_int (int (length data + k)) = int (256 * n + 256)"
    proof -
      have "int (length data + k) = xcf_data_pos d + int 256" using True nm(1) unfolding w(1) by simp
      then show ?thesis using end_pos by simp
    qed
    have store: "program_buffer hw start (d\<lparr>xcf_data := Some ?buffer\<rparr>)
        = Some (d\<lparr>xcf_data := Some ?buffer, spi := snd (run_state ?m (spi d))\<rparr>)"
      using len w(1) by (simp add: program_buffer_def FLASH_DATA_ALLOC_SIZE_def del: of_nat_mult)
    have full: "int (length data) + int k - int (256 * n) = 256" using True nm(1) by simp
    have "write_paged 256 (program_buffer hw start) bytes (int (length bytes)) (int (length data)) d
        = Some (int k, int (length data + k), ?d')"
      unfolding write_paged_def w(2) option.case Let_def end_pos limit offset copy
      using w(1) nm(1) full store to_int by (simp del: of_nat_mult)
    moreover have "written hw start h ?new ?d'"
    proof -
      have l: "length ?new = 256 * Suc n" using True nm(1) kb by simp
      have "256 - m = k" using True by simp
      then have last_page: "take 256 (drop (256 * n) ?new) = ?buffer" using True nm(1) kb by simp
      have split_pages: "page_list (Suc n) ?new = page_list n data @ [?buffer]"
        using pages last_page by (simp add: page_list_def)
      have "program_pages (hw_spi hw) start (page_list (Suc n) ?new) h = snd (run_state ?m (spi d))"
        unfolding split_pages program_pages_append w(3) by (simp add: page_list_def add.commute)
      moreover have n': "length ?new div 256 = Suc n" "length ?new mod 256 = 0" unfolding l by simp_all
      moreover have "drop (256 * Suc n) ?new = []" by (rule drop_all) (simp only: l)
      then have "rest_page 0 ?new = replicate 256 0xff" unfolding rest_page_def Let_def n' by simp
      ultimately show ?thesis unfolding written_def by simp
    qed
    ultimately show ?thesis by (intro exI [of _ ?d']) simp
  next
    case False
    let ?d' = "d\<lparr>xcf_data := Some ?buffer\<rparr>"
    have part: "int (length data) + int k - int (256 * n) \<noteq> 256" using False nm(1) by linarith
    have "write_paged 256 (program_buffer hw start) bytes (int (length bytes)) (int (length data)) d
        = Some (int k, int (length data + k), ?d')"
      unfolding write_paged_def w(2) option.case Let_def end_pos limit offset copy
      using w(1) nm(1) part by (simp del: of_nat_mult)
    moreover have "written hw start h ?new ?d'"
    proof -
      have l: "length ?new = 256 * n + (m + k)" using nm(1) kb by simp
      have mk: "m + k < 256" using False kb by simp
      then have "length ?new div 256 = n" "length ?new mod 256 = m + k" unfolding l by simp_all
      then show ?thesis
        using w pages nm(1) by (simp add: written_def rest_page_def Let_def b_def del: length_append)
    qed
    ultimately show ?thesis by (intro exI [of _ ?d']) simp
  qed
qed

text \<open>Writing chunks one after the other from a position: the bytes that were accepted, the position and the state.\<close>

fun write_chunks :: "hardware \<Rightarrow> u8 list list \<Rightarrow> int \<Rightarrow> mrf_dev \<Rightarrow> (u8 list list \<times> int \<times> mrf_dev) option" where
  "write_chunks hw [] f_pos d = Some ([], f_pos, d)"
| "write_chunks hw (c # cs) f_pos d = (case ev_write hw False c (int (length c)) f_pos d of
     None \<Rightarrow> None
   | Some (k, f_pos, d) \<Rightarrow> map_option (apfst ((#) (take (nat k) c))) (write_chunks hw cs f_pos d))"

lemma open_for_writing:
  assumes "spi_board (devtype d)" "ev_open hw False DEVICE_FLASH O_WRONLY d = Some (0, d')"
  shows "written hw start (spi d') [] d' \<and> devtype d' = devtype d \<and> access_device d' = DEVICE_FLASH \<and> access_mode d' = O_WRONLY"
proof -
  let ?d = "d\<lparr>access_mode := O_WRONLY, access_device := DEVICE_FLASH\<rparr>"
  have "open_flash hw ?d = Some (0, d')"
    using assms(2) by (simp add: ev_open_def minor_defs EPERM_def split: if_splits)
  moreover have "\<exists>erase. open_flash hw ?d = open_spi hw erase ?d"
    using assms(1) by (rule spi_board_cases) (auto simp: open_flash_def has_type_def type_defs)
  ultimately obtain erase where "open_spi hw erase ?d = Some (0, d')" by auto
  then show ?thesis
    by (auto simp: open_spi_def kmalloc_def Let_def on_flash_def flash_open_failed_def written_def rest_page_def page_list_def
        FLASH_DATA_ALLOC_SIZE_def close_access_def split: if_splits prod.splits)
qed

text \<open>What is accepted: of each chunk the part that fits into the page that is being written, so something of each one that is not empty.\<close>

fun accepted :: "nat \<Rightarrow> u8 list list \<Rightarrow> u8 list list" where
  "accepted n [] = []"
| "accepted n (c # cs) = take (256 - n mod 256) c # accepted (n + length (take (256 - n mod 256) c)) cs"

lemma accepted_prefixes:
  "list_all2 (\<lambda>p c. prefix p c \<and> (c \<noteq> [] \<longrightarrow> p \<noteq> [])) (accepted n chunks) chunks"
proof (induction chunks arbitrary: n)
  case (Cons c cs)
  have "\<not> 256 \<le> n mod 256" by simp
  then show ?case using Cons by (simp add: take_is_prefix)
qed simp

lemma write_chunks_written:
  assumes "written hw (int (spi_start (devtype d))) h data d" "spi_board (devtype d)" "access_device d = DEVICE_FLASH"
    "int (length data) + int (length (concat chunks)) < 2 ^ 31 - 1024"
  shows "\<exists>d'. write_chunks hw chunks (int (length data)) d
      = Some (accepted (length data) chunks, int (length (data @ concat (accepted (length data) chunks))), d')
    \<and> written hw (int (spi_start (devtype d))) h (data @ concat (accepted (length data) chunks)) d'
    \<and> devtype d' = devtype d \<and> access_device d' = DEVICE_FLASH \<and> access_mode d' = access_mode d"
  using assms
proof (induction chunks arbitrary: data d)
  case (Cons c cs)
  define k where "k = min (length c) (256 - length data mod 256)"
  have bounds: "int (length data) < 2 ^ 31 - 1024" "int (length c) \<le> 2 ^ 31" using Cons.prems(4) by simp_all
  obtain d' where d': "write_paged 256 (program_buffer hw (int (spi_start (devtype d)))) c (int (length c)) (int (length data)) d
      = Some (int k, int (length data + k), d')" "written hw (int (spi_start (devtype d))) h (data @ take k c) d'"
    "devtype d' = devtype d" "access_device d' = access_device d" "access_mode d' = access_mode d"
    using write_step [OF Cons.prems(1) bounds k_def] by blast
  have step: "ev_write hw False c (int (length c)) (int (length data)) d = Some (int k, int (length data + k), d')"
    using d'(1) Cons.prems(2,3) by (simp add: ev_write_def minor_defs spi_board_operations)
  have k: "k \<le> length c" "take (256 - length data mod 256) c = take k c" by (simp_all add: k_def min_def)
  have len: "length (data @ take k c) = length data + k" using k(1) by simp
  have acc: "accepted (length data) (c # cs) = take k c # accepted (length (data @ take k c)) cs"
    unfolding accepted.simps k(2) by simp
  have "int (length (data @ take k c)) + int (length (concat cs)) < 2 ^ 31 - 1024"
    using Cons.prems(4) k(1) unfolding len by simp
  then obtain e where e: "write_chunks hw cs (int (length (data @ take k c))) d'
      = Some (accepted (length (data @ take k c)) cs, int (length ((data @ take k c) @ concat (accepted (length (data @ take k c)) cs))), e)"
    "written hw (int (spi_start (devtype d'))) h ((data @ take k c) @ concat (accepted (length (data @ take k c)) cs)) e"
    "devtype e = devtype d'" "access_device e = DEVICE_FLASH" "access_mode e = access_mode d'"
    using Cons.IH [of d' "data @ take k c"] d' Cons.prems(2,3) by auto
  have "write_chunks hw (c # cs) (int (length data)) d
      = Some (accepted (length data) (c # cs), int (length (data @ concat (accepted (length data) (c # cs)))), e)"
    using step e(1) unfolding acc len by simp
  then show ?case using e(2-5) d'(3-5) unfolding acc by (intro exI [of _ e]) simp
qed simp

lemma open_ready:
  assumes "spi_board (devtype d)" "\<not> already_open DEVICE_FLASH d" "hw_kmalloc hw" "device_ready (hw_spi hw)"
  shows "\<exists>d'. ev_open hw False DEVICE_FLASH O_WRONLY d = Some (0, d')"
proof -
  let ?d = "d\<lparr>access_mode := O_WRONLY, access_device := DEVICE_FLASH\<rparr>"
  have "\<exists>erase. open_flash hw ?d = open_spi hw erase ?d \<and> (erase = flash_bulkerase \<or> erase = flash_primaryerase)"
    using assms(1) by (rule spi_board_cases) (auto simp: open_flash_def has_type_def type_defs)
  then obtain erase where e: "open_flash hw ?d = open_spi hw erase ?d" "erase = flash_bulkerase \<or> erase = flash_primaryerase" by blast
  obtain r h where run: "run_state (erase (hw_spi hw)) (spi d) = (r, h)" by (cases "run_state (erase (hw_spi hw)) (spi d)")
  have "wp (erase (hw_spi hw)) (\<lambda>r h. 0 \<le> r) (spi d)"
    using e(2) ready_bulkerase [OF assms(4)] ready_primaryerase [OF assms(4)] by blast
  then have "0 \<le> r" by (rule wp_run [OF run])
  then have "\<exists>d'. open_spi hw erase ?d = Some (0, d')"
    using assms(3) run by (simp add: open_spi_def kmalloc_def Let_def on_flash_def)
  then show ?thesis using assms(2) e(1) by (simp add: ev_open_def minor_defs)
qed

lemma release_written:
  assumes "written hw (int (spi_start (devtype d))) h data d" "spi_board (devtype d)" "access_device d = DEVICE_FLASH" "access_mode d = O_WRONLY"
  shows "\<exists>d'. ev_release hw False d = Some (0, d')
    \<and> spi d' = program_pages (hw_spi hw) (int (spi_start (devtype d))) (flash_pages 0 data) h \<and> xcf_data d' = None \<and> access_device d' = 0"
proof -
  let ?m = "flash_pageprogram (hw_spi hw) (rest_page 0 data) (word_of_int (xcf_data_pos d + int (spi_start (devtype d)))) 256"
  have "ev_release hw False d = release_flash hw d" using assms(3) by (simp add: ev_release_def minor_defs)
  moreover have "program_buffer hw (int (spi_start (devtype d))) d = Some (d\<lparr>spi := snd (run_state ?m (spi d))\<rparr>)"
    using assms(1) by (simp add: program_buffer_def written_def FLASH_DATA_ALLOC_SIZE_def)
  ultimately have "ev_release hw False d = Some (0, close_access (free_xcf (d\<lparr>spi := snd (run_state ?m (spi d))\<rparr>)))"
    using assms(4) by (simp add: spi_board_operations(3) [OF assms(2)] release_spi_def)
  moreover have "snd (run_state ?m (spi d)) = program_pages (hw_spi hw) (int (spi_start (devtype d))) (flash_pages 0 data) h"
    using assms(1) unfolding flash_pages_eq program_pages_append written_def
    by (simp add: page_list_def add.commute)
  ultimately show ?thesis by (intro exI conjI) (auto simp: close_access_def free_xcf_def kfree_def split: option.split)
qed

text \<open>
  C32. Programming the flash memory through the character device. When a process opens the flash memory of
  a board with an SPI controller for writing and writes chunks one after the other, each write accepts the
  part of its chunk that fits into the page being written; when it closes the file, the flash memory has
  been programmed, page by page from the start of the image, with exactly the accepted bytes, the last
  page filled up (and programmed also when it is empty).
\<close>

theorem flash_file_written:
  assumes "spi_board (devtype d)" "ev_open hw False DEVICE_FLASH O_WRONLY d = Some (0, d1)"
    "int (length (concat chunks)) < 2 ^ 31 - 1024"
  shows "\<exists>d2 d3. write_chunks hw chunks 0 d1 = Some (accepted 0 chunks, int (length (concat (accepted 0 chunks))), d2)
    \<and> ev_release hw False d2 = Some (0, d3)
    \<and> spi d3 = program_pages (hw_spi hw) (int (spi_start (devtype d))) (flash_pages 0 (concat (accepted 0 chunks))) (spi d1)"
proof -
  have o: "written hw (int (spi_start (devtype d))) (spi d1) [] d1" "devtype d1 = devtype d" "access_device d1 = DEVICE_FLASH"
    "access_mode d1 = O_WRONLY"
    using open_for_writing [OF assms(1,2)] by blast+
  obtain d2 where w: "write_chunks hw chunks 0 d1 = Some (accepted 0 chunks, int (length (concat (accepted 0 chunks))), d2)"
    "written hw (int (spi_start (devtype d1))) (spi d1) (concat (accepted 0 chunks)) d2"
    "devtype d2 = devtype d1" "access_device d2 = DEVICE_FLASH" "access_mode d2 = access_mode d1"
    using write_chunks_written [of hw d1 "spi d1" "[]" chunks] o assms(1,3) by auto
  obtain d3 where "ev_release hw False d2 = Some (0, d3)"
    "spi d3 = program_pages (hw_spi hw) (int (spi_start (devtype d2))) (flash_pages 0 (concat (accepted 0 chunks))) (spi d1)"
    using release_written [of hw d2 "spi d1" "concat (accepted 0 chunks)"] w o assms(1) by auto
  then show ?thesis using w(1,3) o(2) by auto
qed

lemma flash_file_written_witness:
  "\<exists>d1 d2 d3. ev_open example_hardware False DEVICE_FLASH O_WRONLY (new_device MRF_DEVTYPE_K7_PCIE) = Some (0, d1)
    \<and> write_chunks example_hardware [[1, 2, 3], [4, 5]] 0 d1 = Some ([[1, 2, 3], [4, 5]], 5, d2)
    \<and> ev_release example_hardware False d2 = Some (0, d3)
    \<and> spi d3 = snd (run_state (flash_pageprogram ready_example ([1, 2, 3, 4, 5] @ replicate 251 0) 0 256) (spi d1))"
proof -
  have t: "spi_board (devtype (new_device MRF_DEVTYPE_K7_PCIE))"
    by (simp add: spi_board_def board_type_def new_device_def type_defs)
  have "\<not> already_open DEVICE_FLASH (new_device MRF_DEVTYPE_K7_PCIE)" by (simp add: already_open_def new_device_def minor_defs)
  then obtain d1 where d1: "ev_open example_hardware False DEVICE_FLASH O_WRONLY (new_device MRF_DEVTYPE_K7_PCIE) = Some (0, d1)"
    using open_ready [OF t, of example_hardware] ready_example by (auto simp: example_hardware_def)
  have len: "int (length (concat [[1, 2, 3], [4, 5 :: u8]])) < 2 ^ 31 - 1024" by simp
  have acc: "accepted 0 [[1, 2, 3], [4, 5]] = [[1, 2, 3], [4, 5]]" by simp
  have pages: "flash_pages 0 [1, 2, 3, 4, 5] = [[1, 2, 3, 4, 5] @ replicate 251 0]" by (simp add: flash_pages.simps)
  have start: "spi_start (devtype (new_device MRF_DEVTYPE_K7_PCIE)) = 0" by (simp add: spi_start_def new_device_def type_defs)
  show ?thesis
    using flash_file_written [OF t d1 len] d1 unfolding acc start
    by (simp add: pages example_hardware_def)
qed

section \<open>Reading\<close>

lemma finish_read_page:
  assumes "length buffer = 256" "sane f_pos count" "count \<le> a" "0 \<le> start" "start = f_pos - f_pos mod 256"
    "k = min count (256 - f_pos mod 256)"
  shows "finish_read a (Some buffer) (f_pos AND (int 256 - 1)) (limit_count f_pos count (to_int (start + int 256))) f_pos d
    = Some (k, take (nat k) (drop (nat (f_pos mod 256)) buffer), f_pos + k, d)"
proof -
  have off: "f_pos AND (int 256 - 1) = f_pos mod 256"
  proof -
    have "f_pos AND (int 256 - 1) = f_pos mod int 256" by (rule page_of_mod(2) [where n = 8]) simp
    then show ?thesis by simp
  qed
  have m: "0 \<le> f_pos mod 256" "f_pos mod 256 < 256" by simp_all
  have "start \<le> f_pos" using assms(5) m(1) by linarith
  have end_pos: "to_int (start + int 256) = start + 256"
    using assms(2,4) \<open>start \<le> f_pos\<close> unfolding sane_def by (subst to_int_id) linarith+
  have "limit_count f_pos count (start + 256) = min count (start + 256 - f_pos)"
    using assms(2,5) m \<open>start \<le> f_pos\<close> unfolding sane_def by (intro limit_count_min) (simp_all only: sane_def, linarith+)
  also have "\<dots> = k" using assms(5,6) by simp
  finally have limit: "limit_count f_pos count (to_int (start + int 256)) = k" unfolding end_pos .
  have "0 \<le> k" "f_pos mod 256 + k \<le> 256" "k \<le> count" using assms(2,6) m by (auto simp: sane_def min_def)
  then show ?thesis
    unfolding limit off using assms(1,3) m by (simp add: finish_read_def copy_to_user_def)
qed

text \<open>
  Reading the flash memory through the character device. A read gives the bytes of the page from the
  position on, up to the end of the page or the number that is asked for. The page is the one that the
  flash memory gives, unless the driver has noted the page as the one in its buffer; then the flash memory
  is not accessed.
\<close>

lemma flash_file_read:
  assumes "spi_board (devtype d)" "access_device d = DEVICE_FLASH" "xcf_data d = Some buffer" "length buffer = 256"
    "sane f_pos count" "count \<le> a" "k = min count (256 - f_pos mod 256)"
    "run_state (flash_fastread (hw_spi hw) (word_of_int (f_pos - f_pos mod 256) + of_nat (spi_start (devtype d))) 256) (spi d)
       = ((r, bytes), h)"
  shows "ev_read hw False a count f_pos d =
    (if f_pos - f_pos mod 256 = xcf_data_pos d
     then Some (k, take (nat k) (drop (nat (f_pos mod 256)) buffer), f_pos + k, d)
     else Some (k, take (nat k) (drop (nat (f_pos mod 256)) (fill bytes buffer)), f_pos + k,
       d\<lparr>spi := h, xcf_data := Some (fill bytes buffer), xcf_data_pos := f_pos - f_pos mod 256\<rparr>))"
proof -
  have page: "page_of 256 f_pos = f_pos - f_pos mod 256"
    using page_of_mod(1) [of 256 8 f_pos] by simp
  have start: "0 \<le> f_pos - f_pos mod 256" "f_pos - f_pos mod 256 < 2 ^ 31"
    using assms(5) zmod_le_nonneg_dividend [of f_pos 256] pos_mod_sign [of 256 f_pos] unfolding sane_def by linarith+
  have to_int: "to_int (f_pos - f_pos mod 256) = f_pos - f_pos mod 256" using start by (intro to_int_id) simp_all
  have "ev_read hw False a count f_pos d = read_paged 256 (load_spi hw (spi_start (devtype d))) a count f_pos d"
    using assms(2) by (simp add: ev_read_def minor_defs spi_board_operations(1) [OF assms(1)])
  also have "\<dots> = (if f_pos - f_pos mod 256 = xcf_data_pos d
     then Some (k, take (nat k) (drop (nat (f_pos mod 256)) buffer), f_pos + k, d)
     else Some (k, take (nat k) (drop (nat (f_pos mod 256)) (fill bytes buffer)), f_pos + k,
       d\<lparr>spi := h, xcf_data := Some (fill bytes buffer), xcf_data_pos := f_pos - f_pos mod 256\<rparr>))"
  proof (cases "f_pos - f_pos mod 256 = xcf_data_pos d")
    case True
    show ?thesis
      using finish_read_page [OF assms(4-6) start(1) refl assms(7), of d] assms(3) True
      unfolding read_paged_def page Let_def by simp
  next
    case False
    let ?d = "d\<lparr>spi := h, xcf_data := Some (fill bytes buffer), xcf_data_pos := f_pos - f_pos mod 256\<rparr>"
    have "load_spi hw (spi_start (devtype d)) (word_of_int (f_pos - f_pos mod 256)) d = (bytes, d\<lparr>spi := h\<rparr>)"
      using assms(8) by (simp add: load_spi_def on_flash_def FLASH_DATA_ALLOC_SIZE_def)
    then have "read_paged 256 (load_spi hw (spi_start (devtype d))) a count f_pos d
        = finish_read a (Some (fill bytes buffer)) (f_pos AND (int 256 - 1))
            (limit_count f_pos count (to_int (f_pos - f_pos mod 256 + int 256))) f_pos ?d"
      using False assms(3) to_int unfolding read_paged_def page Let_def by simp
    then show ?thesis
      using finish_read_page [OF _ assms(5,6) start(1) refl assms(7), of "fill bytes buffer" ?d] assms(4) False by simp
  qed
  finally show ?thesis .
qed

lemma flash_file_read_witness:
  "\<exists>bytes d'. ev_read example_hardware False 100 10 300
      ((new_device MRF_DEVTYPE_K7_PCIE)\<lparr>access_device := DEVICE_FLASH, xcf_data := Some (replicate 256 0)\<rparr>) = Some (10, bytes, 310, d')
    \<and> xcf_data_pos d' = 256 \<and> length bytes = 10"
proof -
  let ?d = "(new_device MRF_DEVTYPE_K7_PCIE)\<lparr>access_device := DEVICE_FLASH, xcf_data := Some (replicate 256 0)\<rparr>"
  have t: "spi_board (devtype ?d)" by (simp add: spi_board_def board_type_def new_device_def type_defs)
  obtain r bytes h where run: "run_state (flash_fastread (hw_spi example_hardware)
      (word_of_int (300 - 300 mod 256) + of_nat (spi_start (devtype ?d))) 256) (spi ?d) = ((r, bytes), h)"
    by (metis prod.exhaust)
  have facts: "access_device ?d = DEVICE_FLASH" "xcf_data ?d = Some (replicate 256 0)" "length (replicate 256 (0 :: u8)) = 256"
    "sane 300 10" "(10 :: int) \<le> 100" "(10 :: int) = min 10 (256 - 300 mod 256)" "300 - 300 mod 256 \<noteq> xcf_data_pos ?d"
    by (simp_all add: sane_def new_device_def)
  show ?thesis
    using flash_file_read [OF t facts(1-6) run] facts(7) by (simp add: if_not_P)
qed

text \<open>
  When the module has just been loaded, the position of the page is that of the first page, and opening the
  flash memory for reading does not change it: reading the first page gives zeros and does not access the
  flash memory.
\<close>

lemma first_page_reads_zeros:
  assumes "spi_board t" "hw_kmalloc hw" "0 < count" "count \<le> 256" "count \<le> a"
  shows "\<exists>d. ev_open hw False DEVICE_FLASH O_RDONLY (new_device t) = Some (0, d)
    \<and> ev_read hw False a count 0 d = Some (count, replicate (nat count) 0, count, d)"
proof -
  let ?d = "(new_device t)\<lparr>access_mode := O_RDONLY, access_device := DEVICE_FLASH\<rparr>"
  let ?e = "?d\<lparr>allocated := 1, xcf_data := Some (replicate 256 0)\<rparr>"
  have t: "spi_board (devtype ?d)" "spi_board (devtype ?e)" using assms(1) by (simp_all add: new_device_def)
  have "\<exists>erase. open_flash hw ?d = open_spi hw erase ?d"
    using t(1) by (rule spi_board_cases) (auto simp: open_flash_def has_type_def type_defs)
  then have "open_flash hw ?d = Some (0, ?e)"
    using assms(2) by (auto simp: open_spi_def kmalloc_def FLASH_DATA_ALLOC_SIZE_def O_RDONLY_def O_WRONLY_def new_device_def)
  then have "ev_open hw False DEVICE_FLASH O_RDONLY (new_device t) = Some (0, ?e)"
    by (simp add: ev_open_def already_open_def minor_defs new_device_def)
  moreover have "ev_read hw False a count 0 ?e = Some (count, replicate (nat count) 0, count, ?e)"
  proof -
    have "ev_read hw False a count 0 ?e = read_paged 256 (load_spi hw (spi_start (devtype ?e))) a count 0 ?e"
      using spi_board_operations(1) [OF t(2)] by (simp add: ev_read_def minor_defs)
    also have "\<dots> = finish_read a (Some (replicate 256 0)) (0 AND (int 256 - 1)) (limit_count 0 count (to_int (0 + int 256))) 0 ?e"
      by (simp add: read_paged_def page_of_def new_device_def)
    also have "\<dots> = Some (count, take (nat count) (drop (nat (0 mod 256)) (replicate 256 0)), 0 + count, ?e)"
      using assms(3-5) by (intro finish_read_page) (simp_all add: sane_def)
    also have "take (nat count) (drop (nat (0 mod 256)) (replicate 256 (0 :: u8))) = replicate (nat count) 0"
      using assms(4) by (simp add: min_def)
    finally show ?thesis by simp
  qed
  ultimately show ?thesis by blast
qed

end
