(* ===== verification/KernelJtag.thy ===== *)
theory KernelJtag
  imports StateRules KernelErrors
begin

text \<open>
  The JTAG interface of the boards with a PLX bridge (\<^verbatim>\<open>jtag.c\<close> and \<^verbatim>\<open>jtag_9056.c\<close> in
  \<^verbatim>\<open>support/mrf-pci-dkms-0.1.20250218/mrf-pci-0.1.20250218\<close>). The driver moves the four lines of the interface
  with bits of one register of the bridge. The state is the history of the accesses to this register, newest
  first; the hardware is a function that gives the value of a read after a history.

  The files for the two bridges have the same functions down to the names of the register and of its bits, so
  these take the bridge as an argument. A \<^verbatim>\<open>char\<close> is a byte that is extended with its sign where the code
  converts it to an \<^verbatim>\<open>int\<close>; arrays of \<^verbatim>\<open>int\<close> in the byte order of the network are lists of bytes. The memory
  that \<^verbatim>\<open>kmalloc\<close> is asked for is there.
\<close>

section \<open>The register\<close>

datatype reg_event = Rd u32 | Wr u32

type_synonym reg_hw = "reg_event list \<Rightarrow> u32"

type_synonym 'a reg = "(reg_event list, 'a) state"

definition read_reg :: "reg_hw \<Rightarrow> u32 reg" where
  "read_reg hw = State (\<lambda>h. let v = hw h in (v, Rd v # h))"

definition write_reg :: "u32 \<Rightarrow> unit reg" where
  "write_reg v = State (\<lambda>h. ((), Wr v # h))"

text \<open>The bits of the register, and its values while the lines are driven and while they are not.\<close>

record bridge =
  TMS :: u32
  TDI :: u32
  TCK :: u32
  TDO :: u32
  driven :: u32
  released :: u32

definition PLX9030_GPIOC_GPIO0_DATA :: u32 where "PLX9030_GPIOC_GPIO0_DATA = 0x00000004"
definition PLX9030_GPIOC_GPIO1_DATA :: u32 where "PLX9030_GPIOC_GPIO1_DATA = 0x00000020"
definition PLX9030_GPIOC_GPIO2_DATA :: u32 where "PLX9030_GPIOC_GPIO2_DATA = 0x00000100"
definition PLX9030_GPIOC_GPIO3_DATA :: u32 where "PLX9030_GPIOC_GPIO3_DATA = 0x00000800"
definition PLX9030_GPIOC_RESET :: u32 where "PLX9030_GPIOC_RESET = 0x00249000"
definition PLX9030_GPIOC_JTAG :: u32 where "PLX9030_GPIOC_JTAG = 0x00249412"

definition plx9030 :: bridge where
  "plx9030 = \<lparr>TMS = PLX9030_GPIOC_GPIO1_DATA, TDI = PLX9030_GPIOC_GPIO3_DATA, TCK = PLX9030_GPIOC_GPIO0_DATA,
     TDO = PLX9030_GPIOC_GPIO2_DATA, driven = PLX9030_GPIOC_JTAG, released = PLX9030_GPIOC_RESET\<rparr>"

definition PLX9056_CNTRL_EESK :: u32 where "PLX9056_CNTRL_EESK = 0x01000000"
definition PLX9056_CNTRL_EEDI :: u32 where "PLX9056_CNTRL_EEDI = 0x04000000"
definition PLX9056_CNTRL_RESET :: u32 where "PLX9056_CNTRL_RESET = 0x000d767e"
definition PLX9056_CNTRL_TMS :: u32 where "PLX9056_CNTRL_TMS = 0x00010000"
definition PLX9056_CNTRL_TDO :: u32 where "PLX9056_CNTRL_TDO = 0x00020000"

definition PLX9056_CNTRL_JTAG :: u32 where
  "PLX9056_CNTRL_JTAG = PLX9056_CNTRL_RESET AND NOT (PLX9056_CNTRL_TMS OR PLX9056_CNTRL_EEDI OR PLX9056_CNTRL_EESK)"

definition plx9056 :: bridge where
  "plx9056 = \<lparr>TMS = PLX9056_CNTRL_TMS, TDI = PLX9056_CNTRL_EEDI, TCK = PLX9056_CNTRL_EESK,
     TDO = PLX9056_CNTRL_TDO, driven = PLX9056_CNTRL_JTAG, released = PLX9056_CNTRL_RESET\<rparr>"

section \<open>The lines of the interface\<close>

fun pulses :: "bridge \<Rightarrow> u32 \<Rightarrow> nat \<Rightarrow> unit reg" where
  "pulses b gpioc 0 = State_Monad.return ()"
| "pulses b gpioc (Suc n) = do {
     _ \<leftarrow> write_reg gpioc;
     _ \<leftarrow> write_reg (gpioc OR TCK b);
     pulses b gpioc n
   }"

definition jtag_pulseTCK :: "bridge \<Rightarrow> reg_hw \<Rightarrow> nat \<Rightarrow> unit reg" where
  "jtag_pulseTCK b hw n = do {
     v \<leftarrow> read_reg hw;
     let gpioc = v AND NOT (TCK b);
     _ \<leftarrow> pulses b gpioc n;
     write_reg gpioc
   }"

definition jtag_TLR :: "bridge \<Rightarrow> reg_hw \<Rightarrow> unit reg" where
  "jtag_TLR b hw = do {
     v \<leftarrow> read_reg hw;
     _ \<leftarrow> write_reg (v OR TMS b);
     jtag_pulseTCK b hw 5
   }"

definition jtag_TLRtoRTI :: "bridge \<Rightarrow> reg_hw \<Rightarrow> unit reg" where
  "jtag_TLRtoRTI b hw = do {
     v \<leftarrow> read_reg hw;
     _ \<leftarrow> write_reg (v AND NOT (TMS b));
     jtag_pulseTCK b hw 1
   }"

definition jtag_TLRtoSIR :: "bridge \<Rightarrow> reg_hw \<Rightarrow> unit reg" where
  "jtag_TLRtoSIR b hw = do {
     v \<leftarrow> read_reg hw;
     let gpioc = v AND NOT (TMS b);
     _ \<leftarrow> write_reg gpioc;
     _ \<leftarrow> jtag_pulseTCK b hw 1;
     _ \<leftarrow> write_reg (gpioc OR TMS b);
     _ \<leftarrow> jtag_pulseTCK b hw 2;
     _ \<leftarrow> write_reg gpioc;
     jtag_pulseTCK b hw 2
   }"

definition jtag_TLRtoSDR :: "bridge \<Rightarrow> reg_hw \<Rightarrow> unit reg" where
  "jtag_TLRtoSDR b hw = do {
     v \<leftarrow> read_reg hw;
     let gpioc = v AND NOT (TMS b);
     _ \<leftarrow> write_reg gpioc;
     _ \<leftarrow> jtag_pulseTCK b hw 1;
     _ \<leftarrow> write_reg (gpioc OR TMS b);
     _ \<leftarrow> jtag_pulseTCK b hw 1;
     _ \<leftarrow> write_reg gpioc;
     jtag_pulseTCK b hw 2
   }"

definition jtag_EX1toSDR :: "bridge \<Rightarrow> reg_hw \<Rightarrow> unit reg" where
  "jtag_EX1toSDR b hw = do {
     _ \<leftarrow> jtag_pulseTCK b hw 2;
     v \<leftarrow> read_reg hw;
     _ \<leftarrow> write_reg (v AND NOT (TMS b));
     jtag_pulseTCK b hw 2
   }"

definition jtag_EX1toRTI :: "bridge \<Rightarrow> reg_hw \<Rightarrow> unit reg" where
  "jtag_EX1toRTI b hw = do {
     _ \<leftarrow> jtag_pulseTCK b hw 1;
     v \<leftarrow> read_reg hw;
     _ \<leftarrow> write_reg (v AND NOT (TMS b));
     jtag_pulseTCK b hw 1
   }"

section \<open>Shifting bits\<close>

text \<open>The loop of \<^verbatim>\<open>SDI\<close>, with the number of bits that are left.\<close>

fun shift_bits :: "bridge \<Rightarrow> reg_hw \<Rightarrow> bool \<Rightarrow> nat \<Rightarrow> u32 \<Rightarrow> u32 \<Rightarrow> u32 \<Rightarrow> u32 reg" where
  "shift_bits b hw last_bits 0 gpioc tdi rdtdo = State_Monad.return rdtdo"
| "shift_bits b hw last_bits (Suc i) gpioc tdi rdtdo = do {
     let gpioc = (if last_bits \<and> i = 0 then gpioc OR TMS b else gpioc);
     _ \<leftarrow> write_reg (if tdi AND 1 \<noteq> 0 then gpioc OR TDI b else gpioc);
     v \<leftarrow> read_reg hw;
     let rdtdo = rdtdo OR push_bit (32 - Suc i) (if v AND TDO b \<noteq> 0 then 1 else 0);
     _ \<leftarrow> jtag_pulseTCK b hw 1;
     shift_bits b hw last_bits i gpioc (signed_drop_bit 1 tdi) rdtdo
   }"

text \<open>The result, and what is stored through the pointer \<^verbatim>\<open>tdo\<close>, whose target is not changed by an error.\<close>

definition jtag_SDI :: "bridge \<Rightarrow> reg_hw \<Rightarrow> int \<Rightarrow> u32 \<Rightarrow> u32 \<Rightarrow> bool \<Rightarrow> (int \<times> u32) reg" where
  "jtag_SDI b hw n tdi tdo last_bits = do {
     v \<leftarrow> read_reg hw;
     if n < 1 \<or> n > 32 then State_Monad.return (- EOVERFLOW, tdo)
     else do {
       rdtdo \<leftarrow> shift_bits b hw last_bits (nat n) (v AND NOT (TDI b)) tdi 0;
       State_Monad.return (0, rdtdo)
     }
   }"

text \<open>The loop of \<^verbatim>\<open>SCFD\<close>, which sends the bits of a byte from the highest one on.\<close>

fun shift_byte :: "bridge \<Rightarrow> reg_hw \<Rightarrow> bool \<Rightarrow> nat \<Rightarrow> u32 \<Rightarrow> u8 \<Rightarrow> unit reg" where
  "shift_byte b hw last_byte 0 gpioc tdi = State_Monad.return ()"
| "shift_byte b hw last_byte (Suc n) gpioc tdi = do {
     let gpioc = (if last_byte \<and> n = 0 then gpioc OR TMS b else gpioc);
     _ \<leftarrow> write_reg (if tdi AND 0x80 \<noteq> 0 then gpioc OR TDI b else gpioc);
     _ \<leftarrow> jtag_pulseTCK b hw 1;
     shift_byte b hw last_byte n gpioc (push_bit 1 tdi)
   }"

definition jtag_SCFD :: "bridge \<Rightarrow> reg_hw \<Rightarrow> u8 \<Rightarrow> bool \<Rightarrow> unit reg" where
  "jtag_SCFD b hw tdi last_byte = do {
     v \<leftarrow> read_reg hw;
     shift_byte b hw last_byte 8 (v AND NOT (TDI b)) tdi
   }"

definition jtag_SIR :: "bridge \<Rightarrow> reg_hw \<Rightarrow> int \<Rightarrow> int \<Rightarrow> u32 \<Rightarrow> int \<Rightarrow> u32 \<Rightarrow> bool \<Rightarrow> (int \<times> u32) reg" where
  "jtag_SIR b hw hir irlen tdi tir tdo tlr =
     (if hir < 0 \<or> hir > 32 \<or> tir < 0 \<or> tir > 32 \<or> irlen < 1 \<or> irlen > 32
      then State_Monad.return (- EOVERFLOW, tdo)
      else do {
        _ \<leftarrow> jtag_TLRtoSIR b hw;
        _ \<leftarrow> (if hir > 0 then do { _ \<leftarrow> jtag_SDI b hw hir 0xffffffff 0 False; State_Monad.return () }
            else State_Monad.return ());
        (_, irout) \<leftarrow> jtag_SDI b hw irlen tdi 0 (tir = 0);
        _ \<leftarrow> (if tir > 0 then do { _ \<leftarrow> jtag_SDI b hw tir 0xffffffff 0 True; State_Monad.return () }
            else State_Monad.return ());
        _ \<leftarrow> (if tlr then jtag_EX1toRTI b hw else State_Monad.return ());
        State_Monad.return (0, irout)
      })"

text \<open>The loop over the bytes of a data register, from the last one to the first; it collects what is stored.\<close>

fun shift_bytes :: "bridge \<Rightarrow> reg_hw \<Rightarrow> nat \<Rightarrow> int \<Rightarrow> u8 list \<Rightarrow> nat \<Rightarrow> u8 list \<Rightarrow> u8 list reg" where
  "shift_bytes b hw drlen tdr tdi 0 tdo = State_Monad.return tdo"
| "shift_bytes b hw drlen tdr tdi (Suc i) tdo = do {
     let dr = (if i = 0 \<and> drlen mod 8 \<noteq> 0 then drlen mod 8 else 8);
     (_, drout) \<leftarrow> jtag_SDI b hw (int dr) (scast (tdi ! i)) 0 (i = 0 \<and> tdr = 0);
     shift_bytes b hw drlen tdr tdi i (ucast (signed_drop_bit (32 - dr) drout) # tdo)
   }"

text \<open>The result and the bytes that are stored; there are as many as there are bytes to send.\<close>

definition jtag_SDR :: "bridge \<Rightarrow> reg_hw \<Rightarrow> int \<Rightarrow> int \<Rightarrow> u8 list \<Rightarrow> int \<Rightarrow> bool \<Rightarrow> (int \<times> u8 list) reg" where
  "jtag_SDR b hw hdr drlen tdi tdr tlr =
     (if hdr < 0 \<or> hdr > 32 \<or> tdr < 0 \<or> tdr > 32 \<or> drlen < 0 then State_Monad.return (- EOVERFLOW, [])
      else do {
        _ \<leftarrow> jtag_TLRtoSDR b hw;
        _ \<leftarrow> (if hdr > 0 then do { _ \<leftarrow> jtag_SDI b hw hdr 0 0 False; State_Monad.return () }
            else State_Monad.return ());
        tdo \<leftarrow> shift_bytes b hw (nat drlen) tdr tdi ((nat drlen + 7) div 8) [];
        _ \<leftarrow> (if tdr > 0 then do { _ \<leftarrow> jtag_SDI b hw tdr 0 0 True; State_Monad.return () }
            else State_Monad.return ());
        _ \<leftarrow> (if tlr then jtag_EX1toRTI b hw else State_Monad.return ());
        State_Monad.return (0, tdo)
      })"

end
