(* ===== verification/KernelXcf.thy ===== *)
theory KernelXcf
  imports KernelJtag "HOL-Library.Signed_Division"
begin

text \<open>
  What the driver does over JTAG with the chain of a board with a PCI9030 bridge (\<^verbatim>\<open>jtag.c\<close>): recognising the
  devices, reading and programming the platform flash, configuring the FPGA and reading its status.
\<close>

section \<open>Constants\<close>

definition XC2VP_CFGOUT :: u32 where "XC2VP_CFGOUT = 0xffc4"
definition XC2VP_CFGIN :: u32 where "XC2VP_CFGIN = 0xffc5"
definition XC2VP_JSTART :: u32 where "XC2VP_JSTART = 0xffcc"
definition XC2VP_JSHUTDOWN :: u32 where "XC2VP_JSHUTDOWN = 0xffcd"
definition XC2VP_BYPASS :: u32 where "XC2VP_BYPASS = 0xffff"
definition XC2VP4_DID :: u32 where "XC2VP4_DID = 0x0123E093"
definition XCF08P_DID :: u32 where "XCF08P_DID = 0x05057093"
definition XC2VP4_IRLEN :: int where "XC2VP4_IRLEN = 10"
definition XCFXXP_IRLEN :: int where "XCFXXP_IRLEN = 16"

definition XCFXXP_BYPASS :: u32 where "XCFXXP_BYPASS = 0xffff"
definition XCFXXP_IDCODE :: u32 where "XCFXXP_IDCODE = 0x00fe"
definition XCFXXP_ISC_ENABLE :: u32 where "XCFXXP_ISC_ENABLE = 0x00e8"
definition XCFXXP_ISC_PROGRAM :: u32 where "XCFXXP_ISC_PROGRAM = 0x00ea"
definition XCFXXP_ISC_ADDRESS_SHIFT :: u32 where "XCFXXP_ISC_ADDRESS_SHIFT = 0x00eb"
definition XCFXXP_ISC_ERASE :: u32 where "XCFXXP_ISC_ERASE = 0x00ec"
definition XCFXXP_ISC_DATA_SHIFT :: u32 where "XCFXXP_ISC_DATA_SHIFT = 0x00ed"
definition XCFXXP_XSC_READ :: u32 where "XCFXXP_XSC_READ = 0x00ef"
definition XCFXXP_ISC_DISABLE :: u32 where "XCFXXP_ISC_DISABLE = 0x00f0"
definition XCFXXP_XSC_CONFIG :: u32 where "XCFXXP_XSC_CONFIG = 0x00ee"
definition XCFXXP_XSC_OP_STATUS :: u32 where "XCFXXP_XSC_OP_STATUS = 0x00e3"
definition XCFXXP_XSC_UNLOCK :: u32 where "XCFXXP_XSC_UNLOCK = 0xaa55"
definition XCFXXP_XSC_DATA_BTC :: u32 where "XCFXXP_XSC_DATA_BTC = 0x00f2"
definition XCFXXP_XSC_DATA_DONE :: u32 where "XCFXXP_XSC_DATA_DONE = 0x0009"
definition XCFXXP_XSC_DATA_CCB :: u32 where "XCFXXP_XSC_DATA_CCB = 0x000c"
definition XCFXXP_XSC_DATA_SUCR :: u32 where "XCFXXP_XSC_DATA_SUCR = 0x000e"

definition XCF_BLOCK_SIZE :: nat where "XCF_BLOCK_SIZE = 1024"
definition XCF_ERASE_TCKS :: nat where "XCF_ERASE_TCKS = 140000000"
definition XCF_ERASE_SCHEDULE_COUNT :: nat where "XCF_ERASE_SCHEDULE_COUNT = 1000"

section \<open>State\<close>

text \<open>The fields of \<^verbatim>\<open>struct mrf_dev\<close> that the functions use, and the register of the bridge.\<close>

record jtag_dev =
  jtag_refcount :: u32
  fpgaid :: u32
  xcfid :: u32
  fpgairlen :: int
  xcfirlen :: int
  reg :: "reg_event list"

type_synonym 'a dev = "(jtag_dev, 'a) state"

definition on_reg :: "'a reg \<Rightarrow> 'a dev" where
  "on_reg m = State (\<lambda>d. case run_state m (reg d) of (r, h) \<Rightarrow> (r, d\<lparr>reg := h\<rparr>))"

definition get_dev :: "(jtag_dev \<Rightarrow> 'a) \<Rightarrow> 'a dev" where
  "get_dev f = State (\<lambda>d. (f d, d))"

definition set_dev :: "(jtag_dev \<Rightarrow> jtag_dev) \<Rightarrow> unit dev" where
  "set_dev f = State (\<lambda>d. ((), f d))"

definition jtag_open :: "bridge \<Rightarrow> u32 dev" where
  "jtag_open b = do {
     n \<leftarrow> get_dev jtag_refcount;
     _ \<leftarrow> (if n = 0 then on_reg (write_reg (driven b)) else State_Monad.return ());
     _ \<leftarrow> set_dev (\<lambda>d. d\<lparr>jtag_refcount := jtag_refcount d + 1\<rparr>);
     get_dev jtag_refcount
   }"

definition jtag_release :: "bridge \<Rightarrow> u32 dev" where
  "jtag_release b = do {
     _ \<leftarrow> set_dev (\<lambda>d. if jtag_refcount d > 0 then d\<lparr>jtag_refcount := jtag_refcount d - 1\<rparr> else d);
     n \<leftarrow> get_dev jtag_refcount;
     _ \<leftarrow> (if n = 0 then on_reg (write_reg (released b)) else State_Monad.return ());
     get_dev jtag_refcount
   }"

text \<open>The three words that are read are the identities of the devices, the last one first.\<close>

definition jtag_9030_validate :: "reg_hw \<Rightarrow> int dev" where
  "jtag_9030_validate hw = do {
     _ \<leftarrow> set_dev (\<lambda>d. d\<lparr>fpgairlen := 0, xcfirlen := 0\<rparr>);
     _ \<leftarrow> on_reg (jtag_TLR plx9030 hw);
     (_, did) \<leftarrow> on_reg (jtag_SDR plx9030 hw 0 96 (replicate 12 0) 0 True);
     let did2 = of_be_bytes32 (drop 8 did);
     _ \<leftarrow> set_dev (\<lambda>d. if did2 AND 0x0fffffff = XC2VP4_DID then d\<lparr>fpgairlen := XC2VP4_IRLEN\<rparr> else d);
     _ \<leftarrow> set_dev (\<lambda>d. d\<lparr>fpgaid := did2\<rparr>);
     let did1 = of_be_bytes32 (take 4 (drop 4 did));
     _ \<leftarrow> set_dev (\<lambda>d. if did1 AND 0x0fffffff = XCF08P_DID then d\<lparr>xcfirlen := XCFXXP_IRLEN\<rparr> else d);
     _ \<leftarrow> set_dev (\<lambda>d. d\<lparr>xcfid := did1\<rparr>);
     irlens \<leftarrow> get_dev (\<lambda>d. (fpgairlen d, xcfirlen d));
     State_Monad.return
       (if of_be_bytes32 (take 4 did) \<noteq> 0 \<or> fst irlens = 0 \<or> snd irlens = 0 then - EIO else 0)
   }"

section \<open>The platform flash\<close>

text \<open>
  The calls of \<^verbatim>\<open>SIR\<close> and \<^verbatim>\<open>SDR\<close> that the functions for the platform flash make: the FPGA is bypassed, and
  the data register of the flash is followed by the bypass register of the FPGA.
\<close>

definition xcf_instruction :: "reg_hw \<Rightarrow> int \<Rightarrow> u32 \<Rightarrow> bool \<Rightarrow> unit reg" where
  "xcf_instruction hw irlen code tlr = do {
     _ \<leftarrow> jtag_SIR plx9030 hw irlen XCFXXP_IRLEN code 0 0 tlr;
     State_Monad.return ()
   }"

definition xcf_data_register :: "reg_hw \<Rightarrow> nat \<Rightarrow> u8 list \<Rightarrow> u8 list reg" where
  "xcf_data_register hw drlen bytes = do {
     (_, tdo) \<leftarrow> jtag_SDR plx9030 hw 1 (int drlen) bytes 0 True;
     State_Monad.return tdo
   }"

definition jtag_9030_XCF_conf :: "reg_hw \<Rightarrow> int dev" where
  "jtag_9030_XCF_conf hw = do {
     _ \<leftarrow> jtag_open plx9030;
     result \<leftarrow> jtag_9030_validate hw;
     irlen \<leftarrow> get_dev fpgairlen;
     result \<leftarrow> (if result < 0 then State_Monad.return result
       else do {
         _ \<leftarrow> on_reg (xcf_instruction hw irlen XCFXXP_XSC_CONFIG True);
         _ \<leftarrow> on_reg (jtag_TLR plx9030 hw);
         State_Monad.return 0
       });
     _ \<leftarrow> jtag_release plx9030;
     State_Monad.return result
   }"

definition jtag_9030_XCF_readstart :: "reg_hw \<Rightarrow> int dev" where
  "jtag_9030_XCF_readstart hw = do {
     _ \<leftarrow> jtag_open plx9030;
     _ \<leftarrow> on_reg (jtag_TLR plx9030 hw);
     result \<leftarrow> jtag_9030_validate hw;
     irlen \<leftarrow> get_dev fpgairlen;
     if result < 0 then do {
       _ \<leftarrow> jtag_release plx9030;
       State_Monad.return result
     }
     else do {
       _ \<leftarrow> on_reg (xcf_instruction hw irlen XCFXXP_ISC_ENABLE True);
       _ \<leftarrow> on_reg (xcf_data_register hw 8 (be_bytes32 0x03));
       State_Monad.return 0
     }
   }"

text \<open>The loop that reverses the bits of a byte.\<close>

fun reverse_loop :: "nat \<Rightarrow> u8 \<Rightarrow> u8 \<Rightarrow> u8" where
  "reverse_loop 0 bitnorm bitrev = bitrev"
| "reverse_loop (Suc j) bitnorm bitrev =
     reverse_loop j (signed_drop_bit 1 bitnorm)
       (if bitnorm AND 1 \<noteq> 0 then push_bit 1 bitrev OR 1 else push_bit 1 bitrev)"

definition op_status :: "reg_hw \<Rightarrow> int \<Rightarrow> unit reg" where
  "op_status hw irlen = do {
     _ \<leftarrow> xcf_instruction hw irlen XCFXXP_XSC_OP_STATUS True;
     _ \<leftarrow> xcf_data_register hw 8 (be_bytes32 0);
     State_Monad.return ()
   }"

text \<open>One round of the loop of \<^verbatim>\<open>XCF_read\<close>, and the loop with the number of blocks that are left.\<close>

definition read_block :: "reg_hw \<Rightarrow> int \<Rightarrow> u32 \<Rightarrow> nat \<Rightarrow> u8 list reg" where
  "read_block hw irlen addr block = do {
     let n = addr div of_nat XCF_BLOCK_SIZE + of_nat block;
     _ \<leftarrow> (if n = 1024 then do {
         _ \<leftarrow> op_status hw irlen;
         xcf_instruction hw irlen XCFXXP_BYPASS True
       } else State_Monad.return ());
     _ \<leftarrow> xcf_instruction hw irlen XCFXXP_ISC_ADDRESS_SHIFT True;
     _ \<leftarrow> xcf_data_register hw 24 (be_bytes32 (push_bit 18 n));
     _ \<leftarrow> jtag_pulseTCK plx9030 hw 15;
     _ \<leftarrow> xcf_instruction hw irlen XCFXXP_XSC_READ True;
     _ \<leftarrow> jtag_pulseTCK plx9030 hw 15;
     dout \<leftarrow> xcf_data_register hw (XCF_BLOCK_SIZE * 8) (replicate XCF_BLOCK_SIZE 0);
     State_Monad.return (map (\<lambda>i. reverse_loop 8 (dout ! (XCF_BLOCK_SIZE - 1 - i)) 0) [0..<XCF_BLOCK_SIZE])
   }"

fun read_blocks :: "reg_hw \<Rightarrow> int \<Rightarrow> u32 \<Rightarrow> nat \<Rightarrow> nat \<Rightarrow> u8 list reg" where
  "read_blocks hw irlen addr block 0 = State_Monad.return []"
| "read_blocks hw irlen addr block (Suc n) = do {
     bytes \<leftarrow> read_block hw irlen addr block;
     rest \<leftarrow> read_blocks hw irlen addr (Suc block) n;
     State_Monad.return (bytes @ rest)
   }"

text \<open>The result and the bytes that are stored from the start of the buffer.\<close>

definition jtag_9030_XCF_read :: "reg_hw \<Rightarrow> u32 \<Rightarrow> u32 \<Rightarrow> (nat \<times> u8 list) dev" where
  "jtag_9030_XCF_read hw addr n = do {
     irlen \<leftarrow> get_dev fpgairlen;
     let blocks = unat n div 1024;
     bytes \<leftarrow> on_reg (read_blocks hw irlen addr 0 blocks);
     State_Monad.return (blocks * XCF_BLOCK_SIZE, bytes)
   }"

definition jtag_9030_XCF_readend :: "reg_hw \<Rightarrow> int dev" where
  "jtag_9030_XCF_readend hw = do {
     irlen \<leftarrow> get_dev fpgairlen;
     _ \<leftarrow> on_reg (op_status hw irlen);
     _ \<leftarrow> on_reg (xcf_instruction hw irlen XCFXXP_ISC_DISABLE True);
     _ \<leftarrow> on_reg (jtag_pulseTCK plx9030 hw 15);
     _ \<leftarrow> on_reg (jtag_TLR plx9030 hw);
     State_Monad.return 0
   }"


section \<open>Programming the platform flash\<close>

definition erase_flash :: "reg_hw \<Rightarrow> int \<Rightarrow> unit reg" where
  "erase_flash hw irlen = do {
     _ \<leftarrow> xcf_instruction hw irlen XCFXXP_ISC_ERASE False;
     _ \<leftarrow> jtag_EX1toSDR plx9030 hw;
     _ \<leftarrow> jtag_SDI plx9030 hw 1 0 0 False;
     _ \<leftarrow> jtag_SDI plx9030 hw 24 0x0000003f 0 True;
     jtag_EX1toRTI plx9030 hw
   }"

text \<open>The loop that erases the flash, with the number of rounds that are left.\<close>

fun erase_clocks :: "reg_hw \<Rightarrow> nat \<Rightarrow> unit reg" where
  "erase_clocks hw 0 = State_Monad.return ()"
| "erase_clocks hw (Suc i) = do {
     _ \<leftarrow> jtag_pulseTCK plx9030 hw (XCF_ERASE_TCKS div XCF_ERASE_SCHEDULE_COUNT);
     erase_clocks hw i
   }"

definition xcf_program :: "reg_hw \<Rightarrow> int \<Rightarrow> unit reg" where
  "xcf_program hw irlen = do {
     _ \<leftarrow> xcf_instruction hw irlen XCFXXP_ISC_ENABLE True;
     _ \<leftarrow> xcf_data_register hw 8 (be_bytes32 0x03000000);
     _ \<leftarrow> xcf_instruction hw irlen XCFXXP_IDCODE True;
     _ \<leftarrow> xcf_data_register hw 32 (be_bytes32 0);
     _ \<leftarrow> jtag_TLR plx9030 hw;
     _ \<leftarrow> xcf_instruction hw irlen XCFXXP_ISC_ENABLE True;
     _ \<leftarrow> xcf_data_register hw 8 (be_bytes32 0xd0000000);
     _ \<leftarrow> xcf_instruction hw irlen XCFXXP_XSC_UNLOCK True;
     _ \<leftarrow> xcf_data_register hw 24 (be_bytes32 0x00003f00);
     _ \<leftarrow> erase_flash hw irlen;
     _ \<leftarrow> erase_clocks hw XCF_ERASE_SCHEDULE_COUNT;
     _ \<leftarrow> xcf_instruction hw irlen XCFXXP_IDCODE True;
     _ \<leftarrow> xcf_data_register hw 32 (be_bytes32 0);
     _ \<leftarrow> xcf_instruction hw irlen XCFXXP_ISC_ENABLE True;
     _ \<leftarrow> xcf_data_register hw 8 (be_bytes32 0x03000000);
     _ \<leftarrow> xcf_instruction hw irlen XCFXXP_XSC_DATA_BTC True;
     _ \<leftarrow> xcf_data_register hw 32 (be_bytes32 0xffffffe0);
     _ \<leftarrow> xcf_instruction hw irlen XCFXXP_ISC_PROGRAM True;
     _ \<leftarrow> jtag_pulseTCK plx9030 hw 120;
     xcf_instruction hw irlen XCFXXP_BYPASS True
   }"

definition jtag_9030_XCF_progstart :: "reg_hw \<Rightarrow> int dev" where
  "jtag_9030_XCF_progstart hw = do {
     _ \<leftarrow> jtag_open plx9030;
     result \<leftarrow> jtag_9030_validate hw;
     irlen \<leftarrow> get_dev fpgairlen;
     if result < 0 then State_Monad.return result
     else do {
       _ \<leftarrow> on_reg (xcf_program hw irlen);
       State_Monad.return 0
     }
   }"

definition swap_bits :: "u8 \<Rightarrow> u8" where
  "swap_bits bits =
     push_bit 7 (bits AND 0x01) OR push_bit 5 (bits AND 0x02) OR push_bit 3 (bits AND 0x04)
     OR push_bit 1 (bits AND 0x08) OR drop_bit 1 (bits AND 0x10) OR drop_bit 3 (bits AND 0x20)
     OR drop_bit 5 (bits AND 0x40) OR drop_bit 7 (bits AND 0x80)"

text \<open>One round of the loop of \<^verbatim>\<open>XCF_write\<close>; the address is an \<^verbatim>\<open>int\<close>.\<close>

definition write_block :: "reg_hw \<Rightarrow> int \<Rightarrow> u8 list \<Rightarrow> int \<Rightarrow> nat \<Rightarrow> unit reg" where
  "write_block hw irlen data addr block = do {
     let n = addr sdiv 32 + int block;
     _ \<leftarrow> (if n = 32768 then do {
         _ \<leftarrow> op_status hw irlen;
         xcf_instruction hw irlen XCFXXP_BYPASS True
       } else State_Monad.return ());
     _ \<leftarrow> xcf_instruction hw irlen XCFXXP_ISC_DATA_SHIFT True;
     let din = map (\<lambda>j. swap_bits (data ! (32 * block + (31 - j)))) [0..<32];
     _ \<leftarrow> xcf_data_register hw 256 din;
     _ \<leftarrow> (if block = 0 \<or> block = 32768 then do {
         _ \<leftarrow> xcf_instruction hw irlen XCFXXP_ISC_ADDRESS_SHIFT True;
         _ \<leftarrow> xcf_data_register hw 24 (be_bytes32 (push_bit 13 (word_of_int n)));
         State_Monad.return ()
       } else State_Monad.return ());
     _ \<leftarrow> xcf_instruction hw irlen XCFXXP_ISC_PROGRAM True;
     jtag_pulseTCK plx9030 hw 1000
   }"

fun write_blocks :: "reg_hw \<Rightarrow> int \<Rightarrow> u8 list \<Rightarrow> int \<Rightarrow> nat \<Rightarrow> nat \<Rightarrow> unit reg" where
  "write_blocks hw irlen data addr block 0 = State_Monad.return ()"
| "write_blocks hw irlen data addr block (Suc n) = do {
     _ \<leftarrow> write_block hw irlen data addr block;
     write_blocks hw irlen data addr (Suc block) n
   }"

definition jtag_9030_XCF_write :: "reg_hw \<Rightarrow> u8 list \<Rightarrow> int \<Rightarrow> nat \<Rightarrow> int dev" where
  "jtag_9030_XCF_write hw data addr n = do {
     irlen \<leftarrow> get_dev fpgairlen;
     _ \<leftarrow> on_reg (write_blocks hw irlen data addr 0 (n div 32));
     State_Monad.return 0
   }"

text \<open>Programming one of the special registers of the flash.\<close>

definition program_register :: "reg_hw \<Rightarrow> int \<Rightarrow> u32 \<Rightarrow> nat \<Rightarrow> u32 \<Rightarrow> unit reg" where
  "program_register hw irlen code drlen v = do {
     _ \<leftarrow> xcf_instruction hw irlen code True;
     _ \<leftarrow> xcf_data_register hw drlen (be_bytes32 v);
     _ \<leftarrow> xcf_instruction hw irlen XCFXXP_ISC_PROGRAM True;
     jtag_pulseTCK plx9030 hw 60
   }"

definition jtag_9030_XCF_progend :: "reg_hw \<Rightarrow> int dev" where
  "jtag_9030_XCF_progend hw = do {
     irlen \<leftarrow> get_dev fpgairlen;
     _ \<leftarrow> on_reg (op_status hw irlen);
     _ \<leftarrow> on_reg (program_register hw irlen XCFXXP_XSC_DATA_SUCR 16 0xfffc0000);
     _ \<leftarrow> on_reg (program_register hw irlen XCFXXP_XSC_DATA_CCB 16 0xffff0000);
     _ \<leftarrow> on_reg (program_register hw irlen XCFXXP_XSC_DATA_DONE 8 0xce000000);
     _ \<leftarrow> on_reg (xcf_instruction hw irlen XCFXXP_ISC_DISABLE True);
     _ \<leftarrow> on_reg (jtag_pulseTCK plx9030 hw 50);
     _ \<leftarrow> on_reg (jtag_TLR plx9030 hw);
     _ \<leftarrow> jtag_release plx9030;
     State_Monad.return 0
   }"

end
