(* ===== verification/KernelTap.thy ===== *)
theory KernelTap
  imports KernelJtag
begin

text \<open>
  The other side of the JTAG interface: the state machine that every device of the chain has (IEEE 1149.1)
  follows the edges of the clock line, and what is shifted in between makes the scans of the instruction and data
  registers. The functions that move the lines are shown to be the operations of a player of scans, for
  every chain of devices, on both bridges.
\<close>

section \<open>The state machine of the devices\<close>

datatype tap_state =
    TestLogicReset | RunTestIdle
  | SelectDR | CaptureDR | ShiftDR | Exit1DR | PauseDR | Exit2DR | UpdateDR
  | SelectIR | CaptureIR | ShiftIR | Exit1IR | PauseIR | Exit2IR | UpdateIR

fun next_state :: "bool \<Rightarrow> tap_state \<Rightarrow> tap_state" where
  "next_state tms TestLogicReset = (if tms then TestLogicReset else RunTestIdle)"
| "next_state tms RunTestIdle = (if tms then SelectDR else RunTestIdle)"
| "next_state tms SelectDR = (if tms then SelectIR else CaptureDR)"
| "next_state tms CaptureDR = (if tms then Exit1DR else ShiftDR)"
| "next_state tms ShiftDR = (if tms then Exit1DR else ShiftDR)"
| "next_state tms Exit1DR = (if tms then UpdateDR else PauseDR)"
| "next_state tms PauseDR = (if tms then Exit2DR else PauseDR)"
| "next_state tms Exit2DR = (if tms then UpdateDR else ShiftDR)"
| "next_state tms UpdateDR = (if tms then SelectDR else RunTestIdle)"
| "next_state tms SelectIR = (if tms then TestLogicReset else CaptureIR)"
| "next_state tms CaptureIR = (if tms then Exit1IR else ShiftIR)"
| "next_state tms ShiftIR = (if tms then Exit1IR else ShiftIR)"
| "next_state tms Exit1IR = (if tms then UpdateIR else PauseIR)"
| "next_state tms PauseIR = (if tms then Exit2IR else PauseIR)"
| "next_state tms Exit2IR = (if tms then UpdateIR else ShiftIR)"
| "next_state tms UpdateIR = (if tms then SelectDR else RunTestIdle)"

text \<open>
  What has happened on the interface: scans with the bits that were sent and received, clocks in the idle
  state, and resets.
\<close>

datatype scan = IR "bool list" "bool list" | DR "bool list" "bool list" | Run nat | Reset

text \<open>
  The state of a chain: the state of the machine, the bits shifted since the last capture, the clocks that
  ended in the idle state since it was entered, and the scans so far.
\<close>

record tap =
  state :: tap_state
  sent :: "bool list"
  received :: "bool list"
  run :: nat
  scans :: "scan list"

text \<open>A chain of devices gives the level of \<^verbatim>\<open>TDO\<close> from what has happened.\<close>

type_synonym chain = "tap \<Rightarrow> bool"

definition clock :: "chain \<Rightarrow> bool \<Rightarrow> bool \<Rightarrow> tap \<Rightarrow> tap" where
  "clock chain tms tdi t =
     (let s = next_state tms (state t);
          shifting = state t \<in> {ShiftDR, ShiftIR};
          captured = s \<in> {CaptureDR, CaptureIR}
      in \<lparr>state = s,
          sent = (if shifting then sent t @ [tdi] else if captured then [] else sent t),
          received = (if shifting then received t @ [chain t] else if captured then [] else received t),
          run = (if s = RunTestIdle then run t + 1 else 0),
          scans = scans t
            @ (if state t = RunTestIdle \<and> s \<noteq> RunTestIdle then [Run (run t)]
               else if s = UpdateDR then [DR (sent t) (received t)]
               else if s = UpdateIR then [IR (sent t) (received t)]
               else if s = TestLogicReset \<and> state t \<noteq> TestLogicReset then [Reset]
               else [])\<rparr>)"

lemma clock_simps [simp]:
  "state (clock chain tms tdi t) = next_state tms (state t)"
  "run (clock chain tms tdi t) = (if next_state tms (state t) = RunTestIdle then run t + 1 else 0)"
  by (simp_all add: clock_def Let_def)

text \<open>Shifting bits, the last of them with \<^verbatim>\<open>TMS\<close> set if the register is left; and what is received meanwhile.\<close>

fun feed :: "chain \<Rightarrow> bool \<Rightarrow> bool list \<Rightarrow> tap \<Rightarrow> tap" where
  "feed chain leave [] t = t"
| "feed chain leave (x # xs) t = feed chain leave xs (clock chain (leave \<and> xs = []) x t)"

fun outs :: "chain \<Rightarrow> bool list \<Rightarrow> tap \<Rightarrow> bool list" where
  "outs chain [] t = []"
| "outs chain (x # xs) t = chain t # outs chain xs (clock chain False x t)"

lemma length_outs [simp]: "length (outs chain xs t) = length xs"
  by (induction xs arbitrary: t) simp_all

lemma feed_append:
  "ys \<noteq> [] \<Longrightarrow> feed chain leave (xs @ ys) t = feed chain leave ys (feed chain False xs t)"
  by (induction xs arbitrary: t) simp_all

lemma outs_append: "outs chain (xs @ ys) t = outs chain xs t @ outs chain ys (feed chain False xs t)"
  by (induction xs arbitrary: t) simp_all

definition shifting :: "tap \<Rightarrow> bool" where
  "shifting t \<longleftrightarrow> state t \<in> {ShiftDR, ShiftIR}"

lemma clock_shifting:
  "shifting t \<Longrightarrow> clock chain False x t = t\<lparr>sent := sent t @ [x], received := received t @ [chain t], run := 0\<rparr>"
  "state t = ShiftDR \<Longrightarrow> clock chain True x t =
     t\<lparr>state := Exit1DR, sent := sent t @ [x], received := received t @ [chain t], run := 0\<rparr>"
  "state t = ShiftIR \<Longrightarrow> clock chain True x t =
     t\<lparr>state := Exit1IR, sent := sent t @ [x], received := received t @ [chain t], run := 0\<rparr>"
  by (auto simp: clock_def shifting_def Let_def)

lemma shifting_update [simp]:
  "shifting (t\<lparr>sent := xs\<rparr>) = shifting t" "shifting (t\<lparr>received := ys\<rparr>) = shifting t" "shifting (t\<lparr>run := n\<rparr>) = shifting t"
  by (simp_all add: shifting_def)

lemma feed_stays:
  "shifting t \<Longrightarrow> run t = 0 \<Longrightarrow>
     feed chain False xs t = t\<lparr>sent := sent t @ xs, received := received t @ outs chain xs t\<rparr>"
proof (induction xs arbitrary: t)
  case (Cons x xs)
  then show ?case by (simp add: clock_shifting)
qed simp

lemma feed_leaves:
  assumes "state t = ShiftDR \<or> state t = ShiftIR" "run t = 0" "xs \<noteq> []"
  shows "feed chain True xs t =
    t\<lparr>state := (if state t = ShiftDR then Exit1DR else Exit1IR), sent := sent t @ xs,
      received := received t @ outs chain xs t\<rparr>"
proof -
  have t: "shifting t" using assms(1) by (auto simp: shifting_def)
  obtain ys y where xs: "xs = ys @ [y]" using assms(3) by (metis rev_exhaust)
  show ?thesis
    using assms(1,2) unfolding xs by (auto simp: feed_append feed_stays [OF t] outs_append clock_shifting)
qed

section \<open>The edges of the clock line\<close>

text \<open>
  The values of the lines are those of the last value that was written, and a rising edge is a clock. Before the
  first write they are low.
\<close>

fun pins :: "reg_event list \<Rightarrow> u32" where
  "pins [] = 0"
| "pins (Wr v # h) = v"
| "pins (Rd v # h) = pins h"

fun tap_of :: "bridge \<Rightarrow> chain \<Rightarrow> tap \<Rightarrow> reg_event list \<Rightarrow> tap" where
  "tap_of b chain t0 [] = t0"
| "tap_of b chain t0 (Rd v # h) = tap_of b chain t0 h"
| "tap_of b chain t0 (Wr v # h) =
     (if pins h AND TCK b = 0 \<and> v AND TCK b \<noteq> 0
      then clock chain (v AND TMS b \<noteq> 0) (v AND TDI b \<noteq> 0) (tap_of b chain t0 h)
      else tap_of b chain t0 h)"

text \<open>
  What is assumed of the register: the bits of the lines are read as they were written, and the bit of
  \<^verbatim>\<open>TDO\<close> is the level that the chain gives.
\<close>

definition connected :: "bridge \<Rightarrow> chain \<Rightarrow> tap \<Rightarrow> reg_hw \<Rightarrow> bool" where
  "connected b chain t0 hw \<longleftrightarrow>
     (\<forall>h. hw h AND TMS b = pins h AND TMS b \<and> hw h AND TDI b = pins h AND TDI b \<and> hw h AND TCK b = pins h AND TCK b
        \<and> (hw h AND TDO b \<noteq> 0 \<longleftrightarrow> chain (tap_of b chain t0 h)))"

definition tms :: "bridge \<Rightarrow> reg_event list \<Rightarrow> bool" where
  "tms b h \<longleftrightarrow> pins h AND TMS b \<noteq> 0"

definition tdi :: "bridge \<Rightarrow> reg_event list \<Rightarrow> bool" where
  "tdi b h \<longleftrightarrow> pins h AND TDI b \<noteq> 0"

lemma wp_reg [simp]:
  "wp (read_reg hw) Q h = Q (hw h) (Rd (hw h) # h)" "wp (write_reg v) Q' h = Q' () (Wr v # h)"
  by (simp_all add: wp_def read_reg_def write_reg_def Let_def)

lemma lines_simps [simp]:
  "tms b (Wr v # h) = (v AND TMS b \<noteq> 0)" "tms b (Rd v # h) = tms b h"
  "tdi b (Wr v # h) = (v AND TDI b \<noteq> 0)" "tdi b (Rd v # h) = tdi b h"
  by (simp_all add: tms_def tdi_def)


text \<open>Setting and clearing bits of a word, seen through another mask.\<close>

lemma mask_simps:
  fixes a c v :: u32
  shows "a AND c = 0 \<Longrightarrow> (v OR a) AND c = v AND c" "a AND c = 0 \<Longrightarrow> (v AND NOT a) AND c = v AND c"
    "a \<noteq> 0 \<Longrightarrow> (v OR a) AND a \<noteq> 0" "(v AND NOT a) AND a = 0"
proof -
  have bits: "(v OR a) AND c = (v AND c) OR (a AND c)" "(v AND NOT a) AND c = (v AND c) AND NOT (a AND c)"
    "(v OR a) AND a = a" "(v AND NOT a) AND a = 0"
    by (auto simp: bit_simps intro!: bit_word_eqI)
  show "a AND c = 0 \<Longrightarrow> (v OR a) AND c = v AND c" "a AND c = 0 \<Longrightarrow> (v AND NOT a) AND c = v AND c"
    "a \<noteq> 0 \<Longrightarrow> (v OR a) AND a \<noteq> 0" "(v AND NOT a) AND a = 0"
    using bits by simp_all
qed

definition low :: "bridge \<Rightarrow> reg_event list \<Rightarrow> bool" where
  "low b h \<longleftrightarrow> pins h AND TCK b = 0"

lemma low_simps [simp]: "low b (Wr v # h) = (v AND TCK b = 0)" "low b (Rd v # h) = low b h"
  by (simp_all add: low_def)

lemma connectedD:
  assumes "connected b chain t0 hw"
  shows "hw h AND TMS b = 0 \<longleftrightarrow> \<not> tms b h" "hw h AND TDI b = 0 \<longleftrightarrow> \<not> tdi b h" "hw h AND TCK b = 0 \<longleftrightarrow> low b h"
    "hw h AND TDO b = 0 \<longleftrightarrow> \<not> chain (tap_of b chain t0 h)"
  using assms by (auto simp: connected_def tms_def tdi_def low_def)

text \<open>The interface of a bridge: four different bits of its register.\<close>

locale jtag_bridge =
  fixes b :: bridge
  assumes lines_exist: "TMS b \<noteq> 0" "TDI b \<noteq> 0" "TCK b \<noteq> 0"
    and lines_differ: "TMS b AND TDI b = 0" "TMS b AND TCK b = 0" "TDI b AND TCK b = 0"
      "TDI b AND TMS b = 0" "TCK b AND TMS b = 0" "TCK b AND TDI b = 0"
begin

lemmas bits = mask_simps [where a = "TMS b"] mask_simps [where a = "TDI b"] mask_simps [where a = "TCK b"]
  lines_exist lines_differ

lemma tap_of_write [simp]: "v AND TCK b = 0 \<Longrightarrow> tap_of b chain t0 (Wr v # h) = tap_of b chain t0 h"
  by simp

lemma wp_pulses:
  assumes "g AND TCK b = 0"
  shows "wp (pulses b g n) (\<lambda>_ h'. tap_of b chain t0 h' =
    (clock chain (g AND TMS b \<noteq> 0) (g AND TDI b \<noteq> 0) ^^ n) (tap_of b chain t0 h)) h"
proof (induction n arbitrary: h)
  case (Suc n)
  show ?case
    using assms by (auto intro!: wp_mono [OF Suc] simp: bits funpow_swap1)
qed simp

lemma wp_pulseTCK:
  assumes "connected b chain t0 hw"
  shows "wp (jtag_pulseTCK b hw n) (\<lambda>_ h'. low b h' \<and> tms b h' = tms b h \<and> tdi b h' = tdi b h
    \<and> tap_of b chain t0 h' = (clock chain (tms b h) (tdi b h) ^^ n) (tap_of b chain t0 h)) h"
  unfolding jtag_pulseTCK_def wp_bind wp_reg Let_def
  by (rule wp_mono [OF wp_pulses [where chain = chain and ?t0.0 = t0]])
    (simp_all add: bits connectedD [OF assms])

end

interpretation pci9030: jtag_bridge plx9030
  by unfold_locales
    (simp_all add: plx9030_def PLX9030_GPIOC_GPIO0_DATA_def PLX9030_GPIOC_GPIO1_DATA_def PLX9030_GPIOC_GPIO3_DATA_def)

interpretation pci9056: jtag_bridge plx9056
  by unfold_locales
    (simp_all add: plx9056_def PLX9056_CNTRL_TMS_def PLX9056_CNTRL_EEDI_def PLX9056_CNTRL_EESK_def)


section \<open>Moving through the states\<close>

definition idle :: "tap \<Rightarrow> bool" where
  "idle t \<longleftrightarrow> state t = RunTestIdle \<and> run t > 0 \<or> state t = TestLogicReset \<and> run t = 0"

definition begin_scan :: "tap_state \<Rightarrow> tap \<Rightarrow> tap" where
  "begin_scan s t = t\<lparr>state := s, sent := [], received := [], run := 0, scans := scans t @ [Run (run t + 1)]\<rparr>"

text \<open>Leaving a scan towards the idle state.\<close>

definition end_scan :: "tap \<Rightarrow> tap" where
  "end_scan t = t\<lparr>state := RunTestIdle, run := 1, scans := scans t
     @ [if state t = Exit1DR then DR (sent t) (received t) else IR (sent t) (received t)]\<rparr>"

text \<open>What one clock does in each state outside of the shift states.\<close>

lemma clock_steps:
  "state t = TestLogicReset \<Longrightarrow> clock chain True x t = t\<lparr>run := 0\<rparr>"
  "state t = TestLogicReset \<Longrightarrow> clock chain False x t = t\<lparr>state := RunTestIdle, run := run t + 1\<rparr>"
  "state t = RunTestIdle \<Longrightarrow> clock chain False x t = t\<lparr>run := run t + 1\<rparr>"
  "state t = RunTestIdle \<Longrightarrow> clock chain True x t = t\<lparr>state := SelectDR, run := 0, scans := scans t @ [Run (run t)]\<rparr>"
  "state t = SelectDR \<Longrightarrow> clock chain True x t = t\<lparr>state := SelectIR, run := 0\<rparr>"
  "state t = SelectDR \<Longrightarrow> clock chain False x t = t\<lparr>state := CaptureDR, sent := [], received := [], run := 0\<rparr>"
  "state t = SelectIR \<Longrightarrow> clock chain True x t = t\<lparr>state := TestLogicReset, run := 0, scans := scans t @ [Reset]\<rparr>"
  "state t = SelectIR \<Longrightarrow> clock chain False x t = t\<lparr>state := CaptureIR, sent := [], received := [], run := 0\<rparr>"
  "state t = CaptureDR \<Longrightarrow> clock chain False x t = t\<lparr>state := ShiftDR, run := 0\<rparr>"
  "state t = CaptureIR \<Longrightarrow> clock chain False x t = t\<lparr>state := ShiftIR, run := 0\<rparr>"
  "state t = Exit1DR \<Longrightarrow> clock chain True x t = t\<lparr>state := UpdateDR, run := 0, scans := scans t @ [DR (sent t) (received t)]\<rparr>"
  "state t = Exit1IR \<Longrightarrow> clock chain True x t = t\<lparr>state := UpdateIR, run := 0, scans := scans t @ [IR (sent t) (received t)]\<rparr>"
  "state t = Exit1IR \<Longrightarrow> clock chain False x t = t\<lparr>state := PauseIR, run := 0\<rparr>"
  "state t = PauseIR \<Longrightarrow> clock chain False x t = t\<lparr>run := 0\<rparr>"
  "state t = PauseIR \<Longrightarrow> clock chain True x t = t\<lparr>state := Exit2IR, run := 0\<rparr>"
  "state t = Exit2IR \<Longrightarrow> clock chain True x t = t\<lparr>state := UpdateIR, run := 0, scans := scans t @ [IR (sent t) (received t)]\<rparr>"
  "state t = UpdateDR \<Longrightarrow> clock chain True x t = t\<lparr>state := SelectDR, run := 0\<rparr>"
  "state t = UpdateIR \<Longrightarrow> clock chain True x t = t\<lparr>state := SelectDR, run := 0\<rparr>"
  "state t = UpdateDR \<Longrightarrow> clock chain False x t = t\<lparr>state := RunTestIdle, run := run t + 1\<rparr>"
  "state t = UpdateIR \<Longrightarrow> clock chain False x t = t\<lparr>state := RunTestIdle, run := run t + 1\<rparr>"
  by (cases t, simp add: clock_def Let_def)+

lemma to_shift:
  assumes "idle t"
  shows "(clock chain False w ^^ 2) ((clock chain True v ^^ 2) (clock chain False u t)) = begin_scan ShiftIR t"
    "(clock chain False w ^^ 2) (clock chain True v (clock chain False u t)) = begin_scan ShiftDR t"
  proof -
  consider "state t = RunTestIdle" | "state t = TestLogicReset" "run t = 0" using assms by (auto simp: idle_def)
  note cases = this
  show "(clock chain False w ^^ 2) ((clock chain True v ^^ 2) (clock chain False u t)) = begin_scan ShiftIR t"
    using cases by cases (simp_all add: clock_steps begin_scan_def numeral_2_eq_2)
  show "(clock chain False w ^^ 2) (clock chain True v (clock chain False u t)) = begin_scan ShiftDR t"
    using cases by cases (simp_all add: clock_steps begin_scan_def numeral_2_eq_2)
qed

lemma from_exit:
  assumes "state t = Exit1DR \<or> state t = Exit1IR" "run t = 0"
  shows "clock chain False w (clock chain True v t) = end_scan t"
    "(clock chain False w ^^ 2) ((clock chain True v ^^ 2) t) =
       (end_scan t)\<lparr>state := ShiftDR, sent := [], received := [], run := 0\<rparr>"
  using assms by (elim disjE; simp add: clock_steps end_scan_def numeral_2_eq_2)+

text \<open>Five clocks with \<^verbatim>\<open>TMS\<close> set lead to the reset state from every state.\<close>

definition reset_tap :: "chain \<Rightarrow> bool \<Rightarrow> tap \<Rightarrow> tap" where
  "reset_tap chain x t = (clock chain True x ^^ 5) t"

lemma reset_tap_state: "state (reset_tap chain x t) = TestLogicReset" "run (reset_tap chain x t) = 0"
  by (cases "state t"; simp add: reset_tap_def numeral_eq_Suc)+

lemma idle_reset [simp]: "idle (reset_tap chain x t)"
  by (simp add: idle_def reset_tap_state)

lemma reset_idle:
  assumes "idle t"
  shows "reset_tap chain x t = t\<lparr>state := TestLogicReset, run := 0,
    scans := scans t @ (if state t = RunTestIdle then [Run (run t), Reset] else [])\<rparr>"
proof -
  have five: "(f ^^ 5) y = f (f (f (f (f y))))" for f :: "tap \<Rightarrow> tap" and y
    by (simp add: numeral_eq_Suc)
  consider "state t = RunTestIdle" | "state t = TestLogicReset" "run t = 0" using assms by (auto simp: idle_def)
  then show ?thesis by cases (simp_all add: reset_tap_def five clock_steps)
qed

lemma idle_clocks:
  "state t = RunTestIdle \<Longrightarrow> (clock chain False x ^^ n) t = t\<lparr>run := run t + n\<rparr>"
  by (induction n) (simp_all add: clock_steps)

lemma pow_one: "((f :: tap \<Rightarrow> tap) ^^ 1) t = f t"
  by simp

section \<open>Shifting words\<close>

definition bits_of :: "nat \<Rightarrow> u32 \<Rightarrow> bool list" where
  "bits_of n w = map (bit w) [0..<n]"

definition word_of :: "bool list \<Rightarrow> u32" where
  "word_of bs = horner_sum of_bool 2 bs"

lemma bit_word_of: "bit (word_of bs) n \<longleftrightarrow> n < min 32 (length bs) \<and> bs ! n"
  by (simp add: word_of_def bit_horner_sum_bit_word_iff)

lemma bits_of_Suc: "n < 32 \<Longrightarrow> bits_of (Suc n) w = bit w 0 # bits_of n (signed_drop_bit 1 w)"
  by (auto simp: bits_of_def upt_conv_Cons bit_signed_drop_bit_iff map_Suc_upt [symmetric] simp del: upt_Suc)

lemma length_bits_of [simp]: "length (bits_of n w) = n" "bits_of n w = [] \<longleftrightarrow> n = 0"
  by (simp_all add: bits_of_def)

lemma push_word_of_Cons:
  assumes "length xs < 32"
  shows "push_bit (32 - Suc (length xs)) (if x then 1 else 0) OR push_bit (32 - length xs) (word_of xs)
    = push_bit (32 - Suc (length xs)) (word_of (x # xs))"
proof (rule bit_word_eqI)
  fix n :: nat
  assume "n < LENGTH(32)"
  then show "bit (push_bit (32 - Suc (length xs)) (if x then 1 else 0) OR push_bit (32 - length xs) (word_of xs)) n
    = bit (push_bit (32 - Suc (length xs)) (word_of (x # xs))) n"
    using assms by (auto simp: bit_simps bit_word_of nth_Cons' split: if_splits)
qed


text \<open>The lines and the state of the chain after a function that leaves the clock line low.\<close>

definition after :: "bridge \<Rightarrow> chain \<Rightarrow> tap \<Rightarrow> bool \<Rightarrow> tap \<Rightarrow> reg_event list \<Rightarrow> bool" where
  "after b chain t0 x t h \<longleftrightarrow> low b h \<and> tms b h = x \<and> tap_of b chain t0 h = t"

context jtag_bridge
begin

lemma wp_shift_bits:
  assumes "connected b chain t0 hw"
  shows "low b h \<Longrightarrow> n \<le> 32 \<Longrightarrow> g AND TCK b = 0 \<Longrightarrow> g AND TDI b = 0 \<Longrightarrow> g AND TMS b = 0 \<Longrightarrow> n \<noteq> 0 \<Longrightarrow>
    wp (shift_bits b hw leave n g w rd) (\<lambda>r h'.
      after b chain t0 leave (feed chain leave (bits_of n w) (tap_of b chain t0 h)) h'
      \<and> r = rd OR push_bit (32 - n) (word_of (outs chain (bits_of n w) (tap_of b chain t0 h)))) h"
proof (induction n arbitrary: h w rd)
  case (Suc n)
  let ?t = "tap_of b chain t0 h"
  let ?g = "if leave \<and> n = 0 then g OR TMS b else g"
  let ?v = "if w AND 1 \<noteq> 0 then ?g OR TDI b else ?g"
  let ?h1 = "Wr ?v # h"
  let ?h2 = "Rd (hw ?h1) # ?h1"
  let ?t' = "clock chain (leave \<and> n = 0) (bit w 0) ?t"
  let ?rd = "rd OR push_bit (32 - Suc n) (if chain ?t then 1 else 0)"
  have w0: "w AND 1 \<noteq> 0 \<longleftrightarrow> bit w 0" by (auto simp: and_one_eq bit_0 odd_iff_mod_2_eq_one)
  have v: "?v AND TCK b = 0" "(?v AND TMS b \<noteq> 0) = (leave \<and> n = 0)" "(?v AND TDI b \<noteq> 0) = bit w 0"
    using Suc.prems w0 by (simp_all add: bits)
  have h1: "tap_of b chain t0 ?h1 = ?t" "low b ?h1" "tms b ?h1 = (leave \<and> n = 0)" "tdi b ?h1 = bit w 0"
    using v by simp_all
  have tdo: "hw ?h1 AND TDO b \<noteq> 0 \<longleftrightarrow> chain ?t" using connectedD(4) [OF assms, of ?h1] h1(1) by simp
  have rest: "wp (shift_bits b hw leave n ?g (signed_drop_bit 1 w) ?rd) (\<lambda>r h'.
      after b chain t0 leave (feed chain leave (bits_of (Suc n) w) ?t) h'
      \<and> r = rd OR push_bit (32 - Suc n) (word_of (outs chain (bits_of (Suc n) w) ?t))) h3"
    if h3: "low b h3" "tms b h3 = (leave \<and> n = 0)" "tap_of b chain t0 h3 = ?t'" for h3
  proof (cases "n = 0")
    case True
    then show ?thesis using h3 by (simp add: after_def bits_of_Suc push_word_of_Cons [of "[]", simplified]) (simp add: bits_of_def)
  next
    case False
    have b: "bits_of (Suc n) w = bit w 0 # bits_of n (signed_drop_bit 1 w)" using Suc.prems by (simp add: bits_of_Suc)
    have o: "?rd OR push_bit (32 - n) (word_of (outs chain (bits_of n (signed_drop_bit 1 w)) ?t')) =
        rd OR push_bit (32 - Suc n) (word_of (outs chain (bits_of (Suc n) w) ?t))"
      using push_word_of_Cons [of "outs chain (bits_of n (signed_drop_bit 1 w)) ?t'" "chain ?t"] Suc.prems False b
      by (simp add: or.assoc)
    have f: "feed chain leave (bits_of (Suc n) w) ?t = feed chain leave (bits_of n (signed_drop_bit 1 w)) ?t'"
      using b False by simp
    have g: "?g = g" using False by simp
    show ?thesis
      unfolding f o [symmetric] g using h3 Suc.prems False
      by (intro Suc.IH [of h3 "signed_drop_bit 1 w" ?rd, unfolded h3(3)]) simp_all
  qed
  show ?case
    unfolding shift_bits.simps Let_def wp_bind wp_reg
  proof (rule wp_mono [OF wp_pulseTCK [OF assms, where n = 1 and h = ?h2]])
    fix r :: unit and h3
    assume h3: "low b h3 \<and> tms b h3 = tms b ?h2 \<and> tdi b h3 = tdi b ?h2 \<and>
      tap_of b chain t0 h3 = (clock chain (tms b ?h2) (tdi b ?h2) ^^ 1) (tap_of b chain t0 ?h2)"
    have "tap_of b chain t0 h3 = ?t'" "tms b h3 = (leave \<and> n = 0)" "low b h3"
      using h3 h1 by simp_all
    then show "wp (shift_bits b hw leave n ?g (signed_drop_bit 1 w)
        (rd OR push_bit (32 - Suc n) (if hw ?h1 AND TDO b \<noteq> 0 then 1 else 0)))
      (\<lambda>r h'. after b chain t0 leave (feed chain leave (bits_of (Suc n) w) ?t) h' \<and>
        r = rd OR push_bit (32 - Suc n) (word_of (outs chain (bits_of (Suc n) w) ?t))) h3"
      using rest [of h3] tdo by simp
  qed
qed simp

lemma wp_SDI:
  assumes "connected b chain t0 hw" "after b chain t0 False t h" "1 \<le> n" "n \<le> 32"
  shows "wp (jtag_SDI b hw (int n) w tdo leave) (\<lambda>r h'.
    after b chain t0 leave (feed chain leave (bits_of n w) t) h'
    \<and> r = (0, push_bit (32 - n) (word_of (outs chain (bits_of n w) t)))) h"
proof -
  let ?h = "Rd (hw h) # h"
  have t: "tap_of b chain t0 ?h = t" using assms(2) by (simp add: after_def)
  have low: "low b ?h" "(hw h AND NOT (TDI b)) AND TCK b = 0" "(hw h AND NOT (TDI b)) AND TDI b = 0"
    "(hw h AND NOT (TDI b)) AND TMS b = 0"
    using assms(2) connectedD(1,3) [OF assms(1), of h] by (simp_all add: after_def bits)
  show ?thesis
    using assms(3,4) low
    by (simp add: jtag_SDI_def)
      (rule wp_mono [OF wp_shift_bits [OF assms(1), where h = ?h and n = n, unfolded t]]; simp)
qed

lemma wp_TLR:
  assumes "connected b chain t0 hw"
  shows "wp (jtag_TLR b hw) (\<lambda>_ h'. after b chain t0 True (reset_tap chain (tdi b h) (tap_of b chain t0 h)) h') h"
proof -
  let ?v = "hw h OR TMS b"
  let ?h = "Wr ?v # Rd (hw h) # h"
  have v: "?v AND TCK b = 0 \<longleftrightarrow> low b h" "?v AND TMS b \<noteq> 0" "?v AND TDI b = 0 \<longleftrightarrow> \<not> tdi b h"
    using connectedD [OF assms, of h] by (simp_all add: bits)
  then have h: "tap_of b chain t0 ?h = tap_of b chain t0 h" "tms b ?h" "tdi b ?h = tdi b h"
    by (auto simp: low_def)
  show ?thesis
    unfolding jtag_TLR_def wp_bind wp_reg
    by (rule wp_mono [OF wp_pulseTCK [OF assms]]) (use h in \<open>simp add: after_def reset_tap_def\<close>)
qed

text \<open>Clearing or setting \<^verbatim>\<open>TMS\<close> while the clock line is low does not clock.\<close>

lemma write_tms:
  assumes "low b h" "v AND TCK b = 0"
  shows "tap_of b chain t0 (Wr v # h) = tap_of b chain t0 h" "low b (Wr v # h)"
  using assms by simp_all

lemma wp_pulse_after:
  assumes "connected b chain t0 hw" "after b chain t0 x t h"
  shows "wp (jtag_pulseTCK b hw n) (\<lambda>_ h'. after b chain t0 x ((clock chain x (tdi b h) ^^ n) t) h') h"
  using assms(2) by (auto simp: after_def intro: wp_mono [OF wp_pulseTCK [OF assms(1)]])

lemma wp_clear_TMS:
  assumes "connected b chain t0 hw" "after b chain t0 x t h"
    "\<And>h'. after b chain t0 False t h' \<Longrightarrow> wp m Q h'"
  shows "wp (do { v \<leftarrow> read_reg hw; _ \<leftarrow> write_reg (v AND NOT (TMS b)); m }) Q h"
proof -
  let ?v = "hw h AND NOT (TMS b)"
  have "?v AND TCK b = 0" "?v AND TMS b = 0"
    using assms(2) connectedD(3) [OF assms(1), of h] by (simp_all add: after_def bits)
  then have "after b chain t0 False t (Wr ?v # Rd (hw h) # h)" using assms(2) by (simp add: after_def)
  then show ?thesis using assms(3) by simp
qed

lemma wp_TLRtoRTI:
  assumes "connected b chain t0 hw" "after b chain t0 x t h" "\<And>y. clock chain False y t = t'"
  shows "wp (jtag_TLRtoRTI b hw) (\<lambda>_ h'. after b chain t0 False t' h') h"
  unfolding jtag_TLRtoRTI_def
proof (rule wp_clear_TMS [OF assms(1,2)])
  fix h'
  assume "after b chain t0 False t h'"
  from wp_pulse_after [OF assms(1) this, of 1]
  show "wp (jtag_pulseTCK b hw 1) (\<lambda>_. after b chain t0 False t') h'" by (simp add: assms(3))
qed

text \<open>From the idle states into a register, between registers, and back.\<close>

lemma wp_TLRtoSIR:
  assumes "connected b chain t0 hw" "after b chain t0 x t h"
    and "\<And>u v w. (clock chain False w ^^ 2) ((clock chain True v ^^ 2) (clock chain False u t)) = t'"
  shows "wp (jtag_TLRtoSIR b hw) (\<lambda>_ h'. after b chain t0 False t' h') h"
proof -
  define g where "g = hw h AND NOT (TMS b)"
  have g: "g AND TCK b = 0" "g AND TMS b = 0" "(g OR TMS b) AND TCK b = 0" "(g OR TMS b) AND TMS b \<noteq> 0"
    using assms(2) connectedD(3) [OF assms(1), of h] by (simp_all add: g_def after_def bits)
  have writes: "after b chain t0 False t'' (Wr g # h')" "after b chain t0 True t'' (Wr (g OR TMS b) # h')"
    if "after b chain t0 y t'' h'" for y t'' h'
    using that g by (simp_all add: after_def)
  note pulse = wp_mono [OF wp_pulse_after [OF assms(1)]]
  have start: "after b chain t0 False t (Wr g # Rd (hw h) # h)"
    using assms(2) g by (simp add: after_def)
  show ?thesis
    unfolding jtag_TLRtoSIR_def Let_def wp_bind wp_reg g_def [symmetric]
  proof (rule pulse [OF start])
    fix r h1
    assume "after b chain t0 False ((clock chain False (tdi b (Wr g # Rd (hw h) # h)) ^^ 1) t) h1"
    from writes(2) [OF this] have h1: "after b chain t0 True (clock chain False (tdi b (Wr g # Rd (hw h) # h)) t) (Wr (g OR TMS b) # h1)"
      by (simp del: lines_simps)
    show "wp (jtag_pulseTCK b hw 2) (\<lambda>_ h'. wp (jtag_pulseTCK b hw 2) (\<lambda>_. after b chain t0 False t') (Wr g # h'))
      (Wr (g OR TMS b) # h1)"
    proof (rule pulse [OF h1])
      fix r' h2
      assume "after b chain t0 True ((clock chain True (tdi b (Wr (g OR TMS b) # h1)) ^^ 2)
        (clock chain False (tdi b (Wr g # Rd (hw h) # h)) t)) h2"
      from wp_pulse_after [OF assms(1) writes(1) [OF this], of 2]
      show "wp (jtag_pulseTCK b hw 2) (\<lambda>_. after b chain t0 False t') (Wr g # h2)"
        by (simp only: assms(3))
    qed
  qed
qed

lemma wp_TLRtoSDR:
  assumes "connected b chain t0 hw" "after b chain t0 x t h"
    and "\<And>u v w. (clock chain False w ^^ 2) (clock chain True v (clock chain False u t)) = t'"
  shows "wp (jtag_TLRtoSDR b hw) (\<lambda>_ h'. after b chain t0 False t' h') h"
proof -
  define g where "g = hw h AND NOT (TMS b)"
  have g: "g AND TCK b = 0" "g AND TMS b = 0" "(g OR TMS b) AND TCK b = 0" "(g OR TMS b) AND TMS b \<noteq> 0"
    using assms(2) connectedD(3) [OF assms(1), of h] by (simp_all add: g_def after_def bits)
  have writes: "after b chain t0 False t'' (Wr g # h')" "after b chain t0 True t'' (Wr (g OR TMS b) # h')"
    if "after b chain t0 y t'' h'" for y t'' h'
    using that g by (simp_all add: after_def)
  note pulse = wp_mono [OF wp_pulse_after [OF assms(1)]]
  have start: "after b chain t0 False t (Wr g # Rd (hw h) # h)"
    using assms(2) g by (simp add: after_def)
  show ?thesis
    unfolding jtag_TLRtoSDR_def Let_def wp_bind wp_reg g_def [symmetric]
  proof (rule pulse [OF start])
    fix r h1
    assume "after b chain t0 False ((clock chain False (tdi b (Wr g # Rd (hw h) # h)) ^^ 1) t) h1"
    from writes(2) [OF this] have h1: "after b chain t0 True (clock chain False (tdi b (Wr g # Rd (hw h) # h)) t) (Wr (g OR TMS b) # h1)"
      by (simp del: lines_simps)
    show "wp (jtag_pulseTCK b hw 1) (\<lambda>_ h'. wp (jtag_pulseTCK b hw 2) (\<lambda>_. after b chain t0 False t') (Wr g # h'))
      (Wr (g OR TMS b) # h1)"
    proof (rule pulse [OF h1])
      fix r' h2
      assume "after b chain t0 True ((clock chain True (tdi b (Wr (g OR TMS b) # h1)) ^^ 1)
        (clock chain False (tdi b (Wr g # Rd (hw h) # h)) t)) h2"
      from wp_pulse_after [OF assms(1) writes(1) [OF this], of 2]
      show "wp (jtag_pulseTCK b hw 2) (\<lambda>_. after b chain t0 False t') (Wr g # h2)"
        by (simp only: assms(3) pow_one)
    qed
  qed
qed

lemma wp_to_shift:
  assumes "connected b chain t0 hw" "after b chain t0 x t h" "idle t"
  shows "wp (jtag_TLRtoSIR b hw) (\<lambda>_ h'. after b chain t0 False (begin_scan ShiftIR t) h') h"
    "wp (jtag_TLRtoSDR b hw) (\<lambda>_ h'. after b chain t0 False (begin_scan ShiftDR t) h') h"
  using to_shift [OF assms(3)] by (auto intro: wp_TLRtoSIR [OF assms(1,2)] wp_TLRtoSDR [OF assms(1,2)])

lemma wp_from_exit:
  assumes "connected b chain t0 hw" "after b chain t0 True t h" "state t = Exit1DR \<or> state t = Exit1IR" "run t = 0"
  shows "wp (jtag_EX1toRTI b hw) (\<lambda>_ h'. after b chain t0 False (end_scan t) h') h"
    "wp (jtag_EX1toSDR b hw) (\<lambda>_ h'. after b chain t0 False
       ((end_scan t)\<lparr>state := ShiftDR, sent := [], received := [], run := 0\<rparr>) h') h"
proof -
  note pulse = wp_mono [OF wp_pulse_after [OF assms(1)]]
  show "wp (jtag_EX1toRTI b hw) (\<lambda>_ h'. after b chain t0 False (end_scan t) h') h"
    unfolding jtag_EX1toRTI_def
  proof (subst wp_bind, rule pulse [OF assms(2)], rule wp_clear_TMS [OF assms(1)], assumption)
    fix h' h''
    assume "after b chain t0 False ((clock chain True (tdi b h) ^^ 1) t) h''"
    from wp_pulse_after [OF assms(1) this, of 1]
    show "wp (jtag_pulseTCK b hw 1) (\<lambda>_. after b chain t0 False (end_scan t)) h''"
      by (simp only: pow_one from_exit(1) [OF assms(3,4)])
  qed
  show "wp (jtag_EX1toSDR b hw) (\<lambda>_ h'. after b chain t0 False
       ((end_scan t)\<lparr>state := ShiftDR, sent := [], received := [], run := 0\<rparr>) h') h"
    unfolding jtag_EX1toSDR_def
  proof (subst wp_bind, rule pulse [OF assms(2)], rule wp_clear_TMS [OF assms(1)], assumption)
    fix h' h''
    assume "after b chain t0 False ((clock chain True (tdi b h) ^^ 2) t) h''"
    from wp_pulse_after [OF assms(1) this, of 2]
    show "wp (jtag_pulseTCK b hw 2) (\<lambda>_. after b chain t0 False
        ((end_scan t)\<lparr>state := ShiftDR, sent := [], received := [], run := 0\<rparr>)) h''"
      by (simp only: from_exit(2) [OF assms(3,4)])
  qed
qed

end

end
