(* ===== verification/KernelScan.thy ===== *)
theory KernelScan
  imports KernelTap
begin

text \<open>
  The scans that \<^verbatim>\<open>SIR\<close> and \<^verbatim>\<open>SDR\<close> make: which bits are sent in which order, and which of those received end up
  in the results.
\<close>

section \<open>Scans\<close>

definition shift_scan :: "chain \<Rightarrow> tap_state \<Rightarrow> bool list \<Rightarrow> tap \<Rightarrow> tap" where
  "shift_scan chain s xs t = feed chain True xs (begin_scan s t)"

definition scan_outs :: "chain \<Rightarrow> tap_state \<Rightarrow> bool list \<Rightarrow> tap \<Rightarrow> bool list" where
  "scan_outs chain s xs t = outs chain xs (begin_scan s t)"

lemma length_scan_outs [simp]: "length (scan_outs chain s xs t) = length xs"
  by (simp add: scan_outs_def)

lemma shift_scan_simps:
  assumes "xs \<noteq> []"
  shows "shift_scan chain ShiftDR xs t = (begin_scan ShiftDR t)\<lparr>state := Exit1DR, sent := xs, received := scan_outs chain ShiftDR xs t\<rparr>"
    "shift_scan chain ShiftIR xs t = (begin_scan ShiftIR t)\<lparr>state := Exit1IR, sent := xs, received := scan_outs chain ShiftIR xs t\<rparr>"
proof -
  have "shift_scan chain s xs t = (begin_scan s t)\<lparr>state := if s = ShiftDR then Exit1DR else Exit1IR, sent := xs,
      received := scan_outs chain s xs t\<rparr>" if "s = ShiftDR \<or> s = ShiftIR" for s
    using feed_leaves [of "begin_scan s t" xs chain] that assms
    by (simp add: shift_scan_def scan_outs_def begin_scan_def)
  from this [of ShiftDR] this [of ShiftIR] show "shift_scan chain ShiftDR xs t
      = (begin_scan ShiftDR t)\<lparr>state := Exit1DR, sent := xs, received := scan_outs chain ShiftDR xs t\<rparr>"
    "shift_scan chain ShiftIR xs t
      = (begin_scan ShiftIR t)\<lparr>state := Exit1IR, sent := xs, received := scan_outs chain ShiftIR xs t\<rparr>"
    by simp_all
qed

text \<open>A register with a header and a trailer; the middle leaves the register if there is no trailer.\<close>

lemma feed_parts:
  assumes "ys \<noteq> []"
  shows "feed chain True zs (feed chain (zs = []) ys (feed chain False xs t)) = feed chain True (xs @ ys @ zs) t"
    "outs chain (xs @ ys @ zs) t = outs chain xs t @ outs chain ys (feed chain False xs t)
       @ outs chain zs (feed chain False ys (feed chain False xs t))"
  using assms by (cases "zs = []"; simp add: feed_append outs_append)+

lemma bits_of_ones: "n \<le> 32 \<Longrightarrow> bits_of n 0xffffffff = replicate n True"
proof -
  have ones: "(0xffffffff :: u32) = - 1" by simp
  show "n \<le> 32 \<Longrightarrow> bits_of n 0xffffffff = replicate n True"
    unfolding ones by (auto simp: bits_of_def intro!: nth_equalityI)
qed

lemma bits_of_zero: "bits_of n 0 = replicate n False"
  by (auto simp: bits_of_def intro!: nth_equalityI)

section \<open>Instruction registers\<close>

context jtag_bridge
begin

lemma wp_header:
  assumes "connected b chain t0 hw" "after b chain t0 False t h" "0 \<le> n" "n \<le> 32"
  shows "wp (if n > 0 then do { _ \<leftarrow> jtag_SDI b hw n w 0 False; State_Monad.return () } else State_Monad.return ())
    (\<lambda>_ h'. after b chain t0 False (feed chain False (bits_of (nat n) w) t) h') h"
  using assms(2-4) wp_mono [OF wp_SDI [OF assms(1,2), where n = "nat n"]]
  by (auto simp: bits_of_def)

lemma wp_trailer:
  assumes "connected b chain t0 hw" "after b chain t0 (n = 0) t h" "0 \<le> n" "n \<le> 32"
  shows "wp (if n > 0 then do { _ \<leftarrow> jtag_SDI b hw n w 0 True; State_Monad.return () } else State_Monad.return ())
    (\<lambda>_ h'. after b chain t0 True (feed chain True (bits_of (nat n) w) t) h') h"
proof (cases "n > 0")
  case True
  then show ?thesis
    using assms(2-4) wp_mono [OF wp_SDI [OF assms(1), where n = "nat n" and t = t and h = h]] by auto
next
  case False
  then show ?thesis using assms(2-4) by (simp add: bits_of_def)
qed

text \<open>The bits that \<^verbatim>\<open>SIR\<close> sends: the instruction between ones for the devices that are bypassed.\<close>

lemma wp_SIR:
  assumes "connected b chain t0 hw" "after b chain t0 x t h" "idle t"
    and "0 \<le> hir" "hir \<le> 32" "0 \<le> tir" "tir \<le> 32" "1 \<le> irlen" "irlen \<le> 32"
    and xs: "xs = replicate (nat hir) True @ bits_of (nat irlen) code @ replicate (nat tir) True"
  shows "wp (jtag_SIR b hw hir irlen code tir tdo tlr) (\<lambda>r h'.
    after b chain t0 (\<not> tlr) (if tlr then end_scan (shift_scan chain ShiftIR xs t) else shift_scan chain ShiftIR xs t) h'
    \<and> r = (0, push_bit (32 - nat irlen) (word_of (take (nat irlen) (drop (nat hir) (scan_outs chain ShiftIR xs t)))))) h"
proof -
  let ?t = "begin_scan ShiftIR t"
  let ?hdr = "bits_of (nat hir) 0xffffffff" and ?mid = "bits_of (nat irlen) code" and ?tlr = "bits_of (nat tir) 0xffffffff"
  have xs': "xs = ?hdr @ ?mid @ ?tlr" using assms(5,7) by (simp add: xs bits_of_ones)
  have mid: "?mid \<noteq> []" "xs \<noteq> []" using assms(8) by (simp_all add: xs)
  have parts: "feed chain True ?tlr (feed chain (tir = 0) ?mid (feed chain False ?hdr ?t)) = shift_scan chain ShiftIR xs t"
    "take (nat irlen) (drop (nat hir) (scan_outs chain ShiftIR xs t)) = outs chain ?mid (feed chain False ?hdr ?t)"
    using feed_parts [OF mid(1), where zs = ?tlr and chain = chain and xs = ?hdr and t = ?t] assms(4,6)
    by (simp_all add: shift_scan_def scan_outs_def xs')
  have exit: "state (shift_scan chain ShiftIR xs t) = Exit1IR" "run (shift_scan chain ShiftIR xs t) = 0"
    by (simp_all add: shift_scan_simps mid begin_scan_def)
  have ok: "\<not> (hir < 0 \<or> hir > 32 \<or> tir < 0 \<or> tir > 32 \<or> irlen < 1 \<or> irlen > 32)" using assms(4-9) by auto
  show ?thesis
    unfolding jtag_SIR_def if_not_P [OF ok] wp_bind
  proof (rule wp_mono [OF wp_to_shift(1) [OF assms(1-3)]], rule wp_mono [OF wp_header [OF assms(1) _ assms(4,5)]], assumption)
    fix r1 h1 r2 h2
    assume "after b chain t0 False (feed chain False ?hdr ?t) h2"
    from wp_SDI [OF assms(1) this, of "nat irlen" code 0 "tir = 0"]
    have sdi: "wp (jtag_SDI b hw irlen code 0 (tir = 0)) (\<lambda>r h'.
        after b chain t0 (tir = 0) (feed chain (tir = 0) ?mid (feed chain False ?hdr ?t)) h' \<and>
        r = (0, push_bit (32 - nat irlen) (word_of (outs chain ?mid (feed chain False ?hdr ?t))))) h2"
      using assms(8,9) by simp
    show "wp (jtag_SDI b hw irlen code 0 (tir = 0)) (\<lambda>x. wp (case x of (_, irout) \<Rightarrow> do {
        _ \<leftarrow> (if tir > 0 then do { _ \<leftarrow> jtag_SDI b hw tir 0xffffffff 0 True; State_Monad.return () } else State_Monad.return ());
        _ \<leftarrow> (if tlr then jtag_EX1toRTI b hw else State_Monad.return ());
        State_Monad.return (0, irout) })
      (\<lambda>r h'. after b chain t0 (\<not> tlr)
          (if tlr then end_scan (shift_scan chain ShiftIR xs t) else shift_scan chain ShiftIR xs t) h'
        \<and> r = (0, push_bit (32 - nat irlen) (word_of (take (nat irlen) (drop (nat hir) (scan_outs chain ShiftIR xs t))))))) h2"
      unfolding wp_prod wp_bind parts(2)
    proof (rule wp_mono [OF sdi], elim conjE, rule wp_mono [OF wp_trailer [OF assms(1) _ assms(6,7)]], assumption)
      fix r3 h3 r4 h4
      assume r3: "r3 = (0, push_bit (32 - nat irlen) (word_of (outs chain ?mid (feed chain False ?hdr ?t))))"
      assume "after b chain t0 True (feed chain True ?tlr (feed chain (tir = 0) ?mid (feed chain False ?hdr ?t))) h4"
      then have h4: "after b chain t0 True (shift_scan chain ShiftIR xs t) h4" by (simp only: parts(1))
      show "wp (if tlr then jtag_EX1toRTI b hw else State_Monad.return ()) (\<lambda>x. wp (State_Monad.return (0, snd r3))
        (\<lambda>r h'. after b chain t0 (\<not> tlr)
            (if tlr then end_scan (shift_scan chain ShiftIR xs t) else shift_scan chain ShiftIR xs t) h'
          \<and> r = (0, push_bit (32 - nat irlen) (word_of (outs chain ?mid (feed chain False ?hdr ?t)))))) h4"
        using wp_mono [OF wp_from_exit(1) [OF assms(1) h4]] h4 exit r3 by auto
    qed
  qed
qed

end


section \<open>Data registers\<close>

text \<open>Bytes as bits, the lowest bit of each first, and back.\<close>

definition byte_bits :: "u8 \<Rightarrow> bool list" where
  "byte_bits w = map (bit w) [0..<8]"

definition byte_of :: "bool list \<Rightarrow> u8" where
  "byte_of bs = horner_sum of_bool 2 bs"

definition stream :: "u8 list \<Rightarrow> bool list" where
  "stream bytes = concat (map byte_bits bytes)"

fun unstream :: "nat \<Rightarrow> bool list \<Rightarrow> u8 list" where
  "unstream 0 bs = []"
| "unstream (Suc n) bs = byte_of (take 8 bs) # unstream n (drop 8 bs)"

lemma bit_byte_of: "bit (byte_of bs) n \<longleftrightarrow> n < min 8 (length bs) \<and> bs ! n"
  by (simp add: byte_of_def bit_horner_sum_bit_word_iff)

lemma length_byte_bits [simp]: "length (byte_bits w) = 8" "byte_bits w \<noteq> []"
  by (simp_all add: byte_bits_def)

lemma byte_of_bits [simp]: "byte_of (byte_bits w) = w"
  by (rule bit_word_eqI) (simp add: bit_byte_of byte_bits_def)

lemma byte_bits_of: "length bs = 8 \<Longrightarrow> byte_bits (byte_of bs) = bs"
  by (rule nth_equalityI) (simp_all add: byte_bits_def bit_byte_of)

lemma stream_simps [simp]:
  "stream [] = []" "stream (w # ws) = byte_bits w @ stream ws" "stream (xs @ ys) = stream xs @ stream ys"
  by (simp_all add: stream_def)

lemma length_stream [simp]: "length (stream ws) = 8 * length ws" "stream ws = [] \<longleftrightarrow> ws = []"
  by (induction ws) simp_all

lemma length_unstream [simp]: "length (unstream n bs) = n"
  by (induction n arbitrary: bs) simp_all

lemma unstream_stream [simp]: "unstream (length ws) (stream ws @ bs) = ws"
  by (induction ws) simp_all

lemma bits_of_byte: "bits_of 8 (scast (w :: u8)) = byte_bits w"
  by (simp add: bits_of_def byte_bits_def bit_signed_iff)

lemma stored_byte:
  assumes "length bs = 8"
  shows "ucast (signed_drop_bit 24 (push_bit 24 (word_of bs))) = byte_of bs"
proof (rule bit_word_eqI)
  fix n :: nat
  assume "n < LENGTH(8)"
  then show "bit (ucast (signed_drop_bit 24 (push_bit 24 (word_of bs))) :: u8) n = bit (byte_of bs) n"
    using assms by (auto simp: bit_simps bit_word_of bit_byte_of bit_signed_drop_bit_iff)
qed

context jtag_bridge
begin

lemma wp_shift_bytes:
  assumes "connected b chain t0 hw"
  shows "after b chain t0 False t h \<Longrightarrow> 0 < i \<Longrightarrow> i \<le> length bytes \<Longrightarrow>
    wp (shift_bytes b hw (8 * m) tdr bytes i acc) (\<lambda>r h'.
      after b chain t0 (tdr = 0) (feed chain (tdr = 0) (stream (rev (take i bytes))) t) h'
      \<and> r = rev (unstream i (outs chain (stream (rev (take i bytes))) t)) @ acc) h"
proof (induction i arbitrary: t h acc)
  case (Suc i)
  let ?w = "bytes ! i" and ?leave = "i = 0 \<and> tdr = 0"
  let ?t = "feed chain ?leave (byte_bits ?w) t"
  let ?o = "outs chain (byte_bits ?w) t"
  have bytes: "rev (take (Suc i) bytes) = ?w # rev (take i bytes)"
    using Suc.prems by (simp add: take_Suc_conv_app_nth)
  have sdi: "wp (jtag_SDI b hw (int 8) (scast ?w) 0 ?leave) (\<lambda>r h'. after b chain t0 ?leave ?t h'
      \<and> r = (0, push_bit (32 - 8) (word_of ?o))) h"
    using wp_SDI [OF assms Suc.prems(1), of 8 "scast ?w" 0 ?leave] by (simp add: bits_of_byte)
  show ?case
    unfolding shift_bytes.simps Let_def wp_bind wp_prod
  proof (simp only: mod_mult_self1_is_0 if_False simp_thms, rule wp_mono [OF sdi], elim conjE)
    fix r :: "int \<times> u32" and h1
    assume h1: "after b chain t0 ?leave ?t h1" and r: "r = (0, push_bit (32 - 8) (word_of ?o))"
    have byte: "ucast (signed_drop_bit (32 - 8) (snd r)) = byte_of ?o"
      unfolding r by (simp add: stored_byte)
    show "wp (shift_bytes b hw (8 * m) tdr bytes i (ucast (signed_drop_bit (32 - 8) (snd r)) # acc)) (\<lambda>r h'.
        after b chain t0 (tdr = 0) (feed chain (tdr = 0) (stream (rev (take (Suc i) bytes))) t) h'
        \<and> r = rev (unstream (Suc i) (outs chain (stream (rev (take (Suc i) bytes))) t)) @ acc) h1"
    proof (cases "i = 0")
      case True
      then show ?thesis unfolding bytes byte using h1 by simp
    next
      case False
      then have rest: "stream (rev (take i bytes)) \<noteq> []" using Suc.prems by auto
      have t: "feed chain False (byte_bits ?w) t = ?t" using False by simp
      show ?thesis
        unfolding bytes stream_simps(2) feed_append [OF rest] outs_append byte t
        using Suc.IH [of ?t h1 "byte_of ?o # acc"] h1 False Suc.prems by simp
    qed
  qed
qed simp

lemma wp_SDR:
  assumes "connected b chain t0 hw" "after b chain t0 x t h" "idle t"
    and "0 \<le> hdr" "hdr \<le> 32" "0 \<le> tdr" "tdr \<le> 32" "0 < m" "m \<le> length bytes"
    and xs: "xs = replicate (nat hdr) False @ stream (rev (take m bytes)) @ replicate (nat tdr) False"
  shows "wp (jtag_SDR b hw hdr (8 * int m) bytes tdr tlr) (\<lambda>r h'.
    after b chain t0 (\<not> tlr) (if tlr then end_scan (shift_scan chain ShiftDR xs t) else shift_scan chain ShiftDR xs t) h'
    \<and> r = (0, rev (unstream m (take (8 * m) (drop (nat hdr) (scan_outs chain ShiftDR xs t)))))) h"
proof -
  let ?t = "begin_scan ShiftDR t"
  let ?hdr = "bits_of (nat hdr) 0" and ?mid = "stream (rev (take m bytes))" and ?tlr = "bits_of (nat tdr) 0"
  have xs': "xs = ?hdr @ ?mid @ ?tlr" by (simp add: xs bits_of_zero)
  have mid: "?mid \<noteq> []" "xs \<noteq> []" using assms(8,9) by (auto simp: xs)
  have parts: "feed chain True ?tlr (feed chain (tdr = 0) ?mid (feed chain False ?hdr ?t)) = shift_scan chain ShiftDR xs t"
    "take (8 * m) (drop (nat hdr) (scan_outs chain ShiftDR xs t)) = outs chain ?mid (feed chain False ?hdr ?t)"
    using feed_parts [OF mid(1), where zs = ?tlr and chain = chain and xs = ?hdr and t = ?t] assms(4,6,9)
    by (simp_all add: shift_scan_def scan_outs_def xs' min_def)
  have exit: "state (shift_scan chain ShiftDR xs t) = Exit1DR" "run (shift_scan chain ShiftDR xs t) = 0"
    by (simp_all add: shift_scan_simps mid begin_scan_def)
  have ok: "\<not> (hdr < 0 \<or> hdr > 32 \<or> tdr < 0 \<or> tdr > 32 \<or> 8 * int m < 0)" using assms(4-7) by auto
  have len: "nat (8 * int m) = 8 * m" "(8 * m + 7) div 8 = m" by simp_all
  show ?thesis
    unfolding jtag_SDR_def if_not_P [OF ok] wp_bind len
  proof (rule wp_mono [OF wp_to_shift(2) [OF assms(1-3)]], rule wp_mono [OF wp_header [OF assms(1) _ assms(4,5)]], assumption)
    fix r1 h1 r2 h2
    assume "after b chain t0 False (feed chain False ?hdr ?t) h2"
    from wp_shift_bytes [OF assms(1) this assms(8,9), of m tdr "[]"]
    have mid_wp: "wp (shift_bytes b hw (8 * m) tdr bytes m []) (\<lambda>r h'.
        after b chain t0 (tdr = 0) (feed chain (tdr = 0) ?mid (feed chain False ?hdr ?t)) h'
        \<and> r = rev (unstream m (outs chain ?mid (feed chain False ?hdr ?t)))) h2" by simp
    show "wp (shift_bytes b hw (8 * m) tdr bytes m []) (\<lambda>tdo. wp
        (if tdr > 0 then do { _ \<leftarrow> jtag_SDI b hw tdr 0 0 True; State_Monad.return () } else State_Monad.return ())
        (\<lambda>u. wp (if tlr then jtag_EX1toRTI b hw else State_Monad.return ()) (\<lambda>v. wp (State_Monad.return (0, tdo))
          (\<lambda>r h'. after b chain t0 (\<not> tlr)
            (if tlr then end_scan (shift_scan chain ShiftDR xs t) else shift_scan chain ShiftDR xs t) h'
          \<and> r = (0, rev (unstream m (take (8 * m) (drop (nat hdr) (scan_outs chain ShiftDR xs t))))))))) h2"
      unfolding parts(2)
    proof (rule wp_mono [OF mid_wp], elim conjE, rule wp_mono [OF wp_trailer [OF assms(1) _ assms(6,7)]], assumption)
      fix r3 h3 r4 h4
      assume r3: "r3 = rev (unstream m (outs chain ?mid (feed chain False ?hdr ?t)))"
      assume "after b chain t0 True (feed chain True ?tlr (feed chain (tdr = 0) ?mid (feed chain False ?hdr ?t))) h4"
      then have h4: "after b chain t0 True (shift_scan chain ShiftDR xs t) h4" by (simp only: parts(1))
      show "wp (if tlr then jtag_EX1toRTI b hw else State_Monad.return ()) (\<lambda>v. wp (State_Monad.return (0, r3))
        (\<lambda>r h'. after b chain t0 (\<not> tlr)
            (if tlr then end_scan (shift_scan chain ShiftDR xs t) else shift_scan chain ShiftDR xs t) h'
          \<and> r = (0, rev (unstream m (outs chain ?mid (feed chain False ?hdr ?t)))))) h4"
        using wp_mono [OF wp_from_exit(1) [OF assms(1) h4]] h4 exit r3 by auto
    qed
  qed
qed

end

end
