(* ===== verification/KernelPlayer.thy ===== *)
theory KernelPlayer
  imports KernelScan
begin

text \<open>
  An abstract player of scans, and what it means that a function of the driver plays a list of steps. The
  functions are composed of a few that are shown to play one step each.
\<close>

section \<open>Steps\<close>

text \<open>
  A scan of an instruction or data register that ends in the idle state, both one after the other without
  passing the idle state in between, a number of clocks in the idle state, and a reset.
\<close>

datatype step = Instruction "bool list" | Data "bool list" | Both "bool list" "bool list" | Clocks nat | To_reset

definition to_data :: "tap \<Rightarrow> tap" where
  "to_data t = t\<lparr>state := ShiftDR, sent := [], received := [], run := 0\<rparr>"

fun play1 :: "chain \<Rightarrow> step \<Rightarrow> tap \<Rightarrow> tap" where
  "play1 chain (Instruction xs) t = end_scan (shift_scan chain ShiftIR xs t)"
| "play1 chain (Data xs) t = end_scan (shift_scan chain ShiftDR xs t)"
| "play1 chain (Both xs ys) t = end_scan (feed chain True ys (to_data (end_scan (shift_scan chain ShiftIR xs t))))"
| "play1 chain (Clocks n) t = (if state t = RunTestIdle then t\<lparr>run := run t + n\<rparr> else t)"
| "play1 chain To_reset t = reset_tap chain False t"

fun play :: "chain \<Rightarrow> step list \<Rightarrow> tap \<Rightarrow> tap" where
  "play chain [] t = t"
| "play chain (s # ss) t = play chain ss (play1 chain s t)"

lemma play_append [simp]: "play chain (ss @ ss') t = play chain ss' (play chain ss t)"
  by (induction ss arbitrary: t) simp_all

text \<open>Registers have at least one bit.\<close>

fun proper :: "step \<Rightarrow> bool" where
  "proper (Instruction xs) = (xs \<noteq> [])"
| "proper (Data xs) = (xs \<noteq> [])"
| "proper (Both xs ys) = (xs \<noteq> [] \<and> ys \<noteq> [])"
| "proper s = True"

text \<open>
  What a list of steps makes on the interface, apart from the bits that are received: it depends on the clocks
  that the chain has been in the idle state for, which are 0 in the reset state.
\<close>

fun events :: "step list \<Rightarrow> nat \<Rightarrow> scan list" where
  "events [] r = []"
| "events (Instruction xs # ss) r = Run (r + 1) # IR xs [] # events ss 1"
| "events (Data xs # ss) r = Run (r + 1) # DR xs [] # events ss 1"
| "events (Both xs ys # ss) r = Run (r + 1) # IR xs [] # DR ys [] # events ss 1"
| "events (Clocks n # ss) r = events ss (if r = 0 then 0 else r + n)"
| "events (To_reset # ss) r = (if r = 0 then [] else [Run r, Reset]) @ events ss 0"

fun without_received :: "scan \<Rightarrow> scan" where
  "without_received (IR xs ys) = IR xs []"
| "without_received (DR xs ys) = DR xs []"
| "without_received s = s"

lemma play1_idle:
  assumes "idle t" "proper s"
  shows "idle (play1 chain s t)"
    "map without_received (scans (play1 chain s t)) @ events ss (run (play1 chain s t))
      = map without_received (scans t) @ events (s # ss) (run t)"
  using assms
  by (cases s; simp add: shift_scan_simps begin_scan_def end_scan_def to_data_def idle_def reset_idle feed_leaves;
      auto simp: idle_def)+

lemma play_idle:
  assumes "idle t" "\<forall>s \<in> set ss. proper s"
  shows "idle (play chain ss t)"
    "map without_received (scans (play chain ss t)) = map without_received (scans t) @ events ss (run t)"
proof -
  have "idle (play chain ss t) \<and>
    map without_received (scans (play chain ss t)) = map without_received (scans t) @ events ss (run t)"
    using assms
  proof (induction ss arbitrary: t)
    case (Cons s ss)
    then show ?case using play1_idle(1) [of t s chain] play1_idle(2) [of t s chain ss] by simp
  qed simp
  then show "idle (play chain ss t)"
    "map without_received (scans (play chain ss t)) = map without_received (scans t) @ events ss (run t)"
    by simp_all
qed

section \<open>Functions that play steps\<close>

definition ready :: "bridge \<Rightarrow> chain \<Rightarrow> tap \<Rightarrow> tap \<Rightarrow> reg_event list \<Rightarrow> bool" where
  "ready b chain t0 t h \<longleftrightarrow> after b chain t0 (state t = TestLogicReset) t h \<and> idle t"

text \<open>From every idle state the function makes the steps, and its result depends on the state as given.\<close>

definition plays :: "bridge \<Rightarrow> chain \<Rightarrow> tap \<Rightarrow> 'a reg \<Rightarrow> step list \<Rightarrow> (tap \<Rightarrow> 'a) \<Rightarrow> bool" where
  "plays b chain t0 m ss f \<longleftrightarrow>
     (\<forall>t h. ready b chain t0 t h \<longrightarrow> wp m (\<lambda>r h'. ready b chain t0 (play chain ss t) h' \<and> r = f t) h)"

lemma playsD:
  "plays b chain t0 m ss f \<Longrightarrow> ready b chain t0 t h \<Longrightarrow>
     wp m (\<lambda>r h'. ready b chain t0 (play chain ss t) h' \<and> r = f t) h"
  by (simp add: plays_def)

lemma plays_return: "plays b chain t0 (State_Monad.return r) [] (\<lambda>_. r)"
  by (simp add: plays_def)

lemma plays_bind:
  assumes "plays b chain t0 m ss f" "\<And>r. plays b chain t0 (m' r) ss' (f' r)"
  shows "plays b chain t0 (State_Monad.bind m m') (ss @ ss') (\<lambda>t. f' (f t) (play chain ss t))"
  unfolding plays_def wp_bind
proof (intro allI impI)
  fix t h
  assume "ready b chain t0 t h"
  then show "wp m (\<lambda>r. wp (m' r) (\<lambda>r h'. ready b chain t0 (play chain (ss @ ss') t) h' \<and> r = f' (f t) (play chain ss t))) h"
    using wp_mono [OF playsD [OF assms(2)]] by (auto intro!: wp_mono [OF playsD [OF assms(1)]])
qed

text \<open>A sequence of functions whose results are not used.\<close>

lemma plays_seq:
  assumes "plays b chain t0 m ss f" "plays b chain t0 m' ss' (\<lambda>_. r)"
  shows "plays b chain t0 (State_Monad.bind m (\<lambda>_. m')) (ss @ ss') (\<lambda>_. r)"
  using plays_bind [OF assms(1), of "\<lambda>_. m'" ss' "\<lambda>_ _. r"] assms(2) by simp

lemma plays_if:
  "(P \<Longrightarrow> plays b chain t0 m ss f) \<Longrightarrow> (\<not> P \<Longrightarrow> plays b chain t0 m' ss' f) \<Longrightarrow>
     plays b chain t0 (if P then m else m') (if P then ss else ss') f"
  by simp

context jtag_bridge
begin

lemma plays_pulseTCK:
  assumes "connected b chain t0 hw"
  shows "plays b chain t0 (jtag_pulseTCK b hw n) [Clocks n] (\<lambda>_. ())"
  unfolding plays_def
proof (intro allI impI)
  fix t h
  assume r: "ready b chain t0 t h"
  have "(clock chain True y ^^ n) t = t" if "state t = TestLogicReset" "run t = 0" for y
    using that by (induction n) (simp_all add: clock_steps)
  then have "(clock chain (state t = TestLogicReset) (tdi b h) ^^ n) t = play1 chain (Clocks n) t"
    using r by (auto simp: ready_def idle_def idle_clocks)
  then show "wp (jtag_pulseTCK b hw n) (\<lambda>r h'. ready b chain t0 (play chain [Clocks n] t) h' \<and> r = ()) h"
    using wp_pulse_after [OF assms, of "state t = TestLogicReset" t h n] r play1_idle(1) [of t "Clocks n" chain]
    by (auto simp: ready_def elim!: wp_mono split: if_splits)
qed

lemma plays_TLR:
  assumes "connected b chain t0 hw"
  shows "plays b chain t0 (jtag_TLR b hw) [To_reset] (\<lambda>_. ())"
  unfolding plays_def
proof (intro allI impI)
  fix t h
  assume r: "ready b chain t0 t h"
  then have "tap_of b chain t0 h = t" "reset_tap chain (tdi b h) t = reset_tap chain False t"
    by (simp_all add: ready_def after_def reset_idle)
  then show "wp (jtag_TLR b hw) (\<lambda>r h'. ready b chain t0 (play chain [To_reset] t) h' \<and> r = ()) h"
    using wp_TLR [OF assms, of h] by (auto simp: ready_def reset_tap_state elim!: wp_mono)
qed

text \<open>Whatever the state is, a reset makes the chain idle.\<close>

lemma wp_TLR_ready:
  assumes "connected b chain t0 hw"
  shows "wp (jtag_TLR b hw) (\<lambda>_ h'. ready b chain t0 (reset_tap chain (tdi b h) (tap_of b chain t0 h)) h') h"
  using wp_TLR [OF assms, of h] by (auto simp: ready_def reset_tap_state elim!: wp_mono)

lemma plays_SIR:
  assumes "connected b chain t0 hw" "0 \<le> hir" "hir \<le> 32" "0 \<le> tir" "tir \<le> 32" "1 \<le> irlen" "irlen \<le> 32"
    and xs: "xs = replicate (nat hir) True @ bits_of (nat irlen) code @ replicate (nat tir) True"
  shows "plays b chain t0 (jtag_SIR b hw hir irlen code tir tdo True) [Instruction xs]
    (\<lambda>t. (0, push_bit (32 - nat irlen) (word_of (take (nat irlen) (drop (nat hir) (scan_outs chain ShiftIR xs t))))))"
  unfolding plays_def
proof (intro allI impI)
  fix t h
  assume "ready b chain t0 t h"
  then have r: "after b chain t0 (state t = TestLogicReset) t h" "idle t" by (simp_all add: ready_def)
  have ne: "xs \<noteq> []" using assms(6) by (simp add: xs)
  show "wp (jtag_SIR b hw hir irlen code tir tdo True) (\<lambda>r h'. ready b chain t0 (play chain [Instruction xs] t) h'
    \<and> r = (0, push_bit (32 - nat irlen) (word_of (take (nat irlen) (drop (nat hir) (scan_outs chain ShiftIR xs t)))))) h"
    using wp_mono [OF wp_SIR [OF assms(1) r assms(2-7) xs, where tlr = True and tdo = tdo]]
      play1_idle(1) [of t "Instruction xs" chain] r(2) ne
    by (auto simp: ready_def end_scan_def)
qed

lemma plays_SDR:
  assumes "connected b chain t0 hw" "0 \<le> hdr" "hdr \<le> 32" "0 \<le> tdr" "tdr \<le> 32" "0 < m" "m \<le> length bytes"
    and xs: "xs = replicate (nat hdr) False @ stream (rev (take m bytes)) @ replicate (nat tdr) False"
  shows "plays b chain t0 (jtag_SDR b hw hdr (8 * int m) bytes tdr True) [Data xs]
    (\<lambda>t. (0, rev (unstream m (take (8 * m) (drop (nat hdr) (scan_outs chain ShiftDR xs t))))))"
  unfolding plays_def
proof (intro allI impI)
  fix t h
  assume "ready b chain t0 t h"
  then have r: "after b chain t0 (state t = TestLogicReset) t h" "idle t" by (simp_all add: ready_def)
  have ne: "xs \<noteq> []" using assms(6,7) by (auto simp: xs)
  show "wp (jtag_SDR b hw hdr (8 * int m) bytes tdr True) (\<lambda>r h'. ready b chain t0 (play chain [Data xs] t) h'
    \<and> r = (0, rev (unstream m (take (8 * m) (drop (nat hdr) (scan_outs chain ShiftDR xs t)))))) h"
    using wp_mono [OF wp_SDR [OF assms(1) r assms(2-7) xs, where tlr = True]]
      play1_idle(1) [of t "Data xs" chain] r(2) ne
    by (auto simp: ready_def end_scan_def)
qed

text \<open>A scan that stays in the exit state, and the way from there to the idle state.\<close>

lemma plays_SIR_to_RTI:
  assumes "connected b chain t0 hw" "0 \<le> hir" "hir \<le> 32" "0 \<le> tir" "tir \<le> 32" "1 \<le> irlen" "irlen \<le> 32"
    and xs: "xs = replicate (nat hir) True @ bits_of (nat irlen) code @ replicate (nat tir) True"
  shows "plays b chain t0 (do { r \<leftarrow> jtag_SIR b hw hir irlen code tir tdo False; _ \<leftarrow> jtag_EX1toRTI b hw; State_Monad.return r })
    [Instruction xs]
    (\<lambda>t. (0, push_bit (32 - nat irlen) (word_of (take (nat irlen) (drop (nat hir) (scan_outs chain ShiftIR xs t))))))"
  unfolding plays_def wp_bind
proof (intro allI impI)
  fix t h
  assume "ready b chain t0 t h"
  then have r: "after b chain t0 (state t = TestLogicReset) t h" "idle t" by (simp_all add: ready_def)
  have ne: "xs \<noteq> []" using assms(6) by (simp add: xs)
  have exit: "state (shift_scan chain ShiftIR xs t) = Exit1IR" "run (shift_scan chain ShiftIR xs t) = 0"
    by (simp_all add: shift_scan_simps ne begin_scan_def)
  show "wp (jtag_SIR b hw hir irlen code tir tdo False) (\<lambda>x. wp (jtag_EX1toRTI b hw) (\<lambda>u. wp (State_Monad.return x)
      (\<lambda>r h'. ready b chain t0 (play chain [Instruction xs] t) h'
        \<and> r = (0, push_bit (32 - nat irlen) (word_of (take (nat irlen) (drop (nat hir) (scan_outs chain ShiftIR xs t)))))))) h"
  proof (rule wp_mono [OF wp_SIR [OF assms(1) r assms(2-7) xs, where tlr = False and tdo = tdo]])
    fix x h1
    assume h1: "after b chain t0 (\<not> False) (if False then end_scan (shift_scan chain ShiftIR xs t) else shift_scan chain ShiftIR xs t) h1
      \<and> x = (0, push_bit (32 - nat irlen) (word_of (take (nat irlen) (drop (nat hir) (scan_outs chain ShiftIR xs t)))))"
    then show "wp (jtag_EX1toRTI b hw) (\<lambda>u. wp (State_Monad.return x)
      (\<lambda>r h'. ready b chain t0 (play chain [Instruction xs] t) h'
        \<and> r = (0, push_bit (32 - nat irlen) (word_of (take (nat irlen) (drop (nat hir) (scan_outs chain ShiftIR xs t))))))) h1"
      using wp_mono [OF wp_from_exit(1) [OF assms(1), where t = "shift_scan chain ShiftIR xs t" and h = h1]] exit
        play1_idle(1) [of t "Instruction xs" chain] r(2) ne
      by (auto simp: ready_def end_scan_def)
  qed
qed

lemma plays_SDR_to_RTI:
  assumes "connected b chain t0 hw" "0 \<le> hdr" "hdr \<le> 32" "0 \<le> tdr" "tdr \<le> 32" "0 < m" "m \<le> length bytes"
    and xs: "xs = replicate (nat hdr) False @ stream (rev (take m bytes)) @ replicate (nat tdr) False"
  shows "plays b chain t0 (do { r \<leftarrow> jtag_SDR b hw hdr (8 * int m) bytes tdr False; _ \<leftarrow> jtag_EX1toRTI b hw; State_Monad.return r })
    [Data xs] (\<lambda>t. (0, rev (unstream m (take (8 * m) (drop (nat hdr) (scan_outs chain ShiftDR xs t))))))"
  unfolding plays_def wp_bind
proof (intro allI impI)
  fix t h
  assume "ready b chain t0 t h"
  then have r: "after b chain t0 (state t = TestLogicReset) t h" "idle t" by (simp_all add: ready_def)
  have ne: "xs \<noteq> []" using assms(6,7) by (auto simp: xs)
  have exit: "state (shift_scan chain ShiftDR xs t) = Exit1DR" "run (shift_scan chain ShiftDR xs t) = 0"
    by (simp_all add: shift_scan_simps ne begin_scan_def)
  show "wp (jtag_SDR b hw hdr (8 * int m) bytes tdr False) (\<lambda>x. wp (jtag_EX1toRTI b hw) (\<lambda>u. wp (State_Monad.return x)
      (\<lambda>r h'. ready b chain t0 (play chain [Data xs] t) h'
        \<and> r = (0, rev (unstream m (take (8 * m) (drop (nat hdr) (scan_outs chain ShiftDR xs t)))))))) h"
  proof (rule wp_mono [OF wp_SDR [OF assms(1) r assms(2-7) xs, where tlr = False]])
    fix x h1
    assume h1: "after b chain t0 (\<not> False) (if False then end_scan (shift_scan chain ShiftDR xs t) else shift_scan chain ShiftDR xs t) h1
      \<and> x = (0, rev (unstream m (take (8 * m) (drop (nat hdr) (scan_outs chain ShiftDR xs t)))))"
    then show "wp (jtag_EX1toRTI b hw) (\<lambda>u. wp (State_Monad.return x)
      (\<lambda>r h'. ready b chain t0 (play chain [Data xs] t) h'
        \<and> r = (0, rev (unstream m (take (8 * m) (drop (nat hdr) (scan_outs chain ShiftDR xs t))))))) h1"
      using wp_mono [OF wp_from_exit(1) [OF assms(1), where t = "shift_scan chain ShiftDR xs t" and h = h1]] exit
        play1_idle(1) [of t "Data xs" chain] r(2) ne
      by (auto simp: ready_def end_scan_def)
  qed
qed

end

lemma plays_eq: "plays b chain t0 m ss f \<Longrightarrow> ss = ss' \<Longrightarrow> plays b chain t0 m ss' f"
  by simp

end
