(* ===== verification/KernelXcf_Props.thy ===== *)
theory KernelXcf_Props
  imports KernelXcf KernelPlayer
begin

text \<open>
  The platform flash: which scans the functions make on the interface, for every chain of devices, and how
  the bytes that are read or programmed are laid out in them.
\<close>

section \<open>The scans of the platform flash\<close>

definition xcf_code :: "int \<Rightarrow> u32 \<Rightarrow> bool list" where
  "xcf_code irlen code = replicate (nat irlen) True @ bits_of 16 code"

text \<open>The lowest \<open>n\<close> bits of a value in the data register of the flash, behind the bypass bit of the FPGA.\<close>

definition xcf_data :: "nat \<Rightarrow> u32 \<Rightarrow> step" where
  "xcf_data n v = Data (False # bits_of n v)"

lemma plays_xcf_instruction:
  assumes "connected plx9030 chain t0 hw" "0 \<le> irlen" "irlen \<le> 32"
  shows "plays plx9030 chain t0 (xcf_instruction hw irlen code True) [Instruction (xcf_code irlen code)] (\<lambda>_. ())"
  unfolding xcf_instruction_def
  by (rule plays_eq, rule plays_seq, rule pci9030.plays_SIR [OF assms])
     (simp_all add: XCFXXP_IRLEN_def xcf_code_def plays_return)

lemma plays_xcf_bytes:
  assumes "connected plx9030 chain t0 hw" "drlen = 8 * m" "0 < m" "m \<le> length bytes"
    and xs: "xs = False # stream (rev (take m bytes))"
  shows "plays plx9030 chain t0 (xcf_data_register hw drlen bytes) [Data xs]
    (\<lambda>t. rev (unstream m (take (8 * m) (drop 1 (scan_outs chain ShiftDR xs t)))))"
proof -
  have "plays plx9030 chain t0 (jtag_SDR plx9030 hw 1 (8 * int m) bytes 0 True) [Data xs]
      (\<lambda>t. (0, rev (unstream m (take (8 * m) (drop (nat 1) (scan_outs chain ShiftDR xs t))))))"
    using assms by (intro pci9030.plays_SDR) simp_all
  from plays_bind [OF this, of "\<lambda>(_, tdo). State_Monad.return tdo" "[]" "\<lambda>r _. snd r"]
  show ?thesis
    unfolding xcf_data_register_def assms(2) by (simp add: plays_return split: prod.split)
qed

text \<open>The bytes of a word in the order of the network, of which the first ones are sent from the last one on.\<close>

lemma byte_bits_of_word: "byte_bits (ucast (drop_bit k (v :: u32))) = map (bit v) [k..<k + 8]"
  by (rule nth_equalityI) (simp_all add: byte_bits_def bit_simps add.commute)

lemma bits_of_drop: "bits_of n (drop_bit k v) = map (bit v) [k..<k + n]"
  by (rule nth_equalityI) (simp_all add: bits_of_def bit_simps add.commute)

lemma stream_be_bytes32:
  "stream (rev (take 1 (be_bytes32 v))) = bits_of 8 (drop_bit 24 v)"
  "stream (rev (take 2 (be_bytes32 v))) = bits_of 16 (drop_bit 16 v)"
  "stream (rev (take 3 (be_bytes32 v))) = bits_of 24 (drop_bit 8 v)"
  "stream (rev (take 4 (be_bytes32 v))) = bits_of 32 v"
proof -
  note b = byte_bits_of_word [of 0 v, simplified] byte_bits_of_word
  show "stream (rev (take 1 (be_bytes32 v))) = bits_of 8 (drop_bit 24 v)"
    by (simp add: be_bytes32_def b bits_of_drop)
  show "stream (rev (take 2 (be_bytes32 v))) = bits_of 16 (drop_bit 16 v)"
    by (simp add: be_bytes32_def b bits_of_drop)
  show "stream (rev (take 3 (be_bytes32 v))) = bits_of 24 (drop_bit 8 v)"
    by (simp add: be_bytes32_def numeral_3_eq_3 b bits_of_drop)
  show "stream (rev (take 4 (be_bytes32 v))) = bits_of 32 v"
    by (simp add: be_bytes32_def b bits_of_def numeral_eq_Suc)
qed

lemma plays_xcf_word:
  assumes "connected plx9030 chain t0 hw"
  shows "plays plx9030 chain t0 (xcf_data_register hw 8 (be_bytes32 v)) [xcf_data 8 (drop_bit 24 v)]
      (\<lambda>t. rev (unstream 1 (take 8 (drop 1 (scan_outs chain ShiftDR (False # bits_of 8 (drop_bit 24 v)) t)))))"
    "plays plx9030 chain t0 (xcf_data_register hw 16 (be_bytes32 v)) [xcf_data 16 (drop_bit 16 v)]
      (\<lambda>t. rev (unstream 2 (take 16 (drop 1 (scan_outs chain ShiftDR (False # bits_of 16 (drop_bit 16 v)) t)))))"
    "plays plx9030 chain t0 (xcf_data_register hw 24 (be_bytes32 v)) [xcf_data 24 (drop_bit 8 v)]
      (\<lambda>t. rev (unstream 3 (take 24 (drop 1 (scan_outs chain ShiftDR (False # bits_of 24 (drop_bit 8 v)) t)))))"
    "plays plx9030 chain t0 (xcf_data_register hw 32 (be_bytes32 v)) [xcf_data 32 v]
      (\<lambda>t. rev (unstream 4 (take 32 (drop 1 (scan_outs chain ShiftDR (False # bits_of 32 v) t)))))"
  using plays_xcf_bytes [OF assms, of 8 1 "be_bytes32 v"] plays_xcf_bytes [OF assms, of 16 2 "be_bytes32 v"]
    plays_xcf_bytes [OF assms, of 24 3 "be_bytes32 v"] plays_xcf_bytes [OF assms, of 32 4 "be_bytes32 v"]
  by (simp_all only: stream_be_bytes32 xcf_data_def, simp_all add: be_bytes32_def)


section \<open>Reading, erasing and programming\<close>

definition op_status_steps :: "int \<Rightarrow> step list" where
  "op_status_steps irlen = [Instruction (xcf_code irlen XCFXXP_XSC_OP_STATUS), xcf_data 8 0]"

definition next_device_steps :: "int \<Rightarrow> step list" where
  "next_device_steps irlen = op_status_steps irlen @ [Instruction (xcf_code irlen XCFXXP_BYPASS)]"

lemma plays_op_status:
  assumes "connected plx9030 chain t0 hw" "0 \<le> irlen" "irlen \<le> 32"
  shows "plays plx9030 chain t0 (op_status hw irlen) (op_status_steps irlen) (\<lambda>_. ())"
  unfolding op_status_def
  by (rule plays_eq, rule plays_seq, rule plays_xcf_instruction [OF assms], rule plays_seq,
      rule plays_xcf_word(1) [OF assms(1)], rule plays_return) (simp add: op_status_steps_def)

lemma plays_next_device:
  assumes "connected plx9030 chain t0 hw" "0 \<le> irlen" "irlen \<le> 32"
  shows "plays plx9030 chain t0 (if P then do { _ \<leftarrow> op_status hw irlen; xcf_instruction hw irlen XCFXXP_BYPASS True }
      else State_Monad.return ()) (if P then next_device_steps irlen else []) (\<lambda>_. ())"
  unfolding next_device_steps_def
  by (rule plays_if)
    (auto intro: plays_seq plays_op_status [OF assms] plays_xcf_instruction [OF assms] plays_return)

text \<open>The parts that the programs are made of.\<close>

lemmas xcf_plays = plays_seq plays_next_device plays_op_status plays_xcf_instruction plays_xcf_word
  pci9030.plays_pulseTCK pci9030.plays_TLR plays_return

lemma plays_erase_flash:
  assumes "connected plx9030 chain t0 hw" "0 \<le> irlen" "irlen \<le> 32"
  shows "plays plx9030 chain t0 (erase_flash hw irlen)
    [Both (xcf_code irlen XCFXXP_ISC_ERASE) (False # bits_of 24 0x3f)] (\<lambda>_. ())"
  unfolding plays_def
proof (intro allI impI)
  fix t h
  let ?xs = "xcf_code irlen XCFXXP_ISC_ERASE" and ?ys = "False # bits_of 24 0x3f"
  let ?t1 = "shift_scan chain ShiftIR ?xs t"
  let ?t2 = "to_data (end_scan ?t1)"
  let ?t3 = "feed chain True ?ys ?t2"
  let ?Q = "\<lambda>r h'. ready plx9030 chain t0 (play chain [Both ?xs ?ys] t) h' \<and> r = ()"
  assume "ready plx9030 chain t0 t h"
  then have r: "after plx9030 chain t0 (state t = TestLogicReset) t h" "idle t" by (simp_all add: ready_def)
  have ne: "?xs \<noteq> []" by (simp add: xcf_code_def bits_of_def)
  have exit1: "state ?t1 = Exit1DR \<or> state ?t1 = Exit1IR" "run ?t1 = 0"
    by (simp_all add: shift_scan_simps ne begin_scan_def)
  have exit3: "state ?t3 = Exit1DR \<or> state ?t3 = Exit1IR" "run ?t3 = 0"
    using feed_leaves [of ?t2 ?ys chain] by (simp_all add: to_data_def)
  have sir: "wp (jtag_SIR plx9030 hw irlen XCFXXP_IRLEN XCFXXP_ISC_ERASE 0 0 False)
      (\<lambda>_ h'. after plx9030 chain t0 True ?t1 h') h"
    using pci9030.wp_SIR [OF assms(1) r assms(2,3), of 0 XCFXXP_IRLEN ?xs XCFXXP_ISC_ERASE 0 False]
    by (auto simp: XCFXXP_IRLEN_def xcf_code_def elim!: wp_mono)
  show "wp (erase_flash hw irlen) ?Q h"
    unfolding erase_flash_def xcf_instruction_def wp_bind wp_return
  proof (rule wp_mono [OF sir], rule wp_mono [OF pci9030.wp_from_exit(2) [OF assms(1) _ exit1]], assumption)
    fix r1 :: "int \<times> u32" and h1 r2 h2
    assume "after plx9030 chain t0 False (end_scan ?t1\<lparr>state := ShiftDR, sent := [], received := [], run := 0\<rparr>) h2"
    then have h2: "after plx9030 chain t0 False ?t2 h2" by (simp add: to_data_def)
    from pci9030.wp_SDI [OF assms(1) this, of 1 0 0 False]
    have sdi: "wp (jtag_SDI plx9030 hw 1 0 0 False) (\<lambda>_ h'. after plx9030 chain t0 False (feed chain False [False] ?t2) h') h2"
      by (auto simp: bits_of_zero elim!: wp_mono)
    show "wp (jtag_SDI plx9030 hw 1 0 0 False) (\<lambda>_. wp (jtag_SDI plx9030 hw 24 0x3f 0 True)
        (\<lambda>_. wp (jtag_EX1toRTI plx9030 hw) ?Q)) h2"
    proof (rule wp_mono [OF sdi])
      fix r3 :: "int \<times> u32" and h3
      assume "after plx9030 chain t0 False (feed chain False [False] ?t2) h3"
      from pci9030.wp_SDI [OF assms(1) this, of 24 "0x3f" 0 True]
      have "wp (jtag_SDI plx9030 hw 24 0x3f 0 True) (\<lambda>_ h'. after plx9030 chain t0 True ?t3 h') h3"
        by (auto simp: bits_of_def elim!: wp_mono)
      then show "wp (jtag_SDI plx9030 hw 24 0x3f 0 True) (\<lambda>_. wp (jtag_EX1toRTI plx9030 hw) ?Q) h3"
      proof (rule wp_mono)
        fix r4 h4
        assume "after plx9030 chain t0 True ?t3 h4"
        from pci9030.wp_from_exit(1) [OF assms(1) this exit3] r(2) ne
        show "wp (jtag_EX1toRTI plx9030 hw) ?Q h4"
          using play1_idle(1) [of t "Both ?xs ?ys" chain] by (auto simp: ready_def end_scan_def elim!: wp_mono)
      qed
    qed
  qed
qed

lemma plays_erase_clocks:
  assumes "connected plx9030 chain t0 hw"
  shows "plays plx9030 chain t0 (erase_clocks hw n) (replicate n (Clocks (XCF_ERASE_TCKS div XCF_ERASE_SCHEDULE_COUNT))) (\<lambda>_. ())"
proof (induction n)
  case (Suc n)
  then show ?case using plays_seq [OF pci9030.plays_pulseTCK [OF assms] Suc] by simp
qed (simp add: plays_return)

definition program_steps :: "int \<Rightarrow> step list" where
  "program_steps irlen =
     [Instruction (xcf_code irlen XCFXXP_ISC_ENABLE), xcf_data 8 0x03, Instruction (xcf_code irlen XCFXXP_IDCODE), xcf_data 32 0,
      To_reset, Instruction (xcf_code irlen XCFXXP_ISC_ENABLE), xcf_data 8 0xd0,
      Instruction (xcf_code irlen XCFXXP_XSC_UNLOCK), xcf_data 24 0x3f,
      Both (xcf_code irlen XCFXXP_ISC_ERASE) (False # bits_of 24 0x3f)]
     @ replicate XCF_ERASE_SCHEDULE_COUNT (Clocks (XCF_ERASE_TCKS div XCF_ERASE_SCHEDULE_COUNT))
     @ [Instruction (xcf_code irlen XCFXXP_IDCODE), xcf_data 32 0, Instruction (xcf_code irlen XCFXXP_ISC_ENABLE), xcf_data 8 0x03,
      Instruction (xcf_code irlen XCFXXP_XSC_DATA_BTC), xcf_data 32 0xffffffe0,
      Instruction (xcf_code irlen XCFXXP_ISC_PROGRAM), Clocks 120, Instruction (xcf_code irlen XCFXXP_BYPASS)]"

lemma plays_xcf_program:
  assumes "connected plx9030 chain t0 hw" "0 \<le> irlen" "irlen \<le> 32"
  shows "plays plx9030 chain t0 (xcf_program hw irlen) (program_steps irlen) (\<lambda>_. ())"
  unfolding xcf_program_def
  by (rule plays_eq, (rule xcf_plays plays_erase_flash plays_erase_clocks assms)+) (simp add: program_steps_def)


text \<open>Bytes in the bit order of the flash: the highest bit of each first.\<close>

definition msb_bits :: "u8 list \<Rightarrow> bool list" where
  "msb_bits bytes = concat (map (\<lambda>w. rev (byte_bits w)) bytes)"

definition from_msb_bits :: "nat \<Rightarrow> bool list \<Rightarrow> u8 list" where
  "from_msb_bits n bs = map (\<lambda>i. byte_of (rev (take 8 (drop (8 * i) bs)))) [0..<n]"

lemma bit_swap_bits:
  assumes "i < 8"
  shows "bit (swap_bits w) i = bit w (7 - i)"
proof -
  from assms consider "i = 0" | "i = 1" | "i = 2" | "i = 3" | "i = 4" | "i = 5" | "i = 6" | "i = 7" by linarith
  then show ?thesis
    unfolding swap_bits_def bit_or_iff bit_push_bit_iff bit_drop_bit_eq comp_def bit_and_iff
    by cases (simp_all add: numeral_eq_Suc)
qed

lemma byte_bits_swap: "byte_bits (swap_bits w) = rev (byte_bits w)"
  by (rule nth_equalityI) (simp_all add: byte_bits_def bit_swap_bits rev_nth)

lemma bit_reverse_loop:
  "n \<le> 8 \<Longrightarrow> i < 8 \<Longrightarrow> bit (reverse_loop n w r) i = (if i < n then bit w (n - 1 - i) else bit r (i - n))"
proof (induction n arbitrary: w r)
  case (Suc n)
  have "bit (signed_drop_bit 1 w) (n - 1 - i) = bit w (n - i)" if "i < n"
    using that Suc.prems by (auto simp: bit_signed_drop_bit_iff Suc_diff_Suc)
  moreover have "w AND 1 \<noteq> 0 \<longleftrightarrow> bit w 0" by (auto simp: and_one_eq bit_0 odd_iff_mod_2_eq_one)
  moreover have "bit (push_bit 1 r OR 1) (i - n) = (if i = n then True else bit r (i - Suc n))" if "n \<le> i"
    using that Suc.prems unfolding bit_or_iff bit_push_bit_iff by (auto simp: bit_1_iff)
  moreover have "bit (push_bit 1 r) (i - n) = (if i = n then False else bit r (i - Suc n))" if "n \<le> i"
    using that Suc.prems unfolding bit_push_bit_iff by auto
  ultimately show ?case using Suc by (cases "i < n"; cases "i = n") (auto simp del: One_nat_def)
qed simp

lemma reverse_loop: "reverse_loop 8 w 0 = byte_of (rev (byte_bits w))"
  by (rule bit_word_eqI) (simp add: bit_reverse_loop bit_byte_of byte_bits_def rev_nth)


section \<open>Blocks\<close>

lemma address_bits: "bits_of 24 (drop_bit 8 (push_bit (k + 8) x)) = bits_of 24 (push_bit k (x :: u32))"
  by (rule nth_equalityI) (auto simp: bits_of_def bit_simps)

definition write_block_steps :: "int \<Rightarrow> u8 list \<Rightarrow> int \<Rightarrow> nat \<Rightarrow> step list" where
  "write_block_steps irlen data addr k =
     (if addr sdiv 32 + int k = 32768 then next_device_steps irlen else [])
     @ [Instruction (xcf_code irlen XCFXXP_ISC_DATA_SHIFT), Data (False # msb_bits (take 32 (drop (32 * k) data)))]
     @ (if k = 0 \<or> k = 32768
        then [Instruction (xcf_code irlen XCFXXP_ISC_ADDRESS_SHIFT), xcf_data 24 (word_of_int (32 * (addr sdiv 32 + int k)))]
        else [])
     @ [Instruction (xcf_code irlen XCFXXP_ISC_PROGRAM), Clocks 1000]"

lemma stream_swapped: "stream (map swap_bits ws) = msb_bits ws"
  by (induction ws) (simp_all add: msb_bits_def byte_bits_swap)

lemma swapped_block:
  assumes "32 * k + 32 \<le> length data"
  shows "rev (map (\<lambda>j. swap_bits (data ! (32 * k + (31 - j)))) [0..<32]) = map swap_bits (take 32 (drop (32 * k) data))"
proof (rule nth_equalityI)
  fix i
  assume "i < length (rev (map (\<lambda>j. swap_bits (data ! (32 * k + (31 - j)))) [0..<32]))"
  then have i: "i < 32" by simp
  have "[0..<32] ! (31 - i) = 31 - i" using nth_upt [of 0 "31 - i" 32] by simp
  then show "rev (map (\<lambda>j. swap_bits (data ! (32 * k + (31 - j)))) [0..<32]) ! i
      = map swap_bits (take 32 (drop (32 * k) data)) ! i"
    using assms i by (simp add: rev_nth)
qed (use assms in simp)

lemma plays_write_block:
  assumes "connected plx9030 chain t0 hw" "0 \<le> irlen" "irlen \<le> 32" "32 * k + 32 \<le> length data"
  shows "plays plx9030 chain t0 (write_block hw irlen data addr k) (write_block_steps irlen data addr k) (\<lambda>_. ())"
proof -
  let ?n = "addr sdiv 32 + int k"
  have din: "plays plx9030 chain t0
      (xcf_data_register hw 256 (map (\<lambda>j. swap_bits (data ! (32 * k + (31 - j)))) [0..<32]))
      [Data (False # msb_bits (take 32 (drop (32 * k) data)))]
      (\<lambda>t. rev (unstream 32 (take (8 * 32) (drop 1 (scan_outs chain ShiftDR
        (False # msb_bits (take 32 (drop (32 * k) data))) t)))))"
    by (rule plays_xcf_bytes [OF assms(1)]) (simp_all add: swapped_block [OF assms(4)] stream_swapped)
  have "drop_bit 8 (push_bit 13 (word_of_int ?n :: u32)) = drop_bit 8 (push_bit (5 + 8) (word_of_int ?n))" by simp
  then have address: "xcf_data 24 (drop_bit 8 (push_bit 13 (word_of_int ?n))) = xcf_data 24 (word_of_int (32 * ?n))"
    using address_bits [of 5 "word_of_int ?n"] by (simp add: xcf_data_def push_bit_eq_mult mult.commute)
  have shift: "plays plx9030 chain t0 (if k = 0 \<or> k = 32768 then do {
         _ \<leftarrow> xcf_instruction hw irlen XCFXXP_ISC_ADDRESS_SHIFT True;
         _ \<leftarrow> xcf_data_register hw 24 (be_bytes32 (push_bit 13 (word_of_int ?n)));
         State_Monad.return ()
       } else State_Monad.return ())
      (if k = 0 \<or> k = 32768
        then [Instruction (xcf_code irlen XCFXXP_ISC_ADDRESS_SHIFT), xcf_data 24 (word_of_int (32 * ?n))] else []) (\<lambda>_. ())"
    unfolding address [symmetric]
    by (rule plays_if; rule plays_eq, (rule xcf_plays assms)+) simp_all
  show ?thesis
    unfolding write_block_def Let_def
    by (rule plays_eq, (rule din shift xcf_plays assms)+) (simp add: write_block_steps_def)
qed

lemma plays_write_blocks:
  assumes "connected plx9030 chain t0 hw" "0 \<le> irlen" "irlen \<le> 32" "32 * (k + n) \<le> length data"
  shows "plays plx9030 chain t0 (write_blocks hw irlen data addr k n)
    (concat (map (write_block_steps irlen data addr) [k..<k + n])) (\<lambda>_. ())"
  using assms(4)
proof (induction n arbitrary: k)
  case (Suc n)
  have "plays plx9030 chain t0 (write_blocks hw irlen data addr (Suc k) n)
      (concat (map (write_block_steps irlen data addr) [Suc k..<Suc k + n])) (\<lambda>_. ())"
    using Suc.prems by (intro Suc.IH) simp
  moreover have "plays plx9030 chain t0 (write_block hw irlen data addr k) (write_block_steps irlen data addr k) (\<lambda>_. ())"
    using Suc.prems by (intro plays_write_block assms(1-3)) simp
  ultimately show ?case by (simp add: upt_conv_Cons plays_seq del: upt_Suc)
qed (simp add: plays_return)

definition read_block_steps :: "int \<Rightarrow> u32 \<Rightarrow> nat \<Rightarrow> step list" where
  "read_block_steps irlen addr k =
     (if addr div 1024 + of_nat k = 1024 then next_device_steps irlen else [])
     @ [Instruction (xcf_code irlen XCFXXP_ISC_ADDRESS_SHIFT), xcf_data 24 (1024 * (addr div 1024 + of_nat k)), Clocks 15,
        Instruction (xcf_code irlen XCFXXP_XSC_READ), Clocks 15, Data (replicate 8193 False)]"

lemma stream_zeros: "stream (replicate n 0) = replicate (8 * n) False"
proof (induction n)
  case (Suc n)
  have "byte_bits 0 = replicate 8 False" by (rule nth_equalityI) (simp_all add: byte_bits_def)
  then show ?case using Suc by (simp add: replicate_add [symmetric])
qed simp

lemma nth_unstream: "i < n \<Longrightarrow> unstream n bs ! i = byte_of (take 8 (drop (8 * i) bs))"
proof (induction n arbitrary: bs i)
  case (Suc n)
  then show ?case by (cases i) (simp_all add: add.commute)
qed simp

lemma block_bytes:
  assumes "length bs = 8192"
  shows "map (\<lambda>i. reverse_loop 8 (rev (unstream 1024 bs) ! (1024 - 1 - i)) 0) [0..<1024] = from_msb_bits 1024 bs"
proof (rule nth_equalityI)
  fix i
  assume "i < length (map (\<lambda>i. reverse_loop 8 (rev (unstream 1024 bs) ! (1024 - 1 - i)) 0) [0..<1024])"
  then have i: "i < 1024" by simp
  have "rev (unstream 1024 bs) ! (1024 - 1 - i) = byte_of (take 8 (drop (8 * i) bs))"
    using i by (simp add: rev_nth nth_unstream)
  moreover have "length (take 8 (drop (8 * i) bs)) = 8" using i assms by simp
  ultimately show "map (\<lambda>i. reverse_loop 8 (rev (unstream 1024 bs) ! (1024 - 1 - i)) 0) [0..<1024] ! i
      = from_msb_bits 1024 bs ! i"
    using i by (simp add: from_msb_bits_def reverse_loop byte_bits_of)
qed (simp add: from_msb_bits_def)


lemma received_data: "xs \<noteq> [] \<Longrightarrow> received (play1 chain (Data xs) t) = scan_outs chain ShiftDR xs t"
  by (simp add: shift_scan_simps end_scan_def)

lemma plays_then:
  assumes "plays b chain t0 m ss f" "plays b chain t0 m' ss' f'"
  shows "plays b chain t0 (State_Monad.bind m (\<lambda>_. m')) (ss @ ss') (\<lambda>t. f' (play chain ss t))"
  using plays_bind [OF assms(1), of "\<lambda>_. m'" ss' "\<lambda>_. f'"] assms(2) by simp

lemma plays_eq_result:
  "plays b chain t0 m ss f \<Longrightarrow> ss = ss' \<Longrightarrow> (\<And>t. f t = f' t) \<Longrightarrow> plays b chain t0 m ss' f'"
  by (simp add: plays_def)

lemma plays_read_block:
  assumes "connected plx9030 chain t0 hw" "0 \<le> irlen" "irlen \<le> 32"
  shows "plays plx9030 chain t0 (read_block hw irlen addr k) (read_block_steps irlen addr k)
    (\<lambda>t. from_msb_bits 1024 (tl (received (play chain (read_block_steps irlen addr k) t))))"
proof -
  let ?n = "addr div 1024 + of_nat k" and ?xs = "replicate 8193 False"
  let ?before = "(if ?n = 1024 then next_device_steps irlen else [])
     @ [Instruction (xcf_code irlen XCFXXP_ISC_ADDRESS_SHIFT), xcf_data 24 (1024 * ?n), Clocks 15,
        Instruction (xcf_code irlen XCFXXP_XSC_READ), Clocks 15]"
  let ?m = "do {
     dout \<leftarrow> xcf_data_register hw (XCF_BLOCK_SIZE * 8) (replicate XCF_BLOCK_SIZE 0);
     State_Monad.return (map (\<lambda>i. reverse_loop 8 (dout ! (XCF_BLOCK_SIZE - 1 - i)) 0) [0..<XCF_BLOCK_SIZE])
   }"
  have xs: "replicate 8193 False = False # replicate 8192 False"
    using replicate_Suc [of 8192 False] by simp
  have data: "plays plx9030 chain t0 (xcf_data_register hw (XCF_BLOCK_SIZE * 8) (replicate XCF_BLOCK_SIZE 0)) [Data ?xs]
      (\<lambda>t. rev (unstream 1024 (take (8 * 1024) (drop 1 (scan_outs chain ShiftDR ?xs t)))))"
    by (rule plays_xcf_bytes [OF assms(1)]) (simp_all add: XCF_BLOCK_SIZE_def stream_zeros xs)
  have bytes: "map (\<lambda>i. reverse_loop 8 (rev (unstream 1024 (take (8 * 1024) (drop 1 (scan_outs chain ShiftDR ?xs t)))) ! (1024 - 1 - i)) 0) [0..<1024]
      = from_msb_bits 1024 (tl (scan_outs chain ShiftDR ?xs t))" for t
    using block_bytes [of "tl (scan_outs chain ShiftDR ?xs t)"]
    by (simp add: drop_Suc)
  have m: "plays plx9030 chain t0 ?m [Data ?xs] (\<lambda>t. from_msb_bits 1024 (tl (scan_outs chain ShiftDR ?xs t)))"
    using plays_bind [OF data, of _ "[]" "\<lambda>dout _. map (\<lambda>i. reverse_loop 8 (dout ! (1024 - 1 - i)) 0) [0..<1024]"]
    by (simp only: bytes append_Nil2 XCF_BLOCK_SIZE_def plays_return)
  have address: "xcf_data 24 (drop_bit 8 (push_bit 18 ?n)) = xcf_data 24 (1024 * ?n)"
    using address_bits [of 10 ?n] by (simp add: xcf_data_def push_bit_eq_mult mult.commute)
  have all: "plays plx9030 chain t0 (read_block hw irlen addr k) (?before @ [Data ?xs])
      (\<lambda>t. from_msb_bits 1024 (tl (scan_outs chain ShiftDR ?xs (play chain ?before t))))"
    unfolding read_block_def Let_def
    by (rule plays_eq_result, rule plays_then, rule plays_next_device [OF assms], (rule plays_then, rule xcf_plays, (rule assms)+)+,
        rule m) (simp_all add: address XCF_BLOCK_SIZE_def)
  have r: "received (play chain (?before @ [Data ?xs]) t) = scan_outs chain ShiftDR ?xs (play chain ?before t)" for t
    unfolding play_append play.simps by (rule received_data) simp
  have s: "?before @ [Data ?xs] = read_block_steps irlen addr k" by (simp add: read_block_steps_def)
  show ?thesis by (rule plays_eq_result [OF all s]) (simp only: s [symmetric] r)
qed


section \<open>The device\<close>

lemma wp_dev [simp]:
  "wp (on_reg m) Q d = wp m (\<lambda>r h. Q r (d\<lparr>reg := h\<rparr>)) (reg d)"
  "wp (get_dev f) Q' d = Q' (f d) d" "wp (set_dev g) Q'' d = Q'' () (g d)"
  by (simp_all add: wp_def on_reg_def get_dev_def set_dev_def split: prod.split)

lemma wp_jtag_open:
  "wp (jtag_open b) Q d = Q (jtag_refcount d + 1)
     (d\<lparr>jtag_refcount := jtag_refcount d + 1, reg := (if jtag_refcount d = 0 then Wr (driven b) # reg d else reg d)\<rparr>)"
  by (cases d) (simp add: jtag_open_def)

text \<open>Releasing the lines when they are held once, and when they are held more often.\<close>

lemma wp_jtag_release:
  "wp (jtag_release b) Q d =
    (let n = (if jtag_refcount d > 0 then jtag_refcount d - 1 else jtag_refcount d)
     in Q n (d\<lparr>jtag_refcount := n, reg := (if n = 0 then Wr (released b) # reg d else reg d)\<rparr>))"
  by (cases d) (simp add: jtag_release_def Let_def)

text \<open>The words that are read first are the last ones of the array.\<close>

lemma of_be_bytes32_rev:
  assumes "length bs = 32"
  shows "of_be_bytes32 (rev (unstream 4 bs)) = word_of bs"
proof (rule bit_word_eqI)
  fix n
  assume "n < LENGTH(32)"
  then consider "n < 8" | "8 \<le> n" "n < 16" | "16 \<le> n" "n < 24" | "24 \<le> n" "n < 32" by fastforce
  note parts = this
  have bytes: "rev (unstream 4 bs) = [byte_of (take 8 (drop 24 bs)), byte_of (take 8 (drop 16 bs)),
      byte_of (take 8 (drop 8 bs)), byte_of (take 8 bs)]"
  proof -
    have four: "(4 :: nat) = Suc (Suc (Suc (Suc 0)))" by simp
    show ?thesis unfolding four by simp
  qed
  show "bit (of_be_bytes32 (rev (unstream 4 bs))) n = bit (word_of bs) n"
    unfolding bytes of_be_bytes32_def bit_or_iff bit_push_bit_iff using parts assms
    by cases (auto simp: bit_unsigned_iff bit_byte_of bit_word_of)
qed

lemma unstream_split: "m \<le> n \<Longrightarrow> unstream n bs = unstream m (take (8 * m) bs) @ unstream (n - m) (drop (8 * m) bs)"
proof (induction m arbitrary: n bs)
  case (Suc m)
  from Suc.prems obtain k where "n = Suc k" "m \<le> k" by (cases n) auto
  then show ?case using Suc.IH [of k "drop 8 bs"] by (simp add: min_def take_drop add.commute)
qed simp


text \<open>
  What \<^verbatim>\<open>validate\<close> makes of the bits it receives after a reset: the first 32 are the identity of the FPGA, the
  next ones that of the flash, and there is no further device.
\<close>

definition identify :: "bool list \<Rightarrow> jtag_dev \<Rightarrow> jtag_dev" where
  "identify rs d = d\<lparr>
     fpgaid := word_of (take 32 rs),
     xcfid := word_of (take 32 (drop 32 rs)),
     fpgairlen := (if word_of (take 32 rs) AND 0x0fffffff = XC2VP4_DID then XC2VP4_IRLEN else 0),
     xcfirlen := (if word_of (take 32 (drop 32 rs)) AND 0x0fffffff = XCF08P_DID then XCFXXP_IRLEN else 0)\<rparr>"

definition recognised :: "bool list \<Rightarrow> bool" where
  "recognised rs \<longleftrightarrow> word_of (take 32 rs) AND 0x0fffffff = XC2VP4_DID
     \<and> word_of (take 32 (drop 32 rs)) AND 0x0fffffff = XCF08P_DID \<and> word_of (drop 64 rs) = 0"

definition reset_of :: "bridge \<Rightarrow> chain \<Rightarrow> tap \<Rightarrow> reg_event list \<Rightarrow> tap" where
  "reset_of b chain t0 h = reset_tap chain (tdi b h) (tap_of b chain t0 h)"

definition read_ids :: "chain \<Rightarrow> nat \<Rightarrow> tap \<Rightarrow> tap" where
  "read_ids chain n t = play1 chain (Data (replicate n False)) t"

lemma ids_of_bytes:
  assumes "length rs = 96"
  shows "of_be_bytes32 (drop 8 (rev (unstream 12 rs))) = word_of (take 32 rs)"
    "of_be_bytes32 (take 4 (drop 4 (rev (unstream 12 rs)))) = word_of (take 32 (drop 32 rs))"
    "of_be_bytes32 (take 4 (rev (unstream 12 rs))) = word_of (drop 64 rs)"
proof -
  have "unstream 12 rs = unstream 4 (take 32 rs) @ unstream 4 (take 32 (drop 32 rs)) @ unstream 4 (drop 64 rs)"
    using unstream_split [of 4 12 rs] unstream_split [of 4 8 "drop 32 rs"] by simp
  then show "of_be_bytes32 (drop 8 (rev (unstream 12 rs))) = word_of (take 32 rs)"
    "of_be_bytes32 (take 4 (drop 4 (rev (unstream 12 rs)))) = word_of (take 32 (drop 32 rs))"
    "of_be_bytes32 (take 4 (rev (unstream 12 rs))) = word_of (drop 64 rs)"
    using assms by (simp_all add: of_be_bytes32_rev)
qed

text \<open>Reading the identities, on both bridges.\<close>

context jtag_bridge
begin

lemma wp_read_ids:
  fixes h :: "reg_event list"
  assumes "connected b chain t0 hw" "0 < m" "m \<le> k"
  defines "t \<equiv> read_ids chain (8 * m) (reset_of b chain t0 h)"
  shows "wp (jtag_TLR b hw) (\<lambda>_. wp (jtag_SDR b hw 0 (8 * int m) (replicate k 0) 0 True)
      (\<lambda>r h'. ready b chain t0 t h' \<and> r = (0, rev (unstream m (received t))))) h"
    and "length (received t) = 8 * m"
proof -
  let ?xs = "replicate (8 * m) False"
  have zeros: "stream (rev (take m (replicate k 0))) = ?xs" using stream_zeros [of m] assms(3) by simp
  have sdr: "plays b chain t0 (jtag_SDR b hw 0 (8 * int m) (replicate k 0) 0 True) [Data ?xs]
      (\<lambda>t. (0, rev (unstream m (scan_outs chain ShiftDR ?xs t))))"
    using plays_SDR [OF assms(1), of 0 0 m "replicate k 0" ?xs] zeros assms(2,3) by simp
  have rs: "scan_outs chain ShiftDR ?xs (reset_of b chain t0 h) = received t"
    unfolding t_def read_ids_def by (rule received_data [symmetric]) (use assms(2) in simp)
  show "length (received t) = 8 * m" by (simp only: rs [symmetric], simp)
  show "wp (jtag_TLR b hw) (\<lambda>_. wp (jtag_SDR b hw 0 (8 * int m) (replicate k 0) 0 True)
      (\<lambda>r h'. ready b chain t0 t h' \<and> r = (0, rev (unstream m (received t))))) h"
  proof (rule wp_mono [OF wp_TLR_ready [OF assms(1)]])
    fix h1
    assume "ready b chain t0 (reset_tap chain (tdi b h) (tap_of b chain t0 h)) h1"
    then have "ready b chain t0 (reset_of b chain t0 h) h1" by (simp add: reset_of_def)
    from playsD [OF sdr this]
    show "wp (jtag_SDR b hw 0 (8 * int m) (replicate k 0) 0 True)
      (\<lambda>r h'. ready b chain t0 t h' \<and> r = (0, rev (unstream m (received t)))) h1"
      by (simp only: rs play.simps read_ids_def t_def)
  qed
qed

end

lemma wp_validate:
  assumes "connected plx9030 chain t0 hw"
  defines "t1 \<equiv> reset_of plx9030 chain t0"
  shows "wp (jtag_9030_validate hw) (\<lambda>r d'. let t = read_ids chain 96 (t1 (reg d)); rs = received t in
    ready plx9030 chain t0 t (reg d') \<and> length rs = 96 \<and> r = (if recognised rs then 0 else - EIO)
    \<and> d' = (identify rs d)\<lparr>reg := reg d'\<rparr>) d"
proof -
  define zs where "zs = replicate 12 (0 :: u8)"
  let ?t = "read_ids chain 96 (t1 (reg d))"
  note ids = pci9030.wp_read_ids [OF assms(1), of 12 12 "reg d", folded zs_def t1_def]
  have regs: "wp (jtag_TLR plx9030 hw) (\<lambda>_ h. wp (jtag_SDR plx9030 hw 0 96 zs 0 True)
      (\<lambda>r h'. ready plx9030 chain t0 ?t h' \<and> r = (0, rev (unstream 12 (received ?t)))) h) (reg d)"
    and len: "length (received ?t) = 96"
    using ids by simp_all
  have irlens: "XC2VP4_IRLEN \<noteq> 0" "XCFXXP_IRLEN \<noteq> 0" by (simp_all add: XC2VP4_IRLEN_def XCFXXP_IRLEN_def)
  show ?thesis
    unfolding jtag_9030_validate_def zs_def [symmetric] wp_bind wp_dev wp_prod Let_def
    by (simp split del: if_split, rule wp_mono [OF regs], erule wp_mono)
      (use irlens in \<open>auto simp: ids_of_bytes [OF len] len recognised_def identify_def\<close>)
qed


text \<open>Hardware with a given chain, for which the assumption on the register holds.\<close>

definition wired :: "bridge \<Rightarrow> chain \<Rightarrow> tap \<Rightarrow> reg_hw" where
  "wired b chain t0 h =
     (pins h AND (TMS b OR TDI b OR TCK b)) OR (if chain (tap_of b chain t0 h) then TDO b else 0)"

lemma wired_bits:
  fixes p a m z :: u32
  shows "a AND m = a \<Longrightarrow> z AND a = 0 \<Longrightarrow> ((p AND m) OR z) AND a = p AND a"
proof -
  assume a: "a AND m = a" "z AND a = 0"
  have "((p AND m) OR z) AND a = (p AND (a AND m)) OR (z AND a)"
    by (rule bit_word_eqI) (auto simp: bit_simps)
  then show "((p AND m) OR z) AND a = p AND a" by (simp add: a)
qed

lemma connected_wired: "connected plx9030 chain t0 (wired plx9030 chain t0)" "connected plx9056 chain t0 (wired plx9056 chain t0)"
proof -
  have tdo: "((p AND m) OR z) AND q = z" if "m AND q = 0" "z AND q = z" for p m z q :: u32
  proof -
    have "((p AND m) OR z) AND q = (p AND (m AND q)) OR (z AND q)" by (rule bit_word_eqI) (auto simp: bit_simps)
    then show ?thesis by (simp add: that)
  qed
  show "connected plx9030 chain t0 (wired plx9030 chain t0)"
    unfolding connected_def wired_def
    by (intro allI conjI wired_bits; (subst tdo)?; simp add: plx9030_def PLX9030_GPIOC_GPIO0_DATA_def
        PLX9030_GPIOC_GPIO1_DATA_def PLX9030_GPIOC_GPIO2_DATA_def PLX9030_GPIOC_GPIO3_DATA_def)
  show "connected plx9056 chain t0 (wired plx9056 chain t0)"
    unfolding connected_def wired_def
    by (intro allI conjI wired_bits; (subst tdo)?; simp add: plx9056_def PLX9056_CNTRL_TMS_def
        PLX9056_CNTRL_EEDI_def PLX9056_CNTRL_EESK_def PLX9056_CNTRL_TDO_def)
qed

definition tap0 :: tap where
  "tap0 = \<lparr>state = TestLogicReset, sent = [], received = [], run = 0, scans = []\<rparr>"

definition jtag_dev0 :: jtag_dev where
  "jtag_dev0 = \<lparr>jtag_refcount = 0, fpgaid = 0, xcfid = 0, fpgairlen = 10, xcfirlen = 16, reg = [Wr (TMS plx9030)]\<rparr>"

lemma ready_dev0: "ready plx9030 chain tap0 tap0 (reg jtag_dev0)"
  by (simp add: ready_def after_def idle_def jtag_dev0_def tap0_def plx9030_def PLX9030_GPIOC_GPIO1_DATA_def
      PLX9030_GPIOC_GPIO0_DATA_def)


section \<open>What is read\<close>

text \<open>The bits received in the scans that are as long as a block of the flash with the bypass bit of the FPGA.\<close>

fun long_received :: "scan list \<Rightarrow> bool list list" where
  "long_received [] = []"
| "long_received (DR xs ys # ss) = (if length xs = 8193 then [ys] else []) @ long_received ss"
| "long_received (IR xs ys # ss) = long_received ss"
| "long_received (Run n # ss) = long_received ss"
| "long_received (Reset # ss) = long_received ss"

lemma long_received_append [simp]: "long_received (ss @ ss') = long_received ss @ long_received ss'"
  by (induction ss rule: long_received.induct) simp_all

fun short :: "step \<Rightarrow> bool" where
  "short (Data xs) = (length xs \<noteq> 8193)"
| "short (Both xs ys) = (length ys \<noteq> 8193)"
| "short s = True"

lemma long_received_short:
  assumes "idle t" "\<forall>s \<in> set ss. proper s \<and> short s"
  shows "long_received (scans (play chain ss t)) = long_received (scans t)"
  using assms
proof (induction ss arbitrary: t)
  case (Cons s ss)
  have "long_received (scans (play1 chain s t)) = long_received (scans t)"
    using Cons.prems
    by (cases s) (simp_all add: shift_scan_simps begin_scan_def end_scan_def to_data_def reset_idle feed_leaves)
  then show ?case using Cons.IH [of "play1 chain s t"] Cons.prems play1_idle(1) [of t s chain] by simp
qed simp

lemma read_block_split:
  obtains ss where "read_block_steps irlen addr k = ss @ [Data (replicate 8193 False)]" "\<forall>s \<in> set ss. proper s \<and> short s"
proof -
  have ok: "xcf_code irlen code \<noteq> []" "proper (xcf_data n v)" "n < 100 \<Longrightarrow> short (xcf_data n v)" for code n v
    by (simp_all add: xcf_code_def bits_of_def xcf_data_def)
  show ?thesis
    by (rule that [of "butlast (read_block_steps irlen addr k)"])
      (auto simp: read_block_steps_def next_device_steps_def op_status_steps_def butlast_append ok)
qed

fun read_results :: "chain \<Rightarrow> int \<Rightarrow> u32 \<Rightarrow> nat \<Rightarrow> nat \<Rightarrow> tap \<Rightarrow> u8 list" where
  "read_results chain irlen addr k 0 t = []"
| "read_results chain irlen addr k (Suc n) t =
     (let t' = play chain (read_block_steps irlen addr k) t
      in from_msb_bits 1024 (tl (received t')) @ read_results chain irlen addr (Suc k) n t')"

lemma plays_read_blocks:
  assumes "connected plx9030 chain t0 hw" "0 \<le> irlen" "irlen \<le> 32"
  shows "plays plx9030 chain t0 (read_blocks hw irlen addr k n)
    (concat (map (read_block_steps irlen addr) [k..<k + n])) (read_results chain irlen addr k n)"
proof (induction n arbitrary: k)
  case (Suc n)
  let ?ss = "read_block_steps irlen addr k"
  have "plays plx9030 chain t0 (do { rest \<leftarrow> read_blocks hw irlen addr (Suc k) n; State_Monad.return (bytes @ rest) })
      (concat (map (read_block_steps irlen addr) [Suc k..<Suc k + n])) (\<lambda>t. bytes @ read_results chain irlen addr (Suc k) n t)" for bytes
    using plays_bind [OF Suc.IH [of "Suc k"], of "\<lambda>rest. State_Monad.return (bytes @ rest)" "[]" "\<lambda>rest _. bytes @ rest"]
    by (simp add: plays_return del: upt_Suc)
  from plays_bind [OF plays_read_block [OF assms, of addr k] this]
  have "plays plx9030 chain t0 (read_blocks hw irlen addr k (Suc n))
      (?ss @ concat (map (read_block_steps irlen addr) [Suc k..<Suc k + n]))
      (\<lambda>t. from_msb_bits 1024 (tl (received (play chain ?ss t))) @ read_results chain irlen addr (Suc k) n (play chain ?ss t))"
    by (simp del: upt_Suc)
  then show ?case
    by (rule plays_eq_result) (simp_all add: upt_conv_Cons Let_def del: upt_Suc)
next
  case 0
  show ?case unfolding read_blocks.simps by (rule plays_eq_result [OF plays_return]) simp_all
qed

lemma read_results_received:
  assumes "idle t"
  shows "\<exists>blocks. length blocks = n
    \<and> long_received (scans (play chain (concat (map (read_block_steps irlen addr) [k..<k + n])) t)) = long_received (scans t) @ blocks
    \<and> read_results chain irlen addr k n t = concat (map (\<lambda>bs. from_msb_bits 1024 (tl bs)) blocks)"
  using assms
proof (induction n arbitrary: k t)
  case (Suc n)
  let ?xs = "replicate 8193 False"
  obtain ss where ss: "read_block_steps irlen addr k = ss @ [Data ?xs]" "\<forall>s \<in> set ss. proper s \<and> short s"
    by (rule read_block_split)
  define t' where "t' = play chain (read_block_steps irlen addr k) t"
  have t': "t' = play1 chain (Data ?xs) (play chain ss t)" by (simp add: t'_def ss(1) del: play1.simps)
  have i: "idle (play chain ss t)" using play_idle(1) [OF Suc.prems, of ss chain] ss(2) by simp
  have idle': "idle t'" unfolding t' by (rule play1_idle(1) [OF i]) simp
  have "long_received (scans t') = long_received (scans (play chain ss t)) @ [received t']"
    unfolding t' by (simp add: shift_scan_simps begin_scan_def end_scan_def)
  then have long: "long_received (scans t') = long_received (scans t) @ [received t']"
    using long_received_short [OF Suc.prems ss(2)] by simp
  from Suc.IH [OF idle', of "Suc k"] obtain blocks where b: "length blocks = n"
    "long_received (scans (play chain (concat (map (read_block_steps irlen addr) [Suc k..<Suc k + n])) t')) = long_received (scans t') @ blocks"
    "read_results chain irlen addr (Suc k) n t' = concat (map (\<lambda>bs. from_msb_bits 1024 (tl bs)) blocks)" by blast
  show ?case
    by (rule exI [of _ "received t' # blocks"])
      (use b long in \<open>simp add: upt_conv_Cons t'_def Let_def del: upt_Suc\<close>)
qed simp


lemma from_msb_bits: "from_msb_bits (length ws) (msb_bits ws) = ws"
proof (rule nth_equalityI)
  fix i
  assume "i < length (from_msb_bits (length ws) (msb_bits ws))"
  then have i: "i < length ws" by (simp add: from_msb_bits_def)
  have drop: "drop (8 * i) (msb_bits ws) = msb_bits (drop i ws)" for i
  proof (induction ws arbitrary: i)
    case (Cons w ws)
    then show ?case by (cases i) (simp_all add: msb_bits_def)
  qed (simp add: msb_bits_def)
  show "from_msb_bits (length ws) (msb_bits ws) ! i = ws ! i"
    using i by (simp add: from_msb_bits_def drop Cons_nth_drop_Suc [OF i, symmetric]) (simp add: msb_bits_def)
qed (simp add: from_msb_bits_def)

section \<open>Properties\<close>

text \<open>
  C33. A page that is programmed into the platform flash appears on the interface as nothing but the scans of
  the programming algorithm: for each 32 bytes the data, the highest bit of each byte first and behind the
  bypass bit of the FPGA, for the first of them the address, and the command to program with its clocks;
  whatever the devices answer.
\<close>

theorem flash_page_sent:
  assumes "connected plx9030 chain t0 hw" "ready plx9030 chain t0 t (reg d)" "0 \<le> fpgairlen d" "fpgairlen d \<le> 32"
    and "n \<le> length data" "run_state (jtag_9030_XCF_write hw data addr n) d = (r, d')"
  shows "r = 0 \<and> d' = d\<lparr>reg := reg d'\<rparr> \<and> (\<exists>t'. ready plx9030 chain t0 t' (reg d')
    \<and> map without_received (scans t') = map without_received (scans t)
        @ events (concat (map (write_block_steps (fpgairlen d) data addr) [0..<n div 32])) (run t))"
proof -
  let ?ss = "concat (map (write_block_steps (fpgairlen d) data addr) [0..<n div 32])"
  have "32 * (0 + n div 32) \<le> length data" using assms(5) by simp
  from plays_write_blocks [OF assms(1,3,4) this, of addr]
  have "plays plx9030 chain t0 (write_blocks hw (fpgairlen d) data addr 0 (n div 32)) ?ss (\<lambda>_. ())" by simp
  from playsD [OF this assms(2)]
  have "wp (jtag_9030_XCF_write hw data addr n)
      (\<lambda>r d'. r = 0 \<and> d' = d\<lparr>reg := reg d'\<rparr> \<and> ready plx9030 chain t0 (play chain ?ss t) (reg d')) d"
    by (auto simp: jtag_9030_XCF_write_def elim!: wp_mono)
  from wp_run [OF assms(6) this]
  have d': "r = 0" "d' = d\<lparr>reg := reg d'\<rparr>" "ready plx9030 chain t0 (play chain ?ss t) (reg d')" by auto
  have "proper s" if "s \<in> set ?ss" for s
    using that by (auto simp: write_block_steps_def next_device_steps_def op_status_steps_def xcf_data_def xcf_code_def
        bits_of_def split: if_splits)
  then show ?thesis
    using d' play_idle(2) [of t ?ss chain] assms(2) unfolding ready_def by blast
qed

lemma flash_page_sent_witness:
  "let d = jtag_dev0; hw = wired plx9030 (\<lambda>_. False) tap0;
     (r, d') = run_state (jtag_9030_XCF_write hw (replicate 32 0xA5) 0 32) d
   in r = 0 \<and> (\<exists>t'. ready plx9030 (\<lambda>_. False) tap0 t' (reg d') \<and> map without_received (scans t') =
     [Run 1, IR (xcf_code 10 XCFXXP_ISC_DATA_SHIFT) [], Run 2, DR (False # msb_bits (replicate 32 0xA5)) [],
      Run 2, IR (xcf_code 10 XCFXXP_ISC_ADDRESS_SHIFT) [], Run 2, DR (replicate 25 False) [],
      Run 2, IR (xcf_code 10 XCFXXP_ISC_PROGRAM) []])"
proof -
  let ?chain = "\<lambda>_ :: tap. False" and ?data = "replicate 32 (0xA5 :: u8)"
  obtain r d' where run: "run_state (jtag_9030_XCF_write (wired plx9030 ?chain tap0) ?data 0 32) jtag_dev0 = (r, d')"
    by (rule prod.exhaust)
  have zeros: "replicate 25 False = False # bits_of 24 0" using replicate_Suc [of 24 False] by (simp add: bits_of_zero)
  have events: "map without_received (scans tap0)
        @ events (concat (map (write_block_steps (fpgairlen jtag_dev0) ?data 0) [0..<32 div 32])) (run tap0) =
     [Run 1, IR (xcf_code 10 XCFXXP_ISC_DATA_SHIFT) [], Run 2, DR (False # msb_bits ?data) [],
      Run 2, IR (xcf_code 10 XCFXXP_ISC_ADDRESS_SHIFT) [], Run 2, DR (replicate 25 False) [],
      Run 2, IR (xcf_code 10 XCFXXP_ISC_PROGRAM) []]"
    unfolding zeros by (simp add: write_block_steps_def xcf_data_def tap0_def jtag_dev0_def)
  have "fpgairlen jtag_dev0 = 10" by (simp add: jtag_dev0_def)
  then show ?thesis
    using flash_page_sent [OF connected_wired(1) ready_dev0 _ _ _ run, unfolded events] by (simp add: Let_def run)
qed


text \<open>
  C34. Reading the platform flash returns, for each block, the bits that the devices sent in the scan after the
  command to read, without the bypass bit of the FPGA, the first one as the highest bit of the first byte; so a
  device that sends the bits of a block in the order in which they are programmed gives back its bytes.
\<close>

theorem flash_blocks_received:
  assumes "connected plx9030 chain t0 hw" "ready plx9030 chain t0 t (reg d)" "0 \<le> fpgairlen d" "fpgairlen d \<le> 32"
    and "run_state (jtag_9030_XCF_read hw addr n) d = ((r, bytes), d')"
  shows "r = unat n div 1024 * 1024 \<and> d' = d\<lparr>reg := reg d'\<rparr> \<and> (\<exists>t' blocks. ready plx9030 chain t0 t' (reg d')
    \<and> map without_received (scans t') = map without_received (scans t)
        @ events (concat (map (read_block_steps (fpgairlen d) addr) [0..<unat n div 1024])) (run t)
    \<and> long_received (scans t') = long_received (scans t) @ blocks \<and> length blocks = unat n div 1024
    \<and> bytes = concat (map (\<lambda>bs. from_msb_bits 1024 (tl bs)) blocks)
    \<and> (\<forall>pages. (\<forall>p \<in> set pages. length p = 1024) \<and> map tl blocks = map msb_bits pages \<longrightarrow> bytes = concat pages))"
proof -
  let ?n = "unat n div 1024"
  let ?ss = "concat (map (read_block_steps (fpgairlen d) addr) [0..<?n])"
  have idle: "idle t" using assms(2) by (simp add: ready_def)
  have "plays plx9030 chain t0 (read_blocks hw (fpgairlen d) addr 0 ?n) ?ss (read_results chain (fpgairlen d) addr 0 ?n)"
    using plays_read_blocks [OF assms(1,3,4), of addr 0 ?n] by simp
  from playsD [OF this assms(2)]
  have "wp (jtag_9030_XCF_read hw addr n) (\<lambda>r d'. r = (?n * 1024, read_results chain (fpgairlen d) addr 0 ?n t)
      \<and> d' = d\<lparr>reg := reg d'\<rparr> \<and> ready plx9030 chain t0 (play chain ?ss t) (reg d')) d"
    by (auto simp: jtag_9030_XCF_read_def XCF_BLOCK_SIZE_def Let_def elim!: wp_mono)
  from wp_run [OF assms(5) this]
  have d': "r = ?n * 1024" "bytes = read_results chain (fpgairlen d) addr 0 ?n t" "d' = d\<lparr>reg := reg d'\<rparr>"
    "ready plx9030 chain t0 (play chain ?ss t) (reg d')" by auto
  obtain blocks where b: "length blocks = ?n" "long_received (scans (play chain ?ss t)) = long_received (scans t) @ blocks"
    "bytes = concat (map (\<lambda>bs. from_msb_bits 1024 (tl bs)) blocks)"
    using read_results_received [OF idle, of ?n chain "fpgairlen d" addr 0] d'(2) by auto
  have proper: "proper s" if "s \<in> set ?ss" for s
  proof -
    from that obtain k where "s \<in> set (read_block_steps (fpgairlen d) addr k)" by auto
    moreover obtain ss where "read_block_steps (fpgairlen d) addr k = ss @ [Data (replicate 8193 False)]"
      "\<forall>s \<in> set ss. proper s \<and> short s" by (rule read_block_split)
    ultimately show ?thesis by auto
  qed
  have pages: "bytes = concat pages"
    if "(\<forall>p \<in> set pages. length p = 1024) \<and> map tl blocks = map msb_bits pages" for pages
  proof -
    have "map (\<lambda>bs. from_msb_bits 1024 (tl bs)) blocks = map (from_msb_bits 1024) (map tl blocks)" by simp
    also have "\<dots> = map (\<lambda>p. from_msb_bits 1024 (msb_bits p)) pages" using that by simp
    also have "\<dots> = map id pages"
    proof (rule map_cong)
      fix p
      assume "p \<in> set pages"
      then have "length p = 1024" using that by simp
      then show "from_msb_bits 1024 (msb_bits p) = id p" using from_msb_bits [of p] by simp
    qed simp
    finally show ?thesis by (simp add: b(3))
  qed
  show ?thesis
    using d' b pages play_idle(2) [OF idle, of ?ss chain] proper by blast
qed

lemma flash_blocks_received_witness:
  "let d = jtag_dev0; hw = wired plx9030 (\<lambda>_. True) tap0; ((r, bytes), d') = run_state (jtag_9030_XCF_read hw 0 1024) d
   in r = 1024 \<and> (\<exists>blocks. length blocks = 1 \<and> bytes = concat (map (\<lambda>bs. from_msb_bits 1024 (tl bs)) blocks))"
proof -
  let ?chain = "\<lambda>_ :: tap. True"
  obtain r bytes d' where run: "run_state (jtag_9030_XCF_read (wired plx9030 ?chain tap0) 0 1024) jtag_dev0 = ((r, bytes), d')"
    by (metis prod.exhaust)
  have "0 \<le> fpgairlen jtag_dev0" "fpgairlen jtag_dev0 \<le> 32" by (simp_all add: jtag_dev0_def)
  from flash_blocks_received [OF connected_wired(1) ready_dev0 this run]
  show ?thesis by (auto simp: Let_def run)
qed

text \<open>
  The devices of the chain are recognised by the first 64 bits they send after a reset: the identity of
  the FPGA and then that of the flash, without their versions; a third device is refused. The lengths of the
  instruction registers are those of the devices, and 0 for one that is not known.
\<close>

lemma chain_recognised:
  assumes "connected plx9030 chain t0 hw" "run_state (jtag_9030_validate hw) d = (r, d')"
  shows "\<exists>t rs. ready plx9030 chain t0 t (reg d') \<and> length rs = 96
    \<and> scans t = scans (reset_of plx9030 chain t0 (reg d)) @ [Run 1, DR (replicate 96 False) rs]
    \<and> d' = (identify rs d)\<lparr>reg := reg d'\<rparr> \<and> r = (if recognised rs then 0 else - EIO)
    \<and> (r = 0 \<longleftrightarrow> recognised rs) \<and> (r = 0 \<longrightarrow> fpgairlen d' = 10 \<and> xcfirlen d' = 16)"
proof -
  let ?t = "read_ids chain 96 (reset_of plx9030 chain t0 (reg d))"
  have v: "ready plx9030 chain t0 ?t (reg d')" "length (received ?t) = 96"
    "r = (if recognised (received ?t) then 0 else - EIO)" "d' = (identify (received ?t) d)\<lparr>reg := reg d'\<rparr>"
    using wp_run [OF assms(2) wp_validate [OF assms(1)]] by (simp_all add: Let_def)
  have "scans ?t = scans (reset_of plx9030 chain t0 (reg d)) @ [Run 1, DR (replicate 96 False) (received ?t)]"
    by (simp add: read_ids_def shift_scan_simps begin_scan_def end_scan_def reset_of_def reset_tap_state)
  moreover have "fpgairlen d' = fpgairlen (identify (received ?t) d)" "xcfirlen d' = xcfirlen (identify (received ?t) d)"
    using v(4) by (metis jtag_dev.select_convs(4,5) jtag_dev.surjective jtag_dev.update_convs(6))+
  moreover have "EIO \<noteq> 0" by (simp add: EIO_def)
  ultimately show ?thesis
    using v by (intro exI [of _ ?t] exI [of _ "received ?t"])
      (auto simp: identify_def recognised_def XC2VP4_IRLEN_def XCFXXP_IRLEN_def)
qed

lemma chain_recognised_witness:
  "let hw = wired plx9030 (\<lambda>_. False) tap0; (r, d') = run_state (jtag_9030_validate hw) jtag_dev0
   in \<exists>t. ready plx9030 (\<lambda>_. False) tap0 t (reg d') \<and> (r = 0 \<longrightarrow> fpgairlen d' = 10)"
proof -
  let ?chain = "\<lambda>_ :: tap. False"
  obtain r d' where run: "run_state (jtag_9030_validate (wired plx9030 ?chain tap0)) jtag_dev0 = (r, d')"
    by (rule prod.exhaust)
  from chain_recognised [OF connected_wired(1) run] show ?thesis by (auto simp: Let_def run)
qed


lemma events_clocks: "events (replicate n (Clocks k) @ ss) r = events ss (if r = 0 then 0 else r + n * k)"
  by (induction n arbitrary: r) (simp_all add: add.assoc)

lemma events_program_steps:
  "events (program_steps irlen) 1 =
     [Run 2, IR (xcf_code irlen XCFXXP_ISC_ENABLE) [], Run 2, DR (False # bits_of 8 0x03) [],
      Run 2, IR (xcf_code irlen XCFXXP_IDCODE) [], Run 2, DR (False # bits_of 32 0) [], Run 1, Reset,
      Run 1, IR (xcf_code irlen XCFXXP_ISC_ENABLE) [], Run 2, DR (False # bits_of 8 0xd0) [],
      Run 2, IR (xcf_code irlen XCFXXP_XSC_UNLOCK) [], Run 2, DR (False # bits_of 24 0x3f) [],
      Run 2, IR (xcf_code irlen XCFXXP_ISC_ERASE) [], DR (False # bits_of 24 0x3f) [],
      Run 140000002, IR (xcf_code irlen XCFXXP_IDCODE) [], Run 2, DR (False # bits_of 32 0) [],
      Run 2, IR (xcf_code irlen XCFXXP_ISC_ENABLE) [], Run 2, DR (False # bits_of 8 0x03) [],
      Run 2, IR (xcf_code irlen XCFXXP_XSC_DATA_BTC) [], Run 2, DR (False # bits_of 32 0xffffffe0) [],
      Run 2, IR (xcf_code irlen XCFXXP_ISC_PROGRAM) [], Run 122, IR (xcf_code irlen XCFXXP_BYPASS) []]"
proof -
  have n: "XCF_ERASE_SCHEDULE_COUNT * (XCF_ERASE_TCKS div XCF_ERASE_SCHEDULE_COUNT) = 140000000"
    by (simp add: XCF_ERASE_SCHEDULE_COUNT_def XCF_ERASE_TCKS_def)
  show ?thesis by (simp add: program_steps_def xcf_data_def events_clocks n)
qed

definition opened :: "bridge \<Rightarrow> jtag_dev \<Rightarrow> reg_event list" where
  "opened b d = (if jtag_refcount d = 0 then Wr (driven b) # reg d else reg d)"

lemma recognised_irlen: "recognised rs \<Longrightarrow> fpgairlen (identify rs d) = 10"
  by (simp add: recognised_def identify_def XC2VP4_IRLEN_def)

lemma EIO_negative: "- EIO < 0" "EIO > 0"
  by (simp_all add: EIO_def)

text \<open>Reserving the lines and recognising the devices, followed by what is done with the result.\<close>

lemma wp_open_validate:
  fixes d :: jtag_dev
  assumes "connected plx9030 chain t0 hw"
  defines "t \<equiv> read_ids chain 96 (reset_of plx9030 chain t0 (opened plx9030 d))"
  assumes "\<And>d1. ready plx9030 chain t0 t (reg d1) \<Longrightarrow> length (received t) = 96
      \<Longrightarrow> d1 = (identify (received t) d)\<lparr>jtag_refcount := jtag_refcount d + 1, reg := reg d1\<rparr>
      \<Longrightarrow> wp (k (if recognised (received t) then 0 else - EIO)) Q d1"
  shows "wp (do { _ \<leftarrow> jtag_open plx9030; r \<leftarrow> jtag_9030_validate hw; k r }) Q d"
  unfolding wp_bind wp_jtag_open opened_def [symmetric]
proof (rule wp_mono [OF wp_validate [OF assms(1)]])
  fix r d1
  let ?d = "d\<lparr>jtag_refcount := jtag_refcount d + 1, reg := opened plx9030 d\<rparr>"
  assume "let t = read_ids chain 96 (reset_of plx9030 chain t0 (reg ?d)); rs = received t in
    ready plx9030 chain t0 t (reg d1) \<and> length rs = 96 \<and> r = (if recognised rs then 0 else - EIO)
    \<and> d1 = (identify rs ?d)\<lparr>reg := reg d1\<rparr>"
  then have v: "ready plx9030 chain t0 t (reg d1)" "length (received t) = 96"
    "r = (if recognised (received t) then 0 else - EIO)" "d1 = (identify (received t) ?d)\<lparr>reg := reg d1\<rparr>"
    by (simp_all add: t_def Let_def)
  have "d1 = (identify (received t) d)\<lparr>jtag_refcount := jtag_refcount d + 1, reg := reg d1\<rparr>"
    by (subst v(4)) (simp add: identify_def)
  with v show "wp (k r) Q d1" using assms(3) by simp
qed

lemma reset_of_again:
  assumes "ready b chain t0 (reset_of b chain t0 h) h1"
  shows "reset_of b chain t0 h1 = reset_of b chain t0 h"
proof -
  have "tap_of b chain t0 h1 = reset_of b chain t0 h" using assms by (simp add: ready_def after_def)
  then have "reset_of b chain t0 h1 = (reset_of b chain t0 h)\<lparr>state := TestLogicReset, run := 0\<rparr>"
    by (simp add: reset_of_def reset_idle reset_tap_state)
  then show ?thesis by (simp add: reset_of_def reset_tap_state tap.equality)
qed

lemma wp_open_reset_validate:
  fixes d :: jtag_dev
  assumes "connected plx9030 chain t0 hw"
  defines "t \<equiv> read_ids chain 96 (reset_of plx9030 chain t0 (opened plx9030 d))"
  assumes "\<And>d1. ready plx9030 chain t0 t (reg d1) \<Longrightarrow> length (received t) = 96
      \<Longrightarrow> d1 = (identify (received t) d)\<lparr>jtag_refcount := jtag_refcount d + 1, reg := reg d1\<rparr>
      \<Longrightarrow> wp (k (if recognised (received t) then 0 else - EIO)) Q d1"
  shows "wp (do { _ \<leftarrow> jtag_open plx9030; _ \<leftarrow> on_reg (jtag_TLR plx9030 hw); r \<leftarrow> jtag_9030_validate hw; k r }) Q d"
  unfolding wp_bind wp_jtag_open opened_def [symmetric] wp_dev
proof (rule wp_mono [OF pci9030.wp_TLR_ready [OF assms(1)]])
  fix u h1
  let ?d = "d\<lparr>jtag_refcount := jtag_refcount d + 1, reg := opened plx9030 d\<rparr>"
  assume "ready plx9030 chain t0 (reset_tap chain (tdi plx9030 (reg ?d)) (tap_of plx9030 chain t0 (reg ?d))) h1"
  then have again: "reset_of plx9030 chain t0 h1 = reset_of plx9030 chain t0 (opened plx9030 d)"
    by (intro reset_of_again) (simp add: reset_of_def)
  show "wp (jtag_9030_validate hw) (\<lambda>r. wp (k r) Q) (?d\<lparr>reg := h1\<rparr>)"
  proof (rule wp_mono [OF wp_validate [OF assms(1)]])
    fix r d1
    assume "let t = read_ids chain 96 (reset_of plx9030 chain t0 (reg (?d\<lparr>reg := h1\<rparr>))); rs = received t in
      ready plx9030 chain t0 t (reg d1) \<and> length rs = 96 \<and> r = (if recognised rs then 0 else - EIO)
      \<and> d1 = (identify rs (?d\<lparr>reg := h1\<rparr>))\<lparr>reg := reg d1\<rparr>"
    then have v: "ready plx9030 chain t0 t (reg d1)" "length (received t) = 96"
      "r = (if recognised (received t) then 0 else - EIO)" "d1 = (identify (received t) (?d\<lparr>reg := h1\<rparr>))\<lparr>reg := reg d1\<rparr>"
      by (simp_all add: t_def again Let_def)
    have "d1 = (identify (received t) d)\<lparr>jtag_refcount := jtag_refcount d + 1, reg := reg d1\<rparr>"
      by (subst v(4)) (simp add: identify_def)
    with v show "wp (k r) Q d1" using assms(3) by simp
  qed
qed

text \<open>
  C35. Preparing the platform flash for programming: after the devices are recognised the flash is enabled and
  unlocked, all of it is erased with 140 million clocks, and it is set up for programming, with these scans in
  this order. Nothing is sent to a chain that is not recognised, but the lines stay reserved in this case, too.
\<close>

theorem flash_programming_prepared:
  assumes "connected plx9030 chain t0 hw" "run_state (jtag_9030_XCF_progstart hw) d = (r, d')"
  shows "jtag_refcount d' = jtag_refcount d + 1 \<and> (\<exists>rs t. ready plx9030 chain t0 t (reg d')
    \<and> (r = 0 \<longleftrightarrow> recognised rs) \<and> (r \<noteq> 0 \<longrightarrow> r = - EIO) \<and> length rs = 96
    \<and> map without_received (scans t) = map without_received (scans (reset_of plx9030 chain t0 (opened plx9030 d)))
      @ [Run 1, DR (replicate 96 False) []] @
      (if r \<noteq> 0 then [] else
        [Run 2, IR (xcf_code 10 XCFXXP_ISC_ENABLE) [], Run 2, DR (False # bits_of 8 0x03) [],
         Run 2, IR (xcf_code 10 XCFXXP_IDCODE) [], Run 2, DR (False # bits_of 32 0) [], Run 1, Reset,
         Run 1, IR (xcf_code 10 XCFXXP_ISC_ENABLE) [], Run 2, DR (False # bits_of 8 0xd0) [],
         Run 2, IR (xcf_code 10 XCFXXP_XSC_UNLOCK) [], Run 2, DR (False # bits_of 24 0x3f) [],
         Run 2, IR (xcf_code 10 XCFXXP_ISC_ERASE) [], DR (False # bits_of 24 0x3f) [],
         Run 140000002, IR (xcf_code 10 XCFXXP_IDCODE) [], Run 2, DR (False # bits_of 32 0) [],
         Run 2, IR (xcf_code 10 XCFXXP_ISC_ENABLE) [], Run 2, DR (False # bits_of 8 0x03) [],
         Run 2, IR (xcf_code 10 XCFXXP_XSC_DATA_BTC) [], Run 2, DR (False # bits_of 32 0xffffffe0) [],
         Run 2, IR (xcf_code 10 XCFXXP_ISC_PROGRAM) [], Run 122, IR (xcf_code 10 XCFXXP_BYPASS) []]))"
proof -
  let ?t = "read_ids chain 96 (reset_of plx9030 chain t0 (opened plx9030 d))"
  let ?rs = "received ?t"
  let ?t' = "if recognised ?rs then play chain (program_steps 10) ?t else ?t"
  have run: "run ?t = 1" by (simp add: read_ids_def end_scan_def)
  have scans: "map without_received (scans ?t) = map without_received (scans (reset_of plx9030 chain t0 (opened plx9030 d)))
      @ [Run 1, DR (replicate 96 False) []]"
    by (simp add: read_ids_def shift_scan_simps begin_scan_def end_scan_def reset_of_def reset_tap_state)
  have proper: "\<forall>s \<in> set (program_steps 10). proper s"
    by (auto simp: program_steps_def xcf_data_def xcf_code_def bits_of_def)
  have "wp (jtag_9030_XCF_progstart hw) (\<lambda>r d'. jtag_refcount d' = jtag_refcount d + 1 \<and> length ?rs = 96 \<and> idle ?t
      \<and> r = (if recognised ?rs then 0 else - EIO) \<and> ready plx9030 chain t0 ?t' (reg d')) d"
    unfolding jtag_9030_XCF_progstart_def
  proof (rule wp_open_validate [OF assms(1)], unfold wp_bind wp_dev)
    fix d1
    assume d1: "ready plx9030 chain t0 ?t (reg d1)" "length ?rs = 96"
      "d1 = (identify ?rs d)\<lparr>jtag_refcount := jtag_refcount d + 1, reg := reg d1\<rparr>"
    have count: "jtag_refcount d1 = jtag_refcount d + 1" "fpgairlen d1 = fpgairlen (identify ?rs d)"
      by (subst d1(3), simp)+
    have program: "wp (xcf_program hw 10) (\<lambda>_ h. ready plx9030 chain t0 (play chain (program_steps 10) ?t) h) (reg d1)"
      using playsD [OF plays_xcf_program [OF assms(1), of 10] d1(1)] by (auto elim!: wp_mono)
    show "wp (if (if recognised ?rs then 0 else - EIO) < 0 then State_Monad.return (if recognised ?rs then 0 else - EIO)
        else do { _ \<leftarrow> on_reg (xcf_program hw (fpgairlen d1)); State_Monad.return 0 })
      (\<lambda>r d'. jtag_refcount d' = jtag_refcount d + 1 \<and> length ?rs = 96 \<and> idle ?t
        \<and> r = (if recognised ?rs then 0 else - EIO) \<and> ready plx9030 chain t0 ?t' (reg d')) d1"
      using d1 count program recognised_irlen [of ?rs d] EIO_negative
      by (auto simp: ready_def elim!: wp_mono)
  qed
  from wp_run [OF assms(2) this]
  have d': "jtag_refcount d' = jtag_refcount d + 1" "length ?rs = 96" "idle ?t" "r = (if recognised ?rs then 0 else - EIO)"
    "ready plx9030 chain t0 ?t' (reg d')" by auto
  note events = play_idle(2) [OF d'(3) proper, of chain, unfolded run events_program_steps scans]
  show ?thesis
    by (intro conjI d'(1) exI [of _ ?rs] exI [of _ ?t'])
      (use d' events scans EIO_negative in \<open>auto split: if_splits\<close>)
qed

lemma flash_programming_prepared_witness:
  "let (r, d') = run_state (jtag_9030_XCF_progstart (wired plx9030 (\<lambda>_. False) tap0)) jtag_dev0
   in jtag_refcount d' = 1 \<and> (r = 0 \<or> r = - 5)"
proof -
  let ?chain = "\<lambda>_ :: tap. False"
  obtain r d' where run: "run_state (jtag_9030_XCF_progstart (wired plx9030 ?chain tap0)) jtag_dev0 = (r, d')"
    by (rule prod.exhaust)
  have "jtag_refcount jtag_dev0 = 0" by (simp add: jtag_dev0_def)
  with flash_programming_prepared [OF connected_wired(1) run] show ?thesis by (auto simp: run EIO_def)
qed

text \<open>
  Reading the platform flash never gives back the lines of the interface: starting a session reserves them,
  and its end only sends its scans. Starting sends a register of zeros with the command that enables the flash,
  where programming sends 3.
\<close>

lemma read_session_keeps_lines:
  assumes "connected plx9030 chain t0 hw" "run_state (jtag_9030_XCF_readstart hw) d = (0, d1)"
    and "run_state (jtag_9030_XCF_readend hw) d1 = (r, d2)"
  shows "r = 0 \<and> jtag_refcount d1 = jtag_refcount d + 1 \<and> jtag_refcount d2 = jtag_refcount d + 1 \<and> fpgairlen d1 = 10
    \<and> (\<exists>t1 t2. ready plx9030 chain t0 t1 (reg d1) \<and> ready plx9030 chain t0 t2 (reg d2)
      \<and> map without_received (scans t1) = map without_received (scans (reset_of plx9030 chain t0 (opened plx9030 d)))
        @ [Run 1, DR (replicate 96 False) [], Run 2, IR (xcf_code 10 XCFXXP_ISC_ENABLE) [], Run 2, DR (replicate 9 False) []]
      \<and> map without_received (scans t2) = map without_received (scans t1)
        @ [Run 2, IR (xcf_code 10 XCFXXP_XSC_OP_STATUS) [], Run 2, DR (replicate 9 False) [],
           Run 2, IR (xcf_code 10 XCFXXP_ISC_DISABLE) [], Run 16, Reset])"
proof -
  let ?t = "read_ids chain 96 (reset_of plx9030 chain t0 (opened plx9030 d))"
  let ?rs = "received ?t"
  let ?ss = "[Instruction (xcf_code 10 XCFXXP_ISC_ENABLE), xcf_data 8 0]"
  let ?ss' = "op_status_steps 10 @ [Instruction (xcf_code 10 XCFXXP_ISC_DISABLE), Clocks 15, To_reset]"
  let ?t1 = "play chain ?ss ?t"
  have run: "run ?t = 1" "run ?t1 = 1" by (simp_all add: read_ids_def end_scan_def xcf_data_def)
  have scans: "map without_received (scans ?t) = map without_received (scans (reset_of plx9030 chain t0 (opened plx9030 d)))
      @ [Run 1, DR (replicate 96 False) []]"
    by (simp add: read_ids_def shift_scan_simps begin_scan_def end_scan_def reset_of_def reset_tap_state)
  have proper: "\<forall>s \<in> set ?ss. proper s" "\<forall>s \<in> set ?ss'. proper s"
    by (simp_all add: xcf_data_def xcf_code_def bits_of_def op_status_steps_def)
  have zeros: "False # bits_of 8 0 = replicate 9 False"
    using replicate_Suc [of 8 False] by (simp add: bits_of_zero)
  have start: "wp (jtag_9030_XCF_readstart hw) (\<lambda>r d'. r = 0 \<longrightarrow> jtag_refcount d' = jtag_refcount d + 1 \<and> fpgairlen d' = 10
      \<and> idle ?t \<and> ready plx9030 chain t0 ?t1 (reg d')) d"
    unfolding jtag_9030_XCF_readstart_def
  proof (rule wp_open_reset_validate [OF assms(1)], unfold wp_bind wp_dev)
    fix d1
    assume d1: "ready plx9030 chain t0 ?t (reg d1)" "length ?rs = 96"
      "d1 = (identify ?rs d)\<lparr>jtag_refcount := jtag_refcount d + 1, reg := reg d1\<rparr>"
    have count: "jtag_refcount d1 = jtag_refcount d + 1" "fpgairlen d1 = fpgairlen (identify ?rs d)"
      by (subst d1(3), simp)+
    have "plays plx9030 chain t0 (do { _ \<leftarrow> xcf_instruction hw 10 XCFXXP_ISC_ENABLE True;
        _ \<leftarrow> xcf_data_register hw 8 (be_bytes32 3); State_Monad.return () }) ?ss (\<lambda>_. ())"
      by (rule plays_eq, (rule xcf_plays assms(1) | simp)+)
    from playsD [OF this d1(1)]
    have w: "wp (xcf_instruction hw 10 XCFXXP_ISC_ENABLE True) (\<lambda>u. wp (xcf_data_register hw 8 (be_bytes32 3))
        (\<lambda>v h. ready plx9030 chain t0 ?t1 h)) (reg d1)"
      by (auto elim!: wp_mono)
    show "wp (if (if recognised ?rs then 0 else - EIO) < 0
        then do { _ \<leftarrow> jtag_release plx9030; State_Monad.return (if recognised ?rs then 0 else - EIO) }
        else do { _ \<leftarrow> on_reg (xcf_instruction hw (fpgairlen d1) XCFXXP_ISC_ENABLE True);
             _ \<leftarrow> on_reg (xcf_data_register hw 8 (be_bytes32 3)); State_Monad.return 0 })
      (\<lambda>r d'. r = 0 \<longrightarrow> jtag_refcount d' = jtag_refcount d + 1 \<and> fpgairlen d' = 10 \<and> idle ?t
        \<and> ready plx9030 chain t0 ?t1 (reg d')) d1"
      using d1 count w recognised_irlen [of ?rs d] EIO_negative
      by (auto simp: ready_def wp_jtag_release Let_def elim!: wp_mono)
  qed
  have d1: "jtag_refcount d1 = jtag_refcount d + 1" "fpgairlen d1 = 10" "idle ?t" "ready plx9030 chain t0 ?t1 (reg d1)"
    using wp_run [OF assms(2) start] by simp_all
  have "plays plx9030 chain t0 (do { _ \<leftarrow> op_status hw 10; _ \<leftarrow> xcf_instruction hw 10 XCFXXP_ISC_DISABLE True;
      _ \<leftarrow> jtag_pulseTCK plx9030 hw 15; jtag_TLR plx9030 hw }) ?ss' (\<lambda>_. ())"
    by (rule plays_eq, (rule xcf_plays assms(1) | simp)+)
  from playsD [OF this d1(4)]
  have "wp (jtag_9030_XCF_readend hw) (\<lambda>r d'. r = 0 \<and> jtag_refcount d' = jtag_refcount d1
      \<and> ready plx9030 chain t0 (play chain ?ss' ?t1) (reg d')) d1"
    using d1(2) by (auto simp: jtag_9030_XCF_readend_def elim!: wp_mono)
  from wp_run [OF assms(3) this]
  have d2: "r = 0" "jtag_refcount d2 = jtag_refcount d1" "ready plx9030 chain t0 (play chain ?ss' ?t1) (reg d2)" by simp_all
  have "idle ?t1" using d1(4) by (simp add: ready_def)
  note events = play_idle(2) [OF d1(3) proper(1), of chain] play_idle(2) [OF this proper(2), of chain]
  show ?thesis
    by (intro conjI exI [of _ ?t1] exI [of _ "play chain ?ss' ?t1"] d1 d2)
      (use d1 d2 events run scans in \<open>simp_all add: xcf_data_def op_status_steps_def zeros del: play.simps\<close>)
qed


text \<open>A chain that gives the identities of the two devices as the first bits of each scan.\<close>

definition id_bit :: "nat \<Rightarrow> bool" where
  "id_bit k = (if k < 32 then bit XC2VP4_DID k else if k < 64 then bit XCF08P_DID (k - 32) else False)"

definition id_chain :: chain where
  "id_chain t = id_bit (length (received t))"

lemma outs_id_chain:
  "shifting t \<Longrightarrow> outs id_chain xs t = map (\<lambda>k. id_bit (length (received t) + k)) [0..<length xs]"
proof (induction xs arbitrary: t)
  case (Cons x xs)
  then have "outs id_chain xs (clock id_chain False x t) = map (\<lambda>k. id_bit (length (received t) + Suc k)) [0..<length xs]"
    by (simp add: clock_shifting)
  then show ?case by (simp add: id_chain_def [of t] upt_conv_Cons map_Suc_upt [symmetric] del: upt_Suc)
qed simp

lemma id_chain_recognised: "recognised (received (read_ids id_chain 96 t))"
proof -
  let ?rs = "received (read_ids id_chain 96 t)"
  have "?rs = scan_outs id_chain ShiftDR (replicate 96 False) t"
    unfolding read_ids_def by (rule received_data) simp
  then have "?rs = map id_bit [0..<96]"
    by (simp add: scan_outs_def outs_id_chain shifting_def begin_scan_def)
  then have rs: "length ?rs = 96" "k < 96 \<Longrightarrow> ?rs ! k = id_bit k" for k
    using nth_map [of k "[0..<96]" id_bit] nth_upt [of 0 k 96] by simp_all
  have "word_of (take 32 ?rs) = XC2VP4_DID" "word_of (take 32 (drop 32 ?rs)) = XCF08P_DID" "word_of (drop 64 ?rs) = 0"
    by (rule bit_word_eqI, simp add: bit_word_of rs id_bit_def)+
  then show ?thesis by (simp add: recognised_def XC2VP4_DID_def XCF08P_DID_def)
qed

lemma wp_True [simp]: "wp m (\<lambda>_ _. True) = (\<lambda>_. True)"
  by (simp add: fun_eq_iff wp_def split: prod.split)

lemma readstart_result:
  assumes "connected plx9030 chain t0 hw" "run_state (jtag_9030_XCF_readstart hw) d = (r, d1)"
  shows "r = (if recognised (received (read_ids chain 96 (reset_of plx9030 chain t0 (opened plx9030 d)))) then 0 else - EIO)"
proof -
  have "wp (jtag_9030_XCF_readstart hw)
      (\<lambda>r _. r = (if recognised (received (read_ids chain 96 (reset_of plx9030 chain t0 (opened plx9030 d)))) then 0 else - EIO)) d"
    unfolding jtag_9030_XCF_readstart_def
    by (rule wp_open_reset_validate [OF assms(1)])
      (use EIO_negative in \<open>simp add: wp_jtag_release Let_def\<close>)
  from wp_run [OF assms(2) this] show ?thesis .
qed

lemma read_session_keeps_lines_witness:
  "let hw = wired plx9030 id_chain tap0; (r1, d1) = run_state (jtag_9030_XCF_readstart hw) jtag_dev0;
     (r2, d2) = run_state (jtag_9030_XCF_readend hw) d1
   in r1 = 0 \<and> r2 = 0 \<and> jtag_refcount d1 = 1 \<and> jtag_refcount d2 = 1"
proof -
  let ?hw = "wired plx9030 id_chain tap0"
  obtain r1 d1 r2 d2 where run: "run_state (jtag_9030_XCF_readstart ?hw) jtag_dev0 = (r1, d1)"
    "run_state (jtag_9030_XCF_readend ?hw) d1 = (r2, d2)" by (metis prod.exhaust)
  have r1: "r1 = 0" using readstart_result [OF connected_wired(1) run(1)] id_chain_recognised by simp
  have "jtag_refcount jtag_dev0 = 0" by (simp add: jtag_dev0_def)
  with read_session_keeps_lines [OF connected_wired(1) run(1) [unfolded r1] run(2)] run r1
  show ?thesis by (simp add: Let_def)
qed

end
