(* ===== verification/CText.thy ===== *)
theory CText
  imports Main
begin

text \<open>
  Texts in buffers, as the C functions that print into them see them; used by the kernel module and by the
  functions that print messages.
\<close>

definition INT_MAX :: int where "INT_MAX = 2147483647"

definition LF :: string where "LF = [CHR 0x0A]"

text \<open>Storing characters from a position of a buffer on.\<close>

definition put_at :: "nat \<Rightarrow> string \<Rightarrow> string \<Rightarrow> string" where
  "put_at n cs buf = take n buf @ cs @ drop (n + length cs) buf"

text \<open>The text in a buffer, up to the first zero.\<close>

definition text_in :: "string \<Rightarrow> string" where
  "text_in buf = takeWhile (\<lambda>c. c \<noteq> CHR 0x00) buf"

lemma text_in_append: "CHR 0x00 \<notin> set out \<Longrightarrow> text_in (out @ CHR 0x00 # rest) = out"
  unfolding text_in_def by (subst takeWhile_append2) auto

end
