(* ===== verification/KernelText.thy ===== *)
theory KernelText
  imports KernelErrors MemoryAccess CText
begin

text \<open>
  Printing into a buffer with calls of \<^verbatim>\<open>snprintf\<close> one after the other, as the functions do that print the
  contents of the EEPROM and the status of the FPGA.
\<close>

section \<open>Printing\<close>

text \<open>
  The statement \<^verbatim>\<open>s += snprintf(&buf[s], size-s, ...)\<close> on the number of characters and the buffer. The kernel's
  \<^verbatim>\<open>snprintf\<close> stores as many characters as fit with a zero behind them, and returns how many the text has; for
  a size that is no positive \<^verbatim>\<open>int\<close> when it is converted to \<^verbatim>\<open>size_t\<close> it warns, does nothing and returns 0.
\<close>

definition print :: "int \<Rightarrow> string \<Rightarrow> int \<times> string \<Rightarrow> int \<times> string" where
  "print sz out = (\<lambda>(s, buf).
     if sz - s < 0 \<or> sz - s > INT_MAX then (s, buf)
     else (s + int (length out),
       if sz - s = 0 then buf
       else put_at (nat s) (take (nat (sz - s) - 1) out @ [CHR 0x00]) buf))"

text \<open>What has been printed: the texts as far as they fit, with a zero behind them.\<close>

definition printed :: "int \<Rightarrow> string \<Rightarrow> int \<times> string \<Rightarrow> bool" where
  "printed sz out = (\<lambda>(s, buf). int (length buf) = sz \<and> 0 \<le> s \<and> (s < sz \<longleftrightarrow> int (length out) < sz)
     \<and> (s < sz \<longrightarrow> s = int (length out) \<and> take (length out) buf = out \<and> (out \<noteq> [] \<longrightarrow> buf ! length out = CHR 0x00)))"

lemma printed_start: "buf \<noteq> [] \<Longrightarrow> printed (int (length buf)) [] (0, buf)"
  by (simp add: printed_def)

lemma printed_print:
  assumes "printed sz out (s, buf)" "sz \<le> INT_MAX"
  shows "printed sz (out @ new) (print sz new (s, buf))"
proof (cases "s < sz")
  case True
  with assms(1) have s: "s = int (length out)" "length out < length buf" "take (length out) buf = out"
    "sz = int (length buf)" by (auto simp: printed_def)
  have ok: "\<not> (sz - s < 0 \<or> sz - s > INT_MAX)" "sz - s \<noteq> 0" "nat s = length out"
    "nat (sz - s) - 1 = length buf - length out - 1" using True assms(2) s by auto
  show ?thesis
    unfolding print_def prod.case if_not_P [OF ok(1)] if_not_P [OF ok(2)] ok(3,4)
    using s(2) by (auto simp: printed_def put_at_def s(1,3,4) nth_append min_def)
next
  case False
  then show ?thesis using assms(1) by (auto simp: printed_def print_def)
qed

lemma printed_fold:
  assumes "sz \<le> INT_MAX"
  shows "printed sz out sb \<Longrightarrow> printed sz (out @ concat texts) (fold (print sz) texts sb)"
proof (induction texts arbitrary: out sb)
  case (Cons t ts)
  have "printed sz (out @ t) (print sz t sb)"
    using printed_print [of sz out "fst sb" "snd sb" t] Cons.prems assms by simp
  from Cons.IH [OF this] show ?case by simp
qed simp

text \<open>What the functions return after printing, and the buffer.\<close>

definition print_result :: "int \<Rightarrow> int \<times> string \<Rightarrow> int \<times> string" where
  "print_result sz = (\<lambda>(s, buf). (if s < sz then s else - ENOSPC, buf))"

lemma print_result:
  assumes "printed (int (length buf0)) out sb" "CHR 0x00 \<notin> set out" "out \<noteq> []" "print_result (int (length buf0)) sb = (r, buf)"
  shows "length buf = length buf0" "length out < length buf0 \<Longrightarrow> r = int (length out) \<and> text_in buf = out"
    "length buf0 \<le> length out \<Longrightarrow> r = - ENOSPC"
proof -
  obtain s where sb: "sb = (s, buf)" "r = (if s < int (length buf0) then s else - ENOSPC)"
    using assms(4) by (cases sb) (auto simp: print_result_def)
  with assms(1) show "length buf = length buf0" "length buf0 \<le> length out \<Longrightarrow> r = - ENOSPC"
    by (auto simp: printed_def)
  assume "length out < length buf0"
  with assms(1) sb have r: "r = int (length out)" "take (length out) buf = out" "buf ! length out = CHR 0x00" "length out < length buf"
    using assms(3) by (auto simp: printed_def)
  have "buf = out @ CHR 0x00 # drop (Suc (length out)) buf"
    using id_take_nth_drop [OF r(4)] r(2,3) by simp
  then have "text_in buf = text_in (out @ CHR 0x00 # drop (Suc (length out)) buf)" by simp
  also have "\<dots> = out" using assms(2) unfolding text_in_def by (subst takeWhile_append2) auto
  finally show "r = int (length out) \<and> text_in buf = out" using r(1) by simp
qed

end
