(* ===== verification/KernelFpga.thy ===== *)
theory KernelFpga
  imports KernelXcf KernelText
begin

text \<open>
  The FPGA behind the JTAG interface: configuring it and reading its status, on boards with a PCI9030 bridge
  (\<^verbatim>\<open>jtag.c\<close>) and on boards with a PCI9056 bridge (\<^verbatim>\<open>jtag_9056.c\<close>), where it is the only device.
\<close>

section \<open>PCI9030\<close>

text \<open>An instruction for the FPGA, followed by the bits that bypass the flash.\<close>

definition fpga_instruction :: "reg_hw \<Rightarrow> int \<Rightarrow> u32 \<Rightarrow> bool \<Rightarrow> unit reg" where
  "fpga_instruction hw irlen code tlr = do {
     _ \<leftarrow> jtag_SIR plx9030 hw 0 irlen code XCFXXP_IRLEN 0 tlr;
     State_Monad.return ()
   }"

definition fpga_data_register :: "reg_hw \<Rightarrow> nat \<Rightarrow> u8 list \<Rightarrow> bool \<Rightarrow> u8 list reg" where
  "fpga_data_register hw drlen bytes tlr = do {
     (_, tdo) \<leftarrow> jtag_SDR plx9030 hw 0 (int drlen) bytes 1 tlr;
     State_Monad.return tdo
   }"

definition dinRDSTAT_9030 :: "u8 list" where
  "dinRDSTAT_9030 =
     [0x00, 0x00, 0x00, 0x00, 0x00, 0x00, 0x00, 0x00, 0x00, 0x00, 0x00, 0x00,
      0x40, 0x07, 0x00, 0x14, 0x66, 0xaa, 0x99, 0x55, 0xff, 0xff, 0xff, 0xff]"

definition dinRCRC_status :: "u8 list" where
  "dinRCRC_status =
     [0x00, 0x00, 0x00, 0x00, 0x00, 0x00, 0x00, 0x00, 0xe0, 0x00, 0x00, 0x00, 0x80, 0x01, 0x00, 0x0c]"

text \<open>The four bytes that were read as a number, and the loop that reverses its bits.\<close>

definition bitrev_of :: "u8 list \<Rightarrow> u32" where
  "bitrev_of dout = push_bit 24 (ucast (dout ! 0)) + push_bit 16 (ucast (dout ! 1))
     + push_bit 8 (ucast (dout ! 2)) + ucast (dout ! 3)"

fun reverse_status :: "nat \<Rightarrow> u32 \<Rightarrow> u32 \<Rightarrow> u32" where
  "reverse_status 0 bitrev fpgastat = fpgastat"
| "reverse_status (Suc i) bitrev fpgastat =
     reverse_status i (signed_drop_bit 1 bitrev) (push_bit 1 fpgastat OR (bitrev AND 1))"

definition fpga_status_9030 :: "reg_hw \<Rightarrow> int \<Rightarrow> u32 reg" where
  "fpga_status_9030 hw irlen = do {
     _ \<leftarrow> fpga_instruction hw irlen XC2VP_CFGIN False;
     _ \<leftarrow> jtag_EX1toRTI plx9030 hw;
     _ \<leftarrow> fpga_data_register hw 192 dinRDSTAT_9030 False;
     _ \<leftarrow> jtag_EX1toRTI plx9030 hw;
     _ \<leftarrow> fpga_instruction hw irlen XC2VP_CFGOUT False;
     _ \<leftarrow> jtag_EX1toRTI plx9030 hw;
     dout \<leftarrow> fpga_data_register hw 32 dinRDSTAT_9030 False;
     _ \<leftarrow> jtag_EX1toRTI plx9030 hw;
     let fpgastat = reverse_status 32 (bitrev_of dout) 0;
     _ \<leftarrow> fpga_instruction hw irlen XC2VP_CFGIN False;
     _ \<leftarrow> jtag_EX1toRTI plx9030 hw;
     _ \<leftarrow> fpga_data_register hw 128 dinRCRC_status True;
     _ \<leftarrow> jtag_TLR plx9030 hw;
     State_Monad.return fpgastat
   }"

definition jtag_9030_read_fpga_status :: "reg_hw \<Rightarrow> int dev" where
  "jtag_9030_read_fpga_status hw = do {
     _ \<leftarrow> jtag_open plx9030;
     _ \<leftarrow> on_reg (jtag_TLR plx9030 hw);
     result \<leftarrow> jtag_9030_validate hw;
     irlen \<leftarrow> get_dev fpgairlen;
     result \<leftarrow> (if result < 0 then State_Monad.return result
       else do {
         fpgastat \<leftarrow> on_reg (fpga_status_9030 hw irlen);
         State_Monad.return (sint fpgastat)
       });
     _ \<leftarrow> jtag_release plx9030;
     State_Monad.return result
   }"

definition dinRCRC_load :: "u8 list" where
  "dinRCRC_load =
     [0x00, 0x00, 0x00, 0x00, 0x00, 0x00, 0x00, 0x00, 0xe0, 0x00, 0x00, 0x00,
      0x80, 0x01, 0x00, 0x0c, 0x66, 0xaa, 0x99, 0x55, 0xff, 0xff, 0xff, 0xff]"

definition dinAGHIGH :: "u8 list" where
  "dinAGHIGH = [0x10, 0x00, 0x00, 0x00, 0x80, 0x01, 0x00, 0x0c]"

text \<open>The bytes of an array, from the last one to the first, within one data register.\<close>

fun shift_down :: "bridge \<Rightarrow> reg_hw \<Rightarrow> u8 list \<Rightarrow> nat \<Rightarrow> unit reg" where
  "shift_down b hw bytes 0 = State_Monad.return ()"
| "shift_down b hw bytes (Suc i) = do {
     _ \<leftarrow> jtag_SDI b hw 8 (scast (bytes ! i)) 0 False;
     shift_down b hw bytes i
   }"

definition start_load_9030 :: "reg_hw \<Rightarrow> int \<Rightarrow> unit reg" where
  "start_load_9030 hw irlen = do {
     _ \<leftarrow> fpga_instruction hw irlen XC2VP_CFGIN False;
     _ \<leftarrow> jtag_EX1toRTI plx9030 hw;
     _ \<leftarrow> fpga_data_register hw 192 dinRCRC_load False;
     _ \<leftarrow> jtag_EX1toRTI plx9030 hw;
     _ \<leftarrow> fpga_instruction hw irlen XC2VP_JSHUTDOWN False;
     _ \<leftarrow> jtag_EX1toRTI plx9030 hw;
     _ \<leftarrow> jtag_pulseTCK plx9030 hw 12;
     _ \<leftarrow> jtag_TLR plx9030 hw;
     _ \<leftarrow> fpga_instruction hw irlen XC2VP_CFGIN False;
     _ \<leftarrow> jtag_EX1toSDR plx9030 hw;
     shift_down plx9030 hw dinAGHIGH 8
   }"

definition jtag_9030_init_load_fpga :: "reg_hw \<Rightarrow> int dev" where
  "jtag_9030_init_load_fpga hw = do {
     _ \<leftarrow> jtag_open plx9030;
     _ \<leftarrow> on_reg (jtag_TLR plx9030 hw);
     result \<leftarrow> jtag_9030_validate hw;
     irlen \<leftarrow> get_dev fpgairlen;
     if result < 0 then do {
       _ \<leftarrow> jtag_release plx9030;
       State_Monad.return result
     }
     else do {
       _ \<leftarrow> on_reg (start_load_9030 hw irlen);
       State_Monad.return 0
     }
   }"

definition jtag_load_fpga_byte :: "bridge \<Rightarrow> reg_hw \<Rightarrow> u8 \<Rightarrow> unit reg" where
  "jtag_load_fpga_byte b hw y = jtag_SCFD b hw y False"

text \<open>The clock that ends the data register, with the lines as they are but for \<^verbatim>\<open>TMS\<close>.\<close>

definition last_bit :: "bridge \<Rightarrow> reg_hw \<Rightarrow> unit reg" where
  "last_bit b hw = do {
     v \<leftarrow> read_reg hw;
     _ \<leftarrow> write_reg (v OR TMS b);
     jtag_pulseTCK b hw 1
   }"

text \<open>Going to the reset state and from there to the idle state, twice.\<close>

definition reset_twice :: "bridge \<Rightarrow> reg_hw \<Rightarrow> unit reg" where
  "reset_twice b hw = do {
     _ \<leftarrow> jtag_TLR b hw;
     _ \<leftarrow> jtag_TLRtoRTI b hw;
     _ \<leftarrow> jtag_TLR b hw;
     jtag_TLRtoRTI b hw
   }"

definition start_fpga_9030 :: "reg_hw \<Rightarrow> int \<Rightarrow> unit reg" where
  "start_fpga_9030 hw irlen = do {
     _ \<leftarrow> reset_twice plx9030 hw;
     _ \<leftarrow> fpga_instruction hw irlen XC2VP_JSTART False;
     _ \<leftarrow> jtag_EX1toRTI plx9030 hw;
     _ \<leftarrow> jtag_pulseTCK plx9030 hw 12;
     _ \<leftarrow> fpga_instruction hw irlen XC2VP_BYPASS True;
     _ \<leftarrow> fpga_instruction hw irlen XC2VP_BYPASS True;
     _ \<leftarrow> jtag_TLR plx9030 hw;
     _ \<leftarrow> reset_twice plx9030 hw;
     _ \<leftarrow> fpga_instruction hw irlen XC2VP_JSTART True;
     _ \<leftarrow> jtag_TLRtoRTI plx9030 hw;
     _ \<leftarrow> jtag_pulseTCK plx9030 hw 12;
     _ \<leftarrow> fpga_instruction hw irlen XC2VP_BYPASS True;
     jtag_TLR plx9030 hw
   }"

definition jtag_9030_end_load_fpga :: "reg_hw \<Rightarrow> int dev" where
  "jtag_9030_end_load_fpga hw = do {
     _ \<leftarrow> on_reg (last_bit plx9030 hw);
     _ \<leftarrow> on_reg (jtag_TLR plx9030 hw);
     result \<leftarrow> jtag_9030_validate hw;
     irlen \<leftarrow> get_dev fpgairlen;
     if result < 0 then do {
       _ \<leftarrow> jtag_release plx9030;
       State_Monad.return result
     }
     else do {
       _ \<leftarrow> on_reg (start_fpga_9030 hw irlen);
       _ \<leftarrow> jtag_release plx9030;
       State_Monad.return 0
     }
   }"


section \<open>PCI9056\<close>

definition XC2VP_JPROG_B :: u32 where "XC2VP_JPROG_B = 0xffcb"
definition XC5FX70T_DID :: u32 where "XC5FX70T_DID = 0x032c6093"
definition XC5FXT_IRLEN :: int where "XC5FXT_IRLEN = 10"

text \<open>The functions of \<^verbatim>\<open>jtag_9056.c\<close> that are those of \<^verbatim>\<open>jtag.c\<close> with the register of the other bridge.\<close>

definition jtag_9056_open :: "u32 dev" where "jtag_9056_open = jtag_open plx9056"
definition jtag_9056_release :: "u32 dev" where "jtag_9056_release = jtag_release plx9056"
definition jtag_9056_pulseTCK :: "reg_hw \<Rightarrow> nat \<Rightarrow> unit reg" where "jtag_9056_pulseTCK hw = jtag_pulseTCK plx9056 hw"
definition jtag_9056_TLR :: "reg_hw \<Rightarrow> unit reg" where "jtag_9056_TLR hw = jtag_TLR plx9056 hw"
definition jtag_9056_TLRtoRTI :: "reg_hw \<Rightarrow> unit reg" where "jtag_9056_TLRtoRTI hw = jtag_TLRtoRTI plx9056 hw"
definition jtag_9056_TLRtoSIR :: "reg_hw \<Rightarrow> unit reg" where "jtag_9056_TLRtoSIR hw = jtag_TLRtoSIR plx9056 hw"
definition jtag_9056_TLRtoSDR :: "reg_hw \<Rightarrow> unit reg" where "jtag_9056_TLRtoSDR hw = jtag_TLRtoSDR plx9056 hw"
definition jtag_9056_EX1toSDR :: "reg_hw \<Rightarrow> unit reg" where "jtag_9056_EX1toSDR hw = jtag_EX1toSDR plx9056 hw"
definition jtag_9056_EX1toRTI :: "reg_hw \<Rightarrow> unit reg" where "jtag_9056_EX1toRTI hw = jtag_EX1toRTI plx9056 hw"

definition jtag_9056_SDI :: "reg_hw \<Rightarrow> int \<Rightarrow> u32 \<Rightarrow> u32 \<Rightarrow> bool \<Rightarrow> (int \<times> u32) reg" where
  "jtag_9056_SDI hw = jtag_SDI plx9056 hw"

definition jtag_9056_SCFD :: "reg_hw \<Rightarrow> u8 \<Rightarrow> bool \<Rightarrow> unit reg" where
  "jtag_9056_SCFD hw = jtag_SCFD plx9056 hw"

definition jtag_9056_SIR :: "reg_hw \<Rightarrow> int \<Rightarrow> int \<Rightarrow> u32 \<Rightarrow> int \<Rightarrow> u32 \<Rightarrow> bool \<Rightarrow> (int \<times> u32) reg" where
  "jtag_9056_SIR hw = jtag_SIR plx9056 hw"

definition jtag_9056_SDR :: "reg_hw \<Rightarrow> int \<Rightarrow> int \<Rightarrow> u8 list \<Rightarrow> int \<Rightarrow> bool \<Rightarrow> (int \<times> u8 list) reg" where
  "jtag_9056_SDR hw = jtag_SDR plx9056 hw"

lemmas jtag_9056_defs = jtag_9056_open_def jtag_9056_release_def jtag_9056_pulseTCK_def jtag_9056_TLR_def
  jtag_9056_TLRtoRTI_def jtag_9056_TLRtoSIR_def jtag_9056_TLRtoSDR_def jtag_9056_EX1toSDR_def jtag_9056_EX1toRTI_def
  jtag_9056_SDI_def jtag_9056_SCFD_def jtag_9056_SIR_def jtag_9056_SDR_def

definition jtag_9056_validate :: "reg_hw \<Rightarrow> int dev" where
  "jtag_9056_validate hw = do {
     _ \<leftarrow> set_dev (\<lambda>d. d\<lparr>fpgairlen := 0\<rparr>);
     _ \<leftarrow> on_reg (jtag_9056_TLR hw);
     (_, did) \<leftarrow> on_reg (jtag_9056_SDR hw 0 64 (replicate 12 0) 0 True);
     let did1 = of_be_bytes32 (drop 4 did);
     _ \<leftarrow> set_dev (\<lambda>d. if did1 AND 0x0fffffff = XC5FX70T_DID then d\<lparr>fpgairlen := XC5FXT_IRLEN\<rparr> else d);
     _ \<leftarrow> set_dev (\<lambda>d. d\<lparr>fpgaid := did1\<rparr>);
     irlen \<leftarrow> get_dev fpgairlen;
     State_Monad.return (if of_be_bytes32 (take 4 did) \<noteq> 0 \<or> irlen = 0 then - EIO else 0)
   }"

text \<open>An instruction, with what the instruction register held before.\<close>

definition instruction_9056 :: "reg_hw \<Rightarrow> int \<Rightarrow> u32 \<Rightarrow> u32 reg" where
  "instruction_9056 hw irlen code = do {
     (_, tdo) \<leftarrow> jtag_9056_SIR hw 0 irlen code 0 0 False;
     State_Monad.return tdo
   }"

definition dinRDSTAT_9056 :: "u8 list" where
  "dinRDSTAT_9056 =
     [0x00, 0x00, 0x00, 0x00, 0x80, 0x07, 0x00, 0x14, 0x00, 0x00, 0x00, 0x04,
      0x66, 0xaa, 0x99, 0x55, 0xff, 0xff, 0xff, 0xff]"

text \<open>
  The array has 20 bytes and 24 are sent from it: the argument \<open>behind\<close> are the four bytes of the stack after
  the array.
\<close>

definition fpga_status_9056 :: "reg_hw \<Rightarrow> u8 list \<Rightarrow> int \<Rightarrow> u32 reg" where
  "fpga_status_9056 hw behind irlen = do {
     _ \<leftarrow> instruction_9056 hw irlen XC2VP_CFGIN;
     _ \<leftarrow> jtag_9056_EX1toRTI hw;
     _ \<leftarrow> jtag_9056_SDR hw 0 192 (dinRDSTAT_9056 @ behind) 0 False;
     _ \<leftarrow> jtag_9056_EX1toRTI hw;
     _ \<leftarrow> instruction_9056 hw irlen XC2VP_CFGOUT;
     _ \<leftarrow> jtag_9056_EX1toRTI hw;
     (_, dout) \<leftarrow> jtag_9056_SDR hw 0 32 (dinRDSTAT_9056 @ behind) 0 False;
     _ \<leftarrow> jtag_9056_EX1toRTI hw;
     _ \<leftarrow> jtag_9056_TLR hw;
     State_Monad.return (reverse_status 32 (bitrev_of dout) 0)
   }"

definition jtag_9056_read_fpga_status :: "reg_hw \<Rightarrow> u8 list \<Rightarrow> int dev" where
  "jtag_9056_read_fpga_status hw behind = do {
     _ \<leftarrow> jtag_9056_open;
     _ \<leftarrow> on_reg (jtag_9056_TLR hw);
     result \<leftarrow> jtag_9056_validate hw;
     irlen \<leftarrow> get_dev fpgairlen;
     result \<leftarrow> (if result < 0 then State_Monad.return result
       else do {
         fpgastat \<leftarrow> on_reg (fpga_status_9056 hw behind irlen);
         State_Monad.return (sint fpgastat)
       });
     _ \<leftarrow> jtag_9056_release;
     State_Monad.return result
   }"

definition INIT_COMPLETE :: u32 where "INIT_COMPLETE = 0x04000000"

text \<open>
  The loop that waits for the end of the initialisation of the FPGA, with the number of rounds that are left
  and what the instruction register held in the last one.
\<close>

fun wait_init_complete :: "reg_hw \<Rightarrow> int \<Rightarrow> nat \<Rightarrow> u32 \<Rightarrow> u32 reg" where
  "wait_init_complete hw irlen 0 tdo = State_Monad.return tdo"
| "wait_init_complete hw irlen (Suc i) tdo = do {
     _ \<leftarrow> instruction_9056 hw irlen XC2VP_CFGIN;
     _ \<leftarrow> jtag_9056_EX1toRTI hw;
     _ \<leftarrow> jtag_9056_pulseTCK hw 100000;
     tdo \<leftarrow> instruction_9056 hw irlen XC2VP_CFGIN;
     _ \<leftarrow> jtag_9056_EX1toRTI hw;
     if tdo AND INIT_COMPLETE = INIT_COMPLETE then State_Monad.return tdo
     else wait_init_complete hw irlen i tdo
   }"

definition start_load_9056 :: "reg_hw \<Rightarrow> int \<Rightarrow> bool reg" where
  "start_load_9056 hw irlen = do {
     tdo \<leftarrow> instruction_9056 hw irlen XC2VP_JPROG_B;
     _ \<leftarrow> jtag_9056_EX1toRTI hw;
     tdo \<leftarrow> wait_init_complete hw irlen 100 tdo;
     if tdo AND INIT_COMPLETE \<noteq> INIT_COMPLETE then State_Monad.return False
     else do {
       _ \<leftarrow> jtag_9056_TLR hw;
       _ \<leftarrow> instruction_9056 hw irlen XC2VP_CFGIN;
       _ \<leftarrow> jtag_9056_EX1toSDR hw;
       State_Monad.return True
     }
   }"

definition jtag_9056_init_load_fpga :: "reg_hw \<Rightarrow> int dev" where
  "jtag_9056_init_load_fpga hw = do {
     _ \<leftarrow> jtag_9056_open;
     _ \<leftarrow> on_reg (jtag_9056_TLR hw);
     result \<leftarrow> jtag_9056_validate hw;
     irlen \<leftarrow> get_dev fpgairlen;
     if result < 0 then do {
       _ \<leftarrow> jtag_9056_release;
       State_Monad.return result
     }
     else do {
       complete \<leftarrow> on_reg (start_load_9056 hw irlen);
       if \<not> complete then do {
         _ \<leftarrow> jtag_9056_release;
         State_Monad.return result
       }
       else State_Monad.return 0
     }
   }"

definition start_fpga_9056 :: "reg_hw \<Rightarrow> int \<Rightarrow> unit reg" where
  "start_fpga_9056 hw irlen = do {
     _ \<leftarrow> last_bit plx9056 hw;
     _ \<leftarrow> jtag_9056_EX1toRTI hw;
     _ \<leftarrow> instruction_9056 hw irlen XC2VP_JSTART;
     _ \<leftarrow> jtag_9056_EX1toRTI hw;
     _ \<leftarrow> jtag_9056_pulseTCK hw 1200;
     _ \<leftarrow> instruction_9056 hw irlen XC2VP_BYPASS;
     _ \<leftarrow> jtag_9056_EX1toRTI hw;
     _ \<leftarrow> instruction_9056 hw irlen XC2VP_BYPASS;
     _ \<leftarrow> jtag_9056_EX1toRTI hw;
     _ \<leftarrow> instruction_9056 hw irlen XC2VP_JSTART;
     _ \<leftarrow> jtag_9056_TLRtoRTI hw;
     _ \<leftarrow> jtag_9056_pulseTCK hw 1200;
     _ \<leftarrow> instruction_9056 hw irlen XC2VP_BYPASS;
     jtag_9056_TLR hw
   }"

definition jtag_9056_end_load_fpga :: "reg_hw \<Rightarrow> int dev" where
  "jtag_9056_end_load_fpga hw = do {
     irlen \<leftarrow> get_dev fpgairlen;
     _ \<leftarrow> on_reg (start_fpga_9056 hw irlen);
     _ \<leftarrow> jtag_9056_release;
     State_Monad.return 0
   }"

section \<open>The text of the status\<close>

definition flag :: "u32 \<Rightarrow> u32 \<Rightarrow> string" where
  "flag fpgastat m = (if fpgastat AND m \<noteq> 0 then ''1'' else ''0'')"

definition status_texts :: "u32 \<Rightarrow> string list" where
  "status_texts fpgastat =
     [''FPGA status'' @ LF,
      ''DONE      '' @ flag fpgastat 0x1000 @ LF,
      ''INIT      '' @ flag fpgastat 0x0800 @ LF,
      ''MODE      '' @ flag fpgastat 0x0400 @ flag fpgastat 0x0200 @ flag fpgastat 0x0100 @ LF,
      ''GHIGH_B   '' @ (if fpgastat AND 0x0080 \<noteq> 0 then ''deasserted'' else ''asserted'') @ LF,
      ''GWE       '' @ flag fpgastat 0x0040 @ LF,
      ''DCI_MATCH '' @ flag fpgastat 0x0008 @ LF,
      ''DCM_LOCK  '' @ flag fpgastat 0x0004 @ LF,
      ''CRC_ERROR '' @ flag fpgastat 0x0001 @ LF]"

definition print_status :: "int \<Rightarrow> string \<Rightarrow> int \<Rightarrow> int \<times> string" where
  "print_status fpgastat buf sz =
     (if fpgastat < 0 then (fpgastat, buf)
      else print_result sz (fold (print sz) (status_texts (word_of_int fpgastat)) (0, buf)))"

definition fpga_9030_sprint :: "reg_hw \<Rightarrow> string \<Rightarrow> int \<Rightarrow> (int \<times> string) dev" where
  "fpga_9030_sprint hw buf sz = do {
     fpgastat \<leftarrow> jtag_9030_read_fpga_status hw;
     State_Monad.return (print_status fpgastat buf sz)
   }"

definition fpga_9056_sprint :: "reg_hw \<Rightarrow> u8 list \<Rightarrow> string \<Rightarrow> int \<Rightarrow> (int \<times> string) dev" where
  "fpga_9056_sprint hw behind buf sz = do {
     fpgastat \<leftarrow> jtag_9056_read_fpga_status hw behind;
     State_Monad.return (print_status fpgastat buf sz)
   }"

end
