(* ===== verification/KernelFpga_Props.thy ===== *)
theory KernelFpga_Props
  imports KernelFpga KernelXcf_Props
begin

text \<open>
  Configuring the FPGA: what the devices see of a configuration, from the first command to the start of the
  FPGA, on both bridges.
\<close>

section \<open>Bytes of a configuration\<close>

context jtag_bridge
begin

lemma wp_shift_byte:
  assumes "connected b chain t0 hw"
  shows "after b chain t0 False t h \<Longrightarrow> g AND TCK b = 0 \<Longrightarrow> g AND TDI b = 0 \<Longrightarrow> g AND TMS b = 0 \<Longrightarrow> n \<le> 8 \<Longrightarrow>
    wp (shift_byte b hw False n g w) (\<lambda>_ h'. after b chain t0 False (feed chain False (map (\<lambda>k. bit w (7 - k)) [0..<n]) t) h') h"
proof (induction n arbitrary: t h w)
  case (Suc n)
  let ?v = "if w AND 0x80 \<noteq> 0 then g OR TDI b else g"
  have bit: "w AND 0x80 \<noteq> 0 \<longleftrightarrow> bit w 7"
  proof -
    have "(0x80 :: u8) = push_bit 7 1" by simp
    then show ?thesis by (simp only: and_exp_eq_0_iff_not_bit [where n = 7 and a = w] push_bit_of_1) simp
  qed
  have v: "?v AND TCK b = 0" "?v AND TMS b = 0" "?v AND TDI b \<noteq> 0 \<longleftrightarrow> bit w 7"
    using Suc.prems bit by (simp_all add: bits)
  have h1: "after b chain t0 False t (Wr ?v # h)" "tdi b (Wr ?v # h) = bit w 7"
    using Suc.prems(1) v by (simp_all add: after_def)
  have shifted: "map (\<lambda>k. bit w (7 - k)) [0..<Suc n] = bit w 7 # map (\<lambda>k. bit (push_bit 1 w) (7 - k)) [0..<n]"
  proof -
    have "bit (push_bit 1 w) (7 - k) = bit w (7 - Suc k)" if "k < n" for k
      using that Suc.prems(5) unfolding bit_push_bit_iff by auto
    then show ?thesis by (simp add: upt_conv_Cons map_Suc_upt [symmetric] del: upt_Suc)
  qed
  show ?case
    unfolding shift_byte.simps Let_def wp_bind wp_reg simp_thms if_False
  proof (rule wp_mono [OF wp_pulse_after [OF assms h1(1), of 1, unfolded h1(2) pow_one]])
    fix r h2
    assume "after b chain t0 False (clock chain False (bit w 7) t) h2"
    from Suc.IH [OF this Suc.prems(2-4)] Suc.prems(5)
    show "wp (shift_byte b hw False n g (push_bit 1 w))
      (\<lambda>_ h'. after b chain t0 False (feed chain False (map (\<lambda>k. bit w (7 - k)) [0..<Suc n]) t) h') h2"
      unfolding shifted by simp
  qed
qed simp

lemma wp_load_fpga_byte:
  assumes "connected b chain t0 hw" "after b chain t0 False t h"
  shows "wp (jtag_load_fpga_byte b hw w) (\<lambda>_ h'. after b chain t0 False (feed chain False (rev (byte_bits w)) t) h') h"
proof -
  have "(hw h AND NOT (TDI b)) AND TCK b = 0" "(hw h AND NOT (TDI b)) AND TDI b = 0" "(hw h AND NOT (TDI b)) AND TMS b = 0"
    using assms(2) connectedD(1,3) [OF assms(1), of h] by (simp_all add: after_def bits)
  moreover have "after b chain t0 False t (Rd (hw h) # h)" using assms(2) by (simp add: after_def)
  moreover have "map (\<lambda>k. bit w (7 - k)) [0..<8] = rev (byte_bits w)"
    by (rule nth_equalityI) (simp_all add: byte_bits_def rev_nth)
  ultimately show ?thesis
    using wp_shift_byte [OF assms(1), of t "Rd (hw h) # h" "hw h AND NOT (TDI b)" 8 w]
    by (simp add: jtag_load_fpga_byte_def jtag_SCFD_def)
qed

end

text \<open>The bytes that a process writes to the device of the FPGA.\<close>

fun load_bytes :: "bridge \<Rightarrow> reg_hw \<Rightarrow> u8 list \<Rightarrow> unit reg" where
  "load_bytes b hw [] = State_Monad.return ()"
| "load_bytes b hw (w # ws) = do { _ \<leftarrow> jtag_load_fpga_byte b hw w; load_bytes b hw ws }"


context jtag_bridge
begin

lemma wp_load_bytes:
  assumes "connected b chain t0 hw"
  shows "after b chain t0 False t h \<Longrightarrow>
    wp (load_bytes b hw ws) (\<lambda>_ h'. after b chain t0 False (feed chain False (msb_bits ws) t) h') h"
proof (induction ws arbitrary: t h)
  case Nil
  then show ?case by (simp add: msb_bits_def)
next
  case (Cons w ws)
  have parts: "feed chain False (msb_bits (w # ws)) t = feed chain False (msb_bits ws) (feed chain False (rev (byte_bits w)) t)"
    by (cases "msb_bits ws = []") (simp_all add: msb_bits_def feed_append)
  show ?case
    unfolding load_bytes.simps wp_bind parts
    by (rule wp_mono [OF wp_load_fpga_byte [OF assms Cons.prems]], rule Cons.IH)
qed

text \<open>The clock that leaves the register, with whatever level the line for the data has.\<close>

lemma wp_last_bit:
  assumes "connected b chain t0 hw" "after b chain t0 x t h"
  shows "wp (last_bit b hw) (\<lambda>_ h'. after b chain t0 True (clock chain True (tdi b h) t) h') h"
proof -
  let ?v = "hw h OR TMS b"
  have v: "?v AND TCK b = 0" "?v AND TMS b \<noteq> 0" "?v AND TDI b = 0 \<longleftrightarrow> \<not> tdi b h"
    using connectedD [OF assms(1), of h] assms(2) by (simp_all add: bits after_def)
  then have "after b chain t0 True t (Wr ?v # Rd (hw h) # h)" "tdi b (Wr ?v # Rd (hw h) # h) = tdi b h"
    using assms(2) by (simp_all add: after_def)
  with wp_pulse_after [OF assms(1) this(1), of 1] show ?thesis
    by (simp add: last_bit_def del: lines_simps)
qed

text \<open>A scan of an instruction register without other devices in the chain, from any state.\<close>

lemma wp_SIR_alone:
  assumes "connected b chain t0 hw" "after b chain t0 x t h" "1 \<le> irlen" "irlen \<le> 32"
    and "\<And>u v w. (clock chain False w ^^ 2) ((clock chain True v ^^ 2) (clock chain False u t)) = t'"
  shows "wp (jtag_SIR b hw 0 irlen code 0 tdo False) (\<lambda>_ h'.
    after b chain t0 True (feed chain True (bits_of (nat irlen) code) t') h') h"
proof -
  have ok: "\<not> ((0 :: int) < 0 \<or> (0 :: int) > 32 \<or> (0 :: int) < 0 \<or> (0 :: int) > 32 \<or> irlen < 1 \<or> irlen > 32)"
    using assms(3,4) by auto
  have sdi: "wp (jtag_SDI b hw irlen code 0 True) (\<lambda>_ h'. after b chain t0 True (feed chain True (bits_of (nat irlen) code) t') h') h1"
    if "after b chain t0 False t' h1" for h1
    using wp_mono [OF wp_SDI [OF assms(1) that, of "nat irlen" code 0 True]] assms(3,4) by auto
  show ?thesis
    unfolding jtag_SIR_def if_not_P [OF ok] wp_bind
    by (rule wp_mono [OF wp_TLRtoSIR [OF assms(1,2,5)]]) (simp add: wp_mono [OF sdi])
qed

end


section \<open>Loading an FPGA alone in the chain\<close>

lemma plays_wp: "(\<And>Q h. wp m Q h = wp m' Q h) \<Longrightarrow> plays b chain t0 m ss f = plays b chain t0 m' ss f"
  by (simp add: plays_def)

text \<open>A scan and the way to the idle state, with what follows.\<close>

lemma plays_to_RTI_then:
  assumes "plays b chain t0 (do { r \<leftarrow> m; _ \<leftarrow> e; State_Monad.return r }) ss f" "\<And>r. plays b chain t0 (k r) ss' (f' r)"
  shows "plays b chain t0 (do { r \<leftarrow> m; _ \<leftarrow> e; k r }) (ss @ ss') (\<lambda>t. f' (f t) (play chain ss t))"
  using plays_bind [OF assms] by (subst plays_wp [where m' = "do { r \<leftarrow> do { r \<leftarrow> m; _ \<leftarrow> e; State_Monad.return r }; k r }"]) simp_all

definition code_9056 :: "int \<Rightarrow> u32 \<Rightarrow> bool list" where
  "code_9056 irlen code = bits_of (nat irlen) code"

lemma plays_instruction_9056:
  assumes "connected plx9056 chain t0 hw" "1 \<le> irlen" "irlen \<le> 32"
  shows "plays plx9056 chain t0 (do { r \<leftarrow> instruction_9056 hw irlen code; _ \<leftarrow> jtag_9056_EX1toRTI hw; State_Monad.return r })
    [Instruction (code_9056 irlen code)]
    (\<lambda>t. push_bit (32 - nat irlen) (word_of (scan_outs chain ShiftIR (code_9056 irlen code) t)))"
proof -
  have sir: "plays plx9056 chain t0 (do { r \<leftarrow> jtag_9056_SIR hw 0 irlen code 0 0 False; _ \<leftarrow> jtag_9056_EX1toRTI hw; State_Monad.return r })
      [Instruction (code_9056 irlen code)]
      (\<lambda>t. (0, push_bit (32 - nat irlen) (word_of (scan_outs chain ShiftIR (code_9056 irlen code) t))))"
    using pci9056.plays_SIR_to_RTI [OF assms(1) _ _ _ _ assms(2,3), of 0 0 "code_9056 irlen code" code 0]
    by (simp add: code_9056_def jtag_9056_defs)
  from plays_bind [OF this, of "\<lambda>r. State_Monad.return (snd r)" "[]" "\<lambda>r _. snd r"]
  have "plays plx9056 chain t0 (do { r \<leftarrow> do { r \<leftarrow> jtag_9056_SIR hw 0 irlen code 0 0 False; _ \<leftarrow> jtag_9056_EX1toRTI hw;
        State_Monad.return r }; State_Monad.return (snd r) }) [Instruction (code_9056 irlen code)]
      (\<lambda>t. push_bit (32 - nat irlen) (word_of (scan_outs chain ShiftIR (code_9056 irlen code) t)))"
    by (simp add: plays_return)
  then show ?thesis
    by (subst plays_wp) (simp_all add: instruction_9056_def wp_funs)
qed

text \<open>One round of the loop that waits, and the whole loop.\<close>

definition wait_round :: "int \<Rightarrow> step list" where
  "wait_round irlen = [Instruction (code_9056 irlen XC2VP_CFGIN), Clocks 100000, Instruction (code_9056 irlen XC2VP_CFGIN)]"

lemma plays_wait_round:
  assumes "connected plx9056 chain t0 hw" "1 \<le> irlen" "irlen \<le> 32"
  shows "plays plx9056 chain t0 (do { _ \<leftarrow> instruction_9056 hw irlen XC2VP_CFGIN; _ \<leftarrow> jtag_9056_EX1toRTI hw;
      _ \<leftarrow> jtag_9056_pulseTCK hw 100000; tdo \<leftarrow> instruction_9056 hw irlen XC2VP_CFGIN; _ \<leftarrow> jtag_9056_EX1toRTI hw;
      State_Monad.return tdo })
    (wait_round irlen) (\<lambda>t. push_bit (32 - nat irlen) (word_of (scan_outs chain ShiftIR (code_9056 irlen XC2VP_CFGIN)
      (play chain [Clocks 100000] (play chain [Instruction (code_9056 irlen XC2VP_CFGIN)] t)))))"
proof -
  let ?cfg = "Instruction (code_9056 irlen XC2VP_CFGIN)"
  note ins = plays_instruction_9056 [OF assms, of XC2VP_CFGIN]
  have pulse: "plays plx9056 chain t0 (jtag_9056_pulseTCK hw 100000) [Clocks 100000] (\<lambda>_. ())"
    unfolding jtag_9056_pulseTCK_def by (rule pci9056.plays_pulseTCK [OF assms(1)])
  have steps: "wait_round irlen = [?cfg] @ [Clocks 100000] @ [?cfg]" by (simp add: wait_round_def)
  show ?thesis
    unfolding steps
    by (rule plays_to_RTI_then [OF ins, of "\<lambda>_. do { _ \<leftarrow> jtag_9056_pulseTCK hw 100000; tdo \<leftarrow> instruction_9056 hw irlen XC2VP_CFGIN;
        _ \<leftarrow> jtag_9056_EX1toRTI hw; State_Monad.return tdo }"], rule plays_then [OF pulse ins])
qed

lemma wp_wait_Suc:
  "wp (wait_init_complete hw irlen (Suc i) tdo) Q h =
     wp (do { _ \<leftarrow> instruction_9056 hw irlen XC2VP_CFGIN; _ \<leftarrow> jtag_9056_EX1toRTI hw;
       _ \<leftarrow> jtag_9056_pulseTCK hw 100000; tdo \<leftarrow> instruction_9056 hw irlen XC2VP_CFGIN; _ \<leftarrow> jtag_9056_EX1toRTI hw;
       State_Monad.return tdo })
     (\<lambda>r. wp (if r AND INIT_COMPLETE = INIT_COMPLETE then State_Monad.return r else wait_init_complete hw irlen i r) Q) h"
  by (simp add: wp_funs del: wp_if)

lemma wp_wait_init_complete:
  assumes "connected plx9056 chain t0 hw" "1 \<le> irlen" "irlen \<le> 32"
  shows "ready plx9056 chain t0 t h \<Longrightarrow> wp (wait_init_complete hw irlen i tdo) (\<lambda>r h'. \<exists>n \<le> i.
    ready plx9056 chain t0 (play chain (concat (replicate n (wait_round irlen))) t) h' \<and> (0 < i \<longrightarrow> 0 < n)
    \<and> (r AND INIT_COMPLETE \<noteq> INIT_COMPLETE \<longrightarrow> n = i)) h"
proof (induction i arbitrary: t h tdo)
  case (Suc i)
  show ?case
    unfolding wp_wait_Suc
  proof (rule wp_mono [OF playsD [OF plays_wait_round [OF assms] Suc.prems]], elim conjE)
    fix r h1
    assume h1: "ready plx9056 chain t0 (play chain (wait_round irlen) t) h1"
    have one: "concat (replicate 1 (wait_round irlen)) = wait_round irlen"
      and more: "play chain (concat (replicate (Suc n) (wait_round irlen))) t
        = play chain (concat (replicate n (wait_round irlen))) (play chain (wait_round irlen) t)" for n
      by simp_all
    show "wp (if r AND INIT_COMPLETE = INIT_COMPLETE then State_Monad.return r else wait_init_complete hw irlen i r)
      (\<lambda>r h'. \<exists>n \<le> Suc i.
      ready plx9056 chain t0 (play chain (concat (replicate n (wait_round irlen))) t) h' \<and> (0 < Suc i \<longrightarrow> 0 < n)
      \<and> (r AND INIT_COMPLETE \<noteq> INIT_COMPLETE \<longrightarrow> n = Suc i)) h1"
    proof (cases "r AND INIT_COMPLETE = INIT_COMPLETE")
      case True
      then show ?thesis using h1 one by (auto intro!: exI [of _ 1])
    next
      case False
      show ?thesis
        unfolding if_not_P [OF False]
      proof (rule wp_mono [OF Suc.IH [OF h1]], elim exE conjE)
        fix r' h' n
        assume "n \<le> i" "ready plx9056 chain t0 (play chain (concat (replicate n (wait_round irlen))) (play chain (wait_round irlen) t)) h'"
          "r' AND INIT_COMPLETE \<noteq> INIT_COMPLETE \<longrightarrow> n = i"
        then show "\<exists>n \<le> Suc i. ready plx9056 chain t0 (play chain (concat (replicate n (wait_round irlen))) t) h'
            \<and> (0 < Suc i \<longrightarrow> 0 < n) \<and> (r' AND INIT_COMPLETE \<noteq> INIT_COMPLETE \<longrightarrow> n = Suc i)"
          by (intro exI [of _ "Suc n"]) simp
      qed
    qed
  qed
qed simp

text \<open>
  What the chain answers to the instruction that asks for the state of the initialisation, and the result of
  the loop if it is always the same.
\<close>

definition init_answer :: "chain \<Rightarrow> int \<Rightarrow> tap \<Rightarrow> bool" where
  "init_answer chain irlen t \<longleftrightarrow>
     push_bit (32 - nat irlen) (word_of (scan_outs chain ShiftIR (code_9056 irlen XC2VP_CFGIN) t)) AND INIT_COMPLETE = INIT_COMPLETE"

lemma wp_wait_answers:
  assumes "connected plx9056 chain t0 hw" "1 \<le> irlen" "irlen \<le> 32" "\<forall>t. init_answer chain irlen t = a"
  shows "ready plx9056 chain t0 t h \<Longrightarrow>
    wp (wait_init_complete hw irlen (Suc i) tdo) (\<lambda>r _. (r AND INIT_COMPLETE = INIT_COMPLETE) = a) h"
proof (induction i arbitrary: t h tdo)
  case 0
  show ?case
    unfolding wp_wait_Suc
    by (rule wp_mono [OF playsD [OF plays_wait_round [OF assms(1-3)] 0]], elim conjE)
      (use assms(4) [unfolded init_answer_def, THEN spec] in \<open>simp\<close>)
next
  case (Suc i)
  show ?case
    unfolding wp_wait_Suc [where i = "Suc i"]
  proof (rule wp_mono [OF playsD [OF plays_wait_round [OF assms(1-3)] Suc.prems]], elim conjE)
    fix r h1
    assume h1: "ready plx9056 chain t0 (play chain (wait_round irlen) t) h1"
      and "r = push_bit (32 - nat irlen) (word_of (scan_outs chain ShiftIR (code_9056 irlen XC2VP_CFGIN)
        (play chain [Clocks 100000] (play chain [Instruction (code_9056 irlen XC2VP_CFGIN)] t))))"
    then have r: "(r AND INIT_COMPLETE = INIT_COMPLETE) = a"
      using assms(4) unfolding init_answer_def by metis
    show "wp (if r AND INIT_COMPLETE = INIT_COMPLETE then State_Monad.return r else wait_init_complete hw irlen (Suc i) r)
      (\<lambda>r _. (r AND INIT_COMPLETE = INIT_COMPLETE) = a) h1"
      using Suc.IH [OF h1, of r] r by (cases a) (simp_all del: wait_init_complete.simps)
  qed
qed

text \<open>Into the register for the configuration, which stays open.\<close>

definition open_config :: "chain \<Rightarrow> int \<Rightarrow> tap \<Rightarrow> tap" where
  "open_config chain irlen t = to_data (end_scan (shift_scan chain ShiftIR (code_9056 irlen XC2VP_CFGIN) t))"

lemma wp_open_config:
  assumes "connected plx9056 chain t0 hw" "1 \<le> irlen" "irlen \<le> 32" "ready plx9056 chain t0 t h"
  shows "wp (do { _ \<leftarrow> instruction_9056 hw irlen XC2VP_CFGIN; jtag_9056_EX1toSDR hw })
    (\<lambda>_ h'. after plx9056 chain t0 False (open_config chain irlen t) h') h"
proof -
  let ?xs = "code_9056 irlen XC2VP_CFGIN"
  let ?t = "shift_scan chain ShiftIR ?xs t"
  have r: "after plx9056 chain t0 (state t = TestLogicReset) t h" "idle t" using assms(4) by (simp_all add: ready_def)
  have ne: "?xs \<noteq> []" using assms(2) by (simp add: code_9056_def bits_of_def)
  have exit: "state ?t = Exit1DR \<or> state ?t = Exit1IR" "run ?t = 0" by (simp_all add: shift_scan_simps ne begin_scan_def)
  have sir: "wp (jtag_SIR plx9056 hw 0 irlen XC2VP_CFGIN 0 0 False) (\<lambda>_ h'. after plx9056 chain t0 True ?t h') h"
    using pci9056.wp_SIR [OF assms(1) r _ _ _ _ assms(2,3), of 0 0 ?xs XC2VP_CFGIN 0 False]
    by (auto simp: code_9056_def elim!: wp_mono)
  have exit_wp: "wp (jtag_EX1toSDR plx9056 hw) (\<lambda>_ h'. after plx9056 chain t0 False (open_config chain irlen t) h') h1"
    if "after plx9056 chain t0 True ?t h1" for h1
    using pci9056.wp_from_exit(2) [OF assms(1) that exit] by (simp add: open_config_def to_data_def)
  show ?thesis
    unfolding instruction_9056_def jtag_9056_defs wp_funs by (rule wp_mono [OF sir], erule exit_wp)
qed

definition load_9056_steps :: "int \<Rightarrow> nat \<Rightarrow> step list" where
  "load_9056_steps irlen n = Instruction (code_9056 irlen XC2VP_JPROG_B) # concat (replicate n (wait_round irlen))"

lemma wp_start_load_9056:
  assumes "connected plx9056 chain t0 hw" "1 \<le> irlen" "irlen \<le> 32" "ready plx9056 chain t0 t h"
  shows "wp (start_load_9056 hw irlen) (\<lambda>r h'. \<exists>n \<le> 100. 0 < n \<and>
    (let t' = play chain (load_9056_steps irlen n) t in
      if r then after plx9056 chain t0 False (open_config chain irlen (play1 chain To_reset t')) h'
      else n = 100 \<and> ready plx9056 chain t0 t' h')) h"
proof -
  let ?prog = "Instruction (code_9056 irlen XC2VP_JPROG_B)"
  let ?Q = "\<lambda>r h'. \<exists>n \<le> 100. 0 < n \<and> (let t' = play chain (load_9056_steps irlen n) t in
      if r then after plx9056 chain t0 False (open_config chain irlen (play1 chain To_reset t')) h'
      else n = 100 \<and> ready plx9056 chain t0 t' h')"
  let ?fin = "\<lambda>tdo. if tdo AND INIT_COMPLETE \<noteq> INIT_COMPLETE then State_Monad.return False
     else do { _ \<leftarrow> jtag_9056_TLR hw; _ \<leftarrow> instruction_9056 hw irlen XC2VP_CFGIN; _ \<leftarrow> jtag_9056_EX1toSDR hw; State_Monad.return True }"
  have start: "wp (start_load_9056 hw irlen) Q h
     = wp (do { r \<leftarrow> instruction_9056 hw irlen XC2VP_JPROG_B; _ \<leftarrow> jtag_9056_EX1toRTI hw; State_Monad.return r })
         (\<lambda>tdo. wp (wait_init_complete hw irlen 100 tdo) (\<lambda>tdo. wp (?fin tdo) Q)) h" for Q
    by (simp add: start_load_9056_def wp_funs del: wp_if wait_init_complete.simps)
  show ?thesis
    unfolding start
  proof (rule wp_mono [OF playsD [OF plays_instruction_9056 [OF assms(1-3)] assms(4)]], elim conjE,
      rule wp_mono [OF wp_wait_init_complete [OF assms(1-3)]], assumption, elim exE conjE)
    fix r1 h1 tdo h2 and n :: nat
    assume "n \<le> 100" "0 < (100 :: nat) \<longrightarrow> 0 < n" and late: "tdo AND INIT_COMPLETE \<noteq> INIT_COMPLETE \<longrightarrow> n = 100"
    then have n: "n \<le> 100" "0 < n" by simp_all
    assume "ready plx9056 chain t0 (play chain (concat (replicate n (wait_round irlen))) (play chain [?prog] t)) h2"
    then have h2: "ready plx9056 chain t0 (play chain (load_9056_steps irlen n) t) h2" by (simp add: load_9056_steps_def)
    let ?t = "play chain (load_9056_steps irlen n) t"
    show "wp (?fin tdo) ?Q h2"
    proof (cases "tdo AND INIT_COMPLETE = INIT_COMPLETE")
      case True
      have tlr: "wp (jtag_9056_TLR hw) (\<lambda>_ h'. ready plx9056 chain t0 (play1 chain To_reset ?t) h') h2"
        unfolding jtag_9056_TLR_def using wp_mono [OF playsD [OF pci9056.plays_TLR [OF assms(1)] h2]] by auto
      have "wp (do { _ \<leftarrow> instruction_9056 hw irlen XC2VP_CFGIN; _ \<leftarrow> jtag_9056_EX1toSDR hw; State_Monad.return True }) ?Q h3"
        if "ready plx9056 chain t0 (play1 chain To_reset ?t) h3" for h3
      proof -
        have "wp (do { _ \<leftarrow> instruction_9056 hw irlen XC2VP_CFGIN; jtag_9056_EX1toSDR hw }) (\<lambda>_. ?Q True) h3"
          by (rule wp_mono [OF wp_open_config [OF assms(1-3) that]]) (use n in \<open>auto simp: Let_def\<close>)
        then show ?thesis by (simp only: wp_funs)
      qed
      note opened = this
      have "?fin tdo = do { _ \<leftarrow> jtag_9056_TLR hw; _ \<leftarrow> instruction_9056 hw irlen XC2VP_CFGIN;
          _ \<leftarrow> jtag_9056_EX1toSDR hw; State_Monad.return True }"
        using True by simp
      then show ?thesis
        using wp_mono [OF tlr opened] by (simp only: wp_funs)
    next
      case False
      then show ?thesis using late h2 n by (auto simp: Let_def)
    qed
  qed
qed



section \<open>Starting the FPGA\<close>

text \<open>Bits that are sent outside of the registers are nothing but clocks.\<close>

lemma feed_in_idle:
  "state t = RunTestIdle \<Longrightarrow> feed chain False xs t = t\<lparr>run := run t + length xs\<rparr>"
  "state t = RunTestIdle \<Longrightarrow> xs \<noteq> [] \<Longrightarrow>
     feed chain True xs t = t\<lparr>state := SelectDR, run := 0, scans := scans t @ [Run (run t + length xs - 1)]\<rparr>"
proof -
  have stays: "state t = RunTestIdle \<Longrightarrow> feed chain False xs t = t\<lparr>run := run t + length xs\<rparr>" for t xs
    by (induction xs arbitrary: t) (simp_all add: clock_steps)
  show "state t = RunTestIdle \<Longrightarrow> feed chain False xs t = t\<lparr>run := run t + length xs\<rparr>" by (rule stays)
  show "feed chain True xs t = t\<lparr>state := SelectDR, run := 0, scans := scans t @ [Run (run t + length xs - 1)]\<rparr>"
    if t: "state t = RunTestIdle" and xs: "xs \<noteq> []"
  proof -
    obtain ys y where "xs = ys @ [y]" using xs by (metis rev_exhaust)
    then show ?thesis using t by (simp add: feed_append stays clock_steps)
  qed
qed

lemma pause_clocks: "state t = PauseIR \<Longrightarrow> run t = 0 \<Longrightarrow> (clock chain False x ^^ n) t = t"
  by (induction n) (simp_all add: clock_steps)

lemma reset_select: "state t = SelectDR \<Longrightarrow>
  reset_tap chain x t = t\<lparr>state := TestLogicReset, run := 0, scans := scans t @ [Reset]\<rparr>"
  by (simp add: reset_tap_def clock_steps numeral_eq_Suc)

text \<open>The state of the chain after the second start command, and after the instruction that follows it.\<close>

definition paused :: "tap \<Rightarrow> tap" where
  "paused t = t\<lparr>state := PauseIR, run := 0\<rparr>"

definition start_clocked :: "nat \<Rightarrow> tap \<Rightarrow> tap" where
  "start_clocked n t = t\<lparr>state := SelectDR, run := 0, scans := scans t @ [IR (sent t) (received t), Run (n + 1)]\<rparr>"

lemma wp_second_start:
  assumes "connected plx9056 chain t0 hw" "1 \<le> irlen" "irlen \<le> 32" "ready plx9056 chain t0 t h"
  shows "wp (do { _ \<leftarrow> instruction_9056 hw irlen XC2VP_JSTART; _ \<leftarrow> jtag_9056_TLRtoRTI hw; _ \<leftarrow> jtag_9056_pulseTCK hw 1200;
      _ \<leftarrow> instruction_9056 hw irlen XC2VP_BYPASS; jtag_9056_TLR hw })
    (\<lambda>_ h'. \<exists>x. ready plx9056 chain t0
      (reset_tap chain x (start_clocked (nat irlen) (shift_scan chain ShiftIR (code_9056 irlen XC2VP_JSTART) t))) h') h"
proof -
  let ?xs = "code_9056 irlen XC2VP_JSTART" and ?ys = "bits_of (nat irlen) XC2VP_BYPASS"
  let ?t = "shift_scan chain ShiftIR ?xs t"
  have ne: "?xs \<noteq> []" "?ys \<noteq> []" using assms(2) by (simp_all add: code_9056_def bits_of_def)
  have exit: "state ?t = Exit1IR" "run ?t = 0" by (simp_all add: shift_scan_simps ne begin_scan_def)
  have r: "after plx9056 chain t0 (state t = TestLogicReset) t h" "idle t" using assms(4) by (simp_all add: ready_def)
  have sir: "wp (jtag_SIR plx9056 hw 0 irlen XC2VP_JSTART 0 0 False) (\<lambda>_ h'. after plx9056 chain t0 True ?t h') h"
    using pci9056.wp_SIR [OF assms(1) r _ _ _ _ assms(2,3), of 0 0 ?xs XC2VP_JSTART 0 False]
    by (auto simp: code_9056_def elim!: wp_mono)
  have to_pause: "clock chain False y ?t = paused ?t" for y by (simp add: clock_steps exit paused_def)
  have p: "state (paused ?t) = PauseIR" "run (paused ?t) = 0" by (simp_all add: paused_def)
  define t3 where "t3 = (paused ?t)\<lparr>state := RunTestIdle, run := 2, scans := scans ?t @ [IR (sent ?t) (received ?t)]\<rparr>"
  have leave: "(clock chain False w ^^ 2) ((clock chain True v ^^ 2) (clock chain False u (paused ?t))) = t3" for u v w
    by (simp add: clock_steps paused_def t3_def numeral_2_eq_2)
  have fed: "feed chain True ?ys t3 = start_clocked (nat irlen) ?t"
    using assms(2) feed_in_idle(2) [of t3 ?ys chain] ne(2)
    by (simp add: t3_def start_clocked_def paused_def numeral_2_eq_2)
  have tlr: "wp (jtag_TLR plx9056 hw) (\<lambda>_ h'. \<exists>x. ready plx9056 chain t0 (reset_tap chain x t') h') h'"
    if "after plx9056 chain t0 True t' h'" for t' h'
  proof -
    have "tap_of plx9056 chain t0 h' = t'" using that by (simp add: after_def)
    then show ?thesis by (intro wp_mono [OF pci9056.wp_TLR_ready [OF assms(1), where h = h']]) blast
  qed
  have last: "wp (do { _ \<leftarrow> jtag_SIR plx9056 hw 0 irlen XC2VP_BYPASS 0 0 False; jtag_TLR plx9056 hw })
      (\<lambda>_ h'. \<exists>x. ready plx9056 chain t0 (reset_tap chain x (start_clocked (nat irlen) ?t)) h') h'"
    if "after plx9056 chain t0 False (paused ?t) h'" for h'
    unfolding wp_bind
    by (rule wp_mono [OF pci9056.wp_SIR_alone [OF assms(1) that assms(2,3) leave, where code = XC2VP_BYPASS, unfolded fed]], rule tlr)
  have pulse: "wp (jtag_pulseTCK plx9056 hw 1200) (\<lambda>_ h'. after plx9056 chain t0 False (paused ?t) h') h'"
    if "after plx9056 chain t0 False (paused ?t) h'" for h'
    using pci9056.wp_pulse_after [OF assms(1) that, of 1200] by (simp only: pause_clocks [OF p])
  show ?thesis
    unfolding instruction_9056_def jtag_9056_defs wp_funs
    by (rule wp_mono [OF sir], rule wp_mono [OF pci9056.wp_TLRtoRTI [OF assms(1) _ to_pause]], assumption,
        rule wp_mono [OF pulse], assumption, drule last) (simp only: wp_funs)
qed



text \<open>What the end of a configuration plays after the first start command, and the state it ends in.\<close>

definition start_steps :: "int \<Rightarrow> step list" where
  "start_steps irlen = [Instruction (code_9056 irlen XC2VP_JSTART), Clocks 1200,
     Instruction (code_9056 irlen XC2VP_BYPASS), Instruction (code_9056 irlen XC2VP_BYPASS)]"

definition started :: "chain \<Rightarrow> int \<Rightarrow> tap \<Rightarrow> tap" where
  "started chain irlen t = start_clocked (nat irlen) (shift_scan chain ShiftIR (code_9056 irlen XC2VP_JSTART)
     (play chain (start_steps irlen) (end_scan t)))"

lemma wp_start_fpga_9056:
  assumes "connected plx9056 chain t0 hw" "1 \<le> irlen" "irlen \<le> 32"
    and "after plx9056 chain t0 False t h" "state t = ShiftDR"
  shows "wp (start_fpga_9056 hw irlen) (\<lambda>_ h'. \<exists>x y. ready plx9056 chain t0
    (reset_tap chain x (started chain irlen (clock chain True y t))) h') h"
proof -
  let ?t1 = "clock chain True (tdi plx9056 h) t"
  let ?first = "do { _ \<leftarrow> do { r \<leftarrow> instruction_9056 hw irlen XC2VP_JSTART; _ \<leftarrow> jtag_9056_EX1toRTI hw; State_Monad.return r };
    _ \<leftarrow> jtag_9056_pulseTCK hw 1200;
    _ \<leftarrow> do { r \<leftarrow> instruction_9056 hw irlen XC2VP_BYPASS; _ \<leftarrow> jtag_9056_EX1toRTI hw; State_Monad.return r };
    _ \<leftarrow> do { r \<leftarrow> instruction_9056 hw irlen XC2VP_BYPASS; _ \<leftarrow> jtag_9056_EX1toRTI hw; State_Monad.return r };
    State_Monad.return () }"
  let ?second = "do { _ \<leftarrow> instruction_9056 hw irlen XC2VP_JSTART; _ \<leftarrow> jtag_9056_TLRtoRTI hw; _ \<leftarrow> jtag_9056_pulseTCK hw 1200;
      _ \<leftarrow> instruction_9056 hw irlen XC2VP_BYPASS; jtag_9056_TLR hw }"
  have split: "wp (start_fpga_9056 hw irlen) Q h = wp (last_bit plx9056 hw) (\<lambda>_. wp (jtag_EX1toRTI plx9056 hw)
      (\<lambda>_. wp ?first (\<lambda>_. wp ?second Q))) h" for Q
    by (simp add: start_fpga_9056_def jtag_9056_EX1toRTI_def wp_funs)
  have exit: "state ?t1 = Exit1DR \<or> state ?t1 = Exit1IR" "run ?t1 = 0" using assms(5) by simp_all
  have pulse: "plays plx9056 chain t0 (jtag_9056_pulseTCK hw 1200) [Clocks 1200] (\<lambda>_. ())"
    unfolding jtag_9056_pulseTCK_def by (rule pci9056.plays_pulseTCK [OF assms(1)])
  note ins = plays_instruction_9056 [OF assms(1-3)]
  have first: "plays plx9056 chain t0 ?first (start_steps irlen) (\<lambda>_. ())"
    by (rule plays_eq, (rule plays_seq [OF ins] plays_seq [OF pulse] plays_return)+) (simp add: start_steps_def)
  show ?thesis
    unfolding split
  proof (rule wp_mono [OF pci9056.wp_last_bit [OF assms(1,4)]], rule wp_mono [OF pci9056.wp_from_exit(1) [OF assms(1) _ exit]],
      assumption)
    fix r1 r2 :: unit and h1 h2
    assume "after plx9056 chain t0 False (end_scan ?t1) h2"
    then have h2: "ready plx9056 chain t0 (end_scan ?t1) h2" by (simp add: ready_def idle_def end_scan_def)
    show "wp ?first (\<lambda>_. wp ?second (\<lambda>_ h'. \<exists>x y. ready plx9056 chain t0
        (reset_tap chain x (started chain irlen (clock chain True y t))) h')) h2"
    proof (rule wp_mono [OF playsD [OF first h2]], elim conjE)
      fix r3 :: unit and h3
      assume "ready plx9056 chain t0 (play chain (start_steps irlen) (end_scan ?t1)) h3"
      from wp_second_start [OF assms(1-3) this]
      show "wp ?second (\<lambda>_ h'. \<exists>x y. ready plx9056 chain t0
          (reset_tap chain x (started chain irlen (clock chain True y t))) h') h3"
        unfolding started_def by (rule wp_mono) blast
    qed
  qed
qed

section \<open>Recognising the FPGA\<close>

definition recognised_9056 :: "bool list \<Rightarrow> bool" where
  "recognised_9056 rs \<longleftrightarrow> word_of (take 32 rs) AND 0x0fffffff = XC5FX70T_DID \<and> word_of (drop 32 rs) = 0"

definition identify_9056 :: "bool list \<Rightarrow> jtag_dev \<Rightarrow> jtag_dev" where
  "identify_9056 rs d = d\<lparr>fpgaid := word_of (take 32 rs),
     fpgairlen := (if word_of (take 32 rs) AND 0x0fffffff = XC5FX70T_DID then XC5FXT_IRLEN else 0)\<rparr>"

lemma wp_validate_9056:
  fixes d :: jtag_dev
  assumes "connected plx9056 chain t0 hw"
  defines "t \<equiv> read_ids chain 64 (reset_of plx9056 chain t0 (reg d))"
  shows "wp (jtag_9056_validate hw) (\<lambda>r d'. ready plx9056 chain t0 t (reg d')
    \<and> r = (if recognised_9056 (received t) then 0 else - EIO) \<and> d' = (identify_9056 (received t) d)\<lparr>reg := reg d'\<rparr>) d"
proof -
  define zs where "zs = replicate 12 (0 :: u8)"
  let ?rs = "received t"
  note ids = pci9056.wp_read_ids [OF assms(1), of 8 12 "reg d", folded zs_def]
  have regs: "wp (jtag_TLR plx9056 hw) (\<lambda>_ h. wp (jtag_SDR plx9056 hw 0 64 zs 0 True)
      (\<lambda>r h'. ready plx9056 chain t0 t h' \<and> r = (0, rev (unstream 8 ?rs))) h) (reg d)"
    and len: "length ?rs = 64"
    using ids by (simp_all add: t_def)
  have "unstream 8 ?rs = unstream 4 (take 32 ?rs) @ unstream 4 (drop 32 ?rs)"
    using unstream_split [of 4 8 ?rs] by simp
  then have bytes: "of_be_bytes32 (drop 4 (rev (unstream 8 ?rs))) = word_of (take 32 ?rs)"
    "of_be_bytes32 (take 4 (rev (unstream 8 ?rs))) = word_of (drop 32 ?rs)"
    using len by (simp_all add: of_be_bytes32_rev)
  have irlen: "XC5FXT_IRLEN \<noteq> 0" by (simp add: XC5FXT_IRLEN_def)
  show ?thesis
    unfolding jtag_9056_validate_def jtag_9056_defs zs_def [symmetric] wp_bind wp_dev wp_prod Let_def
    by (simp split del: if_split, rule wp_mono [OF regs], erule wp_mono)
      (use irlen in \<open>auto simp: bytes recognised_9056_def identify_9056_def\<close>)
qed



lemma wp_open_reset_validate_9056:
  fixes d :: jtag_dev
  assumes "connected plx9056 chain t0 hw"
  defines "t \<equiv> read_ids chain 64 (reset_of plx9056 chain t0 (opened plx9056 d))"
  assumes "\<And>d1. ready plx9056 chain t0 t (reg d1)
      \<Longrightarrow> d1 = (identify_9056 (received t) d)\<lparr>jtag_refcount := jtag_refcount d + 1, reg := reg d1\<rparr>
      \<Longrightarrow> wp (k (if recognised_9056 (received t) then 0 else - EIO)) Q d1"
  shows "wp (do { _ \<leftarrow> jtag_9056_open; _ \<leftarrow> on_reg (jtag_9056_TLR hw); r \<leftarrow> jtag_9056_validate hw; k r }) Q d"
  unfolding wp_bind jtag_9056_open_def jtag_9056_TLR_def wp_jtag_open opened_def [symmetric] wp_dev
proof (rule wp_mono [OF pci9056.wp_TLR_ready [OF assms(1)]])
  fix u h1
  let ?d = "d\<lparr>jtag_refcount := jtag_refcount d + 1, reg := opened plx9056 d\<rparr>"
  assume "ready plx9056 chain t0 (reset_tap chain (tdi plx9056 (reg ?d)) (tap_of plx9056 chain t0 (reg ?d))) h1"
  then have again: "reset_of plx9056 chain t0 h1 = reset_of plx9056 chain t0 (opened plx9056 d)"
    by (intro reset_of_again) (simp add: reset_of_def)
  show "wp (jtag_9056_validate hw) (\<lambda>r. wp (k r) Q) (?d\<lparr>reg := h1\<rparr>)"
  proof (rule wp_mono [OF wp_validate_9056 [OF assms(1)]])
    fix r d1
    assume "ready plx9056 chain t0 (read_ids chain 64 (reset_of plx9056 chain t0 (reg (?d\<lparr>reg := h1\<rparr>)))) (reg d1)
      \<and> r = (if recognised_9056 (received (read_ids chain 64 (reset_of plx9056 chain t0 (reg (?d\<lparr>reg := h1\<rparr>))))) then 0 else - EIO)
      \<and> d1 = (identify_9056 (received (read_ids chain 64 (reset_of plx9056 chain t0 (reg (?d\<lparr>reg := h1\<rparr>)))))
          (?d\<lparr>reg := h1\<rparr>))\<lparr>reg := reg d1\<rparr>"
    then have v: "ready plx9056 chain t0 t (reg d1)" "r = (if recognised_9056 (received t) then 0 else - EIO)"
      "d1 = (identify_9056 (received t) (?d\<lparr>reg := h1\<rparr>))\<lparr>reg := reg d1\<rparr>"
      by (simp_all add: t_def again)
    have "d1 = (identify_9056 (received t) d)\<lparr>jtag_refcount := jtag_refcount d + 1, reg := reg d1\<rparr>"
      by (subst v(3)) (simp add: identify_9056_def)
    with v show "wp (k r) Q d1" using assms(3) by simp
  qed
qed

text \<open>
  The start of a configuration: the lines are kept exactly if the initialisation of the FPGA was seen to be
  complete, but the result does not tell that.
\<close>

lemma wp_init_load_9056:
  fixes d :: jtag_dev
  assumes "connected plx9056 chain t0 hw" "jtag_refcount d = 0"
  defines "t \<equiv> read_ids chain 64 (reset_of plx9056 chain t0 (opened plx9056 d))"
  shows "wp (jtag_9056_init_load_fpga hw) (\<lambda>r d'.
    r = (if recognised_9056 (received t) then 0 else - EIO)
    \<and> (r = 0 \<longrightarrow> fpgairlen d' = 10 \<and> (\<exists>n \<le> 100. 0 < n \<and> (let t' = play chain (load_9056_steps 10 n) t in
        if jtag_refcount d' = 0 then n = 100 \<and> (\<exists>h. ready plx9056 chain t0 t' h \<and> reg d' = Wr (released plx9056) # h)
        else jtag_refcount d' = 1 \<and> after plx9056 chain t0 False (open_config chain 10 (play1 chain To_reset t')) (reg d'))))
    \<and> (r \<noteq> 0 \<longrightarrow> jtag_refcount d' = 0)) d"
  unfolding jtag_9056_init_load_fpga_def
proof (rule wp_open_reset_validate_9056 [OF assms(1)], fold t_def, unfold wp_bind wp_dev)
  fix d1
  let ?Q = "\<lambda>r d'. r = (if recognised_9056 (received t) then 0 else - EIO)
    \<and> (r = 0 \<longrightarrow> fpgairlen d' = 10 \<and> (\<exists>n \<le> 100. 0 < n \<and> (let t' = play chain (load_9056_steps 10 n) t in
        if jtag_refcount d' = 0 then n = 100 \<and> (\<exists>h. ready plx9056 chain t0 t' h \<and> reg d' = Wr (released plx9056) # h)
        else jtag_refcount d' = 1 \<and> after plx9056 chain t0 False (open_config chain 10 (play1 chain To_reset t')) (reg d'))))
    \<and> (r \<noteq> 0 \<longrightarrow> jtag_refcount d' = 0)"
  assume ready: "ready plx9056 chain t0 t (reg d1)"
    and d1: "d1 = (identify_9056 (received t) d)\<lparr>jtag_refcount := jtag_refcount d + 1, reg := reg d1\<rparr>"
  have count: "jtag_refcount d1 = 1" "fpgairlen d1 = fpgairlen (identify_9056 (received t) d)"
    by (subst d1, simp add: assms(2))+
  show "wp (if (if recognised_9056 (received t) then 0 else - EIO) < 0
      then do { _ \<leftarrow> jtag_9056_release; State_Monad.return (if recognised_9056 (received t) then 0 else - EIO) }
      else do { complete \<leftarrow> on_reg (start_load_9056 hw (fpgairlen d1));
        if \<not> complete
        then do { _ \<leftarrow> jtag_9056_release; State_Monad.return (if recognised_9056 (received t) then 0 else - EIO) }
        else State_Monad.return 0 }) ?Q d1"
  proof (cases "recognised_9056 (received t)")
    case False
    then show ?thesis using EIO_negative count by (simp add: jtag_9056_release_def wp_jtag_release)
  next
    case True
    then have irlen: "fpgairlen d1 = 10"
      using count(2) by (simp add: recognised_9056_def identify_9056_def XC5FXT_IRLEN_def)
    have "wp (start_load_9056 hw 10) (\<lambda>c h. wp (if \<not> c then do { _ \<leftarrow> jtag_9056_release; State_Monad.return 0 }
        else State_Monad.return 0) ?Q (d1\<lparr>reg := h\<rparr>)) (reg d1)"
    proof (rule wp_mono [OF wp_start_load_9056 [OF assms(1) _ _ ready]])
      fix c h
      assume "\<exists>n \<le> 100. 0 < n \<and> (let t' = play chain (load_9056_steps 10 n) t in
        if c then after plx9056 chain t0 False (open_config chain 10 (play1 chain To_reset t')) h
        else n = 100 \<and> ready plx9056 chain t0 t' h)"
      then obtain n where n: "n \<le> 100" "0 < n" "if c then after plx9056 chain t0 False
          (open_config chain 10 (play1 chain To_reset (play chain (load_9056_steps 10 n) t))) h
        else n = 100 \<and> ready plx9056 chain t0 (play chain (load_9056_steps 10 n) t) h"
        by (auto simp: Let_def)
      show "wp (if \<not> c then do { _ \<leftarrow> jtag_9056_release; State_Monad.return 0 } else State_Monad.return 0) ?Q (d1\<lparr>reg := h\<rparr>)"
        using n count True irlen
        by (cases c) (auto simp: jtag_9056_release_def wp_jtag_release Let_def intro!: exI [of _ n])
    qed simp_all
    then show ?thesis using True irlen by (simp add: wp_dev)
  qed
qed



section \<open>What the FPGA sees of a configuration\<close>

lemma open_config_simps:
  assumes "idle t" "1 \<le> irlen"
  shows "state (open_config chain irlen t) = ShiftDR" "run (open_config chain irlen t) = 0"
    "sent (open_config chain irlen t) = []"
    "map without_received (scans (open_config chain irlen t))
      = map without_received (scans t) @ [Run (run t + 1), IR (code_9056 irlen XC2VP_CFGIN) []]"
proof -
  have "code_9056 irlen XC2VP_CFGIN \<noteq> []" using assms(2) by (simp add: code_9056_def bits_of_def)
  then show "state (open_config chain irlen t) = ShiftDR" "run (open_config chain irlen t) = 0"
    "sent (open_config chain irlen t) = []"
    "map without_received (scans (open_config chain irlen t))
      = map without_received (scans t) @ [Run (run t + 1), IR (code_9056 irlen XC2VP_CFGIN) []]"
    by (simp_all add: open_config_def to_data_def end_scan_def shift_scan_simps begin_scan_def)
qed

lemma open_config_fed:
  assumes "idle t" "1 \<le> irlen"
  shows "state (feed chain False xs (open_config chain irlen t)) = ShiftDR" "run (feed chain False xs (open_config chain irlen t)) = 0"
    "sent (feed chain False xs (open_config chain irlen t)) = xs"
    "scans (feed chain False xs (open_config chain irlen t)) = scans (open_config chain irlen t)"
  using feed_stays [of "open_config chain irlen t" chain xs] open_config_simps [OF assms, of chain] by (simp_all add: shifting_def)

lemma events_load_9056:
  "events (load_9056_steps irlen n) 1 = [Run 2, IR (code_9056 irlen XC2VP_JPROG_B) []]
     @ concat (replicate n [Run 2, IR (code_9056 irlen XC2VP_CFGIN) [], Run 100002, IR (code_9056 irlen XC2VP_CFGIN) []])"
proof -
  have "events (concat (replicate n (wait_round irlen))) 1
    = concat (replicate n [Run 2, IR (code_9056 irlen XC2VP_CFGIN) [], Run 100002, IR (code_9056 irlen XC2VP_CFGIN) []])"
    by (induction n) (simp_all add: wait_round_def)
  then show ?thesis by (simp add: load_9056_steps_def)
qed

lemma run_after_load: "0 < n \<Longrightarrow> run (play chain (load_9056_steps irlen n) t) = 1"
proof (induction n)
  case (Suc n)
  have "concat (replicate (Suc n) (wait_round irlen)) = concat (replicate n (wait_round irlen)) @ wait_round irlen"
    by (simp flip: replicate_append_same)
  then show ?case by (simp only: load_9056_steps_def play.simps play_append) (simp add: wait_round_def end_scan_def)
qed simp

lemma started_scans:
  assumes "state t = ShiftDR" "run t = 0" "1 \<le> irlen"
  shows "state (started chain irlen (clock chain True y t)) = SelectDR"
    "map without_received (scans (started chain irlen (clock chain True y t))) = map without_received (scans t)
      @ [DR (sent t @ [y]) [], Run 2, IR (code_9056 irlen XC2VP_JSTART) [], Run 1202, IR (code_9056 irlen XC2VP_BYPASS) [],
         Run 2, IR (code_9056 irlen XC2VP_BYPASS) [], Run 2, IR (code_9056 irlen XC2VP_JSTART) [], Run (nat irlen + 1)]"
proof -
  let ?t = "end_scan (clock chain True y t)"
  let ?u = "play chain (start_steps irlen) ?t"
  have t: "idle ?t" "run ?t = 1" "map without_received (scans ?t) = map without_received (scans t) @ [DR (sent t @ [y]) []]"
    using assms(1) by (simp_all add: idle_def end_scan_def clock_shifting)
  have ne: "code_9056 irlen c \<noteq> []" for c using assms(3) by (simp add: code_9056_def bits_of_def)
  have proper: "\<forall>s \<in> set (start_steps irlen). proper s" by (simp add: start_steps_def ne)
  have u: "run ?u = 1" by (simp add: start_steps_def end_scan_def)
  have "events (start_steps irlen) 1 = [Run 2, IR (code_9056 irlen XC2VP_JSTART) [], Run 1202,
      IR (code_9056 irlen XC2VP_BYPASS) [], Run 2, IR (code_9056 irlen XC2VP_BYPASS) []]"
    by (simp add: start_steps_def)
  then have scans: "map without_received (scans ?u) = map without_received (scans t) @ [DR (sent t @ [y]) [],
      Run 2, IR (code_9056 irlen XC2VP_JSTART) [], Run 1202, IR (code_9056 irlen XC2VP_BYPASS) [],
      Run 2, IR (code_9056 irlen XC2VP_BYPASS) []]"
    using play_idle(2) [OF t(1) proper, of chain] by (simp only: t) simp
  show "state (started chain irlen (clock chain True y t)) = SelectDR"
    by (simp add: started_def start_clocked_def)
  show "map without_received (scans (started chain irlen (clock chain True y t))) = map without_received (scans t)
      @ [DR (sent t @ [y]) [], Run 2, IR (code_9056 irlen XC2VP_JSTART) [], Run 1202, IR (code_9056 irlen XC2VP_BYPASS) [],
         Run 2, IR (code_9056 irlen XC2VP_BYPASS) [], Run 2, IR (code_9056 irlen XC2VP_JSTART) [], Run (nat irlen + 1)]"
    by (simp add: started_def start_clocked_def shift_scan_simps [OF ne] begin_scan_def u scans del: play.simps)
qed



lemma wp_start_answers:
  assumes "connected plx9056 chain t0 hw" "1 \<le> irlen" "irlen \<le> 32" "\<forall>t. init_answer chain irlen t = a"
    and "ready plx9056 chain t0 t h"
  shows "wp (start_load_9056 hw irlen) (\<lambda>r _. r = a) h"
proof -
  have hundred: "(100 :: nat) = Suc 99" by simp
  have start: "wp (start_load_9056 hw irlen) Q h
     = wp (do { r \<leftarrow> instruction_9056 hw irlen XC2VP_JPROG_B; _ \<leftarrow> jtag_9056_EX1toRTI hw; State_Monad.return r })
         (\<lambda>tdo. wp (wait_init_complete hw irlen 100 tdo) (\<lambda>tdo. wp (if tdo AND INIT_COMPLETE \<noteq> INIT_COMPLETE then State_Monad.return False
     else do { _ \<leftarrow> jtag_9056_TLR hw; _ \<leftarrow> instruction_9056 hw irlen XC2VP_CFGIN; _ \<leftarrow> jtag_9056_EX1toSDR hw; State_Monad.return True }) Q)) h" for Q
    by (simp add: start_load_9056_def wp_funs del: wp_if wait_init_complete.simps)
  show ?thesis
    unfolding start hundred
  proof (rule wp_mono [OF playsD [OF plays_instruction_9056 [OF assms(1-3)] assms(5)]], elim conjE,
      rule wp_mono [OF wp_wait_answers [OF assms(1-4)]], assumption)
    fix r1 :: u32 and h1 and tdo :: u32 and h2
    assume "(tdo AND INIT_COMPLETE = INIT_COMPLETE) = a"
    then show "wp (if tdo AND INIT_COMPLETE \<noteq> INIT_COMPLETE then State_Monad.return False
     else do { _ \<leftarrow> jtag_9056_TLR hw; _ \<leftarrow> instruction_9056 hw irlen XC2VP_CFGIN; _ \<leftarrow> jtag_9056_EX1toSDR hw; State_Monad.return True })
      (\<lambda>r _. r = a) h2"
      by (cases a) (simp_all add: wp_funs)
  qed
qed

lemma wp_init_answers:
  fixes d :: jtag_dev
  assumes "connected plx9056 chain t0 hw" "jtag_refcount d = 0" "\<forall>t. init_answer chain 10 t = a"
    and rs: "recognised_9056 (received (read_ids chain 64 (reset_of plx9056 chain t0 (opened plx9056 d))))"
  shows "wp (jtag_9056_init_load_fpga hw) (\<lambda>r d'. r = 0 \<and> jtag_refcount d' = (if a then 1 else 0)) d"
  unfolding jtag_9056_init_load_fpga_def
proof (rule wp_open_reset_validate_9056 [OF assms(1)], unfold wp_bind wp_dev)
  let ?t = "read_ids chain 64 (reset_of plx9056 chain t0 (opened plx9056 d))"
  fix d1
  assume ready: "ready plx9056 chain t0 ?t (reg d1)"
    and d1: "d1 = (identify_9056 (received ?t) d)\<lparr>jtag_refcount := jtag_refcount d + 1, reg := reg d1\<rparr>"
  have irlen: "fpgairlen d1 = 10"
    by (subst d1, use rs in \<open>simp add: recognised_9056_def identify_9056_def XC5FXT_IRLEN_def\<close>)
  have count: "jtag_refcount d1 = 1"
    by (subst d1, simp add: assms(2))
  show "wp (if (if recognised_9056 (received ?t) then 0 else - EIO) < 0
      then do { _ \<leftarrow> jtag_9056_release; State_Monad.return (if recognised_9056 (received ?t) then 0 else - EIO) }
      else do { complete \<leftarrow> on_reg (start_load_9056 hw (fpgairlen d1));
        if \<not> complete
        then do { _ \<leftarrow> jtag_9056_release; State_Monad.return (if recognised_9056 (received ?t) then 0 else - EIO) }
        else State_Monad.return 0 }) (\<lambda>r d'. r = 0 \<and> jtag_refcount d' = (if a then 1 else 0)) d1"
    using rs count irlen wp_mono [OF wp_start_answers [OF assms(1) _ _ assms(3) ready]]
    by (auto simp: jtag_9056_release_def wp_jtag_release)
qed

text \<open>The state before the bytes are sent.\<close>

lemma loaded:
  assumes "idle t" "run t = 1" "0 < n"
  defines "l chain \<equiv> play chain (load_9056_steps 10 n) t"
  shows "idle (l chain)" "run (l chain) = 1"
    "map without_received (scans (l chain)) = map without_received (scans t) @ events (load_9056_steps 10 n) 1"
    "idle (reset_tap chain False (l chain))" "run (reset_tap chain False (l chain)) = 0"
    "map without_received (scans (reset_tap chain False (l chain))) = map without_received (scans (l chain)) @ [Run 1, Reset]"
proof -
  have proper: "\<forall>s \<in> set (load_9056_steps 10 n). proper s"
    by (auto simp: load_9056_steps_def wait_round_def code_9056_def bits_of_def)
  show l: "idle (l chain)" "run (l chain) = 1"
    using play_idle(1) [OF assms(1) proper, of chain] run_after_load [OF assms(3)] by (simp_all only: l_def)
  show "map without_received (scans (l chain)) = map without_received (scans t) @ events (load_9056_steps 10 n) 1"
    using play_idle(2) [OF assms(1) proper, of chain] by (simp only: l_def assms(2))
  show "idle (reset_tap chain False (l chain))" "run (reset_tap chain False (l chain)) = 0"
    by (simp_all add: reset_tap_state)
  show "map without_received (scans (reset_tap chain False (l chain))) = map without_received (scans (l chain)) @ [Run 1, Reset]"
    using play_idle(2) [of "l chain" "[To_reset]" chain] l by simp
qed



text \<open>A chain of one FPGA, whose answers to instructions are all zeros or all ones.\<close>

definition fpga_chain :: "bool \<Rightarrow> chain" where
  "fpga_chain a t = (if state t = ShiftIR then a else length (received t) < 32 \<and> bit XC5FX70T_DID (length (received t)))"

lemma outs_fpga_chain:
  "state t = ShiftIR \<Longrightarrow> outs (fpga_chain a) xs t = replicate (length xs) a"
  "state t = ShiftDR \<Longrightarrow> outs (fpga_chain a) xs t
     = map (\<lambda>k. length (received t) + k < 32 \<and> bit XC5FX70T_DID (length (received t) + k)) [0..<length xs]"
proof -
  show "state t = ShiftIR \<Longrightarrow> outs (fpga_chain a) xs t = replicate (length xs) a"
    by (induction xs arbitrary: t) (simp_all add: clock_shifting shifting_def fpga_chain_def)
  show "state t = ShiftDR \<Longrightarrow> outs (fpga_chain a) xs t
     = map (\<lambda>k. length (received t) + k < 32 \<and> bit XC5FX70T_DID (length (received t) + k)) [0..<length xs]"
  proof (induction xs arbitrary: t)
    case (Cons x xs)
    then have "outs (fpga_chain a) xs (clock (fpga_chain a) False x t)
      = map (\<lambda>k. length (received t) + Suc k < 32 \<and> bit XC5FX70T_DID (length (received t) + Suc k)) [0..<length xs]"
      by (simp add: clock_shifting shifting_def)
    then show ?case using Cons.prems
      by (simp add: fpga_chain_def [of a t] upt_conv_Cons map_Suc_upt [symmetric] del: upt_Suc)
  qed simp
qed

lemma fpga_chain_answers: "init_answer (fpga_chain a) 10 t = a"
proof -
  have "scan_outs (fpga_chain a) ShiftIR (code_9056 10 XC2VP_CFGIN) t = replicate 10 a"
    by (simp add: scan_outs_def outs_fpga_chain begin_scan_def code_9056_def)
  moreover have "replicate 10 a = [a, a, a, a, a, a, a, a, a, a]" by (simp add: numeral_eq_Suc)
  ultimately show ?thesis
    by (cases a) (simp_all add: init_answer_def word_of_def INIT_COMPLETE_def)
qed

lemma fpga_chain_recognised: "recognised_9056 (received (read_ids (fpga_chain a) 64 t))"
proof -
  let ?rs = "received (read_ids (fpga_chain a) 64 t)"
  let ?bit = "\<lambda>k. k < 32 \<and> bit XC5FX70T_DID k"
  have "?rs = scan_outs (fpga_chain a) ShiftDR (replicate 64 False) t"
    unfolding read_ids_def by (rule received_data) simp
  then have "?rs = map ?bit [0..<64]" by (simp add: scan_outs_def outs_fpga_chain begin_scan_def)
  then have rs: "length ?rs = 64" "k < 64 \<Longrightarrow> ?rs ! k = ?bit k" for k
    using nth_map [of k "[0..<64]" ?bit] nth_upt [of 0 k 64] by simp_all
  have "word_of (take 32 ?rs) = XC5FX70T_DID" "word_of (drop 32 ?rs) = 0"
    by (rule bit_word_eqI, simp add: bit_word_of rs)+
  then show ?thesis by (simp add: recognised_9056_def XC5FX70T_DID_def)
qed

text \<open>
  C36. Configuring an FPGA behind the PCI9056: once the FPGA is recognised it is reset, polled at most 100 times
  for the end of its initialisation, and if the start keeps the lines of the interface all bytes are sent as one
  data register, the highest bit of each first and one bit more at the end; then the FPGA is started and the
  lines are given back. The second start command is not followed by the clocks and the instruction that are
  sent after it, since the chain waits in another state: it sees 11 clocks.
\<close>

theorem fpga_configured:
  assumes "connected plx9056 chain t0 hw" "jtag_refcount d = 0"
    and "run_state (jtag_9056_init_load_fpga hw) d = (r1, d1)" "jtag_refcount d1 \<noteq> 0"
    and "run_state (on_reg (load_bytes plx9056 hw bs)) d1 = (u, d2)"
    and "run_state (jtag_9056_end_load_fpga hw) d2 = (r2, d3)"
  shows "r1 = 0 \<and> r2 = 0 \<and> jtag_refcount d3 = 0 \<and> (\<exists>rs n x t h. recognised_9056 rs \<and> 0 < n \<and> n \<le> 100
    \<and> ready plx9056 chain t0 t h \<and> reg d3 = Wr (released plx9056) # h
    \<and> map without_received (scans t) = map without_received (scans (reset_of plx9056 chain t0 (opened plx9056 d)))
      @ [Run 1, DR (replicate 64 False) [], Run 2, IR (bits_of 10 XC2VP_JPROG_B) []]
      @ concat (replicate n [Run 2, IR (bits_of 10 XC2VP_CFGIN) [], Run 100002, IR (bits_of 10 XC2VP_CFGIN) []])
      @ [Run 1, Reset, Run 1, IR (bits_of 10 XC2VP_CFGIN) [], DR (msb_bits bs @ [x]) [],
         Run 2, IR (bits_of 10 XC2VP_JSTART) [], Run 1202, IR (bits_of 10 XC2VP_BYPASS) [],
         Run 2, IR (bits_of 10 XC2VP_BYPASS) [], Run 2, IR (bits_of 10 XC2VP_JSTART) [], Run 11, Reset])"
proof -
  let ?t = "read_ids chain 64 (reset_of plx9056 chain t0 (opened plx9056 d))"
  have t: "run ?t = 1" "idle ?t" "map without_received (scans ?t)
      = map without_received (scans (reset_of plx9056 chain t0 (opened plx9056 d))) @ [Run 1, DR (replicate 64 False) []]"
    by (simp_all add: read_ids_def shift_scan_simps begin_scan_def end_scan_def reset_of_def reset_tap_state idle_def)
  from wp_run [OF assms(3) wp_init_load_9056 [OF assms(1,2)]] assms(4)
  obtain n where init: "r1 = 0" "recognised_9056 (received ?t)" "fpgairlen d1 = 10" "n \<le> 100" "0 < n" "jtag_refcount d1 = 1"
    and d1: "after plx9056 chain t0 False (open_config chain 10 (reset_tap chain False (play chain (load_9056_steps 10 n) ?t))) (reg d1)"
    by (auto simp: Let_def EIO_def split: if_splits)
  let ?l = "play chain (load_9056_steps 10 n) ?t"
  let ?o = "open_config chain 10 (reset_tap chain False ?l)"
  let ?f = "feed chain False (msb_bits bs) ?o"
  note l = loaded(1-3) [OF t(2,1) init(5), of chain] and reset = loaded(4-6) [OF t(2,1) init(5), of chain]
  note o = open_config_simps [OF reset(1), of 10 chain]
  note f = open_config_fed [OF reset(1), of 10 chain "msb_bits bs", simplified]
  have d2: "fpgairlen d2 = 10" "jtag_refcount d2 = 1" "after plx9056 chain t0 False ?f (reg d2)"
  proof -
    have "wp (on_reg (load_bytes plx9056 hw bs)) (\<lambda>_ d'. fpgairlen d' = 10 \<and> jtag_refcount d' = 1
        \<and> after plx9056 chain t0 False ?f (reg d')) d1"
      using pci9056.wp_load_bytes [OF assms(1) d1] init by simp
    from wp_run [OF assms(5) this] show "fpgairlen d2 = 10" "jtag_refcount d2 = 1"
      "after plx9056 chain t0 False ?f (reg d2)" by simp_all
  qed
  have "wp (jtag_9056_end_load_fpga hw) (\<lambda>r d'. r = 0 \<and> jtag_refcount d' = 0 \<and> (\<exists>x y h.
      ready plx9056 chain t0 (reset_tap chain x (started chain 10 (clock chain True y ?f))) h
      \<and> reg d' = Wr (released plx9056) # h)) d2"
    using wp_mono [OF wp_start_fpga_9056 [OF assms(1) _ _ d2(3), of 10]] d2(1,2) f(1)
    by (auto simp: jtag_9056_end_load_fpga_def jtag_9056_release_def wp_jtag_release)
  from wp_run [OF assms(6) this] obtain x y h where d3: "r2 = 0" "jtag_refcount d3 = 0"
    "ready plx9056 chain t0 (reset_tap chain x (started chain 10 (clock chain True y ?f))) h" "reg d3 = Wr (released plx9056) # h"
    by auto
  note started_scans = started_scans [OF f(1,2), of 10 chain y]
  have "map without_received (scans (reset_tap chain x (started chain 10 (clock chain True y ?f))))
      = map without_received (scans ?o) @ [DR (msb_bits bs @ [y]) [],
         Run 2, IR (bits_of 10 XC2VP_JSTART) [], Run 1202, IR (bits_of 10 XC2VP_BYPASS) [],
         Run 2, IR (bits_of 10 XC2VP_BYPASS) [], Run 2, IR (bits_of 10 XC2VP_JSTART) [], Run 11, Reset]"
    using started_scans by (simp add: reset_select f code_9056_def)
  then show ?thesis
    using init d3 by (intro conjI exI [of _ "received ?t"] exI [of _ n] exI [of _ y]
        exI [of _ "reset_tap chain x (started chain 10 (clock chain True y ?f))"] exI [of _ h])
      (simp_all add: o reset l t events_load_9056 [unfolded One_nat_def] code_9056_def)
qed

lemma fpga_configured_witness:
  "let hw = wired plx9056 (fpga_chain True) tap0; (r1, d1) = run_state (jtag_9056_init_load_fpga hw) jtag_dev0;
     (u, d2) = run_state (on_reg (load_bytes plx9056 hw [0xaa, 0x99])) d1;
     (r2, d3) = run_state (jtag_9056_end_load_fpga hw) d2
   in r1 = 0 \<and> jtag_refcount d1 = 1 \<and> r2 = 0 \<and> jtag_refcount d3 = 0
     \<and> (\<exists>t x h. ready plx9056 (fpga_chain True) tap0 t h \<and> reg d3 = Wr (released plx9056) # h
       \<and> DR (msb_bits [0xaa, 0x99] @ [x]) [] \<in> set (map without_received (scans t)))"
proof -
  let ?hw = "wired plx9056 (fpga_chain True) tap0"
  obtain r1 d1 u d2 r2 d3 where run: "run_state (jtag_9056_init_load_fpga ?hw) jtag_dev0 = (r1, d1)"
    "run_state (on_reg (load_bytes plx9056 ?hw [0xaa, 0x99])) d1 = (u, d2)"
    "run_state (jtag_9056_end_load_fpga ?hw) d2 = (r2, d3)" by (metis prod.exhaust)
  have d0: "jtag_refcount jtag_dev0 = 0" by (simp add: jtag_dev0_def)
  have "wp (jtag_9056_init_load_fpga ?hw) (\<lambda>r d'. r = 0 \<and> jtag_refcount d' = (if True then 1 else 0)) jtag_dev0"
    by (rule wp_init_answers [OF connected_wired(2) d0]) (simp_all add: fpga_chain_answers fpga_chain_recognised)
  from wp_run [OF run(1) this] have d1: "r1 = 0" "jtag_refcount d1 = 1" by simp_all
  have "jtag_refcount d1 \<noteq> 0" by (simp add: d1)
  from fpga_configured [OF connected_wired(2) d0 run(1) this run(2,3)]
  obtain n x and t :: tap and h where r: "r2 = 0" "jtag_refcount d3 = 0" "ready plx9056 (fpga_chain True) tap0 t h"
      "reg d3 = Wr (released plx9056) # h" and "map without_received (scans t)
      = map without_received (scans (reset_of plx9056 (fpga_chain True) tap0 (opened plx9056 jtag_dev0)))
      @ [Run 1, DR (replicate 64 False) [], Run 2, IR (bits_of 10 XC2VP_JPROG_B) []]
      @ concat (replicate n [Run 2, IR (bits_of 10 XC2VP_CFGIN) [], Run 100002, IR (bits_of 10 XC2VP_CFGIN) []])
      @ [Run 1, Reset, Run 1, IR (bits_of 10 XC2VP_CFGIN) [], DR (msb_bits [0xaa, 0x99] @ [x]) [],
         Run 2, IR (bits_of 10 XC2VP_JSTART) [], Run 1202, IR (bits_of 10 XC2VP_BYPASS) [],
         Run 2, IR (bits_of 10 XC2VP_BYPASS) [], Run 2, IR (bits_of 10 XC2VP_JSTART) [], Run 11, Reset]"
    by blast
  then have "DR (msb_bits [0xaa, 0x99] @ [x]) [] \<in> set (map without_received (scans t))" by (simp only: set_append) simp
  with r run d1 show ?thesis by (simp del: set_map) blast
qed

text \<open>
  The start of a configuration has the result 0 whether the FPGA ends its initialisation or not, but in
  the second case it gives back the lines of the interface through which the caller goes on to load the FPGA.
\<close>

lemma silent_fpga_accepted:
  assumes "connected plx9056 chain t0 hw" "jtag_refcount d = 0" "\<forall>t. init_answer chain 10 t = a"
    and "recognised_9056 (received (read_ids chain 64 (reset_of plx9056 chain t0 (opened plx9056 d))))"
    and "run_state (jtag_9056_init_load_fpga hw) d = (r, d')"
  shows "r = 0 \<and> jtag_refcount d' = (if a then 1 else 0)"
  using wp_run [OF assms(5) wp_init_answers [OF assms(1-4)]] .

lemma silent_fpga_accepted_witness:
  "let (r, d') = run_state (jtag_9056_init_load_fpga (wired plx9056 (fpga_chain False) tap0)) jtag_dev0
   in r = 0 \<and> jtag_refcount d' = 0"
proof -
  let ?hw = "wired plx9056 (fpga_chain False) tap0"
  obtain r d' where run: "run_state (jtag_9056_init_load_fpga ?hw) jtag_dev0 = (r, d')" by (rule prod.exhaust)
  have "jtag_refcount jtag_dev0 = 0" by (simp add: jtag_dev0_def)
  from silent_fpga_accepted [OF connected_wired(2) this _ fpga_chain_recognised run, of False]
  show ?thesis by (simp add: fpga_chain_answers run)
qed

end
