(* ===== verification/KernelEeprom.thy ===== *)
theory KernelEeprom
  imports KernelJtag KernelText AddressParsing
begin

text \<open>
  The EEPROM of the boards with a PLX bridge (\<^verbatim>\<open>eeprom.c\<close> and \<^verbatim>\<open>eeprom_9056.c\<close> in
  \<^verbatim>\<open>support/mrf-pci-dkms-0.1.20250218/mrf-pci-0.1.20250218\<close>): the driver moves the lines of a serial EEPROM
  with bits of one register, prints the words it holds as a text with a line for each, and writes the words of
  such a text.

  The files for the two bridges have the same functions, apart from the names, a bit that enables the input, the
  texts, and the words with the serial number; these are the fields of an \<open>eeprom_bus\<close>. The state is the history
  of the accesses to the register as in \<^verbatim>\<open>KernelJtag\<close>, where waiting leaves no trace.
\<close>

section \<open>Constants\<close>

definition EEPROM_MAX_WORDS :: nat where "EEPROM_MAX_WORDS = 256"
definition PLX9030_CNTRL_EESK :: u32 where "PLX9030_CNTRL_EESK = 0x01000000"
definition PLX9030_CNTRL_EECS :: u32 where "PLX9030_CNTRL_EECS = 0x02000000"
definition PLX9030_CNTRL_EEDI :: u32 where "PLX9030_CNTRL_EEDI = 0x04000000"
definition PLX9030_CNTRL_EEDO :: u32 where "PLX9030_CNTRL_EEDO = 0x08000000"
definition PLX9030_CNTRL_RESET :: u32 where "PLX9030_CNTRL_RESET = 0x00780000"
definition PLX9056_CNTRL_EECS :: u32 where "PLX9056_CNTRL_EECS = 0x02000000"
definition PLX9056_CNTRL_EEDO :: u32 where "PLX9056_CNTRL_EEDO = 0x08000000"
definition PLX9056_CNTRL_EEDO_IE :: u32 where "PLX9056_CNTRL_EEDO_IE = 0x80000000"

definition MRF_EVX_EEPROM_SN_BEGIN :: nat where "MRF_EVX_EEPROM_SN_BEGIN = 68"
definition MRF_EVX_EEPROM_SN_END :: nat where "MRF_EVX_EEPROM_SN_END = 74"
definition MRF_FCT_EEPROM_SN_BEGIN :: nat where "MRF_FCT_EEPROM_SN_BEGIN = 50"
definition MRF_FCT_EEPROM_SN_END :: nat where "MRF_FCT_EEPROM_SN_END = 56"

definition EepromComment9030 :: "string list" where
  "EepromComment9030 = [
     ''Device ID'',
     ''Vendor ID'',
     ''PCI Status'',
     ''PCI Command'',
     ''Class Code'',
     ''Class Code / Revision'',
     ''Subsystem ID'',
     ''Subsystem Vendor ID'',
     ''MSB New Capability Pointer'',
     ''LSB New Capability Pointer'',
     ''(Maximum Latency and Minimum Grant are not loadable)'',
     ''Interrupt Pin (Interrupt Line Routing is not loadable)'',
     ''MSW of Power Management Capabilities'',
     ''LSW of Power Management Next Capability Pointer'',
     ''MSW of Power Management Data / PMCSR Brdge Support Extension'',
     ''LSW of Power Management Control / Status'',
     ''MSW of Hot Swap Control / Status'',
     ''LSW of Hot Swap Next Capability Pointer / Hot Swap Control'',
     ''PCI Vital Product Data Address'',
     ''PCI Vital Product Data Next Capability Pointer'',
     ''MSW of Local Address Space 0 Range'',
     ''LSW of Local Address Space 0 Range'',
     ''MSW of Local Address Space 1 Range'',
     ''LSW of Local Address Space 1 Range'',
     ''MSW of Local Address Space 2 Range'',
     ''LSW of Local Address Space 2 Range'',
     ''MSW of Local Address Space 3 Range'',
     ''LSW of Local Address Space 3 Range'',
     ''MSW of Expansion ROM Range'',
     ''LSW of Expansion ROM Range'',
     ''MSW of Local Address Space 0 Local Base Address (Remap)'',
     ''LSW of Local Address Space 0 Local Base Address (Remap)'',
     ''MSW of Local Address Space 1 Local Base Address (Remap)'',
     ''LSW of Local Address Space 1 Local Base Address (Remap)'',
     ''MSW of Local Address Space 2 Local Base Address (Remap)'',
     ''LSW of Local Address Space 2 Local Base Address (Remap)'',
     ''MSW of Local Address Space 3 Local Base Address (Remap)'',
     ''LSW of Local Address Space 3 Local Base Address (Remap)'',
     ''MSW of Expansion ROM Local Base Address (Remap)'',
     ''LSW of Expansion ROM Local Base Address (Remap)'',
     ''MSW of Local Address Space 0 Bus Region Descriptor'',
     ''LSW of Local Address Space 0 Bus Region Descriptor'',
     ''MSW of Local Address Space 1 Bus Region Descriptor'',
     ''LSW of Local Address Space 1 Bus Region Descriptor'',
     ''MSW of Local Address Space 2 Bus Region Descriptor'',
     ''LSW of Local Address Space 2 Bus Region Descriptor'',
     ''MSW of Local Address Space 3 Bus Region Descriptor'',
     ''LSW of Local Address Space 3 Bus Region Descriptor'',
     ''MSW of Expansion ROM Bus Region Descriptor'',
     ''LSW of Expansion ROM Bus Region Descriptor'',
     ''MSW of Chip Select 0 Base Address'',
     ''LSW of Chip Select 0 Base Address'',
     ''MSW of Chip Select 1 Base Address'',
     ''LSW of Chip Select 1 Base Address'',
     ''MSW of Chip Select 2 Base Address'',
     ''LSW of Chip Select 2 Base Address'',
     ''MSW of Chip Select 3 Base Address'',
     ''LSW of Chip Select 3 Base Address'',
     ''Serial EEPROM Write-Protected Address Boundary'',
     ''LSW of Interrupt Control/Status'',
     ''MSW of PCI Target Response, Serial EEPROM, and Initialization Control'',
     ''LSW of PCI Target Response, Serial EEPROM, and Initialization Control'',
     ''MSW of General Purpose I/O Control'',
     ''LSW of General Purpose I/O Control'',
     ''MSW of Hidden 1 Power Management Data Select'',
     ''LSW of Hidden 1 Power Management Data Select'',
     ''MSW of Hidden 2 Power Management Data Select'',
     ''LSW of Hidden 2 Power Management Data Select'',
     ''S/N 0'',
     ''S/N 2'',
     ''S/N 4'',
     ''S/N 6'',
     ''S/N 8'',
     ''S/N A'']"

definition EepromComment9056 :: "string list" where
  "EepromComment9056 = [
     ''Device ID'',
     ''Vendor ID'',
     ''Class Code'',
     ''Class Code / Revision'',
     ''PCI Maximum Latency / PCI Minimum Grant'',
     ''PCI Interrupt Pin / PCI Interrupt Line'',
     ''MSW of Mailbox 0'',
     ''LSW of Mailbox 0'',
     ''MSW of Mailbox 1'',
     ''LSW of Mailbox 1'',
     ''MSW of Direct Slave Local Address Space 0 Range'',
     ''LSW of Direct Slave Local Address Space 0 Range'',
     ''MSW of Direct Slave Local Address Space 0 Local Base Address (Remap)'',
     ''LSW of Direct Slave Local Address Space 0 Local Base Address (Remap)'',
     ''MSW of Mode/DMA Arbitration'',
     ''LSW of Mode/DMA Arbitration'',
     ''Local Miscellaneous Control 2 / Serial EEPROM Write-Protect Address Boundary'',
     ''Local Miscellaneous Control 1 / Local Bus Big/Little Endian Descriptor'',
     ''MSW of Direct Slave Expansion ROM Range'',
     ''LSW of Direct Slave Expansion ROM Range'',
     ''MSW of Direct Slave Expansion ROM Local Base Address (Remap) and BREQo Control'',
     ''LSW of Direct Slave Expansion ROM Local Base Address (Remap) and BREQo Control'',
     ''MSW of Local Address Space 0/Expansion ROM Bus Region Descriptor'',
     ''LSW of Local Address Space 0/Expansion ROM Bus Region Descriptor'',
     ''MSW of Local Range for Direct Master-to-PCI'',
     ''LSW of Local Range for Direct Master-to-PCI (Reserved)'',
     ''MSW of Local Base Address for Direct Master-to-PCI Memory'',
     ''LSW of Local Base Address for Direct Master-to-PCI Memory (Reserved)'',
     ''MSW of Local Base Address for Direct Master-to-PCI I/O Configuration'',
     ''LSW of Local Base Address for Direct Master-to-PCI I/O Configuration (Reserved)'',
     ''MSW of PCI Base Address (Remap) for Direct Master-to-PCI Memory'',
     ''LSW of PCI Base Address (Remap) for Direct Master-to-PCI Memory'',
     ''MSW of PCI Configuartion Address for Direct Master-to-PCI I/O Configuration'',
     ''LSW of PCI Configuartion Address for Direct Master-to-PCI I/O Configuration'',
     ''Subsystem ID'',
     ''Subsystem Vendor ID'',
     ''MSW of Direct Slave Local Address Space 1 Range (1 MB)'',
     ''LSW of Direct Slave Local Address Space 1 Range (1 MB)'',
     ''MSW of Direct Slave Local Address Space 1 Local Base Address (Remap)'',
     ''LSW of Direct Slave Local Address Space 1 Local Base Address (Remap)'',
     ''MSW of Local Address Space 1 Bus Region Descriptor'',
     ''LSW of Local Address Space 1 Bus Region Descriptor (Reserved)'',
     ''Hot Swap Control/Status (Reserved)'',
     ''Hot Swap Next Capability Pointer / Hot Swap Control'',
     ''Reserved'',
     ''PCI Arbiter Control'',
     ''Power Management Capabilities'',
     ''Power Management Next Capability Pointer (Reserved)/Power Management Capability ID (Reserved)'',
     ''Power Management Data / PMCSR Brdge Support Extension (Reserved)'',
     ''Power Management Control / Status'',
     ''S/N 0'',
     ''S/N 2'',
     ''S/N 4'',
     ''S/N 6'',
     ''S/N 8'',
     ''S/N A'']"

text \<open>The bits of the register, whether the input has a bit to enable it, and the texts.\<close>

record eeprom_bus =
  EECS :: u32
  EESK :: u32
  EEDI :: u32
  EEDO :: u32
  EEDO_IE :: "u32 option"
  at_rest :: u32
  bridge_name :: string
  comments :: "string list"
  sn_begin :: nat
  sn_end :: nat

definition eeprom9030 :: eeprom_bus where
  "eeprom9030 = \<lparr>EECS = PLX9030_CNTRL_EECS, EESK = PLX9030_CNTRL_EESK, EEDI = PLX9030_CNTRL_EEDI,
     EEDO = PLX9030_CNTRL_EEDO, EEDO_IE = None, at_rest = PLX9030_CNTRL_RESET, bridge_name = ''PCI9030'',
     comments = EepromComment9030, sn_begin = MRF_EVX_EEPROM_SN_BEGIN, sn_end = MRF_EVX_EEPROM_SN_END\<rparr>"

definition eeprom9056 :: eeprom_bus where
  "eeprom9056 = \<lparr>EECS = PLX9056_CNTRL_EECS, EESK = PLX9056_CNTRL_EESK, EEDI = PLX9056_CNTRL_EEDI,
     EEDO = PLX9056_CNTRL_EEDO, EEDO_IE = Some PLX9056_CNTRL_EEDO_IE, at_rest = PLX9056_CNTRL_RESET,
     bridge_name = ''PCI9056'', comments = EepromComment9056,
     sn_begin = MRF_FCT_EEPROM_SN_BEGIN, sn_end = MRF_FCT_EEPROM_SN_END\<rparr>"

section \<open>The lines of the EEPROM\<close>

definition eeprom_cmd_start :: "eeprom_bus \<Rightarrow> unit reg" where
  "eeprom_cmd_start b = write_reg (at_rest b OR EECS b)"

definition eeprom_cmd_stop :: "eeprom_bus \<Rightarrow> unit reg" where
  "eeprom_cmd_stop b = write_reg (at_rest b)"

definition eeprom_wait :: "eeprom_bus \<Rightarrow> reg_hw \<Rightarrow> int reg" where
  "eeprom_wait b hw = do {
     v \<leftarrow> read_reg hw;
     State_Monad.return (if v AND EEDO b \<noteq> 0 then - ETIME else 0)
   }"

text \<open>The loop of \<^verbatim>\<open>write_bits\<close>, with the number of bits that are left.\<close>

fun write_bit_loop :: "eeprom_bus \<Rightarrow> nat \<Rightarrow> u32 \<Rightarrow> unit reg" where
  "write_bit_loop b 0 data = State_Monad.return ()"
| "write_bit_loop b (Suc n) data = do {
     _ \<leftarrow> (if data AND 0x80000000 \<noteq> 0 then do {
         _ \<leftarrow> write_reg (at_rest b OR EECS b OR EEDI b);
         write_reg (at_rest b OR EESK b OR EECS b OR EEDI b)
       } else do {
         _ \<leftarrow> write_reg (at_rest b OR EECS b);
         write_reg (at_rest b OR EESK b OR EECS b)
       });
     write_bit_loop b n (push_bit 1 data)
   }"

definition eeprom_write_bits :: "eeprom_bus \<Rightarrow> u32 \<Rightarrow> int \<Rightarrow> int reg" where
  "eeprom_write_bits b command cmdlen =
     (if cmdlen < 1 \<or> cmdlen > 32 then State_Monad.return (- EFAULT)
      else do {
        _ \<leftarrow> write_bit_loop b (nat cmdlen) (push_bit (32 - nat cmdlen) command);
        State_Monad.return 0
      })"

text \<open>The bit that the PCI9056 needs in the register while the input is read.\<close>

definition input_enable :: "eeprom_bus \<Rightarrow> u32" where
  "input_enable b = (case EEDO_IE b of None \<Rightarrow> 0 | Some ie \<Rightarrow> ie)"

definition enable_input :: "eeprom_bus \<Rightarrow> reg_hw \<Rightarrow> unit reg" where
  "enable_input b hw = (case EEDO_IE b of None \<Rightarrow> State_Monad.return ()
   | Some ie \<Rightarrow> do { v \<leftarrow> read_reg hw; write_reg (v OR ie) })"

definition disable_input :: "eeprom_bus \<Rightarrow> reg_hw \<Rightarrow> unit reg" where
  "disable_input b hw = (case EEDO_IE b of None \<Rightarrow> State_Monad.return ()
   | Some ie \<Rightarrow> do { v \<leftarrow> read_reg hw; write_reg (v AND NOT ie) })"

fun read_bit_loop :: "eeprom_bus \<Rightarrow> reg_hw \<Rightarrow> nat \<Rightarrow> u32 \<Rightarrow> u32 reg" where
  "read_bit_loop b hw 0 rddata = State_Monad.return rddata"
| "read_bit_loop b hw (Suc n) rddata = do {
     let rddata = push_bit 1 rddata;
     v \<leftarrow> read_reg hw;
     let rddata = (if v AND EEDO b \<noteq> 0 then rddata OR 1 else rddata);
     _ \<leftarrow> write_reg (at_rest b OR EECS b OR input_enable b);
     _ \<leftarrow> write_reg (at_rest b OR EESK b OR EECS b OR input_enable b);
     read_bit_loop b hw n rddata
   }"

text \<open>The result, and what is stored through the pointer, whose target is not changed by an error.\<close>

definition eeprom_read_bits :: "eeprom_bus \<Rightarrow> reg_hw \<Rightarrow> u32 \<Rightarrow> int \<Rightarrow> (int \<times> u32) reg" where
  "eeprom_read_bits b hw data readlen =
     (if readlen < 1 \<or> readlen > 32 then State_Monad.return (- EFAULT, data)
      else do {
        _ \<leftarrow> enable_input b hw;
        rddata \<leftarrow> read_bit_loop b hw (nat readlen) 0;
        _ \<leftarrow> disable_input b hw;
        State_Monad.return (0, rddata)
      })"

section \<open>Reading and writing\<close>

fun read_words :: "eeprom_bus \<Rightarrow> reg_hw \<Rightarrow> nat \<Rightarrow> u32 \<Rightarrow> u16 list reg" where
  "read_words b hw 0 eeword = State_Monad.return []"
| "read_words b hw (Suc n) eeword = do {
     (_, eeword) \<leftarrow> eeprom_read_bits b hw eeword 16;
     rest \<leftarrow> read_words b hw n eeword;
     State_Monad.return (ucast eeword # rest)
   }"

text \<open>The result and the words that are stored; \<open>stack\<close> is what the variable holds before it is set.\<close>

definition eeprom_read :: "eeprom_bus \<Rightarrow> reg_hw \<Rightarrow> u32 \<Rightarrow> nat \<Rightarrow> (int \<times> u16 list) reg" where
  "eeprom_read b hw stack wordcount = do {
     let wordcount = min wordcount EEPROM_MAX_WORDS;
     _ \<leftarrow> eeprom_cmd_start b;
     _ \<leftarrow> eeprom_write_bits b 0x600 11;
     (_, eeword) \<leftarrow> eeprom_read_bits b hw stack 1;
     if eeword AND 1 \<noteq> 0 then State_Monad.return (- ENODEV, [])
     else do {
       words \<leftarrow> read_words b hw wordcount eeword;
       _ \<leftarrow> eeprom_cmd_stop b;
       State_Monad.return (int wordcount, words)
     }
   }"

text \<open>A command on its own.\<close>

definition eeprom_command :: "eeprom_bus \<Rightarrow> u32 \<Rightarrow> unit reg" where
  "eeprom_command b command = do {
     _ \<leftarrow> eeprom_cmd_start b;
     _ \<leftarrow> eeprom_write_bits b command 11;
     eeprom_cmd_stop b
   }"

text \<open>Waiting for the end of a command, which keeps the result if it is none.\<close>

definition eeprom_poll :: "eeprom_bus \<Rightarrow> reg_hw \<Rightarrow> int \<Rightarrow> int reg" where
  "eeprom_poll b hw result = do {
     _ \<leftarrow> eeprom_cmd_start b;
     timeout \<leftarrow> eeprom_wait b hw;
     _ \<leftarrow> eeprom_cmd_stop b;
     State_Monad.return (if timeout \<noteq> 0 then timeout else result)
   }"

definition write_word :: "eeprom_bus \<Rightarrow> reg_hw \<Rightarrow> nat \<Rightarrow> u16 \<Rightarrow> int \<Rightarrow> int reg" where
  "write_word b hw address eeword result = do {
     _ \<leftarrow> eeprom_command b (0x700 OR of_nat address);
     result \<leftarrow> eeprom_poll b hw result;
     _ \<leftarrow> eeprom_cmd_start b;
     _ \<leftarrow> eeprom_write_bits b (0x500 OR of_nat address) 11;
     _ \<leftarrow> eeprom_write_bits b (ucast eeword) 16;
     _ \<leftarrow> eeprom_cmd_stop b;
     eeprom_poll b hw result
   }"

fun write_words :: "eeprom_bus \<Rightarrow> reg_hw \<Rightarrow> nat \<Rightarrow> u16 list \<Rightarrow> int \<Rightarrow> int reg" where
  "write_words b hw address [] result = State_Monad.return result"
| "write_words b hw address (w # ws) result = do {
     result \<leftarrow> write_word b hw address w result;
     write_words b hw (Suc address) ws result
   }"

definition eeprom_write :: "eeprom_bus \<Rightarrow> reg_hw \<Rightarrow> u16 list \<Rightarrow> nat \<Rightarrow> int reg" where
  "eeprom_write b hw eepromdata wordcount = do {
     let wordcount = min wordcount EEPROM_MAX_WORDS;
     _ \<leftarrow> eeprom_command b 0x4C0;
     result \<leftarrow> write_words b hw 0 (take wordcount eepromdata) 0;
     _ \<leftarrow> eeprom_command b 0x400;
     State_Monad.return result
   }"


section \<open>Printing the contents\<close>

definition hex_digits4 :: "u16 \<Rightarrow> nat list" where
  "hex_digits4 w = map (\<lambda>i. unat (take_bit 4 (drop_bit (4 * i) w))) [3, 2, 1, 0]"

text \<open>Two characters of the serial number, with spaces for those that are not between 0 and Z.\<close>

definition sn_char :: "u16 \<Rightarrow> char" where
  "sn_char w = (if 48 \<le> w \<and> w \<le> 90 then char_of (unat w) else CHR '' '')"

definition sn_chars :: "u16 \<Rightarrow> string" where
  "sn_chars w = [sn_char (drop_bit 8 w), sn_char (w AND 0xff)]"

definition word_line :: "u16 \<Rightarrow> string \<Rightarrow> string" where
  "word_line w comment = ''0x'' @ map hex_char (hex_digits4 w) @ '' '' @ comment @ LF"

definition print_words :: "eeprom_bus \<Rightarrow> u16 list \<Rightarrow> int \<Rightarrow> string \<Rightarrow> int \<times> string" where
  "print_words b words sz buf =
     (let sb = print sz (bridge_name b @ '' EEPROM Contents'' @ LF @ ''S/N: '') (0, buf);
          sb = fold (\<lambda>i. print sz (sn_chars (words ! i))) [sn_begin b..<sn_end b] sb;
          sb = print sz (LF @ LF) sb;
          sb = fold (\<lambda>(i, comment) (s, buf).
              if s < sz then print sz (word_line (words ! i) comment) (s, buf) else (s, buf))
            (enumerate 0 (comments b)) sb
      in print_result sz sb)"

definition eeprom_sprint :: "eeprom_bus \<Rightarrow> reg_hw \<Rightarrow> u32 \<Rightarrow> string \<Rightarrow> int \<Rightarrow> (int \<times> string) reg" where
  "eeprom_sprint b hw stack buf sz = do {
     (result, words) \<leftarrow> eeprom_read b hw stack EEPROM_MAX_WORDS;
     State_Monad.return (if result < int EEPROM_MAX_WORDS then (result, buf) else print_words b words sz buf)
   }"

section \<open>Reading a text\<close>

text \<open>
  The kernel's \<^verbatim>\<open>simple_strtol\<close> with base 0, in 64 bits that wrap around; there is no space in front of a
  number.
\<close>

definition simple_strtoull :: "string \<Rightarrow> 64 word" where
  "simple_strtoull cs = (let (base, ds) = number_base cs
     in word_of_int (number_value base (takeWhile (\<lambda>c. digit_value c < base) ds)))"

definition simple_strtol :: "string \<Rightarrow> 64 word" where
  "simple_strtol cs = (if cs \<noteq> [] \<and> hd cs = CHR ''-'' then - simple_strtoull (tl cs) else simple_strtoull cs)"

text \<open>
  The rest of a line and the empty lines behind it. A position is the list of characters from there to the end
  of the buffer; there is none when the function reads beyond it. The loop for the rest of a line ends at a
  newline only: its condition tests the pointer where it means the character.
\<close>

fun skip_line :: "string \<Rightarrow> string option" where
  "skip_line [] = None"
| "skip_line (c # cs) = (if c = CHR 0x0A then Some (c # cs) else skip_line cs)"

fun skip_newlines :: "string \<Rightarrow> string option" where
  "skip_newlines [] = None"
| "skip_newlines (c # cs) = (if c = CHR 0x0A then skip_newlines cs else Some (c # cs))"

lemma skip_shorter: "skip_line cs = Some cs' \<Longrightarrow> length cs' \<le> length cs"
  "skip_newlines cs = Some cs' \<Longrightarrow> length cs' \<le> length cs"
  by (induction cs) (auto split: if_splits)

text \<open>The words that the lines of a text begin with, with the number of words that still fit.\<close>

function (sequential) scan_words :: "nat \<Rightarrow> string \<Rightarrow> u16 list option" where
  "scan_words n [] = None"
| "scan_words n (c # cs) =
     (if c = CHR 0x00 \<or> n = 0 then Some []
      else case Option.bind (skip_line cs) skip_newlines of
          None \<Rightarrow> None
        | Some rest \<Rightarrow>
            if c = CHR ''0''
            then map_option (\<lambda>ws. ucast (simple_strtol (c # cs)) # ws) (scan_words (n - 1) rest)
            else scan_words n rest)"
  by pat_completeness auto
termination
  by (relation "measure (\<lambda>(n, cs). length cs)") (auto split: Option.bind_splits dest!: skip_shorter)

definition eeprom_sscan :: "eeprom_bus \<Rightarrow> reg_hw \<Rightarrow> string \<Rightarrow> int option reg" where
  "eeprom_sscan b hw buf = (case scan_words EEPROM_MAX_WORDS buf of
     None \<Rightarrow> State_Monad.return None
   | Some words \<Rightarrow>
       if length words \<noteq> 0 then do {
         result \<leftarrow> eeprom_write b hw words (length words);
         State_Monad.return (Some (if result = 0 then int (length words) else result))
       }
       else State_Monad.return (Some 0))"


section \<open>PCI9056\<close>

text \<open>The functions of \<^verbatim>\<open>eeprom_9056.c\<close>.\<close>

definition eeprom_9056_cmd_start :: "unit reg" where "eeprom_9056_cmd_start = eeprom_cmd_start eeprom9056"
definition eeprom_9056_cmd_stop :: "unit reg" where "eeprom_9056_cmd_stop = eeprom_cmd_stop eeprom9056"
definition eeprom_9056_wait :: "reg_hw \<Rightarrow> int reg" where "eeprom_9056_wait = eeprom_wait eeprom9056"

definition eeprom_9056_write_bits :: "u32 \<Rightarrow> int \<Rightarrow> int reg" where
  "eeprom_9056_write_bits = eeprom_write_bits eeprom9056"

definition eeprom_9056_read_bits :: "reg_hw \<Rightarrow> u32 \<Rightarrow> int \<Rightarrow> (int \<times> u32) reg" where
  "eeprom_9056_read_bits = eeprom_read_bits eeprom9056"

definition eeprom_9056_read :: "reg_hw \<Rightarrow> u32 \<Rightarrow> nat \<Rightarrow> (int \<times> u16 list) reg" where
  "eeprom_9056_read = eeprom_read eeprom9056"

definition eeprom_9056_sprint :: "reg_hw \<Rightarrow> u32 \<Rightarrow> string \<Rightarrow> int \<Rightarrow> (int \<times> string) reg" where
  "eeprom_9056_sprint = eeprom_sprint eeprom9056"

definition eeprom_9056_write :: "reg_hw \<Rightarrow> u16 list \<Rightarrow> nat \<Rightarrow> int reg" where
  "eeprom_9056_write = eeprom_write eeprom9056"

definition eeprom_9056_sscan :: "reg_hw \<Rightarrow> string \<Rightarrow> int option reg" where
  "eeprom_9056_sscan = eeprom_sscan eeprom9056"

end
