(* ===== verification/KernelMicrowire.thy ===== *)
theory KernelMicrowire
  imports KernelEeprom KernelTap
begin

text \<open>
  What the EEPROM sees of the driver: the commands of a serial EEPROM with 256 words of 16 bits on the Microwire
  bus. A command begins when the chip is selected, a bit of it is taken at each rising edge of the clock, and it is
  executed when the chip is no longer selected.
\<close>

section \<open>The chip\<close>

record chip =
  received_bits :: "bool list"
  cells :: "u8 \<Rightarrow> u16"
  enabled :: bool

text \<open>A number from its bits, the highest one first.\<close>

definition word_of_msb :: "bool list \<Rightarrow> 'a :: len word" where
  "word_of_msb bs = horner_sum of_bool 2 (rev bs)"

definition opcode :: "bool list \<Rightarrow> bool list" where
  "opcode bs = take 3 bs"

definition address :: "bool list \<Rightarrow> u8" where
  "address bs = word_of_msb (take 8 (drop 3 bs))"

text \<open>
  The commands to enable and to disable writing, to erase and to write a word; commands that are not complete do
  nothing. An erased word has all bits set.
\<close>

definition execute :: "chip \<Rightarrow> chip" where
  "execute c = (let bs = received_bits c; c = c\<lparr>received_bits := []\<rparr> in
     if length bs < 11 then c
     else if opcode bs = [True, False, False] then
       (if take 2 (drop 3 bs) = [True, True] then c\<lparr>enabled := True\<rparr>
        else if take 2 (drop 3 bs) = [False, False] then c\<lparr>enabled := False\<rparr>
        else c)
     else if opcode bs = [True, True, True] then
       (if enabled c then c\<lparr>cells := (cells c)(address bs := - 1)\<rparr> else c)
     else if opcode bs = [True, False, True] then
       (if enabled c \<and> length bs = 27 then c\<lparr>cells := (cells c)(address bs := word_of_msb (drop 11 bs))\<rparr> else c)
     else c)"

text \<open>
  The level of the output. After the command to read there is a zero and then the words from the address on;
  otherwise the chip is ready, or does not drive the line, which is pulled up.
\<close>

definition level :: "chip \<Rightarrow> bool" where
  "level c = (let bs = received_bits c; n = length bs - 12 in
     if opcode bs = [True, True, False] \<and> length bs \<ge> 11
     then length bs > 11 \<and> bit (cells c (address bs + of_nat (n div 16))) (15 - n mod 16)
     else True)"

section \<open>The edges of the lines\<close>

fun chip_of :: "eeprom_bus \<Rightarrow> chip \<Rightarrow> reg_event list \<Rightarrow> chip" where
  "chip_of b c0 [] = c0"
| "chip_of b c0 (Rd v # h) = chip_of b c0 h"
| "chip_of b c0 (Wr v # h) =
     (let c = chip_of b c0 h in
      if v AND EECS b = 0 then (if pins h AND EECS b \<noteq> 0 then execute c else c)
      else if pins h AND EECS b = 0 then c\<lparr>received_bits := []\<rparr>
      else if pins h AND EESK b = 0 \<and> v AND EESK b \<noteq> 0
        then c\<lparr>received_bits := received_bits c @ [v AND EEDI b \<noteq> 0]\<rparr>
      else c)"

text \<open>
  What is assumed of the register: the bits of the lines are read as they were written, and while the input is
  enabled the bit of the input is the level of the chip.
\<close>

definition wired_to :: "eeprom_bus \<Rightarrow> chip \<Rightarrow> reg_hw \<Rightarrow> bool" where
  "wired_to b c0 hw \<longleftrightarrow> (\<forall>h. hw h AND EECS b = pins h AND EECS b \<and> hw h AND EESK b = pins h AND EESK b
     \<and> hw h AND EEDI b = pins h AND EEDI b
     \<and> (pins h AND input_enable b = input_enable b \<longrightarrow> (hw h AND EEDO b \<noteq> 0 \<longleftrightarrow> level (chip_of b c0 h))))"

text \<open>The chip is selected and has received bits, or it is not selected.\<close>

definition selected :: "eeprom_bus \<Rightarrow> chip \<Rightarrow> chip \<Rightarrow> bool \<Rightarrow> bool list \<Rightarrow> reg_event list \<Rightarrow> bool" where
  "selected b c0 c high bs h \<longleftrightarrow> pins h AND EECS b \<noteq> 0 \<and> (pins h AND EESK b \<noteq> 0 \<longleftrightarrow> high)
     \<and> chip_of b c0 h = c\<lparr>received_bits := bs\<rparr>"

definition unselected :: "eeprom_bus \<Rightarrow> chip \<Rightarrow> chip \<Rightarrow> reg_event list \<Rightarrow> bool" where
  "unselected b c0 c h \<longleftrightarrow> pins h AND EECS b = 0 \<and> chip_of b c0 h = c \<and> received_bits c = []"

lemma selected_read [simp]: "selected b c0 c high bs (Rd v # h) = selected b c0 c high bs h"
  by (simp add: selected_def)

text \<open>The values of the register that the functions write.\<close>

locale microwire =
  fixes b :: eeprom_bus
  assumes lines: "EECS b \<noteq> 0" "EESK b \<noteq> 0" "EEDI b \<noteq> 0"
    and differ: "EECS b AND EESK b = 0" "EECS b AND EEDI b = 0" "EESK b AND EEDI b = 0"
      "EESK b AND EECS b = 0" "EEDI b AND EECS b = 0" "EEDI b AND EESK b = 0"
    and rest: "at_rest b AND EECS b = 0" "at_rest b AND EESK b = 0" "at_rest b AND EEDI b = 0"
    and enable: "input_enable b AND EECS b = 0" "input_enable b AND EESK b = 0" "input_enable b AND EEDI b = 0"
begin

lemma or_and: "((x :: u32) OR y) AND m = (x AND m) OR (y AND m)"
  by (rule bit_word_eqI) (auto simp: bit_simps)

lemmas line_bits = or_and lines differ rest enable

end

interpretation microwire9030: microwire eeprom9030
  by unfold_locales
    (simp_all add: eeprom9030_def input_enable_def PLX9030_CNTRL_EECS_def PLX9030_CNTRL_EESK_def
      PLX9030_CNTRL_EEDI_def PLX9030_CNTRL_RESET_def)

interpretation microwire9056: microwire eeprom9056
  by unfold_locales
    (simp_all add: eeprom9056_def input_enable_def PLX9056_CNTRL_EECS_def PLX9056_CNTRL_EESK_def
      PLX9056_CNTRL_EEDI_def PLX9056_CNTRL_RESET_def PLX9056_CNTRL_EEDO_IE_def)

section \<open>Commands\<close>

text \<open>The lowest bits of a number, the highest one first.\<close>

definition msb_bits_of :: "nat \<Rightarrow> u32 \<Rightarrow> bool list" where
  "msb_bits_of n v = map (\<lambda>k. bit v (n - 1 - k)) [0..<n]"

lemma msb_bits_of_Suc: "msb_bits_of (Suc n) v = bit v n # msb_bits_of n v"
  by (simp add: msb_bits_of_def upt_conv_Cons map_Suc_upt [symmetric] del: upt_Suc)

lemma length_msb_bits_of [simp]: "length (msb_bits_of n v) = n"
  by (simp add: msb_bits_of_def)

context microwire
begin

lemma received_execute [simp]: "received_bits (execute c) = []"
  by (simp add: execute_def Let_def)

lemma wp_cmd_start:
  assumes "unselected b c0 c h"
  shows "wp (eeprom_cmd_start b) (\<lambda>_. selected b c0 c False []) h"
  using assms by (simp add: eeprom_cmd_start_def selected_def unselected_def line_bits)

lemma wp_cmd_stop:
  assumes "selected b c0 c high bs h"
  shows "wp (eeprom_cmd_stop b) (\<lambda>_. unselected b c0 (execute (c\<lparr>received_bits := bs\<rparr>))) h"
  using assms by (simp add: eeprom_cmd_stop_def selected_def unselected_def line_bits)

text \<open>A bit: the clock goes low, if it is not, and then high.\<close>

lemma selected_clock:
  assumes "selected b c0 c high bs h" "v AND EECS b \<noteq> 0" "v AND EESK b = 0" "w AND EECS b \<noteq> 0" "w AND EESK b \<noteq> 0"
  shows "selected b c0 c False bs (Wr v # h)" "selected b c0 c True (bs @ [w AND EEDI b \<noteq> 0]) (Wr w # Wr v # h)"
  using assms by (simp_all add: selected_def)

lemma wp_write_bit_loop:
  "selected b c0 c high bs h \<Longrightarrow> n \<le> 32 \<Longrightarrow>
     wp (write_bit_loop b n (push_bit (32 - n) v)) (\<lambda>_. selected b c0 c (high \<or> n > 0) (bs @ msb_bits_of n v)) h"
proof (induction n arbitrary: h high bs)
  case (Suc n)
  let ?d = "push_bit (32 - Suc n) v"
  have top: "?d AND 0x80000000 \<noteq> 0 \<longleftrightarrow> bit v n"
  proof -
    have "(0x80000000 :: u32) = push_bit 31 1" by simp
    then have "?d AND 0x80000000 \<noteq> 0 \<longleftrightarrow> bit ?d 31"
      by (simp only: and_exp_eq_0_iff_not_bit [where n = 31 and a = ?d] push_bit_of_1) simp
    also have "\<dots> \<longleftrightarrow> bit v n" using Suc.prems(2) unfolding bit_push_bit_iff by auto
    finally show ?thesis .
  qed
  have next_: "push_bit 1 ?d = push_bit (32 - n) v"
  proof -
    have "1 + (32 - Suc n) = 32 - n" using Suc.prems(2) by simp
    then show ?thesis by (simp only: push_bit_push_bit)
  qed
  let ?di = "if bit v n then EEDI b else 0"
  have vals: "(at_rest b OR EECS b OR x) AND EECS b \<noteq> 0" "(at_rest b OR EECS b OR x) AND EESK b = 0"
    "(at_rest b OR EESK b OR EECS b OR x) AND EECS b \<noteq> 0" "(at_rest b OR EESK b OR EECS b OR x) AND EESK b \<noteq> 0"
    "((at_rest b OR EESK b OR EECS b OR x) AND EEDI b \<noteq> 0) = (x = EEDI b)"
    if "x = EEDI b \<or> x = 0" for x
    using that by (auto simp: line_bits)
  have step: "wp (write_bit_loop b n (push_bit (32 - n) v))
      (\<lambda>_. selected b c0 c (high \<or> Suc n > 0) (bs @ msb_bits_of (Suc n) v)) (Wr w # Wr u # h)"
    if "u = (at_rest b OR EECS b OR ?di)" "w = (at_rest b OR EESK b OR EECS b OR ?di)" for u w
  proof -
    have "selected b c0 c True (bs @ [bit v n]) (Wr w # Wr u # h)"
      using selected_clock(2) [OF Suc.prems(1), of u w] vals [of ?di] that lines by auto
    from Suc.IH [OF this] Suc.prems(2) show ?thesis by (simp add: msb_bits_of_Suc)
  qed
  show ?case
    unfolding write_bit_loop.simps wp_bind wp_if wp_reg top next_
    using step by (auto split: if_splits)
qed (simp add: msb_bits_of_def)

lemma wp_write_bits:
  assumes "selected b c0 c high bs h" "1 \<le> n" "n \<le> 32"
  shows "wp (eeprom_write_bits b v (int n)) (\<lambda>r h'. r = 0 \<and> selected b c0 c True (bs @ msb_bits_of n v) h') h"
  using assms wp_mono [OF wp_write_bit_loop [OF assms(1,3), of v]] by (simp add: eeprom_write_bits_def)

lemma wp_wait: "selected b c0 c high bs h \<Longrightarrow> wp (eeprom_wait b hw) (\<lambda>r h'. selected b c0 c high bs h'
    \<and> r = (if hw h AND EEDO b \<noteq> 0 then - ETIME else 0)) h"
  by (simp add: eeprom_wait_def)

end

section \<open>Numbers and their bits\<close>

lemma bit_word_of_msb: "bit (word_of_msb bs :: 'a :: len word) k \<longleftrightarrow> k < LENGTH('a) \<and> k < length bs \<and> bs ! (length bs - 1 - k)"
  by (auto simp: word_of_msb_def bit_horner_sum_bit_word_iff rev_nth)

lemma word_of_msb_bits: "LENGTH('a) \<le> n \<Longrightarrow> n \<le> 32 \<Longrightarrow> (word_of_msb (msb_bits_of n v) :: 'a :: len word) = ucast v"
  by (rule bit_word_eqI) (auto simp: bit_word_of_msb msb_bits_of_def bit_simps)

lemma word_of_msb_append:
  "(word_of_msb (xs @ [x]) :: u32) = (if x then push_bit 1 (word_of_msb xs) OR 1 else push_bit 1 (word_of_msb xs))"
  by (simp add: word_of_msb_def or_one_eq)

text \<open>A command with an address.\<close>

lemma of_nat_address:
  assumes "a < 256"
  shows "bit (of_nat a :: u32) k \<Longrightarrow> k < 8" "(ucast (of_nat a :: u32) :: u8) = of_nat a"
proof -
  have "a = take_bit 8 a" using assms by (simp add: take_bit_nat_eq_self)
  then show "bit (of_nat a :: u32) k \<Longrightarrow> k < 8" by (metis bit_take_bit_iff bit_of_nat_iff)
  show "(ucast (of_nat a :: u32) :: u8) = of_nat a" by (rule bit_word_eqI) (simp add: bit_unsigned_iff bit_of_nat_iff)
qed

lemma command_bits:
  assumes "a < 256"
  shows "msb_bits_of 11 (0x700 OR of_nat a) = [True, True, True] @ msb_bits_of 8 (of_nat a)"
    "msb_bits_of 11 (0x500 OR of_nat a) = [True, False, True] @ msb_bits_of 8 (of_nat a)"
proof -
  have lst: "[0..<11] = [0, 1, 2, 3, 4, 5, 6, 7, 8, 9, 10 :: nat]" "[0..<8] = [0, 1, 2, 3, 4, 5, 6, 7 :: nat]"
    by (simp_all add: upt_rec)
  have "\<not> bit (of_nat a :: u32) 8" "\<not> bit (of_nat a :: u32) 9" "\<not> bit (of_nat a :: u32) 10"
    using of_nat_address(1) [OF assms] by fastforce+
  then show "msb_bits_of 11 (0x700 OR of_nat a) = [True, True, True] @ msb_bits_of 8 (of_nat a)"
    "msb_bits_of 11 (0x500 OR of_nat a) = [True, False, True] @ msb_bits_of 8 (of_nat a)"
    by (simp_all add: msb_bits_of_def lst bit_or_iff)
qed

lemma execute_commands:
  assumes "received_bits c = []"
  shows "execute (c\<lparr>received_bits := msb_bits_of 11 0x4C0\<rparr>) = c\<lparr>enabled := True\<rparr>"
    "execute (c\<lparr>received_bits := msb_bits_of 11 0x400\<rparr>) = c\<lparr>enabled := False\<rparr>"
    "a < 256 \<Longrightarrow> enabled c \<Longrightarrow> execute (c\<lparr>received_bits := msb_bits_of 11 (0x700 OR of_nat a)\<rparr>)
       = c\<lparr>cells := (cells c)(of_nat a := - 1)\<rparr>"
    "a < 256 \<Longrightarrow> enabled c \<Longrightarrow>
       execute (c\<lparr>received_bits := msb_bits_of 11 (0x500 OR of_nat a) @ msb_bits_of 16 (ucast w)\<rparr>)
       = c\<lparr>cells := (cells c)(of_nat a := (w :: u16))\<rparr>"
    "execute (c\<lparr>received_bits := []\<rparr>) = c"
    "execute (c\<lparr>received_bits := msb_bits_of 11 0x600 @ bs\<rparr>) = c"
proof -
  have lst: "[0..<11] = [0, 1, 2, 3, 4, 5, 6, 7, 8, 9, 10 :: nat]"
    by (simp add: upt_rec)
  have data: "(ucast (ucast w :: u32) :: u16) = w" by (rule bit_word_eqI) (simp add: bit_simps)
  show "execute (c\<lparr>received_bits := msb_bits_of 11 0x4C0\<rparr>) = c\<lparr>enabled := True\<rparr>"
    "execute (c\<lparr>received_bits := msb_bits_of 11 0x400\<rparr>) = c\<lparr>enabled := False\<rparr>"
    using assms by (cases c; simp add: execute_def Let_def msb_bits_of_def lst opcode_def)+
  show "execute (c\<lparr>received_bits := msb_bits_of 11 (0x700 OR of_nat a)\<rparr>) = c\<lparr>cells := (cells c)(of_nat a := - 1)\<rparr>"
    if "a < 256" "enabled c"
    using that assms
    by (cases c) (simp add: execute_def Let_def command_bits opcode_def address_def word_of_msb_bits of_nat_address)
  show "execute (c\<lparr>received_bits := msb_bits_of 11 (0x500 OR of_nat a) @ msb_bits_of 16 (ucast w)\<rparr>)
      = c\<lparr>cells := (cells c)(of_nat a := w)\<rparr>" if "a < 256" "enabled c"
    using that assms
    by (cases c) (simp add: execute_def Let_def command_bits opcode_def address_def word_of_msb_bits of_nat_address data)
  show "execute (c\<lparr>received_bits := []\<rparr>) = c" "execute (c\<lparr>received_bits := msb_bits_of 11 0x600 @ bs\<rparr>) = c"
    using assms by (cases c; simp add: execute_def Let_def msb_bits_of_def lst opcode_def)+
qed

end
