(* ===== verification/KernelEeprom_Props.thy ===== *)
theory KernelEeprom_Props
  imports KernelMicrowire RecordAddress_Props
begin

text \<open>
  The contents of the EEPROM: what the chip holds after it is written, what is read from it, and that the text
  that is printed from it is read as the words it was printed from.
\<close>

section \<open>The results of waiting\<close>

text \<open>The result after more accesses: the error if the input was high in one of the reads among them.\<close>

definition polled :: "eeprom_bus \<Rightarrow> int \<Rightarrow> reg_event list \<Rightarrow> int \<Rightarrow> reg_event list \<Rightarrow> bool" where
  "polled b r h r' h' \<longleftrightarrow>
     (\<exists>es. h' = es @ h \<and> r' = (if \<exists>v. Rd v \<in> set es \<and> v AND EEDO b \<noteq> 0 then - ETIME else r))"

lemma polled_refl: "polled b r h r h"
  by (auto simp: polled_def)

lemma polled_trans:
  assumes "polled b r h r1 h1" "polled b r1 h1 r2 h2"
  shows "polled b r h r2 h2"
proof -
  obtain es es' where "h1 = es @ h" "r1 = (if \<exists>v. Rd v \<in> set es \<and> v AND EEDO b \<noteq> 0 then - ETIME else r)"
    "h2 = es' @ h1" "r2 = (if \<exists>v. Rd v \<in> set es' \<and> v AND EEDO b \<noteq> 0 then - ETIME else r1)"
    using assms by (auto simp: polled_def)
  then show ?thesis by (auto simp: polled_def intro!: exI [of _ "es' @ es"])
qed

lemma polled_steps:
  "polled b r h r (Wr v # h)" "polled b r h (if v AND EEDO b \<noteq> 0 then - ETIME else r) (Rd v # h)"
  by (auto simp: polled_def)

lemma wp_polled_steps [simp]: "polled b r h r1 h1 \<Longrightarrow> polled b r h r1 (Wr v # h1)"
  by (rule polled_trans [OF _ polled_steps(1)])

lemma polled_write_bits: "wp (eeprom_write_bits b v n) (\<lambda>_ h'. polled b r h r h') h"
proof -
  have "polled b r h r h1 \<Longrightarrow> wp (write_bit_loop b k v) (\<lambda>_ h'. polled b r h r h') h1" for k v h1
    by (induction k arbitrary: v h1) simp_all
  note loop = wp_mono [OF this [OF polled_refl]]
  show ?thesis
    by (simp add: eeprom_write_bits_def polled_refl loop)
qed

context microwire
begin

lemma wp_poll:
  assumes "unselected b c0 c h"
  shows "wp (eeprom_poll b hw r) (\<lambda>r' h'. unselected b c0 c h' \<and> polled b r h r' h') h"
proof -
  have c: "received_bits c = []" using assms by (simp add: unselected_def)
  have s: "selected b c0 c False [] (Wr (at_rest b OR EECS b) # h)"
    using wp_cmd_start [OF assms] by (simp add: eeprom_cmd_start_def)
  let ?h = "Wr (at_rest b OR EECS b) # h"
  have "unselected b c0 c (Wr (at_rest b) # Rd (hw ?h) # ?h)"
    using wp_cmd_stop [of c0 c False "[]" "Rd (hw ?h) # ?h"] s by (simp add: eeprom_cmd_stop_def execute_commands(5) [OF c])
  moreover have "polled b r h (if hw ?h AND EEDO b \<noteq> 0 then - ETIME else r) (Wr (at_rest b) # Rd (hw ?h) # ?h)"
    by (intro polled_trans [OF polled_trans [OF polled_steps(1) polled_steps(2)] polled_steps(1)])
  moreover have "ETIME \<noteq> 0" by (simp add: ETIME_def)
  ultimately show ?thesis
    by (auto simp: eeprom_poll_def eeprom_cmd_start_def eeprom_wait_def eeprom_cmd_stop_def split: if_splits)
qed

lemma wp_clocked_command:
  assumes "unselected b c0 c h" "execute (c\<lparr>received_bits := msb_bits_of 11 v\<rparr>) = c'"
  shows "wp (eeprom_command b v) (\<lambda>_ h'. unselected b c0 c' h' \<and> polled b r h r h') h"
proof -
  have s: "selected b c0 c False [] (Wr (at_rest b OR EECS b) # h)"
    using wp_cmd_start [OF assms(1)] by (simp add: eeprom_cmd_start_def)
  have p: "polled b r h r (Wr (at_rest b OR EECS b) # h)" by (rule polled_steps)
  show ?thesis
    unfolding eeprom_command_def wp_bind eeprom_cmd_start_def wp_reg
  proof (rule wp_mono [OF wp_conj [OF wp_write_bits [OF s, of 11, simplified] polled_write_bits [where r = r]]], elim conjE)
    fix r' :: int and h'
    assume "selected b c0 c True (msb_bits_of 11 v) h'" "polled b r (Wr (at_rest b OR EECS b) # h) r h'"
    then show "wp (eeprom_cmd_stop b) (\<lambda>_ h'. unselected b c0 c' h' \<and> polled b r h r h') h'"
      using wp_cmd_stop [of c0 c True "msb_bits_of 11 v" h'] assms(2) polled_trans [OF p]
      by (simp add: eeprom_cmd_stop_def)
  qed
qed

lemma wp_write_word:
  assumes "unselected b c0 c h" "enabled c" "a < 256"
  shows "wp (write_word b hw a w r) (\<lambda>r' h'. unselected b c0 (c\<lparr>cells := (cells c)(of_nat a := w)\<rparr>) h' \<and> polled b r h r' h') h"
proof -
  have c: "received_bits c = []" using assms by (simp add: unselected_def)
  let ?c1 = "c\<lparr>cells := (cells c)(of_nat a := - 1)\<rparr>" and ?c2 = "c\<lparr>cells := (cells c)(of_nat a := w)\<rparr>"
  let ?bs = "msb_bits_of 11 (0x500 OR of_nat a) @ msb_bits_of 16 (ucast w)"
  have c1: "received_bits ?c1 = []" "enabled ?c1" using c assms(2) by simp_all
  have done_: "execute (?c1\<lparr>received_bits := ?bs\<rparr>) = ?c2"
    using execute_commands(4) [OF c1(1) assms(3) c1(2), of w] by simp
  show ?thesis
    unfolding write_word_def wp_bind
  proof (rule wp_mono [OF wp_clocked_command [OF assms(1) execute_commands(3) [OF c assms(3,2)], where r = r]], elim conjE,
      rule wp_mono [OF wp_poll [where hw = hw and r = r]], assumption, elim conjE)
    fix r1 :: unit and h1 r2 h2
    assume p1: "polled b r h r h1" "polled b r h1 r2 h2" and u: "unselected b c0 ?c1 h2"
    let ?h2 = "Wr (at_rest b OR EECS b) # h2"
    have s: "selected b c0 ?c1 False [] ?h2"
      using wp_cmd_start [OF u] by (simp add: eeprom_cmd_start_def)
    have p2: "polled b r h r2 ?h2" by (rule polled_trans [OF polled_trans [OF p1] polled_steps(1)])
    show "wp (eeprom_cmd_start b) (\<lambda>_. wp (eeprom_write_bits b (0x500 OR of_nat a) 11)
        (\<lambda>_. wp (eeprom_write_bits b (ucast w) 16) (\<lambda>_. wp (eeprom_cmd_stop b) (\<lambda>_. wp (eeprom_poll b hw r2)
          (\<lambda>r' h'. unselected b c0 ?c2 h' \<and> polled b r h r' h'))))) h2"
      unfolding eeprom_cmd_start_def wp_reg
    proof (rule wp_mono [OF wp_conj [OF wp_write_bits [OF s, of 11, simplified] polled_write_bits [where r = r2]]], elim conjE)
      fix r3 :: int and h3
      assume s3: "selected b c0 ?c1 True (msb_bits_of 11 (0x500 OR of_nat a)) h3" and p3: "polled b r2 ?h2 r2 h3"
      show "wp (eeprom_write_bits b (ucast w) 16) (\<lambda>_. wp (eeprom_cmd_stop b) (\<lambda>_. wp (eeprom_poll b hw r2)
          (\<lambda>r' h'. unselected b c0 ?c2 h' \<and> polled b r h r' h'))) h3"
      proof (rule wp_mono [OF wp_conj [OF wp_write_bits [OF s3, of 16, simplified] polled_write_bits [where r = r2]]], elim conjE)
        fix r4 :: int and h4
        assume s4: "selected b c0 ?c1 True ?bs h4" and p4: "polled b r2 h3 r2 h4"
        have u4: "unselected b c0 ?c2 (Wr (at_rest b) # h4)"
          using wp_cmd_stop [OF s4] done_ by (simp add: eeprom_cmd_stop_def)
        have "polled b r h r2 (Wr (at_rest b) # h4)"
          by (rule polled_trans [OF polled_trans [OF polled_trans [OF p2 p3] p4] polled_steps(1)])
        then show "wp (eeprom_cmd_stop b) (\<lambda>_. wp (eeprom_poll b hw r2)
            (\<lambda>r' h'. unselected b c0 ?c2 h' \<and> polled b r h r' h')) h4"
          unfolding eeprom_cmd_stop_def wp_reg
          by (intro wp_mono [OF wp_poll [OF u4, of hw r2]]) (auto elim: polled_trans)
      qed
    qed
  qed
qed

end

section \<open>Writing\<close>

text \<open>The cells after words are stored from an address on.\<close>

definition stored_from :: "nat \<Rightarrow> u16 list \<Rightarrow> (u8 \<Rightarrow> u16) \<Rightarrow> u8 \<Rightarrow> u16" where
  "stored_from a ws m = (\<lambda>k. if a \<le> unat k \<and> unat k < a + length ws then ws ! (unat k - a) else m k)"

lemma stored_from_simps:
  "stored_from a [] m = m"
  "a < 256 \<Longrightarrow> stored_from (Suc a) ws (m(of_nat a := w)) = stored_from a (w # ws) m"
proof -
  assume a: "a < 256"
  have k: "unat (k :: u8) = a" if "k = of_nat a" for k
    using a that by (simp add: unat_of_nat take_bit_nat_eq_self)
  show "stored_from (Suc a) ws (m(of_nat a := w)) = stored_from a (w # ws) m"
  proof
    fix k :: u8
    show "stored_from (Suc a) ws (m(of_nat a := w)) k = stored_from a (w # ws) m k"
    proof (cases "k = of_nat a")
      case True
      then show ?thesis using k [OF True] by (simp add: stored_from_def)
    next
      case False
      then have "unat k \<noteq> a" by auto
      then show ?thesis using False by (auto simp: stored_from_def nth_Cons')
    qed
  qed
qed (auto simp: stored_from_def fun_eq_iff)

context microwire
begin

lemma wp_write_words:
  "unselected b c0 c h \<Longrightarrow> enabled c \<Longrightarrow> a + length ws \<le> 256 \<Longrightarrow>
     wp (write_words b hw a ws r)
       (\<lambda>r' h'. unselected b c0 (c\<lparr>cells := stored_from a ws (cells c)\<rparr>) h' \<and> polled b r h r' h') h"
proof (induction ws arbitrary: a c h r)
  case Nil
  then show ?case by (simp add: stored_from_simps polled_refl)
next
  case (Cons w ws)
  have a: "a < 256" using Cons.prems(3) by simp
  show ?case
    unfolding write_words.simps wp_bind
  proof (rule wp_mono [OF wp_write_word [OF Cons.prems(1,2) a, where r = r]], elim conjE)
    fix r1 h1
    assume u: "unselected b c0 (c\<lparr>cells := (cells c)(of_nat a := w)\<rparr>) h1" and p: "polled b r h r1 h1"
    have cells: "stored_from (Suc a) ws (cells (c\<lparr>cells := (cells c)(of_nat a := w)\<rparr>)) = stored_from a (w # ws) (cells c)"
      using stored_from_simps(2) [OF a, of ws "cells c" w] by simp
    from Cons.IH [OF u, of "Suc a" r1, unfolded cells] Cons.prems
    have "wp (write_words b hw (Suc a) ws r1) (\<lambda>r' h'.
        unselected b c0 (c\<lparr>cells := stored_from a (w # ws) (cells c)\<rparr>) h' \<and> polled b r1 h1 r' h') h1"
      by simp
    then show "wp (write_words b hw (Suc a) ws r1) (\<lambda>r' h'.
        unselected b c0 (c\<lparr>cells := stored_from a (w # ws) (cells c)\<rparr>) h' \<and> polled b r h r' h') h1"
      by (rule wp_mono) (auto elim: polled_trans [OF p])
  qed
qed

lemma wp_eeprom_write:
  assumes "unselected b c0 c h"
  shows "wp (eeprom_write b hw data n) (\<lambda>r h'.
    unselected b c0 (c\<lparr>cells := stored_from 0 (take (min n 256) data) (cells c), enabled := False\<rparr>) h'
    \<and> polled b 0 h r h') h"
proof -
  have c: "received_bits c = []" using assms by (simp add: unselected_def)
  let ?ws = "take (min n 256) data"
  let ?c1 = "c\<lparr>enabled := True\<rparr>"
  let ?c2 = "?c1\<lparr>cells := stored_from 0 ?ws (cells ?c1)\<rparr>"
  have fin: "execute (?c2\<lparr>received_bits := msb_bits_of 11 0x400\<rparr>) = c\<lparr>cells := stored_from 0 ?ws (cells c), enabled := False\<rparr>"
    using execute_commands(2) [of ?c2] c by simp
  show ?thesis
    unfolding eeprom_write_def Let_def wp_bind EEPROM_MAX_WORDS_def
  proof (rule wp_mono [OF wp_clocked_command [OF assms execute_commands(1) [OF c], where r = 0]], elim conjE,
      rule wp_mono [OF wp_write_words [where a = 0 and ws = ?ws and c = ?c1 and r = 0]])
    fix r1 :: unit and h1 r2 h2
    assume p1: "polled b 0 h 0 h1" and "unselected b c0 ?c2 h2 \<and> polled b 0 h1 r2 h2"
    then have u: "unselected b c0 ?c2 h2" and p2: "polled b 0 h1 r2 h2" by simp_all
    show "wp (eeprom_command b 0x400) (\<lambda>_. wp (State_Monad.return r2) (\<lambda>r h'.
        unselected b c0 (c\<lparr>cells := stored_from 0 ?ws (cells c), enabled := False\<rparr>) h' \<and> polled b 0 h r h')) h2"
      using wp_mono [OF wp_clocked_command [OF u fin, where r = r2]] polled_trans [OF p1 polled_trans [OF p2]] by auto
  qed auto
qed

end

section \<open>Reading\<close>

text \<open>The levels of the output while bits are clocked in that are zero.\<close>

definition levels :: "chip \<Rightarrow> bool list \<Rightarrow> nat \<Rightarrow> bool list" where
  "levels c bs n = map (\<lambda>k. level (c\<lparr>received_bits := bs @ replicate k False\<rparr>)) [0..<n]"

lemma levels_Suc: "levels c bs (Suc n) = level (c\<lparr>received_bits := bs\<rparr>) # levels c (bs @ [False]) n"
proof -
  have "levels c bs (Suc n) = level (c\<lparr>received_bits := bs\<rparr>)
      # map (\<lambda>k. level (c\<lparr>received_bits := bs @ replicate (Suc k) False\<rparr>)) [0..<n]"
    by (simp add: levels_def upt_conv_Cons map_Suc_upt [symmetric] del: upt_Suc replicate_Suc)
  then show ?thesis by (simp add: levels_def)
qed

lemma length_levels [simp]: "length (levels c bs n) = n"
  by (simp add: levels_def)

definition listening :: "eeprom_bus \<Rightarrow> reg_event list \<Rightarrow> bool" where
  "listening b h \<longleftrightarrow> pins h AND input_enable b = input_enable b"

context microwire
begin

lemma wp_read_bit_loop:
  assumes "wired_to b c0 hw"
  shows "selected b c0 c high bs h \<Longrightarrow> listening b h \<Longrightarrow>
    wp (read_bit_loop b hw n (word_of_msb xs)) (\<lambda>r h'. r = word_of_msb (xs @ levels c bs n)
      \<and> selected b c0 c (high \<or> n > 0) (bs @ replicate n False) h' \<and> listening b h') h"
proof (induction n arbitrary: h high bs xs)
  case (Suc n)
  let ?l = "level (c\<lparr>received_bits := bs\<rparr>)"
  have read: "hw h AND EEDO b \<noteq> 0 \<longleftrightarrow> ?l"
    using assms Suc.prems by (simp add: wired_to_def listening_def selected_def)
  let ?v = "at_rest b OR EECS b OR input_enable b" and ?w = "at_rest b OR EESK b OR EECS b OR input_enable b"
  have "?v AND EECS b \<noteq> 0" "?v AND EESK b = 0" "?w AND EECS b \<noteq> 0" "?w AND EESK b \<noteq> 0" "?w AND EEDI b = 0"
    by (simp_all add: line_bits)
  with selected_clock(2) [of c0 c high bs "Rd (hw h) # h" ?v ?w] Suc.prems(1)
  have s: "selected b c0 c True (bs @ [False]) (Wr ?w # Wr ?v # Rd (hw h) # h)" by simp
  have l: "listening b (Wr ?w # Wr ?v # Rd (hw h) # h)"
    unfolding listening_def by (rule bit_word_eqI) (auto simp: bit_simps)
  from Suc.IH [OF s l, of "xs @ [?l]"] show ?case
    by (auto simp: read word_of_msb_append levels_Suc Let_def)
qed (simp add: levels_def)

lemma wp_change_input:
  assumes "wired_to b c0 hw" "selected b c0 c high bs h"
  shows "wp (enable_input b hw) (\<lambda>_ h'. selected b c0 c high bs h' \<and> listening b h') h"
    "wp (disable_input b hw) (\<lambda>_. selected b c0 c high bs) h"
proof -
  have keep: "selected b c0 c high bs (Wr v # Rd (hw h) # h)"
    if "v AND EECS b = hw h AND EECS b" "v AND EESK b = hw h AND EESK b" for v
    using assms that by (auto simp: selected_def wired_to_def)
  have masks: "(v OR ie) AND m = v AND m" "(v AND NOT ie) AND m = v AND m" if "ie AND m = 0" for v ie m :: u32
    using mask_simps(1,2) that by auto
  show "wp (enable_input b hw) (\<lambda>_ h'. selected b c0 c high bs h' \<and> listening b h') h"
    "wp (disable_input b hw) (\<lambda>_. selected b c0 c high bs) h"
    using assms enable masks by (cases "EEDO_IE b";
      simp add: enable_input_def disable_input_def input_enable_def listening_def mask_simps; intro keep; simp)+
qed

lemma wp_read_bits:
  assumes "wired_to b c0 hw" "selected b c0 c high bs h" "1 \<le> n" "n \<le> 32"
  shows "wp (eeprom_read_bits b hw data (int n)) (\<lambda>r h'. r = (0, word_of_msb (levels c bs n))
    \<and> selected b c0 c True (bs @ replicate n False) h') h"
proof -
  have ok: "\<not> (int n < 1 \<or> int n > 32)" "nat (int n) = n" using assms(3,4) by auto
  have zero: "(0 :: u32) = word_of_msb []" by (simp add: word_of_msb_def)
  show ?thesis
    unfolding eeprom_read_bits_def if_not_P [OF ok(1)] wp_bind ok(2) zero
  proof (rule wp_mono [OF wp_change_input(1) [OF assms(1,2)]], elim conjE,
      rule wp_mono [OF wp_read_bit_loop [OF assms(1)]], assumption, assumption)
    fix r1 :: unit and h1 r2 h2
    assume "r2 = word_of_msb ([] @ levels c bs n) \<and> selected b c0 c (high \<or> 0 < n) (bs @ replicate n False) h2 \<and> listening b h2"
    with assms(3) wp_mono [OF wp_change_input(2) [OF assms(1), of c True "bs @ replicate n False" h2]]
    show "wp (disable_input b hw) (\<lambda>_. wp (State_Monad.return (0, r2)) (\<lambda>r h'. r = (0, word_of_msb (levels c bs n))
        \<and> selected b c0 c True (bs @ replicate n False) h')) h2"
      by auto
  qed
qed

end


text \<open>The command to read from address 0, and what the chip sends behind it.\<close>

abbreviation read_command :: "bool list" where
  "read_command \<equiv> msb_bits_of 11 0x600"

lemma read_command: "read_command = [True, True, False, False, False, False, False, False, False, False, False]"
proof -
  have "[0..<11] = [0, 1, 2, 3, 4, 5, 6, 7, 8, 9, 10 :: nat]" by (simp add: upt_rec)
  then show ?thesis by (simp add: msb_bits_of_def)
qed

lemma level_read: "level (c\<lparr>received_bits := read_command @ replicate m False\<rparr>)
    \<longleftrightarrow> m > 0 \<and> bit (cells c (of_nat ((m - 1) div 16))) (15 - (m - 1) mod 16)"
proof -
  have zero: "address (read_command @ bs) = 0" for bs
    unfolding read_command by (rule bit_word_eqI) (auto simp: address_def bit_word_of_msb nth_Cons')
  have "opcode (read_command @ bs) = [True, True, False]" for bs
    by (simp add: read_command opcode_def)
  then show ?thesis by (auto simp: level_def Let_def zero)
qed

lemma nth_msb_bits_of: "k < n \<Longrightarrow> msb_bits_of n v ! k = bit v (n - 1 - k)"
  by (simp add: msb_bits_of_def)

lemma levels_read:
  "levels c (read_command @ replicate (1 + 16 * j) False) 16 = msb_bits_of 16 (ucast (cells c (of_nat j)))"
proof (rule nth_equalityI)
  fix k
  assume "k < length (levels c (read_command @ replicate (1 + 16 * j) False) 16)"
  then have k: "k < 16" by simp
  have "(16 * j + k) div 16 = j" "(16 * j + k) mod 16 = k" using k by simp_all
  then have "level (c\<lparr>received_bits := read_command @ replicate (1 + 16 * j + k) False\<rparr>)
      \<longleftrightarrow> bit (cells c (of_nat j)) (15 - k)"
    unfolding level_read by simp
  then show "levels c (read_command @ replicate (1 + 16 * j) False) 16 ! k = msb_bits_of 16 (ucast (cells c (of_nat j))) ! k"
    using k by (auto simp: levels_def nth_msb_bits_of replicate_add bit_unsigned_iff)
qed simp

context microwire
begin

lemma wp_read_words:
  assumes "wired_to b c0 hw"
  shows "selected b c0 c True (read_command @ replicate (1 + 16 * j) False) h \<Longrightarrow>
    wp (read_words b hw n eeword) (\<lambda>r h'. r = map (\<lambda>i. cells c (of_nat i)) [j..<j + n]
      \<and> selected b c0 c True (read_command @ replicate (1 + 16 * (j + n)) False) h') h"
proof (induction n arbitrary: j h eeword)
  case (Suc n)
  have word: "(ucast (word_of_msb (levels c (read_command @ replicate (1 + 16 * j) False) 16) :: u32) :: u16) = cells c (of_nat j)"
    unfolding levels_read by (rule bit_word_eqI) (auto simp: bit_unsigned_iff bit_word_of_msb nth_msb_bits_of)
  have more: "(read_command @ replicate (1 + 16 * j) False) @ replicate 16 False
      = read_command @ replicate (1 + 16 * Suc j) False"
    by (simp add: replicate_add [symmetric] del: replicate_Suc)
  have bits: "wp (eeprom_read_bits b hw eeword 16) (\<lambda>r h'.
      r = (0, word_of_msb (levels c (read_command @ replicate (1 + 16 * j) False) 16))
      \<and> selected b c0 c True ((read_command @ replicate (1 + 16 * j) False) @ replicate 16 False) h') h"
    using wp_read_bits [OF assms Suc.prems, of 16 eeword] by simp
  show ?case
    unfolding read_words.simps wp_bind wp_prod
  proof (rule wp_mono [OF bits], elim conjE)
    fix r :: "int \<times> u32" and h1
    assume r: "r = (0, word_of_msb (levels c (read_command @ replicate (1 + 16 * j) False) 16))"
    assume "selected b c0 c True ((read_command @ replicate (1 + 16 * j) False) @ replicate 16 False) h1"
    then have "selected b c0 c True (read_command @ replicate (1 + 16 * Suc j) False) h1"
      unfolding more .
    from wp_mono [OF Suc.IH [OF this, of "snd r"]]
    show "wp (read_words b hw n (snd r)) (\<lambda>x. wp (State_Monad.return (ucast (snd r) # x))
        (\<lambda>r h'. r = map (\<lambda>i. cells c (of_nat i)) [j..<j + Suc n]
          \<and> selected b c0 c True (read_command @ replicate (1 + 16 * (j + Suc n)) False) h')) h1"
      using word by (simp add: r upt_conv_Cons del: upt_Suc replicate_Suc)
  qed
qed simp

lemma wp_eeprom_read:
  assumes "wired_to b c0 hw" "unselected b c0 c h"
  shows "wp (eeprom_read b hw stack n) (\<lambda>r h'. r = (int (min n 256), map (\<lambda>i. cells c (of_nat i)) [0..<min n 256])
    \<and> unselected b c0 c h') h"
proof -
  have c: "received_bits c = []" using assms by (simp add: unselected_def)
  have s: "selected b c0 c False [] (Wr (at_rest b OR EECS b) # h)"
    using wp_cmd_start [OF assms(2)] by (simp add: eeprom_cmd_start_def)
  have "levels c read_command 1 = [False]"
    using level_read [where c = c and m = 0] by (simp add: levels_def)
  then have dummy: "(word_of_msb (levels c read_command (Suc 0)) :: u32) = 0" by (simp add: word_of_msb_def)
  have bits: "wp (eeprom_read_bits b hw stack 1) (\<lambda>r h'. r = (0, word_of_msb (levels c read_command 1))
      \<and> selected b c0 c True (read_command @ [False]) h') h1" if "selected b c0 c True read_command h1" for h1
    using wp_read_bits [OF assms(1) that, of 1 stack] by simp
  show ?thesis
    unfolding eeprom_read_def Let_def wp_bind wp_prod EEPROM_MAX_WORDS_def eeprom_cmd_start_def wp_reg
  proof (rule wp_mono [OF wp_write_bits [OF s, of 11, simplified]], elim conjE,
      rule wp_mono [OF bits], assumption, elim conjE)
    fix r1 :: int and h1 and r2 :: "int \<times> u32" and h2
    assume r2: "r2 = (0, word_of_msb (levels c read_command 1))" and s2: "selected b c0 c True (read_command @ [False]) h2"
    have "selected b c0 c True (read_command @ replicate (1 + 16 * 0) False) h2" using s2 by simp
    note words = wp_read_words [OF assms(1) this, where n = "min n 256" and eeword = "snd r2"]
    show "wp (if snd r2 AND 1 \<noteq> 0 then State_Monad.return (- ENODEV, [])
        else do { words \<leftarrow> read_words b hw (min n 256) (snd r2); _ \<leftarrow> eeprom_cmd_stop b;
          State_Monad.return (int (min n 256), words) })
      (\<lambda>r h'. r = (int (min n 256), map (\<lambda>i. cells c (of_nat i)) [0..<min n 256]) \<and> unselected b c0 c h') h2"
      using wp_cmd_stop [of c0 c True "read_command @ replicate (1 + 16 * (0 + min n 256)) False"] execute_commands(6) [OF c] words
      by (auto simp: r2 dummy eeprom_cmd_stop_def elim!: wp_mono)
  qed
qed

end

end
