(* ===== verification/KernelEeprom_Text.thy ===== *)
theory KernelEeprom_Text
  imports KernelEeprom_Props
begin

text \<open>
  The text of the EEPROM: what is printed, that reading it gives back the words it was printed from, and what
  the device of the EEPROM does as a whole: printing the contents of the chip, and storing the words of a text.
\<close>

section \<open>What is printed\<close>

definition eeprom_header :: "eeprom_bus \<Rightarrow> u16 list \<Rightarrow> string" where
  "eeprom_header b words = bridge_name b @ '' EEPROM Contents'' @ LF @ ''S/N: ''
     @ concat (map (\<lambda>i. sn_chars (words ! i)) [sn_begin b..<sn_end b]) @ LF @ LF"

text \<open>The lines of some words, the first of which has the number \<open>k\<close>.\<close>

fun word_lines :: "u16 list \<Rightarrow> nat \<Rightarrow> string list \<Rightarrow> string" where
  "word_lines words k [] = []"
| "word_lines words k (c # cs) = word_line (words ! k) c @ word_lines words (Suc k) cs"

definition eeprom_text :: "eeprom_bus \<Rightarrow> u16 list \<Rightarrow> string" where
  "eeprom_text b words = eeprom_header b words @ word_lines words 0 (comments b)"

lemma printed_guarded:
  assumes "printed sz out sb" "sz \<le> INT_MAX"
  shows "printed sz (out @ new) (case sb of (s, buf) \<Rightarrow> if s < sz then print sz new (s, buf) else (s, buf))"
proof -
  obtain s buf where sb: "sb = (s, buf)" by (rule prod.exhaust)
  show ?thesis
  proof (cases "s < sz")
    case True
    then show ?thesis using printed_print [of sz out s buf new] assms sb by simp
  next
    case False
    then show ?thesis using assms(1) by (simp add: sb printed_def)
  qed
qed

lemma printed_lines:
  assumes "sz \<le> INT_MAX"
  shows "printed sz out sb \<Longrightarrow> printed sz (out @ word_lines words k cs) (fold (\<lambda>(i, comment) (s, buf).
    if s < sz then print sz (word_line (words ! i) comment) (s, buf) else (s, buf)) (enumerate k cs) sb)"
proof (induction cs arbitrary: out sb k)
  case (Cons c cs)
  have step: "fold (\<lambda>(i, comment) (s, buf).
      if s < sz then print sz (word_line (words ! i) comment) (s, buf) else (s, buf)) (enumerate k (c # cs)) sb
    = fold (\<lambda>(i, comment) (s, buf).
      if s < sz then print sz (word_line (words ! i) comment) (s, buf) else (s, buf)) (enumerate (Suc k) cs)
      (case sb of (s, buf) \<Rightarrow> if s < sz then print sz (word_line (words ! k) c) (s, buf) else (s, buf))"
    by (cases sb) simp
  show ?case
    unfolding step using Cons.IH [OF printed_guarded [OF Cons.prems assms, where new = "word_line (words ! k) c"]] by simp
qed simp

lemma print_words_printed:
  assumes "sz \<le> INT_MAX" "sz = int (length buf)" "buf \<noteq> []"
  shows "\<exists>sb. printed sz (eeprom_text b words) sb \<and> print_words b words sz buf = print_result sz sb"
proof -
  let ?sb1 = "print sz (bridge_name b @ '' EEPROM Contents'' @ LF @ ''S/N: '') (0, buf)"
  have p1: "printed sz (bridge_name b @ '' EEPROM Contents'' @ LF @ ''S/N: '') ?sb1"
    using printed_print [OF printed_start [OF assms(3)]] assms(1,2) by simp
  have "fold (\<lambda>i. print sz (sn_chars (words ! i))) ks sb = fold (print sz) (map (\<lambda>i. sn_chars (words ! i)) ks) sb" for ks sb
    by (induction ks arbitrary: sb) simp_all
  then have p2: "printed sz ((bridge_name b @ '' EEPROM Contents'' @ LF @ ''S/N: '')
        @ concat (map (\<lambda>i. sn_chars (words ! i)) [sn_begin b..<sn_end b]))
      (fold (\<lambda>i. print sz (sn_chars (words ! i))) [sn_begin b..<sn_end b] ?sb1)"
    using printed_fold [OF assms(1) p1, of "map (\<lambda>i. sn_chars (words ! i)) [sn_begin b..<sn_end b]"] by simp
  from printed_print [of sz _ "fst sb" "snd sb" "LF @ LF" for sb, simplified, OF p2 assms(1)]
  have p3: "printed sz (eeprom_header b words)
      (print sz (LF @ LF) (fold (\<lambda>i. print sz (sn_chars (words ! i))) [sn_begin b..<sn_end b] ?sb1))"
    by (simp add: eeprom_header_def)
  from printed_lines [OF assms(1) p3, of words 0 "comments b"]
  show ?thesis
    unfolding print_words_def Let_def eeprom_text_def [symmetric] by blast
qed

section \<open>Characters\<close>

text \<open>The characters of the text, apart from the ends of its lines: no zeros and no ends of lines.\<close>

definition plain :: "string \<Rightarrow> bool" where
  "plain cs \<longleftrightarrow> CHR 0x00 \<notin> set cs \<and> CHR 0x0A \<notin> set cs"

lemma plain_simps [simp]: "plain []" "plain (c # cs) \<longleftrightarrow> c \<noteq> CHR 0x00 \<and> c \<noteq> CHR 0x0A \<and> plain cs"
  "plain (xs @ ys) \<longleftrightarrow> plain xs \<and> plain ys"
  by (auto simp: plain_def)

lemma nibble16_less: "unat (take_bit 4 (w :: u16)) < 16"
  by (simp only: unsigned_take_bit_eq) (simp add: take_bit_eq_mod)

lemma hex_digits4_less: "d \<in> set (hex_digits4 w) \<Longrightarrow> d < 16"
  using nibble16_less by (auto simp: hex_digits4_def)

lemma plain_hex: "plain (map hex_char (hex_digits4 w))"
proof -
  have "list_all (\<lambda>d. hex_char d \<noteq> CHR 0x00 \<and> hex_char d \<noteq> CHR 0x0A) [0..<16]" by code_simp
  then have "hex_char d \<noteq> CHR 0x00 \<and> hex_char d \<noteq> CHR 0x0A" if "d \<in> set (hex_digits4 w)" for d
    using hex_digits4_less [OF that] by (auto simp: list_all_iff)
  then show ?thesis by (fastforce simp: plain_def)
qed

lemma plain_sn: "plain (sn_chars w)"
proof -
  have "sn_char v \<noteq> CHR 0x00 \<and> sn_char v \<noteq> CHR 0x0A" for v
  proof (cases "48 \<le> v \<and> v \<le> 90")
    case True
    then have "48 \<le> unat v" "unat v \<le> 90" by (simp_all add: word_le_nat_alt)
    then have "of_char (char_of (unat v) :: char) = unat v" by simp
    with \<open>48 \<le> unat v\<close> have "of_char (char_of (unat v) :: char) \<noteq> (0 :: nat)" "of_char (char_of (unat v) :: char) \<noteq> (10 :: nat)"
      by simp_all
    moreover have "of_char (CHR 0x00) = (0 :: nat)" "of_char (CHR 0x0A) = (10 :: nat)" by code_simp+
    ultimately have "char_of (unat v) \<noteq> CHR 0x00" "char_of (unat v) \<noteq> CHR 0x0A" by metis+
    with True show ?thesis by (simp add: sn_char_def)
  qed (auto simp: sn_char_def)
  then show ?thesis by (simp add: sn_chars_def)
qed

lemma plain_serial: "plain (concat (map (\<lambda>i. sn_chars (words ! i)) ks))"
  using plain_sn by (induction ks) auto

definition plain_texts :: "eeprom_bus \<Rightarrow> bool" where
  "plain_texts b \<longleftrightarrow> plain (bridge_name b) \<and> bridge_name b \<noteq> [] \<and> hd (bridge_name b) \<noteq> CHR ''0'' \<and> list_all plain (comments b)
     \<and> comments b \<noteq> []"

lemma plain_bridges: "plain_texts eeprom9030" "plain_texts eeprom9056"
  by (simp_all add: plain_texts_def eeprom9030_def eeprom9056_def EepromComment9030_def EepromComment9056_def)

section \<open>Reading a text\<close>

text \<open>The number that a line begins with.\<close>

lemma number_value_hex4: "number_value 16 (map hex_char (hex_digits4 w)) = uint w"
proof -
  have nibble: "unat (take_bit 4 (drop_bit k (ucast w :: u32))) = unat (take_bit 4 (drop_bit k w))" for k
  proof -
    have "take_bit 4 (drop_bit k (ucast w :: u32)) = ucast (take_bit 4 (drop_bit k w))"
      by (rule bit_word_eqI) (auto simp: bit_simps dest: bit_imp_le_length)
    moreover have "unat (take_bit 4 (drop_bit k w)) < 2 ^ 32" using nibble16_less [of "drop_bit k w"] by simp
    ultimately show ?thesis by (simp add: unsigned_ucast_eq take_bit_nat_eq_self del: unsigned_take_bit_eq)
  qed
  have high: "drop_bit k w = 0" if "16 \<le> k" for k
    using that by (intro bit_word_eqI) (simp add: bit_simps)
  have "hex_digits8 (ucast w) = [0, 0, 0, 0] @ hex_digits4 w"
    unfolding hex_digits8_def hex_digits4_def list.map nibble by (simp add: high)
  then have "uint (ucast w :: u32) = number_value 16 (map hex_char ([0, 0, 0, 0] @ hex_digits4 w))"
    by (simp only: number_value_hex [symmetric])
  also have "\<dots> = number_value 16 (map hex_char (hex_digits4 w))"
    using hex_char_facts(1) [of 0] by (simp add: number_value_def)
  finally show ?thesis by (simp add: uint_up_ucast is_up)
qed

lemma simple_strtol_line: "ucast (simple_strtol (''0x'' @ map hex_char (hex_digits4 w) @ CHR '' '' # cs)) = w"
proof -
  let ?ds = "map hex_char (hex_digits4 w)"
  let ?s = "''0x'' @ ?ds @ CHR '' '' # cs"
  obtain d ds where ds: "hex_digits4 w = d # ds" by (simp add: hex_digits4_def)
  have less: "x < 16" if "x \<in> set (hex_digits4 w)" for x using hex_digits4_less [OF that] .
  have d: "d < 16" using less [of d] ds by simp
  have base: "number_base ?s = (16, ?ds @ CHR '' '' # cs)"
    using hex_char_facts(1) [OF d] d ds by (simp add: number_base_def)
  have "\<forall>c \<in> set ?ds. digit_value c < 16" using hex_char_facts(1) less by auto
  moreover have "digit_value CHR '' '' = 99" by code_simp
  ultimately have digits: "takeWhile (\<lambda>c. digit_value c < 16) (?ds @ CHR '' '' # cs) = ?ds"
    by (subst takeWhile_append2) auto
  have "simple_strtol ?s = word_of_int (uint w)"
    unfolding simple_strtol_def simple_strtoull_def base by (simp add: digits number_value_hex4)
  then show ?thesis by (simp add: word_of_int_uint) (rule bit_word_eqI, simp add: bit_simps)
qed

lemma skip_line_plain: "CHR 0x0A \<notin> set cs \<Longrightarrow> skip_line (cs @ CHR 0x0A # cs') = Some (CHR 0x0A # cs')"
  by (induction cs) auto

text \<open>Lines that begin with another character have no words, and those of words have theirs.\<close>

lemma scan_words_line:
  assumes "c \<noteq> CHR 0x00" "plain cs" "c' \<noteq> CHR 0x0A"
  shows "scan_words (Suc n) (c # cs @ LF @ c' # rest) = (if c = CHR ''0''
      then map_option (\<lambda>ws. ucast (simple_strtol (c # cs @ LF @ c' # rest)) # ws) (scan_words n (c' # rest))
      else scan_words (Suc n) (c' # rest))"
    "scan_words (Suc n) (c # cs @ LF @ LF @ c' # rest) = (if c = CHR ''0''
      then map_option (\<lambda>ws. ucast (simple_strtol (c # cs @ LF @ LF @ c' # rest)) # ws) (scan_words n (c' # rest))
      else scan_words (Suc n) (c' # rest))"
  using assms by (simp_all add: LF_def skip_line_plain plain_def)

lemma scan_word_lines:
  assumes "list_all plain cs" "length cs \<le> n"
  shows "scan_words n (word_lines words k cs @ CHR 0x00 # rest) = Some (map (\<lambda>i. words ! i) [k..<k + length cs])"
  using assms
proof (induction cs arbitrary: n k)
  case (Cons c cs)
  then obtain m where n: "n = Suc m" "length cs \<le> m" "plain c" "list_all plain cs" by (cases n) auto
  let ?line = "CHR ''x'' # map hex_char (hex_digits4 (words ! k)) @ CHR '' '' # c"
  obtain c' rest' where next_: "word_lines words (Suc k) cs @ CHR 0x00 # rest = c' # rest'" "c' \<noteq> CHR 0x0A"
    by (cases cs) (auto simp: word_line_def)
  have line: "word_lines words k (c # cs) @ CHR 0x00 # rest = CHR ''0'' # ?line @ LF @ c' # rest'"
    by (simp add: word_line_def next_(1))
  have "ucast (simple_strtol (CHR ''0'' # ?line @ LF @ c' # rest')) = words ! k"
    using simple_strtol_line [of "words ! k" "c @ LF @ c' # rest'"] by simp
  moreover have "plain ?line" using n(3) plain_hex by simp
  ultimately have "scan_words n (word_lines words k (c # cs) @ CHR 0x00 # rest)
      = map_option (\<lambda>ws. words ! k # ws) (scan_words m (c' # rest'))"
    unfolding line n(1) by (subst scan_words_line(1)) (simp_all add: next_(2))
  also have "scan_words m (c' # rest') = Some (map (\<lambda>i. words ! i) [Suc k..<Suc k + length cs])"
    using Cons.IH [of m "Suc k"] n(2,4) next_(1) by simp
  finally show ?case by (simp add: upt_conv_Cons del: upt_Suc)
qed simp

text \<open>A printed text is read as the words it was printed from.\<close>

lemma scan_eeprom_text:
  assumes "plain_texts b" "length (comments b) \<le> n"
  shows "scan_words n (eeprom_text b words @ CHR 0x00 # rest) = Some (map (\<lambda>i. words ! i) [0..<length (comments b)])"
proof -
  obtain c cs where name: "bridge_name b = c # cs" "c \<noteq> CHR 0x00" "plain cs" "c \<noteq> CHR ''0''"
    using assms(1) by (cases "bridge_name b") (auto simp: plain_texts_def)
  obtain m where n: "n = Suc m" using assms by (cases n) (auto simp: plain_texts_def)
  let ?name = "'' EEPROM Contents''" and ?digits = "concat (map (\<lambda>i. sn_chars (words ! i)) [sn_begin b..<sn_end b])"
  obtain l ls where "comments b = l # ls" using assms(1) by (cases "comments b") (auto simp: plain_texts_def)
  then obtain rest' where rest: "word_lines words 0 (comments b) @ CHR 0x00 # rest = CHR ''0'' # rest'"
    by (simp add: word_line_def)
  have whole: "eeprom_text b words @ CHR 0x00 # rest
      = c # (cs @ ?name) @ LF @ CHR ''S'' # (''/N: '' @ ?digits) @ LF @ LF @ CHR ''0'' # rest'"
    by (simp add: eeprom_text_def eeprom_header_def name(1) rest)
  have "plain (cs @ ?name)" "plain (''/N: '' @ ?digits)" using name(3) plain_serial by simp_all
  then have "scan_words (Suc m) (c # (cs @ ?name) @ LF @ CHR ''S'' # cs') = scan_words (Suc m) (CHR ''S'' # cs')"
    "scan_words (Suc m) (CHR ''S'' # (''/N: '' @ ?digits) @ LF @ LF @ CHR ''0'' # rest')
      = scan_words (Suc m) (CHR ''0'' # rest')" for cs'
    using scan_words_line(1) [of c "cs @ ?name" "CHR ''S''" m cs'] name
      scan_words_line(2) [of "CHR ''S''" "''/N: '' @ ?digits" "CHR ''0''" m rest'] by simp_all
  then have "scan_words n (eeprom_text b words @ CHR 0x00 # rest) = scan_words n (CHR ''0'' # rest')"
    unfolding whole n by (simp only:)
  then show ?thesis
    using scan_word_lines [of "comments b" n words 0 rest] assms rest by (simp add: plain_texts_def)
qed

section \<open>Both bridges\<close>

definition eeprom_buses :: "eeprom_bus set" where
  "eeprom_buses = {eeprom9030, eeprom9056}"

lemma bus_write:
  assumes "b \<in> eeprom_buses" "unselected b c0 c h"
  shows "wp (eeprom_write b hw data n) (\<lambda>r h'.
    unselected b c0 (c\<lparr>cells := stored_from 0 (take (min n 256) data) (cells c), enabled := False\<rparr>) h'
    \<and> polled b 0 h r h') h"
  using assms microwire9030.wp_eeprom_write microwire9056.wp_eeprom_write by (auto simp: eeprom_buses_def)

lemma bus_read:
  assumes "b \<in> eeprom_buses" "wired_to b c0 hw" "unselected b c0 c h"
  shows "wp (eeprom_read b hw stack n) (\<lambda>r h'. r = (int (min n 256), map (\<lambda>i. cells c (of_nat i)) [0..<min n 256])
    \<and> unselected b c0 c h') h"
  using assms microwire9030.wp_eeprom_read microwire9056.wp_eeprom_read by (auto simp: eeprom_buses_def)

lemma bus_texts:
  assumes "b \<in> eeprom_buses"
  shows "plain_texts b" "length (comments b) \<le> 256" "length (eeprom_text b words) < 0x2000"
proof -
  have lines: "length (word_lines words k cs) = sum_list (map (\<lambda>c. length c + 8) cs)" for k cs
    by (induction cs arbitrary: k) (simp_all add: word_line_def hex_digits4_def LF_def)
  have serial: "length (concat (map (\<lambda>i. sn_chars (words ! i)) ks)) = 2 * length ks" for ks
    by (induction ks) (simp_all add: sn_chars_def)
  have "sum_list (map (\<lambda>c. length c + 8) EepromComment9030) < 8000" "sum_list (map (\<lambda>c. length c + 8) EepromComment9056) < 8000"
    by code_simp+
  moreover have "length EepromComment9030 = 74" "length EepromComment9056 = 56" by code_simp+
  ultimately show "plain_texts b" "length (comments b) \<le> 256" "length (eeprom_text b words) < 0x2000"
    using assms plain_bridges
    by (auto simp: eeprom_buses_def eeprom_text_def eeprom_header_def lines serial eeprom9030_def eeprom9056_def LF_def
        MRF_EVX_EEPROM_SN_BEGIN_def MRF_EVX_EEPROM_SN_END_def MRF_FCT_EEPROM_SN_BEGIN_def MRF_FCT_EEPROM_SN_END_def)
qed

text \<open>The first words of a chip, all of them if there are 256.\<close>

definition contents :: "chip \<Rightarrow> nat \<Rightarrow> u16 list" where
  "contents c n = map (\<lambda>i. cells c (of_nat i)) [0..<n]"

lemma plain_text: "plain_texts b \<Longrightarrow> CHR 0x00 \<notin> set (eeprom_text b words)"
proof -
  assume b: "plain_texts b"
  have "CHR 0x00 \<notin> set (word_lines words k cs)" if "list_all plain cs" for k cs
    using that plain_hex
    by (induction cs arbitrary: k) (auto simp: word_line_def LF_def plain_def)
  moreover have "CHR 0x00 \<notin> set (eeprom_header b words)"
    using b plain_serial [where words = words and ks = "[sn_begin b..<sn_end b]"]
    by (simp add: eeprom_header_def LF_def plain_texts_def plain_def)
  ultimately show ?thesis using b by (simp add: eeprom_text_def plain_texts_def)
qed

lemma bus_sprint:
  assumes "b \<in> eeprom_buses" "wired_to b c0 hw" "unselected b c0 c h" "length buf = 0x2000"
  shows "wp (eeprom_sprint b hw stack buf 0x2000) (\<lambda>(r, buf') h'. unselected b c0 c h'
    \<and> r = int (length (eeprom_text b (contents c 256))) \<and> length buf' = 0x2000
    \<and> text_in buf' = eeprom_text b (contents c 256)) h"
proof -
  let ?words = "contents c 256"
  obtain sb where sb: "printed 0x2000 (eeprom_text b ?words) sb" "print_words b ?words 0x2000 buf = print_result 0x2000 sb"
  proof -
    have "(0x2000 :: int) \<le> INT_MAX" "0x2000 = int (length buf)" "buf \<noteq> []" using assms(4) by (auto simp: INT_MAX_def)
    from print_words_printed [OF this, of b ?words] that show ?thesis by blast
  qed
  obtain r buf' where r: "print_words b ?words 0x2000 buf = (r, buf')" by (rule prod.exhaust)
  have "eeprom_text b ?words \<noteq> []" by (simp add: eeprom_text_def eeprom_header_def)
  from print_result [of buf _ sb r buf', OF _ plain_text [OF bus_texts(1) [OF assms(1)]] this] sb r assms(4)
    bus_texts(3) [OF assms(1)]
  have "r = int (length (eeprom_text b ?words))" "length buf' = 0x2000" "text_in buf' = eeprom_text b ?words" by auto
  then show ?thesis
    using wp_mono [OF bus_read [OF assms(1-3), of stack EEPROM_MAX_WORDS]] r
    by (auto simp: eeprom_sprint_def EEPROM_MAX_WORDS_def contents_def)
qed

text \<open>A buffer with a text in it.\<close>

lemma text_in_split: "text_in buf \<noteq> buf \<Longrightarrow> \<exists>rest. buf = text_in buf @ CHR 0x00 # rest"
  unfolding text_in_def by (induction buf) auto


section \<open>Hardware for the witnesses\<close>

text \<open>A register whose lines are connected to a chip, and a chip that is not selected.\<close>

definition eeprom_wired :: "eeprom_bus \<Rightarrow> chip \<Rightarrow> reg_hw" where
  "eeprom_wired b c0 h = (pins h AND NOT (EEDO b)) OR (if level (chip_of b c0 h) then EEDO b else 0)"

definition chip0 :: chip where
  "chip0 = \<lparr>received_bits = [], cells = (\<lambda>a. 0x1234), enabled = False\<rparr>"

lemma eeprom_wired:
  assumes "b \<in> eeprom_buses"
  shows "wired_to b c0 (eeprom_wired b c0)"
proof -
  have bits: "EEDO b \<noteq> 0" "EEDO b AND EECS b = 0" "EEDO b AND EESK b = 0" "EEDO b AND EEDI b = 0"
    using assms by (auto simp: eeprom_buses_def eeprom9030_def eeprom9056_def PLX9030_CNTRL_EECS_def PLX9030_CNTRL_EESK_def
      PLX9030_CNTRL_EEDI_def PLX9030_CNTRL_EEDO_def PLX9056_CNTRL_EECS_def PLX9056_CNTRL_EESK_def PLX9056_CNTRL_EEDI_def
      PLX9056_CNTRL_EEDO_def)
  have keep: "((v AND NOT d) OR x) AND m = v AND m" if "d AND m = 0" "x = d \<or> x = 0" for v d x m :: u32
  proof (rule bit_word_eqI)
    fix n
    have "bit (d AND m) n = False" using that(1) by simp
    then show "bit (((v AND NOT d) OR x) AND m) n = bit (v AND m) n"
      using that(2) by (auto simp: bit_simps dest: bit_imp_le_length)
  qed
  have "((v AND NOT d) OR x) AND d = x" if "x = d \<or> x = 0" for v d x :: u32
    using that by (intro bit_word_eqI) (auto simp: bit_simps)
  then show ?thesis
    using bits keep by (auto simp: wired_to_def eeprom_wired_def)
qed

lemma unselected_chip0: "unselected b chip0 chip0 []"
  by (simp add: unselected_def chip0_def)

section \<open>Properties\<close>



text \<open>
  C38. On hardware that connects the lines to a chip, words that are written to the EEPROM are read back, as many
  as there are cells at most, and reading changes nothing.
\<close>

theorem eeprom_words_read_back:
  assumes "b \<in> eeprom_buses" "wired_to b c0 hw" "unselected b c0 c h" "n \<le> length data"
    and "run_state (eeprom_write b hw data n) h = (r, h1)" "run_state (eeprom_read b hw stack n) h1 = (r', h2)"
  shows "r' = (int (min n 256), take (min n 256) data) \<and> chip_of b c0 h2 = chip_of b c0 h1"
proof -
  let ?c = "c\<lparr>cells := stored_from 0 (take (min n 256) data) (cells c), enabled := False\<rparr>"
  have u: "unselected b c0 ?c h1"
    using wp_run [OF assms(5) bus_write [OF assms(1,3)]] by simp
  from wp_run [OF assms(6) bus_read [OF assms(1,2) u]]
  have r: "r' = (int (min n 256), map (\<lambda>i. cells ?c (of_nat i)) [0..<min n 256])" "unselected b c0 ?c h2" by simp_all
  have "map (\<lambda>i. cells ?c (of_nat i)) [0..<min n 256] = take (min n 256) data"
  proof (rule nth_equalityI)
    fix i
    assume "i < length (map (\<lambda>i. cells ?c (of_nat i)) [0..<min n 256])"
    then have i: "i < n" "i < 256" by simp_all
    then have "unat (of_nat i :: u8) = i" by (simp add: unat_of_nat take_bit_nat_eq_self)
    then show "map (\<lambda>i. cells ?c (of_nat i)) [0..<min n 256] ! i = take (min n 256) data ! i"
      using i assms(4) by (simp add: stored_from_def)
  qed (use assms(4) in simp)
  then show ?thesis using r u by (simp add: unselected_def)
qed

lemma eeprom_words_read_back_witness:
  "let hw = eeprom_wired eeprom9030 chip0; (r, h1) = run_state (eeprom_write eeprom9030 hw [0xBEEF, 0x0042] 2) [];
     (r', h2) = run_state (eeprom_read eeprom9030 hw 0 2) h1
   in r' = (2, [0xBEEF, 0x0042])"
proof -
  let ?hw = "eeprom_wired eeprom9030 chip0"
  obtain r h1 where w: "run_state (eeprom_write eeprom9030 ?hw [0xBEEF, 0x0042] 2) [] = (r, h1)" by (rule prod.exhaust)
  obtain r' h2 where rd: "run_state (eeprom_read eeprom9030 ?hw 0 2) h1 = (r', h2)" by (rule prod.exhaust)
  have b: "eeprom9030 \<in> eeprom_buses" by (simp add: eeprom_buses_def)
  from eeprom_words_read_back [OF b eeprom_wired [OF b] unselected_chip0 _ w rd]
  show ?thesis by (simp add: w rd Let_def)
qed

text \<open>
  C39. Opening the device of the EEPROM for reading prints its contents as a text with a line for each word that
  has a meaning, which fits the buffer; writing this text to the device stores the words it was printed from, so
  that all cells hold what they held before.
\<close>

theorem eeprom_text_written_back:
  assumes "b \<in> eeprom_buses" "wired_to b c0 hw" "unselected b c0 c h" "length buf = 0x2000"
    and "run_state (eeprom_sprint b hw stack buf 0x2000) h = ((r, buf'), h1)"
    and "run_state (eeprom_sscan b hw buf') h1 = (r', h2)"
  shows "r = int (length (text_in buf')) \<and> text_in buf' = eeprom_text b (contents c 256)
    \<and> unselected b c0 (c\<lparr>enabled := False\<rparr>) h2
    \<and> r' \<in> {Some (int (length (comments b))), Some (- ETIME)}"
proof -
  note texts = bus_texts [OF assms(1)]
  let ?words = "contents c (length (comments b))"
  have p: "unselected b c0 c h1" "r = int (length (eeprom_text b (contents c 256)))" "length buf' = 0x2000"
    "text_in buf' = eeprom_text b (contents c 256)"
    using wp_run [OF assms(5) bus_sprint [OF assms(1-4)]] by simp_all
  have "text_in buf' \<noteq> buf'" using p(3,4) texts(3) [of "contents c 256"] by auto
  then obtain rest where rest: "buf' = eeprom_text b (contents c 256) @ CHR 0x00 # rest"
    using text_in_split p(4) by metis
  have words: "map (\<lambda>i. contents c 256 ! i) [0..<length (comments b)] = ?words"
    using texts(2) by (auto simp: contents_def)
  have scan: "scan_words EEPROM_MAX_WORDS buf' = Some ?words"
    using scan_eeprom_text [OF texts(1), of EEPROM_MAX_WORDS "contents c 256" rest] texts(2)
    by (simp add: rest words EEPROM_MAX_WORDS_def)
  have len: "length ?words = length (comments b)" "length ?words \<noteq> 0"
    using texts(1) by (simp_all add: contents_def plain_texts_def)
  have same: "stored_from 0 (take (min (length ?words) 256) ?words) (cells c) = cells c"
  proof
    fix a
    show "stored_from 0 (take (min (length ?words) 256) ?words) (cells c) a = cells c a"
      using len texts(2) by (auto simp: stored_from_def contents_def)
  qed
  have "wp (eeprom_sscan b hw buf') (\<lambda>r h'. unselected b c0 (c\<lparr>enabled := False\<rparr>) h'
      \<and> r \<in> {Some (int (length (comments b))), Some (- ETIME)}) h1"
    unfolding eeprom_sscan_def scan option.case if_P [OF len(2)] wp_bind
  proof (rule wp_mono [OF bus_write [OF assms(1) p(1)]], elim conjE)
    fix r h'
    assume "polled b 0 h1 r h'"
    then have "r = 0 \<or> r = - ETIME" unfolding polled_def by metis
    moreover assume "unselected b c0 (c\<lparr>cells := stored_from 0 (take (min (length ?words) 256) ?words) (cells c), enabled := False\<rparr>) h'"
    ultimately show "wp (State_Monad.return (Some (if r = 0 then int (length ?words) else r)))
      (\<lambda>r h'. unselected b c0 (c\<lparr>enabled := False\<rparr>) h' \<and> r \<in> {Some (int (length (comments b))), Some (- ETIME)}) h'"
      using same by (auto simp: len(1) ETIME_def)
  qed
  from wp_run [OF assms(6) this] p show ?thesis by auto
qed

lemma eeprom_text_written_back_witness:
  "let hw = eeprom_wired eeprom9030 chip0;
     ((r, buf), h1) = run_state (eeprom_sprint eeprom9030 hw 0 (replicate 0x2000 (CHR 0x00)) 0x2000) [];
     (r', h2) = run_state (eeprom_sscan eeprom9030 hw buf) h1
   in cells (chip_of eeprom9030 chip0 h2) = cells chip0"
proof -
  let ?hw = "eeprom_wired eeprom9030 chip0"
  obtain r buf h1 where s: "run_state (eeprom_sprint eeprom9030 ?hw 0 (replicate 0x2000 (CHR 0x00)) 0x2000) [] = ((r, buf), h1)"
    by (metis prod.exhaust)
  obtain r' h2 where sc: "run_state (eeprom_sscan eeprom9030 ?hw buf) h1 = (r', h2)" by (rule prod.exhaust)
  have b: "eeprom9030 \<in> eeprom_buses" by (simp add: eeprom_buses_def)
  from eeprom_text_written_back [OF b eeprom_wired [OF b] unselected_chip0 length_replicate s sc]
  show ?thesis by (simp add: s sc unselected_def)
qed


text \<open>The end of the text is not seen within a line, so a last line without an end leads out of the buffer.\<close>

lemma skip_line_none: "CHR 0x0A \<notin> set cs \<Longrightarrow> skip_line cs = None"
  by (induction cs) auto

lemma skip_newlines_drop: "skip_newlines cs = (case dropWhile (\<lambda>c. c = CHR 0x0A) cs of [] \<Rightarrow> None | c # cs' \<Rightarrow> Some (c # cs'))"
  by (induction cs) auto

lemma scan_words_none:
  "t \<noteq> [] \<Longrightarrow> CHR 0x00 \<notin> set t \<Longrightarrow> last t \<noteq> CHR 0x0A \<Longrightarrow> count_list t (CHR 0x0A) < n \<Longrightarrow>
     scan_words n (t @ replicate k (CHR 0x00)) = None"
proof (induction "length t" arbitrary: t n rule: less_induct)
  case less
  obtain c cs where t: "t = c # cs" "c \<noteq> CHR 0x00" "CHR 0x00 \<notin> set cs" using less.prems(1,2) by (cases t) auto
  have n: "n \<noteq> 0" using less.prems(4) by auto
  let ?zeros = "replicate k (CHR 0x00)"
  show ?case
  proof (cases "CHR 0x0A \<in> set cs")
    case False
    then have "skip_line (cs @ ?zeros) = None" by (intro skip_line_none) (auto simp: in_set_replicate)
    then show ?thesis using t(2) n by (simp add: t(1))
  next
    case True
    then obtain l cs' where cs: "cs = l @ CHR 0x0A # cs'" "CHR 0x0A \<notin> set l" by (auto dest: split_list_first)
    define t' where "t' = dropWhile (\<lambda>c. c = CHR 0x0A) cs'"
    have "cs' \<noteq> []" "last cs' \<noteq> CHR 0x0A" using less.prems(3) by (auto simp: t(1) cs(1) split: if_splits)
    then have ne: "\<exists>c \<in> set cs'. c \<noteq> CHR 0x0A" using last_in_set by blast
    obtain us where us: "cs' = us @ t'" using takeWhile_dropWhile_id [of _ cs'] unfolding t'_def by metis
    have t': "t' \<noteq> []" "last t' \<noteq> CHR 0x0A" "CHR 0x00 \<notin> set t'" "length t' < length t"
      "count_list t' (CHR 0x0A) < n - 1"
    proof -
      show "t' \<noteq> []" using ne by (auto simp: t'_def dropWhile_eq_Nil_conv)
      then show "last t' \<noteq> CHR 0x0A" using \<open>last cs' \<noteq> CHR 0x0A\<close> us by (metis last_append)
      show "CHR 0x00 \<notin> set t'" "length t' < length t" using t(3) by (simp_all add: us cs(1) t(1))
      show "count_list t' (CHR 0x0A) < n - 1"
        using less.prems(4) by (auto simp: t(1) cs(1) us count_list_append split: if_splits)
    qed
    from ne obtain x where x: "x \<in> set cs'" "\<not> x = CHR 0x0A" by blast
    have "dropWhile (\<lambda>c. c = CHR 0x0A) (cs' @ ?zeros) = t' @ ?zeros"
      unfolding t'_def using x by (rule dropWhile_append1)
    then have "Option.bind (skip_line (cs @ ?zeros)) skip_newlines = Some (t' @ ?zeros)"
      using t'(1) by (simp add: cs skip_line_plain skip_newlines_drop split: list.splits)
    moreover have "scan_words n (t' @ ?zeros) = None" "scan_words (n - 1) (t' @ ?zeros) = None"
      using less.hyps [OF t'(4,1,3,2)] t'(5) by auto
    ultimately show ?thesis using t(2) n by (simp add: t(1))
  qed
qed

text \<open>
  C40. A text whose last line has no end makes the function read beyond the buffer that the kernel allocated for
  it, whatever zeros are behind the text, before anything is written to the EEPROM.
\<close>

theorem unterminated_text_overruns:
  assumes "t \<noteq> []" "CHR 0x00 \<notin> set t" "last t \<noteq> CHR 0x0A" "count_list t (CHR 0x0A) < 256"
  shows "run_state (eeprom_sscan b hw (t @ replicate k (CHR 0x00))) h = (None, h)"
  using scan_words_none [OF assms(1-3), of 256 k] assms(4) by (simp add: eeprom_sscan_def EEPROM_MAX_WORDS_def)

lemma unterminated_text_overruns_witness:
  "run_state (eeprom_sscan eeprom9030 (\<lambda>_. 0) (''0x1234'' @ replicate 8186 (CHR 0x00))) [] = (None, [])"
  by (rule unterminated_text_overruns) simp_all

text \<open>
  A chip shows that it is ready with a high level of its output when it is selected again; the function takes
  this for an error, so on a board with a PCI9030 bridge no word is written without it.
\<close>

lemma ready_chip_is_an_error:
  assumes "wired_to eeprom9030 c0 hw" "unselected eeprom9030 c0 c h" "n > 0" "data \<noteq> []"
    and "run_state (eeprom_write eeprom9030 hw data n) h = (r, h')"
  shows "r = - ETIME"
proof -
  let ?b = eeprom9030
  have late: "- ETIME \<noteq> 0" by (simp add: ETIME_def)
  have poll: "wp (eeprom_poll ?b hw r) (\<lambda>r' _. r' = - ETIME) h" if "unselected ?b c0 c h" for c r h
  proof -
    let ?h = "Wr (at_rest ?b OR EECS ?b) # h"
    have "selected ?b c0 c False [] ?h"
      using microwire9030.wp_cmd_start [OF that] by (simp add: eeprom_cmd_start_def)
    then have "level (chip_of ?b c0 ?h)"
      unfolding selected_def level_def Let_def opcode_def by (simp del: chip_of.simps)
    moreover have "pins ?h AND input_enable ?b = input_enable ?b" by (simp add: input_enable_def eeprom9030_def)
    ultimately have "hw ?h AND EEDO ?b \<noteq> 0"
      using assms(1) unfolding wired_to_def by blast
    then show ?thesis
      using late by (simp add: eeprom_poll_def eeprom_cmd_start_def eeprom_wait_def eeprom_cmd_stop_def)
  qed
  have keep: "wp (eeprom_poll ?b hw (- ETIME)) (\<lambda>r' _. r' = - ETIME) h" for h
    by (simp add: eeprom_poll_def eeprom_cmd_start_def eeprom_wait_def eeprom_cmd_stop_def)
  have any: "wp m (\<lambda>_ _. True) h" for m :: "'x reg" and h by (simp add: wp_def split: prod.split)
  have word: "wp (write_word ?b hw a w r) (\<lambda>r' _. r' = - ETIME) h" if "r = - ETIME \<or> unselected ?b c0 c h \<and> enabled c \<and> a < 256"
    for a w r c h
  proof -
    have first: "wp (eeprom_command ?b (0x700 OR of_nat a)) (\<lambda>_. wp (eeprom_poll ?b hw r) (\<lambda>r' _. r' = - ETIME)) h"
      using that
    proof
      assume "r = - ETIME"
      show ?thesis unfolding \<open>r = - ETIME\<close> by (rule wp_mono [OF any]) (rule keep)
    next
      assume u: "unselected ?b c0 c h \<and> enabled c \<and> a < 256"
      then have "received_bits c = []" by (simp add: unselected_def)
      with u have "execute (c\<lparr>received_bits := msb_bits_of 11 (0x700 OR of_nat a)\<rparr>) = c\<lparr>cells := (cells c)(of_nat a := - 1)\<rparr>"
        using execute_commands(3) by blast
      from microwire9030.wp_clocked_command [OF conjunct1 [OF u] this, where r = r]
      show ?thesis by (rule wp_mono) (blast intro: poll)
    qed
    then show ?thesis
      unfolding write_word_def wp_bind
      by (rule wp_mono) (auto intro!: wp_mono [OF any] keep elim!: wp_mono)
  qed
  have words: "wp (write_words ?b hw a ws (- ETIME)) (\<lambda>r' _. r' = - ETIME) h" for a ws h
    by (induction ws arbitrary: a h) (auto intro!: wp_mono [OF word])
  have c: "received_bits c = []" using assms(2) by (simp add: unselected_def)
  obtain w ws where ws: "take (min n EEPROM_MAX_WORDS) data = w # ws"
    using assms(3,4) by (cases "take (min n EEPROM_MAX_WORDS) data") (auto simp: EEPROM_MAX_WORDS_def)
  have end_: "wp (write_words ?b hw (Suc 0) ws r) (\<lambda>r'. wp (eeprom_command ?b 0x400)
      (\<lambda>_. wp (State_Monad.return r') (\<lambda>r _. r = - ETIME))) s" if "r = - ETIME" for r s
    unfolding that by (rule wp_mono [OF words], rule wp_mono [OF any]) simp
  have "wp (eeprom_write ?b hw data n) (\<lambda>r _. r = - ETIME) h"
    unfolding eeprom_write_def Let_def ws write_words.simps wp_bind
    by (rule wp_mono [OF microwire9030.wp_clocked_command [OF assms(2) execute_commands(1) [OF c], where r = 0]], elim conjE,
        rule wp_mono [OF word [of _ "c\<lparr>enabled := True\<rparr>"]], simp, rule end_)
  from wp_run [OF assms(5) this] show ?thesis .
qed

end
