(* ===== verification/FdSelector.thy ===== *)
theory FdSelector
  imports MrfPrelude
begin

text \<open>
  A select operation that other threads can end (\<^verbatim>\<open>mrfApp/mrfCommonSrc/MrfFdSelector.{h,cpp}\<close>): a pipe whose
  read end is one of the descriptors that are waited for. What the functions of the operating system return is an
  argument; the pipe holds at most \<open>capacity\<close> bytes.
\<close>

section \<open>The descriptors of the pipe\<close>

record MrfFdSelector =
  readFd :: int
  writeFd :: int

datatype fd_call = ClosedFd int

datatype selector_exn = PipeFailed int | NonBlockingFailed int | SelectFailed int | WriteFailed int

text \<open>
  The constructor: \<open>pipe\<close> gives the error or the two descriptors, \<open>nonblocking\<close> the error of putting one of them
  into the non-blocking mode. The calls are the descriptors that are closed.
\<close>

definition new_MrfFdSelector ::
    "int + int \<times> int \<Rightarrow> (int \<Rightarrow> int option) \<Rightarrow> fd_call list \<times> (selector_exn + MrfFdSelector)" where
  "new_MrfFdSelector pipe nonblocking = (case pipe of
     Inl e \<Rightarrow> ([], Inl (PipeFailed e))
   | Inr (r, w) \<Rightarrow>
       (case (case nonblocking r of Some e \<Rightarrow> Some e | None \<Rightarrow> nonblocking w) of
         Some savedErrorNumber \<Rightarrow> ([ClosedFd r, ClosedFd w], Inl (NonBlockingFailed savedErrorNumber))
       | None \<Rightarrow> ([], Inr \<lparr>readFd = r, writeFd = w\<rparr>)))"

definition delete_MrfFdSelector :: "MrfFdSelector \<Rightarrow> fd_call list \<times> MrfFdSelector" where
  "delete_MrfFdSelector s =
     ((if readFd s \<noteq> - 1 then [ClosedFd (readFd s)] else []) @ (if writeFd s \<noteq> - 1 then [ClosedFd (writeFd s)] else []),
      \<lparr>readFd = - 1, writeFd = - 1\<rparr>)"

section \<open>Waiting\<close>

text \<open>The set of descriptors and the number that \<^verbatim>\<open>::select\<close> is called with.\<close>

definition select_arguments :: "MrfFdSelector \<Rightarrow> int set option \<Rightarrow> int \<Rightarrow> int set \<times> int" where
  "select_arguments s readFds maxFd =
     (insert (readFd s) (case readFds of None \<Rightarrow> {} | Some fds \<Rightarrow> fds),
      (if readFd s > maxFd then readFd s else maxFd) + 1)"

text \<open>
  Where the thread that waits is: outside of the function, in \<^verbatim>\<open>::select\<close> with a set of descriptors, or taking
  the bytes out of the pipe with the descriptors that are ready.
\<close>

datatype waiting = Outside | InSelect "int set" int | Emptying "int set"

text \<open>
  The bytes in the pipe and the thread; as ghost state whether there was a call of \<open>wakeUp\<close> that no return has
  followed yet, and what the last call returned.
\<close>

record selector_state =
  pipe_bytes :: nat
  thread :: waiting
  due :: bool
  returned :: "(selector_exn + int set) option"

definition EAGAIN :: int where "EAGAIN = 11"
definition EWOULDBLOCK :: int where "EWOULDBLOCK = 11"

text \<open>The result of \<^verbatim>\<open>::write\<close>: \<open>None\<close> for the byte that was written, or the error.\<close>

definition wakeUp :: "int option \<Rightarrow> selector_state \<Rightarrow> (selector_exn option) \<times> selector_state" where
  "wakeUp result s = (case result of
     None \<Rightarrow> (None, s\<lparr>pipe_bytes := pipe_bytes s + 1, due := True\<rparr>)
   | Some e \<Rightarrow>
       if e = EAGAIN \<or> e = EWOULDBLOCK then (None, s\<lparr>due := True\<rparr>)
       else (Some (WriteFailed e), s))"

definition select_call :: "MrfFdSelector \<Rightarrow> int set option \<Rightarrow> int \<Rightarrow> selector_state \<Rightarrow> selector_state" where
  "select_call f readFds maxFd s =
     (case select_arguments f readFds maxFd of (fds, n) \<Rightarrow> s\<lparr>thread := InSelect fds n\<rparr>)"

definition select_failed :: "int \<Rightarrow> selector_state \<Rightarrow> selector_state" where
  "select_failed e s = s\<lparr>thread := Outside, due := False, returned := Some (Inl (SelectFailed e))\<rparr>"

text \<open>After \<^verbatim>\<open>::select\<close> has returned, with the descriptors that are ready.\<close>

definition select_returned :: "MrfFdSelector \<Rightarrow> int set \<Rightarrow> selector_state \<Rightarrow> selector_state" where
  "select_returned f ready s =
     (if readFd f \<in> ready then s\<lparr>thread := Emptying ready\<rparr>
      else s\<lparr>thread := Outside, due := False, returned := Some (Inr ready)\<rparr>)"

text \<open>A call of \<^verbatim>\<open>::read\<close> for one byte, which ends the loop if there is none.\<close>

definition read_byte :: "MrfFdSelector \<Rightarrow> int set \<Rightarrow> selector_state \<Rightarrow> selector_state" where
  "read_byte f ready s =
     (if pipe_bytes s > 0 then s\<lparr>pipe_bytes := pipe_bytes s - 1\<rparr>
      else s\<lparr>thread := Outside, due := False, returned := Some (Inr (ready - {readFd f}))\<rparr>)"

section \<open>All interleavings\<close>

text \<open>
  Other threads call \<open>wakeUp\<close> at any time. A write fails with \<^verbatim>\<open>EAGAIN\<close> only if the pipe is full, and the read end
  of the pipe is ready exactly if there is a byte in it; \<^verbatim>\<open>::select\<close> may return at any time, since there are other
  descriptors and a time-out.
\<close>

inductive selector_step :: "MrfFdSelector \<Rightarrow> nat \<Rightarrow> selector_state \<Rightarrow> selector_state \<Rightarrow> bool"
  for f :: MrfFdSelector and capacity :: nat where
  Wake: "pipe_bytes s < capacity \<Longrightarrow> wakeUp None s = (r, s') \<Longrightarrow> selector_step f capacity s s'"
| WakeFails: "e = EAGAIN \<or> e = EWOULDBLOCK \<longrightarrow> pipe_bytes s = capacity \<Longrightarrow> wakeUp (Some e) s = (r, s')
    \<Longrightarrow> selector_step f capacity s s'"
| Call: "thread s = Outside \<Longrightarrow> selector_step f capacity s (select_call f readFds maxFd s)"
| Fail: "thread s = InSelect fds n \<Longrightarrow> selector_step f capacity s (select_failed e s)"
| Return: "thread s = InSelect fds n \<Longrightarrow> ready \<subseteq> {fd \<in> fds. fd < n} \<Longrightarrow> readFd f \<in> {fd \<in> fds. fd < n} \<longrightarrow> (readFd f \<in> ready \<longleftrightarrow> pipe_bytes s > 0)
    \<Longrightarrow> selector_step f capacity s (select_returned f ready s)"
| Read: "thread s = Emptying ready \<Longrightarrow> selector_step f capacity s (read_byte f ready s)"

definition selector_start :: selector_state where
  "selector_start = \<lparr>pipe_bytes = 0, thread = Outside, due = False, returned = None\<rparr>"

inductive selector_reachable :: "MrfFdSelector \<Rightarrow> nat \<Rightarrow> selector_state \<Rightarrow> bool"
  for f :: MrfFdSelector and capacity :: nat where
  Start: "selector_reachable f capacity selector_start"
| Step: "selector_reachable f capacity s \<Longrightarrow> selector_step f capacity s s' \<Longrightarrow> selector_reachable f capacity s'"

text \<open>
  A call of \<open>wakeUp\<close> that no return has followed leaves a byte in the pipe, or the thread is about to return;
  the thread waits for the pipe whenever it waits, and never reports it.
\<close>

definition selector_inv :: "MrfFdSelector \<Rightarrow> nat \<Rightarrow> selector_state \<Rightarrow> bool" where
  "selector_inv f capacity s \<longleftrightarrow> pipe_bytes s \<le> capacity
     \<and> (due s \<longrightarrow> pipe_bytes s > 0 \<or> (\<exists>ready. thread s = Emptying ready))
     \<and> (\<forall>fds n. thread s = InSelect fds n \<longrightarrow> readFd f \<in> fds \<and> readFd f < n)
     \<and> (\<forall>fds. returned s = Some (Inr fds) \<longrightarrow> readFd f \<notin> fds)"

lemma selector_inv_step:
  assumes "selector_step f capacity s s'" "selector_inv f capacity s" "0 < capacity"
  shows "selector_inv f capacity s'"
  using assms(1)
proof cases
  case (Wake r)
  then show ?thesis using assms(2) by (auto simp: selector_inv_def wakeUp_def)
next
  case (WakeFails e r)
  then show ?thesis using assms(2,3) by (auto simp: selector_inv_def wakeUp_def split: if_split_asm)
next
  case (Call readFds maxFd)
  then show ?thesis using assms(2) by (auto simp: selector_inv_def select_call_def select_arguments_def)
next
  case (Fail fds n e)
  then show ?thesis using assms(2) by (auto simp: selector_inv_def select_failed_def)
next
  case (Return fds n ready)
  then show ?thesis using assms(2) by (auto simp: selector_inv_def select_returned_def)
next
  case (Read ready)
  then show ?thesis using assms(2) by (auto simp: selector_inv_def read_byte_def)
qed

lemma selector_inv_reachable:
  assumes "selector_reachable f capacity s" "0 < capacity"
  shows "selector_inv f capacity s"
  using assms(1)
proof induction
  case Start
  then show ?case by (simp add: selector_inv_def selector_start_def)
next
  case (Step s s')
  then show ?case using selector_inv_step [OF Step.hyps(2)] assms(2) by simp
qed

text \<open>
  C27. No call of \<open>wakeUp\<close> is lost: as long as no return of the select operation has followed it, \<^verbatim>\<open>::select\<close> finds the
  pipe ready among the descriptors it is called with, so that it cannot block; and the descriptor of the
  pipe is never among those that the caller sees.
\<close>

theorem wake_ups_not_lost:
  assumes "selector_reachable f capacity s" "0 < capacity"
  shows "(due s \<and> thread s = InSelect fds n \<longrightarrow> pipe_bytes s > 0 \<and> readFd f \<in> fds \<and> readFd f < n)
    \<and> (due s \<and> thread s = Outside \<longrightarrow> pipe_bytes s > 0)
    \<and> (returned s = Some (Inr ready) \<longrightarrow> readFd f \<notin> ready) \<and> pipe_bytes s \<le> capacity"
  using selector_inv_reachable [OF assms] by (auto simp: selector_inv_def)

definition demo_selector :: MrfFdSelector where
  "demo_selector = \<lparr>readFd = 5, writeFd = 6\<rparr>"

text \<open>The thread waits for a socket with the descriptor 4 when another one wakes it up.\<close>

lemma wake_ups_not_lost_witness:
  "let s = snd (wakeUp None (select_call demo_selector (Some {4}) 4 selector_start))
   in thread s = InSelect {4, 5} 6 \<and> due s \<and> pipe_bytes s > 0"
proof -
  let ?s = "select_call demo_selector (Some {4}) 4 selector_start"
  have call: "selector_reachable demo_selector 1 ?s"
    by (rule selector_reachable.Step [OF selector_reachable.Start], rule selector_step.Call) (simp add: selector_start_def)
  have s: "thread ?s = InSelect {4, 5} 6" "pipe_bytes ?s = 0"
    by (auto simp: select_call_def select_arguments_def demo_selector_def selector_start_def)
  have "selector_reachable demo_selector 1 (snd (wakeUp None ?s))"
    by (rule selector_reachable.Step [OF call], rule selector_step.Wake [of _ _ "fst (wakeUp None ?s)"]) (simp_all add: s)
  from wake_ups_not_lost [OF this, of "{4, 5}" 6] s show ?thesis by (simp add: wakeUp_def)
qed

text \<open>A constructor that fails leaves no descriptor open, and the destructor closes both.\<close>

lemma selector_descriptors:
  "new_MrfFdSelector (Inr (r, w)) nonblocking = (calls, Inl e) \<Longrightarrow> calls = [ClosedFd r, ClosedFd w]"
  "new_MrfFdSelector (Inr (r, w)) nonblocking = (calls, Inr s) \<Longrightarrow> r \<noteq> - 1 \<Longrightarrow> w \<noteq> - 1 \<Longrightarrow>
     calls = [] \<and> fst (delete_MrfFdSelector s) = [ClosedFd r, ClosedFd w]"
  by (auto simp: new_MrfFdSelector_def delete_MrfFdSelector_def split: option.split_asm)

end
