(* ===== verification/ErrorText.thy ===== *)
theory ErrorText
  imports CText
begin

text \<open>
  Printing the messages about errors (\<^verbatim>\<open>mrfApp/mrfEpicsSrc/mrfEpicsError.cpp\<close>): a message is printed twice, the
  first time to find out how long it is, the second time into a buffer of this length. What \<^verbatim>\<open>snprintf\<close> makes of
  the format and its arguments is an argument, \<open>None\<close> if it fails.
\<close>

section \<open>The buffer\<close>

text \<open>\<open>BeyondBuffer\<close> is an access outside of the buffer, or to a buffer that is null.\<close>

datatype print_error = PrintFailed | BeyondBuffer

text \<open>The characters printed so far, and the buffer, which is \<open>None\<close> if the pointer is null.\<close>

type_synonym message_state = "nat \<times> string option"

definition bufferRemaining :: "nat \<Rightarrow> nat \<Rightarrow> nat" where
  "bufferRemaining bufferSize offset =
     (if bufferSize \<noteq> 0 \<and> bufferSize > offset then bufferSize - offset else 0)"

text \<open>
  A call of \<^verbatim>\<open>snprintf\<close> behind what has been printed: it returns the length of the text, or a negative number if
  that is no \<^verbatim>\<open>int\<close>, and stores as many characters as fit with a zero behind them; for the size 0 it stores
  nothing.
\<close>

definition append_text :: "nat \<Rightarrow> string option \<Rightarrow> message_state \<Rightarrow> print_error + message_state" where
  "append_text bufferSize out = (\<lambda>(offset, buf). (case out of
     None \<Rightarrow> Inl PrintFailed
   | Some cs \<Rightarrow>
       if int (length cs) > INT_MAX then Inl PrintFailed
       else let n = bufferRemaining bufferSize offset
         in if n = 0 then Inr (offset + length cs, buf)
         else let new = take (n - 1) cs @ [CHR 0x00]
           in (case buf of
               None \<Rightarrow> Inl BeyondBuffer
             | Some b \<Rightarrow>
                 if offset + length new \<le> length b then Inr (offset + length cs, Some (put_at offset new b))
                 else Inl BeyondBuffer)))"

fun append_texts :: "nat \<Rightarrow> string option list \<Rightarrow> message_state \<Rightarrow> print_error + message_state" where
  "append_texts bufferSize [] st = Inr st"
| "append_texts bufferSize (out # outs) st = (case append_text bufferSize out st of
     Inl e \<Rightarrow> Inl e
   | Inr st' \<Rightarrow> append_texts bufferSize outs st')"

section \<open>Messages\<close>

definition ESC :: string where "ESC = [CHR 0x1B]"

definition bold_red :: string where "bold_red = ESC @ ''[1;31m''"

definition reset_format :: string where "reset_format = ESC @ ''[0m''"

text \<open>The parts of a message in their order.\<close>

definition message_parts :: "string option \<Rightarrow> string option \<Rightarrow> string option \<Rightarrow> bool \<Rightarrow> string option list" where
  "message_parts text timeString threadString useAnsiEscapes =
     (if useAnsiEscapes then [Some bold_red] else [])
     @ (case timeString of None \<Rightarrow> [] | Some s \<Rightarrow> [Some (s @ '' '')])
     @ (case threadString of None \<Rightarrow> [] | Some s \<Rightarrow> [Some (s @ '' '')])
     @ [text]
     @ (if useAnsiEscapes then [Some reset_format] else [])
     @ [Some LF]"

text \<open>The function; the length in the result is what it stores to \<^verbatim>\<open>bytesWritten\<close>.\<close>

definition prepareErrorMessage ::
    "string option \<Rightarrow> nat \<Rightarrow> string option \<Rightarrow> string option \<Rightarrow> string option \<Rightarrow> bool \<Rightarrow> print_error + message_state" where
  "prepareErrorMessage buffer bufferSize text timeString threadString useAnsiEscapes =
     append_texts bufferSize (message_parts text timeString threadString useAnsiEscapes) (0, buffer)"

text \<open>The calls that print a text, to the log with or without the console, or to the standard error stream.\<close>

datatype log_call = ErrlogPrintf string | PrintStderr string | ErrlogNoConsole string

text \<open>Passing a buffer as a string: it ends at the first zero, and there must be one.\<close>

definition string_of :: "string \<Rightarrow> string option" where
  "string_of buf = (if CHR 0x00 \<in> set buf then Some (text_in buf) else None)"

text \<open>
  What is done with the buffer that has been allocated, where \<open>prepare\<close> prints the message into it, with escape
  sequences or without: for recent versions of EPICS, and for older ones, where escape sequences are only used if
  the standard error stream is a terminal. \<open>None\<close> is an access outside of a buffer.
\<close>

definition print_recent :: "(bool \<Rightarrow> string \<Rightarrow> print_error + message_state) \<Rightarrow> string \<Rightarrow> log_call list option" where
  "print_recent prepare buffer = (case prepare True buffer of
     Inr (_, Some b) \<Rightarrow> map_option (\<lambda>s. [ErrlogPrintf s]) (string_of b)
   | Inl PrintFailed \<Rightarrow> Some [ErrlogPrintf (''Error: Could not prepare error message.'' @ LF)]
   | _ \<Rightarrow> None)"

definition print_no_console :: "string \<Rightarrow> log_call list option" where
  "print_no_console b = map_option (\<lambda>s. [ErrlogNoConsole s]) (string_of b)"

definition print_old :: "bool \<Rightarrow> (bool \<Rightarrow> string \<Rightarrow> print_error + message_state) \<Rightarrow> string \<Rightarrow> log_call list option" where
  "print_old useAnsiSequences prepare buffer =
     (case prepare useAnsiSequences buffer of
       Inr (_, Some b) \<Rightarrow> (case string_of b of
           None \<Rightarrow> None
         | Some s \<Rightarrow> map_option (\<lambda>calls. PrintStderr s # calls)
             (if \<not> useAnsiSequences then print_no_console b
              else (case prepare False b of
                  Inr (_, Some b') \<Rightarrow> print_no_console b'
                | Inl PrintFailed \<Rightarrow> Some []
                | _ \<Rightarrow> None)))
     | Inl PrintFailed \<Rightarrow> Some [ErrlogPrintf (''Error: Could not prepare error message.'' @ LF)]
     | _ \<Rightarrow> None)"

text \<open>
  The allocation gives a buffer with any contents, or null; \<open>recent\<close> is whether the version of EPICS is at least
  7.0.7, \<open>tty\<close> whether the standard error stream is a terminal.
\<close>

definition errorPrintInternal ::
    "bool \<Rightarrow> bool \<Rightarrow> (nat \<Rightarrow> string option) \<Rightarrow> string option \<Rightarrow> string option \<Rightarrow> string option \<Rightarrow> log_call list option" where
  "errorPrintInternal recent tty alloc text timeString threadString =
     (case prepareErrorMessage None 0 text timeString threadString True of
       Inl PrintFailed \<Rightarrow> Some [ErrlogPrintf (''Error: Could not determine buffer size for error message.'' @ LF)]
     | Inl BeyondBuffer \<Rightarrow> None
     | Inr (bytesWritten, _) \<Rightarrow>
         let bufferSize = bytesWritten + 1;
             prepare = (\<lambda>useAnsi b. prepareErrorMessage (Some b) bufferSize text timeString threadString useAnsi)
         in (case alloc bufferSize of
             None \<Rightarrow> Some [ErrlogPrintf (''Error: Could not allocate buffer for error message.'' @ LF)]
           | Some buffer \<Rightarrow> if recent then print_recent prepare buffer else print_old tty prepare buffer))"

definition errorPrintf :: "bool \<Rightarrow> bool \<Rightarrow> (nat \<Rightarrow> string option) \<Rightarrow> string option \<Rightarrow> log_call list option" where
  "errorPrintf recent tty alloc text = errorPrintInternal recent tty alloc text None None"

text \<open>The time as a string, \<open>None\<close> if it cannot be printed, and the name of the thread.\<close>

definition errorExtendedPrintf ::
    "string option \<Rightarrow> string \<Rightarrow> bool \<Rightarrow> bool \<Rightarrow> (nat \<Rightarrow> string option) \<Rightarrow> string option \<Rightarrow> log_call list option" where
  "errorExtendedPrintf now thread recent tty alloc text = errorPrintInternal recent tty alloc text now (Some thread)"


section \<open>The message is complete\<close>

definition printable :: "string option \<Rightarrow> bool" where
  "printable out \<longleftrightarrow> (\<exists>cs. out = Some cs \<and> int (length cs) \<le> INT_MAX)"

text \<open>Finding out the length.\<close>

lemma append_texts_measure:
  "append_texts 0 outs (n, None) =
     (if \<forall>out \<in> set outs. printable out then Inr (n + length (concat (map the outs)), None) else Inl PrintFailed)"
proof (induction outs arbitrary: n)
  case (Cons out outs)
  then show ?case
    by (cases out) (auto simp: append_text_def printable_def bufferRemaining_def Let_def)
qed simp

text \<open>Printing into a buffer that is large enough.\<close>

lemma append_text_fits:
  assumes "printable (Some cs)" "length out + length cs < n" "n = length out + length rest"
  shows "append_text n (Some cs) (length out, Some (out @ rest))
    = Inr (length (out @ cs), Some (out @ cs @ CHR 0x00 # drop (length cs + 1) rest))"
  using assms by (cases rest) (simp_all add: append_text_def printable_def bufferRemaining_def Let_def put_at_def)

lemma append_texts_fit:
  "outs \<noteq> [] \<Longrightarrow> \<forall>p \<in> set outs. printable p \<Longrightarrow> length out + length (concat (map the outs)) < n \<Longrightarrow> n = length out + length rest \<Longrightarrow>
    append_texts n outs (length out, Some (out @ rest))
    = Inr (length (out @ concat (map the outs)),
        Some (out @ concat (map the outs) @ CHR 0x00 # drop (length (concat (map the outs)) + 1) rest))"
proof (induction outs arbitrary: out rest)
  case (Cons p outs)
  from Cons.prems obtain cs where p: "p = Some cs" "printable (Some cs)" by (auto simp: printable_def)
  let ?rest = "CHR 0x00 # drop (length cs + 1) rest"
  have one: "append_text n (Some cs) (length out, Some (out @ rest)) = Inr (length (out @ cs), Some ((out @ cs) @ ?rest))"
    using append_text_fits [OF p(2), of out n rest] Cons.prems p(1) by simp
  show ?case
  proof (cases "outs = []")
    case True
    then show ?thesis using one by (simp add: p(1))
  next
    case False
    have "append_texts n outs (length (out @ cs), Some ((out @ cs) @ ?rest))
      = Inr (length ((out @ cs) @ concat (map the outs)), Some ((out @ cs) @ concat (map the outs)
          @ CHR 0x00 # drop (length (concat (map the outs)) + 1) ?rest))"
      using Cons.prems p(1) by (intro Cons.IH [OF False]) auto
    then show ?thesis using one by (simp add: p(1) add.commute add.left_commute)
  qed
qed simp

definition message :: "string option \<Rightarrow> string option \<Rightarrow> string option \<Rightarrow> bool \<Rightarrow> string" where
  "message text timeString threadString useAnsi = concat (map the (message_parts text timeString threadString useAnsi))"

lemma message_parts_facts:
  "message_parts text time thread ansi \<noteq> []"
  "set (message_parts text time thread False) \<subseteq> set (message_parts text time thread True)"
  "length (message text time thread ansi) \<le> length (message text time thread True)"
  by (cases ansi; simp add: message_parts_def message_def split: option.split; fail | auto simp: message_parts_def split: option.split)+


lemma string_of_message: "CHR 0x00 \<notin> set out \<Longrightarrow> string_of (out @ CHR 0x00 # rest) = Some out"
  by (simp add: string_of_def text_in_append)

lemma message_without_zero:
  assumes "\<forall>s \<in> set_option text \<union> set_option time \<union> set_option thread. CHR 0x00 \<notin> set s" "text \<noteq> None"
  shows "CHR 0x00 \<notin> set (message text time thread ansi)"
  using assms
  by (auto simp: message_def message_parts_def bold_red_def reset_format_def ESC_def LF_def split: option.splits)

text \<open>Preparing a message in a buffer of the size that was found out, with any contents.\<close>

lemma prepared:
  assumes "\<forall>p \<in> set (message_parts text time thread True). printable p"
    and "length b = length (message text time thread True) + 1"
  shows "\<exists>rest. prepareErrorMessage (Some b) (length (message text time thread True) + 1) text time thread ansi
    = Inr (length (message text time thread ansi), Some (message text time thread ansi @ CHR 0x00 # rest))
    \<and> length (message text time thread ansi @ CHR 0x00 # rest) = length (message text time thread True) + 1"
proof -
  let ?n = "length (message text time thread True) + 1"
  have parts: "\<forall>p \<in> set (message_parts text time thread ansi). printable p"
    using assms(1) message_parts_facts(2) [of "text" time thread] by (cases ansi) auto
  have "append_texts ?n (message_parts text time thread ansi) (length [], Some ([] @ b))
    = Inr (length ([] @ message text time thread ansi), Some ([] @ message text time thread ansi
        @ CHR 0x00 # drop (length (message text time thread ansi) + 1) b))"
    using append_texts_fit [OF message_parts_facts(1) parts, of "[]" ?n b] assms(2)
      message_parts_facts(3) [of "text" time thread ansi]
    by (simp add: message_def)
  then show ?thesis
    using assms(2) message_parts_facts(3) [of "text" time thread ansi]
    by (intro exI [of _ "drop (length (message text time thread ansi) + 1) b"]) (simp add: prepareErrorMessage_def)
qed

text \<open>
  C28. Messages about errors are printed as a whole and without an access outside of the buffer: its size, found
  out by printing the message once without a buffer, is the one that the message with escape sequences and the
  zero behind it need, whatever the texts are and whatever the buffer held before.
\<close>

theorem error_messages_complete:
  assumes "\<And>n b. alloc n = Some b \<Longrightarrow> length b = n"
    and "\<forall>s \<in> set_option text \<union> set_option time \<union> set_option thread. CHR 0x00 \<notin> set s"
  shows "errorPrintInternal recent tty alloc text time thread = Some (
    if \<not> (\<forall>p \<in> set (message_parts text time thread True). printable p)
    then [ErrlogPrintf (''Error: Could not determine buffer size for error message.'' @ LF)]
    else if alloc (length (message text time thread True) + 1) = None
    then [ErrlogPrintf (''Error: Could not allocate buffer for error message.'' @ LF)]
    else if recent then [ErrlogPrintf (message text time thread True)]
    else [PrintStderr (message text time thread tty), ErrlogNoConsole (message text time thread False)])"
proof (cases "\<forall>p \<in> set (message_parts text time thread True). printable p")
  case False
  then have "prepareErrorMessage None 0 text time thread True = Inl PrintFailed"
    unfolding prepareErrorMessage_def append_texts_measure by (rule if_not_P)
  with False show ?thesis by (simp add: errorPrintInternal_def)
next
  case True
  let ?n = "length (message text time thread True) + 1"
  have given: "text \<noteq> None" using True by (auto simp: message_parts_def printable_def)
  have measured: "prepareErrorMessage None 0 text time thread True = Inr (length (message text time thread True), None)"
    using True by (simp add: prepareErrorMessage_def append_texts_measure message_def)
  show ?thesis
  proof (cases "alloc ?n")
    case None
    then show ?thesis using True by (simp add: errorPrintInternal_def measured)
  next
    case (Some b)
    note zero = message_without_zero [OF assms(2) given]
    obtain rest where first: "\<And>ansi. prepareErrorMessage (Some b) ?n text time thread ansi
        = Inr (length (message text time thread ansi), Some (message text time thread ansi @ CHR 0x00 # rest ansi))"
      "\<And>ansi. length (message text time thread ansi @ CHR 0x00 # rest ansi) = ?n"
      using prepared [OF True assms(1) [OF Some]] by metis
    obtain r where again: "prepareErrorMessage (Some (message text time thread True @ CHR 0x00 # rest True)) ?n text time thread False
        = Inr (length (message text time thread False), Some (message text time thread False @ CHR 0x00 # r))"
      using prepared [OF True first(2) [of True], of False] by blast
    show ?thesis
      using True Some zero first(1) again
      by (cases tty) (simp_all add: errorPrintInternal_def measured print_recent_def print_old_def print_no_console_def
          string_of_message)
  qed
qed

lemma error_messages_complete_witness:
  "errorPrintInternal False True (\<lambda>n. Some (replicate n CHR ''x'')) (Some ''No device.'') None (Some ''main'')
     = Some [PrintStderr (ESC @ ''[1;31mmain No device.'' @ ESC @ ''[0m'' @ LF), ErrlogNoConsole (''main No device.'' @ LF)]"
proof -
  have ok: "\<forall>p \<in> set (message_parts (Some ''No device.'') None (Some ''main'') True). printable p"
    by (simp add: message_parts_def printable_def INT_MAX_def bold_red_def reset_format_def ESC_def LF_def)
  have m: "message (Some ''No device.'') None (Some ''main'') True = ESC @ ''[1;31mmain No device.'' @ ESC @ ''[0m'' @ LF"
    "message (Some ''No device.'') None (Some ''main'') False = ''main No device.'' @ LF"
    by (simp_all add: message_def message_parts_def bold_red_def reset_format_def)
  show ?thesis
    by (subst error_messages_complete) (use ok m in simp_all)
qed

end
