(* ===== verification/IocShell.thy ===== *)
theory IocShell
  imports RecordProcessing MmapAccess CText
begin

text \<open>
  The commands of the IOC shell that read and write registers, print the cache and map interrupts to events
  (\<^verbatim>\<open>mrfApp/mrfEpicsSrc/mrfIocsh*.cpp\<close>). An argument is a string, \<open>None\<close> for a null pointer, or an \<^verbatim>\<open>int\<close> of
  32 bits. Each command returns its status and what it prints.
\<close>

section \<open>Printing\<close>

text \<open>\<open>StdOut\<close> is \<^verbatim>\<open>epicsStdoutPrintf\<close>, \<open>ErrOut\<close> is \<^verbatim>\<open>errorPrintf\<close>.\<close>

datatype shell_output = StdOut string | ErrOut string

type_synonym shell_result = "int \<times> shell_output list"

definition hex_word4 :: "u16 \<Rightarrow> string" where
  "hex_word4 w = ''0x'' @ map (\<lambda>i. hex_char (unat (take_bit 4 (drop_bit (4 * i) w)))) [3, 2, 1, 0]"

definition hex_word8 :: "u32 \<Rightarrow> string" where
  "hex_word8 w = ''0x'' @ map (\<lambda>i. hex_char (unat (take_bit 4 (drop_bit (4 * i) w)))) [7, 6, 5, 4, 3, 2, 1, 0]"

fun decimal :: "nat \<Rightarrow> string" where
  "decimal n = (if n < 10 then [hex_char n] else decimal (n div 10) @ [hex_char (n mod 10)])"

declare decimal.simps [simp del]

text \<open>The checks of the identifier that all commands begin with, and the look-up.\<close>

definition with_id :: "string option \<Rightarrow> string \<Rightarrow> (string \<Rightarrow> shell_result) \<Rightarrow> shell_result" where
  "with_id deviceId prefix k = (case deviceId of
     None \<Rightarrow> (1, [ErrOut (prefix @ ''Device ID must be specified.'')])
   | Some i \<Rightarrow> if i = [] then (1, [ErrOut (prefix @ ''Device ID must not be empty.'')]) else k i)"

definition with_device :: "MrfDeviceRegistry \<Rightarrow> string option \<Rightarrow> (nat \<Rightarrow> shell_result) \<Rightarrow> shell_result" where
  "with_device g deviceId k = with_id deviceId '''' (\<lambda>i. case getDevice i g of
     None \<Rightarrow> (1, [ErrOut (''Could not find device with ID '' @ [CHR 0x22] @ i @ [CHR 0x22] @ ''.'')])
   | Some d \<Rightarrow> k d)"

text \<open>The line for a register, and the result of an access, with the message of its exception.\<close>

definition register_line16 :: "u32 \<Rightarrow> u16 \<Rightarrow> string" where
  "register_line16 address v =
     hex_word8 address @ '': '' @ hex_word4 v @ '' (decimal value: '' @ decimal (unat v) @ '')'' @ LF"

definition register_line32 :: "u32 \<Rightarrow> u32 \<Rightarrow> string" where
  "register_line32 address v =
     hex_word8 address @ '': '' @ hex_word8 v @ '' (decimal value: '' @ decimal (unat v) @ '')'' @ LF"

definition accessed :: "string \<Rightarrow> ('v \<Rightarrow> string) \<Rightarrow> string + 'v \<Rightarrow> shell_result" where
  "accessed prefix line r = (case r of
     Inl msg \<Rightarrow> (1, [ErrOut (prefix @ msg)])
   | Inr v \<Rightarrow> (0, [StdOut (line v)]))"

section \<open>Reading and writing registers\<close>

text \<open>The result of the blocking access to a device is an argument.\<close>

definition mrfReadUInt16 ::
    "MrfDeviceRegistry \<Rightarrow> (nat \<Rightarrow> u32 \<Rightarrow> string + u16) \<Rightarrow> string option \<Rightarrow> u32 \<Rightarrow> shell_result" where
  "mrfReadUInt16 g readUInt16 deviceId address = with_device g deviceId (\<lambda>d.
     accessed ''Error while reading register: '' (register_line16 address) (readUInt16 d address))"

definition mrfReadUInt32 ::
    "MrfDeviceRegistry \<Rightarrow> (nat \<Rightarrow> u32 \<Rightarrow> string + u32) \<Rightarrow> string option \<Rightarrow> u32 \<Rightarrow> shell_result" where
  "mrfReadUInt32 g readUInt32 deviceId address = with_device g deviceId (\<lambda>d.
     accessed ''Error while reading register: '' (register_line32 address) (readUInt32 d address))"

definition mrfWriteUInt16 ::
    "MrfDeviceRegistry \<Rightarrow> (nat \<Rightarrow> u32 \<Rightarrow> u16 \<Rightarrow> string + u16) \<Rightarrow> string option \<Rightarrow> u32 \<Rightarrow> u32 \<Rightarrow> shell_result" where
  "mrfWriteUInt16 g writeUInt16 deviceId address v = with_device g deviceId (\<lambda>d.
     accessed ''Error while writing register: '' (register_line16 address) (writeUInt16 d address (ucast v)))"

definition mrfWriteUInt32 ::
    "MrfDeviceRegistry \<Rightarrow> (nat \<Rightarrow> u32 \<Rightarrow> u32 \<Rightarrow> string + u32) \<Rightarrow> string option \<Rightarrow> u32 \<Rightarrow> u32 \<Rightarrow> shell_result" where
  "mrfWriteUInt32 g writeUInt32 deviceId address v = with_device g deviceId (\<lambda>d.
     accessed ''Error while writing register: '' (register_line32 address) (writeUInt32 d address v))"

section \<open>Printing the cache\<close>

text \<open>The entries of a map, by their addresses.\<close>

definition entries :: "(u32 \<Rightarrow> 'v option) \<Rightarrow> (u32 \<times> 'v) list" where
  "entries m = map (\<lambda>a. (a, the (m a))) (sorted_list_of_set (dom m))"

definition mrfDumpCache :: "MrfDeviceRegistry \<Rightarrow> string option \<Rightarrow> shell_result" where
  "mrfDumpCache g deviceId = with_id deviceId '''' (\<lambda>i. case getDeviceCache i g of
     None \<Rightarrow> (1, [ErrOut (''Could not find cache for device with ID '' @ [CHR 0x22] @ i @ [CHR 0x22] @ ''.'')])
   | Some c \<Rightarrow> (0, [StdOut (''uint16 registers:'' @ LF @ LF)]
       @ map (\<lambda>(a, v). StdOut (hex_word8 a @ '': '' @ hex_word4 v @ LF)) (entries (getCacheUInt16 c))
       @ [StdOut (LF @ LF @ ''uint32 registers:'' @ LF @ LF)]
       @ map (\<lambda>(a, v). StdOut (hex_word8 a @ '': '' @ hex_word8 v @ LF)) (entries (getCacheUInt32 c))))"

section \<open>Mapping interrupts to events\<close>

text \<open>
  A listener is known by its place in the vector that keeps it alive: its event and its mask. Each device has
  the state of its memory access, where the listeners are registered.
\<close>

type_synonym InterruptListenerImpl = "int \<times> u32"

record shell_state =
  registry :: MrfDeviceRegistry
  shell_listeners :: "InterruptListenerImpl list"
  memory_access :: "nat \<Rightarrow> Mmap"

text \<open>The call of a listener, with the events that it posts.\<close>

definition listener_called :: "InterruptListenerImpl \<Rightarrow> u32 \<Rightarrow> int list" where
  "listener_called = (\<lambda>(eventNumber, interruptFlagsMask) interruptFlags.
     if interruptFlags AND interruptFlagsMask \<noteq> 0 then [eventNumber] else [])"

definition mapInterruptToEvent :: "(nat \<Rightarrow> bool) \<Rightarrow> string \<Rightarrow> int \<Rightarrow> u32 \<Rightarrow> shell_state \<Rightarrow> exn + shell_state" where
  "mapInterruptToEvent supports deviceId eventNumber flagsMask st = (case getDevice deviceId (registry st) of
     None \<Rightarrow> Inl (RuntimeError (''Could not find device '' @ deviceId @ ''.''))
   | Some d \<Rightarrow>
       if \<not> supports d then Inl (RuntimeError (''The device '' @ deviceId @ '' does not support interrupts.''))
       else let l = length (shell_listeners st)
         in Inr (st\<lparr>memory_access := (memory_access st)(d := addInterruptListener (\<lambda>x. x \<le> l) l (memory_access st d)),
              shell_listeners := shell_listeners st @ [(eventNumber, flagsMask)]\<rparr>))"

definition mask_of :: "string option \<Rightarrow> string" where
  "mask_of text = (case text of None \<Rightarrow> ''0xffffffff'' | Some s \<Rightarrow> if s = [] then ''0xffffffff'' else s)"

definition parse_mask :: "string \<Rightarrow> string + u32" where
  "parse_mask s = (case stoul s of
     Inl _ \<Rightarrow> Inl (''Could not create the event mapping: Invalid interrupt flags mask: '' @ s)
   | Inr (v, numberLength) \<Rightarrow>
       if numberLength \<noteq> length s then Inl (''Could not create the event mapping: Invalid interrupt flags mask: '' @ s)
       else if v > 0xffffffff \<or> v = 0 then
         Inl (''Could not create the event mapping: Invalid interrupt flags mask: '' @ s
           @ ''. The event mask must be greater than zero and less than or equal to 0xffffffff.'')
       else Inr (word_of_int v))"

definition mrfMapInterruptToEvent ::
    "(nat \<Rightarrow> bool) \<Rightarrow> string option \<Rightarrow> int \<Rightarrow> string option \<Rightarrow> shell_state \<Rightarrow> shell_result \<times> shell_state" where
  "mrfMapInterruptToEvent supports deviceId eventNumber text st = (case deviceId of
     None \<Rightarrow> ((1, [ErrOut ''Could not create the event mapping: Device ID must be specified.'']), st)
   | Some i \<Rightarrow>
       if i = [] then ((1, [ErrOut ''Could not create the event mapping: Device ID must not be empty.'']), st)
       else if eventNumber < 0 then
         ((1, [ErrOut ''Could not create the event mapping: The event number must not be negative.'']), st)
       else (case parse_mask (mask_of text) of
           Inl msg \<Rightarrow> ((1, [ErrOut msg]), st)
         | Inr flagsMask \<Rightarrow> (case mapInterruptToEvent supports i eventNumber flagsMask st of
             Inl e \<Rightarrow> ((1, [ErrOut (''Could not create the event mapping: '' @ what e)]), st)
           | Inr st' \<Rightarrow> ((0, []), st'))))"

text \<open>
  An interrupt of a device, with its flags: the listeners that exist are called, one after the other, as
  \<^verbatim>\<open>MrfMmapMemoryAccess\<close> does. The result are the events that are posted.
\<close>

definition interrupt_raised :: "nat \<Rightarrow> u32 \<Rightarrow> shell_state \<Rightarrow> int list \<times> shell_state" where
  "interrupt_raised d flags st =
     (let m = memory_access st d;
          found = (if flags \<noteq> 0 then collect_listeners (\<lambda>l. l < length (shell_listeners st)) (interruptListeners m) else []);
          m' = (if flags \<noteq> 0 then m\<lparr>interruptListeners := found\<rparr> else m)
      in (concat (map (\<lambda>l. listener_called (shell_listeners st ! l) flags) found),
          st\<lparr>memory_access := (memory_access st)(d := m')\<rparr>))"

end
