(* ===== verification/IocShell_Props.thy ===== *)
theory IocShell_Props
  imports IocShell RecordAddress_Props
begin

text \<open>
  The mapping of interrupts to events against a list of mappings, and that the numbers which the commands print
  are read as the values they stand for.
\<close>

section \<open>Interrupts and events\<close>

datatype shell_action = MapEvent "string option" int "string option" | Raise nat u32

text \<open>The events that each action posts.\<close>

fun shell_run :: "(nat \<Rightarrow> bool) \<Rightarrow> shell_action list \<Rightarrow> shell_state \<Rightarrow> int list list \<times> shell_state" where
  "shell_run supports [] st = ([], st)"
| "shell_run supports (MapEvent i ev text # as) st =
     (case mrfMapInterruptToEvent supports i ev text st of (_, st') \<Rightarrow>
      case shell_run supports as st' of (posts, st'') \<Rightarrow> ([] # posts, st''))"
| "shell_run supports (Raise d flags # as) st =
     (case interrupt_raised d flags st of (events, st') \<Rightarrow>
      case shell_run supports as st' of (posts, st'') \<Rightarrow> (events # posts, st''))"

text \<open>
  What is specified: a list of mappings, each of them a device, an event and a mask. A command adds one if its
  arguments are acceptable; an interrupt posts the events of its device whose masks have one of its flags.
\<close>

definition acceptable :: "(nat \<Rightarrow> bool) \<Rightarrow> MrfDeviceRegistry \<Rightarrow> string option \<Rightarrow> int \<Rightarrow> string option \<Rightarrow> (nat \<times> int \<times> u32) option" where
  "acceptable supports g deviceId ev text = (case (deviceId, stoul (mask_of text)) of
     (Some i, Inr (v, n)) \<Rightarrow>
       if i \<noteq> [] \<and> 0 \<le> ev \<and> n = length (mask_of text) \<and> 0 < v \<and> v \<le> 0xffffffff
       then (case getDevice i g of Some d \<Rightarrow> if supports d then Some (d, ev, word_of_int v) else None | None \<Rightarrow> None)
       else None
   | _ \<Rightarrow> None)"

fun specified :: "(nat \<Rightarrow> bool) \<Rightarrow> MrfDeviceRegistry \<Rightarrow> shell_action list \<Rightarrow> (nat \<times> int \<times> u32) list \<Rightarrow> int list list" where
  "specified supports g [] maps = []"
| "specified supports g (MapEvent i ev text # as) maps =
     [] # specified supports g as (maps @ (case acceptable supports g i ev text of None \<Rightarrow> [] | Some m \<Rightarrow> [m]))"
| "specified supports g (Raise d flags # as) maps =
     map (\<lambda>(_, ev, _). ev) (filter (\<lambda>(d', _, m). d' = d \<and> flags AND m \<noteq> 0) maps) # specified supports g as maps"

definition listeners_of :: "(nat \<times> int \<times> u32) list \<Rightarrow> nat \<Rightarrow> nat list" where
  "listeners_of maps d = filter (\<lambda>l. fst (maps ! l) = d) [0..<length maps]"

definition simulates :: "(nat \<times> int \<times> u32) list \<Rightarrow> shell_state \<Rightarrow> bool" where
  "simulates maps st \<longleftrightarrow> shell_listeners st = map snd maps
     \<and> (\<forall>d. interruptListeners (memory_access st d) = listeners_of maps d)"

lemma add_scan_new: "\<forall>x \<in> set xs. x < l \<Longrightarrow> add_scan (\<lambda>x. x \<le> l) l xs b = (xs, b)"
  by (induction xs arbitrary: b) auto

lemma collect_all: "\<forall>x \<in> set xs. alive x \<Longrightarrow> collect_listeners alive xs = xs"
  by (induction xs) auto

lemma listeners_of_append:
  "listeners_of (maps @ [m]) d = listeners_of maps d @ (if fst m = d then [length maps] else [])"
proof -
  have "filter (\<lambda>l. fst ((maps @ [m]) ! l) = d) [0..<length maps] = listeners_of maps d"
    unfolding listeners_of_def by (rule filter_cong) (auto simp: nth_append)
  then show ?thesis by (simp add: listeners_of_def)
qed

lemma listeners_of_less: "l \<in> set (listeners_of maps d) \<Longrightarrow> l < length maps"
  by (simp add: listeners_of_def)

lemma map_command:
  assumes "simulates maps st"
  shows "snd (mrfMapInterruptToEvent supports i ev text st) = (case acceptable supports (registry st) i ev text of
      None \<Rightarrow> st | Some m \<Rightarrow> snd (mrfMapInterruptToEvent supports i ev text st))"
    and "acceptable supports (registry st) i ev text = Some m \<Longrightarrow>
      simulates (maps @ [m]) (snd (mrfMapInterruptToEvent supports i ev text st))"
    and "registry (snd (mrfMapInterruptToEvent supports i ev text st)) = registry st"
    and "fst (fst (mrfMapInterruptToEvent supports i ev text st)) = 0 \<longleftrightarrow> acceptable supports (registry st) i ev text \<noteq> None"
proof -
  have added: "addInterruptListener (\<lambda>x. x \<le> length maps) (length maps) (memory_access st d)
      = memory_access st d\<lparr>interruptListeners := listeners_of maps d @ [length maps]\<rparr>" for d
    using assms listeners_of_less [of _ maps d]
    by (simp add: addInterruptListener_def simulates_def add_scan_new)
  have len: "length (shell_listeners st) = length maps" using assms by (simp add: simulates_def)
  have positive: "stoul s = Inr (v, n) \<Longrightarrow> 0 < v \<longleftrightarrow> v \<noteq> 0" for s v n using stoul_bounds [of s v n] by auto
  note defs = mrfMapInterruptToEvent_def mapInterruptToEvent_def acceptable_def parse_mask_def len
  show "snd (mrfMapInterruptToEvent supports i ev text st) = (case acceptable supports (registry st) i ev text of
      None \<Rightarrow> st | Some m \<Rightarrow> snd (mrfMapInterruptToEvent supports i ev text st))"
    "registry (snd (mrfMapInterruptToEvent supports i ev text st)) = registry st"
    "fst (fst (mrfMapInterruptToEvent supports i ev text st)) = 0 \<longleftrightarrow> acceptable supports (registry st) i ev text \<noteq> None"
    by (auto simp: defs Let_def positive split: option.splits sum.splits)
  assume "acceptable supports (registry st) i ev text = Some m"
  then show "simulates (maps @ [m]) (snd (mrfMapInterruptToEvent supports i ev text st))"
    using assms
    by (auto simp: defs Let_def added simulates_def listeners_of_append split: option.splits sum.splits if_splits)
qed

lemma raised:
  assumes "simulates maps st"
  shows "fst (interrupt_raised d flags st) = map (\<lambda>(_, ev, _). ev) (filter (\<lambda>(d', _, m). d' = d \<and> flags AND m \<noteq> 0) maps)"
    and "simulates maps (snd (interrupt_raised d flags st))"
    and "registry (snd (interrupt_raised d flags st)) = registry st"
proof -
  have len: "length (shell_listeners st) = length maps" using assms by (simp add: simulates_def)
  have found: "collect_listeners (\<lambda>l. l < length maps) (listeners_of maps d) = listeners_of maps d"
    using listeners_of_less by (blast intro: collect_all)
  have called: "concat (map (\<lambda>l. listener_called (map snd ms ! l) flags) (listeners_of ms d))
      = map (\<lambda>(_, ev, _). ev) (filter (\<lambda>(d', _, m). d' = d \<and> flags AND m \<noteq> 0) ms)" for ms
  proof (induction ms rule: rev_induct)
    case (snoc m ms)
    let ?f = "\<lambda>ms l. listener_called (map snd ms ! l) flags"
    have eq: "map (?f (ms @ [m])) (listeners_of ms d) = map (?f ms) (listeners_of ms d)"
      using listeners_of_less [of _ ms d] by (intro map_cong) (auto simp: nth_append)
    have one: "?f (ms @ [m]) (length ms) = listener_called (snd m) flags" by (simp add: nth_append)
    have "concat (map (?f (ms @ [m])) (listeners_of (ms @ [m]) d))
      = concat (map (?f ms) (listeners_of ms d)) @ (if fst m = d then listener_called (snd m) flags else [])"
      unfolding listeners_of_append map_append [of "?f (ms @ [m])"] concat_append eq by (simp add: one del: map_append)
    then show ?case unfolding snoc by (cases m) (simp add: listener_called_def)
  qed (simp add: listeners_of_def)
  have zero: "flags = 0 \<Longrightarrow> filter (\<lambda>(d', _, m). d' = d \<and> flags AND m \<noteq> 0) maps = []"
    by (simp add: filter_empty_conv split_beta)
  show "fst (interrupt_raised d flags st) = map (\<lambda>(_, ev, _). ev) (filter (\<lambda>(d', _, m). d' = d \<and> flags AND m \<noteq> 0) maps)"
    using assms called [of maps] zero found len by (auto simp: interrupt_raised_def Let_def simulates_def)
  show "simulates maps (snd (interrupt_raised d flags st))" "registry (snd (interrupt_raised d flags st)) = registry st"
    using assms found len by (auto simp: interrupt_raised_def Let_def simulates_def)
qed

lemma shell_run_specified:
  "simulates maps st \<Longrightarrow> fst (shell_run supports as st) = specified supports (registry st) as maps"
proof (induction as arbitrary: maps st)
  case (Cons a as)
  show ?case
  proof (cases a)
    case (MapEvent i ev t)
    let ?st = "snd (mrfMapInterruptToEvent supports i ev t st)"
    let ?maps = "maps @ (case acceptable supports (registry st) i ev t of None \<Rightarrow> [] | Some m \<Rightarrow> [m])"
    have "simulates ?maps ?st"
      using map_command(1,2) [OF Cons.prems, of supports i ev t] Cons.prems by (auto split: option.split)
    from Cons.IH [OF this] show ?thesis
      by (simp add: MapEvent map_command(3) [OF Cons.prems] split_beta)
  next
    case (Raise d flags)
    from Cons.IH [OF raised(2) [OF Cons.prems], of d flags] show ?thesis
      by (simp add: Raise raised(1,3) [OF Cons.prems] split_beta)
  qed
qed simp

text \<open>
  C25. In every sequence of commands and interrupts each interrupt posts exactly the events that were mapped to
  its device with a mask that has one of its flags, in the order of the commands and once for each of them;
  a command maps an event if the device is registered and supports interrupts, the number of the event is not
  negative, and the mask is a number from 1 to \<^verbatim>\<open>0xffffffff\<close>, which is the default.
\<close>

theorem interrupts_post_events:
  assumes "shell_listeners st = []" "\<And>d. interruptListeners (memory_access st d) = []"
  shows "fst (shell_run supports as st) = specified supports (registry st) as []"
  by (rule shell_run_specified) (simp add: simulates_def listeners_of_def assms)

definition demo_shell :: shell_state where
  "demo_shell = \<lparr>registry = \<lparr>devices = [''EVR'' \<mapsto> 3], caches = [''EVR'' \<mapsto> new_MrfMemoryCache]\<rparr>, shell_listeners = [],
     memory_access = (\<lambda>_. \<lparr>shutdown = False, ioQueue = [], interruptListeners = []\<rparr>)\<rparr>"

lemma interrupts_post_events_witness:
  "fst (shell_run (\<lambda>_. True) [MapEvent (Some ''EVR'') 7 (Some ''0x8''), MapEvent (Some ''EVR'') 9 None, Raise 3 0x18, Raise 3 0x10,
     Raise 4 0x8] demo_shell) = [[], [], [7, 9], [9], []]"
proof -
  have "stoul ''0x8'' = Inr (8, 3)" "stoul ''0xffffffff'' = Inr (0xffffffff, 10)" by code_simp+
  then have maps: "acceptable (\<lambda>_. True) (registry demo_shell) (Some ''EVR'') 7 (Some ''0x8'') = Some (3, 7, 8)"
    "acceptable (\<lambda>_. True) (registry demo_shell) (Some ''EVR'') 9 None = Some (3, 9, 0xffffffff)"
    by (simp_all add: acceptable_def mask_of_def demo_shell_def getDevice_def)
  show ?thesis
    by (subst interrupts_post_events) (simp_all add: maps, simp_all add: demo_shell_def)
qed

section \<open>The numbers that are printed\<close>

lemma hex_word8_eq: "hex_word8 = mrfMemoryAddressToString"
  by (simp add: fun_eq_iff hex_word8_def mrfMemoryAddressToString_def hex_digits8_def)

lemma number_value_append: "number_value base (ds @ [c]) = number_value base ds * base + digit_value c"
  by (simp add: number_value_def)

lemma number_value_decimal: "number_value 10 (decimal n) = int n"
proof (induction n rule: decimal.induct)
  case (1 n)
  show ?case
  proof (cases "n < 10")
    case True
    then show ?thesis by (simp add: decimal.simps [of n] number_value_def hex_char_facts(1))
  next
    case False
    then have "number_value 10 (decimal n) = int (n div 10) * 10 + int (n mod 10)"
      using 1 [OF False] by (simp add: decimal.simps [of n] number_value_append hex_char_facts(1))
    also have "\<dots> = int n" by presburger
    finally show ?thesis .
  qed
qed

text \<open>A mask that is printed by one of the commands is accepted as it is.\<close>

lemma printed_mask_accepted: "v \<noteq> 0 \<Longrightarrow> parse_mask (hex_word8 v) = Inr v"
proof -
  assume "v \<noteq> 0"
  then have "uint v \<noteq> 0" by (simp add: uint_0_iff)
  then have "0 < uint v" "uint v \<le> 0xffffffff" using uint_lt2p [of v] uint_ge_0 [of v] by (simp_all add: order_less_le)
  moreover have "stoul (hex_word8 v) = Inr (uint v, 10)" using stoul_hex [of "[]" v] by (simp add: hex_word8_eq)
  moreover have "length (hex_word8 v) = 10" by (simp add: hex_word8_def)
  ultimately show ?thesis by (simp add: parse_mask_def)
qed

text \<open>A number with a sign is accepted, too: it is taken modulo \<^verbatim>\<open>2^64\<close>.\<close>

lemma negative_mask_accepted: "parse_mask ''-18446744073709551615'' = Inr 1"
  by code_simp

end
