(* ===== verification/DeviceSetup.thy ===== *)
theory DeviceSetup
  imports IocShell UdpMemoryAccess Complex_Main
begin

text \<open>
  The commands of the IOC shell that create devices
  (\<^verbatim>\<open>mrfApp/mrfEpicsUdpIpSrc/mrfRegistrarUdpIp.cpp\<close>, \<^verbatim>\<open>mrfApp/mrfEpicsMmapSrc/mrfRegistrarMmap.cpp\<close>), and the thread
  that fills the cache of a UDP/IP device. What the constructor of the memory access returns is an argument, the
  message of its exception or the number of the device.
\<close>

section \<open>Filling the cache\<close>

datatype cache_access = Cache16 nat | Cache32 nat

text \<open>The addresses of a loop.\<close>

function address_loop :: "nat \<Rightarrow> nat \<Rightarrow> nat \<Rightarrow> nat list" where
  "address_loop step address bound =
     (if 0 < step \<and> address < bound then address # address_loop step (address + step) bound else [])"
  by pat_completeness auto
termination by (relation "measure (\<lambda>(step, address, bound). bound - address)") auto

declare address_loop.simps [simp del]

definition loop16 :: "nat \<Rightarrow> nat \<Rightarrow> cache_access list" where
  "loop16 address bound = map Cache16 (address_loop 2 address bound)"

definition loop32 :: "nat \<Rightarrow> nat \<Rightarrow> cache_access list" where
  "loop32 address bound = map Cache32 (address_loop 4 address bound)"

definition preheatCacheVmeEvg230 :: "cache_access list" where
  "preheatCacheVmeEvg230 = concat
    [loop16 0x400 0x408, loop16 0x440 0x448, [Cache32 0x4], loop32 0xc 0x1c, loop32 0x20 0x2c, [Cache32 0x4c],
     [Cache32 0x50], [Cache32 0x60], [Cache32 0x70], [Cache32 0x74], [Cache32 0x80], loop32 0x100 0x120,
     loop32 0x180 0x1c0, [Cache32 0x500], [Cache32 0x504], loop32 0x540 0x550, loop32 0x600 0x640,
     loop32 0x800 0x1000, loop32 0x8000 0x10000]"

definition preheatCacheVmeEvr230Rf :: "cache_access list" where
  "preheatCacheVmeEvr230Rf = concat
    [loop16 0x400 0x40e, loop16 0x440 0x448, loop16 0x480 0x4a0, [Cache16 0x614], [Cache16 0x616],
     [Cache16 0x634], [Cache16 0x636], [Cache16 0x654], [Cache16 0x656], [Cache32 0x4], [Cache32 0xc],
     [Cache32 0x10], [Cache32 0x20], [Cache32 0x24], [Cache32 0x40], [Cache32 0x4c], [Cache32 0x80],
     loop32 0x100 0x10c, loop32 0x200 0x244, loop32 0x248 0x254, loop32 0x258 0x264, loop32 0x268 0x274,
     loop32 0x278 0x284, loop32 0x288 0x294, loop32 0x298 0x2a4, loop32 0x2a8 0x2b4, loop32 0x2b8 0x2c4,
     loop32 0x2c8 0x2d4, loop32 0x2d8 0x2e4, loop32 0x2e8 0x2f4, [Cache32 0x2f8], [Cache32 0x2fc],
     [Cache32 0x500], [Cache32 0x504], loop32 0x600 0x614, [Cache32 0x618], loop32 0x620 0x634, [Cache32 0x638],
     loop32 0x640 0x654, [Cache32 0x658], loop32 0x1800 0x2000, loop32 0x4000 0x6000, loop32 0x20000 0x22000,
     loop32 0x24000 0x26000, loop32 0x28000 0x2a000]"

text \<open>
  The accesses of the thread, one after the other: \<open>interfere\<close> is what other threads do to the cache during each
  of them.
\<close>

fun preheat ::
    "(nat \<Rightarrow> MrfMemoryCache \<Rightarrow> MrfMemoryCache) \<Rightarrow> (u32 \<Rightarrow> string + u16) \<Rightarrow> (u32 \<Rightarrow> string + u32) \<Rightarrow> nat
      \<Rightarrow> cache_access list \<Rightarrow> MrfMemoryCache \<Rightarrow> MrfMemoryCache" where
  "preheat interfere dev16 dev32 n [] c = c"
| "preheat interfere dev16 dev32 n (Cache16 a # as) c =
     preheat interfere dev16 dev32 (n + 1) as (tryCacheUInt16 (interfere n) dev16 (of_nat a) c)"
| "preheat interfere dev16 dev32 n (Cache32 a # as) c =
     preheat interfere dev16 dev32 (n + 1) as (tryCacheUInt32 (interfere n) dev32 (of_nat a) c)"

section \<open>UDP/IP devices\<close>


text \<open>The thread that has been started: the identifier of its device and the accesses.\<close>

type_synonym preheat_job = "string \<times> cache_access list"

text \<open>
  Creating a device: \<open>newDevice\<close> makes the memory access from the host, the base address and the two time-outs,
  \<open>thread\<close> is the message of the exception if no thread can be started.
\<close>

definition createUdpIpDevice ::
    "(string \<Rightarrow> u32 \<Rightarrow> rat \<Rightarrow> rat \<Rightarrow> string + nat) \<Rightarrow> string option \<Rightarrow> string \<Rightarrow> string \<Rightarrow> u32 \<Rightarrow> rat \<Rightarrow> rat
      \<Rightarrow> cache_access list \<Rightarrow> MrfDeviceRegistry \<Rightarrow> (string + preheat_job) \<times> MrfDeviceRegistry" where
  "createUdpIpDevice newDevice thread deviceId hostName baseAddress queueTimeout requestTimeout preheatFunction g =
     (case newDevice hostName baseAddress queueTimeout requestTimeout of
       Inl msg \<Rightarrow> (Inl msg, g)
     | Inr rawDevice \<Rightarrow> (case registerDevice deviceId rawDevice g of
         Inl e \<Rightarrow> (Inl (what e), g)
       | Inr g' \<Rightarrow> (case thread of
           Some msg \<Rightarrow> (Inl msg, g')
         | None \<Rightarrow> (Inr (deviceId, preheatFunction), g'))))"

definition createUdpIpEvgDevice ::
    "(string \<Rightarrow> u32 \<Rightarrow> rat \<Rightarrow> rat \<Rightarrow> string + nat) \<Rightarrow> string option \<Rightarrow> string \<Rightarrow> string \<Rightarrow> rat \<Rightarrow> rat
      \<Rightarrow> MrfDeviceRegistry \<Rightarrow> (string + preheat_job) \<times> MrfDeviceRegistry" where
  "createUdpIpEvgDevice newDevice thread deviceId hostName queueTimeout requestTimeout =
     createUdpIpDevice newDevice thread deviceId hostName baseAddressVmeEvgRegister queueTimeout requestTimeout
       preheatCacheVmeEvg230"

definition createUdpIpEvrDevice ::
    "(string \<Rightarrow> u32 \<Rightarrow> rat \<Rightarrow> rat \<Rightarrow> string + nat) \<Rightarrow> string option \<Rightarrow> string \<Rightarrow> string \<Rightarrow> rat \<Rightarrow> rat
      \<Rightarrow> MrfDeviceRegistry \<Rightarrow> (string + preheat_job) \<times> MrfDeviceRegistry" where
  "createUdpIpEvrDevice newDevice thread deviceId hostName queueTimeout requestTimeout =
     createUdpIpDevice newDevice thread deviceId hostName baseAddressVmeEvrRegister queueTimeout requestTimeout
       preheatCacheVmeEvr230Rf"

text \<open>A \<^verbatim>\<open>double\<close>: a finite number or one that is not.\<close>

datatype double_value = Finite rat | NotFinite

text \<open>The conversion of the time-outs, with the message of the exception.\<close>

definition queue_timeout :: "double_value \<Rightarrow> string + rat" where
  "queue_timeout v = (case v of
     NotFinite \<Rightarrow> Inl ''Queue timeout must be finite.''
   | Finite x \<Rightarrow> Inr (if x < 0 then 0 else x))"

definition request_timeout :: "double_value \<Rightarrow> string + rat" where
  "request_timeout v = (case v of
     NotFinite \<Rightarrow> Inl ''Request timeout must be finite.''
   | Finite x \<Rightarrow> if x < 0 then Inl ''Request timeout must be finite.'' else Inr (if x \<le> 0 then 5 else x))"

definition host_of :: "string option \<Rightarrow> string + string" where
  "host_of hostAddress = (case hostAddress of
     None \<Rightarrow> Inl ''Host name or address must be specified.''
   | Some h \<Rightarrow> if h = [] then Inl ''Host name or address must not be empty.'' else Inr h)"

text \<open>The command; the job is the thread that fills the cache.\<close>

definition iocshMrfUdpIpDeviceFunc ::
    "(string \<Rightarrow> u32 \<Rightarrow> rat \<Rightarrow> rat \<Rightarrow> string + nat) \<Rightarrow> string option \<Rightarrow> string option \<Rightarrow> string option
      \<Rightarrow> double_value \<Rightarrow> double_value \<Rightarrow> bool \<Rightarrow> MrfDeviceRegistry \<Rightarrow> shell_result \<times> preheat_job option \<times> MrfDeviceRegistry" where
  "iocshMrfUdpIpDeviceFunc newDevice thread deviceId hostAddress queueTimeoutDouble requestTimeoutDouble evr g =
     (case deviceId of
       None \<Rightarrow> ((1, [ErrOut ''Could not create device: Device ID must be specified.'']), None, g)
     | Some i \<Rightarrow>
         if i = [] then ((1, [ErrOut ''Could not create device: Device ID must not be empty.'']), None, g)
         else let failed = (\<lambda>msg g'. ((1, [ErrOut (''Could not create device '' @ i @ '': '' @ msg)]), None, g'))
           in (case host_of hostAddress of
               Inl msg \<Rightarrow> failed msg g
             | Inr host \<Rightarrow> (case queue_timeout queueTimeoutDouble of
                 Inl msg \<Rightarrow> failed msg g
               | Inr queueTimeout \<Rightarrow> (case request_timeout requestTimeoutDouble of
                   Inl msg \<Rightarrow> failed msg g
                 | Inr requestTimeout \<Rightarrow>
                     (case (if evr then createUdpIpEvrDevice newDevice thread i host queueTimeout requestTimeout g
                         else createUdpIpEvgDevice newDevice thread i host queueTimeout requestTimeout g) of
                       (Inl msg, g') \<Rightarrow> failed msg g'
                     | (Inr job, g') \<Rightarrow> ((0, []), Some job, g'))))))"

text \<open>What the thread does to the cache of its device in the registry.\<close>

definition run_preheat ::
    "(nat \<Rightarrow> MrfMemoryCache \<Rightarrow> MrfMemoryCache) \<Rightarrow> (u32 \<Rightarrow> string + u16) \<Rightarrow> (u32 \<Rightarrow> string + u32) \<Rightarrow> preheat_job
      \<Rightarrow> MrfDeviceRegistry \<Rightarrow> MrfDeviceRegistry" where
  "run_preheat interfere dev16 dev32 = (\<lambda>(deviceId, accesses) g.
     g\<lparr>caches := (caches g)(deviceId := map_option (preheat interfere dev16 dev32 0 accesses) (caches g deviceId))\<rparr>)"

section \<open>Memory-mapped devices\<close>

text \<open>The commands with the sizes of the memory of their devices.\<close>

definition mrfMmap_commands :: "(string \<times> u32) list" where
  "mrfMmap_commands =
     [(''mrfMmapCpciEvg220Device'', 0x00010000), (''mrfMmapCpciEvg230Device'', 0x00010000),
      (''mrfMmapCpciEvg300Device'', 0x00010000), (''mrfMmapPxieEvg300Device'', 0x00010000),
      (''mrfMmapCpciEvr220Device'', 0x00008400), (''mrfMmapCpciEvr230Device'', 0x00008400),
      (''mrfMmapCpciEvr300Device'', 0x00008400), (''mrfMmapCpciEvrtg300Device'', 0x00040000),
      (''mrfMmapMtcaEvr300Device'', 0x00040000), (''mrfMmapPcieEvr300Device'', 0x00008400),
      (''mrfMmapPmcEvr230Device'', 0x00008400), (''mrfMmapPxieEvr300Device'', 0x00008400)]"

definition iocshMrfMmapDeviceFunc ::
    "(string \<Rightarrow> u32 \<Rightarrow> string + nat) \<Rightarrow> string option \<Rightarrow> string option \<Rightarrow> u32 \<Rightarrow> MrfDeviceRegistry
      \<Rightarrow> shell_result \<times> MrfDeviceRegistry" where
  "iocshMrfMmapDeviceFunc newDevice deviceId devicePath memorySize g = (case deviceId of
     None \<Rightarrow> ((1, [ErrOut ''Could not create device: Device ID must be specified.'']), g)
   | Some i \<Rightarrow>
       if i = [] then ((1, [ErrOut ''Could not create device: Device ID must not be empty.'']), g)
       else (case devicePath of
           None \<Rightarrow> ((1, [ErrOut ''Could not create device: Device path must be specified.'']), g)
         | Some path \<Rightarrow>
             if path = [] then ((1, [ErrOut ''Could not create device: Device path must not be empty.'']), g)
             else (case newDevice path memorySize of
                 Inl msg \<Rightarrow> ((1, [ErrOut (''Could not create device '' @ i @ '': '' @ msg)]), g)
               | Inr rawDevice \<Rightarrow> (case registerDevice i rawDevice g of
                   Inl e \<Rightarrow> ((1, [ErrOut (''Could not create device '' @ i @ '': '' @ what e)]), g)
                 | Inr g' \<Rightarrow> ((0, []), g')))))"

end
