(* ===== verification/DeviceSetup_Props.thy ===== *)
theory DeviceSetup_Props
  imports DeviceSetup
begin

text \<open>
  Creating a device registers it with a new cache or changes nothing, and the registers that the thread reads are
  in the cache when it has ended.
\<close>

section \<open>The addresses\<close>

lemma set_address_loop:
  assumes "0 < step"
  shows "x \<in> set (address_loop step a b) \<longleftrightarrow> a \<le> x \<and> x < b \<and> (x - a) mod step = 0"
  using assms
proof (induction step a b rule: address_loop.induct)
  case (1 step a b)
  show ?case
  proof (cases "a < b")
    case True
    have "(x = a \<or> a + step \<le> x \<and> x < b \<and> (x - (a + step)) mod step = 0) = (a \<le> x \<and> x < b \<and> (x - a) mod step = 0)"
    proof (cases "a + step \<le> x")
      case True
      then have "x - a = (x - (a + step)) + step" by simp
      then have "(x - a) mod step = (x - (a + step)) mod step" by (metis mod_add_self2)
      then show ?thesis using True 1(2) by auto
    next
      case False
      have "(x - a) mod step = 0 \<longleftrightarrow> x = a" if "a \<le> x"
      proof -
        have "(x - a) mod step = x - a" using that False by (intro mod_less) simp
        then show ?thesis using that by auto
      qed
      then show ?thesis using False 1(2) \<open>a < b\<close> by (cases "a \<le> x") auto
    qed
    then show ?thesis using 1 True by (simp add: address_loop.simps [of step a b])
  qed (simp add: address_loop.simps [of step a b])
qed

text \<open>All accesses are aligned, and below the size of the memory of the device.\<close>

definition access_aligned :: "nat \<Rightarrow> cache_access \<Rightarrow> bool" where
  "access_aligned memorySize e = (case e of
     Cache16 a \<Rightarrow> a mod 2 = 0 \<and> a + 2 \<le> memorySize
   | Cache32 a \<Rightarrow> a mod 4 = 0 \<and> a + 4 \<le> memorySize)"

lemma loops_aligned:
  "a mod 2 = 0 \<Longrightarrow> b mod 2 = 0 \<Longrightarrow> b \<le> n \<Longrightarrow> list_all (access_aligned n) (loop16 a b)"
  "a mod 4 = 0 \<Longrightarrow> b mod 4 = 0 \<Longrightarrow> b \<le> n \<Longrightarrow> list_all (access_aligned n) (loop32 a b)"
proof -
  have aligned: "x mod k = 0 \<and> x + k \<le> n"
    if x: "x \<in> set (address_loop k a b)" and k: "0 < k" "a mod k = 0" "b mod k = 0" "b \<le> n" for x k
  proof -
    have "a \<le> x" "x < b" "(x - a) mod k = 0" using x set_address_loop [OF k(1)] by auto
    then obtain i j l where "x = a + i * k" "a = j * k" "b = l * k"
      using k(2,3) by (metis le_add_diff_inverse mod_0_imp_dvd dvd_def mult.commute)
    then have e: "x = (j + i) * k" "b = l * k" by (simp_all add: add_mult_distrib)
    with \<open>x < b\<close> have "(j + i) + 1 \<le> l" by simp
    then have "((j + i) + 1) * k \<le> l * k" by (rule mult_le_mono1)
    then show ?thesis using e k(4) by simp
  qed
  show "a mod 2 = 0 \<Longrightarrow> b mod 2 = 0 \<Longrightarrow> b \<le> n \<Longrightarrow> list_all (access_aligned n) (loop16 a b)"
    using aligned [of _ 2] by (auto simp: loop16_def list_all_iff access_aligned_def)
  show "a mod 4 = 0 \<Longrightarrow> b mod 4 = 0 \<Longrightarrow> b \<le> n \<Longrightarrow> list_all (access_aligned n) (loop32 a b)"
    using aligned [of _ 4] by (auto simp: loop32_def list_all_iff access_aligned_def)
qed

lemma preheat_aligned:
  "list_all (access_aligned 0x10000) preheatCacheVmeEvg230"
  "list_all (access_aligned 0x2a000) preheatCacheVmeEvr230Rf"
  by (simp add: preheatCacheVmeEvg230_def loops_aligned, simp add: access_aligned_def)
    (simp add: preheatCacheVmeEvr230Rf_def loops_aligned, simp add: access_aligned_def)

section \<open>The cache\<close>

lemma cache_grows_refl: "cache_grows c c"
  by (simp add: cache_grows_def)

lemma cache_grows_trans: "cache_grows a b \<Longrightarrow> cache_grows b c \<Longrightarrow> cache_grows a c"
  by (auto simp: cache_grows_def intro: map_le_trans)

lemma tryCache_grows:
  assumes "\<And>c. cache_grows c (interfere c)"
  shows "cache_grows c (tryCacheUInt16 interfere dev16 a c)" "cache_grows c (tryCacheUInt32 interfere dev32 a c)"
  using cache_readUInt16_agrees [OF assms prod.collapse [symmetric]] cache_readUInt32_agrees [OF assms prod.collapse [symmetric]]
  by (simp_all add: tryCacheUInt16_def tryCacheUInt32_def)

lemma tryCache_reads:
  "dev16 a = Inr v \<Longrightarrow> cacheUInt16 (tryCacheUInt16 interfere dev16 a c) a \<noteq> None"
    "dev32 a = Inr w \<Longrightarrow> cacheUInt32 (tryCacheUInt32 interfere dev32 a c) a \<noteq> None"
  by (auto simp: tryCacheUInt16_def cache_readUInt16_def tryCacheUInt32_def cache_readUInt32_def Let_def split: option.split)

lemma grows_cached:
  "cache_grows c c' \<Longrightarrow> cacheUInt16 c a \<noteq> None \<Longrightarrow> cacheUInt16 c' a \<noteq> None"
  "cache_grows c c' \<Longrightarrow> cacheUInt32 c a \<noteq> None \<Longrightarrow> cacheUInt32 c' a \<noteq> None"
  by (auto simp: cache_grows_def map_le_def dom_def)

lemma preheat_grows:
  assumes "\<And>n c. cache_grows c (interfere n c)"
  shows "cache_grows c (preheat interfere dev16 dev32 n es c)"
proof (induction es arbitrary: n c)
  case Nil
  show ?case by (simp add: cache_grows_refl)
next
  case (Cons e es)
  have grows: "cache_grows c (tryCacheUInt16 (interfere n) dev16 a c)" "cache_grows c (tryCacheUInt32 (interfere n) dev32 a c)" for a
    by (rule tryCache_grows, rule assms)+
  show ?case
    by (cases e) (auto intro: cache_grows_trans [OF grows(1) Cons] cache_grows_trans [OF grows(2) Cons])
qed

lemma preheat_cached:
  assumes "\<And>n c. cache_grows c (interfere n c)"
  shows "Cache16 a \<in> set es \<Longrightarrow> dev16 (of_nat a) = Inr v \<Longrightarrow>
      cacheUInt16 (preheat interfere dev16 dev32 n es c) (of_nat a) \<noteq> None"
    "Cache32 a \<in> set es \<Longrightarrow> dev32 (of_nat a) = Inr w \<Longrightarrow>
      cacheUInt32 (preheat interfere dev16 dev32 n es c) (of_nat a) \<noteq> None"
proof -
  note grows = preheat_grows [OF assms, where ?dev16.0 = dev16 and ?dev32.0 = dev32]
  show "Cache16 a \<in> set es \<Longrightarrow> dev16 (of_nat a) = Inr v \<Longrightarrow>
      cacheUInt16 (preheat interfere dev16 dev32 n es c) (of_nat a) \<noteq> None"
  proof (induction es arbitrary: n c)
    case (Cons e es)
    show ?case
    proof (cases "e = Cache16 a")
      case True
      then show ?thesis
        using grows_cached(1) [OF grows tryCache_reads(1) [of dev16, OF Cons.prems(2)]] by simp
    next
      case False
      then show ?thesis using Cons by (cases e) auto
    qed
  qed simp
  show "Cache32 a \<in> set es \<Longrightarrow> dev32 (of_nat a) = Inr w \<Longrightarrow>
      cacheUInt32 (preheat interfere dev16 dev32 n es c) (of_nat a) \<noteq> None"
  proof (induction es arbitrary: n c)
    case (Cons e es)
    show ?case
    proof (cases "e = Cache32 a")
      case True
      then show ?thesis
        using grows_cached(2) [OF grows tryCache_reads(2) [of dev32, OF Cons.prems(2)]] by simp
    next
      case False
      then show ?thesis using Cons by (cases e) auto
    qed
  qed simp
qed


lemma cached_read:
  "cacheUInt16 c a = Some v \<Longrightarrow> cache_readUInt16 interfere dev a c = (Inr v, c)"
  "cacheUInt32 c a = Some w \<Longrightarrow> cache_readUInt32 interfere dev' a c = (Inr w, c)"
  by (simp_all add: cache_readUInt16_def cache_readUInt32_def)

section \<open>Creating devices\<close>

lemma created_device:
  assumes "registry_ok g" "createUdpIpDevice newDevice thread i host base qt rt es g = (r, g')"
  shows "registry_ok g'" "r = Inr job \<Longrightarrow> job = (i, es) \<and> thread = None \<and> getDevice i g = None \<and> getDeviceCache i g' = Some new_MrfMemoryCache
      \<and> (\<exists>d. newDevice host base qt rt = Inr d \<and> getDevice i g' = Some d) \<and> (\<forall>j. j \<noteq> i \<longrightarrow> getDevice j g' = getDevice j g)"
    "r = Inl msg \<Longrightarrow> thread = None \<Longrightarrow> g' = g"
proof -
  have free: "registerDevice i d g = Inr g'' \<Longrightarrow> getDevice i g = None" for d g''
    by (auto simp: registerDevice_def getDevice_def split: if_split_asm)
  show "registry_ok g'" "r = Inr job \<Longrightarrow> job = (i, es) \<and> thread = None \<and> getDevice i g = None \<and> getDeviceCache i g' = Some new_MrfMemoryCache
      \<and> (\<exists>d. newDevice host base qt rt = Inr d \<and> getDevice i g' = Some d) \<and> (\<forall>j. j \<noteq> i \<longrightarrow> getDevice j g' = getDevice j g)"
    "r = Inl msg \<Longrightarrow> thread = None \<Longrightarrow> g' = g"
    using assms registry_keeps_caches(2) [OF assms(1)] free
    by (auto simp: createUdpIpDevice_def split: sum.splits option.splits)
qed

text \<open>What a command does that has succeeded, and one that has not.\<close>

definition creates :: "(string \<Rightarrow> u32 \<Rightarrow> rat \<Rightarrow> rat \<Rightarrow> string + nat) \<Rightarrow> string option \<Rightarrow> string option \<Rightarrow> double_value \<Rightarrow> double_value
    \<Rightarrow> bool \<Rightarrow> MrfDeviceRegistry \<Rightarrow> preheat_job \<Rightarrow> MrfDeviceRegistry \<Rightarrow> bool" where
  "creates newDevice deviceId hostAddress queue request evr g job g' \<longleftrightarrow> (\<exists>i host q r d.
     deviceId = Some i \<and> i \<noteq> [] \<and> hostAddress = Some host \<and> host \<noteq> [] \<and> queue = Finite q \<and> request = Finite r \<and> 0 \<le> r
     \<and> newDevice host (if evr then 0x7a000000 else 0x80000000) (max 0 q) (if r = 0 then 5 else r) = Inr d
     \<and> getDevice i g = None \<and> getDevice i g' = Some d \<and> getDeviceCache i g' = Some new_MrfMemoryCache
     \<and> (\<forall>j. j \<noteq> i \<longrightarrow> getDevice j g' = getDevice j g)
     \<and> job = (i, if evr then preheatCacheVmeEvr230Rf else preheatCacheVmeEvg230))"

text \<open>
  A command that creates a UDP/IP device either succeeds, with valid arguments and an identifier that was not
  in use, and then the device is registered with an empty cache, whose thread reads the registers of its kind
  of device; or it prints one message and registers nothing. The only exception is a thread that cannot be
  started: then the command fails, but the device stays registered.
\<close>

lemma udp_device_created:
  assumes "registry_ok g"
    and "iocshMrfUdpIpDeviceFunc newDevice thread deviceId hostAddress queue request evr g = ((status, out), job, g')"
  shows "registry_ok g' \<and> (status = 0 \<or> status = 1)
    \<and> (status = 0 \<longrightarrow> out = [] \<and> thread = None \<and> (\<exists>j. job = Some j \<and> creates newDevice deviceId hostAddress queue request evr g j g'))
    \<and> (status = 1 \<longrightarrow> length out = 1 \<and> job = None \<and> (thread = None \<longrightarrow> g' = g))"
proof -
  consider (refused) "job = None" "status = 1" "length out = 1" "g' = g"
    | (tried) i host q r res where "deviceId = Some i" "i \<noteq> []" "hostAddress = Some host" "host \<noteq> []" "queue = Finite q"
      "request = Finite r" "0 \<le> r"
      "createUdpIpDevice newDevice thread i host (if evr then 0x7a000000 else 0x80000000) (max 0 q) (if r = 0 then 5 else r)
         (if evr then preheatCacheVmeEvr230Rf else preheatCacheVmeEvg230) g = (res, g')"
      "((status, out), job) = (case res of Inl msg \<Rightarrow> ((1, [ErrOut (''Could not create device '' @ i @ '': '' @ msg)]), None)
         | Inr j \<Rightarrow> ((0, []), Some j))"
    using assms(2)
    by (auto simp: iocshMrfUdpIpDeviceFunc_def Let_def host_of_def queue_timeout_def request_timeout_def
        createUdpIpEvrDevice_def createUdpIpEvgDevice_def baseAddressVmeEvrRegister_def baseAddressVmeEvgRegister_def
        split: option.splits if_splits sum.splits double_value.splits prod.splits)
  then show ?thesis
  proof cases
    case refused
    then show ?thesis using assms(1) by simp
  next
    case tried
    note created = created_device [OF assms(1) tried(8)]
    show ?thesis
    proof (cases res)
      case (Inl msg)
      then show ?thesis using tried(9) created(1,3) by auto
    next
      case (Inr j)
      from created(2) [OF this] tried created(1) Inr show ?thesis by (auto simp: creates_def)
    qed
  qed
qed


lemma udp_device_created_witness:
  "let (r, job, g) = iocshMrfUdpIpDeviceFunc (\<lambda>_ _ _ _. Inr 1) None (Some ''EVG'') (Some ''evg.example.com'') (Finite 0) (Finite 0) False
       new_MrfDeviceRegistry
   in r = (0, []) \<and> getDevice ''EVG'' g = Some 1"
proof -
  let ?call = "iocshMrfUdpIpDeviceFunc (\<lambda>_ _ _ _. Inr 1) None (Some ''EVG'') (Some ''evg.example.com'') (Finite 0) (Finite 0) False
       new_MrfDeviceRegistry"
  obtain status out job g where call: "?call = ((status, out), job, g)" by (metis prod.exhaust)
  then have "status = 0"
    by (auto simp: iocshMrfUdpIpDeviceFunc_def host_of_def queue_timeout_def request_timeout_def createUdpIpEvgDevice_def
        createUdpIpDevice_def registerDevice_def new_MrfDeviceRegistry_def)
  with udp_device_created [OF registry_keeps_caches(1) call] call show ?thesis
    by (auto simp: creates_def)
qed

text \<open>
  C26. When the thread of a device that was created has ended, every register of its list that could be read is in
  the cache of the device, whatever other threads added to it meanwhile: reading it through the cache, as the
  initialisation of output records does, gives a value without an access to the device, always the same. The
  registers of the list are aligned and within the memory of the device.
\<close>

theorem preheated_registers_cached:
  assumes "registry_ok g"
    and "iocshMrfUdpIpDeviceFunc newDevice thread deviceId hostAddress queue request evr g = ((0, out), Some job, g')"
    and "\<And>n c. cache_grows c (interfere n c)"
  shows "list_all (access_aligned (if evr then 0x2a000 else 0x10000)) (snd job)
    \<and> (\<exists>i c. deviceId = Some i \<and> getDeviceCache i (run_preheat interfere dev16 dev32 job g') = Some c
    \<and> (\<forall>a v. Cache16 a \<in> set (snd job) \<and> dev16 (of_nat a) = Inr v \<longrightarrow>
        (\<exists>w. \<forall>others dev. cache_readUInt16 others dev (of_nat a) c = (Inr w, c)))
    \<and> (\<forall>a v. Cache32 a \<in> set (snd job) \<and> dev32 (of_nat a) = Inr v \<longrightarrow>
        (\<exists>w. \<forall>others dev. cache_readUInt32 others dev (of_nat a) c = (Inr w, c))))"
proof -
  from udp_device_created [OF assms(1,2)] obtain i where i: "deviceId = Some i" "getDeviceCache i g' = Some new_MrfMemoryCache"
    "job = (i, if evr then preheatCacheVmeEvr230Rf else preheatCacheVmeEvg230)" by (auto simp: creates_def)
  let ?c = "preheat interfere dev16 dev32 0 (snd job) new_MrfMemoryCache"
  have "getDeviceCache i (run_preheat interfere dev16 dev32 job g') = Some ?c"
    using i by (simp add: run_preheat_def getDeviceCache_def split_beta)
  moreover have "\<exists>w. \<forall>others dev. cache_readUInt16 others dev (of_nat a) ?c = (Inr w, ?c)"
    if "Cache16 a \<in> set (snd job) \<and> dev16 (of_nat a) = Inr v" for a v
    using preheat_cached(1) [where interfere = interfere and a = a and es = "snd job" and ?dev16.0 = dev16
        and ?dev32.0 = dev32 and n = 0 and c = new_MrfMemoryCache, OF assms(3)] that cached_read(1) by blast
  moreover have "\<exists>w. \<forall>others dev. cache_readUInt32 others dev (of_nat a) ?c = (Inr w, ?c)"
    if "Cache32 a \<in> set (snd job) \<and> dev32 (of_nat a) = Inr v" for a v
    using preheat_cached(2) [where interfere = interfere and a = a and es = "snd job" and ?dev16.0 = dev16
        and ?dev32.0 = dev32 and n = 0 and c = new_MrfMemoryCache, OF assms(3)] that cached_read(2) by blast
  moreover have "list_all (access_aligned (if evr then 0x2a000 else 0x10000)) (snd job)"
    using preheat_aligned by (simp add: i)
  ultimately show ?thesis using i(1) by blast
qed

lemma preheated_registers_cached_witness:
  "let (_, job, g) = iocshMrfUdpIpDeviceFunc (\<lambda>_ _ _ _. Inr 1) None (Some ''EVG'') (Some ''evg.example.com'') (Finite 0) (Finite 0) False
       new_MrfDeviceRegistry;
     g' = run_preheat (\<lambda>_ c. c) (\<lambda>_. Inr 7) (\<lambda>_. Inr 9) (the job) g
   in \<exists>c w. getDeviceCache ''EVG'' g' = Some c \<and> (\<forall>dev. cache_readUInt16 id dev 0x400 c = (Inr w, c))"
proof -
  let ?call = "iocshMrfUdpIpDeviceFunc (\<lambda>_ _ _ _. Inr 1) None (Some ''EVG'') (Some ''evg.example.com'') (Finite 0) (Finite 0) False
       new_MrfDeviceRegistry"
  obtain status out job g where call: "?call = ((status, out), job, g)" by (metis prod.exhaust)
  then have job: "status = 0" "job = Some (''EVG'', preheatCacheVmeEvg230)"
    by (auto simp: iocshMrfUdpIpDeviceFunc_def host_of_def queue_timeout_def request_timeout_def createUdpIpEvgDevice_def
        createUdpIpDevice_def registerDevice_def new_MrfDeviceRegistry_def)
  have "Cache16 0x400 \<in> set preheatCacheVmeEvg230"
    by (simp add: preheatCacheVmeEvg230_def loop16_def set_address_loop)
  moreover have "(of_nat 0x400 :: u32) = 0x400" by simp
  moreover note preheated_registers_cached [OF registry_keeps_caches(1) call [unfolded job] cache_grows_refl,
      where ?dev16.0 = "\<lambda>_. Inr 7" and ?dev32.0 = "\<lambda>_. Inr 9"]
  ultimately obtain c w where "getDeviceCache ''EVG'' (run_preheat (\<lambda>_ c. c) (\<lambda>_. Inr 7) (\<lambda>_. Inr 9) (the job) g) = Some c"
    "\<forall>dev. cache_readUInt16 id dev 0x400 c = (Inr w, c)"
    unfolding job by (metis option.inject option.sel snd_conv)
  then show ?thesis using call by auto
qed

section \<open>Memory-mapped devices\<close>

text \<open>The same for memory-mapped devices, whose memory has at least the size that their registers need.\<close>

lemma mmap_device_created:
  assumes "registry_ok g" "iocshMrfMmapDeviceFunc newDevice deviceId path memorySize g = ((status, out), g')"
  shows "registry_ok g' \<and> (status = 0 \<and> out = [] \<and> (\<exists>i p d. deviceId = Some i \<and> i \<noteq> [] \<and> path = Some p \<and> p \<noteq> []
        \<and> newDevice p memorySize = Inr d \<and> getDevice i g' = Some d \<and> (\<forall>j. j \<noteq> i \<longrightarrow> getDevice j g' = getDevice j g))
      \<or> status = 1 \<and> length out = 1 \<and> g' = g)"
  using assms(2) registry_keeps_caches(2) [OF assms(1)] assms(1)
  by (auto simp: iocshMrfMmapDeviceFunc_def split: option.splits if_splits sum.splits)

lemma mmap_sizes_aligned: "(name, n) \<in> set mrfMmap_commands \<Longrightarrow> 0 < n \<and> n mod 1024 = 0"
  by (auto simp: mrfMmap_commands_def)

end
