(* ===== verification/Spec2Isabelle.thy ===== *)
theory Spec2Isabelle
  imports ConsistentAccess_Props UdpClient_Props UdpMemoryAccess RecordAddress_Props FineDelay_Props MmapAccess_Props
    RecordProcessing_Props InterruptRecord WaveformRecords_Props StringinRecord ArraySubroutines KernelDevice_Flash KernelXcf_Props KernelFpga_Props
    KernelEeprom_Text
    FdSelector ErrorText IocShell_Props DeviceSetup_Props
begin

text \<open>
  Verification of the EPICS device support for the MRF timing system.

  \<^bold>\<open>The program.\<close> EPICS records are connected to the registers of event generators and receivers. The
  device support of a record (\<^verbatim>\<open>mrfApp/mrfEpicsSrc\<close>) parses the address of the record and talks to a
  memory access, an object with asynchronous operations that end with a call of a callback
  (\<^verbatim>\<open>mrfApp/mrfCommonSrc/MrfMemoryAccess.h\<close>). Two classes implement it: one sends each request as a UDP
  packet and repeats lost ones (\<^verbatim>\<open>mrfApp/mrfUdpIpSrc\<close>), the other accesses memory that a kernel module maps
  into the process (\<^verbatim>\<open>mrfApp/mrfMmapSrc\<close>). Between the records and either of them sits a consistent memory
  access that makes the read-modify-write operations of records that share a register indivisible. The
  kernel module (\<^verbatim>\<open>support/mrf-pci-dkms-0.1.20250218/mrf-pci-0.1.20250218\<close>) offers each board as four
  character devices: its EEPROM, its flash memory, the configuration of its FPGA, and its registers.

  \<^bold>\<open>What the theories model.\<close> A class is a record with the fields of the class, a member function a function
  on it that returns the new state together with what it did: calls of callbacks, packets, accesses. The
  functions have the names of the source; two of the same name are told apart by the name of the class in
  front. Exceptions are the left side of a sum. What the program takes from outside (clock, socket, system
  calls, hardware, rounding of floating-point numbers) is an argument. Code under a mutex is one step.

  \<^item> \<^verbatim>\<open>MrfPrelude\<close>: integer types, byte order of the host and the functions \<^verbatim>\<open>htons\<close>, \<^verbatim>\<open>htonl\<close>; general lemmas.
  \<^item> \<^verbatim>\<open>MemoryAccess\<close>: \<^verbatim>\<open>MrfMemoryAccess\<close> (replies, blocking calls, texts) and the masked writes of
    \<^verbatim>\<open>MrfConsistentMemoryAccess\<close>.
  \<^item> \<^verbatim>\<open>ConsistentAccess\<close>: \<^verbatim>\<open>MrfConsistentAsynchronousMemoryAccess\<close>, class \<^verbatim>\<open>Impl\<close>: which bytes are in use, the
    multimap of waiting operations, the callbacks. \<^verbatim>\<open>ConsistentAccess_System\<close> adds clients, threads and a
    delegate over a memory of bytes as an inductive step relation over all interleavings;
    \<^verbatim>\<open>ConsistentAccess_Proofs\<close> and \<^verbatim>\<open>ConsistentAccess_Props\<close> hold its invariant and properties.
  \<^item> \<^verbatim>\<open>UdpPacket\<close>: \<^verbatim>\<open>MrfUdpPacket\<close> as bytes on the wire.
  \<^item> \<^verbatim>\<open>UdpClientState\<close>, \<^verbatim>\<open>UdpClient\<close>: \<^verbatim>\<open>MrfUdpIpClient\<close>: requests, ordered sets, congestion control, one round of
    each of its threads. \<^verbatim>\<open>UdpClient_Proofs\<close>, \<^verbatim>\<open>UdpClient_Times\<close> and \<^verbatim>\<open>UdpClient_Props\<close> hold the invariants of
    the numbers, of the accounting of callbacks and of the times, and the runs.
  \<^item> \<^verbatim>\<open>UdpMemoryAccess\<close>: \<^verbatim>\<open>MrfUdpIpMemoryAccess\<close>: 32-bit operations as two of 16 bits each.
  \<^item> \<^verbatim>\<open>AddressParsing\<close>, \<^verbatim>\<open>RecordAddress\<close>, \<^verbatim>\<open>RecordAddress_Props\<close>: \<^verbatim>\<open>MrfRecordAddress\<close> and
    \<^verbatim>\<open>MrfInterruptRecordAddress\<close>, over models of \<^verbatim>\<open>std::stoul\<close> and \<^verbatim>\<open>std::stoi\<close>.
  \<^item> \<^verbatim>\<open>FineDelay\<close>, \<^verbatim>\<open>FineDelay_Props\<close>: \<^verbatim>\<open>MrfLongoutFineDelayShiftRegisterRecord\<close>, with a shift register.
  \<^item> \<^verbatim>\<open>MmapAccess\<close>, \<^verbatim>\<open>MmapAccess_Props\<close>: \<^verbatim>\<open>MrfMmapMemoryAccess\<close>: queue, I/O thread, signal handler.
  \<^item> \<^verbatim>\<open>RecordProcessing\<close>, \<^verbatim>\<open>RecordProcessing_Props\<close>: \<^verbatim>\<open>MrfMemoryCache\<close>, \<^verbatim>\<open>MrfDeviceRegistry\<close>, and the base classes and
    record types for single registers.
  \<^item> \<^verbatim>\<open>InterruptRecord\<close>: \<^verbatim>\<open>MrfInterruptRecord\<close>.
  \<^item> \<^verbatim>\<open>CountedRequests\<close>, \<^verbatim>\<open>WaveformRecords\<close>, \<^verbatim>\<open>WaveformRecords_Props\<close>, \<^verbatim>\<open>StringinRecord\<close>: the records that make several
    requests per processing.
  \<^item> \<^verbatim>\<open>ArraySubroutines\<close>: \<^verbatim>\<open>mrfArrayASubRoutines.c\<close>, on buffers of bytes.
  \<^item> \<^verbatim>\<open>FdSelector\<close>: \<^verbatim>\<open>MrfFdSelector\<close>, as a thread that waits and others that wake it up.
  \<^item> \<^verbatim>\<open>CText\<close>: texts in buffers; \<^verbatim>\<open>ErrorText\<close>: \<^verbatim>\<open>mrfEpicsError.cpp\<close>, the printing of messages.
  \<^item> \<^verbatim>\<open>IocShell\<close>, \<^verbatim>\<open>IocShell_Props\<close>: the commands \<^verbatim>\<open>mrfIocsh*.cpp\<close>; \<^verbatim>\<open>DeviceSetup\<close>, \<^verbatim>\<open>DeviceSetup_Props\<close>: the commands
    that create devices (\<^verbatim>\<open>mrfRegistrarUdpIp.cpp\<close>, \<^verbatim>\<open>mrfRegistrarMmap.cpp\<close>) and the filling of the cache.
  \<^item> \<^verbatim>\<open>KernelFlash\<close>, \<^verbatim>\<open>KernelFlash_Props\<close>: \<^verbatim>\<open>flash.c\<close>, as programs of a state monad over the history of register
    accesses.
  \<^item> \<^verbatim>\<open>StateRules\<close>: the rules for weakest preconditions of programs of a state monad.
  \<^item> \<^verbatim>\<open>KernelJtag\<close>: the lines of the JTAG interface (\<^verbatim>\<open>jtag.c\<close>), on the history of the accesses to a register of the
    bridge; \<^verbatim>\<open>KernelXcf\<close>: the chain of devices and the platform flash; \<^verbatim>\<open>KernelFpga\<close>: configuring the FPGA, on both
    bridges (\<^verbatim>\<open>jtag_9056.c\<close>).
  \<^item> \<^verbatim>\<open>KernelTap\<close>, \<^verbatim>\<open>KernelScan\<close>, \<^verbatim>\<open>KernelPlayer\<close>: what the devices see of it: the states of IEEE 1149.1, moved by the
    edges of the clock line, the scans of registers, and programs that play a list of scans. Over them
    \<^verbatim>\<open>KernelXcf_Props\<close> and \<^verbatim>\<open>KernelFpga_Props\<close> hold the properties.
  \<^item> \<^verbatim>\<open>KernelText\<close>: printing with \<^verbatim>\<open>snprintf\<close> into a buffer; \<^verbatim>\<open>KernelErrors\<close>: error numbers.
  \<^item> \<^verbatim>\<open>KernelEeprom\<close>: \<^verbatim>\<open>eeprom.c\<close> and \<^verbatim>\<open>eeprom_9056.c\<close>; \<^verbatim>\<open>KernelMicrowire\<close>: the commands of the chip;
    \<^verbatim>\<open>KernelEeprom_Props\<close>, \<^verbatim>\<open>KernelEeprom_Text\<close>: its contents and its text.
  \<^item> \<^verbatim>\<open>KernelDevice\<close>, \<^verbatim>\<open>KernelDevice_Props\<close>, \<^verbatim>\<open>KernelDevice_Flash\<close>: \<^verbatim>\<open>mrfcommon.c\<close>: the file operations.
\<close>

text \<open>
  \<^bold>\<open>What the theorems show.\<close> The properties carry their numbers.

  \<^item> Consistent access (C1 to C5): every interleaving has the effect of the operations executed one after the
    other (refinement of an abstract specification with indivisible operations), running operations are
    disjoint, each client is notified once, every operation ends, no look-up fails.
  \<^item> UDP/IP (C6 to C12, C14): packets on the wire, what happens to each callback in all runs, deadlines and
    sleeping of the send thread, ranges of the congestion control, 32-bit operations against
    a reference over the sequence of replies.
  \<^item> Records (C13, C15, C16,
    C20 to C24): the shift register receives the value, addresses are well
    formed and round trip, records complete with the value or the error of the device, interrupts reach the
    record in order, arrays and strings are transferred whatever the order of the replies.
  \<^item> Memory-mapped access (C17 to C19): requests are notified once, no descriptor or mapping is leaked,
    accesses are aligned and in bounds.
  \<^item> Commands (C25, C26): interrupts post the events that were mapped to them, against a
    list of mappings, and the registers that are read when a device is created are found in its cache.
  \<^item> Threads and messages (C27, C28): no wake-up of a waiting thread is lost, and messages are
    complete within their buffer.
  \<^item> Kernel module (C29 to C32): commands on the SPI bus for every hardware, bounded number of accesses,
    no access outside of a buffer for processes that keep to the discipline \<open>all_permitted\<close>, the flash memory as a
    file.
  \<^item> JTAG (C33 to C36): what the chain of devices sees of the functions, as scans of its registers, for
    every chain and whatever it answers: recognising the devices, preparing, programming and reading the
    platform flash, and what an FPGA sees of its configuration.
  \<^item> EEPROM (C37 to C40): what a chip on the Microwire bus holds after its words are written and
    what is read from it, that the text of the device is read as the words it was printed from, and a text
    that leads beyond its buffer.

  Where the code does not do what it means to, the lemmas next to the properties show what it does (for
  example \<open>second_failure_breaks_exclusion\<close>, \<open>resend_error_notifies_twice\<close>, \<open>unsupported_open_locks\<close>,
  \<open>read_session_keeps_lines\<close>, \<open>ignored_signal_is_called\<close>, \<open>eeprom_opened_twice\<close>,
  \<open>mmap_beyond_bar\<close>, \<open>read_beyond_int\<close>, \<open>first_page_reads_zeros\<close>, \<open>silent_fpga_accepted\<close>).

  \<^bold>\<open>Interfaces.\<close> The locale \<open>bucket_order\<close> states what the consistent access needs of the order of equal keys in
  its multimap; it is interpreted on insertion at either end of a bucket, so that the properties hold for every
  such order. The locale \<open>counted_requests\<close> is the contract of the counter of open replies; it is interpreted
  on the records for waveform output, waveform input and strings. The locale \<open>jtag_bridge\<close> states what the functions
  need of the bits of the register, the locale \<open>microwire\<close> what those of the EEPROM need; both are interpreted on both
  bridges.

  \<^bold>\<open>Bounds and fuel.\<close> Loops whose end depends on hardware keep the retry counts of the source (\<^verbatim>\<open>SPI_RETRY_COUNT\<close>
  and \<^verbatim>\<open>SPI_BE_COUNT\<close>) as the number of rounds; the drain loops of the threads are recursive on the queue. No
  function takes fuel that is not a count of the source. Positions in the devices are below
  \<^verbatim>\<open>2^31 - 1024\<close> in C31 and C32, since the driver keeps them in an \<^verbatim>\<open>int\<close>; the lemma \<open>read_beyond_int\<close> shows why.
  64-bit durations are integers with explicit bounds where overflow matters (\<open>retransmission_timeout_saturates\<close>).

  \<^bold>\<open>Not modelled.\<close> The tables that describe the commands and the registration with EPICS, the category of errors
  of \<^verbatim>\<open>getaddrinfo\<close> (a call of the C library), and the probing of the kernel
  module (registration with the PCI subsystem). In \<^verbatim>\<open>KernelDevice\<close> the functions for the EEPROM and the JTAG interface are recorded calls that the hardware
  answers. \<^verbatim>\<open>::select\<close>, whose wake-ups are arguments of the threads of the client, is that of POSIX. The simulator and the tests are not part of the program.
\<close>

end
